(* ===== verification/Pulse_Prelude.thy ===== *)
theory Pulse_Prelude
  imports Complex_Main "HOL-Library.Char_ord" "HOL-Library.List_Lexorder"
    "HOL-Library.Multiset" "HOL-Library.Sublist"
begin

text \<open>
  What every component of the development shares: the fact collections, the names of the
  model's basic types, and generic lemmas on lists, options and maps.

  Modelling conventions. A Go \<^verbatim>\<open>string\<close> is a byte sequence, hence \<open>string\<close> (a list of
  8-bit characters). A Go \<^verbatim>\<open>int\<close> is an \<open>int\<close>; where the 64-bit range matters the bounds
  \<open>max_int\<close> and \<open>min_int\<close> are written out. A \<^verbatim>\<open>float64\<close> is a \<open>real\<close>: rounding of
  the last binary digit, infinities and NaN are not modelled. A pointer that may be nil is an
  \<open>option\<close>, a map is \<open>'k \<rightharpoonup> 'v\<close>. A \<^verbatim>\<open>time.Time\<close> is the number of nanoseconds since
  Go's zero time (0001-01-01T00:00:00Z) and a \<^verbatim>\<open>time.Duration\<close> a number of nanoseconds.
\<close>

named_theorems bytes_simps \<open>equations that compute the Go string operations\<close>
named_theorems store_simps \<open>how each store operation changes each table\<close>
named_theorems inv_intros \<open>preservation of the components' invariants\<close>

type_synonym rune = nat
type_synonym time = int
type_synonym duration = int
type_synonym float64 = real

definition max_int :: int where
  "max_int = 9223372036854775807"

definition min_int :: int where
  "min_int = - 9223372036854775808"

definition int64_range :: "int \<Rightarrow> bool" where
  "int64_range n \<longleftrightarrow> min_int \<le> n \<and> n \<le> max_int"

text \<open>Arithmetic on \<^verbatim>\<open>int\<close> and \<^verbatim>\<open>int64\<close> wraps around in two's complement.\<close>

definition wrap64 :: "int \<Rightarrow> int" where
  "wrap64 n = (n + 9223372036854775808) mod 18446744073709551616 - 9223372036854775808"

lemma wrap64_id [simp]: "int64_range n \<Longrightarrow> wrap64 n = n"
  by (simp add: wrap64_def int64_range_def max_int_def min_int_def)

lemma wrap64_range: "int64_range (wrap64 n)"
proof -
  have "0 \<le> (n + 9223372036854775808) mod 18446744073709551616"
    "(n + 9223372036854775808) mod 18446744073709551616 < 18446744073709551616" by simp_all
  then show ?thesis unfolding int64_range_def wrap64_def max_int_def min_int_def by linarith
qed

text \<open>Go's integer division truncates towards zero.\<close>

definition quot :: "int \<Rightarrow> int \<Rightarrow> int" where
  "quot a b = sgn a * sgn b * (\<bar>a\<bar> div \<bar>b\<bar>)"

lemma quot_nonneg [simp]: "0 \<le> a \<Longrightarrow> 0 < b \<Longrightarrow> quot a b = a div b"
  by (cases "a = 0") (auto simp: quot_def)

lemma quot_bounds: "0 \<le> a \<Longrightarrow> 1 < b \<Longrightarrow> 0 \<le> quot a b \<and> quot a b \<le> a"
  by (simp add: pos_imp_zdiv_nonneg_iff) (smt (verit) div_by_1 int_div_less_self zdiv_mono2)

section \<open>Lists\<close>

lemma replicate_numeral_step [bytes_simps]: "replicate (numeral k) x = x # replicate (pred_numeral k) x"
  by (simp add: numeral_eq_Suc)

text \<open>Trimming at both ends, the list-level core of \<^verbatim>\<open>strings.Trim\<close>.\<close>

definition trim_by :: "('a \<Rightarrow> bool) \<Rightarrow> 'a list \<Rightarrow> 'a list" where
  "trim_by P xs = rev (dropWhile P (rev (dropWhile P xs)))"

lemma dropWhile_idem_cond: "xs = [] \<or> \<not> P (hd xs) \<Longrightarrow> dropWhile P xs = xs"
  by (cases xs) auto

lemma hd_dropWhile_rev_dropWhile:
  "rev (dropWhile P (rev xs)) \<noteq> [] \<Longrightarrow> hd (rev (dropWhile P (rev xs))) = hd xs"
proof (induction xs rule: rev_induct)
  case Nil
  then show ?case by simp
next
  case (snoc x xs)
  show ?case
  proof (cases "P x")
    case True
    with snoc have "hd (rev (dropWhile P (rev xs))) = hd xs" by simp
    moreover from True snoc.prems have "xs \<noteq> []" by (cases xs) auto
    ultimately show ?thesis using True by simp
  qed simp
qed

lemma trim_by_hd: "trim_by P xs = [] \<or> \<not> P (hd (trim_by P xs))"
proof (cases "trim_by P xs = []")
  case False
  then have "hd (trim_by P xs) = hd (dropWhile P xs)"
    unfolding trim_by_def by (rule hd_dropWhile_rev_dropWhile)
  moreover from False have "dropWhile P xs \<noteq> []"
    by (metis dropWhile.simps(1) rev.simps(1) trim_by_def)
  ultimately show ?thesis by (metis hd_dropWhile)
qed simp

lemma trim_by_idem [simp]: "trim_by P (trim_by P xs) = trim_by P xs"
proof -
  have "dropWhile P (trim_by P xs) = trim_by P xs"
    by (rule dropWhile_idem_cond) (rule trim_by_hd)
  then show ?thesis by (simp add: trim_by_def)
qed

lemma trim_by_map: "trim_by P (map f xs) = map f (trim_by (P \<circ> f) xs)"
  by (simp add: trim_by_def dropWhile_map rev_map)

lemma trim_by_set: "set (trim_by P xs) \<subseteq> set xs"
  unfolding trim_by_def by (auto dest!: set_dropWhileD)

lemma trim_by_Nil [simp]: "trim_by P [] = []"
  by (simp add: trim_by_def)

lemma trim_by_split: "\<exists>ys zs. xs = ys @ trim_by P xs @ zs"
proof -
  have 1: "xs = takeWhile P xs @ dropWhile P xs" by simp
  have "rev (dropWhile P xs) = takeWhile P (rev (dropWhile P xs)) @ dropWhile P (rev (dropWhile P xs))"
    by simp
  then have 2: "dropWhile P xs = trim_by P xs @ rev (takeWhile P (rev (dropWhile P xs)))"
    unfolding trim_by_def by (metis rev_append rev_rev_ident)
  from 1 2 show ?thesis by metis
qed

text \<open>
  Sorting as the code asks for it: a comparison \<open>less\<close> handed to \<^verbatim>\<open>sort.Slice\<close>. Insertion
  by a key is a stable sort; where the keys are distinct every sort agrees with it.
\<close>

lemma sort_key_distinct_unique:
  assumes "distinct (map f xs)" and "mset ys = mset xs" and "sorted (map f ys)"
  shows "ys = sort_key f xs"
proof (rule sort_key_inj_key_eq [symmetric])
  show "mset xs = mset ys" using assms(2) by simp
  show "inj_on f (set xs)" using assms(1) by (simp add: distinct_map)
  show "sorted (map f ys)" by (rule assms(3))
qed

end
