(* ===== verification/Go_Text.thy ===== *)
theory Go_Text
  imports Pulse_Prelude
begin

text \<open>
  The parts of Go's \<^verbatim>\<open>strings\<close>, \<^verbatim>\<open>unicode\<close>, \<^verbatim>\<open>utf8\<close> and \<^verbatim>\<open>strconv\<close> packages
  the program uses, on byte strings. Decoding follows \<^verbatim>\<open>utf8.DecodeRuneInString\<close>: an
  invalid byte is the rune U+FFFD of width 1. Whitespace is Go's table in full. The case
  mappings and the letter, digit and punctuation classes are given for Basic Latin, Latin-1
  and the Cyrillic letters U+0400 to U+045F (and, for punctuation, the General Punctuation
  block); a rune of another block has no case and no class in the model.
\<close>

section \<open>UTF-8\<close>

definition rune_error :: rune where
  "rune_error = 65533"

definition byte_val :: "char \<Rightarrow> nat" where
  "byte_val c = of_char c"

definition byte_of :: "nat \<Rightarrow> char" where
  "byte_of n = char_of n"

definition valid_rune :: "rune \<Rightarrow> bool" where
  "valid_rune r \<longleftrightarrow> r < 55296 \<or> 57344 \<le> r \<and> r \<le> 1114111"

text \<open>The lead byte gives the width and the range of the second byte (Go's tables
  \<^verbatim>\<open>first\<close> and \<^verbatim>\<open>acceptRanges\<close>).\<close>

definition lead_info :: "nat \<Rightarrow> (nat \<times> nat \<times> nat) option" where
  "lead_info b =
     (if b < 194 then None
      else if b \<le> 223 then Some (2, 128, 191)
      else if b = 224 then Some (3, 160, 191)
      else if b = 237 then Some (3, 128, 159)
      else if b \<le> 239 then Some (3, 128, 191)
      else if b = 240 then Some (4, 144, 191)
      else if b \<le> 243 then Some (4, 128, 191)
      else if b = 244 then Some (4, 128, 143)
      else None)"

definition cont_byte :: "nat \<Rightarrow> bool" where
  "cont_byte b \<longleftrightarrow> 128 \<le> b \<and> b \<le> 191"

fun decode_bytes :: "nat list \<Rightarrow> rune \<times> nat" where
  "decode_bytes [] = (rune_error, 0)"
| "decode_bytes (b0 # bs) =
     (if b0 < 128 then (b0, 1)
      else case lead_info b0 of
        None \<Rightarrow> (rune_error, 1)
      | Some (w, lo, hi) \<Rightarrow>
          (case bs of
             [] \<Rightarrow> (rune_error, 1)
           | b1 # bs1 \<Rightarrow>
               if b1 < lo \<or> hi < b1 then (rune_error, 1)
               else if w = 2 then ((b0 - 192) * 64 + (b1 - 128), 2)
               else (case bs1 of
                   [] \<Rightarrow> (rune_error, 1)
                 | b2 # bs2 \<Rightarrow>
                     if \<not> cont_byte b2 then (rune_error, 1)
                     else if w = 3 then
                       ((b0 - 224) * 4096 + (b1 - 128) * 64 + (b2 - 128), 3)
                     else (case bs2 of
                         [] \<Rightarrow> (rune_error, 1)
                       | b3 # bs3 \<Rightarrow>
                           if \<not> cont_byte b3 then (rune_error, 1)
                           else ((b0 - 240) * 262144 + (b1 - 128) * 4096
                                   + (b2 - 128) * 64 + (b3 - 128), 4)))))"

definition decode_rune :: "string \<Rightarrow> rune \<times> nat" where
  "decode_rune s = decode_bytes (map byte_val (take 4 s))"

lemma decode_bytes_width: "bs \<noteq> [] \<Longrightarrow> 0 < snd (decode_bytes bs) \<and> snd (decode_bytes bs) \<le> length bs"
  by (cases bs rule: decode_bytes.cases) (auto split: option.splits list.splits)

lemma decode_rune_width: "s \<noteq> [] \<Longrightarrow> 0 < snd (decode_rune s) \<and> snd (decode_rune s) \<le> length s"
  using decode_bytes_width [of "map byte_val (take 4 s)"]
  unfolding decode_rune_def by (simp del: decode_bytes.simps)

text \<open>A string as the runes a \<^verbatim>\<open>range\<close> loop visits, each with the bytes it came from.\<close>

function chunks :: "string \<Rightarrow> (rune \<times> string) list" where
  "chunks s = (if s = [] then []
     else (case decode_rune s of (r, w) \<Rightarrow> (r, take w s) # chunks (drop w s)))"
  by pat_completeness auto
termination
  by (relation "measure length") (auto, metis decode_rune_width diff_less length_greater_0_conv snd_conv)

declare chunks.simps [simp del]

lemma chunks_Nil [simp, bytes_simps]: "chunks [] = []"
  by (simp add: chunks.simps)

lemma chunks_Cons [bytes_simps]:
  "chunks (c # s) = (case decode_rune (c # s) of (r, w) \<Rightarrow> (r, take w (c # s)) # chunks (drop w (c # s)))"
  by (simp add: chunks.simps)

definition runes :: "string \<Rightarrow> rune list" where
  "runes s = map fst (chunks s)"

definition encode_bytes :: "rune \<Rightarrow> nat list" where
  "encode_bytes r0 = (let r = (if valid_rune r0 then r0 else rune_error) in
     if r < 128 then [r]
     else if r < 2048 then [192 + r div 64, 128 + r mod 64]
     else if r < 65536 then [224 + r div 4096, 128 + (r div 64) mod 64, 128 + r mod 64]
     else [240 + r div 262144, 128 + (r div 4096) mod 64, 128 + (r div 64) mod 64, 128 + r mod 64])"

definition encode_rune :: "rune \<Rightarrow> string" where
  "encode_rune r = map byte_of (encode_bytes r)"

definition encode :: "rune list \<Rightarrow> string" where
  "encode rs = concat (map encode_rune rs)"

lemma byte_val_of [simp]: "n < 256 \<Longrightarrow> byte_val (byte_of n) = n"
  by (simp add: byte_val_def byte_of_def)

lemma byte_val_less [simp]: "byte_val c < 256"
  by (simp add: byte_val_def)

lemma byte_of_val [simp]: "byte_of (byte_val c) = c"
  by (simp add: byte_val_def byte_of_def)

lemma encode_bytes_length: "0 < length (encode_bytes r) \<and> length (encode_bytes r) \<le> 4"
  by (simp add: encode_bytes_def Let_def)

lemma encode_bytes_range: "b \<in> set (encode_bytes r) \<Longrightarrow> b < 256"
  by (auto simp: encode_bytes_def Let_def valid_rune_def rune_error_def split: if_splits)

lemma decode_two: "2 \<le> d \<Longrightarrow> d < 32 \<Longrightarrow> a < 64 \<Longrightarrow>
    decode_bytes ((192 + d) # (128 + a) # rest) = (d * 64 + a, 2)"
  by (simp add: lead_info_def)

lemma decode_three: "d < 16 \<Longrightarrow> a < 64 \<Longrightarrow> b < 64 \<Longrightarrow> (d = 0 \<longrightarrow> 32 \<le> a) \<Longrightarrow> (d = 13 \<longrightarrow> a < 32) \<Longrightarrow>
    decode_bytes ((224 + d) # (128 + a) # (128 + b) # rest) = (d * 4096 + a * 64 + b, 3)"
  by (cases "d = 0"; cases "d = 13") (simp_all add: lead_info_def cont_byte_def)

lemma decode_four: "d \<le> 4 \<Longrightarrow> a < 64 \<Longrightarrow> b < 64 \<Longrightarrow> c < 64 \<Longrightarrow> (d = 0 \<longrightarrow> 16 \<le> a) \<Longrightarrow> (d = 4 \<longrightarrow> a < 16) \<Longrightarrow>
    decode_bytes ((240 + d) # (128 + a) # (128 + b) # (128 + c) # rest)
      = (d * 262144 + a * 4096 + b * 64 + c, 4)"
  by (cases "d = 0"; cases "d = 4") (simp_all add: lead_info_def cont_byte_def)

lemma decode_encode_bytes:
  assumes "valid_rune r"
  shows "decode_bytes (encode_bytes r @ rest) = (r, length (encode_bytes r))"
proof -
  consider "r < 128" | "128 \<le> r" "r < 2048" | "2048 \<le> r" "r < 65536" | "65536 \<le> r" by linarith
  then show ?thesis
  proof cases
    case 1
    then show ?thesis using assms by (simp add: encode_bytes_def)
  next
    case 2
    then have "2 \<le> r div 64" "r div 64 < 32" by auto
    from decode_two [OF this, of "r mod 64" rest] 2 assms show ?thesis
      by (simp add: encode_bytes_def del: decode_bytes.simps)
  next
    case 3
    define q where "q = r div 64"
    have r: "r = 64 * q + r mod 64" and b: "r mod 64 < 64" by (simp_all add: q_def)
    have q: "q = 64 * (q div 64) + q mod 64" and a: "q mod 64 < 64" by simp_all
    have dd: "r div 4096 = q div 64" by (simp add: q_def flip: div_mult2_eq)
    from 3 have q1: "32 \<le> q" "q < 1024" by (auto simp: q_def)
    from 3 assms have q2: "q < 864 \<or> 896 \<le> q" unfolding valid_rune_def q_def by auto
    from q q1 a have z: "q div 64 = 0 \<longrightarrow> 32 \<le> q mod 64" and d: "q div 64 < 16" by linarith+
    from q q2 a have s: "q div 64 = 13 \<longrightarrow> q mod 64 < 32" by linarith
    from q r have e: "q div 64 * 4096 + q mod 64 * 64 + r mod 64 = r" by linarith
    from decode_three [OF d a b z s, of rest] 3 assms show ?thesis
      by (simp add: encode_bytes_def dd e del: decode_bytes.simps flip: q_def)
  next
    case 4
    define q where "q = r div 64"
    define p where "p = q div 64"
    have r: "r = 64 * q + r mod 64" and b: "r mod 64 < 64" by (simp_all add: q_def)
    have q: "q = 64 * p + q mod 64" and a: "q mod 64 < 64" by (simp_all add: p_def)
    have p: "p = 64 * (p div 64) + p mod 64" and c: "p mod 64 < 64" by simp_all
    have dd: "r div 4096 = p" "r div 262144 = p div 64"
      by (simp_all add: q_def p_def flip: div_mult2_eq)
    from 4 have p1: "16 \<le> p" by (auto simp: p_def q_def simp flip: div_mult2_eq)
    from 4 assms have h: "r \<le> 1114111" by (auto simp: valid_rune_def)
    then have p2: "p < 272" by (auto simp: p_def q_def simp flip: div_mult2_eq)
    from p p1 p2 c have z: "p div 64 = 0 \<longrightarrow> 16 \<le> p mod 64" and d: "p div 64 \<le> 4"
      and s: "p div 64 = 4 \<longrightarrow> p mod 64 < 16" by linarith+
    from p q r have e: "p div 64 * 262144 + p mod 64 * 4096 + q mod 64 * 64 + r mod 64 = r"
      by linarith
    from decode_four [OF d c a b z s, of rest] 4 assms show ?thesis
      by (simp add: encode_bytes_def dd e del: decode_bytes.simps flip: q_def)
  qed
qed

lemma decode_rune_encode:
  assumes "valid_rune r"
  shows "decode_rune (encode_rune r @ s) = (r, length (encode_rune r))"
proof -
  have "map byte_val (take 4 (encode_rune r @ s))
      = encode_bytes r @ map byte_val (take (4 - length (encode_bytes r)) s)"
    using encode_bytes_length [of r] encode_bytes_range [of _ r]
    by (simp add: encode_rune_def map_idI)
  then show ?thesis
    unfolding decode_rune_def by (simp add: decode_encode_bytes [OF assms] encode_rune_def)
qed

text \<open>Encoding valid runes and reading them back gives the same runes.\<close>

lemma chunks_encode:
  "\<forall>r \<in> set rs. valid_rune r \<Longrightarrow> chunks (encode rs) = map (\<lambda>r. (r, encode_rune r)) rs"
proof (induction rs)
  case Nil
  then show ?case by (simp add: encode_def)
next
  case (Cons r rs)
  then have "decode_rune (encode_rune r @ encode rs) = (r, length (encode_rune r))"
    by (simp add: decode_rune_encode)
  moreover have "encode_rune r \<noteq> []"
    using encode_bytes_length [of r] by (auto simp: encode_rune_def)
  ultimately show ?case using Cons
    by (subst chunks.simps) (simp add: encode_def)
qed

lemma runes_encode: "\<forall>r \<in> set rs. valid_rune r \<Longrightarrow> runes (encode rs) = rs"
  by (simp add: runes_def chunks_encode comp_def)

subsection \<open>The chunks of a substring cut at rune boundaries\<close>

lemma chunks_concat [simp]: "concat (map snd (chunks s)) = s"
proof (induction s rule: chunks.induct)
  case (1 s)
  then show ?case by (subst chunks.simps) (auto split: prod.splits)
qed

lemma decode_bytes_take:
  "decode_bytes bs = (r, w) \<Longrightarrow> w \<le> n \<Longrightarrow> 0 < n \<Longrightarrow> decode_bytes (take n bs) = (r, w)"
proof (cases bs)
  case Nil
  assume "decode_bytes bs = (r, w)" with Nil show ?thesis by simp
next
  case (Cons b0 bs0)
  assume dec: "decode_bytes bs = (r, w)" and w: "w \<le> n" and n: "0 < n"
  obtain m where m: "n = Suc m" using n by (cases n) auto
  show ?thesis
  proof (cases "b0 < 128 \<or> lead_info b0 = None")
    case True
    with dec Cons m show ?thesis by auto
  next
    case False
    then obtain lw lo hi where li: "lead_info b0 = Some (lw, lo, hi)" by auto
    have "3 \<le> m \<or> m = 0 \<or> m = 1 \<or> m = 2" by linarith
    then show ?thesis
      using dec w False li unfolding Cons m
      by (elim disjE)
        (auto simp: take_Cons' numeral_2_eq_2 split: if_splits list.splits)
  qed
qed

lemma decode_rune_take:
  assumes "decode_rune s = (r, w)" "w \<le> n" "0 < n"
  shows "decode_rune (take n s) = (r, w)"
  using decode_bytes_take [of "map byte_val (take 4 s)" r w n] assms
  unfolding decode_rune_def by (simp add: take_map min.commute del: decode_bytes.simps)

lemma chunks_suffix: "chunks s = xs @ ys \<Longrightarrow> chunks (concat (map snd ys)) = ys"
proof (induction xs arbitrary: s)
  case Nil
  then show ?case by (metis append_Nil chunks_concat)
next
  case (Cons x xs)
  then have "s \<noteq> []" by auto
  with Cons.prems have "chunks (drop (snd (decode_rune s)) s) = xs @ ys"
    by (subst (asm) chunks.simps) (simp split: prod.splits)
  then show ?case by (rule Cons.IH)
qed

lemma chunks_prefix: "chunks s = xs @ ys \<Longrightarrow> chunks (concat (map snd xs)) = xs"
proof (induction xs arbitrary: s)
  case Nil
  then show ?case by simp
next
  case (Cons x xs)
  then have ne: "s \<noteq> []" by auto
  obtain r w where dec: "decode_rune s = (r, w)" by fastforce
  with Cons.prems ne have x: "x = (r, take w s)" and tl: "chunks (drop w s) = xs @ ys"
    by (subst (asm) chunks.simps, simp)+
  have w: "0 < w" "w \<le> length s" using decode_rune_width [OF ne] dec by auto
  let ?X = "concat (map snd xs)"
  have "drop w s = ?X @ concat (map snd ys)"
    by (metis chunks_concat concat_append map_append tl)
  then have X: "take w s @ ?X = take (w + length ?X) s"
    by (metis append_eq_conv_conj take_add)
  then have "decode_rune (take w s @ ?X) = (r, w)"
    using decode_rune_take [OF dec, of "w + length ?X"] w by simp
  moreover have "take w s \<noteq> []" using w ne by simp
  ultimately show ?case
    using Cons.IH [OF tl] w x by (subst chunks.simps) simp
qed

lemma chunks_infix:
  assumes "chunks s = xs @ ys @ zs"
  shows "chunks (concat (map snd ys)) = ys"
  using chunks_prefix [OF chunks_suffix [OF assms]] .

lemma valid_three: "d < 16 \<Longrightarrow> a < 64 \<Longrightarrow> b < 64 \<Longrightarrow> (d = 13 \<longrightarrow> a < 32) \<Longrightarrow>
    valid_rune (d * 4096 + a * 64 + b)"
proof -
  assume h: "d < 16" "a < 64" "b < 64" "d = 13 \<longrightarrow> a < 32"
  consider "d \<le> 12" | "d = 13" | "14 \<le> d" by linarith
  then show ?thesis
  proof cases
    case 1
    with h have "d * 4096 + a * 64 + b < 55296" by linarith
    then show ?thesis by (simp add: valid_rune_def)
  next
    case 2
    with h show ?thesis by (simp add: valid_rune_def)
  next
    case 3
    with h have "57344 \<le> d * 4096 + a * 64 + b" "d * 4096 + a * 64 + b \<le> 1114111" by linarith+
    then show ?thesis by (simp add: valid_rune_def)
  qed
qed

lemma valid_four: "d \<le> 4 \<Longrightarrow> a < 64 \<Longrightarrow> b < 64 \<Longrightarrow> c < 64 \<Longrightarrow> (d = 0 \<longrightarrow> 16 \<le> a) \<Longrightarrow> (d = 4 \<longrightarrow> a < 16) \<Longrightarrow>
    valid_rune (d * 262144 + a * 4096 + b * 64 + c)"
proof -
  assume h: "d \<le> 4" "a < 64" "b < 64" "c < 64" "d = 0 \<longrightarrow> 16 \<le> a" "d = 4 \<longrightarrow> a < 16"
  then have "57344 \<le> d * 262144 + a * 4096 + b * 64 + c" by (cases "d = 0") auto
  moreover from h have "d * 262144 + a * 4096 + b * 64 + c \<le> 1114111" by (cases "d = 4") auto
  ultimately show ?thesis by (simp add: valid_rune_def)
qed

lemma decode_bytes_valid: "valid_rune (fst (decode_bytes bs))"
proof (cases bs)
  case (Cons b0 bs0)
  have err: "valid_rune rune_error" by (simp add: valid_rune_def rune_error_def)
  have small: "b0 < 128 \<Longrightarrow> valid_rune b0" by (simp add: valid_rune_def)
  show ?thesis
  proof (cases "lead_info b0")
    case None
    with Cons err small show ?thesis by simp
  next
    case (Some li)
    obtain w lo hi where li: "li = (w, lo, hi)" by (cases li)
    have two: "w = 2 \<Longrightarrow> \<not> hi < b1 \<Longrightarrow> valid_rune ((b0 - 192) * 64 + (b1 - 128))" for b1
      using Some unfolding li lead_info_def valid_rune_def by (auto split: if_splits)
    have three: "w = 3 \<Longrightarrow> \<not> b1 < lo \<Longrightarrow> \<not> hi < b1 \<Longrightarrow> cont_byte b2 \<Longrightarrow>
        valid_rune ((b0 - 224) * 4096 + (b1 - 128) * 64 + (b2 - 128))" for b1 b2
      using Some unfolding li lead_info_def cont_byte_def
      by (intro valid_three) (auto split: if_splits)
    have four: "w \<noteq> 2 \<Longrightarrow> w \<noteq> 3 \<Longrightarrow> \<not> b1 < lo \<Longrightarrow> \<not> hi < b1 \<Longrightarrow> cont_byte b2 \<Longrightarrow> cont_byte b3 \<Longrightarrow>
        valid_rune ((b0 - 240) * 262144 + (b1 - 128) * 4096 + (b2 - 128) * 64 + (b3 - 128))" for b1 b2 b3
      using Some unfolding li lead_info_def cont_byte_def
      by (intro valid_four) (auto split: if_splits)
    show ?thesis unfolding Cons decode_bytes.simps Some li
      by (simp add: err small two three four split: list.splits)
  qed
qed (simp add: valid_rune_def rune_error_def)

lemma decode_rune_valid: "valid_rune (fst (decode_rune s))"
  unfolding decode_rune_def by (rule decode_bytes_valid)

lemma chunks_valid: "(r, b) \<in> set (chunks s) \<Longrightarrow> valid_rune r"
proof (induction s rule: chunks.induct)
  case (1 s)
  show ?case
  proof (cases "s = []")
    case False
    obtain r' w where dec: "decode_rune s = (r', w)" by fastforce
    with 1 False decode_rune_valid [of s] show ?thesis
      by (subst (asm) (2) chunks.simps) auto
  qed (use 1 in simp)
qed

section \<open>Rune classes and case\<close>

definition is_space :: "rune \<Rightarrow> bool" where
  "is_space r \<longleftrightarrow> 9 \<le> r \<and> r \<le> 13 \<or> r = 32 \<or> r = 133 \<or> r = 160 \<or> r = 5760
     \<or> 8192 \<le> r \<and> r \<le> 8202 \<or> r = 8232 \<or> r = 8233 \<or> r = 8239 \<or> r = 8287 \<or> r = 12288"

definition lower_rune :: "rune \<Rightarrow> rune" where
  "lower_rune r =
     (if 65 \<le> r \<and> r \<le> 90 \<or> 192 \<le> r \<and> r \<le> 222 \<and> r \<noteq> 215 \<or> 1040 \<le> r \<and> r \<le> 1071 then r + 32
      else if 1024 \<le> r \<and> r \<le> 1039 then r + 80 else r)"

definition upper_rune :: "rune \<Rightarrow> rune" where
  "upper_rune r =
     (if 97 \<le> r \<and> r \<le> 122 \<or> 224 \<le> r \<and> r \<le> 254 \<and> r \<noteq> 247 \<or> 1072 \<le> r \<and> r \<le> 1103 then r - 32
      else if r = 181 then 924 else if r = 255 then 376
      else if 1104 \<le> r \<and> r \<le> 1119 then r - 80 else r)"

definition is_letter :: "rune \<Rightarrow> bool" where
  "is_letter r \<longleftrightarrow> 65 \<le> r \<and> r \<le> 90 \<or> 97 \<le> r \<and> r \<le> 122 \<or> r = 170 \<or> r = 181 \<or> r = 186
     \<or> 192 \<le> r \<and> r \<le> 255 \<and> r \<noteq> 215 \<and> r \<noteq> 247 \<or> 1024 \<le> r \<and> r \<le> 1119"

definition is_digit :: "rune \<Rightarrow> bool" where
  "is_digit r \<longleftrightarrow> 48 \<le> r \<and> r \<le> 57"

definition is_punct :: "rune \<Rightarrow> bool" where
  "is_punct r \<longleftrightarrow> r \<in> {33, 34, 35, 37, 38, 39, 40, 41, 42, 44, 45, 46, 47, 58, 59, 63, 64, 91, 92, 93,
       95, 123, 125, 161, 167, 171, 182, 183, 187, 191}
     \<or> 8208 \<le> r \<and> r \<le> 8231 \<or> 8240 \<le> r \<and> r \<le> 8286 \<and> r \<noteq> 8260 \<and> r \<noteq> 8274"

lemma lower_rune_idem [simp]: "lower_rune (lower_rune r) = lower_rune r"
  by (auto simp: lower_rune_def)

lemma upper_rune_cases:
  obtains (same) "upper_rune r = r"
  | (shift32) k where "r = 32 + k" "upper_rune r = k"
      "65 \<le> k \<and> k \<le> 90 \<or> 192 \<le> k \<and> k \<le> 222 \<and> k \<noteq> 215 \<or> 1040 \<le> k \<and> k \<le> 1071"
  | (shift80) k where "r = 80 + k" "upper_rune r = k" "1024 \<le> k" "k \<le> 1039"
  | (micro) "r = 181" "upper_rune r = 924"
  | (ydia) "r = 255" "upper_rune r = 376"
proof -
  let ?A = "97 \<le> r \<and> r \<le> 122 \<or> 224 \<le> r \<and> r \<le> 254 \<and> r \<noteq> 247 \<or> 1072 \<le> r \<and> r \<le> 1103"
  let ?B = "1104 \<le> r \<and> r \<le> 1119"
  consider "?A" | "?B" | "r = 181" | "r = 255" | "\<not> ?A" "\<not> ?B" "r \<noteq> 181" "r \<noteq> 255" by blast
  then show ?thesis
  proof cases
    case 1
    then have "32 \<le> r" by linarith
    then obtain k where k: "r = 32 + k" using le_Suc_ex by blast
    from 1 have "upper_rune r = r - 32" unfolding upper_rune_def by presburger
    with k have u: "upper_rune r = k" by simp
    from 1 k have "65 \<le> k \<and> k \<le> 90 \<or> 192 \<le> k \<and> k \<le> 222 \<and> k \<noteq> 215 \<or> 1040 \<le> k \<and> k \<le> 1071"
      by linarith
    then show ?thesis by (rule shift32 [OF k u])
  next
    case 2
    then have "80 \<le> r" by linarith
    then obtain k where k: "r = 80 + k" using le_Suc_ex by blast
    with 2 show ?thesis by (intro shift80 [OF k]) (simp_all add: upper_rune_def)
  next
    case 3
    then show ?thesis by (intro micro) (simp_all add: upper_rune_def)
  next
    case 4
    then show ?thesis by (intro ydia) (simp_all add: upper_rune_def)
  next
    case 5
    then show ?thesis by (intro same) (simp only: upper_rune_def if_False simp_thms)
  qed
qed

lemma upper_rune_idem [simp]: "upper_rune (upper_rune r) = upper_rune r"
proof (cases r rule: upper_rune_cases)
  case (shift32 k)
  then show ?thesis by (auto simp: upper_rune_def)
qed (simp_all add: upper_rune_def)

lemma is_space_lower [simp]: "is_space (lower_rune r) = is_space r"
  by (auto simp: lower_rune_def is_space_def)

lemma is_space_upper [simp]: "is_space (upper_rune r) = is_space r"
proof (cases r rule: upper_rune_cases)
  case (shift32 k)
  then have "\<not> is_space k" "\<not> is_space (32 + k)" unfolding is_space_def by linarith+
  with shift32 show ?thesis by simp
next
  case (shift80 k)
  then have "\<not> is_space k" "\<not> is_space (80 + k)" unfolding is_space_def by linarith+
  with shift80 show ?thesis by simp
qed (simp_all add: is_space_def)

lemma valid_rune_lower [simp]: "valid_rune r \<Longrightarrow> valid_rune (lower_rune r)"
  by (auto simp: lower_rune_def valid_rune_def)

lemma valid_rune_upper [simp]: "valid_rune r \<Longrightarrow> valid_rune (upper_rune r)"
  by (cases r rule: upper_rune_cases) (auto simp: valid_rune_def)

section \<open>The string operations\<close>

definition TrimSpace :: "string \<Rightarrow> string" where
  "TrimSpace s = concat (map snd (trim_by (\<lambda>c. is_space (fst c)) (chunks s)))"

definition ToLower :: "string \<Rightarrow> string" where
  "ToLower s = encode (map lower_rune (runes s))"

definition ToUpper :: "string \<Rightarrow> string" where
  "ToUpper s = encode (map upper_rune (runes s))"

lemma runes_valid: "r \<in> set (runes s) \<Longrightarrow> valid_rune r"
  by (auto simp: runes_def dest: chunks_valid)

lemma chunks_TrimSpace: "chunks (TrimSpace s) = trim_by (\<lambda>c. is_space (fst c)) (chunks s)"
proof -
  obtain xs zs where "chunks s = xs @ trim_by (\<lambda>c. is_space (fst c)) (chunks s) @ zs"
    using trim_by_split by blast
  then show ?thesis unfolding TrimSpace_def by (rule chunks_infix)
qed

lemma TrimSpace_idem [simp]: "TrimSpace (TrimSpace s) = TrimSpace s"
  unfolding TrimSpace_def [of "TrimSpace s"] chunks_TrimSpace by (simp add: TrimSpace_def)

lemma runes_ToLower: "runes (ToLower s) = map lower_rune (runes s)"
  unfolding ToLower_def by (rule runes_encode) (auto dest: runes_valid)

lemma runes_ToUpper: "runes (ToUpper s) = map upper_rune (runes s)"
  unfolding ToUpper_def by (rule runes_encode) (auto dest: runes_valid)

lemma ToLower_idem [simp]: "ToLower (ToLower s) = ToLower s"
  unfolding ToLower_def [of "ToLower s"] runes_ToLower by (simp add: ToLower_def comp_def)

lemma ToUpper_idem [simp]: "ToUpper (ToUpper s) = ToUpper s"
  unfolding ToUpper_def [of "ToUpper s"] runes_ToUpper by (simp add: ToUpper_def comp_def)

lemma TrimSpace_encode:
  assumes "\<forall>r \<in> set rs. valid_rune r"
  shows "TrimSpace (encode rs) = encode (trim_by is_space rs)"
  unfolding TrimSpace_def chunks_encode [OF assms] trim_by_map
  by (simp add: encode_def comp_def)

text \<open>Trimming commutes with the case mappings: neither changes which runes are spaces.\<close>

lemma TrimSpace_ToUpper: "TrimSpace (ToUpper (TrimSpace s)) = ToUpper (TrimSpace s)"
proof -
  let ?rs = "map upper_rune (runes (TrimSpace s))"
  have "trim_by is_space ?rs = ?rs"
    unfolding trim_by_map runes_def chunks_TrimSpace by (simp add: comp_def trim_by_map)
  moreover have "\<forall>r \<in> set ?rs. valid_rune r" by (auto dest: runes_valid)
  ultimately show ?thesis by (simp add: ToUpper_def TrimSpace_encode)
qed

lemma TrimSpace_ToLower: "TrimSpace (ToLower (TrimSpace s)) = ToLower (TrimSpace s)"
proof -
  let ?rs = "map lower_rune (runes (TrimSpace s))"
  have "trim_by is_space ?rs = ?rs"
    unfolding trim_by_map runes_def chunks_TrimSpace by (simp add: comp_def trim_by_map)
  moreover have "\<forall>r \<in> set ?rs. valid_rune r" by (auto dest: runes_valid)
  ultimately show ?thesis by (simp add: ToLower_def TrimSpace_encode)
qed

section \<open>Searching, splitting and joining\<close>

definition HasPrefix :: "string \<Rightarrow> string \<Rightarrow> bool" where
  "HasPrefix s p \<longleftrightarrow> take (length p) s = p"

definition HasSuffix :: "string \<Rightarrow> string \<Rightarrow> bool" where
  "HasSuffix s p \<longleftrightarrow> length p \<le> length s \<and> drop (length s - length p) s = p"

definition TrimPrefix :: "string \<Rightarrow> string \<Rightarrow> string" where
  "TrimPrefix s p = (if HasPrefix s p then drop (length p) s else s)"

fun Contains :: "string \<Rightarrow> string \<Rightarrow> bool" where
  "Contains [] p \<longleftrightarrow> p = []"
| "Contains (c # s) p \<longleftrightarrow> HasPrefix (c # s) p \<or> Contains s p"

definition ContainsAny :: "string \<Rightarrow> string \<Rightarrow> bool" where
  "ContainsAny s cs \<longleftrightarrow> list_ex (\<lambda>c. List.member cs c) s"

text \<open>Replacing a non-empty substring, left to right, without rescanning.\<close>

function ReplaceAll :: "string \<Rightarrow> string \<Rightarrow> string \<Rightarrow> string" where
  "ReplaceAll s old new =
     (if old = [] \<or> s = [] then s
      else if HasPrefix s old then new @ ReplaceAll (drop (length old) s) old new
      else hd s # ReplaceAll (tl s) old new)"
  by pat_completeness auto
termination
  by (relation "measure (\<lambda>(s, old, new). length s)") (auto simp: HasPrefix_def)

declare ReplaceAll.simps [simp del]

fun Join :: "string list \<Rightarrow> string \<Rightarrow> string" where
  "Join [] sep = []"
| "Join [x] sep = x"
| "Join (x # y # xs) sep = x @ sep @ Join (y # xs) sep"

text \<open>Splitting at one separator byte (\<^verbatim>\<open>strings.Split\<close> with a one-byte separator).\<close>

fun Split :: "string \<Rightarrow> char \<Rightarrow> string list" where
  "Split [] sep = [[]]"
| "Split (c # s) sep =
     (if c = sep then [] # Split s sep
      else (case Split s sep of [] \<Rightarrow> [[c]] | x # xs \<Rightarrow> (c # x) # xs))"

lemma Split_nonempty [simp]: "Split s sep \<noteq> []"
  by (induction s sep rule: Split.induct) (auto split: list.splits)

lemma Join_Split: "Join (Split s sep) [sep] = s"
proof (induction s sep rule: Split.induct)
  case (2 c s sep)
  obtain x xs where "Split s sep = x # xs" by (meson Split_nonempty neq_Nil_conv)
  with 2 show ?case by (cases xs) auto
qed simp

lemma Split_no_sep: "x \<in> set (Split s sep) \<Longrightarrow> sep \<notin> set x"
  by (induction s sep arbitrary: x rule: Split.induct) (auto split: list.splits if_splits)

lemma Split_append: "Split (s @ sep # t) sep = Split s sep @ Split t sep"
proof (induction s)
  case (Cons c s)
  obtain x xs where "Split s sep = x # xs" by (meson Split_nonempty neq_Nil_conv)
  with Cons show ?case by simp
qed simp

lemma Split_no_occurrence: "sep \<notin> set s \<Longrightarrow> Split s sep = [s]"
  by (induction s) auto

lemma Split_Join:
  "xs \<noteq> [] \<Longrightarrow> \<forall>x \<in> set xs. sep \<notin> set x \<Longrightarrow> Split (Join xs [sep]) sep = xs"
  by (induction xs "[sep]" rule: Join.induct) (auto simp: Split_no_occurrence Split_append)

section \<open>Decimal numbers\<close>

definition digit_char :: "nat \<Rightarrow> char" where
  "digit_char d = byte_of (48 + d)"

fun digits :: "nat \<Rightarrow> string" where
  "digits n = (if n < 10 then [digit_char n] else digits (n div 10) @ [digit_char (n mod 10)])"

declare digits.simps [simp del]

definition Itoa :: "int \<Rightarrow> string" where
  "Itoa n = (if n < 0 then CHR ''-'' # digits (nat (- n)) else digits (nat n))"

fun parse_digits :: "nat \<Rightarrow> string \<Rightarrow> nat option" where
  "parse_digits acc [] = Some acc"
| "parse_digits acc (c # cs) =
     (if 48 \<le> byte_val c \<and> byte_val c \<le> 57
      then parse_digits (10 * acc + (byte_val c - 48)) cs else None)"

text \<open>\<^verbatim>\<open>strconv.Atoi\<close>: \<open>None\<close> for a syntax error or a value outside 64 bits.\<close>

definition Atoi :: "string \<Rightarrow> int option" where
  "Atoi s =
     (let neg = (s \<noteq> [] \<and> hd s = CHR ''-'');
          body = (if s \<noteq> [] \<and> (hd s = CHR ''-'' \<or> hd s = CHR ''+'') then tl s else s)
      in if body = [] then None
         else (case parse_digits 0 body of
             None \<Rightarrow> None
           | Some n \<Rightarrow> (let v = (if neg then - int n else int n)
                        in if int64_range v then Some v else None)))"

lemma byte_val_digit [simp]: "d < 10 \<Longrightarrow> byte_val (digit_char d) = 48 + d"
  by (simp add: digit_char_def)

lemma digits_nonempty [simp]: "digits n \<noteq> []"
  by (subst digits.simps) simp

lemma parse_digits_append:
  "parse_digits acc (xs @ ys) = (case parse_digits acc xs of None \<Rightarrow> None | Some a \<Rightarrow> parse_digits a ys)"
  by (induction acc xs rule: parse_digits.induct) auto

lemma parse_digits_digits: "parse_digits 0 (digits n) = Some n"
proof (induction n rule: digits.induct)
  case (1 n)
  show ?case
  proof (cases "n < 10")
    case True
    then show ?thesis by (subst digits.simps) simp
  next
    case False
    with 1 show ?thesis by (subst digits.simps) (simp add: parse_digits_append)
  qed
qed

lemma digits_all: "list_all (\<lambda>c. 48 \<le> byte_val c \<and> byte_val c \<le> 57) (digits n)"
proof (induction n rule: digits.induct)
  case (1 n)
  have "n mod 10 \<le> 9" by presburger
  with 1 show ?case by (subst digits.simps) (simp add: list_all_append)
qed

lemma hd_digits: "48 \<le> byte_val (hd (digits n)) \<and> byte_val (hd (digits n)) \<le> 57"
  using digits_all [of n] by (simp add: list_all_iff)

lemma digits_hd_not_sign: "hd (digits n) \<noteq> CHR ''-''" "hd (digits n) \<noteq> CHR ''+''"
  using hd_digits [of n] by (auto simp: byte_val_def)

lemma Atoi_Itoa: "int64_range n \<Longrightarrow> Atoi (Itoa n) = Some n"
  by (simp add: Atoi_def Itoa_def parse_digits_digits digits_hd_not_sign)

text \<open>No digit is a space, so trimming leaves a printed number alone.\<close>

lemma decode_rune_ascii: "byte_val c < 128 \<Longrightarrow> decode_rune (c # s) = (byte_val c, 1)"
  by (simp add: decode_rune_def)

lemma chunks_ascii:
  "list_all (\<lambda>c. byte_val c < 128) s \<Longrightarrow> chunks s = map (\<lambda>c. (byte_val c, [c])) s"
  by (induction s) (simp_all add: chunks_Cons decode_rune_ascii)

lemma TrimSpace_ascii:
  assumes "list_all (\<lambda>c. byte_val c < 128) s"
  shows "TrimSpace s = trim_by (\<lambda>c. is_space (byte_val c)) s"
  unfolding TrimSpace_def chunks_ascii [OF assms] trim_by_map by (simp add: comp_def)

lemma trim_by_none: "list_all (\<lambda>x. \<not> P x) xs \<Longrightarrow> trim_by P xs = xs"
proof -
  assume "list_all (\<lambda>x. \<not> P x) xs"
  moreover have "list_all (\<lambda>x. \<not> P x) ys \<Longrightarrow> dropWhile P ys = ys" for ys
    by (cases ys) simp_all
  ultimately show ?thesis by (simp add: trim_by_def)
qed

lemma TrimSpace_plain:
  assumes "list_all (\<lambda>c. 32 < byte_val c \<and> byte_val c < 127) s"
  shows "TrimSpace s = s"
proof -
  have "list_all (\<lambda>c. \<not> is_space (byte_val c)) s" "list_all (\<lambda>c. byte_val c < 128) s"
    using assms by (auto simp: list_all_iff is_space_def)
  then show ?thesis by (simp add: TrimSpace_ascii trim_by_none)
qed

lemma TrimSpace_Itoa: "TrimSpace (Itoa n) = Itoa n"
proof (rule TrimSpace_plain)
  have "list_all (\<lambda>c. 32 < byte_val c \<and> byte_val c < 127) (digits m)" for m
    using digits_all [of m] by (auto simp: list_all_iff)
  then show "list_all (\<lambda>c. 32 < byte_val c \<and> byte_val c < 127) (Itoa n)"
    by (simp add: Itoa_def byte_val_def)
qed

text \<open>Cutting a text after a number of runes, as \<^verbatim>\<open>string([]rune(s)[:n])\<close> does.\<close>

definition bound_runes :: "nat \<Rightarrow> string \<Rightarrow> string" where
  "bound_runes n s = (if length (runes s) \<le> n then s else encode (take n (runes s)))"

lemma bound_runes_length: "length (runes (bound_runes n s)) \<le> n"
proof (cases "length (runes s) \<le> n")
  case False
  have "\<forall>r \<in> set (take n (runes s)). valid_rune r"
    by (auto dest: in_set_takeD runes_valid)
  with False show ?thesis by (simp add: bound_runes_def runes_encode)
qed (simp add: bound_runes_def)

section \<open>Replacing a rune\<close>

text \<open>On encoded text, replacing the bytes of one rune by those of another is a map over
  the runes: UTF-8 is self-synchronising.\<close>

lemma ReplaceAll_Nil [simp]: "ReplaceAll [] old new = []"
  by (simp add: ReplaceAll.simps)

lemma ReplaceAll_skip:
  assumes "\<forall>k < length xs. \<not> HasPrefix (drop k xs @ rest) old"
  shows "ReplaceAll (xs @ rest) old new = xs @ ReplaceAll rest old new"
  using assms
proof (induction xs)
  case (Cons x xs)
  have "\<not> HasPrefix (x # xs @ rest) old" using Cons.prems by force
  moreover have "\<forall>k < length xs. \<not> HasPrefix (drop k xs @ rest) old"
    using Cons.prems by force
  ultimately show ?case using Cons.IH
    by (subst ReplaceAll.simps) (auto simp: HasPrefix_def)
qed simp

lemma encode_bytes_tail: "b \<in> set (tl (encode_bytes r)) \<Longrightarrow> cont_byte b"
  by (auto simp: encode_bytes_def Let_def cont_byte_def split: if_splits)

lemma encode_bytes_head: "\<not> cont_byte (hd (encode_bytes r))"
  by (auto simp: encode_bytes_def Let_def cont_byte_def)

lemma encode_rune_nonempty [simp]: "encode_rune r \<noteq> []"
  using encode_bytes_length [of r] by (auto simp: encode_rune_def)

lemma encode_rune_head: "\<not> cont_byte (byte_val (hd (encode_rune r)))"
proof -
  have "hd (encode_bytes r) \<in> set (encode_bytes r)"
    using encode_bytes_length [of r] by (intro hd_in_set) auto
  then have "hd (encode_bytes r) < 256" by (rule encode_bytes_range)
  moreover have "hd (encode_rune r) = byte_of (hd (encode_bytes r))"
    using encode_bytes_length [of r] by (auto simp: encode_rune_def hd_map)
  ultimately show ?thesis using encode_bytes_head [of r] by simp
qed

lemma encode_rune_tail:
  assumes "0 < k" "k < length (encode_rune r)"
  shows "cont_byte (byte_val (encode_rune r ! k))"
proof -
  have "encode_bytes r ! k = tl (encode_bytes r) ! (k - 1)" "k - 1 < length (tl (encode_bytes r))"
    using assms by (auto simp: encode_rune_def nth_tl)
  then have b: "encode_bytes r ! k \<in> set (tl (encode_bytes r))" by simp
  from b have "cont_byte (encode_bytes r ! k)" by (rule encode_bytes_tail)
  then have "encode_bytes r ! k < 256" by (simp add: cont_byte_def)
  with b assms show ?thesis by (simp add: encode_rune_def encode_bytes_tail)
qed

lemma HasPrefix_encode_rune:
  assumes "valid_rune r" "valid_rune a"
  shows "HasPrefix (encode_rune r @ rest) (encode_rune a) \<longleftrightarrow> r = a"
proof
  assume "HasPrefix (encode_rune r @ rest) (encode_rune a)"
  then obtain t where "encode_rune r @ rest = encode_rune a @ t"
    by (metis HasPrefix_def append_take_drop_id)
  then have "decode_rune (encode_rune a @ t) = (r, length (encode_rune r))"
    by (metis assms(1) decode_rune_encode)
  then show "r = a" using decode_rune_encode [OF assms(2)] by simp
qed (simp add: HasPrefix_def)

lemma ReplaceAll_encode:
  assumes "valid_rune a" "\<forall>r \<in> set rs. valid_rune r"
  shows "ReplaceAll (encode rs) (encode_rune a) (encode_rune b)
    = encode (map (\<lambda>r. if r = a then b else r) rs)"
  using assms(2)
proof (induction rs)
  case Nil
  then show ?case by (simp add: encode_def)
next
  case (Cons r rs)
  then have IH: "ReplaceAll (encode rs) (encode_rune a) (encode_rune b)
      = encode (map (\<lambda>r. if r = a then b else r) rs)" and r: "valid_rune r" by auto
  have enc: "encode (r # rs) = encode_rune r @ encode rs" for r rs by (simp add: encode_def)
  show ?case
  proof (cases "r = a")
    case True
    then have "HasPrefix (encode_rune r @ encode rs) (encode_rune a)" by (simp add: HasPrefix_def)
    with True IH show ?thesis unfolding enc by (subst ReplaceAll.simps) (simp add: enc)
  next
    case False
    have "\<not> HasPrefix (drop k (encode_rune r) @ encode rs) (encode_rune a)"
      if k: "k < length (encode_rune r)" for k
    proof (cases "k = 0")
      case True
      with False show ?thesis by (simp add: HasPrefix_encode_rune r assms(1))
    next
      case k0: False
      have "cont_byte (byte_val (hd (drop k (encode_rune r))))"
        using encode_rune_tail [of k r] k k0 by (simp add: hd_drop_conv_nth)
      then show ?thesis
        using encode_rune_head [of a] k
        by (cases "encode_rune a"; cases "drop k (encode_rune r)") (auto simp: HasPrefix_def)
    qed
    then have "ReplaceAll (encode_rune r @ encode rs) (encode_rune a) (encode_rune b)
        = encode_rune r @ ReplaceAll (encode rs) (encode_rune a) (encode_rune b)"
      by (intro ReplaceAll_skip) simp
    with False IH show ?thesis by (simp add: enc)
  qed
qed

section \<open>Cyrillic literals\<close>

text \<open>
  Russian texts of the source, written letter for letter in ASCII: each Latin letter and each
  digit of the table stands for one Cyrillic letter, everything else for itself.
\<close>

definition ru_letters :: string where
  "ru_letters = ''abvgdejziyklmnoprstufhc4w59387'' @ ''0q''"

fun position :: "'a \<Rightarrow> 'a list \<Rightarrow> nat option" where
  "position x [] = None"
| "position x (y # ys) = (if x = y then Some 0 else map_option Suc (position x ys))"

definition ru_rune :: "char \<Rightarrow> rune" where
  "ru_rune c =
     (if c = CHR ''6'' then 1105
      else case position c ru_letters of
        Some i \<Rightarrow> 1072 + i
      | None \<Rightarrow>
          (case position (byte_of (byte_val c + 32)) ru_letters of
             Some i \<Rightarrow> if 65 \<le> byte_val c \<and> byte_val c \<le> 90 then 1040 + i else byte_val c
           | None \<Rightarrow> byte_val c))"

definition ru :: "string \<Rightarrow> string" where
  "ru s = encode (map ru_rune s)"

section \<open>Evaluation\<close>

text \<open>\<open>simp add: bytes_simps\<close> computes the operations above on literal strings.\<close>

declare decode_rune_def [bytes_simps] byte_val_def [bytes_simps] trim_by_def [bytes_simps]
  is_space_def [bytes_simps] upper_rune_def [bytes_simps] lower_rune_def [bytes_simps]
  TrimSpace_def [bytes_simps] ToUpper_def [bytes_simps] ToLower_def [bytes_simps]
  encode_def [bytes_simps] encode_rune_def [bytes_simps] encode_bytes_def [bytes_simps]
  valid_rune_def [bytes_simps] byte_of_def [bytes_simps] lead_info_def [bytes_simps]
  cont_byte_def [bytes_simps] runes_def [bytes_simps] char_of_def [bytes_simps] bit_0 [bytes_simps]
  HasPrefix_def [bytes_simps] HasSuffix_def [bytes_simps] TrimPrefix_def [bytes_simps]
  ContainsAny_def [bytes_simps] ReplaceAll.simps [bytes_simps] digit_char_def [bytes_simps]
  digits.simps [bytes_simps] Itoa_def [bytes_simps] Atoi_def [bytes_simps]
  ru_letters_def [bytes_simps] ru_rune_def [bytes_simps] ru_def [bytes_simps]
  is_letter_def [bytes_simps] is_digit_def [bytes_simps] is_punct_def [bytes_simps]

end
