(* ===== verification/Go_Time.thy ===== *)
theory Go_Time
  imports Go_Text
begin

text \<open>
  The parts of Go's \<^verbatim>\<open>time\<close> package the program uses. A time is the number of nanoseconds
  since 0001-01-01T00:00:00Z, so the zero value of \<^verbatim>\<open>time.Time\<close> is 0; every time the program
  handles is taken to UTC first, so no location is kept. Calendar dates follow the proleptic
  Gregorian calendar.
\<close>

definition Nanosecond :: duration where "Nanosecond = 1"
definition Millisecond :: duration where "Millisecond = 1000000"
definition Second :: duration where "Second = 1000000000"
definition Minute :: duration where "Minute = 60000000000"
definition Hour :: duration where "Hour = 3600000000000"
definition Day :: duration where "Day = 86400000000000"

lemmas time_units = Nanosecond_def Millisecond_def Second_def Minute_def Hour_def Day_def

definition IsZero :: "time \<Rightarrow> bool" where
  "IsZero t \<longleftrightarrow> t = 0"

definition Truncate :: "time \<Rightarrow> duration \<Rightarrow> time" where
  "Truncate t d = (if d \<le> 0 then t else t - t mod d)"

text \<open>\<^verbatim>\<open>t.Sub(u)\<close> saturates at the largest and smallest duration.\<close>

definition Sub :: "time \<Rightarrow> time \<Rightarrow> duration" where
  "Sub t u = max min_int (min max_int (t - u))"

text \<open>Midnight of the day of a time, and \<^verbatim>\<open>AddDate(0, 0, n)\<close>.\<close>

definition day_start :: "time \<Rightarrow> time" where
  "day_start t = t - t mod Day"

definition add_days :: "time \<Rightarrow> int \<Rightarrow> time" where
  "add_days t n = t + n * Day"

lemma Truncate_le: "0 < d \<Longrightarrow> Truncate t d \<le> t"
  by (simp add: Truncate_def)

lemma Truncate_idem: "Truncate (Truncate t d) d = Truncate t d"
  by (simp add: Truncate_def mod_diff_left_eq)

lemma Truncate_multiple: "0 < d \<Longrightarrow> d dvd Truncate t d"
  by (simp add: Truncate_def)

lemma Truncate_greatest: "0 < d \<Longrightarrow> d dvd u \<Longrightarrow> u \<le> t \<Longrightarrow> u \<le> Truncate t d"
proof -
  assume d: "0 < d" "d dvd u" "u \<le> t"
  obtain k where u: "u = d * k" using d(2) by blast
  have t: "Truncate t d = d * (t div d)"
    using d(1) by (simp add: Truncate_def minus_mod_eq_mult_div)
  have "k \<le> t div d" using d u by (metis nonzero_mult_div_cancel_left less_irrefl zdiv_mono1)
  with d(1) u t show ?thesis by (simp add: mult_left_mono)
qed

lemma day_start_idem [simp]: "day_start (day_start t) = day_start t"
  by (simp add: day_start_def mod_diff_left_eq)

lemma day_start_le: "day_start t \<le> t"
  by (simp add: day_start_def Day_def)

lemma day_start_add_days: "day_start (add_days t n) = add_days (day_start t) n"
  by (simp add: day_start_def add_days_def)

section \<open>Calendar\<close>

definition leap_year :: "int \<Rightarrow> bool" where
  "leap_year y \<longleftrightarrow> y mod 4 = 0 \<and> (y mod 100 \<noteq> 0 \<or> y mod 400 = 0)"

definition month_lengths :: "bool \<Rightarrow> int list" where
  "month_lengths leap = [31, if leap then 29 else 28, 31, 30, 31, 30, 31, 31, 30, 31, 30, 31]"

fun month_day :: "int list \<Rightarrow> int \<Rightarrow> int \<Rightarrow> int \<times> int" where
  "month_day [] m d = (m, d + 1)"
| "month_day (l # ls) m d = (if d < l then (m, d + 1) else month_day ls (m + 1) (d - l))"

text \<open>The date of a day counted from 0001-01-01: cycles of 400, 100, 4 and 1 years.\<close>

definition civil_from_days :: "int \<Rightarrow> int \<times> int \<times> int" where
  "civil_from_days n =
     (let n400 = n div 146097; r = n mod 146097;
          n100 = min 3 (r div 36524); r = r - 36524 * n100;
          n4 = r div 1461; r = r mod 1461;
          n1 = min 3 (r div 365); yday = r - 365 * n1;
          y = 400 * n400 + 100 * n100 + 4 * n4 + n1 + 1;
          (m, d) = month_day (month_lengths (leap_year y)) 1 yday
      in (y, m, d))"

definition days_of :: "time \<Rightarrow> int" where
  "days_of t = t div Day"

definition civil_date :: "time \<Rightarrow> int \<times> int \<times> int" where
  "civil_date t = civil_from_days (days_of t)"

text \<open>\<^verbatim>\<open>time.Weekday\<close>: Sunday is 0; 0001-01-01 was a Monday.\<close>

definition Weekday :: "time \<Rightarrow> int" where
  "Weekday t = (days_of t + 1) mod 7"

definition pad :: "nat \<Rightarrow> int \<Rightarrow> string" where
  "pad w n = (let ds = digits (nat n) in replicate (w - length ds) (CHR ''0'') @ ds)"

text \<open>The layouts \<^verbatim>\<open>2006-01-02\<close> and RFC 3339 in UTC, for years 1 to 9999.\<close>

definition format_date :: "time \<Rightarrow> string" where
  "format_date t = (case civil_date t of (y, m, d) \<Rightarrow>
     pad 4 y @ ''-'' @ pad 2 m @ ''-'' @ pad 2 d)"

definition format_rfc3339 :: "time \<Rightarrow> string" where
  "format_rfc3339 t = (let s = (t mod Day) div Second in
     format_date t @ ''T'' @ pad 2 (s div 3600) @ '':'' @ pad 2 (s div 60 mod 60) @ '':''
       @ pad 2 (s mod 60) @ ''Z'')"

text \<open>The date only depends on the day: every time of a day prints like its midnight.\<close>

lemma days_of_day_start [simp]: "days_of (day_start t) = days_of t"
  by (simp add: days_of_def day_start_def minus_mod_eq_mult_div Day_def)

lemma format_date_day_start [simp]: "format_date (day_start t) = format_date t"
  by (simp add: format_date_def civil_date_def)

lemma Weekday_shift: "Weekday (add_days t n) = (Weekday t + n) mod 7"
proof -
  have "days_of (add_days t n) = days_of t + n"
    by (simp add: days_of_def add_days_def Day_def)
  then show ?thesis by (simp add: Weekday_def mod_simps algebra_simps)
qed

section \<open>Formatting loses nothing\<close>

lemma month_day_inverse:
  "month_day ls m d = (m', d') \<Longrightarrow> m \<le> m' \<and> d = sum_list (take (nat (m' - m)) ls) + d' - 1 \<and> (0 \<le> d \<longrightarrow> 1 \<le> d')"
proof (induction ls arbitrary: m d)
  case (Cons l ls)
  show ?case
  proof (cases "d < l")
    case False
    with Cons have IH: "m + 1 \<le> m'" "d - l = sum_list (take (nat (m' - (m + 1))) ls) + d' - 1" "0 \<le> d - l \<longrightarrow> 1 \<le> d'"
      by auto
    then have "nat (m' - m) = Suc (nat (m' - (m + 1)))" by linarith
    with IH False show ?thesis by auto
  qed (use Cons.prems in auto)
qed auto

lemma cycle_digits:
  fixes A B C D :: int
  assumes "0 \<le> B" "B \<le> 3" "0 \<le> C" "C \<le> 24" "0 \<le> D" "D \<le> 3" and a: "a = 400 * A + 100 * B + 4 * C + D"
  shows "a div 4 = 100 * A + 25 * B + C" "a div 100 = 4 * A + B" "a div 400 = A"
  using assms by linarith+

lemma century_split:
  assumes "0 \<le> r" "r < 146097" and B: "B = min 3 (r div 36524)"
  shows "0 \<le> B" "B \<le> 3" "36524 * B \<le> (r :: int)" "r - 36524 * B \<le> 36524"
proof -
  have "36524 * (r div 36524) \<le> r" "r < 36524 * (r div 36524) + 36524" "0 \<le> r div 36524" using assms(1) by linarith+
  then show "0 \<le> B" "B \<le> 3" "36524 * B \<le> r" "r - 36524 * B \<le> 36524" using assms(2) unfolding B min_def by (simp_all split: if_split)
qed

lemma year_split:
  assumes "0 \<le> r" and D: "D = min 3 (r div 365)"
  shows "0 \<le> D" "D \<le> 3" "365 * D \<le> (r :: int)"
proof -
  have "365 * (r div 365) \<le> r" "0 \<le> r div 365" using assms(1) by linarith+
  then show "0 \<le> D" "D \<le> 3" "365 * D \<le> r" unfolding D min_def by (simp_all split: if_split)
qed

lemma civil_from_days_inverse:
  assumes "civil_from_days n = (y, m, d)" "0 \<le> n"
  defines "k \<equiv> y - 1"
  shows "n = 365 * k + k div 4 - k div 100 + k div 400 + sum_list (take (nat (m - 1)) (month_lengths (leap_year y))) + d - 1
    \<and> 1 \<le> y \<and> 1 \<le> m \<and> 1 \<le> d"
proof -
  define A r B r2 C r3 D yd where defs: "A = n div 146097" "r = n mod 146097" "B = min 3 (r div 36524)" "r2 = r - 36524 * B"
    "C = r2 div 1461" "r3 = r2 mod 1461" "D = min 3 (r3 div 365)" "yd = r3 - 365 * D"
  define y' where "y' = 400 * A + 100 * B + 4 * C + D + 1"
  have "civil_from_days n = (case month_day (month_lengths (leap_year y')) 1 yd of (m, d) \<Rightarrow> (y', m, d))"
    unfolding civil_from_days_def Let_def y'_def defs ..
  with assms(1) have y': "y = y'" and md: "month_day (month_lengths (leap_year y)) 1 yd = (m, d)"
    by (cases "month_day (month_lengths (leap_year y')) 1 yd", simp)+
  have y: "y = 400 * A + 100 * B + 4 * C + D + 1" using y' y'_def by simp
  have r: "0 \<le> r" "r < 146097" "n = 146097 * A + r" "0 \<le> A" unfolding defs(1,2) using assms(2) by simp_all
  note B = century_split [OF r(1,2) defs(3), folded defs(4)]
  then have r2: "0 \<le> r2" by (simp add: defs(4))
  have C: "0 \<le> C" "C \<le> 24" "r2 = 1461 * C + r3" "0 \<le> r3" "r3 < 1461"
    unfolding defs(5,6) using r2 B(4) by simp_all
  note D = year_split [OF C(4) defs(7)]
  have k: "k div 4 = 100 * A + 25 * B + C" "k div 100 = 4 * A + B" "k div 400 = A" "k = 400 * A + 100 * B + 4 * C + D"
    using cycle_digits [OF B(1,2) C(1,2) D(1,2), of k A] y by (simp_all add: k_def)
  have n: "n = 365 * k + k div 4 - k div 100 + k div 400 + yd"
    unfolding k(1-3) using k(4) r(3) C(3) defs(4,8) by linarith
  have "0 \<le> yd" using D(3) defs(8) by linarith
  with month_day_inverse [OF md] have "yd = sum_list (take (nat (m - 1)) (month_lengths (leap_year y))) + d - 1" "1 \<le> m" "1 \<le> d"
    by simp_all
  moreover have "1 \<le> y" using y r(4) B(1) C(1) D(1) by linarith
  ultimately show ?thesis using n by linarith
qed

lemma civil_from_days_inj: "civil_from_days n = civil_from_days n' \<Longrightarrow> 0 \<le> n \<Longrightarrow> 0 \<le> n' \<Longrightarrow> n = n'"
  by (metis civil_from_days_inverse prod_cases3)

lemma parse_digits_zeros: "parse_digits 0 (replicate k (CHR ''0'') @ xs) = parse_digits 0 xs"
  by (induction k) (simp_all add: byte_val_def)

lemma pad_inj: "pad w m = pad w n \<Longrightarrow> 0 \<le> m \<Longrightarrow> 0 \<le> n \<Longrightarrow> m = n"
proof -
  assume a: "pad w m = pad w n" "0 \<le> m" "0 \<le> n"
  have "parse_digits 0 (pad w k) = Some (nat k)" for k
    by (simp add: pad_def Let_def parse_digits_zeros parse_digits_digits)
  with a(1) have "nat m = nat n" by (metis option.inject)
  with a show ?thesis by simp
qed

lemma pad_digits: "c \<in> set (pad w n) \<Longrightarrow> 48 \<le> byte_val c \<and> byte_val c \<le> 57"
  using digits_all [of "nat n"] by (auto simp: pad_def Let_def list_all_iff byte_val_def)

lemma append_marked_inj:
  "xs @ c # ys = xs' @ c # ys' \<Longrightarrow> c \<notin> set xs \<Longrightarrow> c \<notin> set xs' \<Longrightarrow> xs = xs' \<and> ys = ys'"
  by (induction xs arbitrary: xs') (case_tac xs'; auto)+

lemma marker_not_digit: "CHR ''-'' \<notin> set (pad w n)" "CHR ''T'' \<notin> set (pad w n)" "CHR '':'' \<notin> set (pad w n)"
    "CHR ''Z'' \<notin> set (pad w n)" "CHR ''|'' \<notin> set (pad w n)"
  using pad_digits [of _ w n] by (force simp: byte_val_def)+

lemma format_date_inj:
  assumes "format_date t @ ''T'' @ xs = format_date u @ ''T'' @ ys" "0 \<le> t" "0 \<le> u"
  shows "days_of t = days_of u \<and> xs = ys"
proof -
  obtain y m d where t: "civil_from_days (days_of t) = (y, m, d)" by (metis prod_cases3)
  obtain y' m' d' where u: "civil_from_days (days_of u) = (y', m', d')" by (metis prod_cases3)
  have n: "0 \<le> days_of t" "0 \<le> days_of u" using assms(2,3) by (simp_all add: days_of_def Day_def pos_imp_zdiv_nonneg_iff)
  have pos: "1 \<le> y" "1 \<le> m" "1 \<le> d" "1 \<le> y'" "1 \<le> m'" "1 \<le> d'"
    using civil_from_days_inverse [OF t n(1)] civil_from_days_inverse [OF u n(2)] by simp_all
  have e: "pad 4 y @ CHR ''-'' # pad 2 m @ CHR ''-'' # pad 2 d @ CHR ''T'' # xs
      = pad 4 y' @ CHR ''-'' # pad 2 m' @ CHR ''-'' # pad 2 d' @ CHR ''T'' # ys"
    using assms(1) by (simp add: format_date_def civil_date_def t u)
  note 1 = append_marked_inj [OF e marker_not_digit(1) marker_not_digit(1)]
  note 2 = append_marked_inj [OF conjunct2 [OF 1] marker_not_digit(1) marker_not_digit(1)]
  note 3 = append_marked_inj [OF conjunct2 [OF 2] marker_not_digit(2) marker_not_digit(2)]
  have "y = y'" "m = m'" "d = d'" using pad_inj 1 2 3 pos by (meson order_trans zero_le_one)+
  with t u n 3 show ?thesis by (metis civil_from_days_inj)
qed

lemma clock_inj:
  fixes s s' :: int
  assumes "s div 3600 = s' div 3600" "s div 60 mod 60 = s' div 60 mod 60" "s mod 60 = s' mod 60"
  shows "s = s'"
proof -
  have "s div 3600 = s div 60 div 60" "s' div 3600 = s' div 60 div 60" by (simp_all add: zdiv_zmult2_eq [symmetric])
  with assms(1,2) have "s div 60 = s' div 60" by (metis div_mult_mod_eq)
  with assms(3) show ?thesis by (metis div_mult_mod_eq)
qed

lemma format_rfc3339_inj:
  assumes "format_rfc3339 t @ xs = format_rfc3339 u @ ys" "0 \<le> t" "0 \<le> u" "Second dvd t" "Second dvd u"
  shows "t = u \<and> xs = ys"
proof -
  define a b where s: "a = (t mod Day) div Second" "b = (u mod Day) div Second"
  have e: "format_date t @ ''T'' @ (pad 2 (a div 3600) @ CHR '':'' # pad 2 (a div 60 mod 60) @ CHR '':'' # pad 2 (a mod 60) @ CHR ''Z'' # xs)
      = format_date u @ ''T'' @ (pad 2 (b div 3600) @ CHR '':'' # pad 2 (b div 60 mod 60) @ CHR '':'' # pad 2 (b mod 60) @ CHR ''Z'' # ys)"
    using assms(1) by (simp add: format_rfc3339_def s Let_def)
  note d = format_date_inj [OF e assms(2,3)]
  note 1 = append_marked_inj [OF conjunct2 [OF d] marker_not_digit(3) marker_not_digit(3)]
  note 2 = append_marked_inj [OF conjunct2 [OF 1] marker_not_digit(3) marker_not_digit(3)]
  note 3 = append_marked_inj [OF conjunct2 [OF 2] marker_not_digit(4) marker_not_digit(4)]
  have "0 \<le> a" "0 \<le> b" unfolding s by (simp_all add: time_units pos_imp_zdiv_nonneg_iff)
  then have "0 \<le> a div 3600" "0 \<le> b div 3600" by (simp_all add: pos_imp_zdiv_nonneg_iff)
  with pad_inj [OF conjunct1 [OF 1]] have "a div 3600 = b div 3600" by blast
  moreover have "a div 60 mod 60 = b div 60 mod 60" by (rule pad_inj [OF conjunct1 [OF 2]]) simp_all
  moreover have "a mod 60 = b mod 60" by (rule pad_inj [OF conjunct1 [OF 3]]) simp_all
  ultimately have "a = b" by (rule clock_inj)
  moreover have "Day = Second * 86400" by (simp add: time_units)
  then have "Second dvd Day" by (rule dvdI)
  with assms(4,5) have "Second dvd t mod Day" "Second dvd u mod Day" by (blast intro: dvd_mod)+
  ultimately have "t mod Day = u mod Day" unfolding s by (metis dvd_mult_div_cancel)
  with d have "t = u" unfolding days_of_def by (metis div_mult_mod_eq)
  with 3 show ?thesis by blast
qed

end
