(* ===== verification/Go_Format.thy ===== *)
theory Go_Format
  imports Go_Time
begin

text \<open>
  What the program uses of \<^verbatim>\<open>net/url\<close> and of the formatting of numbers: the escaping of query and path
  parts, and the decimal text of a number with a fixed count of decimals.
\<close>

section \<open>Escaping\<close>

text \<open>\<^verbatim>\<open>url.QueryEscape\<close> and \<^verbatim>\<open>url.Values.Encode\<close>, which orders the keys.\<close>

definition hex_nibble :: "nat \<Rightarrow> char" where
  "hex_nibble n = (if n < 10 then byte_of (48 + n) else byte_of (55 + n))"

definition query_escape :: "string \<Rightarrow> string" where
  "query_escape s = concat (map (\<lambda>ch. let b = byte_val ch in
     if 97 \<le> b \<and> b \<le> 122 \<or> 65 \<le> b \<and> b \<le> 90 \<or> 48 \<le> b \<and> b \<le> 57 \<or> List.member ''-_.~'' ch then [ch]
     else if ch = CHR '' '' then ''+'' else [CHR ''%'', hex_nibble (b div 16), hex_nibble (b mod 16)]) s)"

definition encode_values :: "(string \<times> string) list \<Rightarrow> string" where
  "encode_values vals = Join (map (\<lambda>(k, v). query_escape k @ ''='' @ query_escape v) (sort_key fst vals)) ''&''"

text \<open>\<^verbatim>\<open>url.PathEscape\<close> keeps the characters allowed in a path segment.\<close>

definition path_escape :: "string \<Rightarrow> string" where
  "path_escape s = concat (map (\<lambda>ch. let b = byte_val ch in
     if 97 \<le> b \<and> b \<le> 122 \<or> 65 \<le> b \<and> b \<le> 90 \<or> 48 \<le> b \<and> b \<le> 57 \<or> List.member ''-_.~$&+:=@'' ch then [ch]
     else [CHR ''%'', hex_nibble (b div 16), hex_nibble (b mod 16)]) s)"

section \<open>Numbers\<close>

text \<open>Rounding to an integer, halves to the even one.\<close>

definition round_half_even :: "real \<Rightarrow> int" where
  "round_half_even x = (let f = \<lfloor>x\<rfloor>; d = x - of_int f in
     if d < 1 / 2 then f else if d > 1 / 2 then f + 1 else if even f then f else f + 1)"

text \<open>\<^verbatim>\<open>%.0f\<close>, and a fixed number of decimals, at least one.\<close>

definition format_f0 :: "float64 \<Rightarrow> string" where
  "format_f0 x = (if x < 0 then ''-'' else '''') @ Itoa (round_half_even \<bar>x\<bar>)"

definition format_fixed :: "nat \<Rightarrow> float64 \<Rightarrow> string" where
  "format_fixed k x = (let q = round_half_even (\<bar>x\<bar> * 10 ^ k) in
     (if x < 0 then ''-'' else '''') @ Itoa (q div 10 ^ k) @ ''.'' @ pad k (q mod 10 ^ k))"

text \<open>\<^verbatim>\<open>math.Round\<close>: halves away from zero.\<close>

definition math_round :: "real \<Rightarrow> int" where
  "math_round x = (if x < 0 then - \<lfloor>- x + 1 / 2\<rfloor> else \<lfloor>x + 1 / 2\<rfloor>)"

lemma math_round_mono: "x \<le> y \<Longrightarrow> math_round x \<le> math_round y"
  unfolding math_round_def by (auto intro!: floor_mono simp: minus_le_iff le_floor_iff floor_le_iff) linarith+

lemma math_round_of_int [simp]: "math_round (of_int k) = k"
  unfolding math_round_def by (auto simp: floor_eq_iff)

lemma round_half_even_near: "\<bar>of_int (round_half_even x) - x\<bar> \<le> 1 / 2"
  unfolding round_half_even_def Let_def by (auto split: if_splits)

lemma round_half_even_of_int [simp]: "round_half_even (of_int n) = n"
  by (simp add: round_half_even_def)

lemma round_half_even_nonneg: "0 \<le> x \<Longrightarrow> 0 \<le> round_half_even x"
  unfolding round_half_even_def Let_def by auto

end
