(* ===== verification/Normalize.thy ===== *)
theory Normalize
  imports Go_Format
begin

text \<open>
  The shared normaliser, \<^verbatim>\<open>libs/go-common/normalize\<close>: the source-neutral draft, the
  canonical vacancy, the salary policy (mid, gross to net, currency, exchange rate, outliers),
  the role, region and skill matchers, remote detection, the content hash and \<open>Normalize\<close>
  itself. Interfaces (\<^verbatim>\<open>FXProvider\<close>, \<^verbatim>\<open>RoleMatcher\<close>, \<^verbatim>\<open>SkillMatcher\<close>,
  \<^verbatim>\<open>RegionMatcher\<close>) are values of function type, an optional second interface
  (\<^verbatim>\<open>DetailedFXProvider\<close>) is an optional function. SHA-256 is the argument \<open>sha\<close>.
\<close>

section \<open>Data\<close>

record Draft =
  d_SchemaVersion :: string
  d_Source :: string
  d_ExternalID :: string
  d_SourceURL :: string
  d_Title :: string
  d_EmployerExternalID :: string
  d_EmployerName :: string
  d_RegionExternalID :: string
  d_RegionName :: string
  d_SalaryFrom :: "float64 option"
  d_SalaryTo :: "float64 option"
  d_SalaryCurrencyRaw :: string
  d_SalaryGross :: "bool option"
  d_PublishedAt :: time
  d_CollectedAt :: time
  d_SkillsRaw :: "string list"
  d_ProfessionalRoleIDs :: "string list"
  d_ScheduleID :: string
  d_WorkFormatIDs :: "string list"
  d_DescriptionText :: string
  d_DescriptionTruncated :: bool
  d_IsActiveHint :: "bool option"
  d_RawPayload :: string

record SkillRef =
  sk_SkillID :: string
  sk_RawName :: string
  sk_IsNew :: bool

record CanonicalVacancy =
  v_Source :: string
  v_ExternalID :: string
  v_SourceURL :: string
  v_Title :: string
  v_EmployerExternalID :: string
  v_EmployerName :: string
  v_RegionExternalID :: string
  v_RegionID :: "string option"
  v_RoleID :: "string option"
  v_SalaryFrom :: "float64 option"
  v_SalaryTo :: "float64 option"
  v_SalaryCurrency :: string
  v_SalaryGross :: "bool option"
  v_SalaryMid :: "float64 option"
  v_SalaryMidRub :: "float64 option"
  v_SalaryRateDate :: "time option"
  v_SalaryRateProvider :: string
  v_ExcludeFromSalaryAgg :: bool
  v_Skills :: "SkillRef list"
  v_IsRemote :: "bool option"
  v_IsActive :: bool
  v_PublishedAt :: time
  v_CollectedAt :: time
  v_ContentHash :: string
  v_DescriptionText :: string
  v_DescriptionTruncated :: bool

record Metrics =
  m_SalaryInvalid :: bool
  m_GrossUnknown :: bool
  m_FXMiss :: bool
  m_RoleUnmapped :: bool
  m_SalarySwapped :: bool

record NormalizeResult =
  nr_Vacancy :: CanonicalVacancy
  nr_Metrics :: Metrics

datatype normalize_error = EmptySource | EmptyExternalID | EmptyTitle

section \<open>Currencies and exchange rates\<close>

definition NormalizeCurrency :: "string \<Rightarrow> string" where
  "NormalizeCurrency raw = (let c = ToUpper (TrimSpace raw) in if c = ''RUR'' then ''RUB'' else c)"

text \<open>\<^verbatim>\<open>FXProvider\<close>, with the method of \<^verbatim>\<open>DetailedFXProvider\<close> when the provider has it:
  rate, date of the rate and name of the provider.\<close>

record FXProvider =
  fx_RateToRUB :: "string \<Rightarrow> time \<Rightarrow> float64 option"
  fx_Detailed :: "(string \<Rightarrow> time \<Rightarrow> (float64 \<times> time \<times> string) option) option"

type_synonym MapFX = "string \<rightharpoonup> (string \<rightharpoonup> float64)"

definition MapFX_RateToRUB :: "MapFX \<Rightarrow> string \<Rightarrow> time \<Rightarrow> float64 option" where
  "MapFX_RateToRUB m currency date =
     (let cur = ToUpper (TrimSpace currency) in
      if cur = '''' \<or> cur = ''RUB'' then Some 1
      else (case m cur of None \<Rightarrow> None | Some byDate \<Rightarrow> byDate (format_date date)))"

definition MapFX_provider :: "MapFX \<Rightarrow> FXProvider" where
  "MapFX_provider m = \<lparr>fx_RateToRUB = MapFX_RateToRUB m, fx_Detailed = None\<rparr>"

record RateRecord =
  rr_RubPerUnit :: float64
  rr_RateDate :: time
  rr_Provider :: string

type_synonym RateTable = "string \<rightharpoonup> (string \<rightharpoonup> RateRecord)"

definition RateTable_Detailed :: "RateTable \<Rightarrow> string \<Rightarrow> time \<Rightarrow> (float64 \<times> time \<times> string) option" where
  "RateTable_Detailed t currency date =
     (case t (NormalizeCurrency currency) of
        None \<Rightarrow> None
      | Some byDate \<Rightarrow>
          (case byDate (format_date date) of
             None \<Rightarrow> None
           | Some r \<Rightarrow> Some (rr_RubPerUnit r, rr_RateDate r, rr_Provider r)))"

definition RateTable_RateToRUB :: "RateTable \<Rightarrow> string \<Rightarrow> time \<Rightarrow> float64 option" where
  "RateTable_RateToRUB t currency date = map_option fst (RateTable_Detailed t currency date)"

definition RateTable_provider :: "RateTable \<Rightarrow> FXProvider" where
  "RateTable_provider t = \<lparr>fx_RateToRUB = RateTable_RateToRUB t, fx_Detailed = Some (RateTable_Detailed t)\<rparr>"

section \<open>Options\<close>

type_synonym RoleMatcher = "string \<Rightarrow> string list \<Rightarrow> string \<Rightarrow> string option"
type_synonym SkillMatcher = "string \<Rightarrow> string \<Rightarrow> string \<times> bool"
type_synonym RegionMatcher = "string \<Rightarrow> string \<Rightarrow> string option"

record Options =
  o_TaxRate :: float64
  o_OutlierMinRub :: float64
  o_OutlierMaxRub :: float64
  o_FXMaxFallbackDays :: int
  o_AllowStaticFXFallback :: bool
  o_StaticUSDToRUB :: float64
  o_FX :: "FXProvider option"
  o_Roles :: "RoleMatcher option"
  o_Skills :: "SkillMatcher option"
  o_Regions :: "RegionMatcher option"

definition DefaultTaxRate :: float64 where "DefaultTaxRate = 13 / 100"
definition DefaultOutlierMinRub :: float64 where "DefaultOutlierMinRub = 10000"
definition DefaultOutlierMaxRub :: float64 where "DefaultOutlierMaxRub = 2000000"
definition DefaultFXMaxFallbackDays :: int where "DefaultFXMaxFallbackDays = 7"

lemmas default_policy = DefaultTaxRate_def DefaultOutlierMinRub_def DefaultOutlierMaxRub_def
  DefaultFXMaxFallbackDays_def

section \<open>Matchers\<close>

definition yo :: string where "yo = [CHR 0xD1, CHR 0x91]"
definition ye :: string where "ye = [CHR 0xD0, CHR 0xB5]"

text \<open>The loop of \<open>NormalizeTitle\<close>: \<open>b\<close> is what the builder holds.\<close>

fun title_loop :: "rune list \<Rightarrow> rune list \<Rightarrow> bool \<Rightarrow> rune list" where
  "title_loop [] b prevSpace = b"
| "title_loop (r # rs) b prevSpace =
     (if is_letter r \<or> is_digit r then title_loop rs (b @ [r]) False
      else if is_space r \<or> is_punct r then
        (if \<not> prevSpace \<and> b \<noteq> [] then title_loop rs (b @ [32]) True
         else title_loop rs b prevSpace)
      else title_loop rs b prevSpace)"

definition NormalizeTitle :: "string \<Rightarrow> string" where
  "NormalizeTitle s0 =
     (let s = ReplaceAll (ToLower (TrimSpace s0)) yo ye
      in TrimSpace (encode (title_loop (runes s) [] False)))"

text \<open>The regular expression \<^verbatim>\<open>[^a-z0-9\<close>Cyrillic a to ya\<^verbatim>\<open>+#.]+\<close>: each longest run of
  other runes becomes one hyphen.\<close>

definition skill_rune :: "rune \<Rightarrow> bool" where
  "skill_rune r \<longleftrightarrow> 97 \<le> r \<and> r \<le> 122 \<or> 48 \<le> r \<and> r \<le> 57 \<or> 1072 \<le> r \<and> r \<le> 1103 \<or> r = 43 \<or> r = 35 \<or> r = 46"

fun slug_loop :: "rune list \<Rightarrow> bool \<Rightarrow> rune list" where
  "slug_loop [] inRun = []"
| "slug_loop (r # rs) inRun =
     (if skill_rune r then r # slug_loop rs False
      else if inRun then slug_loop rs True
      else 45 # slug_loop rs True)"

definition NormalizeSkillName :: "string \<Rightarrow> string" where
  "NormalizeSkillName s0 =
     (let s = ReplaceAll (ToLower (TrimSpace s0)) yo ye
      in encode (trim_by (\<lambda>r. r = 45) (slug_loop (runes s) False)))"

record TitleRoleRule =
  tr_Pattern :: string
  tr_RoleID :: string
  tr_Contains :: bool

record MapRoleMatcher =
  mr_RoleByExternalID :: "string \<rightharpoonup> (string \<rightharpoonup> string)"
  mr_TitlePatterns :: "TitleRoleRule list"

fun match_role_ids :: "(string \<rightharpoonup> string) \<Rightarrow> string list \<Rightarrow> string option" where
  "match_role_ids byID [] = None"
| "match_role_ids byID (sid # ids) =
     (case byID sid of
        Some roleID \<Rightarrow> if roleID \<noteq> '''' then Some roleID else match_role_ids byID ids
      | None \<Rightarrow> match_role_ids byID ids)"

fun match_title :: "string \<Rightarrow> TitleRoleRule list \<Rightarrow> string option" where
  "match_title ntitle [] = None"
| "match_title ntitle (rule # rules) =
     (let p = NormalizeTitle (tr_Pattern rule) in
      if p = '''' then match_title ntitle rules
      else if tr_Contains rule then
        (if Contains ntitle p then Some (tr_RoleID rule) else match_title ntitle rules)
      else if ntitle = p then Some (tr_RoleID rule)
      else match_title ntitle rules)"

definition MatchRole :: "MapRoleMatcher \<Rightarrow> RoleMatcher" where
  "MatchRole m source professionalRoleIDs title =
     (case (case mr_RoleByExternalID m source of
              None \<Rightarrow> None | Some byID \<Rightarrow> match_role_ids byID professionalRoleIDs) of
        Some roleID \<Rightarrow> Some roleID
      | None \<Rightarrow> match_title (NormalizeTitle title) (mr_TitlePatterns m))"

definition MatchRegion :: "(string \<rightharpoonup> (string \<rightharpoonup> string)) \<Rightarrow> RegionMatcher" where
  "MatchRegion m source regionExternalID =
     (case m source of
        None \<Rightarrow> None
      | Some byID \<Rightarrow>
          (case byID regionExternalID of
             None \<Rightarrow> None | Some sid \<Rightarrow> if sid \<noteq> '''' then Some sid else None))"

definition MatchSkill :: "(string \<rightharpoonup> string) \<Rightarrow> SkillMatcher" where
  "MatchSkill aliases source rawName =
     (let key = NormalizeSkillName rawName in
      if key = '''' then ('''', False)
      else (case aliases key of
          Some sid \<Rightarrow> if sid \<noteq> '''' then (sid, False) else (key, True)
        | None \<Rightarrow> (key, True)))"

text \<open>The loop of \<open>matchSkills\<close>; \<open>seen\<close> holds the skill ids already taken.\<close>

fun match_skills_loop :: "SkillMatcher \<Rightarrow> string \<Rightarrow> string list \<Rightarrow> string list \<Rightarrow> SkillRef list" where
  "match_skills_loop matcher source seen [] = []"
| "match_skills_loop matcher source seen (raw # raws) =
     (let name = TrimSpace raw in
      if name = '''' then match_skills_loop matcher source seen raws
      else (case matcher source name of (sid, isNew) \<Rightarrow>
        if sid = '''' then match_skills_loop matcher source seen raws
        else if List.member seen sid then match_skills_loop matcher source seen raws
        else \<lparr>sk_SkillID = sid, sk_RawName = name, sk_IsNew = isNew\<rparr>
               # match_skills_loop matcher source (sid # seen) raws))"

definition matchSkills :: "SkillMatcher option \<Rightarrow> string \<Rightarrow> string list \<Rightarrow> SkillRef list" where
  "matchSkills matcher source raw =
     match_skills_loop (case matcher of None \<Rightarrow> MatchSkill Map.empty | Some m \<Rightarrow> m) source [] raw"

section \<open>Remote work\<close>

definition udalennaya_e :: string where
  "udalennaya_e = [CHR 0xD1, CHR 0x83, CHR 0xD0, CHR 0xB4, CHR 0xD0, CHR 0xB0, CHR 0xD0, CHR 0xBB, CHR 0xD0, CHR 0xB5, CHR 0xD0, CHR 0xBD, CHR 0xD0, CHR 0xBD, CHR 0xD0, CHR 0xB0, CHR 0xD1, CHR 0x8F]"
definition udalennaya_yo :: string where
  "udalennaya_yo = [CHR 0xD1, CHR 0x83, CHR 0xD0, CHR 0xB4, CHR 0xD0, CHR 0xB0, CHR 0xD0, CHR 0xBB, CHR 0xD1, CHR 0x91, CHR 0xD0, CHR 0xBD, CHR 0xD0, CHR 0xBD, CHR 0xD0, CHR 0xB0, CHR 0xD1, CHR 0x8F]"

definition isRemoteSchedule :: "string \<Rightarrow> bool" where
  "isRemoteSchedule sid \<longleftrightarrow>
     List.member [''remote'', ''remote_work'', udalennaya_e, udalennaya_yo] (ToLower (TrimSpace sid))"

definition isRemoteWorkFormat :: "string \<Rightarrow> bool" where
  "isRemoteWorkFormat sid \<longleftrightarrow> List.member [''REMOTE'', ''REMOTE_WORK''] (ToUpper (TrimSpace sid))"

definition DetectRemote :: "string \<Rightarrow> string list \<Rightarrow> bool option" where
  "DetectRemote scheduleID workFormatIDs =
     (if isRemoteSchedule scheduleID then Some True
      else if list_ex isRemoteWorkFormat workFormatIDs then Some True
      else if TrimSpace scheduleID \<noteq> '''' \<or> workFormatIDs \<noteq> [] then Some False
      else None)"

section \<open>Salary\<close>

record SalaryNorm =
  s_From :: "float64 option"
  s_To :: "float64 option"
  s_Currency :: string
  s_Gross :: "bool option"
  s_Mid :: "float64 option"
  s_MidRub :: "float64 option"
  s_RateDate :: "time option"
  s_RateProvider :: string
  s_ExcludeFromSalaryAgg :: bool
  s_Invalid :: bool
  s_GrossUnknown :: bool
  s_Swapped :: bool
  s_FXMiss :: bool

definition empty_salary :: SalaryNorm where
  "empty_salary = \<lparr>s_From = None, s_To = None, s_Currency = '''', s_Gross = None, s_Mid = None,
     s_MidRub = None, s_RateDate = None, s_RateProvider = '''', s_ExcludeFromSalaryAgg = False,
     s_Invalid = False, s_GrossUnknown = False, s_Swapped = False, s_FXMiss = False\<rparr>"

definition positiveSalary :: "float64 option \<Rightarrow> float64 option" where
  "positiveSalary p = (case p of None \<Rightarrow> None | Some x \<Rightarrow> if x \<le> 0 then None else Some x)"

text \<open>\<open>Mid\<close> returns the mid salary, whether the bounds were swapped, and whether a given
  bound was not positive.\<close>

definition Mid :: "float64 option \<Rightarrow> float64 option \<Rightarrow> float64 option \<times> bool \<times> bool" where
  "Mid from to =
     (let f = positiveSalary from; t = positiveSalary to;
          invalid = (from \<noteq> None \<and> f = None \<or> to \<noteq> None \<and> t = None)
      in case (f, t) of
           (None, None) \<Rightarrow> (None, False, invalid)
         | (Some f', Some t') \<Rightarrow>
             if f' > t' then (Some ((t' + f') / 2), True, invalid)
             else (Some ((f' + t') / 2), False, invalid)
         | (Some f', None) \<Rightarrow> (Some f', False, invalid)
         | (None, Some t') \<Rightarrow> (Some t', False, invalid))"

definition applyGrossNet :: "float64 option \<Rightarrow> bool option \<Rightarrow> float64 \<Rightarrow> float64 option \<times> bool" where
  "applyGrossNet mid gross taxRate =
     (case mid of
        None \<Rightarrow> (None, False)
      | Some m \<Rightarrow>
          (case gross of
             None \<Rightarrow> (Some m, True)
           | Some g \<Rightarrow>
               if \<not> g then (Some m, False)
               else (let tax = (if taxRate < 0 then 0 else taxRate);
                         tax = (if tax > 1 then 1 else tax)
                     in (Some (m * (1 - tax)), False))))"

text \<open>One day of the walk of \<open>resolveFX\<close>: the detailed provider first, then the plain one.\<close>

definition fx_day :: "FXProvider \<Rightarrow> string \<Rightarrow> time \<Rightarrow> (float64 \<times> time \<times> string) option" where
  "fx_day fx cur d =
     (case (case fx_Detailed fx of
              None \<Rightarrow> None
            | Some detailed \<Rightarrow>
                (case detailed cur d of
                   None \<Rightarrow> None
                 | Some (r, actualDate, source) \<Rightarrow> if r > 0 then Some (r, actualDate, source) else None)) of
        Some x \<Rightarrow> Some x
      | None \<Rightarrow>
          (case fx_RateToRUB fx cur d of
             None \<Rightarrow> None
           | Some r \<Rightarrow> if r > 0 then Some (r, d, ''configured'') else None))"

fun fx_walk :: "FXProvider \<Rightarrow> string \<Rightarrow> time \<Rightarrow> nat \<Rightarrow> nat \<Rightarrow> (float64 \<times> time \<times> string) option" where
  "fx_walk fx cur day i 0 = None"
| "fx_walk fx cur day i (Suc n) =
     (case fx_day fx cur (add_days day (- int i)) of
        Some x \<Rightarrow> Some x
      | None \<Rightarrow> fx_walk fx cur day (Suc i) n)"

definition resolveFX :: "Options \<Rightarrow> string \<Rightarrow> time \<Rightarrow> (float64 \<times> time \<times> string) option" where
  "resolveFX opts currency rateDate =
     (let cur = NormalizeCurrency currency in
      if cur = '''' then None
      else let day = day_start rateDate in
        if cur = ''RUB'' then Some (1, day, ''canonical'')
        else let fx = (case o_FX opts of None \<Rightarrow> MapFX_provider Map.empty | Some f \<Rightarrow> f);
                 maxDays = (if o_FXMaxFallbackDays opts < 0 then 0 else o_FXMaxFallbackDays opts)
             in (case fx_walk fx cur day 0 (nat (maxDays + 1)) of
                   Some x \<Rightarrow> Some x
                 | None \<Rightarrow>
                     if o_AllowStaticFXFallback opts \<and> cur = ''USD'' \<and> o_StaticUSDToRUB opts > 0
                     then Some (o_StaticUSDToRUB opts, day, ''static-dev'') else None))"

definition normalizeSalary :: "Draft \<Rightarrow> Options \<Rightarrow> SalaryNorm" where
  "normalizeSalary d opts =
     (case Mid (d_SalaryFrom d) (d_SalaryTo d) of (midRaw, swapped, invalid) \<Rightarrow>
      let from0 = positiveSalary (d_SalaryFrom d); to0 = positiveSalary (d_SalaryTo d);
          swap = (from0 \<noteq> None \<and> to0 \<noteq> None \<and> swapped);
          out = empty_salary\<lparr>s_Swapped := swapped, s_Invalid := invalid, s_Gross := d_SalaryGross d,
                  s_From := if swap then to0 else from0, s_To := if swap then from0 else to0\<rparr>
      in case midRaw of
           None \<Rightarrow> out\<lparr>s_ExcludeFromSalaryAgg := True\<rparr>
         | Some _ \<Rightarrow>
             (case applyGrossNet midRaw (d_SalaryGross d) (o_TaxRate opts) of (midNet, grossUnknown) \<Rightarrow>
              let out = out\<lparr>s_Mid := midNet, s_GrossUnknown := grossUnknown,
                          s_Currency := NormalizeCurrency (d_SalaryCurrencyRaw d)\<rparr>
              in if s_Currency out = '''' then out\<lparr>s_ExcludeFromSalaryAgg := True, s_FXMiss := True\<rparr>
                 else let rateDate = (if IsZero (d_PublishedAt d) then d_CollectedAt d else d_PublishedAt d)
                   in case resolveFX opts (s_Currency out) rateDate of
                        None \<Rightarrow> out\<lparr>s_FXMiss := True, s_ExcludeFromSalaryAgg := True\<rparr>
                      | Some (rate, usedDate, provider) \<Rightarrow>
                          let midRub = the midNet * rate;
                              out = out\<lparr>s_MidRub := Some midRub, s_RateDate := Some usedDate,
                                      s_RateProvider := provider\<rparr>;
                              minR = (if o_OutlierMinRub opts \<le> 0 then DefaultOutlierMinRub else o_OutlierMinRub opts);
                              maxR = (if o_OutlierMaxRub opts \<le> 0 then DefaultOutlierMaxRub else o_OutlierMaxRub opts)
                          in if midRub < minR \<or> midRub > maxR
                             then out\<lparr>s_ExcludeFromSalaryAgg := True\<rparr> else out))"

section \<open>Content hash\<close>

text \<open>\<^verbatim>\<open>%.4f\<close>: rounded to four decimals, halves to even.\<close>

definition format_f4 :: "float64 \<Rightarrow> string" where
  "format_f4 x = (let q = round_half_even (\<bar>x\<bar> * 10000) in
     (if x < 0 then ''-'' else '''') @ Itoa (q div 10000) @ ''.'' @ pad 4 (q mod 10000))"

definition writeFloatPtr :: "float64 option \<Rightarrow> string" where
  "writeFloatPtr p = (case p of None \<Rightarrow> ''null'' | Some x \<Rightarrow> format_f4 x)"

definition writeBoolPtr :: "bool option \<Rightarrow> string" where
  "writeBoolPtr p = (case p of None \<Rightarrow> ''null'' | Some b \<Rightarrow> if b then ''true'' else ''false'')"

definition hash_skill :: "SkillRef \<Rightarrow> string" where
  "hash_skill s = ToLower (TrimSpace (if sk_SkillID s = '''' then sk_RawName s else sk_SkillID s))"

text \<open>The text that is hashed: the fields between bars, in the code's order.\<close>

definition content_fields :: "CanonicalVacancy \<Rightarrow> string list" where
  "content_fields v =
     [v_Title v, v_SourceURL v, writeFloatPtr (v_SalaryFrom v), writeFloatPtr (v_SalaryTo v),
      v_SalaryCurrency v, writeBoolPtr (v_SalaryGross v), writeFloatPtr (v_SalaryMid v),
      writeFloatPtr (v_SalaryMidRub v),
      (case v_SalaryRateDate v of None \<Rightarrow> '''' | Some t \<Rightarrow> format_date t),
      v_SalaryRateProvider v, v_RegionExternalID v, v_EmployerExternalID v,
      Join (sort (map hash_skill (v_Skills v))) '','',
      (if IsZero (v_PublishedAt v) then '''' else format_rfc3339 (v_PublishedAt v)),
      v_DescriptionText v, writeBoolPtr (Some (v_DescriptionTruncated v)), writeBoolPtr (v_IsRemote v)]"

definition content_text :: "CanonicalVacancy \<Rightarrow> string" where
  "content_text v = Join (content_fields v) ''|''"

definition ContentHash :: "(string \<Rightarrow> string) \<Rightarrow> CanonicalVacancy \<Rightarrow> string" where
  "ContentHash sha v = sha (content_text v)"

section \<open>Normalize\<close>

definition DefaultOptions :: Options where
  "DefaultOptions = \<lparr>o_TaxRate = DefaultTaxRate, o_OutlierMinRub = DefaultOutlierMinRub,
     o_OutlierMaxRub = DefaultOutlierMaxRub, o_FXMaxFallbackDays = DefaultFXMaxFallbackDays,
     o_AllowStaticFXFallback = False, o_StaticUSDToRUB = 0,
     o_FX = Some (MapFX_provider Map.empty),
     o_Roles = Some (MatchRole \<lparr>mr_RoleByExternalID = Map.empty, mr_TitlePatterns = []\<rparr>),
     o_Skills = Some (MatchSkill Map.empty), o_Regions = Some (MatchRegion Map.empty)\<rparr>"

definition withDefaults :: "Options \<Rightarrow> Options" where
  "withDefaults opts =
     opts\<lparr>o_TaxRate := if o_TaxRate opts = 0 then o_TaxRate DefaultOptions else o_TaxRate opts,
          o_OutlierMinRub := if o_OutlierMinRub opts = 0 then o_OutlierMinRub DefaultOptions else o_OutlierMinRub opts,
          o_OutlierMaxRub := if o_OutlierMaxRub opts = 0 then o_OutlierMaxRub DefaultOptions else o_OutlierMaxRub opts,
          o_FXMaxFallbackDays := if o_FXMaxFallbackDays opts = 0 then o_FXMaxFallbackDays DefaultOptions
             else o_FXMaxFallbackDays opts,
          o_FX := if o_FX opts = None then o_FX DefaultOptions else o_FX opts,
          o_Roles := if o_Roles opts = None then o_Roles DefaultOptions else o_Roles opts,
          o_Skills := if o_Skills opts = None then o_Skills DefaultOptions else o_Skills opts,
          o_Regions := if o_Regions opts = None then o_Regions DefaultOptions else o_Regions opts\<rparr>"

definition build_vacancy :: "Draft \<Rightarrow> Options \<Rightarrow> SalaryNorm \<Rightarrow> CanonicalVacancy" where
  "build_vacancy d opts sal =
     \<lparr>v_Source = d_Source d, v_ExternalID = d_ExternalID d, v_SourceURL = d_SourceURL d,
      v_Title = d_Title d, v_EmployerExternalID = d_EmployerExternalID d,
      v_EmployerName = d_EmployerName d, v_RegionExternalID = d_RegionExternalID d,
      v_RegionID = the (o_Regions opts) (d_Source d) (d_RegionExternalID d),
      v_RoleID = the (o_Roles opts) (d_Source d) (d_ProfessionalRoleIDs d) (d_Title d),
      v_SalaryFrom = s_From sal, v_SalaryTo = s_To sal, v_SalaryCurrency = s_Currency sal,
      v_SalaryGross = s_Gross sal, v_SalaryMid = s_Mid sal, v_SalaryMidRub = s_MidRub sal,
      v_SalaryRateDate = s_RateDate sal, v_SalaryRateProvider = s_RateProvider sal,
      v_ExcludeFromSalaryAgg = s_ExcludeFromSalaryAgg sal,
      v_Skills = matchSkills (o_Skills opts) (d_Source d) (d_SkillsRaw d),
      v_IsRemote = DetectRemote (d_ScheduleID d) (d_WorkFormatIDs d),
      v_IsActive = (case d_IsActiveHint d of None \<Rightarrow> True | Some h \<Rightarrow> h),
      v_PublishedAt = d_PublishedAt d, v_CollectedAt = d_CollectedAt d,
      v_ContentHash = '''',
      v_DescriptionText = d_DescriptionText d, v_DescriptionTruncated = d_DescriptionTruncated d\<rparr>"

definition Normalize :: "(string \<Rightarrow> string) \<Rightarrow> Draft \<Rightarrow> Options \<Rightarrow> normalize_error + NormalizeResult" where
  "Normalize sha d opts0 =
     (if d_Source d = '''' then Inl EmptySource
      else if d_ExternalID d = '''' then Inl EmptyExternalID
      else if d_Title d = '''' then Inl EmptyTitle
      else let opts = withDefaults opts0; sal = normalizeSalary d opts;
               v = build_vacancy d opts sal;
               v = v\<lparr>v_ContentHash := ContentHash sha v\<rparr>
           in Inr \<lparr>nr_Vacancy = v,
                   nr_Metrics = \<lparr>m_SalaryInvalid = s_Invalid sal, m_GrossUnknown = s_GrossUnknown sal,
                     m_FXMiss = s_FXMiss sal, m_RoleUnmapped = (v_RoleID v = None),
                     m_SalarySwapped = s_Swapped sal\<rparr>\<rparr>)"

section \<open>Salary: lemmas\<close>

lemma positiveSalary_Some [simp]: "positiveSalary p = Some x \<longleftrightarrow> p = Some x \<and> 0 < x"
  by (auto simp: positiveSalary_def split: option.splits)

lemma positiveSalary_None: "positiveSalary p = None \<longleftrightarrow> (\<forall>x. p = Some x \<longrightarrow> x \<le> 0)"
  by (auto simp: positiveSalary_def split: option.splits)

lemma Mid_both:
  "positiveSalary from = Some f \<Longrightarrow> positiveSalary to = Some t \<Longrightarrow>
    Mid from to = (Some ((f + t) / 2), t < f, False)"
  by (auto simp: Mid_def positiveSalary_def add.commute)

lemma Mid_positive: "fst (Mid from to) = Some m \<Longrightarrow> 0 < m"
  by (auto simp: Mid_def Let_def split: option.splits if_splits)

lemma applyGrossNet_Some:
  assumes "0 < m"
  obtains n gu where "applyGrossNet (Some m) gross tax = (Some n, gu)" "0 \<le> n" "n \<le> m"
    "gross \<noteq> Some True \<longrightarrow> n = m" "gu \<longleftrightarrow> gross = None"
proof -
  let ?tax = "if (if tax < 0 then 0 else tax) > 1 then 1 else (if tax < 0 then 0 else tax)"
  have t: "0 \<le> ?tax" "?tax \<le> 1" by auto
  have lo: "0 \<le> m * (1 - ?tax)" using t assms by (intro mult_nonneg_nonneg) auto
  have hi: "m * (1 - ?tax) \<le> m" using t assms by (simp add: mult_left_le)
  consider "gross = None" | "gross = Some False" | "gross = Some True" by (cases gross) auto
  then show ?thesis
  proof cases
    case 1
    then show ?thesis using assms that [of m True] by (simp add: applyGrossNet_def)
  next
    case 2
    then show ?thesis using assms that [of m False] by (simp add: applyGrossNet_def)
  next
    case 3
    then show ?thesis
      using lo hi that [of "m * (1 - ?tax)" False]
      by (simp add: applyGrossNet_def)
  qed
qed

text \<open>The outcomes of \<open>normalizeSalary\<close>, in the order of its early returns: no usable bound,
  no currency, no exchange rate, or a converted mid.\<close>

definition outlier_min :: "Options \<Rightarrow> float64" where
  "outlier_min opts = (if o_OutlierMinRub opts \<le> 0 then DefaultOutlierMinRub else o_OutlierMinRub opts)"

definition outlier_max :: "Options \<Rightarrow> float64" where
  "outlier_max opts = (if o_OutlierMaxRub opts \<le> 0 then DefaultOutlierMaxRub else o_OutlierMaxRub opts)"

definition rate_date :: "Draft \<Rightarrow> time" where
  "rate_date d = (if IsZero (d_PublishedAt d) then d_CollectedAt d else d_PublishedAt d)"

text \<open>The exchange rate the salary is converted with, if there is one.\<close>

definition salary_rate :: "Draft \<Rightarrow> Options \<Rightarrow> (float64 \<times> time \<times> string) option" where
  "salary_rate d opts = (let cur = NormalizeCurrency (d_SalaryCurrencyRaw d) in
     if cur = '''' then None else resolveFX opts cur (rate_date d))"

lemma normalizeSalary_eq:
  "normalizeSalary d opts =
     (case Mid (d_SalaryFrom d) (d_SalaryTo d) of (midRaw, swapped, invalid) \<Rightarrow>
      let f = positiveSalary (d_SalaryFrom d); t = positiveSalary (d_SalaryTo d);
          out = empty_salary\<lparr>s_Swapped := swapped, s_Invalid := invalid, s_Gross := d_SalaryGross d,
             s_From := if swapped then t else f, s_To := if swapped then f else t\<rparr>;
          cur = NormalizeCurrency (d_SalaryCurrencyRaw d)
      in case midRaw of
           None \<Rightarrow> out\<lparr>s_ExcludeFromSalaryAgg := True\<rparr>
         | Some _ \<Rightarrow>
             (case applyGrossNet midRaw (d_SalaryGross d) (o_TaxRate opts) of (midNet, grossUnknown) \<Rightarrow>
              let out = out\<lparr>s_Mid := midNet, s_GrossUnknown := grossUnknown, s_Currency := cur\<rparr>
              in case salary_rate d opts of
                   None \<Rightarrow> out\<lparr>s_FXMiss := True, s_ExcludeFromSalaryAgg := True\<rparr>
                 | Some (rate, usedDate, provider) \<Rightarrow>
                     out\<lparr>s_MidRub := Some (the midNet * rate), s_RateDate := Some usedDate,
                         s_RateProvider := provider,
                         s_ExcludeFromSalaryAgg :=
                           the midNet * rate < outlier_min opts \<or> outlier_max opts < the midNet * rate\<rparr>))"
proof -
  obtain midRaw swapped invalid where M: "Mid (d_SalaryFrom d) (d_SalaryTo d) = (midRaw, swapped, invalid)"
    by (cases "Mid (d_SalaryFrom d) (d_SalaryTo d)")
  have sw: "(positiveSalary (d_SalaryFrom d) \<noteq> None \<and> positiveSalary (d_SalaryTo d) \<noteq> None \<and> swapped)
      = swapped"
    using M by (auto simp: Mid_def Let_def simp del: positiveSalary_Some split: option.splits if_splits)
  show ?thesis
  proof (cases midRaw)
    case None
    then show ?thesis unfolding normalizeSalary_def Let_def M prod.case sw by simp
  next
    case (Some m)
    obtain n gu where G: "applyGrossNet (Some m) (d_SalaryGross d) (o_TaxRate opts) = (n, gu)" by fastforce
    show ?thesis
    proof (cases "NormalizeCurrency (d_SalaryCurrencyRaw d) = ''''")
      case True
      then show ?thesis unfolding normalizeSalary_def Let_def M prod.case sw Some G
        by (simp add: G salary_rate_def)
    next
      case False
      then show ?thesis
        unfolding normalizeSalary_def Let_def M prod.case sw Some
        by (cases "resolveFX opts (NormalizeCurrency (d_SalaryCurrencyRaw d)) (rate_date d)")
          (simp_all add: G rate_date_def outlier_min_def outlier_max_def empty_salary_def salary_rate_def
            split: prod.splits)
    qed
  qed
qed

lemma normalizeSalary_From:
  "s_From (normalizeSalary d opts) =
     (if fst (snd (Mid (d_SalaryFrom d) (d_SalaryTo d))) then positiveSalary (d_SalaryTo d)
      else positiveSalary (d_SalaryFrom d))"
  unfolding normalizeSalary_eq
  by (simp add: Let_def split: prod.splits option.splits del: positiveSalary_Some)

lemma normalizeSalary_To:
  "s_To (normalizeSalary d opts) =
     (if fst (snd (Mid (d_SalaryFrom d) (d_SalaryTo d))) then positiveSalary (d_SalaryFrom d)
      else positiveSalary (d_SalaryTo d))"
  unfolding normalizeSalary_eq
  by (simp add: Let_def split: prod.splits option.splits del: positiveSalary_Some)

lemma normalizeSalary_Mid:
  "s_Mid (normalizeSalary d opts) =
     fst (applyGrossNet (fst (Mid (d_SalaryFrom d) (d_SalaryTo d))) (d_SalaryGross d) (o_TaxRate opts))"
  unfolding normalizeSalary_eq
  by (simp add: Let_def applyGrossNet_def [of None] empty_salary_def
      split: prod.splits option.splits del: positiveSalary_Some)

lemma normalizeSalary_Swapped:
  "s_Swapped (normalizeSalary d opts) = fst (snd (Mid (d_SalaryFrom d) (d_SalaryTo d)))"
  unfolding normalizeSalary_eq
  by (simp add: Let_def split: prod.splits option.splits del: positiveSalary_Some)

lemma normalizeSalary_no_mid:
  assumes "fst (Mid (d_SalaryFrom d) (d_SalaryTo d)) = None"
  shows "s_Mid (normalizeSalary d opts) = None" "s_MidRub (normalizeSalary d opts) = None"
    "s_ExcludeFromSalaryAgg (normalizeSalary d opts)" "\<not> s_FXMiss (normalizeSalary d opts)"
proof -
  obtain sw inv where M: "Mid (d_SalaryFrom d) (d_SalaryTo d) = (None, sw, inv)"
    using assms by (cases "Mid (d_SalaryFrom d) (d_SalaryTo d)") auto
  show "s_Mid (normalizeSalary d opts) = None" "s_MidRub (normalizeSalary d opts) = None"
    "s_ExcludeFromSalaryAgg (normalizeSalary d opts)" "\<not> s_FXMiss (normalizeSalary d opts)"
    unfolding normalizeSalary_eq M by (simp_all add: Let_def empty_salary_def)
qed

lemma normalizeSalary_mid:
  assumes "fst (Mid (d_SalaryFrom d) (d_SalaryTo d)) = Some m"
  obtains n where "s_Mid (normalizeSalary d opts) = Some n" "0 \<le> n" "n \<le> m"
    "d_SalaryGross d \<noteq> Some True \<longrightarrow> n = m"
    "s_MidRub (normalizeSalary d opts) = map_option (\<lambda>x. n * fst x) (salary_rate d opts)"
    "s_FXMiss (normalizeSalary d opts) \<longleftrightarrow> salary_rate d opts = None"
    "s_ExcludeFromSalaryAgg (normalizeSalary d opts) \<longleftrightarrow>
       (case salary_rate d opts of None \<Rightarrow> True
        | Some x \<Rightarrow> n * fst x < outlier_min opts \<or> outlier_max opts < n * fst x)"
proof -
  obtain sw inv where M: "Mid (d_SalaryFrom d) (d_SalaryTo d) = (Some m, sw, inv)"
    using assms by (cases "Mid (d_SalaryFrom d) (d_SalaryTo d)") auto
  have "0 < m" using assms by (rule Mid_positive)
  then obtain n gu where G: "applyGrossNet (Some m) (d_SalaryGross d) (o_TaxRate opts) = (Some n, gu)"
    and n: "0 \<le> n" "n \<le> m" "d_SalaryGross d \<noteq> Some True \<longrightarrow> n = m"
    by (rule applyGrossNet_Some)
  note N = normalizeSalary_eq [of d opts, unfolded M prod.case Let_def option.case G]
  show ?thesis
  proof (rule that [of n])
    show "s_Mid (normalizeSalary d opts) = Some n" by (simp only: normalizeSalary_Mid M fst_conv G)
    show "s_MidRub (normalizeSalary d opts) = map_option (\<lambda>x. n * fst x) (salary_rate d opts)"
      unfolding N by (cases "salary_rate d opts") (simp_all add: empty_salary_def case_prod_beta)
    show "s_FXMiss (normalizeSalary d opts) \<longleftrightarrow> salary_rate d opts = None"
      unfolding N by (cases "salary_rate d opts") (simp_all add: empty_salary_def case_prod_beta)
    show "s_ExcludeFromSalaryAgg (normalizeSalary d opts) \<longleftrightarrow>
         (case salary_rate d opts of None \<Rightarrow> True
          | Some x \<Rightarrow> n * fst x < outlier_min opts \<or> outlier_max opts < n * fst x)"
      unfolding N by (cases "salary_rate d opts") (simp_all add: empty_salary_def case_prod_beta)
  qed (rule n)+
qed

section \<open>Exchange rates: lemmas\<close>

lemma NormalizeCurrency_idem: "NormalizeCurrency (NormalizeCurrency c) = NormalizeCurrency c"
proof -
  have "NormalizeCurrency ''RUB'' = ''RUB''" by (simp add: NormalizeCurrency_def bytes_simps)
  moreover have "ToUpper (TrimSpace (ToUpper (TrimSpace c))) = ToUpper (TrimSpace c)"
    by (simp add: TrimSpace_ToUpper)
  ultimately show ?thesis by (simp add: NormalizeCurrency_def Let_def)
qed

lemma fx_day_positive: "fx_day fx cur d = Some (r, u, p) \<Longrightarrow> 0 < r"
  by (auto simp: fx_day_def split: option.splits if_splits)

lemma fx_walk_Some_iff:
  "fx_walk fx cur day i n = Some x \<longleftrightarrow>
     (\<exists>k < n. fx_day fx cur (add_days day (- int (i + k))) = Some x
        \<and> (\<forall>j < k. fx_day fx cur (add_days day (- int (i + j))) = None))"
proof (induction n arbitrary: i)
  case (Suc n)
  show ?case
  proof (cases "fx_day fx cur (add_days day (- int i))")
    case None
    have "(\<exists>k < Suc n. fx_day fx cur (add_days day (- int (i + k))) = Some x
        \<and> (\<forall>j < k. fx_day fx cur (add_days day (- int (i + j))) = None)) \<longleftrightarrow>
      (\<exists>k < n. fx_day fx cur (add_days day (- int (Suc i + k))) = Some x
        \<and> (\<forall>j < k. fx_day fx cur (add_days day (- int (Suc i + j))) = None))"
      (is "?L \<longleftrightarrow> ?R")
    proof
      assume ?L
      then obtain k where k: "k < Suc n" "fx_day fx cur (add_days day (- int (i + k))) = Some x"
        "\<forall>j < k. fx_day fx cur (add_days day (- int (i + j))) = None" by blast
      with None obtain k' where k': "k = Suc k'" by (cases k) auto
      have "\<forall>j < k'. fx_day fx cur (add_days day (- int (Suc i + j))) = None"
        using k(3) k' by (metis Suc_less_eq add_Suc_shift)
      with k k' show ?R by (metis Suc_less_eq add_Suc_shift)
    next
      assume ?R
      then obtain k where k: "k < n" "fx_day fx cur (add_days day (- int (Suc i + k))) = Some x"
        "\<forall>j < k. fx_day fx cur (add_days day (- int (Suc i + j))) = None" by blast
      have "fx_day fx cur (add_days day (- int (i + j))) = None" if "j < Suc k" for j
        using that None k(3) by (cases j) (simp, metis Suc_less_eq add_Suc_shift)
      with k show ?L by (metis Suc_less_eq add_Suc_shift)
    qed
    then show ?thesis by (simp only: fx_walk.simps None option.case Suc.IH)
  next
    case (Some y)
    show ?thesis
    proof
      assume "fx_walk fx cur day i (Suc n) = Some x"
      with Some show "\<exists>k < Suc n. fx_day fx cur (add_days day (- int (i + k))) = Some x
        \<and> (\<forall>j < k. fx_day fx cur (add_days day (- int (i + j))) = None)"
        by (intro exI [of _ 0]) simp
    next
      assume "\<exists>k < Suc n. fx_day fx cur (add_days day (- int (i + k))) = Some x
        \<and> (\<forall>j < k. fx_day fx cur (add_days day (- int (i + j))) = None)"
      then obtain k where k: "fx_day fx cur (add_days day (- int (i + k))) = Some x"
        "\<forall>j < k. fx_day fx cur (add_days day (- int (i + j))) = None" by blast
      with Some have "k = 0" by (metis add.right_neutral gr0I option.distinct(1))
      with k Some show "fx_walk fx cur day i (Suc n) = Some x" by simp
    qed
  qed
qed simp

lemma fx_walk_None:
  "fx_walk fx cur day i n = None \<Longrightarrow> k < n \<Longrightarrow> fx_day fx cur (add_days day (- int (i + k))) = None"
proof (induction n arbitrary: i k)
  case (Suc n)
  then have h: "fx_day fx cur (add_days day (- int i)) = None" "fx_walk fx cur day (Suc i) n = None"
    by (simp_all split: option.splits)
  show ?case
  proof (cases k)
    case 0
    with h show ?thesis by simp
  next
    case (Suc k')
    with Suc.IH [OF h(2), of k'] Suc.prems show ?thesis by (metis Suc_less_eq add_Suc_shift)
  qed
qed simp

text \<open>
  What a provider owes its caller: the detailed method tells the same rate as the plain one,
  and a rate belongs to a calendar day, not to a moment.
\<close>

locale fx_contract =
  fixes fx :: FXProvider
  assumes detailed_agrees: "fx_Detailed fx = Some det \<Longrightarrow> fx_RateToRUB fx c d = map_option fst (det c d)"
    and rate_of_day: "fx_RateToRUB fx c (day_start d) = fx_RateToRUB fx c d"
begin

text \<open>With a detailed provider the rate comes with its own date and source, never with
  \<^verbatim>\<open>configured\<close> in their place.\<close>

lemma fx_day_detailed:
  assumes "fx_Detailed fx = Some det"
  shows "fx_day fx c d = (case det c d of None \<Rightarrow> None | Some x \<Rightarrow> if 0 < fst x then Some x else None)"
  using detailed_agrees [OF assms, of c d] assms
  by (auto simp: fx_day_def split: option.splits)

lemma fx_day_plain:
  assumes "fx_Detailed fx = None"
  shows "fx_day fx c d = (case fx_RateToRUB fx c d of None \<Rightarrow> None
     | Some r \<Rightarrow> if 0 < r then Some (r, d, ''configured'') else None)"
  using assms by (simp add: fx_day_def)

lemma fx_day_rate: "map_option fst (fx_day fx c d) =
    (case fx_RateToRUB fx c d of None \<Rightarrow> None | Some r \<Rightarrow> if 0 < r then Some r else None)"
proof (cases "fx_Detailed fx")
  case None
  then show ?thesis by (simp add: fx_day_plain split: option.splits)
next
  case (Some det)
  then show ?thesis
    using detailed_agrees [OF Some, of c d] by (auto simp: fx_day_detailed split: option.splits)
qed

end

interpretation map_fx: fx_contract "MapFX_provider m" for m
  by unfold_locales (simp_all add: MapFX_provider_def MapFX_RateToRUB_def Let_def split: option.split)

interpretation rate_table: fx_contract "RateTable_provider t" for t
  by unfold_locales
    (simp_all add: RateTable_provider_def RateTable_RateToRUB_def RateTable_Detailed_def cong: option.case_cong)

section \<open>Matchers: lemmas\<close>

text \<open>What both text normalisers start with: trimming, lowering, and yo to ye, which is a
  map over the runes.\<close>

definition fold_rune :: "rune \<Rightarrow> rune" where
  "fold_rune r = (if lower_rune r = 1105 then 1077 else lower_rune r)"

lemma yo_ye: "yo = encode_rune 1105" "ye = encode_rune 1077"
  by (simp_all add: yo_def ye_def bytes_simps)

lemma fold_rune_idem [simp]: "fold_rune (fold_rune r) = fold_rune r"
  by (auto simp: fold_rune_def) (simp add: lower_rune_def)

lemma valid_fold_rune: "valid_rune r \<Longrightarrow> valid_rune (fold_rune r)"
  by (simp add: fold_rune_def valid_rune_def [of 1077])

lemma folded_text:
  "ReplaceAll (ToLower (TrimSpace s)) yo ye = encode (map fold_rune (runes (TrimSpace s)))"
proof -
  let ?rs = "map lower_rune (runes (TrimSpace s))"
  have v: "\<forall>r \<in> set ?rs. valid_rune r" by (auto dest: runes_valid)
  have "valid_rune 1105" by (simp add: valid_rune_def)
  from ReplaceAll_encode [OF this v, of 1077] show ?thesis
    by (simp add: ToLower_def yo_ye comp_def fold_rune_def [abs_def])
qed

lemma runes_folded:
  "runes (ReplaceAll (ToLower (TrimSpace s)) yo ye) = map fold_rune (runes (TrimSpace s))"
  unfolding folded_text by (rule runes_encode) (auto dest: runes_valid intro: valid_fold_rune)

text \<open>A text of folded runes without space at its ends is left alone.\<close>

lemma runes_folded_fixed:
  assumes "\<forall>r \<in> set rs. valid_rune r \<and> fold_rune r = r" "trim_by is_space rs = rs"
  shows "runes (ReplaceAll (ToLower (TrimSpace (encode rs))) yo ye) = rs"
proof -
  have v: "\<forall>r \<in> set rs. valid_rune r" using assms(1) by blast
  have "map fold_rune rs = rs" using assms(1) by (simp add: map_idI)
  then show ?thesis
    using runes_folded [of "encode rs"] by (simp add: TrimSpace_encode [OF v] assms(2) runes_encode [OF v])
qed

subsection \<open>Titles\<close>

text \<open>The loop without its accumulator; \<open>p\<close> is the code's \<^verbatim>\<open>prevSpace\<close> and \<open>ne\<close> tells
  that the builder is not empty. \<open>title_ok\<close> is the shape of what it writes: letters and
  digits, with single spaces between them.\<close>

fun title_out :: "rune list \<Rightarrow> bool \<Rightarrow> bool \<Rightarrow> rune list" where
  "title_out [] p ne = []"
| "title_out (r # rs) p ne =
     (if is_letter r \<or> is_digit r then r # title_out rs False True
      else if (is_space r \<or> is_punct r) \<and> \<not> p \<and> ne then 32 # title_out rs True True
      else title_out rs p ne)"

fun title_ok :: "rune list \<Rightarrow> bool \<Rightarrow> bool \<Rightarrow> bool" where
  "title_ok [] p ne = True"
| "title_ok (r # rs) p ne =
     (if is_letter r \<or> is_digit r then title_ok rs False True
      else r = 32 \<and> \<not> p \<and> ne \<and> title_ok rs True True)"

lemma title_loop_out: "title_loop rs b p = b @ title_out rs p (b \<noteq> [])"
  by (induction rs b p rule: title_loop.induct) simp_all

lemma not_letter_32: "\<not> is_letter 32" "\<not> is_digit 32" "is_space 32"
  by (simp_all add: is_letter_def is_digit_def is_space_def)

lemma title_out_ok: "title_ok (title_out rs p ne) p ne"
  by (induction rs p ne rule: title_out.induct) (auto simp: not_letter_32)

lemma title_out_fixed: "title_ok rs p ne \<Longrightarrow> title_out rs p ne = rs"
  by (induction rs p ne rule: title_ok.induct) (auto simp: not_letter_32 split: if_splits)

lemma title_ok_prefix: "title_ok (xs @ ys) p ne \<Longrightarrow> title_ok xs p ne"
  by (induction xs p ne rule: title_ok.induct) (auto split: if_splits)

lemma title_out_set: "r \<in> set (title_out rs p ne) \<Longrightarrow> r \<in> set rs \<or> r = 32"
  by (induction rs p ne rule: title_out.induct) (auto split: if_splits)

lemma letter_not_space: "is_letter r \<or> is_digit r \<Longrightarrow> \<not> is_space r"
  unfolding is_letter_def is_digit_def is_space_def by linarith

lemma title_ok_trim:
  assumes "title_ok rs False False"
  shows "title_ok (trim_by is_space rs) False False"
proof -
  have "dropWhile is_space rs = rs"
    using assms by (intro dropWhile_idem_cond) (cases rs; auto simp: letter_not_space split: if_splits)
  then have "trim_by is_space rs = rev (dropWhile is_space (rev rs))" by (simp add: trim_by_def)
  moreover have "rs = rev (dropWhile is_space (rev rs)) @ rev (takeWhile is_space (rev rs))"
    by (metis rev_append rev_rev_ident takeWhile_dropWhile_id)
  ultimately show ?thesis using assms title_ok_prefix by metis
qed

definition title_runes :: "rune list \<Rightarrow> bool" where
  "title_runes rs \<longleftrightarrow> title_ok rs False False \<and> trim_by is_space rs = rs
     \<and> (\<forall>r \<in> set rs. valid_rune r \<and> fold_rune r = r)"

lemma NormalizeTitle_shape: "\<exists>rs. title_runes rs \<and> NormalizeTitle s = encode rs"
proof -
  let ?out = "title_out (map fold_rune (runes (TrimSpace s))) False False"
  have c: "\<forall>r \<in> set ?out. valid_rune r \<and> fold_rune r = r"
  proof
    fix r assume "r \<in> set ?out"
    then have "r \<in> set (map fold_rune (runes (TrimSpace s))) \<or> r = 32" by (rule title_out_set)
    then show "valid_rune r \<and> fold_rune r = r"
    proof
      assume "r = 32"
      then show ?thesis by (simp add: valid_rune_def fold_rune_def lower_rune_def)
    qed (auto dest: runes_valid intro: valid_fold_rune)
  qed
  have "NormalizeTitle s = encode (trim_by is_space ?out)"
    using c by (simp add: NormalizeTitle_def runes_folded title_loop_out TrimSpace_encode)
  moreover have "title_runes (trim_by is_space ?out)"
    using c trim_by_set title_ok_trim [OF title_out_ok] unfolding title_runes_def by force
  ultimately show ?thesis by blast
qed

lemma NormalizeTitle_fixed:
  assumes "title_runes rs"
  shows "NormalizeTitle (encode rs) = encode rs"
proof -
  have "runes (ReplaceAll (ToLower (TrimSpace (encode rs))) yo ye) = rs"
    using assms by (intro runes_folded_fixed) (auto simp: title_runes_def)
  then show ?thesis
    using assms by (simp add: NormalizeTitle_def title_loop_out title_out_fixed title_runes_def TrimSpace_encode)
qed

subsection \<open>Skill names\<close>

fun slug_ok :: "rune list \<Rightarrow> bool \<Rightarrow> bool" where
  "slug_ok [] p = True"
| "slug_ok (r # rs) p = (if skill_rune r then slug_ok rs False else r = 45 \<and> \<not> p \<and> slug_ok rs True)"

lemma not_skill_45: "\<not> skill_rune 45"
  by (simp add: skill_rune_def)

lemma slug_loop_ok: "slug_ok (slug_loop rs p) p"
  by (induction rs p rule: slug_loop.induct) (auto simp: not_skill_45)

lemma slug_loop_fixed: "slug_ok rs p \<Longrightarrow> slug_loop rs p = rs"
  by (induction rs p rule: slug_ok.induct) (auto simp: not_skill_45 split: if_splits)

lemma slug_ok_prefix: "slug_ok (xs @ ys) p \<Longrightarrow> slug_ok xs p"
  by (induction xs p rule: slug_ok.induct) (auto split: if_splits)

lemma slug_ok_mono: "slug_ok rs True \<Longrightarrow> slug_ok rs False"
  by (cases rs) (auto split: if_splits)

lemma slug_ok_suffix: "slug_ok (xs @ ys) p \<Longrightarrow> slug_ok ys False"
  by (induction xs p rule: slug_ok.induct) (auto split: if_splits intro: slug_ok_mono elim: slug_ok.elims)

lemma slug_ok_trim:
  assumes "slug_ok rs False"
  shows "slug_ok (trim_by P rs) False"
  using trim_by_split [of rs P] assms by (metis slug_ok_prefix slug_ok_suffix)

lemma slug_loop_set: "r \<in> set (slug_loop rs p) \<Longrightarrow> skill_rune r \<or> r = 45"
  by (induction rs p rule: slug_loop.induct) (auto split: if_splits)

lemma skill_rune_plain: "skill_rune r \<or> r = 45 \<Longrightarrow> valid_rune r \<and> fold_rune r = r \<and> \<not> is_space r"
proof -
  assume "skill_rune r \<or> r = 45"
  then have r: "35 \<le> r \<and> r \<le> 57 \<or> 97 \<le> r \<and> r \<le> 122 \<or> 1072 \<le> r \<and> r \<le> 1103"
    unfolding skill_rune_def by linarith
  then have "lower_rune r = r" unfolding lower_rune_def by (intro if_not_P [THEN trans]) (linarith, auto)
  moreover from r have "r \<noteq> 1105" "valid_rune r" "\<not> is_space r"
    unfolding valid_rune_def is_space_def by linarith+
  ultimately show ?thesis by (simp add: fold_rune_def)
qed

definition slug_runes :: "rune list \<Rightarrow> bool" where
  "slug_runes rs \<longleftrightarrow> slug_ok rs False \<and> trim_by (\<lambda>r. r = 45) rs = rs
     \<and> (\<forall>r \<in> set rs. skill_rune r \<or> r = 45)"

lemma NormalizeSkillName_shape: "\<exists>rs. slug_runes rs \<and> NormalizeSkillName s = encode rs"
proof -
  let ?out = "trim_by (\<lambda>r. r = 45) (slug_loop (runes (ReplaceAll (ToLower (TrimSpace s)) yo ye)) False)"
  have "slug_runes ?out"
    unfolding slug_runes_def
  proof (intro conjI ballI)
    fix r assume "r \<in> set ?out"
    then show "skill_rune r \<or> r = 45" by (meson slug_loop_set subsetD trim_by_set)
  qed (simp_all add: slug_ok_trim slug_loop_ok)
  then show ?thesis by (auto simp: NormalizeSkillName_def Let_def)
qed

lemma NormalizeSkillName_fixed:
  assumes "slug_runes rs"
  shows "NormalizeSkillName (encode rs) = encode rs"
proof -
  have plain: "\<forall>r \<in> set rs. valid_rune r \<and> fold_rune r = r \<and> \<not> is_space r"
    using assms skill_rune_plain by (simp add: slug_runes_def)
  then have "trim_by is_space rs = rs" by (intro trim_by_none) (simp add: list_all_iff)
  then have "runes (ReplaceAll (ToLower (TrimSpace (encode rs))) yo ye) = rs"
    using plain by (intro runes_folded_fixed) auto
  then show ?thesis
    using assms by (simp add: NormalizeSkillName_def slug_loop_fixed slug_runes_def)
qed

section \<open>Skills: lemmas\<close>

text \<open>The skill id a raw name yields, if any.\<close>

definition skill_id_of :: "SkillMatcher \<Rightarrow> string \<Rightarrow> string \<Rightarrow> string option" where
  "skill_id_of matcher source raw =
     (let name = TrimSpace raw; sid = fst (matcher source name) in
      if name = '''' \<or> sid = '''' then None else Some sid)"

lemma match_skills_step:
  "match_skills_loop matcher source seen (raw # raws) =
     (case skill_id_of matcher source raw of
        None \<Rightarrow> match_skills_loop matcher source seen raws
      | Some sid \<Rightarrow>
          if List.member seen sid then match_skills_loop matcher source seen raws
          else \<lparr>sk_SkillID = sid, sk_RawName = TrimSpace raw, sk_IsNew = snd (matcher source (TrimSpace raw))\<rparr>
                 # match_skills_loop matcher source (sid # seen) raws)"
  by (simp add: skill_id_of_def Let_def case_prod_beta)

lemma match_skills_fresh:
  "s \<in> set (match_skills_loop matcher source seen raws) \<Longrightarrow> sk_SkillID s \<notin> set seen"
  by (induction raws arbitrary: seen)
    (simp, fastforce simp: match_skills_step simp del: match_skills_loop.simps(2) split: option.splits if_splits)

lemma match_skills_distinct: "distinct (map sk_SkillID (match_skills_loop matcher source seen raws))"
  by (induction raws arbitrary: seen)
    (auto simp: match_skills_step simp del: match_skills_loop.simps(2) dest: match_skills_fresh
      split: option.split)

lemma match_skills_ids:
  "sk_SkillID ` set (match_skills_loop matcher source seen raws)
     = {sid. \<exists>raw \<in> set raws. skill_id_of matcher source raw = Some sid} - set seen"
proof (induction raws arbitrary: seen)
  case (Cons raw raws)
  show ?case
    by (cases "skill_id_of matcher source raw")
      (auto simp: match_skills_step Cons simp del: match_skills_loop.simps(2))
qed simp

lemma match_skills_entry:
  "s \<in> set (match_skills_loop matcher source seen raws) \<Longrightarrow>
     sk_RawName s \<noteq> '''' \<and> sk_SkillID s \<noteq> ''''
     \<and> matcher source (sk_RawName s) = (sk_SkillID s, sk_IsNew s)"
  by (induction raws arbitrary: seen) (auto simp: Let_def split: prod.splits if_splits)

section \<open>Content hash: lemmas\<close>

lemma normalizeSalary_published:
  assumes "\<not> IsZero (d_PublishedAt d)"
  shows "normalizeSalary (d\<lparr>d_CollectedAt := t\<rparr>) opts = normalizeSalary d opts"
proof -
  let ?d = "d\<lparr>d_CollectedAt := t\<rparr>"
  have same: "d_SalaryFrom ?d = d_SalaryFrom d" "d_SalaryTo ?d = d_SalaryTo d" "d_SalaryGross ?d = d_SalaryGross d"
    "d_SalaryCurrencyRaw ?d = d_SalaryCurrencyRaw d" by simp_all
  have rate: "salary_rate ?d opts = salary_rate d opts" using assms by (simp add: salary_rate_def rate_date_def Let_def)
  show ?thesis unfolding normalizeSalary_eq same rate ..
qed

lemma content_fields_collected: "content_fields (v\<lparr>v_CollectedAt := t\<rparr>) = content_fields v"
  by (simp add: content_fields_def)

lemma build_vacancy_collected:
  "build_vacancy (d\<lparr>d_CollectedAt := t\<rparr>) opts sal = (build_vacancy d opts sal)\<lparr>v_CollectedAt := t\<rparr>"
  by (simp add: build_vacancy_def)

lemma content_fields_skills:
  assumes "mset (map hash_skill ss) = mset (map hash_skill (v_Skills v))"
  shows "content_fields (v\<lparr>v_Skills := ss\<rparr>) = content_fields v"
proof -
  have "sort (map hash_skill ss) = sort (map hash_skill (v_Skills v))"
    using assms by (metis properties_for_sort mset_sort sorted_sort)
  then show ?thesis by (simp add: content_fields_def)
qed

section \<open>Properties\<close>

lemma Normalize_Inr:
  "Normalize sha d opts = Inr r \<longleftrightarrow>
     d_Source d \<noteq> '''' \<and> d_ExternalID d \<noteq> '''' \<and> d_Title d \<noteq> '''' \<and>
     (let sal = normalizeSalary d (withDefaults opts); v = build_vacancy d (withDefaults opts) sal
      in r = \<lparr>nr_Vacancy = v\<lparr>v_ContentHash := ContentHash sha v\<rparr>,
              nr_Metrics = \<lparr>m_SalaryInvalid = s_Invalid sal, m_GrossUnknown = s_GrossUnknown sal,
                m_FXMiss = s_FXMiss sal, m_RoleUnmapped = (v_RoleID v = None),
                m_SalarySwapped = s_Swapped sal\<rparr>\<rparr>)"
  unfolding Normalize_def Let_def by auto

lemma Normalize_salary_fields:
  assumes "Normalize sha d opts = Inr r"
  defines "sal \<equiv> normalizeSalary d (withDefaults opts)"
  shows "v_SalaryFrom (nr_Vacancy r) = s_From sal" "v_SalaryTo (nr_Vacancy r) = s_To sal"
    "v_SalaryMid (nr_Vacancy r) = s_Mid sal" "v_SalaryMidRub (nr_Vacancy r) = s_MidRub sal"
    "v_ExcludeFromSalaryAgg (nr_Vacancy r) = s_ExcludeFromSalaryAgg sal"
    "m_FXMiss (nr_Metrics r) = s_FXMiss sal" "v_SalaryGross (nr_Vacancy r) = d_SalaryGross d"
proof -
  have g: "s_Gross (normalizeSalary d o') = d_SalaryGross d" for o'
    unfolding normalizeSalary_eq
    by (simp add: Let_def split: prod.splits option.splits del: positiveSalary_Some)
  show "v_SalaryFrom (nr_Vacancy r) = s_From sal" "v_SalaryTo (nr_Vacancy r) = s_To sal"
    "v_SalaryMid (nr_Vacancy r) = s_Mid sal" "v_SalaryMidRub (nr_Vacancy r) = s_MidRub sal"
    "v_ExcludeFromSalaryAgg (nr_Vacancy r) = s_ExcludeFromSalaryAgg sal"
    "m_FXMiss (nr_Metrics r) = s_FXMiss sal" "v_SalaryGross (nr_Vacancy r) = d_SalaryGross d"
    using assms(1) by (simp_all add: Normalize_Inr Let_def build_vacancy_def sal_def g)
qed

lemma salary_bounds_ordered:
  assumes "s_From (normalizeSalary d opts) = Some f" "s_To (normalizeSalary d opts) = Some t"
  shows "0 < f \<and> f \<le> t"
proof (cases "fst (snd (Mid (d_SalaryFrom d) (d_SalaryTo d)))")
  case True
  with assms have a: "positiveSalary (d_SalaryTo d) = Some f" "positiveSalary (d_SalaryFrom d) = Some t"
    by (simp_all add: normalizeSalary_From normalizeSalary_To)
  from True Mid_both [OF a(2,1)] have "f < t" by simp
  with a show ?thesis by simp
next
  case False
  with assms have a: "positiveSalary (d_SalaryFrom d) = Some f" "positiveSalary (d_SalaryTo d) = Some t"
    by (simp_all add: normalizeSalary_From normalizeSalary_To)
  from False Mid_both [OF a] have "f \<le> t" by simp
  with a show ?thesis by simp
qed

text \<open>The raw mid lies between the canonical bounds.\<close>

lemma raw_mid_between:
  assumes "fst (Mid (d_SalaryFrom d) (d_SalaryTo d)) = Some m"
  shows "s_From (normalizeSalary d opts) = Some f \<Longrightarrow> f \<le> m"
    "s_To (normalizeSalary d opts) = Some t \<Longrightarrow> m \<le> t"
    "\<exists>b. s_From (normalizeSalary d opts) = Some b \<or> s_To (normalizeSalary d opts) = Some b"
  unfolding normalizeSalary_From normalizeSalary_To using assms
  by (auto simp: Mid_def Let_def positiveSalary_def split: option.splits if_splits)

text \<open>A draft and options for the witnesses: a published vacancy in dollars with swapped
  bounds, and a table with one day's rate.\<close>

definition sample_draft :: Draft where
  "sample_draft = \<lparr>d_SchemaVersion = ''v1'', d_Source = ''hh'', d_ExternalID = ''1'', d_SourceURL = '''',
     d_Title = ''Go'', d_EmployerExternalID = '''', d_EmployerName = '''', d_RegionExternalID = '''',
     d_RegionName = '''', d_SalaryFrom = Some 3000, d_SalaryTo = Some 1000, d_SalaryCurrencyRaw = ''USD'',
     d_SalaryGross = Some False, d_PublishedAt = 2 * Day + Hour, d_CollectedAt = 3 * Day,
     d_SkillsRaw = [], d_ProfessionalRoleIDs = [], d_ScheduleID = '''', d_WorkFormatIDs = [],
     d_DescriptionText = '''', d_DescriptionTruncated = False, d_IsActiveHint = None, d_RawPayload = ''''\<rparr>"

definition sample_fx :: FXProvider where
  "sample_fx = \<lparr>fx_RateToRUB = (\<lambda>c t. if c = ''USD'' \<and> t = Day then Some 50 else None), fx_Detailed = None\<rparr>"

definition sample_options :: Options where
  "sample_options = DefaultOptions\<lparr>o_FX := Some sample_fx\<rparr>"

lemma sample_Normalize: "\<exists>r. Normalize sha sample_draft opts = Inr r"
  by (simp add: Normalize_def sample_draft_def Let_def)

text \<open>
  The canonical salary is a range: when both bounds are present they are positive and in
  order whatever order the source gave them in, the mid is not negative and not above the
  upper bound, it is present exactly when some bound is, and unless the salary is gross it is
  not below the lower bound.
\<close>

theorem salary_range:
  assumes "Normalize sha d opts = Inr r"
  defines "v \<equiv> nr_Vacancy r"
  shows "(\<forall>f t. v_SalaryFrom v = Some f \<and> v_SalaryTo v = Some t \<longrightarrow> 0 < f \<and> f \<le> t)
    \<and> (v_SalaryMid v = None \<longleftrightarrow> v_SalaryFrom v = None \<and> v_SalaryTo v = None)
    \<and> (\<forall>m. v_SalaryMid v = Some m \<longrightarrow> 0 \<le> m
         \<and> (\<forall>t. v_SalaryTo v = Some t \<longrightarrow> m \<le> t)
         \<and> (\<forall>f. v_SalaryFrom v = Some f \<and> v_SalaryGross v \<noteq> Some True \<longrightarrow> f \<le> m))"
proof -
  let ?o = "withDefaults opts"
  note f = Normalize_salary_fields [OF assms(1)]
  show ?thesis
  proof (cases "fst (Mid (d_SalaryFrom d) (d_SalaryTo d))")
    case None
    then have "positiveSalary (d_SalaryFrom d) = None" "positiveSalary (d_SalaryTo d) = None"
      by (auto simp: Mid_def Let_def simp del: positiveSalary_Some split: option.splits if_splits)
    with None show ?thesis
      unfolding v_def f normalizeSalary_no_mid(1) [OF None] by (simp add: normalizeSalary_From normalizeSalary_To)
  next
    case (Some m)
    then obtain n where n: "s_Mid (normalizeSalary d ?o) = Some n" "0 \<le> n" "n \<le> m"
      "d_SalaryGross d \<noteq> Some True \<longrightarrow> n = m" by (rule normalizeSalary_mid)
    show ?thesis
      unfolding v_def f n(1)
      using raw_mid_between [OF Some, of ?o] salary_bounds_ordered n by fastforce
  qed
qed

theorem salary_range_witness:
  "\<exists>r. Normalize id sample_draft sample_options = Inr r
     \<and> (\<forall>f t. v_SalaryFrom (nr_Vacancy r) = Some f \<and> v_SalaryTo (nr_Vacancy r) = Some t \<longrightarrow> f \<le> t)"
  using salary_range sample_Normalize by blast

text \<open>
  C1. A vacancy counts in the salary aggregates exactly when its mid was converted to roubles
  and the result lies within the outlier bounds; the exchange-rate miss is reported exactly
  when there is a mid that was not converted.
\<close>

theorem salary_eligible_iff:
  assumes "Normalize sha d opts = Inr r"
  defines "v \<equiv> nr_Vacancy r" and "o' \<equiv> withDefaults opts"
  shows "(\<not> v_ExcludeFromSalaryAgg v \<longleftrightarrow>
      (\<exists>x. v_SalaryMidRub v = Some x \<and> outlier_min o' \<le> x \<and> x \<le> outlier_max o'))
    \<and> (m_FXMiss (nr_Metrics r) \<longleftrightarrow> v_SalaryMid v \<noteq> None \<and> v_SalaryMidRub v = None)"
proof -
  note f = Normalize_salary_fields [OF assms(1)]
  show ?thesis
  proof (cases "fst (Mid (d_SalaryFrom d) (d_SalaryTo d))")
    case None
    then show ?thesis unfolding v_def f by (simp add: normalizeSalary_no_mid)
  next
    case (Some m)
    then obtain n where "s_Mid (normalizeSalary d o') = Some n"
      "s_MidRub (normalizeSalary d o') = map_option (\<lambda>x. n * fst x) (salary_rate d o')"
      "s_FXMiss (normalizeSalary d o') \<longleftrightarrow> salary_rate d o' = None"
      "s_ExcludeFromSalaryAgg (normalizeSalary d o') \<longleftrightarrow>
         (case salary_rate d o' of None \<Rightarrow> True
          | Some x \<Rightarrow> n * fst x < outlier_min o' \<or> outlier_max o' < n * fst x)"
      by (rule normalizeSalary_mid)
    then show ?thesis unfolding v_def f o'_def by (auto simp: not_less split: option.splits)
  qed
qed

theorem salary_eligible_iff_witness:
  "\<exists>r. Normalize id sample_draft sample_options = Inr r
     \<and> (m_FXMiss (nr_Metrics r) \<longleftrightarrow> v_SalaryMid (nr_Vacancy r) \<noteq> None \<and> v_SalaryMidRub (nr_Vacancy r) = None)"
  using salary_eligible_iff sample_Normalize by blast

text \<open>
  For a foreign currency the rate found is positive and is the one of the most recent day,
  within the fallback window that ends on the day of the vacancy, for which the provider has a
  positive rate; only without any such day may the configured dollar rate stand in.
\<close>

theorem resolveFX_most_recent:
  assumes "NormalizeCurrency c \<notin> {'''', ''RUB''}" "o_FX opts = Some fx"
    "resolveFX opts c t = Some (r, used, p)"
  defines "rate k \<equiv> fx_day fx (NormalizeCurrency c) (add_days (day_start t) (- int k))"
    and "window \<equiv> nat (max 0 (o_FXMaxFallbackDays opts))"
  shows "0 < r \<and>
    ((\<exists>k \<le> window. rate k = Some (r, used, p) \<and> (\<forall>j < k. rate j = None))
     \<or> (\<forall>k \<le> window. rate k = None) \<and> o_AllowStaticFXFallback opts
        \<and> NormalizeCurrency c = ''USD'' \<and> r = o_StaticUSDToRUB opts \<and> p = ''static-dev'')"
proof -
  let ?cur = "NormalizeCurrency c"
  have w: "nat ((if o_FXMaxFallbackDays opts < 0 then 0 else o_FXMaxFallbackDays opts) + 1) = Suc window"
    by (simp add: window_def Suc_nat_eq_nat_zadd1 add.commute)
  show ?thesis
  proof (cases "fx_walk fx ?cur (day_start t) 0 (Suc window)")
    case (Some x)
    then obtain k where "k < Suc window" "rate k = Some x" "\<forall>j < k. rate j = None"
      unfolding fx_walk_Some_iff rate_def by auto
    moreover have "x = (r, used, p)" using assms(1-3) Some by (simp add: resolveFX_def Let_def w del: fx_walk.simps)
    ultimately show ?thesis using fx_day_positive unfolding rate_def less_Suc_eq_le by blast
  next
    case None
    have "rate k = None" if "k \<le> window" for k
      using fx_walk_None [OF None, of k] that unfolding rate_def by simp
    moreover have "o_AllowStaticFXFallback opts \<and> ?cur = ''USD'' \<and> 0 < o_StaticUSDToRUB opts
        \<and> r = o_StaticUSDToRUB opts \<and> p = ''static-dev''"
      using assms(1-3) None unfolding resolveFX_def Let_def w by (simp del: fx_walk.simps split: if_splits)
    ultimately show ?thesis by simp
  qed
qed

lemma sample_rate: "resolveFX sample_options ''USD'' (2 * Day + Hour) = Some (50, Day, ''configured'')"
proof -
  have cur: "NormalizeCurrency ''USD'' = ''USD''" by (simp add: NormalizeCurrency_def bytes_simps)
  have day: "day_start (2 * Day + Hour) = 2 * Day" by (simp add: day_start_def Truncate_def time_units)
  have "fx_walk sample_fx ''USD'' (2 * Day) 0 (Suc (Suc n)) = Some (50, Day, ''configured'')" for n
    by (simp add: fx_day_def sample_fx_def add_days_def time_units)
  from this [of 6] show ?thesis
    unfolding resolveFX_def cur day Let_def
    by (simp add: sample_options_def DefaultOptions_def default_policy eval_nat_numeral)
qed

theorem resolveFX_most_recent_witness:
  "(0::real) < 50 \<and> NormalizeCurrency ''USD'' \<notin> {'''', ''RUB''} \<and> o_FX sample_options = Some sample_fx"
  using resolveFX_most_recent [OF _ _ sample_rate, of sample_fx]
  by (simp add: sample_options_def NormalizeCurrency_def bytes_simps)

text \<open>
  The matched skills: no id twice, none empty, the ids are exactly those the matcher gives
  for the non-blank raw names, and every entry is the matcher's answer for its own raw name.
\<close>

theorem matchSkills_exact:
  fixes matcher source raws
  defines "m \<equiv> case matcher of None \<Rightarrow> MatchSkill Map.empty | Some m \<Rightarrow> m"
  shows "distinct (map sk_SkillID (matchSkills matcher source raws))
    \<and> sk_SkillID ` set (matchSkills matcher source raws)
        = {fst (m source (TrimSpace raw)) | raw. raw \<in> set raws \<and> TrimSpace raw \<noteq> ''''} - {''''}
    \<and> list_all (\<lambda>s. m source (sk_RawName s) = (sk_SkillID s, sk_IsNew s)) (matchSkills matcher source raws)"
proof -
  have "{sid. \<exists>raw \<in> set raws. skill_id_of m source raw = Some sid}
      = {fst (m source (TrimSpace raw)) | raw. raw \<in> set raws \<and> TrimSpace raw \<noteq> ''''} - {''''}"
    by (auto simp: skill_id_of_def Let_def split: if_splits)
  then show ?thesis
    unfolding matchSkills_def m_def [symmetric] match_skills_ids list_all_iff
    by (auto simp: match_skills_distinct dest: match_skills_entry)
qed

text \<open>
  Both text keys are canonical: normalising a normalised title or skill name changes
  nothing, so a key stored by one part of the system is found by another; a skill name and its
  key match the same skill.
\<close>

theorem text_keys_canonical:
  "NormalizeTitle (NormalizeTitle s) = NormalizeTitle s
   \<and> NormalizeSkillName (NormalizeSkillName s) = NormalizeSkillName s
   \<and> MatchSkill aliases source (NormalizeSkillName s) = MatchSkill aliases source s"
proof -
  have "NormalizeTitle (NormalizeTitle s) = NormalizeTitle s"
    using NormalizeTitle_shape [of s] NormalizeTitle_fixed by auto
  moreover have "NormalizeSkillName (NormalizeSkillName s) = NormalizeSkillName s"
    using NormalizeSkillName_shape [of s] NormalizeSkillName_fixed by auto
  ultimately show ?thesis by (simp add: MatchSkill_def)
qed

text \<open>
  The content hash of a published vacancy tells what changed and not when it was seen:
  collecting the same draft at another moment gives the same hash, and so does listing the
  same skills in another order.
\<close>

theorem ContentHash_stable:
  assumes "Normalize sha d opts = Inr r" "Normalize sha (d\<lparr>d_CollectedAt := t\<rparr>) opts = Inr r'"
    and "\<not> IsZero (d_PublishedAt d)" and "mset ss = mset (v_Skills v)"
  shows "v_ContentHash (nr_Vacancy r') = v_ContentHash (nr_Vacancy r)
    \<and> ContentHash sha (v\<lparr>v_Skills := ss\<rparr>) = ContentHash sha v"
proof
  have "mset (map hash_skill ss) = mset (map hash_skill (v_Skills v))"
    using assms(4) by simp
  then show "ContentHash sha (v\<lparr>v_Skills := ss\<rparr>) = ContentHash sha v"
    by (simp add: ContentHash_def content_text_def content_fields_skills)
  show "v_ContentHash (nr_Vacancy r') = v_ContentHash (nr_Vacancy r)"
    using assms(1,2) unfolding Normalize_Inr Let_def normalizeSalary_published [OF assms(3)]
    by (simp add: build_vacancy_collected ContentHash_def content_text_def content_fields_collected)
qed

theorem ContentHash_stable_witness:
  "\<exists>r r'. Normalize id sample_draft sample_options = Inr r
     \<and> Normalize id (sample_draft\<lparr>d_CollectedAt := 9 * Day\<rparr>) sample_options = Inr r'
     \<and> v_ContentHash (nr_Vacancy r') = v_ContentHash (nr_Vacancy r)"
proof -
  obtain r where r: "Normalize id sample_draft sample_options = Inr r" using sample_Normalize by blast
  obtain r' where r': "Normalize id (sample_draft\<lparr>d_CollectedAt := 9 * Day\<rparr>) sample_options = Inr r'"
    by (simp add: Normalize_def sample_draft_def Let_def)
  have "\<not> IsZero (d_PublishedAt sample_draft)" by (simp add: sample_draft_def IsZero_def time_units)
  with r r' ContentHash_stable [OF r r'] show ?thesis by blast
qed

definition unpublished_draft :: Draft where
  "unpublished_draft = sample_draft\<lparr>d_PublishedAt := 0, d_CollectedAt := Day\<rparr>"

lemma unpublished_rates:
  "salary_rate unpublished_draft sample_options = Some (50, Day, ''configured'')"
  "salary_rate (unpublished_draft\<lparr>d_CollectedAt := 20 * Day\<rparr>) sample_options = None"
proof -
  have cur: "NormalizeCurrency ''USD'' = ''USD''" by (simp add: NormalizeCurrency_def bytes_simps)
  have day: "day_start Day = Day" "day_start (20 * Day) = 20 * Day"
    by (simp_all add: day_start_def Truncate_def time_units)
  have walk: "fx_walk sample_fx ''USD'' Day 0 8 = Some (50, Day, ''configured'')"
    "fx_walk sample_fx ''USD'' (20 * Day) 0 8 = None"
    by (simp_all add: eval_nat_numeral fx_day_def sample_fx_def add_days_def time_units)
  have o: "o_FX sample_options = Some sample_fx" "o_FXMaxFallbackDays sample_options = 7"
    "o_AllowStaticFXFallback sample_options = False"
    by (simp_all add: sample_options_def DefaultOptions_def default_policy)
  show "salary_rate unpublished_draft sample_options = Some (50, Day, ''configured'')"
    "salary_rate (unpublished_draft\<lparr>d_CollectedAt := 20 * Day\<rparr>) sample_options = None"
    by (simp_all add: salary_rate_def unpublished_draft_def sample_draft_def cur rate_date_def IsZero_def
        resolveFX_def day o walk)
qed

lemma unpublished_text:
  assumes "salary_rate d sample_options = rate" "d = unpublished_draft\<lparr>d_CollectedAt := t\<rparr>"
  shows "content_text (build_vacancy d sample_options (normalizeSalary d sample_options)) =
    ''Go||1000.0000|3000.0000|USD|false|2000.0000|'' @
      (case rate of None \<Rightarrow> ''null||'' | Some (r, u, p) \<Rightarrow> format_f4 (2000 * r) @ ''|'' @ format_date u @ ''|'' @ p)
      @ ''||||||false|null''"
proof -
  have d: "d_SalaryFrom d = Some 3000" "d_SalaryTo d = Some 1000" "d_SalaryGross d = Some False"
    "d_SalaryCurrencyRaw d = ''USD''" "d_Title d = ''Go''" "d_SourceURL d = ''''" "d_RegionExternalID d = ''''"
    "d_EmployerExternalID d = ''''" "d_SkillsRaw d = []" "d_PublishedAt d = 0" "d_DescriptionText d = ''''"
    "\<not> d_DescriptionTruncated d" "d_ScheduleID d = ''''" "d_WorkFormatIDs d = []"
    by (simp_all add: assms(2) unpublished_draft_def sample_draft_def)
  have M: "Mid (Some 3000) (Some 1000) = (Some 2000, True, False)" by (simp add: Mid_def positiveSalary_def)
  have G: "applyGrossNet (Some 2000) (Some False) x = (Some 2000, False)" for x by (simp add: applyGrossNet_def)
  have cur: "NormalizeCurrency ''USD'' = ''USD''" by (simp add: NormalizeCurrency_def bytes_simps)
  have f: "format_f4 1000 = ''1000.0000''" "format_f4 3000 = ''3000.0000''" "format_f4 2000 = ''2000.0000''"
    by (simp_all add: format_f4_def round_half_even_def pad_def bytes_simps)
  have r: "DetectRemote '''' [] = None"
    by (simp add: DetectRemote_def isRemoteSchedule_def udalennaya_e_def udalennaya_yo_def bytes_simps)
  note N = normalizeSalary_eq [of d sample_options, unfolded d M G prod.case Let_def option.case cur assms(1)]
  show ?thesis
    unfolding N
    by (cases rate) (simp_all add: content_text_def content_fields_def build_vacancy_def d f r writeFloatPtr_def writeBoolPtr_def
        empty_salary_def matchSkills_def IsZero_def case_prod_beta positiveSalary_def)
qed

text \<open>
  Without a publication time the hash does depend on the collection time: the rate day
  falls back to it. Two collections of one dollar draft on different days, with a different
  rate on each, hash different texts.
\<close>

theorem ContentHash_collected_day:
  "\<exists>d opts t r r'. Normalize id d opts = Inr r \<and> Normalize id (d\<lparr>d_CollectedAt := t\<rparr>) opts = Inr r'
     \<and> v_ContentHash (nr_Vacancy r') \<noteq> v_ContentHash (nr_Vacancy r)"
proof -
  let ?d = unpublished_draft and ?d' = "unpublished_draft\<lparr>d_CollectedAt := 20 * Day\<rparr>"
  have wd: "withDefaults sample_options = sample_options"
    by (simp add: withDefaults_def sample_options_def DefaultOptions_def default_policy)
  have f: "format_f4 100000 = ''100000.0000''"
    by (simp add: format_f4_def round_half_even_def pad_def bytes_simps)
  have same: "?d = ?d\<lparr>d_CollectedAt := Day\<rparr>" by (simp add: unpublished_draft_def)
  obtain r r' where r: "Normalize id ?d sample_options = Inr r" "Normalize id ?d' sample_options = Inr r'"
    by (simp add: Normalize_def unpublished_draft_def sample_draft_def Let_def)
  have "content_text (build_vacancy ?d sample_options (normalizeSalary ?d sample_options))
      \<noteq> content_text (build_vacancy ?d' sample_options (normalizeSalary ?d' sample_options))"
    unfolding unpublished_text [OF unpublished_rates(1) same] unpublished_text [OF unpublished_rates(2) refl]
    by (simp add: f)
  with r have "v_ContentHash (nr_Vacancy r') \<noteq> v_ContentHash (nr_Vacancy r)"
    by (simp add: Normalize_Inr Let_def wd ContentHash_def)
  with r show ?thesis by blast
qed

text \<open>
  When no field contains the bar, the hashed text determines every field that enters it.
\<close>

theorem content_text_injective:
  assumes "content_text v = content_text w"
    and "\<forall>x \<in> set (content_fields v) \<union> set (content_fields w). CHR ''|'' \<notin> set x"
  shows "content_fields v = content_fields w"
proof -
  have "Split (content_text u) CHR ''|'' = content_fields u"
    if "\<forall>x \<in> set (content_fields u). CHR ''|'' \<notin> set x" for u
    unfolding content_text_def using that by (intro Split_Join) (simp_all add: content_fields_def)
  then show ?thesis using assms by (metis UnI1 UnI2)
qed

definition plain_vacancy :: CanonicalVacancy where
  "plain_vacancy = (build_vacancy unpublished_draft sample_options empty_salary)\<lparr>v_IsRemote := None\<rparr>"

theorem content_text_injective_witness:
  "content_fields plain_vacancy = content_fields (plain_vacancy\<lparr>v_CollectedAt := 5\<rparr>)
     \<and> list_all (\<lambda>x. CHR ''|'' \<notin> set x) (content_fields plain_vacancy)"
proof -
  have "list_all (\<lambda>x. CHR ''|'' \<notin> set x) (content_fields plain_vacancy)"
    by (simp add: content_fields_def plain_vacancy_def build_vacancy_def unpublished_draft_def sample_draft_def
        empty_salary_def writeFloatPtr_def writeBoolPtr_def matchSkills_def IsZero_def)
  with content_text_injective [of plain_vacancy "plain_vacancy\<lparr>v_CollectedAt := 5\<rparr>"]
  show ?thesis by (simp add: content_text_def content_fields_collected list_all_iff)
qed

end
