(* ===== verification/HH_Roles.thy ===== *)
theory HH_Roles
  imports Go_Text
begin

text \<open>
  The role policy of the HeadHunter adapter, \<^verbatim>\<open>apps/ingest/internal/hh/role_policy.go\<close>: the
  admitted professional roles, the check of the official catalogue against them, and the roles a
  vacancy is filed under. The two policy maps are lists of entries with distinct keys; where the
  code ranges over a map, the order of the entries is an argument, and the lemmas show that the
  result does not depend on it.
\<close>

section \<open>Policy\<close>

definition RoleGroupSoftwareDevelopment :: string where "RoleGroupSoftwareDevelopment = ''software_development''"
definition RoleGroupAnalytics :: string where "RoleGroupAnalytics = ''analytics''"
definition RoleGroupQualityAssurance :: string where "RoleGroupQualityAssurance = ''quality_assurance''"
definition RoleGroupITManagement :: string where "RoleGroupITManagement = ''it_management''"
definition ScopeVacancyListing :: string where "ScopeVacancyListing = ''vacancy_listing''"
definition ScopeManagementAnalytics :: string where "ScopeManagementAnalytics = ''management_analytics''"

record AllowedRole =
  ar_ID :: string
  ar_ExpectedName :: string
  ar_Group :: string
  ar_Priority :: int
  ar_Scopes :: "string list"

definition role :: "string \<Rightarrow> string \<Rightarrow> string \<Rightarrow> int \<Rightarrow> string list \<Rightarrow> AllowedRole" where
  "role rid name g p scopes =
     \<lparr>ar_ID = rid, ar_ExpectedName = name, ar_Group = g, ar_Priority = p, ar_Scopes = scopes\<rparr>"

definition allowedRoles :: "AllowedRole list" where
  "allowedRoles =
    [role ''96'' (ru ''Programmist, razrabot4ik'') RoleGroupSoftwareDevelopment 10 [ScopeVacancyListing],
     role ''104'' (ru ''Rukovoditel8 grupp3 razrabotki'') RoleGroupSoftwareDevelopment 20
       [ScopeVacancyListing, ScopeManagementAnalytics],
     role ''148'' (ru ''Sistemn3y analitik'') RoleGroupAnalytics 30 [ScopeVacancyListing, ScopeManagementAnalytics],
     role ''150'' (ru ''Biznes-analitik'') RoleGroupAnalytics 40 [ScopeVacancyListing, ScopeManagementAnalytics],
     role ''156'' (''BI-'' @ ru ''analitik, analitik dann3h'') RoleGroupAnalytics 50
       [ScopeVacancyListing, ScopeManagementAnalytics],
     role ''164'' (ru ''Produktov3y analitik'') RoleGroupAnalytics 60 [ScopeVacancyListing, ScopeManagementAnalytics],
     role ''124'' (ru ''Testirov5ik'') RoleGroupQualityAssurance 70 [ScopeVacancyListing]]"

definition managementOnlyRoles :: "AllowedRole list" where
  "managementOnlyRoles =
    [role ''10'' (ru ''Analitik'') RoleGroupITManagement 100 [ScopeManagementAnalytics],
     role ''36'' (ru ''Direktor po informacionn3m tehnologiqm '' @ ''(CIO)'') RoleGroupITManagement 110
       [ScopeManagementAnalytics],
     role ''73'' (ru ''Menedjer produkta'') RoleGroupITManagement 120 [ScopeManagementAnalytics],
     role ''107'' (ru ''Rukovoditel8 proektov'') RoleGroupITManagement 130 [ScopeManagementAnalytics],
     role ''125'' (ru ''Tehni4eskiy direktor '' @ ''(CTO)'') RoleGroupITManagement 140 [ScopeManagementAnalytics],
     role ''157'' (ru ''Rukovoditel8 otdela analitiki'') RoleGroupITManagement 150 [ScopeManagementAnalytics]]"

text \<open>Indexing a policy map: the entry with this id.\<close>

definition role_entry :: "AllowedRole list \<Rightarrow> string \<Rightarrow> AllowedRole option" where
  "role_entry roles rid = find (\<lambda>r. ar_ID r = rid) roles"

section \<open>Operations\<close>

definition AllowedRoles :: "AllowedRole list \<Rightarrow> AllowedRole list" where
  "AllowedRoles order = sort_key ar_Priority order"

definition CollectedRoles :: "AllowedRole list \<Rightarrow> AllowedRole list \<Rightarrow> AllowedRole list" where
  "CollectedRoles order management = sort_key ar_Priority (AllowedRoles order @ management)"

definition CollectedRole :: "string \<Rightarrow> AllowedRole option" where
  "CollectedRole rid = find (\<lambda>r. ar_ID r = rid) (CollectedRoles allowedRoles managementOnlyRoles)"

record ProfessionalRole =
  pr_ID :: string
  pr_Name :: string
  pr_SearchDeprecated :: bool

datatype role_policy_error =
    RoleMissing string
  | RoleRenamed string
  | RoleDeprecated string

text \<open>\<^verbatim>\<open>byID\<close> of \<open>filterRoles\<close>: a later entry of the catalogue replaces an earlier one.\<close>

definition catalog_by_id :: "ProfessionalRole list \<Rightarrow> string \<rightharpoonup> ProfessionalRole" where
  "catalog_by_id catalog = foldl (\<lambda>m r. m(pr_ID r \<mapsto> r)) Map.empty catalog"

fun filter_loop :: "(string \<rightharpoonup> ProfessionalRole) \<Rightarrow> AllowedRole list \<Rightarrow> role_policy_error + ProfessionalRole list" where
  "filter_loop byID [] = Inr []"
| "filter_loop byID (policy # policies) =
     (case byID (ar_ID policy) of
        None \<Rightarrow> Inl (RoleMissing (ar_ID policy))
      | Some r \<Rightarrow>
          if pr_Name r \<noteq> ar_ExpectedName policy then Inl (RoleRenamed (ar_ID policy))
          else if pr_SearchDeprecated r then Inl (RoleDeprecated (ar_ID policy))
          else (case filter_loop byID policies of
              Inl e \<Rightarrow> Inl e
            | Inr rs \<Rightarrow> Inr (r # rs)))"

definition filterRoles :: "ProfessionalRole list \<Rightarrow> AllowedRole list \<Rightarrow> role_policy_error + ProfessionalRole list" where
  "filterRoles catalog policies = filter_loop (catalog_by_id catalog) policies"

definition FilterAllowedRoles :: "ProfessionalRole list \<Rightarrow> role_policy_error + ProfessionalRole list" where
  "FilterAllowedRoles catalog = filterRoles catalog (AllowedRoles allowedRoles)"

definition FilterCollectedRoles :: "ProfessionalRole list \<Rightarrow> role_policy_error + ProfessionalRole list" where
  "FilterCollectedRoles catalog = filterRoles catalog (CollectedRoles allowedRoles managementOnlyRoles)"

fun select_role :: "AllowedRole option \<Rightarrow> string list \<Rightarrow> AllowedRole option" where
  "select_role selected [] = selected"
| "select_role selected (rid # ids) =
     (case role_entry allowedRoles rid of
        None \<Rightarrow> select_role selected ids
      | Some candidate \<Rightarrow>
          (case selected of
             None \<Rightarrow> select_role (Some candidate) ids
           | Some s \<Rightarrow>
               if ar_Priority candidate < ar_Priority s then select_role (Some candidate) ids
               else select_role selected ids))"

definition AllowedProfessionalRole :: "string list \<Rightarrow> AllowedRole option" where
  "AllowedProfessionalRole ids = select_role None ids"

fun collect_loop :: "string list \<Rightarrow> string list \<Rightarrow> AllowedRole list" where
  "collect_loop seen [] = []"
| "collect_loop seen (rid # ids) =
     (case role_entry (allowedRoles @ managementOnlyRoles) rid of
        None \<Rightarrow> collect_loop seen ids
      | Some r \<Rightarrow>
          if List.member seen rid then collect_loop seen ids
          else r # collect_loop (rid # seen) ids)"

definition CollectedProfessionalRoles :: "string list \<Rightarrow> AllowedRole list" where
  "CollectedProfessionalRoles ids = sort_key ar_Priority (collect_loop [] ids)"

section \<open>Lemmas\<close>

lemma role_sel [simp]: "ar_ID (role i n g p s) = i" "ar_Priority (role i n g p s) = p"
  "ar_ExpectedName (role i n g p s) = n" "ar_Scopes (role i n g p s) = s"
  by (simp_all add: role_def)

text \<open>The tables: distinct ids and distinct priorities, also across the two of them.\<close>

lemma policy_distinct:
  "distinct (map ar_ID (allowedRoles @ managementOnlyRoles))"
  "distinct (map ar_Priority (allowedRoles @ managementOnlyRoles))"
  by (simp_all add: allowedRoles_def managementOnlyRoles_def)

lemma allowed_distinct: "distinct (map ar_Priority allowedRoles)" "distinct (map ar_ID allowedRoles)"
  using policy_distinct by simp_all

lemma policy_sorted: "sort_key ar_Priority (allowedRoles @ managementOnlyRoles) = allowedRoles @ managementOnlyRoles"
  "sort_key ar_Priority allowedRoles = allowedRoles"
  by (simp_all add: allowedRoles_def managementOnlyRoles_def)

lemma role_entry_Some: "role_entry roles rid = Some r \<Longrightarrow> r \<in> set roles \<and> ar_ID r = rid"
  by (auto simp: role_entry_def find_Some_iff)

lemma role_entry_member: "distinct (map ar_ID roles) \<Longrightarrow> r \<in> set roles \<Longrightarrow> role_entry roles (ar_ID r) = Some r"
  by (induction roles) (auto simp: role_entry_def image_iff)

lemma AllowedRoles_order:
  assumes "mset order = mset allowedRoles"
  shows "AllowedRoles order = allowedRoles"
proof -
  have "AllowedRoles order = sort_key ar_Priority allowedRoles"
    using assms by (intro sort_key_distinct_unique [OF allowed_distinct(1)]) (simp_all add: AllowedRoles_def)
  then show ?thesis by (simp add: policy_sorted)
qed

lemma CollectedRoles_order:
  assumes "mset order = mset allowedRoles" "mset management = mset managementOnlyRoles"
  shows "CollectedRoles order management = allowedRoles @ managementOnlyRoles"
proof -
  have "mset (CollectedRoles order management) = mset (allowedRoles @ managementOnlyRoles)"
    using assms by (simp add: CollectedRoles_def AllowedRoles_def)
  then have "CollectedRoles order management = sort_key ar_Priority (allowedRoles @ managementOnlyRoles)"
    by (intro sort_key_distinct_unique [OF policy_distinct(2)]) (simp_all add: CollectedRoles_def)
  then show ?thesis by (simp add: policy_sorted)
qed

lemma filter_loop_Inr:
  "filter_loop byID policies = Inr rs \<longleftrightarrow>
     list_all2 (\<lambda>policy r. byID (ar_ID policy) = Some r \<and> pr_Name r = ar_ExpectedName policy
        \<and> \<not> pr_SearchDeprecated r) policies rs"
proof (induction policies arbitrary: rs)
  case (Cons policy policies)
  show ?case
  proof (cases "filter_loop byID policies")
    case (Inl e)
    then show ?thesis using Cons [symmetric] by (auto simp: list_all2_Cons1 split: option.splits)
  next
    case (Inr qs)
    then show ?thesis using Cons [symmetric] by (auto simp: list_all2_Cons1 split: option.splits)
  qed
qed auto

lemma catalog_by_id_snoc: "catalog_by_id (xs @ [r]) = (catalog_by_id xs)(pr_ID r \<mapsto> r)"
  by (simp add: catalog_by_id_def)

lemma catalog_by_id_Some: "catalog_by_id catalog rid = Some r \<Longrightarrow> r \<in> set catalog \<and> pr_ID r = rid"
  by (induction catalog rule: rev_induct)
    (auto simp: catalog_by_id_snoc catalog_by_id_def [of "[]"] split: if_splits)

lemma FilterCollectedRoles_ids:
  assumes "FilterCollectedRoles catalog = Inr rs"
  shows "map pr_ID rs = map ar_ID (allowedRoles @ managementOnlyRoles)"
proof -
  have "list_all2 (\<lambda>policy r. ar_ID policy = pr_ID r) (allowedRoles @ managementOnlyRoles) rs"
    using assms unfolding FilterCollectedRoles_def filterRoles_def filter_loop_Inr
    by (auto simp: CollectedRoles_order elim!: list_all2_mono dest: catalog_by_id_Some)
  then have "map ar_ID (allowedRoles @ managementOnlyRoles) = map pr_ID rs"
    by (induction rule: list_all2_induct) simp_all
  then show ?thesis ..
qed

text \<open>What the selection keeps: an entry of the policy, of least priority among those seen.\<close>

lemma select_role_Some:
  assumes "select_role s ids = Some r"
  shows "(s = Some r \<or> role_entry allowedRoles (ar_ID r) = Some r \<and> ar_ID r \<in> set ids)
    \<and> (\<forall>x. s = Some x \<longrightarrow> ar_Priority r \<le> ar_Priority x)
    \<and> (\<forall>rid \<in> set ids. \<forall>x. role_entry allowedRoles rid = Some x \<longrightarrow> ar_Priority r \<le> ar_Priority x)"
  using assms
proof (induction s ids rule: select_role.induct)
  case (2 s rid ids)
  show ?case
  proof (cases "role_entry allowedRoles rid")
    case None
    with 2 show ?thesis by auto
  next
    case (Some c)
    note c = role_entry_Some [OF Some]
    show ?thesis
    proof (cases s)
      case None
      with 2 Some c show ?thesis by auto
    next
      case (Some x)
      with 2 \<open>role_entry allowedRoles rid = Some c\<close> c show ?thesis
        by (cases "ar_Priority c < ar_Priority x") fastforce+
    qed
  qed
qed simp

lemma select_role_None: "select_role s ids = None \<longleftrightarrow> s = None \<and> (\<forall>rid \<in> set ids. role_entry allowedRoles rid = None)"
  by (induction s ids rule: select_role.induct) (auto split: option.splits)

lemma collect_loop_ids:
  "ar_ID ` set (collect_loop seen ids) =
     {rid \<in> set ids. role_entry (allowedRoles @ managementOnlyRoles) rid \<noteq> None} - set seen"
proof (induction seen ids rule: collect_loop.induct)
  case (2 seen rid ids)
  show ?case
  proof (cases "role_entry (allowedRoles @ managementOnlyRoles) rid")
    case None
    with 2 show ?thesis by auto
  next
    case (Some r)
    with 2 role_entry_Some [OF Some] show ?thesis by auto
  qed
qed simp

lemma collect_loop_distinct: "distinct (map ar_ID (collect_loop seen ids))"
proof (induction seen ids rule: collect_loop.induct)
  case (2 seen rid ids)
  have "rid \<notin> ar_ID ` set (collect_loop (rid # seen) ids)" by (simp add: collect_loop_ids)
  with 2 show ?case by (auto dest: role_entry_Some split: option.splits)
qed simp

lemma collect_loop_entries: "r \<in> set (collect_loop seen ids) \<Longrightarrow> r \<in> set (allowedRoles @ managementOnlyRoles)"
  by (induction seen ids rule: collect_loop.induct) (auto dest!: role_entry_Some split: option.splits if_splits)

lemma AllowedProfessionalRole_Some:
  "AllowedProfessionalRole ids = Some r \<Longrightarrow> r \<in> set allowedRoles \<and> ar_ID r \<in> set ids
     \<and> (\<forall>x \<in> set allowedRoles. ar_ID x \<in> set ids \<longrightarrow> ar_Priority r \<le> ar_Priority x)"
  unfolding AllowedProfessionalRole_def
  using select_role_Some [of None ids r] role_entry_Some role_entry_member [OF allowed_distinct(2)] by blast

lemma AllowedProfessionalRole_None: "AllowedProfessionalRole ids = None \<longleftrightarrow> set ids \<inter> ar_ID ` set allowedRoles = {}"
proof -
  have "role_entry allowedRoles rid = None \<longleftrightarrow> rid \<notin> ar_ID ` set allowedRoles" for rid
    by (auto simp: role_entry_def find_None_iff)
  then show ?thesis by (auto simp: AllowedProfessionalRole_def select_role_None)
qed

lemma CollectedProfessionalRoles_set:
  "set (CollectedProfessionalRoles ids) = {r \<in> set (allowedRoles @ managementOnlyRoles). ar_ID r \<in> set ids}"
proof -
  let ?p = "allowedRoles @ managementOnlyRoles"
  have "set (collect_loop [] ids) = {r \<in> set ?p. ar_ID r \<in> set ids}"
  proof (intro equalityI subsetI)
    fix r assume "r \<in> set (collect_loop [] ids)"
    then have "r \<in> set ?p" "ar_ID r \<in> ar_ID ` set (collect_loop [] ids)"
      by (auto dest: collect_loop_entries)
    then show "r \<in> {r \<in> set ?p. ar_ID r \<in> set ids}" by (simp add: collect_loop_ids)
  next
    fix r assume r: "r \<in> {r \<in> set ?p. ar_ID r \<in> set ids}"
    then have "ar_ID r \<in> ar_ID ` set (collect_loop [] ids)"
      using role_entry_member [OF policy_distinct(1)] by (simp add: collect_loop_ids)
    then obtain s where s: "s \<in> set (collect_loop [] ids)" "ar_ID s = ar_ID r" by auto
    then have "s = r"
      using r collect_loop_entries role_entry_member [OF policy_distinct(1)] by (metis (mono_tags, lifting) mem_Collect_eq option.inject)
    with s show "r \<in> set (collect_loop [] ids)" by simp
  qed
  then show ?thesis by (simp add: CollectedProfessionalRoles_def)
qed

section \<open>Properties\<close>

text \<open>
  The policy lists do not depend on the iteration order of the Go maps: every order of the
  entries gives the same lists, ordered by strictly increasing priority, and looking a role up
  by id finds exactly the entry with that id.
\<close>

theorem role_lists_deterministic:
  assumes "mset order = mset allowedRoles" "mset management = mset managementOnlyRoles"
  shows "AllowedRoles order = allowedRoles
    \<and> CollectedRoles order management = allowedRoles @ managementOnlyRoles
    \<and> sorted_wrt (\<lambda>a b. ar_Priority a < ar_Priority b) (CollectedRoles order management)
    \<and> (CollectedRole rid = Some r \<longleftrightarrow> r \<in> set (order @ management) \<and> ar_ID r = rid)"
proof -
  have strict: "sorted_wrt (\<lambda>a b. ar_Priority a < ar_Priority b) (allowedRoles @ managementOnlyRoles)"
    by (simp add: allowedRoles_def managementOnlyRoles_def)
  have "CollectedRole rid = role_entry (allowedRoles @ managementOnlyRoles) rid"
    by (simp add: CollectedRole_def role_entry_def CollectedRoles_order)
  moreover have "set (order @ management) = set (allowedRoles @ managementOnlyRoles)"
    using assms by (metis mset_append set_mset_mset)
  ultimately show ?thesis
    using strict AllowedRoles_order [OF assms(1)] CollectedRoles_order [OF assms]
      role_entry_Some role_entry_member [OF policy_distinct(1)] by metis
qed

theorem role_lists_deterministic_witness:
  "AllowedRoles (rev allowedRoles) = allowedRoles \<and> mset (rev allowedRoles) = mset allowedRoles"
  using role_lists_deterministic [of "rev allowedRoles" managementOnlyRoles] by simp

text \<open>
  The catalogue check succeeds exactly when every role of the policy is in the official
  catalogue under its expected name and not deprecated for search; then it returns those
  catalogue entries, one per policy role and in the order of the policy.
\<close>

theorem FilterCollectedRoles_exact:
  "FilterCollectedRoles catalog = Inr rs \<longleftrightarrow>
     list_all2 (\<lambda>policy r. catalog_by_id catalog (ar_ID policy) = Some r \<and> pr_ID r = ar_ID policy
        \<and> pr_Name r = ar_ExpectedName policy \<and> \<not> pr_SearchDeprecated r)
       (allowedRoles @ managementOnlyRoles) rs"
  unfolding FilterCollectedRoles_def filterRoles_def filter_loop_Inr
  by (auto simp: CollectedRoles_order elim!: list_all2_mono dest: catalog_by_id_Some)

text \<open>
  A vacancy is filed under the admitted role of best priority among its official roles,
  whatever their order, and under none exactly when it has no admitted role.
\<close>

theorem AllowedProfessionalRole_best:
  "(AllowedProfessionalRole ids = Some r \<longrightarrow>
      r \<in> set allowedRoles \<and> ar_ID r \<in> set ids
      \<and> (\<forall>x \<in> set allowedRoles. ar_ID x \<in> set ids \<longrightarrow> ar_Priority r \<le> ar_Priority x))
   \<and> (AllowedProfessionalRole ids = None \<longleftrightarrow> set ids \<inter> ar_ID ` set allowedRoles = {})"
  using AllowedProfessionalRole_Some AllowedProfessionalRole_None by blast

theorem AllowedProfessionalRole_best_witness:
  "AllowedProfessionalRole [''10'', ''124'', ''96''] = Some (hd allowedRoles)
     \<and> hd allowedRoles \<in> set allowedRoles"
proof -
  have "AllowedProfessionalRole [''10'', ''124'', ''96''] = Some (hd allowedRoles)"
    by (simp add: AllowedProfessionalRole_def role_entry_def allowedRoles_def)
  with AllowedProfessionalRole_best [of "[''10'', ''124'', ''96'']" "hd allowedRoles"] show ?thesis by blast
qed

text \<open>
  The roles a vacancy is collected under: each admitted role among its official ids once,
  no other, in order of priority.
\<close>

theorem CollectedProfessionalRoles_exact:
  "sorted (map ar_Priority (CollectedProfessionalRoles ids))
   \<and> distinct (map ar_ID (CollectedProfessionalRoles ids))
   \<and> set (CollectedProfessionalRoles ids) = {r \<in> set (allowedRoles @ managementOnlyRoles). ar_ID r \<in> set ids}"
proof -
  have "distinct (map ar_ID (CollectedProfessionalRoles ids))"
    using collect_loop_distinct [of "[]" ids] unfolding CollectedProfessionalRoles_def
    by (metis distinct_map distinct_sort set_sort)
  moreover have "sorted (map ar_Priority (CollectedProfessionalRoles ids))" by (simp add: CollectedProfessionalRoles_def)
  ultimately show ?thesis using CollectedProfessionalRoles_set by blast
qed

end
