(* ===== verification/HH_Client.thy ===== *)
theory HH_Client
  imports HH_Roles Go_Format
begin

text \<open>
  The HTTP client of the HeadHunter API, \<^verbatim>\<open>apps/ingest/internal/hh/client.go\<close>: the retry loop
  with its back-off and its request ceiling, the vacancy search, the role catalogue and the
  vacancy detail.

  What lies outside the program is a record of functions on a world of type \<open>'w\<close>: sending a
  request, sleeping (which fails when the context ends), the remaining time to an HTTP date,
  whether an URL parses, and the JSON decoders. The atomic counter \<^verbatim>\<open>requests\<close> is the number that
  travels with the world.
\<close>

section \<open>Data\<close>

record SearchQuery =
  q_Text :: string
  q_Area :: string
  q_ProfessionalRole :: string
  q_DateFrom :: time
  q_DateTo :: time
  q_Page :: int
  q_PerPage :: int

record NamedRef =
  n_ID :: string
  n_Name :: string

record SalaryJSON =
  sj_From :: "float64 option"
  sj_To :: "float64 option"
  sj_Currency :: string
  sj_Gross :: "bool option"

record SearchItem =
  it_ID :: string
  it_Name :: string
  it_AlternateURL :: string
  it_PublishedAt :: string
  it_Area :: "NamedRef option"
  it_Salary :: "SalaryJSON option"
  it_ProfessionalRoles :: "NamedRef list"

record SearchPage =
  pg_Found :: int
  pg_Page :: int
  pg_Pages :: int
  pg_PerPage :: int
  pg_Items :: "SearchItem list"

record Category =
  cat_ID :: string
  cat_Name :: string
  cat_Roles :: "ProfessionalRole list"

record HttpRequest =
  rq_URL :: string
  rq_Headers :: "(string \<times> string) list"

datatype http_outcome =
    TransportError
  | BodyReadError
  | Response int string string \<comment> \<open>status, \<^verbatim>\<open>Retry-After\<close>, body\<close>

datatype hh_error =
    EmptyUserAgent
  | NegativePage
  | BadURL
  | RequestCeiling int
  | SleepInterrupted
  | TransportFailed
  | BodyReadFailed
  | ApiStatus int
  | ApiForbidden
  | ErrNotFound
  | ExhaustedRetries
  | ParseSearchFailed
  | ParseRolesFailed
  | CategoryNotFound string
  | EmptyVacancyID

record 'w HttpEnv =
  e_do :: "'w \<Rightarrow> HttpRequest \<Rightarrow> 'w \<times> http_outcome"
  e_sleep :: "'w \<Rightarrow> duration \<Rightarrow> 'w \<times> bool"
  e_until :: "'w \<Rightarrow> string \<Rightarrow> duration option"
  e_url_ok :: "string \<Rightarrow> bool"
  e_page_json :: "string \<Rightarrow> SearchPage option"
  e_catalog_json :: "string \<Rightarrow> Category list option"

record Client =
  c_baseURL :: string
  c_userAgent :: string
  c_appToken :: string
  c_maxRetries :: int
  c_pageDelay :: duration
  c_maxRequests :: int

record ClientOptions =
  co_BaseURL :: string
  co_UserAgent :: string
  co_AppToken :: string
  co_MaxRetries :: int
  co_PageDelay :: duration
  co_MaxRequests :: int

definition MaxSearchResults :: int where "MaxSearchResults = 2000"
definition MaxPerPage :: int where "MaxPerPage = 100"

section \<open>Construction\<close>

definition trim_right_slash :: "string \<Rightarrow> string" where
  "trim_right_slash s = rev (dropWhile (\<lambda>c. c = CHR ''/'') (rev s))"

definition NewClient :: "ClientOptions \<Rightarrow> hh_error + Client" where
  "NewClient opts =
     (let ua = TrimSpace (co_UserAgent opts) in
      if ua = '''' then Inl EmptyUserAgent
      else let base = trim_right_slash (TrimSpace (co_BaseURL opts));
               base = (if base = '''' then ''https://api.hh.ru'' else base);
               retries = (if co_MaxRetries opts \<le> 0 then 5 else co_MaxRetries opts)
           in Inr \<lparr>c_baseURL = base, c_userAgent = ua, c_appToken = TrimSpace (co_AppToken opts),
                   c_maxRetries = retries, c_pageDelay = co_PageDelay opts, c_maxRequests = co_MaxRequests opts\<rparr>)"

section \<open>The retry loop\<close>

text \<open>The shift is of a 64-bit duration: bits pushed out are lost.\<close>

definition backoffDelay :: "int \<Rightarrow> duration \<Rightarrow> duration" where
  "backoffDelay attempt retryAfter =
     (if retryAfter > 0 then retryAfter
      else let d = wrap64 (200 * Millisecond * 2 ^ nat (attempt - 1))
           in if d > 8 * Second then 8 * Second else d)"

definition parseRetryAfter :: "'w HttpEnv \<Rightarrow> 'w \<Rightarrow> string \<Rightarrow> duration" where
  "parseRetryAfter env w v0 =
     (let v = TrimSpace v0;
          date = (case e_until env w v of None \<Rightarrow> 0 | Some d \<Rightarrow> if d > 0 then d else 0)
      in if v = '''' then 0
         else (case Atoi v of
             Some sec \<Rightarrow> if sec > 0 then wrap64 (sec * Second) else date
           | None \<Rightarrow> date))"

definition request_of :: "Client \<Rightarrow> string \<Rightarrow> HttpRequest" where
  "request_of c rawURL = \<lparr>rq_URL = rawURL, rq_Headers =
     [(''User-Agent'', c_userAgent c), (''Accept'', ''application/json'')]
       @ (if c_appToken c \<noteq> '''' then [(''Authorization'', ''Bearer '' @ c_appToken c)] else [])\<rparr>"

text \<open>\<open>n\<close> attempts remain, \<open>attempt\<close> is the loop variable and \<open>lastErr\<close> the last failure.\<close>

fun get_loop :: "'w HttpEnv \<Rightarrow> Client \<Rightarrow> string \<Rightarrow> nat \<Rightarrow> int \<Rightarrow> hh_error option \<Rightarrow> 'w \<times> int
    \<Rightarrow> ('w \<times> int) \<times> (hh_error + string)" where
  "get_loop env c rawURL 0 attempt lastErr st =
     (st, Inl (case lastErr of None \<Rightarrow> ExhaustedRetries | Some e \<Rightarrow> e))"
| "get_loop env c rawURL (Suc n) attempt lastErr (w, requests) =
     (let requests = (if c_maxRequests c > 0 then requests + 1 else requests) in
      if c_maxRequests c > 0 \<and> requests > c_maxRequests c
      then ((w, requests), Inl (RequestCeiling (c_maxRequests c)))
      else (case (if attempt > 0 then e_sleep env w (backoffDelay attempt 0) else (w, True)) of
          (w, False) \<Rightarrow> ((w, requests), Inl SleepInterrupted)
        | (w, True) \<Rightarrow>
            if \<not> e_url_ok env rawURL then ((w, requests), Inl BadURL)
            else (case e_do env w (request_of c rawURL) of
                (w, TransportError) \<Rightarrow>
                  get_loop env c rawURL n (attempt + 1) (Some TransportFailed) (w, requests)
              | (w, BodyReadError) \<Rightarrow>
                  get_loop env c rawURL n (attempt + 1) (Some BodyReadFailed) (w, requests)
              | (w, Response status retryHeader body) \<Rightarrow>
                  if status = 200 then ((w, requests), Inr body)
                  else if status = 429 \<or> status \<ge> 500 then
                    (let retryAfter = parseRetryAfter env w retryHeader in
                     case (if retryAfter > 0 then e_sleep env w retryAfter else (w, True)) of
                       (w, False) \<Rightarrow> ((w, requests), Inl SleepInterrupted)
                     | (w, True) \<Rightarrow>
                         get_loop env c rawURL n (attempt + 1) (Some (ApiStatus status)) (w, requests))
                  else if status = 403 then ((w, requests), Inl ApiForbidden)
                  else if status = 404 then ((w, requests), Inl ErrNotFound)
                  else ((w, requests), Inl (ApiStatus status)))))"

definition get :: "'w HttpEnv \<Rightarrow> Client \<Rightarrow> string \<Rightarrow> 'w \<times> int \<Rightarrow> ('w \<times> int) \<times> (hh_error + string)" where
  "get env c rawURL st = get_loop env c rawURL (nat (c_maxRetries c + 1)) 0 None st"

section \<open>Operations\<close>

definition clamp_per_page :: "int \<Rightarrow> int" where
  "clamp_per_page p = (let p = (if p \<le> 0 then MaxPerPage else p) in if p > MaxPerPage then MaxPerPage else p)"

definition search_values :: "SearchQuery \<Rightarrow> (string \<times> string) list" where
  "search_values q =
     (if q_Text q \<noteq> '''' then [(''text'', q_Text q)] else [])
     @ (if q_Area q \<noteq> '''' then [(''area'', q_Area q)] else [])
     @ (if q_ProfessionalRole q \<noteq> '''' then [(''professional_role'', q_ProfessionalRole q)] else [])
     @ (if \<not> IsZero (q_DateFrom q) then [(''date_from'', format_rfc3339 (q_DateFrom q))] else [])
     @ (if \<not> IsZero (q_DateTo q) then [(''date_to'', format_rfc3339 (q_DateTo q))] else [])
     @ [(''page'', Itoa (q_Page q)), (''per_page'', Itoa (clamp_per_page (q_PerPage q)))]"

text \<open>The pause before a request.\<close>

definition page_delay :: "'w HttpEnv \<Rightarrow> Client \<Rightarrow> 'w \<Rightarrow> 'w \<times> bool" where
  "page_delay env c w = (if c_pageDelay c > 0 then e_sleep env w (c_pageDelay c) else (w, True))"

definition SearchVacancies :: "'w HttpEnv \<Rightarrow> Client \<Rightarrow> SearchQuery \<Rightarrow> 'w \<times> int
    \<Rightarrow> ('w \<times> int) \<times> (hh_error + SearchPage)" where
  "SearchVacancies env c q st =
     (case page_delay env c (fst st) of
        (w, False) \<Rightarrow> ((w, snd st), Inl SleepInterrupted)
      | (w, True) \<Rightarrow>
          if q_Page q < 0 then ((w, snd st), Inl NegativePage)
          else if \<not> e_url_ok env (c_baseURL c @ ''/vacancies'') then ((w, snd st), Inl BadURL)
          else (case get env c (c_baseURL c @ ''/vacancies?'' @ encode_values (search_values q)) (w, snd st) of
              (st, Inl e) \<Rightarrow> (st, Inl e)
            | (st, Inr raw) \<Rightarrow>
                (st, case e_page_json env raw of None \<Rightarrow> Inl ParseSearchFailed | Some page \<Rightarrow> Inr page)))"

fun find_category :: "string \<Rightarrow> Category list \<Rightarrow> hh_error + ProfessionalRole list" where
  "find_category categoryID [] = Inl (CategoryNotFound categoryID)"
| "find_category categoryID (category # categories) =
     (if cat_ID category \<noteq> categoryID then find_category categoryID categories
      else Inr (filter (\<lambda>r. pr_ID r \<noteq> '''' \<and> \<not> pr_SearchDeprecated r) (cat_Roles category)))"

definition ProfessionalRoles :: "'w HttpEnv \<Rightarrow> Client \<Rightarrow> string \<Rightarrow> 'w \<times> int
    \<Rightarrow> ('w \<times> int) \<times> (hh_error + ProfessionalRole list)" where
  "ProfessionalRoles env c categoryID st =
     (case get env c (c_baseURL c @ ''/professional_roles'') st of
        (st, Inl e) \<Rightarrow> (st, Inl e)
      | (st, Inr raw) \<Rightarrow>
          (st, case e_catalog_json env raw of
             None \<Rightarrow> Inl ParseRolesFailed | Some categories \<Rightarrow> find_category categoryID categories))"

definition GetVacancyRaw :: "'w HttpEnv \<Rightarrow> Client \<Rightarrow> string \<Rightarrow> 'w \<times> int
    \<Rightarrow> ('w \<times> int) \<times> (hh_error + string)" where
  "GetVacancyRaw env c vid st =
     (if vid = '''' then (st, Inl EmptyVacancyID)
      else (case page_delay env c (fst st) of
          (w, False) \<Rightarrow> ((w, snd st), Inl SleepInterrupted)
        | (w, True) \<Rightarrow> get env c (c_baseURL c @ ''/vacancies/'' @ path_escape vid) (w, snd st)))"

section \<open>Observing a client\<close>

text \<open>
  What a client does to the outside: the same environment, keeping a log of the requests sent
  and of the sleeps asked for.
\<close>

datatype http_event = Sent HttpRequest http_outcome | Slept duration

definition traced :: "'w HttpEnv \<Rightarrow> ('w \<times> http_event list) HttpEnv" where
  "traced env = \<lparr>
     e_do = (\<lambda>(w, tr) r. case e_do env w r of (w', out) \<Rightarrow> ((w', tr @ [Sent r out]), out)),
     e_sleep = (\<lambda>(w, tr) d. case e_sleep env w d of (w', ok) \<Rightarrow> ((w', tr @ [Slept d]), ok)),
     e_until = (\<lambda>(w, tr). e_until env w), e_url_ok = e_url_ok env,
     e_page_json = e_page_json env, e_catalog_json = e_catalog_json env\<rparr>"

definition sent :: "http_event list \<Rightarrow> nat" where
  "sent tr = length (filter (\<lambda>e. case e of Sent _ _ \<Rightarrow> True | Slept _ \<Rightarrow> False) tr)"

text \<open>The operations of a client, as a sequence.\<close>

datatype client_op = SearchOp SearchQuery | RolesOp string | DetailOp string

fun run_op :: "'w HttpEnv \<Rightarrow> Client \<Rightarrow> 'w \<times> int \<Rightarrow> client_op \<Rightarrow> 'w \<times> int" where
  "run_op env c st (SearchOp q) = fst (SearchVacancies env c q st)"
| "run_op env c st (RolesOp cid) = fst (ProfessionalRoles env c cid st)"
| "run_op env c st (DetailOp vid) = fst (GetVacancyRaw env c vid st)"

section \<open>Lemmas\<close>

lemma sent_snoc [simp]: "sent (tr @ [Sent r out]) = Suc (sent tr)" "sent (tr @ [Slept d]) = sent tr"
  "sent [] = 0"
  by (simp_all add: sent_def)

lemma traced_sel [simp]:
  "e_do (traced env) (w, tr) r = (case e_do env w r of (w', out) \<Rightarrow> ((w', tr @ [Sent r out]), out))"
  "e_sleep (traced env) (w, tr) d = (case e_sleep env w d of (w', ok) \<Rightarrow> ((w', tr @ [Slept d]), ok))"
  "e_url_ok (traced env) = e_url_ok env"
  by (simp_all add: traced_def)

text \<open>What one call keeps: with a ceiling, the requests sent are counted and stay below it.\<close>

definition under_ceiling :: "Client \<Rightarrow> http_event list \<Rightarrow> int \<Rightarrow> bool" where
  "under_ceiling c tr k \<longleftrightarrow> (0 < c_maxRequests c \<longrightarrow> int (sent tr) \<le> k \<and> int (sent tr) \<le> c_maxRequests c)"

lemma sleep_sent:
  assumes "(if b then e_sleep (traced env) (w, tr) d else ((w, tr), True)) = ((w', tr'), ok)"
  shows "sent tr' = sent tr"
  using assms by (auto split: if_splits prod.splits)

lemma sent_Slept: "under_ceiling c (tr @ [Slept d]) k = under_ceiling c tr k"
  by (simp add: under_ceiling_def)

lemma under_ceiling_step:
  "under_ceiling c tr k \<Longrightarrow> \<not> (0 < c_maxRequests c \<and> k + 1 > c_maxRequests c) \<Longrightarrow> sent tr' = Suc (sent tr) \<Longrightarrow>
    under_ceiling c tr' (if 0 < c_maxRequests c then k + 1 else k)"
  by (auto simp: under_ceiling_def)

lemma under_ceiling_mono: "under_ceiling c tr k \<Longrightarrow> sent tr' = sent tr \<Longrightarrow> k \<le> k' \<Longrightarrow> under_ceiling c tr' k'"
  by (auto simp: under_ceiling_def)

text \<open>What a call may do to the log and the counter, given the attempts it has left.\<close>

definition call_ok :: "Client \<Rightarrow> string \<Rightarrow> nat \<Rightarrow> http_event list \<Rightarrow> int \<Rightarrow> http_event list \<Rightarrow> int
    \<Rightarrow> (hh_error + string) \<Rightarrow> bool" where
  "call_ok c u n tr k tr' k' r \<longleftrightarrow> sent tr' \<le> sent tr + n \<and> k \<le> k'
     \<and> (under_ceiling c tr k \<longrightarrow> under_ceiling c tr' k')
     \<and> (\<forall>body. r = Inr body \<longrightarrow> tr' \<noteq> [] \<and> (\<exists>h. last tr' = Sent (request_of c u) (Response 200 h body)))"

lemma call_ok_fail: "sent tr' = sent tr \<Longrightarrow> k \<le> k' \<Longrightarrow> call_ok c u n tr k tr' k' (Inl e)"
  by (auto simp: call_ok_def intro: under_ceiling_mono)

lemma call_ok_more:
  assumes "call_ok c u n tr1 k1 tr' k' r" "sent tr1 = Suc (sent tr)"
    "k1 = (if 0 < c_maxRequests c then k + 1 else k)" "\<not> (0 < c_maxRequests c \<and> k1 > c_maxRequests c)"
  shows "call_ok c u (Suc n) tr k tr' k' r"
  using assms under_ceiling_step [of c tr k tr1] unfolding call_ok_def by (auto split: if_splits)

lemma call_ok_done:
  assumes "k1 = (if 0 < c_maxRequests c then k + 1 else k)" "\<not> (0 < c_maxRequests c \<and> k1 > c_maxRequests c)"
    "sent tr1 = sent tr" "tr' = tr1 @ [Sent (request_of c u) out]"
    "\<forall>body. r = Inr body \<longrightarrow> (\<exists>h. out = Response 200 h body)"
  shows "call_ok c u (Suc n) tr k tr' k1 r"
  using assms under_ceiling_step [of c tr k tr'] unfolding call_ok_def by (auto split: if_splits)

lemma get_loop_call_ok:
  "get_loop (traced env) c u n a le ((w, tr), k) = (((w', tr'), k'), r) \<Longrightarrow> call_ok c u n tr k tr' k' r"
proof (induction n arbitrary: a le w tr k)
  case 0
  then show ?case by (auto simp: call_ok_def)
next
  case (Suc n)
  define k1 where "k1 = (if 0 < c_maxRequests c then k + 1 else k)"
  have k1: "k \<le> k1" by (simp add: k1_def)
  note run = Suc.prems [unfolded get_loop.simps Let_def, folded k1_def]
  show ?case
  proof (cases "0 < c_maxRequests c \<and> k1 > c_maxRequests c")
    case True
    with run k1 show ?thesis by (auto intro: call_ok_fail)
  next
    case low: False
    obtain w1 tr1 ok where sl: "(if a > 0 then e_sleep (traced env) (w, tr) (backoffDelay a 0) else ((w, tr), True))
        = ((w1, tr1), ok)" by (metis surj_pair)
    have tr1: "sent tr1 = sent tr" using sleep_sent [OF sl] .
    show ?thesis
    proof (cases "ok \<and> e_url_ok env u")
      case False
      with run low sl tr1 k1 show ?thesis by (cases ok) (auto intro: call_ok_fail)
    next
      case okay: True
      obtain w2 out where out: "e_do env w1 (request_of c u) = (w2, out)" by fastforce
      define tr2 where "tr2 = tr1 @ [Sent (request_of c u) out]"
      have tr2: "sent tr2 = Suc (sent tr)" by (simp add: tr2_def tr1)
      note fin = call_ok_done [OF k1_def low tr1 tr2_def]
      have more: "call_ok c u (Suc n) tr k tr' k' r"
        if "get_loop (traced env) c u n a' le' ((w3, tr3), k1) = (((w', tr'), k'), r)" "sent tr3 = Suc (sent tr)"
        for a' le' w3 tr3
        by (rule call_ok_more [OF Suc.IH [OF that(1)] that(2) k1_def low])
      have sent_now: "e_do (traced env) (w1, tr1) (request_of c u) = ((w2, tr2), out)" by (simp add: out tr2_def)
      have "ok = True" "e_url_ok (traced env) u = True" using okay by simp_all
      note run' = run [unfolded if_not_P [OF low] sl this sent_now prod.case bool.case not_True_eq_False if_False]
      show ?thesis
      proof (cases out)
        case (Response status h body)
        show ?thesis
        proof (cases "status \<noteq> 200 \<and> (status = 429 \<or> status \<ge> 500)")
          case retry: True
          let ?ra = "parseRetryAfter (traced env) (w2, tr2) h"
          obtain w3 tr3 ok3 where sl3: "(if ?ra > 0 then e_sleep (traced env) (w2, tr2) ?ra else ((w2, tr2), True))
              = ((w3, tr3), ok3)" by (metis surj_pair)
          have tr3: "sent tr3 = Suc (sent tr)" using sleep_sent [OF sl3] tr2 by simp
          show ?thesis
          proof (cases ok3)
            case True
            with run' Response retry sl3 have "get_loop (traced env) c u n (a + 1) (Some (ApiStatus status)) ((w3, tr3), k1)
                = (((w', tr'), k'), r)" by (simp del: traced_sel)
            then show ?thesis using tr3 by (rule more)
          next
            case False
            with run' Response retry sl3 have "tr' = tr3" "k' = k1" "r = Inl SleepInterrupted"
              by (simp_all del: traced_sel)
            with tr3 show ?thesis using k1 low under_ceiling_step [of c tr k tr3] unfolding call_ok_def k1_def by auto
          qed
        next
          case False
          with run' Response have "tr' = tr2" "k' = k1" "\<forall>b. r = Inr b \<longrightarrow> (\<exists>h. out = Response 200 h b)"
            by (auto split: if_splits)
          then show ?thesis using fin by simp
        qed
      qed (use run' tr2 more in simp_all)
    qed
  qed
qed

lemma get_call_ok:
  "get (traced env) c u ((w, tr), k) = (((w', tr'), k'), r) \<Longrightarrow> call_ok c u (nat (c_maxRetries c + 1)) tr k tr' k' r"
  unfolding get_def by (rule get_loop_call_ok)

lemma page_delay_sent: "page_delay (traced env) c (w, tr) = ((w', tr'), ok) \<Longrightarrow> sent tr' = sent tr"
  by (auto simp: page_delay_def split: if_splits prod.splits)

lemma under_ceiling_get:
  assumes "get (traced env) c u ((w, tr), k) = (((w', tr'), k'), r)" "under_ceiling c tr k"
  shows "under_ceiling c tr' k'"
  using get_call_ok [OF assms(1)] assms(2) by (simp add: call_ok_def)

lemma under_ceiling_get_state:
  assumes "fst (get (traced env) c u ((w, tr), k)) = ((w', tr'), k')" "under_ceiling c tr k"
  shows "under_ceiling c tr' k'"
  using under_ceiling_get [of env c u w tr k w' tr' k'] assms by (metis prod.collapse)

lemma under_ceiling_run_op:
  assumes "run_op (traced env) c ((w, tr), k) op = ((w', tr'), k')" "under_ceiling c tr k"
  shows "under_ceiling c tr' k'"
proof -
  obtain w1 tr1 ok where pd: "page_delay (traced env) c (w, tr) = ((w1, tr1), ok)" by (metis surj_pair)
  have tr1: "under_ceiling c tr1 k" using page_delay_sent [OF pd] assms(2) under_ceiling_mono by blast
  show ?thesis
  proof (cases op)
    case (SearchOp q)
    then show ?thesis
      using assms tr1 pd
      by (auto simp: SearchVacancies_def intro: under_ceiling_get [OF _ tr1]
          split: if_splits prod.splits sum.splits bool.splits)
  next
    case (RolesOp cid)
    then show ?thesis
      using assms by (auto simp: ProfessionalRoles_def intro: under_ceiling_get [OF _ assms(2)]
          split: prod.splits sum.splits)
  next
    case (DetailOp vid)
    then show ?thesis
      using assms tr1 pd
      by (auto simp: GetVacancyRaw_def intro: under_ceiling_get_state [OF _ tr1]
          split: if_splits prod.splits bool.splits)
  qed
qed

lemma under_ceiling_run:
  "foldl (run_op (traced env) c) ((w, tr), k) ops = ((w', tr'), k') \<Longrightarrow> under_ceiling c tr k \<Longrightarrow> under_ceiling c tr' k'"
proof (induction ops arbitrary: w tr k)
  case (Cons op ops)
  obtain w1 tr1 k1 where "run_op (traced env) c ((w, tr), k) op = ((w1, tr1), k1)" by (metis surj_pair)
  with Cons under_ceiling_run_op [OF this] show ?case by simp
qed simp

text \<open>The back-off up to the attempt at which the shifted duration leaves 64 bits.\<close>

lemma backoff_shift:
  assumes "1 \<le> attempt" "attempt \<le> 36"
  shows "wrap64 (200 * Millisecond * 2 ^ nat (attempt - 1)) = 200 * Millisecond * 2 ^ nat (attempt - 1)"
proof (rule wrap64_id)
  have "(2::int) ^ nat (attempt - 1) \<le> 2 ^ 35" using assms by (intro power_increasing) auto
  moreover define x where "x = (2::int) ^ nat (attempt - 1)"
  moreover have "0 < x" by (simp add: x_def)
  ultimately have "0 < x" "x \<le> 34359738368" by simp_all
  then have "int64_range (200000000 * x)" unfolding int64_range_def min_int_def max_int_def by linarith
  then show "int64_range (200 * Millisecond * 2 ^ nat (attempt - 1))"
    by (simp add: x_def time_units)
qed

section \<open>Properties\<close>

text \<open>
  The request ceiling of a client holds over any sequence of operations and whatever the
  network answers: a client with a ceiling never sends more requests than it.
\<close>

theorem request_ceiling:
  assumes "0 < c_maxRequests c"
    and "foldl (run_op (traced env) c) ((w, []), 0) ops = ((w', tr'), k')"
  shows "int (sent tr') \<le> c_maxRequests c"
  using under_ceiling_run [OF assms(2)] assms(1) by (simp add: under_ceiling_def)

definition busy_env :: "unit HttpEnv" where
  "busy_env = \<lparr>e_do = (\<lambda>w r. (w, Response 503 '''' '''')), e_sleep = (\<lambda>w d. (w, True)), e_until = (\<lambda>w s. None),
     e_url_ok = (\<lambda>s. True), e_page_json = (\<lambda>s. None), e_catalog_json = (\<lambda>s. None)\<rparr>"

definition small_client :: Client where
  "small_client = \<lparr>c_baseURL = '''', c_userAgent = ''t'', c_appToken = '''', c_maxRetries = 5, c_pageDelay = 0, c_maxRequests = 3\<rparr>"

theorem request_ceiling_witness:
  "\<exists>tr k. foldl (run_op (traced busy_env) small_client) (((), []), 0) [RolesOp ''11''] = (((), tr), k)
     \<and> int (sent tr) \<le> 3"
proof -
  obtain tr k where "foldl (run_op (traced busy_env) small_client) (((), []), 0) [RolesOp ''11''] = (((), tr), k)"
    by (metis old.unit.exhaust surj_pair)
  with request_ceiling [of small_client busy_env "()" "[RolesOp ''11'']" "()" tr k] show ?thesis
    by (auto simp: small_client_def)
qed

text \<open>
  One call of the retry loop ends after at most one attempt more than the retries allowed,
  and it returns a body only if the last thing that happened was a response with status 200 and
  that body to the request for this URL.
\<close>

theorem get_bounded_and_honest:
  assumes "get (traced env) c u ((w, tr), k) = (((w', tr'), k'), r)" "0 \<le> c_maxRetries c"
  shows "int (sent tr') \<le> int (sent tr) + c_maxRetries c + 1
    \<and> (\<forall>body. r = Inr body \<longrightarrow> tr' \<noteq> [] \<and> (\<exists>h. last tr' = Sent (request_of c u) (Response 200 h body)))"
  using get_call_ok [OF assms(1)] assms(2) unfolding call_ok_def by (auto simp: nat_add_distrib)

theorem get_bounded_and_honest_witness:
  "\<exists>tr k r. get (traced busy_env) small_client ''u'' (((), []), 0) = ((((), tr), k), r) \<and> int (sent tr) \<le> 6"
proof -
  obtain tr k r where "get (traced busy_env) small_client ''u'' (((), []), 0) = ((((), tr), k), r)"
    by (metis old.unit.exhaust surj_pair)
  with get_bounded_and_honest [of busy_env small_client "''u''" "()" "[]" 0 "()" tr k r] show ?thesis
    by (auto simp: small_client_def)
qed

text \<open>
  The pause before retry number n is 200 ms doubled with every retry up to eight seconds,
  never zero or negative, as long as the client is configured with at most 36 retries.
\<close>

theorem backoffDelay_exact:
  assumes "1 \<le> attempt" "attempt \<le> 36"
  shows "backoffDelay attempt 0 = min (8 * Second) (200 * Millisecond * 2 ^ nat (attempt - 1))
    \<and> 0 < backoffDelay attempt 0 \<and> backoffDelay attempt 0 \<le> 8 * Second"
proof -
  have "backoffDelay attempt 0 = min (8 * Second) (200 * Millisecond * 2 ^ nat (attempt - 1))"
    using backoff_shift [OF assms] by (simp add: backoffDelay_def Let_def min_def)
  moreover have "0 < (2::int) ^ nat (attempt - 1)" by simp
  ultimately show ?thesis by (simp add: time_units)
qed

theorem backoffDelay_exact_witness: "backoffDelay 3 0 = 800 * Millisecond"
  using backoffDelay_exact [of 3] by (simp add: time_units)

text \<open>
  One retry further the shifted duration has left the 64 bits: the delay of attempt 37 is
  negative, which a timer takes as no pause at all.
\<close>

theorem backoffDelay_overflow: "backoffDelay 37 0 < 0"
  by (simp add: backoffDelay_def wrap64_def time_units)

end
