(* ===== verification/Planner.thy ===== *)
theory Planner
  imports HH_Client "HOL-Library.Product_Lexorder"
begin

text \<open>
  The search planner, \<^verbatim>\<open>apps/ingest/internal/pipeline/it_planner.go\<close>: every admitted role is
  split by publication time until each search leaf is below the depth the API serves. The
  source of roles and pages is a record of functions on a world of type \<open>'w\<close>.
\<close>

definition ITCategoryID :: string where "ITCategoryID = ''11''"

record 'w RoleCatalogSource =
  rc_ProfessionalRoles :: "'w \<Rightarrow> string \<Rightarrow> 'w \<times> (hh_error + ProfessionalRole list)"
  rc_SearchVacancies :: "'w \<Rightarrow> SearchQuery \<Rightarrow> 'w \<times> (hh_error + SearchPage)"

record SearchPartition =
  p_RoleID :: string
  p_Area :: string
  p_From :: time
  p_To :: time
  p_Found :: int
  p_Depth :: int

record ITPlan =
  pl_Roles :: "ProfessionalRole list"
  pl_Partitions :: "SearchPartition list"
  pl_EstimatedResults :: int
  pl_ProbeRequests :: int

record ITPlanOptions =
  po_Area :: string
  po_CategoryID :: string
  po_Earliest :: time
  po_Now :: time
  po_MaxDepth :: int
  po_MaxPartitions :: int
  po_MaxRequests :: int

datatype plan_error =
    SourceRequired
  | EarliestNotBeforeNow
  | SourceFailed hh_error
  | PolicyFailed role_policy_error
  | ProbeCeiling int
  | PartitionCeiling int
  | CapAtMaxDepth string int
  | CapUnsplittable string
  | CapInOneSecond string

text \<open>The probe of a partition and the split of one that holds too many vacancies.\<close>

definition probe_query :: "SearchPartition \<Rightarrow> SearchQuery" where
  "probe_query part = \<lparr>q_Text = '''', q_Area = p_Area part, q_ProfessionalRole = p_RoleID part,
     q_DateFrom = p_From part, q_DateTo = p_To part, q_Page = 0, q_PerPage = 1\<rparr>"

definition split_partition :: "ITPlanOptions \<Rightarrow> SearchPartition \<Rightarrow> plan_error + SearchPartition \<times> SearchPartition" where
  "split_partition opts part =
     (if p_Depth part \<ge> po_MaxDepth opts then Inl (CapAtMaxDepth (p_RoleID part) (po_MaxDepth opts))
      else let from = (if IsZero (p_From part) then po_Earliest opts else p_From part);
               to = (if IsZero (p_From part) then po_Now opts else p_To part)
           in if \<not> from < to then Inl (CapUnsplittable (p_RoleID part))
              else let mid = Truncate (from + quot (Sub to from) 2) Second;
                       rightFrom = mid + Second
                   in if rightFrom > to then Inl (CapInOneSecond (p_RoleID part))
                      else Inr (\<lparr>p_RoleID = p_RoleID part, p_Area = p_Area part, p_From = from, p_To = mid,
                                 p_Found = 0, p_Depth = p_Depth part + 1\<rparr>,
                                \<lparr>p_RoleID = p_RoleID part, p_Area = p_Area part, p_From = rightFrom, p_To = to,
                                 p_Found = 0, p_Depth = p_Depth part + 1\<rparr>))"

lemma split_partition_depth:
  "split_partition opts part = Inr (left, right) \<Longrightarrow>
     p_Depth part < po_MaxDepth opts \<and> p_Depth left = p_Depth part + 1 \<and> p_Depth right = p_Depth part + 1"
  by (auto simp: split_partition_def Let_def split: if_splits)

function (sequential) planPartition :: "'w RoleCatalogSource \<Rightarrow> ITPlanOptions \<Rightarrow> SearchPartition \<Rightarrow> 'w \<Rightarrow> ITPlan
    \<Rightarrow> 'w \<times> (plan_error + ITPlan)" where
  "planPartition src opts part w plan =
     (if pl_ProbeRequests plan \<ge> po_MaxRequests opts then (w, Inl (ProbeCeiling (po_MaxRequests opts)))
      else (case rc_SearchVacancies src w (probe_query part) of
          (w, Inl e) \<Rightarrow> (w, Inl (SourceFailed e))
        | (w, Inr page) \<Rightarrow>
            (let plan = plan\<lparr>pl_ProbeRequests := pl_ProbeRequests plan + 1\<rparr>;
                 part = part\<lparr>p_Found := pg_Found page\<rparr>
             in if pg_Found page \<le> MaxSearchResults then
                  (if int (length (pl_Partitions plan)) \<ge> po_MaxPartitions opts
                   then (w, Inl (PartitionCeiling (po_MaxPartitions opts)))
                   else (w, Inr (plan\<lparr>pl_Partitions := pl_Partitions plan @ [part],
                                      pl_EstimatedResults := pl_EstimatedResults plan + pg_Found page\<rparr>)))
                else (case split_partition opts part of
                    Inl e \<Rightarrow> (w, Inl e)
                  | Inr (left, right) \<Rightarrow>
                      (case planPartition src opts left w plan of
                         (w, Inl e) \<Rightarrow> (w, Inl e)
                       | (w, Inr plan) \<Rightarrow> planPartition src opts right w plan)))))"
  by pat_completeness auto

termination
  by (relation "measure (\<lambda>(src, opts, part, w, plan). nat (po_MaxDepth opts - p_Depth part))")
    (auto dest!: split_partition_depth)

declare planPartition.simps [simp del]

text \<open>The defaults of the options; \<open>now\<close> is the clock.\<close>

definition plan_defaults :: "time \<Rightarrow> ITPlanOptions \<Rightarrow> ITPlanOptions" where
  "plan_defaults now opts =
     (let opts = opts\<lparr>po_Area := if po_Area opts = '''' then ''113'' else po_Area opts,
                      po_CategoryID := if po_CategoryID opts = '''' then ITCategoryID else po_CategoryID opts,
                      po_Earliest := if IsZero (po_Earliest opts) then 730119 * Day else po_Earliest opts,
                      po_Now := if IsZero (po_Now opts) then now else po_Now opts\<rparr>
      in opts\<lparr>po_Earliest := Truncate (po_Earliest opts) Second, po_Now := Truncate (po_Now opts) Second,
              po_MaxDepth := if po_MaxDepth opts \<le> 0 then 32 else po_MaxDepth opts,
              po_MaxPartitions := if po_MaxPartitions opts \<le> 0 then 512 else po_MaxPartitions opts,
              po_MaxRequests := if po_MaxRequests opts \<le> 0 then 1024 else po_MaxRequests opts\<rparr>)"

definition root_partition :: "ITPlanOptions \<Rightarrow> ProfessionalRole \<Rightarrow> SearchPartition" where
  "root_partition opts r = \<lparr>p_RoleID = pr_ID r, p_Area = po_Area opts, p_From = 0, p_To = 0, p_Found = 0, p_Depth = 0\<rparr>"

fun plan_roles :: "'w RoleCatalogSource \<Rightarrow> ITPlanOptions \<Rightarrow> ProfessionalRole list \<Rightarrow> 'w \<Rightarrow> ITPlan
    \<Rightarrow> 'w \<times> (plan_error + ITPlan)" where
  "plan_roles src opts [] w plan = (w, Inr plan)"
| "plan_roles src opts (r # rs) w plan =
     (case planPartition src opts (root_partition opts r) w plan of
        (w, Inl e) \<Rightarrow> (w, Inl e)
      | (w, Inr plan) \<Rightarrow> plan_roles src opts rs w plan)"

definition PlanIT :: "'w RoleCatalogSource option \<Rightarrow> time \<Rightarrow> ITPlanOptions \<Rightarrow> 'w \<Rightarrow> 'w \<times> (plan_error + ITPlan)" where
  "PlanIT src0 now opts0 w =
     (case src0 of
        None \<Rightarrow> (w, Inl SourceRequired)
      | Some src \<Rightarrow>
          (let opts = plan_defaults now opts0 in
           if \<not> po_Earliest opts < po_Now opts then (w, Inl EarliestNotBeforeNow)
           else (case rc_ProfessionalRoles src w (po_CategoryID opts) of
               (w, Inl e) \<Rightarrow> (w, Inl (SourceFailed e))
             | (w, Inr catalogRoles) \<Rightarrow>
                 (case FilterCollectedRoles catalogRoles of
                    Inl e \<Rightarrow> (w, Inl (PolicyFailed e))
                  | Inr roles0 \<Rightarrow>
                      (let roles = sort_key pr_ID roles0;
                           plan = \<lparr>pl_Roles = roles, pl_Partitions = [], pl_EstimatedResults = 0, pl_ProbeRequests = 1\<rparr>
                       in case plan_roles src opts roles w plan of
                            (w, Inl e) \<Rightarrow> (w, Inl e)
                          | (w, Inr plan) \<Rightarrow>
                              (w, Inr (plan\<lparr>pl_Partitions := sort_key (\<lambda>p. (p_RoleID p, p_From p)) (pl_Partitions plan)\<rparr>)))))))"

section \<open>Lemmas\<close>

text \<open>A partition covers a moment; an interval in whole seconds is one with a positive start.\<close>

definition covers :: "time \<Rightarrow> SearchPartition \<Rightarrow> bool" where
  "covers t p \<longleftrightarrow> IsZero (p_From p) \<or> p_From p \<le> t \<and> t \<le> p_To p"

definition interval :: "SearchPartition \<Rightarrow> bool" where
  "interval p \<longleftrightarrow> 0 < p_From p \<and> p_From p \<le> p_To p \<and> Second dvd p_From p \<and> Second dvd p_To p"

definition cover_count :: "time \<Rightarrow> SearchPartition list \<Rightarrow> nat" where
  "cover_count t ps = length (filter (covers t) ps)"

lemma Sub_half: "from < to \<Longrightarrow> 0 \<le> quot (Sub to from) 2 \<and> quot (Sub to from) 2 \<le> to - from"
proof -
  assume lt: "from < to"
  have "0 \<le> Sub to from \<and> Sub to from \<le> to - from"
    using lt by (auto simp: Sub_def max_int_def min_int_def)
  then show ?thesis using quot_bounds [of "Sub to from" 2] by linarith
qed

text \<open>The two halves of a split: intervals in whole seconds that meet without overlap.\<close>

lemma split_halves:
  assumes "split_partition opts part = Inr (left, right)"
    and "if IsZero (p_From part) then 0 < po_Earliest opts \<and> Second dvd po_Earliest opts \<and> Second dvd po_Now opts
         else interval part"
  shows "interval left \<and> interval right \<and> p_From right = p_To left + Second
    \<and> p_From left = (if IsZero (p_From part) then po_Earliest opts else p_From part)
    \<and> p_To right = (if IsZero (p_From part) then po_Now opts else p_To part)
    \<and> p_RoleID left = p_RoleID part \<and> p_RoleID right = p_RoleID part"
proof -
  define fr til where ft: "fr = (if IsZero (p_From part) then po_Earliest opts else p_From part)"
    "til = (if IsZero (p_From part) then po_Now opts else p_To part)"
  define mid where "mid = Truncate (fr + quot (Sub til fr) 2) Second"
  have al: "0 < fr" "Second dvd fr" "Second dvd til"
    using assms(2) by (auto simp: ft interval_def split: if_splits)
  have s: "0 < Second" by (simp add: time_units)
  from assms(1) have lt: "fr < til" and le: "mid + Second \<le> til"
    and l: "left = \<lparr>p_RoleID = p_RoleID part, p_Area = p_Area part, p_From = fr, p_To = mid, p_Found = 0, p_Depth = p_Depth part + 1\<rparr>"
    and r: "right = \<lparr>p_RoleID = p_RoleID part, p_Area = p_Area part, p_From = mid + Second, p_To = til, p_Found = 0, p_Depth = p_Depth part + 1\<rparr>"
    unfolding split_partition_def ft mid_def Let_def by (auto split: if_splits)
  have "fr \<le> mid" unfolding mid_def using Sub_half [OF lt] al(2) s by (intro Truncate_greatest) auto
  moreover have "Second dvd mid" unfolding mid_def using s by (rule Truncate_multiple)
  ultimately show ?thesis using al le s by (simp add: l r interval_def ft)
qed

lemma covers_halves:
  assumes "interval left" "interval right" "p_From right = p_To left + Second" "Second dvd t"
  shows "of_bool (covers t left) + of_bool (covers t right)
    = (of_bool (p_From left \<le> t \<and> t \<le> p_To right) :: nat)"
proof -
  have "t \<le> p_To left \<or> p_To left + Second \<le> t"
  proof (rule ccontr)
    assume c: "\<not> ?thesis"
    have "Second dvd t - p_To left" using assms(1,4) by (simp add: interval_def dvd_diff)
    moreover have "0 < t - p_To left" "t - p_To left < Second" using c by linarith+
    ultimately show False using zdvd_not_zless by blast
  qed
  moreover have "0 < Second" by (simp add: time_units)
  ultimately show ?thesis
    using assms(1-3) unfolding covers_def interval_def IsZero_def by (cases "t \<le> p_To left") auto
qed

text \<open>
  What planning one partition adds: leaves \<open>ps\<close> of its role, each below the cap, that together
  cover every second of its range exactly once, within the ceilings of the options.
\<close>

definition target :: "ITPlanOptions \<Rightarrow> SearchPartition \<Rightarrow> time \<Rightarrow> bool" where
  "target opts part t \<longleftrightarrow> (if IsZero (p_From part) then po_Earliest opts \<le> t \<and> t \<le> po_Now opts
     else p_From part \<le> t \<and> t \<le> p_To part)"

definition exact_cover :: "ITPlanOptions \<Rightarrow> SearchPartition \<Rightarrow> SearchPartition list \<Rightarrow> bool" where
  "exact_cover opts part ps \<longleftrightarrow> (\<forall>t. Second dvd t \<longrightarrow> (IsZero (p_From part) \<longrightarrow> target opts part t) \<longrightarrow>
     cover_count t ps = of_bool (target opts part t))"

definition leaves_added :: "ITPlanOptions \<Rightarrow> ITPlan \<Rightarrow> ITPlan \<Rightarrow> SearchPartition list \<Rightarrow> bool" where
  "leaves_added opts plan plan' ps \<longleftrightarrow>
     pl_Partitions plan' = pl_Partitions plan @ ps \<and> pl_Roles plan' = pl_Roles plan
     \<and> pl_EstimatedResults plan' = pl_EstimatedResults plan + (\<Sum>p\<leftarrow>ps. p_Found p)
     \<and> pl_ProbeRequests plan \<le> pl_ProbeRequests plan'
     \<and> (pl_ProbeRequests plan \<le> po_MaxRequests opts \<longrightarrow> pl_ProbeRequests plan' \<le> po_MaxRequests opts)
     \<and> (int (length (pl_Partitions plan)) \<le> po_MaxPartitions opts \<longrightarrow>
          int (length (pl_Partitions plan')) \<le> po_MaxPartitions opts)
     \<and> list_all (\<lambda>p. p_Found p \<le> MaxSearchResults) ps"

lemma leaves_added_trans:
  "leaves_added opts a b ps \<Longrightarrow> leaves_added opts b c qs \<Longrightarrow> leaves_added opts a c (ps @ qs)"
  unfolding leaves_added_def by auto

definition whole_seconds :: "ITPlanOptions \<Rightarrow> bool" where
  "whole_seconds opts \<longleftrightarrow> 0 < po_Earliest opts \<and> Second dvd po_Earliest opts \<and> Second dvd po_Now opts"

lemma exact_cover_leaf:
  "IsZero (p_From part) \<or> interval part \<Longrightarrow> exact_cover opts part [part\<lparr>p_Found := n\<rparr>]"
  by (auto simp: exact_cover_def cover_count_def covers_def target_def)

lemma exact_cover_join:
  assumes "split_partition opts part = Inr (left, right)" "IsZero (p_From part) \<or> interval part" "whole_seconds opts"
    and "exact_cover opts left ps" "exact_cover opts right qs"
  shows "exact_cover opts part (ps @ qs)"
proof -
  have sh: "interval left \<and> interval right \<and> p_From right = p_To left + Second
    \<and> p_From left = (if IsZero (p_From part) then po_Earliest opts else p_From part)
    \<and> p_To right = (if IsZero (p_From part) then po_Now opts else p_To part)"
    using split_halves [OF assms(1)] assms(2,3) by (auto simp: whole_seconds_def)
  have "\<not> IsZero (p_From left)" "\<not> IsZero (p_From right)" using sh by (auto simp: interval_def IsZero_def)
  then have each: "cover_count t ps = of_bool (covers t left)" "cover_count t qs = of_bool (covers t right)"
    if "Second dvd t" for t
    using assms(4,5) that by (simp_all add: exact_cover_def target_def covers_def)
  have "cover_count t (ps @ qs) = cover_count t ps + cover_count t qs" for t by (simp add: cover_count_def)
  moreover have "target opts part t \<longleftrightarrow> p_From left \<le> t \<and> t \<le> p_To right" for t
    using sh by (simp add: target_def)
  moreover have "of_bool (covers t left) + of_bool (covers t right)
      = (of_bool (p_From left \<le> t \<and> t \<le> p_To right) :: nat)" if "Second dvd t" for t
    using that sh by (intro covers_halves) simp_all
  ultimately show ?thesis unfolding exact_cover_def using each by simp
qed

lemma planPartition_leaves:
  assumes "planPartition src opts part w plan = (w', Inr plan')"
    "IsZero (p_From part) \<or> interval part" "whole_seconds opts"
  shows "\<exists>ps. leaves_added opts plan plan' ps \<and> ps \<noteq> [] \<and> exact_cover opts part ps
    \<and> list_all (\<lambda>p. p_RoleID p = p_RoleID part) ps"
  using assms
proof (induction "nat (po_MaxDepth opts - p_Depth part)" arbitrary: part w plan w' plan' rule: less_induct)
  case less
  let ?plan1 = "plan\<lparr>pl_ProbeRequests := pl_ProbeRequests plan + 1\<rparr>"
  from less.prems(1) obtain w1 page where
    low: "pl_ProbeRequests plan < po_MaxRequests opts"
    and probe: "rc_SearchVacancies src w (probe_query part) = (w1, Inr page)"
    by (subst (asm) planPartition.simps) (auto split: if_splits prod.splits sum.splits)
  let ?part1 = "part\<lparr>p_Found := pg_Found page\<rparr>"
  show ?case
  proof (cases "pg_Found page \<le> MaxSearchResults")
    case True
    with less.prems(1) low probe have "plan' = ?plan1\<lparr>pl_Partitions := pl_Partitions plan @ [?part1],
        pl_EstimatedResults := pl_EstimatedResults plan + pg_Found page\<rparr>"
      "int (length (pl_Partitions plan)) < po_MaxPartitions opts"
      by (subst (asm) planPartition.simps; simp add: Let_def split: if_splits)+
    with True low exact_cover_leaf [OF less.prems(2)] show ?thesis
      by (intro exI [of _ "[?part1]"]) (simp add: leaves_added_def)
  next
    case False
    with less.prems(1) low probe obtain left right w2 plan2 where
      sp: "split_partition opts ?part1 = Inr (left, right)"
      and l: "planPartition src opts left w1 ?plan1 = (w2, Inr plan2)"
      and r: "planPartition src opts right w2 plan2 = (w', Inr plan')"
      by (subst (asm) planPartition.simps) (auto simp: Let_def split: if_splits prod.splits sum.splits)
    have pt: "IsZero (p_From ?part1) \<or> interval ?part1" using less.prems(2) by (simp add: interval_def)
    have h: "interval left \<and> interval right \<and> p_RoleID left = p_RoleID part \<and> p_RoleID right = p_RoleID part"
      using split_halves [OF sp] pt less.prems(3) by (auto simp: whole_seconds_def)
    have "nat (po_MaxDepth opts - p_Depth left) < nat (po_MaxDepth opts - p_Depth part)"
      "nat (po_MaxDepth opts - p_Depth right) < nat (po_MaxDepth opts - p_Depth part)"
      using split_partition_depth [OF sp] by auto
    note d = this
    obtain ps where ps: "leaves_added opts ?plan1 plan2 ps" "ps \<noteq> []" "exact_cover opts left ps"
      "list_all (\<lambda>p. p_RoleID p = p_RoleID left) ps"
      using less.hyps [OF d(1) l] h less.prems(3) by blast
    obtain qs where qs: "leaves_added opts plan2 plan' qs" "exact_cover opts right qs"
      "list_all (\<lambda>p. p_RoleID p = p_RoleID right) qs"
      using less.hyps [OF d(2) r] h less.prems(3) by blast
    have "leaves_added opts plan plan' (ps @ qs)"
      using leaves_added_trans [OF ps(1) qs(1)] low unfolding leaves_added_def by auto
    moreover have "exact_cover opts part (ps @ qs)"
      using exact_cover_join [OF sp pt less.prems(3) ps(3) qs(2)] by (simp add: exact_cover_def target_def)
    ultimately show ?thesis using ps qs h by (intro exI [of _ "ps @ qs"]) auto
  qed
qed

lemma plan_roles_leaves:
  assumes "plan_roles src opts rs w plan = (w', Inr plan')" "whole_seconds opts"
  shows "\<exists>pss. leaves_added opts plan plan' (concat pss)
    \<and> list_all2 (\<lambda>r ps. exact_cover opts (root_partition opts r) ps \<and> list_all (\<lambda>p. p_RoleID p = pr_ID r) ps) rs pss"
  using assms(1)
proof (induction rs arbitrary: w plan)
  case Nil
  then show ?case by (intro exI [of _ "[]"]) (simp add: leaves_added_def)
next
  case (Cons r rs)
  then obtain w1 plan1 where p: "planPartition src opts (root_partition opts r) w plan = (w1, Inr plan1)"
    and rest: "plan_roles src opts rs w1 plan1 = (w', Inr plan')"
    by (auto split: prod.splits sum.splits)
  have "IsZero (p_From (root_partition opts r))" "p_RoleID (root_partition opts r) = pr_ID r"
    by (simp_all add: root_partition_def IsZero_def)
  with planPartition_leaves [OF p _ assms(2)] obtain ps where "leaves_added opts plan plan1 ps"
    "exact_cover opts (root_partition opts r) ps" "list_all (\<lambda>p. p_RoleID p = pr_ID r) ps" by auto
  moreover obtain pss where "leaves_added opts plan1 plan' (concat pss)"
    "list_all2 (\<lambda>r ps. exact_cover opts (root_partition opts r) ps \<and> list_all (\<lambda>p. p_RoleID p = pr_ID r) ps) rs pss"
    using Cons.IH [OF rest] by blast
  ultimately show ?case by (intro exI [of _ "ps # pss"]) (auto intro: leaves_added_trans)
qed

lemma role_leaves:
  assumes "list_all2 (\<lambda>r ps. Q r ps \<and> list_all (\<lambda>p. p_RoleID p = pr_ID r) ps) rs pss"
    "distinct (map pr_ID rs)" "r \<in> set rs"
  shows "\<exists>ps. Q r ps \<and> filter (\<lambda>p. p_RoleID p = pr_ID r) (concat pss) = ps"
  using assms
proof (induction rule: list_all2_induct)
  case (Cons x xs ps pss)
  have other: "filter (\<lambda>p. p_RoleID p = i) (concat pss) = []" if "i \<notin> pr_ID ` set xs" for i
    using Cons.hyps(2) that by (induction rule: list_all2_induct) (auto simp: list_all_iff)
  show ?case
  proof (cases "r = x")
    case True
    have "filter (\<lambda>p. p_RoleID p = pr_ID x) ps = ps" using Cons.hyps(1) by (simp add: list_all_iff)
    with True Cons other show ?thesis by auto
  next
    case False
    with Cons.prems have "pr_ID r \<in> pr_ID ` set xs" "pr_ID x \<notin> pr_ID ` set xs" by simp_all
    then have "pr_ID r \<noteq> pr_ID x" by metis
    then have "filter (\<lambda>p. p_RoleID p = pr_ID r) ps = []" using Cons.hyps(1) by (auto simp: list_all_iff)
    with False Cons show ?thesis by auto
  qed
qed simp

lemma plan_defaults_ok:
  assumes "IsZero (po_Earliest opts) \<or> Second \<le> po_Earliest opts"
  shows "whole_seconds (plan_defaults now opts)" "0 < po_MaxRequests (plan_defaults now opts)"
    "0 < po_MaxPartitions (plan_defaults now opts)"
proof -
  have s: "0 < Second" by (simp add: time_units)
  have "Second \<le> Truncate e Second" if "Second \<le> e" for e
    using s that by (intro Truncate_greatest) auto
  moreover have "Second \<le> 730119 * Day" by (simp add: time_units)
  ultimately have "Second \<le> po_Earliest (plan_defaults now opts)"
    using assms by (auto simp: plan_defaults_def Let_def)
  with s show "whole_seconds (plan_defaults now opts)"
    by (auto simp: whole_seconds_def plan_defaults_def Let_def Truncate_multiple)
qed (simp_all add: plan_defaults_def Let_def)

lemma sum_sort_key: "(\<Sum>p\<leftarrow>sort_key k xs. f p) = (\<Sum>p\<leftarrow>xs. f p)" for f :: "'a \<Rightarrow> int"
  by (metis mset_map mset_sort sum_mset_sum_list)

text \<open>A catalogue as the policy expects it and a search that finds nothing: planning succeeds.\<close>

definition quiet_source :: "unit RoleCatalogSource" where
  "quiet_source = \<lparr>rc_ProfessionalRoles = (\<lambda>w c. (w, Inr (map (\<lambda>r. \<lparr>pr_ID = ar_ID r, pr_Name = ar_ExpectedName r,
       pr_SearchDeprecated = False\<rparr>) (allowedRoles @ managementOnlyRoles)))),
     rc_SearchVacancies = (\<lambda>w q. (w, Inr \<lparr>pg_Found = 0, pg_Page = 0, pg_Pages = 0, pg_PerPage = 1, pg_Items = []\<rparr>))\<rparr>"

definition quiet_options :: ITPlanOptions where
  "quiet_options = \<lparr>po_Area = '''', po_CategoryID = '''', po_Earliest = Day, po_Now = 2 * Day,
     po_MaxDepth = 0, po_MaxPartitions = 0, po_MaxRequests = 0\<rparr>"

lemma quiet_roles:
  "pl_ProbeRequests plan + int (length rs) \<le> po_MaxRequests opts \<Longrightarrow>
   int (length (pl_Partitions plan)) + int (length rs) \<le> po_MaxPartitions opts \<Longrightarrow>
   \<exists>plan'. plan_roles quiet_source opts rs () plan = ((), Inr plan')"
proof (induction rs arbitrary: plan)
  case (Cons r rs)
  let ?plan = "plan\<lparr>pl_ProbeRequests := pl_ProbeRequests plan + 1,
    pl_Partitions := pl_Partitions plan @ [(root_partition opts r)\<lparr>p_Found := 0\<rparr>]\<rparr>"
  have "planPartition quiet_source opts (root_partition opts r) () plan = ((), Inr ?plan)"
    using Cons.prems by (subst planPartition.simps) (simp add: quiet_source_def MaxSearchResults_def)
  with Cons.IH [of ?plan] Cons.prems show ?case by simp
qed simp

lemma quiet_plan: "\<exists>plan. PlanIT (Some quiet_source) 0 quiet_options () = ((), Inr plan)"
proof -
  let ?cat = "map (\<lambda>r. \<lparr>pr_ID = ar_ID r, pr_Name = ar_ExpectedName r, pr_SearchDeprecated = False\<rparr>)
    (allowedRoles @ managementOnlyRoles)"
  have "FilterCollectedRoles ?cat = Inr ?cat"
    unfolding FilterCollectedRoles_def filterRoles_def
    by (simp add: CollectedRoles_order allowedRoles_def managementOnlyRoles_def catalog_by_id_def)
  moreover have "length ?cat = 13" by (simp add: allowedRoles_def managementOnlyRoles_def)
  then have "\<exists>plan'. plan_roles quiet_source (plan_defaults 0 quiet_options) (sort_key pr_ID ?cat) ()
      \<lparr>pl_Roles = sort_key pr_ID ?cat, pl_Partitions = [], pl_EstimatedResults = 0, pl_ProbeRequests = 1\<rparr> = ((), Inr plan')"
    by (intro quiet_roles) (simp_all add: plan_defaults_def quiet_options_def)
  moreover have "po_Earliest (plan_defaults 0 quiet_options) < po_Now (plan_defaults 0 quiet_options)"
    by (simp add: plan_defaults_def quiet_options_def time_units IsZero_def Truncate_def)
  moreover have "rc_ProfessionalRoles quiet_source () c = ((), Inr ?cat)" for c by (simp add: quiet_source_def)
  ultimately show ?thesis by (auto simp: PlanIT_def Let_def)
qed

subsection \<open>Distinct leaves\<close>

definition starts_in :: "SearchPartition \<Rightarrow> SearchPartition list \<Rightarrow> bool" where
  "starts_in part ps \<longleftrightarrow> sorted_wrt (<) (map p_From ps)
     \<and> (\<forall>p \<in> set ps. p_RoleID p = p_RoleID part \<and> p_Area p = p_Area part \<and> 0 \<le> p_From p \<and> Second dvd p_From p
          \<and> (\<not> IsZero (p_From part) \<longrightarrow> p_From part \<le> p_From p \<and> p_From p \<le> p_To part))"

lemma starts_in_join:
  assumes "split_partition opts part = Inr (left, right)" "whole_seconds opts" "IsZero (p_From part) \<or> interval part"
    "starts_in left ps" "starts_in right qs"
  shows "starts_in part (ps @ qs)"
proof -
  have h: "interval left" "interval right" "p_From right = p_To left + Second"
    "p_From left = (if IsZero (p_From part) then po_Earliest opts else p_From part)"
    "p_To right = (if IsZero (p_From part) then po_Now opts else p_To part)"
    "p_RoleID left = p_RoleID part" "p_RoleID right = p_RoleID part"
    using split_halves [OF assms(1)] assms(2,3) by (auto simp: whole_seconds_def)
  have a: "p_Area left = p_Area part" "p_Area right = p_Area part"
    using assms(1) by (auto simp: split_partition_def Let_def split: if_splits)
  have nz: "\<not> IsZero (p_From left)" "\<not> IsZero (p_From right)" using h(1,2) by (auto simp: interval_def IsZero_def)
  have s: "0 < Second" by (simp add: time_units)
  have "p_From p < p_From q" if "p \<in> set ps" "q \<in> set qs" for p q
    using that assms(4,5) nz h(3) s by (fastforce simp: starts_in_def)
  then have "sorted_wrt (<) (map p_From (ps @ qs))"
    using assms(4,5) by (auto simp: starts_in_def sorted_wrt_append)
  moreover have "p_From left \<le> p_To left" "p_From right \<le> p_To right" using h(1,2) by (simp_all add: interval_def)
  ultimately show ?thesis
    using assms(4,5) nz h s a unfolding starts_in_def by (auto split: if_splits)
qed

lemma planPartition_starts:
  assumes "planPartition src opts part w plan = (w', Inr plan')" "whole_seconds opts"
    "0 \<le> p_From part" "Second dvd p_From part" "IsZero (p_From part) \<or> interval part"
  shows "\<exists>ps. pl_Partitions plan' = pl_Partitions plan @ ps \<and> starts_in part ps"
  using assms(1,3-)
proof (induction "nat (po_MaxDepth opts - p_Depth part)" arbitrary: part w plan w' plan' rule: less_induct)
  case less
  let ?plan1 = "plan\<lparr>pl_ProbeRequests := pl_ProbeRequests plan + 1\<rparr>"
  from less.prems(1) obtain w1 page where page: "rc_SearchVacancies src w (probe_query part) = (w1, Inr page)"
    by (subst (asm) planPartition.simps) (auto split: if_splits prod.splits sum.splits)
  show ?case
  proof (cases "pg_Found page \<le> MaxSearchResults")
    case True
    with less.prems page show ?thesis
      by (subst (asm) planPartition.simps) (auto simp: Let_def starts_in_def interval_def IsZero_def split: if_splits)
  next
    case False
    let ?part = "part\<lparr>p_Found := pg_Found page\<rparr>"
    from less.prems(1) page False obtain left right w2 plan2 where sp: "split_partition opts ?part = Inr (left, right)"
      and l: "planPartition src opts left w1 ?plan1 = (w2, Inr plan2)"
      and r: "planPartition src opts right w2 plan2 = (w', Inr plan')"
      by (subst (asm) planPartition.simps) (auto simp: Let_def split: if_splits prod.splits sum.splits)
    have i: "IsZero (p_From ?part) \<or> interval ?part" using less.prems(4) by (simp add: interval_def)
    then have h: "interval left" "interval right"
      using split_halves [OF sp] assms(2) by (auto simp: whole_seconds_def)
    have d: "nat (po_MaxDepth opts - p_Depth left) < nat (po_MaxDepth opts - p_Depth part)"
      "nat (po_MaxDepth opts - p_Depth right) < nat (po_MaxDepth opts - p_Depth part)"
      using split_partition_depth [OF sp] by auto
    obtain ps where ps: "pl_Partitions plan2 = pl_Partitions plan @ ps" "starts_in left ps"
      using less.hyps [OF d(1) l] h(1) by (auto simp: interval_def)
    obtain qs where qs: "pl_Partitions plan' = pl_Partitions plan2 @ qs" "starts_in right qs"
      using less.hyps [OF d(2) r] h(2) by (auto simp: interval_def)
    have "starts_in ?part (ps @ qs)" by (rule starts_in_join [OF sp assms(2) i ps(2) qs(2)])
    with ps qs show ?thesis by (intro exI [of _ "ps @ qs"]) (simp add: starts_in_def)
  qed
qed

text \<open>What identifies a leaf among those of a plan.\<close>

definition leaf_id :: "SearchPartition \<Rightarrow> string \<times> time" where
  "leaf_id p = (p_RoleID p, p_From p)"

definition leaf_of :: "ITPlanOptions \<Rightarrow> string set \<Rightarrow> SearchPartition \<Rightarrow> bool" where
  "leaf_of opts ids p \<longleftrightarrow> p_RoleID p \<in> ids \<and> p_Area p = po_Area opts \<and> 0 \<le> p_From p \<and> Second dvd p_From p"

lemma starts_in_distinct: "starts_in part ps \<Longrightarrow> distinct (map leaf_id ps)"
proof -
  assume "starts_in part ps"
  then have "distinct (map p_From ps)" by (auto simp: starts_in_def strict_sorted_iff)
  then show ?thesis by (auto simp: distinct_map leaf_id_def inj_on_def)
qed

lemma plan_roles_distinct:
  assumes "plan_roles src opts rs w plan = (w', Inr plan')" "whole_seconds opts" "distinct (map pr_ID rs)"
  shows "\<exists>ps. pl_Partitions plan' = pl_Partitions plan @ ps \<and> distinct (map leaf_id ps) \<and> list_all (leaf_of opts (pr_ID ` set rs)) ps"
  using assms(1,3)
proof (induction rs arbitrary: w plan)
  case (Cons r rs)
  then obtain w1 plan1 where p: "planPartition src opts (root_partition opts r) w plan = (w1, Inr plan1)"
    and rest: "plan_roles src opts rs w1 plan1 = (w', Inr plan')"
    by (auto split: prod.splits sum.splits)
  obtain ps where ps: "pl_Partitions plan1 = pl_Partitions plan @ ps" "starts_in (root_partition opts r) ps"
    using planPartition_starts [OF p assms(2)] by (auto simp: root_partition_def IsZero_def)
  obtain qs where qs: "pl_Partitions plan' = pl_Partitions plan1 @ qs" "distinct (map leaf_id qs)"
    "list_all (leaf_of opts (pr_ID ` set rs)) qs"
    using Cons.IH [OF rest] Cons.prems(2) by auto
  have lp: "list_all (\<lambda>p. p_RoleID p = pr_ID r \<and> leaf_of opts {pr_ID r} p) ps"
    using ps(2) by (auto simp: starts_in_def leaf_of_def list_all_iff root_partition_def)
  have "leaf_id p \<noteq> leaf_id q" if "p \<in> set ps" "q \<in> set qs" for p q
  proof -
    have "p_RoleID p = pr_ID r" using lp that(1) by (simp add: list_all_iff)
    moreover have "p_RoleID q \<in> pr_ID ` set rs" using qs(3) that(2) by (simp add: list_all_iff leaf_of_def)
    moreover have "pr_ID r \<notin> pr_ID ` set rs" using Cons.prems(2) by simp
    ultimately show ?thesis unfolding leaf_id_def by auto
  qed
  then have "leaf_id ` set ps \<inter> leaf_id ` set qs = {}" by blast
  then have "distinct (map leaf_id (ps @ qs))" using starts_in_distinct [OF ps(2)] qs(2) by simp
  moreover have "list_all (leaf_of opts (pr_ID ` set (r # rs))) (ps @ qs)"
    using lp qs(3) by (auto simp: leaf_of_def list_all_iff)
  ultimately show ?case using ps qs by (intro exI [of _ "ps @ qs"]) simp
qed simp

lemma PlanIT_leaves:
  assumes "PlanIT (Some src) now opts0 w = (w', Inr plan)" "IsZero (po_Earliest opts0) \<or> Second \<le> po_Earliest opts0"
  shows "distinct (map leaf_id (pl_Partitions plan))
    \<and> list_all (leaf_of (plan_defaults now opts0) (ar_ID ` set (allowedRoles @ managementOnlyRoles))) (pl_Partitions plan)"
proof -
  let ?opts = "plan_defaults now opts0"
  obtain w1 catalog roles0 w2 plan1 where f: "FilterCollectedRoles catalog = Inr roles0"
    and pr: "plan_roles src ?opts (sort_key pr_ID roles0) w1
      \<lparr>pl_Roles = sort_key pr_ID roles0, pl_Partitions = [], pl_EstimatedResults = 0, pl_ProbeRequests = 1\<rparr> = (w2, Inr plan1)"
    and plan: "plan = plan1\<lparr>pl_Partitions := sort_key (\<lambda>p. (p_RoleID p, p_From p)) (pl_Partitions plan1)\<rparr>"
    using assms(1) unfolding PlanIT_def Let_def by (auto split: if_splits prod.splits sum.splits)
  have ids: "map pr_ID roles0 = map ar_ID (allowedRoles @ managementOnlyRoles)" by (rule FilterCollectedRoles_ids [OF f])
  then have "distinct (map pr_ID (sort_key pr_ID roles0))"
    using policy_distinct(1) by (metis distinct_map distinct_sort set_sort)
  note 1 = plan_roles_distinct [OF pr plan_defaults_ok(1) [OF assms(2)] this]
  have "pr_ID ` set roles0 = ar_ID ` set (allowedRoles @ managementOnlyRoles)"
    using ids by (metis list.set_map)
  with 1 plan show ?thesis by (auto simp: distinct_map list_all_iff)
qed

lemma PlanIT_within_budget:
  assumes "PlanIT (Some src) now opts0 w = (w', Inr plan)"
    and "IsZero (po_Earliest opts0) \<or> Second \<le> po_Earliest opts0"
  defines "opts \<equiv> plan_defaults now opts0"
  shows "1 \<le> pl_ProbeRequests plan \<and> pl_ProbeRequests plan \<le> po_MaxRequests opts
    \<and> int (length (pl_Partitions plan)) \<le> po_MaxPartitions opts
    \<and> pl_EstimatedResults plan = (\<Sum>p\<leftarrow>pl_Partitions plan. p_Found p)"
proof -
  obtain w1 roles w2 plan1 where
    pr: "plan_roles src opts roles w1
      \<lparr>pl_Roles = roles, pl_Partitions = [], pl_EstimatedResults = 0, pl_ProbeRequests = 1\<rparr> = (w2, Inr plan1)"
    and plan: "plan = plan1\<lparr>pl_Partitions := sort_key (\<lambda>p. (p_RoleID p, p_From p)) (pl_Partitions plan1)\<rparr>"
    using assms(1) unfolding PlanIT_def opts_def [symmetric] Let_def
    by (auto split: if_splits prod.splits sum.splits)
  note def = plan_defaults_ok [OF assms(2), of now, folded opts_def]
  obtain ps where "leaves_added opts \<lparr>pl_Roles = roles, pl_Partitions = [], pl_EstimatedResults = 0, pl_ProbeRequests = 1\<rparr> plan1 ps"
    using plan_roles_leaves [OF pr def(1)] by blast
  then show ?thesis using plan def(2,3) by (auto simp: leaves_added_def sum_sort_key)
qed

section \<open>Properties\<close>

text \<open>
  C2. A plan covers every admitted role completely and without overlap: for each role and each
  whole second between the earliest date and now exactly one leaf of that role contains it,
  and every leaf is within the depth the search API serves.
\<close>

theorem PlanIT_exact_cover:
  assumes "PlanIT (Some src) now opts0 w = (w', Inr plan)"
    and "IsZero (po_Earliest opts0) \<or> Second \<le> po_Earliest opts0"
  defines "opts \<equiv> plan_defaults now opts0"
  shows "pr_ID ` set (pl_Roles plan) = ar_ID ` set (allowedRoles @ managementOnlyRoles)
    \<and> (\<forall>r \<in> set (pl_Roles plan). \<forall>t. Second dvd t \<and> po_Earliest opts \<le> t \<and> t \<le> po_Now opts \<longrightarrow>
         length (filter (\<lambda>p. p_RoleID p = pr_ID r \<and> covers t p) (pl_Partitions plan)) = 1)
    \<and> (\<forall>p \<in> set (pl_Partitions plan). p_Found p \<le> MaxSearchResults)"
proof -
  obtain w1 catalog roles0 w2 plan1 where f: "FilterCollectedRoles catalog = Inr roles0"
    and pr: "plan_roles src opts (sort_key pr_ID roles0) w1
      \<lparr>pl_Roles = sort_key pr_ID roles0, pl_Partitions = [], pl_EstimatedResults = 0, pl_ProbeRequests = 1\<rparr> = (w2, Inr plan1)"
    and plan: "plan = plan1\<lparr>pl_Partitions := sort_key (\<lambda>p. (p_RoleID p, p_From p)) (pl_Partitions plan1)\<rparr>"
    using assms(1) unfolding PlanIT_def opts_def [symmetric] Let_def
    by (auto split: if_splits prod.splits sum.splits)
  let ?rs = "sort_key pr_ID roles0"
  obtain pss where la: "leaves_added opts \<lparr>pl_Roles = ?rs, pl_Partitions = [], pl_EstimatedResults = 0, pl_ProbeRequests = 1\<rparr>
      plan1 (concat pss)"
    and all: "list_all2 (\<lambda>r ps. exact_cover opts (root_partition opts r) ps \<and> list_all (\<lambda>p. p_RoleID p = pr_ID r) ps) ?rs pss"
    using plan_roles_leaves [OF pr] plan_defaults_ok [OF assms(2)] unfolding opts_def by blast
  have ids: "map pr_ID roles0 = map ar_ID (allowedRoles @ managementOnlyRoles)"
    by (rule FilterCollectedRoles_ids [OF f])
  then have d: "distinct (map pr_ID ?rs)"
    using policy_distinct(1) by (metis distinct_map distinct_sort set_sort)
  have "length (filter (\<lambda>p. p_RoleID p = pr_ID r \<and> covers t p) (pl_Partitions plan)) = 1"
    if r: "r \<in> set (pl_Roles plan)" and t: "Second dvd t" "po_Earliest opts \<le> t" "t \<le> po_Now opts" for r t
  proof -
    have "r \<in> set ?rs" using r la plan by (simp add: leaves_added_def)
    then obtain ps where "exact_cover opts (root_partition opts r) ps"
      and fl: "filter (\<lambda>p. p_RoleID p = pr_ID r) (concat pss) = ps"
      using role_leaves [OF all d] by blast
    then have "cover_count t ps = 1"
      using t by (simp add: exact_cover_def target_def root_partition_def IsZero_def)
    moreover have "filter (\<lambda>p. p_RoleID p = pr_ID r \<and> covers t p) (concat pss) = filter (covers t) ps"
      unfolding fl [symmetric] filter_filter by (meson)
    ultimately show ?thesis using la plan by (simp add: leaves_added_def filter_sort cover_count_def)
  qed
  moreover have "pr_ID ` set (pl_Roles plan) = ar_ID ` set (allowedRoles @ managementOnlyRoles)"
    using la plan ids by (simp add: leaves_added_def) (metis list.set_map map_append set_append image_Un)
  ultimately show ?thesis using la plan by (auto simp: leaves_added_def list_all_iff)
qed

theorem PlanIT_exact_cover_witness:
  "\<exists>plan. PlanIT (Some quiet_source) 0 quiet_options () = ((), Inr plan)
     \<and> pr_ID ` set (pl_Roles plan) = ar_ID ` set (allowedRoles @ managementOnlyRoles)"
proof -
  obtain plan where p: "PlanIT (Some quiet_source) 0 quiet_options () = ((), Inr plan)" using quiet_plan by blast
  have "Second \<le> po_Earliest quiet_options" by (simp add: quiet_options_def time_units)
  from PlanIT_exact_cover [OF p disjI2 [OF this], THEN conjunct1] p show ?thesis by (intro exI conjI)
qed

text \<open>
  A plan keeps its budget: the requests it spent and the leaves it lists are within the
  ceilings of the options, and its estimate is the sum of what the leaves found.
\<close>

theorem PlanIT_budget:
  assumes "PlanIT (Some src) now opts0 w = (w', Inr plan)"
    and "IsZero (po_Earliest opts0) \<or> Second \<le> po_Earliest opts0"
  defines "opts \<equiv> plan_defaults now opts0"
  shows "1 \<le> pl_ProbeRequests plan \<and> pl_ProbeRequests plan \<le> po_MaxRequests opts
    \<and> int (length (pl_Partitions plan)) \<le> po_MaxPartitions opts
    \<and> pl_EstimatedResults plan = (\<Sum>p\<leftarrow>pl_Partitions plan. p_Found p)"
  using PlanIT_within_budget [OF assms(1,2)] unfolding opts_def .

theorem PlanIT_budget_witness:
  "\<exists>plan. PlanIT (Some quiet_source) 0 quiet_options () = ((), Inr plan)
     \<and> pl_EstimatedResults plan = (\<Sum>p\<leftarrow>pl_Partitions plan. p_Found p)"
proof -
  obtain plan where p: "PlanIT (Some quiet_source) 0 quiet_options () = ((), Inr plan)" using quiet_plan by blast
  have "Second \<le> po_Earliest quiet_options" by (simp add: quiet_options_def time_units)
  from PlanIT_budget [OF p disjI2 [OF this], THEN conjunct2, THEN conjunct2, THEN conjunct2] p
  show ?thesis by (intro exI conjI)
qed

end
