(* ===== verification/HH_Parse.thy ===== *)
theory HH_Parse
  imports HH_Client Normalize
begin

text \<open>
  The HeadHunter adapter: \<^verbatim>\<open>apps/ingest/internal/hh/parse.go\<close> (drafts from search items and
  from vacancy details, the URL policy), \<^verbatim>\<open>html.go\<close> (descriptions to plain text) and
  \<^verbatim>\<open>fixture.go\<close> (the offline source). The JSON decoder, the URL parser, \<^verbatim>\<open>time.Parse\<close> and the
  HTML entity table are functions of the environment. The four regular expressions are
  written out as matchers: given the rest of the text they return what follows the match.
\<close>

definition SchemaVersionV1 :: string where "SchemaVersionV1 = ''SourceNeutralDraftV1''"
definition SourceCode :: string where "SourceCode = ''hh''"
definition MaxDescriptionRunes :: nat where "MaxDescriptionRunes = 12000"

section \<open>Descriptions\<close>

type_synonym chunk = "rune \<times> string"

text \<open>Case folding of a pattern letter, with the two folds beyond ASCII.\<close>

definition ci_eq :: "rune \<Rightarrow> rune \<Rightarrow> bool" where
  "ci_eq p r \<longleftrightarrow> r = p \<or> 97 \<le> p \<and> p \<le> 122 \<and> r + 32 = p \<or> p = 115 \<and> r = 383 \<or> p = 107 \<and> r = 8490"

fun ci_prefix :: "rune list \<Rightarrow> chunk list \<Rightarrow> chunk list option" where
  "ci_prefix [] cs = Some cs"
| "ci_prefix (p # ps) [] = None"
| "ci_prefix (p # ps) (c # cs) = (if ci_eq p (fst c) then ci_prefix ps cs else None)"

definition lit :: "string \<Rightarrow> rune list" where
  "lit s = map byte_val s"

text \<open>\<^verbatim>\<open>[^>]*>\<close>: what follows the next closing bracket.\<close>

fun after_gt :: "chunk list \<Rightarrow> chunk list option" where
  "after_gt [] = None"
| "after_gt (c # cs) = (if fst c = 62 then Some cs else after_gt cs)"

text \<open>\<^verbatim>\<open>.*?</(script|style)>\<close>: what follows the first closing tag.\<close>

fun after_close :: "chunk list \<Rightarrow> chunk list option" where
  "after_close [] = None"
| "after_close (c # cs) =
     (case ci_prefix (lit ''</script>'') (c # cs) of
        Some rest \<Rightarrow> Some rest
      | None \<Rightarrow>
          (case ci_prefix (lit ''</style>'') (c # cs) of
             Some rest \<Rightarrow> Some rest
           | None \<Rightarrow> after_close cs))"

definition reScriptStyle :: "chunk list \<Rightarrow> chunk list option" where
  "reScriptStyle cs =
     (case (case ci_prefix (lit ''<script'') cs of
              Some rest \<Rightarrow> Some rest | None \<Rightarrow> ci_prefix (lit ''<style'') cs) of
        None \<Rightarrow> None
      | Some rest \<Rightarrow> (case after_gt rest of None \<Rightarrow> None | Some rest \<Rightarrow> after_close rest))"

definition re_space :: "rune \<Rightarrow> bool" where
  "re_space r \<longleftrightarrow> r = 9 \<or> r = 10 \<or> r = 12 \<or> r = 13 \<or> r = 32"

definition tag_end :: "chunk list \<Rightarrow> chunk list option" where
  "tag_end cs = (case cs of [] \<Rightarrow> None
     | c # cs' \<Rightarrow> if fst c = 62 then Some cs' else if re_space (fst c) then after_gt cs' else None)"

definition heading :: "chunk list \<Rightarrow> chunk list option" where
  "heading cs = (case ci_prefix (lit ''h'') cs of
     Some (c # rest) \<Rightarrow> if 49 \<le> fst c \<and> fst c \<le> 54 then Some rest else None
   | _ \<Rightarrow> None)"

fun first_some :: "('a \<Rightarrow> 'b option) list \<Rightarrow> 'a \<Rightarrow> 'b option" where
  "first_some [] x = None"
| "first_some (f # fs) x = (case f x of Some y \<Rightarrow> Some y | None \<Rightarrow> first_some fs x)"

definition reBreaks :: "chunk list \<Rightarrow> chunk list option" where
  "reBreaks cs =
     (case ci_prefix (lit ''<'') cs of
        None \<Rightarrow> None
      | Some rest \<Rightarrow>
          (case first_some [ci_prefix (lit ''br''), ci_prefix (lit ''p''), ci_prefix (lit ''div''),
                            ci_prefix (lit ''li''), heading]
                 (case ci_prefix (lit ''/'') rest of Some rest' \<Rightarrow> rest' | None \<Rightarrow> rest) of
             None \<Rightarrow> None
           | Some rest \<Rightarrow> tag_end rest))"

definition reTags :: "chunk list \<Rightarrow> chunk list option" where
  "reTags cs = (case ci_prefix (lit ''<'') cs of None \<Rightarrow> None | Some rest \<Rightarrow> after_gt rest)"

definition reSpaces :: "chunk list \<Rightarrow> chunk list option" where
  "reSpaces cs = (if cs \<noteq> [] \<and> re_space (fst (hd cs)) then Some (dropWhile (\<lambda>c. re_space (fst c)) cs) else None)"

text \<open>\<^verbatim>\<open>ReplaceAllString\<close>, left to right; every match of the four expressions is non-empty.\<close>

function replace_matched :: "(chunk list \<Rightarrow> chunk list option) \<Rightarrow> string \<Rightarrow> chunk list \<Rightarrow> string" where
  "replace_matched re repl cs =
     (case cs of
        [] \<Rightarrow> ''''
      | c # rest \<Rightarrow>
          (case re cs of
             Some after \<Rightarrow>
               if length after < length cs then repl @ replace_matched re repl after
               else snd c @ replace_matched re repl rest
           | None \<Rightarrow> snd c @ replace_matched re repl rest))"
  by pat_completeness auto
termination by (relation "measure (\<lambda>(re, repl, cs). length cs)") auto

declare replace_matched.simps [simp del]

definition ReplaceAllMatches :: "(chunk list \<Rightarrow> chunk list option) \<Rightarrow> string \<Rightarrow> string \<Rightarrow> string" where
  "ReplaceAllMatches re s repl = replace_matched re repl (chunks s)"

definition nbsp :: string where "nbsp = [CHR 0xC2, CHR 0xA0]"

definition SanitizeDescription :: "(string \<Rightarrow> string) \<Rightarrow> string \<Rightarrow> int \<Rightarrow> string \<times> bool" where
  "SanitizeDescription unescape s maxRunes =
     (if s = '''' then ('''', False)
      else let s = ReplaceAllMatches reScriptStyle s '' '';
               s = ReplaceAllMatches reBreaks s [CHR 0x0A];
               s = ReplaceAllMatches reTags s '' '';
               s = unescape s;
               s = ReplaceAll s nbsp '' '';
               s = ReplaceAll s [CHR 0x00] '' '';
               s = ReplaceAllMatches reSpaces s '' '';
               s = TrimSpace s;
               rs = runes s
           in if maxRunes > 0 \<and> int (length rs) > maxRunes
              then (TrimSpace (encode (take (nat maxRunes) rs)), True) else (s, False))"

definition StripHTML :: "(string \<Rightarrow> string) \<Rightarrow> string \<Rightarrow> string" where
  "StripHTML unescape s = fst (SanitizeDescription unescape s (int MaxDescriptionRunes))"

section \<open>Drafts\<close>

record vacancyPayload =
  vp_ID :: string
  vp_Name :: string
  vp_AlternateURL :: string
  vp_Area :: "NamedRef option"
  vp_Salary :: "SalaryJSON option"
  vp_Employer :: "NamedRef option"
  vp_KeySkills :: "string list"
  vp_ProfessionalRoles :: "NamedRef list"
  vp_Schedule :: "string option"
  vp_WorkFormat :: "string list"
  vp_Description :: string
  vp_PublishedAt :: string
  vp_Archived :: bool

record URL =
  u_Scheme :: string
  u_HasUser :: bool
  u_Hostname :: string
  u_String :: string

record ParseEnv =
  pe_detail_json :: "string \<Rightarrow> vacancyPayload option"
  pe_url :: "string \<Rightarrow> URL option"
  pe_time :: "string \<Rightarrow> string \<Rightarrow> time option"
  pe_unescape :: "string \<Rightarrow> string"

datatype url_error = ControlCharacters | NotAbsolute | UnsupportedScheme | UnsupportedHost

datatype draft_error =
    DetailJSON
  | EmptyID
  | EmptyName
  | AlternateURL url_error
  | EmptyPublishedAt
  | PublishedAt string

definition ValidateSourceURL :: "ParseEnv \<Rightarrow> string \<Rightarrow> url_error + string" where
  "ValidateSourceURL env raw =
     (if ContainsAny raw [CHR 0x00, CHR 0x0D, CHR 0x0A, CHR 0x09] then Inl ControlCharacters
      else (case pe_url env raw of
          None \<Rightarrow> Inl NotAbsolute
        | Some parsed \<Rightarrow>
            if u_Scheme parsed = '''' \<or> u_HasUser parsed then Inl NotAbsolute
            else if u_Scheme parsed \<noteq> ''https'' \<and> u_Scheme parsed \<noteq> ''http'' then Inl UnsupportedScheme
            else let host = ToLower (u_Hostname parsed) in
              if host \<noteq> ''hh.ru'' \<and> \<not> HasSuffix host ''.hh.ru'' then Inl UnsupportedHost
              else Inr (u_String parsed)))"

definition parseHHTime :: "ParseEnv \<Rightarrow> string \<Rightarrow> draft_error + time" where
  "parseHHTime env s =
     (case pe_time env ''2006-01-02T15:04:05-0700'' s of
        Some t \<Rightarrow> Inr t
      | None \<Rightarrow> (case pe_time env ''2006-01-02T15:04:05Z07:00'' s of Some t \<Rightarrow> Inr t | None \<Rightarrow> Inl (PublishedAt s)))"

definition empty_draft :: Draft where
  "empty_draft = \<lparr>d_SchemaVersion = '''', d_Source = '''', d_ExternalID = '''', d_SourceURL = '''', d_Title = '''',
     d_EmployerExternalID = '''', d_EmployerName = '''', d_RegionExternalID = '''', d_RegionName = '''',
     d_SalaryFrom = None, d_SalaryTo = None, d_SalaryCurrencyRaw = '''', d_SalaryGross = None, d_PublishedAt = 0,
     d_CollectedAt = 0, d_SkillsRaw = [], d_ProfessionalRoleIDs = [], d_ScheduleID = '''', d_WorkFormatIDs = [],
     d_DescriptionText = '''', d_DescriptionTruncated = False, d_IsActiveHint = None, d_RawPayload = ''''\<rparr>"

definition with_area :: "NamedRef option \<Rightarrow> Draft \<Rightarrow> Draft" where
  "with_area area d = (case area of None \<Rightarrow> d
     | Some a \<Rightarrow> d\<lparr>d_RegionExternalID := n_ID a, d_RegionName := n_Name a\<rparr>)"

definition with_salary :: "SalaryJSON option \<Rightarrow> Draft \<Rightarrow> Draft" where
  "with_salary salary d = (case salary of None \<Rightarrow> d
     | Some s \<Rightarrow> d\<lparr>d_SalaryFrom := sj_From s, d_SalaryTo := sj_To s,
                   d_SalaryCurrencyRaw := sj_Currency s, d_SalaryGross := sj_Gross s\<rparr>)"

definition non_empty :: "string list \<Rightarrow> string list" where
  "non_empty = filter (\<lambda>s. s \<noteq> '''')"

text \<open>An optional source URL, validated.\<close>

definition with_url :: "ParseEnv \<Rightarrow> string \<Rightarrow> Draft \<Rightarrow> draft_error + Draft" where
  "with_url env raw d =
     (if raw = '''' then Inr d
      else (case ValidateSourceURL env raw of Inl e \<Rightarrow> Inl (AlternateURL e) | Inr u \<Rightarrow> Inr (d\<lparr>d_SourceURL := u\<rparr>)))"

definition DraftFromSearch :: "ParseEnv \<Rightarrow> SearchItem \<Rightarrow> time \<Rightarrow> draft_error + Draft" where
  "DraftFromSearch env item observedAt =
     (if it_ID item = '''' then Inl EmptyID
      else if it_Name item = '''' then Inl EmptyName
      else (case with_url env (it_AlternateURL item)
               (empty_draft\<lparr>d_SchemaVersion := SchemaVersionV1, d_Source := SourceCode, d_ExternalID := it_ID item,
                            d_Title := it_Name item, d_CollectedAt := observedAt\<rparr>) of
          Inl e \<Rightarrow> Inl e
        | Inr d \<Rightarrow>
            if it_PublishedAt item = '''' then Inl EmptyPublishedAt
            else (case parseHHTime env (it_PublishedAt item) of
                Inl e \<Rightarrow> Inl e
              | Inr publishedAt \<Rightarrow>
                  Inr (with_salary (it_Salary item) (with_area (it_Area item) (d\<lparr>d_PublishedAt := publishedAt\<rparr>))
                         \<lparr>d_ProfessionalRoleIDs := non_empty (map n_ID (it_ProfessionalRoles item))\<rparr>))))"

definition detail_draft :: "ParseEnv \<Rightarrow> string \<Rightarrow> vacancyPayload \<Rightarrow> time \<Rightarrow> Draft" where
  "detail_draft env raw v collectedAt =
     (case SanitizeDescription (pe_unescape env) (vp_Description v) (int MaxDescriptionRunes) of
        (description, truncated) \<Rightarrow>
          empty_draft\<lparr>d_SchemaVersion := SchemaVersionV1, d_Source := SourceCode, d_ExternalID := vp_ID v,
            d_Title := vp_Name v, d_CollectedAt := collectedAt, d_DescriptionText := description,
            d_DescriptionTruncated := truncated, d_RawPayload := raw\<rparr>)"

definition fill_detail :: "vacancyPayload \<Rightarrow> Draft \<Rightarrow> Draft" where
  "fill_detail v d =
     (let d = with_area (vp_Area v) d;
          d = (case vp_Employer v of None \<Rightarrow> d
               | Some e \<Rightarrow> d\<lparr>d_EmployerExternalID := n_ID e, d_EmployerName := n_Name e\<rparr>);
          d = with_salary (vp_Salary v) d
      in d\<lparr>d_SkillsRaw := non_empty (vp_KeySkills v),
           d_ProfessionalRoleIDs := non_empty (map n_ID (vp_ProfessionalRoles v)),
           d_ScheduleID := (case vp_Schedule v of None \<Rightarrow> '''' | Some s \<Rightarrow> s),
           d_WorkFormatIDs := non_empty (vp_WorkFormat v)\<rparr>)"

definition DraftFromDetail :: "ParseEnv \<Rightarrow> string \<Rightarrow> time \<Rightarrow> draft_error + Draft" where
  "DraftFromDetail env raw collectedAt =
     (case pe_detail_json env raw of
        None \<Rightarrow> Inl DetailJSON
      | Some v \<Rightarrow>
          if vp_ID v = '''' then Inl EmptyID
          else if vp_Name v = '''' then Inl EmptyName
          else (case with_url env (vp_AlternateURL v) (detail_draft env raw v collectedAt) of
              Inl e \<Rightarrow> Inl e
            | Inr d \<Rightarrow>
                (let d = fill_detail v d; active = \<not> vp_Archived v in
                 if vp_PublishedAt v = '''' then Inr (d\<lparr>d_IsActiveHint := Some active\<rparr>)
                 else (case parseHHTime env (vp_PublishedAt v) of
                     Inl e \<Rightarrow> Inl e
                   | Inr ts \<Rightarrow> Inr (d\<lparr>d_PublishedAt := ts, d_IsActiveHint := Some active\<rparr>)))))"

section \<open>The fixture source\<close>

text \<open>\<open>readFile\<close> stands for \<^verbatim>\<open>os.ReadFile\<close>, \<open>quote\<close> for the verb \<^verbatim>\<open>%q\<close>.\<close>

record FixtureSource =
  fs_Dir :: string
  fs_DetailByID :: "(string \<rightharpoonup> string) option"

datatype fixture_error = FixtureRead string | FixtureParse | FixtureNotFound string

definition NewFixtureSource :: "string \<Rightarrow> FixtureSource" where
  "NewFixtureSource dir = \<lparr>fs_Dir = dir, fs_DetailByID = Some [''900001'' \<mapsto> ''vacancy_detail.json'',
     ''900002'' \<mapsto> ''vacancy_detail_spb.json'', ''900010'' \<mapsto> ''salary_absent.json'']\<rparr>"

definition fixture_page :: "(string \<Rightarrow> string option) \<Rightarrow> (string \<Rightarrow> SearchPage option) \<Rightarrow> FixtureSource
    \<Rightarrow> fixture_error + SearchPage" where
  "fixture_page readFile page_json f =
     (case readFile (fs_Dir f @ ''/vacancy_search_page.json'') of
        None \<Rightarrow> Inl (FixtureRead ''vacancy_search_page.json'')
      | Some raw \<Rightarrow> (case page_json raw of None \<Rightarrow> Inl FixtureParse | Some page \<Rightarrow> Inr page))"

definition Fixture_SearchVacancies :: "(string \<Rightarrow> string option) \<Rightarrow> (string \<Rightarrow> SearchPage option) \<Rightarrow> FixtureSource
    \<Rightarrow> SearchQuery \<Rightarrow> fixture_error + SearchPage" where
  "Fixture_SearchVacancies readFile page_json f q =
     (case fixture_page readFile page_json f of
        Inl e \<Rightarrow> Inl e
      | Inr page \<Rightarrow>
          if q_Page q > 0 then Inr (page\<lparr>pg_Page := q_Page q, pg_Items := []\<rparr>)
          else Inr (page\<lparr>pg_Page := 0\<rparr>))"

text \<open>A literal with its double quotes written as tildes.\<close>

definition dq :: "string \<Rightarrow> string" where
  "dq s = map (\<lambda>c. if c = CHR ''~'' then CHR 0x22 else c) s"

definition detailFromSearch :: "(string \<Rightarrow> string option) \<Rightarrow> (string \<Rightarrow> SearchPage option) \<Rightarrow> (string \<Rightarrow> string)
    \<Rightarrow> FixtureSource \<Rightarrow> string \<Rightarrow> fixture_error + string" where
  "detailFromSearch readFile page_json quote f vid =
     (case fixture_page readFile page_json f of
        Inl e \<Rightarrow> Inl e
      | Inr page \<Rightarrow>
          (case find (\<lambda>it. it_ID it = vid) (pg_Items page) of
             None \<Rightarrow> Inl (FixtureNotFound vid)
           | Some it \<Rightarrow>
               Inr (dq ''{~id~:'' @ quote (it_ID it) @ dq '',~name~:'' @ quote (it_Name it)
                 @ dq '',~area~:{~id~:~0~,~name~:~Unknown~},~salary~:null,~employer~:{~id~:~0~,~name~:~Unknown~},''
                 @ dq ''~published_at~:~2026-08-10T10:00:00+0300~,~archived~:false,~key_skills~:[],''
                 @ dq ''~professional_roles~:[],~description~:~~}'')))"

definition Fixture_GetVacancyRaw :: "(string \<Rightarrow> string option) \<Rightarrow> (string \<Rightarrow> SearchPage option) \<Rightarrow> (string \<Rightarrow> string)
    \<Rightarrow> FixtureSource \<Rightarrow> string \<Rightarrow> fixture_error + string" where
  "Fixture_GetVacancyRaw readFile page_json quote f vid =
     (let name = (case fs_DetailByID f of None \<Rightarrow> '''' | Some m \<Rightarrow> (case m vid of None \<Rightarrow> '''' | Some n \<Rightarrow> n)) in
      if name = '''' then detailFromSearch readFile page_json quote f vid
      else (case readFile (fs_Dir f @ ''/'' @ name) of None \<Rightarrow> Inl (FixtureRead name) | Some raw \<Rightarrow> Inr raw))"

section \<open>Lemmas\<close>

lemma length_trim_by: "length (trim_by P xs) \<le> length xs"
proof -
  obtain ys zs where "xs = ys @ trim_by P xs @ zs" using trim_by_split by blast
  then show ?thesis by (metis length_append trans_le_add1 trans_le_add2 le_refl)
qed

lemma length_runes_TrimSpace: "length (runes (TrimSpace s)) \<le> length (runes s)"
  by (simp add: runes_def chunks_TrimSpace length_trim_by)

lemma with_sel [simp]:
  "d_Source (with_area a d) = d_Source d" "d_ExternalID (with_area a d) = d_ExternalID d"
  "d_Title (with_area a d) = d_Title d" "d_SourceURL (with_area a d) = d_SourceURL d"
  "d_CollectedAt (with_area a d) = d_CollectedAt d" "d_PublishedAt (with_area a d) = d_PublishedAt d"
  "d_DescriptionText (with_area a d) = d_DescriptionText d"
  "d_Source (with_salary s d) = d_Source d" "d_ExternalID (with_salary s d) = d_ExternalID d"
  "d_Title (with_salary s d) = d_Title d" "d_SourceURL (with_salary s d) = d_SourceURL d"
  "d_CollectedAt (with_salary s d) = d_CollectedAt d" "d_PublishedAt (with_salary s d) = d_PublishedAt d"
  "d_DescriptionText (with_salary s d) = d_DescriptionText d"
  by (simp_all add: with_area_def with_salary_def split: option.splits)

lemma fill_detail_sel [simp]:
  "d_Source (fill_detail v d) = d_Source d" "d_ExternalID (fill_detail v d) = d_ExternalID d"
  "d_Title (fill_detail v d) = d_Title d" "d_SourceURL (fill_detail v d) = d_SourceURL d"
  "d_ProfessionalRoleIDs (fill_detail v d) = non_empty (map n_ID (vp_ProfessionalRoles v))"
  "d_DescriptionText (fill_detail v d) = d_DescriptionText d"
  by (simp_all add: fill_detail_def Let_def split: option.splits)

lemma with_url_Inr: "with_url env raw d = Inr d' \<Longrightarrow> \<exists>u. d' = d\<lparr>d_SourceURL := u\<rparr>
    \<and> (u = d_SourceURL d \<or> ValidateSourceURL env raw = Inr u)"
  by (auto simp: with_url_def split: if_splits sum.splits intro: exI [of _ "d_SourceURL d"])

text \<open>Both ways out of the cleaning: the full text, or a cut of it.\<close>

lemma sanitize_cases:
  assumes "0 < m"
  obtains full where "SanitizeDescription unescape s 0 = (full, False)" "TrimSpace full = full"
    "SanitizeDescription unescape s m = (if int (length (runes full)) > m
      then (TrimSpace (encode (take (nat m) (runes full))), True) else (full, False))"
proof (cases "s = ''''")
  case True
  with assms that [of "''''"] show ?thesis by (simp add: SanitizeDescription_def runes_def TrimSpace_def)
next
  case False
  then show ?thesis
    using assms that [of "fst (SanitizeDescription unescape s 0)"] by (simp add: SanitizeDescription_def Let_def)
qed

lemma sanitize_cut: "int (length (runes (TrimSpace (encode (take (nat m) (runes full)))))) \<le> m" if "0 < m"
proof -
  have "\<forall>r \<in> set (take (nat m) (runes full)). valid_rune r" by (auto dest: in_set_takeD runes_valid)
  then have "runes (encode (take (nat m) (runes full))) = take (nat m) (runes full)" by (rule runes_encode)
  then show ?thesis
    using length_runes_TrimSpace [of "encode (take (nat m) (runes full))"] that by auto
qed

lemma detail_description_bound: "length (runes (d_DescriptionText (detail_draft env raw v t))) \<le> MaxDescriptionRunes"
proof -
  have m: "0 < int MaxDescriptionRunes" by (simp add: MaxDescriptionRunes_def)
  obtain full where "SanitizeDescription (pe_unescape env) (vp_Description v) (int MaxDescriptionRunes)
      = (if int (length (runes full)) > int MaxDescriptionRunes
         then (TrimSpace (encode (take (nat (int MaxDescriptionRunes)) (runes full))), True) else (full, False))"
    using m by (rule sanitize_cases)
  with sanitize_cut [OF m, of full] show ?thesis by (simp add: detail_draft_def split: if_splits)
qed

section \<open>Properties\<close>

text \<open>
  A description becomes bounded plain text: never more runes than allowed, no space at
  either end, and the truncation flag is set exactly when the cleaned text was longer.
\<close>

theorem SanitizeDescription_bounded:
  assumes "0 < m" "SanitizeDescription unescape s m = (out, truncated)"
  shows "int (length (runes out)) \<le> m \<and> TrimSpace out = out
    \<and> (truncated \<longrightarrow> (\<exists>full. SanitizeDescription unescape s 0 = (full, False) \<and> m < int (length (runes full))))"
proof -
  obtain full where "SanitizeDescription unescape s 0 = (full, False)" "TrimSpace full = full"
    "SanitizeDescription unescape s m = (if int (length (runes full)) > m
      then (TrimSpace (encode (take (nat m) (runes full))), True) else (full, False))"
    using assms(1) by (rule sanitize_cases)
  with assms sanitize_cut [of m full] show ?thesis by (auto split: if_splits)
qed

theorem SanitizeDescription_bounded_witness:
  "SanitizeDescription id ''<p>go'' 1 = (''g'', True) \<and> TrimSpace ''g'' = ''g''"
proof -
  have "SanitizeDescription id ''<p>go'' 1 = (''g'', True)"
    by (simp add: SanitizeDescription_def ReplaceAllMatches_def replace_matched.simps reScriptStyle_def reBreaks_def
        reTags_def reSpaces_def lit_def ci_eq_def tag_end_def heading_def re_space_def nbsp_def bytes_simps)
  with SanitizeDescription_bounded [of 1 id "''<p>go''" "''g''" True] show ?thesis by simp
qed

text \<open>
  The URL policy: an accepted source URL has no control characters, is http or https
  without user information, and its host is hh.ru or below it.
\<close>

theorem ValidateSourceURL_policy:
  assumes "ValidateSourceURL env raw = Inr u"
  shows "\<exists>parsed. pe_url env raw = Some parsed \<and> u = u_String parsed \<and> \<not> u_HasUser parsed
    \<and> u_Scheme parsed \<in> {''http'', ''https''}
    \<and> (ToLower (u_Hostname parsed) = ''hh.ru'' \<or> HasSuffix (ToLower (u_Hostname parsed)) ''.hh.ru'')
    \<and> set raw \<inter> {CHR 0x00, CHR 0x0D, CHR 0x0A, CHR 0x09} = {}"
proof -
  have "set raw \<inter> {CHR 0x00, CHR 0x0D, CHR 0x0A, CHR 0x09} = {}"
    using assms by (auto simp: ValidateSourceURL_def ContainsAny_def list_ex_iff split: if_splits)
  then show ?thesis
    using assms by (auto simp: ValidateSourceURL_def Let_def split: if_splits option.splits)
qed

definition hh_env :: ParseEnv where
  "hh_env = \<lparr>pe_detail_json = (\<lambda>raw. Some \<lparr>vp_ID = ''1'', vp_Name = ''Go'', vp_AlternateURL = '''', vp_Area = None,
       vp_Salary = None, vp_Employer = None, vp_KeySkills = [], vp_ProfessionalRoles = [\<lparr>n_ID = ''96'', n_Name = ''''\<rparr>],
       vp_Schedule = None, vp_WorkFormat = [], vp_Description = '''', vp_PublishedAt = '''', vp_Archived = False\<rparr>),
     pe_url = (\<lambda>s. Some \<lparr>u_Scheme = ''https'', u_HasUser = False, u_Hostname = ''hh.ru'', u_String = s\<rparr>),
     pe_time = (\<lambda>l s. Some Day), pe_unescape = id\<rparr>"

theorem ValidateSourceURL_policy_witness:
  "ValidateSourceURL hh_env ''https://hh.ru/vacancy/1'' = Inr ''https://hh.ru/vacancy/1''
   \<and> (\<exists>parsed. pe_url hh_env ''https://hh.ru/vacancy/1'' = Some parsed \<and> \<not> u_HasUser parsed)"
proof -
  have "ValidateSourceURL hh_env ''https://hh.ru/vacancy/1'' = Inr ''https://hh.ru/vacancy/1''"
    by (simp add: ValidateSourceURL_def hh_env_def bytes_simps)
  with ValidateSourceURL_policy [OF this] show ?thesis by blast
qed

text \<open>
  The adapter feeds the normaliser: every draft it builds, from a search item or from a
  detail, names its source and carries the id and the title of the payload, so normalising it
  cannot fail, and its description is within the bound.
\<close>

theorem adapter_feeds_normalizer:
  assumes "DraftFromDetail env raw t = Inr d \<or> DraftFromSearch env item t = Inr d"
  shows "d_Source d = SourceCode \<and> d_ExternalID d \<noteq> '''' \<and> (\<exists>r. Normalize sha d opts = Inr r)
    \<and> length (runes (d_DescriptionText d)) \<le> MaxDescriptionRunes"
proof -
  have url: "d_Source d' = d_Source d0 \<and> d_ExternalID d' = d_ExternalID d0 \<and> d_Title d' = d_Title d0
      \<and> d_DescriptionText d' = d_DescriptionText d0" if "with_url env x d0 = Inr d'" for x d0 d'
    using with_url_Inr [OF that] by auto
  have src: "SourceCode \<noteq> ''''" by (simp add: SourceCode_def)
  have "d_Source d = SourceCode \<and> d_ExternalID d \<noteq> '''' \<and> d_Title d \<noteq> ''''
      \<and> length (runes (d_DescriptionText d)) \<le> MaxDescriptionRunes"
    using assms
  proof
    assume "DraftFromDetail env raw t = Inr d"
    then obtain v d1 where v: "vp_ID v \<noteq> ''''" "vp_Name v \<noteq> ''''"
      and d1: "with_url env (vp_AlternateURL v) (detail_draft env raw v t) = Inr d1"
      and d: "d_Source d = d_Source d1" "d_ExternalID d = d_ExternalID d1" "d_Title d = d_Title d1"
        "d_DescriptionText d = d_DescriptionText d1"
      by (auto simp: DraftFromDetail_def Let_def split: option.splits if_splits sum.splits)
    have "d_Source (detail_draft env raw v t) = SourceCode" "d_ExternalID (detail_draft env raw v t) = vp_ID v"
      "d_Title (detail_draft env raw v t) = vp_Name v"
      by (simp_all add: detail_draft_def split: prod.split)
    with url [OF d1] v d detail_description_bound [of env raw v t] show ?thesis by simp
  next
    assume "DraftFromSearch env item t = Inr d"
    then show ?thesis
      by (auto simp: DraftFromSearch_def empty_draft_def runes_def dest!: url split: if_splits sum.splits)
  qed
  with src show ?thesis by (simp add: Normalize_def Let_def)
qed

theorem adapter_feeds_normalizer_witness:
  "\<exists>d. DraftFromDetail hh_env ''{}'' Day = Inr d \<and> (\<exists>r. Normalize id d DefaultOptions = Inr r)"
proof -
  obtain d where "DraftFromDetail hh_env ''{}'' Day = Inr d"
    by (simp add: DraftFromDetail_def hh_env_def with_url_def Let_def)
  with adapter_feeds_normalizer [of hh_env "''{}''" Day d undefined id DefaultOptions] show ?thesis by blast
qed

end
