(* ===== verification/Checkpoint.thy ===== *)
theory Checkpoint
  imports Go_Text
begin

text \<open>
  The pure part of the ingest checkpoint, \<^verbatim>\<open>apps/ingest/internal/checkpoint/scope.go\<close>: the
  scope a checkpoint belongs to, the cursor, and the decision after a page. SHA-256 is the
  argument \<open>sha\<close>.
\<close>

definition scope_parts :: "string \<Rightarrow> string \<Rightarrow> string \<Rightarrow> string \<Rightarrow> int \<Rightarrow> string list \<Rightarrow> string list" where
  "scope_parts source mode area text perPage extra =
     [ToLower (TrimSpace source), ToLower (TrimSpace mode), TrimSpace area, ToLower (TrimSpace text), Itoa perPage]
       @ map (\<lambda>value. ToLower (TrimSpace value)) extra"

definition ScopeHash :: "(string \<Rightarrow> string) \<Rightarrow> string \<Rightarrow> string \<Rightarrow> string \<Rightarrow> string \<Rightarrow> int \<Rightarrow> string list \<Rightarrow> string" where
  "ScopeHash sha source mode area text perPage extra = sha (Join (scope_parts source mode area text perPage extra) ''|'')"

datatype cursor_error = CursorSyntax | CursorNegative

definition ParseCursorPage :: "string \<Rightarrow> cursor_error + int" where
  "ParseCursorPage cursor0 =
     (let cursor = TrimSpace cursor0 in
      if cursor = '''' then Inr 0
      else (case Atoi cursor of
          None \<Rightarrow> Inl CursorSyntax
        | Some n \<Rightarrow> if n < 0 then Inl CursorNegative else Inr n))"

definition FormatCursor :: "int \<Rightarrow> string" where
  "FormatCursor page = Itoa page"

record PageOutcome =
  po_AllOK :: bool
  po_CurrentPage :: int
  po_TotalPages :: int
  po_ItemCount :: int

record CursorDecision =
  de_Advance :: bool
  de_NextCursor :: string
  de_Terminal :: bool
  de_TerminalReason :: string

definition Decide :: "PageOutcome \<Rightarrow> CursorDecision" where
  "Decide po =
     (if \<not> po_AllOK po then \<lparr>de_Advance = False, de_NextCursor = '''', de_Terminal = False, de_TerminalReason = ''''\<rparr>
      else if po_ItemCount po = 0 then
        \<lparr>de_Advance = True, de_NextCursor = FormatCursor 0, de_Terminal = True, de_TerminalReason = ''empty_page''\<rparr>
      else let next = wrap64 (po_CurrentPage po + 1) in
        if po_TotalPages po > 0 \<and> next \<ge> po_TotalPages po then
          \<lparr>de_Advance = True, de_NextCursor = FormatCursor 0, de_Terminal = True, de_TerminalReason = ''last_page''\<rparr>
        else \<lparr>de_Advance = True, de_NextCursor = FormatCursor next, de_Terminal = False, de_TerminalReason = ''''\<rparr>)"

section \<open>Lemmas\<close>

lemma Itoa_nonempty [simp]: "Itoa n \<noteq> ''''"
  by (simp add: Itoa_def)

lemma ParseCursorPage_FormatCursor:
  "0 \<le> n \<Longrightarrow> n \<le> max_int \<Longrightarrow> ParseCursorPage (FormatCursor n) = Inr n"
  by (simp add: ParseCursorPage_def FormatCursor_def TrimSpace_Itoa Atoi_Itoa int64_range_def min_int_def)

lemma Atoi_range: "Atoi s = Some n \<Longrightarrow> int64_range n"
  by (auto simp: Atoi_def Let_def split: if_splits option.splits)

lemma ParseCursorPage_range: "ParseCursorPage c = Inr n \<Longrightarrow> 0 \<le> n \<and> n \<le> max_int"
  by (auto simp: ParseCursorPage_def Let_def max_int_def int64_range_def dest: Atoi_range
      split: if_splits option.splits)

text \<open>Where the cursor leads after a page that went well.\<close>

definition next_page :: "int \<Rightarrow> int \<Rightarrow> int \<Rightarrow> int" where
  "next_page current pages items =
     (if items = 0 \<or> 0 < pages \<and> pages \<le> current + 1 then 0 else current + 1)"

lemma Decide_next:
  assumes "po_AllOK o'" "0 \<le> po_CurrentPage o'" "po_CurrentPage o' < max_int"
  shows "ParseCursorPage (de_NextCursor (Decide o')) = Inr (next_page (po_CurrentPage o') (po_TotalPages o') (po_ItemCount o'))"
    "de_Terminal (Decide o') \<longleftrightarrow> next_page (po_CurrentPage o') (po_TotalPages o') (po_ItemCount o') = 0"
proof -
  have w: "wrap64 (po_CurrentPage o' + 1) = po_CurrentPage o' + 1"
    using assms by (intro wrap64_id) (simp add: int64_range_def max_int_def min_int_def)
  show "ParseCursorPage (de_NextCursor (Decide o')) = Inr (next_page (po_CurrentPage o') (po_TotalPages o') (po_ItemCount o'))"
    "de_Terminal (Decide o') \<longleftrightarrow> next_page (po_CurrentPage o') (po_TotalPages o') (po_ItemCount o') = 0"
    using assms by (auto simp: Decide_def Let_def next_page_def w ParseCursorPage_FormatCursor max_int_def)
qed

section \<open>Properties\<close>

text \<open>
  The cursor: every page index in range survives writing and reading, and a cursor that
  is read at all is a page index in range.
\<close>

theorem cursor_round_trip:
  "(0 \<le> n \<and> n \<le> max_int \<longrightarrow> ParseCursorPage (FormatCursor n) = Inr n)
   \<and> (ParseCursorPage c = Inr m \<longrightarrow> 0 \<le> m \<and> m \<le> max_int)"
  using ParseCursorPage_FormatCursor ParseCursorPage_range by blast

theorem cursor_round_trip_witness: "ParseCursorPage (FormatCursor 17) = Inr 17"
  using cursor_round_trip [of 17] by (simp add: max_int_def)

text \<open>
  The decision after a page: a page that failed never moves the cursor; a page that went
  well moves it to the next page, and back to the first page exactly when the page was empty or
  the last one, which is also exactly when the run is over.
\<close>

theorem Decide_exact:
  assumes "0 \<le> po_CurrentPage o'" "po_CurrentPage o' < max_int"
  shows "(de_Advance (Decide o') \<longleftrightarrow> po_AllOK o')
    \<and> (de_Terminal (Decide o') \<longleftrightarrow> po_AllOK o' \<and> (po_ItemCount o' = 0 \<or>
          0 < po_TotalPages o' \<and> po_TotalPages o' \<le> po_CurrentPage o' + 1))
    \<and> (po_AllOK o' \<longrightarrow> ParseCursorPage (de_NextCursor (Decide o'))
          = Inr (if de_Terminal (Decide o') then 0 else po_CurrentPage o' + 1))"
proof (cases "po_AllOK o'")
  case True
  from Decide_next [OF this assms] True assms show ?thesis
    by (auto simp: next_page_def Decide_def Let_def split: if_splits)
qed (simp add: Decide_def)

theorem Decide_exact_witness:
  "ParseCursorPage (de_NextCursor (Decide \<lparr>po_AllOK = True, po_CurrentPage = 2, po_TotalPages = 5, po_ItemCount = 100\<rparr>)) = Inr 3"
  using Decide_exact [of "\<lparr>po_AllOK = True, po_CurrentPage = 2, po_TotalPages = 5, po_ItemCount = 100\<rparr>"]
  by (simp add: max_int_def)

text \<open>
  The scope of a checkpoint ignores surrounding space everywhere and letter case in all
  but the area, and distinguishes everything else: with parts free of the separator, equal
  texts mean equal normalised parameters, the page size included.
\<close>

theorem scope_identity:
  assumes "list_all (\<lambda>x. CHR ''|'' \<notin> set x) (scope_parts s m a t n xs @ scope_parts s' m' a' t' n' xs')"
  shows "(Join (scope_parts s m a t n xs) ''|'' = Join (scope_parts s' m' a' t' n' xs') ''|'' \<longleftrightarrow>
      scope_parts s m a t n xs = scope_parts s' m' a' t' n' xs')
    \<and> ScopeHash sha (ToLower (TrimSpace s)) (ToLower (TrimSpace m)) (TrimSpace a) (ToLower (TrimSpace t)) n xs
       = ScopeHash sha s m a t n xs"
proof
  have "Split (Join ps ''|'') CHR ''|'' = ps" if "ps \<noteq> []" "list_all (\<lambda>x. CHR ''|'' \<notin> set x) ps" for ps
    using that by (simp add: Split_Join list_all_iff)
  moreover have "scope_parts s m a t n xs \<noteq> []" "scope_parts s' m' a' t' n' xs' \<noteq> []"
    by (simp_all add: scope_parts_def)
  ultimately show "Join (scope_parts s m a t n xs) ''|'' = Join (scope_parts s' m' a' t' n' xs') ''|'' \<longleftrightarrow>
      scope_parts s m a t n xs = scope_parts s' m' a' t' n' xs'"
    using assms unfolding list_all_append by metis
  show "ScopeHash sha (ToLower (TrimSpace s)) (ToLower (TrimSpace m)) (TrimSpace a) (ToLower (TrimSpace t)) n xs
       = ScopeHash sha s m a t n xs"
    by (simp add: ScopeHash_def scope_parts_def TrimSpace_ToLower)
qed

theorem scope_identity_witness:
  "list_all (\<lambda>x. CHR ''|'' \<notin> set x) (scope_parts ''HH'' ''full'' ''113'' ''go'' 100 [])
   \<and> Join (scope_parts ''HH'' ''full'' ''113'' ''go'' 100 []) ''|'' \<noteq> Join (scope_parts ''hh'' ''full'' ''113'' ''go'' 50 []) ''|''"
  using scope_identity [of "''HH''" "''full''" "''113''" "''go''" 100 "[]" "''hh''" "''full''" "''113''" "''go''" 50 "[]" id]
  by (simp add: scope_parts_def bytes_simps)

end
