(* ===== verification/Mem_Store.thy ===== *)
theory Mem_Store
  imports Normalize "HOL-Library.AList"
begin

text \<open>
  The persistence interface of the ingest service, \<^verbatim>\<open>apps/ingest/internal/store/store.go\<close>, and
  its in-memory implementation \<^verbatim>\<open>mem.go\<close>. An interface is a record of operations on a state
  of type \<open>'s\<close>; the laws its clients rely on are the locale \<open>checkpoint_store\<close>, interpreted on
  the memory store. A Go map that the code only indexes is a partial map; one that it ranges over or
  measures is a list of entries, and the loops treat the entries one by one. The mutex makes
  each operation atomic, which a function on the state already is.
\<close>

section \<open>Data\<close>

definition StatusQueued :: string where "StatusQueued = ''queued''"
definition StatusRunning :: string where "StatusRunning = ''running''"
definition StatusSuccess :: string where "StatusSuccess = ''success''"
definition StatusPartial :: string where "StatusPartial = ''partial''"
definition StatusFailed :: string where "StatusFailed = ''failed''"

lemmas run_status = StatusQueued_def StatusRunning_def StatusSuccess_def StatusPartial_def StatusFailed_def

record Stats =
  sx_Fetched :: int
  sx_Upserted :: int
  sx_Unchanged :: int
  sx_Excluded :: int
  sx_Errors :: int
  sx_Pages :: int

definition no_stats :: Stats where
  "no_stats = \<lparr>sx_Fetched = 0, sx_Upserted = 0, sx_Unchanged = 0, sx_Excluded = 0, sx_Errors = 0, sx_Pages = 0\<rparr>"

datatype param_value = AnyString string | AnyInt int

record IngestRun =
  rn_ID :: string
  rn_Source :: string
  rn_Mode :: string
  rn_Status :: string
  rn_Params :: "(string \<times> param_value) list"
  rn_RequestedBy :: string
  rn_StartedAt :: "time option"
  rn_FinishedAt :: "time option"
  rn_Stats :: "(string \<times> param_value) list"
  rn_ErrorMsg :: string

record VacancyWrite =
  vw_Vacancy :: CanonicalVacancy
  vw_RegionName :: string
  vw_RawPayload :: string
  vw_ScopeRoleIDs :: "string list"

record SourceRole =
  sr_ExternalID :: string
  sr_Title :: string
  sr_Family :: string
  sr_Scopes :: "string list"

record Cycle =
  cy_ID :: string
  cy_Source :: string
  cy_Scope :: string
  cy_ScopeHash :: string
  cy_CycleEnd :: time
  cy_PartitionCount :: int
  cy_CompletedPartitions :: int
  cy_Status :: string
  cy_CycleDate :: time
  cy_CutoffAt :: time
  cy_ExpectedPages :: int
  cy_CompletedPages :: int
  cy_MethodVersion :: string

definition no_cycle :: Cycle where
  "no_cycle = \<lparr>cy_ID = '''', cy_Source = '''', cy_Scope = '''', cy_ScopeHash = '''', cy_CycleEnd = 0,
     cy_PartitionCount = 0, cy_CompletedPartitions = 0, cy_Status = '''', cy_CycleDate = 0, cy_CutoffAt = 0,
     cy_ExpectedPages = 0, cy_CompletedPages = 0, cy_MethodVersion = ''''\<rparr>"

record DiscoveryPartition =
  dp_Key :: string
  dp_ProfessionalRoleID :: string
  dp_Area :: string
  dp_DateFrom :: time
  dp_DateTo :: time
  dp_ExpectedPages :: int
  dp_NextPage :: int
  dp_Status :: string

record DiscoveryObservation =
  ob_ExternalID :: string
  ob_PublishedAt :: time
  ob_ExternalRegionID :: string
  ob_ExternalRegionName :: string
  ob_PrimaryRoleExternalID :: string
  ob_RoleGroup :: string
  ob_ExternalRoleIDs :: "string list"
  ob_SalaryFrom :: "float64 option"
  ob_SalaryTo :: "float64 option"
  ob_SalaryCurrency :: string
  ob_SalaryGross :: "bool option"
  ob_SalaryMidRubNet :: "float64 option"
  ob_SalaryEligible :: bool
  ob_ObservedAt :: time

record StatusReconciliation =
  rc_Reactivated :: int
  rc_Deactivated :: int
  rc_StillActive :: int

record RunError =
  re_RunID :: string
  re_ExternalID :: string
  re_Stage :: string
  re_Message :: string

datatype store_error =
    RunExists string
  | RunNotFound string
  | CycleNotFound string
  | CycleIncomplete int int
  | DiscoveryIncomplete
  | DiscoveryNotComplete
  | StoreFailure string

section \<open>Interfaces\<close>

record 's Store =
  st_CreateRun :: "'s \<Rightarrow> IngestRun \<Rightarrow> 's \<times> store_error option"
  st_FinishRun :: "'s \<Rightarrow> string \<Rightarrow> string \<Rightarrow> Stats \<Rightarrow> string \<Rightarrow> 's \<times> store_error option"
  st_RecordError :: "'s \<Rightarrow> string \<Rightarrow> string \<Rightarrow> string \<Rightarrow> string \<Rightarrow> 's \<times> store_error option"
  st_MarkVacancyInactive :: "'s \<Rightarrow> string \<Rightarrow> string \<Rightarrow> string \<Rightarrow> 's \<times> store_error option"
  st_GetCheckpoint :: "'s \<Rightarrow> string \<Rightarrow> string \<Rightarrow> store_error + string option"
  st_StartCycle :: "'s \<Rightarrow> Cycle \<Rightarrow> 's \<times> (store_error + string)"
  st_UpdateCycleProgress :: "'s \<Rightarrow> string \<Rightarrow> int \<Rightarrow> 's \<times> store_error option"
  st_CompleteCycle :: "'s \<Rightarrow> string \<Rightarrow> int \<Rightarrow> 's \<times> store_error option"
  st_SyncRoles :: "'s \<Rightarrow> string \<Rightarrow> SourceRole list \<Rightarrow> 's \<times> (store_error + (string \<rightharpoonup> string))"
  st_SavePage :: "'s \<Rightarrow> string \<Rightarrow> string \<Rightarrow> string \<Rightarrow> VacancyWrite list \<Rightarrow> 's \<times> (store_error + int \<times> int)"

record 's DiscoveryStore =
  ds_PendingDiscoveryCycle :: "'s \<Rightarrow> string \<Rightarrow> string \<Rightarrow> store_error + Cycle option"
  ds_StartDiscoveryCycle :: "'s \<Rightarrow> Cycle \<Rightarrow> DiscoveryPartition list \<Rightarrow> 's \<times> (store_error + string)"
  ds_NextDiscoveryPartition :: "'s \<Rightarrow> string \<Rightarrow> store_error + DiscoveryPartition option"
  ds_SetDiscoveryExpectedPages :: "'s \<Rightarrow> string \<Rightarrow> string \<Rightarrow> int \<Rightarrow> 's \<times> store_error option"
  ds_SaveDiscoveryPage :: "'s \<Rightarrow> string \<Rightarrow> DiscoveryPartition \<Rightarrow> DiscoveryObservation list \<Rightarrow> 's \<times> store_error option"
  ds_CompleteDiscoveryCycle :: "'s \<Rightarrow> string \<Rightarrow> 's \<times> store_error option"
  ds_ReconcileDiscoveryStatuses :: "'s \<Rightarrow> string \<Rightarrow> 's \<times> (store_error + StatusReconciliation)"
  ds_FailDiscoveryCycle :: "'s \<Rightarrow> string \<Rightarrow> 's \<times> store_error option"

section \<open>The memory store\<close>

record Memory =
  mm_Runs :: "string \<rightharpoonup> IngestRun"
  mm_Checkpoints :: "string \<rightharpoonup> string"
  mm_Vacancies :: "(string \<times> VacancyWrite) list"
  mm_Cycles :: "(string \<times> Cycle) list"
  mm_DiscoveryPartitions :: "string \<rightharpoonup> DiscoveryPartition list"
  mm_Observations :: "(string \<times> DiscoveryObservation) list"
  mm_Errors :: "RunError list"

definition NewMemory :: Memory where
  "NewMemory = \<lparr>mm_Runs = Map.empty, mm_Checkpoints = Map.empty, mm_Vacancies = [], mm_Cycles = [],
     mm_DiscoveryPartitions = Map.empty, mm_Observations = [], mm_Errors = []\<rparr>"

definition LoadFXRates :: "Memory \<Rightarrow> time \<Rightarrow> time \<Rightarrow> RateTable" where
  "LoadFXRates m from to = Map.empty"

definition CreateRun :: "Memory \<Rightarrow> IngestRun \<Rightarrow> Memory \<times> store_error option" where
  "CreateRun m run =
     (if mm_Runs m (rn_ID run) \<noteq> None then (m, Some (RunExists (rn_ID run)))
      else (m\<lparr>mm_Runs := (mm_Runs m)(rn_ID run \<mapsto> run)\<rparr>, None))"

definition FinishRun :: "Memory \<Rightarrow> string \<Rightarrow> string \<Rightarrow> Stats \<Rightarrow> string \<Rightarrow> Memory \<times> store_error option" where
  "FinishRun m rid status stats errMsg =
     (case mm_Runs m rid of
        None \<Rightarrow> (m, Some (RunNotFound rid))
      | Some run \<Rightarrow>
          (m\<lparr>mm_Runs := (mm_Runs m)(rid \<mapsto> run\<lparr>rn_Status := status, rn_Stats :=
               [(''fetched'', AnyInt (sx_Fetched stats)), (''upserted'', AnyInt (sx_Upserted stats)),
                (''unchanged'', AnyInt (sx_Unchanged stats)), (''excluded_out_of_scope'', AnyInt (sx_Excluded stats)),
                (''errors'', AnyInt (sx_Errors stats)), (''pages'', AnyInt (sx_Pages stats))],
               rn_ErrorMsg := errMsg\<rparr>)\<rparr>, None))"

definition RecordError :: "Memory \<Rightarrow> string \<Rightarrow> string \<Rightarrow> string \<Rightarrow> string \<Rightarrow> Memory \<times> store_error option" where
  "RecordError m runID externalID stage message =
     (m\<lparr>mm_Errors := mm_Errors m @ [\<lparr>re_RunID = runID, re_ExternalID = externalID, re_Stage = stage,
        re_Message = message\<rparr>]\<rparr>, None)"

definition bar :: "string \<Rightarrow> string \<Rightarrow> string" where
  "bar a b = a @ ''|'' @ b"

definition GetCheckpoint :: "Memory \<Rightarrow> string \<Rightarrow> string \<Rightarrow> store_error + string option" where
  "GetCheckpoint m source scopeHash = Inr (mm_Checkpoints m (bar source scopeHash))"

definition cycle_id :: "char \<Rightarrow> int \<Rightarrow> string" where
  "cycle_id c n = c # ''0000000-0000-4000-8000-'' @ pad 12 n"

definition StartCycle :: "Memory \<Rightarrow> Cycle \<Rightarrow> Memory \<times> (store_error + string)" where
  "StartCycle m cycle =
     (case find (\<lambda>(i, existing). cy_Source existing = cy_Source cycle \<and> cy_ScopeHash existing = cy_ScopeHash cycle
             \<and> cy_CycleEnd existing = cy_CycleEnd cycle) (mm_Cycles m) of
        Some (i, existing) \<Rightarrow> (m, Inr i)
      | None \<Rightarrow>
          (let cid = cycle_id CHR ''0'' (int (length (mm_Cycles m)) + 1);
               cycle = cycle\<lparr>cy_ID := cid, cy_Status := ''running''\<rparr>
           in (m\<lparr>mm_Cycles := AList.update cid cycle (mm_Cycles m)\<rparr>, Inr cid)))"

definition UpdateCycleProgress :: "Memory \<Rightarrow> string \<Rightarrow> int \<Rightarrow> Memory \<times> store_error option" where
  "UpdateCycleProgress m cid completedPartitions =
     (case map_of (mm_Cycles m) cid of
        None \<Rightarrow> (m, Some (CycleNotFound cid))
      | Some cycle \<Rightarrow>
          (m\<lparr>mm_Cycles := AList.update cid (cycle\<lparr>cy_CompletedPartitions := completedPartitions\<rparr>) (mm_Cycles m)\<rparr>, None))"

definition CompleteCycle :: "Memory \<Rightarrow> string \<Rightarrow> int \<Rightarrow> Memory \<times> store_error option" where
  "CompleteCycle m cid completedPartitions =
     (case map_of (mm_Cycles m) cid of
        None \<Rightarrow> (m, Some (CycleNotFound cid))
      | Some cycle \<Rightarrow>
          if completedPartitions \<noteq> cy_PartitionCount cycle
          then (m, Some (CycleIncomplete completedPartitions (cy_PartitionCount cycle)))
          else (m\<lparr>mm_Cycles := AList.update cid (cycle\<lparr>cy_CompletedPartitions := completedPartitions,
                   cy_Status := ''complete''\<rparr>) (mm_Cycles m)\<rparr>, None))"

subsection \<open>Discovery\<close>

fun pending_loop :: "string \<Rightarrow> string \<Rightarrow> Cycle option \<Rightarrow> (string \<times> Cycle) list \<Rightarrow> Cycle option" where
  "pending_loop source methodVersion selected [] = selected"
| "pending_loop source methodVersion selected ((i, cycle) # entries) =
     (if cy_Source cycle \<noteq> source \<or> cy_Scope cycle \<noteq> ''daily_discovery'' \<or> cy_MethodVersion cycle \<noteq> methodVersion
         \<or> cy_Status cycle \<noteq> ''running''
      then pending_loop source methodVersion selected entries
      else (case selected of
          None \<Rightarrow> pending_loop source methodVersion (Some cycle) entries
        | Some s \<Rightarrow> if cy_CycleDate cycle < cy_CycleDate s then pending_loop source methodVersion (Some cycle) entries
                    else pending_loop source methodVersion selected entries))"

definition PendingDiscoveryCycle :: "Memory \<Rightarrow> string \<Rightarrow> string \<Rightarrow> store_error + Cycle option" where
  "PendingDiscoveryCycle m source methodVersion = Inr (pending_loop source methodVersion None (mm_Cycles m))"

definition StartDiscoveryCycle :: "Memory \<Rightarrow> Cycle \<Rightarrow> DiscoveryPartition list \<Rightarrow> Memory \<times> (store_error + string)" where
  "StartDiscoveryCycle m cycle partitions =
     (case find (\<lambda>(i, existing). cy_Source existing = cy_Source cycle \<and> cy_Scope existing = ''daily_discovery''
             \<and> cy_CycleDate existing = cy_CycleDate cycle \<and> cy_MethodVersion existing = cy_MethodVersion cycle)
           (mm_Cycles m) of
        Some (i, existing) \<Rightarrow> (m, Inr i)
      | None \<Rightarrow>
          (let cid = cycle_id CHR ''1'' (int (length (mm_Cycles m)) + 1);
               cycle = cycle\<lparr>cy_ID := cid, cy_Scope := ''daily_discovery'', cy_Status := ''running'',
                             cy_PartitionCount := int (length partitions)\<rparr>
           in (m\<lparr>mm_Cycles := AList.update cid cycle (mm_Cycles m),
                 mm_DiscoveryPartitions := (mm_DiscoveryPartitions m)(cid \<mapsto> partitions)\<rparr>, Inr cid)))"

text \<open>Reading an absent key of a Go map gives the zero value.\<close>

definition parts_of :: "Memory \<Rightarrow> string \<Rightarrow> DiscoveryPartition list" where
  "parts_of m cid = (case mm_DiscoveryPartitions m cid of None \<Rightarrow> [] | Some ps \<Rightarrow> ps)"

definition cycle_of :: "Memory \<Rightarrow> string \<Rightarrow> Cycle" where
  "cycle_of m cid = (case map_of (mm_Cycles m) cid of None \<Rightarrow> no_cycle | Some c \<Rightarrow> c)"

definition NextDiscoveryPartition :: "Memory \<Rightarrow> string \<Rightarrow> store_error + DiscoveryPartition option" where
  "NextDiscoveryPartition m cid = Inr (find (\<lambda>p. dp_Status p \<noteq> ''complete'') (parts_of m cid))"

text \<open>The loop of \<open>SetDiscoveryExpectedPages\<close> over the partitions, threading the cycle and
  whether it was written.\<close>

fun set_expected :: "string \<Rightarrow> int \<Rightarrow> DiscoveryPartition list \<Rightarrow> Cycle \<Rightarrow> DiscoveryPartition list \<times> Cycle \<times> bool" where
  "set_expected key n [] cycle = ([], cycle, False)"
| "set_expected key n (p # ps) cycle =
     (if dp_Key p \<noteq> key \<or> dp_NextPage p \<noteq> 0 then
        (case set_expected key n ps cycle of (ps', cycle', touched) \<Rightarrow> (p # ps', cycle', touched))
      else
        (let delta = n - dp_ExpectedPages p;
             finish = (n = 0 \<and> dp_Status p \<noteq> ''complete'');
             p' = p\<lparr>dp_ExpectedPages := n, dp_Status := if finish then ''complete'' else dp_Status p\<rparr>;
             cycle' = cycle\<lparr>cy_ExpectedPages := cy_ExpectedPages cycle + delta,
                            cy_CompletedPartitions := cy_CompletedPartitions cycle + (if finish then 1 else 0)\<rparr>
         in case set_expected key n ps cycle' of (ps', cycle'', touched) \<Rightarrow> (p' # ps', cycle'', True)))"

definition SetDiscoveryExpectedPages :: "Memory \<Rightarrow> string \<Rightarrow> string \<Rightarrow> int \<Rightarrow> Memory \<times> store_error option" where
  "SetDiscoveryExpectedPages m cid key n =
     (case set_expected key n (parts_of m cid) (cycle_of m cid) of (ps, cycle, touched) \<Rightarrow>
        (m\<lparr>mm_Cycles := if touched then AList.update cid cycle (mm_Cycles m) else mm_Cycles m,
           mm_DiscoveryPartitions := (mm_DiscoveryPartitions m)(cid \<mapsto> ps)\<rparr>, None))"

text \<open>The loop of \<open>SaveDiscoveryPage\<close> stops at the first partition with the key: \<open>None\<close> is the
  early return for a page that was saved before.\<close>

fun save_page_loop :: "DiscoveryPartition \<Rightarrow> DiscoveryPartition list \<Rightarrow> Cycle
    \<Rightarrow> (DiscoveryPartition list \<times> Cycle \<times> bool) option" where
  "save_page_loop part [] cycle = Some ([], cycle, False)"
| "save_page_loop part (p # ps) cycle =
     (if dp_Key p \<noteq> dp_Key part then
        (case save_page_loop part ps cycle of
           None \<Rightarrow> None | Some (ps', cycle', touched) \<Rightarrow> Some (p # ps', cycle', touched))
      else if dp_NextPage part < dp_NextPage p then None
      else
        (let next = dp_NextPage part + 1;
             finish = (next = dp_ExpectedPages p);
             p' = p\<lparr>dp_NextPage := next, dp_Status := if finish then ''complete'' else ''running''\<rparr>
         in Some (p' # ps, cycle\<lparr>cy_CompletedPartitions := cy_CompletedPartitions cycle + (if finish then 1 else 0),
                                 cy_CompletedPages := cy_CompletedPages cycle + 1\<rparr>, True)))"

definition SaveDiscoveryPage :: "Memory \<Rightarrow> string \<Rightarrow> DiscoveryPartition \<Rightarrow> DiscoveryObservation list
    \<Rightarrow> Memory \<times> store_error option" where
  "SaveDiscoveryPage m cid part observations =
     (case save_page_loop part (parts_of m cid) (cycle_of m cid) of
        None \<Rightarrow> (m, None)
      | Some (ps, cycle, touched) \<Rightarrow>
          (m\<lparr>mm_Cycles := if touched then AList.update cid cycle (mm_Cycles m) else mm_Cycles m,
             mm_DiscoveryPartitions := (mm_DiscoveryPartitions m)(cid \<mapsto> ps),
             mm_Observations := foldl (\<lambda>obs ob. AList.update (bar cid (ob_ExternalID ob)) ob obs)
               (mm_Observations m) observations\<rparr>, None))"

definition CompleteDiscoveryCycle :: "Memory \<Rightarrow> string \<Rightarrow> Memory \<times> store_error option" where
  "CompleteDiscoveryCycle m cid =
     (case map_of (mm_Cycles m) cid of
        None \<Rightarrow> (m, Some DiscoveryIncomplete)
      | Some cycle \<Rightarrow>
          if cy_CompletedPages cycle \<noteq> cy_ExpectedPages cycle \<or> cy_CompletedPartitions cycle \<noteq> cy_PartitionCount cycle
          then (m, Some DiscoveryIncomplete)
          else (m\<lparr>mm_Cycles := AList.update cid (cycle\<lparr>cy_Status := ''complete''\<rparr>) (mm_Cycles m)\<rparr>, None))"

definition see :: "string \<Rightarrow> (string \<rightharpoonup> time) \<Rightarrow> string \<times> DiscoveryObservation \<Rightarrow> (string \<rightharpoonup> time)" where
  "see cid seen entry =
     (case entry of (key, ob) \<Rightarrow>
        if length key \<le> length cid \<or> take (length cid) key \<noteq> cid \<or> key ! length cid \<noteq> CHR ''|'' then seen
        else if ob_ObservedAt ob > (case seen (ob_ExternalID ob) of None \<Rightarrow> 0 | Some t \<Rightarrow> t)
          then seen(ob_ExternalID ob \<mapsto> ob_ObservedAt ob) else seen)"

definition seen_in :: "Memory \<Rightarrow> string \<Rightarrow> string \<rightharpoonup> time" where
  "seen_in m cid = foldl (see cid) Map.empty (mm_Observations m)"

text \<open>The new state of one stored vacancy, and what it adds to the counters.\<close>

definition reconcile_item :: "(string \<rightharpoonup> time) \<Rightarrow> VacancyWrite \<Rightarrow> VacancyWrite" where
  "reconcile_item seen item =
     (let v = vw_Vacancy item in
      if v_Source v \<noteq> ''hh'' then item
      else (case seen (v_ExternalID v) of
          Some observed \<Rightarrow> item\<lparr>vw_Vacancy := v\<lparr>v_IsActive := True, v_CollectedAt := observed\<rparr>\<rparr>
        | None \<Rightarrow> if v_IsActive v then item\<lparr>vw_Vacancy := v\<lparr>v_IsActive := False\<rparr>\<rparr> else item))"

definition reconcile_count :: "(string \<rightharpoonup> time) \<Rightarrow> StatusReconciliation \<Rightarrow> VacancyWrite \<Rightarrow> StatusReconciliation" where
  "reconcile_count seen r item =
     (let v = vw_Vacancy item in
      if v_Source v \<noteq> ''hh'' then r
      else if seen (v_ExternalID v) \<noteq> None then
        (if v_IsActive v then r\<lparr>rc_StillActive := rc_StillActive r + 1\<rparr>
         else r\<lparr>rc_Reactivated := rc_Reactivated r + 1\<rparr>)
      else if v_IsActive v then r\<lparr>rc_Deactivated := rc_Deactivated r + 1\<rparr> else r)"

definition ReconcileDiscoveryStatuses :: "Memory \<Rightarrow> string \<Rightarrow> Memory \<times> (store_error + StatusReconciliation)" where
  "ReconcileDiscoveryStatuses m cid =
     (case map_of (mm_Cycles m) cid of
        None \<Rightarrow> (m, Inl DiscoveryNotComplete)
      | Some cycle \<Rightarrow>
          if cy_Scope cycle \<noteq> ''daily_discovery'' \<or> cy_Status cycle \<noteq> ''complete'' then (m, Inl DiscoveryNotComplete)
          else let seen = seen_in m cid in
            (m\<lparr>mm_Vacancies := map (\<lambda>(key, item). (key, reconcile_item seen item)) (mm_Vacancies m)\<rparr>,
             Inr (foldl (reconcile_count seen) \<lparr>rc_Reactivated = 0, rc_Deactivated = 0, rc_StillActive = 0\<rparr>
                    (map snd (mm_Vacancies m)))))"

definition FailDiscoveryCycle :: "Memory \<Rightarrow> string \<Rightarrow> Memory \<times> store_error option" where
  "FailDiscoveryCycle m cid =
     (m\<lparr>mm_Cycles := AList.update cid ((cycle_of m cid)\<lparr>cy_Status := ''failed''\<rparr>) (mm_Cycles m)\<rparr>, None)"

subsection \<open>Roles and pages\<close>

definition SyncRoles :: "Memory \<Rightarrow> string \<Rightarrow> SourceRole list \<Rightarrow> Memory \<times> (store_error + (string \<rightharpoonup> string))" where
  "SyncRoles m source roles =
     (m, Inr (foldl (\<lambda>r sr. r(sr_ExternalID sr \<mapsto> source @ ''-role-'' @ sr_ExternalID sr)) Map.empty roles))"

definition vacancy_key :: "VacancyWrite \<Rightarrow> string" where
  "vacancy_key item = bar (v_Source (vw_Vacancy item)) (v_ExternalID (vw_Vacancy item))"

definition save_item :: "(string \<times> VacancyWrite) list \<times> int \<times> int \<Rightarrow> VacancyWrite \<Rightarrow> (string \<times> VacancyWrite) list \<times> int \<times> int" where
  "save_item st item =
     (case st of (vs, upserted, unchanged) \<Rightarrow>
      let key = vacancy_key item in
      case map_of vs key of
        None \<Rightarrow> (AList.update key item vs, upserted + 1, unchanged)
      | Some prev \<Rightarrow>
          if v_ContentHash (vw_Vacancy prev) = v_ContentHash (vw_Vacancy item) then
            (AList.update key (prev\<lparr>vw_Vacancy := (vw_Vacancy prev)\<lparr>v_CollectedAt := v_CollectedAt (vw_Vacancy item)\<rparr>\<rparr>) vs,
             upserted, unchanged + 1)
          else (AList.update key item vs, upserted + 1, unchanged))"

definition SavePage :: "Memory \<Rightarrow> string \<Rightarrow> string \<Rightarrow> string \<Rightarrow> VacancyWrite list \<Rightarrow> Memory \<times> (store_error + int \<times> int)" where
  "SavePage m source scopeHash nextCursor items =
     (case foldl save_item (mm_Vacancies m, 0, 0) items of (vs, upserted, unchanged) \<Rightarrow>
        (m\<lparr>mm_Vacancies := vs, mm_Checkpoints := (mm_Checkpoints m)(bar source scopeHash \<mapsto> nextCursor)\<rparr>,
         Inr (upserted, unchanged)))"

definition MarkVacancyInactive :: "Memory \<Rightarrow> string \<Rightarrow> string \<Rightarrow> string \<Rightarrow> Memory \<times> store_error option" where
  "MarkVacancyInactive m source externalID reason =
     (m\<lparr>mm_Vacancies := map (\<lambda>(key, item).
          if v_Source (vw_Vacancy item) = source \<and> v_ExternalID (vw_Vacancy item) = externalID
          then (key, item\<lparr>vw_Vacancy := (vw_Vacancy item)\<lparr>v_IsActive := False\<rparr>\<rparr>) else (key, item)) (mm_Vacancies m)\<rparr>, None)"

definition memory_store :: "Memory Store" where
  "memory_store = \<lparr>st_CreateRun = CreateRun, st_FinishRun = FinishRun, st_RecordError = RecordError,
     st_MarkVacancyInactive = MarkVacancyInactive, st_GetCheckpoint = GetCheckpoint, st_StartCycle = StartCycle,
     st_UpdateCycleProgress = UpdateCycleProgress, st_CompleteCycle = CompleteCycle, st_SyncRoles = SyncRoles,
     st_SavePage = SavePage\<rparr>"

definition memory_discovery :: "Memory DiscoveryStore" where
  "memory_discovery = \<lparr>ds_PendingDiscoveryCycle = PendingDiscoveryCycle, ds_StartDiscoveryCycle = StartDiscoveryCycle,
     ds_NextDiscoveryPartition = NextDiscoveryPartition, ds_SetDiscoveryExpectedPages = SetDiscoveryExpectedPages,
     ds_SaveDiscoveryPage = SaveDiscoveryPage, ds_CompleteDiscoveryCycle = CompleteDiscoveryCycle,
     ds_ReconcileDiscoveryStatuses = ReconcileDiscoveryStatuses, ds_FailDiscoveryCycle = FailDiscoveryCycle\<rparr>"

section \<open>The contract of a store\<close>

text \<open>
  What a client of \<open>Store\<close> relies on: saving a page and moving the cursor is one transaction,
  it touches the cursor of its own scope only, every item is counted once, and no other
  operation moves a cursor.
\<close>

locale checkpoint_store =
  fixes st :: "'s Store"
  assumes save_read: "st_SavePage st s src scope cur items = (s', Inr r) \<Longrightarrow> st_GetCheckpoint st s' src scope = Inr (Some cur)"
    and save_frame: "st_SavePage st s src scope cur items = (s', res) \<Longrightarrow> scope' \<noteq> scope \<Longrightarrow>
      st_GetCheckpoint st s' src scope' = st_GetCheckpoint st s src scope'"
    and save_atomic: "st_SavePage st s src scope cur items = (s', Inl e) \<Longrightarrow>
      st_GetCheckpoint st s' src scope' = st_GetCheckpoint st s src scope'"
    and save_count: "st_SavePage st s src scope cur items = (s', Inr (up, un)) \<Longrightarrow>
      0 \<le> up \<and> 0 \<le> un \<and> up + un = int (length items)"
    and create_frame: "st_GetCheckpoint st (fst (st_CreateRun st s run)) src scope = st_GetCheckpoint st s src scope"
    and finish_frame: "st_GetCheckpoint st (fst (st_FinishRun st s rid status stats msg)) src scope = st_GetCheckpoint st s src scope"
    and record_frame: "st_GetCheckpoint st (fst (st_RecordError st s rid ext stage msg)) src scope = st_GetCheckpoint st s src scope"
    and inactive_frame: "st_GetCheckpoint st (fst (st_MarkVacancyInactive st s a b c)) src scope = st_GetCheckpoint st s src scope"
    and cycle_frame: "st_GetCheckpoint st (fst (st_StartCycle st s cycle)) src scope = st_GetCheckpoint st s src scope"
      "st_GetCheckpoint st (fst (st_UpdateCycleProgress st s cid n)) src scope = st_GetCheckpoint st s src scope"
      "st_GetCheckpoint st (fst (st_CompleteCycle st s cid n)) src scope = st_GetCheckpoint st s src scope"
      "st_GetCheckpoint st (fst (st_SyncRoles st s src' roles)) src scope = st_GetCheckpoint st s src scope"
begin

text \<open>A cursor that changed was written by a page that was saved.\<close>

lemma cursor_changed_saved:
  assumes "st_SavePage st s src scope cur items = (s', res)"
    "st_GetCheckpoint st s' src scope' \<noteq> st_GetCheckpoint st s src scope'"
  shows "scope' = scope \<and> (\<exists>r. res = Inr r) \<and> st_GetCheckpoint st s' src scope' = Inr (Some cur)"
proof (cases res)
  case (Inl e)
  with assms save_atomic show ?thesis by metis
next
  case (Inr r)
  with assms save_frame save_read show ?thesis by metis
qed

end

section \<open>Lemmas on the memory store\<close>

lemmas memory_ops = memory_store_def CreateRun_def FinishRun_def RecordError_def GetCheckpoint_def StartCycle_def
  UpdateCycleProgress_def CompleteCycle_def SyncRoles_def SavePage_def MarkVacancyInactive_def

lemma save_item_count: "save_item (vs, u, n) item = (vs', u', n') \<Longrightarrow> u \<le> u' \<and> n \<le> n' \<and> u' + n' = u + n + 1"
  by (auto simp: save_item_def Let_def split: option.splits if_splits)

lemma save_items_count:
  "foldl save_item (vs, u, n) items = (vs', u', n') \<Longrightarrow> u \<le> u' \<and> n \<le> n' \<and> u' + n' = u + n + int (length items)"
proof (induction items arbitrary: vs u n)
  case (Cons item items)
  obtain vs1 u1 n1 where s: "save_item (vs, u, n) item = (vs1, u1, n1)" by (metis surj_pair)
  with Cons have "u1 \<le> u' \<and> n1 \<le> n' \<and> u' + n' = u1 + n1 + int (length items)" by simp
  with save_item_count [OF s] show ?case by simp
qed simp

interpretation memory: checkpoint_store memory_store
proof
  show "0 \<le> up \<and> 0 \<le> un \<and> up + un = int (length items)"
    if "st_SavePage memory_store s src scope cur items = (s', Inr (up, un))" for s src scope cur items s' up un
    using that save_items_count [of "mm_Vacancies s" 0 0 items]
    by (auto simp: memory_store_def SavePage_def split: prod.splits)
qed (auto simp: memory_ops bar_def Let_def split: prod.splits option.splits if_splits)

text \<open>One item: the stored entry then has its hash and its collection time, others stay.\<close>

lemma save_item_entry:
  assumes "save_item (vs, u, n) item = (vs', u', n')"
  shows "\<exists>w. map_of vs' (vacancy_key item) = Some w
      \<and> v_ContentHash (vw_Vacancy w) = v_ContentHash (vw_Vacancy item)
      \<and> v_CollectedAt (vw_Vacancy w) = v_CollectedAt (vw_Vacancy item)"
    "k \<noteq> vacancy_key item \<Longrightarrow> map_of vs' k = map_of vs k"
  using assms by (auto simp: save_item_def Let_def update_conv' split: option.splits if_splits)

definition saved :: "(string \<times> VacancyWrite) list \<Rightarrow> VacancyWrite \<Rightarrow> bool" where
  "saved vs item \<longleftrightarrow> (\<exists>w. map_of vs (vacancy_key item) = Some w
     \<and> v_ContentHash (vw_Vacancy w) = v_ContentHash (vw_Vacancy item)
     \<and> v_CollectedAt (vw_Vacancy w) = v_CollectedAt (vw_Vacancy item))"

lemma save_items_entries:
  "foldl save_item (vs, u, n) items = (vs', u', n') \<Longrightarrow> distinct (map vacancy_key items) \<Longrightarrow>
    list_all (saved vs') items \<and> (\<forall>k. k \<notin> vacancy_key ` set items \<longrightarrow> map_of vs' k = map_of vs k)"
proof (induction items arbitrary: vs u n)
  case (Cons item items)
  obtain vs1 u1 n1 where s: "save_item (vs, u, n) item = (vs1, u1, n1)" by (metis surj_pair)
  with Cons have IH: "list_all (saved vs') items"
    "\<forall>k. k \<notin> vacancy_key ` set items \<longrightarrow> map_of vs' k = map_of vs1 k" by simp_all
  have "map_of vs' (vacancy_key item) = map_of vs1 (vacancy_key item)" using IH(2) Cons.prems(2) by simp
  with save_item_entry(1) [OF s] have "saved vs' item" by (simp add: saved_def)
  with save_item_entry(2) [OF s] IH show ?case by simp
qed simp

lemma save_item_again: "saved vs item \<Longrightarrow> \<exists>vs'. save_item (vs, u, n) item = (vs', u, n + 1) \<and> map_of vs' = map_of vs"
  by (auto simp: saved_def save_item_def Let_def update_conv' fun_eq_iff)

lemma save_items_again:
  "list_all (saved vs) items \<Longrightarrow> \<exists>vs'. foldl save_item (vs, u, n) items = (vs', u, n + int (length items)) \<and> map_of vs' = map_of vs"
proof (induction items arbitrary: vs n)
  case (Cons item items)
  then obtain vs1 where vs1: "save_item (vs, u, n) item = (vs1, u, n + 1)" "map_of vs1 = map_of vs"
    using save_item_again by fastforce
  then have "saved vs1 = saved vs" by (simp add: saved_def [abs_def])
  with Cons.prems have "list_all (saved vs1) items" by simp
  from Cons.IH [OF this, of "n + 1"] vs1 show ?case by (auto simp: algebra_simps)
qed simp

subsection \<open>A discovery cycle\<close>

text \<open>
  The book-keeping of a cycle: the counters of the cycle are the sums over its partitions, and a
  partition is complete exactly when its next page is the one past its last.
\<close>

definition complete :: "DiscoveryPartition \<Rightarrow> bool" where
  "complete p \<longleftrightarrow> dp_Status p = ''complete''"

definition part_ok :: "DiscoveryPartition \<Rightarrow> bool" where
  "part_ok p \<longleftrightarrow> 0 \<le> dp_NextPage p \<and> dp_NextPage p \<le> dp_ExpectedPages p \<and> (complete p \<longleftrightarrow> dp_NextPage p = dp_ExpectedPages p)"

definition completed :: "DiscoveryPartition list \<Rightarrow> int" where
  "completed ps = int (length (filter complete ps))"

definition expected_pages :: "DiscoveryPartition list \<Rightarrow> int" where
  "expected_pages ps = (\<Sum>p\<leftarrow>ps. dp_ExpectedPages p)"

definition next_pages :: "DiscoveryPartition list \<Rightarrow> int" where
  "next_pages ps = (\<Sum>p\<leftarrow>ps. dp_NextPage p)"

definition cycle_ok :: "Cycle \<Rightarrow> DiscoveryPartition list \<Rightarrow> bool" where
  "cycle_ok c ps \<longleftrightarrow> list_all part_ok ps \<and> distinct (map dp_Key ps) \<and> cy_PartitionCount c = int (length ps)
     \<and> cy_CompletedPartitions c = completed ps \<and> cy_ExpectedPages c = expected_pages ps
     \<and> cy_CompletedPages c = next_pages ps"

lemmas cycle_sums = completed_def expected_pages_def next_pages_def

lemma set_expected_effect:
  assumes "set_expected key n ps c = (ps', c', touched)" "list_all part_ok ps" "0 \<le> n"
    "\<forall>p \<in> set ps. dp_Key p = key \<longrightarrow> \<not> complete p"
  shows "list_all part_ok ps' \<and> map dp_Key ps' = map dp_Key ps \<and> next_pages ps' = next_pages ps
    \<and> c' = c\<lparr>cy_ExpectedPages := cy_ExpectedPages c + (expected_pages ps' - expected_pages ps),
             cy_CompletedPartitions := cy_CompletedPartitions c + (completed ps' - completed ps)\<rparr>
    \<and> (\<not> touched \<longrightarrow> ps' = ps \<and> c' = c)"
  using assms
proof (induction ps arbitrary: c ps' c' touched)
  case (Cons p ps)
  show ?case
  proof (cases "dp_Key p \<noteq> key \<or> dp_NextPage p \<noteq> 0")
    case True
    obtain qs d t where r: "set_expected key n ps c = (qs, d, t)" by (metis surj_pair)
    with Cons.prems True have e: "ps' = p # qs" "c' = d" "touched = t" by auto
    from Cons.IH [OF r] Cons.prems show ?thesis unfolding e by (auto simp: cycle_sums)
  next
    case False
    define p' where "p' = p\<lparr>dp_ExpectedPages := n, dp_Status := if n = 0 then ''complete'' else dp_Status p\<rparr>"
    define c1 where "c1 = c\<lparr>cy_ExpectedPages := cy_ExpectedPages c + (n - dp_ExpectedPages p),
      cy_CompletedPartitions := cy_CompletedPartitions c + (if n = 0 then 1 else 0)\<rparr>"
    have nc: "dp_Status p \<noteq> ''complete''" using Cons.prems(4) False by (auto simp: complete_def)
    obtain qs d t where r: "set_expected key n ps c1 = (qs, d, t)" by (metis surj_pair)
    with Cons.prems(1) False nc have e: "ps' = p' # qs" "c' = d" "touched = True"
      by (auto simp: Let_def p'_def c1_def)
    have "part_ok p'" "complete p' \<longleftrightarrow> n = 0" "dp_NextPage p' = dp_NextPage p" "dp_Key p' = dp_Key p" "dp_ExpectedPages p' = n"
      using Cons.prems(2,3) nc False by (auto simp: p'_def part_ok_def complete_def)
    with Cons.IH [OF r] Cons.prems nc show ?thesis unfolding e
      by (auto simp: cycle_sums c1_def complete_def)
  qed
qed (auto simp: cycle_sums)

lemma save_page_effect:
  assumes "p0 \<in> set ps" "distinct (map dp_Key ps)" "list_all part_ok ps" "\<not> complete p0"
  shows "\<exists>ps' c'. save_page_loop p0 ps c = Some (ps', c', True) \<and> list_all part_ok ps'
    \<and> map dp_Key ps' = map dp_Key ps \<and> expected_pages ps' = expected_pages ps \<and> next_pages ps' = next_pages ps + 1
    \<and> c' = c\<lparr>cy_CompletedPartitions := cy_CompletedPartitions c + (completed ps' - completed ps),
             cy_CompletedPages := cy_CompletedPages c + 1\<rparr>"
  using assms
proof (induction ps)
  case (Cons p ps)
  show ?case
  proof (cases "dp_Key p = dp_Key p0")
    case True
    with Cons.prems have p: "p = p0" by (metis distinct.simps(2) image_eqI list.set_map list.simps(9) set_ConsD)
    have "part_ok p0" "\<not> complete p0" using Cons.prems p by auto
    then show ?thesis unfolding p using Cons.prems
      by (auto simp: Let_def cycle_sums part_ok_def complete_def)
  next
    case False
    with Cons.prems have "p0 \<in> set ps" by auto
    with Cons False show ?thesis by (fastforce simp: cycle_sums)
  qed
qed simp

lemma next_partition:
  assumes "NextDiscoveryPartition m cid = Inr (Some p)"
  shows "p \<in> set (parts_of m cid) \<and> \<not> complete p"
  using assms by (auto simp: NextDiscoveryPartition_def complete_def find_Some_iff)

lemma no_next_partition: "NextDiscoveryPartition m cid = Inr None \<longleftrightarrow> list_all complete (parts_of m cid)"
  by (auto simp: NextDiscoveryPartition_def complete_def find_None_iff list_all_iff)

lemma all_complete_iff: "completed ps = int (length ps) \<longleftrightarrow> list_all complete ps"
  unfolding completed_def list_all_iff by (metis filter_True filter_id_conv length_filter_less nat_less_le of_nat_eq_iff)

lemma all_complete_pages: "list_all part_ok ps \<Longrightarrow> list_all complete ps \<Longrightarrow> next_pages ps = expected_pages ps"
  by (induction ps) (auto simp: cycle_sums part_ok_def)

text \<open>A cycle of the store with its partitions.\<close>

definition discovery_ok :: "Memory \<Rightarrow> string \<Rightarrow> bool" where
  "discovery_ok m cid \<longleftrightarrow> map_of (mm_Cycles m) cid \<noteq> None \<and> cycle_ok (cycle_of m cid) (parts_of m cid)"

definition pages_left :: "Memory \<Rightarrow> string \<Rightarrow> int" where
  "pages_left m cid = expected_pages (parts_of m cid) - next_pages (parts_of m cid)"

lemma put_cycle_sel:
  "cycle_of (m\<lparr>mm_Cycles := AList.update cid c cs, mm_DiscoveryPartitions := d\<rparr>) cid = c"
  "parts_of (m\<lparr>mm_Cycles := cs, mm_DiscoveryPartitions := (mm_DiscoveryPartitions m)(cid \<mapsto> ps)\<rparr>) cid = ps"
  by (simp_all add: cycle_of_def parts_of_def update_conv')

lemma SaveDiscoveryPage_ok:
  assumes "discovery_ok m cid" "NextDiscoveryPartition m cid = Inr (Some p)"
    "SaveDiscoveryPage m cid p obs = (m', e)"
  shows "e = None \<and> discovery_ok m' cid \<and> pages_left m' cid = pages_left m cid - 1 \<and> 0 \<le> pages_left m' cid"
proof -
  from next_partition [OF assms(2)] assms(1) obtain ps' c' where
    s: "save_page_loop p (parts_of m cid) (cycle_of m cid) = Some (ps', c', True)" and ps': "list_all part_ok ps'"
    "map dp_Key ps' = map dp_Key (parts_of m cid)" "expected_pages ps' = expected_pages (parts_of m cid)"
    "next_pages ps' = next_pages (parts_of m cid) + 1"
    and c': "c' = (cycle_of m cid)\<lparr>cy_CompletedPartitions := cy_CompletedPartitions (cycle_of m cid)
        + (completed ps' - completed (parts_of m cid)), cy_CompletedPages := cy_CompletedPages (cycle_of m cid) + 1\<rparr>"
    using save_page_effect [of p "parts_of m cid" "cycle_of m cid"] by (auto simp: discovery_ok_def cycle_ok_def)
  have "length ps' = length (parts_of m cid)" using ps'(2) by (metis length_map)
  then have ok: "cycle_ok c' ps'" using assms(1) ps' c' by (simp add: discovery_ok_def cycle_ok_def)
  have "next_pages ps' \<le> expected_pages ps'"
    using ps'(1) unfolding next_pages_def expected_pages_def
    by (intro sum_list_mono) (auto simp: list_all_iff part_ok_def)
  with ok ps' assms(3) s show ?thesis
    by (auto simp: SaveDiscoveryPage_def discovery_ok_def pages_left_def cycle_of_def parts_of_def update_conv')
qed

lemma SetDiscoveryExpectedPages_ok:
  assumes "discovery_ok m cid" "NextDiscoveryPartition m cid = Inr (Some p)" "0 \<le> n"
    "SetDiscoveryExpectedPages m cid (dp_Key p) n = (m', e)"
  shows "e = None \<and> discovery_ok m' cid"
proof -
  obtain ps' c' t where s: "set_expected (dp_Key p) n (parts_of m cid) (cycle_of m cid) = (ps', c', t)"
    by (metis surj_pair)
  have "\<forall>q \<in> set (parts_of m cid). dp_Key q = dp_Key p \<longrightarrow> \<not> complete q"
    using next_partition [OF assms(2)] assms(1) unfolding discovery_ok_def cycle_ok_def
    by (metis distinct_map inj_onD)
  note eff = set_expected_effect [OF s _ assms(3) this]
  have "length ps' = length (parts_of m cid)" using eff assms(1) by (metis cycle_ok_def discovery_ok_def length_map)
  then have ok: "cycle_ok c' ps'" using assms(1) eff by (simp add: discovery_ok_def cycle_ok_def)
  then show ?thesis
    using assms(1,4) s eff
    by (cases t) (auto simp: SetDiscoveryExpectedPages_def discovery_ok_def cycle_ok_def cycle_of_def parts_of_def update_conv')
qed

lemma CompleteDiscoveryCycle_iff:
  assumes "discovery_ok m cid"
  shows "snd (CompleteDiscoveryCycle m cid) = None \<longleftrightarrow> NextDiscoveryPartition m cid = Inr None"
proof -
  obtain c where c: "map_of (mm_Cycles m) cid = Some c" "cycle_of m cid = c" using assms
    by (auto simp: discovery_ok_def cycle_of_def)
  have ok: "cycle_ok c (parts_of m cid)" using assms c by (simp add: discovery_ok_def)
  have "snd (CompleteDiscoveryCycle m cid) = None \<longleftrightarrow>
      cy_CompletedPages c = cy_ExpectedPages c \<and> cy_CompletedPartitions c = cy_PartitionCount c"
    by (simp add: CompleteDiscoveryCycle_def c)
  also have "\<dots> \<longleftrightarrow> list_all complete (parts_of m cid)"
    using ok all_complete_iff all_complete_pages unfolding cycle_ok_def by metis
  finally show ?thesis by (simp add: no_next_partition)
qed

subsection \<open>The contract of a discovery store\<close>

text \<open>
  A cycle as a worklist: the partitions still to fetch, in order. What a client of
  \<open>DiscoveryStore\<close> relies on: the next partition is the head of the list; saving its page moves it
  on by one and drops it after its last page; correcting its page count replaces the count, and
  drops it when no page is left; a cycle can be completed and reconciled once the list is empty;
  starting a cycle either queues the given partitions or finds an earlier cycle as it stands.
\<close>

definition advance :: "DiscoveryPartition \<Rightarrow> DiscoveryPartition list" where
  "advance p = (if dp_NextPage p + 1 = dp_ExpectedPages p then []
     else [p\<lparr>dp_NextPage := dp_NextPage p + 1, dp_Status := ''running''\<rparr>])"

definition recount :: "int \<Rightarrow> DiscoveryPartition \<Rightarrow> DiscoveryPartition list" where
  "recount n p = (if n = 0 then [] else [p\<lparr>dp_ExpectedPages := n\<rparr>])"

definition incomplete :: "DiscoveryPartition list \<Rightarrow> DiscoveryPartition list" where
  "incomplete ps = filter (\<lambda>p. \<not> complete p) ps"

locale discovery_store =
  fixes ds :: "'s DiscoveryStore" and sound :: "'s \<Rightarrow> bool" and ok :: "'s \<Rightarrow> string \<Rightarrow> bool"
    and todo :: "'s \<Rightarrow> string \<Rightarrow> DiscoveryPartition list"
  assumes start_ok: "sound s \<Longrightarrow> cycle_ok (cycle\<lparr>cy_PartitionCount := int (length ps)\<rparr>) ps
      \<Longrightarrow> ds_StartDiscoveryCycle ds s cycle ps = (s', Inr cid)
      \<Longrightarrow> ok s' cid \<and> (todo s' cid = incomplete ps \<or> s' = s)"
    and next_head: "ok s cid \<Longrightarrow> ds_NextDiscoveryPartition ds s cid = Inr (case todo s cid of [] \<Rightarrow> None | p # _ \<Rightarrow> Some p)"
    and todo_range: "ok s cid \<Longrightarrow> p \<in> set (todo s cid) \<Longrightarrow> 0 \<le> dp_NextPage p \<and> dp_NextPage p < dp_ExpectedPages p"
    and save_head: "ok s cid \<Longrightarrow> todo s cid = p # ps \<Longrightarrow> ds_SaveDiscoveryPage ds s cid p obs = (s', e)
      \<Longrightarrow> e = None \<and> ok s' cid \<and> todo s' cid = advance p @ ps"
    and set_head: "ok s cid \<Longrightarrow> todo s cid = p # ps \<Longrightarrow> dp_NextPage p = 0 \<Longrightarrow> 0 \<le> n
      \<Longrightarrow> ds_SetDiscoveryExpectedPages ds s cid (dp_Key p) n = (s', e)
      \<Longrightarrow> e = None \<and> ok s' cid \<and> todo s' cid = recount n p @ ps"
    and complete_done: "ok s cid \<Longrightarrow> ds_CompleteDiscoveryCycle ds s cid = (s', e) \<Longrightarrow> (e = None \<longleftrightarrow> todo s cid = [])"
    and reconcile_done: "ok s cid \<Longrightarrow> ds_CompleteDiscoveryCycle ds s cid = (s', None)
      \<Longrightarrow> ok s' cid \<and> todo s' cid = [] \<and> (\<exists>s'' r. ds_ReconcileDiscoveryStatuses ds s' cid = (s'', Inr r) \<and> ok s'' cid \<and> todo s'' cid = [])"

lemma incomplete_mem: "p \<in> set (incomplete ps) \<longleftrightarrow> p \<in> set ps \<and> \<not> complete p"
  by (simp add: incomplete_def)

lemma save_page_todo:
  "incomplete ps = p0 # qs \<Longrightarrow> distinct (map dp_Key ps) \<Longrightarrow> list_all part_ok ps
   \<Longrightarrow> save_page_loop p0 ps c = Some (ps', c', t) \<Longrightarrow> incomplete ps' = advance p0 @ qs"
proof (induction ps arbitrary: ps')
  case (Cons p ps)
  show ?case
  proof (cases "dp_Key p = dp_Key p0")
    case True
    have p0: "p0 \<in> set (p # ps)" "\<not> complete p0" using incomplete_mem [of p0 "p # ps"] unfolding Cons.prems(1) by simp_all
    with True Cons.prems(2) have p: "p = p0" by (auto simp: distinct_map inj_on_def)
    with p0 Cons.prems(1) have "\<not> complete p0" "incomplete ps = qs" by (auto simp: incomplete_def split: if_splits)
    with p Cons.prems(4) show ?thesis by (auto simp: incomplete_def advance_def complete_def Let_def)
  next
    case False
    then have c: "complete p" "incomplete ps = p0 # qs" using Cons.prems(1) by (auto simp: incomplete_def split: if_splits)
    from Cons.prems(4) False obtain ps1 where "save_page_loop p0 ps c = Some (ps1, c', t)" "ps' = p # ps1"
      by (auto split: option.splits)
    with Cons.IH [OF c(2)] Cons.prems c show ?thesis by (simp add: incomplete_def)
  qed
qed (simp add: incomplete_def)

lemma set_expected_other: "key \<notin> dp_Key ` set ps \<Longrightarrow> set_expected key n ps c = (ps, c, False)"
  by (induction ps arbitrary: c) auto

lemma set_expected_todo:
  "incomplete ps = p0 # qs \<Longrightarrow> distinct (map dp_Key ps) \<Longrightarrow> dp_NextPage p0 = 0
   \<Longrightarrow> set_expected (dp_Key p0) n ps c = (ps', c', t) \<Longrightarrow> incomplete ps' = recount n p0 @ qs"
proof (induction ps arbitrary: ps' t)
  case (Cons p ps)
  show ?case
  proof (cases "dp_Key p = dp_Key p0")
    case True
    have p0: "p0 \<in> set (p # ps)" "\<not> complete p0" using incomplete_mem [of p0 "p # ps"] unfolding Cons.prems(1) by simp_all
    with True Cons.prems(2) have p: "p = p0" by (auto simp: distinct_map inj_on_def)
    with p0 Cons.prems(1) have nc: "\<not> complete p0" "incomplete ps = qs" by (auto simp: incomplete_def split: if_splits)
    have "dp_Key p0 \<notin> dp_Key ` set ps" using Cons.prems(2) p by simp
    with p nc Cons.prems(3,4) show ?thesis
      by (auto simp: set_expected_other Let_def incomplete_def recount_def complete_def)
  next
    case False
    then have c: "complete p" "incomplete ps = p0 # qs" using Cons.prems(1) by (auto simp: incomplete_def split: if_splits)
    from Cons.prems(4) False obtain ps1 where "set_expected (dp_Key p0) n ps c = (ps1, c', t)" "ps' = p # ps1"
      by (auto split: prod.splits)
    with Cons.IH [OF c(2)] Cons.prems c show ?thesis by (simp add: incomplete_def)
  qed
qed (simp add: incomplete_def)

definition todo_of :: "Memory \<Rightarrow> string \<Rightarrow> DiscoveryPartition list" where
  "todo_of m cid = incomplete (parts_of m cid)"

definition daily_ok :: "Memory \<Rightarrow> string \<Rightarrow> bool" where
  "daily_ok m cid \<longleftrightarrow> discovery_ok m cid \<and> cy_Scope (cycle_of m cid) = ''daily_discovery''"

definition memory_sound :: "Memory \<Rightarrow> bool" where
  "memory_sound m \<longleftrightarrow> (\<forall>(cid, c) \<in> set (mm_Cycles m). cy_Scope c = ''daily_discovery'' \<longrightarrow> daily_ok m cid)"

lemma todo_next: "NextDiscoveryPartition m cid = Inr (case todo_of m cid of [] \<Rightarrow> None | p # _ \<Rightarrow> Some p)"
proof -
  have "find P ps = (case filter P ps of [] \<Rightarrow> None | p # _ \<Rightarrow> Some p)" for P and ps :: "DiscoveryPartition list"
    by (induction ps) auto
  then show ?thesis by (simp add: NextDiscoveryPartition_def todo_of_def incomplete_def complete_def)
qed

lemma SaveDiscoveryPage_todo:
  assumes "daily_ok m cid" "todo_of m cid = p # ps" "SaveDiscoveryPage m cid p obs = (m', e)"
  shows "e = None \<and> daily_ok m' cid \<and> todo_of m' cid = advance p @ ps"
proof -
  have n: "NextDiscoveryPartition m cid = Inr (Some p)" using assms(2) by (simp add: todo_next)
  have d: "discovery_ok m cid" using assms(1) by (simp add: daily_ok_def)
  have p: "p \<in> set (parts_of m cid)" "\<not> complete p" using next_partition [OF n] by simp_all
  have w: "distinct (map dp_Key (parts_of m cid))" "list_all part_ok (parts_of m cid)"
    using d by (simp_all add: discovery_ok_def cycle_ok_def)
  obtain ps' c' where s: "save_page_loop p (parts_of m cid) (cycle_of m cid) = Some (ps', c', True)"
    and c': "c' = (cycle_of m cid)\<lparr>cy_CompletedPartitions := cy_CompletedPartitions (cycle_of m cid)
        + (completed ps' - completed (parts_of m cid)), cy_CompletedPages := cy_CompletedPages (cycle_of m cid) + 1\<rparr>"
    using save_page_effect [OF p(1) w p(2), of "cycle_of m cid"] by blast
  have "incomplete ps' = advance p @ ps" using save_page_todo [OF _ w s] assms(2) by (simp add: todo_of_def)
  moreover have "m' = m\<lparr>mm_Cycles := AList.update cid c' (mm_Cycles m), mm_DiscoveryPartitions := (mm_DiscoveryPartitions m)(cid \<mapsto> ps'),
      mm_Observations := foldl (\<lambda>obs ob. AList.update (bar cid (ob_ExternalID ob)) ob obs) (mm_Observations m) obs\<rparr>"
    using assms(3) s by (simp add: SaveDiscoveryPage_def)
  moreover have "e = None \<and> discovery_ok m' cid" using SaveDiscoveryPage_ok [OF d n assms(3)] by blast
  ultimately show ?thesis using assms(1) c'
    by (simp add: daily_ok_def todo_of_def parts_of_def cycle_of_def update_conv')
qed

lemma SetDiscoveryExpectedPages_todo:
  assumes "daily_ok m cid" "todo_of m cid = p # ps" "dp_NextPage p = 0" "0 \<le> n"
    "SetDiscoveryExpectedPages m cid (dp_Key p) n = (m', e)"
  shows "e = None \<and> daily_ok m' cid \<and> todo_of m' cid = recount n p @ ps"
proof -
  have nx: "NextDiscoveryPartition m cid = Inr (Some p)" using assms(2) by (simp add: todo_next)
  have d: "discovery_ok m cid" using assms(1) by (simp add: daily_ok_def)
  have w: "distinct (map dp_Key (parts_of m cid))" "list_all part_ok (parts_of m cid)"
    using d by (simp_all add: discovery_ok_def cycle_ok_def)
  obtain ps' c' t where s: "set_expected (dp_Key p) n (parts_of m cid) (cycle_of m cid) = (ps', c', t)" by (metis surj_pair)
  have "\<forall>q \<in> set (parts_of m cid). dp_Key q = dp_Key p \<longrightarrow> \<not> complete q"
    using next_partition [OF nx] w(1) by (metis distinct_map inj_onD)
  note eff = set_expected_effect [OF s w(2) assms(4) this]
  then have c': "cy_Scope c' = cy_Scope (cycle_of m cid)" by simp
  have "incomplete ps' = recount n p @ ps" using set_expected_todo [OF _ w(1) assms(3) s] assms(2) by (simp add: todo_of_def)
  moreover have m': "m' = m\<lparr>mm_Cycles := if t then AList.update cid c' (mm_Cycles m) else mm_Cycles m,
      mm_DiscoveryPartitions := (mm_DiscoveryPartitions m)(cid \<mapsto> ps')\<rparr>"
    using assms(5) s by (simp add: SetDiscoveryExpectedPages_def)
  moreover have "e = None \<and> discovery_ok m' cid" using SetDiscoveryExpectedPages_ok [OF d nx assms(4,5)] by blast
  ultimately show ?thesis using assms(1) c'
    by (cases t) (auto simp: daily_ok_def todo_of_def parts_of_def cycle_of_def update_conv' split: option.splits)
qed

lemma StartDiscoveryCycle_todo:
  assumes "memory_sound m" "cycle_ok (cycle\<lparr>cy_PartitionCount := int (length ps)\<rparr>) ps"
    "StartDiscoveryCycle m cycle ps = (m', Inr cid)"
  shows "daily_ok m' cid \<and> (todo_of m' cid = incomplete ps \<or> m' = m)"
proof -
  let ?P = "\<lambda>(i, existing). cy_Source existing = cy_Source cycle \<and> cy_Scope existing = ''daily_discovery''
      \<and> cy_CycleDate existing = cy_CycleDate cycle \<and> cy_MethodVersion existing = cy_MethodVersion cycle"
  show ?thesis
  proof (cases "find ?P (mm_Cycles m)")
    case None
    with assms(2,3) show ?thesis
      by (auto simp: StartDiscoveryCycle_def Let_def daily_ok_def discovery_ok_def cycle_ok_def cycle_of_def parts_of_def
          todo_of_def update_conv')
  next
    case (Some e)
    obtain i c where e: "e = (i, c)" by (cases e)
    obtain j where "j < length (mm_Cycles m)" "e = mm_Cycles m ! j" "?P e" using Some unfolding find_Some_iff by auto
    then have "e \<in> set (mm_Cycles m)" "?P e" by simp_all
    with assms(1) e have "daily_ok m i" by (auto simp: memory_sound_def)
    with assms(3) Some e show ?thesis by (simp add: StartDiscoveryCycle_def)
  qed
qed

lemma CompleteDiscoveryCycle_todo: "daily_ok m cid \<Longrightarrow> snd (CompleteDiscoveryCycle m cid) = None \<longleftrightarrow> todo_of m cid = []"
  using CompleteDiscoveryCycle_iff [of m cid] by (simp add: daily_ok_def todo_next split: list.splits)

lemma ReconcileDiscoveryStatuses_done:
  assumes "daily_ok m cid" "CompleteDiscoveryCycle m cid = (m', None)"
  shows "daily_ok m' cid \<and> todo_of m' cid = []
    \<and> (\<exists>m'' r. ReconcileDiscoveryStatuses m' cid = (m'', Inr r) \<and> daily_ok m'' cid \<and> todo_of m'' cid = [])"
proof -
  obtain c where c: "map_of (mm_Cycles m) cid = Some c" "cycle_of m cid = c"
    using assms(1) by (auto simp: daily_ok_def discovery_ok_def cycle_of_def)
  have m': "m' = m\<lparr>mm_Cycles := AList.update cid (c\<lparr>cy_Status := ''complete''\<rparr>) (mm_Cycles m)\<rparr>"
    using assms(2) c by (auto simp: CompleteDiscoveryCycle_def split: if_splits)
  have t: "todo_of m cid = []" using CompleteDiscoveryCycle_todo [OF assms(1)] assms(2) by simp
  have sc: "cy_Scope c = ''daily_discovery''" using assms(1) c by (simp add: daily_ok_def)
  have ok: "cycle_ok c (parts_of m cid)" using assms(1) c by (simp add: daily_ok_def discovery_ok_def)
  show ?thesis using t sc ok
    by (simp add: m' ReconcileDiscoveryStatuses_def daily_ok_def discovery_ok_def cycle_ok_def cycle_of_def parts_of_def todo_of_def
        update_conv' Let_def)
qed

lemmas discovery_ops = memory_discovery_def

interpretation daily: discovery_store memory_discovery memory_sound daily_ok todo_of
proof
  show "daily_ok s' cid \<and> (todo_of s' cid = incomplete ps \<or> s' = s)"
    if "memory_sound s" "cycle_ok (cycle\<lparr>cy_PartitionCount := int (length ps)\<rparr>) ps"
      "ds_StartDiscoveryCycle memory_discovery s cycle ps = (s', Inr cid)" for s cycle ps s' cid
    using StartDiscoveryCycle_todo [OF that(1,2)] that(3) by (simp add: discovery_ops)
  show "ds_NextDiscoveryPartition memory_discovery s cid = Inr (case todo_of s cid of [] \<Rightarrow> None | p # _ \<Rightarrow> Some p)" for s cid
    by (simp add: discovery_ops todo_next)
  show "0 \<le> dp_NextPage p \<and> dp_NextPage p < dp_ExpectedPages p" if "daily_ok s cid" "p \<in> set (todo_of s cid)" for s cid p
  proof -
    from that have "p \<in> set (parts_of s cid)" "\<not> complete p" by (simp_all add: todo_of_def incomplete_mem)
    moreover from that have "list_all part_ok (parts_of s cid)" by (simp add: daily_ok_def discovery_ok_def cycle_ok_def)
    ultimately have "part_ok p" by (simp add: list_all_iff)
    with \<open>\<not> complete p\<close> show ?thesis by (auto simp: part_ok_def)
  qed
  show "e = None \<and> daily_ok s' cid \<and> todo_of s' cid = advance p @ ps"
    if "daily_ok s cid" "todo_of s cid = p # ps" "ds_SaveDiscoveryPage memory_discovery s cid p obs = (s', e)" for s cid p ps obs s' e
    using SaveDiscoveryPage_todo [OF that(1,2)] that(3) by (simp add: discovery_ops)
  show "e = None \<and> daily_ok s' cid \<and> todo_of s' cid = recount n p @ ps"
    if "daily_ok s cid" "todo_of s cid = p # ps" "dp_NextPage p = 0" "0 \<le> n"
      "ds_SetDiscoveryExpectedPages memory_discovery s cid (dp_Key p) n = (s', e)" for s cid p ps n s' e
    using SetDiscoveryExpectedPages_todo [OF that(1-4)] that(5) by (simp add: discovery_ops)
  show "(e = None) = (todo_of s cid = [])" if "daily_ok s cid" "ds_CompleteDiscoveryCycle memory_discovery s cid = (s', e)" for s cid s' e
    using CompleteDiscoveryCycle_todo [OF that(1)] that(2) by (simp add: discovery_ops)
  show "daily_ok s' cid \<and> todo_of s' cid = [] \<and> (\<exists>s'' r. ds_ReconcileDiscoveryStatuses memory_discovery s' cid = (s'', Inr r)
      \<and> daily_ok s'' cid \<and> todo_of s'' cid = [])"
    if "daily_ok s cid" "ds_CompleteDiscoveryCycle memory_discovery s cid = (s', None)" for s cid s'
    using ReconcileDiscoveryStatuses_done [OF that(1)] that(2) by (simp add: discovery_ops)
qed

subsection \<open>Reconciliation\<close>

lemma reconcile_counts:
  "foldl (reconcile_count seen) r items = r' \<Longrightarrow>
     rc_Reactivated r' = rc_Reactivated r + int (length (filter (\<lambda>i. v_Source (vw_Vacancy i) = ''hh''
       \<and> seen (v_ExternalID (vw_Vacancy i)) \<noteq> None \<and> \<not> v_IsActive (vw_Vacancy i)) items))
   \<and> rc_Deactivated r' = rc_Deactivated r + int (length (filter (\<lambda>i. v_Source (vw_Vacancy i) = ''hh''
       \<and> seen (v_ExternalID (vw_Vacancy i)) = None \<and> v_IsActive (vw_Vacancy i)) items))
   \<and> rc_StillActive r' = rc_StillActive r + int (length (filter (\<lambda>i. v_Source (vw_Vacancy i) = ''hh''
       \<and> seen (v_ExternalID (vw_Vacancy i)) \<noteq> None \<and> v_IsActive (vw_Vacancy i)) items))"
  by (induction items arbitrary: r) (auto simp: reconcile_count_def Let_def)

text \<open>A vacancy is seen if some observation of the cycle, taken after the zero time, names it.\<close>

definition of_cycle :: "string \<Rightarrow> string \<Rightarrow> bool" where
  "of_cycle cid key \<longleftrightarrow> length cid < length key \<and> take (length cid) key = cid \<and> key ! length cid = CHR ''|''"

lemma see_dom: "see cid seen (key, ob) x \<noteq> None \<longleftrightarrow>
    seen x \<noteq> None \<or> of_cycle cid key \<and> x = ob_ExternalID ob \<and> 0 < ob_ObservedAt ob"
  by (auto simp: see_def of_cycle_def split: option.splits)

lemma seen_fold: "foldl (see cid) seen obs x \<noteq> None \<longleftrightarrow>
    seen x \<noteq> None \<or> (\<exists>(key, ob) \<in> set obs. of_cycle cid key \<and> x = ob_ExternalID ob \<and> 0 < ob_ObservedAt ob)"
proof (induction obs arbitrary: seen)
  case (Cons entry obs)
  obtain key ob where e: "entry = (key, ob)" by (cases entry)
  show ?case unfolding foldl.simps Cons e see_dom by (auto simp del: not_None_eq)
qed simp

lemma seen_in_iff: "seen_in m cid x \<noteq> None \<longleftrightarrow>
    (\<exists>(key, ob) \<in> set (mm_Observations m). of_cycle cid key \<and> x = ob_ExternalID ob \<and> 0 < ob_ObservedAt ob)"
  unfolding seen_in_def seen_fold by simp

lemma reconcile_item_sel [simp]:
  "v_Source (vw_Vacancy (reconcile_item seen item)) = v_Source (vw_Vacancy item)"
  "v_ExternalID (vw_Vacancy (reconcile_item seen item)) = v_ExternalID (vw_Vacancy item)"
  "v_Source (vw_Vacancy item) = ''hh'' \<Longrightarrow>
     v_IsActive (vw_Vacancy (reconcile_item seen item)) \<longleftrightarrow> seen (v_ExternalID (vw_Vacancy item)) \<noteq> None"
  "v_Source (vw_Vacancy item) \<noteq> ''hh'' \<Longrightarrow> reconcile_item seen item = item"
  by (auto simp: reconcile_item_def Let_def split: option.splits)

section \<open>Properties\<close>

text \<open>
  Saving a page counts every vacancy once and stores each of them with its own content and
  collection time, leaves all others alone and moves the cursor of its scope; saving the same
  page again changes nothing and reports every vacancy as unchanged.
\<close>

theorem SavePage_exact_idempotent:
  assumes "SavePage m src scope cur items = (m', Inr (up, un))" "distinct (map vacancy_key items)"
  shows "up + un = int (length items)
    \<and> list_all (saved (mm_Vacancies m')) items
    \<and> (\<forall>k. k \<notin> vacancy_key ` set items \<longrightarrow> map_of (mm_Vacancies m') k = map_of (mm_Vacancies m) k)
    \<and> GetCheckpoint m' src scope = Inr (Some cur)
    \<and> (\<exists>m''. SavePage m' src scope cur items = (m'', Inr (0, int (length items)))
         \<and> map_of (mm_Vacancies m'') = map_of (mm_Vacancies m') \<and> mm_Checkpoints m'' = mm_Checkpoints m')"
proof -
  obtain vs where f: "foldl save_item (mm_Vacancies m, 0, 0) items = (vs, up, un)"
    and m': "m' = m\<lparr>mm_Vacancies := vs, mm_Checkpoints := (mm_Checkpoints m)(bar src scope \<mapsto> cur)\<rparr>"
    using assms(1) by (auto simp: SavePage_def split: prod.splits)
  note e = save_items_entries [OF f assms(2)]
  obtain vs' where "foldl save_item (vs, 0, 0) items = (vs', 0, int (length items))" "map_of vs' = map_of vs"
    using save_items_again [of vs items 0 0] e by auto
  with save_items_count [OF f] e m' show ?thesis by (simp add: SavePage_def GetCheckpoint_def)
qed

theorem SavePage_exact_idempotent_witness:
  "\<exists>m'. SavePage NewMemory ''hh'' ''s'' ''1'' [] = (m', Inr (0, 0)) \<and> GetCheckpoint m' ''hh'' ''s'' = Inr (Some ''1'')"
proof -
  obtain m' where "SavePage NewMemory ''hh'' ''s'' ''1'' [] = (m', Inr (0, 0))" by (simp add: SavePage_def)
  with SavePage_exact_idempotent [OF this] show ?thesis by auto
qed

text \<open>
  The book-keeping of a discovery cycle: saving the next page of the next partition keeps
  the counters equal to the sums over the partitions and leaves exactly one page fewer to do, and
  correcting the page count of that partition keeps them too.
\<close>

theorem discovery_bookkeeping:
  assumes "discovery_ok m cid" "NextDiscoveryPartition m cid = Inr (Some p)" "0 \<le> n"
    and "SaveDiscoveryPage m cid p obs = (m1, e1)" "SetDiscoveryExpectedPages m cid (dp_Key p) n = (m2, e2)"
  shows "e1 = None \<and> discovery_ok m1 cid \<and> pages_left m1 cid = pages_left m cid - 1 \<and> 0 \<le> pages_left m1 cid
    \<and> e2 = None \<and> discovery_ok m2 cid"
  using SaveDiscoveryPage_ok [OF assms(1,2,4)] SetDiscoveryExpectedPages_ok [OF assms(1,2,3,5)] by blast

definition sample_memory :: Memory where
  "sample_memory = fst (StartDiscoveryCycle NewMemory (no_cycle\<lparr>cy_ExpectedPages := 1\<rparr>)
     [\<lparr>dp_Key = ''k'', dp_ProfessionalRoleID = ''96'', dp_Area = '''', dp_DateFrom = 0, dp_DateTo = 0,
       dp_ExpectedPages = 1, dp_NextPage = 0, dp_Status = ''''\<rparr>])"

lemma sample_memory_ok: "discovery_ok sample_memory (cycle_id CHR ''1'' 1)"
  by (simp add: sample_memory_def StartDiscoveryCycle_def NewMemory_def discovery_ok_def cycle_of_def parts_of_def
      cycle_ok_def part_ok_def complete_def cycle_sums no_cycle_def Let_def)

theorem discovery_bookkeeping_witness:
  "\<exists>p m1 e1. NextDiscoveryPartition sample_memory (cycle_id CHR ''1'' 1) = Inr (Some p)
     \<and> SaveDiscoveryPage sample_memory (cycle_id CHR ''1'' 1) p [] = (m1, e1) \<and> e1 = None
     \<and> discovery_ok m1 (cycle_id CHR ''1'' 1)"
proof -
  let ?cid = "cycle_id CHR ''1'' 1"
  obtain p where p: "NextDiscoveryPartition sample_memory ?cid = Inr (Some p)"
    by (simp add: NextDiscoveryPartition_def sample_memory_def StartDiscoveryCycle_def NewMemory_def parts_of_def Let_def)
  obtain m1 e1 where m1: "SaveDiscoveryPage sample_memory ?cid p [] = (m1, e1)" by (metis surj_pair)
  obtain m2 e2 where m2: "SetDiscoveryExpectedPages sample_memory ?cid (dp_Key p) 3 = (m2, e2)" by (metis surj_pair)
  from discovery_bookkeeping [OF sample_memory_ok p _ m1 m2] p m1 show ?thesis by auto
qed

text \<open>
  A cycle whose book-keeping is in order can be completed exactly when no partition is left
  to fetch.
\<close>

theorem complete_iff_nothing_left:
  assumes "discovery_ok m cid"
  shows "snd (CompleteDiscoveryCycle m cid) = None \<longleftrightarrow> NextDiscoveryPartition m cid = Inr None"
  using CompleteDiscoveryCycle_iff [OF assms] .

theorem complete_iff_nothing_left_witness:
  "snd (CompleteDiscoveryCycle sample_memory (cycle_id CHR ''1'' 1)) \<noteq> None"
  using complete_iff_nothing_left [OF sample_memory_ok]
  by (simp add: NextDiscoveryPartition_def sample_memory_def StartDiscoveryCycle_def NewMemory_def parts_of_def Let_def)

text \<open>
  Reconciling a completed cycle makes every HeadHunter vacancy active exactly if the cycle
  observed it, leaves vacancies of other sources and all keys alone, and counts every change of
  status, while a cycle that is not complete changes nothing.
\<close>

theorem reconcile_exact:
  assumes "ReconcileDiscoveryStatuses m cid = (m', res)"
  defines "seen x \<equiv> \<exists>(key, ob) \<in> set (mm_Observations m). of_cycle cid key \<and> x = ob_ExternalID ob \<and> 0 < ob_ObservedAt ob"
  shows "(\<forall>e. res = Inl e \<longrightarrow> m' = m)
    \<and> (\<forall>r. res = Inr r \<longrightarrow>
        list_all2 (\<lambda>(k, item) (k', item'). k' = k \<and> (if v_Source (vw_Vacancy item) = ''hh''
            then v_Source (vw_Vacancy item') = ''hh'' \<and> v_ExternalID (vw_Vacancy item') = v_ExternalID (vw_Vacancy item)
              \<and> (v_IsActive (vw_Vacancy item') \<longleftrightarrow> seen (v_ExternalID (vw_Vacancy item)))
            else item' = item)) (mm_Vacancies m) (mm_Vacancies m')
      \<and> rc_Deactivated r = int (length (filter (\<lambda>i. v_Source (vw_Vacancy i) = ''hh''
           \<and> \<not> seen (v_ExternalID (vw_Vacancy i)) \<and> v_IsActive (vw_Vacancy i)) (map snd (mm_Vacancies m))))
      \<and> rc_Reactivated r = int (length (filter (\<lambda>i. v_Source (vw_Vacancy i) = ''hh''
           \<and> seen (v_ExternalID (vw_Vacancy i)) \<and> \<not> v_IsActive (vw_Vacancy i)) (map snd (mm_Vacancies m)))))"
proof (cases res)
  case (Inl e)
  with assms(1) show ?thesis
    by (auto simp: ReconcileDiscoveryStatuses_def Let_def split: option.splits if_splits)
next
  case (Inr r)
  with assms(1) have m': "mm_Vacancies m' = map (\<lambda>(key, item). (key, reconcile_item (seen_in m cid) item)) (mm_Vacancies m)"
    and r: "foldl (reconcile_count (seen_in m cid)) \<lparr>rc_Reactivated = 0, rc_Deactivated = 0, rc_StillActive = 0\<rparr>
      (map snd (mm_Vacancies m)) = r"
    by (auto simp: ReconcileDiscoveryStatuses_def Let_def split: option.splits if_splits)
  have seen: "seen_in m cid x \<noteq> None \<longleftrightarrow> seen x" "seen_in m cid x = None \<longleftrightarrow> \<not> seen x" for x
    using seen_in_iff [of m cid x] by (auto simp: seen_def)
  have "list_all2 (\<lambda>(k, item) (k', item'). k' = k \<and> (if v_Source (vw_Vacancy item) = ''hh''
            then v_Source (vw_Vacancy item') = ''hh'' \<and> v_ExternalID (vw_Vacancy item') = v_ExternalID (vw_Vacancy item)
              \<and> (v_IsActive (vw_Vacancy item') \<longleftrightarrow> seen (v_ExternalID (vw_Vacancy item)))
            else item' = item)) (mm_Vacancies m) (mm_Vacancies m')"
    unfolding m' list_all2_map2 by (intro list_all2_all_nthI) (auto simp: seen split: prod.splits)
  with reconcile_counts [OF r] Inr show ?thesis by (auto simp: seen simp del: not_None_eq)
qed

definition finished_memory :: Memory where
  "finished_memory = NewMemory\<lparr>mm_Cycles := [(''c'', no_cycle\<lparr>cy_Scope := ''daily_discovery'', cy_Status := ''complete''\<rparr>)],
     mm_Vacancies := [(''hh|1'', \<lparr>vw_Vacancy = (build_vacancy sample_draft sample_options empty_salary), vw_RegionName = '''',
       vw_RawPayload = '''', vw_ScopeRoleIDs = []\<rparr>)]\<rparr>"

theorem reconcile_exact_witness:
  "\<exists>m' r. ReconcileDiscoveryStatuses finished_memory ''c'' = (m', Inr r) \<and> rc_Deactivated r = 1"
proof -
  obtain m' r where r: "ReconcileDiscoveryStatuses finished_memory ''c'' = (m', Inr r)"
    by (simp add: ReconcileDiscoveryStatuses_def finished_memory_def NewMemory_def no_cycle_def Let_def)
  with reconcile_exact [OF r] show ?thesis
    by (simp add: finished_memory_def NewMemory_def build_vacancy_def sample_draft_def)
qed

end
