(* ===== verification/Runner.thy ===== *)
theory Runner
  imports HH_Parse Checkpoint Mem_Store
begin

text \<open>
  One ingest run, \<^verbatim>\<open>apps/ingest/internal/pipeline/runner.go\<close>: search pages are fetched, each
  item is turned into a draft, filtered by the role policy and normalised, and a page is
  committed together with the cursor only when all of it went well. The source acts on a world
  of type \<open>'w\<close>, the store on a state of type \<open>'s\<close>. The clock, the random run id, the texts of
  errors and SHA-256 are part of the environment.
\<close>

definition hardMaxPages :: int where "hardMaxPages = 100"

record 'w Source =
  so_SearchVacancies :: "'w \<Rightarrow> SearchQuery \<Rightarrow> 'w \<times> (hh_error + SearchPage)"
  so_GetVacancyRaw :: "'w \<Rightarrow> string \<Rightarrow> 'w \<times> (hh_error + string)"

datatype pipeline_error =
    SourceAndStoreRequired
  | CreateRunFailed store_error
  | CheckpointReadFailed store_error
  | BadCursor cursor_error
  | FetchFailed hh_error
  | UpsertFailed store_error
  | FinishRunFailed store_error
  | OperationAndFinishFailed pipeline_error store_error

datatype error_kind = FromSource hh_error | FromAdapter draft_error | FromNormalizer normalize_error | FromStore store_error

record 'w RunnerEnv =
  ev_now :: "'w \<Rightarrow> time"
  ev_text :: "error_kind \<Rightarrow> string"
  ev_sha :: "string \<Rightarrow> string"
  ev_parse :: ParseEnv

record Params =
  pa_Area :: string
  pa_Text :: string
  pa_ProfessionalRole :: string
  pa_DateFrom :: time
  pa_DateTo :: time
  pa_Mode :: string
  pa_MaxPages :: int
  pa_PerPage :: int
  pa_RequestedBy :: string

record Result =
  rs_RunID :: string
  rs_Status :: string
  rs_Stats :: Stats
  rs_Completed :: bool

definition ResolvePageLimit :: "int \<Rightarrow> int \<Rightarrow> int" where
  "ResolvePageLimit requested perPage0 =
     (let perPage = (if perPage0 \<le> 0 \<or> perPage0 > MaxPerPage then MaxPerPage else perPage0);
          depthPages = quot (MaxSearchResults + perPage - 1) perPage;
          limit = min depthPages hardMaxPages
      in if requested > 0 then min limit requested else limit)"

definition roleExternalIDs :: "AllowedRole list \<Rightarrow> string list" where
  "roleExternalIDs roles = map ar_ID roles"

definition formatScopeTime :: "time \<Rightarrow> string" where
  "formatScopeTime value = (if IsZero value then '''' else format_rfc3339 (Truncate value Second))"

definition truncate_msg :: "string \<Rightarrow> nat \<Rightarrow> string" where
  "truncate_msg s n = (if length s \<le> n then s else take n s)"

definition incErrors :: "Stats \<Rightarrow> Stats" where
  "incErrors stats = stats\<lparr>sx_Errors := sx_Errors stats + 1\<rparr>"

section \<open>One item\<close>

record ('w, 's) PageState =
  ps_w :: 'w
  ps_s :: 's
  ps_stats :: Stats
  ps_writes :: "VacancyWrite list"
  ps_ok :: bool

definition record_error :: "'s Store \<Rightarrow> string \<Rightarrow> string \<Rightarrow> string \<Rightarrow> string \<Rightarrow> ('w, 's) PageState \<Rightarrow> ('w, 's) PageState" where
  "record_error st runID ext stage msg ps = ps\<lparr>ps_s := fst (st_RecordError st (ps_s ps) runID ext stage msg)\<rparr>"

text \<open>The detail of an item could not be fetched; one that disappeared does not spoil the page.\<close>

definition fetch_failed :: "'w RunnerEnv \<Rightarrow> 's Store \<Rightarrow> string \<Rightarrow> SearchItem \<Rightarrow> hh_error \<Rightarrow> ('w, 's) PageState
    \<Rightarrow> ('w, 's) PageState" where
  "fetch_failed env st runID item e ps =
     (let ps = ps\<lparr>ps_stats := incErrors (ps_stats ps)\<rparr>;
          ps = (if e \<noteq> ErrNotFound then ps\<lparr>ps_ok := False\<rparr>
                else (case st_MarkVacancyInactive st (ps_s ps) SourceCode (it_ID item) ''detail_not_found'' of
                    (s, None) \<Rightarrow> ps\<lparr>ps_s := s\<rparr>
                  | (s, Some inactiveErr) \<Rightarrow>
                      record_error st runID (it_ID item) ''status'' (ev_text env (FromStore inactiveErr))
                        (ps\<lparr>ps_s := s, ps_ok := False\<rparr>)))
      in record_error st runID (it_ID item) ''fetch'' (ev_text env (FromSource e)) ps)"

definition item_failed :: "'s Store \<Rightarrow> string \<Rightarrow> SearchItem \<Rightarrow> string \<Rightarrow> string \<Rightarrow> ('w, 's) PageState \<Rightarrow> ('w, 's) PageState" where
  "item_failed st runID item stage msg ps =
     record_error st runID (it_ID item) stage msg (ps\<lparr>ps_stats := incErrors (ps_stats ps), ps_ok := False\<rparr>)"

text \<open>From a draft to the write: the roles it is collected under, the primary one, the vacancy.\<close>

definition primary_role :: "string list \<Rightarrow> AllowedRole list \<Rightarrow> AllowedRole" where
  "primary_role ids scopeRoles = (case AllowedProfessionalRole ids of Some r \<Rightarrow> r | None \<Rightarrow> hd scopeRoles)"

definition keep_draft :: "'w RunnerEnv \<Rightarrow> 's Store \<Rightarrow> string \<Rightarrow> Options \<Rightarrow> SearchItem \<Rightarrow> Draft \<Rightarrow> ('w, 's) PageState
    \<Rightarrow> ('w, 's) PageState" where
  "keep_draft env st runID opts item draft0 ps =
     (let scopeRoles = CollectedProfessionalRoles (d_ProfessionalRoleIDs draft0) in
      if scopeRoles = [] then ps\<lparr>ps_stats := (ps_stats ps)\<lparr>sx_Excluded := sx_Excluded (ps_stats ps) + 1\<rparr>\<rparr>
      else let draft = draft0\<lparr>d_ProfessionalRoleIDs := [ar_ID (primary_role (d_ProfessionalRoleIDs draft0) scopeRoles)]\<rparr>
        in case Normalize (ev_sha env) draft opts of
             Inl e \<Rightarrow> item_failed st runID item ''normalize'' (ev_text env (FromNormalizer e)) ps
           | Inr res \<Rightarrow>
               ps\<lparr>ps_writes := ps_writes ps @ [\<lparr>vw_Vacancy = nr_Vacancy res, vw_RegionName = d_RegionName draft,
                    vw_RawPayload = d_RawPayload draft, vw_ScopeRoleIDs = roleExternalIDs scopeRoles\<rparr>]\<rparr>)"

definition process_item :: "'w RunnerEnv \<Rightarrow> 'w Source \<Rightarrow> 's Store \<Rightarrow> string \<Rightarrow> Options \<Rightarrow> ('w, 's) PageState \<Rightarrow> SearchItem
    \<Rightarrow> ('w, 's) PageState" where
  "process_item env src st runID opts ps0 item =
     (let ps = ps0\<lparr>ps_stats := (ps_stats ps0)\<lparr>sx_Fetched := sx_Fetched (ps_stats ps0) + 1\<rparr>\<rparr> in
      case so_GetVacancyRaw src (ps_w ps) (it_ID item) of
        (w, Inl e) \<Rightarrow> fetch_failed env st runID item e (ps\<lparr>ps_w := w\<rparr>)
      | (w, Inr raw) \<Rightarrow>
          (let ps = ps\<lparr>ps_w := w\<rparr> in
           case DraftFromDetail (ev_parse env) raw (ev_now env w) of
             Inl e \<Rightarrow> item_failed st runID item ''adapt'' (ev_text env (FromAdapter e)) ps
           | Inr draft \<Rightarrow> keep_draft env st runID opts item draft ps))"

section \<open>The pages\<close>

record ('w, 's) RunState =
  ru_w :: 'w
  ru_s :: 's
  ru_stats :: Stats
  ru_page :: int
  ru_status :: string
  ru_fatal :: "pipeline_error option"
  ru_completed :: bool

definition search_query :: "Params \<Rightarrow> int \<Rightarrow> int \<Rightarrow> SearchQuery" where
  "search_query p perPage pageIdx = \<lparr>q_Text = pa_Text p, q_Area = pa_Area p, q_ProfessionalRole = pa_ProfessionalRole p,
     q_DateFrom = pa_DateFrom p, q_DateTo = pa_DateTo p, q_Page = pageIdx, q_PerPage = perPage\<rparr>"

text \<open>A failure that ends the run: counted, recorded, and kept as the fatal error.\<close>

definition fatal_stop :: "'s Store \<Rightarrow> string \<Rightarrow> string \<Rightarrow> string \<Rightarrow> pipeline_error \<Rightarrow> ('w, 's) RunState \<Rightarrow> ('w, 's) RunState" where
  "fatal_stop st runID stage msg e rs =
     rs\<lparr>ru_stats := incErrors (ru_stats rs), ru_s := fst (st_RecordError st (ru_s rs) runID '''' stage msg),
        ru_status := StatusFailed, ru_fatal := Some e\<rparr>"

text \<open>What follows the items of a page: the decision, the commit, the next page. The flag tells
  whether the loop goes on.\<close>

definition commit_page :: "'w RunnerEnv \<Rightarrow> 's Store \<Rightarrow> string \<Rightarrow> string \<Rightarrow> SearchPage \<Rightarrow> int \<Rightarrow> ('w, 's) PageState
    \<Rightarrow> ('w, 's) RunState \<Rightarrow> ('w, 's) RunState \<times> bool" where
  "commit_page env st runID scope search apiPages ps rs0 =
     (let rs = rs0\<lparr>ru_w := ps_w ps, ru_s := ps_s ps, ru_stats := ps_stats ps\<rparr>;
          dec = Decide \<lparr>po_AllOK = ps_ok ps, po_CurrentPage = ru_page rs, po_TotalPages = apiPages,
                        po_ItemCount = int (length (pg_Items search))\<rparr>
      in if \<not> de_Advance dec then
           (rs\<lparr>ru_status := if sx_Errors (ru_stats rs) > 0 \<and> ps_writes ps = [] then StatusFailed else StatusPartial\<rparr>, False)
         else (case st_SavePage st (ru_s rs) SourceCode scope (de_NextCursor dec) (ps_writes ps) of
             (s, Inl e) \<Rightarrow> (fatal_stop st runID ''upsert'' (ev_text env (FromStore e)) (UpsertFailed e) (rs\<lparr>ru_s := s\<rparr>), False)
           | (s, Inr (up, un)) \<Rightarrow>
               (rs\<lparr>ru_s := s,
                   ru_stats := (ru_stats rs)\<lparr>sx_Upserted := sx_Upserted (ru_stats rs) + up,
                                            sx_Unchanged := sx_Unchanged (ru_stats rs) + un\<rparr>,
                   ru_page := (case ParseCursorPage (de_NextCursor dec) of Inl _ \<Rightarrow> 0 | Inr n \<Rightarrow> n),
                   ru_completed := de_Terminal dec\<rparr>, \<not> de_Terminal dec)))"

definition run_page :: "'w RunnerEnv \<Rightarrow> 'w Source \<Rightarrow> 's Store \<Rightarrow> string \<Rightarrow> string \<Rightarrow> Options \<Rightarrow> Params \<Rightarrow> int
    \<Rightarrow> ('w, 's) RunState \<Rightarrow> ('w, 's) RunState \<times> bool" where
  "run_page env src st runID scope opts p perPage rs =
     (case so_SearchVacancies src (ru_w rs) (search_query p perPage (ru_page rs)) of
        (w, Inl e) \<Rightarrow> (fatal_stop st runID ''fetch'' (ev_text env (FromSource e)) (FetchFailed e) (rs\<lparr>ru_w := w\<rparr>), False)
      | (w, Inr search) \<Rightarrow>
          (let stats = (ru_stats rs)\<lparr>sx_Pages := sx_Pages (ru_stats rs) + 1\<rparr>;
               apiPages = min (pg_Pages search) (ResolvePageLimit 0 perPage);
               ps = foldl (process_item env src st runID opts)
                 \<lparr>ps_w = w, ps_s = ru_s rs, ps_stats = stats, ps_writes = [], ps_ok = True\<rparr> (pg_Items search)
           in commit_page env st runID scope search apiPages ps rs))"

text \<open>\<open>n\<close> is \<^verbatim>\<open>pageLimit - pagesDone\<close>.\<close>

fun run_pages :: "'w RunnerEnv \<Rightarrow> 'w Source \<Rightarrow> 's Store \<Rightarrow> string \<Rightarrow> string \<Rightarrow> Options \<Rightarrow> Params \<Rightarrow> int \<Rightarrow> nat
    \<Rightarrow> ('w, 's) RunState \<Rightarrow> ('w, 's) RunState" where
  "run_pages env src st runID scope opts p perPage 0 rs = rs"
| "run_pages env src st runID scope opts p perPage (Suc n) rs =
     (if ru_page rs < ResolvePageLimit 0 perPage then
        (case run_page env src st runID scope opts p perPage rs of
           (rs', True) \<Rightarrow> run_pages env src st runID scope opts p perPage n rs'
         | (rs', False) \<Rightarrow> rs')
      else rs)"

section \<open>A run\<close>

definition clamp_run_page :: "int \<Rightarrow> int" where
  "clamp_run_page n = (if n \<le> 0 \<or> n > MaxPerPage then MaxPerPage else n)"

definition run_scope :: "(string \<Rightarrow> string) \<Rightarrow> Params \<Rightarrow> string" where
  "run_scope sha p = ScopeHash sha SourceCode (if pa_Mode p = '''' then ''incremental'' else pa_Mode p) (pa_Area p) (pa_Text p)
     (clamp_run_page (pa_PerPage p))
     [pa_ProfessionalRole p, formatScopeTime (pa_DateFrom p), formatScopeTime (pa_DateTo p)]"

definition run_row :: "string \<Rightarrow> time \<Rightarrow> Params \<Rightarrow> IngestRun" where
  "run_row runID started p = \<lparr>rn_ID = runID, rn_Source = SourceCode,
     rn_Mode = (if pa_Mode p = '''' then ''incremental'' else pa_Mode p), rn_Status = StatusRunning,
     rn_Params = [(''area'', AnyString (pa_Area p)), (''text'', AnyString (pa_Text p)),
       (''professional_role'', AnyString (pa_ProfessionalRole p)),
       (''date_from'', AnyString (formatScopeTime (pa_DateFrom p))), (''date_to'', AnyString (formatScopeTime (pa_DateTo p))),
       (''max_pages'', AnyInt (pa_MaxPages p)), (''per_page'', AnyInt (clamp_run_page (pa_PerPage p)))],
     rn_RequestedBy = pa_RequestedBy p, rn_StartedAt = Some started, rn_FinishedAt = None, rn_Stats = [], rn_ErrorMsg = ''''\<rparr>"

definition no_result :: Result where
  "no_result = \<lparr>rs_RunID = '''', rs_Status = '''', rs_Stats = no_stats, rs_Completed = False\<rparr>"

definition run_options :: "Options \<Rightarrow> Options" where
  "run_options opts = (if o_Roles opts = None \<and> o_Skills opts = None \<and> o_Regions opts = None \<and> o_FX opts = None
     then DefaultOptions else opts)"

text \<open>The status the run ends with.\<close>

definition final_status :: "('w, 's) RunState \<Rightarrow> string" where
  "final_status rs =
     (let status = (if ru_fatal rs \<noteq> None \<and> ru_status rs = StatusSuccess then StatusFailed else ru_status rs)
      in if sx_Errors (ru_stats rs) > 0 \<and> status = StatusSuccess then StatusPartial else status)"

definition finish_run :: "'s Store \<Rightarrow> string \<Rightarrow> (pipeline_error \<Rightarrow> string) \<Rightarrow> ('w, 's) RunState
    \<Rightarrow> ('w \<times> 's) \<times> Result \<times> pipeline_error option" where
  "finish_run st runID text rs =
     (let status = final_status rs;
          errMsg = (case ru_fatal rs of None \<Rightarrow> '''' | Some e \<Rightarrow> truncate_msg (text e) 500);
          out = \<lparr>rs_RunID = runID, rs_Status = status, rs_Stats = ru_stats rs, rs_Completed = False\<rparr>
      in case st_FinishRun st (ru_s rs) runID status (ru_stats rs) errMsg of
           (s, Some err) \<Rightarrow>
             ((ru_w rs, s), out, Some (case ru_fatal rs of None \<Rightarrow> FinishRunFailed err
                                       | Some f \<Rightarrow> OperationAndFinishFailed f err))
         | (s, None) \<Rightarrow> ((ru_w rs, s), out\<lparr>rs_Completed := ru_completed rs\<rparr>, ru_fatal rs))"

definition Run :: "'w RunnerEnv \<Rightarrow> (pipeline_error \<Rightarrow> string) \<Rightarrow> 'w Source option \<Rightarrow> 's Store option \<Rightarrow> Options \<Rightarrow> string
    \<Rightarrow> Params \<Rightarrow> 'w \<Rightarrow> 's \<Rightarrow> ('w \<times> 's) \<times> Result \<times> pipeline_error option" where
  "Run env text src0 st0 opts0 runID p w s =
     (case (src0, st0) of
        (Some src, Some st) \<Rightarrow>
          (let perPage = clamp_run_page (pa_PerPage p);
               pageLimit = ResolvePageLimit (pa_MaxPages p) perPage;
               opts = run_options opts0;
               scope = run_scope (ev_sha env) p
           in case st_CreateRun st s (run_row runID (ev_now env w) p) of
                (s, Some e) \<Rightarrow> ((w, s), no_result, Some (CreateRunFailed e))
              | (s, None) \<Rightarrow>
                  (let failed = \<lparr>rs_RunID = runID, rs_Status = StatusFailed, rs_Stats = no_stats, rs_Completed = False\<rparr>
                   in case st_GetCheckpoint st s SourceCode scope of
                        Inl e \<Rightarrow>
                          ((w, fst (st_FinishRun st s runID StatusFailed no_stats ''checkpoint read failed'')), failed,
                           Some (CheckpointReadFailed e))
                      | Inr cursor \<Rightarrow>
                          (case ParseCursorPage (case cursor of None \<Rightarrow> '''' | Some c \<Rightarrow> c) of
                             Inl e \<Rightarrow>
                               ((w, fst (st_FinishRun st s runID StatusFailed no_stats ''bad checkpoint cursor'')), failed,
                                Some (BadCursor e))
                           | Inr pageIdx \<Rightarrow>
                               finish_run st runID text
                                 (run_pages env src st runID scope opts p perPage (nat pageLimit)
                                    \<lparr>ru_w = w, ru_s = s, ru_stats = no_stats, ru_page = pageIdx, ru_status = StatusSuccess,
                                     ru_fatal = None, ru_completed = False\<rparr>))))
      | _ \<Rightarrow> ((w, s), no_result, Some SourceAndStoreRequired))"

section \<open>Lemmas\<close>

lemma page_depth: "1 \<le> n \<Longrightarrow> n \<le> MaxPerPage \<Longrightarrow> 1 \<le> quot (MaxSearchResults + n - 1) n"
proof -
  assume n: "1 \<le> n" "n \<le> MaxPerPage"
  have "0 < (MaxSearchResults + n - 1) div n"
    using n by (subst pos_imp_zdiv_pos_iff) (simp_all add: MaxSearchResults_def)
  then show ?thesis using n by (simp add: MaxSearchResults_def)
qed

lemma clamp_run_page_range: "1 \<le> clamp_run_page n \<and> clamp_run_page n \<le> MaxPerPage"
  by (simp add: clamp_run_page_def MaxPerPage_def)

lemma ResolvePageLimit_range: "1 \<le> ResolvePageLimit r n \<and> ResolvePageLimit r n \<le> hardMaxPages"
proof -
  let ?n = "if n \<le> 0 \<or> n > MaxPerPage then MaxPerPage else n"
  have "1 \<le> quot (MaxSearchResults + ?n - 1) ?n" by (rule page_depth) (auto simp: MaxPerPage_def)
  then show ?thesis by (auto simp: ResolvePageLimit_def Let_def hardMaxPages_def min_def)
qed

text \<open>What handling \<open>n\<close> items of a page does to the counters.\<close>

definition items_done :: "('w, 's) PageState \<Rightarrow> ('w, 's) PageState \<Rightarrow> int \<Rightarrow> bool" where
  "items_done ps ps' n \<longleftrightarrow>
     sx_Fetched (ps_stats ps') = sx_Fetched (ps_stats ps) + n
     \<and> sx_Upserted (ps_stats ps') = sx_Upserted (ps_stats ps) \<and> sx_Unchanged (ps_stats ps') = sx_Unchanged (ps_stats ps)
     \<and> sx_Pages (ps_stats ps') = sx_Pages (ps_stats ps) \<and> sx_Errors (ps_stats ps) \<le> sx_Errors (ps_stats ps')
     \<and> (sx_Errors (ps_stats ps') = sx_Errors (ps_stats ps) \<longrightarrow> ps_ok ps' = ps_ok ps)
     \<and> int (length (ps_writes ps')) + sx_Excluded (ps_stats ps') + sx_Errors (ps_stats ps')
         = int (length (ps_writes ps)) + sx_Excluded (ps_stats ps) + sx_Errors (ps_stats ps) + n"

lemma items_done_trans: "items_done a b n \<Longrightarrow> items_done b c m \<Longrightarrow> items_done a c (n + m)"
  by (auto simp: items_done_def)

lemma fetch_failed_done:
  "items_done ps (fetch_failed env st runID item e (ps\<lparr>ps_stats := (ps_stats ps)\<lparr>sx_Fetched := sx_Fetched (ps_stats ps) + 1\<rparr>, ps_w := w\<rparr>)) 1"
  by (auto simp: fetch_failed_def items_done_def record_error_def incErrors_def Let_def split: prod.splits option.splits)

lemma process_item_done: "items_done ps (process_item env src st runID opts ps item) 1"
proof (cases "so_GetVacancyRaw src (ps_w ps) (it_ID item)")
  case (Pair w res)
  show ?thesis
  proof (cases res)
    case (Inl e)
    with Pair fetch_failed_done show ?thesis by (simp add: process_item_def Let_def)
  next
    case (Inr raw)
    with Pair show ?thesis
      by (auto simp: process_item_def items_done_def item_failed_def record_error_def incErrors_def keep_draft_def
          Let_def split: sum.splits)
  qed
qed

lemma process_items_done: "items_done ps (foldl (process_item env src st runID opts) ps items) (int (length items))"
proof (induction items arbitrary: ps)
  case Nil
  show ?case by (simp add: items_done_def)
next
  case (Cons item items)
  from items_done_trans [OF process_item_done Cons] show ?case by (simp add: add.commute)
qed

lemma finish_run_status: "rs_Status (fst (snd (finish_run st runID text rs))) = final_status rs"
  by (simp add: finish_run_def Let_def split: prod.split option.split)

text \<open>Where the stored cursor of a scope points.\<close>

definition cursor_at :: "'s Store \<Rightarrow> 's \<Rightarrow> string \<Rightarrow> int \<Rightarrow> bool" where
  "cursor_at st s scope page \<longleftrightarrow> (\<exists>c. st_GetCheckpoint st s SourceCode scope = Inr c
     \<and> ParseCursorPage (case c of None \<Rightarrow> '''' | Some x \<Rightarrow> x) = Inr page)"

definition same_cursors :: "'s Store \<Rightarrow> 's \<Rightarrow> 's \<Rightarrow> string set \<Rightarrow> bool" where
  "same_cursors st s s' except \<longleftrightarrow>
     (\<forall>scope. scope \<notin> except \<longrightarrow> st_GetCheckpoint st s' SourceCode scope = st_GetCheckpoint st s SourceCode scope)"

lemma same_cursors_refl [simp]: "same_cursors st s s X"
  by (simp add: same_cursors_def)

lemma same_cursors_trans: "same_cursors st a b X \<Longrightarrow> same_cursors st b c X \<Longrightarrow> same_cursors st a c X"
  by (simp add: same_cursors_def)

lemma same_cursors_mono: "same_cursors st a b {} \<Longrightarrow> same_cursors st a b X"
  by (simp add: same_cursors_def)

lemma cursor_at_same: "same_cursors st s s' {} \<Longrightarrow> cursor_at st s' scope page = cursor_at st s scope page"
  by (simp add: cursor_at_def same_cursors_def)

definition balanced :: "Stats \<Rightarrow> bool" where
  "balanced stats \<longleftrightarrow> sx_Upserted stats + sx_Unchanged stats + sx_Excluded stats \<le> sx_Fetched stats"

context checkpoint_store
begin

lemma record_error_cursors: "same_cursors st (ps_s ps) (ps_s (record_error st runID ext stage msg ps)) {}"
  by (simp add: record_error_def same_cursors_def record_frame)

lemma fetch_failed_cursors: "same_cursors st (ps_s ps) (ps_s (fetch_failed env st runID item e ps)) {}"
proof (cases "e = ErrNotFound")
  case True
  obtain s' r where i: "st_MarkVacancyInactive st (ps_s ps) SourceCode (it_ID item) ''detail_not_found'' = (s', r)"
    by fastforce
  from inactive_frame [of "ps_s ps" SourceCode "it_ID item" "''detail_not_found''"] i
  have "same_cursors st (ps_s ps) s' {}" by (simp add: same_cursors_def)
  with True i show ?thesis
    by (cases r) (simp_all add: fetch_failed_def record_error_def Let_def same_cursors_def record_frame)
qed (simp add: fetch_failed_def record_error_def Let_def same_cursors_def record_frame)

lemma process_item_cursors: "same_cursors st (ps_s ps) (ps_s (process_item env src st runID opts ps item)) {}"
proof (cases "so_GetVacancyRaw src (ps_w ps) (it_ID item)")
  case (Pair w res)
  show ?thesis
  proof (cases res)
    case (Inl e)
    then show ?thesis
      using Pair fetch_failed_cursors [of "ps\<lparr>ps_stats := (ps_stats ps)\<lparr>sx_Fetched := sx_Fetched (ps_stats ps) + 1\<rparr>, ps_w := w\<rparr>"]
      by (simp add: process_item_def Let_def)
  next
    case (Inr raw)
    with Pair show ?thesis
      by (auto simp: process_item_def item_failed_def record_error_def keep_draft_def same_cursors_def record_frame Let_def
          split: sum.splits)
  qed
qed

lemma process_items_cursors:
  "same_cursors st (ps_s ps) (ps_s (foldl (process_item env src st runID opts) ps items)) {}"
proof (induction items arbitrary: ps)
  case (Cons item items)
  from same_cursors_trans [OF process_item_cursors Cons] show ?case by simp
qed simp

lemma commit_page_effect:
  assumes "commit_page env st runID scope search apiPages ps rs = (rs', cont)"
    and items: "items_done ps0 ps (int (length (pg_Items search)))" "ps_writes ps0 = []" "ps_ok ps0"
    and before: "balanced (ps_stats ps0)" "cursor_at st (ps_s ps) scope (ru_page rs)" "\<not> ru_completed rs"
    and page: "0 \<le> ru_page rs" "ru_page rs < max_int"
  shows "same_cursors st (ps_s ps) (ru_s rs') {scope} \<and> balanced (ru_stats rs') \<and> cursor_at st (ru_s rs') scope (ru_page rs')
    \<and> sx_Errors (ps_stats ps) \<le> sx_Errors (ru_stats rs') \<and> sx_Pages (ru_stats rs') = sx_Pages (ps_stats ps)
    \<and> (if cont then ru_page rs' = ru_page rs + 1 \<and> \<not> ru_completed rs' \<and> ru_status rs' = ru_status rs \<and> ru_fatal rs' = ru_fatal rs
       else if ru_completed rs' then ru_page rs' = 0 \<and> ru_status rs' = ru_status rs \<and> ru_fatal rs' = ru_fatal rs
       else ru_page rs' = ru_page rs \<and> sx_Errors (ps_stats ps0) < sx_Errors (ru_stats rs'))"
proof -
  define dec where "dec = Decide \<lparr>po_AllOK = ps_ok ps, po_CurrentPage = ru_page rs, po_TotalPages = apiPages,
    po_ItemCount = int (length (pg_Items search))\<rparr>"
  have bal: "balanced (ps_stats ps)" and sum: "sx_Upserted (ps_stats ps) + sx_Unchanged (ps_stats ps) + sx_Excluded (ps_stats ps)
      + int (length (ps_writes ps)) \<le> sx_Fetched (ps_stats ps)"
    using items before(1) by (auto simp: items_done_def balanced_def)
  show ?thesis
  proof (cases "ps_ok ps")
    case False
    have "sx_Errors (ps_stats ps0) < sx_Errors (ps_stats ps)" using False items by (auto simp: items_done_def)
    moreover have "\<not> de_Advance dec" using False by (simp add: dec_def Decide_def)
    ultimately show ?thesis using assms(1) before bal by (auto simp: commit_page_def Let_def dec_def)
  next
    case True
    have adv: "de_Advance dec" using True by (simp add: dec_def Decide_def Let_def)
    have nx: "ParseCursorPage (de_NextCursor dec) = Inr (if de_Terminal dec then 0 else ru_page rs + 1)"
      using Decide_next [of "\<lparr>po_AllOK = ps_ok ps, po_CurrentPage = ru_page rs, po_TotalPages = apiPages,
        po_ItemCount = int (length (pg_Items search))\<rparr>"] True page unfolding dec_def by (auto simp: next_page_def)
    obtain s r where sv: "st_SavePage st (ps_s ps) SourceCode scope (de_NextCursor dec) (ps_writes ps) = (s, r)" by fastforce
    show ?thesis
    proof (cases r)
      case (Inl e)
      have same: "same_cursors st (ps_s ps) s {}" using save_atomic [OF sv [unfolded Inl]] by (simp add: same_cursors_def)
      let ?s' = "fst (st_RecordError st s runID '''' ''upsert'' (ev_text env (FromStore e)))"
      have same': "same_cursors st (ps_s ps) ?s' {}" using same by (simp add: same_cursors_def record_frame)
      have rs': "rs' = fatal_stop st runID ''upsert'' (ev_text env (FromStore e)) (UpsertFailed e)
          (rs\<lparr>ru_w := ps_w ps, ru_stats := ps_stats ps, ru_s := s\<rparr>)" "\<not> cont"
        using assms(1) adv sv Inl by (auto simp: commit_page_def Let_def dec_def)
      have "sx_Errors (ps_stats ps0) \<le> sx_Errors (ps_stats ps)" using items by (simp add: items_done_def)
      with rs' same' bal before cursor_at_same [OF same'] same_cursors_mono [OF same'] show ?thesis
        by (simp add: fatal_stop_def incErrors_def balanced_def)
    next
      case (Inr ud)
      obtain up un where ud: "ud = (up, un)" by fastforce
      have n: "up + un = int (length (ps_writes ps))" using save_count [OF sv [unfolded Inr ud]] by simp
      have rs': "ru_s rs' = s" "ru_stats rs' = (ps_stats ps)\<lparr>sx_Upserted := sx_Upserted (ps_stats ps) + up,
          sx_Unchanged := sx_Unchanged (ps_stats ps) + un\<rparr>"
        "ru_page rs' = (if de_Terminal dec then 0 else ru_page rs + 1)" "ru_completed rs' = de_Terminal dec"
        "cont = (\<not> de_Terminal dec)" "ru_status rs' = ru_status rs" "ru_fatal rs' = ru_fatal rs"
        using assms(1) adv sv Inr ud nx by (auto simp: commit_page_def Let_def dec_def)
      have "cursor_at st s scope (ru_page rs')"
        using save_read [OF sv [unfolded Inr]] nx rs' by (simp add: cursor_at_def)
      moreover have "same_cursors st (ps_s ps) s {scope}" using save_frame [OF sv] by (simp add: same_cursors_def)
      moreover have "balanced (ru_stats rs')" using n sum rs' by (simp add: balanced_def)
      ultimately show ?thesis using rs' by simp
    qed
  qed
qed

lemma run_page_effect:
  assumes "run_page env src st runID scope opts p perPage rs = (rs', cont)"
    and before: "balanced (ru_stats rs)" "cursor_at st (ru_s rs) scope (ru_page rs)" "\<not> ru_completed rs"
    and page: "0 \<le> ru_page rs" "ru_page rs < max_int"
  shows "same_cursors st (ru_s rs) (ru_s rs') {scope} \<and> balanced (ru_stats rs') \<and> cursor_at st (ru_s rs') scope (ru_page rs')
    \<and> sx_Errors (ru_stats rs) \<le> sx_Errors (ru_stats rs')
    \<and> sx_Pages (ru_stats rs) \<le> sx_Pages (ru_stats rs') \<and> sx_Pages (ru_stats rs') \<le> sx_Pages (ru_stats rs) + 1
    \<and> (if cont then ru_page rs' = ru_page rs + 1 \<and> \<not> ru_completed rs' \<and> ru_status rs' = ru_status rs
         \<and> ru_fatal rs' = ru_fatal rs \<and> sx_Pages (ru_stats rs') = sx_Pages (ru_stats rs) + 1
       else if ru_completed rs' then ru_page rs' = 0 \<and> ru_status rs' = ru_status rs \<and> ru_fatal rs' = ru_fatal rs
       else ru_page rs' = ru_page rs \<and> sx_Errors (ru_stats rs) < sx_Errors (ru_stats rs'))"
proof -
  obtain w res where q: "so_SearchVacancies src (ru_w rs) (search_query p perPage (ru_page rs)) = (w, res)" by fastforce
  show ?thesis
  proof (cases res)
    case (Inl e)
    let ?s = "fst (st_RecordError st (ru_s rs) runID '''' ''fetch'' (ev_text env (FromSource e)))"
    have same: "same_cursors st (ru_s rs) ?s {}" by (simp add: same_cursors_def record_frame)
    have "rs' = fatal_stop st runID ''fetch'' (ev_text env (FromSource e)) (FetchFailed e) (rs\<lparr>ru_w := w\<rparr>)" "\<not> cont"
      using assms(1) q Inl by (auto simp: run_page_def)
    with before cursor_at_same [OF same] same_cursors_mono [OF same] show ?thesis
      by (simp add: fatal_stop_def incErrors_def balanced_def)
  next
    case (Inr search)
    define ps0 where "ps0 = \<lparr>ps_w = w, ps_s = ru_s rs, ps_stats = (ru_stats rs)\<lparr>sx_Pages := sx_Pages (ru_stats rs) + 1\<rparr>,
      ps_writes = [], ps_ok = True\<rparr>"
    define ps where "ps = foldl (process_item env src st runID opts) ps0 (pg_Items search)"
    have cp: "commit_page env st runID scope search (min (pg_Pages search) (ResolvePageLimit 0 perPage)) ps rs = (rs', cont)"
      using assms(1) q Inr by (simp add: run_page_def Let_def ps_def ps0_def)
    have it: "items_done ps0 ps (int (length (pg_Items search)))" unfolding ps_def by (rule process_items_done)
    have same: "same_cursors st (ru_s rs) (ps_s ps) {}"
      using process_items_cursors [of ps0] by (simp add: ps_def ps0_def)
    have start: "ps_writes ps0 = []" "ps_ok ps0" "balanced (ps_stats ps0)"
      "sx_Errors (ps_stats ps0) = sx_Errors (ru_stats rs)" "sx_Pages (ps_stats ps0) = sx_Pages (ru_stats rs) + 1"
      using before(1) by (simp_all add: ps0_def balanced_def)
    have cur: "cursor_at st (ps_s ps) scope (ru_page rs)" using before(2) cursor_at_same [OF same] by simp
    note eff = commit_page_effect [OF cp it start(1-3) cur before(3) page]
    have "sx_Pages (ps_stats ps) = sx_Pages (ru_stats rs) + 1" "sx_Errors (ru_stats rs) \<le> sx_Errors (ps_stats ps)"
      using it start by (simp_all add: items_done_def)
    moreover have "same_cursors st (ru_s rs) (ru_s rs') {scope}"
      using eff same_cursors_trans [OF same_cursors_mono [OF same]] by blast
    ultimately show ?thesis using eff start by (simp split: if_splits)
  qed
qed

lemma run_pages_effect:
  fixes env src runID opts p perPage n
  assumes "balanced (ru_stats rs)" "cursor_at st (ru_s rs) scope (ru_page rs)" "\<not> ru_completed rs" "0 \<le> ru_page rs"
  defines "rs' \<equiv> run_pages env src st runID scope opts p perPage n rs"
  shows "same_cursors st (ru_s rs) (ru_s rs') {scope} \<and> balanced (ru_stats rs') \<and> cursor_at st (ru_s rs') scope (ru_page rs')
    \<and> sx_Errors (ru_stats rs) \<le> sx_Errors (ru_stats rs')
    \<and> sx_Pages (ru_stats rs) \<le> sx_Pages (ru_stats rs') \<and> sx_Pages (ru_stats rs') \<le> sx_Pages (ru_stats rs) + int n
    \<and> (if ru_completed rs' then ru_page rs' = 0
       else ru_page rs \<le> ru_page rs' \<and> ru_page rs' \<le> ru_page rs + (sx_Pages (ru_stats rs') - sx_Pages (ru_stats rs))
         \<and> (sx_Errors (ru_stats rs') = sx_Errors (ru_stats rs) \<longrightarrow>
              ru_page rs' = ru_page rs + (sx_Pages (ru_stats rs') - sx_Pages (ru_stats rs))))"
  unfolding rs'_def using assms(1-4)
proof (induction n arbitrary: rs)
  case (Suc n)
  show ?case
  proof (cases "ru_page rs < ResolvePageLimit 0 perPage")
    case True
    then have lt: "ru_page rs < max_int"
      using ResolvePageLimit_range [of 0 perPage] by (simp add: hardMaxPages_def max_int_def)
    obtain rs1 cont where r: "run_page env src st runID scope opts p perPage rs = (rs1, cont)" by fastforce
    note eff = run_page_effect [OF r Suc.prems lt]
    show ?thesis
    proof (cases cont)
      case c: True
      have run: "run_pages env src st runID scope opts p perPage (Suc n) rs = run_pages env src st runID scope opts p perPage n rs1"
        using True r c by simp
      have "balanced (ru_stats rs1)" "cursor_at st (ru_s rs1) scope (ru_page rs1)" "\<not> ru_completed rs1" "0 \<le> ru_page rs1"
        using eff c Suc.prems(4) by auto
      note IH = Suc.IH [OF this]
      have tr: "same_cursors st (ru_s rs) (ru_s (run_pages env src st runID scope opts p perPage n rs1)) {scope}"
        using eff same_cursors_trans [OF _ conjunct1 [OF IH]] by blast
      show ?thesis unfolding run using tr IH eff c by (auto split: if_splits)
    next
      case c: False
      have run: "run_pages env src st runID scope opts p perPage (Suc n) rs = rs1" using True r c by simp
      show ?thesis unfolding run using eff c by (auto split: if_splits)
    qed
  qed (use Suc.prems in simp)
qed simp

lemma Run_unfold:
  assumes "Run env text (Some src) (Some st) opts0 runID p w s = ((w', s'), res, err)"
    "cursor_at st s (run_scope (ev_sha env) p) page"
  obtains (rejected) e where "err = Some (CreateRunFailed e)" "res = no_result" "same_cursors st s s' {}"
  | (ran) rs where "rs = run_pages env src st runID (run_scope (ev_sha env) p) (run_options opts0) p
        (clamp_run_page (pa_PerPage p)) (nat (ResolvePageLimit (pa_MaxPages p) (clamp_run_page (pa_PerPage p))))
        \<lparr>ru_w = w, ru_s = fst (st_CreateRun st s (run_row runID (ev_now env w) p)), ru_stats = no_stats, ru_page = page,
         ru_status = StatusSuccess, ru_fatal = None, ru_completed = False\<rparr>"
      "finish_run st runID text rs = ((w', s'), res, err)"
proof (cases "st_CreateRun st s (run_row runID (ev_now env w) p)")
  case (Pair s1 r)
  have same: "same_cursors st s s1 {}"
    using create_frame [of s "run_row runID (ev_now env w) p"] Pair by (simp add: same_cursors_def)
  show ?thesis
  proof (cases r)
    case (Some e)
    with assms(1) Pair same show ?thesis by (intro rejected [of e]) (auto simp: Run_def Let_def)
  next
    case None
    have "cursor_at st s1 (run_scope (ev_sha env) p) page" using assms(2) cursor_at_same [OF same] by simp
    then obtain c where "st_GetCheckpoint st s1 SourceCode (run_scope (ev_sha env) p) = Inr c"
      "ParseCursorPage (case c of None \<Rightarrow> '''' | Some x \<Rightarrow> x) = Inr page" by (auto simp: cursor_at_def)
    with assms(1) Pair None show ?thesis by (intro ran [OF refl]) (simp add: Run_def Let_def)
  qed
qed

lemma finish_run_effect:
  assumes "finish_run st runID text rs = ((w', s'), res, err)"
  shows "same_cursors st (ru_s rs) s' {} \<and> rs_Stats res = ru_stats rs \<and> rs_Status res = final_status rs
    \<and> (rs_Completed res \<longrightarrow> ru_completed rs) \<and> (err = None \<longrightarrow> rs_Completed res = ru_completed rs \<and> ru_fatal rs = None)"
proof -
  let ?msg = "case ru_fatal rs of None \<Rightarrow> '''' | Some e \<Rightarrow> truncate_msg (text e) 500"
  obtain s1 r where f: "st_FinishRun st (ru_s rs) runID (final_status rs) (ru_stats rs) ?msg = (s1, r)" by fastforce
  have "same_cursors st (ru_s rs) s1 {}"
    using finish_frame [of "ru_s rs" runID "final_status rs" "ru_stats rs" ?msg] f by (simp add: same_cursors_def)
  with assms f show ?thesis by (cases r) (auto simp: finish_run_def Let_def)
qed

text \<open>The cursor after a run, whatever the source answered.\<close>

lemma Run_cursor:
  assumes "Run env text (Some src) (Some st) opts0 runID p w s = ((w', s'), res, err)"
    "cursor_at st s (run_scope (ev_sha env) p) page" "0 \<le> page"
  defines "scope \<equiv> run_scope (ev_sha env) p" and "stats \<equiv> rs_Stats res"
  shows "same_cursors st s s' {scope} \<and> balanced stats \<and> 0 \<le> sx_Pages stats
    \<and> sx_Pages stats \<le> ResolvePageLimit (pa_MaxPages p) (clamp_run_page (pa_PerPage p))
    \<and> (\<exists>page'. cursor_at st s' scope page' \<and> (rs_Completed res \<longrightarrow> page' = 0)
        \<and> (page' = 0 \<or> page \<le> page' \<and> page' \<le> page + sx_Pages stats)
        \<and> (err = None \<and> sx_Errors stats = 0 \<and> \<not> rs_Completed res \<longrightarrow> page' = page + sx_Pages stats))"
  using assms(1,2)
proof (cases rule: Run_unfold)
  case (rejected e)
  have "cursor_at st s' scope page" using assms(2) cursor_at_same [OF rejected(3)] by (simp add: scope_def)
  with rejected show ?thesis
    using ResolvePageLimit_range [of "pa_MaxPages p" "clamp_run_page (pa_PerPage p)"] assms(3)
    by (auto simp: same_cursors_def stats_def no_result_def no_stats_def balanced_def)
next
  case (ran rs)
  let ?rs0 = "\<lparr>ru_w = w, ru_s = fst (st_CreateRun st s (run_row runID (ev_now env w) p)), ru_stats = no_stats, ru_page = page,
         ru_status = StatusSuccess, ru_fatal = None, ru_completed = False\<rparr>"
  have same: "same_cursors st s (ru_s ?rs0) {}" by (simp add: same_cursors_def create_frame)
  have start: "balanced (ru_stats ?rs0)" "cursor_at st (ru_s ?rs0) scope (ru_page ?rs0)" "\<not> ru_completed ?rs0" "0 \<le> ru_page ?rs0"
    using assms(2,3) cursor_at_same [OF same] by (simp_all add: balanced_def no_stats_def scope_def)
  note eff = run_pages_effect [OF start, of env src runID "run_options opts0" p "clamp_run_page (pa_PerPage p)"
      "nat (ResolvePageLimit (pa_MaxPages p) (clamp_run_page (pa_PerPage p)))", folded ran(1) [folded scope_def]]
  note fin = finish_run_effect [OF ran(2)]
  have "cursor_at st (ru_s rs) scope (ru_page rs)" using eff by blast
  then have c: "cursor_at st s' scope (ru_page rs)" by (simp only: cursor_at_same [OF conjunct1 [OF fin]])
  have "same_cursors st s s' {scope}"
    by (rule same_cursors_trans [OF same_cursors_mono [OF same]
          same_cursors_trans [OF conjunct1 [OF eff] same_cursors_mono [OF conjunct1 [OF fin]]]])
  moreover have "0 \<le> ResolvePageLimit (pa_MaxPages p) (clamp_run_page (pa_PerPage p))"
    using ResolvePageLimit_range [of "pa_MaxPages p" "clamp_run_page (pa_PerPage p)"] by simp
  ultimately show ?thesis using eff fin c
    by (intro conjI exI [of _ "ru_page rs"]) (auto simp: stats_def no_stats_def split: if_splits)
qed

end

section \<open>Properties\<close>

definition empty_source :: "unit Source" where
  "empty_source = \<lparr>so_SearchVacancies = (\<lambda>w q. (w, Inr \<lparr>pg_Found = 0, pg_Page = 0, pg_Pages = 0, pg_PerPage = 1, pg_Items = []\<rparr>)),
     so_GetVacancyRaw = (\<lambda>w i. (w, Inl ErrNotFound))\<rparr>"

definition plain_env :: "unit RunnerEnv" where
  "plain_env = \<lparr>ev_now = (\<lambda>w. Day), ev_text = (\<lambda>e. ''''), ev_sha = id, ev_parse = hh_env\<rparr>"

definition plain_params :: Params where
  "plain_params = \<lparr>pa_Area = ''113'', pa_Text = '''', pa_ProfessionalRole = ''96'', pa_DateFrom = 0, pa_DateTo = 0,
     pa_Mode = '''', pa_MaxPages = 0, pa_PerPage = 100, pa_RequestedBy = ''''\<rparr>"

lemma new_memory_cursor: "cursor_at memory_store NewMemory scope 0"
  by (simp add: cursor_at_def memory_store_def GetCheckpoint_def NewMemory_def ParseCursorPage_def bytes_simps)

text \<open>
  C3. The checkpoint contract of a run, for any source and any store that keeps the store
  contract: a run moves only the cursor of its own scope and never past a page that it did not
  fetch. The new cursor is the first page again or lies between the old one and the old
  one plus the pages fetched; after a run without errors it has moved over exactly the pages
  fetched, and after a completed run it is the first page. A run fetches at most the bounded
  number of pages and never reports more vacancies stored or excluded than fetched.
\<close>

theorem Run_checkpoint:
  assumes "checkpoint_store st"
    and "Run env text (Some src) (Some st) opts0 runID p w s = ((w', s'), res, err)"
    and "cursor_at st s (run_scope (ev_sha env) p) page" "0 \<le> page"
  defines "scope \<equiv> run_scope (ev_sha env) p" and "stats \<equiv> rs_Stats res"
  shows "same_cursors st s s' {scope} \<and> balanced stats \<and> 0 \<le> sx_Pages stats
    \<and> sx_Pages stats \<le> ResolvePageLimit (pa_MaxPages p) (clamp_run_page (pa_PerPage p))
    \<and> (\<exists>page'. cursor_at st s' scope page' \<and> (rs_Completed res \<longrightarrow> page' = 0)
        \<and> (page' = 0 \<or> page \<le> page' \<and> page' \<le> page + sx_Pages stats)
        \<and> (err = None \<and> sx_Errors stats = 0 \<and> \<not> rs_Completed res \<longrightarrow> page' = page + sx_Pages stats))"
  using checkpoint_store.Run_cursor [OF assms(1-4)] unfolding scope_def stats_def .

theorem Run_checkpoint_witness:
  "\<exists>w' s' res err. Run plain_env (\<lambda>e. '''') (Some empty_source) (Some memory_store) DefaultOptions ''r'' plain_params () NewMemory
       = ((w', s'), res, err) \<and> balanced (rs_Stats res)"
proof -
  obtain w' s' res err where r: "Run plain_env (\<lambda>e. '''') (Some empty_source) (Some memory_store) DefaultOptions ''r'' plain_params
      () NewMemory = ((w', s'), res, err)" by (metis surj_pair)
  from Run_checkpoint [OF memory.checkpoint_store_axioms r new_memory_cursor order_refl] r show ?thesis by blast
qed

text \<open>
  A run that reports success met no error: none was counted, and nothing went wrong
  except possibly the final bookkeeping of the run itself.
\<close>

theorem Run_success_honest:
  assumes "Run env text src st opts runID p w s = (ws, res, err)" "rs_Status res = StatusSuccess"
  shows "sx_Errors (rs_Stats res) \<le> 0 \<and> (err = None \<or> (\<exists>e. err = Some (FinishRunFailed e)))"
proof -
  have fin: "sx_Errors (rs_Stats res) \<le> 0 \<and> (err = None \<or> (\<exists>e. err = Some (FinishRunFailed e)))"
    if f: "finish_run st' runID text rs = (ws, res, err)" for st' rs
  proof -
    have "final_status rs = StatusSuccess" "rs_Stats res = ru_stats rs" using f assms(2)
      by (auto simp: finish_run_def Let_def split: prod.splits option.splits)
    moreover from this(1) have "\<not> 0 < sx_Errors (ru_stats rs)" "ru_fatal rs = None"
      by (auto simp: final_status_def Let_def run_status split: if_splits)
    ultimately show ?thesis using f by (auto simp: finish_run_def Let_def split: prod.splits option.splits)
  qed
  show ?thesis
    using assms by (auto simp: Run_def Let_def no_result_def run_status split: option.splits prod.splits sum.splits dest!: fin)
qed

theorem Run_success_honest_witness:
  "\<exists>ws res err. Run plain_env (\<lambda>e. '''') (Some empty_source) (Some memory_store) DefaultOptions ''r'' plain_params () NewMemory
       = (ws, res, err) \<and> rs_Status res = StatusSuccess \<and> sx_Errors (rs_Stats res) \<le> 0"
proof -
  let ?run = "Run plain_env (\<lambda>e. '''') (Some empty_source) (Some memory_store) DefaultOptions ''r'' plain_params () NewMemory"
  have lim: "ResolvePageLimit 0 100 = 20" "ResolvePageLimit (pa_MaxPages plain_params) 100 = 20"
    by (simp_all add: ResolvePageLimit_def MaxPerPage_def MaxSearchResults_def hardMaxPages_def plain_params_def)
  have pp: "clamp_run_page (pa_PerPage plain_params) = 100"
    by (simp add: clamp_run_page_def plain_params_def MaxPerPage_def)
  have n: "(20::nat) = Suc 19" by simp
  have step: "final_status (run_pages plain_env empty_source memory_store runID scope opts p 100 (Suc k) rs) = StatusSuccess"
    if "ru_page rs = 0" "ru_stats rs = no_stats" "ru_status rs = StatusSuccess" "ru_fatal rs = None" for runID scope opts p k rs
    using that by (simp add: lim run_page_def empty_source_def commit_page_def Decide_def final_status_def no_stats_def
        memory_store_def SavePage_def run_status)
  have one: "final_status (run_pages plain_env empty_source memory_store runID scope opts p 100 20 rs) = StatusSuccess"
    if "ru_page rs = 0" "ru_stats rs = no_stats" "ru_status rs = StatusSuccess" "ru_fatal rs = None" for runID scope opts p rs
    unfolding n by (rule step [OF that])
  define s1 where "s1 t = fst (st_CreateRun memory_store NewMemory (run_row ''r'' t plain_params))" for t
  have s1: "st_CreateRun memory_store NewMemory (run_row ''r'' t plain_params) = (s1 t, None)"
    "st_GetCheckpoint memory_store (s1 t) a b = Inr None" for t a b
    by (simp_all add: s1_def memory_store_def CreateRun_def GetCheckpoint_def NewMemory_def)
  have c: "ParseCursorPage '''' = Inr 0" by (simp add: ParseCursorPage_def TrimSpace_def)
  obtain ws res err where r1: "?run = (ws, res, err)" by (metis surj_pair)
  have "rs_Status (fst (snd ?run)) = StatusSuccess"
    unfolding Run_def option.case prod.case Let_def lim pp s1 c sum.case by (simp add: one finish_run_status)
  then have r: "?run = (ws, res, err)" "rs_Status res = StatusSuccess" using r1 by simp_all
  from Run_success_honest [OF r] r show ?thesis by blast
qed

text \<open>
  The number of pages a run may ask for is never zero, never more than the hard limit or
  what the API serves, and never more than what the caller asked for.
\<close>

theorem ResolvePageLimit_bounds:
  "1 \<le> ResolvePageLimit requested perPage \<and> ResolvePageLimit requested perPage \<le> hardMaxPages
   \<and> (requested \<le> 0 \<or> ResolvePageLimit requested perPage \<le> requested)
   \<and> (ResolvePageLimit requested perPage - 1) * clamp_run_page perPage < MaxSearchResults"
proof -
  let ?n = "clamp_run_page perPage" and ?l = "ResolvePageLimit requested perPage"
  have n: "1 \<le> ?n" using clamp_run_page_range by simp
  have "?l \<le> (MaxSearchResults + ?n - 1) div ?n" "requested \<le> 0 \<or> ?l \<le> requested"
    using n by (auto simp: ResolvePageLimit_def Let_def clamp_run_page_def MaxSearchResults_def MaxPerPage_def)
  moreover have "(MaxSearchResults + ?n - 1) div ?n * ?n \<le> MaxSearchResults + ?n - 1"
    using n by (metis div_mult_mod_eq le_add_same_cancel1 pos_mod_sign zero_less_one less_le_trans)
  moreover have "?l * ?n \<le> (MaxSearchResults + ?n - 1) div ?n * ?n"
    using calculation(1) n by (intro mult_right_mono) auto
  ultimately show ?thesis using ResolvePageLimit_range [of requested perPage] by (simp add: algebra_simps)
qed

end
