(* ===== verification/Scheduler.thy ===== *)
theory Scheduler
  imports Go_Time
begin

text \<open>
  The periodic scheduler, \<^verbatim>\<open>apps/ingest/internal/scheduler/scheduler.go\<close>, and the advisory lock
  it holds around a batch, \<^verbatim>\<open>apps/ingest/internal/store/advisory_lock.go\<close>. The engine is a state
  machine: one transition per branch of its \<^verbatim>\<open>select\<close> statements, one for a goroutine that ends
  its batch, and the ones of the environment (time passes, a timer fires, the context is
  cancelled). Go picks any branch that is ready, so the relation allows them all. The batch, the
  clock and the random numbers are arguments or choices of the environment.
\<close>

section \<open>Settings\<close>

record SchedConfig =
  sc_Interval :: duration
  sc_RunOnStart :: bool
  sc_BackoffInitial :: duration
  sc_BackoffMax :: duration
  sc_JitterPercent :: float64
  sc_ShutdownTimeout :: duration

datatype sched_config_error =
    IntervalTooShort duration
  | BackoffInitialNotPositive
  | BackoffMaxTooSmall
  | JitterOutOfRange
  | ShutdownTimeoutNotPositive

definition Config_Validate :: "SchedConfig \<Rightarrow> bool \<Rightarrow> sched_config_error option" where
  "Config_Validate c testMode =
     (let minInterval = (if testMode then Millisecond else 10 * Minute) in
      if sc_Interval c < minInterval then Some (IntervalTooShort minInterval)
      else if sc_BackoffInitial c \<le> 0 then Some BackoffInitialNotPositive
      else if sc_BackoffMax c < sc_BackoffInitial c then Some BackoffMaxTooSmall
      else if sc_JitterPercent c < 0 \<or> sc_JitterPercent c > 100 then Some JitterOutOfRange
      else if sc_ShutdownTimeout c \<le> 0 then Some ShutdownTimeoutNotPositive
      else None)"

section \<open>Batches and the lock around them\<close>

record BatchStats =
  bs_Fetched :: int
  bs_Upserted :: int
  bs_Unchanged :: int
  bs_Excluded :: int
  bs_Errors :: int
  bs_Pages :: int

record SchedBatchResult =
  br_IngestRunID :: string
  br_Stats :: BatchStats
  br_CycleComplete :: bool

definition no_batch_result :: SchedBatchResult where
  "no_batch_result = \<lparr>br_IngestRunID = '''', br_Stats = \<lparr>bs_Fetched = 0, bs_Upserted = 0, bs_Unchanged = 0,
     bs_Excluded = 0, bs_Errors = 0, bs_Pages = 0\<rparr>, br_CycleComplete = False\<rparr>"

text \<open>Errors as values: \<open>SchedOther\<close> is any error that is neither of the three the package tests for,
  \<open>SchedJoin\<close> is what \<^verbatim>\<open>errors.Join\<close> makes of two errors, and \<open>sched_is\<close> is \<^verbatim>\<open>errors.Is\<close>.\<close>

datatype sched_error =
    ErrLockUnavailable
  | ContextCanceled
  | ContextDeadlineExceeded
  | SchedOther string
  | SchedJoin sched_error sched_error

fun sched_is :: "sched_error \<Rightarrow> sched_error \<Rightarrow> bool" where
  "sched_is (SchedJoin a b) target \<longleftrightarrow> sched_is a target \<or> sched_is b target"
| "sched_is e target \<longleftrightarrow> e = target"

definition join_errors :: "sched_error option \<Rightarrow> sched_error \<Rightarrow> sched_error" where
  "join_errors err releaseErr = (case err of None \<Rightarrow> releaseErr | Some e \<Rightarrow> SchedJoin e releaseErr)"

type_synonym 'w Batch = "'w \<Rightarrow> string \<Rightarrow> 'w \<times> SchedBatchResult \<times> sched_error option"
type_synonym 'w ReleaseLock = "'w \<Rightarrow> 'w \<times> sched_error option"
type_synonym 'w AcquireLock = "'w \<Rightarrow> 'w \<times> (sched_error + 'w ReleaseLock option)"

definition WithLock :: "'w AcquireLock \<Rightarrow> 'w Batch \<Rightarrow> 'w Batch" where
  "WithLock acquire batch w schedulerRunID =
     (case acquire w of
        (w, Inl err) \<Rightarrow> (w, no_batch_result, Some err)
      | (w, Inr None) \<Rightarrow> (w, no_batch_result, Some ErrLockUnavailable)
      | (w, Inr (Some release)) \<Rightarrow>
          (case batch w schedulerRunID of (w, res, err) \<Rightarrow>
             (case release w of
                (w, None) \<Rightarrow> (w, res, err)
              | (w, Some releaseErr) \<Rightarrow> (w, res, Some (join_errors err releaseErr)))))"

definition errorCategory :: "sched_error option \<Rightarrow> string" where
  "errorCategory err = (case err of None \<Rightarrow> ''''
     | Some e \<Rightarrow> if sched_is e ContextCanceled then ''canceled''
         else if sched_is e ContextDeadlineExceeded then ''timeout'' else ''dependency'')"

section \<open>The advisory lock\<close>

text \<open>The connection pool and the database are an argument: connections are numbered, and every
  operation acts on a world.\<close>

record 'w PgPool =
  pp_Acquire :: "'w \<Rightarrow> 'w \<times> (sched_error + nat)"
  pp_TryLock :: "'w \<Rightarrow> nat \<Rightarrow> int \<Rightarrow> 'w \<times> (sched_error + bool)"
  pp_Unlock :: "'w \<Rightarrow> nat \<Rightarrow> int \<Rightarrow> 'w \<times> (sched_error + bool)"
  pp_Release :: "'w \<Rightarrow> nat \<Rightarrow> 'w"
  pp_HijackClose :: "'w \<Rightarrow> nat \<Rightarrow> 'w"

definition SchedulerAdvisoryLockKey :: int where "SchedulerAdvisoryLockKey = 549004801"
definition DiscoveryAdvisoryLockKey :: int where "DiscoveryAdvisoryLockKey = 549004804"

record AdvisoryLock =
  al_conn :: "nat option"
  al_key :: int
  al_once :: bool

definition tryAdvisoryLock :: "'w PgPool \<Rightarrow> int \<Rightarrow> 'w \<Rightarrow> 'w \<times> (sched_error + AdvisoryLock option)" where
  "tryAdvisoryLock pool key w =
     (case pp_Acquire pool w of
        (w, Inl e) \<Rightarrow> (w, Inl e)
      | (w, Inr conn) \<Rightarrow>
          (case pp_TryLock pool w conn key of
             (w, Inl e) \<Rightarrow> (pp_Release pool w conn, Inl e)
           | (w, Inr acquired) \<Rightarrow>
               if \<not> acquired then (pp_Release pool w conn, Inr None)
               else (w, Inr (Some \<lparr>al_conn = Some conn, al_key = key, al_once = False\<rparr>))))"

definition TrySchedulerLock :: "'w PgPool \<Rightarrow> 'w \<Rightarrow> 'w \<times> (sched_error + AdvisoryLock option)" where
  "TrySchedulerLock pool = tryAdvisoryLock pool SchedulerAdvisoryLockKey"

definition TryDiscoveryLock :: "'w PgPool \<Rightarrow> 'w \<Rightarrow> 'w \<times> (sched_error + AdvisoryLock option)" where
  "TryDiscoveryLock pool = tryAdvisoryLock pool DiscoveryAdvisoryLockKey"

definition lock_not_held :: sched_error where
  "lock_not_held = SchedOther ''store release scheduler advisory lock: lock was not held''"

definition AdvisoryLock_Release :: "'w PgPool \<Rightarrow> AdvisoryLock \<Rightarrow> 'w \<Rightarrow> AdvisoryLock \<times> 'w \<times> sched_error option" where
  "AdvisoryLock_Release pool l w =
     (case al_conn l of
        None \<Rightarrow> (l, w, None)
      | Some conn \<Rightarrow>
          if al_once l then (l, w, None)
          else
            (let l = l\<lparr>al_once := True, al_conn := None\<rparr> in
             case pp_Unlock pool w conn (al_key l) of
               (w, Inl e) \<Rightarrow> (l, pp_HijackClose pool w conn, Some e)
             | (w, Inr unlocked) \<Rightarrow>
                 if \<not> unlocked then (l, pp_HijackClose pool w conn, Some lock_not_held)
                 else (l, pp_Release pool w conn, None)))"

text \<open>How \<^verbatim>\<open>cmd/scheduler\<close> hands the lock to \<open>WithLock\<close>.\<close>

definition scheduler_acquire :: "'w PgPool \<Rightarrow> 'w AcquireLock" where
  "scheduler_acquire pool w =
     (case TrySchedulerLock pool w of
        (w, Inl e) \<Rightarrow> (w, Inl e)
      | (w, Inr None) \<Rightarrow> (w, Inr None)
      | (w, Inr (Some l)) \<Rightarrow> (w, Inr (Some (\<lambda>w. snd (AdvisoryLock_Release pool l w)))))"

section \<open>The delay after a failure\<close>

text \<open>The loop of \<^verbatim>\<open>backoff\<close>; \<open>n\<close> is \<^verbatim>\<open>failures - i\<close>.\<close>

fun backoff_loop :: "duration \<Rightarrow> nat \<Rightarrow> duration \<Rightarrow> duration" where
  "backoff_loop bmax 0 delay = delay"
| "backoff_loop bmax (Suc n) delay =
     (if delay < bmax then
        (if delay > quot bmax 2 then bmax else backoff_loop bmax n (wrap64 (delay * 2)))
      else delay)"

text \<open>\<^verbatim>\<open>time.Duration(x)\<close> of a non-negative float drops the fraction; beyond \<^verbatim>\<open>int64\<close> the language
  leaves the value to the implementation, and the processor's conversion yields the smallest one.\<close>

definition duration_of_float :: "float64 \<Rightarrow> duration" where
  "duration_of_float x = (if \<lfloor>x\<rfloor> \<le> max_int then \<lfloor>x\<rfloor> else min_int)"

definition sched_backoff :: "SchedConfig \<Rightarrow> int \<Rightarrow> float64 \<Rightarrow> duration" where
  "sched_backoff cfg failures v =
     (let delay = backoff_loop (sc_BackoffMax cfg) (nat (failures - 1)) (sc_BackoffInitial cfg);
          delay = (if delay > sc_BackoffMax cfg then sc_BackoffMax cfg else delay);
          spread = of_int delay * sc_JitterPercent cfg / 100;
          jittered = of_int delay - spread + 2 * spread * v
      in if jittered < 0 then 0 else duration_of_float jittered)"

section \<open>The engine\<close>

text \<open>A timer is stopped, armed with a deadline, or has a tick waiting in its channel. Its \<^verbatim>\<open>Reset\<close>
  drains the channel before it arms the timer again.\<close>

datatype sched_timer = TimerStopped | TimerArmed time | TimerFired

definition timer_Reset :: "time \<Rightarrow> duration \<Rightarrow> sched_timer \<Rightarrow> sched_timer" where
  "timer_Reset now d t = TimerArmed (now + d)"

record goroutine =
  go_id :: string
  go_trigger :: string
  go_started :: time
  go_ctx :: nat

record runOutcome =
  oc_id :: string
  oc_trigger :: string
  oc_started :: time
  oc_result :: SchedBatchResult
  oc_err :: "sched_error option"
  oc_category :: string

datatype sched_log =
    TriggerSkippedOverlap string time
  | RunStarted string string
  | TriggerSkippedLocked string string
  | RunFailed runOutcome duration
  | RunFinished runOutcome duration
  | NextRunScheduled time duration int
  | ShutdownTimeoutHit duration

datatype engine_phase = Selecting | ShuttingDown | EngineReturned "sched_error option"

text \<open>Run contexts are numbered in the order they are made. \<open>en_contexts\<close> are those still registered
  with the engine's context: one leaves only when its cancel function is called.\<close>

record engine =
  en_now :: time
  en_ctx_done :: bool
  en_active :: bool
  en_failures :: int
  en_cancelRun :: "nat option"
  en_timer :: sched_timer
  en_wait :: sched_timer
  en_running :: "goroutine list"
  en_done :: "runOutcome list"
  en_next_ctx :: nat
  en_contexts :: "nat list"
  en_cancelled :: "nat list"
  en_phase :: engine_phase
  en_log :: "sched_log list"

definition emit :: "sched_log \<Rightarrow> engine \<Rightarrow> engine" where
  "emit x s = s\<lparr>en_log := en_log s @ [x]\<rparr>"

definition newSchedulerRunID :: "time \<Rightarrow> string" where
  "newSchedulerRunID now = ''sched_'' @ Itoa (wrap64 (now - 719162 * Day))"

definition reset_timer :: "duration \<Rightarrow> engine \<Rightarrow> engine" where
  "reset_timer d s = s\<lparr>en_timer := timer_Reset (en_now s) d (en_timer s)\<rparr>"

definition start :: "SchedConfig \<Rightarrow> string \<Rightarrow> engine \<Rightarrow> engine" where
  "start cfg trigger s =
     (if en_active s then
        reset_timer (sc_Interval cfg) (emit (TriggerSkippedOverlap trigger (en_now s + sc_Interval cfg)) s)
      else
        let schedulerRunID = newSchedulerRunID (en_now s);
            s = s\<lparr>en_active := True, en_cancelRun := Some (en_next_ctx s),
                  en_next_ctx := en_next_ctx s + 1, en_contexts := en_contexts s @ [en_next_ctx s]\<rparr>;
            s = emit (RunStarted schedulerRunID trigger) s
        in s\<lparr>en_running := en_running s @ [\<lparr>go_id = schedulerRunID, go_trigger = trigger,
               go_started = en_now s, go_ctx = en_next_ctx s - 1\<rparr>]\<rparr>)"

definition new_engine :: "SchedConfig \<Rightarrow> time \<Rightarrow> engine" where
  "new_engine cfg now =
     (let s = \<lparr>en_now = now, en_ctx_done = False, en_active = False, en_failures = 0, en_cancelRun = None,
               en_timer = TimerArmed (now + sc_Interval cfg), en_wait = TimerStopped, en_running = [], en_done = [],
               en_next_ctx = 0, en_contexts = [], en_cancelled = [], en_phase = Selecting, en_log = []\<rparr>
      in if sc_RunOnStart cfg then start cfg ''startup'' s else s)"

text \<open>\<^verbatim>\<open>Run\<close> up to its loop; \<open>hasBatch\<close> tells whether a batch is configured.\<close>

definition Engine_Run :: "bool \<Rightarrow> SchedConfig \<Rightarrow> time \<Rightarrow> sched_error + engine" where
  "Engine_Run hasBatch cfg now =
     (if \<not> hasBatch then Inl (SchedOther ''scheduler: batch is required'') else Inr (new_engine cfg now))"

definition finish :: "runOutcome \<Rightarrow> engine \<Rightarrow> engine" where
  "finish out s0 =
     (let s = s0\<lparr>en_active := False\<rparr>; took = Sub (en_now s) (oc_started out) in
      case oc_err out of
        None \<Rightarrow> emit (RunFinished out took) s
      | Some e \<Rightarrow> if sched_is e ErrLockUnavailable then emit (TriggerSkippedLocked (oc_id out) (oc_trigger out)) s
          else emit (RunFailed out took) s)"

text \<open>The branches of the \<^verbatim>\<open>select\<close> in the loop of \<^verbatim>\<open>Run\<close>.\<close>

definition on_timer :: "SchedConfig \<Rightarrow> engine \<Rightarrow> engine" where
  "on_timer cfg s = reset_timer (sc_Interval cfg) (start cfg ''interval'' (s\<lparr>en_timer := TimerStopped\<rparr>))"

definition on_outcome :: "SchedConfig \<Rightarrow> float64 \<Rightarrow> runOutcome \<Rightarrow> engine \<Rightarrow> engine" where
  "on_outcome cfg v out s0 =
     (let s = finish out (s0\<lparr>en_active := False, en_cancelRun := None\<rparr>);
          (failures, delay) =
            (case oc_err out of
               None \<Rightarrow> (0, sc_Interval cfg)
             | Some e \<Rightarrow> if sched_is e ErrLockUnavailable then (0, sc_Interval cfg)
                 else (en_failures s + 1, sched_backoff cfg (en_failures s + 1) v));
          s = s\<lparr>en_failures := failures\<rparr>
      in reset_timer delay (emit (NextRunScheduled (en_now s + delay) delay failures) s))"

definition cancel_run :: "nat \<Rightarrow> engine \<Rightarrow> engine" where
  "cancel_run c s = s\<lparr>en_contexts := removeAll c (en_contexts s), en_cancelled := c # en_cancelled s\<rparr>"

definition on_ctx_done :: "SchedConfig \<Rightarrow> engine \<Rightarrow> engine" where
  "on_ctx_done cfg s0 =
     (let s = s0\<lparr>en_timer := TimerStopped\<rparr>;
          s = (case en_cancelRun s of None \<Rightarrow> s | Some c \<Rightarrow> cancel_run c s)
      in if \<not> en_active s then s\<lparr>en_phase := EngineReturned None\<rparr>
         else s\<lparr>en_wait := TimerArmed (en_now s + sc_ShutdownTimeout cfg), en_phase := ShuttingDown\<rparr>)"

text \<open>The branches of the \<^verbatim>\<open>select\<close> that waits for the last batch; the deferred \<^verbatim>\<open>Stop\<close> calls run on return.\<close>

definition on_last_outcome :: "runOutcome \<Rightarrow> engine \<Rightarrow> engine" where
  "on_last_outcome out s = (finish out s)\<lparr>en_wait := TimerStopped, en_phase := EngineReturned None\<rparr>"

definition on_shutdown_timeout :: "SchedConfig \<Rightarrow> engine \<Rightarrow> engine" where
  "on_shutdown_timeout cfg s =
     (emit (ShutdownTimeoutHit (sc_ShutdownTimeout cfg)) s)\<lparr>en_wait := TimerStopped,
        en_phase := EngineReturned (Some ContextDeadlineExceeded)\<rparr>"

definition outcome_of :: "goroutine \<Rightarrow> SchedBatchResult \<Rightarrow> sched_error option \<Rightarrow> runOutcome" where
  "outcome_of g res err = \<lparr>oc_id = go_id g, oc_trigger = go_trigger g, oc_started = go_started g, oc_result = res,
     oc_err = err, oc_category = errorCategory err\<rparr>"

text \<open>\<open>batch g cancelled res err\<close>: the batch of goroutine \<open>g\<close> may return so. Its send succeeds while the
  channel, which holds one outcome, is empty.\<close>

inductive engine_step :: "SchedConfig \<Rightarrow> (goroutine \<Rightarrow> bool \<Rightarrow> SchedBatchResult \<Rightarrow> sched_error option \<Rightarrow> bool)
    \<Rightarrow> engine \<Rightarrow> engine \<Rightarrow> bool"
  for cfg batch where
  time_passes: "en_now s \<le> t \<Longrightarrow> engine_step cfg batch s (s\<lparr>en_now := t\<rparr>)"
| timer_fires: "en_timer s = TimerArmed t \<Longrightarrow> t \<le> en_now s \<Longrightarrow> engine_step cfg batch s (s\<lparr>en_timer := TimerFired\<rparr>)"
| wait_fires: "en_wait s = TimerArmed t \<Longrightarrow> t \<le> en_now s \<Longrightarrow> engine_step cfg batch s (s\<lparr>en_wait := TimerFired\<rparr>)"
| ctx_cancelled: "engine_step cfg batch s (s\<lparr>en_ctx_done := True\<rparr>)"
| batch_returns:
    "en_running s = gs @ g # gs' \<Longrightarrow> en_done s = []
     \<Longrightarrow> batch g (en_ctx_done s \<or> go_ctx g \<in> set (en_cancelled s)) res err
     \<Longrightarrow> engine_step cfg batch s (s\<lparr>en_running := gs @ gs', en_done := [outcome_of g res err]\<rparr>)"
| select_timer: "en_phase s = Selecting \<Longrightarrow> en_timer s = TimerFired \<Longrightarrow> engine_step cfg batch s (on_timer cfg s)"
| select_outcome:
    "en_phase s = Selecting \<Longrightarrow> en_done s = out # rest \<Longrightarrow> 0 \<le> v \<Longrightarrow> v < 1
     \<Longrightarrow> engine_step cfg batch s (on_outcome cfg v out (s\<lparr>en_done := rest\<rparr>))"
| select_ctx_done: "en_phase s = Selecting \<Longrightarrow> en_ctx_done s \<Longrightarrow> engine_step cfg batch s (on_ctx_done cfg s)"
| shutdown_outcome:
    "en_phase s = ShuttingDown \<Longrightarrow> en_done s = out # rest
     \<Longrightarrow> engine_step cfg batch s (on_last_outcome out (s\<lparr>en_done := rest\<rparr>))"
| shutdown_timeout:
    "en_phase s = ShuttingDown \<Longrightarrow> en_wait s = TimerFired \<Longrightarrow> engine_step cfg batch s (on_shutdown_timeout cfg s)"

inductive engine_reachable :: "SchedConfig \<Rightarrow> (goroutine \<Rightarrow> bool \<Rightarrow> SchedBatchResult \<Rightarrow> sched_error option \<Rightarrow> bool)
    \<Rightarrow> engine \<Rightarrow> bool"
  for cfg batch where
  engine_starts: "engine_reachable cfg batch (new_engine cfg now)"
| engine_continues: "engine_reachable cfg batch s \<Longrightarrow> engine_step cfg batch s s' \<Longrightarrow> engine_reachable cfg batch s'"

inductive_cases engine_stepE: "engine_step cfg batch s s'"

section \<open>Lemmas\<close>

lemmas engine_defs = start_def reset_timer_def emit_def finish_def on_timer_def on_outcome_def on_ctx_done_def
  on_last_outcome_def on_shutdown_timeout_def cancel_run_def timer_Reset_def outcome_of_def Let_def

lemma backoff_loop_exact:
  "0 < d \<Longrightarrow> d \<le> bmax \<Longrightarrow> bmax \<le> max_int \<Longrightarrow> backoff_loop bmax n d = min bmax (d * 2 ^ n)"
proof (induction n arbitrary: d)
  case (Suc n)
  show ?case
  proof (cases "d < bmax")
    case True
    have q: "quot bmax 2 = bmax div 2" using Suc.prems by simp
    show ?thesis
    proof (cases "d > bmax div 2")
      case True
      have "d * 2 \<le> d * 2 ^ Suc n" using Suc.prems(1) by simp
      with True have "bmax \<le> d * 2 ^ Suc n" by linarith
      with \<open>d < bmax\<close> q True show ?thesis by simp
    next
      case False
      then have d2: "d * 2 \<le> bmax" by linarith
      then have "wrap64 (d * 2) = d * 2"
        using Suc.prems by (intro wrap64_id) (simp add: int64_range_def min_int_def)
      with Suc.IH [of "d * 2"] Suc.prems d2 q False \<open>d < bmax\<close> show ?thesis by (simp add: mult.assoc)
    qed
  next
    case False
    have "d * 1 \<le> d * 2 ^ Suc n" using Suc.prems(1) by (intro mult_left_mono one_le_power) simp_all
    with False Suc.prems show ?thesis by simp
  qed
qed simp

lemma finish_frame [simp]:
  "en_running (finish out s) = en_running s" "en_done (finish out s) = en_done s" "en_timer (finish out s) = en_timer s"
  "en_wait (finish out s) = en_wait s" "en_phase (finish out s) = en_phase s" "en_cancelRun (finish out s) = en_cancelRun s"
  "en_failures (finish out s) = en_failures s" "en_now (finish out s) = en_now s" "en_ctx_done (finish out s) = en_ctx_done s"
  "en_next_ctx (finish out s) = en_next_ctx s" "en_contexts (finish out s) = en_contexts s"
  "en_cancelled (finish out s) = en_cancelled s" "\<not> en_active (finish out s)"
  by (simp_all add: finish_def emit_def Let_def split: option.split)

text \<open>The failures in a row the log tells of.\<close>

fun count_failures :: "int \<Rightarrow> sched_log \<Rightarrow> int" where
  "count_failures n (RunFailed _ _) = n + 1"
| "count_failures n (RunFinished _ _) = 0"
| "count_failures n (TriggerSkippedLocked _ _) = 0"
| "count_failures n _ = n"

definition log_failures :: "sched_log list \<Rightarrow> int" where
  "log_failures entries = foldl count_failures 0 entries"

lemma log_failures_append [simp]: "log_failures (xs @ ys) = foldl count_failures (log_failures xs) ys"
  by (simp add: log_failures_def)

lemma log_failures_Nil [simp]: "log_failures [] = 0" "log_failures [x] = count_failures 0 x"
  by (simp_all add: log_failures_def)

lemma log_failures_nonneg: "0 \<le> log_failures xs"
proof (induction xs rule: rev_induct)
  case (snoc x xs)
  then show ?case by (cases x) simp_all
qed simp

text \<open>The batches on their way: running, or with an outcome nobody has received.\<close>

definition in_flight :: "engine \<Rightarrow> nat" where
  "in_flight s = length (en_running s) + length (en_done s)"

definition engine_ok :: "engine \<Rightarrow> bool" where
  "engine_ok s \<longleftrightarrow>
     in_flight s = (if en_active s then 1 else 0)
     \<and> (case en_phase s of
          Selecting \<Rightarrow> en_timer s \<noteq> TimerStopped \<and> en_wait s = TimerStopped \<and> en_failures s = log_failures (en_log s)
            \<and> (\<forall>g \<in> set (en_running s). en_cancelRun s = Some (go_ctx g)) \<and> en_cancelled s = []
            \<and> en_contexts s = [0..<en_next_ctx s] \<and> (en_cancelRun s \<noteq> None \<longleftrightarrow> en_active s)
        | ShuttingDown \<Rightarrow> en_active s \<and> en_ctx_done s \<and> en_wait s \<noteq> TimerStopped
            \<and> (\<forall>g \<in> set (en_running s). go_ctx g \<in> set (en_cancelled s))
        | EngineReturned r \<Rightarrow> en_ctx_done s \<and> (r = None \<and> \<not> en_active s
            \<or> r = Some ContextDeadlineExceeded \<and> en_active s \<and> (\<forall>g \<in> set (en_running s). go_ctx g \<in> set (en_cancelled s))))"

lemma in_flight_zero: "in_flight s = 0 \<Longrightarrow> en_running s = [] \<and> en_done s = []"
  by (simp add: in_flight_def)

lemma start_ok: "engine_ok (s\<lparr>en_timer := TimerFired\<rparr>) \<Longrightarrow> en_phase s = Selecting
    \<Longrightarrow> engine_ok (reset_timer d (start cfg trigger s))"
  by (auto simp: engine_ok_def in_flight_def engine_defs)

lemma on_timer_ok: "engine_ok s \<Longrightarrow> en_phase s = Selecting \<Longrightarrow> engine_ok (on_timer cfg s)"
  unfolding on_timer_def by (rule start_ok) (auto simp: engine_ok_def in_flight_def)

lemma on_outcome_ok:
  "engine_ok s \<Longrightarrow> en_phase s = Selecting \<Longrightarrow> en_done s = out # rest
   \<Longrightarrow> engine_ok (on_outcome cfg v out (s\<lparr>en_done := rest\<rparr>))"
  by (auto simp: engine_ok_def in_flight_def engine_defs split: option.splits if_splits)

lemma on_ctx_done_ok: "engine_ok s \<Longrightarrow> en_phase s = Selecting \<Longrightarrow> en_ctx_done s \<Longrightarrow> engine_ok (on_ctx_done cfg s)"
  by (auto simp: engine_ok_def in_flight_def engine_defs split: option.splits if_splits)

lemma on_last_outcome_ok:
  "engine_ok s \<Longrightarrow> en_phase s = ShuttingDown \<Longrightarrow> en_done s = out # rest
   \<Longrightarrow> engine_ok (on_last_outcome out (s\<lparr>en_done := rest\<rparr>))"
  by (auto simp: engine_ok_def in_flight_def on_last_outcome_def)

lemma on_shutdown_timeout_ok: "engine_ok s \<Longrightarrow> en_phase s = ShuttingDown \<Longrightarrow> engine_ok (on_shutdown_timeout cfg s)"
  by (auto simp: engine_ok_def in_flight_def on_shutdown_timeout_def emit_def)

lemma environment_ok:
  assumes "engine_ok s"
  shows "engine_ok (s\<lparr>en_now := t\<rparr>)" "engine_ok (s\<lparr>en_ctx_done := True\<rparr>)"
    "en_timer s = TimerArmed u \<Longrightarrow> engine_ok (s\<lparr>en_timer := TimerFired\<rparr>)"
    "en_wait s = TimerArmed u \<Longrightarrow> engine_ok (s\<lparr>en_wait := TimerFired\<rparr>)"
  using assms by (cases "en_phase s"; force simp: engine_ok_def in_flight_def)+

lemma batch_returns_ok:
  assumes "engine_ok s" "en_running s = gs @ g # gs'" "en_done s = []"
  shows "engine_ok (s\<lparr>en_running := gs @ gs', en_done := [out]\<rparr>)"
proof -
  from assms have "in_flight (s\<lparr>en_running := gs @ gs', en_done := [out]\<rparr>) = in_flight s" by (simp add: in_flight_def)
  with assms show ?thesis by (cases "en_phase s") (auto simp: engine_ok_def split: if_splits)
qed

lemma engine_step_ok: "engine_step cfg batch s s' \<Longrightarrow> engine_ok s \<Longrightarrow> engine_ok s'"
  by (induction rule: engine_step.induct)
    (blast intro: environment_ok batch_returns_ok on_timer_ok on_outcome_ok on_ctx_done_ok on_last_outcome_ok
      on_shutdown_timeout_ok)+

lemma new_engine_ok: "engine_ok (new_engine cfg now)"
  by (auto simp: new_engine_def engine_ok_def in_flight_def engine_defs)

lemma engine_reachable_ok: "engine_reachable cfg batch s \<Longrightarrow> engine_ok s"
  by (induction rule: engine_reachable.induct) (auto intro: new_engine_ok engine_step_ok)

text \<open>Steps the engine takes once its context is cancelled.\<close>

lemma shutting_down_returns:
  assumes "engine_ok s" "en_phase s = ShuttingDown"
  shows "\<exists>s' r. (engine_step cfg batch)\<^sup>*\<^sup>* s s' \<and> en_phase s' = EngineReturned r"
proof -
  have fired: "\<exists>s' r. (engine_step cfg batch)\<^sup>*\<^sup>* u s' \<and> en_phase s' = EngineReturned r"
    if u: "en_phase u = ShuttingDown" "en_wait u = TimerFired" for u
  proof -
    have "engine_step cfg batch u (on_shutdown_timeout cfg u)" using u by (rule shutdown_timeout)
    moreover have "en_phase (on_shutdown_timeout cfg u) = EngineReturned (Some ContextDeadlineExceeded)"
      by (simp add: on_shutdown_timeout_def)
    ultimately show ?thesis by blast
  qed
  show ?thesis
  proof (cases "en_wait s")
    case TimerStopped
    with assms show ?thesis by (simp add: engine_ok_def)
  next
    case TimerFired
    with assms(2) fired show ?thesis by blast
  next
    case (TimerArmed t)
    let ?s1 = "s\<lparr>en_now := max t (en_now s)\<rparr>" and ?s2 = "s\<lparr>en_now := max t (en_now s), en_wait := TimerFired\<rparr>"
    have 1: "engine_step cfg batch s ?s1" by (rule time_passes) simp
    have "engine_step cfg batch ?s1 (?s1\<lparr>en_wait := TimerFired\<rparr>)" by (rule wait_fires [of _ t]) (simp_all add: TimerArmed)
    moreover have "?s1\<lparr>en_wait := TimerFired\<rparr> = ?s2" by simp
    ultimately have 2: "engine_step cfg batch ?s1 ?s2" by simp
    obtain s' r where "(engine_step cfg batch)\<^sup>*\<^sup>* ?s2 s'" "en_phase s' = EngineReturned r"
      using fired [of ?s2] assms(2) by auto
    with 1 2 show ?thesis by (meson converse_rtranclp_into_rtranclp)
  qed
qed

lemma cancelled_engine_returns:
  assumes "engine_ok s" "en_ctx_done s"
  shows "\<exists>s' r. (engine_step cfg batch)\<^sup>*\<^sup>* s s' \<and> en_phase s' = EngineReturned r"
proof (cases "en_phase s")
  case Selecting
  then have st: "engine_step cfg batch s (on_ctx_done cfg s)" using assms(2) by (rule select_ctx_done)
  have ok: "engine_ok (on_ctx_done cfg s)" using assms Selecting by (intro on_ctx_done_ok)
  show ?thesis
  proof (cases "en_active s")
    case True
    then have "en_phase (on_ctx_done cfg s) = ShuttingDown" by (simp add: engine_defs split: option.split)
    from shutting_down_returns [OF ok this] st show ?thesis by (meson converse_rtranclp_into_rtranclp)
  next
    case False
    then have "en_phase (on_ctx_done cfg s) = EngineReturned None" by (simp add: engine_defs split: option.split)
    with st show ?thesis by blast
  qed
next
  case ShuttingDown
  with assms show ?thesis by (intro shutting_down_returns)
qed blast

text \<open>What the lock does to the connections, told by a log kept beside the world.\<close>

datatype conn_event = ConnTaken nat | LockTried nat int bool | BatchRan | ConnReleased nat | ConnClosed nat

definition traced_pool :: "'w PgPool \<Rightarrow> ('w \<times> conn_event list) PgPool" where
  "traced_pool pool = \<lparr>
     pp_Acquire = (\<lambda>(w, tr). case pp_Acquire pool w of (w, Inl e) \<Rightarrow> ((w, tr), Inl e) | (w, Inr c) \<Rightarrow> ((w, tr @ [ConnTaken c]), Inr c)),
     pp_TryLock = (\<lambda>(w, tr) c k. case pp_TryLock pool w c k of (w, Inl e) \<Rightarrow> ((w, tr), Inl e)
        | (w, Inr b) \<Rightarrow> ((w, tr @ [LockTried c k b]), Inr b)),
     pp_Unlock = (\<lambda>(w, tr) c k. case pp_Unlock pool w c k of (w, r) \<Rightarrow> ((w, tr), r)),
     pp_Release = (\<lambda>(w, tr) c. (pp_Release pool w c, tr @ [ConnReleased c])),
     pp_HijackClose = (\<lambda>(w, tr) c. (pp_HijackClose pool w c, tr @ [ConnClosed c]))\<rparr>"

definition traced_batch :: "'w Batch \<Rightarrow> ('w \<times> conn_event list) Batch" where
  "traced_batch batch wt schedulerRunID = (case wt of (w, tr) \<Rightarrow> case batch w schedulerRunID of (w, res, err) \<Rightarrow> ((w, tr @ [BatchRan]), res, err))"

lemmas lock_defs = WithLock_def scheduler_acquire_def TrySchedulerLock_def tryAdvisoryLock_def traced_pool_def traced_batch_def
  AdvisoryLock_Release_def Let_def

text \<open>A batch that ran under the lock on connection \<open>c\<close>: the connection is given back last, the result is
  the batch's, and its error is kept, on its own or joined with the error of the release.\<close>

definition batch_outcome :: "nat \<Rightarrow> 'w \<times> SchedBatchResult \<times> sched_error option \<Rightarrow> conn_event list \<Rightarrow> SchedBatchResult
    \<Rightarrow> sched_error option \<Rightarrow> bool" where
  "batch_outcome c r0 tr res err \<longleftrightarrow>
     (\<exists>z. tr = [ConnTaken c, LockTried c SchedulerAdvisoryLockKey True, BatchRan, z] \<and> z \<in> {ConnReleased c, ConnClosed c}
       \<and> res = fst (snd r0)
       \<and> (case snd (snd r0) of None \<Rightarrow> (err = None \<longleftrightarrow> z = ConnReleased c)
          | Some e \<Rightarrow> if z = ConnReleased c then err = Some e else \<exists>r. err = Some (SchedJoin e r)))"

lemma AdvisoryLock_Release_once:
  "AdvisoryLock_Release pool l w = (l', w', e) \<Longrightarrow> AdvisoryLock_Release pool l' u = (l', u, None)"
  by (auto simp: AdvisoryLock_Release_def Let_def split: option.splits if_splits prod.splits sum.splits)

section \<open>Properties\<close>

text \<open>
  C6. At most one batch is ever on its way: running, or with an outcome that has not been received.
  So the send of an outcome finds the channel empty, the activity flag tells the truth, and while
  the loop runs the interval timer is never left stopped: another trigger is always due. The
  failure counter is the number of failed batches since the last one that succeeded or was locked out.
\<close>

theorem engine_one_batch:
  assumes "engine_reachable cfg batch s"
  shows "length (en_running s) + length (en_done s) = (if en_active s then 1 else 0)
    \<and> (en_running s \<noteq> [] \<longrightarrow> en_done s = [])
    \<and> (en_phase s = Selecting \<longrightarrow> en_timer s \<noteq> TimerStopped \<and> en_failures s = log_failures (en_log s))"
proof -
  from assms have ok: "engine_ok s" by (rule engine_reachable_ok)
  then have one: "length (en_running s) + length (en_done s) = (if en_active s then 1 else 0)"
    by (simp add: engine_ok_def in_flight_def)
  then have "en_running s \<noteq> [] \<longrightarrow> en_done s = []" by (cases "en_running s") (auto split: if_splits)
  moreover have "en_phase s = Selecting \<longrightarrow> en_timer s \<noteq> TimerStopped \<and> en_failures s = log_failures (en_log s)"
    using ok by (auto simp: engine_ok_def)
  ultimately show ?thesis using one by blast
qed

text \<open>A validated configuration, an engine that starts a batch at once, and that batch failing.\<close>

definition sched_cfg0 :: SchedConfig where
  "sched_cfg0 = \<lparr>sc_Interval = 10 * Minute, sc_RunOnStart = True, sc_BackoffInitial = Minute, sc_BackoffMax = Hour,
     sc_JitterPercent = 20, sc_ShutdownTimeout = 30 * Second\<rparr>"

definition failing_batch :: "goroutine \<Rightarrow> bool \<Rightarrow> SchedBatchResult \<Rightarrow> sched_error option \<Rightarrow> bool" where
  "failing_batch g cancelled res err \<longleftrightarrow> res = no_batch_result \<and> err = Some (SchedOther ''down'')"

definition engine0 :: engine where "engine0 = new_engine sched_cfg0 0"

definition engine1 :: engine where
  "engine1 = engine0\<lparr>en_running := [], en_done := [outcome_of (hd (en_running engine0)) no_batch_result (Some (SchedOther ''down''))]\<rparr>"

definition engine2 :: engine where
  "engine2 = on_outcome sched_cfg0 0 (hd (en_done engine1)) (engine1\<lparr>en_done := []\<rparr>)"

lemma engine0_running: "\<exists>g. en_running engine0 = [g]" "en_done engine0 = []" "en_phase engine0 = Selecting" "en_active engine0"
  by (simp_all add: engine0_def new_engine_def sched_cfg0_def engine_defs)

lemma engine0_reachable: "engine_reachable sched_cfg0 failing_batch engine0"
  unfolding engine0_def by (rule engine_starts)

lemma engine1_reachable: "engine_reachable sched_cfg0 failing_batch engine1"
proof -
  obtain g where g: "en_running engine0 = [g]" using engine0_running(1) by blast
  have "engine_step sched_cfg0 failing_batch engine0
     (engine0\<lparr>en_running := [] @ [], en_done := [outcome_of g no_batch_result (Some (SchedOther ''down''))]\<rparr>)"
    by (rule batch_returns) (simp_all add: g engine0_running failing_batch_def)
  with engine0_reachable g show ?thesis by (simp add: engine1_def engine_continues)
qed

lemma engine2_reachable: "engine_reachable sched_cfg0 failing_batch engine2"
proof -
  have "engine_step sched_cfg0 failing_batch engine1 engine2"
    unfolding engine2_def by (rule select_outcome) (simp_all add: engine1_def engine0_running)
  with engine1_reachable show ?thesis by (rule engine_continues)
qed

lemma sched_is_other [simp]: "sched_is (SchedOther x) e \<longleftrightarrow> SchedOther x = e"
  by (cases e) auto

lemma engine2_state:
  "en_failures engine2 = 1" "en_phase engine2 = Selecting" "\<not> en_active engine2" "en_next_ctx engine2 = 1"
  by (simp_all add: engine2_def engine1_def engine0_def new_engine_def sched_cfg0_def engine_defs)

theorem engine_one_batch_witness:
  "engine_reachable sched_cfg0 failing_batch engine2 \<and> en_failures engine2 = 1 \<and> log_failures (en_log engine2) = 1
   \<and> en_running engine2 = [] \<and> en_done engine2 = []"
  using engine_one_batch [OF engine2_reachable] engine2_reachable engine2_state by simp

text \<open>
  The delay after \<open>failures\<close> failures in a row, for a configuration that passes validation and a
  random value in the unit interval: the base is the initial delay doubled once per further
  failure, capped at the maximum, without any overflow on the way; the result lies within the
  jitter percentage of that base (the fraction of a nanosecond is dropped), so it is never
  negative and never beyond twice the maximum.
\<close>

theorem backoff_bounds:
  assumes "Config_Validate cfg testMode = None" and "2 * sc_BackoffMax cfg \<le> max_int"
    and "1 \<le> failures" and "0 \<le> v" "v < 1"
    and "b = min (sc_BackoffMax cfg) (sc_BackoffInitial cfg * 2 ^ nat (failures - 1))"
  shows "of_int b * (1 - sc_JitterPercent cfg / 100) - 1 < of_int (sched_backoff cfg failures v)
    \<and> of_int (sched_backoff cfg failures v) \<le> of_int b * (1 + sc_JitterPercent cfg / 100)
    \<and> 0 \<le> sched_backoff cfg failures v \<and> sched_backoff cfg failures v \<le> 2 * sc_BackoffMax cfg"
proof -
  define J where "J = sc_JitterPercent cfg / 100"
  define x where "x = of_int b - of_int b * J + 2 * (of_int b * J) * v"
  from assms(1) have cfg: "0 < sc_BackoffInitial cfg" "sc_BackoffInitial cfg \<le> sc_BackoffMax cfg" "0 \<le> J" "J \<le> 1"
    by (auto simp: Config_Validate_def Let_def J_def split: if_splits)
  have b: "0 < b" "b \<le> sc_BackoffMax cfg" using assms(6) cfg by auto
  have loop: "backoff_loop (sc_BackoffMax cfg) (nat (failures - 1)) (sc_BackoffInitial cfg) = b"
    using cfg assms(2) assms(6) b by (simp add: backoff_loop_exact)
  have bJ: "0 \<le> of_int b * J" "of_int b * J \<le> of_int b" using b cfg(3,4) by (simp_all add: mult_left_le)
  have v: "0 \<le> of_int b * J * v" "of_int b * J * v \<le> of_int b * J" using bJ assms(4,5) by (simp_all add: mult_left_le)
  have lo: "of_int b * (1 - J) \<le> x" and hi: "x \<le> of_int b * (1 + J)" and x0: "0 \<le> x" and x2: "x \<le> 2 * of_int b"
    using bJ v unfolding x_def by (simp_all add: algebra_simps)
  have "\<lfloor>x\<rfloor> \<le> 2 * b" using x2 by linarith
  with b assms(2) have "\<lfloor>x\<rfloor> \<le> max_int" by linarith
  then have eq: "sched_backoff cfg failures v = \<lfloor>x\<rfloor>"
    using x0 b by (simp add: sched_backoff_def Let_def loop duration_of_float_def x_def J_def)
  have "of_int b * (1 - J) - 1 < of_int \<lfloor>x\<rfloor>" "of_int \<lfloor>x\<rfloor> \<le> of_int b * (1 + J)" using lo hi by linarith+
  moreover have "0 \<le> \<lfloor>x\<rfloor>" using x0 by simp
  moreover have "\<lfloor>x\<rfloor> \<le> 2 * sc_BackoffMax cfg" using \<open>\<lfloor>x\<rfloor> \<le> 2 * b\<close> b by linarith
  ultimately show ?thesis unfolding eq J_def by blast
qed

theorem backoff_bounds_witness:
  "Config_Validate sched_cfg0 False = None \<and> of_int (8 * Minute) * (8 / 10) - 1 < (of_int (sched_backoff sched_cfg0 4 (1 / 2)) :: real)
   \<and> sched_backoff sched_cfg0 4 (1 / 2) \<le> 2 * Hour"
proof -
  have v: "Config_Validate sched_cfg0 False = None" by (simp add: Config_Validate_def sched_cfg0_def time_units)
  have "min (sc_BackoffMax sched_cfg0) (sc_BackoffInitial sched_cfg0 * 2 ^ nat (4 - 1)) = 8 * Minute"
    by (simp add: sched_cfg0_def time_units)
  with backoff_bounds [OF v, of 4 "1 / 2" "8 * Minute"] v show ?thesis
    by (simp add: sched_cfg0_def time_units max_int_def)
qed

text \<open>
  Shutdown. From every reachable state whose context is cancelled the engine can go on to
  return, whatever the batch does; it returns nil exactly when no batch is left, and otherwise
  the deadline error, after the context of the batch still running was cancelled.
\<close>

theorem engine_shutdown:
  assumes "engine_reachable cfg batch s" and "en_ctx_done s"
  shows "(\<exists>s' r. (engine_step cfg batch)\<^sup>*\<^sup>* s s' \<and> en_phase s' = EngineReturned r)
    \<and> (\<forall>r. en_phase s = EngineReturned r \<longrightarrow>
         (if en_active s then r = Some ContextDeadlineExceeded \<and> (\<forall>g \<in> set (en_running s). go_ctx g \<in> set (en_cancelled s))
          else r = None \<and> en_running s = [] \<and> en_done s = []))"
proof -
  from assms(1) have ok: "engine_ok s" by (rule engine_reachable_ok)
  then have "in_flight s = (if en_active s then 1 else 0)" by (simp add: engine_ok_def)
  then have "\<forall>r. en_phase s = EngineReturned r \<longrightarrow>
         (if en_active s then r = Some ContextDeadlineExceeded \<and> (\<forall>g \<in> set (en_running s). go_ctx g \<in> set (en_cancelled s))
          else r = None \<and> en_running s = [] \<and> en_done s = [])"
    using ok by (auto simp: engine_ok_def dest: in_flight_zero)
  with cancelled_engine_returns [OF ok assms(2)] show ?thesis by blast
qed

theorem engine_shutdown_witness:
  "\<exists>s' r. (engine_step sched_cfg0 failing_batch)\<^sup>*\<^sup>* (engine0\<lparr>en_ctx_done := True\<rparr>) s' \<and> en_phase s' = EngineReturned r"
  using engine_shutdown [OF engine_continues [OF engine0_reachable ctx_cancelled]] by simp

text \<open>
  The engine drops the cancel function of a finished batch without calling it, so while the
  loop runs every run context ever made is still registered with the engine's context: the
  list grows by one with each batch and never shrinks before shutdown.
\<close>

theorem run_contexts_kept:
  assumes "engine_reachable cfg batch s" and "en_phase s = Selecting"
  shows "en_contexts s = [0..<en_next_ctx s] \<and> en_cancelled s = []"
  using engine_reachable_ok [OF assms(1)] assms(2) by (simp add: engine_ok_def)

theorem run_contexts_kept_witness: "\<not> en_active engine2 \<and> en_contexts engine2 = [0]"
  using run_contexts_kept [OF engine2_reachable] engine2_state by simp

text \<open>
  The lock around a batch. Whatever the pool, the database and the batch do, a connection that is
  taken is given back or closed exactly once, after everything else; the batch runs exactly
  when the database granted the scheduler's key on that connection; a lock held elsewhere is
  reported as such, without a result, and an error of the batch is never lost by the release.
\<close>

theorem lock_scope:
  assumes "WithLock (scheduler_acquire (traced_pool pool)) (traced_batch batch) (w, []) runID = ((w', tr), res, err)"
  shows "(tr = [] \<and> res = no_batch_result \<and> err \<noteq> None)
    \<or> (\<exists>c. tr = [ConnTaken c, ConnReleased c] \<and> res = no_batch_result \<and> err \<noteq> None)
    \<or> (\<exists>c. tr = [ConnTaken c, LockTried c SchedulerAdvisoryLockKey False, ConnReleased c]
         \<and> res = no_batch_result \<and> err = Some ErrLockUnavailable)
    \<or> (\<exists>c w1. batch_outcome c (batch w1 runID) tr res err)"
proof -
  obtain w1 a where acq: "pp_Acquire pool w = (w1, a)" by fastforce
  show ?thesis
  proof (cases a)
    case (Inl e)
    with acq assms show ?thesis by (auto simp: lock_defs)
  next
    case (Inr c)
    obtain w2 t where try_eq: "pp_TryLock pool w1 c SchedulerAdvisoryLockKey = (w2, t)" by fastforce
    show ?thesis
    proof (cases "t = Inr True")
      case True
      obtain w3 res3 err3 where b: "batch w2 runID = (w3, res3, err3)" by (metis prod_cases3)
      obtain w4 u where un: "pp_Unlock pool w3 c SchedulerAdvisoryLockKey = (w4, u)" by fastforce
      have "batch_outcome c (batch w2 runID) tr res err"
        using assms acq Inr try_eq True b un
        by (cases u; cases err3; cases "u = Inr True") (auto simp: lock_defs batch_outcome_def join_errors_def lock_not_held_def)
      then show ?thesis by blast
    next
      case False
      with assms acq Inr try_eq show ?thesis by (cases t) (auto simp: lock_defs)
    qed
  qed
qed

text \<open>A pool whose lock is free, a batch that fails, and an unlock that fails too.\<close>

definition pool0 :: "unit PgPool" where
  "pool0 = \<lparr>pp_Acquire = (\<lambda>w. (w, Inr 7)), pp_TryLock = (\<lambda>w c k. (w, Inr True)), pp_Unlock = (\<lambda>w c k. (w, Inr False)),
     pp_Release = (\<lambda>w c. w), pp_HijackClose = (\<lambda>w c. w)\<rparr>"

theorem lock_scope_witness:
  "\<exists>c w1. batch_outcome c ((\<lambda>w (_::string). (w, no_batch_result, Some (SchedOther ''down''))) (w1::unit) ''r'')
     [ConnTaken 7, LockTried 7 SchedulerAdvisoryLockKey True, BatchRan, ConnClosed 7] no_batch_result
     (Some (SchedJoin (SchedOther ''down'') lock_not_held))"
proof -
  have "WithLock (scheduler_acquire (traced_pool pool0)) (traced_batch (\<lambda>w _. (w, no_batch_result, Some (SchedOther ''down'')))) ((), []) ''r''
     = (((), [ConnTaken 7, LockTried 7 SchedulerAdvisoryLockKey True, BatchRan, ConnClosed 7]), no_batch_result,
        Some (SchedJoin (SchedOther ''down'') lock_not_held))"
    by (simp add: lock_defs pool0_def join_errors_def)
  from lock_scope [OF this] show ?thesis by simp
qed

end
