(* ===== verification/Discovery.thy ===== *)
theory Discovery
  imports Planner HH_Parse Mem_Store
begin


record DiscoveryOptions =
  do_Area :: string
  do_PerPage :: int
  do_MaxDepth :: int
  do_MaxPartitions :: int
  do_MaxRequests :: int
  do_Earliest :: time
  do_CycleDate :: time
  do_CutoffAt :: time
  do_ObservedAt :: time
  do_Normalize :: Options

record DiscoveryResult =
  dr_CycleID :: string
  dr_CycleDate :: time
  dr_Complete :: bool
  dr_PlannedPages :: int
  dr_CommittedPages :: int
  dr_ObservationRows :: int
  dr_ProbeRequests :: int


datatype discovery_error =
    DiscSourceAndStoreRequired
  | DiscPerPage
  | DiscPlan plan_error
  | DiscStart store_error
  | DiscResume store_error
  | DiscSearch hh_error
  | DiscPageCountChanged
  | DiscReconcilePages store_error
  | DiscDraft draft_error
  | DiscNormalize normalize_error
  | DiscSavePage store_error
  | DiscComplete store_error
  | DiscReconcileStatuses store_error

record DiscoveryEnv =
  de_now :: time
  de_sha :: "string \<Rightarrow> string"
  de_parse :: ParseEnv

section \<open>Helpers\<close>

definition dayUTC :: "time \<Rightarrow> time" where
  "dayUTC v = day_start v"


definition nonZeroFrom :: "time \<Rightarrow> time \<Rightarrow> time" where
  "nonZeroFrom v fallback = (if IsZero v then fallback else v)"




text \<open>One search item: \<open>Inr None\<close> when no role of it is collected.\<close>

definition observationFromSearch :: "ParseEnv \<Rightarrow> (string \<Rightarrow> string) \<Rightarrow> SearchItem \<Rightarrow> time \<Rightarrow> Options
    \<Rightarrow> discovery_error + DiscoveryObservation option" where
  "observationFromSearch penv sha item observedAt opts =
     (case DraftFromSearch penv item observedAt of
        Inl e \<Rightarrow> Inl (DiscDraft e)
      | Inr draft0 \<Rightarrow>
          (let roles = CollectedProfessionalRoles (d_ProfessionalRoleIDs draft0) in
           case AllowedProfessionalRole (d_ProfessionalRoleIDs draft0) of
             None \<Rightarrow> Inr None
           | Some primary \<Rightarrow>
               (let draft = draft0\<lparr>d_ProfessionalRoleIDs := [ar_ID primary]\<rparr> in
                case Normalize sha draft opts of
                  Inl e \<Rightarrow> Inl (DiscNormalize e)
                | Inr normalized \<Rightarrow>
                    (let v = nr_Vacancy normalized;
                         eligible = (\<not> v_ExcludeFromSalaryAgg v \<and> v_SalaryMidRub v \<noteq> None)
                     in Inr (Some \<lparr>ob_ExternalID = it_ID item, ob_PublishedAt = d_PublishedAt draft,
                          ob_ExternalRegionID = d_RegionExternalID draft, ob_ExternalRegionName = d_RegionName draft,
                          ob_PrimaryRoleExternalID = ar_ID primary, ob_RoleGroup = ar_Group primary,
                          ob_ExternalRoleIDs = sort (map ar_ID roles), ob_SalaryFrom = v_SalaryFrom v, ob_SalaryTo = v_SalaryTo v,
                          ob_SalaryCurrency = v_SalaryCurrency v, ob_SalaryGross = v_SalaryGross v,
                          ob_SalaryMidRubNet = (if eligible then v_SalaryMidRub v else None),
                          ob_SalaryEligible = eligible, ob_ObservedAt = observedAt\<rparr>)))))"

fun observe_items :: "ParseEnv \<Rightarrow> (string \<Rightarrow> string) \<Rightarrow> time \<Rightarrow> Options \<Rightarrow> SearchItem list
    \<Rightarrow> discovery_error + DiscoveryObservation list" where
  "observe_items penv sha observedAt opts [] = Inr []"
| "observe_items penv sha observedAt opts (item # items) =
     (case observationFromSearch penv sha item observedAt opts of
        Inl e \<Rightarrow> Inl e
      | Inr include \<Rightarrow>
          (case observe_items penv sha observedAt opts items of
             Inl e \<Rightarrow> Inl e
           | Inr obs \<Rightarrow> Inr (case include of None \<Rightarrow> obs | Some ob \<Rightarrow> ob # obs)))"

section \<open>The cycle\<close>

definition discovery_defaults :: "time \<Rightarrow> DiscoveryOptions \<Rightarrow> DiscoveryOptions" where
  "discovery_defaults now opts0 =
     (let opts = opts0\<lparr>do_Area := if do_Area opts0 = '''' then ''113'' else do_Area opts0\<rparr>;
          opts = opts\<lparr>do_ObservedAt := Truncate (if IsZero (do_ObservedAt opts) then now else do_ObservedAt opts) Second\<rparr>;
          opts = opts\<lparr>do_CutoffAt := Truncate (if IsZero (do_CutoffAt opts) then dayUTC (do_ObservedAt opts) else do_CutoffAt opts) Second\<rparr>;
          opts = opts\<lparr>do_CycleDate := dayUTC (if IsZero (do_CycleDate opts) then add_days (do_CutoffAt opts) (- 1) else do_CycleDate opts)\<rparr>
      in opts\<lparr>do_Earliest := if IsZero (do_Earliest opts) then 730119 * Day else do_Earliest opts\<rparr>)"





section \<open>The loop\<close>

definition discovery_query :: "DiscoveryOptions \<Rightarrow> DiscoveryPartition \<Rightarrow> SearchQuery" where
  "discovery_query opts part = \<lparr>q_Text = '''', q_Area = dp_Area part, q_ProfessionalRole = dp_ProfessionalRoleID part,
     q_DateFrom = nonZeroFrom (dp_DateFrom part) (do_Earliest opts), q_DateTo = dp_DateTo part, q_Page = dp_NextPage part,
     q_PerPage = do_PerPage opts\<rparr>"

definition reported_pages :: "DiscoveryOptions \<Rightarrow> SearchPage \<Rightarrow> int" where
  "reported_pages opts page = min (pg_Pages page) (quot (MaxSearchResults + do_PerPage opts - 1) (do_PerPage opts))"

definition save_observations :: "DiscoveryEnv \<Rightarrow> 's DiscoveryStore \<Rightarrow> DiscoveryOptions \<Rightarrow> Options \<Rightarrow> string \<Rightarrow> DiscoveryPartition
    \<Rightarrow> SearchPage \<Rightarrow> 's \<Rightarrow> DiscoveryResult \<Rightarrow> 's \<times> DiscoveryResult \<times> discovery_error option" where
  "save_observations env st opts nopts cid part page s result =
     (case observe_items (de_parse env) (de_sha env) (do_ObservedAt opts) nopts (pg_Items page) of
        Inl e \<Rightarrow> (s, result, Some e)
      | Inr obs \<Rightarrow>
          (case ds_SaveDiscoveryPage st s cid part obs of
             (s, Some e) \<Rightarrow> (s, result, Some (DiscSavePage e))
           | (s, None) \<Rightarrow>
               (s, result\<lparr>dr_CommittedPages := dr_CommittedPages result + 1,
                          dr_ObservationRows := dr_ObservationRows result + int (length obs)\<rparr>, None)))"

text \<open>One round of the loop for the partition the store handed out.\<close>

definition discovery_step :: "DiscoveryEnv \<Rightarrow> 'w RoleCatalogSource \<Rightarrow> 's DiscoveryStore \<Rightarrow> DiscoveryOptions \<Rightarrow> Options \<Rightarrow> string
    \<Rightarrow> DiscoveryPartition \<Rightarrow> 'w \<Rightarrow> 's \<Rightarrow> DiscoveryResult \<Rightarrow> 'w \<times> 's \<times> DiscoveryResult \<times> discovery_error option" where
  "discovery_step env src st opts nopts cid part w s result =
     (case rc_SearchVacancies src w (discovery_query opts part) of
        (w, Inl e) \<Rightarrow> (w, s, result, Some (DiscSearch e))
      | (w, Inr page) \<Rightarrow>
          (let reported = reported_pages opts page in
           if reported = dp_ExpectedPages part then (w, save_observations env st opts nopts cid part page s result)
           else if dp_NextPage part \<noteq> 0 then (w, s, result, Some DiscPageCountChanged)
           else (case ds_SetDiscoveryExpectedPages st s cid (dp_Key part) reported of
               (s, Some e) \<Rightarrow> (w, s, result, Some (DiscReconcilePages e))
             | (s, None) \<Rightarrow>
                 (let result = result\<lparr>dr_PlannedPages := dr_PlannedPages result + (reported - dp_ExpectedPages part)\<rparr>;
                      part = part\<lparr>dp_ExpectedPages := reported\<rparr>
                  in if reported = 0 then (w, s, result, None)
                     else (w, save_observations env st opts nopts cid part page s result)))))"

partial_function (option) discovery_loop :: "DiscoveryEnv \<Rightarrow> 'w RoleCatalogSource \<Rightarrow> 's DiscoveryStore \<Rightarrow> DiscoveryOptions \<Rightarrow> Options
    \<Rightarrow> string \<Rightarrow> 'w \<Rightarrow> 's \<Rightarrow> DiscoveryResult \<Rightarrow> ('w \<times> 's \<times> DiscoveryResult \<times> discovery_error option) option" where
  "discovery_loop env src st opts nopts cid w s result =
     (case ds_NextDiscoveryPartition st s cid of
        Inl e \<Rightarrow> Some (w, s, result, Some (DiscResume e))
      | Inr next \<Rightarrow>
          (case next of
             None \<Rightarrow> Some (w, s, result, None)
           | Some part \<Rightarrow>
               (case discovery_step env src st opts nopts cid part w s result of
                  (w', s', result', err) \<Rightarrow>
                    (case err of
                       Some e \<Rightarrow> Some (w', s', result', Some e)
                     | None \<Rightarrow> discovery_loop env src st opts nopts cid w' s' result'))))"

definition finish_discovery :: "'s DiscoveryStore \<Rightarrow> string \<Rightarrow> 's \<Rightarrow> DiscoveryResult \<Rightarrow> 's \<times> DiscoveryResult \<times> discovery_error option" where
  "finish_discovery st cid s result =
     (case ds_CompleteDiscoveryCycle st s cid of
        (s, Some e) \<Rightarrow> (s, result, Some (DiscComplete e))
      | (s, None) \<Rightarrow>
          (case ds_ReconcileDiscoveryStatuses st s cid of
             (s, Inl e) \<Rightarrow> (s, result, Some (DiscReconcileStatuses e))
           | (s, Inr reconciliation) \<Rightarrow> (s, result\<lparr>dr_Complete := True\<rparr>, None)))"



section \<open>Lemmas\<close>

definition depth_pages :: "DiscoveryOptions \<Rightarrow> int" where
  "depth_pages opts = quot (MaxSearchResults + do_PerPage opts - 1) (do_PerPage opts)"

text \<open>How much a worklist can still cost: a partition nobody has fetched from may turn out to have any
  number of pages up to the depth the API serves.\<close>

definition weight :: "DiscoveryOptions \<Rightarrow> DiscoveryPartition \<Rightarrow> nat" where
  "weight opts p = (if dp_NextPage p = 0 then Suc (nat (depth_pages opts)) else nat (dp_ExpectedPages p - dp_NextPage p))"

definition work :: "DiscoveryOptions \<Rightarrow> DiscoveryPartition list \<Rightarrow> nat" where
  "work opts ps = sum_list (map (weight opts) ps)"

definition pages_todo :: "DiscoveryPartition list \<Rightarrow> int" where
  "pages_todo ps = (\<Sum>p\<leftarrow>ps. dp_ExpectedPages p - dp_NextPage p)"

lemmas work_defs = work_def weight_def pages_todo_def advance_def recount_def

definition honest_pages :: "'w RoleCatalogSource \<Rightarrow> bool" where
  "honest_pages src \<longleftrightarrow> (\<forall>w q w' page. rc_SearchVacancies src w q = (w', Inr page) \<longrightarrow> 0 \<le> pg_Pages page)"

lemma reported_range: "honest_pages src \<Longrightarrow> rc_SearchVacancies src w q = (w', Inr page) \<Longrightarrow> 1 \<le> do_PerPage opts
    \<Longrightarrow> 0 \<le> reported_pages opts page \<and> reported_pages opts page \<le> depth_pages opts"
  by (simp add: reported_pages_def depth_pages_def honest_pages_def MaxSearchResults_def pos_imp_zdiv_nonneg_iff)

text \<open>What a round keeps: planned minus committed pages stay what the worklist holds.\<close>

definition balance :: "DiscoveryResult \<Rightarrow> DiscoveryPartition list \<Rightarrow> int" where
  "balance result ps = dr_PlannedPages result - dr_CommittedPages result - pages_todo ps"

context discovery_store
begin

lemma save_observations_ok:
  assumes "ok s cid" "todo s cid = p # ps" "0 \<le> dp_NextPage p" "dp_NextPage p < dp_ExpectedPages p"
    "dp_NextPage p = 0 \<Longrightarrow> dp_ExpectedPages p \<le> depth_pages opts"
    "save_observations env ds opts nopts cid p page s result = (s', result', e)"
  shows "ok s' cid \<and> dr_Complete result' = dr_Complete result \<and> dr_CycleID result' = dr_CycleID result
    \<and> (e = None \<longrightarrow> work opts (todo s' cid) < weight opts p + work opts ps \<and> balance result' (todo s' cid) = balance result (p # ps))"
proof (cases "observe_items (de_parse env) (de_sha env) (do_ObservedAt opts) nopts (pg_Items page)")
  case (Inl e0)
  with assms show ?thesis by (auto simp: save_observations_def)
next
  case (Inr obs)
  obtain s1 e1 where sv: "ds_SaveDiscoveryPage ds s cid p obs = (s1, e1)" by fastforce
  from save_head [OF assms(1,2) sv] have "e1 = None" and ok1: "ok s1 cid" and t: "todo s1 cid = advance p @ ps" by simp_all
  with assms(6) Inr sv have e: "s' = s1" "e = None" "result' = result\<lparr>dr_CommittedPages := dr_CommittedPages result + 1,
      dr_ObservationRows := dr_ObservationRows result + int (length obs)\<rparr>"
    by (simp_all add: save_observations_def)
  have "work opts (advance p) < weight opts p" "pages_todo (advance p) = pages_todo [p] - 1"
    using assms(3-5) by (auto simp: work_defs)
  with t ok1 e show ?thesis by (simp add: balance_def work_def pages_todo_def)
qed

lemma discovery_step_ok:
  assumes ok: "ok s cid" and t: "todo s cid = p # ps" and src: "honest_pages src" and pp: "1 \<le> do_PerPage opts"
    and st: "discovery_step env src ds opts nopts cid p w s result = (w', s', result', e)"
  shows "ok s' cid \<and> dr_Complete result' = dr_Complete result \<and> dr_CycleID result' = dr_CycleID result
    \<and> (e = None \<longrightarrow> work opts (todo s' cid) < work opts (todo s cid) \<and> balance result' (todo s' cid) = balance result (todo s cid))"
proof -
  have r: "0 \<le> dp_NextPage p" "dp_NextPage p < dp_ExpectedPages p" using todo_range [OF ok] t by simp_all
  obtain w1 a where s: "rc_SearchVacancies src w (discovery_query opts p) = (w1, a)" by fastforce
  show ?thesis
  proof (cases a)
    case (Inl e0)
    with s st ok show ?thesis by (auto simp: discovery_step_def)
  next
    case (Inr page)
    define n where "n = reported_pages opts page"
    have n: "0 \<le> n" "n \<le> depth_pages opts" using reported_range [OF src _ pp] s Inr by (simp_all add: n_def)
    consider (same) "n = dp_ExpectedPages p" | (changed) "n \<noteq> dp_ExpectedPages p" "dp_NextPage p \<noteq> 0"
      | (recounted) "n \<noteq> dp_ExpectedPages p" "dp_NextPage p = 0" by blast
    then show ?thesis
    proof cases
      case same
      with st s Inr have "save_observations env ds opts nopts cid p page s result = (s', result', e)"
        by (simp add: discovery_step_def n_def)
      from save_observations_ok [OF ok t r _ this] same n t show ?thesis by (simp add: work_def)
    next
      case changed
      with st s Inr ok show ?thesis by (auto simp: discovery_step_def n_def [symmetric] Let_def)
    next
      case recounted
      let ?p = "p\<lparr>dp_ExpectedPages := n\<rparr>" and ?res = "result\<lparr>dr_PlannedPages := dr_PlannedPages result + (n - dp_ExpectedPages p)\<rparr>"
      obtain s1 e1 where se: "ds_SetDiscoveryExpectedPages ds s cid (dp_Key p) n = (s1, e1)" by fastforce
      from set_head [OF ok t recounted(2) n(1) se] have e1: "e1 = None" "ok s1 cid" "todo s1 cid = recount n p @ ps" by simp_all
      show ?thesis
      proof (cases "n = 0")
        case True
        with st s Inr recounted se e1 have "s' = s1" "result' = ?res" "e = None"
          by (simp_all add: discovery_step_def n_def [symmetric] Let_def)
        with True e1 t recounted show ?thesis by (simp add: work_defs balance_def)
      next
        case False
        with st s Inr recounted se e1 have sv: "save_observations env ds opts nopts cid ?p page s1 ?res = (s', result', e)"
          by (simp add: discovery_step_def n_def [symmetric] Let_def)
        have t1: "todo s1 cid = ?p # ps" using e1 False by (simp add: recount_def)
        have "weight opts ?p = weight opts p" using recounted by (simp add: weight_def)
        moreover have "balance ?res (?p # ps) = balance result (p # ps)" by (simp add: balance_def pages_todo_def)
        moreover have "0 \<le> dp_NextPage ?p" "dp_NextPage ?p < dp_ExpectedPages ?p" using False n(1) recounted by simp_all
        ultimately show ?thesis using save_observations_ok [OF e1(2) t1 _ _ _ sv] n t by (simp add: work_def)
      qed
    qed
  qed
qed

lemma discovery_loop_returns:
  assumes src: "honest_pages src" and pp: "1 \<le> do_PerPage opts"
  shows "ok s cid \<Longrightarrow> \<exists>w' s' result' e. discovery_loop env src ds opts nopts cid w s result = Some (w', s', result', e) \<and> ok s' cid
    \<and> dr_Complete result' = dr_Complete result \<and> dr_CycleID result' = dr_CycleID result
    \<and> (e = None \<longrightarrow> todo s' cid = [] \<and> balance result' [] = balance result (todo s cid))"
proof (induction "work opts (todo s cid)" arbitrary: w s result rule: less_induct)
  case less
  show ?case
  proof (cases "todo s cid")
    case Nil
    with less.prems show ?thesis by (subst discovery_loop.simps) (simp add: next_head)
  next
    case (Cons p ps)
    obtain w1 s1 result1 e1 where st: "discovery_step env src ds opts nopts cid p w s result = (w1, s1, result1, e1)"
      by (metis prod_cases4)
    note step = discovery_step_ok [OF less.prems Cons src pp st]
    show ?thesis
    proof (cases e1)
      case None
      with step have "work opts (todo s1 cid) < work opts (todo s cid)" "ok s1 cid" by simp_all
      note IH = less.hyps [OF this, of w1 result1]
      have "discovery_loop env src ds opts nopts cid w s result = discovery_loop env src ds opts nopts cid w1 s1 result1"
        using less.prems Cons st None by (subst discovery_loop.simps) (simp add: next_head)
      with IH step None show ?thesis by metis
    next
      case (Some e)
      with step less.prems Cons st show ?thesis by (subst discovery_loop.simps) (simp add: next_head)
    qed
  qed
qed

lemma finish_discovery_ok:
  assumes "ok s cid" "todo s cid = []"
  shows "\<exists>s'. finish_discovery ds cid s result = (s', result\<lparr>dr_Complete := True\<rparr>, None) \<and> ok s' cid \<and> todo s' cid = []"
proof -
  obtain s1 e1 where c: "ds_CompleteDiscoveryCycle ds s cid = (s1, e1)" by fastforce
  then have "e1 = None" using complete_done [OF assms(1) c] assms(2) by simp
  with reconcile_done [OF assms(1)] c show ?thesis by (auto simp: finish_discovery_def)
qed

text \<open>From the start of the cycle to its end.\<close>

lemma discovery_cycle_runs:
  assumes "honest_pages src" "1 \<le> do_PerPage opts" "ok s cid" "\<not> dr_Complete result" "dr_CycleID result = cid"
  shows "\<exists>w' s' result' e. (case discovery_loop env src ds opts nopts cid w s result of
        None \<Rightarrow> None
      | Some (w, s, result, Some e) \<Rightarrow> Some (w, s, result, Some e)
      | Some (w, s, result, None) \<Rightarrow> Some (w, finish_discovery ds cid s result)) = Some (w', s', result', e)
    \<and> (dr_Complete result' \<longleftrightarrow> e = None) \<and> dr_CycleID result' = cid \<and> ok s' cid
    \<and> (e = None \<longrightarrow> todo s' cid = [] \<and> dr_PlannedPages result' - dr_CommittedPages result' = balance result (todo s cid)
        \<and> (\<exists>s1 r1. finish_discovery ds cid s1 r1 = (s', result', None)))"
proof -
  from discovery_loop_returns [OF assms(1-3), of env nopts w result] obtain w1 s1 result1 e1 where
    l: "discovery_loop env src ds opts nopts cid w s result = Some (w1, s1, result1, e1)" "ok s1 cid"
    "\<not> dr_Complete result1" "dr_CycleID result1 = cid" "e1 = None \<longrightarrow> todo s1 cid = [] \<and> balance result1 [] = balance result (todo s cid)"
    using assms(4,5) by blast
  show ?thesis
  proof (cases e1)
    case None
    with l finish_discovery_ok [of s1 cid result1] obtain s' where
      f: "finish_discovery ds cid s1 result1 = (s', result1\<lparr>dr_Complete := True\<rparr>, None)" "ok s' cid" "todo s' cid = []" by blast
    moreover have "balance result1 [] = dr_PlannedPages result1 - dr_CommittedPages result1" by (simp add: balance_def pages_todo_def)
    ultimately show ?thesis using l None by auto
  next
    case (Some e)
    with l show ?thesis by auto
  qed
qed

end

subsection \<open>Keys of partitions\<close>










lemma discovery_defaults_sel [simp]: "do_PerPage (discovery_defaults now opts) = do_PerPage opts"
  by (simp add: discovery_defaults_def Let_def)


text \<open>The roles of a search item that are admitted.\<close>

definition admitted :: "SearchItem \<Rightarrow> bool" where
  "admitted item \<longleftrightarrow> set (non_empty (map n_ID (it_ProfessionalRoles item))) \<inter> ar_ID ` set allowedRoles \<noteq> {}"

definition faithful_observation :: "time \<Rightarrow> SearchItem \<Rightarrow> DiscoveryObservation \<Rightarrow> bool" where
  "faithful_observation observedAt item ob \<longleftrightarrow> ob_ExternalID ob = it_ID item \<and> ob_ObservedAt ob = observedAt
     \<and> sorted (ob_ExternalRoleIDs ob) \<and> ob_PrimaryRoleExternalID ob \<in> set (ob_ExternalRoleIDs ob)
     \<and> set (ob_ExternalRoleIDs ob) \<subseteq> n_ID ` set (it_ProfessionalRoles item)
     \<and> (ob_SalaryEligible ob \<longleftrightarrow> ob_SalaryMidRubNet ob \<noteq> None)"

lemma DraftFromSearch_roles:
  "DraftFromSearch penv item t = Inr d \<Longrightarrow> d_ProfessionalRoleIDs d = non_empty (map n_ID (it_ProfessionalRoles item))"
  by (auto simp: DraftFromSearch_def split: if_splits sum.splits)

lemma observationFromSearch_None:
  "observationFromSearch penv sha item t opts = Inr None \<Longrightarrow> \<not> admitted item"
  by (auto simp: observationFromSearch_def Let_def admitted_def AllowedProfessionalRole_None dest!: DraftFromSearch_roles
      split: sum.splits option.splits)

lemma observationFromSearch_Some:
  assumes "observationFromSearch penv sha item t opts = Inr (Some ob)"
  shows "admitted item \<and> faithful_observation t item ob"
proof -
  from assms obtain d r where d: "DraftFromSearch penv item t = Inr d" and r: "AllowedProfessionalRole (d_ProfessionalRoleIDs d) = Some r"
    and ob: "ob_ExternalID ob = it_ID item" "ob_ObservedAt ob = t" "ob_PrimaryRoleExternalID ob = ar_ID r"
    "ob_ExternalRoleIDs ob = sort (map ar_ID (CollectedProfessionalRoles (d_ProfessionalRoleIDs d)))"
    "ob_SalaryEligible ob \<longleftrightarrow> ob_SalaryMidRubNet ob \<noteq> None"
    by (auto simp: observationFromSearch_def Let_def split: sum.splits option.splits if_splits)
  have ids: "d_ProfessionalRoleIDs d = non_empty (map n_ID (it_ProfessionalRoles item))" by (rule DraftFromSearch_roles [OF d])
  then have sub: "set (d_ProfessionalRoleIDs d) \<subseteq> n_ID ` set (it_ProfessionalRoles item)" by (auto simp: non_empty_def)
  have "r \<in> set allowedRoles" "ar_ID r \<in> set (d_ProfessionalRoleIDs d)" using AllowedProfessionalRole_Some [OF r] by simp_all
  then have "r \<in> set (CollectedProfessionalRoles (d_ProfessionalRoleIDs d))" by (simp add: CollectedProfessionalRoles_set)
  moreover have "admitted item" using \<open>r \<in> set allowedRoles\<close> \<open>ar_ID r \<in> _\<close> ids by (auto simp: admitted_def)
  ultimately show ?thesis using ob sub by (auto simp: faithful_observation_def CollectedProfessionalRoles_set)
qed

section \<open>Properties\<close>



definition quiet_env :: DiscoveryEnv where
  "quiet_env = \<lparr>de_now = 3 * Day, de_sha = (\<lambda>x. x), de_parse = \<lparr>pe_detail_json = (\<lambda>_. None), pe_url = (\<lambda>_. None),
     pe_time = (\<lambda>_ _. Some 1), pe_unescape = (\<lambda>x. x)\<rparr>\<rparr>"


text \<open>
  The observations of a page are its items with an admitted role, in order and each once; every
  one carries the identity of its item and the time of the cycle, lists the collected roles of the
  item sorted and with the primary one among them, and has a salary exactly when it is marked
  as eligible for the salary statistics.
\<close>

theorem observe_items_exact:
  assumes "observe_items penv sha t opts items = Inr obs"
  shows "list_all2 (faithful_observation t) (filter admitted items) obs"
  using assms
proof (induction items arbitrary: obs)
  case (Cons item items)
  then obtain inc obs' where h: "observationFromSearch penv sha item t opts = Inr inc" "observe_items penv sha t opts items = Inr obs'"
    "obs = (case inc of None \<Rightarrow> obs' | Some ob \<Rightarrow> ob # obs')"
    by (auto split: sum.splits)
  show ?case
  proof (cases inc)
    case None
    with observationFromSearch_None h Cons.IH show ?thesis by auto
  next
    case (Some ob)
    with observationFromSearch_Some h Cons.IH show ?thesis by auto
  qed
qed simp

definition cook :: SearchItem where
  "cook = \<lparr>it_ID = ''1'', it_Name = ''cook'', it_AlternateURL = '''', it_PublishedAt = ''x'', it_Area = None,
     it_Salary = None, it_ProfessionalRoles = [\<lparr>n_ID = ''1'', n_Name = ''''\<rparr>]\<rparr>"

definition coder :: SearchItem where
  "coder = cook\<lparr>it_ID := ''2'', it_Name := ''coder'', it_ProfessionalRoles := [\<lparr>n_ID = ''96'', n_Name = ''''\<rparr>]\<rparr>"

theorem observe_items_exact_witness:
  "\<exists>ob. observe_items (de_parse quiet_env) (de_sha quiet_env) Day DefaultOptions [cook, coder] = Inr [ob]
     \<and> faithful_observation Day coder ob"
proof -
  obtain ob where ob: "observe_items (de_parse quiet_env) (de_sha quiet_env) Day DefaultOptions [cook, coder] = Inr [ob]"
    by (simp add: observationFromSearch_def DraftFromSearch_def with_url_def parseHHTime_def quiet_env_def cook_def coder_def
        with_salary_def with_area_def empty_draft_def SourceCode_def non_empty_def AllowedProfessionalRole_def role_entry_def
        allowedRoles_def Normalize_def Let_def)
  have "filter admitted [cook, coder] = [coder]"
    by (simp add: admitted_def cook_def coder_def non_empty_def allowedRoles_def)
  with observe_items_exact [OF ob] ob show ?thesis by auto
qed

end
