(* ===== verification/It_Batch.thy ===== *)
theory It_Batch
  imports Runner Planner
begin

text \<open>
  The resumable all-IT batch, \<^verbatim>\<open>apps/ingest/internal/pipeline/it_batch.go\<close>: a plan of partitions is kept
  in the checkpoint of the cycle, and each batch runs the next partitions one after the other
  within its budget of requests, advancing the stored cycle after each partition that was
  completed. The JSON encoder and decoder of the stored cycle, and the random run ids, are
  functions of the environment. The loop is recursive on the number of partitions left.
\<close>

definition itCycleCursorVersion :: int where "itCycleCursorVersion = 1"

record ITBatchOptions =
  ib_Area :: string
  ib_PerPage :: int
  ib_MaxDepth :: int
  ib_MaxPartitions :: int
  ib_MaxBatchParts :: int
  ib_MaxPagesPerPart :: int
  ib_MaxRequests :: int
  ib_Now :: time
  ib_RequestedBy :: string
  ib_Normalize :: Options

record ITBatchResult =
  ir_LastRunID :: string
  ir_CycleID :: string
  ir_Stats :: Stats
  ir_CycleComplete :: bool
  ir_CompletedParts :: int
  ir_RemainingParts :: int

definition no_batch :: ITBatchResult where
  "no_batch = \<lparr>ir_LastRunID = '''', ir_CycleID = '''', ir_Stats = no_stats, ir_CycleComplete = False,
     ir_CompletedParts = 0, ir_RemainingParts = 0\<rparr>"

record 'w ITBatchSource =
  is_Source :: "'w Source"
  is_Catalog :: "'w RoleCatalogSource"

record itCycleCursor =
  ic_Version :: int
  ic_CycleID :: string
  ic_CycleEnd :: time
  ic_Next :: int
  ic_Complete :: bool
  ic_Partitions :: "SearchPartition list"

definition no_cursor :: itCycleCursor where
  "no_cursor = \<lparr>ic_Version = 0, ic_CycleID = '''', ic_CycleEnd = 0, ic_Next = 0, ic_Complete = False, ic_Partitions = []\<rparr>"

datatype it_error =
    ItClientAndStoreRequired
  | ItPerPage
  | ItMaxRequests
  | ItMaxBatchParts
  | ItMaxPagesPerPart
  | ItCheckpointRead store_error
  | ItCheckpointInvalid
  | ItPlan plan_error
  | ItCycleStart store_error
  | ItCycleResume store_error
  | ItRoleSync store_error
  | ItBudget
  | ItRun pipeline_error
  | ItPartitionIncomplete string
  | ItCycleProgress store_error
  | ItCycleComplete store_error
  | ItCheckpointEncode
  | ItCheckpointSave store_error

record 'w ITEnv =
  ie_run :: "'w RunnerEnv"
  ie_text :: "pipeline_error \<Rightarrow> string"
  ie_id :: "'w \<Rightarrow> string"
  ie_encode :: "itCycleCursor \<Rightarrow> string option"
  ie_decode :: "string \<Rightarrow> itCycleCursor option"

definition addStats :: "Stats \<Rightarrow> Stats \<Rightarrow> Stats" where
  "addStats dst src = \<lparr>sx_Fetched = sx_Fetched dst + sx_Fetched src, sx_Upserted = sx_Upserted dst + sx_Upserted src,
     sx_Unchanged = sx_Unchanged dst + sx_Unchanged src, sx_Excluded = sx_Excluded dst + sx_Excluded src,
     sx_Errors = sx_Errors dst + sx_Errors src, sx_Pages = sx_Pages dst + sx_Pages src\<rparr>"

definition saveITCycle :: "'w ITEnv \<Rightarrow> 's Store \<Rightarrow> string \<Rightarrow> itCycleCursor \<Rightarrow> 's \<Rightarrow> 's \<times> it_error option" where
  "saveITCycle env st scope cycle s =
     (case ie_encode env cycle of
        None \<Rightarrow> (s, Some ItCheckpointEncode)
      | Some raw \<Rightarrow>
          (case st_SavePage st s SourceCode scope raw [] of
             (s, Inl e) \<Rightarrow> (s, Some (ItCheckpointSave e))
           | (s, Inr _) \<Rightarrow> (s, None)))"

section \<open>The loop over the partitions\<close>

text \<open>How many pages of a partition the rest of the budget pays for.\<close>

definition affordable_pages :: "ITBatchOptions \<Rightarrow> int \<Rightarrow> SearchPartition \<Rightarrow> int" where
  "affordable_pages opts requestsRemaining part =
     (if p_Found part = 0 \<and> requestsRemaining > 0 then 1 else quot requestsRemaining (ib_PerPage opts + 1))"

definition partition_params :: "ITBatchOptions \<Rightarrow> int \<Rightarrow> SearchPartition \<Rightarrow> Params" where
  "partition_params opts requestsRemaining part =
     (let pages = max 1 (quot (p_Found part + ib_PerPage opts - 1) (ib_PerPage opts));
          maxPages = min (min pages (affordable_pages opts requestsRemaining part)) (ib_MaxPagesPerPart opts)
      in \<lparr>pa_Area = p_Area part, pa_Text = '''', pa_ProfessionalRole = p_RoleID part, pa_DateFrom = p_From part,
          pa_DateTo = p_To part, pa_Mode = ''incremental'', pa_MaxPages = maxPages, pa_PerPage = ib_PerPage opts,
          pa_RequestedBy = ib_RequestedBy opts\<rparr>)"

record ('w, 's) ItState =
  it_w :: 'w
  it_s :: 's
  it_cycle :: itCycleCursor
  it_result :: ITBatchResult
  it_left :: int

text \<open>The run of one partition and what follows it; the flag tells whether the loop goes on.\<close>

definition after_run :: "'w ITEnv \<Rightarrow> 's Store \<Rightarrow> string \<Rightarrow> ('w \<times> 's) \<times> Result \<times> pipeline_error option \<Rightarrow> ('w, 's) ItState
    \<Rightarrow> ('w, 's) ItState \<times> bool \<times> it_error option" where
  "after_run env st scope out b0 =
     (case out of ((w, s), run, runErr) \<Rightarrow>
      let result = (it_result b0)\<lparr>ir_LastRunID := rs_RunID run, ir_Stats := addStats (ir_Stats (it_result b0)) (rs_Stats run)\<rparr>;
          b = b0\<lparr>it_w := w, it_s := s, it_result := result,
                 it_left := it_left b0 - (sx_Fetched (rs_Stats run) + sx_Pages (rs_Stats run))\<rparr>
      in case runErr of
           Some e \<Rightarrow> (b, False, Some (ItRun e))
         | None \<Rightarrow>
             if \<not> rs_Completed run then
               (if rs_Status run = StatusSuccess then (b, False, None)
                else (b, False, Some (ItPartitionIncomplete (rs_Status run))))
             else
               (let b = b\<lparr>it_cycle := (it_cycle b)\<lparr>ic_Next := ic_Next (it_cycle b) + 1\<rparr>,
                          it_result := result\<lparr>ir_CompletedParts := ir_CompletedParts result + 1\<rparr>\<rparr>
                in case saveITCycle env st scope (it_cycle b) s of
                     (s, Some e) \<Rightarrow> (b\<lparr>it_s := s\<rparr>, False, Some e)
                   | (s, None) \<Rightarrow>
                       (case st_UpdateCycleProgress st s (ic_CycleID (it_cycle b)) (ic_Next (it_cycle b)) of
                          (s, Some e) \<Rightarrow> (b\<lparr>it_s := s\<rparr>, False, Some (ItCycleProgress e))
                        | (s, None) \<Rightarrow> (b\<lparr>it_s := s\<rparr>, True, None))))"

definition it_step :: "'w ITEnv \<Rightarrow> 'w ITBatchSource \<Rightarrow> 's Store \<Rightarrow> string \<Rightarrow> ITBatchOptions \<Rightarrow> Options \<Rightarrow> ('w, 's) ItState
    \<Rightarrow> ('w, 's) ItState \<times> bool \<times> it_error option" where
  "it_step env client st scope opts nopts b =
     (if ir_CompletedParts (it_result b) \<ge> ib_MaxBatchParts opts then (b, False, None)
      else
        (let part = ic_Partitions (it_cycle b) ! nat (ic_Next (it_cycle b)) in
         if affordable_pages opts (it_left b) part < 1 then
           (if sx_Pages (ir_Stats (it_result b)) = 0 then (b, False, Some ItBudget) else (b, False, None))
         else after_run env st scope
                (Run (ie_run env) (ie_text env) (Some (is_Source client)) (Some st) nopts (ie_id env (it_w b))
                   (partition_params opts (it_left b) part) (it_w b) (it_s b)) b))"

text \<open>\<open>n\<close> is \<^verbatim>\<open>len(cycle.Partitions) - cycle.Next\<close>.\<close>

fun it_loop :: "'w ITEnv \<Rightarrow> 'w ITBatchSource \<Rightarrow> 's Store \<Rightarrow> string \<Rightarrow> ITBatchOptions \<Rightarrow> Options \<Rightarrow> nat \<Rightarrow> ('w, 's) ItState
    \<Rightarrow> ('w, 's) ItState \<times> it_error option" where
  "it_loop env client st scope opts nopts 0 b = (b, None)"
| "it_loop env client st scope opts nopts (Suc n) b =
     (case it_step env client st scope opts nopts b of
        (b', True, _) \<Rightarrow> it_loop env client st scope opts nopts n b'
      | (b', False, e) \<Rightarrow> (b', e))"

section \<open>A batch\<close>

definition batch_defaults :: "time \<Rightarrow> ITBatchOptions \<Rightarrow> ITBatchOptions" where
  "batch_defaults now opts = opts\<lparr>ib_Area := if ib_Area opts = '''' then ''113'' else ib_Area opts,
     ib_Now := Truncate (if IsZero (ib_Now opts) then now else ib_Now opts) Second,
     ib_RequestedBy := if ib_RequestedBy opts = '''' then ''scheduler'' else ib_RequestedBy opts\<rparr>"

definition batch_guard :: "ITBatchOptions \<Rightarrow> it_error option" where
  "batch_guard opts =
     (if ib_PerPage opts < 1 \<or> ib_PerPage opts > MaxPerPage then Some ItPerPage
      else if ib_MaxRequests opts < 2 then Some ItMaxRequests
      else if ib_MaxBatchParts opts < 1 then Some ItMaxBatchParts
      else if ib_MaxPagesPerPart opts < 1 then Some ItMaxPagesPerPart
      else None)"

definition cycle_scope :: "(string \<Rightarrow> string) \<Rightarrow> ITBatchOptions \<Rightarrow> string" where
  "cycle_scope sha opts = ScopeHash sha SourceCode ''it-cycle-v1'' (ib_Area opts) '''' (ib_PerPage opts) []"

definition it_cycle_row :: "string \<Rightarrow> itCycleCursor \<Rightarrow> int \<Rightarrow> Cycle" where
  "it_cycle_row scope cycle doneParts = no_cycle\<lparr>cy_Source := SourceCode, cy_Scope := ''all_it'', cy_ScopeHash := scope,
     cy_CycleEnd := ic_CycleEnd cycle, cy_PartitionCount := int (length (ic_Partitions cycle)),
     cy_CompletedPartitions := doneParts\<rparr>"

text \<open>The stored cycle, if there is one that is valid.\<close>

definition load_cycle :: "'w ITEnv \<Rightarrow> string option \<Rightarrow> it_error + itCycleCursor option" where
  "load_cycle env cursor =
     (case cursor of
        None \<Rightarrow> Inr None
      | Some raw \<Rightarrow>
          if raw = '''' then Inr None
          else (case ie_decode env raw of
              None \<Rightarrow> Inl ItCheckpointInvalid
            | Some cycle \<Rightarrow>
                if ic_Version cycle \<noteq> itCycleCursorVersion \<or> ic_Next cycle < 0 \<or> ic_Next cycle > int (length (ic_Partitions cycle))
                then Inl ItCheckpointInvalid else Inr (Some cycle)))"

definition it_plan_options :: "ITBatchOptions \<Rightarrow> ITPlanOptions" where
  "it_plan_options opts = \<lparr>po_Area = ib_Area opts, po_CategoryID = '''', po_Earliest = 0, po_Now = ib_Now opts,
     po_MaxDepth = ib_MaxDepth opts, po_MaxPartitions = ib_MaxPartitions opts, po_MaxRequests = ib_MaxRequests opts\<rparr>"

text \<open>A new cycle: planned, started, and stored. The number is what is left of the budget.\<close>

definition plan_cycle :: "'w ITEnv \<Rightarrow> 'w ITBatchSource \<Rightarrow> 's Store \<Rightarrow> string \<Rightarrow> ITBatchOptions \<Rightarrow> 'w \<Rightarrow> 's
    \<Rightarrow> 'w \<times> 's \<times> (it_error + itCycleCursor \<times> int)" where
  "plan_cycle env client st scope opts w s =
     (case PlanIT (Some (is_Catalog client)) (ev_now (ie_run env) w) (it_plan_options opts) w of
        (w, Inl e) \<Rightarrow> (w, s, Inl (ItPlan e))
      | (w, Inr plan) \<Rightarrow>
          (let cycle = no_cursor\<lparr>ic_Version := itCycleCursorVersion, ic_CycleEnd := ib_Now opts, ic_Partitions := pl_Partitions plan\<rparr>
           in case st_StartCycle st s (it_cycle_row scope cycle 0) of
                (s, Inl e) \<Rightarrow> (w, s, Inl (ItCycleStart e))
              | (s, Inr cid) \<Rightarrow>
                  (let cycle = cycle\<lparr>ic_CycleID := cid\<rparr> in
                   case saveITCycle env st scope cycle s of
                     (s, Some e) \<Rightarrow> (w, s, Inl e)
                   | (s, None) \<Rightarrow> (w, s, Inr (cycle, ib_MaxRequests opts - pl_ProbeRequests plan)))))"

text \<open>A stored cycle without an id is registered again.\<close>

definition resume_cycle :: "'w ITEnv \<Rightarrow> 's Store \<Rightarrow> string \<Rightarrow> itCycleCursor \<Rightarrow> 's \<Rightarrow> 's \<times> (it_error + itCycleCursor)" where
  "resume_cycle env st scope cycle s =
     (if ic_CycleID cycle \<noteq> '''' then (s, Inr cycle)
      else (case st_StartCycle st s (it_cycle_row scope cycle (ic_Next cycle)) of
          (s, Inl e) \<Rightarrow> (s, Inl (ItCycleResume e))
        | (s, Inr cid) \<Rightarrow>
            (let cycle = cycle\<lparr>ic_CycleID := cid\<rparr> in
             case saveITCycle env st scope cycle s of (s, Some e) \<Rightarrow> (s, Inl e) | (s, None) \<Rightarrow> (s, Inr cycle))))"

definition open_cycle :: "'w ITEnv \<Rightarrow> 'w ITBatchSource \<Rightarrow> 's Store \<Rightarrow> string \<Rightarrow> ITBatchOptions \<Rightarrow> 'w \<Rightarrow> 's
    \<Rightarrow> 'w \<times> 's \<times> (it_error + itCycleCursor \<times> int)" where
  "open_cycle env client st scope opts w s =
     (case st_GetCheckpoint st s SourceCode scope of
        Inl e \<Rightarrow> (w, s, Inl (ItCheckpointRead e))
      | Inr cursor \<Rightarrow>
          (case load_cycle env cursor of
             Inl e \<Rightarrow> (w, s, Inl e)
           | Inr stored \<Rightarrow>
               (case (case stored of
                        Some cycle \<Rightarrow> if ic_Complete cycle then plan_cycle env client st scope opts w s
                                        else (w, s, Inr (cycle, ib_MaxRequests opts))
                      | None \<Rightarrow> plan_cycle env client st scope opts w s) of
                  (w, s, Inl e) \<Rightarrow> (w, s, Inl e)
                | (w, s, Inr (cycle, left)) \<Rightarrow>
                    (case resume_cycle env st scope cycle s of
                       (s, Inl e) \<Rightarrow> (w, s, Inl e)
                     | (s, Inr cycle) \<Rightarrow> (w, s, Inr (cycle, left))))))"

definition source_roles :: "SourceRole list" where
  "source_roles = map (\<lambda>r. \<lparr>sr_ExternalID = ar_ID r, sr_Title = ar_ExpectedName r, sr_Family = ar_Group r, sr_Scopes = ar_Scopes r\<rparr>)
     (CollectedRoles allowedRoles managementOnlyRoles)"

definition batch_normalize :: "ITBatchOptions \<Rightarrow> (string \<rightharpoonup> string) \<Rightarrow> Options" where
  "batch_normalize opts roleIDs =
     (if o_FX (ib_Normalize opts) = None then DefaultOptions else ib_Normalize opts)
       \<lparr>o_Roles := Some (MatchRole \<lparr>mr_RoleByExternalID = [SourceCode \<mapsto> roleIDs], mr_TitlePatterns = []\<rparr>)\<rparr>"

definition finish_batch :: "'w ITEnv \<Rightarrow> 's Store \<Rightarrow> string \<Rightarrow> ('w, 's) ItState
    \<Rightarrow> ('w \<times> 's) \<times> ITBatchResult \<times> it_error option" where
  "finish_batch env st scope b =
     (let cycle = it_cycle b; result = it_result b; count = int (length (ic_Partitions cycle)) in
      if ic_Next cycle \<noteq> count then ((it_w b, it_s b), result\<lparr>ir_RemainingParts := count - ic_Next cycle\<rparr>, None)
      else (case st_CompleteCycle st (it_s b) (ic_CycleID cycle) (ic_Next cycle) of
          (s, Some e) \<Rightarrow> ((it_w b, s), result, Some (ItCycleComplete e))
        | (s, None) \<Rightarrow>
            (case saveITCycle env st scope (cycle\<lparr>ic_Complete := True\<rparr>) s of
               (s, Some e) \<Rightarrow> ((it_w b, s), result, Some e)
             | (s, None) \<Rightarrow> ((it_w b, s), result\<lparr>ir_CycleComplete := True, ir_RemainingParts := count - ic_Next cycle\<rparr>, None))))"

definition RunITBatch :: "'w ITEnv \<Rightarrow> 'w ITBatchSource option \<Rightarrow> 's Store option \<Rightarrow> ITBatchOptions \<Rightarrow> 'w \<Rightarrow> 's
    \<Rightarrow> ('w \<times> 's) \<times> ITBatchResult \<times> it_error option" where
  "RunITBatch env client0 st0 opts0 w s =
     (case (client0, st0) of
        (Some client, Some st) \<Rightarrow>
          (case batch_guard opts0 of
             Some e \<Rightarrow> ((w, s), no_batch, Some e)
           | None \<Rightarrow>
               (let opts = batch_defaults (ev_now (ie_run env) w) opts0; scope = cycle_scope (ev_sha (ie_run env)) opts in
                case open_cycle env client st scope opts w s of
                  (w, s, Inl e) \<Rightarrow> ((w, s), no_batch, Some e)
                | (w, s, Inr (cycle, left)) \<Rightarrow>
                    (case st_SyncRoles st s SourceCode source_roles of
                       (s, Inl e) \<Rightarrow> ((w, s), no_batch, Some (ItRoleSync e))
                     | (s, Inr roleIDs) \<Rightarrow>
                         (case it_loop env client st scope opts (batch_normalize opts roleIDs)
                                 (nat (int (length (ic_Partitions cycle)) - ic_Next cycle))
                                 \<lparr>it_w = w, it_s = s, it_cycle = cycle, it_result = no_batch\<lparr>ir_CycleID := ic_CycleID cycle\<rparr>,
                                  it_left = left\<rparr> of
                            (b, Some e) \<Rightarrow> ((it_w b, it_s b), it_result b, Some e)
                          | (b, None) \<Rightarrow> finish_batch env st scope b))))
      | _ \<Rightarrow> ((w, s), no_batch, Some ItClientAndStoreRequired))"

section \<open>Lemmas: the budget\<close>


definition spent :: "Stats \<Rightarrow> int" where
  "spent stats = sx_Fetched stats + sx_Pages stats"











definition valid_batch :: "ITBatchOptions \<Rightarrow> bool" where
  "valid_batch opts \<longleftrightarrow> 1 \<le> ib_PerPage opts \<and> ib_PerPage opts \<le> MaxPerPage \<and> 2 \<le> ib_MaxRequests opts
     \<and> 1 \<le> ib_MaxBatchParts opts \<and> 1 \<le> ib_MaxPagesPerPart opts"

lemma batch_guard_None: "batch_guard opts = None \<longleftrightarrow> valid_batch opts"
  by (auto simp: batch_guard_def valid_batch_def)

lemma batch_defaults_sel [simp]:
  "ib_PerPage (batch_defaults now opts) = ib_PerPage opts" "ib_MaxRequests (batch_defaults now opts) = ib_MaxRequests opts"
  "ib_MaxBatchParts (batch_defaults now opts) = ib_MaxBatchParts opts" "valid_batch (batch_defaults now opts) = valid_batch opts"
  by (simp_all add: batch_defaults_def valid_batch_def)


lemma addStats_spent [simp]: "spent (addStats a b) = spent a + spent b"
  by (simp add: addStats_def spent_def)


lemma after_run_frame:
  assumes "after_run env st scope ((w, s), run, err) b = (b', cont, e)"
  shows "ir_Stats (it_result b') = addStats (ir_Stats (it_result b)) (rs_Stats run)
    \<and> it_left b' = it_left b - spent (rs_Stats run)
    \<and> ic_Partitions (it_cycle b') = ic_Partitions (it_cycle b) \<and> ic_CycleID (it_cycle b') = ic_CycleID (it_cycle b)
    \<and> ic_Version (it_cycle b') = ic_Version (it_cycle b) \<and> ic_Complete (it_cycle b') = ic_Complete (it_cycle b)
    \<and> ir_CycleID (it_result b') = ir_CycleID (it_result b) \<and> ir_CycleComplete (it_result b') = ir_CycleComplete (it_result b)
    \<and> ic_Next (it_cycle b') - ir_CompletedParts (it_result b') = ic_Next (it_cycle b) - ir_CompletedParts (it_result b)
    \<and> (cont \<longrightarrow> e = None) \<and> (ic_Next (it_cycle b') = ic_Next (it_cycle b) + 1 \<or> it_cycle b' = it_cycle b \<and> \<not> cont)"
  using assms by (auto simp: after_run_def Let_def spent_def split: option.splits if_splits prod.splits)


lemma it_step_progress:
  assumes "it_step env client st scope opts nopts b = (b', cont, e)"
  shows "ic_Partitions (it_cycle b') = ic_Partitions (it_cycle b) \<and> ic_CycleID (it_cycle b') = ic_CycleID (it_cycle b)
    \<and> ic_Version (it_cycle b') = ic_Version (it_cycle b) \<and> ic_Complete (it_cycle b') = ic_Complete (it_cycle b)
    \<and> ir_CycleID (it_result b') = ir_CycleID (it_result b) \<and> ir_CycleComplete (it_result b') = ir_CycleComplete (it_result b)
    \<and> ic_Next (it_cycle b') - ir_CompletedParts (it_result b') = ic_Next (it_cycle b) - ir_CompletedParts (it_result b)
    \<and> (cont \<longrightarrow> e = None) \<and> (ic_Next (it_cycle b') = ic_Next (it_cycle b) + 1 \<or> it_cycle b' = it_cycle b \<and> \<not> cont)
    \<and> (ir_CompletedParts (it_result b) \<le> ib_MaxBatchParts opts \<longrightarrow> ir_CompletedParts (it_result b') \<le> ib_MaxBatchParts opts)"
proof (cases "ib_MaxBatchParts opts \<le> ir_CompletedParts (it_result b)
    \<or> affordable_pages opts (it_left b) (ic_Partitions (it_cycle b) ! nat (ic_Next (it_cycle b))) < 1")
  case True
  with assms show ?thesis by (auto simp: it_step_def Let_def split: if_splits)
next
  case False
  let ?part = "ic_Partitions (it_cycle b) ! nat (ic_Next (it_cycle b))"
  obtain w s res err where r: "Run (ie_run env) (ie_text env) (Some (is_Source client)) (Some st) nopts (ie_id env (it_w b))
      (partition_params opts (it_left b) ?part) (it_w b) (it_s b) = ((w, s), res, err)" by (metis surj_pair)
  have "after_run env st scope ((w, s), res, err) b = (b', cont, e)"
    using assms False unfolding it_step_def Let_def r by simp
  note f = after_run_frame [OF this]
  with False show ?thesis by auto
qed



section \<open>Lemmas: the stored cycle\<close>

definition json_round_trip :: "'w ITEnv \<Rightarrow> bool" where
  "json_round_trip env \<longleftrightarrow> (\<forall>c raw. ie_encode env c = Some raw \<longrightarrow> raw \<noteq> '''' \<and> ie_decode env raw = Some c)"

definition valid_cursor :: "itCycleCursor \<Rightarrow> bool" where
  "valid_cursor c \<longleftrightarrow> ic_Version c = itCycleCursorVersion \<and> 0 \<le> ic_Next c \<and> ic_Next c \<le> int (length (ic_Partitions c))"

text \<open>What the next batch would load.\<close>

definition stored :: "'w ITEnv \<Rightarrow> 's Store \<Rightarrow> string \<Rightarrow> 's \<Rightarrow> itCycleCursor \<Rightarrow> bool" where
  "stored env st scope s c \<longleftrightarrow> (\<exists>cur. st_GetCheckpoint st s SourceCode scope = Inr cur \<and> load_cycle env cur = Inr (Some c))"

lemma load_cycle_valid: "load_cycle env cur = Inr (Some c) \<Longrightarrow> valid_cursor c"
  by (auto simp: load_cycle_def valid_cursor_def split: option.splits if_splits)

lemma stored_same: "same_cursors st s s' X \<Longrightarrow> scope \<notin> X \<Longrightarrow> stored env st scope s' = stored env st scope s"
  by (simp add: stored_def same_cursors_def fun_eq_iff)



text \<open>The scope of the cycle is none of a partition run: the texts differ in the mode.\<close>

lemma cycle_scope_apart:
  assumes "inj sha" "pa_Mode p = ''incremental''"
  shows "cycle_scope sha opts \<noteq> run_scope sha p"
proof
  assume "cycle_scope sha opts = run_scope sha p"
  with assms have "Join (scope_parts SourceCode ''it-cycle-v1'' (ib_Area opts) '''' (ib_PerPage opts) []) ''|''
      = Join (scope_parts SourceCode ''incremental'' (pa_Area p) (pa_Text p) (clamp_run_page (pa_PerPage p))
          [pa_ProfessionalRole p, formatScopeTime (pa_DateFrom p), formatScopeTime (pa_DateTo p)]) ''|''"
    by (simp add: cycle_scope_def run_scope_def ScopeHash_def inj_eq)
  moreover have "ToLower (TrimSpace ''hh'') = ''hh''" "ToLower (TrimSpace ''it-cycle-v1'') = ''it-cycle-v1''"
    "ToLower (TrimSpace ''incremental'') = ''incremental''" by (simp_all add: bytes_simps)
  ultimately show False unfolding scope_parts_def SourceCode_def by (simp del: map_append)
qed

context checkpoint_store
begin

lemma Run_frame:
  assumes "Run env text (Some src) (Some st) opts runID p w s = ((w', s'), res, err)"
  shows "same_cursors st s s' {run_scope (ev_sha env) p}"
proof -
  let ?scope = "run_scope (ev_sha env) p"
  obtain s1 r where c: "st_CreateRun st s (run_row runID (ev_now env w) p) = (s1, r)" by fastforce
  have same: "same_cursors st s s1 {}"
    using create_frame [of s "run_row runID (ev_now env w) p"] c by (simp add: same_cursors_def)
  show ?thesis
  proof (cases "\<exists>page. cursor_at st s ?scope page")
    case True
    then obtain page where cur: "cursor_at st s ?scope page" by blast
    then have "0 \<le> page" by (auto simp: cursor_at_def dest: ParseCursorPage_range)
    from Run_cursor [OF assms cur this] show ?thesis by blast
  next
    case False
    then have no: "\<not> cursor_at st s1 ?scope page" for page using cursor_at_same [OF same] by blast
    have "s' = s1 \<or> (\<exists>msg. s' = fst (st_FinishRun st s1 runID StatusFailed no_stats msg))"
    proof (cases "st_GetCheckpoint st s1 SourceCode ?scope")
      case (Inl e)
      with assms c show ?thesis by (cases r) (auto simp: Run_def Let_def)
    next
      case (Inr cur)
      with no obtain e where "ParseCursorPage (case cur of None \<Rightarrow> '''' | Some x \<Rightarrow> x) = Inl e"
        by (cases "ParseCursorPage (case cur of None \<Rightarrow> '''' | Some x \<Rightarrow> x)") (auto simp: cursor_at_def)
      with assms c Inr show ?thesis by (cases r) (auto simp: Run_def Let_def)
    qed
    then have "same_cursors st s1 s' {}" by (auto simp: same_cursors_def finish_frame)
    with same show ?thesis by (simp add: same_cursors_def)
  qed
qed

lemma saveITCycle_stored:
  assumes "json_round_trip env" "valid_cursor c" "saveITCycle env st scope c s = (s', None)"
  shows "stored env st scope s' c"
proof -
  from assms(3) obtain raw r where raw: "ie_encode env c = Some raw" "st_SavePage st s SourceCode scope raw [] = (s', Inr r)"
    by (auto simp: saveITCycle_def split: option.splits prod.splits sum.splits)
  have "raw \<noteq> ''''" "ie_decode env raw = Some c" using assms(1) raw(1) by (simp_all add: json_round_trip_def)
  with save_read [OF raw(2)] assms(2) show ?thesis by (auto simp: stored_def load_cycle_def valid_cursor_def)
qed

lemma it_step_stored:
  assumes "json_round_trip env" "inj (ev_sha (ie_run env))" "stored env st (cycle_scope (ev_sha (ie_run env)) o') (it_s b) (it_cycle b)"
    and "valid_cursor (it_cycle b)" "ic_Next (it_cycle b) < int (length (ic_Partitions (it_cycle b)))"
    and step: "it_step env client st (cycle_scope (ev_sha (ie_run env)) o') opts nopts b = (b', cont, None)"
  shows "stored env st (cycle_scope (ev_sha (ie_run env)) o') (it_s b') (it_cycle b') \<and> valid_cursor (it_cycle b')"
proof -
  define scope where "scope = cycle_scope (ev_sha (ie_run env)) o'"
  show ?thesis
  proof (cases "ib_MaxBatchParts opts \<le> ir_CompletedParts (it_result b)
      \<or> affordable_pages opts (it_left b) (ic_Partitions (it_cycle b) ! nat (ic_Next (it_cycle b))) < 1")
    case True
    with assms(3,4) step show ?thesis by (auto simp: it_step_def Let_def split: if_splits)
  next
    case False
    let ?p = "partition_params opts (it_left b) (ic_Partitions (it_cycle b) ! nat (ic_Next (it_cycle b)))"
    obtain w s res err where r: "Run (ie_run env) (ie_text env) (Some (is_Source client)) (Some st) nopts (ie_id env (it_w b))
        ?p (it_w b) (it_s b) = ((w, s), res, err)" by (metis surj_pair)
    have a: "after_run env st scope ((w, s), res, err) b = (b', cont, None)"
      using step False unfolding it_step_def Let_def r scope_def by simp
    have "pa_Mode ?p = ''incremental''" by (simp add: partition_params_def Let_def)
    then have "scope \<notin> {run_scope (ev_sha (ie_run env)) ?p}" using cycle_scope_apart [OF assms(2)] by (simp add: scope_def)
    from stored_same [OF Run_frame [OF r] this, of env] assms(3) have st1: "stored env st scope s (it_cycle b)" by (simp add: scope_def)
    show ?thesis
    proof (cases "rs_Completed res")
      case False
      with a have "it_s b' = s" "it_cycle b' = it_cycle b"
        by (auto simp: after_run_def Let_def split: option.splits if_splits)
      with st1 assms(4) show ?thesis by (simp add: scope_def)
    next
      case True
      define c1 where "c1 = (it_cycle b)\<lparr>ic_Next := ic_Next (it_cycle b) + 1\<rparr>"
      have v: "valid_cursor c1" using assms(4,5) by (simp add: valid_cursor_def c1_def)
      from a True obtain s1 where sv: "saveITCycle env st scope c1 s = (s1, None)" and b': "it_cycle b' = c1"
        "it_s b' = fst (st_UpdateCycleProgress st s1 (ic_CycleID c1) (ic_Next c1))"
        by (auto simp: after_run_def Let_def c1_def split: option.splits prod.splits)
      have "same_cursors st s1 (it_s b') {}" unfolding b' by (simp add: same_cursors_def cycle_frame)
      from stored_same [OF this, of scope env] saveITCycle_stored [OF assms(1) v sv] v b' show ?thesis
        by (simp add: scope_def)
    qed
  qed
qed

lemma it_loop_stored:
  assumes "json_round_trip env" "inj (ev_sha (ie_run env))"
  shows "stored env st (cycle_scope (ev_sha (ie_run env)) o') (it_s b) (it_cycle b) \<Longrightarrow> valid_cursor (it_cycle b)
    \<Longrightarrow> int n = int (length (ic_Partitions (it_cycle b))) - ic_Next (it_cycle b)
    \<Longrightarrow> it_loop env client st (cycle_scope (ev_sha (ie_run env)) o') opts nopts n b = (b', None)
    \<Longrightarrow> stored env st (cycle_scope (ev_sha (ie_run env)) o') (it_s b') (it_cycle b') \<and> valid_cursor (it_cycle b')
      \<and> ic_CycleID (it_cycle b') = ic_CycleID (it_cycle b) \<and> ic_Complete (it_cycle b') = ic_Complete (it_cycle b)
      \<and> ir_CycleID (it_result b') = ir_CycleID (it_result b) \<and> ir_CycleComplete (it_result b') = ir_CycleComplete (it_result b)
      \<and> (ir_CompletedParts (it_result b) \<le> ib_MaxBatchParts opts \<longrightarrow> ir_CompletedParts (it_result b') \<le> ib_MaxBatchParts opts)"
proof (induction n arbitrary: b)
  case (Suc n)
  obtain b1 cont e1 where s: "it_step env client st (cycle_scope (ev_sha (ie_run env)) o') opts nopts b = (b1, cont, e1)"
    by (metis prod_cases3)
  note pr = it_step_progress [OF s]
  have e1: "e1 = None" using Suc.prems(4) s pr by (cases cont) auto
  have lt: "ic_Next (it_cycle b) < int (length (ic_Partitions (it_cycle b)))" using Suc.prems(3) by simp
  note st1 = it_step_stored [OF assms Suc.prems(1,2) lt s [unfolded e1]]
  show ?case
  proof (cases cont)
    case True
    have "int n = int (length (ic_Partitions (it_cycle b1))) - ic_Next (it_cycle b1)" using pr True Suc.prems(3) by simp
    moreover have "it_loop env client st (cycle_scope (ev_sha (ie_run env)) o') opts nopts n b1 = (b', None)"
      using Suc.prems(4) s True by simp
    ultimately show ?thesis using Suc.IH [of b1] st1 pr by simp
  next
    case False
    with Suc.prems(4) s have "b' = b1" by simp
    with st1 pr show ?thesis by simp
  qed
qed simp

lemma plan_cycle_stored:
  assumes "json_round_trip env" "plan_cycle env client st scope opts w s = (w', s', Inr (c, left))"
  shows "stored env st scope s' c \<and> \<not> ic_Complete c"
proof -
  from assms(2) obtain ps s1 cid where c: "c = no_cursor\<lparr>ic_Version := itCycleCursorVersion, ic_CycleEnd := ib_Now opts, ic_Partitions := ps,
      ic_CycleID := cid\<rparr>" and sv: "saveITCycle env st scope c s1 = (s', None)"
    by (auto simp: plan_cycle_def Let_def split: prod.splits sum.splits option.splits)
  have "valid_cursor c" by (simp add: c valid_cursor_def no_cursor_def)
  from saveITCycle_stored [OF assms(1) this sv] show ?thesis by (simp add: c no_cursor_def)
qed

lemma resume_cycle_stored:
  assumes "json_round_trip env" "resume_cycle env st scope c s = (s', Inr c')" "stored env st scope s c" "\<not> ic_Complete c"
  shows "stored env st scope s' c' \<and> \<not> ic_Complete c'"
proof (cases "ic_CycleID c = ''''")
  case False
  with assms show ?thesis by (simp add: resume_cycle_def)
next
  case True
  with assms(2) obtain s1 cid where c': "c' = c\<lparr>ic_CycleID := cid\<rparr>" and sv: "saveITCycle env st scope c' s1 = (s', None)"
    by (auto simp: resume_cycle_def Let_def split: prod.splits sum.splits option.splits)
  have "valid_cursor c'" using assms(3) load_cycle_valid by (fastforce simp: stored_def c' valid_cursor_def)
  from saveITCycle_stored [OF assms(1) this sv] assms(4) show ?thesis by (simp add: c')
qed

lemma open_cycle_stored:
  assumes "json_round_trip env" "open_cycle env client st scope opts w s = (w', s', Inr (c, left))"
  shows "stored env st scope s' c \<and> \<not> ic_Complete c"
proof -
  obtain cur stored0 where g: "st_GetCheckpoint st s SourceCode scope = Inr cur" "load_cycle env cur = Inr stored0"
    using assms(2) by (auto simp: open_cycle_def split: sum.splits)
  define pre where "pre = (case stored0 of
      Some cycle \<Rightarrow> if ic_Complete cycle then plan_cycle env client st scope opts w s else (w, s, Inr (cycle, ib_MaxRequests opts))
    | None \<Rightarrow> plan_cycle env client st scope opts w s)"
  from assms(2) g obtain w1 s1 c1 where pre: "pre = (w1, s1, Inr (c1, left))" and res: "resume_cycle env st scope c1 s1 = (s', Inr c)"
    by (auto simp: open_cycle_def pre_def [symmetric] split: prod.splits sum.splits)
  have "stored env st scope s1 c1 \<and> \<not> ic_Complete c1"
  proof (cases "\<exists>c0. stored0 = Some c0 \<and> \<not> ic_Complete c0")
    case True
    with pre g show ?thesis by (auto simp: pre_def stored_def)
  next
    case False
    with pre have "plan_cycle env client st scope opts w s = (w1, s1, Inr (c1, left))"
      by (auto simp: pre_def split: option.splits if_splits)
    then show ?thesis by (rule plan_cycle_stored [OF assms(1)])
  qed
  with resume_cycle_stored [OF assms(1) res] show ?thesis by blast
qed

lemma RunITBatch_resumable:
  assumes "json_round_trip env" "inj (ev_sha (ie_run env))"
    "RunITBatch env (Some client) (Some st) opts0 w s = ((w', s'), result, None)"
  defines "scope \<equiv> cycle_scope (ev_sha (ie_run env)) (batch_defaults (ev_now (ie_run env) w) opts0)"
  shows "\<exists>c. stored env st scope s' c \<and> ic_CycleID c = ir_CycleID result
    \<and> ir_RemainingParts result = int (length (ic_Partitions c)) - ic_Next c
    \<and> (ir_CycleComplete result \<longleftrightarrow> ic_Complete c) \<and> (ir_CycleComplete result \<longleftrightarrow> ir_RemainingParts result = 0)
    \<and> ir_CompletedParts result \<le> ib_MaxBatchParts opts0"
proof -
  let ?opts = "batch_defaults (ev_now (ie_run env) w) opts0"
  have g: "valid_batch opts0" using assms(3) batch_guard_None by (fastforce simp: RunITBatch_def split: option.splits)
  then have guard: "batch_guard opts0 = None" by (simp add: batch_guard_None)
  obtain w1 s1 c left where op: "open_cycle env client st scope ?opts w s = (w1, s1, Inr (c, left))"
    using assms(3) guard unfolding RunITBatch_def scope_def Let_def by (auto split: prod.splits sum.splits)
  obtain s2 ids where sy: "st_SyncRoles st s1 SourceCode source_roles = (s2, Inr ids)"
    using assms(3) guard op unfolding RunITBatch_def scope_def [symmetric] Let_def by (auto split: prod.splits sum.splits)
  define b0 where "b0 = \<lparr>it_w = w1, it_s = s2, it_cycle = c, it_result = no_batch\<lparr>ir_CycleID := ic_CycleID c\<rparr>, it_left = left\<rparr>"
  define n where "n = nat (int (length (ic_Partitions c)) - ic_Next c)"
  obtain b where lp: "it_loop env client st scope ?opts (batch_normalize ?opts ids) n b0 = (b, None)"
    and fin: "finish_batch env st scope b = ((w', s'), result, None)"
    using assms(3) guard op sy unfolding RunITBatch_def scope_def [symmetric] Let_def n_def b0_def
    by (auto split: prod.splits option.splits)
  have st0: "stored env st scope s1 c" "\<not> ic_Complete c" using open_cycle_stored [OF assms(1) op] by simp_all
  have vc: "valid_cursor c" using st0(1) load_cycle_valid by (auto simp: stored_def)
  have "st_GetCheckpoint st s2 x y = st_GetCheckpoint st s1 x y" for x y
    using cycle_frame(4) [of s1 SourceCode source_roles x y] sy by simp
  then have st2: "stored env st scope s2 c" using st0 by (simp add: stored_def)
  have n: "int n = int (length (ic_Partitions (it_cycle b0))) - ic_Next (it_cycle b0)" using vc by (simp add: n_def b0_def valid_cursor_def)
  have start: "stored env st scope (it_s b0) (it_cycle b0)" "valid_cursor (it_cycle b0)" using st2 vc by (simp_all add: b0_def)
  note L = it_loop_stored [OF assms(1,2), of ?opts b0 n client ?opts "batch_normalize ?opts ids" b, folded scope_def, OF start n lp]
  have parts: "0 \<le> ib_MaxBatchParts ?opts" using g by (simp add: valid_batch_def)
  have L2: "stored env st scope (it_s b) (it_cycle b)" "valid_cursor (it_cycle b)" "ic_CycleID (it_cycle b) = ic_CycleID c"
    "\<not> ic_Complete (it_cycle b)" "ir_CycleID (it_result b) = ic_CycleID c" "\<not> ir_CycleComplete (it_result b)"
    "ir_CompletedParts (it_result b) \<le> ib_MaxBatchParts opts0"
    using L st0 parts by (simp_all add: b0_def no_batch_def)
  show ?thesis
  proof (cases "ic_Next (it_cycle b) = int (length (ic_Partitions (it_cycle b)))")
    case False
    with fin L2 show ?thesis by (auto simp: finish_batch_def Let_def)
  next
    case True
    then obtain s3 where sv: "saveITCycle env st scope ((it_cycle b)\<lparr>ic_Complete := True\<rparr>) s3 = (s', None)"
      and r: "result = (it_result b)\<lparr>ir_CycleComplete := True, ir_RemainingParts := 0\<rparr>"
      using fin by (auto simp: finish_batch_def Let_def split: prod.splits option.splits)
    have "valid_cursor ((it_cycle b)\<lparr>ic_Complete := True\<rparr>)" using L2(2) by (simp add: valid_cursor_def)
    from saveITCycle_stored [OF assms(1) this sv] True r L2 show ?thesis
      by (intro exI [of _ "(it_cycle b)\<lparr>ic_Complete := True\<rparr>"]) simp
  qed
qed

end

section \<open>Properties\<close>


definition it_opts0 :: ITBatchOptions where
  "it_opts0 = \<lparr>ib_Area = '''', ib_PerPage = 100, ib_MaxDepth = 0, ib_MaxPartitions = 0, ib_MaxBatchParts = 1, ib_MaxPagesPerPart = 1,
     ib_MaxRequests = 500, ib_Now = Day, ib_RequestedBy = '''', ib_Normalize = DefaultOptions\<rparr>"

text \<open>A cycle without partitions, as the decoder finds it and as it is stored once complete.\<close>

definition cursor0 :: itCycleCursor where
  "cursor0 = no_cursor\<lparr>ic_Version := 1, ic_CycleID := ''c1''\<rparr>"

definition it_env0 :: "unit ITEnv" where
  "it_env0 = \<lparr>ie_run = plain_env, ie_text = (\<lambda>_. ''''), ie_id = (\<lambda>_. ''r''),
     ie_encode = (\<lambda>c. if c = cursor0 then Some ''x'' else if c = cursor0\<lparr>ic_Complete := True\<rparr> then Some ''y'' else None),
     ie_decode = (\<lambda>s. if s = ''x'' then Some cursor0 else if s = ''y'' then Some (cursor0\<lparr>ic_Complete := True\<rparr>) else None)\<rparr>"

definition it_client0 :: "unit ITBatchSource" where
  "it_client0 = \<lparr>is_Source = empty_source, is_Catalog = quiet_source\<rparr>"

definition it_scope0 :: string where
  "it_scope0 = cycle_scope id (batch_defaults Day it_opts0)"

definition it_memory0 :: Memory where
  "it_memory0 = NewMemory\<lparr>mm_Checkpoints := [bar SourceCode it_scope0 \<mapsto> ''x''], mm_Cycles := [(''c1'', no_cycle)]\<rparr>"

lemma it_env0_sel: "ev_sha (ie_run it_env0) = id" "ev_now (ie_run it_env0) w = Day" "ie_decode it_env0 ''x'' = Some cursor0"
    "ie_encode it_env0 (cursor0\<lparr>ic_Complete := True\<rparr>) = Some ''y''"
  by (simp_all add: it_env0_def plain_env_def cursor0_def no_cursor_def)



text \<open>
  C4. A batch that reports no error can be resumed exactly: with any store that keeps the store contract, a
  JSON codec that reads what it wrote and collision-free scopes, the next batch will load a
  valid cycle with the id and the number of remaining partitions this one reports; the cycle is
  marked complete exactly if this batch reported so, which is exactly when no partition is left, and
  no more partitions were completed than one batch may. In particular the runs of the
  partitions never touch the stored cycle.
\<close>

theorem RunITBatch_resumes:
  assumes "checkpoint_store st" "json_round_trip env" "inj (ev_sha (ie_run env))"
    and "RunITBatch env (Some client) (Some st) opts w s = ((w', s'), result, None)"
  shows "\<exists>cur c. st_GetCheckpoint st s' SourceCode (cycle_scope (ev_sha (ie_run env)) (batch_defaults (ev_now (ie_run env) w) opts)) = Inr cur
    \<and> load_cycle env cur = Inr (Some c) \<and> ic_CycleID c = ir_CycleID result
    \<and> ir_RemainingParts result = int (length (ic_Partitions c)) - ic_Next c
    \<and> (ir_CycleComplete result \<longleftrightarrow> ic_Complete c) \<and> (ir_CycleComplete result \<longleftrightarrow> ir_RemainingParts result = 0)
    \<and> ir_CompletedParts result \<le> ib_MaxBatchParts opts"
  using checkpoint_store.RunITBatch_resumable [OF assms] unfolding stored_def by blast

lemma it_run0: "\<exists>s' result. RunITBatch it_env0 (Some it_client0) (Some memory_store) it_opts0 () it_memory0 = (((), s'), result, None)"
proof -
  let ?o = "batch_defaults Day it_opts0"
  have g: "batch_guard it_opts0 = None" by (simp add: batch_guard_def it_opts0_def MaxPerPage_def)
  have c: "ic_CycleID cursor0 = ''c1''" "ic_Next cursor0 = 0" "ic_Partitions cursor0 = []" "\<not> ic_Complete cursor0" "ic_Version cursor0 = 1"
    by (simp_all add: cursor0_def no_cursor_def)
  have "open_cycle it_env0 it_client0 memory_store it_scope0 ?o () it_memory0 = ((), it_memory0, Inr (cursor0, 500))"
    by (simp add: open_cycle_def memory_store_def GetCheckpoint_def it_memory0_def load_cycle_def it_env0_sel c itCycleCursorVersion_def
        resume_cycle_def it_opts0_def batch_defaults_def)
  moreover have "st_SyncRoles memory_store it_memory0 SourceCode source_roles = (it_memory0, snd (SyncRoles it_memory0 SourceCode source_roles))"
    by (simp add: memory_store_def SyncRoles_def)
  ultimately show ?thesis
    by (simp add: RunITBatch_def g Let_def it_env0_sel it_scope0_def [symmetric] SyncRoles_def c finish_batch_def saveITCycle_def
        memory_store_def CompleteCycle_def it_memory0_def no_cycle_def SavePage_def)
qed

theorem RunITBatch_resumes_witness:
  "\<exists>s' result. RunITBatch it_env0 (Some it_client0) (Some memory_store) it_opts0 () it_memory0 = (((), s'), result, None)
     \<and> (ir_CycleComplete result \<longleftrightarrow> ir_RemainingParts result = 0)"
proof -
  obtain s' result where r: "RunITBatch it_env0 (Some it_client0) (Some memory_store) it_opts0 () it_memory0 = (((), s'), result, None)"
    using it_run0 by blast
  have "json_round_trip it_env0" by (auto simp: json_round_trip_def it_env0_def)
  moreover have "inj (ev_sha (ie_run it_env0))" by (simp add: it_env0_sel)
  ultimately show ?thesis using RunITBatch_resumes [OF memory.checkpoint_store_axioms _ _ r] r by blast
qed

end
