(* ===== verification/Go_Regex.thy ===== *)
theory Go_Regex
  imports Go_Text
begin

text \<open>
  The regular expressions of the assistant, all compiled with the flag \<^verbatim>\<open>(?i)\<close>. A pattern maps
  a rune list to the rests it can leave, in the order in which the leftmost-first rule of Go's
  \<^verbatim>\<open>regexp\<close> prefers them: the left branch of an alternative before the right one, more
  repetitions before fewer. Every repetition of the source repeats a single class.

  Before them stand the three string functions only the assistant uses; behind them the scan for a whole word, the frame \<^verbatim>\<open>(?:^|[^\pL\pN])(?:X)(?:$|[^\pL\pN])\<close>
  that the aliases, the React rule and the explicit skills share, and the replacement of every match.
\<close>

section \<open>Folding and fields\<close>

text \<open>\<^verbatim>\<open>strings.EqualFold\<close> and \<^verbatim>\<open>strings.Fields\<close>; a \<^verbatim>\<open>strings.Replacer\<close> whose keys are single
  bytes replaces byte by byte.\<close>

definition EqualFold :: "string \<Rightarrow> string \<Rightarrow> bool" where
  "EqualFold s t \<longleftrightarrow> map lower_rune (runes s) = map lower_rune (runes t)"

fun fields_of :: "(rune \<times> string) list \<Rightarrow> string \<Rightarrow> string list" where
  "fields_of [] word = (if word = [] then [] else [word])"
| "fields_of ((r, bs) # cs) word =
     (if is_space r then (if word = [] then fields_of cs [] else word # fields_of cs [])
      else fields_of cs (word @ bs))"

definition Fields :: "string \<Rightarrow> string list" where
  "Fields s = fields_of (chunks s) []"

definition replace_bytes :: "(char \<times> string) list \<Rightarrow> string \<Rightarrow> string" where
  "replace_bytes table s = concat (map (\<lambda>c. case map_of table c of None \<Rightarrow> [c] | Some t \<Rightarrow> t) s)"

section \<open>Classes and patterns\<close>

definition is_number :: "rune \<Rightarrow> bool" where
  "is_number r \<longleftrightarrow> is_digit r \<or> r = 178 \<or> r = 179 \<or> r = 185 \<or> r = 188 \<or> r = 189 \<or> r = 190"

definition is_alnum :: "rune \<Rightarrow> bool" where
  "is_alnum r \<longleftrightarrow> is_letter r \<or> is_number r"

text \<open>\<open>RxSpace\<close> is \<^verbatim>\<open>\s\<close>, \<open>RxWord\<close> is \<^verbatim>\<open>\w\<close> (ASCII only), \<open>RxLetter\<close> is \<^verbatim>\<open>[\pL]\<close>, \<open>RxDigit\<close> is \<^verbatim>\<open>\d\<close>;
  \<open>RxRange\<close> and \<open>RxRunes\<close> compare up to case, \<open>RxUnion\<close> is a bracket with several members.\<close>

datatype rx_class = RxSpace | RxWord | RxLetter | RxDigit | RxRange rune rune | RxRunes "rune list"
  | RxUnion "rx_class list"

fun in_class :: "rx_class \<Rightarrow> rune \<Rightarrow> bool" where
  "in_class RxSpace r \<longleftrightarrow> r = 9 \<or> r = 10 \<or> r = 12 \<or> r = 13 \<or> r = 32"
| "in_class RxWord r \<longleftrightarrow> 48 \<le> r \<and> r \<le> 57 \<or> 65 \<le> r \<and> r \<le> 90 \<or> r = 95 \<or> 97 \<le> r \<and> r \<le> 122"
| "in_class RxLetter r \<longleftrightarrow> is_letter r"
| "in_class RxDigit r \<longleftrightarrow> 48 \<le> r \<and> r \<le> 57"
| "in_class (RxRange lo hi) r \<longleftrightarrow> lo \<le> lower_rune r \<and> lower_rune r \<le> hi"
| "in_class (RxRunes rs) r \<longleftrightarrow> List.member (map lower_rune rs) (lower_rune r)"
| "in_class (RxUnion cs) r \<longleftrightarrow> list_ex (\<lambda>c. in_class c r) cs"

datatype rx = RxLit string | RxRep nat rx_class | RxOne rx_class | RxOpt rx | RxAlt "rx list" | RxSeq "rx list"

text \<open>\<open>RxRep n c\<close> is the greedy \<^verbatim>\<open>[c]{n,}\<close>, so \<^verbatim>\<open>*\<close> at 0 and \<^verbatim>\<open>+\<close> at 1.\<close>

definition rep_rests :: "nat \<Rightarrow> rx_class \<Rightarrow> rune list \<Rightarrow> rune list list" where
  "rep_rests n c rs =
     map (\<lambda>k. drop k rs) (rev [n ..< Suc (length (takeWhile (in_class c) rs))])"

definition lit_rests :: "string \<Rightarrow> rune list \<Rightarrow> rune list list" where
  "lit_rests w rs =
     (let ws = map lower_rune (runes w) in
      if map lower_rune (take (length ws) rs) = ws then [drop (length ws) rs] else [])"

fun rests :: "rx \<Rightarrow> rune list \<Rightarrow> rune list list"
and seq_rests :: "rx list \<Rightarrow> rune list \<Rightarrow> rune list list" where
  "rests (RxLit w) rs = lit_rests w rs"
| "rests (RxRep n c) rs = rep_rests n c rs"
| "rests (RxOne c) rs = (case rs of [] \<Rightarrow> [] | r # rs' \<Rightarrow> if in_class c r then [rs'] else [])"
| "rests (RxOpt x) rs = rests x rs @ [rs]"
| "rests (RxAlt xs) rs = concat (map (\<lambda>x. rests x rs) xs)"
| "rests (RxSeq xs) rs = seq_rests xs rs"
| "seq_rests [] rs = [rs]"
| "seq_rests (x # xs) rs = concat (map (seq_rests xs) (rests x rs))"

section \<open>Whole words\<close>

definition word_here :: "rx \<Rightarrow> rune list \<Rightarrow> bool" where
  "word_here x rs = list_ex (\<lambda>rest. rest = [] \<or> \<not> is_alnum (hd rest)) (rests x rs)"

fun word_after :: "rx \<Rightarrow> rune list \<Rightarrow> bool" where
  "word_after x [] \<longleftrightarrow> False"
| "word_after x (r # rs) \<longleftrightarrow> \<not> is_alnum r \<and> word_here x rs \<or> word_after x rs"

definition MatchWord :: "rx \<Rightarrow> string \<Rightarrow> bool" where
  "MatchWord x s = (let rs = runes s in word_here x rs \<or> word_after x rs)"

section \<open>Replacing every match\<close>

text \<open>\<^verbatim>\<open>ReplaceAllString\<close> for a pattern that never matches the empty text: leftmost match first, the
  scan goes on behind it. Bytes outside the matches are copied, invalid ones too.\<close>

function replace_chunks :: "rx \<Rightarrow> string \<Rightarrow> (rune \<times> string) list \<Rightarrow> string" where
  "replace_chunks x new [] = []"
| "replace_chunks x new (c # cs) =
     (case rests x (map fst (c # cs)) of
        [] \<Rightarrow> snd c @ replace_chunks x new cs
      | rest # _ \<Rightarrow>
          if length rest < length (c # cs) then new @ replace_chunks x new (drop (length (c # cs) - length rest) (c # cs))
          else snd c @ replace_chunks x new cs)"
  by pat_completeness auto
termination
  by (relation "measure (\<lambda>(x, new, cs). length cs)") auto

declare replace_chunks.simps(2) [simp del]

definition ReplaceAllString :: "rx \<Rightarrow> string \<Rightarrow> string \<Rightarrow> string" where
  "ReplaceAllString x s new = replace_chunks x new (chunks s)"

section \<open>Lemmas\<close>

lemma rep_rests_iff: "rest \<in> set (rep_rests n c rs) \<longleftrightarrow>
    (\<exists>k. n \<le> k \<and> k \<le> length rs \<and> rest = drop k rs \<and> list_all (in_class c) (take k rs))"
proof -
  let ?m = "length (takeWhile (in_class c) rs)"
  have "k \<le> ?m \<longleftrightarrow> k \<le> length rs \<and> list_all (in_class c) (take k rs)" for k
  proof
    assume k: "k \<le> ?m"
    have "take k rs = take k (takeWhile (in_class c) rs @ dropWhile (in_class c) rs)"
      by (simp only: takeWhile_dropWhile_id)
    also have "\<dots> = take k (takeWhile (in_class c) rs)" unfolding take_append using k by (simp del: takeWhile_dropWhile_id)
    finally have "take k rs = take k (takeWhile (in_class c) rs)" .
    then have "list_all (in_class c) (take k rs)"
      by (auto simp: list_all_iff dest: in_set_takeD set_takeWhileD)
    with k length_takeWhile_le [of "in_class c" rs] show "k \<le> length rs \<and> list_all (in_class c) (take k rs)" by linarith
  next
    assume k: "k \<le> length rs \<and> list_all (in_class c) (take k rs)"
    show "k \<le> ?m"
    proof (rule ccontr)
      assume "\<not> k \<le> ?m"
      with k have m: "?m < k" "?m < length rs" by auto
      then have "rs ! ?m \<in> set (take k rs)" by (auto simp: in_set_conv_nth intro!: exI [of _ ?m])
      with k have "in_class c (rs ! ?m)" by (simp add: list_all_iff)
      with nth_length_takeWhile [OF m(2)] show False by simp
    qed
  qed
  moreover have "rest \<in> set (rep_rests n c rs) \<longleftrightarrow> (\<exists>k. n \<le> k \<and> k \<le> ?m \<and> rest = drop k rs)"
    by (auto simp del: upt_Suc simp: rep_rests_def image_iff Bex_def less_Suc_eq_le)
  ultimately show ?thesis by blast
qed

lemma rests_suffix:
  "rest \<in> set (rests x rs) \<Longrightarrow> \<exists>k. k \<le> length rs \<and> rest = drop k rs"
  "rest \<in> set (seq_rests xs rs) \<Longrightarrow> \<exists>k. k \<le> length rs \<and> rest = drop k rs"
proof (induction x rs and xs rs arbitrary: rest and rest rule: rests_seq_rests.induct)
  case (1 w rs)
  then have w: "map lower_rune (take (length (runes w)) rs) = map lower_rune (runes w)"
    "rest = drop (length (runes w)) rs" by (auto simp: lit_rests_def Let_def split: if_splits)
  from w(1) have "length (take (length (runes w)) rs) = length (runes w)" by (metis length_map)
  then have "length (runes w) \<le> length rs" by (simp add: min_def split: if_splits)
  with w(2) show ?case by blast
next
  case (2 n c rs)
  then show ?case by (auto simp: rep_rests_iff)
next
  case (3 c rs)
  then show ?case by (auto split: list.splits if_splits intro!: exI [of _ 1])
next
  case (4 x rs)
  then show ?case by (auto intro: exI [of _ 0])
next
  case (8 x xs rs)
  then obtain mid where mid: "mid \<in> set (rests x rs)" "rest \<in> set (seq_rests xs mid)" by auto
  from 8(1) [OF mid(1)] obtain j where j: "j \<le> length rs" "mid = drop j rs" by blast
  from 8(2) [OF mid] obtain k where "k \<le> length mid" "rest = drop k mid" by blast
  with j show ?case by (intro exI [of _ "k + j"]) simp
qed auto

lemma word_after_iff:
  "word_after x rs \<longleftrightarrow> (\<exists>pre r post. rs = pre @ r # post \<and> \<not> is_alnum r \<and> word_here x post)"
  by (induction rs) (auto simp: Cons_eq_append_conv)

declare EqualFold_def [bytes_simps] Fields_def [bytes_simps] replace_bytes_def [bytes_simps]
declare is_number_def [bytes_simps] is_alnum_def [bytes_simps] rep_rests_def [bytes_simps]
  lit_rests_def [bytes_simps] word_here_def [bytes_simps] MatchWord_def [bytes_simps]
  replace_chunks.simps [bytes_simps] ReplaceAllString_def [bytes_simps]

end
