(* ===== verification/Assist_Rules.thy ===== *)
theory Assist_Rules
  imports Go_Regex "HOL-Library.AList"
begin

text \<open>
  The assistant's vocabulary, \<^verbatim>\<open>libs/go-common/assistant\<close>: the approved role policy and the upgrade
  of legacy roles (\<^verbatim>\<open>roles.go\<close>), the preference record and its validation (\<^verbatim>\<open>postgres.go\<close>,
  \<^verbatim>\<open>validatePreferences\<close>), and the specialisation rules (\<^verbatim>\<open>specialization.go\<close>). A decoded JSON
  value is an \<open>any\<close>; a Go map is an association list with distinct keys, looked up by \<open>crit\<close>, which
  answers nil for a key that is not there. \<^verbatim>\<open>json.Marshal\<close> is an argument of the validation.
\<close>

section \<open>Preference records\<close>

datatype any = AnyNil | AnyBool bool | AnyNumber float64 | AnyString string | AnyStrings "string list"
  | AnyList "any list" | AnyMap "(string \<times> any) list"

type_synonym criteria = "(string \<times> any) list"

record PreferenceRecord =
  pc_ID :: string
  pc_Version :: int
  pc_Note :: string
  pc_HardCriteria :: criteria
  pc_SoftCriteria :: criteria
  pc_Weights :: "(string \<times> float64) list"
  pc_ActiveFrom :: time
  pc_ArchivedAt :: "time option"
  pc_LegacyRoleUpgraded :: bool
  pc_LegacySpecializationSuggestion :: string

definition crit :: "criteria \<Rightarrow> string \<Rightarrow> any" where
  "crit c k = (case map_of c k of None \<Rightarrow> AnyNil | Some v \<Rightarrow> v)"

datatype pref_error = RoleAliasUnknown string | RoleAliasNotString | RolesNotStrings | RolesNotArray
  | RoleUnsupported string | SpecializationUnsupported | LeadershipNotBool | HardKeyUnsupported string
  | WeightUnsupported string | SoftKeyUnused string | NoteTooLong | HardNotEncodable | SoftNotEncodable
  | WeightsNotEncodable

section \<open>Roles\<close>

record ApprovedRole =
  ap_ID :: string
  ap_Label :: string
  ap_Group :: string

definition approvedRolePolicy :: "(string \<times> ApprovedRole) list" where
  "approvedRolePolicy =
    [(''96'', \<lparr>ap_ID = ''96'', ap_Label = ru ''Programmist, razrabot4ik'', ap_Group = ''software_development''\<rparr>),
     (''104'', \<lparr>ap_ID = ''104'', ap_Label = ru ''Rukovoditel8 grupp3 razrabotki'', ap_Group = ''software_development''\<rparr>),
     (''148'', \<lparr>ap_ID = ''148'', ap_Label = ru ''Sistemn3y analitik'', ap_Group = ''analytics''\<rparr>),
     (''150'', \<lparr>ap_ID = ''150'', ap_Label = ru ''Biznes-analitik'', ap_Group = ''analytics''\<rparr>),
     (''156'', \<lparr>ap_ID = ''156'', ap_Label = ''BI-'' @ ru ''analitik, analitik dann3h'', ap_Group = ''analytics''\<rparr>),
     (''164'', \<lparr>ap_ID = ''164'', ap_Label = ru ''Produktov3y analitik'', ap_Group = ''analytics''\<rparr>),
     (''124'', \<lparr>ap_ID = ''124'', ap_Label = ru ''Testirov5ik'', ap_Group = ''quality_assurance''\<rparr>)]"

definition legacyRoleAliases :: "(string \<times> string list) list" where
  "legacyRoleAliases =
    [(''backend'', [''96'']), (''backend developer'', [''96'']), (''frontend'', [''96'']),
     (''frontend developer'', [''96'']), (''fullstack'', [''96'']), (''full stack'', [''96'']),
     (''fullstack developer'', [''96'']), (''developer'', [''96'']), (''programmer'', [''96'']),
     (''software developer'', [''96'']), (''team lead'', [''104'']), (''teamlead'', [''104'']),
     (''lead developer'', [''104'']), (''qa'', [''124'']), (''qa engineer'', [''124'']), (''tester'', [''124'']),
     (''quality assurance'', [''124'']), (''system analyst'', [''148'']), (''systems analyst'', [''148'']),
     (''business analyst'', [''150'']), (''bi analyst'', [''156'']), (''data analyst'', [''156'']),
     (''product analyst'', [''164''])]"

definition legacySpecializationSuggestions :: "(string \<times> string) list" where
  "legacySpecializationSuggestions =
    [(''backend'', ''backend''), (''backend developer'', ''backend''), (''frontend'', ''frontend''),
     (''frontend developer'', ''frontend''), (''fullstack'', ''fullstack''), (''full stack'', ''fullstack''),
     (''fullstack developer'', ''fullstack'')]"

definition policy_role :: "string \<Rightarrow> ApprovedRole" where
  "policy_role i = (case map_of approvedRolePolicy i of
     None \<Rightarrow> \<lparr>ap_ID = '''', ap_Label = '''', ap_Group = ''''\<rparr> | Some r \<Rightarrow> r)"

definition ApprovedRoles :: "ApprovedRole list" where
  "ApprovedRoles = map policy_role [''96'', ''104'', ''148'', ''150'', ''156'', ''164'', ''124'']"

definition role_alias :: "string \<Rightarrow> string" where
  "role_alias value =
     Join (Fields (replace_bytes [(CHR ''_'', '' ''), (CHR ''-'', '' '')] (ToLower (TrimSpace value)))) '' ''"

definition NormalizeLegacyRole :: "string \<Rightarrow> pref_error + string list" where
  "NormalizeLegacyRole value =
     (case map_of legacyRoleAliases (role_alias value) of
        None \<Rightarrow> Inl (RoleAliasUnknown value)
      | Some roles \<Rightarrow> Inr roles)"

text \<open>The set of ids is collected in a map and sorted, so its iteration order does not matter.\<close>

definition mergeRoleIDs :: "string list \<Rightarrow> string list \<Rightarrow> string list" where
  "mergeRoleIDs left right = sort (remdups (filter (\<lambda>i. i \<noteq> '''') (left @ right)))"

fun any_strings :: "any list \<Rightarrow> pref_error + string list" where
  "any_strings [] = Inr []"
| "any_strings (AnyString t # items) =
     (case any_strings items of Inl e \<Rightarrow> Inl e | Inr ts \<Rightarrow> Inr (TrimSpace t # ts))"
| "any_strings (_ # items) = Inl RolesNotStrings"

definition approvedRoleIDs :: "any \<Rightarrow> pref_error + string list" where
  "approvedRoleIDs value =
     (case value of
        AnyNil \<Rightarrow> Inr []
      | AnyList items \<Rightarrow> (case any_strings items of Inl e \<Rightarrow> Inl e | Inr ts \<Rightarrow> Inr (mergeRoleIDs [] ts))
      | AnyStrings items \<Rightarrow> Inr (mergeRoleIDs [] (map TrimSpace items))
      | _ \<Rightarrow> Inl RolesNotArray)"

fun first_unsupported :: "string list \<Rightarrow> pref_error option" where
  "first_unsupported [] = None"
| "first_unsupported (i # ids) =
     (case map_of approvedRolePolicy i of None \<Rightarrow> Some (RoleUnsupported i) | Some _ \<Rightarrow> first_unsupported ids)"

definition validateApprovedRoles :: "any \<Rightarrow> pref_error option" where
  "validateApprovedRoles value =
     (case approvedRoleIDs value of Inl e \<Rightarrow> Some e | Inr ids \<Rightarrow> first_unsupported ids)"

definition NormalizePreferenceRoles :: "PreferenceRecord \<Rightarrow> pref_error + PreferenceRecord \<times> bool" where
  "NormalizePreferenceRoles p =
     (case map_of (pc_HardCriteria p) ''role'' of
        None \<Rightarrow> Inr (p, False)
      | Some (AnyString value) \<Rightarrow>
          (case NormalizeLegacyRole value of
             Inl e \<Rightarrow> Inl e
           | Inr mapped \<Rightarrow>
               (case approvedRoleIDs (crit (pc_HardCriteria p) ''approved_roles'') of
                  Inl e \<Rightarrow> Inl e
                | Inr current \<Rightarrow>
                    let hard = AList.update ''approved_roles'' (AnyList (map AnyString (mergeRoleIDs current mapped)))
                                 (pc_HardCriteria p)
                    in Inr (p\<lparr>pc_HardCriteria := AList.delete ''role'' hard, pc_LegacyRoleUpgraded := True,
                         pc_LegacySpecializationSuggestion :=
                           (case map_of legacySpecializationSuggestions (role_alias value) of None \<Rightarrow> '''' | Some x \<Rightarrow> x)\<rparr>,
                       True)))
      | Some _ \<Rightarrow> Inl RoleAliasNotString)"

section \<open>Specialisation rules\<close>

type_synonym Specialization = string

definition SpecializationFrontend :: Specialization where "SpecializationFrontend = ''frontend''"
definition SpecializationBackend :: Specialization where "SpecializationBackend = ''backend''"
definition SpecializationFullstack :: Specialization where "SpecializationFullstack = ''fullstack''"
definition SpecializationMobile :: Specialization where "SpecializationMobile = ''mobile''"
definition SpecializationDevOps :: Specialization where "SpecializationDevOps = ''devops_platform''"
definition SpecializationDataML :: Specialization where "SpecializationDataML = ''data_ml''"
definition SpecializationOther :: Specialization where "SpecializationOther = ''other''"
definition SpecializationUnknown :: Specialization where "SpecializationUnknown = ''unknown''"

lemmas specialization_defs = SpecializationFrontend_def SpecializationBackend_def SpecializationFullstack_def
  SpecializationMobile_def SpecializationDevOps_def SpecializationDataML_def SpecializationOther_def
  SpecializationUnknown_def

definition supportedSpecializations :: "Specialization list" where
  "supportedSpecializations = [SpecializationFrontend, SpecializationBackend, SpecializationFullstack,
     SpecializationMobile, SpecializationDevOps, SpecializationDataML, SpecializationOther]"

definition validateSpecialization :: "any \<Rightarrow> bool" where
  "validateSpecialization value =
     (case value of AnyNil \<Rightarrow> True | AnyString t \<Rightarrow> List.member supportedSpecializations t | _ \<Rightarrow> False)"

text \<open>The pieces of the alias patterns: \<^verbatim>\<open>[\s-]?\<close>, \<^verbatim>\<open>[\s-]+\<close>, \<^verbatim>\<open>\w*\<close>, \<^verbatim>\<open>[\pL]*\<close> and \<^verbatim>\<open>[\<close>\<open>ie\<close>\<^verbatim>\<open>]\<close> for the
  two Cyrillic letters that stand for it.\<close>

definition sep_class :: rx_class where "sep_class = RxUnion [RxSpace, RxRunes [45]]"
definition sep_opt :: rx where "sep_opt = RxOpt (RxOne sep_class)"
definition sep_many :: rx where "sep_many = RxRep 1 sep_class"
definition word_tail :: rx where "word_tail = RxRep 0 RxWord"
definition letter_tail :: rx where "letter_tail = RxRep 0 RxLetter"
definition e_class :: rx where "e_class = RxOne (RxRunes [1077, 1101])"

definition sep_pair :: "string \<Rightarrow> string \<Rightarrow> rx" where
  "sep_pair a b = RxSeq [RxLit a, sep_opt, RxLit b]"

definition frontend_aliases :: "rx list" where
  "frontend_aliases =
    [sep_pair ''front'' ''end'', sep_pair (ru ''front'') (ru ''7nd''), RxLit (ru ''frontend''),
     RxSeq [RxLit ''react'', RxOpt (RxLit ''.js'')], RxSeq [RxLit ''vue'', RxOpt (RxLit ''.js'')],
     RxLit ''angular'', RxLit ''javascript'', RxLit ''typescript'', RxLit ''js'', RxLit ''ts'']"

definition backend_aliases :: "rx list" where
  "backend_aliases =
    [sep_pair ''back'' ''end'', sep_pair (ru ''b7k'') (ru ''7nd''), RxLit (ru ''b7kend''), RxLit ''backend'',
     sep_pair ''server'' ''side'']"

definition fullstack_aliases :: "rx list" where
  "fullstack_aliases =
    [sep_pair ''full'' ''stack'', RxSeq [RxLit (ru ''full''), sep_opt, RxLit (ru ''st''), e_class, RxLit (ru ''k'')],
     RxSeq [RxLit (ru ''fulst''), e_class, RxLit (ru ''k'')]]"

definition mobile_aliases :: "rx list" where
  "mobile_aliases =
    [RxLit ''mobile'', RxSeq [RxLit (ru ''mobil8n''), word_tail], RxLit ''android'', RxLit ''ios'', RxLit ''flutter'',
     sep_pair ''react'' ''native'']"

definition devops_aliases :: "rx list" where
  "devops_aliases =
    [RxLit ''devops'', RxSeq [RxLit ''platform'', sep_opt, RxLit ''engineer'', word_tail], RxLit ''sre'',
     RxSeq [RxLit (ru ''injener''), word_tail, RxRep 1 RxSpace, RxLit (ru ''platform''), word_tail]]"

definition dataML_aliases :: "rx list" where
  "dataML_aliases =
    [RxSeq [RxLit ''data'', sep_opt, RxLit ''engineer'', word_tail], sep_pair ''machine'' ''learning'',
     RxSeq [RxLit ''ml'', sep_opt, RxLit ''engineer'', word_tail],
     RxSeq [RxLit ''data'', sep_opt, RxLit ''scientist'', word_tail],
     RxSeq [RxLit (ru ''data''), sep_opt, RxLit (ru ''injener''), word_tail]]"

definition other_aliases :: "rx list" where
  "other_aliases =
    [RxLit ''embedded'', RxLit ''firmware'', RxSeq [RxLit ''game'', sep_opt, RxLit ''developer'', word_tail],
     RxLit ''unity'', RxLit ''1c'', RxLit (ru ''1s'')]"

definition leadership_aliases :: "rx list" where
  "leadership_aliases =
    [RxSeq [RxLit ''team'', sep_opt, RxLit ''lead'', RxOpt (RxLit ''er'')],
     RxSeq [RxLit ''tech'', RxOpt (RxLit ''nical''), sep_opt, RxLit ''lead''],
     RxSeq [RxLit ''lead'', sep_opt, RxAlt [RxLit ''developer'', RxLit ''engineer'']],
     RxSeq [RxLit ''lead'', sep_opt, RxLit ''front'', sep_opt, RxLit ''end''],
     sep_pair (ru ''tim'') (ru ''lid''), sep_pair (ru ''teh'') (ru ''lid''),
     RxSeq [RxLit (ru ''rukovoditel''), letter_tail], sep_pair ''head'' ''of'',
     RxSeq [RxLit ''chief'', sep_many, RxLit ''technology'', sep_many, RxLit ''officer''], RxLit ''cto'',
     RxSeq [RxLit ''engineering'', sep_many, RxLit ''director''],
     RxSeq [RxLit ''director'', sep_many, RxLit ''of'', sep_many, RxAlt [RxLit ''engineering'', RxLit ''development'']],
     RxSeq [RxLit (ru ''tehni4esk''), letter_tail, sep_many, RxLit (ru ''direktor''), letter_tail],
     RxSeq [RxLit (ru ''direktor''), letter_tail, sep_many, RxLit (ru ''po''), sep_many, RxLit (ru ''razrabotk''), letter_tail],
     RxSeq [RxLit (ru ''rukovoditel''), letter_tail, sep_many,
       RxAlt [RxSeq [RxLit (ru ''razrabotk''), letter_tail], RxSeq [RxLit (ru ''otdel''), letter_tail]]]]"

definition hasAlias :: "string \<Rightarrow> rx list \<Rightarrow> bool" where
  "hasAlias value rules = list_ex (\<lambda>rule. MatchWord rule value) rules"

definition specialization_hits :: "(Specialization \<times> rx list) list" where
  "specialization_hits =
    [(SpecializationFrontend, frontend_aliases), (SpecializationBackend, backend_aliases),
     (SpecializationMobile, mobile_aliases), (SpecializationDevOps, devops_aliases),
     (SpecializationDataML, dataML_aliases), (SpecializationOther, other_aliases)]"

fun classify_loop :: "string \<Rightarrow> (Specialization \<times> rx list) list \<Rightarrow> Specialization \<Rightarrow> Specialization" where
  "classify_loop value [] found = (if found = '''' then SpecializationUnknown else found)"
| "classify_loop value ((spec, rules) # hits) found =
     (if hasAlias value rules then
        (if found \<noteq> '''' \<and> found \<noteq> spec then SpecializationUnknown else classify_loop value hits spec)
      else classify_loop value hits found)"

definition classifyText :: "string \<Rightarrow> Specialization" where
  "classifyText value =
     (if TrimSpace value = '''' then SpecializationUnknown
      else if hasAlias value fullstack_aliases then SpecializationFullstack
      else classify_loop value specialization_hits '''')"

section \<open>Validation\<close>

definition hard_keys :: "string list" where
  "hard_keys = [''approved_roles'', ''specialization'', ''include_leadership'', ''regions'', ''required_skills'',
     ''excluded_skills'', ''remote_only'', ''min_salary_rub'']"

definition weight_keys :: "string list" where
  "weight_keys = [''role'', ''salary'', ''region'', ''skills'']"

definition first_outside :: "string list \<Rightarrow> string list \<Rightarrow> string option" where
  "first_outside keys ks = List.find (\<lambda>k. \<not> List.member keys k) ks"

text \<open>The two encoders stand for \<^verbatim>\<open>json.Marshal\<close>; the order of a list is the iteration order of its map.\<close>

definition validatePreferences :: "(criteria \<Rightarrow> string option) \<Rightarrow> ((string \<times> float64) list \<Rightarrow> string option)
    \<Rightarrow> PreferenceRecord \<Rightarrow> pref_error + string \<times> string \<times> string" where
  "validatePreferences marshal marshalWeights p =
     (if length (runes (pc_Note p)) > 2000 then Inl NoteTooLong
      else case first_outside hard_keys (map fst (pc_HardCriteria p)) of
        Some k \<Rightarrow> Inl (HardKeyUnsupported k)
      | None \<Rightarrow>
      (case validateApprovedRoles (crit (pc_HardCriteria p) ''approved_roles'') of
        Some e \<Rightarrow> Inl e
      | None \<Rightarrow>
      if \<not> validateSpecialization (crit (pc_HardCriteria p) ''specialization'') then Inl SpecializationUnsupported
      else if (case map_of (pc_HardCriteria p) ''include_leadership'' of
                 None \<Rightarrow> False | Some (AnyBool _) \<Rightarrow> False | Some _ \<Rightarrow> True) then Inl LeadershipNotBool
      else (case first_outside weight_keys (map fst (pc_Weights p)) of
        Some k \<Rightarrow> Inl (WeightUnsupported k)
      | None \<Rightarrow>
      (case pc_SoftCriteria p of
        (k, _) # _ \<Rightarrow> Inl (SoftKeyUnused k)
      | [] \<Rightarrow>
      (case marshal (pc_HardCriteria p) of
        None \<Rightarrow> Inl HardNotEncodable
      | Some hard \<Rightarrow> if length hard > 32 * 1024 then Inl HardNotEncodable else
      (case marshal (pc_SoftCriteria p) of
        None \<Rightarrow> Inl SoftNotEncodable
      | Some soft \<Rightarrow> if length soft > 32 * 1024 then Inl SoftNotEncodable else
      (case marshalWeights (pc_Weights p) of
        None \<Rightarrow> Inl WeightsNotEncodable
      | Some weights \<Rightarrow> if length weights > 8 * 1024 then Inl WeightsNotEncodable
                        else Inr (hard, soft, weights))))))))"

section \<open>Lemmas\<close>

lemmas alias_defs = frontend_aliases_def backend_aliases_def fullstack_aliases_def mobile_aliases_def
  devops_aliases_def dataML_aliases_def other_aliases_def leadership_aliases_def sep_class_def sep_opt_def
  sep_many_def word_tail_def letter_tail_def e_class_def sep_pair_def

lemma set_mergeRoleIDs: "set (mergeRoleIDs xs ys) = (set xs \<union> set ys) - {''''}"
  by (auto simp: mergeRoleIDs_def)

lemma mergeRoleIDs_fixed: "mergeRoleIDs [] (mergeRoleIDs xs ys) = mergeRoleIDs xs ys"
proof -
  let ?m = "mergeRoleIDs xs ys"
  have "filter (\<lambda>i. i \<noteq> '''') ?m = ?m" using set_mergeRoleIDs [of xs ys] by (auto simp: filter_id_conv)
  moreover have "distinct ?m" "sorted ?m" by (simp_all add: mergeRoleIDs_def)
  ultimately show ?thesis unfolding mergeRoleIDs_def [of "[]"] by (simp add: distinct_remdups_id sort_key_id_if_sorted)
qed

lemma any_strings_map [simp]: "any_strings (map AnyString ts) = Inr (map TrimSpace ts)"
  by (induction ts) simp_all

lemma approvedRoleIDs_trimmed: "approvedRoleIDs v = Inr ids \<Longrightarrow> i \<in> set ids \<Longrightarrow> TrimSpace i = i"
proof -
  have *: "any_strings xs = Inr ts \<Longrightarrow> t \<in> set ts \<Longrightarrow> TrimSpace t = t" for xs ts t
    by (induction xs arbitrary: ts rule: any_strings.induct) (auto split: sum.splits)
  show "approvedRoleIDs v = Inr ids \<Longrightarrow> i \<in> set ids \<Longrightarrow> TrimSpace i = i"
    by (auto simp: approvedRoleIDs_def set_mergeRoleIDs dest: * split: any.splits sum.splits)
qed

lemma policy_ids: "map_of legacyRoleAliases a = Some ids \<Longrightarrow> i \<in> set ids \<Longrightarrow>
    i \<in> {''96'', ''104'', ''124'', ''148'', ''150'', ''156'', ''164''}"
  by (drule map_of_SomeD) (auto simp: legacyRoleAliases_def)

lemma policy_id_facts:
  assumes "i \<in> {''96'', ''104'', ''124'', ''148'', ''150'', ''156'', ''164''}"
  shows "TrimSpace i = i" "map_of approvedRolePolicy i \<noteq> None" "i \<noteq> ''''"
  using assms by (auto simp: approvedRolePolicy_def) (simp_all add: bytes_simps)

lemma first_unsupported_None: "first_unsupported ids = None \<longleftrightarrow> (\<forall>i \<in> set ids. map_of approvedRolePolicy i \<noteq> None)"
  by (induction ids) (auto split: option.splits)

lemma classify_loop_found:
  "found \<noteq> '''' \<Longrightarrow> classify_loop value hits found =
     (if list_all (\<lambda>(spec, rules). hasAlias value rules \<longrightarrow> spec = found) hits then found else SpecializationUnknown)"
  by (induction hits arbitrary: found) (auto split: if_splits)

lemma classify_loop_start:
  assumes "distinct (map fst hits)" "'''' \<notin> fst ` set hits"
  shows "classify_loop value hits '''' =
     (case filter (\<lambda>(spec, rules). hasAlias value rules) hits of [(spec, _)] \<Rightarrow> spec | _ \<Rightarrow> SpecializationUnknown)"
  using assms
proof (induction hits)
  case (Cons h hits)
  obtain spec rules where h: "h = (spec, rules)" by fastforce
  show ?case
  proof (cases "hasAlias value rules")
    case True
    have "list_all (\<lambda>(s, r). hasAlias value r \<longrightarrow> s = spec) hits \<longleftrightarrow> filter (\<lambda>(s, r). hasAlias value r) hits = []"
      using Cons.prems h by (auto simp: list_all_iff filter_empty_conv rev_image_eqI)
    with True h Cons.prems show ?thesis
      by (auto simp: classify_loop_found split: list.splits)
  next
    case False
    with Cons h show ?thesis by simp
  qed
qed simp

text \<open>A stem with an ASCII tail: what follows the stem in the text decides.\<close>

lemma lit_rests_self: "lit_rests w (runes w @ rs) = [rs]"
  by (simp add: lit_rests_def Let_def)

lemma rep_rests_stop: "\<not> in_class c r \<Longrightarrow> rep_rests 0 c (r # rs) = [r # rs]"
  by (simp add: rep_rests_def)

section \<open>Properties\<close>

text \<open>
  Upgrading a record with a legacy role removes the legacy key, makes the approved roles exactly
  the ones it had together with the ones the alias stands for (kept sorted and free of duplicates),
  leaves every other criterion alone, passes the role validation exactly when the record did, and a
  second upgrade changes nothing.
\<close>

theorem role_upgrade:
  assumes "NormalizePreferenceRoles p = Inr (q, True)"
  shows "\<exists>value mapped current ids.
      map_of (pc_HardCriteria p) ''role'' = Some (AnyString value) \<and> NormalizeLegacyRole value = Inr mapped
    \<and> approvedRoleIDs (crit (pc_HardCriteria p) ''approved_roles'') = Inr current
    \<and> approvedRoleIDs (crit (pc_HardCriteria q) ''approved_roles'') = Inr ids
    \<and> set ids = set current \<union> set mapped \<and> sorted ids \<and> distinct ids
    \<and> (validateApprovedRoles (crit (pc_HardCriteria q) ''approved_roles'') = None \<longleftrightarrow>
        validateApprovedRoles (crit (pc_HardCriteria p) ''approved_roles'') = None)
    \<and> (\<forall>k. k \<noteq> ''role'' \<longrightarrow> k \<noteq> ''approved_roles'' \<longrightarrow> crit (pc_HardCriteria q) k = crit (pc_HardCriteria p) k)
    \<and> NormalizePreferenceRoles q = Inr (q, False)"
proof -
  obtain a where v: "map_of (pc_HardCriteria p) ''role'' = Some (AnyString a)"
    using assms by (auto simp: NormalizePreferenceRoles_def split: option.splits any.splits)
  obtain mapped where m: "NormalizeLegacyRole a = Inr mapped"
    using assms v by (auto simp: NormalizePreferenceRoles_def split: sum.splits)
  obtain current where c: "approvedRoleIDs (crit (pc_HardCriteria p) ''approved_roles'') = Inr current"
    using assms v m by (auto simp: NormalizePreferenceRoles_def split: sum.splits)
  let ?ids = "mergeRoleIDs current mapped"
  have hard: "map_of (pc_HardCriteria q) k = (if k = ''role'' then None
      else if k = ''approved_roles'' then Some (AnyList (map AnyString ?ids)) else map_of (pc_HardCriteria p) k)" for k
    using assms v m c by (auto simp: NormalizePreferenceRoles_def Let_def delete_conv update_conv)
  have mid: "i \<in> {''96'', ''104'', ''124'', ''148'', ''150'', ''156'', ''164''}" if "i \<in> set mapped" for i
    using m that by (auto simp: NormalizeLegacyRole_def dest: policy_ids split: option.splits)
  have cid: "'''' \<notin> set current" using c
    by (auto simp: approvedRoleIDs_def set_mergeRoleIDs split: any.splits sum.splits)
  have set_ids: "set ?ids = set current \<union> set mapped"
    using cid mid policy_id_facts(3) by (auto simp: set_mergeRoleIDs)
  have "TrimSpace i = i" if "i \<in> set ?ids" for i
    using that set_ids approvedRoleIDs_trimmed [OF c] mid policy_id_facts(1) by blast
  then have "map TrimSpace ?ids = ?ids" by (simp add: map_idI)
  then have ids: "approvedRoleIDs (crit (pc_HardCriteria q) ''approved_roles'') = Inr ?ids"
    by (simp add: approvedRoleIDs_def crit_def hard mergeRoleIDs_fixed)
  have valid: "validateApprovedRoles (crit (pc_HardCriteria q) ''approved_roles'') = None \<longleftrightarrow>
        validateApprovedRoles (crit (pc_HardCriteria p) ''approved_roles'') = None"
    using mid policy_id_facts(2) by (auto simp: validateApprovedRoles_def ids c first_unsupported_None set_ids)
  have "NormalizePreferenceRoles q = Inr (q, False)" by (simp add: NormalizePreferenceRoles_def hard)
  moreover have "sorted ?ids" "distinct ?ids" by (simp_all add: mergeRoleIDs_def)
  ultimately show ?thesis using v m c ids set_ids valid by (fastforce simp: crit_def hard)
qed

definition legacy_record :: PreferenceRecord where
  "legacy_record = \<lparr>pc_ID = '''', pc_Version = 1, pc_Note = '''',
     pc_HardCriteria = [(''role'', AnyString ''tester''), (''approved_roles'', AnyList [AnyString ''96''])],
     pc_SoftCriteria = [], pc_Weights = [], pc_ActiveFrom = 0, pc_ArchivedAt = None, pc_LegacyRoleUpgraded = False,
     pc_LegacySpecializationSuggestion = ''''\<rparr>"

theorem role_upgrade_witness:
  "\<exists>q ids. NormalizePreferenceRoles legacy_record = Inr (q, True)
     \<and> approvedRoleIDs (crit (pc_HardCriteria q) ''approved_roles'') = Inr ids \<and> set ids = {''96'', ''124''}
     \<and> NormalizePreferenceRoles q = Inr (q, False)"
proof -
  have a: "role_alias ''tester'' = ''tester''" by (simp add: role_alias_def bytes_simps)
  have l: "NormalizeLegacyRole ''tester'' = Inr [''124'']" by (simp add: NormalizeLegacyRole_def a legacyRoleAliases_def)
  have "TrimSpace ''96'' = ''96''" by (simp add: bytes_simps)
  then have c: "approvedRoleIDs (crit (pc_HardCriteria legacy_record) ''approved_roles'') = Inr [''96'']"
    by (simp add: legacy_record_def crit_def approvedRoleIDs_def mergeRoleIDs_def)
  then obtain q where q: "NormalizePreferenceRoles legacy_record = Inr (q, True)"
    by (simp add: NormalizePreferenceRoles_def legacy_record_def l crit_def Let_def)
  with role_upgrade [OF q] c l show ?thesis
    by (auto simp: legacy_record_def)
qed

text \<open>
  A text is classified as full-stack when a full-stack alias occurs in it, otherwise as the one
  family whose aliases occur, and as unknown when none or several families do: an ambiguous text is
  never attributed to a family.
\<close>

theorem classifyText_exact:
  "classifyText value =
     (if TrimSpace value = '''' then SpecializationUnknown
      else if hasAlias value fullstack_aliases then SpecializationFullstack
      else case filter (\<lambda>(spec, rules). hasAlias value rules) specialization_hits of
             [(spec, _)] \<Rightarrow> spec | _ \<Rightarrow> SpecializationUnknown)"
proof -
  have "distinct (map fst specialization_hits)" "'''' \<notin> fst ` set specialization_hits"
    by (simp_all add: specialization_hits_def specialization_defs)
  from classify_loop_start [OF this] show ?thesis by (simp add: classifyText_def)
qed

text \<open>
  The alias rules that end a Cyrillic stem in \<^verbatim>\<open>\w*\<close> recognise the bare stem only: when the stem
  goes on with a Cyrillic letter, the word it begins is not recognised, so the Russian
  adjective for mobile is classified as unknown although the stem itself is mobile.
\<close>

theorem cyrillic_stem_only:
  "(is_letter r \<and> 128 \<le> r \<longrightarrow> \<not> word_here (RxSeq [RxLit stem, word_tail]) (runes stem @ r # rs))
   \<and> word_here (RxSeq [RxLit stem, word_tail]) (runes stem)
   \<and> classifyText (ru ''mobil8n3y'') = SpecializationUnknown \<and> classifyText (ru ''mobil8n'') = SpecializationMobile"
proof (intro conjI impI)
  assume r: "is_letter r \<and> 128 \<le> r"
  then have "\<not> in_class RxWord r" by simp
  with r show "\<not> word_here (RxSeq [RxLit stem, word_tail]) (runes stem @ r # rs)"
    by (simp add: word_here_def word_tail_def lit_rests_self rep_rests_stop is_alnum_def)
next
  show "word_here (RxSeq [RxLit stem, word_tail]) (runes stem)"
    using lit_rests_self [of stem "[]"] by (simp add: word_here_def word_tail_def rep_rests_def)
next
  show "classifyText (ru ''mobil8n3y'') = SpecializationUnknown"
    by (simp add: classifyText_def hasAlias_def specialization_hits_def alias_defs bytes_simps)
next
  show "classifyText (ru ''mobil8n'') = SpecializationMobile"
    by (simp add: classifyText_def hasAlias_def specialization_hits_def alias_defs specialization_defs bytes_simps)
qed

theorem cyrillic_stem_only_witness:
  "\<not> word_here (RxSeq [RxLit (ru ''mobil8n''), word_tail]) (runes (ru ''mobil8n'') @ 1099 # [1081])"
  using cyrillic_stem_only [of 1099 "ru ''mobil8n''" "[1081]"] by (simp add: is_letter_def)

end
