(* ===== verification/Assist_Delivery.thy ===== *)
theory Assist_Delivery
  imports Assist_Rules Go_Format
begin

text \<open>
  What leaves the assistant, \<^verbatim>\<open>libs/go-common/assistant\<close>: the Telegram client and the text of a message
  (\<^verbatim>\<open>telegram.go\<close>), one round of delivery over the outbox (\<^verbatim>\<open>delivery.go\<close>) and the link tokens that tie
  a chat to a user (\<^verbatim>\<open>link.go\<close>).

  The Telegram service is \<open>TelegramEnv\<close> over a world \<open>'w\<close>; the outbox is \<open>DeliveryStore\<close> over a state
  \<open>'s\<close>, whose lock is released by the function the code keeps in a deferred call.
\<close>

section \<open>Message text\<close>

definition htmlEscape :: "string \<Rightarrow> string" where
  "htmlEscape s = replace_bytes [(CHR ''&'', ''&amp;''), (CHR ''<'', ''&lt;''), (CHR ''>'', ''&gt;''), (CHR 0x22, ''&quot;'')] s"

definition nl :: string where "nl = [CHR 0x0A]"

text \<open>\<open>web_url\<close> tells whether \<^verbatim>\<open>url.Parse\<close> accepts the link with scheme http or https and a host.\<close>

definition TelegramHTML :: "(string \<Rightarrow> bool) \<Rightarrow> string \<Rightarrow> string \<Rightarrow> string \<Rightarrow> float64 \<Rightarrow> string \<Rightarrow> string list \<Rightarrow> string" where
  "TelegramHTML web_url title salary sourceURL score confidence reasons =
     ''<b>'' @ ru ''Podhodq5aq vakansiq'' @ ''</b>'' @ nl @ ''<b>'' @ htmlEscape title @ ''</b>'' @ nl
     @ (if salary \<noteq> '''' then htmlEscape salary @ nl else '''')
     @ ru ''Sovpadenie: '' @ format_f0 (score * 100) @ ''% '' @ encode_rune 183 @ ru '' uverennost8: '' @ htmlEscape confidence
     @ concat (map (\<lambda>reason. nl @ encode_rune 8226 @ '' '' @ htmlEscape reason) reasons)
     @ (if web_url sourceURL
        then nl @ ''<a href='' @ [CHR 0x22] @ htmlEscape sourceURL @ [CHR 0x22] @ ''>'' @ ru ''Otkr3t8 isto4nik'' @ ''</a>'' else '''')
     @ nl @ ru ''Isto4nik'' @ '': HeadHunter ('' @ ru ''oficial8naq ss3lka'' @ '')''"

section \<open>The Telegram client\<close>

datatype net_failure = NetDeadline | NetCanceled | NetOther

text \<open>\<open>TgStatus\<close> is the typed error with its status and Retry-After; the others are plain errors.\<close>

datatype telegram_error = TgInvalidMessage | TgBadRequest | TgTransport net_failure | TgStatus int duration | TgUnsuccessful
  | TgUndecodable

datatype send_reply = SendTransport net_failure | SendReply int bool int int

datatype update_reply = UpdatesTransport net_failure | UpdatesUndecodable | UpdatesReply int bool

record TelegramUpdate =
  tu_UpdateID :: int
  tu_Message :: "(int \<times> string) option"

record 'w TelegramEnv =
  te_request_ok :: bool
  te_send :: "'w \<Rightarrow> int \<Rightarrow> string \<Rightarrow> 'w \<times> send_reply"
  te_updates :: "'w \<Rightarrow> int \<Rightarrow> 'w \<times> update_reply \<times> TelegramUpdate list"

definition NewTelegram :: "string \<Rightarrow> string option" where
  "NewTelegram token = (if TrimSpace token = '''' then None else Some token)"

definition SendMessageResult :: "'w TelegramEnv \<Rightarrow> 'w \<Rightarrow> int \<Rightarrow> string \<Rightarrow> 'w \<times> (telegram_error + int)" where
  "SendMessageResult env w chatID body =
     (if chatID = 0 \<or> length (runes body) = 0 \<or> length (runes body) > 4096 then (w, Inl TgInvalidMessage)
      else if \<not> te_request_ok env then (w, Inl TgBadRequest)
      else (case te_send env w chatID body of
          (w, SendTransport f) \<Rightarrow> (w, Inl (TgTransport f))
        | (w, SendReply status ok messageID retryAfter) \<Rightarrow>
            if status < 200 \<or> status \<ge> 300 then (w, Inl (TgStatus status (wrap64 (retryAfter * Second))))
            else if \<not> ok \<or> messageID = 0 then (w, Inl TgUnsuccessful)
            else (w, Inr messageID)))"

definition SendMessage :: "'w TelegramEnv \<Rightarrow> 'w \<Rightarrow> int \<Rightarrow> string \<Rightarrow> 'w \<times> telegram_error option" where
  "SendMessage env w chatID body =
     (case SendMessageResult env w chatID body of (w, Inl e) \<Rightarrow> (w, Some e) | (w, Inr _) \<Rightarrow> (w, None))"

definition GetUpdates :: "'w TelegramEnv \<Rightarrow> 'w \<Rightarrow> int \<Rightarrow> 'w \<times> (telegram_error + TelegramUpdate list)" where
  "GetUpdates env w offset =
     (if \<not> te_request_ok env then (w, Inl TgBadRequest)
      else (case te_updates env w offset of (w, reply, updates) \<Rightarrow>
        (case reply of
           UpdatesTransport f \<Rightarrow> (w, Inl (TgTransport f))
         | UpdatesUndecodable \<Rightarrow> (w, Inl TgUndecodable)
         | UpdatesReply status ok \<Rightarrow>
             if status < 200 \<or> status \<ge> 300 \<or> \<not> ok then (w, Inl (TgStatus status 0)) else (w, Inr updates))))"

section \<open>Delivery\<close>

record Delivery =
  dl_ID :: string
  dl_UserID :: string
  dl_VacancyID :: string
  dl_Title :: string
  dl_Salary :: string
  dl_SourceURL :: string
  dl_ChatID :: int
  dl_Score :: float64
  dl_Confidence :: string
  dl_Reasons :: "string list"
  dl_Attempts :: int

record DeliveryOptions =
  dn_BatchSize :: int
  dn_MaxAttempts :: int
  dn_Lease :: duration
  dn_Now :: time

record DeliveryStats =
  dt_Claimed :: int
  dt_Sent :: int
  dt_Retried :: int
  dt_DeadLettered :: int
  dt_Skipped :: int

definition no_delivery :: DeliveryStats where
  "no_delivery = \<lparr>dt_Claimed = 0, dt_Sent = 0, dt_Retried = 0, dt_DeadLettered = 0, dt_Skipped = 0\<rparr>"

datatype delivery_error = NoClient | DeliveryContext | DeliveryStoreError string

record 's DeliveryStore =
  ts_TryDeliveryLock :: "'s \<Rightarrow> 's \<times> (delivery_error + bool)"
  ts_Release :: "'s \<Rightarrow> 's"
  ts_ClaimDeliveries :: "'s \<Rightarrow> string \<Rightarrow> int \<Rightarrow> duration \<Rightarrow> 's \<times> (delivery_error + Delivery list)"
  ts_MarkDeliverySent :: "'s \<Rightarrow> string \<Rightarrow> int \<Rightarrow> 's \<times> delivery_error option"
  ts_MarkDeliveryFailed :: "'s \<Rightarrow> string \<Rightarrow> string \<Rightarrow> time \<Rightarrow> bool \<Rightarrow> 's \<times> delivery_error option"

definition delivery_backoff :: "int \<Rightarrow> duration" where
  "delivery_backoff attempt = 2 ^ nat (min (max attempt 0) 6) * Second"

definition sanitizeDeliveryError :: "telegram_error \<Rightarrow> string" where
  "sanitizeDeliveryError e =
     (case e of
        TgStatus status _ \<Rightarrow> ''telegram status '' @ Itoa status
      | TgTransport NetDeadline \<Rightarrow> ''telegram request timeout (outcome ambiguous)''
      | TgTransport NetCanceled \<Rightarrow> ''telegram request canceled''
      | _ \<Rightarrow> ''telegram request failed'')"

definition retry_at :: "DeliveryOptions \<Rightarrow> Delivery \<Rightarrow> telegram_error \<Rightarrow> time" where
  "retry_at opts item e =
     (case e of
        TgStatus _ retryAfter \<Rightarrow> if retryAfter > 0 then dn_Now opts + retryAfter else dn_Now opts + delivery_backoff (dl_Attempts item)
      | _ \<Rightarrow> dn_Now opts + delivery_backoff (dl_Attempts item))"

definition is_dead :: "DeliveryOptions \<Rightarrow> Delivery \<Rightarrow> telegram_error \<Rightarrow> bool" where
  "is_dead opts item e \<longleftrightarrow> dl_Attempts item + 1 \<ge> dn_MaxAttempts opts
     \<or> (case e of TgStatus status _ \<Rightarrow> status \<ge> 400 \<and> status < 500 \<and> status \<noteq> 429 | _ \<Rightarrow> False)"

definition item_message :: "(string \<Rightarrow> bool) \<Rightarrow> Delivery \<Rightarrow> string" where
  "item_message web_url item = TelegramHTML web_url (dl_Title item) (dl_Salary item) (dl_SourceURL item) (dl_Score item)
     (dl_Confidence item) (dl_Reasons item)"

text \<open>\<open>ctx_done\<close> is the context's state as the loop looks at it before each item.\<close>

fun delivery_loop :: "('w \<Rightarrow> bool) \<Rightarrow> (string \<Rightarrow> bool) \<Rightarrow> 'w TelegramEnv \<Rightarrow> 's DeliveryStore \<Rightarrow> DeliveryOptions \<Rightarrow> Delivery list
    \<Rightarrow> 'w \<Rightarrow> 's \<Rightarrow> DeliveryStats \<Rightarrow> 'w \<times> 's \<times> DeliveryStats \<times> delivery_error option" where
  "delivery_loop ctx_done web_url env st opts [] w s stats = (w, s, stats, None)"
| "delivery_loop ctx_done web_url env st opts (item # items) w s stats =
     (if ctx_done w then (w, s, stats, Some DeliveryContext)
      else (case SendMessageResult env w (dl_ChatID item) (item_message web_url item) of
          (w, Inr messageID) \<Rightarrow>
            (case ts_MarkDeliverySent st s (dl_ID item) messageID of
               (s, Some e) \<Rightarrow> (w, s, stats, Some e)
             | (s, None) \<Rightarrow> delivery_loop ctx_done web_url env st opts items w s (stats\<lparr>dt_Sent := dt_Sent stats + 1\<rparr>))
        | (w, Inl sendErr) \<Rightarrow>
            let dead = is_dead opts item sendErr in
            (case ts_MarkDeliveryFailed st s (dl_ID item) (sanitizeDeliveryError sendErr) (retry_at opts item sendErr) dead of
               (s, Some e) \<Rightarrow> (w, s, stats, Some e)
             | (s, None) \<Rightarrow>
                 delivery_loop ctx_done web_url env st opts items w s
                   (if dead then stats\<lparr>dt_DeadLettered := dt_DeadLettered stats + 1\<rparr>
                    else stats\<lparr>dt_Retried := dt_Retried stats + 1\<rparr>))))"

definition delivery_defaults :: "time \<Rightarrow> DeliveryOptions \<Rightarrow> DeliveryOptions" where
  "delivery_defaults clock opts = \<lparr>
     dn_BatchSize = if dn_BatchSize opts < 1 \<or> dn_BatchSize opts > 100 then 25 else dn_BatchSize opts,
     dn_MaxAttempts = if dn_MaxAttempts opts < 1 \<or> dn_MaxAttempts opts > 20 then 5 else dn_MaxAttempts opts,
     dn_Lease = if dn_Lease opts \<le> 0 then 2 * Minute else dn_Lease opts,
     dn_Now = if IsZero (dn_Now opts) then clock else dn_Now opts\<rparr>"

definition RunDeliveryOnce :: "time \<Rightarrow> ('w \<Rightarrow> bool) \<Rightarrow> (string \<Rightarrow> bool) \<Rightarrow> 'w TelegramEnv option \<Rightarrow> 's DeliveryStore \<Rightarrow> DeliveryOptions
    \<Rightarrow> 'w \<Rightarrow> 's \<Rightarrow> 'w \<times> 's \<times> DeliveryStats \<times> delivery_error option" where
  "RunDeliveryOnce clock ctx_done web_url client st opts0 w s =
     (case client of
        None \<Rightarrow> (w, s, no_delivery, Some NoClient)
      | Some env \<Rightarrow>
          (let opts = delivery_defaults clock opts0 in
           case ts_TryDeliveryLock st s of
             (s, Inl e) \<Rightarrow> (w, s, no_delivery, Some e)
           | (s, Inr False) \<Rightarrow> (w, s, no_delivery, None)
           | (s, Inr True) \<Rightarrow>
               (case (case ts_ClaimDeliveries st s ''telegram-delivery'' (dn_BatchSize opts) (dn_Lease opts) of
                        (s, Inl e) \<Rightarrow> (w, s, no_delivery, Some e)
                      | (s, Inr items) \<Rightarrow>
                          delivery_loop ctx_done web_url env st opts items w s (no_delivery\<lparr>dt_Claimed := int (length items)\<rparr>)) of
                  (w, s, stats, err) \<Rightarrow> (w, ts_Release st s, stats, err))))"

section \<open>Link tokens\<close>

record linkToken =
  lt_expires :: time
  lt_used :: bool

record Linker =
  lk_tokens :: "(string \<times> linkToken) list"
  lk_ttl :: duration

definition NewLinker :: "duration \<Rightarrow> Linker" where
  "NewLinker ttl = \<lparr>lk_tokens = [], lk_ttl = if ttl \<le> 0 then 10 * Minute else ttl\<rparr>"

text \<open>The random source supplies the token, or fails.\<close>

definition Issue :: "string option \<Rightarrow> time \<Rightarrow> Linker \<Rightarrow> Linker \<times> string option" where
  "Issue random now l =
     (case random of
        None \<Rightarrow> (l, None)
      | Some token \<Rightarrow> (l\<lparr>lk_tokens := AList.update token \<lparr>lt_expires = now + lk_ttl l, lt_used = False\<rparr> (lk_tokens l)\<rparr>, Some token))"

text \<open>\<open>True\<close> when the token was accepted.\<close>

definition Consume :: "string \<Rightarrow> time \<Rightarrow> Linker \<Rightarrow> Linker \<times> bool" where
  "Consume token now l =
     (case map_of (lk_tokens l) token of
        None \<Rightarrow> (l, False)
      | Some item \<Rightarrow>
          if lt_used item \<or> \<not> now < lt_expires item then (l, False)
          else (l\<lparr>lk_tokens := AList.update token (item\<lparr>lt_used := True\<rparr>) (lk_tokens l)\<rparr>, True))"

section \<open>Lemmas: message text\<close>

definition markup :: "char \<Rightarrow> bool" where
  "markup c \<longleftrightarrow> c = CHR ''<'' \<or> c = CHR ''>'' \<or> c = CHR 0x22"

lemma filter_markup_escape [simp]: "filter markup (htmlEscape s) = []"
  by (induction s) (auto simp: htmlEscape_def replace_bytes_def markup_def)

lemma filter_markup_f0 [simp]: "filter markup (format_f0 x) = []"
proof -
  have "filter markup (digits n) = []" for n
    using digits_all [of n] by (auto simp: filter_empty_conv list_all_iff markup_def byte_val_def)
  then show ?thesis by (simp add: format_f0_def Itoa_def markup_def)
qed

lemma filter_markup_texts [simp]:
  "filter markup (ru ''Podhodq5aq vakansiq'') = []" "filter markup (ru ''Sovpadenie: '') = []"
  "filter markup (ru '' uverennost8: '') = []" "filter markup (ru ''Otkr3t8 isto4nik'') = []"
  "filter markup (ru ''Isto4nik'') = []" "filter markup (ru ''oficial8naq ss3lka'') = []"
  "filter markup (encode_rune 183) = []" "filter markup (encode_rune 8226) = []" "filter markup nl = []"
  by (simp_all add: bytes_simps markup_def nl_def)

lemma filter_markup_concat: "(\<And>x. filter markup (f x) = []) \<Longrightarrow> filter markup (concat (map f xs)) = []"
  by (induction xs) auto

section \<open>Lemmas: delivery\<close>

datatype delivery_event = EvLock bool | EvClaim "string list" | EvMark string | EvRelease

text \<open>A store that records what is asked of it.\<close>

definition observed :: "'s DeliveryStore \<Rightarrow> ('s \<times> delivery_event list) DeliveryStore" where
  "observed st = \<lparr>
     ts_TryDeliveryLock = (\<lambda>(s, tr). case ts_TryDeliveryLock st s of (s, r) \<Rightarrow> ((s, tr @ [EvLock (r = Inr True)]), r)),
     ts_Release = (\<lambda>(s, tr). (ts_Release st s, tr @ [EvRelease])),
     ts_ClaimDeliveries = (\<lambda>(s, tr) worker limit lease. case ts_ClaimDeliveries st s worker limit lease of (s, r) \<Rightarrow>
       ((s, tr @ [EvClaim (case r of Inl _ \<Rightarrow> [] | Inr items \<Rightarrow> map dl_ID items)]), r)),
     ts_MarkDeliverySent = (\<lambda>(s, tr) i m. case ts_MarkDeliverySent st s i m of (s, r) \<Rightarrow> ((s, tr @ [EvMark i]), r)),
     ts_MarkDeliveryFailed = (\<lambda>(s, tr) i msg t dead. case ts_MarkDeliveryFailed st s i msg t dead of (s, r) \<Rightarrow> ((s, tr @ [EvMark i]), r))\<rparr>"

lemma observed_marks:
  "ts_MarkDeliverySent (observed st) (s, tr) i m = (case ts_MarkDeliverySent st s i m of (s, r) \<Rightarrow> ((s, tr @ [EvMark i]), r))"
  "ts_MarkDeliveryFailed (observed st) (s, tr) i msg t dead =
     (case ts_MarkDeliveryFailed st s i msg t dead of (s, r) \<Rightarrow> ((s, tr @ [EvMark i]), r))"
  by (simp_all add: observed_def)

definition handled :: "DeliveryStats \<Rightarrow> int" where
  "handled t = dt_Sent t + dt_Retried t + dt_DeadLettered t"

lemma delivery_loop_observed:
  "delivery_loop ctx_done web_url env (observed st) opts items w (s, tr) stats = (w', (s', tr'), stats', err) \<Longrightarrow>
     \<exists>marks rest. map dl_ID items = marks @ rest \<and> tr' = tr @ map EvMark marks \<and> dt_Claimed stats' = dt_Claimed stats
       \<and> handled stats \<le> handled stats' \<and> handled stats' \<le> handled stats + int (length marks)
       \<and> (err = None \<longrightarrow> rest = [] \<and> handled stats' = handled stats + int (length items))"
proof (induction items arbitrary: w s tr stats)
  case Nil
  then show ?case by simp
next
  case (Cons item items)
  show ?case
  proof (cases "ctx_done w")
    case True
    with Cons.prems show ?thesis by - (rule exI [of _ "[]"], rule exI [of _ "map dl_ID (item # items)"], auto)
  next
    case False
    obtain w1 res where send: "SendMessageResult env w (dl_ChatID item) (item_message web_url item) = (w1, res)" by fastforce
    define mark where "mark = (case res of
        Inr m \<Rightarrow> ts_MarkDeliverySent st s (dl_ID item) m
      | Inl e \<Rightarrow> ts_MarkDeliveryFailed st s (dl_ID item) (sanitizeDeliveryError e) (retry_at opts item e) (is_dead opts item e))"
    define stats1 where "stats1 = (case res of
        Inr m \<Rightarrow> stats\<lparr>dt_Sent := dt_Sent stats + 1\<rparr>
      | Inl e \<Rightarrow> if is_dead opts item e then stats\<lparr>dt_DeadLettered := dt_DeadLettered stats + 1\<rparr>
                 else stats\<lparr>dt_Retried := dt_Retried stats + 1\<rparr>)"
    obtain s1 r where m: "mark = (s1, r)" by fastforce
    have st1: "handled stats1 = handled stats + 1" "dt_Claimed stats1 = dt_Claimed stats"
      by (simp_all add: stats1_def handled_def split: sum.splits)
    have step: "delivery_loop ctx_done web_url env (observed st) opts (item # items) w (s, tr) stats =
        (case r of Some e \<Rightarrow> (w1, (s1, tr @ [EvMark (dl_ID item)]), stats, Some e)
         | None \<Rightarrow> delivery_loop ctx_done web_url env (observed st) opts items w1 (s1, tr @ [EvMark (dl_ID item)]) stats1)"
      using False send m by (cases res; cases r) (simp_all add: observed_marks mark_def stats1_def Let_def)
    show ?thesis
    proof (cases r)
      case (Some e)
      with Cons.prems step show ?thesis by - (rule exI [of _ "[dl_ID item]"], rule exI [of _ "map dl_ID items"], auto)
    next
      case None
      with Cons.prems step have "delivery_loop ctx_done web_url env (observed st) opts items w1 (s1, tr @ [EvMark (dl_ID item)]) stats1
          = (w', (s', tr'), stats', err)" by simp
      from Cons.IH [OF this] obtain marks rest where *: "map dl_ID items = marks @ rest" "tr' = (tr @ [EvMark (dl_ID item)]) @ map EvMark marks"
        "dt_Claimed stats' = dt_Claimed stats1" "handled stats1 \<le> handled stats'" "handled stats' \<le> handled stats1 + int (length marks)"
        "err = None \<longrightarrow> rest = [] \<and> handled stats' = handled stats1 + int (length items)" by blast
      then show ?thesis using st1 by - (rule exI [of _ "dl_ID item # marks"], rule exI [of _ rest], auto)
    qed
  qed
qed

section \<open>Lemmas: link tokens\<close>

datatype link_op = OpIssue "string option" time | OpConsume string time

fun link_step :: "link_op \<Rightarrow> Linker \<Rightarrow> Linker \<times> (string \<times> time) list" where
  "link_step (OpIssue random t) l = (fst (Issue random t l), [])"
| "link_step (OpConsume k t) l = (case Consume k t l of (l', ok) \<Rightarrow> (l', if ok then [(k, t)] else []))"

text \<open>The tokens accepted by a sequence of operations, with the time of each.\<close>

fun accepted :: "link_op list \<Rightarrow> Linker \<Rightarrow> (string \<times> time) list" where
  "accepted [] l = []"
| "accepted (x # xs) l = (case link_step x l of (l', hits) \<Rightarrow> hits @ accepted xs l')"

definition issued :: "string \<Rightarrow> link_op list \<Rightarrow> time list" where
  "issued k ops = concat (map (\<lambda>x. case x of OpIssue (Some k') t \<Rightarrow> if k' = k then [t] else [] | _ \<Rightarrow> []) ops)"

definition live :: "string \<Rightarrow> Linker \<Rightarrow> nat" where
  "live k l = (case map_of (lk_tokens l) k of Some item \<Rightarrow> if lt_used item then 0 else 1 | None \<Rightarrow> 0)"

lemma link_step_live:
  "link_step x l = (l', hits) \<Longrightarrow> length (filter (\<lambda>(k', t). k' = k) hits) + live k l' \<le> live k l + length (issued k [x])"
  by (cases x) (auto simp: Issue_def Consume_def live_def issued_def update_conv split: option.splits if_splits)

lemma issued_Cons: "issued k (x # xs) = issued k [x] @ issued k xs"
  by (simp add: issued_def)

lemma accepted_count: "length (filter (\<lambda>(k', t). k' = k) (accepted ops l)) \<le> live k l + length (issued k ops)"
proof (induction ops arbitrary: l)
  case (Cons x xs)
  obtain l' hits where s: "link_step x l = (l', hits)" by fastforce
  have "length (filter (\<lambda>(k', t). k' = k) (accepted (x # xs) l))
      = length (filter (\<lambda>(k', t). k' = k) hits) + length (filter (\<lambda>(k', t). k' = k) (accepted xs l'))" by (simp add: s)
  also have "\<dots> \<le> live k l + length (issued k [x]) + length (issued k xs)" using Cons.IH [of l'] link_step_live [OF s, of k] by linarith
  finally show ?case unfolding issued_Cons [of k x xs] by simp
qed simp

lemma accepted_fresh:
  assumes "\<forall>k item. map_of (lk_tokens l) k = Some item \<longrightarrow> (\<exists>t \<in> T k. lt_expires item = t + lk_ttl l)"
  shows "(k, now) \<in> set (accepted ops l) \<Longrightarrow> \<exists>t \<in> T k \<union> set (issued k ops). now < t + lk_ttl l"
  using assms
proof (induction ops arbitrary: l T)
  case (Cons x xs)
  obtain l' hits where s: "link_step x l = (l', hits)" by fastforce
  let ?T = "\<lambda>k. T k \<union> set (issued k [x])"
  have ttl: "lk_ttl l' = lk_ttl l" using s
    by (cases x) (auto simp: Issue_def Consume_def split: option.splits if_splits)
  have inv: "\<forall>k item. map_of (lk_tokens l') k = Some item \<longrightarrow> (\<exists>t \<in> ?T k. lt_expires item = t + lk_ttl l')"
    using s Cons.prems(2) by (cases x)
      (fastforce simp: Issue_def Consume_def issued_def update_conv split: option.splits if_splits)+
  have hit: "(k, now) \<in> set hits \<Longrightarrow> \<exists>t \<in> T k. now < t + lk_ttl l"
    using s Cons.prems(2) by (cases x) (force simp: Consume_def split: option.splits if_splits)+
  show ?case
  proof (cases "(k, now) \<in> set hits")
    case True
    with hit show ?thesis by blast
  next
    case False
    with Cons.prems(1) s have "(k, now) \<in> set (accepted xs l')" by simp
    from Cons.IH [OF this inv] ttl show ?thesis unfolding issued_Cons [of k x xs] by auto
  qed
qed simp

section \<open>Properties\<close>

text \<open>
  Nothing a vacancy or a user contributes can add markup to a message: the angle brackets and
  quotes of the text are those of the template, the two bold lines and, for a web link, the anchor,
  whatever the title, salary, link, confidence and reasons are.
\<close>

theorem telegram_markup:
  "filter markup (TelegramHTML web_url title salary sourceURL score confidence reasons) =
     ''<><><><>'' @ (if web_url sourceURL then [CHR ''<'', CHR 0x22, CHR 0x22, CHR ''>'', CHR ''<'', CHR ''>''] else [])"
  by (simp add: TelegramHTML_def filter_markup_concat markup_def)

text \<open>
  A delivery round takes the lock once, claims once, marks the claimed deliveries in their order,
  each at most once, and gives the lock back at the end on every path; without an error every claimed
  delivery is marked and counted as sent, retried or dead-lettered. Without the lock it does nothing.
\<close>

theorem delivery_round:
  assumes "RunDeliveryOnce clock ctx_done web_url (Some env) (observed st) opts w (s, []) = (w', (s', tr), stats, err)"
  shows "tr = [EvLock False] \<and> stats = no_delivery
    \<or> (\<exists>ids marks rest. ids = marks @ rest \<and> tr = [EvLock True, EvClaim ids] @ map EvMark marks @ [EvRelease]
        \<and> 0 \<le> handled stats \<and> handled stats \<le> int (length marks)
        \<and> (err = None \<longrightarrow> rest = [] \<and> dt_Claimed stats = int (length ids) \<and> handled stats = int (length ids)))"
proof -
  let ?opts = "delivery_defaults clock opts"
  obtain s1 r where lock: "ts_TryDeliveryLock st s = (s1, r)" by fastforce
  show ?thesis
  proof (cases "r = Inr True")
    case False
    with assms lock show ?thesis by (auto simp: RunDeliveryOnce_def observed_def Let_def split: sum.splits bool.splits)
  next
    case True
    obtain s2 c where claim: "ts_ClaimDeliveries st s1 ''telegram-delivery'' (dn_BatchSize ?opts) (dn_Lease ?opts) = (s2, c)" by fastforce
    have h0: "handled (no_delivery\<lparr>dt_Claimed := n\<rparr>) = 0" "handled no_delivery = 0" for n by (simp_all add: handled_def no_delivery_def)
    show ?thesis
    proof (cases c)
      case (Inl e)
      with assms lock True claim have "tr = [EvLock True, EvClaim [], EvRelease]" "stats = no_delivery" "err = Some e"
        by (auto simp: RunDeliveryOnce_def observed_def Let_def)
      with h0 show ?thesis by auto
    next
      case (Inr items)
      let ?tr = "[EvLock True, EvClaim (map dl_ID items)]"
      obtain w3 s3 tr3 stats3 err3 where l: "delivery_loop ctx_done web_url env (observed st) ?opts items w (s2, ?tr)
          (no_delivery\<lparr>dt_Claimed := int (length items)\<rparr>) = (w3, (s3, tr3), stats3, err3)" by (metis prod_cases4 surj_pair)
      have o: "ts_TryDeliveryLock (observed st) (s, []) = ((s1, [EvLock True]), Inr True)"
        "ts_ClaimDeliveries (observed st) (s1, [EvLock True]) ''telegram-delivery'' (dn_BatchSize ?opts) (dn_Lease ?opts)
          = ((s2, ?tr), Inr items)" "ts_Release (observed st) (s3, tr3) = (ts_Release st s3, tr3 @ [EvRelease])"
        using lock True claim Inr by (simp_all add: observed_def)
      have "tr = tr3 @ [EvRelease]" "stats = stats3" "err = err3"
        using assms unfolding RunDeliveryOnce_def Let_def option.case o prod.case sum.case bool.case l by simp_all
      moreover from delivery_loop_observed [OF l] obtain marks rest where "map dl_ID items = marks @ rest" "tr3 = ?tr @ map EvMark marks"
        "dt_Claimed stats3 = int (length items)" "0 \<le> handled stats3" "handled stats3 \<le> int (length marks)"
        "err3 = None \<longrightarrow> rest = [] \<and> handled stats3 = int (length items)" by (auto simp: h0)
      moreover from this(1) have "length items = length marks + length rest" by (metis length_append length_map)
      ultimately show ?thesis by (intro disjI2) (rule exI [of _ "map dl_ID items"], rule exI [of _ marks], rule exI [of _ rest], simp)
    qed
  qed
qed

theorem delivery_round_witness:
  "\<exists>w' s' tr stats err. RunDeliveryOnce 0 (\<lambda>_. False) (\<lambda>_. True)
      (Some \<lparr>te_request_ok = True, te_send = (\<lambda>w _ _. (w, SendReply 200 True 1 0)), te_updates = (\<lambda>w _. (w, UpdatesUndecodable, []))\<rparr>)
      (observed \<lparr>ts_TryDeliveryLock = (\<lambda>s. (s, Inr True)), ts_Release = (\<lambda>s. s), ts_ClaimDeliveries = (\<lambda>s _ _ _. (s, Inr [])),
         ts_MarkDeliverySent = (\<lambda>s _ _. (s, None)), ts_MarkDeliveryFailed = (\<lambda>s _ _ _ _. (s, None))\<rparr>)
      \<lparr>dn_BatchSize = 1, dn_MaxAttempts = 1, dn_Lease = 1, dn_Now = 1\<rparr> () ((), []) = (w', (s', tr), stats, err)
    \<and> tr = [EvLock True, EvClaim [], EvRelease] \<and> handled stats = 0"
proof -
  let ?env = "\<lparr>te_request_ok = True, te_send = (\<lambda>w _ _. (w, SendReply 200 True 1 0)), te_updates = (\<lambda>w _. (w, UpdatesUndecodable, []))\<rparr> :: unit TelegramEnv"
  let ?st = "\<lparr>ts_TryDeliveryLock = (\<lambda>s. (s, Inr True)), ts_Release = (\<lambda>s. s), ts_ClaimDeliveries = (\<lambda>s _ _ _. (s, Inr [])),
         ts_MarkDeliverySent = (\<lambda>s _ _. (s, None)), ts_MarkDeliveryFailed = (\<lambda>s _ _ _ _. (s, None))\<rparr> :: unit DeliveryStore"
  let ?opts = "\<lparr>dn_BatchSize = 1, dn_MaxAttempts = 1, dn_Lease = 1, dn_Now = 1\<rparr>"
  obtain w' s' tr stats err where r: "RunDeliveryOnce 0 (\<lambda>_. False) (\<lambda>_. True) (Some ?env) (observed ?st) ?opts () ((), []) = (w', (s', tr), stats, err)"
    by (metis prod_cases4 surj_pair)
  have "tr = [EvLock True, EvClaim [], EvRelease]" using r by (auto simp: RunDeliveryOnce_def observed_def Let_def)
  with delivery_round [OF r] have "handled stats = 0" by (auto simp: Cons_eq_append_conv)
  with r \<open>tr = _\<close> show ?thesis by blast
qed

text \<open>
  A link token works once. Over any sequence of issues and uses of a new linker, a token is
  accepted at most as often as it was issued, and every acceptance happens within the lifetime of
  an issue of that very token.
\<close>

theorem link_single_use:
  "length (filter (\<lambda>(k', t). k' = k) (accepted ops (NewLinker ttl))) \<le> length (issued k ops)
   \<and> list_all (\<lambda>(k', now). list_ex (\<lambda>t. now < t + lk_ttl (NewLinker ttl)) (issued k' ops)) (accepted ops (NewLinker ttl))"
proof
  show "length (filter (\<lambda>(k', t). k' = k) (accepted ops (NewLinker ttl))) \<le> length (issued k ops)"
    using accepted_count [of k ops "NewLinker ttl"] by (simp add: live_def NewLinker_def)
  have "\<forall>k item. map_of (lk_tokens (NewLinker ttl)) k = Some item \<longrightarrow> (\<exists>t \<in> {}. lt_expires item = t + lk_ttl (NewLinker ttl))"
    by (simp add: NewLinker_def)
  from accepted_fresh [where T = "\<lambda>_. {}", OF this] show
    "list_all (\<lambda>(k', now). list_ex (\<lambda>t. now < t + lk_ttl (NewLinker ttl)) (issued k' ops)) (accepted ops (NewLinker ttl))"
    by (auto simp: list_all_iff list_ex_iff)
qed

end
