(* ===== verification/Assist_Match.thy ===== *)
theory Assist_Match
  imports Assist_Rules Go_Format
begin

text \<open>
  The deterministic matcher, \<^verbatim>\<open>libs/go-common/assistant/matcher.go\<close>, the classification of a vacancy
  (\<^verbatim>\<open>specialization.go\<close>), the reading of a preference record (\<^verbatim>\<open>toPreferences\<close> in \<^verbatim>\<open>worker.go\<close>), the
  validation of an AI answer (\<^verbatim>\<open>deepseek.go\<close>) and the precedence of the deterministic result over it.

  Each gate of \<open>Match\<close> takes the result so far and either returns it (\<open>Inl\<close>, the \<^verbatim>\<open>return r\<close> of the
  code) or hands it on (\<open>Inr\<close>). A skill set is the list of its members. The criterion evidence of an
  answer is an association list; where the code ranges over that map, \<open>order\<close> is the order the
  runtime happens to choose. Scores are real numbers.
\<close>

section \<open>Data\<close>

record Weights =
  wt_Role :: float64
  wt_Salary :: float64
  wt_Region :: float64
  wt_Skills :: float64

record Preferences =
  pf_ApprovedRoles :: "string list"
  pf_Specialization :: Specialization
  pf_IncludeLeadership :: bool
  pf_MinSalaryRUB :: "float64 option"
  pf_Regions :: "string list"
  pf_RemoteOnly :: bool
  pf_RequiredSkills :: "string list"
  pf_ExcludedSkills :: "string list"
  pf_MaxAge :: duration
  pf_Weights :: Weights

record AssistVacancy =
  av_ID :: string
  av_Title :: string
  av_RoleID :: string
  av_RegionID :: string
  av_RoleIDs :: "string list"
  av_Description :: string
  av_SalaryRUB :: "float64 option"
  av_Skills :: "string list"
  av_IsRemote :: "bool option"
  av_PublishedAt :: "time option"
  av_FirstObservedAt :: "time option"

type_synonym Decision = string

definition DecisionMatch :: Decision where "DecisionMatch = ''match''"
definition DecisionReject :: Decision where "DecisionReject = ''reject''"
definition DecisionReview :: Decision where "DecisionReview = ''review''"

lemma decisions_distinct [simp]:
  "DecisionMatch \<noteq> DecisionReject" "DecisionReject \<noteq> DecisionMatch" "DecisionMatch \<noteq> DecisionReview"
  "DecisionReview \<noteq> DecisionMatch" "DecisionReject \<noteq> DecisionReview" "DecisionReview \<noteq> DecisionReject"
  by (simp_all add: DecisionMatch_def DecisionReject_def DecisionReview_def)

record MatchResult =
  re_Decision :: Decision
  re_Score :: float64
  re_Reasons :: "string list"
  re_Unknowns :: "string list"
  re_Conflicts :: "string list"
  re_Evidence :: "string list"

record Classification =
  cl_Specialization :: Specialization
  cl_Leadership :: bool
  cl_Confidence :: string
  cl_Evidence :: string

section \<open>Helpers\<close>

definition contains :: "string list \<Rightarrow> string \<Rightarrow> bool" where
  "contains vs needle = list_ex (\<lambda>v. EqualFold (TrimSpace v) (TrimSpace needle)) vs"

definition overlaps :: "string list \<Rightarrow> string list \<Rightarrow> bool" where
  "overlaps left right = list_ex (\<lambda>v. contains right v) left"

definition officialRoleIDs :: "AssistVacancy \<Rightarrow> string list" where
  "officialRoleIDs v =
     (let ids = av_RoleIDs v; primary = TrimSpace (av_RoleID v) in
      if primary \<noteq> '''' \<and> \<not> contains ids primary \<and> map_of approvedRolePolicy primary \<noteq> None
      then ids @ [primary] else ids)"

definition reactToken :: rx where
  "reactToken = RxAlt [RxLit ''react.js'', RxLit ''reactjs'', RxLit ''react'']"

definition stripReactNative :: "string \<Rightarrow> string" where
  "stripReactNative s = ReplaceAll (ReplaceAll (ToLower s) ''react-native'' '' '') ''react native'' '' ''"

definition impliesReactWeb :: "string \<Rightarrow> bool" where
  "impliesReactWeb s =
     (let trimmed = ToLower (TrimSpace s) in
      List.member [''react'', ''react.js'', ''reactjs'', ''react-js''] trimmed
      \<or> (let slugged = replace_bytes [(CHR ''.'', '' ''), (CHR ''_'', '' ''), (CHR ''/'', '' ''), (CHR ''+'', '' '')] trimmed
         in MatchWord reactToken (stripReactNative slugged)))"

definition normalizeSkill :: "string \<Rightarrow> string" where
  "normalizeSkill s =
     (let v = ReplaceAll (ToLower (TrimSpace s)) (encode_rune 1105) (encode_rune 1077) in
      if impliesReactWeb v then ''react'' else v)"

definition hasExplicitSkill :: "AssistVacancy \<Rightarrow> string \<Rightarrow> string list \<Rightarrow> bool" where
  "hasExplicitSkill v skill normalizedSkills =
     (if skill = '''' then False
      else if skill = ''react'' then
        List.member normalizedSkills ''react'' \<or> list_ex impliesReactWeb (av_Skills v)
        \<or> MatchWord reactToken (stripReactNative (av_Title v)) \<or> MatchWord reactToken (stripReactNative (av_Description v))
      else List.member normalizedSkills skill
        \<or> MatchWord (RxLit skill) (av_Title v) \<or> MatchWord (RxLit skill) (av_Description v))"

definition boolScore :: "bool \<Rightarrow> bool \<Rightarrow> float64" where
  "boolScore known passes = (if \<not> known then 0 else if passes then 1 else 0)"

definition skillScore :: "string list \<Rightarrow> string list \<Rightarrow> float64" where
  "skillScore required skills =
     (if required = [] then 1
      else of_nat (length (filter (\<lambda>s. List.member skills (normalizeSkill s)) required)) / of_nat (length required))"

definition default_weights :: Weights where
  "default_weights = \<lparr>wt_Role = 3 / 10, wt_Salary = 1 / 4, wt_Region = 1 / 5, wt_Skills = 1 / 4\<rparr>"

definition normalizedWeights :: "Preferences \<Rightarrow> Weights" where
  "normalizedWeights p =
     (let w = pf_Weights p in
      if wt_Role w \<le> 0 \<and> wt_Salary w \<le> 0 \<and> wt_Region w \<le> 0 \<and> wt_Skills w \<le> 0 then default_weights
      else let total = wt_Role w + wt_Salary w + wt_Region w + wt_Skills w in
        if total \<le> 0 then default_weights
        else \<lparr>wt_Role = wt_Role w / total, wt_Salary = wt_Salary w / total, wt_Region = wt_Region w / total,
              wt_Skills = wt_Skills w / total\<rparr>)"

section \<open>Classification\<close>

definition ClassifyVacancy :: "AssistVacancy \<Rightarrow> Classification" where
  "ClassifyVacancy v =
     (let leadership = contains (officialRoleIDs v) ''104'' \<or> hasAlias (av_Title v) leadership_aliases;
          s1 = classifyText (av_Title v); s2 = classifyText (Join (av_Skills v) '' ''); s3 = classifyText (av_Description v)
      in if s1 \<noteq> SpecializationUnknown then
           \<lparr>cl_Specialization = s1, cl_Leadership = leadership, cl_Confidence = ''high'', cl_Evidence = ''title''\<rparr>
         else if s2 \<noteq> SpecializationUnknown then
           \<lparr>cl_Specialization = s2, cl_Leadership = leadership, cl_Confidence = ''medium'', cl_Evidence = ''skills''\<rparr>
         else if s3 \<noteq> SpecializationUnknown then
           \<lparr>cl_Specialization = s3, cl_Leadership = leadership, cl_Confidence = ''low'', cl_Evidence = ''description''\<rparr>
         else \<lparr>cl_Specialization = SpecializationUnknown, cl_Leadership = leadership, cl_Confidence = ''low'',
                cl_Evidence = ''none''\<rparr>)"

definition specializationProven :: "Classification \<Rightarrow> bool" where
  "specializationProven c \<longleftrightarrow>
     cl_Specialization c \<noteq> SpecializationUnknown \<and> (cl_Evidence c = ''title'' \<or> cl_Evidence c = ''skills'')"

section \<open>The gates\<close>

definition rejected :: "string \<Rightarrow> MatchResult \<Rightarrow> MatchResult" where
  "rejected conflict r = r\<lparr>re_Decision := DecisionReject, re_Conflicts := re_Conflicts r @ [conflict]\<rparr>"

definition unknown :: "string \<Rightarrow> MatchResult \<Rightarrow> MatchResult" where
  "unknown u r = r\<lparr>re_Unknowns := re_Unknowns r @ [u]\<rparr>"

definition proven :: "string \<Rightarrow> string \<Rightarrow> MatchResult \<Rightarrow> MatchResult" where
  "proven reason evidence r = r\<lparr>re_Reasons := re_Reasons r @ [reason], re_Evidence := re_Evidence r @ [evidence]\<rparr>"

definition cited :: "string \<Rightarrow> MatchResult \<Rightarrow> MatchResult" where
  "cited evidence r = r\<lparr>re_Evidence := re_Evidence r @ [evidence]\<rparr>"

definition skill_keys :: "AssistVacancy \<Rightarrow> string list" where
  "skill_keys v = map normalizeSkill (av_Skills v)"

definition excluded_gate :: "AssistVacancy \<Rightarrow> Preferences \<Rightarrow> MatchResult \<Rightarrow> MatchResult + MatchResult" where
  "excluded_gate v p r =
     (let hits = filter (\<lambda>e. List.member (skill_keys v) (ToLower (TrimSpace e))) (pf_ExcludedSkills p);
          r = r\<lparr>re_Conflicts := re_Conflicts r @ map (\<lambda>e. ''excluded_skill:'' @ e) hits\<rparr>
      in if re_Conflicts r \<noteq> [] then Inl (r\<lparr>re_Decision := DecisionReject\<rparr>) else Inr r)"

definition leadership_gate :: "Classification \<Rightarrow> Preferences \<Rightarrow> MatchResult \<Rightarrow> MatchResult + MatchResult" where
  "leadership_gate c p r =
     (if cl_Leadership c \<and> \<not> pf_IncludeLeadership p then
        Inl (cited (''leadership:'' @ cl_Evidence c) (rejected ''leadership_excluded'' r))
      else if cl_Leadership c \<and> pf_IncludeLeadership p then
        Inr (proven ''leadership_allowed'' (''leadership:'' @ cl_Evidence c) r)
      else Inr r)"

definition specialization_gate :: "Classification \<Rightarrow> Preferences \<Rightarrow> MatchResult \<Rightarrow> MatchResult + MatchResult" where
  "specialization_gate c p r =
     (if pf_Specialization p = '''' then Inr r
      else if cl_Specialization c = SpecializationUnknown then Inr (unknown ''specialization'' r)
      else if cl_Specialization c \<noteq> pf_Specialization p then
        Inl (cited (''specialization:'' @ cl_Evidence c) (rejected (''specialization:'' @ cl_Specialization c) r))
      else if cl_Confidence c = ''low'' then
        Inr (cited ''specialization:description'' (unknown ''specialization_description_only'' r))
      else Inr (proven (''specialization:'' @ pf_Specialization p) (''specialization:'' @ cl_Evidence c) r))"

definition applyCatalogRoleGate :: "AssistVacancy \<Rightarrow> Preferences \<Rightarrow> Classification \<Rightarrow> MatchResult \<Rightarrow> MatchResult + MatchResult" where
  "applyCatalogRoleGate v p c r =
     (if pf_ApprovedRoles p = [] then Inr r
      else if av_RoleIDs v \<noteq> [] \<and> overlaps (pf_ApprovedRoles p) (av_RoleIDs v) then Inr (proven ''approved_role'' ''role'' r)
      else let specSet = (pf_Specialization p \<noteq> '''') in
        if specSet \<and> cl_Specialization c = pf_Specialization p \<and> specializationProven c then
          Inr (proven ''specialization_satisfies_role'' (''specialization:'' @ cl_Evidence c) r)
        else if specSet then Inr (unknown ''role'' r)
        else if av_RoleIDs v = [] then Inr (unknown ''role'' r)
        else if contains (pf_ApprovedRoles p) ''96'' \<and> cl_Specialization c = SpecializationFrontend \<and> specializationProven c then
          Inr (proven ''specialization_satisfies_role'' (''specialization:'' @ cl_Evidence c) r)
        else Inl (rejected ''role'' r))"

definition salary_gate :: "AssistVacancy \<Rightarrow> Preferences \<Rightarrow> MatchResult \<Rightarrow> MatchResult + MatchResult" where
  "salary_gate v p r =
     (case pf_MinSalaryRUB p of
        None \<Rightarrow> Inr r
      | Some wanted \<Rightarrow>
          (case av_SalaryRUB v of
             None \<Rightarrow> Inr (unknown ''salary'' r)
           | Some salary \<Rightarrow> if salary < wanted then Inl (rejected ''minimum_salary'' r)
                             else Inr (proven ''salary_meets_minimum'' ''salary_rub'' r)))"

definition region_gate :: "AssistVacancy \<Rightarrow> Preferences \<Rightarrow> MatchResult \<Rightarrow> MatchResult + MatchResult" where
  "region_gate v p r =
     (if pf_Regions p = [] then Inr r
      else if av_RegionID v = '''' then Inr (unknown ''region'' r)
      else if \<not> contains (pf_Regions p) (av_RegionID v) then Inl (rejected ''region'' r)
      else Inr (proven ''region'' ''region'' r))"

definition remote_gate :: "AssistVacancy \<Rightarrow> Preferences \<Rightarrow> MatchResult \<Rightarrow> MatchResult + MatchResult" where
  "remote_gate v p r =
     (if \<not> pf_RemoteOnly p then Inr r
      else case av_IsRemote v of
             None \<Rightarrow> Inr (unknown ''remote'' r)
           | Some remote \<Rightarrow> if \<not> remote then Inl (rejected ''remote_only'' r) else Inr (proven ''remote'' ''remote'' r))"

definition no_text :: "AssistVacancy \<Rightarrow> bool" where
  "no_text v \<longleftrightarrow> TrimSpace (av_Title v) = '''' \<and> av_Skills v = [] \<and> TrimSpace (av_Description v) = ''''"

fun required_gate :: "AssistVacancy \<Rightarrow> string list \<Rightarrow> MatchResult \<Rightarrow> MatchResult + MatchResult" where
  "required_gate v [] r = Inr r"
| "required_gate v (s # required) r =
     (if hasExplicitSkill v (normalizeSkill s) (skill_keys v) then
        required_gate v required (proven (''required_skill:'' @ s) (''skill:'' @ s) r)
      else if no_text v then required_gate v required (unknown (''required_skill:'' @ s) r)
      else Inl (rejected (''required_skill_missing:'' @ s) r))"

definition seen_at :: "AssistVacancy \<Rightarrow> time option" where
  "seen_at v = (case av_PublishedAt v of Some t \<Rightarrow> Some t | None \<Rightarrow> av_FirstObservedAt v)"

definition age_gate :: "AssistVacancy \<Rightarrow> Preferences \<Rightarrow> time \<Rightarrow> MatchResult \<Rightarrow> MatchResult + MatchResult" where
  "age_gate v p now r =
     (if pf_MaxAge p \<le> 0 then Inr r
      else case seen_at v of
             None \<Rightarrow> Inr (unknown ''freshness'' r)
           | Some t \<Rightarrow> if Sub now t > pf_MaxAge p then Inl (rejected ''stale'' r) else Inr r)"

section \<open>The score and the verdict\<close>

definition match_score :: "AssistVacancy \<Rightarrow> Preferences \<Rightarrow> MatchResult \<Rightarrow> float64" where
  "match_score v p r =
     (let w = normalizedWeights p;
          rolePass = (pf_ApprovedRoles p = [] \<or> overlaps (pf_ApprovedRoles p) (av_RoleIDs v)
            \<or> contains (re_Reasons r) ''approved_role'' \<or> contains (re_Reasons r) ''specialization_satisfies_role'');
          roleKnown = (av_RoleIDs v \<noteq> [] \<or> contains (re_Reasons r) ''specialization_satisfies_role'' \<or> pf_ApprovedRoles p = []);
          c0 = boolScore roleKnown rolePass;
          c1 = boolScore (av_SalaryRUB v \<noteq> None)
                 (case pf_MinSalaryRUB p of None \<Rightarrow> True
                  | Some wanted \<Rightarrow> (case av_SalaryRUB v of None \<Rightarrow> False | Some s \<Rightarrow> s \<ge> wanted));
          c2 = boolScore (av_RegionID v \<noteq> '''') (pf_Regions p = [] \<or> contains (pf_Regions p) (av_RegionID v));
          c3 = skillScore (pf_RequiredSkills p) (skill_keys v)
      in of_int (math_round ((c0 * wt_Role w + c1 * wt_Salary w + c2 * wt_Region w + c3 * wt_Skills w) * 100)) / 100)"

definition verdict :: "AssistVacancy \<Rightarrow> Preferences \<Rightarrow> MatchResult \<Rightarrow> MatchResult" where
  "verdict v p r0 =
     (let r = r0\<lparr>re_Score := match_score v p r0\<rparr>;
          r = (if re_Unknowns r \<noteq> [] then r\<lparr>re_Decision := DecisionReview\<rparr> else r)
      in if re_Decision r = DecisionMatch \<and> re_Reasons r = [] then r\<lparr>re_Reasons := [''no_conflicts'']\<rparr> else r)"

definition and_then :: "MatchResult + MatchResult \<Rightarrow> (MatchResult \<Rightarrow> MatchResult + MatchResult) \<Rightarrow> MatchResult + MatchResult" where
  "and_then x f = (case x of Inl r \<Rightarrow> Inl r | Inr r \<Rightarrow> f r)"

definition start_result :: MatchResult where
  "start_result = \<lparr>re_Decision = DecisionMatch, re_Score = 0, re_Reasons = [], re_Unknowns = [], re_Conflicts = [],
     re_Evidence = []\<rparr>"

definition gates :: "AssistVacancy \<Rightarrow> Preferences \<Rightarrow> time \<Rightarrow> (MatchResult \<Rightarrow> MatchResult + MatchResult) list" where
  "gates v p now =
     (let c = ClassifyVacancy v in
      [excluded_gate v p, leadership_gate c p, specialization_gate c p, applyCatalogRoleGate v p c, salary_gate v p,
       region_gate v p, remote_gate v p, required_gate v (pf_RequiredSkills p), age_gate v p now])"

definition Match :: "AssistVacancy \<Rightarrow> Preferences \<Rightarrow> time \<Rightarrow> MatchResult" where
  "Match v0 p now =
     (let v = v0\<lparr>av_RoleIDs := officialRoleIDs v0\<rparr> in
      case foldl and_then (Inr start_result) (gates v p now) of
        Inl r \<Rightarrow> r
      | Inr r \<Rightarrow> verdict v p r)"

text \<open>The superseded overlap gate, kept in the code for comparison.\<close>

definition catalogRoleHardRejectV3 :: "AssistVacancy \<Rightarrow> Preferences \<Rightarrow> bool" where
  "catalogRoleHardRejectV3 v p =
     (if pf_ApprovedRoles p = [] then False
      else let ids = officialRoleIDs v in ids \<noteq> [] \<and> \<not> overlaps (pf_ApprovedRoles p) ids)"

section \<open>Reading a preference record\<close>

definition stringValue :: "any \<Rightarrow> string" where
  "stringValue x = (case x of AnyString t \<Rightarrow> t | _ \<Rightarrow> '''')"

definition stringSlice :: "any \<Rightarrow> string list" where
  "stringSlice x = (case x of AnyList items \<Rightarrow>
     concat (map (\<lambda>i. case i of AnyString t \<Rightarrow> [t] | _ \<Rightarrow> []) items) | _ \<Rightarrow> [])"

definition boolValue :: "any \<Rightarrow> bool" where
  "boolValue x = (case x of AnyBool b \<Rightarrow> b | _ \<Rightarrow> False)"

definition floatPointer :: "any \<Rightarrow> float64 option" where
  "floatPointer x = (case x of AnyNumber n \<Rightarrow> Some n | _ \<Rightarrow> None)"

definition toPreferences :: "PreferenceRecord \<Rightarrow> Preferences" where
  "toPreferences p =
     \<lparr>pf_ApprovedRoles = stringSlice (crit (pc_HardCriteria p) ''approved_roles''),
      pf_Specialization = stringValue (crit (pc_HardCriteria p) ''specialization''),
      pf_IncludeLeadership = boolValue (crit (pc_HardCriteria p) ''include_leadership''),
      pf_MinSalaryRUB = floatPointer (crit (pc_HardCriteria p) ''min_salary_rub''),
      pf_Regions = stringSlice (crit (pc_HardCriteria p) ''regions''),
      pf_RemoteOnly = boolValue (crit (pc_HardCriteria p) ''remote_only''),
      pf_RequiredSkills = stringSlice (crit (pc_HardCriteria p) ''required_skills''),
      pf_ExcludedSkills = stringSlice (crit (pc_HardCriteria p) ''excluded_skills''),
      pf_MaxAge = 0, pf_Weights = \<lparr>wt_Role = 0, wt_Salary = 0, wt_Region = 0, wt_Skills = 0\<rparr>\<rparr>"

section \<open>AI answers\<close>

record CriterionProof =
  cp_Pass :: bool
  cp_Source :: string

record MatchOutput =
  mo_Decision :: string
  mo_Score :: float64
  mo_Confidence :: string
  mo_Matched :: "string list"
  mo_Evidence :: "string list"
  mo_CriterionEvidence :: "(string \<times> CriterionProof) list"
  mo_Conflicts :: "string list"
  mo_Unknowns :: "string list"
  mo_Rationale :: string

definition no_output :: MatchOutput where
  "no_output = \<lparr>mo_Decision = '''', mo_Score = 0, mo_Confidence = '''', mo_Matched = [], mo_Evidence = [],
     mo_CriterionEvidence = [], mo_Conflicts = [], mo_Unknowns = [], mo_Rationale = ''''\<rparr>"

datatype output_error = InvalidDecision | ScoreOutside | InvalidConfidence | NoCriterionEvidence | InventedEvidence string
  | EmptyCriterion | InvalidSource | RationaleTooLong | ArrayTooLong | ItemTooLong

fun criteria_ok :: "(string \<times> CriterionProof) list \<Rightarrow> output_error option" where
  "criteria_ok [] = None"
| "criteria_ok ((criterion, proof_of) # rest) =
     (if TrimSpace criterion = '''' then Some EmptyCriterion
      else if \<not> List.member [''official_fact'', ''title'', ''skills'', ''description''] (cp_Source proof_of) then Some InvalidSource
      else criteria_ok rest)"

fun arrays_ok :: "string list list \<Rightarrow> output_error option" where
  "arrays_ok [] = None"
| "arrays_ok (vs # rest) =
     (if length vs > 50 then Some ArrayTooLong
      else if list_ex (\<lambda>x. length (runes x) > 500) vs then Some ItemTooLong
      else arrays_ok rest)"

definition validateOutput :: "MatchOutput \<Rightarrow> (string \<Rightarrow> bool) \<Rightarrow> output_error option" where
  "validateOutput out allowed =
     (if mo_Decision out \<noteq> ''match'' \<and> mo_Decision out \<noteq> ''reject'' \<and> mo_Decision out \<noteq> ''review'' then Some InvalidDecision
      else if mo_Score out < 0 \<or> mo_Score out > 1 then Some ScoreOutside
      else if \<not> List.member [''low'', ''medium'', ''high''] (mo_Confidence out) then Some InvalidConfidence
      else if mo_Decision out = ''match'' \<and> mo_CriterionEvidence out = [] then Some NoCriterionEvidence
      else case List.find (\<lambda>i. \<not> allowed i) (mo_Evidence out) of
             Some i \<Rightarrow> Some (InventedEvidence i)
           | None \<Rightarrow>
               (case criteria_ok (mo_CriterionEvidence out) of
                  Some e \<Rightarrow> Some e
                | None \<Rightarrow> if length (runes (mo_Rationale out)) > 2000 then Some RationaleTooLong
                          else arrays_ok [mo_Matched out, mo_Evidence out, mo_Conflicts out, mo_Unknowns out]))"

definition ValidateEvidence :: "MatchResult \<Rightarrow> (string \<Rightarrow> bool) \<Rightarrow> output_error option" where
  "ValidateEvidence r allowed =
     (case List.find (\<lambda>i. \<not> allowed i) (re_Evidence r) of
        Some i \<Rightarrow> Some (InventedEvidence i)
      | None \<Rightarrow> if re_Score r < 0 \<or> re_Score r > 1 then Some ScoreOutside else None)"

section \<open>Precedence of the hard gates\<close>

fun appendUnique :: "string list \<Rightarrow> string list \<Rightarrow> string list" where
  "appendUnique vs [] = vs"
| "appendUnique vs (x # xs) =
     appendUnique (if x \<noteq> '''' \<and> \<not> List.member vs x then vs @ [x] else vs) xs"

definition unknown_key :: "string \<Rightarrow> string" where
  "unknown_key u =
     (if u = ''specialization_description_only'' then ''specialization''
      else if HasPrefix u ''required_skill:'' then ''required_skill:'' @ normalizeSkill (TrimPrefix u ''required_skill:'')
      else u)"

definition cite_criteria :: "(string \<times> CriterionProof) list \<Rightarrow> MatchOutput \<Rightarrow> MatchOutput" where
  "cite_criteria order ai =
     foldl (\<lambda>ai (criterion, pr). if cp_Pass pr
        then ai\<lparr>mo_Evidence := appendUnique (mo_Evidence ai) [''criterion:'' @ criterion @ '':'' @ cp_Source pr]\<rparr> else ai)
       ai order"

definition enrich_one :: "MatchOutput \<Rightarrow> string \<Rightarrow> MatchOutput" where
  "enrich_one ai u =
     (if map_of (mo_CriterionEvidence ai) (unknown_key u) = None
      then ai\<lparr>mo_CriterionEvidence := AList.update (unknown_key u) \<lparr>cp_Pass = True, cp_Source = ''description''\<rparr> (mo_CriterionEvidence ai)\<rparr>
      else ai)"

definition enrichIDListMatchEvidence :: "MatchResult \<Rightarrow> MatchOutput \<Rightarrow> MatchOutput" where
  "enrichIDListMatchEvidence det ai = foldl enrich_one ai (re_Unknowns det)"

definition proof_holds :: "MatchOutput \<Rightarrow> string \<Rightarrow> bool" where
  "proof_holds ai u =
     (case map_of (mo_CriterionEvidence ai) (unknown_key u) of
        None \<Rightarrow> False | Some pr \<Rightarrow> cp_Pass pr \<and> TrimSpace (cp_Source pr) \<noteq> '''')"

definition demand_proof :: "MatchOutput \<Rightarrow> string \<Rightarrow> MatchOutput" where
  "demand_proof ai u =
     (if proof_holds ai u then ai
      else ai\<lparr>mo_Decision := DecisionReview, mo_Unknowns := appendUnique (mo_Unknowns ai) [u]\<rparr>)"

definition ApplyHardGatePrecedence :: "((string \<times> CriterionProof) list \<Rightarrow> (string \<times> CriterionProof) list)
    \<Rightarrow> MatchResult \<Rightarrow> MatchOutput \<Rightarrow> MatchOutput" where
  "ApplyHardGatePrecedence order det ai =
     (if re_Decision det = DecisionReject then
        ai\<lparr>mo_Decision := DecisionReject, mo_Conflicts := appendUnique (mo_Conflicts ai) (re_Conflicts det)\<rparr>
      else if re_Decision det = DecisionMatch \<and> re_Unknowns det = [] then
        cite_criteria (order (mo_CriterionEvidence ai)) (ai\<lparr>mo_Decision := DecisionMatch\<rparr>)
      else if mo_Decision ai \<noteq> DecisionMatch then ai
      else
        let ai = (if mo_Rationale ai = ''id_list_match'' then enrichIDListMatchEvidence det ai else ai);
            ai = cite_criteria (order (mo_CriterionEvidence ai)) ai
        in foldl demand_proof ai (re_Unknowns det))"

section \<open>The contract of a gate\<close>

text \<open>
  What the matcher relies on: a gate whose conflict is present returns a rejection with its conflict,
  any other gate only adds to the reasons and lists its open points. Whether the conflict is present
  and what is open depends on the vacancy and the preferences, never on the gates before.
\<close>

locale gate =
  fixes g :: "MatchResult \<Rightarrow> MatchResult + MatchResult" and conflict :: bool and points :: "string list"
  assumes blocks: "conflict \<Longrightarrow> re_Conflicts r = [] \<Longrightarrow>
      \<exists>r'. g r = Inl r' \<and> re_Decision r' = DecisionReject \<and> re_Conflicts r' \<noteq> [] \<and> re_Score r' = re_Score r"
    and passes: "\<not> conflict \<Longrightarrow> re_Conflicts r = [] \<Longrightarrow>
      \<exists>r'. g r = Inr r' \<and> re_Decision r' = re_Decision r \<and> re_Conflicts r' = [] \<and> re_Score r' = re_Score r
        \<and> re_Unknowns r' = re_Unknowns r @ points"

lemma foldl_and_then_Inl [simp]: "foldl and_then (Inl r) gs = Inl r"
  by (induction gs) (simp_all add: and_then_def)

lemma gates_compose:
  assumes "list_all2 (\<lambda>g (conflict, points). gate g conflict points) gs laws" "re_Conflicts r = []"
  shows "if list_ex fst laws
      then \<exists>r'. foldl and_then (Inr r) gs = Inl r' \<and> re_Decision r' = DecisionReject \<and> re_Conflicts r' \<noteq> [] \<and> re_Score r' = re_Score r
      else \<exists>r'. foldl and_then (Inr r) gs = Inr r' \<and> re_Decision r' = re_Decision r \<and> re_Conflicts r' = []
        \<and> re_Score r' = re_Score r \<and> re_Unknowns r' = re_Unknowns r @ concat (map snd laws)"
  using assms
proof (induction gs laws arbitrary: r rule: list_all2_induct)
  case (Cons g gs law laws)
  obtain K U where law: "law = (K, U)" by fastforce
  from Cons law have g: "gate g K U" by simp
  show ?case
  proof (cases K)
    case True
    from gate.blocks [OF g this Cons.prems] law True show ?thesis by (auto simp: and_then_def)
  next
    case False
    from gate.passes [OF g this Cons.prems] obtain r1 where r1: "g r = Inr r1" "re_Decision r1 = re_Decision r"
      "re_Conflicts r1 = []" "re_Score r1 = re_Score r" "re_Unknowns r1 = re_Unknowns r @ U" by blast
    have "foldl and_then (Inr r) (g # gs) = foldl and_then (Inr r1) gs" by (simp add: and_then_def r1)
    with Cons.IH [OF r1(3)] law False r1 show ?thesis by (auto split: if_splits)
  qed
qed simp

section \<open>What the gates decide\<close>

text \<open>Each gate's conflict and open points, read off the preferences.\<close>

definition excluded_hit :: "AssistVacancy \<Rightarrow> Preferences \<Rightarrow> bool" where
  "excluded_hit v p = list_ex (\<lambda>e. List.member (skill_keys v) (ToLower (TrimSpace e))) (pf_ExcludedSkills p)"

definition role_overlap :: "AssistVacancy \<Rightarrow> Preferences \<Rightarrow> bool" where
  "role_overlap v p \<longleftrightarrow> av_RoleIDs v \<noteq> [] \<and> overlaps (pf_ApprovedRoles p) (av_RoleIDs v)"

definition role_conflict :: "AssistVacancy \<Rightarrow> Preferences \<Rightarrow> Classification \<Rightarrow> bool" where
  "role_conflict v p c \<longleftrightarrow> pf_ApprovedRoles p \<noteq> [] \<and> \<not> role_overlap v p \<and> pf_Specialization p = '''' \<and> av_RoleIDs v \<noteq> []
     \<and> \<not> (contains (pf_ApprovedRoles p) ''96'' \<and> cl_Specialization c = SpecializationFrontend \<and> specializationProven c)"

definition role_open :: "AssistVacancy \<Rightarrow> Preferences \<Rightarrow> Classification \<Rightarrow> bool" where
  "role_open v p c \<longleftrightarrow> pf_ApprovedRoles p \<noteq> [] \<and> \<not> role_overlap v p
     \<and> (if pf_Specialization p \<noteq> '''' then \<not> (cl_Specialization c = pf_Specialization p \<and> specializationProven c)
        else av_RoleIDs v = [])"

definition missing_skill :: "AssistVacancy \<Rightarrow> string \<Rightarrow> bool" where
  "missing_skill v s \<longleftrightarrow> \<not> hasExplicitSkill v (normalizeSkill s) (skill_keys v)"

definition specialization_conflict :: "Preferences \<Rightarrow> Classification \<Rightarrow> bool" where
  "specialization_conflict p c \<longleftrightarrow> pf_Specialization p \<noteq> '''' \<and> cl_Specialization c \<noteq> SpecializationUnknown
     \<and> cl_Specialization c \<noteq> pf_Specialization p"

definition specialization_open :: "Preferences \<Rightarrow> Classification \<Rightarrow> string list" where
  "specialization_open p c =
     (if pf_Specialization p = '''' then []
      else if cl_Specialization c = SpecializationUnknown then [''specialization'']
      else if cl_Confidence c = ''low'' then [''specialization_description_only''] else [])"

definition too_old :: "AssistVacancy \<Rightarrow> Preferences \<Rightarrow> time \<Rightarrow> bool" where
  "too_old v p now \<longleftrightarrow> 0 < pf_MaxAge p \<and> (case seen_at v of None \<Rightarrow> False | Some t \<Rightarrow> Sub now t > pf_MaxAge p)"

definition salary_short :: "AssistVacancy \<Rightarrow> Preferences \<Rightarrow> bool" where
  "salary_short v p =
     (case (pf_MinSalaryRUB p, av_SalaryRUB v) of (Some wanted, Some s) \<Rightarrow> s < wanted | _ \<Rightarrow> False)"

definition gate_laws :: "AssistVacancy \<Rightarrow> Preferences \<Rightarrow> time \<Rightarrow> (bool \<times> string list) list" where
  "gate_laws v p now =
     (let c = ClassifyVacancy v in
      [(excluded_hit v p, []),
       (cl_Leadership c \<and> \<not> pf_IncludeLeadership p, []),
       (specialization_conflict p c, specialization_open p c),
       (role_conflict v p c, if role_open v p c then [''role''] else []),
       (salary_short v p,
        if pf_MinSalaryRUB p \<noteq> None \<and> av_SalaryRUB v = None then [''salary''] else []),
       (pf_Regions p \<noteq> [] \<and> av_RegionID v \<noteq> '''' \<and> \<not> contains (pf_Regions p) (av_RegionID v),
        if pf_Regions p \<noteq> [] \<and> av_RegionID v = '''' then [''region''] else []),
       (pf_RemoteOnly p \<and> av_IsRemote v = Some False, if pf_RemoteOnly p \<and> av_IsRemote v = None then [''remote''] else []),
       (list_ex (missing_skill v) (pf_RequiredSkills p) \<and> \<not> no_text v,
        map (\<lambda>s. ''required_skill:'' @ s) (filter (missing_skill v) (pf_RequiredSkills p))),
       (too_old v p now, if 0 < pf_MaxAge p \<and> seen_at v = None then [''freshness''] else [])])"

lemmas gate_steps = rejected_def unknown_def proven_def cited_def

interpretation excluded: gate "excluded_gate v p" "excluded_hit v p" "[]" for v p
  by unfold_locales (auto simp: excluded_gate_def excluded_hit_def Let_def filter_empty_conv list_ex_iff)

interpretation leadership: gate "leadership_gate c p" "cl_Leadership c \<and> \<not> pf_IncludeLeadership p" "[]" for c p
  by unfold_locales (auto simp: leadership_gate_def gate_steps)

interpretation specialization: gate "specialization_gate c p" "specialization_conflict p c" "specialization_open p c" for c p
  by unfold_locales (auto simp: specialization_gate_def specialization_conflict_def specialization_open_def gate_steps)

interpretation role: gate "applyCatalogRoleGate v p c" "role_conflict v p c" "if role_open v p c then [''role''] else []" for v p c
  by unfold_locales (auto simp: applyCatalogRoleGate_def role_conflict_def role_open_def role_overlap_def gate_steps Let_def)

interpretation salary: gate "salary_gate v p"
  "salary_short v p"
  "if pf_MinSalaryRUB p \<noteq> None \<and> av_SalaryRUB v = None then [''salary''] else []" for v p
  by unfold_locales (auto simp: salary_gate_def salary_short_def gate_steps split: option.splits)

interpretation region: gate "region_gate v p"
  "pf_Regions p \<noteq> [] \<and> av_RegionID v \<noteq> '''' \<and> \<not> contains (pf_Regions p) (av_RegionID v)"
  "if pf_Regions p \<noteq> [] \<and> av_RegionID v = '''' then [''region''] else []" for v p
  by unfold_locales (auto simp: region_gate_def gate_steps)

interpretation remote: gate "remote_gate v p" "pf_RemoteOnly p \<and> av_IsRemote v = Some False"
  "if pf_RemoteOnly p \<and> av_IsRemote v = None then [''remote''] else []" for v p
  by unfold_locales (auto simp: remote_gate_def gate_steps split: option.splits)

lemma step_fields [simp]:
  "re_Conflicts (proven a b r) = re_Conflicts r" "re_Unknowns (proven a b r) = re_Unknowns r"
  "re_Decision (proven a b r) = re_Decision r" "re_Score (proven a b r) = re_Score r"
  "re_Conflicts (unknown a r) = re_Conflicts r" "re_Unknowns (unknown a r) = re_Unknowns r @ [a]"
  "re_Decision (unknown a r) = re_Decision r" "re_Score (unknown a r) = re_Score r"
  "re_Conflicts (rejected a r) = re_Conflicts r @ [a]" "re_Decision (rejected a r) = DecisionReject"
  "re_Score (rejected a r) = re_Score r"
  by (simp_all add: gate_steps)

lemma required_gate_blocks:
  "list_ex (missing_skill v) ss \<Longrightarrow> \<not> no_text v \<Longrightarrow> re_Conflicts r = [] \<Longrightarrow>
     \<exists>r'. required_gate v ss r = Inl r' \<and> re_Decision r' = DecisionReject \<and> re_Conflicts r' \<noteq> [] \<and> re_Score r' = re_Score r"
proof (induction ss arbitrary: r)
  case (Cons s ss)
  with Cons.IH [of "proven (''required_skill:'' @ s) (''skill:'' @ s) r"] show ?case
    by (cases "missing_skill v s") (simp_all add: missing_skill_def)
qed simp

lemma required_gate_passes:
  "\<not> (list_ex (missing_skill v) ss \<and> \<not> no_text v) \<Longrightarrow> re_Conflicts r = [] \<Longrightarrow>
     \<exists>r'. required_gate v ss r = Inr r' \<and> re_Decision r' = re_Decision r \<and> re_Conflicts r' = [] \<and> re_Score r' = re_Score r
       \<and> re_Unknowns r' = re_Unknowns r @ map (\<lambda>s. ''required_skill:'' @ s) (filter (missing_skill v) ss)"
proof (induction ss arbitrary: r)
  case (Cons s ss)
  with Cons.IH [of "unknown (''required_skill:'' @ s) r"] Cons.IH [of "proven (''required_skill:'' @ s) (''skill:'' @ s) r"]
  show ?case by (cases "missing_skill v s") (simp_all add: missing_skill_def)
qed simp

interpretation required: gate "required_gate v ss" "list_ex (missing_skill v) ss \<and> \<not> no_text v"
  "map (\<lambda>s. ''required_skill:'' @ s) (filter (missing_skill v) ss)" for v ss
  using required_gate_blocks required_gate_passes by unfold_locales auto

interpretation age: gate "age_gate v p now" "too_old v p now" "if 0 < pf_MaxAge p \<and> seen_at v = None then [''freshness''] else []" for v p now
  by unfold_locales (auto simp: age_gate_def too_old_def gate_steps split: option.splits)

lemma gates_lawful: "list_all2 (\<lambda>g (conflict, points). gate g conflict points) (gates v p now) (gate_laws v p now)"
  unfolding gates_def gate_laws_def Let_def
  by (intro list.rel_intros)
    (simp_all only: prod.case excluded.gate_axioms leadership.gate_axioms specialization.gate_axioms role.gate_axioms
      salary.gate_axioms region.gate_axioms remote.gate_axioms required.gate_axioms age.gate_axioms)

definition official :: "AssistVacancy \<Rightarrow> AssistVacancy" where
  "official v = v\<lparr>av_RoleIDs := officialRoleIDs v\<rparr>"

definition hard_conflict :: "AssistVacancy \<Rightarrow> Preferences \<Rightarrow> time \<Rightarrow> bool" where
  "hard_conflict v p now = list_ex fst (gate_laws (official v) p now)"

definition open_points :: "AssistVacancy \<Rightarrow> Preferences \<Rightarrow> time \<Rightarrow> string list" where
  "open_points v p now = concat (map snd (gate_laws (official v) p now))"

lemma verdict_fields:
  "re_Conflicts (verdict v p r) = re_Conflicts r" "re_Unknowns (verdict v p r) = re_Unknowns r"
  "re_Score (verdict v p r) = match_score v p r"
  "re_Decision (verdict v p r) = (if re_Unknowns r \<noteq> [] then DecisionReview else re_Decision r)"
  "re_Decision (verdict v p r) = DecisionMatch \<Longrightarrow> re_Reasons (verdict v p r) \<noteq> []"
  by (auto simp: verdict_def Let_def)

lemma Match_cases:
  obtains (conflict) "hard_conflict v p now" "re_Decision (Match v p now) = DecisionReject" "re_Conflicts (Match v p now) \<noteq> []"
      "re_Score (Match v p now) = 0"
  | (clear) r where "\<not> hard_conflict v p now" "Match v p now = verdict (official v) p r" "re_Decision r = DecisionMatch"
      "re_Conflicts r = []" "re_Unknowns r = open_points v p now"
  using gates_compose [OF gates_lawful, of start_result "official v" p now]
  by (cases "hard_conflict v p now")
    (auto simp: start_result_def Match_def Let_def hard_conflict_def open_points_def official_def split: if_splits)

lemma skillScore_range: "0 \<le> skillScore req ks \<and> skillScore req ks \<le> 1"
proof (cases "req = []")
  case False
  have "length (filter (\<lambda>s. List.member ks (normalizeSkill s)) req) \<le> length req" by (rule length_filter_le)
  with False show ?thesis by (simp add: skillScore_def divide_le_eq)
qed (simp add: skillScore_def)

lemma boolScore_range: "0 \<le> boolScore a b \<and> boolScore a b \<le> 1"
  by (simp add: boolScore_def)

definition weights_nonneg :: "Weights \<Rightarrow> bool" where
  "weights_nonneg w \<longleftrightarrow> 0 \<le> wt_Role w \<and> 0 \<le> wt_Salary w \<and> 0 \<le> wt_Region w \<and> 0 \<le> wt_Skills w"

lemma normalizedWeights_unit:
  assumes "weights_nonneg (pf_Weights p)"
  shows "weights_nonneg (normalizedWeights p)"
    "wt_Role (normalizedWeights p) + wt_Salary (normalizedWeights p) + wt_Region (normalizedWeights p)
       + wt_Skills (normalizedWeights p) = 1"
proof -
  let ?w = "pf_Weights p"
  let ?t = "wt_Role ?w + wt_Salary ?w + wt_Region ?w + wt_Skills ?w"
  show "weights_nonneg (normalizedWeights p)"
    using assms by (auto simp: normalizedWeights_def weights_nonneg_def default_weights_def Let_def)
  have "wt_Role ?w / ?t + wt_Salary ?w / ?t + wt_Region ?w / ?t + wt_Skills ?w / ?t = 1" if "\<not> ?t \<le> 0"
    using that by (simp add: add_divide_distrib [symmetric])
  then show "wt_Role (normalizedWeights p) + wt_Salary (normalizedWeights p) + wt_Region (normalizedWeights p)
       + wt_Skills (normalizedWeights p) = 1"
    by (auto simp: normalizedWeights_def default_weights_def Let_def)
qed

lemma weighted_range:
  fixes a b c d :: real
  assumes "weights_nonneg w" "wt_Role w + wt_Salary w + wt_Region w + wt_Skills w = 1"
    and "0 \<le> a \<and> a \<le> 1" "0 \<le> b \<and> b \<le> 1" "0 \<le> c \<and> c \<le> 1" "0 \<le> d \<and> d \<le> 1"
  shows "0 \<le> a * wt_Role w + b * wt_Salary w + c * wt_Region w + d * wt_Skills w
    \<and> a * wt_Role w + b * wt_Salary w + c * wt_Region w + d * wt_Skills w \<le> 1"
proof -
  have "a * wt_Role w \<le> wt_Role w" "b * wt_Salary w \<le> wt_Salary w" "c * wt_Region w \<le> wt_Region w"
    "d * wt_Skills w \<le> wt_Skills w"
    using assms by (auto simp: weights_nonneg_def intro: mult_left_le_one_le)
  moreover have "0 \<le> a * wt_Role w" "0 \<le> b * wt_Salary w" "0 \<le> c * wt_Region w" "0 \<le> d * wt_Skills w"
    using assms by (auto simp: weights_nonneg_def)
  ultimately show ?thesis using assms(2) by linarith
qed

lemma math_round_percent: "0 \<le> x \<Longrightarrow> x \<le> 1 \<Longrightarrow> 0 \<le> (of_int (math_round (x * 100)) / 100 :: real) \<and> of_int (math_round (x * 100)) / 100 \<le> (1 :: real)"
proof -
  assume x: "0 \<le> x" "x \<le> 1"
  then have "0 \<le> \<lfloor>x * 100 + 1 / 2\<rfloor>" "\<lfloor>x * 100 + 1 / 2\<rfloor> \<le> 100" by (simp_all add: le_floor_iff floor_le_iff)
  then have "0 \<le> (of_int \<lfloor>x * 100 + 1 / 2\<rfloor> :: real)" "(of_int \<lfloor>x * 100 + 1 / 2\<rfloor> :: real) \<le> 100" by linarith+
  with x show ?thesis by (simp add: math_round_def)
qed

lemma match_score_range: "weights_nonneg (pf_Weights p) \<Longrightarrow> 0 \<le> match_score v p r \<and> match_score v p r \<le> 1"
  unfolding match_score_def Let_def
  by (intro math_round_percent conjunct1 [OF weighted_range] conjunct2 [OF weighted_range]
      normalizedWeights_unit boolScore_range skillScore_range)
    
lemma Match_score_range: "weights_nonneg (pf_Weights p) \<Longrightarrow> 0 \<le> re_Score (Match v p now) \<and> re_Score (Match v p now) \<le> 1"
  by (cases v p now rule: Match_cases) (simp_all add: verdict_fields match_score_range)

text \<open>A spelling that the normalisation of skills rewrites to another key is never a key itself.\<close>

definition rewritten_spelling :: "string \<Rightarrow> bool" where
  "rewritten_spelling e \<longleftrightarrow> impliesReactWeb (ToLower (TrimSpace e)) \<and> ToLower (TrimSpace e) \<noteq> ''react''"

lemma skill_keys_rewritten: "rewritten_spelling e \<Longrightarrow> \<not> List.member (skill_keys v) (ToLower (TrimSpace e))"
  by (auto simp: rewritten_spelling_def skill_keys_def normalizeSkill_def Let_def split: if_splits)

lemma excluded_gate_rewritten:
  "excluded_gate v p = excluded_gate v (p\<lparr>pf_ExcludedSkills := filter (\<lambda>e. \<not> rewritten_spelling e) (pf_ExcludedSkills p)\<rparr>)"
proof -
  have "filter (\<lambda>e. List.member (skill_keys v) (ToLower (TrimSpace e))) es
      = filter (\<lambda>e. List.member (skill_keys v) (ToLower (TrimSpace e))) (filter (\<lambda>e. \<not> rewritten_spelling e) es)" for es
    using skill_keys_rewritten by (auto intro: filter_cong)
  then show ?thesis unfolding excluded_gate_def fun_eq_iff by simp
qed

section \<open>Lemmas on the precedence\<close>


lemma cite_criteria_fields [simp]:
  "mo_Decision (cite_criteria xs ai) = mo_Decision ai" "mo_CriterionEvidence (cite_criteria xs ai) = mo_CriterionEvidence ai"
proof -
  have "mo_Decision (cite_criteria xs ai) = mo_Decision ai \<and> mo_CriterionEvidence (cite_criteria xs ai) = mo_CriterionEvidence ai"
    unfolding cite_criteria_def by (induction xs arbitrary: ai) (auto split: if_splits)
  then show "mo_Decision (cite_criteria xs ai) = mo_Decision ai" "mo_CriterionEvidence (cite_criteria xs ai) = mo_CriterionEvidence ai" by auto
qed

lemma proof_holds_cong: "mo_CriterionEvidence a = mo_CriterionEvidence b \<Longrightarrow> proof_holds a u = proof_holds b u"
  by (simp add: proof_holds_def)

lemma demand_proof_evidence [simp]: "mo_CriterionEvidence (demand_proof ai u) = mo_CriterionEvidence ai"
  by (simp add: demand_proof_def)

lemma demand_all:
  "mo_Decision (foldl demand_proof ai us) = (if list_all (proof_holds ai) us then mo_Decision ai else DecisionReview)"
proof (induction us arbitrary: ai)
  case (Cons u us)
  have "list_all (proof_holds (demand_proof ai u)) us = list_all (proof_holds ai) us"
    by (simp add: list_all_iff proof_holds_cong [OF demand_proof_evidence])
  with Cons show ?case by (auto simp: demand_proof_def)
qed simp

lemma enrich_one_fields [simp]: "mo_Decision (enrich_one ai u) = mo_Decision ai"
  by (simp add: enrich_one_def)

lemma enrich_fields [simp]: "mo_Decision (enrichIDListMatchEvidence det ai) = mo_Decision ai"
proof -
  have "mo_Decision (foldl enrich_one ai us) = mo_Decision ai" for us by (induction us arbitrary: ai) auto
  then show ?thesis by (simp add: enrichIDListMatchEvidence_def)
qed


lemma enrich_keeps_proof:
  assumes "map_of (mo_CriterionEvidence ai) k = Some pr"
  shows "map_of (mo_CriterionEvidence (foldl enrich_one ai us)) k = Some pr"
  using assms
proof (induction us arbitrary: ai)
  case (Cons u us)
  then have "map_of (mo_CriterionEvidence (enrich_one ai u)) k = Some pr" by (auto simp: enrich_one_def update_conv)
  with Cons.IH show ?case by simp
qed simp

lemma enrich_adds_proof:
  "u \<in> set us \<Longrightarrow> map_of (mo_CriterionEvidence ai) (unknown_key u) = None \<Longrightarrow>
     map_of (mo_CriterionEvidence (foldl enrich_one ai us)) (unknown_key u) = Some \<lparr>cp_Pass = True, cp_Source = ''description''\<rparr>"
proof (induction us arbitrary: ai)
  case (Cons w us)
  let ?d = "\<lparr>cp_Pass = True, cp_Source = ''description''\<rparr>"
  show ?case
  proof (cases "unknown_key w = unknown_key u")
    case True
    with Cons.prems have "map_of (mo_CriterionEvidence (enrich_one ai w)) (unknown_key u) = Some ?d"
      by (simp add: enrich_one_def update_conv)
    then show ?thesis using enrich_keeps_proof by simp
  next
    case False
    with Cons.prems have "map_of (mo_CriterionEvidence (enrich_one ai w)) (unknown_key u) = None" "u \<in> set us"
      by (auto simp: enrich_one_def update_conv)
    with Cons.IH show ?thesis by simp
  qed
qed simp

lemma Match_decision: "re_Decision (Match v p now) = DecisionReject \<longleftrightarrow> hard_conflict v p now"
proof (cases v p now rule: Match_cases)
  case (clear r)
  then show ?thesis using verdict_fields(4) [of "official v" p r] by auto
qed simp

section \<open>Properties\<close>

text \<open>
  C23. The decision of the matcher in one line, whatever the order of its gates: a vacancy is rejected
  exactly when one of the hard criteria is contradicted, it goes to review exactly when none is and
  at least one criterion could not be decided (and then the unknowns are exactly those), and it is a
  match otherwise, with no conflict and at least one reason.
\<close>

theorem Match_exact:
  "re_Decision (Match v p now) =
     (if hard_conflict v p now then DecisionReject else if open_points v p now \<noteq> [] then DecisionReview else DecisionMatch)
   \<and> (hard_conflict v p now \<longleftrightarrow> re_Conflicts (Match v p now) \<noteq> [])
   \<and> (hard_conflict v p now \<or> re_Unknowns (Match v p now) = open_points v p now)
   \<and> (re_Decision (Match v p now) = DecisionMatch \<longrightarrow> re_Reasons (Match v p now) \<noteq> [])"
proof (cases v p now rule: Match_cases)
  case conflict
  then show ?thesis by simp
next
  case (clear r)
  then show ?thesis using verdict_fields [of "official v" p r] by auto
qed

definition frontend_vacancy :: AssistVacancy where
  "frontend_vacancy = \<lparr>av_ID = ''1'', av_Title = ''Frontend'', av_RoleID = ''96'', av_RegionID = '''', av_RoleIDs = [],
     av_Description = '''', av_SalaryRUB = None, av_Skills = [], av_IsRemote = Some True, av_PublishedAt = None,
     av_FirstObservedAt = None\<rparr>"

definition frontend_wish :: Preferences where
  "frontend_wish = \<lparr>pf_ApprovedRoles = [''96''], pf_Specialization = ''frontend'', pf_IncludeLeadership = False,
     pf_MinSalaryRUB = None, pf_Regions = [], pf_RemoteOnly = True, pf_RequiredSkills = [], pf_ExcludedSkills = [],
     pf_MaxAge = 0, pf_Weights = \<lparr>wt_Role = 0, wt_Salary = 0, wt_Region = 0, wt_Skills = 0\<rparr>\<rparr>"

lemma frontend_roles: "officialRoleIDs frontend_vacancy = [''96'']"
proof -
  have "TrimSpace ''96'' = ''96''" by (simp add: bytes_simps)
  then show ?thesis by (simp add: officialRoleIDs_def frontend_vacancy_def contains_def approvedRolePolicy_def)
qed

lemma frontend_class: "ClassifyVacancy (official frontend_vacancy) =
    \<lparr>cl_Specialization = ''frontend'', cl_Leadership = False, cl_Confidence = ''high'', cl_Evidence = ''title''\<rparr>"
proof -
  have t: "classifyText ''Frontend'' = ''frontend''"
    by (simp add: classifyText_def hasAlias_def specialization_hits_def alias_defs specialization_defs bytes_simps)
  have l: "\<not> hasAlias ''Frontend'' leadership_aliases" by (simp add: hasAlias_def alias_defs bytes_simps)
  have T: "TrimSpace ''96'' = ''96''" "TrimSpace ''104'' = ''104''" by (simp_all add: bytes_simps)
  have "\<not> EqualFold ''96'' ''104''" by (simp add: bytes_simps)
  with T have "officialRoleIDs (official frontend_vacancy) = [''96'']" "\<not> contains [''96''] ''104''"
    using frontend_roles by (simp_all add: officialRoleIDs_def official_def contains_def EqualFold_def frontend_vacancy_def)
  with t l show ?thesis
    by (simp add: ClassifyVacancy_def official_def frontend_vacancy_def specialization_defs Let_def)
qed

lemma frontend_clear: "\<not> hard_conflict frontend_vacancy frontend_wish 0" "open_points frontend_vacancy frontend_wish 0 = []"
proof -
  have "overlaps [''96''] [''96'']" by (simp add: overlaps_def contains_def EqualFold_def)
  then have o: "role_overlap (official frontend_vacancy) frontend_wish"
    by (simp add: role_overlap_def official_def frontend_roles frontend_wish_def)
  note defs = gate_laws_def Let_def frontend_class excluded_hit_def specialization_conflict_def specialization_open_def
    role_conflict_def role_open_def o salary_short_def too_old_def
  show "\<not> hard_conflict frontend_vacancy frontend_wish 0" unfolding hard_conflict_def defs
    by (simp add: frontend_wish_def official_def frontend_vacancy_def)
  show "open_points frontend_vacancy frontend_wish 0 = []" unfolding open_points_def defs
    by (simp add: frontend_wish_def official_def frontend_vacancy_def specialization_defs specializationProven_def)
qed

theorem Match_exact_witness:
  "re_Decision (Match frontend_vacancy frontend_wish 0) = DecisionMatch \<and> re_Reasons (Match frontend_vacancy frontend_wish 0) \<noteq> []"
  using Match_exact [of frontend_vacancy frontend_wish 0] frontend_clear by simp

text \<open>
  The score the worker stores is always in the range the database accepts, 0 to 1, for every
  preference record and every vacancy; and the weights of the record have no part in it: two records
  that differ in their weights only give the same result.
\<close>

theorem stored_score:
  "0 \<le> re_Score (Match v (toPreferences rec) now) \<and> re_Score (Match v (toPreferences rec) now) \<le> 1
   \<and> Match v (toPreferences (rec\<lparr>pc_Weights := ws\<rparr>)) now = Match v (toPreferences rec) now"
proof -
  have "weights_nonneg (pf_Weights (toPreferences rec))" by (simp add: toPreferences_def weights_nonneg_def)
  from Match_score_range [OF this] show ?thesis by (simp add: toPreferences_def)
qed

text \<open>
  Excluding a skill by a spelling that the skill normalisation rewrites to React has no effect at
  all: the result is the same as without it. React.js and ReactJS are such spellings, so a vacancy
  with the skill React.js is not rejected for a user who excluded React.js.
\<close>

theorem excluded_spelling_ignored:
  "Match v p now = Match v (p\<lparr>pf_ExcludedSkills := filter (\<lambda>e. \<not> rewritten_spelling e) (pf_ExcludedSkills p)\<rparr>) now
   \<and> rewritten_spelling ''React.js'' \<and> rewritten_spelling ''ReactJS'' \<and> normalizeSkill ''React.js'' = ''react''"
proof -
  let ?q = "p\<lparr>pf_ExcludedSkills := filter (\<lambda>e. \<not> rewritten_spelling e) (pf_ExcludedSkills p)\<rparr>"
  have same: "leadership_gate c p = leadership_gate c ?q" "specialization_gate c p = specialization_gate c ?q"
    "applyCatalogRoleGate v' p c = applyCatalogRoleGate v' ?q c" "salary_gate v' p = salary_gate v' ?q"
    "region_gate v' p = region_gate v' ?q" "remote_gate v' p = remote_gate v' ?q" "age_gate v' p now = age_gate v' ?q now"
    for c v'
    by (rule ext, simp add: leadership_gate_def specialization_gate_def applyCatalogRoleGate_def salary_gate_def
        region_gate_def remote_gate_def age_gate_def cong: if_cong option.case_cong)+
  have gates: "gates v' p now = gates v' ?q now" for v'
    unfolding gates_def Let_def
    by (simp only: excluded_gate_rewritten [of v' p, symmetric] same [symmetric]) simp
  have "match_score v' p r = match_score v' ?q r" for v' r
    by (simp add: match_score_def normalizedWeights_def Let_def)
  then have "verdict v' p r = verdict v' ?q r" for v' r by (simp add: verdict_def)
  with gates have 1: "Match v p now = Match v ?q now" by (simp add: Match_def Let_def cong: sum.case_cong)
  have l: "ToLower (TrimSpace ''React.js'') = ''react.js''" "ToLower (TrimSpace ''react.js'') = ''react.js''"
    "ToLower (TrimSpace ''ReactJS'') = ''reactjs''" "ToLower (TrimSpace ''reactjs'') = ''reactjs''"
    by (simp_all add: bytes_simps)
  then have i: "impliesReactWeb ''react.js''" "impliesReactWeb ''reactjs''" by (simp_all add: impliesReactWeb_def)
  have "ReplaceAll ''react.js'' (encode_rune 1105) (encode_rune 1077) = ''react.js''" by (simp add: bytes_simps)
  with i l have "normalizeSkill ''React.js'' = ''react''" by (simp add: normalizeSkill_def)
  with 1 i l show ?thesis by (simp add: rewritten_spelling_def)
qed



text \<open>
  One rationale opens every gate: an answer that says match and gives the rationale
  \<^verbatim>\<open>id_list_match\<close> becomes a match although it proves none of the open points. The
  rationale of a single or historical answer is free text of the model, and the validation of
  answers accepts this one.
\<close>

theorem id_list_sentinel:
  assumes "re_Decision det = DecisionReview" "mo_Decision ai = DecisionMatch" "mo_Rationale ai = ''id_list_match''"
    and "list_all (\<lambda>u. map_of (mo_CriterionEvidence ai) (unknown_key u) = None) (re_Unknowns det)"
  shows "mo_Decision (ApplyHardGatePrecedence order det ai) = DecisionMatch
    \<and> validateOutput (no_output\<lparr>mo_Decision := ''match'', mo_Confidence := ''high'', mo_Rationale := ''id_list_match'',
        mo_CriterionEvidence := [(''role'', \<lparr>cp_Pass = True, cp_Source = ''title''\<rparr>)]\<rparr>) allowed = None"
proof
  let ?ai = "enrichIDListMatchEvidence det ai"
  have "TrimSpace ''description'' = ''description''" by (simp add: bytes_simps)
  moreover have "map_of (mo_CriterionEvidence ?ai) (unknown_key u) = Some \<lparr>cp_Pass = True, cp_Source = ''description''\<rparr>"
    if "u \<in> set (re_Unknowns det)" for u
    using assms(4) that enrich_adds_proof [OF that] by (simp add: enrichIDListMatchEvidence_def list_all_iff)
  ultimately have "list_all (proof_holds ?ai) (re_Unknowns det)" by (simp add: list_all_iff proof_holds_def)
  then have "list_all (proof_holds (cite_criteria xs ?ai)) (re_Unknowns det)" for xs
    by (simp add: list_all_iff proof_holds_cong [OF cite_criteria_fields(2)])
  with assms(1,2,3) show "mo_Decision (ApplyHardGatePrecedence order det ai) = DecisionMatch"
    by (simp add: ApplyHardGatePrecedence_def Let_def demand_all)
  have "TrimSpace ''role'' = ''role''" "runes ''id_list_match'' \<noteq> []" "length (runes ''id_list_match'') = 13"
    by (simp_all add: bytes_simps)
  then show "validateOutput (no_output\<lparr>mo_Decision := ''match'', mo_Confidence := ''high'', mo_Rationale := ''id_list_match'',
        mo_CriterionEvidence := [(''role'', \<lparr>cp_Pass = True, cp_Source = ''title''\<rparr>)]\<rparr>) allowed = None"
    by (simp add: validateOutput_def no_output_def)
qed

theorem id_list_sentinel_witness:
  "mo_Decision (ApplyHardGatePrecedence id (start_result\<lparr>re_Decision := DecisionReview, re_Unknowns := [''salary'']\<rparr>)
     (no_output\<lparr>mo_Decision := DecisionMatch, mo_Rationale := ''id_list_match''\<rparr>)) = DecisionMatch"
  using id_list_sentinel [of "start_result\<lparr>re_Decision := DecisionReview, re_Unknowns := [''salary'']\<rparr>"
      "no_output\<lparr>mo_Decision := DecisionMatch, mo_Rationale := ''id_list_match''\<rparr>" id]
  by (simp add: no_output_def)

end
