(* ===== verification/Assist_AI.thy ===== *)
theory Assist_AI
  imports Assist_Match
begin

text \<open>
  The AI provider, \<^verbatim>\<open>libs/go-common/assistant/deepseek.go\<close> and \<^verbatim>\<open>batch.go\<close>: configuration, the request
  slot, single and batched completion with their retries, the packing of batches, the prompt tokens, the
  decoding of id lists and historical decisions, and the halving of batches that stay unresolved.

  The HTTP service, the clock, the random source, the cancellation of the context and the JSON codec
  are the functions of \<open>DsEnv\<close> over a world \<open>'w\<close>. \<open>Ds\<close> is the provider's own state: the time of the
  next slot, the number of requests in flight and the activities reported to the observer. The
  goroutines of a wave run one after the other in the model; they share that state only, and
  their results are merged in index order in the code as here. Go maps are association lists.
\<close>

section \<open>Data\<close>

definition ProviderErrorRateLimit :: string where "ProviderErrorRateLimit = ''rate_limit''"
definition ProviderErrorAuth :: string where "ProviderErrorAuth = ''auth''"
definition ProviderErrorQuota :: string where "ProviderErrorQuota = ''quota''"
definition ProviderErrorServer :: string where "ProviderErrorServer = ''server''"
definition ProviderErrorNetwork :: string where "ProviderErrorNetwork = ''network''"
definition ProviderErrorTimeout :: string where "ProviderErrorTimeout = ''timeout''"
definition ProviderErrorCanceled :: string where "ProviderErrorCanceled = ''canceled''"
definition ProviderErrorInvalidResponse :: string where "ProviderErrorInvalidResponse = ''invalid_response''"
definition ProviderErrorContextLimit :: string where "ProviderErrorContextLimit = ''context_limit''"
definition ProviderErrorContentFilter :: string where "ProviderErrorContentFilter = ''content_filter''"
definition ProviderErrorInvalidRequest :: string where "ProviderErrorInvalidRequest = ''invalid_request''"

lemmas provider_error_defs = ProviderErrorRateLimit_def ProviderErrorAuth_def ProviderErrorQuota_def
  ProviderErrorServer_def ProviderErrorNetwork_def ProviderErrorTimeout_def ProviderErrorCanceled_def
  ProviderErrorInvalidResponse_def ProviderErrorContextLimit_def ProviderErrorContentFilter_def
  ProviderErrorInvalidRequest_def

text \<open>A typed provider error with its category and status, or the error of the context.\<close>

datatype ds_error = ProviderError string int | ContextError

record ProviderCallStats =
  ps_HTTPAttempts :: int
  ps_Retries :: int
  ps_Batches :: int
  ps_PromptTokens :: int
  ps_CompletionTokens :: int
  ps_CachedTokens :: int
  ps_Latency :: duration
  ps_Category :: string

definition no_call_stats :: ProviderCallStats where
  "no_call_stats = \<lparr>ps_HTTPAttempts = 0, ps_Retries = 0, ps_Batches = 0, ps_PromptTokens = 0, ps_CompletionTokens = 0,
     ps_CachedTokens = 0, ps_Latency = 0, ps_Category = ''''\<rparr>"

record ProviderActivity =
  pv_Phase :: string
  pv_RetryCategory :: string
  pv_RetryUntil :: "time option"
  pv_ActiveBatches :: int
  pv_Concurrency :: int

type_synonym evidence = "(string \<times> bool) list"

definition allows :: "evidence \<Rightarrow> string \<Rightarrow> bool" where
  "allows ev i \<longleftrightarrow> map_of ev i = Some True"

record Request =
  rq_InputSnapshot :: string
  rq_Evidence :: evidence

record DeepSeekConfig =
  dc_APIKey :: string
  dc_BaseURL :: string
  dc_Model :: string
  dc_Timeout :: duration
  dc_MaxTokens :: int
  dc_MaxAttempts :: int
  dc_MinInterval :: duration
  dc_MaxBatchSize :: int
  dc_MaxConcurrency :: int
  dc_InputTokenBudget :: int

record BatchItem =
  bi_ID :: string
  bi_Title :: string
  bi_Skills :: "string list"
  bi_Description :: string
  bi_InputSnapshot :: string
  bi_Evidence :: evidence

record BatchRequest =
  br_SharedPreferences :: string
  br_Items :: "BatchItem list"

record BatchResult =
  bt_Outputs :: "(string \<times> MatchOutput) list"
  bt_Errors :: "(string \<times> string) list"
  bt_Stats :: ProviderCallStats

definition no_ai_batch :: BatchResult where
  "no_ai_batch = \<lparr>bt_Outputs = [], bt_Errors = [], bt_Stats = no_call_stats\<rparr>"

record providerUsage =
  us_PromptTokens :: int
  us_CompletionTokens :: int
  us_CachedTokens :: int

definition no_usage :: providerUsage where
  "no_usage = \<lparr>us_PromptTokens = 0, us_CompletionTokens = 0, us_CachedTokens = 0\<rparr>"

record batchModelResponse =
  bm_Match :: string
  bm_Review :: string
  bm_Decisions :: string

record batchReviewItem =
  bv_ID :: string
  bv_Reason :: string

record batchHistoricalDecision =
  bh_VacancyID :: string
  bh_ID :: string
  bh_Output :: MatchOutput

record compactVacancyRecord =
  cv_ID :: string
  cv_Title :: string
  cv_Skills :: "string list"
  cv_Description :: string

text \<open>What is sent: the two system prompts of the source are the two constructors of \<open>prompt\<close>.\<close>

datatype prompt = SinglePrompt | BatchPrompt

record ChatRequest =
  cr_URL :: string
  cr_Authorization :: string
  cr_Model :: string
  cr_MaxTokens :: int
  cr_System :: prompt
  cr_User :: string

datatype send_failure = DeadlineExceeded | ContextCanceled | OtherFailure

text \<open>The answer: the status, the Retry-After header, and the decoded envelope, read up to a byte limit.\<close>

record Envelope =
  ev_Decoded :: bool
  ev_Choices :: "(string \<times> string) list"
  ev_Usage :: providerUsage

datatype provider_reply = SendFailed send_failure | Reply int string "nat \<Rightarrow> Envelope"

record 'w DsEnv =
  de_now :: "'w \<Rightarrow> time"
  de_ctx_done :: "'w \<Rightarrow> bool"
  de_sleep :: "'w \<Rightarrow> duration \<Rightarrow> 'w \<times> bool"
  de_rand :: "'w \<Rightarrow> int \<Rightarrow> 'w \<times> int"
  de_request_ok :: "ChatRequest \<Rightarrow> bool"
  de_post :: "'w \<Rightarrow> ChatRequest \<Rightarrow> 'w \<times> provider_reply"
  de_http_time :: "string \<Rightarrow> time option"
  de_output_of :: "string \<Rightarrow> MatchOutput option"
  de_batch_of :: "string \<Rightarrow> batchModelResponse option"
  de_ids_of :: "string \<Rightarrow> string list option"
  de_reviews_of :: "string \<Rightarrow> batchReviewItem list option"
  de_decisions_of :: "string \<Rightarrow> batchHistoricalDecision list option"
  de_user_json :: "string \<Rightarrow> compactVacancyRecord list \<Rightarrow> string option"

record 'w Ds =
  dk_w :: 'w
  dk_next :: time
  dk_active :: int
  dk_seen :: "ProviderActivity list"

section \<open>Configuration\<close>

definition defaultAIBatchSize :: int where "defaultAIBatchSize = 50"
definition defaultAIConcurrency :: int where "defaultAIConcurrency = 5"
definition defaultAIInputTokenBudget :: int where "defaultAIInputTokenBudget = 120000"
definition defaultAIOutputPerItem :: int where "defaultAIOutputPerItem = 48"
definition maxAIBatchSize :: int where "maxAIBatchSize = 80"
definition maxAIConcurrency :: int where "maxAIConcurrency = 6"

datatype config_error = NoAPIKey | BadBaseURL

text \<open>\<open>https_url\<close> tells whether \<^verbatim>\<open>url.Parse\<close> accepts the URL with scheme https and a host.\<close>

definition NewDeepSeek :: "(string \<Rightarrow> bool) \<Rightarrow> DeepSeekConfig \<Rightarrow> config_error + DeepSeekConfig" where
  "NewDeepSeek https_url cfg =
     (if TrimSpace (dc_APIKey cfg) = '''' then Inl NoAPIKey
      else let cfg = (if dc_BaseURL cfg = '''' then cfg\<lparr>dc_BaseURL := ''https://api.deepseek.com''\<rparr> else cfg) in
        if \<not> https_url (dc_BaseURL cfg) then Inl BadBaseURL
        else Inr (cfg\<lparr>
          dc_Model := if dc_Model cfg = '''' then ''deepseek-v4-flash'' else dc_Model cfg,
          dc_Timeout := if dc_Timeout cfg \<le> 0 then 20 * Second else dc_Timeout cfg,
          dc_MaxTokens := if dc_MaxTokens cfg \<le> 0 \<or> dc_MaxTokens cfg > 40000 then 4096 else dc_MaxTokens cfg,
          dc_MaxAttempts := if dc_MaxAttempts cfg < 1 \<or> dc_MaxAttempts cfg > 5 then 3 else dc_MaxAttempts cfg,
          dc_MinInterval := if dc_MinInterval cfg < 0 then 0 else dc_MinInterval cfg,
          dc_MaxBatchSize := if dc_MaxBatchSize cfg < 1 \<or> dc_MaxBatchSize cfg > maxAIBatchSize then defaultAIBatchSize
                             else dc_MaxBatchSize cfg,
          dc_MaxConcurrency := if dc_MaxConcurrency cfg < 1 \<or> dc_MaxConcurrency cfg > maxAIConcurrency
                               then defaultAIConcurrency else dc_MaxConcurrency cfg,
          dc_InputTokenBudget := if dc_InputTokenBudget cfg < 4000 then defaultAIInputTokenBudget
                                 else dc_InputTokenBudget cfg\<rparr>))"

section \<open>Errors and delays\<close>

definition categoryForStatus :: "int \<Rightarrow> string" where
  "categoryForStatus status =
     (if status = 429 then ProviderErrorRateLimit
      else if status = 401 \<or> status = 403 then ProviderErrorAuth
      else if status = 402 then ProviderErrorQuota
      else if status \<ge> 500 then ProviderErrorServer
      else if status = 400 \<or> status = 422 \<or> status \<ge> 400 then ProviderErrorInvalidRequest
      else ProviderErrorInvalidResponse)"

definition providerErrorCategory :: "ds_error \<Rightarrow> string" where
  "providerErrorCategory e = (case e of ProviderError c _ \<Rightarrow> c | ContextError \<Rightarrow> ProviderErrorInvalidResponse)"

definition retryableProviderCategory :: "string \<Rightarrow> int \<Rightarrow> bool" where
  "retryableProviderCategory category attempt =
     (if List.member [ProviderErrorRateLimit, ProviderErrorServer, ProviderErrorNetwork, ProviderErrorTimeout] category then True
      else if category = ProviderErrorInvalidResponse then attempt = 1
      else False)"

definition ai_retryAfter :: "'w DsEnv \<Rightarrow> 'w \<Rightarrow> string \<Rightarrow> duration" where
  "ai_retryAfter env w raw =
     (let v = TrimSpace raw in
      case Atoi v of
        Some seconds \<Rightarrow> if seconds \<ge> 0 then wrap64 (seconds * Second)
          else (case de_http_time env v of None \<Rightarrow> 0 | Some when \<Rightarrow> max 0 (Sub when (de_now env w)))
      | None \<Rightarrow> (case de_http_time env v of None \<Rightarrow> 0 | Some when \<Rightarrow> max 0 (Sub when (de_now env w))))"

definition backoff_base :: "int \<Rightarrow> duration" where
  "backoff_base attempt = 2 ^ nat (min (attempt - 1) 4) * Second"

definition backoffWithJitter :: "'w DsEnv \<Rightarrow> int \<Rightarrow> 'w \<Rightarrow> 'w \<times> duration" where
  "backoffWithJitter env attempt w =
     (case de_rand env w (quot (backoff_base attempt) 2 + 1) of (w, jitter) \<Rightarrow> (w, backoff_base attempt + jitter))"

definition boundedRetryDelay :: "duration \<Rightarrow> duration \<Rightarrow> duration" where
  "boundedRetryDelay delay requestTimeout =
     (let limit = (if requestTimeout > 0 \<and> requestTimeout < 30 * Second then requestTimeout else 30 * Second) in
      if delay > limit then limit else delay)"

text \<open>\<open>True\<close> when the sleep ran to its end.\<close>

definition sleepContext :: "'w DsEnv \<Rightarrow> duration \<Rightarrow> 'w \<Rightarrow> 'w \<times> bool" where
  "sleepContext env delay w = (if delay \<le> 0 then (w, \<not> de_ctx_done env w) else de_sleep env w delay)"

definition waitForSlot :: "'w DsEnv \<Rightarrow> DeepSeekConfig \<Rightarrow> 'w Ds \<Rightarrow> 'w Ds \<times> bool" where
  "waitForSlot env cfg d =
     (let now = de_now env (dk_w d);
          wait = max 0 (Sub (dk_next d) now);
          d = d\<lparr>dk_next := now + (wait + dc_MinInterval cfg)\<rparr>
      in case sleepContext env wait (dk_w d) of (w, ok) \<Rightarrow> (d\<lparr>dk_w := w\<rparr>, ok))"

definition notifyActivity :: "ProviderActivity \<Rightarrow> 'w Ds \<Rightarrow> 'w Ds" where
  "notifyActivity a d = d\<lparr>dk_seen := dk_seen d @ [a]\<rparr>"

definition activity :: "DeepSeekConfig \<Rightarrow> string \<Rightarrow> 'w Ds \<Rightarrow> ProviderActivity" where
  "activity cfg phase d = \<lparr>pv_Phase = phase, pv_RetryCategory = '''', pv_RetryUntil = None, pv_ActiveBatches = dk_active d,
     pv_Concurrency = dc_MaxConcurrency cfg\<rparr>"

definition beginProviderRequest :: "DeepSeekConfig \<Rightarrow> 'w Ds \<Rightarrow> 'w Ds" where
  "beginProviderRequest cfg d =
     (let d = d\<lparr>dk_active := dk_active d + 1\<rparr> in notifyActivity (activity cfg ''provider_request'' d) d)"

definition finishActivity :: "DeepSeekConfig \<Rightarrow> 'w Ds \<Rightarrow> 'w Ds" where
  "finishActivity cfg d =
     (let d = d\<lparr>dk_active := dk_active d - 1\<rparr>
      in notifyActivity (activity cfg (if dk_active d > 0 then ''provider_request'' else ''processing'') d) d)"

section \<open>One exchange\<close>

fun IndexByte :: "string \<Rightarrow> char \<Rightarrow> nat option" where
  "IndexByte [] c = None"
| "IndexByte (x # xs) c = (if x = c then Some 0 else map_option Suc (IndexByte xs c))"

fun LastIndexByte :: "string \<Rightarrow> char \<Rightarrow> nat option" where
  "LastIndexByte [] c = None"
| "LastIndexByte (x # xs) c =
     (case LastIndexByte xs c of Some i \<Rightarrow> Some (Suc i) | None \<Rightarrow> if x = c then Some 0 else None)"

definition decodeBoundedJSONObject :: "(string \<Rightarrow> 'a option) \<Rightarrow> string \<Rightarrow> 'a option" where
  "decodeBoundedJSONObject unmarshal raw =
     (let content = TrimSpace raw in
      if length content = 0 \<or> length content > 32 * 1024 then None
      else case unmarshal content of
             Some x \<Rightarrow> Some x
           | None \<Rightarrow>
               (case (IndexByte content (CHR 0x7B), LastIndexByte content (CHR 0x7D)) of
                  (Some i, Some j) \<Rightarrow>
                    if j \<le> i \<or> j - i + 1 > 32 * 1024 then None
                    else unmarshal (take (j + 1 - i) (drop i content))
                | _ \<Rightarrow> None))"

definition TrimRight :: "string \<Rightarrow> char \<Rightarrow> string" where
  "TrimRight s c = rev (dropWhile (\<lambda>x. x = c) (rev s))"

definition chat_request :: "DeepSeekConfig \<Rightarrow> int \<Rightarrow> prompt \<Rightarrow> string \<Rightarrow> ChatRequest" where
  "chat_request cfg maxTokens system user =
     \<lparr>cr_URL = TrimRight (dc_BaseURL cfg) (CHR ''/'') @ ''/chat/completions'', cr_Authorization = ''Bearer '' @ dc_APIKey cfg,
      cr_Model = dc_Model cfg, cr_MaxTokens = maxTokens, cr_System = system, cr_User = user\<rparr>"

definition send_category :: "send_failure \<Rightarrow> string" where
  "send_category f = (case f of DeadlineExceeded \<Rightarrow> ProviderErrorTimeout | ContextCanceled \<Rightarrow> ProviderErrorCanceled
     | OtherFailure \<Rightarrow> ProviderErrorNetwork)"

definition finish_error :: "string \<Rightarrow> string option" where
  "finish_error reason =
     (if reason = ''length'' then Some ProviderErrorContextLimit
      else if reason = ''content_filter'' then Some ProviderErrorContentFilter
      else if reason = ''insufficient_system_resource'' then Some ProviderErrorServer else None)"

definition provider_error :: "string \<Rightarrow> ds_error" where
  "provider_error c = ProviderError c 0"

text \<open>The part the two exchanges share: send, check the status, decode up to the limit, check how the
  model finished. The result is the text of the first choice.\<close>

definition exchange :: "'w DsEnv \<Rightarrow> DeepSeekConfig \<Rightarrow> nat \<Rightarrow> ChatRequest \<Rightarrow> 'w Ds
    \<Rightarrow> 'w Ds \<times> providerUsage \<times> duration \<times> (ds_error + string)" where
  "exchange env cfg limit req d =
     (if \<not> de_request_ok env req then (d, no_usage, 0, Inl (provider_error ProviderErrorInvalidRequest))
      else let d = beginProviderRequest cfg d in
        case de_post env (dk_w d) req of (w, reply) \<Rightarrow>
          let d = finishActivity cfg (d\<lparr>dk_w := w\<rparr>) in
          (case reply of
             SendFailed f \<Rightarrow> (d, no_usage, 0, Inl (provider_error (send_category f)))
           | Reply status retryHeader body \<Rightarrow>
               if status < 200 \<or> status \<ge> 300 then
                 (d, no_usage, ai_retryAfter env w retryHeader, Inl (ProviderError (categoryForStatus status) status))
               else let e = body limit in
                 if \<not> ev_Decoded e \<or> ev_Choices e = [] then (d, ev_Usage e, 0, Inl (provider_error ProviderErrorInvalidResponse))
                 else (case hd (ev_Choices e) of (content, finish_reason) \<Rightarrow>
                   (case finish_error finish_reason of
                      Some c \<Rightarrow> (d, ev_Usage e, 0, Inl (provider_error c))
                    | None \<Rightarrow> (d, ev_Usage e, 0, Inr content)))))"

definition completeOnce :: "'w DsEnv \<Rightarrow> DeepSeekConfig \<Rightarrow> Request \<Rightarrow> 'w Ds \<Rightarrow> 'w Ds \<times> duration \<times> (ds_error + MatchOutput)" where
  "completeOnce env cfg input d =
     (case exchange env cfg (64 * 1024) (chat_request cfg (dc_MaxTokens cfg) SinglePrompt (rq_InputSnapshot input)) d of
        (d, _, retryAfter, Inl e) \<Rightarrow> (d, retryAfter, Inl e)
      | (d, _, _, Inr content) \<Rightarrow>
          (case decodeBoundedJSONObject (de_output_of env) content of
             None \<Rightarrow> (d, 0, Inl (provider_error ProviderErrorInvalidResponse))
           | Some output \<Rightarrow>
               if validateOutput output (allows (rq_Evidence input)) \<noteq> None
               then (d, 0, Inl (provider_error ProviderErrorInvalidResponse))
               else (d, 0, Inr output)))"

section \<open>A single completion with retries\<close>

text \<open>The delay before the next attempt, reported to the observer and slept; \<open>False\<close> when the context ended.\<close>

definition retry_pause :: "'w DsEnv \<Rightarrow> DeepSeekConfig \<Rightarrow> string \<Rightarrow> int \<Rightarrow> duration \<Rightarrow> 'w Ds \<Rightarrow> 'w Ds \<times> bool" where
  "retry_pause env cfg category attempt retryAfter d =
     (case (if retryAfter \<le> 0 then backoffWithJitter env attempt (dk_w d) else (dk_w d, retryAfter)) of (w, delay0) \<Rightarrow>
      let delay = boundedRetryDelay delay0 (dc_Timeout cfg);
          d = notifyActivity \<lparr>pv_Phase = ''backoff'', pv_RetryCategory = category,
                pv_RetryUntil = Some (de_now env w + delay), pv_ActiveBatches = dk_active d,
                pv_Concurrency = dc_MaxConcurrency cfg\<rparr> (d\<lparr>dk_w := w\<rparr>)
      in case sleepContext env delay (dk_w d) of (w, ok) \<Rightarrow> (d\<lparr>dk_w := w\<rparr>, ok))"

fun complete_loop :: "'w DsEnv \<Rightarrow> DeepSeekConfig \<Rightarrow> Request \<Rightarrow> nat \<Rightarrow> int \<Rightarrow> ProviderCallStats \<Rightarrow> ds_error option \<Rightarrow> 'w Ds
    \<Rightarrow> 'w Ds \<times> ProviderCallStats \<times> (ds_error option + MatchOutput)" where
  "complete_loop env cfg input 0 attempt stats lastErr d = (d, stats, Inl lastErr)"
| "complete_loop env cfg input (Suc n) attempt stats lastErr d =
     (case waitForSlot env cfg d of
        (d, False) \<Rightarrow> (d, stats\<lparr>ps_Category := ProviderErrorCanceled\<rparr>, Inl (Some (provider_error ProviderErrorCanceled)))
      | (d, True) \<Rightarrow>
          (case completeOnce env cfg input d of (d, retryAfter, res) \<Rightarrow>
           let stats = stats\<lparr>ps_HTTPAttempts := ps_HTTPAttempts stats + 1\<rparr> in
           (case res of
              Inr output \<Rightarrow> (d, stats\<lparr>ps_Retries := ps_HTTPAttempts stats - 1\<rparr>, Inr output)
            | Inl e \<Rightarrow>
                let category = providerErrorCategory e; stats = stats\<lparr>ps_Category := category\<rparr> in
                if attempt = dc_MaxAttempts cfg \<or> \<not> retryableProviderCategory category attempt then (d, stats, Inl (Some e))
                else let stats = stats\<lparr>ps_Retries := ps_Retries stats + 1\<rparr> in
                  (case retry_pause env cfg category attempt retryAfter d of
                     (d, False) \<Rightarrow> (d, stats\<lparr>ps_Category := ProviderErrorCanceled\<rparr>,
                                    Inl (Some (provider_error ProviderErrorCanceled)))
                   | (d, True) \<Rightarrow> complete_loop env cfg input n (attempt + 1) stats (Some e) d))))"

text \<open>With no attempt at all the code returns an empty answer and a nil error.\<close>

definition CompleteDetailed :: "'w DsEnv \<Rightarrow> DeepSeekConfig \<Rightarrow> Request \<Rightarrow> 'w Ds
    \<Rightarrow> 'w Ds \<times> MatchOutput \<times> ProviderCallStats \<times> ds_error option" where
  "CompleteDetailed env cfg input d =
     (let started = de_now env (dk_w d) in
      case complete_loop env cfg input (nat (dc_MaxAttempts cfg)) 1 no_call_stats None d of (d, stats, res) \<Rightarrow>
        let stats = stats\<lparr>ps_Latency := Sub (de_now env (dk_w d)) started\<rparr>
        in case res of
             Inr output \<Rightarrow> (d, output, stats, None)
           | Inl err \<Rightarrow> (d, no_output, stats, err))"

definition Complete :: "'w DsEnv \<Rightarrow> DeepSeekConfig \<Rightarrow> Request \<Rightarrow> 'w Ds \<Rightarrow> 'w Ds \<times> MatchOutput \<times> ds_error option" where
  "Complete env cfg input d =
     (case CompleteDetailed env cfg input d of (d, output, _, err) \<Rightarrow> (d, output, err))"

section \<open>Compacting and packing\<close>

definition EstimateTokens :: "string \<Rightarrow> int" where
  "EstimateTokens s =
     (let bytesEstimate = (int (length s) + 2) div 3; runeEstimate = (int (length (runes s)) + 1) div 2
      in if bytesEstimate > runeEstimate then bytesEstimate else runeEstimate)"

definition piiRE :: rx where
  "piiRE = RxAlt
    [RxSeq [RxRep 1 (RxUnion [RxWord, RxRunes [46, 43, 45]]), RxLit ''@'', RxRep 1 (RxUnion [RxWord, RxRunes [46, 45]]),
            RxLit ''.'', RxRep 2 (RxRange 97 122)],
     RxSeq [RxOpt (RxLit ''+''), RxOne RxDigit, RxRep 7 (RxUnion [RxDigit, RxSpace, RxRunes [40, 41, 46, 45]]), RxOne RxDigit],
     RxSeq [RxLit ''@'', RxOne (RxRange 97 122), RxRep 2 (RxUnion [RxRange 97 122, RxDigit, RxRunes [95]])]]"

definition redact :: "string \<Rightarrow> string" where
  "redact s = ReplaceAllString piiRE s ''[REDACTED]''"

definition boundRunes :: "string \<Rightarrow> int \<Rightarrow> string" where
  "boundRunes s limit = (if limit < 1 then '''' else bound_runes (nat limit) s)"

definition compactTitleRunes :: int where "compactTitleRunes = 200"
definition compactDescRunes :: int where "compactDescRunes = 1600"
definition compactSkillMax :: nat where "compactSkillMax = 16"
definition compactSkillRunes :: int where "compactSkillRunes = 48"

fun compact_skills :: "string list \<Rightarrow> string list \<Rightarrow> string list" where
  "compact_skills [] out = out"
| "compact_skills (s # ss) out =
     (let skill = boundRunes (redact (TrimSpace s)) compactSkillRunes in
      if skill = '''' \<or> List.member (map ToLower out) (ToLower skill) then compact_skills ss out
      else if length (out @ [skill]) = compactSkillMax then out @ [skill]
      else compact_skills ss (out @ [skill]))"

definition CompactVacancyFields :: "string \<Rightarrow> string list \<Rightarrow> string \<Rightarrow> string \<times> string list \<times> string" where
  "CompactVacancyFields title skills description =
     (boundRunes (redact title) compactTitleRunes, compact_skills skills [], boundRunes (redact description) compactDescRunes)"

definition newline :: string where "newline = [CHR 0x0A]"

definition CompactInputSnapshot :: "string \<Rightarrow> string list \<Rightarrow> string \<Rightarrow> string" where
  "CompactInputSnapshot title0 skills0 description0 =
     (case CompactVacancyFields title0 skills0 description0 of (title, skills, description) \<Rightarrow>
      ''VACANCY_DATA_BEGIN (untrusted vacancy text)'' @ newline @ ''TITLE: '' @ title
      @ (if skills \<noteq> [] then newline @ ''SKILLS: '' @ Join skills '', '' else '''')
      @ newline @ ''DESCRIPTION: '' @ description @ newline @ ''VACANCY_DATA_END'')"

text \<open>The older snapshot with facts and evidence ids; both maps are printed in the order of their keys.\<close>

definition MinimizedInput :: "string \<Rightarrow> string \<Rightarrow> (string \<times> string) list \<Rightarrow> evidence \<Rightarrow> string" where
  "MinimizedInput title description facts evidence =
     ''VACANCY_DATA_BEGIN (untrusted vacancy text)'' @ newline
     @ bound_runes 8000 (redact (''TITLE: '' @ title @ newline @ ''DESCRIPTION: '' @ description))
     @ newline @ ''VACANCY_DATA_END'' @ newline @ ''FACTS:'' @ newline
     @ concat (map (\<lambda>key. key @ ''='' @ redact (case map_of facts key of None \<Rightarrow> '''' | Some x \<Rightarrow> x) @ newline) (sort (map fst facts)))
     @ ''EVIDENCE_IDS:'' @ newline @ concat (map (\<lambda>i. i @ newline) (sort (map fst evidence)))"

definition batchItemTokenCost :: "BatchItem \<Rightarrow> int" where
  "batchItemTokenCost item =
     (let joined = bi_Title item @ Join (bi_Skills item) '' '' @ bi_Description item;
          body = (if TrimSpace joined = '''' then bi_InputSnapshot item else joined)
      in EstimateTokens body + EstimateTokens (bi_ID item) + 32)"

fun pack_loop :: "int \<Rightarrow> int \<Rightarrow> int \<Rightarrow> BatchItem list \<Rightarrow> BatchItem list \<Rightarrow> int \<Rightarrow> BatchItem list list" where
  "pack_loop base maxCount budget [] current used = (if current \<noteq> [] then [current] else [])"
| "pack_loop base maxCount budget (item # items) current used =
     (let cost = batchItemTokenCost item in
      if current \<noteq> [] \<and> (int (length current) \<ge> maxCount \<or> used + cost > budget)
      then current # pack_loop base maxCount budget items [item] (base + cost)
      else pack_loop base maxCount budget items (current @ [item]) (used + cost))"

definition PackBatchItems :: "string \<Rightarrow> BatchItem list \<Rightarrow> int \<Rightarrow> int \<Rightarrow> BatchItem list list" where
  "PackBatchItems shared items maxCount0 tokenBudget0 =
     (let maxCount = (if maxCount0 < 1 then defaultAIBatchSize else maxCount0);
          tokenBudget = (if tokenBudget0 < 1 then defaultAIInputTokenBudget else tokenBudget0);
          base = EstimateTokens shared + 400
      in pack_loop base maxCount tokenBudget items [] base)"

definition compactItemFields :: "BatchItem \<Rightarrow> string \<times> string list \<times> string" where
  "compactItemFields item =
     (case CompactVacancyFields (bi_Title item) (bi_Skills item) (bi_Description item) of (title, skills, description) \<Rightarrow>
      if title = '''' \<and> description = '''' \<and> skills = [] \<and> bi_InputSnapshot item \<noteq> ''''
      then ('''', [], boundRunes (redact (bi_InputSnapshot item)) compactDescRunes)
      else (title, skills, description))"

definition itemPackedText :: "BatchItem \<Rightarrow> string" where
  "itemPackedText item =
     (if TrimSpace (bi_InputSnapshot item) \<noteq> '''' then bi_InputSnapshot item
      else case compactItemFields item of (title, skills, description) \<Rightarrow> CompactInputSnapshot title skills description)"

section \<open>Prompt tokens\<close>

definition hex_byte :: "char \<Rightarrow> bool" where
  "hex_byte c \<longleftrightarrow> (let b = byte_val c in 48 \<le> b \<and> b \<le> 57 \<or> 65 \<le> b \<and> b \<le> 70 \<or> 97 \<le> b \<and> b \<le> 102)"

text \<open>\<^verbatim>\<open>uuidRE\<close>: five groups of hexadecimal digits.\<close>

definition uuidRE :: "string \<Rightarrow> bool" where
  "uuidRE s \<longleftrightarrow> length s = 36 \<and> list_all (\<lambda>i. if List.member [8, 13, 18, 23] i then s ! i = CHR ''-'' else hex_byte (s ! i)) [0 ..< 36]"

definition prompt_number :: "int \<Rightarrow> string" where
  "prompt_number index = ''v'' @ Itoa (index + 1)"

definition compactPromptID :: "int \<Rightarrow> string \<Rightarrow> (string \<times> BatchItem) list \<Rightarrow> string" where
  "compactPromptID index realID used =
     (let token = (if realID \<noteq> '''' \<and> \<not> uuidRE realID \<and> length realID \<le> 64
                     \<and> \<not> ContainsAny realID [CHR '' '', CHR 0x09, CHR 0x0A, CHR 0x22]
                   then realID else prompt_number index)
      in if map_of used token = None then token else prompt_number index)"

fun token_loop :: "int \<Rightarrow> BatchItem list \<Rightarrow> (string \<times> BatchItem) list \<Rightarrow> (string \<times> BatchItem) list \<times> compactVacancyRecord list" where
  "token_loop i [] tokens = (tokens, [])"
| "token_loop i (item # items) tokens =
     (let token = compactPromptID i (bi_ID item) tokens in
      case (compactItemFields item, token_loop (i + 1) items (AList.update token item tokens)) of
        ((title, skills, description), (tokens', records)) \<Rightarrow>
          (tokens', \<lparr>cv_ID = token, cv_Title = title, cv_Skills = skills, cv_Description = description\<rparr> # records))"

definition resolveBatchItem :: "string \<Rightarrow> (string \<times> BatchItem) list \<Rightarrow> BatchItem option" where
  "resolveBatchItem raw0 tokens =
     (let raw = TrimSpace raw0 in
      if raw = '''' then None
      else case map_of tokens raw of
             Some item \<Rightarrow> Some item
           | None \<Rightarrow> List.find (\<lambda>item. bi_ID item = raw) (map snd tokens))"

section \<open>Decoding a batch answer\<close>

definition idListMatchOutput :: MatchOutput where
  "idListMatchOutput = no_output\<lparr>mo_Decision := DecisionMatch, mo_Score := 85 / 100, mo_Confidence := ''high'',
     mo_Rationale := ''id_list_match'', mo_CriterionEvidence := [(''role'', \<lparr>cp_Pass = True, cp_Source = ''title''\<rparr>)]\<rparr>"

definition lower_byte :: "char \<Rightarrow> bool" where
  "lower_byte c \<longleftrightarrow> 97 \<le> byte_val c \<and> byte_val c \<le> 122"

text \<open>\<^verbatim>\<open>^[a-z][a-z0-9_]{0,39}$\<close>\<close>

definition reviewReasonRE :: "string \<Rightarrow> bool" where
  "reviewReasonRE s = (case s of [] \<Rightarrow> False | c # cs \<Rightarrow>
     lower_byte c \<and> length cs \<le> 39
     \<and> list_all (\<lambda>x. lower_byte x \<or> 48 \<le> byte_val x \<and> byte_val x \<le> 57 \<or> x = CHR ''_'') cs)"

definition idListReviewOutput :: "string \<Rightarrow> MatchOutput" where
  "idListReviewOutput reason0 =
     (let lowered = ToLower (TrimSpace reason0);
          reason = (if reviewReasonRE lowered then lowered else ''other'')
      in no_output\<lparr>mo_Decision := DecisionReview, mo_Score := 45 / 100, mo_Confidence := ''medium'',
           mo_Unknowns := [reason], mo_Rationale := reason\<rparr>)"

definition idListRejectOutput :: MatchOutput where
  "idListRejectOutput = no_output\<lparr>mo_Decision := DecisionReject, mo_Score := 0, mo_Confidence := ''high'',
     mo_Conflicts := [''omitted_from_id_list''], mo_Rationale := ''omitted''\<rparr>"

definition empty_raw :: "string \<Rightarrow> bool" where
  "empty_raw raw \<longleftrightarrow> TrimSpace raw = '''' \<or> TrimSpace raw = ''null''"

definition parseStringIDList :: "'w DsEnv \<Rightarrow> string \<Rightarrow> ds_error + string list" where
  "parseStringIDList env raw =
     (if empty_raw raw then Inr []
      else case de_ids_of env (TrimSpace raw) of
             None \<Rightarrow> Inl (provider_error ProviderErrorInvalidResponse)
           | Some ids \<Rightarrow> Inr ids)"

definition parseReviewItems :: "'w DsEnv \<Rightarrow> string \<Rightarrow> ds_error + batchReviewItem list" where
  "parseReviewItems env raw =
     (if empty_raw raw then Inr []
      else case de_reviews_of env (TrimSpace raw) of
             Some objects \<Rightarrow> Inr objects
           | None \<Rightarrow>
               (case de_ids_of env (TrimSpace raw) of
                  None \<Rightarrow> Inl (provider_error ProviderErrorInvalidResponse)
                | Some ids \<Rightarrow> Inr (map (\<lambda>i. \<lparr>bv_ID = i, bv_Reason = ''other''\<rparr>) ids)))"

type_synonym outputs = "(string \<times> MatchOutput) list"

definition put_output :: "(string \<times> BatchItem) list \<Rightarrow> outputs \<Rightarrow> string \<Rightarrow> MatchOutput \<Rightarrow> outputs" where
  "put_output tokens outs raw output =
     (case resolveBatchItem raw tokens of None \<Rightarrow> outs | Some item \<Rightarrow> AList.update (bi_ID item) output outs)"

definition applyIDListDecisions :: "'w DsEnv \<Rightarrow> string \<Rightarrow> string \<Rightarrow> BatchItem list \<Rightarrow> (string \<times> BatchItem) list
    \<Rightarrow> ds_error + outputs \<times> BatchItem list" where
  "applyIDListDecisions env matchRaw reviewRaw items tokens =
     (case parseStringIDList env matchRaw of
        Inl e \<Rightarrow> Inl e
      | Inr matches \<Rightarrow>
          (case parseReviewItems env reviewRaw of
             Inl e \<Rightarrow> Inl e
           | Inr reviews \<Rightarrow>
               let outs = foldl (\<lambda>outs item. AList.update (bi_ID item) idListRejectOutput outs) [] items;
                   outs = foldl (\<lambda>outs rv. put_output tokens outs (bv_ID rv) (idListReviewOutput (bv_Reason rv))) outs reviews;
                   outs = foldl (\<lambda>outs i. put_output tokens outs i idListMatchOutput) outs matches
               in Inr (outs, [])))"

definition firstNonEmpty :: "string list \<Rightarrow> string" where
  "firstNonEmpty vs = (case List.find (\<lambda>v. TrimSpace v \<noteq> '''') vs of None \<Rightarrow> '''' | Some v \<Rightarrow> v)"

fun hist_loop :: "(string \<times> BatchItem) list \<Rightarrow> batchHistoricalDecision list \<Rightarrow> outputs \<Rightarrow> ds_error + outputs" where
  "hist_loop tokens [] outs = Inr outs"
| "hist_loop tokens (dec # decs) outs =
     (case resolveBatchItem (firstNonEmpty [bh_VacancyID dec, bh_ID dec]) tokens of
        None \<Rightarrow> hist_loop tokens decs outs
      | Some item \<Rightarrow>
          if map_of outs (bi_ID item) \<noteq> None then hist_loop tokens decs outs
          else if validateOutput (bh_Output dec) (allows (bi_Evidence item)) \<noteq> None
          then Inl (provider_error ProviderErrorInvalidResponse)
          else hist_loop tokens decs (AList.update (bi_ID item) (bh_Output dec) outs))"

definition applyHistoricalDecisions :: "batchHistoricalDecision list \<Rightarrow> BatchItem list \<Rightarrow> (string \<times> BatchItem) list
    \<Rightarrow> ds_error + outputs \<times> BatchItem list" where
  "applyHistoricalDecisions decisions items tokens =
     (case hist_loop tokens decisions [] of
        Inl e \<Rightarrow> Inl e
      | Inr outs \<Rightarrow> Inr (outs, filter (\<lambda>item. map_of outs (bi_ID item) = None) items))"

definition parseHistoricalDecisions :: "'w DsEnv \<Rightarrow> string \<Rightarrow> ds_error + batchHistoricalDecision list \<times> bool" where
  "parseHistoricalDecisions env raw =
     (if empty_raw raw then Inr ([], False)
      else case de_decisions_of env raw of
             None \<Rightarrow> Inl (provider_error ProviderErrorInvalidResponse)
           | Some decisions \<Rightarrow> Inr (decisions, decisions \<noteq> []))"

definition parseBatchModelOutput :: "'w DsEnv \<Rightarrow> string \<Rightarrow> BatchItem list \<Rightarrow> (string \<times> BatchItem) list
    \<Rightarrow> ds_error + outputs \<times> BatchItem list" where
  "parseBatchModelOutput env content items tokens =
     (case decodeBoundedJSONObject (de_batch_of env) content of
        None \<Rightarrow> Inl (provider_error ProviderErrorInvalidResponse)
      | Some decoded \<Rightarrow>
          (let hasIDList = (TrimSpace (bm_Match decoded) \<noteq> '''' \<or> TrimSpace (bm_Review decoded) \<noteq> '''') in
           case parseHistoricalDecisions env (bm_Decisions decoded) of
             Inl e \<Rightarrow> Inl e
           | Inr (decisions, hasHistorical) \<Rightarrow>
               if hasHistorical \<and> \<not> hasIDList then applyHistoricalDecisions decisions items tokens
               else if \<not> hasIDList then Inl (provider_error ProviderErrorInvalidResponse)
               else applyIDListDecisions env (bm_Match decoded) (bm_Review decoded) items tokens))"

section \<open>A batch\<close>

definition batch_tokens :: "DeepSeekConfig \<Rightarrow> BatchItem list \<Rightarrow> int" where
  "batch_tokens cfg items = max 256 (min (defaultAIOutputPerItem * int (length items) + 64) (dc_MaxTokens cfg))"

definition completeBatchOnce :: "'w DsEnv \<Rightarrow> DeepSeekConfig \<Rightarrow> string \<Rightarrow> BatchItem list \<Rightarrow> 'w Ds
    \<Rightarrow> 'w Ds \<times> providerUsage \<times> duration \<times> (ds_error + outputs \<times> BatchItem list)" where
  "completeBatchOnce env cfg shared items d =
     (case token_loop 0 items [] of (tokens, records) \<Rightarrow>
      case de_user_json env shared records of
        None \<Rightarrow> (d, no_usage, 0, Inl (provider_error ProviderErrorInvalidRequest))
      | Some userJSON \<Rightarrow>
          (case exchange env cfg (256 * 1024) (chat_request cfg (batch_tokens cfg items) BatchPrompt userJSON) d of
             (d, usage, retryAfter, Inl e) \<Rightarrow> (d, usage, retryAfter, Inl e)
           | (d, usage, _, Inr content) \<Rightarrow> (d, usage, 0, parseBatchModelOutput env content items tokens)))"

definition add_usage :: "providerUsage \<Rightarrow> ProviderCallStats \<Rightarrow> ProviderCallStats" where
  "add_usage u st = st\<lparr>ps_PromptTokens := ps_PromptTokens st + us_PromptTokens u,
     ps_CompletionTokens := ps_CompletionTokens st + us_CompletionTokens u,
     ps_CachedTokens := ps_CachedTokens st + us_CachedTokens u\<rparr>"

fun batch_retry_loop :: "'w DsEnv \<Rightarrow> DeepSeekConfig \<Rightarrow> string \<Rightarrow> BatchItem list \<Rightarrow> nat \<Rightarrow> int \<Rightarrow> ProviderCallStats
    \<Rightarrow> ds_error option \<Rightarrow> 'w Ds \<Rightarrow> 'w Ds \<times> outputs \<times> BatchItem list \<times> ProviderCallStats \<times> ds_error option" where
  "batch_retry_loop env cfg shared items 0 attempt stats lastErr d = (d, [], items, stats, lastErr)"
| "batch_retry_loop env cfg shared items (Suc n) attempt stats lastErr d =
     (case waitForSlot env cfg d of
        (d, False) \<Rightarrow> (d, [], items, stats\<lparr>ps_Category := ProviderErrorCanceled\<rparr>, Some ContextError)
      | (d, True) \<Rightarrow>
          (case completeBatchOnce env cfg shared items d of (d, usage, retryAfter, res) \<Rightarrow>
           let stats = add_usage usage (stats\<lparr>ps_HTTPAttempts := ps_HTTPAttempts stats + 1\<rparr>) in
           (case res of
              Inr (outs, unresolved) \<Rightarrow> (d, outs, unresolved, stats\<lparr>ps_Retries := ps_HTTPAttempts stats - 1\<rparr>, None)
            | Inl e \<Rightarrow>
                let category = providerErrorCategory e; stats = stats\<lparr>ps_Category := category\<rparr> in
                if attempt = dc_MaxAttempts cfg \<or> \<not> retryableProviderCategory category attempt
                then (d, [], items, stats, Some e)
                else let stats = stats\<lparr>ps_Retries := ps_Retries stats + 1\<rparr> in
                  (case retry_pause env cfg category attempt retryAfter d of
                     (d, False) \<Rightarrow> (d, [], items, stats, Some ContextError)
                   | (d, True) \<Rightarrow> batch_retry_loop env cfg shared items n (attempt + 1) stats (Some e) d))))"

definition completeBatchWithRetries :: "'w DsEnv \<Rightarrow> DeepSeekConfig \<Rightarrow> string \<Rightarrow> BatchItem list \<Rightarrow> 'w Ds
    \<Rightarrow> 'w Ds \<times> outputs \<times> BatchItem list \<times> ProviderCallStats \<times> ds_error option" where
  "completeBatchWithRetries env cfg shared items d =
     (let started = de_now env (dk_w d) in
      case batch_retry_loop env cfg shared items (nat (dc_MaxAttempts cfg)) 1 no_call_stats None d of
        (d, outs, unresolved, stats, err) \<Rightarrow>
          (d, outs, unresolved, stats\<lparr>ps_Latency := Sub (de_now env (dk_w d)) started\<rparr>, err))"

definition mergeProviderStats :: "ProviderCallStats \<Rightarrow> ProviderCallStats \<Rightarrow> ProviderCallStats" where
  "mergeProviderStats dst src = \<lparr>ps_HTTPAttempts = ps_HTTPAttempts dst + ps_HTTPAttempts src,
     ps_Retries = ps_Retries dst + ps_Retries src, ps_Batches = ps_Batches dst + ps_Batches src,
     ps_PromptTokens = ps_PromptTokens dst + ps_PromptTokens src,
     ps_CompletionTokens = ps_CompletionTokens dst + ps_CompletionTokens src,
     ps_CachedTokens = ps_CachedTokens dst + ps_CachedTokens src, ps_Latency = ps_Latency dst + ps_Latency src,
     ps_Category = if ps_Category src \<noteq> '''' then ps_Category src else ps_Category dst\<rparr>"

text \<open>What was spent on a call: its statistics and one more batch.\<close>

definition count_batch :: "ProviderCallStats \<Rightarrow> BatchResult \<Rightarrow> BatchResult" where
  "count_batch stats r = (let st = mergeProviderStats (bt_Stats r) stats in r\<lparr>bt_Stats := st\<lparr>ps_Batches := ps_Batches st + 1\<rparr>\<rparr>)"

definition put_all :: "('a \<times> 'b) list \<Rightarrow> ('a \<times> 'b) list \<Rightarrow> ('a \<times> 'b) list" where
  "put_all xs m = foldl (\<lambda>m (k, v). AList.update k v m) m xs"

definition complete_single :: "'w DsEnv \<Rightarrow> DeepSeekConfig \<Rightarrow> string \<Rightarrow> BatchItem \<Rightarrow> 'w Ds \<Rightarrow> BatchResult
    \<Rightarrow> 'w Ds \<times> BatchResult \<times> ds_error option" where
  "complete_single env cfg shared item d r =
     (case CompleteDetailed env cfg \<lparr>rq_InputSnapshot = shared @ newline @ itemPackedText item, rq_Evidence = bi_Evidence item\<rparr> d of
        (d, output, stats, err) \<Rightarrow>
          let r = count_batch stats r in
          (case err of
             Some e \<Rightarrow> if de_ctx_done env (dk_w d) then (d, r, Some ContextError)
               else (d, r\<lparr>bt_Errors := AList.update (bi_ID item) (providerErrorCategory e) (bt_Errors r)\<rparr>, None)
           | None \<Rightarrow> (d, r\<lparr>bt_Outputs := AList.update (bi_ID item) output (bt_Outputs r)\<rparr>, None)))"

section \<open>Halving what stays unresolved\<close>

lemma applyHistoricalDecisions_length:
  "applyHistoricalDecisions decs items tokens = Inr (outs, unresolved) \<Longrightarrow> length unresolved \<le> length items"
  by (auto simp: applyHistoricalDecisions_def split: sum.splits)

lemma parseBatchModelOutput_length:
  "parseBatchModelOutput env content items tokens = Inr (outs, unresolved) \<Longrightarrow> length unresolved \<le> length items"
  by (auto simp: parseBatchModelOutput_def applyIDListDecisions_def Let_def dest: applyHistoricalDecisions_length
      split: option.splits sum.splits if_splits)

lemma completeBatchOnce_length:
  "completeBatchOnce env cfg shared items d = (d', usage, ra, Inr (outs, unresolved)) \<Longrightarrow> length unresolved \<le> length items"
  by (auto simp: completeBatchOnce_def dest: parseBatchModelOutput_length split: prod.splits option.splits sum.splits)

lemma batch_retry_loop_length:
  "batch_retry_loop env cfg shared items n attempt stats lastErr d = (d', outs, unresolved, stats', err) \<Longrightarrow>
     length unresolved \<le> length items"
proof (induction n arbitrary: attempt stats lastErr d)
  case (Suc n)
  then show ?case
    by (auto simp: Let_def dest: completeBatchOnce_length split: prod.splits bool.splits sum.splits if_splits)
qed simp

lemma completeBatchWithRetries_length:
  "completeBatchWithRetries env cfg shared items d = (d', outs, unresolved, stats, err) \<Longrightarrow> length unresolved \<le> length items"
  by (auto simp: completeBatchWithRetries_def Let_def dest: batch_retry_loop_length split: prod.splits)

function completeBatchRecursive :: "'w DsEnv \<Rightarrow> DeepSeekConfig \<Rightarrow> string \<Rightarrow> BatchItem list \<Rightarrow> 'w Ds \<Rightarrow> BatchResult
    \<Rightarrow> 'w Ds \<times> BatchResult \<times> ds_error option" where
  "completeBatchRecursive env cfg shared [] d r = (d, r, None)"
| "completeBatchRecursive env cfg shared [item] d r = complete_single env cfg shared item d r"
| "completeBatchRecursive env cfg shared (i1 # i2 # rest) d r =
     (case completeBatchWithRetries env cfg shared (i1 # i2 # rest) d of (d1, outs, unresolved0, stats, err) \<Rightarrow>
      let r0 = count_batch stats r; r1 = r0\<lparr>bt_Outputs := put_all outs (bt_Outputs r0)\<rparr> in
      if err = None \<and> unresolved0 = [] then (d1, r1, None)
      else if de_ctx_done env (dk_w d1) then (d1, r1, Some ContextError)
      else let unresolved = (if unresolved0 = [] then i1 # i2 # rest else unresolved0);
               mid = (length unresolved + 1) div 2
           in case completeBatchRecursive env cfg shared (take mid unresolved) d1 r1 of (d2, r2, e2) \<Rightarrow>
                (case e2 of
                   Some e \<Rightarrow> (d2, r2, Some e)
                 | None \<Rightarrow> completeBatchRecursive env cfg shared (drop mid unresolved) d2 r2))"
  by pat_completeness auto
termination
  by (relation "measure (\<lambda>(env, cfg, shared, items, d, r). length items)")
    (force dest: completeBatchWithRetries_length [OF sym])+

section \<open>Waves\<close>

fun run_wave :: "'w DsEnv \<Rightarrow> DeepSeekConfig \<Rightarrow> string \<Rightarrow> BatchItem list list \<Rightarrow> 'w Ds
    \<Rightarrow> 'w Ds \<times> (BatchResult \<times> ds_error option) list" where
  "run_wave env cfg shared [] d = (d, [])"
| "run_wave env cfg shared (b # bs) d =
     (case completeBatchRecursive env cfg shared b d no_ai_batch of (d, r, err) \<Rightarrow>
      case run_wave env cfg shared bs d of (d, rs) \<Rightarrow> (d, (r, err) # rs))"

definition adverse_category :: "string \<Rightarrow> bool" where
  "adverse_category c = List.member [ProviderErrorRateLimit, ProviderErrorTimeout, ProviderErrorContextLimit,
     ProviderErrorInvalidResponse] c"

definition merge_batch :: "BatchResult \<Rightarrow> BatchResult \<Rightarrow> BatchResult" where
  "merge_batch result r = result\<lparr>bt_Outputs := put_all (bt_Outputs r) (bt_Outputs result),
     bt_Errors := put_all (bt_Errors r) (bt_Errors result), bt_Stats := mergeProviderStats (bt_Stats result) (bt_Stats r)\<rparr>"

fun merge_wave :: "(BatchResult \<times> ds_error option) list \<Rightarrow> BatchResult \<Rightarrow> bool \<Rightarrow> BatchResult \<times> bool \<times> ds_error option" where
  "merge_wave [] result adverse = (result, adverse, None)"
| "merge_wave ((r, Some e) # ws) result adverse = (result, adverse, Some e)"
| "merge_wave ((r, None) # ws) result adverse =
     merge_wave ws (merge_batch result r) (adverse \<or> adverse_category (ps_Category (bt_Stats r)))"

definition next_concurrency :: "DeepSeekConfig \<Rightarrow> bool \<Rightarrow> int \<Rightarrow> int \<Rightarrow> int \<times> int" where
  "next_concurrency cfg adverse concurrency successfulWaves =
     (if adverse then (max 1 (quot concurrency 2), 0)
      else if successfulWaves + 1 \<ge> 3 \<and> concurrency < dc_MaxConcurrency cfg then (concurrency + 1, 0)
      else (concurrency, successfulWaves + 1))"

partial_function (option) batch_waves :: "'w DsEnv \<Rightarrow> DeepSeekConfig \<Rightarrow> string \<Rightarrow> BatchItem list list \<Rightarrow> int \<Rightarrow> int
    \<Rightarrow> BatchResult \<Rightarrow> 'w Ds \<Rightarrow> ('w Ds \<times> BatchResult \<times> ds_error option) option" where
  "batch_waves env cfg shared packed concurrency successfulWaves result d =
     (if packed = [] then Some (d, result, None)
      else if de_ctx_done env (dk_w d) then Some (d, result, Some ContextError)
      else
        let waveSize = nat (min concurrency (int (length packed))) in
        case run_wave env cfg shared (take waveSize packed) d of (d, wave) \<Rightarrow>
        case merge_wave wave result False of (result, adverse, err) \<Rightarrow>
        (case err of
           Some e \<Rightarrow> Some (d, result, Some e)
         | None \<Rightarrow>
             (case next_concurrency cfg adverse concurrency successfulWaves of (concurrency, successfulWaves) \<Rightarrow>
              batch_waves env cfg shared (drop waveSize packed) concurrency successfulWaves result d)))"

definition CompleteBatchDetailed :: "'w DsEnv \<Rightarrow> DeepSeekConfig \<Rightarrow> BatchRequest \<Rightarrow> 'w Ds
    \<Rightarrow> ('w Ds \<times> BatchResult \<times> ds_error option) option" where
  "CompleteBatchDetailed env cfg request d =
     batch_waves env cfg (br_SharedPreferences request)
       (PackBatchItems (br_SharedPreferences request) (br_Items request) (dc_MaxBatchSize cfg) (dc_InputTokenBudget cfg))
       (dc_MaxConcurrency cfg) 0 no_ai_batch d"

definition sortedBatchIDs :: "outputs \<Rightarrow> string list" where
  "sortedBatchIDs outs = sort (map fst outs)"

section \<open>Lemmas\<close>

lemma mem_update: "(k', v') \<in> set (AList.update k v m) \<Longrightarrow> v' = v \<and> k' = k \<or> (k', v') \<in> set m"
  by (induction m) (auto split: if_splits)

lemma put_all_keys: "fst ` set (put_all xs m) = fst ` set xs \<union> fst ` set m"
  unfolding put_all_def by (induction xs arbitrary: m) (simp_all add: dom_update case_prod_beta)

lemma put_all_mem: "(k, v) \<in> set (put_all xs m) \<Longrightarrow> (k, v) \<in> set xs \<or> (k, v) \<in> set m"
  unfolding put_all_def by (induction xs arbitrary: m) (auto dest: mem_update)

text \<open>An answer that may be stored: one of the three decisions, a score in range, a known confidence.\<close>

definition sound_output :: "MatchOutput \<Rightarrow> bool" where
  "sound_output x \<longleftrightarrow> List.member [''match'', ''reject'', ''review''] (mo_Decision x) \<and> 0 \<le> mo_Score x \<and> mo_Score x \<le> 1
     \<and> List.member [''low'', ''medium'', ''high''] (mo_Confidence x)"

definition sound_outputs :: "outputs \<Rightarrow> bool" where
  "sound_outputs outs = list_all (\<lambda>(k, x). sound_output x) outs"

lemma validated_sound: "validateOutput x allowed = None \<Longrightarrow> sound_output x"
  by (auto simp: validateOutput_def sound_output_def split: if_splits)

lemma id_list_sound: "sound_output idListMatchOutput" "sound_output idListRejectOutput" "sound_output (idListReviewOutput reason)"
  by (simp_all add: sound_output_def idListMatchOutput_def idListRejectOutput_def idListReviewOutput_def Let_def
      DecisionMatch_def DecisionReject_def DecisionReview_def)

lemma sound_update: "sound_outputs m \<Longrightarrow> sound_output x \<Longrightarrow> sound_outputs (AList.update k x m)"
  by (auto simp: sound_outputs_def list_all_iff dest!: mem_update)

lemma sound_put_all: "sound_outputs xs \<Longrightarrow> sound_outputs m \<Longrightarrow> sound_outputs (put_all xs m)"
  by (auto simp: sound_outputs_def list_all_iff dest!: put_all_mem)

lemma resolveBatchItem_in:
  assumes "resolveBatchItem raw tokens = Some item"
  shows "item \<in> snd ` set tokens"
proof (cases "map_of tokens (TrimSpace raw)")
  case (Some x)
  then have "snd (TrimSpace raw, x) \<in> snd ` set tokens" by (intro imageI map_of_SomeD)
  with Some assms show ?thesis by (simp add: resolveBatchItem_def Let_def split: if_splits)
next
  case None
  with assms have "List.find (\<lambda>item. bi_ID item = TrimSpace raw) (map snd tokens) = Some item"
    by (simp add: resolveBatchItem_def Let_def split: if_splits)
  then show ?thesis by (metis find_Some_iff list.set_map nth_mem)
qed

lemma token_loop_items: "token_loop i items tokens = (tokens', records) \<Longrightarrow> snd ` set tokens' \<subseteq> set items \<union> snd ` set tokens"
proof (induction i items tokens arbitrary: tokens' records rule: token_loop.induct)
  case (2 i item items tokens)
  let ?t = "AList.update (compactPromptID i (bi_ID item) tokens) item tokens"
  obtain t r where rec: "token_loop (i + 1) items ?t = (t, r)" by fastforce
  with "2.prems" have t: "tokens' = t" by (auto simp: Let_def split: prod.splits)
  have "snd ` set ?t \<subseteq> {item} \<union> snd ` set tokens" using mem_update by fastforce
  then have "set items \<union> snd ` set ?t \<subseteq> set items \<union> ({item} \<union> snd ` set tokens)" by (rule Un_mono [OF order_refl])
  with "2.IH" [OF refl rec] have "snd ` set t \<subseteq> set items \<union> ({item} \<union> snd ` set tokens)" by (rule subset_trans)
  with t show ?case by simp
qed simp

definition ids_of :: "BatchItem list \<Rightarrow> string set" where
  "ids_of items = bi_ID ` set items"

lemma put_output_facts:
  assumes "snd ` set tokens \<subseteq> set items" "fst ` set outs \<subseteq> ids_of items" "sound_outputs outs" "sound_output x"
  shows "fst ` set (put_output tokens outs raw x) \<subseteq> ids_of items" "sound_outputs (put_output tokens outs raw x)"
    "fst ` set outs \<subseteq> fst ` set (put_output tokens outs raw x)"
  using assms by (auto simp: put_output_def ids_of_def dom_update intro: sound_update dest!: resolveBatchItem_in split: option.splits)

lemma put_fold_facts:
  assumes "snd ` set tokens \<subseteq> set items" "\<And>x. sound_output (g x)"
  shows "fst ` set outs \<subseteq> ids_of items \<Longrightarrow> sound_outputs outs \<Longrightarrow>
    fst ` set (foldl (\<lambda>outs x. put_output tokens outs (f x) (g x)) outs xs) \<subseteq> ids_of items
    \<and> sound_outputs (foldl (\<lambda>outs x. put_output tokens outs (f x) (g x)) outs xs)
    \<and> fst ` set outs \<subseteq> fst ` set (foldl (\<lambda>outs x. put_output tokens outs (f x) (g x)) outs xs)"
proof (induction xs arbitrary: outs)
  case (Cons x xs)
  note facts = put_output_facts [OF assms(1) Cons.prems assms(2), of "f x" x]
  show ?case using Cons.IH [OF facts(1,2)] subset_trans [OF facts(3)] by simp
qed simp

text \<open>What a decoded answer means for the items it was asked about.\<close>

definition answers :: "BatchItem list \<Rightarrow> outputs \<Rightarrow> BatchItem list \<Rightarrow> bool" where
  "answers items outs unresolved \<longleftrightarrow> fst ` set outs \<subseteq> ids_of items \<and> sound_outputs outs \<and> set unresolved \<subseteq> set items
     \<and> ids_of items \<subseteq> fst ` set outs \<union> ids_of unresolved"

lemma reject_all_keys:
  "fst ` set (foldl (\<lambda>outs item. AList.update (bi_ID item) idListRejectOutput outs) m items) = ids_of items \<union> fst ` set m"
  "sound_outputs m \<Longrightarrow> sound_outputs (foldl (\<lambda>outs item. AList.update (bi_ID item) idListRejectOutput outs) m items)"
  by (induction items arbitrary: m) (auto simp: ids_of_def dom_update sound_update id_list_sound)

lemma applyIDListDecisions_answers:
  assumes "applyIDListDecisions env m rv items tokens = Inr (outs, unresolved)" "snd ` set tokens \<subseteq> set items"
  shows "answers items outs unresolved \<and> unresolved = []"
proof -
  obtain matches reviews where "parseStringIDList env m = Inr matches" "parseReviewItems env rv = Inr reviews"
    using assms(1) by (auto simp: applyIDListDecisions_def split: sum.splits)
  let ?o1 = "foldl (\<lambda>outs item. AList.update (bi_ID item) idListRejectOutput outs) [] items"
  let ?o2 = "foldl (\<lambda>outs rv. put_output tokens outs (bv_ID rv) (idListReviewOutput (bv_Reason rv))) ?o1 reviews"
  let ?o3 = "foldl (\<lambda>outs i. put_output tokens outs i idListMatchOutput) ?o2 matches"
  have 1: "fst ` set ?o1 \<subseteq> ids_of items" "sound_outputs ?o1" "ids_of items \<subseteq> fst ` set ?o1"
    using reject_all_keys [of "[]" items] by (auto simp: sound_outputs_def)
  note 2 = put_fold_facts [OF assms(2) id_list_sound(3) 1(1,2), where xs = reviews and f = bv_ID]
  note 3 = put_fold_facts [OF assms(2) id_list_sound(1) conjunct1 [OF 2] conjunct1 [OF conjunct2 [OF 2]], where xs = matches and f = "\<lambda>i. i"]
  have "outs = ?o3" "unresolved = []"
    using assms(1) \<open>parseStringIDList env m = _\<close> \<open>parseReviewItems env rv = _\<close> by (simp_all add: applyIDListDecisions_def Let_def)
  moreover have "ids_of items \<subseteq> fst ` set ?o3" using 1(3) 2 3 by (meson subset_trans)
  ultimately show ?thesis using 3 by (simp add: answers_def ids_of_def)
qed

lemma hist_loop_facts:
  assumes "snd ` set tokens \<subseteq> set items"
  shows "hist_loop tokens decs outs = Inr outs' \<Longrightarrow> fst ` set outs \<subseteq> ids_of items \<Longrightarrow> sound_outputs outs \<Longrightarrow>
    fst ` set outs' \<subseteq> ids_of items \<and> sound_outputs outs'"
proof (induction decs arbitrary: outs)
  case (Cons dec decs)
  show ?case
  proof (cases "resolveBatchItem (firstNonEmpty [bh_VacancyID dec, bh_ID dec]) tokens")
    case None
    with Cons show ?thesis by simp
  next
    case (Some item)
    show ?thesis
    proof (cases "map_of outs (bi_ID item)")
      case None
      with Some Cons.prems(1) have v: "validateOutput (bh_Output dec) (allows (bi_Evidence item)) = None"
        and h: "hist_loop tokens decs (AList.update (bi_ID item) (bh_Output dec) outs) = Inr outs'"
        by (auto split: if_splits)
      have "item \<in> set items" using resolveBatchItem_in [OF Some] assms by blast
      then have "fst ` set (AList.update (bi_ID item) (bh_Output dec) outs) \<subseteq> ids_of items"
        using Cons.prems(2) by (simp add: dom_update ids_of_def)
      with Cons.IH [OF h] Cons.prems(3) v show ?thesis by (simp add: sound_update validated_sound)
    next
      case (Some x)
      with \<open>resolveBatchItem _ _ = _\<close> Cons show ?thesis by simp
    qed
  qed
qed simp

lemma parseBatchModelOutput_answers:
  assumes "parseBatchModelOutput env content items tokens = Inr (outs, unresolved)" "snd ` set tokens \<subseteq> set items"
  shows "answers items outs unresolved"
proof -
  consider (hist) decs where "applyHistoricalDecisions decs items tokens = Inr (outs, unresolved)"
    | (ids) m rv where "applyIDListDecisions env m rv items tokens = Inr (outs, unresolved)"
    using assms(1) by (auto simp: parseBatchModelOutput_def Let_def split: option.splits sum.splits if_splits)
  then show ?thesis
  proof cases
    case hist
    then have h: "hist_loop tokens decs [] = Inr outs" "unresolved = filter (\<lambda>item. map_of outs (bi_ID item) = None) items"
      by (auto simp: applyHistoricalDecisions_def split: sum.splits)
    have "ids_of items \<subseteq> fst ` set outs \<union> ids_of unresolved"
      by (auto simp: ids_of_def h(2) map_of_eq_None_iff)
    with hist_loop_facts [OF assms(2) h(1)] h(2) show ?thesis by (auto simp: answers_def sound_outputs_def)
  next
    case ids
    from applyIDListDecisions_answers [OF this assms(2)] show ?thesis by blast
  qed
qed

lemma completeBatchOnce_answers:
  assumes "completeBatchOnce env cfg shared items d = (d', usage, ra, Inr (outs, unresolved))"
  shows "answers items outs unresolved"
proof -
  obtain tokens records where t: "token_loop 0 items [] = (tokens, records)" by fastforce
  from token_loop_items [OF t] have "snd ` set tokens \<subseteq> set items" by simp
  then show ?thesis using assms t
    by (auto simp: completeBatchOnce_def dest: parseBatchModelOutput_answers split: option.splits prod.splits sum.splits)
qed

lemma answers_none: "answers items [] items"
  by (simp add: answers_def sound_outputs_def)

lemma batch_retry_loop_answers:
  "batch_retry_loop env cfg shared items n attempt stats lastErr d = (d', outs, unresolved, stats', err) \<Longrightarrow>
     answers items outs unresolved"
proof (induction n arbitrary: attempt stats lastErr d)
  case (Suc n)
  then show ?case
    by (auto simp: Let_def answers_none dest: completeBatchOnce_answers split: prod.splits bool.splits sum.splits if_splits)
qed (simp add: answers_none)

lemma completeBatchWithRetries_answers:
  "completeBatchWithRetries env cfg shared items d = (d', outs, unresolved, stats, err) \<Longrightarrow> answers items outs unresolved"
  by (auto simp: completeBatchWithRetries_def Let_def dest: batch_retry_loop_answers split: prod.splits)

lemma completeOnce_sound: "completeOnce env cfg input d = (d', ra, Inr output) \<Longrightarrow> sound_output output"
  by (auto simp: completeOnce_def dest: validated_sound split: prod.splits sum.splits option.splits if_splits)

lemma complete_loop_result:
  "complete_loop env cfg input n attempt stats lastErr d = (d', stats', res) \<Longrightarrow> 0 < n \<or> lastErr \<noteq> None \<Longrightarrow>
     (case res of Inl err \<Rightarrow> err \<noteq> None | Inr output \<Rightarrow> sound_output output)"
proof (induction n arbitrary: attempt stats lastErr d)
  case (Suc n)
  from Suc.prems show ?case
    by (auto simp: Let_def dest: completeOnce_sound dest!: Suc.IH split: prod.splits bool.splits sum.splits if_splits)
qed auto

lemma CompleteDetailed_sound:
  assumes "CompleteDetailed env cfg input d = (d', output, stats, None)" "1 \<le> dc_MaxAttempts cfg"
  shows "sound_output output"
proof -
  obtain d1 stats1 res where l: "complete_loop env cfg input (nat (dc_MaxAttempts cfg)) 1 no_call_stats None d = (d1, stats1, res)"
    by (metis prod_cases3)
  from complete_loop_result [OF l] assms(2) have "case res of Inl err \<Rightarrow> err \<noteq> None | Inr output \<Rightarrow> sound_output output" by simp
  with assms(1) l show ?thesis by (auto simp: CompleteDetailed_def Let_def split: sum.splits)
qed

text \<open>How a result may grow while the items of a set of ids are worked on.\<close>

definition okeys :: "BatchResult \<Rightarrow> string set" where
  "okeys r = fst ` set (bt_Outputs r)"

definition ekeys :: "BatchResult \<Rightarrow> string set" where
  "ekeys r = fst ` set (bt_Errors r)"

definition grows :: "string set \<Rightarrow> BatchResult \<Rightarrow> BatchResult \<Rightarrow> bool" where
  "grows I r r' \<longleftrightarrow> okeys r \<subseteq> okeys r' \<and> okeys r' \<subseteq> okeys r \<union> I \<and> ekeys r \<subseteq> ekeys r' \<and> ekeys r' \<subseteq> ekeys r \<union> I
     \<and> (sound_outputs (bt_Outputs r) \<longrightarrow> sound_outputs (bt_Outputs r'))"

definition covered :: "string set \<Rightarrow> BatchResult \<Rightarrow> bool" where
  "covered I r \<longleftrightarrow> I \<subseteq> okeys r \<union> ekeys r"

lemma grows_refl [simp]: "grows I r r"
  by (simp add: grows_def)

lemma grows_trans: "grows I r r' \<Longrightarrow> grows J r' r'' \<Longrightarrow> J \<subseteq> I \<Longrightarrow> grows I r r''"
  unfolding grows_def by blast

lemma grows_mono: "grows I r r' \<Longrightarrow> I \<subseteq> J \<Longrightarrow> grows J r r'"
  unfolding grows_def by blast

lemma covered_grows: "covered I r \<Longrightarrow> grows J r r' \<Longrightarrow> covered I r'"
  unfolding covered_def grows_def by blast

lemma result_keys [simp]:
  "okeys (count_batch st r) = okeys r" "ekeys (count_batch st r) = ekeys r" "bt_Outputs (count_batch st r) = bt_Outputs r"
  "okeys (r\<lparr>bt_Outputs := AList.update k x m\<rparr>) = insert k (fst ` set m)" "ekeys (r\<lparr>bt_Outputs := m\<rparr>) = ekeys r"
  "ekeys (r\<lparr>bt_Errors := AList.update k c n\<rparr>) = insert k (fst ` set n)" "okeys (r\<lparr>bt_Errors := n\<rparr>) = okeys r"
  "okeys (r\<lparr>bt_Outputs := put_all xs m\<rparr>) = fst ` set xs \<union> fst ` set m"
  by (simp_all add: okeys_def ekeys_def count_batch_def Let_def dom_update put_all_keys)

lemma complete_single_grows:
  assumes "complete_single env cfg shared item d r = (d', r', err)" "1 \<le> dc_MaxAttempts cfg"
  shows "grows {bi_ID item} r r' \<and> (err = None \<longrightarrow> covered {bi_ID item} r')"
proof -
  let ?in = "\<lparr>rq_InputSnapshot = shared @ newline @ itemPackedText item, rq_Evidence = bi_Evidence item\<rparr>"
  obtain d1 out stats e where c: "CompleteDetailed env cfg ?in d = (d1, out, stats, e)" by (metis prod_cases4)
  let ?r = "count_batch stats r"
  have k: "fst ` set (bt_Outputs ?r) = okeys r" "fst ` set (bt_Errors ?r) = ekeys r"
    by (simp_all add: okeys_def ekeys_def count_batch_def Let_def)
  show ?thesis
  proof (cases e)
    case None
    with c have "sound_output out" using CompleteDetailed_sound assms(2) by blast
    moreover have "r' = ?r\<lparr>bt_Outputs := AList.update (bi_ID item) out (bt_Outputs ?r)\<rparr>"
      using assms(1) c None by (simp add: complete_single_def Let_def)
    ultimately show ?thesis using k by (simp add: grows_def covered_def sound_update subset_insertI)
  next
    case (Some x)
    then have "r' = ?r \<and> err \<noteq> None \<or> r' = ?r\<lparr>bt_Errors := AList.update (bi_ID item) (providerErrorCategory x) (bt_Errors ?r)\<rparr>"
      using assms(1) c by (auto simp: complete_single_def Let_def split: if_splits)
    then show ?thesis using k by (elim disjE) (auto simp: grows_def covered_def)
  qed
qed

lemma ids_of_take_drop: "ids_of (take n xs) \<union> ids_of (drop n xs) = ids_of xs"
  unfolding ids_of_def image_Un [symmetric] set_append [symmetric] by simp

lemma answers_grows:
  assumes "answers items outs un0"
  shows "grows (ids_of items) r ((count_batch stats r)\<lparr>bt_Outputs := put_all outs (bt_Outputs (count_batch stats r))\<rparr>)"
    "covered (ids_of items - ids_of un0) ((count_batch stats r)\<lparr>bt_Outputs := put_all outs (bt_Outputs (count_batch stats r))\<rparr>)"
proof -
  have "fst ` set (bt_Outputs r) = okeys r" by (simp add: okeys_def)
  then show "grows (ids_of items) r ((count_batch stats r)\<lparr>bt_Outputs := put_all outs (bt_Outputs (count_batch stats r))\<rparr>)"
    using assms by (simp add: grows_def answers_def sound_put_all) blast
  show "covered (ids_of items - ids_of un0) ((count_batch stats r)\<lparr>bt_Outputs := put_all outs (bt_Outputs (count_batch stats r))\<rparr>)"
    using assms by (simp add: covered_def answers_def) blast
qed

lemma completeBatchRecursive_grows:
  "completeBatchRecursive env cfg shared items d r = (d', r', err) \<Longrightarrow> 1 \<le> dc_MaxAttempts cfg \<Longrightarrow>
     grows (ids_of items) r r' \<and> (err = None \<longrightarrow> covered (ids_of items) r')"
proof (induction "length items" arbitrary: items d r d' r' err rule: less_induct)
  case less
  consider (none) "items = []" | (one) item where "items = [item]" | (many) i1 i2 rest where "items = i1 # i2 # rest"
    by (metis list.exhaust)
  then show ?case
  proof cases
    case none
    with less.prems show ?thesis by (simp add: covered_def ids_of_def)
  next
    case one
    with less.prems show ?thesis using complete_single_grows [of env cfg shared item d r] by (simp add: ids_of_def)
  next
    case many
    obtain d1 outs un0 stats e where c: "completeBatchWithRetries env cfg shared items d = (d1, outs, un0, stats, e)"
      by (metis prod_cases5)
    define r1 where "r1 = (count_batch stats r)\<lparr>bt_Outputs := put_all outs (bt_Outputs (count_batch stats r))\<rparr>"
    define un where "un = (if un0 = [] then items else un0)"
    define mid where "mid = (length un + 1) div 2"
    note a = completeBatchWithRetries_answers [OF c]
    note g1 = answers_grows [OF a, where r = r and stats = stats, folded r1_def]
    have un: "ids_of un \<subseteq> ids_of items" using a by (auto simp: answers_def ids_of_def un_def)
    have len: "length un \<le> length items" "2 \<le> length items"
      using completeBatchWithRetries_length [OF c] many by (auto simp: un_def)
    show ?thesis
    proof (cases "e = None \<and> un0 = [] \<or> de_ctx_done env (dk_w d1)")
      case True
      then have "r' = r1 \<and> (err = None \<longrightarrow> un0 = [])"
        using less.prems(1) c many by (auto simp: Let_def r1_def split: if_splits)
      with g1 show ?thesis by (auto simp: ids_of_def)
    next
      case False
      obtain d2 r2 e2 where h1: "completeBatchRecursive env cfg shared (take mid un) d1 r1 = (d2, r2, e2)" by (metis prod_cases3)
      have "length (take mid un) < length items" "length (drop mid un) < length items"
        using len by (auto simp: mid_def min_def un_def)
      note IH = less.hyps [OF this(1)] less.hyps [OF this(2)]
      have t: "ids_of (take mid un) \<subseteq> ids_of items" "ids_of (drop mid un) \<subseteq> ids_of items"
        using un ids_of_take_drop [of mid un] by blast+
      from IH(1) [OF h1 less.prems(2)] have s2: "grows (ids_of (take mid un)) r1 r2" "e2 = None \<longrightarrow> covered (ids_of (take mid un)) r2" by auto
      have g2: "grows (ids_of items) r r2" by (rule grows_trans [OF g1(1) s2(1) t(1)])
      show ?thesis
      proof (cases e2)
        case (Some x)
        then have "r' = r2 \<and> err \<noteq> None"
          using less.prems(1) c many h1 False by (auto simp: Let_def r1_def un_def mid_def split: if_splits)
        with g2 show ?thesis by auto
      next
        case None
        then have h2: "completeBatchRecursive env cfg shared (drop mid un) d2 r2 = (d', r', err)"
          using less.prems(1) c many h1 False by (auto simp: Let_def r1_def un_def mid_def split: if_splits)
        from IH(2) [OF h2 less.prems(2)] have s3: "grows (ids_of (drop mid un)) r2 r'" "err = None \<longrightarrow> covered (ids_of (drop mid un)) r'" by auto
        have "covered (ids_of (take mid un)) r'" using s2(2) None covered_grows [OF _ s3(1)] by blast
        moreover have "covered (ids_of items - ids_of un0) r'"
          using covered_grows [OF covered_grows [OF g1(2) s2(1)] s3(1)] .
        moreover have "ids_of un0 \<subseteq> ids_of un" by (simp add: un_def ids_of_def)
        ultimately have "err = None \<longrightarrow> covered (ids_of items) r'"
          using s3(2) ids_of_take_drop [of mid un] unfolding covered_def by blast
        with grows_trans [OF g2 s3(1) t(2)] show ?thesis by blast
      qed
    qed
  qed
qed

lemma merge_batch_grows:
  assumes "grows I no_ai_batch r"
  shows "grows I result (merge_batch result r)" "covered J r \<Longrightarrow> covered J (merge_batch result r)"
proof -
  have k: "okeys (merge_batch result r) = okeys r \<union> okeys result" "ekeys (merge_batch result r) = ekeys r \<union> ekeys result"
    by (simp_all add: merge_batch_def okeys_def ekeys_def put_all_keys)
  have "sound_outputs (bt_Outputs r)" "okeys r \<subseteq> I" "ekeys r \<subseteq> I"
    using assms by (simp_all add: grows_def no_ai_batch_def okeys_def ekeys_def sound_outputs_def)
  then show "grows I result (merge_batch result r)"
    unfolding grows_def k by (auto simp: merge_batch_def sound_put_all)
  show "covered J r \<Longrightarrow> covered J (merge_batch result r)" unfolding covered_def k by blast
qed

lemma run_wave_grows:
  "run_wave env cfg shared bs d = (d', rs) \<Longrightarrow> 1 \<le> dc_MaxAttempts cfg \<Longrightarrow>
     list_all2 (\<lambda>b (r, err). grows (ids_of b) no_ai_batch r \<and> (err = None \<longrightarrow> covered (ids_of b) r)) bs rs"
proof (induction bs arbitrary: d d' rs)
  case (Cons b bs)
  obtain d1 r e where c: "completeBatchRecursive env cfg shared b d no_ai_batch = (d1, r, e)" by (metis prod_cases3)
  obtain d2 rs2 where w: "run_wave env cfg shared bs d1 = (d2, rs2)" by fastforce
  from Cons.prems(1) c w have "rs = (r, e) # rs2" by simp
  with Cons.IH [OF w] completeBatchRecursive_grows [OF c] Cons.prems(2) show ?case by simp
qed simp

lemma ids_of_concat_Cons: "ids_of (concat (b # bs)) = ids_of b \<union> ids_of (concat bs)"
  by (auto simp: ids_of_def)

lemma merge_wave_grows:
  assumes "list_all2 (\<lambda>b (r, err). grows (ids_of b) no_ai_batch r \<and> (err = None \<longrightarrow> covered (ids_of b) r)) bs rs"
    "merge_wave rs result adverse = (result', adverse', err)"
  shows "grows (ids_of (concat bs)) result result' \<and> (err = None \<longrightarrow> covered (ids_of (concat bs)) result')"
  using assms
proof (induction bs rs arbitrary: result adverse rule: list_all2_induct)
  case Nil
  then show ?case by (simp add: covered_def ids_of_def)
next
  case (Cons b bs x rs)
  obtain r e where x: "x = (r, e)" by fastforce
  show ?case
  proof (cases e)
    case (Some z)
    with Cons.prems x show ?thesis by auto
  next
    case None
    with Cons.hyps x have g: "grows (ids_of b) no_ai_batch r" "covered (ids_of b) r" by auto
    note m = merge_batch_grows [OF g(1), where result = result]
    from Cons.prems x None have h: "merge_wave rs (merge_batch result r) (adverse \<or> adverse_category (ps_Category (bt_Stats r))) = (result', adverse', err)"
      by simp
    note IH = Cons.IH [OF h]
    have "grows (ids_of (concat (b # bs))) result (merge_batch result r)"
      using grows_mono [OF m(1)] unfolding ids_of_concat_Cons by blast
    then have 1: "grows (ids_of (concat (b # bs))) result result'"
      using IH grows_trans unfolding ids_of_concat_Cons by blast
    have "covered (ids_of b) result'" using covered_grows [OF m(2) [OF g(2)]] IH by blast
    with 1 IH show ?thesis unfolding ids_of_concat_Cons covered_def by blast
  qed
qed

lemma next_concurrency_pos: "1 \<le> c \<Longrightarrow> next_concurrency cfg adverse c n = (c', n') \<Longrightarrow> 1 \<le> c'"
  by (auto simp: next_concurrency_def split: if_splits)

lemma batch_waves_covers:
  assumes "1 \<le> dc_MaxAttempts cfg"
  shows "1 \<le> concurrency \<Longrightarrow> \<exists>d' r' err. batch_waves env cfg shared packed concurrency n result d = Some (d', r', err)
    \<and> grows (ids_of (concat packed)) result r' \<and> (err = None \<longrightarrow> covered (ids_of (concat packed)) r')"
proof (induction "length packed" arbitrary: packed concurrency n result d rule: less_induct)
  case less
  show ?case
  proof (cases "packed = [] \<or> de_ctx_done env (dk_w d)")
    case True
    then show ?thesis by (subst batch_waves.simps) (auto simp: covered_def ids_of_def)
  next
    case False
    define k where "k = nat (min concurrency (int (length packed)))"
    obtain d1 wave where w: "run_wave env cfg shared (take k packed) d = (d1, wave)" by fastforce
    obtain r1 adv e where m: "merge_wave wave result False = (r1, adv, e)" by (metis prod_cases3)
    obtain c1 n1 where nc: "next_concurrency cfg adv concurrency n = (c1, n1)" by fastforce
    note g = merge_wave_grows [OF run_wave_grows [OF w assms] m]
    have split: "ids_of (concat packed) = ids_of (concat (take k packed)) \<union> ids_of (concat (drop k packed))"
      unfolding ids_of_def image_Un [symmetric] set_append [symmetric] concat_append [symmetric] by simp
    have step: "batch_waves env cfg shared packed concurrency n result d =
        (case e of Some x \<Rightarrow> Some (d1, r1, Some x) | None \<Rightarrow> batch_waves env cfg shared (drop k packed) c1 n1 r1 d1)"
      using False by (subst batch_waves.simps) (simp add: Let_def w m nc flip: k_def)
    show ?thesis
    proof (cases e)
      case (Some x)
      with g step split show ?thesis by (auto intro: grows_mono)
    next
      case None
      have "length (drop k packed) < length packed" using False less.prems by (simp add: k_def)
      from less.hyps [OF this next_concurrency_pos [OF less.prems nc], of n1 r1 d1] obtain d' r' err where
        h: "batch_waves env cfg shared (drop k packed) c1 n1 r1 d1 = Some (d', r', err)"
        "grows (ids_of (concat (drop k packed))) r1 r'" "err = None \<longrightarrow> covered (ids_of (concat (drop k packed))) r'" by blast
      have "grows (ids_of (concat packed)) result r'"
        using grows_trans [OF grows_mono [OF conjunct1 [OF g]] h(2)] split by blast
      moreover have "covered (ids_of (concat (take k packed))) r'" using g None covered_grows [OF _ h(2)] by blast
      ultimately show ?thesis using step None h split unfolding covered_def by auto
    qed
  qed
qed

section \<open>Packing\<close>

definition batch_cost :: "int \<Rightarrow> BatchItem list \<Rightarrow> int" where
  "batch_cost base b = base + sum_list (map batchItemTokenCost b)"

definition fits :: "int \<Rightarrow> int \<Rightarrow> int \<Rightarrow> BatchItem list \<Rightarrow> bool" where
  "fits base maxCount budget b \<longleftrightarrow> b \<noteq> [] \<and> int (length b) \<le> maxCount \<and> (length b = 1 \<or> batch_cost base b \<le> budget)"

lemma pack_loop_facts:
  assumes "1 \<le> maxCount"
  shows "used = batch_cost base current \<Longrightarrow> current = [] \<or> fits base maxCount budget current \<Longrightarrow>
    concat (pack_loop base maxCount budget items current used) = current @ items
    \<and> list_all (fits base maxCount budget) (pack_loop base maxCount budget items current used)"
proof (induction items arbitrary: current used)
  case (Cons item items)
  let ?cost = "batchItemTokenCost item"
  show ?case
  proof (cases "current \<noteq> [] \<and> (int (length current) \<ge> maxCount \<or> used + ?cost > budget)")
    case True
    have "fits base maxCount budget [item]" "base + ?cost = batch_cost base [item]"
      using assms by (simp_all add: fits_def batch_cost_def)
    with Cons.IH [of "base + ?cost" "[item]"] True Cons.prems show ?thesis by (auto simp: Let_def)
  next
    case False
    have "used + ?cost = batch_cost base (current @ [item])" using Cons.prems(1) by (simp add: batch_cost_def)
    moreover from this have "fits base maxCount budget (current @ [item])"
      using False assms by (cases "current = []") (auto simp: fits_def)
    ultimately show ?thesis using Cons.IH [of "used + ?cost" "current @ [item]"] False by (auto simp: Let_def)
  qed
qed auto

lemma PackBatchItems_concat: "concat (PackBatchItems shared items m b) = items"
proof -
  have "1 \<le> (if m < 1 then defaultAIBatchSize else m)" by (simp add: defaultAIBatchSize_def)
  from pack_loop_facts [OF this, where current = "[]"] show ?thesis by (simp add: PackBatchItems_def batch_cost_def Let_def)
qed

section \<open>Numbered prompts\<close>

lemma update_fresh: "k \<notin> fst ` set m \<Longrightarrow> AList.update k v m = m @ [(k, v)]"
  by (induction m) auto

lemma prompt_number_inj: "0 \<le> i \<Longrightarrow> 0 \<le> j \<Longrightarrow> prompt_number i = prompt_number j \<longleftrightarrow> i = j"
proof -
  assume pos: "0 \<le> i" "0 \<le> j"
  have d: "digits m = digits n \<Longrightarrow> m = n" for m n by (metis option.inject parse_digits_digits)
  from pos show ?thesis by (auto simp: prompt_number_def Itoa_def eq_nat_nat_iff dest!: d)
qed

text \<open>The tokens a list of items gets when each takes its number.\<close>

fun numbered :: "int \<Rightarrow> BatchItem list \<Rightarrow> (string \<times> BatchItem) list" where
  "numbered i [] = []"
| "numbered i (x # xs) = (prompt_number i, x) # numbered (i + 1) xs"

lemma numbered_keys: "k \<in> fst ` set (numbered i xs) \<Longrightarrow> \<exists>j. i \<le> j \<and> k = prompt_number j"
proof (induction i xs rule: numbered.induct)
  case (2 i x xs)
  then show ?case by (auto intro: exI [of _ i]) (metis "2.IH" fst_conv image_eqI add1_zle_eq less_le)
qed simp

lemma numbered_distinct: "0 \<le> i \<Longrightarrow> distinct (map fst (numbered i xs))"
proof (induction i xs rule: numbered.induct)
  case (2 i x xs)
  have "prompt_number i \<notin> fst ` set (numbered (i + 1) xs)"
    using numbered_keys [of "prompt_number i" "i + 1" xs] prompt_number_inj "2.prems" by force
  with 2 show ?case by simp
qed simp

lemma numbered_nth: "0 \<le> i \<Longrightarrow> j < length xs \<Longrightarrow> map_of (numbered i xs) (prompt_number (i + int j)) = Some (xs ! j)"
proof (induction i xs arbitrary: j rule: numbered.induct)
  case (2 i x xs)
  show ?case
  proof (cases j)
    case (Suc m)
    with 2 have "map_of (numbered (i + 1) xs) (prompt_number (i + 1 + int m)) = Some (xs ! m)" by simp
    moreover have "prompt_number (i + int j) \<noteq> prompt_number i" using Suc "2.prems" by (simp add: prompt_number_inj)
    ultimately show ?thesis using Suc by (simp add: add.assoc)
  qed simp
qed simp

lemma token_loop_numbered:
  "list_all (\<lambda>x. uuidRE (bi_ID x)) items \<Longrightarrow> 0 \<le> i \<Longrightarrow> list_all (\<lambda>k. \<exists>j. 0 \<le> j \<and> j < i \<and> k = prompt_number j) (map fst tokens) \<Longrightarrow>
     token_loop i items tokens = (tokens', records) \<Longrightarrow>
     tokens' = tokens @ numbered i items \<and> map cv_ID records = map fst (numbered i items)"
proof (induction items arbitrary: i tokens tokens' records)
  case (Cons x xs)
  obtain a b c where f: "compactItemFields x = (a, b, c)" by (metis prod_cases3)
  have tok: "compactPromptID i (bi_ID x) tokens = prompt_number i" using Cons.prems(1) by (simp add: compactPromptID_def)
  have "prompt_number i \<notin> fst ` set tokens"
    using Cons.prems(2,3) by (force simp: list_all_iff prompt_number_inj)
  then have up: "AList.update (prompt_number i) x tokens = tokens @ [(prompt_number i, x)]" by (rule update_fresh)
  obtain t r where rec: "token_loop (i + 1) xs (tokens @ [(prompt_number i, x)]) = (t, r)" by fastforce
  have "list_all (\<lambda>k. \<exists>j. 0 \<le> j \<and> j < i + 1 \<and> k = prompt_number j) (map fst (tokens @ [(prompt_number i, x)]))"
    using Cons.prems(2,3) by (force simp: list_all_iff)
  from Cons.IH [OF _ _ this rec] Cons.prems show ?case by (auto simp: tok up rec f Let_def)
qed simp

section \<open>Attempts\<close>

lemma exchange_active [simp]: "exchange env cfg limit req d = (d', u, ra, res) \<Longrightarrow> dk_active d' = dk_active d"
  by (auto simp: exchange_def Let_def beginProviderRequest_def finishActivity_def notifyActivity_def
      split: prod.splits provider_reply.splits if_splits option.splits)

lemma completeOnce_active: "completeOnce env cfg input d = (d', ra, res) \<Longrightarrow> dk_active d' = dk_active d"
  by (auto simp: completeOnce_def split: prod.splits sum.splits option.splits if_splits)

lemma waitForSlot_active: "waitForSlot env cfg d = (d', ok) \<Longrightarrow> dk_active d' = dk_active d"
  by (auto simp: waitForSlot_def Let_def split: prod.splits)

lemma retry_pause_active: "retry_pause env cfg c n ra d = (d', ok) \<Longrightarrow> dk_active d' = dk_active d"
  by (auto simp: retry_pause_def Let_def notifyActivity_def split: prod.splits)

lemma complete_loop_stats:
  "complete_loop env cfg input n attempt stats lastErr d = (d', stats', res) \<Longrightarrow>
     dk_active d' = dk_active d \<and> ps_HTTPAttempts stats \<le> ps_HTTPAttempts stats'
     \<and> ps_HTTPAttempts stats' \<le> ps_HTTPAttempts stats + int n
     \<and> (\<forall>x. res = Inr x \<longrightarrow> ps_HTTPAttempts stats < ps_HTTPAttempts stats' \<and> ps_Retries stats' = ps_HTTPAttempts stats' - 1)"
proof (induction n arbitrary: attempt stats lastErr d)
  case (Suc n)
  obtain d1 ok where w: "waitForSlot env cfg d = (d1, ok)" by fastforce
  obtain d2 ra r where c: "completeOnce env cfg input d1 = (d2, ra, r)" by (metis prod_cases3)
  have a: "dk_active d2 = dk_active d" "dk_active d1 = dk_active d" using waitForSlot_active [OF w] completeOnce_active [OF c] by simp_all
  show ?case
  proof (cases "\<not> ok \<or> (\<exists>x. r = Inr x)")
    case True
    with Suc.prems w c a show ?thesis by (cases ok) auto
  next
    case False
    then obtain e where e: "r = Inl e" by (cases r) auto
    obtain d3 ok2 where p: "retry_pause env cfg (providerErrorCategory e) attempt ra d2 = (d3, ok2)" by fastforce
    show ?thesis
    proof (cases "attempt = dc_MaxAttempts cfg \<or> \<not> retryableProviderCategory (providerErrorCategory e) attempt \<or> \<not> ok2")
      case True
      with False Suc.prems w c a e p retry_pause_active [OF p] show ?thesis by (cases ok2) (auto simp: Let_def split: if_splits)
    next
      case more: False
      let ?st = "stats\<lparr>ps_HTTPAttempts := ps_HTTPAttempts stats + 1, ps_Category := providerErrorCategory e, ps_Retries := ps_Retries stats + 1\<rparr>"
      have "complete_loop env cfg input n (attempt + 1) ?st (Some e) d3 = (d', stats', res)"
        using Suc.prems False w c e p more by (simp add: Let_def)
      from Suc.IH [OF this] retry_pause_active [OF p] a show ?thesis by auto
    qed
  qed
qed auto

lemma NewDeepSeek_attempts:
  assumes "NewDeepSeek https_url cfg0 = Inr cfg"
  shows "dc_MaxAttempts cfg = (if dc_MaxAttempts cfg0 < 1 \<or> dc_MaxAttempts cfg0 > 5 then 3 else dc_MaxAttempts cfg0)"
    "dc_MaxConcurrency cfg = (if dc_MaxConcurrency cfg0 < 1 \<or> dc_MaxConcurrency cfg0 > maxAIConcurrency then defaultAIConcurrency else dc_MaxConcurrency cfg0)"
proof -
  have k: "TrimSpace (dc_APIKey cfg0) \<noteq> ''''" using assms by (auto simp: NewDeepSeek_def)
  define c where "c = (if dc_BaseURL cfg0 = '''' then cfg0\<lparr>dc_BaseURL := ''https://api.deepseek.com''\<rparr> else cfg0)"
  have c: "dc_MaxAttempts c = dc_MaxAttempts cfg0" "dc_MaxConcurrency c = dc_MaxConcurrency cfg0" by (simp_all add: c_def)
  have h: "https_url (dc_BaseURL c)"
    by (rule ccontr) (use assms k in \<open>simp add: NewDeepSeek_def Let_def flip: c_def\<close>)
  note e = assms [unfolded NewDeepSeek_def Let_def if_not_P [OF k], folded c_def, simplified h simp_thms if_False sum.inject]
  show "dc_MaxAttempts cfg = (if dc_MaxAttempts cfg0 < 1 \<or> dc_MaxAttempts cfg0 > 5 then 3 else dc_MaxAttempts cfg0)"
    unfolding e [symmetric] c [symmetric] by (simp split del: if_split)
  show "dc_MaxConcurrency cfg = (if dc_MaxConcurrency cfg0 < 1 \<or> dc_MaxConcurrency cfg0 > maxAIConcurrency then defaultAIConcurrency else dc_MaxConcurrency cfg0)"
    unfolding e [symmetric] c [symmetric] by (simp split del: if_split)
qed
lemma NewDeepSeek_bounds:
  "NewDeepSeek https_url cfg0 = Inr cfg \<Longrightarrow> 1 \<le> dc_MaxAttempts cfg \<and> dc_MaxAttempts cfg \<le> 5 \<and> 1 \<le> dc_MaxConcurrency cfg"
  by (simp add: NewDeepSeek_attempts defaultAIConcurrency_def)

section \<open>Properties\<close>

text \<open>
  C37. A batch request accounts for every item. With any configuration the constructor accepts, and
  whatever the service answers, the batched completion returns; it reports outputs and errors only for
  items of the request, every output it reports is a well-formed decision with a score in range, and
  when it returns without an error each item has an output or an error category.
\<close>

theorem batch_accounts:
  assumes "NewDeepSeek https_url cfg0 = Inr cfg"
  shows "\<exists>d' r err. CompleteBatchDetailed env cfg req d = Some (d', r, err)
    \<and> okeys r \<union> ekeys r \<subseteq> ids_of (br_Items req) \<and> sound_outputs (bt_Outputs r)
    \<and> (err = None \<longrightarrow> okeys r \<union> ekeys r = ids_of (br_Items req))"
proof -
  note b = NewDeepSeek_bounds [OF assms]
  obtain d' r err where *: "CompleteBatchDetailed env cfg req d = Some (d', r, err)"
    "grows (ids_of (br_Items req)) no_ai_batch r" "err = None \<longrightarrow> covered (ids_of (br_Items req)) r"
    using batch_waves_covers [where env = env and n = 0 and result = no_ai_batch and d = d and concurrency = "dc_MaxConcurrency cfg"
        and shared = "br_SharedPreferences req"
        and packed = "PackBatchItems (br_SharedPreferences req) (br_Items req) (dc_MaxBatchSize cfg) (dc_InputTokenBudget cfg)"]
      b unfolding CompleteBatchDetailed_def PackBatchItems_concat by blast
  have "okeys no_ai_batch = {}" "ekeys no_ai_batch = {}" "sound_outputs (bt_Outputs no_ai_batch)"
    by (simp_all add: okeys_def ekeys_def no_ai_batch_def sound_outputs_def)
  with * show ?thesis unfolding grows_def covered_def by blast
qed

definition demo_config :: DeepSeekConfig where
  "demo_config = \<lparr>dc_APIKey = ''k'', dc_BaseURL = '''', dc_Model = '''', dc_Timeout = 0, dc_MaxTokens = 0, dc_MaxAttempts = 0,
     dc_MinInterval = 0, dc_MaxBatchSize = 0, dc_MaxConcurrency = 0, dc_InputTokenBudget = 0\<rparr>"

definition demo_env :: "unit DsEnv" where
  "demo_env = \<lparr>de_now = (\<lambda>_. 0), de_ctx_done = (\<lambda>_. False), de_sleep = (\<lambda>w _. (w, True)), de_rand = (\<lambda>w _. (w, 0)),
     de_request_ok = (\<lambda>_. True), de_post = (\<lambda>w _. (w, SendFailed ContextCanceled)), de_http_time = (\<lambda>_. None),
     de_output_of = (\<lambda>_. None), de_batch_of = (\<lambda>_. None), de_ids_of = (\<lambda>_. None), de_reviews_of = (\<lambda>_. None),
     de_decisions_of = (\<lambda>_. None), de_user_json = (\<lambda>_ _. Some '''')\<rparr>"

definition demo_item :: "string \<Rightarrow> BatchItem" where
  "demo_item i = \<lparr>bi_ID = i, bi_Title = '''', bi_Skills = [], bi_Description = '''', bi_InputSnapshot = '''', bi_Evidence = []\<rparr>"

lemma demo_config_ok: "\<exists>cfg. NewDeepSeek (\<lambda>_. True) demo_config = Inr cfg"
proof -
  have "TrimSpace ''k'' = ''k''" by (simp add: bytes_simps)
  then show ?thesis by (simp add: NewDeepSeek_def demo_config_def)
qed

theorem batch_accounts_witness:
  "\<exists>cfg d' r err. NewDeepSeek (\<lambda>_. True) demo_config = Inr cfg
     \<and> CompleteBatchDetailed demo_env cfg \<lparr>br_SharedPreferences = '''', br_Items = [demo_item ''a'', demo_item ''b'']\<rparr>
         \<lparr>dk_w = (), dk_next = 0, dk_active = 0, dk_seen = []\<rparr> = Some (d', r, err)
     \<and> okeys r \<union> ekeys r \<subseteq> {''a'', ''b''}"
proof -
  obtain cfg where c: "NewDeepSeek (\<lambda>_. True) demo_config = Inr cfg" using demo_config_ok by blast
  from batch_accounts [OF c, of demo_env "\<lparr>br_SharedPreferences = '''', br_Items = [demo_item ''a'', demo_item ''b'']\<rparr>"
      "\<lparr>dk_w = (), dk_next = 0, dk_active = 0, dk_seen = []\<rparr>"] c
  show ?thesis by (auto simp: ids_of_def demo_item_def)
qed

text \<open>
  Packing cuts the items into consecutive, non-empty batches without losing, repeating or
  reordering any; no batch exceeds the count limit, and none exceeds the token budget unless it is a
  single item that does so alone.
\<close>

theorem PackBatchItems_partition:
  "concat (PackBatchItems shared items maxCount budget) = items
   \<and> list_all (fits (EstimateTokens shared + 400) (if maxCount < 1 then defaultAIBatchSize else maxCount)
        (if budget < 1 then defaultAIInputTokenBudget else budget)) (PackBatchItems shared items maxCount budget)"
proof -
  have "1 \<le> (if maxCount < 1 then defaultAIBatchSize else maxCount)" by (simp add: defaultAIBatchSize_def)
  from pack_loop_facts [OF this, where current = "[]" and base = "EstimateTokens shared + 400"]
  show ?thesis by (simp add: PackBatchItems_def batch_cost_def Let_def)
qed

text \<open>
  A single completion spends at most five requests, leaves the number of requests in flight as it
  found it, and when it succeeds it made at least one request, counted every repeat as a retry, and
  returns a well-formed decision.
\<close>

theorem completion_budget:
  assumes "NewDeepSeek https_url cfg0 = Inr cfg" "CompleteDetailed env cfg input d = (d', out, stats, err)"
  shows "0 \<le> ps_HTTPAttempts stats \<and> ps_HTTPAttempts stats \<le> 5 \<and> dk_active d' = dk_active d
    \<and> (err = None \<longrightarrow> 1 \<le> ps_HTTPAttempts stats \<and> ps_Retries stats = ps_HTTPAttempts stats - 1 \<and> sound_output out)"
proof -
  note b = NewDeepSeek_bounds [OF assms(1)]
  obtain d1 st res where l: "complete_loop env cfg input (nat (dc_MaxAttempts cfg)) 1 no_call_stats None d = (d1, st, res)"
    by (metis prod_cases3)
  have "err = None \<longrightarrow> (\<exists>x. res = Inr x)" "ps_HTTPAttempts stats = ps_HTTPAttempts st" "ps_Retries stats = ps_Retries st" "d' = d1"
    using assms(2) l complete_loop_result [OF l] b by (auto simp: CompleteDetailed_def Let_def split: sum.splits)
  with complete_loop_stats [OF l] b CompleteDetailed_sound [of env cfg input d d' out stats] assms(2)
  show ?thesis by (auto simp: no_call_stats_def)
qed

theorem completion_budget_witness:
  "\<exists>cfg d' out stats err. CompleteDetailed demo_env cfg \<lparr>rq_InputSnapshot = '''', rq_Evidence = []\<rparr>
      \<lparr>dk_w = (), dk_next = 0, dk_active = 0, dk_seen = []\<rparr> = (d', out, stats, err) \<and> ps_HTTPAttempts stats \<le> 5 \<and> dk_active d' = 0"
proof -
  let ?d = "\<lparr>dk_w = (), dk_next = 0, dk_active = 0, dk_seen = []\<rparr> :: unit Ds"
  let ?in = "\<lparr>rq_InputSnapshot = '''', rq_Evidence = []\<rparr>"
  obtain cfg where c: "NewDeepSeek (\<lambda>_. True) demo_config = Inr cfg" using demo_config_ok by blast
  obtain d' out stats err where e: "CompleteDetailed demo_env cfg ?in ?d = (d', out, stats, err)" by (metis prod_cases4)
  from completion_budget [OF c e] have "ps_HTTPAttempts stats \<le> 5 \<and> dk_active d' = 0" by simp
  with e show ?thesis by blast
qed

text \<open>
  C38. When every item id is a UUID, the prompt names the items v1, v2 and so on in order, no two alike,
  and an answer that names one of them is attributed to exactly that item. Without that, two items
  can get the same name: an item whose own id is v2 ahead of one that is numbered.
\<close>

theorem prompt_tokens:
  assumes "list_all (\<lambda>x. uuidRE (bi_ID x)) items" "token_loop 0 items [] = (tokens, records)" "j < length items"
  shows "map cv_ID records = map fst tokens \<and> distinct (map fst tokens)
    \<and> resolveBatchItem (prompt_number (int j)) tokens = Some (items ! j)
    \<and> map cv_ID (snd (token_loop 0 [demo_item ''v2'', demo_item ''01234567-89ab-cdef-0123-456789abcdef''] [])) = [''v2'', ''v2'']"
proof -
  from token_loop_numbered [OF assms(1) _ _ assms(2)] have t: "tokens = numbered 0 items" "map cv_ID records = map fst tokens" by auto
  have trim: "TrimSpace (prompt_number (int j)) = prompt_number (int j)"
    using digits_all [of "Suc j"] by (intro TrimSpace_plain) (auto simp: prompt_number_def Itoa_def list_all_iff byte_val_def nat_add_distrib)
  have "map_of tokens (prompt_number (int j)) = Some (items ! j)" using numbered_nth [OF _ assms(3), of 0] t(1) by simp
  with trim have r: "resolveBatchItem (prompt_number (int j)) tokens = Some (items ! j)"
    by (simp add: resolveBatchItem_def) (simp add: prompt_number_def)
  have u: "\<not> uuidRE ''v2''" "uuidRE ''01234567-89ab-cdef-0123-456789abcdef''"
    by (simp_all add: uuidRE_def hex_byte_def byte_val_def upt_rec)
  have n: "prompt_number 1 = ''v2''" by (simp add: prompt_number_def bytes_simps)
  have "compactPromptID 0 ''v2'' [] = ''v2''" using u(1) by (simp add: compactPromptID_def ContainsAny_def)
  moreover have "compactPromptID 1 ''01234567-89ab-cdef-0123-456789abcdef'' [(''v2'', x)] = ''v2''" for x
    using u(2) n by (simp add: compactPromptID_def)
  ultimately have "map cv_ID (snd (token_loop 0 [demo_item ''v2'', demo_item ''01234567-89ab-cdef-0123-456789abcdef''] [])) = [''v2'', ''v2'']"
    by (simp add: demo_item_def Let_def split: prod.splits)
  with t r numbered_distinct [of 0 items] show ?thesis by simp
qed

theorem prompt_tokens_witness:
  "resolveBatchItem (prompt_number (int 0))
     (fst (token_loop 0 [demo_item ''01234567-89ab-cdef-0123-456789abcdef''] []))
   = Some (demo_item ''01234567-89ab-cdef-0123-456789abcdef'')"
proof -
  have "uuidRE ''01234567-89ab-cdef-0123-456789abcdef''" by (simp add: uuidRE_def hex_byte_def byte_val_def upt_rec)
  then have "list_all (\<lambda>x. uuidRE (bi_ID x)) [demo_item ''01234567-89ab-cdef-0123-456789abcdef'']" by (simp add: demo_item_def)
  moreover obtain t r where "token_loop 0 [demo_item ''01234567-89ab-cdef-0123-456789abcdef''] [] = (t, r)" by fastforce
  ultimately show ?thesis using prompt_tokens [of "[demo_item ''01234567-89ab-cdef-0123-456789abcdef'']" t r 0] by simp
qed

end
