(* ===== verification/Assist_Worker.thy ===== *)
theory Assist_Worker
  imports Assist_AI
begin

text \<open>
  The assistant's worker, \<^verbatim>\<open>libs/go-common/assistant/worker.go\<close>: one run over a batch of candidates or
  over the pages of a claimed snapshot run, the jobs handed to the AI provider, and the statistics.

  Store and provider act on one state \<open>'s\<close>. The interfaces the code discovers with type assertions
  (\<^verbatim>\<open>AIStore\<close>, \<^verbatim>\<open>AutomationStore\<close>, \<^verbatim>\<open>BatchAIProvider\<close> and so on) are optional fields. \<open>wk_ctx_done\<close> is the
  state of the context, which the heartbeat of a claimed run may end at any time; the heartbeat itself
  and the reporting of activity are not part of the model. No definition here can panic, so the
  recovering wrapper of the code is the function it wraps.
\<close>

section \<open>Data\<close>

record WorkerUser =
  wu_ID :: string
  wu_Preference :: PreferenceRecord

record WorkerCandidate =
  wc_ID :: string
  wc_Source :: string
  wc_ExternalID :: string
  wc_Title :: string
  wc_SourceURL :: string
  wc_Vacancy :: AssistVacancy
  wc_Description :: string
  wc_DescriptionTruncated :: bool
  wc_AIRetry :: bool
  wc_Revision :: int
  wc_SalaryText :: string
  wc_ObservedAt :: time
  wc_CreatedAt :: time

record WorkerMatch =
  wm_UserID :: string
  wm_VacancyID :: string
  wm_Source :: string
  wm_ExternalID :: string
  wm_RunID :: string
  wm_PreferenceVersion :: int
  wm_Result :: MatchResult
  wm_Method :: string
  wm_Provider :: string
  wm_Model :: string
  wm_PromptVersion :: string
  wm_InputSnapshotHash :: string
  wm_VacancyRevision :: int

record WorkerDelivery =
  wd_UserID :: string
  wd_VacancyID :: string
  wd_PreferenceVersion :: int

record AutomationSettings =
  as_AIEnabled :: bool
  as_TelegramEnabled :: bool
  as_ActivationAt :: "time option"

record aiJob =
  aj_candidate :: WorkerCandidate
  aj_user :: WorkerUser
  aj_match :: WorkerMatch
  aj_request :: Request
  aj_shared :: string
  aj_settings :: AutomationSettings
  aj_title :: string
  aj_skills :: "string list"
  aj_description :: string

record WorkerStats =
  ww_Users :: int
  ww_Processed :: int
  ww_Eligible :: int
  ww_Matched :: int
  ww_Notified :: int
  ww_Skipped :: int
  ww_AICalls :: int
  ww_AIEligible :: int
  ww_AISucceeded :: int
  ww_AIMatches :: int
  ww_AIReviews :: int
  ww_AIRejects :: int
  ww_AIFailures :: int
  ww_AISkipped :: int
  ww_AIHTTPAttempts :: int
  ww_AIRetries :: int
  ww_AIBatches :: int
  ww_AIPromptTokens :: int
  ww_AICompletionTokens :: int
  ww_AICachedTokens :: int
  ww_AIRateLimit :: int
  ww_AITimeouts :: int
  ww_AIInvalidResponses :: int
  ww_AIAuth :: int
  ww_AIQuota :: int
  ww_AIServer :: int
  ww_AINetwork :: int
  ww_AIContextLimit :: int
  ww_AIContentFilter :: int
  ww_AIInvalidRequest :: int
  ww_RunID :: string
  ww_AIStatus :: string
  ww_AISkipReason :: string

definition no_worker_stats :: WorkerStats where
  "no_worker_stats = \<lparr>ww_Users = 0, ww_Processed = 0, ww_Eligible = 0, ww_Matched = 0, ww_Notified = 0, ww_Skipped = 0,
     ww_AICalls = 0, ww_AIEligible = 0, ww_AISucceeded = 0, ww_AIMatches = 0, ww_AIReviews = 0, ww_AIRejects = 0,
     ww_AIFailures = 0, ww_AISkipped = 0, ww_AIHTTPAttempts = 0, ww_AIRetries = 0, ww_AIBatches = 0, ww_AIPromptTokens = 0,
     ww_AICompletionTokens = 0, ww_AICachedTokens = 0, ww_AIRateLimit = 0, ww_AITimeouts = 0, ww_AIInvalidResponses = 0,
     ww_AIAuth = 0, ww_AIQuota = 0, ww_AIServer = 0, ww_AINetwork = 0, ww_AIContextLimit = 0, ww_AIContentFilter = 0,
     ww_AIInvalidRequest = 0, ww_RunID = '''', ww_AIStatus = '''', ww_AISkipReason = ''''\<rparr>"

text \<open>A claimed run: its identity, its cursor and the counters it had, kept as the statistics they become.\<close>

record AssistantRun =
  rn_ID :: string
  rn_UserID :: string
  rn_PreferenceID :: string
  rn_SnapshotCutoff :: time
  rn_Total :: int
  rn_Counters :: WorkerStats
  rn_CursorCreatedAt :: "time option"
  rn_CursorVacancyID :: string

datatype worker_error = WkStore string | WkContext | WkNoSnapshotStore | WkNoControlStore

record 's RunStore =
  rs_ClaimAssistantRun :: "'s \<Rightarrow> 's \<times> (worker_error + AssistantRun option)"
  rs_CompleteAssistantRun :: "'s \<Rightarrow> string \<Rightarrow> string \<Rightarrow> WorkerStats \<Rightarrow> string \<Rightarrow> 's"

record 's SnapshotStore =
  sn_SnapshotCandidates :: "'s \<Rightarrow> AssistantRun \<Rightarrow> int \<Rightarrow> 's \<times> (worker_error + WorkerCandidate list)"
  sn_UpdateAssistantRunProgress :: "'s \<Rightarrow> string \<Rightarrow> WorkerStats \<Rightarrow> WorkerCandidate option \<Rightarrow> 's \<times> worker_error option"

record 's AIStore =
  ai_SaveAIResult :: "'s \<Rightarrow> WorkerMatch \<Rightarrow> MatchOutput \<Rightarrow> 's \<times> worker_error option"
  ai_AIResultExists :: "'s \<Rightarrow> string \<Rightarrow> int \<Rightarrow> string \<Rightarrow> int \<Rightarrow> 's \<times> (worker_error + bool)"
  ai_SaveAIFailure :: "'s \<Rightarrow> WorkerMatch \<Rightarrow> string \<Rightarrow> 's \<times> worker_error option"

record 's WorkItemStore =
  wi_CompleteWorkItem :: "'s \<Rightarrow> string \<Rightarrow> string \<Rightarrow> int \<Rightarrow> 's \<times> worker_error option"
  wi_RetryWorkItem :: "'s \<Rightarrow> string \<Rightarrow> string \<Rightarrow> int \<Rightarrow> string \<Rightarrow> 's \<times> worker_error option"

record 's AIProvider =
  av_Complete :: "'s \<Rightarrow> Request \<Rightarrow> 's \<times> MatchOutput \<times> ds_error option"
  av_Detailed :: "('s \<Rightarrow> Request \<Rightarrow> 's \<times> MatchOutput \<times> ProviderCallStats \<times> ds_error option) option"
  av_Batch :: "('s \<Rightarrow> BatchRequest \<Rightarrow> 's \<times> BatchResult \<times> worker_error option) option"

record 's WorkerStore =
  wk_ctx_done :: "'s \<Rightarrow> bool"
  wk_TryLock :: "'s \<Rightarrow> 's \<times> (worker_error + bool)"
  wk_Release :: "'s \<Rightarrow> 's"
  wk_Users :: "'s \<Rightarrow> 's \<times> (worker_error + WorkerUser list)"
  wk_Candidates :: "'s \<Rightarrow> string \<Rightarrow> time \<Rightarrow> int \<Rightarrow> 's \<times> (worker_error + WorkerCandidate list)"
  wk_SaveMatch :: "'s \<Rightarrow> WorkerMatch \<Rightarrow> 's \<times> (worker_error + bool)"
  wk_SaveDelivery :: "'s \<Rightarrow> WorkerDelivery \<Rightarrow> 's \<times> (worker_error + bool)"
  wk_AdvanceCursor :: "'s \<Rightarrow> string \<Rightarrow> time \<Rightarrow> string \<Rightarrow> 's \<times> worker_error option"
  wk_Runs :: "'s RunStore option"
  wk_UsersForRun :: "('s \<Rightarrow> AssistantRun \<Rightarrow> 's \<times> (worker_error + WorkerUser list)) option"
  wk_Snapshot :: "'s SnapshotStore option"
  wk_Pause :: "('s \<Rightarrow> string \<Rightarrow> 's \<times> worker_error option) option"
  wk_AI :: "'s AIStore option"
  wk_Settings :: "('s \<Rightarrow> string \<Rightarrow> 's \<times> (worker_error + AutomationSettings)) option"
  wk_Eligible :: "('s \<Rightarrow> string \<Rightarrow> 's \<times> (worker_error + bool)) option"
  wk_Items :: "'s WorkItemStore option"

record 's WorkerOptions =
  wo_Source :: string
  wo_Cutoff :: time
  wo_BatchSize :: int
  wo_Now :: time
  wo_AIProvider :: "'s AIProvider option"
  wo_TelegramEnabled :: bool
  wo_MaxSnapshotPages :: int

text \<open>The codecs: JSON of the hard criteria, SHA-256, and the order in which a map of proofs is visited.\<close>

record WorkerEnv =
  we_json :: "criteria \<Rightarrow> string"
  we_sha :: "string \<Rightarrow> string"
  we_order :: "(string \<times> CriterionProof) list \<Rightarrow> (string \<times> CriterionProof) list"

record 's WorkState =
  wz_s :: 's
  wz_stats :: WorkerStats
  wz_jobs :: "aiJob list"
  wz_failed :: "string list"

section \<open>Statistics\<close>

definition countProviderFailure :: "string \<Rightarrow> WorkerStats \<Rightarrow> WorkerStats" where
  "countProviderFailure category st =
     (if category = ProviderErrorRateLimit then st\<lparr>ww_AIRateLimit := ww_AIRateLimit st + 1\<rparr>
      else if category = ProviderErrorTimeout then st\<lparr>ww_AITimeouts := ww_AITimeouts st + 1\<rparr>
      else if category = ProviderErrorInvalidResponse then st\<lparr>ww_AIInvalidResponses := ww_AIInvalidResponses st + 1\<rparr>
      else if category = ProviderErrorAuth then st\<lparr>ww_AIAuth := ww_AIAuth st + 1\<rparr>
      else if category = ProviderErrorQuota then st\<lparr>ww_AIQuota := ww_AIQuota st + 1\<rparr>
      else if category = ProviderErrorServer then st\<lparr>ww_AIServer := ww_AIServer st + 1\<rparr>
      else if category = ProviderErrorNetwork then st\<lparr>ww_AINetwork := ww_AINetwork st + 1\<rparr>
      else if category = ProviderErrorContextLimit then st\<lparr>ww_AIContextLimit := ww_AIContextLimit st + 1\<rparr>
      else if category = ProviderErrorContentFilter then st\<lparr>ww_AIContentFilter := ww_AIContentFilter st + 1\<rparr>
      else if category = ProviderErrorInvalidRequest then st\<lparr>ww_AIInvalidRequest := ww_AIInvalidRequest st + 1\<rparr>
      else st)"

definition setAISkipReason :: "string \<Rightarrow> WorkerStats \<Rightarrow> WorkerStats" where
  "setAISkipReason reason st = (if ww_AISkipReason st = '''' then st\<lparr>ww_AISkipReason := reason\<rparr> else st)"

definition finalizeAIStats :: "WorkerStats \<Rightarrow> WorkerStats" where
  "finalizeAIStats st =
     (if ww_AICalls st > 0 \<and> ww_AIFailures st = ww_AICalls st then st\<lparr>ww_AIStatus := ''failed'', ww_AISkipReason := ''''\<rparr>
      else if ww_AICalls st > 0 \<and> (ww_AIFailures st > 0 \<or> ww_AISkipped st > 0)
      then st\<lparr>ww_AIStatus := ''partial'', ww_AISkipReason := ''''\<rparr>
      else if ww_AICalls st > 0 then st\<lparr>ww_AIStatus := ''completed'', ww_AISkipReason := ''''\<rparr>
      else if ww_AIStatus st = ''skipped'' \<and> ww_AISkipReason st \<noteq> '''' then st
      else if ww_AIEligible st = 0 then st\<lparr>ww_AIStatus := ''skipped'', ww_AISkipReason := ''no_eligible''\<rparr>
      else let st = st\<lparr>ww_AIStatus := ''skipped''\<rparr> in
        if ww_AISkipReason st = '''' then st\<lparr>ww_AISkipReason := ''unknown''\<rparr> else st)"

definition skip_ai :: "string \<Rightarrow> WorkerStats \<Rightarrow> WorkerStats" where
  "skip_ai reason st = setAISkipReason reason (st\<lparr>ww_AISkipped := ww_AISkipped st + 1\<rparr>)"

definition recordStats :: "ProviderCallStats \<Rightarrow> WorkerStats \<Rightarrow> WorkerStats" where
  "recordStats call st = st\<lparr>ww_AIHTTPAttempts := ww_AIHTTPAttempts st + ps_HTTPAttempts call,
     ww_AIRetries := ww_AIRetries st + ps_Retries call, ww_AIBatches := ww_AIBatches st + ps_Batches call,
     ww_AIPromptTokens := ww_AIPromptTokens st + ps_PromptTokens call,
     ww_AICompletionTokens := ww_AICompletionTokens st + ps_CompletionTokens call,
     ww_AICachedTokens := ww_AICachedTokens st + ps_CachedTokens call\<rparr>"

section \<open>Finishing an AI job\<close>

text \<open>A delivery is queued when the user may be notified; shared by the deterministic and the AI path.\<close>

definition notify :: "'s WorkerStore \<Rightarrow> WorkerUser \<Rightarrow> WorkerCandidate \<Rightarrow> 's WorkState \<Rightarrow> 's WorkState \<times> worker_error option" where
  "notify store user candidate z =
     (case (case wk_Eligible store of None \<Rightarrow> (wz_s z, Inr True) | Some f \<Rightarrow> f (wz_s z) (wu_ID user)) of
        (s, Inl e) \<Rightarrow> (z\<lparr>wz_s := s\<rparr>, Some e)
      | (s, Inr False) \<Rightarrow> (z\<lparr>wz_s := s\<rparr>, None)
      | (s, Inr True) \<Rightarrow>
          (case wk_SaveDelivery store s \<lparr>wd_UserID = wu_ID user, wd_VacancyID = wc_ID candidate,
                  wd_PreferenceVersion = pc_Version (wu_Preference user)\<rparr> of
             (s, Inl e) \<Rightarrow> (z\<lparr>wz_s := s\<rparr>, Some e)
           | (s, Inr created) \<Rightarrow>
               (z\<lparr>wz_s := s, wz_stats := (if created then (wz_stats z)\<lparr>ww_Notified := ww_Notified (wz_stats z) + 1\<rparr> else wz_stats z)\<rparr>, None)))"

definition finish_stats :: "aiJob \<Rightarrow> WorkerStats \<Rightarrow> WorkerStats" where
  "finish_stats job st = (if \<not> wc_AIRetry (aj_candidate job) then st\<lparr>ww_AICalls := ww_AICalls st + 1\<rparr>
     else st\<lparr>ww_AIRetries := ww_AIRetries st + 1\<rparr>)"

definition finish_failure :: "'s AIStore \<Rightarrow> aiJob \<Rightarrow> string \<Rightarrow> 's WorkState \<Rightarrow> 's WorkState \<times> worker_error option" where
  "finish_failure durable job category z =
     (let st = wz_stats z;
          st = (if \<not> wc_AIRetry (aj_candidate job) then st\<lparr>ww_AIFailures := ww_AIFailures st + 1\<rparr> else st);
          z = z\<lparr>wz_failed := wc_ID (aj_candidate job) # wz_failed z, wz_stats := countProviderFailure category st\<rparr>
      in case ai_SaveAIFailure durable (wz_s z) (aj_match job) category of (s, err) \<Rightarrow> (z\<lparr>wz_s := s\<rparr>, err))"

definition finish_success :: "WorkerEnv \<Rightarrow> 's WorkerStore \<Rightarrow> 's AIStore \<Rightarrow> bool \<Rightarrow> aiJob \<Rightarrow> MatchOutput \<Rightarrow> 's WorkState
    \<Rightarrow> 's WorkState \<times> worker_error option" where
  "finish_success env store durable telegram job answer z =
     (let out = ApplyHardGatePrecedence (we_order env) (wm_Result (aj_match job)) answer in
      case ai_SaveAIResult durable (wz_s z) (aj_match job) out of
        (s, Some e) \<Rightarrow> (z\<lparr>wz_s := s\<rparr>, Some e)
      | (s, None) \<Rightarrow>
          (let st = wz_stats z;
               st = (if wc_AIRetry (aj_candidate job) \<and> ww_AIFailures st > 0 then st\<lparr>ww_AIFailures := ww_AIFailures st - 1\<rparr> else st);
               st = st\<lparr>ww_AISucceeded := ww_AISucceeded st + 1\<rparr>;
               z = z\<lparr>wz_s := s\<rparr>
           in if mo_Decision out = DecisionMatch then
                (let z = z\<lparr>wz_stats := st\<lparr>ww_AIMatches := ww_AIMatches st + 1\<rparr>\<rparr> in
                 if telegram \<and> as_TelegramEnabled (aj_settings job) then notify store (aj_user job) (aj_candidate job) z
                 else (z, None))
              else if mo_Decision out = DecisionReview then (z\<lparr>wz_stats := st\<lparr>ww_AIReviews := ww_AIReviews st + 1\<rparr>\<rparr>, None)
              else if mo_Decision out = DecisionReject then (z\<lparr>wz_stats := st\<lparr>ww_AIRejects := ww_AIRejects st + 1\<rparr>\<rparr>, None)
              else (z\<lparr>wz_stats := st\<rparr>, None)))"

definition finish_job :: "WorkerEnv \<Rightarrow> 's WorkerStore \<Rightarrow> 's AIStore \<Rightarrow> bool \<Rightarrow> aiJob \<Rightarrow> MatchOutput \<Rightarrow> string \<Rightarrow> 's WorkState
    \<Rightarrow> 's WorkState \<times> worker_error option" where
  "finish_job env store durable telegram job answer category z0 =
     (let z = z0\<lparr>wz_stats := finish_stats job (wz_stats z0)\<rparr> in
      if category \<noteq> '''' then finish_failure durable job category z
      else finish_success env store durable telegram job answer z)"

section \<open>The AI jobs of a batch\<close>

fun finish_group :: "WorkerEnv \<Rightarrow> 's WorkerStore \<Rightarrow> 's AIStore \<Rightarrow> bool \<Rightarrow> BatchResult \<Rightarrow> aiJob list \<Rightarrow> 's WorkState
    \<Rightarrow> 's WorkState \<times> worker_error option" where
  "finish_group env store durable telegram result [] z = (z, None)"
| "finish_group env store durable telegram result (job # jobs) z =
     (let i = wc_ID (aj_candidate job);
          answer = (case map_of (bt_Outputs result) i of None \<Rightarrow> no_output | Some x \<Rightarrow> x);
          category = (case map_of (bt_Errors result) i of None \<Rightarrow> '''' | Some c \<Rightarrow> c);
          category = (if map_of (bt_Outputs result) i = None \<and> category = '''' then ProviderErrorInvalidResponse else category)
      in case finish_job env store durable telegram job answer category z of
           (z, Some e) \<Rightarrow> (z, Some e)
         | (z, None) \<Rightarrow> finish_group env store durable telegram result jobs z)"

definition batch_item :: "aiJob \<Rightarrow> BatchItem" where
  "batch_item job = \<lparr>bi_ID = wc_ID (aj_candidate job), bi_Title = aj_title job, bi_Skills = aj_skills job,
     bi_Description = aj_description job, bi_InputSnapshot = rq_InputSnapshot (aj_request job),
     bi_Evidence = rq_Evidence (aj_request job)\<rparr>"

fun run_groups :: "WorkerEnv \<Rightarrow> 's WorkerStore \<Rightarrow> 's AIStore \<Rightarrow> bool \<Rightarrow> ('s \<Rightarrow> BatchRequest \<Rightarrow> 's \<times> BatchResult \<times> worker_error option)
    \<Rightarrow> aiJob list \<Rightarrow> string list \<Rightarrow> 's WorkState \<Rightarrow> 's WorkState \<times> worker_error option" where
  "run_groups env store durable telegram batch jobs [] z = (z, None)"
| "run_groups env store durable telegram batch jobs (shared # order) z =
     (let grp = filter (\<lambda>j. aj_shared j = shared) jobs in
      case batch (wz_s z) \<lparr>br_SharedPreferences = shared, br_Items = map batch_item grp\<rparr> of (s, result, err) \<Rightarrow>
        let z = z\<lparr>wz_s := s, wz_stats := recordStats (bt_Stats result) (wz_stats z)\<rparr> in
        (case err of
           Some e \<Rightarrow> (z, Some e)
         | None \<Rightarrow>
             (case finish_group env store durable telegram result grp z of
                (z, Some e) \<Rightarrow> (z, Some e)
              | (z, None) \<Rightarrow> run_groups env store durable telegram batch jobs order z)))"

definition group_order :: "aiJob list \<Rightarrow> string list" where
  "group_order jobs = rev (remdups (rev (map aj_shared jobs)))"

definition single_call :: "'s AIProvider \<Rightarrow> aiJob \<Rightarrow> 's \<Rightarrow> 's \<times> MatchOutput \<times> ProviderCallStats \<times> ds_error option" where
  "single_call provider job s =
     (let request = (aj_request job)\<lparr>rq_InputSnapshot := aj_shared job @ newline @ rq_InputSnapshot (aj_request job)\<rparr> in
      case av_Detailed provider of
        Some f \<Rightarrow> (case f s request of (s, out, call, err) \<Rightarrow> (s, out, call\<lparr>ps_Batches := 1\<rparr>, err))
      | None \<Rightarrow> (case av_Complete provider s request of (s, out, err) \<Rightarrow>
          (s, out, no_call_stats\<lparr>ps_HTTPAttempts := 1, ps_Batches := 1\<rparr>, err)))"

fun run_singles :: "WorkerEnv \<Rightarrow> 's WorkerStore \<Rightarrow> 's AIStore \<Rightarrow> bool \<Rightarrow> 's AIProvider \<Rightarrow> aiJob list \<Rightarrow> 's WorkState
    \<Rightarrow> 's WorkState \<times> worker_error option" where
  "run_singles env store durable telegram provider [] z = (z, None)"
| "run_singles env store durable telegram provider (job # jobs) z =
     (case single_call provider job (wz_s z) of (s, answer, call, err) \<Rightarrow>
      let z = z\<lparr>wz_s := s, wz_stats := recordStats call (wz_stats z)\<rparr> in
      if err \<noteq> None \<and> wk_ctx_done store s then (z, Some WkContext)
      else let category = (case err of None \<Rightarrow> '''' | Some e \<Rightarrow>
                 if ps_Category call = '''' then providerErrorCategory e else ps_Category call)
        in case finish_job env store durable telegram job answer category z of
             (z, Some e) \<Rightarrow> (z, Some e)
           | (z, None) \<Rightarrow> run_singles env store durable telegram provider jobs z)"

definition processAIJobs :: "WorkerEnv \<Rightarrow> 's WorkerStore \<Rightarrow> 's AIStore \<Rightarrow> bool \<Rightarrow> 's AIProvider \<Rightarrow> 's WorkState
    \<Rightarrow> 's WorkState \<times> worker_error option" where
  "processAIJobs env store durable telegram provider z =
     (case av_Batch provider of
        Some batch \<Rightarrow> run_groups env store durable telegram batch (wz_jobs z) (group_order (wz_jobs z)) z
      | None \<Rightarrow> run_singles env store durable telegram provider (wz_jobs z) z)"

section \<open>The candidates of a batch\<close>

definition candidate_vacancy :: "WorkerCandidate \<Rightarrow> AssistVacancy" where
  "candidate_vacancy c =
     (let v = wc_Vacancy c;
          v = (if av_Title v = '''' then v\<lparr>av_Title := wc_Title c\<rparr> else v)
      in if av_Description v = '''' then v\<lparr>av_Description := wc_Description c\<rparr> else v)"

definition compactCandidateText :: "WorkerCandidate \<Rightarrow> string \<times> string list \<times> string" where
  "compactCandidateText c =
     (let title = (if wc_Title c = '''' then av_Title (wc_Vacancy c) else wc_Title c);
          description = (if wc_Description c = '''' then av_Description (wc_Vacancy c) else wc_Description c)
      in CompactVacancyFields title (av_Skills (wc_Vacancy c)) description)"

definition shared_text :: "WorkerEnv \<Rightarrow> WorkerUser \<Rightarrow> string" where
  "shared_text env user = ''PREFERENCES_JSON:'' @ newline @ we_json env (pc_HardCriteria (wu_Preference user))"

definition base_match :: "string \<Rightarrow> WorkerUser \<Rightarrow> WorkerCandidate \<Rightarrow> MatchResult \<Rightarrow> WorkerMatch" where
  "base_match runID user c r = \<lparr>wm_UserID = wu_ID user, wm_VacancyID = wc_ID c, wm_Source = wc_Source c,
     wm_ExternalID = wc_ExternalID c, wm_RunID = runID, wm_PreferenceVersion = pc_Version (wu_Preference user),
     wm_Result = r, wm_Method = '''', wm_Provider = '''', wm_Model = '''', wm_PromptVersion = '''', wm_InputSnapshotHash = '''',
     wm_VacancyRevision = wc_Revision c\<rparr>"

definition ai_evidence :: evidence where
  "ai_evidence = [(''vacancy:title'', True), (''vacancy:description'', True), (''preferences'', True)]"

definition ai_job :: "WorkerEnv \<Rightarrow> string \<Rightarrow> WorkerUser \<Rightarrow> WorkerCandidate \<Rightarrow> AutomationSettings \<Rightarrow> MatchResult \<Rightarrow> aiJob" where
  "ai_job env runID user c settings r =
     (case compactCandidateText c of (title, skills, description) \<Rightarrow>
      let input = CompactInputSnapshot title skills description; shared = shared_text env user in
      \<lparr>aj_candidate = c, aj_user = user,
       aj_match = (base_match runID user c r)\<lparr>wm_Source := '''', wm_ExternalID := '''', wm_Method := ''ai'', wm_Provider := ''deepseek'',
         wm_PromptVersion := ''batch-v7-id-list'', wm_InputSnapshotHash := we_sha env (shared @ newline @ input)\<rparr>,
       aj_request = \<lparr>rq_InputSnapshot = input, rq_Evidence = ai_evidence\<rparr>, aj_shared = shared, aj_settings = settings,
       aj_title = title, aj_skills = skills, aj_description = description\<rparr>)"

definition prefilter_output :: "MatchResult \<Rightarrow> MatchOutput" where
  "prefilter_output r = no_output\<lparr>mo_Decision := DecisionReject, mo_Score := 0, mo_Confidence := ''high'',
     mo_Conflicts := re_Conflicts r, mo_Rationale := ''hard_gate_prefilter''\<rparr>"

text \<open>The deterministic result of a candidate that is not an AI retry: saved, counted, perhaps notified.\<close>

definition record_match :: "'s WorkerStore \<Rightarrow> bool \<Rightarrow> AutomationSettings \<Rightarrow> WorkerUser \<Rightarrow> WorkerCandidate \<Rightarrow> MatchResult
    \<Rightarrow> 's WorkState \<Rightarrow> 's WorkState \<times> worker_error option" where
  "record_match store telegram settings user c r z =
     (if wc_AIRetry c then (z, None)
      else (case wk_SaveMatch store (wz_s z) (base_match (ww_RunID (wz_stats z)) user c r) of
          (s, Inl e) \<Rightarrow> (z\<lparr>wz_s := s\<rparr>, Some e)
        | (s, Inr created) \<Rightarrow>
            let z = z\<lparr>wz_s := s\<rparr> in
            if re_Decision r = DecisionMatch then
              (let z = z\<lparr>wz_stats := (wz_stats z)\<lparr>ww_Matched := ww_Matched (wz_stats z) + 1\<rparr>\<rparr> in
               if created \<and> \<not> as_AIEnabled settings \<and> telegram \<and> as_TelegramEnabled settings
               then notify store user c z else (z, None))
            else (z\<lparr>wz_stats := (wz_stats z)\<lparr>ww_Skipped := ww_Skipped (wz_stats z) + 1\<rparr>\<rparr>, None)))"

text \<open>Whether the candidate goes to the AI: opted out, unavailable, analysed before, rejected already, or a job.\<close>

definition consider_ai :: "WorkerEnv \<Rightarrow> 's WorkerStore \<Rightarrow> bool \<Rightarrow> AutomationSettings \<Rightarrow> WorkerUser \<Rightarrow> WorkerCandidate \<Rightarrow> MatchResult
    \<Rightarrow> 's WorkState \<Rightarrow> 's WorkState \<times> worker_error option" where
  "consider_ai env store hasProvider settings user c r z =
     (if \<not> as_AIEnabled settings then (z\<lparr>wz_stats := skip_ai ''user_opt_out'' (wz_stats z)\<rparr>, None)
      else
        let z = (if wc_AIRetry c then z else z\<lparr>wz_stats := (wz_stats z)\<lparr>ww_AIEligible := ww_AIEligible (wz_stats z) + 1\<rparr>\<rparr>) in
        (case (hasProvider, wk_AI store) of
           (True, Some durable) \<Rightarrow>
             (case ai_AIResultExists durable (wz_s z) (wu_ID user) (pc_Version (wu_Preference user)) (wc_ID c) (wc_Revision c) of
                (s, Inl e) \<Rightarrow> (z\<lparr>wz_s := s\<rparr>, Some e)
              | (s, Inr True) \<Rightarrow> (z\<lparr>wz_s := s, wz_stats := skip_ai ''already_analyzed'' (wz_stats z)\<rparr>, None)
              | (s, Inr False) \<Rightarrow>
                  let z = z\<lparr>wz_s := s\<rparr>; job = ai_job env (ww_RunID (wz_stats z)) user c settings r in
                  if re_Decision r = DecisionReject then
                    (let z = z\<lparr>wz_stats := skip_ai ''hard_reject'' (wz_stats z)\<rparr> in
                     case ai_SaveAIResult durable (wz_s z)
                            ((aj_match job)\<lparr>wm_Provider := ''prefilter'', wm_PromptVersion := ''hard-gate-prefilter-v1''\<rparr>)
                            (prefilter_output r) of
                       (s, err) \<Rightarrow> (z\<lparr>wz_s := s\<rparr>, err))
                  else (z\<lparr>wz_jobs := wz_jobs z @ [job]\<rparr>, None))
         | _ \<Rightarrow> (z\<lparr>wz_stats := skip_ai ''provider_unavailable'' (wz_stats z)\<rparr>, None)))"

definition no_settings :: AutomationSettings where
  "no_settings = \<lparr>as_AIEnabled = False, as_TelegramEnabled = False, as_ActivationAt = None\<rparr>"

definition process_user :: "WorkerEnv \<Rightarrow> 's WorkerStore \<Rightarrow> 's WorkerOptions \<Rightarrow> bool \<Rightarrow> WorkerCandidate \<Rightarrow> WorkerUser
    \<Rightarrow> 's WorkState \<Rightarrow> 's WorkState \<times> worker_error option" where
  "process_user env store opts manual c user z =
     (case (case wk_Settings store of None \<Rightarrow> (wz_s z, Inr no_settings) | Some f \<Rightarrow> f (wz_s z) (wu_ID user)) of
        (s, Inl e) \<Rightarrow> (z\<lparr>wz_s := s\<rparr>, Some e)
      | (s, Inr settings) \<Rightarrow>
          (let z = z\<lparr>wz_s := s\<rparr> in
           if \<not> manual \<and> (case as_ActivationAt settings of None \<Rightarrow> False | Some t \<Rightarrow> wc_ObservedAt c < t)
           then (z\<lparr>wz_stats := (wz_stats z)\<lparr>ww_Skipped := ww_Skipped (wz_stats z) + 1\<rparr>\<rparr>, None)
           else
             let z = (if wc_AIRetry c then z else z\<lparr>wz_stats := (wz_stats z)\<lparr>ww_Eligible := ww_Eligible (wz_stats z) + 1\<rparr>\<rparr>);
                 r = Match (candidate_vacancy c) (toPreferences (wu_Preference user)) (wo_Now opts)
             in (case record_match store (wo_TelegramEnabled opts) settings user c r z of
                   (z, Some e) \<Rightarrow> (z, Some e)
                 | (z, None) \<Rightarrow> consider_ai env store (wo_AIProvider opts \<noteq> None) settings user c r z)))"

fun user_loop :: "WorkerEnv \<Rightarrow> 's WorkerStore \<Rightarrow> 's WorkerOptions \<Rightarrow> bool \<Rightarrow> WorkerCandidate \<Rightarrow> WorkerUser list
    \<Rightarrow> 's WorkState \<Rightarrow> 's WorkState \<times> worker_error option" where
  "user_loop env store opts manual c [] z = (z, None)"
| "user_loop env store opts manual c (u # us) z =
     (case process_user env store opts manual c u z of
        (z, Some e) \<Rightarrow> (z, Some e)
      | (z, None) \<Rightarrow> user_loop env store opts manual c us z)"

fun candidate_loop :: "WorkerEnv \<Rightarrow> 's WorkerStore \<Rightarrow> 's WorkerOptions \<Rightarrow> bool \<Rightarrow> WorkerUser list \<Rightarrow> WorkerCandidate list
    \<Rightarrow> 's WorkState \<Rightarrow> 's WorkState \<times> worker_error option" where
  "candidate_loop env store opts manual users [] z = (z, None)"
| "candidate_loop env store opts manual users (c # cs) z =
     (if wk_ctx_done store (wz_s z) then (z, Some WkContext)
      else
        let z = (if wc_AIRetry c then z else z\<lparr>wz_stats := (wz_stats z)\<lparr>ww_Processed := ww_Processed (wz_stats z) + 1\<rparr>\<rparr>) in
        (case user_loop env store opts manual c users z of
           (z, Some e) \<Rightarrow> (z, Some e)
         | (z, None) \<Rightarrow> candidate_loop env store opts manual users cs z))"

fun settle_items :: "'s WorkItemStore \<Rightarrow> string list \<Rightarrow> WorkerCandidate list \<Rightarrow> 's \<Rightarrow> 's \<times> worker_error option" where
  "settle_items items failed [] s = (s, None)"
| "settle_items items failed (c # cs) s =
     (case (if List.member failed (wc_ID c)
            then wi_RetryWorkItem items s (wc_Source c) (wc_ExternalID c) (wc_Revision c) ''ai_provider_failed''
            else wi_CompleteWorkItem items s (wc_Source c) (wc_ExternalID c) (wc_Revision c)) of
        (s, Some e) \<Rightarrow> (s, Some e)
      | (s, None) \<Rightarrow> settle_items items failed cs s)"

definition ai_stage :: "WorkerEnv \<Rightarrow> 's WorkerStore \<Rightarrow> 's WorkerOptions \<Rightarrow> 's WorkState \<Rightarrow> 's WorkState \<times> worker_error option" where
  "ai_stage env store opts z =
     (case (wz_jobs z, wo_AIProvider opts, wk_AI store) of
        (_ # _, Some provider, Some durable) \<Rightarrow> processAIJobs env store durable (wo_TelegramEnabled opts) provider z
      | _ \<Rightarrow> (z, None))"

definition processCandidates :: "WorkerEnv \<Rightarrow> 's WorkerStore \<Rightarrow> 's WorkerOptions \<Rightarrow> WorkerUser list \<Rightarrow> WorkerCandidate list
    \<Rightarrow> WorkerStats \<Rightarrow> bool \<Rightarrow> 's \<Rightarrow> 's \<times> WorkerStats \<times> worker_error option" where
  "processCandidates env store opts users candidates stats manual s =
     (case candidate_loop env store opts manual users candidates \<lparr>wz_s = s, wz_stats = stats, wz_jobs = [], wz_failed = []\<rparr> of
        (z, Some e) \<Rightarrow> (wz_s z, wz_stats z, Some e)
      | (z, None) \<Rightarrow>
          (case ai_stage env store opts z of
             (z, Some e) \<Rightarrow> (wz_s z, wz_stats z, Some e)
           | (z, None) \<Rightarrow>
               (case (manual, wk_Items store) of
                  (False, Some items) \<Rightarrow>
                    (case settle_items items (wz_failed z) candidates (wz_s z) of (s, err) \<Rightarrow> (s, wz_stats z, err))
                | _ \<Rightarrow> (wz_s z, wz_stats z, None))))"

section \<open>A run of the worker\<close>

definition last_fresh :: "WorkerCandidate list \<Rightarrow> WorkerCandidate option" where
  "last_fresh cs = (case filter (\<lambda>c. \<not> wc_AIRetry c) cs of [] \<Rightarrow> None | ds \<Rightarrow> Some (last ds))"

definition move_cursor :: "WorkerCandidate option \<Rightarrow> AssistantRun \<Rightarrow> AssistantRun" where
  "move_cursor c run = (case c of None \<Rightarrow> run
     | Some x \<Rightarrow> run\<lparr>rn_CursorCreatedAt := Some (wc_CreatedAt x), rn_CursorVacancyID := wc_ID x\<rparr>)"

text \<open>The pages of a snapshot run. The last component tells whether the run was paused, so that it stays
  open; \<open>None\<close> is a run whose pages never end.\<close>

partial_function (option) snapshot_loop :: "WorkerEnv \<Rightarrow> 's WorkerStore \<Rightarrow> 's SnapshotStore \<Rightarrow> 's WorkerOptions \<Rightarrow> WorkerUser list
    \<Rightarrow> AssistantRun \<Rightarrow> int \<Rightarrow> WorkerStats \<Rightarrow> 's \<Rightarrow> ('s \<times> WorkerStats \<times> worker_error option \<times> bool) option" where
  "snapshot_loop env store snapshot opts users run pages stats s =
     (case sn_SnapshotCandidates snapshot s run (wo_BatchSize opts) of (s, got) \<Rightarrow>
      case got of
        Inl e \<Rightarrow> Some (s, stats, Some e, False)
      | Inr candidates \<Rightarrow>
          if candidates = [] then Some (s, stats, None, False)
          else
            (case processCandidates env store opts users candidates stats True s of (s, stats, err) \<Rightarrow>
             case err of
               Some e \<Rightarrow> Some (s, stats, Some e, False)
             | None \<Rightarrow>
                 (case sn_UpdateAssistantRunProgress snapshot s (rn_ID run) stats (last_fresh candidates) of (s, err) \<Rightarrow>
                  case err of
                    Some e \<Rightarrow> Some (s, stats, Some e, False)
                  | None \<Rightarrow>
                      if wo_MaxSnapshotPages opts > 0 \<and> pages + 1 \<ge> wo_MaxSnapshotPages opts then
                        (case wk_Pause store of
                           None \<Rightarrow> Some (s, stats, Some WkNoControlStore, False)
                         | Some pause \<Rightarrow>
                             (case pause s (rn_ID run) of
                                (s, Some e) \<Rightarrow> Some (s, stats, Some e, False)
                              | (s, None) \<Rightarrow> Some (s, stats, None, True)))
                      else snapshot_loop env store snapshot opts users (move_cursor (last_fresh candidates) run) (pages + 1) stats s)))"

definition run_claimed :: "WorkerEnv \<Rightarrow> 's WorkerStore \<Rightarrow> 's WorkerOptions \<Rightarrow> AssistantRun \<Rightarrow> 's
    \<Rightarrow> ('s \<times> WorkerStats \<times> worker_error option \<times> bool) option" where
  "run_claimed env store opts run s =
     (case (case wk_UsersForRun store of None \<Rightarrow> (s, Inr []) | Some f \<Rightarrow> f s run) of
        (s, Inl e) \<Rightarrow> Some (s, no_worker_stats, Some e, False)
      | (s, Inr users) \<Rightarrow>
          (let stats = (rn_Counters run)\<lparr>ww_Users := int (length users), ww_RunID := rn_ID run, ww_Notified := 0\<rparr> in
           if users = [] then Some (s, stats, None, False)
           else (case wk_Snapshot store of
               None \<Rightarrow> Some (s, stats, Some WkNoSnapshotStore, False)
             | Some snapshot \<Rightarrow> snapshot_loop env store snapshot opts users run 0 stats s)))"

definition run_incremental :: "WorkerEnv \<Rightarrow> 's WorkerStore \<Rightarrow> 's WorkerOptions \<Rightarrow> 's \<Rightarrow> 's \<times> WorkerStats \<times> worker_error option" where
  "run_incremental env store opts s =
     (case wk_Users store s of
        (s, Inl e) \<Rightarrow> (s, no_worker_stats, Some e)
      | (s, Inr users) \<Rightarrow>
          (let stats = no_worker_stats\<lparr>ww_Users := int (length users)\<rparr> in
           if users = [] then (s, stats, None)
           else (case wk_Candidates store s (wo_Source opts) (wo_Cutoff opts) (wo_BatchSize opts) of
               (s, Inl e) \<Rightarrow> (s, stats, Some e)
             | (s, Inr candidates) \<Rightarrow>
                 (case processCandidates env store opts users candidates stats False s of
                    (s, stats, Some e) \<Rightarrow> (s, stats, Some e)
                  | (s, stats, None) \<Rightarrow>
                      if candidates = [] then (s, stats, None)
                      else let c = last candidates;
                               observedAt = (if IsZero (wc_ObservedAt c) then wo_Now opts else wc_ObservedAt c)
                           in (case wk_AdvanceCursor store s (wo_Source opts) observedAt (wc_ExternalID c) of
                                 (s, err) \<Rightarrow> (s, stats, err))))))"

definition worker_defaults :: "time \<Rightarrow> 's WorkerOptions \<Rightarrow> 's WorkerOptions" where
  "worker_defaults clock opts = opts\<lparr>
     wo_BatchSize := if wo_BatchSize opts < 1 \<or> wo_BatchSize opts > 100 then 25 else wo_BatchSize opts,
     wo_Source := if wo_Source opts = '''' then ''hh'' else wo_Source opts,
     wo_Now := if IsZero (wo_Now opts) then clock else wo_Now opts\<rparr>"

definition complete_run :: "'s RunStore \<Rightarrow> string \<Rightarrow> WorkerStats \<Rightarrow> worker_error option \<Rightarrow> 's \<Rightarrow> 's \<times> WorkerStats" where
  "complete_run runs runID stats err s =
     (let stats = finalizeAIStats stats in
      (rs_CompleteAssistantRun runs s runID (if err = None then ''succeeded'' else ''failed'') stats
         (if err = None then '''' else ''worker_failed''), stats))"

definition RunOnce :: "WorkerEnv \<Rightarrow> time \<Rightarrow> 's WorkerStore \<Rightarrow> 's WorkerOptions \<Rightarrow> 's \<Rightarrow> ('s \<times> WorkerStats \<times> worker_error option) option" where
  "RunOnce env clock store opts0 s =
     (let opts = worker_defaults clock opts0 in
      case wk_TryLock store s of
        (s, Inl e) \<Rightarrow> Some (s, no_worker_stats, Some e)
      | (s, Inr False) \<Rightarrow> Some (s, no_worker_stats, None)
      | (s, Inr True) \<Rightarrow>
          map_option (\<lambda>(s, stats, err). (wk_Release store s, stats, err))
            (case (case wk_Runs store of None \<Rightarrow> (s, Inr None) | Some runs \<Rightarrow> rs_ClaimAssistantRun runs s) of
               (s, Inl e) \<Rightarrow> Some (s, no_worker_stats, Some e)
             | (s, Inr None) \<Rightarrow> Some (run_incremental env store opts s)
             | (s, Inr (Some run)) \<Rightarrow>
                 map_option (\<lambda>(s, stats, err, paused).
                     if paused \<or> rn_ID run = '''' then (s, stats, err)
                     else (case wk_Runs store of None \<Rightarrow> (s, stats, err)
                       | Some runs \<Rightarrow> (case complete_run runs (rn_ID run) stats err s of (s, stats) \<Rightarrow> (s, stats, err))))
                   (run_claimed env store opts run s)))"

section \<open>Lemmas: the counters\<close>

text \<open>The counters that account for the pairs of users and candidates: processed candidates, pairs with a
  verdict, pairs still owed to the AI, and what became of the AI calls.\<close>

definition verdicts :: "WorkerStats \<Rightarrow> int" where
  "verdicts st = ww_Matched st + ww_Skipped st"

definition owed :: "'s WorkState \<Rightarrow> int" where
  "owed z = ww_Eligible (wz_stats z) - ww_AISkipped (wz_stats z) - int (length (wz_jobs z))"

definition calls_of :: "WorkerStats \<Rightarrow> int \<times> int \<times> int" where
  "calls_of st = (ww_AICalls st, ww_AISucceeded st, ww_AIFailures st)"

lemma skip_ai_fields [simp]:
  "verdicts (skip_ai x st) = verdicts st" "calls_of (skip_ai x st) = calls_of st" "ww_Eligible (skip_ai x st) = ww_Eligible st"
  "ww_AISkipped (skip_ai x st) = ww_AISkipped st + 1" "ww_Processed (skip_ai x st) = ww_Processed st"
  by (simp_all add: skip_ai_def setAISkipReason_def verdicts_def calls_of_def)

lemma notify_counts:
  assumes "notify store user c z = (z', err)"
  shows "wz_jobs z' = wz_jobs z" "verdicts (wz_stats z') = verdicts (wz_stats z)" "calls_of (wz_stats z') = calls_of (wz_stats z)"
    "ww_Processed (wz_stats z') = ww_Processed (wz_stats z)" "owed z' = owed z"
    "ww_Eligible (wz_stats z') = ww_Eligible (wz_stats z)" "ww_AISkipped (wz_stats z') = ww_AISkipped (wz_stats z)"
    "ww_AIEligible (wz_stats z') = ww_AIEligible (wz_stats z)"
  using assms by (auto simp: notify_def verdicts_def calls_of_def owed_def split: prod.splits sum.splits bool.splits option.splits)

lemma record_match_counts:
  assumes "record_match store telegram settings user c r z = (z', None)" "\<not> wc_AIRetry c"
  shows "verdicts (wz_stats z') = verdicts (wz_stats z) + 1" "calls_of (wz_stats z') = calls_of (wz_stats z)"
    "ww_Processed (wz_stats z') = ww_Processed (wz_stats z)" "owed z' = owed z"
proof -
  obtain s x where sm: "wk_SaveMatch store (wz_s z) (base_match (ww_RunID (wz_stats z)) user c r) = (s, x)" by fastforce
  with assms obtain created where x: "x = Inr created" by (cases x) (auto simp: record_match_def)
  define m where "m = z\<lparr>wz_s := s, wz_stats := (wz_stats z)\<lparr>ww_Matched := ww_Matched (wz_stats z) + 1\<rparr>\<rparr>"
  define k where "k = z\<lparr>wz_s := s, wz_stats := (wz_stats z)\<lparr>ww_Skipped := ww_Skipped (wz_stats z) + 1\<rparr>\<rparr>"
  have step: "record_match store telegram settings user c r z = (if re_Decision r = DecisionMatch
      then if created \<and> \<not> as_AIEnabled settings \<and> telegram \<and> as_TelegramEnabled settings then notify store user c m else (m, None)
      else (k, None))"
    using assms(2) sm x by (simp add: record_match_def Let_def m_def k_def)
  have "verdicts (wz_stats z') = verdicts (wz_stats z) + 1 \<and> calls_of (wz_stats z') = calls_of (wz_stats z)
    \<and> ww_Processed (wz_stats z') = ww_Processed (wz_stats z) \<and> owed z' = owed z"
  proof (cases "re_Decision r = DecisionMatch \<and> created \<and> \<not> as_AIEnabled settings \<and> telegram \<and> as_TelegramEnabled settings")
    case True
    with assms(1) step have "notify store user c m = (z', None)" by simp
    from notify_counts [OF this] show ?thesis by (simp add: m_def verdicts_def calls_of_def owed_def)
  next
    case False
    with assms(1) step have "z' = (if re_Decision r = DecisionMatch then m else k)" by (simp split: if_split_asm)
    then show ?thesis by (simp add: m_def k_def verdicts_def calls_of_def owed_def)
  qed
  then show "verdicts (wz_stats z') = verdicts (wz_stats z) + 1" "calls_of (wz_stats z') = calls_of (wz_stats z)"
    "ww_Processed (wz_stats z') = ww_Processed (wz_stats z)" "owed z' = owed z" by simp_all
qed

lemma ai_job_candidate [simp]: "aj_candidate (ai_job env runID user c settings r) = c"
  by (simp add: ai_job_def Let_def split: prod.splits)

lemma consider_ai_cases:
  assumes "consider_ai env store hasProvider settings user c r z = (z', None)"
  obtains (skip) y s x where "y = z \<or> y = z\<lparr>wz_stats := (wz_stats z)\<lparr>ww_AIEligible := ww_AIEligible (wz_stats z) + 1\<rparr>\<rparr>"
      "z' = y\<lparr>wz_s := s, wz_stats := skip_ai x (wz_stats y)\<rparr>"
  | (job) y s j where "y = z \<or> y = z\<lparr>wz_stats := (wz_stats z)\<lparr>ww_AIEligible := ww_AIEligible (wz_stats z) + 1\<rparr>\<rparr>"
      "z' = y\<lparr>wz_s := s, wz_jobs := wz_jobs y @ [j]\<rparr>" "aj_candidate j = c" "re_Decision r \<noteq> DecisionReject"
      "aj_user j = user" "wm_Result (aj_match j) = r" "hasProvider" "wk_AI store \<noteq> None"
proof (cases "as_AIEnabled settings")
  case False
  with assms have "z' = z\<lparr>wz_s := wz_s z, wz_stats := skip_ai ''user_opt_out'' (wz_stats z)\<rparr>" by (simp add: consider_ai_def)
  then show ?thesis by (rule skip [OF disjI1 [OF refl]])
next
  case ai: True
  define y where "y = (if wc_AIRetry c then z else z\<lparr>wz_stats := (wz_stats z)\<lparr>ww_AIEligible := ww_AIEligible (wz_stats z) + 1\<rparr>\<rparr>)"
  have y: "y = z \<or> y = z\<lparr>wz_stats := (wz_stats z)\<lparr>ww_AIEligible := ww_AIEligible (wz_stats z) + 1\<rparr>\<rparr>" by (simp add: y_def)
  show ?thesis
  proof (cases "hasProvider \<and> wk_AI store \<noteq> None")
    case False
    then have "z' = y\<lparr>wz_s := wz_s y, wz_stats := skip_ai ''provider_unavailable'' (wz_stats y)\<rparr>"
      using assms ai by (auto simp: consider_ai_def Let_def simp flip: y_def split: bool.splits option.splits)
    then show ?thesis by (rule skip [OF y])
  next
    case True
    then obtain durable where d: "wk_AI store = Some durable" "hasProvider" by auto
    obtain s x where e: "ai_AIResultExists durable (wz_s y) (wu_ID user) (pc_Version (wu_Preference user)) (wc_ID c) (wc_Revision c) = (s, x)"
      by fastforce
    note step = assms [unfolded consider_ai_def Let_def, folded y_def]
    from step ai d e have "x \<noteq> Inl f" for f by auto
    then obtain b where b: "x = Inr b" by (cases x) auto
    show ?thesis
    proof (cases b)
      case True
      then have "z' = y\<lparr>wz_s := s, wz_stats := skip_ai ''already_analyzed'' (wz_stats y)\<rparr>" using step ai d e b by auto
      then show ?thesis by (rule skip [OF y])
    next
      case False
      let ?j = "ai_job env (ww_RunID (wz_stats y)) user c settings r"
      show ?thesis
      proof (cases "re_Decision r = DecisionReject")
        case True
        obtain s' f where sv: "ai_SaveAIResult durable s
            ((aj_match ?j)\<lparr>wm_Provider := ''prefilter'', wm_PromptVersion := ''hard-gate-prefilter-v1''\<rparr>) (prefilter_output r) = (s', f)"
          by fastforce
        have "z' = y\<lparr>wz_s := s', wz_stats := skip_ai ''hard_reject'' (wz_stats y)\<rparr>"
          using step ai d e b False True sv by auto
        then show ?thesis by (rule skip [OF y])
      next
        case ok: False
        then have "z' = y\<lparr>wz_s := s, wz_jobs := wz_jobs y @ [?j]\<rparr>" using step ai d e b False by auto
        moreover have "aj_user ?j = user" "wm_Result (aj_match ?j) = r"
          by (simp_all add: ai_job_def base_match_def Let_def split: prod.splits)
        ultimately show ?thesis using ok d by (intro job [OF y]) simp_all
      qed
    qed
  qed
qed

lemma consider_ai_counts:
  assumes "consider_ai env store hasProvider settings user c r z = (z', None)"
  shows "verdicts (wz_stats z') = verdicts (wz_stats z) \<and> calls_of (wz_stats z') = calls_of (wz_stats z)
    \<and> ww_Processed (wz_stats z') = ww_Processed (wz_stats z) \<and> owed z' = owed z - 1"
  using assms
proof (cases rule: consider_ai_cases)
  case (skip y s x)
  then show ?thesis by (auto simp: owed_def) (simp_all add: verdicts_def calls_of_def)
next
  case (job y s j)
  then show ?thesis by (auto simp: owed_def verdicts_def calls_of_def)
qed

lemma record_match_jobs:
  assumes "record_match store telegram settings user c r z = (z', err)"
  shows "wz_jobs z' = wz_jobs z"
proof (cases "wc_AIRetry c")
  case False
  obtain s x where sm: "wk_SaveMatch store (wz_s z) (base_match (ww_RunID (wz_stats z)) user c r) = (s, x)" by fastforce
  show ?thesis
  proof (cases x)
    case (Inl e)
    with assms sm False show ?thesis by (auto simp: record_match_def)
  next
    case (Inr created)
    let ?m = "z\<lparr>wz_s := s, wz_stats := (wz_stats z)\<lparr>ww_Matched := ww_Matched (wz_stats z) + 1\<rparr>\<rparr>"
    show ?thesis
    proof (cases "re_Decision r = DecisionMatch \<and> created \<and> \<not> as_AIEnabled settings \<and> telegram \<and> as_TelegramEnabled settings")
      case True
      with assms sm False Inr have "notify store user c ?m = (z', err)" by (simp add: record_match_def Let_def)
      from notify_counts(1) [OF this] show ?thesis by simp
    next
      case n: False
      with assms sm False Inr show ?thesis by (auto simp: record_match_def Let_def split: if_split_asm)
    qed
  qed
qed (use assms in \<open>simp add: record_match_def\<close>)

text \<open>The jobs of a batch without retries: none is a retry, and there are none unless someone can take them.\<close>

definition fresh_jobs :: "bool \<Rightarrow> 's WorkState \<Rightarrow> bool" where
  "fresh_jobs able z \<longleftrightarrow> list_all (\<lambda>j. \<not> wc_AIRetry (aj_candidate j)) (wz_jobs z) \<and> (able \<or> wz_jobs z = [])"

definition ai_able :: "'s WorkerStore \<Rightarrow> 's WorkerOptions \<Rightarrow> bool" where
  "ai_able store opts \<longleftrightarrow> wo_AIProvider opts \<noteq> None \<and> wk_AI store \<noteq> None"

lemma process_user_counts:
  assumes "process_user env store opts manual c user z = (z', None)" "\<not> wc_AIRetry c"
  shows "verdicts (wz_stats z') = verdicts (wz_stats z) + 1 \<and> calls_of (wz_stats z') = calls_of (wz_stats z)
    \<and> ww_Processed (wz_stats z') = ww_Processed (wz_stats z) \<and> owed z' = owed z \<and> (fresh_jobs (ai_able store opts) z \<longrightarrow> fresh_jobs (ai_able store opts) z')"
proof -
  obtain s x where st: "(case wk_Settings store of None \<Rightarrow> (wz_s z, Inr no_settings) | Some f \<Rightarrow> f (wz_s z) (wu_ID user)) = (s, x)" by fastforce
  note step = assms(1) [unfolded process_user_def st]
  from step obtain settings where x: "x = Inr settings" by (cases x) auto
  let ?early = "\<not> manual \<and> (case as_ActivationAt settings of None \<Rightarrow> False | Some t \<Rightarrow> wc_ObservedAt c < t)"
  show ?thesis
  proof (cases ?early)
    case True
    with step x have "z' = z\<lparr>wz_s := s, wz_stats := (wz_stats z)\<lparr>ww_Skipped := ww_Skipped (wz_stats z) + 1\<rparr>\<rparr>" by simp
    then show ?thesis by (simp add: verdicts_def calls_of_def owed_def fresh_jobs_def)
  next
    case False
    define r where "r = Match (candidate_vacancy c) (toPreferences (wu_Preference user)) (wo_Now opts)"
    define y where "y = z\<lparr>wz_s := s, wz_stats := (wz_stats z)\<lparr>ww_Eligible := ww_Eligible (wz_stats z) + 1\<rparr>\<rparr>"
    obtain z1 e1 where m: "record_match store (wo_TelegramEnabled opts) settings user c r y = (z1, e1)" by fastforce
    have e: "e1 = None" "consider_ai env store (wo_AIProvider opts \<noteq> None) settings user c r z1 = (z', None)"
      using step x False assms(2) m by (auto simp: Let_def simp flip: r_def y_def split: option.splits)
    note 1 = record_match_counts [OF m [unfolded e(1)] assms(2)]
    note 2 = consider_ai_counts [OF e(2)]
    have j: "wz_jobs z1 = wz_jobs z" using record_match_jobs [OF m] by (simp add: y_def)
    have "fresh_jobs (ai_able store opts) z \<longrightarrow> fresh_jobs (ai_able store opts) z'" using e(2)
    proof (cases rule: consider_ai_cases)
      case skip
      with j show ?thesis by (auto simp: fresh_jobs_def)
    next
      case job
      with j assms(2) show ?thesis by (auto simp: fresh_jobs_def ai_able_def)
    qed
    with 1 2 show ?thesis by (simp add: y_def) (simp add: owed_def verdicts_def calls_of_def)
  qed
qed

lemma user_loop_counts:
  assumes "\<not> wc_AIRetry c"
  shows "user_loop env store opts manual c us z = (z', None) \<Longrightarrow>
    verdicts (wz_stats z') = verdicts (wz_stats z) + int (length us) \<and> calls_of (wz_stats z') = calls_of (wz_stats z)
    \<and> ww_Processed (wz_stats z') = ww_Processed (wz_stats z) \<and> owed z' = owed z \<and> (fresh_jobs (ai_able store opts) z \<longrightarrow> fresh_jobs (ai_able store opts) z')"
proof (induction us arbitrary: z)
  case (Cons u us)
  obtain z1 e where p: "process_user env store opts manual c u z = (z1, e)" by fastforce
  with Cons.prems have "e = None" "user_loop env store opts manual c us z1 = (z', None)" by (auto split: option.splits)
  with Cons.IH [of z1] process_user_counts [of env store opts manual c u z z1] p assms show ?case by auto
qed simp

lemma candidate_loop_counts:
  "list_all (\<lambda>c. \<not> wc_AIRetry c) cs \<Longrightarrow> candidate_loop env store opts manual us cs z = (z', None) \<Longrightarrow>
    verdicts (wz_stats z') = verdicts (wz_stats z) + int (length cs) * int (length us) \<and> calls_of (wz_stats z') = calls_of (wz_stats z)
    \<and> ww_Processed (wz_stats z') = ww_Processed (wz_stats z) + int (length cs) \<and> owed z' = owed z \<and> (fresh_jobs (ai_able store opts) z \<longrightarrow> fresh_jobs (ai_able store opts) z')"
proof (induction cs arbitrary: z)
  case (Cons c cs)
  define y where "y = z\<lparr>wz_stats := (wz_stats z)\<lparr>ww_Processed := ww_Processed (wz_stats z) + 1\<rparr>\<rparr>"
  obtain z1 e where p: "user_loop env store opts manual c us y = (z1, e)" by fastforce
  have c: "\<not> wc_AIRetry c" "list_all (\<lambda>c. \<not> wc_AIRetry c) cs" using Cons.prems(1) by simp_all
  have "e = None" "candidate_loop env store opts manual us cs z1 = (z', None)"
    using Cons.prems(2) p c by (auto simp: Let_def simp flip: y_def split: if_splits option.splits)
  with Cons.IH [OF c(2), of z1] user_loop_counts [OF c(1), of env store opts manual us y z1] p
  have "verdicts (wz_stats z') = verdicts (wz_stats y) + int (length us) + int (length cs) * int (length us)"
    "calls_of (wz_stats z') = calls_of (wz_stats y)" "ww_Processed (wz_stats z') = ww_Processed (wz_stats y) + int (length cs)"
    "owed z' = owed y" "fresh_jobs (ai_able store opts) y \<longrightarrow> fresh_jobs (ai_able store opts) z'" by auto
  then show ?case by (simp add: y_def verdicts_def calls_of_def owed_def fresh_jobs_def algebra_simps)
qed simp

section \<open>Lemmas: the AI jobs\<close>

lemma countProviderFailure_fields [simp]:
  "verdicts (countProviderFailure x st) = verdicts st" "calls_of (countProviderFailure x st) = calls_of st"
  "ww_Eligible (countProviderFailure x st) = ww_Eligible st" "ww_AISkipped (countProviderFailure x st) = ww_AISkipped st"
  "ww_Processed (countProviderFailure x st) = ww_Processed st"
  by (simp_all add: countProviderFailure_def verdicts_def calls_of_def)

lemma recordStats_fields [simp]:
  "verdicts (recordStats x st) = verdicts st" "calls_of (recordStats x st) = calls_of st"
  "ww_Eligible (recordStats x st) = ww_Eligible st" "ww_AISkipped (recordStats x st) = ww_AISkipped st"
  "ww_Processed (recordStats x st) = ww_Processed st"
  by (simp_all add: recordStats_def verdicts_def calls_of_def)

text \<open>The counters a finished job leaves alone, and the ones it moves: one call more, and one success or
  one failure more.\<close>

definition settled :: "int \<Rightarrow> WorkerStats \<Rightarrow> WorkerStats \<Rightarrow> bool" where
  "settled n st st' \<longleftrightarrow> verdicts st' = verdicts st \<and> ww_Eligible st' = ww_Eligible st \<and> ww_AISkipped st' = ww_AISkipped st
     \<and> ww_Processed st' = ww_Processed st \<and> ww_AICalls st' = ww_AICalls st + n
     \<and> ww_AISucceeded st' + ww_AIFailures st' = ww_AISucceeded st + ww_AIFailures st + n"

lemma settled_refl [simp]: "settled 0 st st" "settled 0 st (recordStats x st)"
  by (simp_all add: settled_def) (simp add: recordStats_def)

lemma settled_trans: "settled m a b \<Longrightarrow> settled n b c \<Longrightarrow> settled (m + n) a c"
  by (simp add: settled_def)

lemma notify_settled: "notify store u c z = (z', err) \<Longrightarrow> settled 0 (wz_stats z) (wz_stats z')"
  using notify_counts [of store u c z z' err] by (simp add: settled_def calls_of_def)

lemma finish_success_settled:
  assumes "finish_success env store durable telegram job answer z = (z', None)" "\<not> wc_AIRetry (aj_candidate job)"
  shows "settled 1 ((wz_stats z)\<lparr>ww_AICalls := ww_AICalls (wz_stats z) - 1\<rparr>) (wz_stats z')"
proof -
  define out where "out = ApplyHardGatePrecedence (we_order env) (wm_Result (aj_match job)) answer"
  obtain s e where sv: "ai_SaveAIResult durable (wz_s z) (aj_match job) out = (s, e)" by fastforce
  note step = assms(1) [unfolded finish_success_def Let_def, folded out_def, unfolded sv]
  from step have e: "e = None" by (cases e) auto
  define st where "st = (wz_stats z)\<lparr>ww_AISucceeded := ww_AISucceeded (wz_stats z) + 1\<rparr>"
  define zm where "zm = z\<lparr>wz_s := s, wz_stats := st\<lparr>ww_AIMatches := ww_AIMatches st + 1\<rparr>\<rparr>"
  show ?thesis
  proof (cases "mo_Decision out = DecisionMatch \<and> telegram \<and> as_TelegramEnabled (aj_settings job)")
    case True
    then have n: "notify store (aj_user job) (aj_candidate job) zm = (z', None)"
      using step e assms(2) by (simp add: zm_def st_def)
    have "settled 1 ((wz_stats z)\<lparr>ww_AICalls := ww_AICalls (wz_stats z) - 1\<rparr>) (wz_stats zm)"
      by (simp add: settled_def zm_def st_def verdicts_def)
    from settled_trans [OF this notify_settled [OF n]] show ?thesis by simp
  next
    case False
    then have "wz_stats z' \<in> {st, st\<lparr>ww_AIMatches := ww_AIMatches st + 1\<rparr>, st\<lparr>ww_AIReviews := ww_AIReviews st + 1\<rparr>,
        st\<lparr>ww_AIRejects := ww_AIRejects st + 1\<rparr>}"
      using step e assms(2) by (auto simp: st_def split: if_split_asm)
    then show ?thesis by (auto simp: settled_def st_def verdicts_def)
  qed
qed

lemma finish_job_settled:
  assumes "finish_job env store durable telegram job answer category z = (z', None)" "\<not> wc_AIRetry (aj_candidate job)"
  shows "settled 1 (wz_stats z) (wz_stats z')"
proof -
  define y where "y = z\<lparr>wz_stats := finish_stats job (wz_stats z)\<rparr>"
  have y: "wz_stats y = (wz_stats z)\<lparr>ww_AICalls := ww_AICalls (wz_stats z) + 1\<rparr>"
    using assms(2) by (simp add: y_def finish_stats_def)
  note step = assms(1) [unfolded finish_job_def Let_def, folded y_def]
  show ?thesis
  proof (cases "category = ''''")
    case True
    with step have "finish_success env store durable telegram job answer y = (z', None)" by simp
    from finish_success_settled [OF this assms(2)] show ?thesis by (simp add: y)
  next
    case False
    with step have "finish_failure durable job category y = (z', None)" by simp
    then have "wz_stats z' = countProviderFailure category ((wz_stats y)\<lparr>ww_AIFailures := ww_AIFailures (wz_stats y) + 1\<rparr>)"
      using assms(2) by (auto simp: finish_failure_def Let_def split: prod.splits)
    moreover have "ww_AICalls (countProviderFailure category st) = ww_AICalls st"
      "ww_AISucceeded (countProviderFailure category st) = ww_AISucceeded st"
      "ww_AIFailures (countProviderFailure category st) = ww_AIFailures st" for st
      by (simp_all add: countProviderFailure_def)
    ultimately show ?thesis by (simp add: settled_def y) (simp add: verdicts_def)
  qed
qed

lemma finish_group_settled:
  "finish_group env store durable telegram result jobs z = (z', None) \<Longrightarrow> list_all (\<lambda>j. \<not> wc_AIRetry (aj_candidate j)) jobs \<Longrightarrow>
     settled (int (length jobs)) (wz_stats z) (wz_stats z')"
proof (induction jobs arbitrary: z)
  case (Cons job jobs)
  obtain answer category z1 e where f: "finish_job env store durable telegram job answer category z = (z1, e)"
    and n: "e = None" "finish_group env store durable telegram result jobs z1 = (z', None)"
    using Cons.prems(1) by (auto simp: Let_def split: prod.splits option.splits)
  from settled_trans [OF finish_job_settled [OF f [unfolded n(1)]] Cons.IH [OF n(2)]] Cons.prems(2) show ?case by simp
qed simp

lemma run_singles_settled:
  "run_singles env store durable telegram provider jobs z = (z', None) \<Longrightarrow> list_all (\<lambda>j. \<not> wc_AIRetry (aj_candidate j)) jobs \<Longrightarrow>
     settled (int (length jobs)) (wz_stats z) (wz_stats z')"
proof (induction jobs arbitrary: z)
  case (Cons job jobs)
  obtain s answer call err where c: "single_call provider job (wz_s z) = (s, answer, call, err)" by (metis prod_cases4)
  define y where "y = z\<lparr>wz_s := s, wz_stats := recordStats call (wz_stats z)\<rparr>"
  obtain category z1 e where f: "finish_job env store durable telegram job answer category y = (z1, e)"
    and n: "e = None" "run_singles env store durable telegram provider jobs z1 = (z', None)"
    using Cons.prems(1) c by (auto simp: Let_def y_def split: prod.splits option.splits if_split_asm)
  have "settled 0 (wz_stats z) (wz_stats y)" by (simp add: y_def)
  from settled_trans [OF this settled_trans [OF finish_job_settled [OF f [unfolded n(1)]] Cons.IH [OF n(2)]]] Cons.prems(2)
  show ?case by simp
qed simp

lemma run_groups_settled:
  "run_groups env store durable telegram batch jobs order z = (z', None) \<Longrightarrow> list_all (\<lambda>j. \<not> wc_AIRetry (aj_candidate j)) jobs \<Longrightarrow>
     settled (\<Sum>k\<leftarrow>order. int (length (filter (\<lambda>j. aj_shared j = k) jobs))) (wz_stats z) (wz_stats z')"
proof (induction order arbitrary: z)
  case (Cons shared order)
  let ?grp = "filter (\<lambda>j. aj_shared j = shared) jobs"
  obtain s result err where b: "batch (wz_s z) \<lparr>br_SharedPreferences = shared, br_Items = map batch_item ?grp\<rparr> = (s, result, err)"
    by (metis prod_cases3)
  define y where "y = z\<lparr>wz_s := s, wz_stats := recordStats (bt_Stats result) (wz_stats z)\<rparr>"
  obtain z1 e where g: "finish_group env store durable telegram result ?grp y = (z1, e)" by fastforce
  have n: "e = None" "run_groups env store durable telegram batch jobs order z1 = (z', None)"
    using Cons.prems(1) b g by (auto simp: Let_def simp flip: y_def split: option.splits)
  have y0: "settled 0 (wz_stats z) (wz_stats y)" by (simp add: y_def)
  have "list_all (\<lambda>j. \<not> wc_AIRetry (aj_candidate j)) ?grp" using Cons.prems(2) by (simp add: list_all_iff)
  from settled_trans [OF y0 settled_trans [OF finish_group_settled [OF g [unfolded n(1)] this] Cons.IH [OF n(2) Cons.prems(2)]]]
  show ?case by simp
qed simp

lemma group_sizes: "(\<Sum>k\<leftarrow>group_order jobs. int (length (filter (\<lambda>j. aj_shared j = k) jobs))) = int (length jobs)"
proof -
  have d: "distinct (group_order jobs)" "set (group_order jobs) = set (map aj_shared jobs)" by (simp_all add: group_order_def)
  have "(\<Sum>k\<leftarrow>group_order jobs. int (length (filter (\<lambda>j. aj_shared j = k) jobs)))
      = int (\<Sum>k\<in>set (map aj_shared jobs). count_list (map aj_shared jobs) k)"
    unfolding sum_list_distinct_conv_sum_set [OF d(1)] d(2) by (simp add: count_list_eq_length_filter filter_map comp_def eq_commute)
  also have "\<dots> = int (length jobs)" by (simp only: sum_count_set subset_refl finite_set length_map)
  finally show ?thesis .
qed

lemma processAIJobs_settled:
  assumes "processAIJobs env store durable telegram provider z = (z', None)" "fresh_jobs able z"
  shows "settled (int (length (wz_jobs z))) (wz_stats z) (wz_stats z')"
proof (cases "av_Batch provider")
  case (Some batch)
  with assms have "run_groups env store durable telegram batch (wz_jobs z) (group_order (wz_jobs z)) z = (z', None)"
    by (simp add: processAIJobs_def)
  from run_groups_settled [OF this] assms(2) show ?thesis by (simp add: group_sizes fresh_jobs_def)
next
  case None
  with assms run_singles_settled [of env store durable telegram provider "wz_jobs z" z z'] show ?thesis
    by (simp add: processAIJobs_def fresh_jobs_def)
qed

text \<open>What a job carries: the deterministic result for its own user and candidate, without a hard conflict.\<close>

definition sane_job :: "'s WorkerOptions \<Rightarrow> aiJob \<Rightarrow> bool" where
  "sane_job opts j \<longleftrightarrow>
     (let v = candidate_vacancy (aj_candidate j); p = toPreferences (wu_Preference (aj_user j)) in
      wm_Result (aj_match j) = Match v p (wo_Now opts) \<and> \<not> hard_conflict v p (wo_Now opts))"

lemma process_user_sane:
  assumes "process_user env store opts manual c user z = (z', None)"
  shows "list_all (sane_job opts) (wz_jobs z) \<longrightarrow> list_all (sane_job opts) (wz_jobs z')"
proof -
  obtain s x where st: "(case wk_Settings store of None \<Rightarrow> (wz_s z, Inr no_settings) | Some f \<Rightarrow> f (wz_s z) (wu_ID user)) = (s, x)" by fastforce
  note step = assms [unfolded process_user_def st]
  from step obtain settings where x: "x = Inr settings" by (cases x) auto
  show ?thesis
  proof (cases "\<not> manual \<and> (case as_ActivationAt settings of None \<Rightarrow> False | Some t \<Rightarrow> wc_ObservedAt c < t)")
    case True
    with step x show ?thesis by auto
  next
    case False
    define r where "r = Match (candidate_vacancy c) (toPreferences (wu_Preference user)) (wo_Now opts)"
    define y where "y = (if wc_AIRetry c then z\<lparr>wz_s := s\<rparr>
        else z\<lparr>wz_s := s, wz_stats := (wz_stats z)\<lparr>ww_Eligible := ww_Eligible (wz_stats z) + 1\<rparr>\<rparr>)"
    obtain z1 e1 where m: "record_match store (wo_TelegramEnabled opts) settings user c r y = (z1, e1)" by fastforce
    have e: "consider_ai env store (wo_AIProvider opts \<noteq> None) settings user c r z1 = (z', None)"
      using step x False m unfolding y_def r_def by (cases e1; cases "wc_AIRetry c") (auto simp: Let_def)
    have j: "wz_jobs z1 = wz_jobs z" using record_match_jobs [OF m] by (simp add: y_def)
    from e show ?thesis
    proof (cases rule: consider_ai_cases)
      case skip
      with j show ?thesis by auto
    next
      case (job w s' k)
      have "\<not> hard_conflict (candidate_vacancy c) (toPreferences (wu_Preference user)) (wo_Now opts)"
        using job(4) Match_decision [of "candidate_vacancy c"] by (simp add: r_def)
      with job j show ?thesis by (auto simp: sane_job_def r_def Let_def)
    qed
  qed
qed

lemma user_loop_sane:
  "user_loop env store opts manual c us z = (z', None) \<Longrightarrow> list_all (sane_job opts) (wz_jobs z) \<Longrightarrow> list_all (sane_job opts) (wz_jobs z')"
proof (induction us arbitrary: z)
  case (Cons u us)
  obtain z1 e where p: "process_user env store opts manual c u z = (z1, e)" by fastforce
  with Cons.prems have "e = None" "user_loop env store opts manual c us z1 = (z', None)" by (auto split: option.splits)
  with Cons.IH [of z1] process_user_sane [of env store opts manual c u z z1] p Cons.prems(2) show ?case by auto
qed simp

lemma candidate_loop_sane:
  "candidate_loop env store opts manual us cs z = (z', None) \<Longrightarrow> list_all (sane_job opts) (wz_jobs z) \<Longrightarrow> list_all (sane_job opts) (wz_jobs z')"
proof (induction cs arbitrary: z)
  case (Cons c cs)
  define y where "y = (if wc_AIRetry c then z else z\<lparr>wz_stats := (wz_stats z)\<lparr>ww_Processed := ww_Processed (wz_stats z) + 1\<rparr>\<rparr>)"
  obtain z1 e where p: "user_loop env store opts manual c us y = (z1, e)" by fastforce
  have n: "e = None" "candidate_loop env store opts manual us cs z1 = (z', None)"
    using Cons.prems(1) p by (auto simp: Let_def simp flip: y_def split: if_splits option.splits)
  have "wz_jobs y = wz_jobs z" by (simp add: y_def)
  with user_loop_sane [OF p [unfolded n(1)]] Cons.IH [OF n(2)] Cons.prems(2) show ?case by simp
qed simp

section \<open>Lemmas: a run\<close>

lemma snapshot_loop_returns:
  "0 < wo_MaxSnapshotPages opts \<Longrightarrow> \<exists>r. snapshot_loop env store snapshot opts users run pages stats s = Some r"
proof (induction "nat (wo_MaxSnapshotPages opts - pages)" arbitrary: run pages stats s rule: less_induct)
  case less
  obtain s1 got where g: "sn_SnapshotCandidates snapshot s run (wo_BatchSize opts) = (s1, got)" by fastforce
  show ?case
  proof (cases "\<exists>cs. got = Inr cs \<and> cs \<noteq> []")
    case False
    with g show ?thesis by (subst snapshot_loop.simps) (auto split: sum.splits)
  next
    case True
    then obtain cs where cs: "got = Inr cs" "cs \<noteq> []" by blast
    obtain s2 st2 e2 where p: "processCandidates env store opts users cs stats True s1 = (s2, st2, e2)" by (metis prod_cases3)
    obtain s3 e3 where u: "sn_UpdateAssistantRunProgress snapshot s2 (rn_ID run) st2 (last_fresh cs) = (s3, e3)" by fastforce
    show ?thesis
    proof (cases "e2 = None \<and> e3 = None \<and> \<not> (pages + 1 \<ge> wo_MaxSnapshotPages opts)")
      case False
      with g cs p u less.prems show ?thesis
        by (subst snapshot_loop.simps) (auto split: option.splits prod.splits)
    next
      case True
      then have "nat (wo_MaxSnapshotPages opts - (pages + 1)) < nat (wo_MaxSnapshotPages opts - pages)" by simp
      from less.hyps [OF this less.prems, of "move_cursor (last_fresh cs) run" st2 s3] g cs p u True show ?thesis
        by (subst snapshot_loop.simps) auto
    qed
  qed
qed

section \<open>Properties\<close>

text \<open>
  C34. The counters of the worker add up. After a batch without retries that ends without an error,
  every candidate was processed once, every pair of user and candidate has exactly one verdict (matched or
  skipped), every eligible pair was either skipped by the AI stage with a reason or became exactly one AI
  call, and every AI call is counted as one success or one failure, whatever store and provider do.
\<close>

theorem worker_accounting:
  assumes "processCandidates env store opts users candidates stats manual s = (s', stats', None)"
    and "list_all (\<lambda>c. \<not> wc_AIRetry c) candidates"
  shows "ww_Processed stats' - ww_Processed stats = int (length candidates)
    \<and> (ww_Matched stats' + ww_Skipped stats') - (ww_Matched stats + ww_Skipped stats) = int (length candidates) * int (length users)
    \<and> ww_Eligible stats' - ww_Eligible stats = (ww_AISkipped stats' - ww_AISkipped stats) + (ww_AICalls stats' - ww_AICalls stats)
    \<and> ww_AICalls stats' - ww_AICalls stats
        = (ww_AISucceeded stats' - ww_AISucceeded stats) + (ww_AIFailures stats' - ww_AIFailures stats)"
proof -
  define z0 where "z0 = \<lparr>wz_s = s, wz_stats = stats, wz_jobs = [], wz_failed = []\<rparr>"
  obtain z e where l: "candidate_loop env store opts manual users candidates z0 = (z, e)" by fastforce
  have e: "e = None" using assms(1) l by (cases e) (simp_all add: processCandidates_def flip: z0_def)
  note 1 = candidate_loop_counts [OF assms(2) l [unfolded e]]
  then have f: "fresh_jobs (ai_able store opts) z" by (simp add: z0_def fresh_jobs_def)
  obtain z1 e1 where a: "ai_stage env store opts z = (z1, e1)" by fastforce
  have e1: "e1 = None \<and> stats' = wz_stats z1"
    using assms(1) l e a by (cases e1) (auto simp: processCandidates_def simp flip: z0_def split: option.splits prod.splits bool.splits)
  have "settled (int (length (wz_jobs z))) (wz_stats z) (wz_stats z1)"
  proof (cases "wz_jobs z")
    case Nil
    with a show ?thesis by (auto simp: ai_stage_def)
  next
    case (Cons job jobs)
    with f obtain provider durable where "wo_AIProvider opts = Some provider" "wk_AI store = Some durable"
      by (auto simp: fresh_jobs_def ai_able_def)
    with a Cons e1 have "processAIJobs env store durable (wo_TelegramEnabled opts) provider z = (z1, None)" by (simp add: ai_stage_def)
    from processAIJobs_settled [OF this f] show ?thesis .
  qed
  with 1 e1 show ?thesis by (auto simp: settled_def z0_def owed_def calls_of_def verdicts_def)
qed

definition quiet_store :: "unit WorkerStore" where
  "quiet_store = \<lparr>wk_ctx_done = (\<lambda>_. False), wk_TryLock = (\<lambda>s. (s, Inr True)), wk_Release = (\<lambda>s. s), wk_Users = (\<lambda>s. (s, Inr [])),
     wk_Candidates = (\<lambda>s _ _ _. (s, Inr [])), wk_SaveMatch = (\<lambda>s _. (s, Inr True)), wk_SaveDelivery = (\<lambda>s _. (s, Inr True)),
     wk_AdvanceCursor = (\<lambda>s _ _ _. (s, None)), wk_Runs = None, wk_UsersForRun = None, wk_Snapshot = None, wk_Pause = None, wk_AI = None,
     wk_Settings = None, wk_Eligible = None, wk_Items = None\<rparr>"

definition quiet_worker_options :: "unit WorkerOptions" where
  "quiet_worker_options = \<lparr>wo_Source = '''', wo_Cutoff = 0, wo_BatchSize = 1, wo_Now = 1, wo_AIProvider = None, wo_TelegramEnabled = False,
     wo_MaxSnapshotPages = 1\<rparr>"

definition plain_user :: WorkerUser where
  "plain_user = \<lparr>wu_ID = ''u'', wu_Preference = legacy_record\<rparr>"

definition plain_candidate :: WorkerCandidate where
  "plain_candidate = \<lparr>wc_ID = ''c'', wc_Source = ''hh'', wc_ExternalID = ''1'', wc_Title = ''t'', wc_SourceURL = '''',
     wc_Vacancy = frontend_vacancy, wc_Description = '''', wc_DescriptionTruncated = False, wc_AIRetry = False, wc_Revision = 1,
     wc_SalaryText = '''', wc_ObservedAt = 0, wc_CreatedAt = 0\<rparr>"

definition plain_worker_env :: WorkerEnv where
  "plain_worker_env = \<lparr>we_json = (\<lambda>_. ''''), we_sha = (\<lambda>x. x), we_order = (\<lambda>x. x)\<rparr>"

lemma quiet_user:
  "\<exists>z. process_user plain_worker_env quiet_store quiet_worker_options False plain_candidate plain_user w = (z, None)"
  unfolding process_user_def
  by (simp add: quiet_store_def quiet_worker_options_def no_settings_def plain_candidate_def Let_def record_match_def consider_ai_def)

lemma quiet_loop:
  "\<exists>z. candidate_loop plain_worker_env quiet_store quiet_worker_options False [plain_user] [plain_candidate] w = (z, None)"
proof -
  have live: "\<not> wk_ctx_done quiet_store s" for s by (simp add: quiet_store_def)
  define w1 where "w1 = (if wc_AIRetry plain_candidate then w
    else w\<lparr>wz_stats := (wz_stats w)\<lparr>ww_Processed := ww_Processed (wz_stats w) + 1\<rparr>\<rparr>)"
  obtain z where z: "process_user plain_worker_env quiet_store quiet_worker_options False plain_candidate plain_user w1 = (z, None)"
    using quiet_user by blast
  then show ?thesis by (simp only: candidate_loop.simps user_loop.simps live if_False Let_def flip: w1_def) simp
qed

lemma quiet_batch:
  "\<exists>stats. processCandidates plain_worker_env quiet_store quiet_worker_options [plain_user] [plain_candidate] no_worker_stats False () = ((), stats, None)"
proof -
  obtain z where "candidate_loop plain_worker_env quiet_store quiet_worker_options False [plain_user] [plain_candidate]
      \<lparr>wz_s = (), wz_stats = no_worker_stats, wz_jobs = [], wz_failed = []\<rparr> = (z, None)"
    using quiet_loop by blast
  moreover have "ai_stage plain_worker_env quiet_store quiet_worker_options w = (w, None)" for w
    by (simp add: ai_stage_def quiet_worker_options_def split: list.splits)
  ultimately show ?thesis by (simp add: processCandidates_def) (simp add: quiet_store_def)
qed

theorem worker_accounting_witness:
  "\<exists>stats. processCandidates plain_worker_env quiet_store quiet_worker_options [plain_user] [plain_candidate] no_worker_stats False () = ((), stats, None)
     \<and> ww_Matched stats + ww_Skipped stats = 1"
proof -
  obtain stats where s: "processCandidates plain_worker_env quiet_store quiet_worker_options [plain_user] [plain_candidate] no_worker_stats False () = ((), stats, None)"
    using quiet_batch by blast
  have "list_all (\<lambda>c. \<not> wc_AIRetry c) [plain_candidate]" by (simp add: plain_candidate_def)
  from worker_accounting [OF s this] s show ?thesis by (auto simp: no_worker_stats_def)
qed

text \<open>
  The AI is never asked about a vacancy that a hard criterion of the user excludes: when the
  candidates of a batch have been gone through, every job for the provider carries the deterministic
  result of its own user and vacancy, and that pair has no hard conflict.
\<close>

theorem ai_jobs_clean:
  assumes "candidate_loop env store opts manual users candidates \<lparr>wz_s = s, wz_stats = stats, wz_jobs = [], wz_failed = []\<rparr> = (z, None)"
  shows "list_all (\<lambda>j. wm_Result (aj_match j) = Match (candidate_vacancy (aj_candidate j)) (toPreferences (wu_Preference (aj_user j))) (wo_Now opts)
      \<and> \<not> hard_conflict (candidate_vacancy (aj_candidate j)) (toPreferences (wu_Preference (aj_user j))) (wo_Now opts)) (wz_jobs z)"
  using candidate_loop_sane [OF assms] by (simp add: list_all_iff sane_job_def Let_def)

theorem ai_jobs_clean_witness:
  "\<exists>z. candidate_loop plain_worker_env quiet_store quiet_worker_options False [plain_user] [plain_candidate]
      \<lparr>wz_s = (), wz_stats = no_worker_stats, wz_jobs = [], wz_failed = []\<rparr> = (z, None)
    \<and> list_all (\<lambda>j. \<not> hard_conflict (candidate_vacancy (aj_candidate j)) (toPreferences (wu_Preference (aj_user j))) 1) (wz_jobs z)"
proof -
  obtain z where z: "candidate_loop plain_worker_env quiet_store quiet_worker_options False [plain_user] [plain_candidate]
      \<lparr>wz_s = (), wz_stats = no_worker_stats, wz_jobs = [], wz_failed = []\<rparr> = (z, None)"
    using quiet_loop by blast
  from ai_jobs_clean [OF z] z show ?thesis by (auto simp: quiet_worker_options_def list_all_iff)
qed

text \<open>
  C35. A worker run with a page limit ends: whatever the store and the provider do, it returns a result, on the
  incremental path and on the path of a claimed snapshot run alike.
\<close>

theorem RunOnce_returns:
  assumes "0 < wo_MaxSnapshotPages opts"
  shows "\<exists>s' stats err. RunOnce env clock store opts s = Some (s', stats, err)"
proof -
  have limit: "0 < wo_MaxSnapshotPages (worker_defaults clock opts)" using assms by (simp add: worker_defaults_def)
  have claimed: "\<exists>r. run_claimed env store (worker_defaults clock opts) run s1 = Some r" for run s1
    using snapshot_loop_returns [OF limit]
    by (auto simp: run_claimed_def Let_def split: prod.splits sum.splits option.splits if_splits)
  obtain s1 lock where l: "wk_TryLock store s = (s1, lock)" by fastforce
  obtain s2 claim where c: "(case wk_Runs store of None \<Rightarrow> (s1, Inr None) | Some runs \<Rightarrow> rs_ClaimAssistantRun runs s1) = (s2, claim)" by fastforce
  have "RunOnce env clock store opts s \<noteq> None"
  proof (cases "lock = Inr True \<and> (\<exists>run. claim = Inr (Some run))")
    case True
    then obtain run where run: "lock = Inr True" "claim = Inr (Some run)" by blast
    obtain r where "run_claimed env store (worker_defaults clock opts) run s2 = Some r" using claimed by blast
    with l c run show ?thesis by (simp add: RunOnce_def Let_def)
  next
    case False
    with l c show ?thesis by (auto simp del: not_None_eq simp: RunOnce_def Let_def split: option.splits sum.splits bool.splits)
  qed
  then show ?thesis by (metis not_None_eq prod_cases3)
qed

theorem RunOnce_returns_witness:
  "\<exists>s' stats err. RunOnce plain_worker_env 0 quiet_store quiet_worker_options () = Some (s', stats, err)"
  using RunOnce_returns [of quiet_worker_options plain_worker_env 0 quiet_store "()"] by (simp add: quiet_worker_options_def)

end
