(* ===== verification/Sql_Layer.thy ===== *)
theory Sql_Layer
  imports Go_Time
begin

text \<open>
  What the program uses of PostgreSQL, for the components whose logic is in SQL. A connection holds
  the tables and a counter of the statements it has been sent; whether a statement fails (network,
  time-out, serialisation conflict), what \<^verbatim>\<open>now()\<close> returns and which identifier
  \<^verbatim>\<open>gen_random_uuid()\<close> yields are functions of that counter, so every pattern of failures is
  covered. A statement that violates a constraint fails as well. A transaction that does not commit leaves
  the tables as they were. A table is a list of rows whose order carries no meaning.
\<close>

record db_env =
  db_fails :: "nat \<Rightarrow> bool"
  db_now :: "nat \<Rightarrow> time"
  db_uuid :: "nat \<Rightarrow> string"

record 'd conn =
  db_data :: 'd
  db_tick :: nat

section \<open>Statements and transactions\<close>

text \<open>A statement sees its number and the tables; \<open>None\<close> is a violated constraint.\<close>

definition stmt :: "db_env \<Rightarrow> 'e \<Rightarrow> (nat \<Rightarrow> 'd \<Rightarrow> ('d \<times> 'a) option) \<Rightarrow> 'd conn \<Rightarrow> 'd conn \<times> ('e + 'a)" where
  "stmt env err q s =
     (let t = db_tick s; s1 = s\<lparr>db_tick := Suc t\<rparr> in
      if db_fails env t then (s1, Inl err)
      else (case q t (db_data s) of
              None \<Rightarrow> (s1, Inl err)
            | Some (d, x) \<Rightarrow> (s1\<lparr>db_data := d\<rparr>, Inr x)))"

text \<open>A query reads only, a command writes only.\<close>

definition query :: "db_env \<Rightarrow> 'e \<Rightarrow> ('d \<Rightarrow> 'a) \<Rightarrow> 'd conn \<Rightarrow> 'd conn \<times> ('e + 'a)" where
  "query env err f = stmt env err (\<lambda>_ d. Some (d, f d))"

definition command :: "db_env \<Rightarrow> 'e \<Rightarrow> ('d \<Rightarrow> 'd) \<Rightarrow> 'd conn \<Rightarrow> 'd conn \<times> ('e + unit)" where
  "command env err f = stmt env err (\<lambda>_ d. Some (f d, ()))"

text \<open>Sequencing with an early return on an error, and a value.\<close>

definition and_do :: "('s \<Rightarrow> 's \<times> ('e + 'a)) \<Rightarrow> ('a \<Rightarrow> 's \<Rightarrow> 's \<times> ('e + 'b)) \<Rightarrow> 's \<Rightarrow> 's \<times> ('e + 'b)" where
  "and_do m k s = (case m s of (s, Inl e) \<Rightarrow> (s, Inl e) | (s, Inr x) \<Rightarrow> k x s)"

definition give :: "'a \<Rightarrow> 's \<Rightarrow> 's \<times> ('e + 'a)" where
  "give x s = (s, Inr x)"

text \<open>
  A transaction: begin, the body (which is given the number of the begin, the time of \<^verbatim>\<open>now()\<close> for all
  of it), commit. The body chooses the error of a failed commit. Every way out but a successful commit
  is a rollback.
\<close>

definition in_tx :: "db_env \<Rightarrow> 'e \<Rightarrow> (nat \<Rightarrow> 'd conn \<Rightarrow> 'd conn \<times> ('e + 'a \<times> 'e)) \<Rightarrow> 'd conn \<Rightarrow> 'd conn \<times> ('e + 'a)" where
  "in_tx env err body s =
     (case stmt env err (\<lambda>t d. Some (d, t)) s of
        (s1, Inl e) \<Rightarrow> (s1, Inl e)
      | (s1, Inr t) \<Rightarrow>
          (case body t s1 of
             (s2, Inl e) \<Rightarrow> (s2\<lparr>db_data := db_data s\<rparr>, Inl e)
           | (s2, Inr (x, commitErr)) \<Rightarrow>
               (case stmt env commitErr (\<lambda>_ d. Some (d, ())) s2 of
                  (s3, Inl e) \<Rightarrow> (s3\<lparr>db_data := db_data s\<rparr>, Inl e)
                | (s3, Inr _) \<Rightarrow> (s3, Inr x))))"

lemma stmt_error: "stmt env err q s = (s', Inl e) \<Longrightarrow> db_data s' = db_data s \<and> e = err"
  by (auto simp: stmt_def Let_def split: if_splits option.splits)

lemma stmt_ok:
  "stmt env err q s = (s', Inr x) \<Longrightarrow> q (db_tick s) (db_data s) = Some (db_data s', x) \<and> db_tick s' = Suc (db_tick s)"
  by (auto simp: stmt_def Let_def split: if_splits option.splits)

lemma query_ok: "query env err f s = (s', Inr x) \<Longrightarrow> db_data s' = db_data s \<and> x = f (db_data s)"
  unfolding query_def by (auto dest: stmt_ok)

lemma query_error: "query env err f s = (s', Inl e) \<Longrightarrow> db_data s' = db_data s"
  unfolding query_def by (auto dest: stmt_error)

lemma command_ok: "command env err f s = (s', Inr x) \<Longrightarrow> db_data s' = f (db_data s)"
  unfolding command_def by (auto dest: stmt_ok)

text \<open>Without failures a statement does what its query says.\<close>

lemma stmt_live:
  "\<not> db_fails env (db_tick s) \<Longrightarrow> q (db_tick s) (db_data s) = Some (d, x)
    \<Longrightarrow> stmt env err q s = (s\<lparr>db_tick := Suc (db_tick s), db_data := d\<rparr>, Inr x)"
  by (simp add: stmt_def Let_def)

lemma and_do_error: "and_do m k s = (s', Inl e) \<longleftrightarrow> m s = (s', Inl e) \<or> (\<exists>s1 x. m s = (s1, Inr x) \<and> k x s1 = (s', Inl e))"
  by (auto simp: and_do_def split: prod.splits sum.splits)

lemma and_do_ok: "and_do m k s = (s', Inr y) \<longleftrightarrow> (\<exists>s1 x. m s = (s1, Inr x) \<and> k x s1 = (s', Inr y))"
  by (auto simp: and_do_def split: prod.splits sum.splits)

text \<open>A transaction is atomic: it reports an error and changes nothing, or it does all of its body.\<close>

lemma in_tx_error: "in_tx env err body s = (s', Inl e) \<Longrightarrow> db_data s' = db_data s"
  by (auto simp: in_tx_def split: prod.splits sum.splits dest!: stmt_error)

lemma in_tx_ok:
  assumes "in_tx env err body s = (s', Inr x)"
  obtains s1 s2 e where "db_data s1 = db_data s" "body (db_tick s) s1 = (s2, Inr (x, e))" "db_data s' = db_data s2"
  using assms by (fastforce simp: in_tx_def split: prod.splits sum.splits dest!: stmt_ok)

section \<open>Aggregates\<close>

text \<open>
  \<^verbatim>\<open>percentile_cont(0.5) WITHIN GROUP (ORDER BY x)\<close>: the value in the middle of the sorted values, the mean
  of the two in the middle when their number is even, NULL without values.
\<close>

definition percentile_half :: "real list \<Rightarrow> real option" where
  "percentile_half xs = (if xs = [] then None
     else let ys = sort xs; n = length ys in Some ((ys ! ((n - 1) div 2) + ys ! (n div 2)) / 2))"

text \<open>Storing into \<^verbatim>\<open>NUMERIC(p, k)\<close> rounds to \<open>k\<close> places, ties away from zero.\<close>

definition numeric_scale :: "nat \<Rightarrow> real \<Rightarrow> real" where
  "numeric_scale k x = (if x < 0 then - of_int \<lfloor>- x * 10 ^ k + 1 / 2\<rfloor> else of_int \<lfloor>x * 10 ^ k + 1 / 2\<rfloor>) / 10 ^ k"

lemma percentile_half_bounds:
  assumes "percentile_half xs = Some m" and "list_all (\<lambda>x. lo \<le> x \<and> x \<le> hi) xs"
  shows "lo \<le> m \<and> m \<le> hi"
proof -
  define ys where "ys = sort xs"
  have xs: "xs \<noteq> []" and m: "m = (ys ! ((length ys - 1) div 2) + ys ! (length ys div 2)) / 2"
    using assms(1) by (auto simp: percentile_half_def ys_def Let_def split: if_splits)
  have n: "0 < length ys" using xs by (simp add: ys_def)
  have mem: "lo \<le> ys ! i \<and> ys ! i \<le> hi" if "i < length ys" for i
    using that assms(2) nth_mem [of i ys] by (auto simp: ys_def list_all_iff)
  have "(length ys - 1) div 2 < length ys" "length ys div 2 < length ys" using n by linarith+
  from mem [OF this(1)] mem [OF this(2)] show ?thesis unfolding m by simp
qed

lemma numeric_scale_of_int: "0 \<le> n \<Longrightarrow> numeric_scale k (of_int n) = of_int n"
proof -
  assume n: "0 \<le> n"
  have "of_int n * 10 ^ k = (of_int (n * 10 ^ k) :: real)" by simp
  then have "\<lfloor>(of_int n :: real) * 10 ^ k + 1 / 2\<rfloor> = n * 10 ^ k" by linarith
  with n show ?thesis by (simp add: numeric_scale_def)
qed

lemma numeric_scale_mono: "0 \<le> x \<Longrightarrow> x \<le> y \<Longrightarrow> numeric_scale k x \<le> numeric_scale k y"
proof -
  assume x: "0 \<le> x" "x \<le> y"
  then have "x * 10 ^ k + 1 / 2 \<le> y * 10 ^ k + 1 / 2" by (simp add: mult_right_mono)
  then have "(of_int \<lfloor>x * 10 ^ k + 1 / 2\<rfloor> :: real) \<le> of_int \<lfloor>y * 10 ^ k + 1 / 2\<rfloor>" by (simp add: floor_mono)
  with x show ?thesis by (simp add: numeric_scale_def divide_right_mono)
qed

lemma numeric_scale_bounds:
  "0 \<le> lo \<Longrightarrow> of_int lo \<le> x \<Longrightarrow> x \<le> of_int hi \<Longrightarrow> of_int lo \<le> numeric_scale k x \<and> numeric_scale k x \<le> of_int hi"
proof -
  assume a: "0 \<le> lo" "of_int lo \<le> x" "x \<le> of_int hi"
  then have lo: "(0 :: real) \<le> of_int lo" by simp
  have "lo \<le> hi" using a(2,3) by linarith
  then have hi: "0 \<le> hi" using a(1) by linarith
  have "numeric_scale k (of_int lo) \<le> numeric_scale k x" by (rule numeric_scale_mono [OF lo a(2)])
  moreover have "numeric_scale k x \<le> numeric_scale k (of_int hi)" using lo a(2) by (intro numeric_scale_mono a(3)) linarith
  ultimately show ?thesis using numeric_scale_of_int [OF a(1), of k] numeric_scale_of_int [OF hi, of k] by simp
qed

section \<open>Rows with a key\<close>

text \<open>
  \<^verbatim>\<open>INSERT ... ON CONFLICT (key) DO UPDATE\<close>: the row with the key is changed in place, otherwise the new
  row is added.
\<close>

definition upsert :: "('r \<Rightarrow> 'k) \<Rightarrow> 'r \<Rightarrow> ('r \<Rightarrow> 'r) \<Rightarrow> 'r list \<Rightarrow> 'r list" where
  "upsert key new change rows =
     (if \<exists>r \<in> set rows. key r = key new then map (\<lambda>r. if key r = key new then change r else r) rows
      else rows @ [new])"

lemma upsert_keys_list:
  assumes "\<And>r. key r = key new \<Longrightarrow> key (change r) = key new"
  shows "map key (upsert key new change rows) = (if key new \<in> key ` set rows then map key rows else map key rows @ [key new])"
proof -
  have "(key new \<in> key ` set rows) = (\<exists>r \<in> set rows. key r = key new)" by (auto simp: image_iff intro: sym)
  moreover have "map key (map (\<lambda>r. if key r = key new then change r else r) rows) = map key rows"
    using assms by auto
  ultimately show ?thesis by (simp add: upsert_def)
qed

lemma upsert_keys:
  assumes "\<And>r. key r = key new \<Longrightarrow> key (change r) = key new"
  shows "key ` set (upsert key new change rows) = insert (key new) (key ` set rows)"
proof -
  have "map key (upsert key new change rows) = (if key new \<in> key ` set rows then map key rows else map key rows @ [key new])"
    by (rule upsert_keys_list) (rule assms)
  then have "set (map key (upsert key new change rows)) = insert (key new) (key ` set rows)" by auto
  then show ?thesis by simp
qed

lemma upsert_distinct:
  assumes "\<And>r. key r = key new \<Longrightarrow> key (change r) = key new" and "distinct (map key rows)"
  shows "distinct (map key (upsert key new change rows))"
proof -
  have "map key (upsert key new change rows) = (if key new \<in> key ` set rows then map key rows else map key rows @ [key new])"
    by (rule upsert_keys_list) (rule assms(1))
  with assms(2) show ?thesis by auto
qed

text \<open>The row with a key, after an upsert.\<close>

definition row_of :: "('r \<Rightarrow> 'k) \<Rightarrow> 'k \<Rightarrow> 'r list \<Rightarrow> 'r option" where
  "row_of key k rows = find (\<lambda>r. key r = k) rows"

lemma row_of_Some: "row_of key k rows = Some r \<Longrightarrow> r \<in> set rows \<and> key r = k"
  by (auto simp: row_of_def find_Some_iff)

lemma row_of_None: "row_of key k rows = None \<longleftrightarrow> k \<notin> key ` set rows"
  by (auto simp: row_of_def find_None_iff)

lemma row_of_append: "row_of key k (xs @ ys) = (case row_of key k xs of None \<Rightarrow> row_of key k ys | Some r \<Rightarrow> Some r)"
  by (induction xs) (auto simp: row_of_def)

lemma row_of_map: "(\<And>r. key (f r) = key r) \<Longrightarrow> row_of key k (map f xs) = map_option f (row_of key k xs)"
  by (induction xs) (auto simp: row_of_def)

lemma row_of_single: "row_of key k [r] = (if key r = k then Some r else None)"
  by (simp add: row_of_def)

lemma row_of_mem: "distinct (map key rows) \<Longrightarrow> r \<in> set rows \<Longrightarrow> row_of key (key r) rows = Some r"
proof (induction rows)
  case (Cons a rows)
  then show ?case by (auto simp: row_of_def)
qed simp

section \<open>The counter only grows\<close>

definition ticks :: "('d conn \<Rightarrow> 'd conn \<times> 'r) \<Rightarrow> bool" where
  "ticks m \<longleftrightarrow> (\<forall>s. db_tick s \<le> db_tick (fst (m s)))"

lemma ticksD: "ticks m \<Longrightarrow> m s = (s', r) \<Longrightarrow> db_tick s \<le> db_tick s'"
  unfolding ticks_def by (metis fst_conv)

lemma ticks_stmt: "ticks (stmt env err q)"
  by (simp add: ticks_def stmt_def Let_def split: option.split prod.split)

lemma ticks_query: "ticks (query env err f)"
  unfolding query_def by (rule ticks_stmt)

lemma ticks_command: "ticks (command env err f)"
  unfolding command_def by (rule ticks_stmt)

lemma ticks_give: "ticks (give x)"
  by (simp add: ticks_def give_def)

lemma ticks_and_do: "ticks m \<Longrightarrow> (\<And>x. ticks (k x)) \<Longrightarrow> ticks (and_do m k)"
  unfolding ticks_def and_do_def by (auto split: prod.split sum.split) (metis fst_conv le_trans)+

lemma ticks_if: "ticks m \<Longrightarrow> ticks n \<Longrightarrow> ticks (if b then m else n)"
  by simp

lemma ticks_in_tx:
  fixes body :: "nat \<Rightarrow> 'd conn \<Rightarrow> 'd conn \<times> ('e + 'a \<times> 'e)"
  assumes "\<And>t. ticks (body t)"
  shows "ticks (in_tx env err body)"
  unfolding ticks_def
proof
  fix s :: "'d conn"
  obtain s1 r1 where b: "stmt env err (\<lambda>t d. Some (d, t)) s = (s1, r1)" by fastforce
  note t1 = ticksD [OF ticks_stmt b]
  show "db_tick s \<le> db_tick (fst (in_tx env err body s))"
  proof (cases r1)
    case (Inl e)
    with b t1 show ?thesis by (simp add: in_tx_def)
  next
    case (Inr t)
    obtain s2 r2 where r2: "body t s1 = (s2, r2)" by fastforce
    note t2 = ticksD [OF assms r2]
    show ?thesis
    proof (cases r2)
      case (Inl e)
      with b Inr r2 t1 t2 show ?thesis by (simp add: in_tx_def)
    next
      case r2': (Inr p)
      obtain x ce where p: "p = (x, ce)" by fastforce
      obtain s3 r3 where c: "stmt env ce (\<lambda>_ d. Some (d, ())) s2 = (s3, r3)" by fastforce
      note t3 = ticksD [OF ticks_stmt c]
      from b Inr r2 r2' p c t1 t2 t3 show ?thesis by (simp add: in_tx_def split: sum.split)
    qed
  qed
qed

lemmas ticks_intros = ticks_stmt ticks_query ticks_command ticks_give ticks_and_do ticks_if ticks_in_tx

end
