(* ===== verification/Analytics.thy ===== *)
theory Analytics
  imports Sql_Layer
begin

text \<open>
  The analytics worker (\<^verbatim>\<open>apps/analytics/worker/worker.go\<close>): daily demand snapshots of completed discovery
  cycles and their weekly roll-up. The SQL of the worker is translated into functions on the tables it reads
  and writes; the CHECK and UNIQUE constraints are those of the migrations. Arguments: the failures,
  clock and identifiers of the database, the process's clock, whether another process holds the lock, the
  cast of a text to UUID, and the midnight of a date in the time zone of the database session.
\<close>

section \<open>Tables\<close>

definition MethodVersion :: string where
  "MethodVersion = ''vacancy_demand_v2''"

record ingest_cycle =
  ic_id :: string
  ic_source :: string
  ic_scope :: string
  ic_status :: string
  ic_method :: string
  ic_cycle_end :: time
  ic_started_at :: time
  ic_completed_at :: time
  ic_cycle_date :: time

record cycle_observation =
  ob_cycle :: string
  ob_source :: string
  ob_external :: string
  ob_published :: time
  ob_region :: "string option"
  ob_group :: string
  ob_mid :: "real option"
  ob_eligible :: bool

record analytics_run =
  ar_id :: string
  ar_type :: string
  ar_target :: time
  ar_source :: string
  ar_cycle :: "string option"
  ar_status :: string
  ar_method :: string
  ar_started :: time
  ar_finished :: "time option"
  ar_rows :: nat
  ar_days :: nat
  ar_category :: "string option"

record demand_daily =
  dd_date :: time
  dd_source :: string
  dd_group :: string
  dd_level :: string
  dd_region :: "string option"
  dd_active :: nat
  dd_published :: nat
  dd_with_salary :: nat
  dd_median :: "real option"
  dd_complete :: bool
  dd_cycle :: string
  dd_run :: string
  dd_method :: string
  dd_observed :: time
  dd_coverage :: real

record demand_weekly =
  dw_week :: time
  dw_source :: string
  dw_group :: string
  dw_level :: string
  dw_region :: "string option"
  dw_active :: nat
  dw_published :: nat
  dw_with_salary :: nat
  dw_median :: "real option"
  dw_days :: nat
  dw_complete :: bool
  dw_run :: string
  dw_method :: string
  dw_observed :: time

record an_db =
  an_cycles :: "ingest_cycle list"
  an_observations :: "cycle_observation list"
  an_regions :: "(string \<times> string \<times> string) list"
  an_runs :: "analytics_run list"
  an_daily :: "demand_daily list"
  an_weekly :: "demand_weekly list"

record an_env =
  an_db_env :: db_env
  an_clock :: "nat \<Rightarrow> time"
  an_lock_free :: "nat \<Rightarrow> bool"
  an_cast :: "string \<Rightarrow> string option"
  an_midnight :: "time \<Rightarrow> time"

text \<open>The constraints of the tables the worker writes.\<close>

definition role_groups :: "string list" where
  "role_groups = [''software_development'', ''analytics'', ''quality_assurance'']"

definition median_ok :: "real option \<Rightarrow> bool" where
  "median_ok m \<longleftrightarrow> (case m of None \<Rightarrow> True | Some x \<Rightarrow> 10000 \<le> x \<and> x \<le> 2000000)"

definition level_ok :: "string \<Rightarrow> string option \<Rightarrow> bool" where
  "level_ok level region \<longleftrightarrow> level = ''all_regions'' \<and> region = None \<or> level = ''region'' \<and> region \<noteq> None"

definition daily_check :: "demand_daily \<Rightarrow> bool" where
  "daily_check r \<longleftrightarrow> dd_group r \<in> set role_groups \<and> level_ok (dd_level r) (dd_region r)
     \<and> dd_with_salary r \<le> dd_active r \<and> median_ok (dd_median r) \<and> dd_complete r
     \<and> 0 \<le> dd_coverage r \<and> dd_coverage r \<le> 1"

definition daily_key :: "demand_daily \<Rightarrow> time \<times> string \<times> string \<times> string \<times> string option \<times> string" where
  "daily_key r = (dd_date r, dd_source r, dd_group r, dd_level r, dd_region r, dd_method r)"

definition weekly_check :: "demand_weekly \<Rightarrow> bool" where
  "weekly_check r \<longleftrightarrow> Weekday (dw_week r) = 1 \<and> dw_group r \<in> set role_groups \<and> level_ok (dw_level r) (dw_region r)
     \<and> 1 \<le> dw_days r \<and> dw_days r \<le> 7 \<and> dw_complete r = (dw_days r = 7) \<and> median_ok (dw_median r)"

definition weekly_key :: "demand_weekly \<Rightarrow> time \<times> string \<times> string \<times> string \<times> string option \<times> string" where
  "weekly_key r = (dw_week r, dw_source r, dw_group r, dw_level r, dw_region r, dw_method r)"

definition run_key :: "analytics_run \<Rightarrow> string \<times> time \<times> string \<times> string" where
  "run_key r = (ar_type r, ar_target r, ar_source r, ar_method r)"

text \<open>An insert fails when a row violates a CHECK or a key is taken.\<close>

definition insert_rows :: "('r \<Rightarrow> bool) \<Rightarrow> ('r \<Rightarrow> 'k) \<Rightarrow> 'r list \<Rightarrow> 'r list \<Rightarrow> 'r list option" where
  "insert_rows check key new rows =
     (if list_all check new \<and> distinct (map key (rows @ new)) then Some (rows @ new) else None)"

section \<open>Results and errors\<close>

record an_result =
  rs_RunID :: string
  rs_RunType :: string
  rs_Target :: time
  rs_SourceCycleID :: string
  rs_Rows :: nat
  rs_SourceDayCount :: nat
  rs_Complete :: bool
  rs_Skipped :: bool
  rs_SkipReason :: string

datatype an_error = AnLockConnection | AnLockQuery | ErrLockUnavailable | AnSelectCycle | AnRecordSkip
  | AnBeginDaily | AnStartDaily | AnClearDaily | AnBuildDaily | AnFinishDaily | AnCommitDaily
  | AnNotMonday | AnBeginWeekly | AnCountDays | AnCommitSkip | AnStartWeekly | AnClearWeekly | AnBuildWeekly
  | AnFinishWeekly | AnCommitWeekly | AnListWeeks

text \<open>
  \<^verbatim>\<open>dayUTC\<close> and \<^verbatim>\<open>MondayUTC\<close>.
\<close>

definition analytics_dayUTC :: "time \<Rightarrow> time" where
  "analytics_dayUTC t = day_start t"

definition MondayUTC :: "time \<Rightarrow> time" where
  "MondayUTC t = (let day = analytics_dayUTC t; offset = (Weekday day + 6) mod 7 in add_days day (- offset))"

section \<open>The daily snapshot\<close>

record base_row =
  br_group :: string
  br_region :: "string option"
  br_published :: time
  br_salary :: "real option"

text \<open>The left join with the external identifiers of the regions.\<close>

definition region_ids :: "an_db \<Rightarrow> cycle_observation \<Rightarrow> string list" where
  "region_ids db o1 = (case ob_region o1 of None \<Rightarrow> []
     | Some ext \<Rightarrow> map (snd \<circ> snd) (filter (\<lambda>(src, e, _). src = ob_source o1 \<and> e = ext) (an_regions db)))"

definition base_of :: "an_db \<Rightarrow> cycle_observation \<Rightarrow> base_row list" where
  "base_of db o1 =
     map (\<lambda>region. \<lparr>br_group = ob_group o1, br_region = region, br_published = ob_published o1,
                     br_salary = (if ob_eligible o1 then ob_mid o1 else None)\<rparr>)
       (case region_ids db o1 of [] \<Rightarrow> [None] | ids \<Rightarrow> map Some ids)"

definition base_rows :: "an_db \<Rightarrow> string \<Rightarrow> base_row list" where
  "base_rows db cycle = concat (map (base_of db) (filter (\<lambda>o1. ob_cycle o1 = cycle) (an_observations db)))"

definition salaries :: "base_row list \<Rightarrow> real list" where
  "salaries rows = List.map_filter br_salary rows"

text \<open>One aggregated row: counts, the median and the share of rows with a salary.\<close>

definition daily_row :: "an_env \<Rightarrow> time \<Rightarrow> ingest_cycle \<Rightarrow> string \<Rightarrow> string \<Rightarrow> string \<Rightarrow> string option \<Rightarrow> base_row list \<Rightarrow> demand_daily" where
  "daily_row env target c run g level region rows =
     \<lparr>dd_date = target, dd_source = ic_source c, dd_group = g, dd_level = level, dd_region = region,
      dd_active = length rows,
      dd_published = length (filter (\<lambda>r. an_midnight env target \<le> br_published r \<and> br_published r < an_midnight env (add_days target 1)) rows),
      dd_with_salary = length (salaries rows),
      dd_median = map_option (numeric_scale 2) (percentile_half (salaries rows)),
      dd_complete = True, dd_cycle = ic_id c, dd_run = run, dd_method = MethodVersion, dd_observed = ic_cycle_end c,
      dd_coverage = numeric_scale 6 (real (length (salaries rows)) / real (length rows))\<rparr>"

definition group_rows :: "string \<Rightarrow> base_row list \<Rightarrow> base_row list" where
  "group_rows g rows = filter (\<lambda>r. br_group r = g) rows"

definition region_rows :: "string \<Rightarrow> string option \<Rightarrow> base_row list \<Rightarrow> base_row list" where
  "region_rows g region rows = filter (\<lambda>r. br_group r = g \<and> br_region r = region) rows"

text \<open>\<^verbatim>\<open>GROUP BY role_group\<close>, united with \<^verbatim>\<open>GROUP BY role_group, region_id\<close> over the rows with a region.\<close>

definition group_keys :: "base_row list \<Rightarrow> string list" where
  "group_keys rows = remdups (map br_group rows)"

definition region_keys :: "base_row list \<Rightarrow> (string \<times> string option) list" where
  "region_keys rows = remdups (map (\<lambda>r. (br_group r, br_region r)) (filter (\<lambda>r. br_region r \<noteq> None) rows))"

definition daily_rows :: "an_env \<Rightarrow> time \<Rightarrow> ingest_cycle \<Rightarrow> string \<Rightarrow> base_row list \<Rightarrow> demand_daily list" where
  "daily_rows env target c run rows =
     map (\<lambda>g. daily_row env target c run g ''all_regions'' None (group_rows g rows)) (group_keys rows)
     @ map (\<lambda>(g, region). daily_row env target c run g ''region'' region (region_rows g region rows)) (region_keys rows)"

definition discovery_complete :: "ingest_cycle \<Rightarrow> bool" where
  "discovery_complete c \<longleftrightarrow> ic_scope c = ''daily_discovery'' \<and> ic_status c = ''complete'' \<and> ic_method c = MethodVersion"

text \<open>The whole \<^verbatim>\<open>INSERT ... SELECT\<close>: the rows of the cycle with the given id, if it is complete.\<close>

definition build_daily :: "an_env \<Rightarrow> string \<Rightarrow> time \<Rightarrow> string \<Rightarrow> an_db \<Rightarrow> (an_db \<times> nat) option" where
  "build_daily env cycle target run db =
     (let new = concat (map (\<lambda>c. daily_rows env target c run (base_rows db cycle))
                  (filter (\<lambda>c. ic_id c = cycle \<and> discovery_complete c) (an_cycles db)))
      in map_option (\<lambda>rows. (db\<lparr>an_daily := rows\<rparr>, length new)) (insert_rows daily_check daily_key new (an_daily db)))"

definition new_daily_run :: "an_env \<Rightarrow> nat \<Rightarrow> nat \<Rightarrow> time \<Rightarrow> ingest_cycle \<Rightarrow> analytics_run" where
  "new_daily_run env now t target c =
     \<lparr>ar_id = db_uuid (an_db_env env) t, ar_type = ''daily_snapshot'', ar_target = target, ar_source = ic_source c,
      ar_cycle = Some (ic_id c), ar_status = ''running'', ar_method = MethodVersion,
      ar_started = db_now (an_db_env env) now, ar_finished = None, ar_rows = 0, ar_days = 0, ar_category = None\<rparr>"

text \<open>Starting a run keeps the identifier of a run with the same key; the statement returns it.\<close>

definition start_run :: "analytics_run \<Rightarrow> (analytics_run \<Rightarrow> analytics_run) \<Rightarrow> an_db \<Rightarrow> an_db \<times> string" where
  "start_run new change db =
     (let rows = upsert run_key new change (an_runs db)
      in (db\<lparr>an_runs := rows\<rparr>, case row_of run_key (run_key new) rows of None \<Rightarrow> '''' | Some r \<Rightarrow> ar_id r))"

definition start_daily :: "an_env \<Rightarrow> nat \<Rightarrow> time \<Rightarrow> ingest_cycle \<Rightarrow> nat \<Rightarrow> an_db \<Rightarrow> (an_db \<times> string) option" where
  "start_daily env now target c t db =
     (let new = new_daily_run env now t target c in Some (start_run new (\<lambda>r. new\<lparr>ar_id := ar_id r\<rparr>) db))"

definition clear_daily :: "time \<Rightarrow> string \<Rightarrow> an_db \<Rightarrow> an_db" where
  "clear_daily target source db =
     db\<lparr>an_daily := filter (\<lambda>r. \<not> (dd_date r = target \<and> dd_source r = source \<and> dd_method r = MethodVersion)) (an_daily db)\<rparr>"

definition finish_analytics_run :: "string \<Rightarrow> (analytics_run \<Rightarrow> analytics_run) \<Rightarrow> an_db \<Rightarrow> an_db" where
  "finish_analytics_run run change db = db\<lparr>an_runs := map (\<lambda>r. if ar_id r = run then change r else r) (an_runs db)\<rparr>"

definition finish_daily :: "an_env \<Rightarrow> nat \<Rightarrow> string \<Rightarrow> nat \<Rightarrow> an_db \<Rightarrow> an_db" where
  "finish_daily env now run rows =
     finish_analytics_run run (\<lambda>r. r\<lparr>ar_status := ''success'', ar_finished := Some (db_now (an_db_env env) now), ar_rows := rows\<rparr>)"

definition writeDaily :: "an_env \<Rightarrow> ingest_cycle \<Rightarrow> an_db conn \<Rightarrow> an_db conn \<times> (an_error + an_result)" where
  "writeDaily env c =
     (let target = analytics_dayUTC (ic_cycle_date c); denv = an_db_env env in
      in_tx denv AnBeginDaily (\<lambda>now.
        and_do (stmt denv AnStartDaily (start_daily env now target c)) (\<lambda>run.
        and_do (command denv AnClearDaily (clear_daily target (ic_source c))) (\<lambda>_.
        and_do (stmt denv AnBuildDaily (\<lambda>_. build_daily env (ic_id c) target run)) (\<lambda>rows.
        and_do (command denv AnFinishDaily (finish_daily env now run rows)) (\<lambda>_.
        give (\<lparr>rs_RunID = run, rs_RunType = ''daily_snapshot'', rs_Target = target, rs_SourceCycleID = ic_id c,
               rs_Rows = rows, rs_SourceDayCount = 1, rs_Complete = True, rs_Skipped = False, rs_SkipReason = ''''\<rparr>,
              AnCommitDaily)))))))"

section \<open>Selecting a cycle, skipping, locking\<close>

definition snapshotted :: "an_db \<Rightarrow> ingest_cycle \<Rightarrow> bool" where
  "snapshotted db c \<longleftrightarrow> (\<exists>r \<in> set (an_runs db). ar_type r = ''daily_snapshot'' \<and> ar_cycle r = Some (ic_id c)
     \<and> ar_method r = MethodVersion \<and> ar_status r = ''success'')"

definition pending_cycles :: "an_db \<Rightarrow> ingest_cycle list" where
  "pending_cycles db = filter (\<lambda>c. discovery_complete c \<and> \<not> snapshotted db c) (an_cycles db)"

definition first_row :: "'a list \<Rightarrow> 'a option" where
  "first_row xs = (case xs of [] \<Rightarrow> None | x # _ \<Rightarrow> Some x)"

definition selectCycle :: "an_env \<Rightarrow> string \<Rightarrow> an_db conn \<Rightarrow> an_db conn \<times> (an_error + ingest_cycle option)" where
  "selectCycle env cycleID =
     stmt (an_db_env env) AnSelectCycle (\<lambda>_ db.
       if TrimSpace cycleID \<noteq> '''' then
         (case an_cast env cycleID of None \<Rightarrow> None
          | Some u \<Rightarrow> Some (db, first_row (filter (\<lambda>c. ic_id c = u \<and> discovery_complete c) (an_cycles db))))
       else Some (db, first_row (sort_key ic_cycle_end (pending_cycles db))))"

text \<open>The statement \<^verbatim>\<open>skipSQL\<close>: a successful run of the same key keeps its state.\<close>

definition skip_run :: "an_env \<Rightarrow> nat \<Rightarrow> string \<Rightarrow> time \<Rightarrow> string \<Rightarrow> string \<Rightarrow> nat \<Rightarrow> an_db \<Rightarrow> (an_db \<times> string) option" where
  "skip_run env now runType target source category t db =
     (let at_now = db_now (an_db_env env) now;
          new = \<lparr>ar_id = db_uuid (an_db_env env) t, ar_type = runType, ar_target = target, ar_source = source,
                 ar_cycle = None, ar_status = ''skipped'', ar_method = MethodVersion, ar_started = at_now,
                 ar_finished = Some at_now, ar_rows = 0, ar_days = 0, ar_category = Some category\<rparr>
      in Some (start_run new (\<lambda>r. if ar_status r = ''success'' then r
                 else r\<lparr>ar_status := ''skipped'', ar_finished := Some at_now, ar_category := Some category\<rparr>) db))"

definition recordSkip :: "an_env \<Rightarrow> string \<Rightarrow> time \<Rightarrow> string \<Rightarrow> string \<Rightarrow> an_db conn \<Rightarrow> an_db conn \<times> (an_error + string)" where
  "recordSkip env runType target source category s =
     stmt (an_db_env env) AnRecordSkip (\<lambda>t. skip_run env t runType target source category t) s"

definition recordSkipTx :: "an_env \<Rightarrow> nat \<Rightarrow> string \<Rightarrow> time \<Rightarrow> string \<Rightarrow> string \<Rightarrow> an_db conn \<Rightarrow> an_db conn \<times> (an_error + string)" where
  "recordSkipTx env now runType target source category =
     stmt (an_db_env env) AnRecordSkip (skip_run env now runType target source category)"

text \<open>
  \<^verbatim>\<open>withLock\<close>: a connection, the advisory lock, the work, the unlock whose failure is ignored.
\<close>

definition unlock :: "an_env \<Rightarrow> 'd conn \<Rightarrow> 'd conn" where
  "unlock env s = fst (stmt (an_db_env env) () (\<lambda>_ d. Some (d, ())) s)"

definition an_withLock :: "an_env \<Rightarrow> ('d conn \<Rightarrow> 'd conn \<times> (an_error + 'a)) \<Rightarrow> 'd conn \<Rightarrow> 'd conn \<times> (an_error + 'a)" where
  "an_withLock env run =
     and_do (query (an_db_env env) AnLockConnection (\<lambda>_. ())) (\<lambda>_.
     and_do (stmt (an_db_env env) AnLockQuery (\<lambda>t d. Some (d, an_lock_free env t))) (\<lambda>acquired s.
       if \<not> acquired then (s, Inl ErrLockUnavailable)
       else (case run s of (s, r) \<Rightarrow> (unlock env s, r))))"

definition skipped_result :: "string \<Rightarrow> string \<Rightarrow> time \<Rightarrow> string \<Rightarrow> an_result" where
  "skipped_result run runType target reason =
     \<lparr>rs_RunID = run, rs_RunType = runType, rs_Target = target, rs_SourceCycleID = '''', rs_Rows = 0,
      rs_SourceDayCount = 0, rs_Complete = False, rs_Skipped = True, rs_SkipReason = reason\<rparr>"

definition RunDaily :: "an_env \<Rightarrow> string \<Rightarrow> an_db conn \<Rightarrow> an_db conn \<times> (an_error + an_result)" where
  "RunDaily env cycleID =
     an_withLock env (and_do (selectCycle env cycleID) (\<lambda>found s.
       case found of
         None \<Rightarrow>
           (let target = Truncate (an_clock env (db_tick s)) (24 * Hour) in
            and_do (recordSkip env ''daily_snapshot'' target ''hh'' ''no_complete_cycle'')
              (\<lambda>run. give (skipped_result run ''daily_snapshot'' target ''no_complete_cycle'')) s)
       | Some c \<Rightarrow> writeDaily env c s))"

section \<open>The weekly roll-up\<close>

definition week_rows :: "an_db \<Rightarrow> time \<Rightarrow> string \<Rightarrow> demand_daily list" where
  "week_rows db week source =
     filter (\<lambda>r. dd_source r = source \<and> dd_method r = MethodVersion \<and> week \<le> dd_date r \<and> dd_date r < add_days week 7 \<and> dd_complete r)
       (an_daily db)"

definition available_days :: "an_db \<Rightarrow> time \<Rightarrow> string \<Rightarrow> nat" where
  "available_days db week source = length (remdups (map dd_date (week_rows db week source)))"

definition series_key :: "demand_daily \<Rightarrow> string \<times> string \<times> string option" where
  "series_key r = (dd_group r, dd_level r, dd_region r)"

text \<open>
  \<^verbatim>\<open>DISTINCT ON\<close> with \<^verbatim>\<open>ORDER BY snapshot_date DESC, observed_at DESC\<close>: the latest row of a series.
\<close>

definition latest_row :: "demand_daily list \<Rightarrow> demand_daily" where
  "latest_row rows = hd (rev (sort_key dd_date (sort_key dd_observed rows)))"

definition weekly_row :: "time \<Rightarrow> string \<Rightarrow> string \<Rightarrow> string \<times> string \<times> string option \<Rightarrow> demand_daily list \<Rightarrow> demand_weekly" where
  "weekly_row week source run k rows =
     (let days = length (remdups (map dd_date rows)); recent = latest_row rows in
      \<lparr>dw_week = week, dw_source = source, dw_group = fst k, dw_level = fst (snd k), dw_region = snd (snd k),
       dw_active = dd_active recent, dw_published = sum_list (map dd_published rows),
       dw_with_salary = sum_list (map dd_with_salary rows),
       dw_median = map_option (numeric_scale 2) (percentile_half (List.map_filter dd_median rows)),
       dw_days = days, dw_complete = (days = 7), dw_run = run, dw_method = MethodVersion, dw_observed = dd_observed recent\<rparr>)"

definition weekly_rows :: "time \<Rightarrow> string \<Rightarrow> string \<Rightarrow> demand_daily list \<Rightarrow> demand_weekly list" where
  "weekly_rows week source run rows =
     map (\<lambda>k. weekly_row week source run k (filter (\<lambda>r. series_key r = k) rows)) (remdups (map series_key rows))"

definition build_weekly :: "time \<Rightarrow> string \<Rightarrow> string \<Rightarrow> an_db \<Rightarrow> (an_db \<times> nat) option" where
  "build_weekly week source run db =
     (let new = weekly_rows week source run (week_rows db week source) in
      map_option (\<lambda>rows. (db\<lparr>an_weekly := rows\<rparr>, length new)) (insert_rows weekly_check weekly_key new (an_weekly db)))"

definition start_weekly :: "an_env \<Rightarrow> nat \<Rightarrow> time \<Rightarrow> string \<Rightarrow> nat \<Rightarrow> nat \<Rightarrow> an_db \<Rightarrow> (an_db \<times> string) option" where
  "start_weekly env now week source days t db =
     (let at_now = db_now (an_db_env env) now;
          new = \<lparr>ar_id = db_uuid (an_db_env env) t, ar_type = ''weekly_rollup'', ar_target = week, ar_source = source,
                 ar_cycle = None, ar_status = ''running'', ar_method = MethodVersion, ar_started = at_now,
                 ar_finished = None, ar_rows = 0, ar_days = days, ar_category = None\<rparr>
      in Some (start_run new (\<lambda>r. r\<lparr>ar_status := ''running'', ar_started := at_now, ar_finished := None,
                 ar_rows := 0, ar_days := days, ar_category := None\<rparr>) db))"

definition clear_weekly :: "time \<Rightarrow> string \<Rightarrow> an_db \<Rightarrow> an_db" where
  "clear_weekly week source db =
     db\<lparr>an_weekly := filter (\<lambda>r. \<not> (dw_week r = week \<and> dw_source r = source \<and> dw_method r = MethodVersion)) (an_weekly db)\<rparr>"

definition finish_weekly :: "an_env \<Rightarrow> nat \<Rightarrow> string \<Rightarrow> nat \<Rightarrow> nat \<Rightarrow> an_db \<Rightarrow> an_db" where
  "finish_weekly env now run rows days =
     finish_analytics_run run (\<lambda>r. r\<lparr>ar_status := ''success'', ar_finished := Some (db_now (an_db_env env) now), ar_rows := rows, ar_days := days\<rparr>)"

definition writeWeekly :: "an_env \<Rightarrow> time \<Rightarrow> string \<Rightarrow> an_db conn \<Rightarrow> an_db conn \<times> (an_error + an_result)" where
  "writeWeekly env week source =
     (let denv = an_db_env env in
      in_tx denv AnBeginWeekly (\<lambda>now.
        and_do (query denv AnCountDays (\<lambda>db. available_days db week source)) (\<lambda>days.
        if days = 0 then
          and_do (recordSkipTx env now ''weekly_rollup'' week source ''no_daily_snapshots'')
            (\<lambda>run. give (skipped_result run ''weekly_rollup'' week ''no_daily_snapshots'', AnCommitSkip))
        else
          and_do (stmt denv AnStartWeekly (start_weekly env now week source days)) (\<lambda>run.
          and_do (command denv AnClearWeekly (clear_weekly week source)) (\<lambda>_.
          and_do (stmt denv AnBuildWeekly (\<lambda>_. build_weekly week source run)) (\<lambda>rows.
          and_do (command denv AnFinishWeekly (finish_weekly env now run rows days)) (\<lambda>_.
          give (\<lparr>rs_RunID = run, rs_RunType = ''weekly_rollup'', rs_Target = week, rs_SourceCycleID = '''', rs_Rows = rows,
                 rs_SourceDayCount = days, rs_Complete = (days = 7), rs_Skipped = False, rs_SkipReason = ''''\<rparr>,
                AnCommitWeekly))))))))"

definition RunWeekly :: "an_env \<Rightarrow> time \<Rightarrow> string \<Rightarrow> an_db conn \<Rightarrow> an_db conn \<times> (an_error + an_result)" where
  "RunWeekly env weekStart source0 s =
     (let source = (if source0 = '''' then ''hh'' else source0); week = analytics_dayUTC weekStart in
      if Weekday week \<noteq> 1 then (s, Inl AnNotMonday)
      else an_withLock env (writeWeekly env week source) s)"

section \<open>The backfill\<close>

text \<open>The loop over the pending cycles; \<open>None\<close> would be a loop that does not end.\<close>

partial_function (option) backfill_daily ::
  "an_env \<Rightarrow> an_result list \<Rightarrow> an_db conn \<Rightarrow> (an_db conn \<times> an_result list \<times> an_error option) option" where
  "backfill_daily env results s =
     (case RunDaily env '''' s of
        (s, Inl e) \<Rightarrow> Some (s, results, Some e)
      | (s, Inr r) \<Rightarrow> if rs_Skipped r then Some (s, results, None) else backfill_daily env (results @ [r]) s)"

declare backfill_daily.simps [code]

fun backfill_weekly :: "an_env \<Rightarrow> time list \<Rightarrow> an_result list \<Rightarrow> an_db conn \<Rightarrow> an_db conn \<times> an_result list \<times> an_error option" where
  "backfill_weekly env [] results s = (s, results, None)"
| "backfill_weekly env (week # weeks) results s =
     (case RunWeekly env week ''hh'' s of
        (s, Inl e) \<Rightarrow> (s, results, Some e)
      | (s, Inr r) \<Rightarrow> backfill_weekly env weeks (results @ [r]) s)"

text \<open>The weeks with snapshots, each once, in order.\<close>

definition snapshot_weeks :: "an_db \<Rightarrow> time list" where
  "snapshot_weeks db = sort (remdups (map (MondayUTC \<circ> dd_date) (filter (\<lambda>r. dd_source r = ''hh'' \<and> dd_method r = MethodVersion) (an_daily db))))"

definition Backfill :: "an_env \<Rightarrow> an_db conn \<Rightarrow> (an_db conn \<times> an_result list \<times> an_error option) option" where
  "Backfill env s =
     (case backfill_daily env [] s of
        None \<Rightarrow> None
      | Some (s, results, Some e) \<Rightarrow> Some (s, results, Some e)
      | Some (s, results, None) \<Rightarrow>
          (case query (an_db_env env) AnListWeeks snapshot_weeks s of
             (s, Inl e) \<Rightarrow> Some (s, results, Some e)
           | (s, Inr weeks) \<Rightarrow> Some (backfill_weekly env weeks results s)))"

section \<open>Lemmas: the rows of a snapshot satisfy the constraints\<close>

definition observation_check :: "cycle_observation \<Rightarrow> bool" where
  "observation_check o1 \<longleftrightarrow> ob_group o1 \<in> set role_groups
     \<and> (if ob_eligible o1 then \<exists>m. ob_mid o1 = Some m \<and> 10000 \<le> m \<and> m \<le> 2000000 else ob_mid o1 = None)"

definition base_check :: "base_row \<Rightarrow> bool" where
  "base_check r \<longleftrightarrow> br_group r \<in> set role_groups \<and> median_ok (br_salary r)"

lemma base_rows_check:
  "list_all observation_check (an_observations db) \<Longrightarrow> list_all base_check (base_rows db cycle)"
  by (auto simp: list_all_iff base_rows_def base_of_def base_check_def observation_check_def median_ok_def
      split: list.splits option.splits if_splits)

lemma salaries_ok: "list_all base_check rows \<Longrightarrow> list_all (\<lambda>x. 10000 \<le> x \<and> x \<le> 2000000) (salaries rows)"
  by (force simp: list_all_iff salaries_def base_check_def median_ok_def List.map_filter_def split: option.splits)

lemma map_filter_length: "length (List.map_filter f xs) \<le> length xs"
  by (simp add: List.map_filter_def)

lemma salaries_length: "length (salaries rows) \<le> length rows"
  unfolding salaries_def by (rule map_filter_length)

lemma scaled_median_ok:
  assumes "list_all (\<lambda>x. 10000 \<le> x \<and> x \<le> 2000000) xs"
  shows "median_ok (map_option (numeric_scale 2) (percentile_half xs))"
proof (cases "percentile_half xs")
  case (Some m)
  from percentile_half_bounds [OF Some assms] have "of_int 10000 \<le> m" "m \<le> of_int 2000000" by simp_all
  then have "of_int 10000 \<le> numeric_scale 2 m \<and> numeric_scale 2 m \<le> of_int 2000000" by (intro numeric_scale_bounds) simp_all
  with Some show ?thesis by (simp add: median_ok_def)
qed (simp add: median_ok_def)

lemma coverage_ok: "0 \<le> numeric_scale 6 (real (length (salaries rows)) / real (length rows))
    \<and> numeric_scale 6 (real (length (salaries rows)) / real (length rows)) \<le> 1"
proof -
  have "real (length (salaries rows)) / real (length rows) \<le> 1"
    using salaries_length [of rows] by (cases "rows = []") (simp_all add: divide_le_eq_1)
  then show ?thesis using numeric_scale_bounds [of 0 "real (length (salaries rows)) / real (length rows)" 1 6] by simp
qed

lemma daily_row_check:
  assumes "list_all base_check rows" "g \<in> set role_groups" "level_ok level region"
  shows "daily_check (daily_row env target c run g level region rows)"
  using assms(2,3) salaries_length [of rows] scaled_median_ok [OF salaries_ok [OF assms(1)]] coverage_ok [of rows]
  by (simp add: daily_check_def daily_row_def)

lemma list_all_filter_sub: "list_all P xs \<Longrightarrow> list_all P (filter Q xs)"
  by (simp add: list_all_iff)

lemma daily_rows_check:
  assumes "list_all base_check rows"
  shows "list_all daily_check (daily_rows env target c run rows)"
proof -
  have g: "br_group r \<in> set role_groups" if "r \<in> set rows" for r
    using assms that by (simp add: list_all_iff base_check_def)
  have "daily_check (daily_row env target c run k ''all_regions'' None (group_rows k rows))" if "k \<in> set (group_keys rows)" for k
    using that g by (intro daily_row_check) (auto simp: group_rows_def level_ok_def group_keys_def intro: list_all_filter_sub [OF assms])
  moreover have "daily_check (daily_row env target c run k ''region'' region (region_rows k region rows))"
    if "(k, region) \<in> set (region_keys rows)" for k region
    using that g by (intro daily_row_check) (auto simp: region_rows_def level_ok_def region_keys_def intro: list_all_filter_sub [OF assms])
  ultimately show ?thesis unfolding daily_rows_def by (auto simp: list_all_iff)
qed

text \<open>The keys of the rows of one snapshot are distinct.\<close>

lemma daily_rows_keys:
  "map daily_key (daily_rows env target c run rows) =
     map (\<lambda>g. (target, ic_source c, g, ''all_regions'', None, MethodVersion)) (group_keys rows)
     @ map (\<lambda>(g, region). (target, ic_source c, g, ''region'', region, MethodVersion)) (region_keys rows)"
  by (simp add: daily_rows_def daily_key_def daily_row_def split_beta)

lemma daily_rows_distinct: "distinct (map daily_key (daily_rows env target c run rows))"
  unfolding daily_rows_keys by (auto simp: distinct_map group_keys_def region_keys_def inj_on_def)

lemma daily_rows_own: "r \<in> set (daily_rows env target c run rows) \<Longrightarrow>
    dd_date r = target \<and> dd_source r = ic_source c \<and> dd_method r = MethodVersion \<and> dd_complete r"
  by (auto simp: daily_rows_def daily_row_def)

lemma insert_rows_ok:
  assumes "list_all check new" "distinct (map key rows)" "distinct (map key new)" "key ` set rows \<inter> key ` set new = {}"
  shows "insert_rows check key new rows = Some (rows @ new)"
  using assms by (simp add: insert_rows_def)

section \<open>Lemmas: the tables stay well-formed\<close>

text \<open>
  What the migrations demand of the tables: keys, checks, one discovery cycle per source and day; and
  that a daily run stands for the day and the source of its cycle, which the worker sees to.
\<close>

definition run_linked :: "ingest_cycle list \<Rightarrow> analytics_run \<Rightarrow> bool" where
  "run_linked cycles r \<longleftrightarrow> (case ar_cycle r of None \<Rightarrow> True
     | Some i \<Rightarrow> \<exists>c \<in> set cycles. ic_id c = i \<and> ar_target r = analytics_dayUTC (ic_cycle_date c) \<and> ar_source r = ic_source c)"

definition tables_ok :: "an_db \<Rightarrow> bool" where
  "tables_ok db \<longleftrightarrow> distinct (map ic_id (an_cycles db)) \<and> list_all observation_check (an_observations db)
     \<and> list_all daily_check (an_daily db) \<and> distinct (map daily_key (an_daily db))
     \<and> list_all (\<lambda>r. day_start (dd_date r) = dd_date r) (an_daily db)
     \<and> list_all weekly_check (an_weekly db) \<and> distinct (map weekly_key (an_weekly db))
     \<and> distinct (map run_key (an_runs db)) \<and> distinct (map ar_id (an_runs db))
     \<and> list_all (\<lambda>c. day_start (ic_cycle_date c) = ic_cycle_date c) (an_cycles db)
     \<and> distinct (map (\<lambda>c. (ic_source c, ic_cycle_date c)) (filter discovery_complete (an_cycles db)))
     \<and> list_all (run_linked (an_cycles db)) (an_runs db)"

text \<open>The identifiers the database will hand out are new.\<close>

definition ids_fresh :: "an_env \<Rightarrow> an_db conn \<Rightarrow> bool" where
  "ids_fresh env s \<longleftrightarrow> inj (db_uuid (an_db_env env))
     \<and> (\<forall>t \<ge> db_tick s. db_uuid (an_db_env env) t \<notin> ar_id ` set (an_runs (db_data s)))"

definition an_ok :: "an_env \<Rightarrow> an_db conn \<Rightarrow> bool" where
  "an_ok env s \<longleftrightarrow> tables_ok (db_data s) \<and> ids_fresh env s"

text \<open>Starting a run: the keys, the identifiers and the one that is returned.\<close>

lemma start_run_runs:
  assumes "start_run new change db = (db', run)" and "distinct (map run_key (an_runs db))" and "distinct (map ar_id (an_runs db))"
    and "ar_id new \<notin> ar_id ` set (an_runs db)" and "\<And>r. run_key r = run_key new \<Longrightarrow> run_key (change r) = run_key new"
    and "\<And>r. ar_id (change r) = ar_id r"
  shows "db' = db\<lparr>an_runs := upsert run_key new change (an_runs db)\<rparr> \<and> distinct (map run_key (an_runs db')) \<and> distinct (map ar_id (an_runs db'))
    \<and> (\<exists>r \<in> set (an_runs db'). ar_id r = run \<and> run_key r = run_key new)
    \<and> ar_id ` set (an_runs db') \<subseteq> insert (ar_id new) (ar_id ` set (an_runs db))"
proof -
  define rows where "rows = upsert run_key new change (an_runs db)"
  have db': "db' = db\<lparr>an_runs := rows\<rparr>" and run: "run = (case row_of run_key (run_key new) rows of None \<Rightarrow> '''' | Some r \<Rightarrow> ar_id r)"
    using assms(1) by (auto simp: start_run_def rows_def Let_def)
  have k: "run_key ` set rows = insert (run_key new) (run_key ` set (an_runs db))"
    unfolding rows_def by (rule upsert_keys) (rule assms(5))
  have d: "distinct (map run_key rows)" unfolding rows_def by (rule upsert_distinct) (rule assms(5), assumption, rule assms(2))
  obtain r where r: "row_of run_key (run_key new) rows = Some r" using k row_of_None by (metis insertI1 not_None_eq)
  from row_of_Some [OF r] r run have e: "\<exists>r \<in> set rows. ar_id r = run \<and> run_key r = run_key new" by auto
  have ids: "map ar_id (map (\<lambda>r. if run_key r = run_key new then change r else r) (an_runs db)) = map ar_id (an_runs db)"
    using assms(6) by auto
  have "map ar_id rows = (if \<exists>r \<in> set (an_runs db). run_key r = run_key new then map ar_id (an_runs db) else map ar_id (an_runs db) @ [ar_id new])"
    unfolding rows_def upsert_def using ids by simp
  then have i: "distinct (map ar_id rows)" and si: "set (map ar_id rows) \<subseteq> insert (ar_id new) (ar_id ` set (an_runs db))"
    using assms(3,4) by (auto split: if_splits)
  from d e i si show ?thesis unfolding db' by (simp add: rows_def)
qed

lemma finish_run_runs:
  assumes "\<And>r. run_key (change r) = run_key r" "\<And>r. ar_id (change r) = ar_id r"
  shows "map run_key (an_runs (finish_analytics_run run change db)) = map run_key (an_runs db)"
    "map ar_id (an_runs (finish_analytics_run run change db)) = map ar_id (an_runs db)"
  using assms by (auto simp: finish_analytics_run_def)

lemma base_rows_cong:
  assumes "an_regions db' = an_regions db" "an_observations db' = an_observations db"
  shows "base_rows db' cycle = base_rows db cycle"
proof -
  have "region_ids db' = region_ids db" by (intro ext) (simp add: region_ids_def assms cong: option.case_cong)
  then have "base_of db' = base_of db" by (intro ext) (simp add: base_of_def)
  then show ?thesis by (simp add: base_rows_def assms)
qed

lemma build_daily_eq:
  assumes "tables_ok db" "c \<in> set (an_cycles db)" "discovery_complete c"
  shows "build_daily env (ic_id c) target run (clear_daily target (ic_source c) (db\<lparr>an_runs := rs\<rparr>)) =
    Some (db\<lparr>an_runs := rs, an_daily := an_daily (clear_daily target (ic_source c) db) @ daily_rows env target c run (base_rows db (ic_id c))\<rparr>,
          length (daily_rows env target c run (base_rows db (ic_id c))))"
proof -
  let ?db = "clear_daily target (ic_source c) (db\<lparr>an_runs := rs\<rparr>)" and ?new = "daily_rows env target c run (base_rows db (ic_id c))"
  have same: "base_rows ?db (ic_id c) = base_rows db (ic_id c)" "an_cycles ?db = an_cycles db"
    "an_daily ?db = an_daily (clear_daily target (ic_source c) db)"
    by (intro base_rows_cong) (simp_all add: clear_daily_def)
  have "filter (\<lambda>d. ic_id d = ic_id c \<and> discovery_complete d) (an_cycles db) = [c]"
  proof -
    have d: "distinct (map ic_id (an_cycles db))" using assms(1) by (simp add: tables_ok_def)
    obtain xs ys where l: "an_cycles db = xs @ c # ys" using assms(2) by (auto dest: split_list)
    with d have "\<forall>x \<in> set (xs @ ys). ic_id x \<noteq> ic_id c" by (auto simp: image_iff)
    then have "filter (\<lambda>d. ic_id d = ic_id c \<and> discovery_complete d) xs = []"
      "filter (\<lambda>d. ic_id d = ic_id c \<and> discovery_complete d) ys = []" by (auto simp: filter_empty_conv)
    with l assms(3) show ?thesis by simp
  qed
  then have new: "concat (map (\<lambda>c'. daily_rows env target c' run (base_rows ?db (ic_id c)))
      (filter (\<lambda>d. ic_id d = ic_id c \<and> discovery_complete d) (an_cycles ?db))) = ?new" using same by simp
  have "insert_rows daily_check daily_key ?new (an_daily ?db) = Some (an_daily ?db @ ?new)"
  proof (rule insert_rows_ok)
    show "list_all daily_check ?new"
      using assms(1) by (intro daily_rows_check base_rows_check) (simp add: tables_ok_def)
    show "distinct (map daily_key (an_daily ?db))"
      using assms(1) by (auto simp: clear_daily_def tables_ok_def intro: distinct_map_filter)
    show "distinct (map daily_key ?new)" by (rule daily_rows_distinct)
    show "daily_key ` set (an_daily ?db) \<inter> daily_key ` set ?new = {}"
      by (auto simp: clear_daily_def daily_key_def dest!: daily_rows_own)
  qed
  then show ?thesis unfolding build_daily_def Let_def new by (simp add: same clear_daily_def)
qed

text \<open>A successful daily run, as one change of the tables.\<close>

definition snapshot_of :: "an_env \<Rightarrow> ingest_cycle \<Rightarrow> string \<Rightarrow> an_db \<Rightarrow> demand_daily list" where
  "snapshot_of env c run db = daily_rows env (analytics_dayUTC (ic_cycle_date c)) c run (base_rows db (ic_id c))"

lemma writeDaily_ok:
  assumes "writeDaily env c s = (s', Inr r)" "tables_ok (db_data s)" "c \<in> set (an_cycles (db_data s))" "discovery_complete c"
  obtains now t rs run where "start_daily env now (analytics_dayUTC (ic_cycle_date c)) c t (db_data s) = Some ((db_data s)\<lparr>an_runs := rs\<rparr>, run)"
    "db_tick s \<le> t" "t < db_tick s'" "rs_RunID r = run" "\<not> rs_Skipped r"
    "rs_SourceCycleID r = ic_id c" "rs_Rows r = length (snapshot_of env c run (db_data s))"
    "db_data s' = finish_daily env now run (length (snapshot_of env c run (db_data s)))
       ((db_data s)\<lparr>an_runs := rs, an_daily := an_daily (clear_daily (analytics_dayUTC (ic_cycle_date c)) (ic_source c) (db_data s))
          @ snapshot_of env c run (db_data s)\<rparr>)"
proof -
  let ?target = "analytics_dayUTC (ic_cycle_date c)" and ?denv = "an_db_env env" and ?db = "db_data s"
  note w = assms(1) [unfolded writeDaily_def Let_def]
  obtain s1 t1 where b: "stmt ?denv AnBeginDaily (\<lambda>t d. Some (d, t)) s = (s1, Inr t1)"
    using w by (auto simp: in_tx_def split: prod.splits sum.splits)
  note b1 = stmt_ok [OF b]
  obtain s2 run where st: "stmt ?denv AnStartDaily (start_daily env t1 ?target c) s1 = (s2, Inr run)"
    using w b by (auto simp: in_tx_def and_do_def split: prod.splits sum.splits)
  note st1 = stmt_ok [OF st]
  obtain s3 where cl: "command ?denv AnClearDaily (clear_daily ?target (ic_source c)) s2 = (s3, Inr ())"
    using w b st by (auto simp: in_tx_def and_do_def split: prod.splits sum.splits)
  obtain s4 n where bu: "stmt ?denv AnBuildDaily (\<lambda>_. build_daily env (ic_id c) ?target run) s3 = (s4, Inr n)"
    using w b st cl by (auto simp: in_tx_def and_do_def split: prod.splits sum.splits)
  obtain s5 where fi: "command ?denv AnFinishDaily (finish_daily env t1 run n) s4 = (s5, Inr ())"
    using w b st cl bu by (auto simp: in_tx_def and_do_def split: prod.splits sum.splits)
  have r: "stmt ?denv AnCommitDaily (\<lambda>_ d. Some (d, ())) s5 = (s', Inr ())" "rs_RunID r = run" "\<not> rs_Skipped r" "rs_SourceCycleID r = ic_id c" "rs_Rows r = n"
    using w b st cl bu fi by (auto simp: in_tx_def and_do_def give_def split: prod.splits sum.splits)
  obtain rs where "?db\<lparr>an_runs := rs\<rparr> = db_data s2"
    using st1 b1 by (auto simp: start_daily_def start_run_def Let_def)
  note rs = this [symmetric]
  note d3 = command_ok [OF cl] and d5 = command_ok [OF fi] and d6 = stmt_ok [OF r(1)] and d4 = stmt_ok [OF bu]
  have ticks: "db_tick s2 = Suc (Suc (db_tick s))" "db_tick s3 = Suc (db_tick s2)" "db_tick s5 = Suc (db_tick s4)"
    using b1 st1 cl fi by (auto simp: command_def dest: stmt_ok)
  have built: "build_daily env (ic_id c) ?target run (db_data s3) = Some (?db\<lparr>an_runs := rs, an_daily := an_daily (clear_daily ?target (ic_source c) ?db)
      @ snapshot_of env c run ?db\<rparr>, length (snapshot_of env c run ?db))"
    unfolding d3 rs snapshot_of_def by (rule build_daily_eq [OF assms(2-4)])
  show thesis
  proof (rule that)
    show "start_daily env t1 ?target c (Suc (db_tick s)) ?db = Some (?db\<lparr>an_runs := rs\<rparr>, run)" using st1 b1 rs by simp
    show "db_tick s \<le> Suc (db_tick s)" by simp
    show "Suc (db_tick s) < db_tick s'" using ticks d4 d6 by simp
    show "rs_RunID r = run" "\<not> rs_Skipped r" "rs_SourceCycleID r = ic_id c" by fact+
    show "rs_Rows r = length (snapshot_of env c run ?db)" using built d4 r(5) by simp
    show "db_data s' = finish_daily env t1 run (length (snapshot_of env c run ?db))
       (?db\<lparr>an_runs := rs, an_daily := an_daily (clear_daily ?target (ic_source c) ?db) @ snapshot_of env c run ?db\<rparr>)"
      using built d4 d5 d6 by simp
  qed
qed

text \<open>The rows of an upsert, one by one.\<close>

lemma upsert_cases:
  assumes "r \<in> set (upsert key new change rows)"
  obtains "r = new" | r0 where "r0 \<in> set rows" "key r0 = key new" "r = change r0" | "r \<in> set rows" "key r \<noteq> key new"
  using assms by (auto simp: upsert_def split: if_splits)

lemma upsert_keeps: "r \<in> set rows \<Longrightarrow> key r \<noteq> key new \<Longrightarrow> r \<in> set (upsert key new change rows)"
  by (auto simp: upsert_def)

lemma start_daily_facts:
  assumes "start_daily env now (analytics_dayUTC (ic_cycle_date c)) c t db = Some (db\<lparr>an_runs := rs\<rparr>, run)"
    and "tables_ok db" "c \<in> set (an_cycles db)" "db_uuid (an_db_env env) t \<notin> ar_id ` set (an_runs db)"
  shows "rs = upsert run_key (new_daily_run env now t (analytics_dayUTC (ic_cycle_date c)) c)
      (\<lambda>r. (new_daily_run env now t (analytics_dayUTC (ic_cycle_date c)) c)\<lparr>ar_id := ar_id r\<rparr>) (an_runs db)"
    "distinct (map run_key rs)" "distinct (map ar_id rs)" "list_all (run_linked (an_cycles db)) rs"
    "ar_id ` set rs \<subseteq> insert (db_uuid (an_db_env env) t) (ar_id ` set (an_runs db))"
    "\<exists>r \<in> set rs. ar_id r = run \<and> ar_type r = ''daily_snapshot'' \<and> ar_cycle r = Some (ic_id c) \<and> ar_method r = MethodVersion"
proof -
  let ?new = "new_daily_run env now t (analytics_dayUTC (ic_cycle_date c)) c"
  let ?change = "\<lambda>r. ?new\<lparr>ar_id := ar_id r\<rparr>"
  have key: "run_key (?change r) = run_key ?new" for r by (simp add: run_key_def)
  have st: "start_run ?new ?change db = (db\<lparr>an_runs := rs\<rparr>, run)" using assms(1) by (simp add: start_daily_def Let_def)
  have new_id: "ar_id ?new = db_uuid (an_db_env env) t" by (simp add: new_daily_run_def)
  have "distinct (map run_key (an_runs db))" "distinct (map ar_id (an_runs db))" using assms(2) by (simp_all add: tables_ok_def)
  from start_run_runs [OF st this assms(4) [folded new_id] key] have f: "rs = upsert run_key ?new ?change (an_runs db)"
    "distinct (map run_key rs)" "distinct (map ar_id rs)" "\<exists>r \<in> set rs. ar_id r = run \<and> run_key r = run_key ?new"
    "ar_id ` set rs \<subseteq> insert (ar_id ?new) (ar_id ` set (an_runs db))"
    by (auto dest: arg_cong [of _ _ an_runs])
  show "rs = upsert run_key ?new ?change (an_runs db)" "distinct (map run_key rs)" "distinct (map ar_id rs)" by fact+
  show "ar_id ` set rs \<subseteq> insert (db_uuid (an_db_env env) t) (ar_id ` set (an_runs db))" using f(5) new_id by simp
  have linked: "run_linked (an_cycles db) (?new\<lparr>ar_id := i\<rparr>)" for i
    using assms(3) by (auto simp: run_linked_def new_daily_run_def)
  from linked [of "ar_id ?new"] have "run_linked (an_cycles db) ?new" by simp
  with linked assms(2) show "list_all (run_linked (an_cycles db)) rs"
    unfolding list_all_iff f(1) by (auto elim!: upsert_cases simp: tables_ok_def list_all_iff)
  from f(4) obtain r where r: "r \<in> set rs" "ar_id r = run" "run_key r = run_key ?new" by blast
  from r(1,3) show "\<exists>r \<in> set rs. ar_id r = run \<and> ar_type r = ''daily_snapshot'' \<and> ar_cycle r = Some (ic_id c) \<and> ar_method r = MethodVersion"
    unfolding f(1) using r(2) by (intro bexI [of _ r]) (auto elim!: upsert_cases simp: new_daily_run_def)
qed

lemma run_linked_finished [simp]:
  "run_linked cycles (r\<lparr>ar_status := st, ar_finished := fin, ar_rows := n\<rparr>) = run_linked cycles r"
  by (simp add: run_linked_def cong: option.case_cong)

lemma finish_daily_rows:
  "an_runs (finish_daily env now run n db) = map (\<lambda>r. if ar_id r = run
     then r\<lparr>ar_status := ''success'', ar_finished := Some (db_now (an_db_env env) now), ar_rows := n\<rparr> else r) (an_runs db)"
  by (simp add: finish_daily_def finish_analytics_run_def)

lemma finish_daily_other [simp]:
  "an_cycles (finish_daily env now run n db) = an_cycles db" "an_observations (finish_daily env now run n db) = an_observations db"
  "an_regions (finish_daily env now run n db) = an_regions db" "an_daily (finish_daily env now run n db) = an_daily db"
  "an_weekly (finish_daily env now run n db) = an_weekly db"
  by (simp_all add: finish_daily_def finish_analytics_run_def)

lemma snapshot_of_own: "r \<in> set (snapshot_of env c run db) \<Longrightarrow>
    dd_date r = analytics_dayUTC (ic_cycle_date c) \<and> dd_source r = ic_source c \<and> dd_method r = MethodVersion \<and> dd_complete r"
  unfolding snapshot_of_def by (rule daily_rows_own)

lemma cleared_daily:
  "an_daily (clear_daily target source db) = filter (\<lambda>r. \<not> (dd_date r = target \<and> dd_source r = source \<and> dd_method r = MethodVersion)) (an_daily db)"
  by (simp add: clear_daily_def)

lemma run_linked_cycle:
  assumes "tables_ok db" "r \<in> set (an_runs db)" "ar_cycle r = Some (ic_id c)" "c \<in> set (an_cycles db)"
  shows "ar_target r = analytics_dayUTC (ic_cycle_date c) \<and> ar_source r = ic_source c"
proof -
  obtain d where "d \<in> set (an_cycles db)" "ic_id d = ic_id c" "ar_target r = analytics_dayUTC (ic_cycle_date d)" "ar_source r = ic_source d"
  proof -
    have "run_linked (an_cycles db) r" using assms(1,2) by (simp add: tables_ok_def list_all_iff)
    with assms(3) that show thesis by (auto simp: run_linked_def)
  qed
  moreover from this assms(1,4) have "d = c" by (auto simp: tables_ok_def distinct_map dest: inj_onD)
  ultimately show ?thesis by simp
qed

lemma one_cycle_a_day:
  assumes "tables_ok db" "c \<in> set (an_cycles db)" "d \<in> set (an_cycles db)" "discovery_complete c" "discovery_complete d"
    "analytics_dayUTC (ic_cycle_date c) = analytics_dayUTC (ic_cycle_date d)" "ic_source c = ic_source d"
  shows "c = d"
proof -
  have "ic_cycle_date c = ic_cycle_date d" using assms by (auto simp: tables_ok_def list_all_iff analytics_dayUTC_def)
  moreover have "inj_on (\<lambda>c. (ic_source c, ic_cycle_date c)) (set (filter discovery_complete (an_cycles db)))"
    using assms(1) by (simp add: tables_ok_def distinct_map)
  ultimately show ?thesis using assms by (auto dest: inj_onD)
qed

lemma ids_fresh_step:
  assumes "ids_fresh env s" "db_tick s \<le> t" "t < db_tick s'"
    and "ar_id ` set (an_runs (db_data s')) \<subseteq> insert (db_uuid (an_db_env env) t) (ar_id ` set (an_runs (db_data s)))"
  shows "ids_fresh env s'"
proof -
  have "db_uuid (an_db_env env) u \<notin> ar_id ` set (an_runs (db_data s'))" if "db_tick s' \<le> u" for u
  proof
    assume "db_uuid (an_db_env env) u \<in> ar_id ` set (an_runs (db_data s'))"
    then have "db_uuid (an_db_env env) u \<in> insert (db_uuid (an_db_env env) t) (ar_id ` set (an_runs (db_data s)))"
      by (rule subsetD [OF assms(4)])
    moreover have "db_uuid (an_db_env env) u \<noteq> db_uuid (an_db_env env) t"
      using assms(1,3) that by (auto simp: ids_fresh_def dest!: injD)
    ultimately have "db_uuid (an_db_env env) u \<in> ar_id ` set (an_runs (db_data s))" by simp
    moreover have "db_tick s \<le> u" using assms(2,3) that by simp
    ultimately show False using assms(1) unfolding ids_fresh_def by blast
  qed
  with assms(1) show ?thesis by (simp add: ids_fresh_def)
qed

text \<open>A daily run keeps the tables well-formed and records its cycle as done.\<close>

lemma writeDaily_preserves:
  assumes "writeDaily env c s = (s', Inr r)" "an_ok env s" "c \<in> set (an_cycles (db_data s))" "discovery_complete c"
  shows "an_ok env s'" "an_cycles (db_data s') = an_cycles (db_data s)" "snapshotted (db_data s') c"
    "\<And>c'. c' \<in> set (an_cycles (db_data s)) \<Longrightarrow> discovery_complete c' \<Longrightarrow> snapshotted (db_data s) c' \<Longrightarrow> snapshotted (db_data s') c'"
proof -
  let ?db = "db_data s" and ?target = "analytics_dayUTC (ic_cycle_date c)"
  have ok: "tables_ok ?db" and fresh: "ids_fresh env s" using assms(2) by (simp_all add: an_ok_def)
  obtain now t rs run where st: "start_daily env now ?target c t ?db = Some (?db\<lparr>an_runs := rs\<rparr>, run)"
      and t: "db_tick s \<le> t" "t < db_tick s'"
      and d': "db_data s' = finish_daily env now run (length (snapshot_of env c run ?db))
       (?db\<lparr>an_runs := rs, an_daily := an_daily (clear_daily ?target (ic_source c) ?db) @ snapshot_of env c run ?db\<rparr>)"
    by (rule writeDaily_ok [OF assms(1) ok assms(3,4)])
  have new: "db_uuid (an_db_env env) t \<notin> ar_id ` set (an_runs ?db)" using fresh t(1) by (simp add: ids_fresh_def)
  note f = start_daily_facts [OF st ok assms(3) new]
  show cyc: "an_cycles (db_data s') = an_cycles ?db" by (simp add: d')
  have runs: "an_runs (db_data s') = map (\<lambda>r. if ar_id r = run then r\<lparr>ar_status := ''success'',
      ar_finished := Some (db_now (an_db_env env) now), ar_rows := length (snapshot_of env c run ?db)\<rparr> else r) rs"
    by (simp add: d' finish_daily_rows)
  have keys: "map run_key (an_runs (db_data s')) = map run_key rs" "map ar_id (an_runs (db_data s')) = map ar_id rs"
    unfolding runs by (auto simp: run_key_def)
  have linked: "list_all (run_linked (an_cycles ?db)) (an_runs (db_data s'))"
    using f(4) unfolding runs by (auto simp: list_all_iff)
  show "snapshotted (db_data s') c"
  proof -
    obtain r where r: "r \<in> set rs" "ar_id r = run" "ar_type r = ''daily_snapshot''" "ar_cycle r = Some (ic_id c)" "ar_method r = MethodVersion"
      using f(6) by blast
    then have "r\<lparr>ar_status := ''success'', ar_finished := Some (db_now (an_db_env env) now),
        ar_rows := length (snapshot_of env c run ?db)\<rparr> \<in> set (an_runs (db_data s'))"
      unfolding runs by (auto intro!: image_eqI [of _ _ r])
    with r show ?thesis unfolding snapshotted_def by (intro bexI) auto
  qed
  have daily: "an_daily (db_data s') = an_daily (clear_daily ?target (ic_source c) ?db) @ snapshot_of env c run ?db" by (simp add: d')
  have other: "an_observations (db_data s') = an_observations ?db" "an_weekly (db_data s') = an_weekly ?db" by (simp_all add: d')
  have checks: "list_all daily_check (snapshot_of env c run ?db)"
    using ok unfolding snapshot_of_def by (intro daily_rows_check base_rows_check) (simp add: tables_ok_def)
  have "distinct (map daily_key (an_daily (db_data s')))"
    unfolding daily using ok daily_rows_distinct [of env ?target c run "base_rows ?db (ic_id c)"]
    by (auto simp: cleared_daily tables_ok_def daily_key_def snapshot_of_def dest!: daily_rows_own intro: distinct_map_filter)
  moreover have "list_all (\<lambda>r. day_start (dd_date r) = dd_date r) (an_daily (db_data s'))"
    unfolding daily using ok by (auto simp: list_all_iff cleared_daily tables_ok_def analytics_dayUTC_def dest!: snapshot_of_own)
  moreover have "list_all daily_check (an_daily (db_data s'))"
    unfolding daily using ok checks by (auto simp: list_all_iff cleared_daily tables_ok_def)
  ultimately have "tables_ok (db_data s')" using ok keys f(2,3) linked cyc other by (simp add: tables_ok_def)
  moreover have "ids_fresh env s'"
    using f(5) arg_cong [OF keys(2), of set] by (intro ids_fresh_step [OF fresh t]) simp
  ultimately show "an_ok env s'" by (simp add: an_ok_def)
  show "snapshotted (db_data s') c'" if c': "c' \<in> set (an_cycles ?db)" "discovery_complete c'" "snapshotted ?db c'" for c'
  proof (cases "c' = c")
    case False
    obtain r' where r': "r' \<in> set (an_runs ?db)" "ar_type r' = ''daily_snapshot''" "ar_cycle r' = Some (ic_id c')"
        "ar_method r' = MethodVersion" "ar_status r' = ''success''"
      using c'(3) by (auto simp: snapshotted_def)
    have "ar_target r' = analytics_dayUTC (ic_cycle_date c') \<and> ar_source r' = ic_source c'"
      using run_linked_cycle [OF ok r'(1,3) c'(1)] .
    with one_cycle_a_day [OF ok assms(3) c'(1) assms(4) c'(2)] False
    have "run_key r' \<noteq> run_key (new_daily_run env now t ?target c)" by (auto simp: run_key_def new_daily_run_def)
    with r'(1) have rs: "r' \<in> set rs" unfolding f(1) by (intro upsert_keeps)
    have "ar_id r' \<noteq> run"
    proof
      assume "ar_id r' = run"
      with f(6) rs f(3) have "ar_cycle r' = Some (ic_id c)" by (auto simp: distinct_map dest: inj_onD)
      with r'(3) False assms(3) c'(1) ok show False by (auto simp: tables_ok_def distinct_map dest: inj_onD)
    qed
    with rs r' show ?thesis unfolding snapshotted_def runs by force
  qed (simp add: \<open>snapshotted (db_data s') c\<close>)
qed

section \<open>Lemmas: the week\<close>

lemma week_start_aligned: "Weekday (analytics_dayUTC t) = 1 \<Longrightarrow> day_start (analytics_dayUTC t) = analytics_dayUTC t"
  by (simp add: analytics_dayUTC_def)

definition week_days :: "time \<Rightarrow> time set" where
  "week_days week = (\<lambda>i. add_days week (int i)) ` {..<7}"

lemma week_days_card: "card (week_days week) = 7"
  unfolding week_days_def by (subst card_image) (auto simp: inj_on_def add_days_def Day_def)

lemma in_week:
  assumes "day_start week = week" "day_start d = d"
  shows "week \<le> d \<and> d < add_days week 7 \<longleftrightarrow> d \<in> week_days week"
proof
  assume r: "week \<le> d \<and> d < add_days week 7"
  have w: "week = days_of week * Day" and dd: "d = days_of d * Day"
    using assms by (simp_all add: day_start_def days_of_def minus_mod_eq_div_mult Day_def)
  define n where "n = days_of d - days_of week"
  have n: "d = week + n * Day" unfolding n_def using w dd by (simp add: algebra_simps)
  with r have "0 \<le> n * Day" "n * Day < 7 * Day" by (simp_all add: add_days_def)
  then have "0 \<le> n" "n < 7" by (simp_all add: Day_def)
  with n have "d = add_days week (int (nat n))" "nat n < 7" by (simp_all add: add_days_def)
  then show "d \<in> week_days week" unfolding week_days_def by blast
next
  assume "d \<in> week_days week"
  then show "week \<le> d \<and> d < add_days week 7" by (auto simp: week_days_def add_days_def Day_def)
qed

definition dates_of :: "demand_daily list \<Rightarrow> time set" where
  "dates_of rows = set (map dd_date rows)"

lemma days_count: "length (remdups (map dd_date rows)) = card (dates_of rows)"
  by (simp add: dates_of_def length_remdups_card_conv)

lemma week_rows_dates:
  assumes "tables_ok db" "day_start week = week" "set rows \<subseteq> set (week_rows db week source)"
  shows "dates_of rows \<subseteq> week_days week"
proof
  fix d assume "d \<in> dates_of rows"
  then obtain r where r: "r \<in> set (week_rows db week source)" "d = dd_date r" using assms(3) by (auto simp: dates_of_def)
  with assms(1) have "day_start d = d" "week \<le> d \<and> d < add_days week 7" by (auto simp: week_rows_def tables_ok_def list_all_iff)
  with in_week [OF assms(2)] show "d \<in> week_days week" by blast
qed

lemma full_week:
  assumes "tables_ok db" "day_start week = week" "set rows \<subseteq> set (week_rows db week source)"
  shows "card (dates_of rows) \<le> 7" "card (dates_of rows) = 7 \<longleftrightarrow> dates_of rows = week_days week"
proof -
  have sub: "dates_of rows \<subseteq> week_days week" by (rule week_rows_dates [OF assms])
  have fin: "finite (week_days week)" by (simp add: week_days_def)
  show "card (dates_of rows) \<le> 7" using card_mono [OF fin sub] by (simp add: week_days_card)
  show "card (dates_of rows) = 7 \<longleftrightarrow> dates_of rows = week_days week"
    using card_subset_eq [OF fin sub] week_days_card [of week] by auto
qed

lemma weekly_row_check:
  assumes "tables_ok db" "day_start week = week" "Weekday week = 1" "r \<in> set (week_rows db week source)"
  shows "weekly_check (weekly_row week source run (series_key r) (filter (\<lambda>d. series_key d = series_key r) (week_rows db week source)))"
proof -
  let ?rows = "filter (\<lambda>d. series_key d = series_key r) (week_rows db week source)"
  have sub: "set ?rows \<subseteq> set (week_rows db week source)" by auto
  have checks: "daily_check d" if "d \<in> set (week_rows db week source)" for d
    using assms(1) that by (auto simp: week_rows_def tables_ok_def list_all_iff)
  have "list_all (\<lambda>x. 10000 \<le> x \<and> x \<le> 2000000) (List.map_filter dd_median ?rows)"
    using checks by (force simp: list_all_iff List.map_filter_def daily_check_def median_ok_def split: option.splits)
  note median = scaled_median_ok [OF this]
  have "r \<in> set ?rows" using assms(4) by simp
  then have "dates_of ?rows \<noteq> {}" by (auto simp: dates_of_def)
  then have "1 \<le> card (dates_of ?rows)" by (simp add: dates_of_def card_gt_0_iff Suc_le_eq)
  with full_week(1) [OF assms(1,2) sub] median checks [OF assms(4)] assms(3) show ?thesis
    by (simp add: weekly_check_def weekly_row_def Let_def days_count daily_check_def series_key_def)
qed

lemma weekly_row_key: "weekly_key (weekly_row week source run k rows) = (week, source, fst k, fst (snd k), snd (snd k), MethodVersion)"
  by (simp add: weekly_row_def weekly_key_def Let_def)

lemma weekly_rows_own:
  "r \<in> set (weekly_rows week source run rows) \<Longrightarrow> dw_week r = week \<and> dw_source r = source \<and> dw_method r = MethodVersion"
  by (auto simp: weekly_rows_def weekly_row_def Let_def)

lemma weekly_insert:
  fixes source run :: string
  assumes "tables_ok db" "day_start week = week" "Weekday week = 1"
  defines "old \<equiv> an_weekly (clear_weekly week source db)" and "new \<equiv> weekly_rows week source run (week_rows db week source)"
  shows "insert_rows weekly_check weekly_key new old = Some (old @ new)" "list_all weekly_check (old @ new)" "distinct (map weekly_key (old @ new))"
proof -
  have n: "list_all weekly_check new"
    using weekly_row_check [OF assms(1-3)] by (auto simp: new_def weekly_rows_def list_all_iff)
  have o1: "distinct (map weekly_key old)" "list_all weekly_check old"
    using assms(1) by (auto simp: old_def clear_weekly_def tables_ok_def list_all_iff intro: distinct_map_filter)
  have d: "distinct (map weekly_key new)"
    by (auto simp: new_def weekly_rows_def distinct_map inj_on_def weekly_row_key prod_eq_iff)
  have i: "weekly_key ` set old \<inter> weekly_key ` set new = {}"
    by (auto simp: old_def new_def clear_weekly_def weekly_key_def dest!: weekly_rows_own)
  show "insert_rows weekly_check weekly_key new old = Some (old @ new)" by (rule insert_rows_ok [OF n o1(1) d i])
  show "list_all weekly_check (old @ new)" "distinct (map weekly_key (old @ new))" using n o1 d i by simp_all
qed

lemma build_weekly_eq:
  assumes "tables_ok db" "day_start week = week" "Weekday week = 1"
  shows "build_weekly week source run (clear_weekly week source (db\<lparr>an_runs := rs\<rparr>)) =
    Some (db\<lparr>an_runs := rs, an_weekly := an_weekly (clear_weekly week source db) @ weekly_rows week source run (week_rows db week source)\<rparr>,
          length (weekly_rows week source run (week_rows db week source)))"
proof -
  let ?db = "clear_weekly week source (db\<lparr>an_runs := rs\<rparr>)"
  have same: "week_rows ?db week source = week_rows db week source" "an_weekly ?db = an_weekly (clear_weekly week source db)"
    by (simp_all add: clear_weekly_def week_rows_def)
  show ?thesis unfolding build_weekly_def Let_def same weekly_insert(1) [OF assms] by (simp add: clear_weekly_def)
qed

section \<open>Lemmas: skipped and weekly runs keep the daily ones\<close>

text \<open>
  A run that is started without a cycle: the identifiers, the links and the successful daily runs stay.
\<close>

lemma start_plain:
  assumes "start_run new change db = (db', run)" "tables_ok db" "ar_id new \<notin> ar_id ` set (an_runs db)" "ar_cycle new = None"
    and change: "\<And>r. ar_id (change r) = ar_id r" "\<And>r. run_key (change r) = run_key r" "\<And>r. ar_cycle (change r) = ar_cycle r"
    and keep: "\<And>r. run_key r = run_key new \<Longrightarrow> ar_type r = ''daily_snapshot'' \<Longrightarrow> ar_status r = ''success'' \<Longrightarrow> change r = r"
  shows "db' = db\<lparr>an_runs := an_runs db'\<rparr>" "tables_ok db'" "\<And>c. snapshotted db c \<Longrightarrow> snapshotted db' c"
    "ar_id ` set (an_runs db') \<subseteq> insert (ar_id new) (ar_id ` set (an_runs db))"
    "\<exists>r \<in> set (an_runs db'). ar_id r = run \<and> run_key r = run_key new"
proof -
  have "distinct (map run_key (an_runs db))" "distinct (map ar_id (an_runs db))" using assms(2) by (simp_all add: tables_ok_def)
  then have main: "db' = db\<lparr>an_runs := upsert run_key new change (an_runs db)\<rparr> \<and> distinct (map run_key (an_runs db')) \<and> distinct (map ar_id (an_runs db'))
    \<and> (\<exists>r \<in> set (an_runs db'). ar_id r = run \<and> run_key r = run_key new)
    \<and> ar_id ` set (an_runs db') \<subseteq> insert (ar_id new) (ar_id ` set (an_runs db))"
    by (intro start_run_runs [OF assms(1) _ _ assms(3)]) (simp_all add: change)
  note f = main [THEN conjunct1] main [THEN conjunct2, THEN conjunct1] main [THEN conjunct2, THEN conjunct2, THEN conjunct1]
    main [THEN conjunct2, THEN conjunct2, THEN conjunct2]
  show "db' = db\<lparr>an_runs := an_runs db'\<rparr>" using f(1) by simp
  have rows: "an_runs db' = upsert run_key new change (an_runs db)" using f(1) by simp
  have lk: "run_linked cs (change r) = run_linked cs r" for cs r
    using change(2) [of r] by (simp add: run_linked_def change(3) run_key_def cong: option.case_cong)
  have "list_all (run_linked (an_cycles db)) (an_runs db')"
    unfolding list_all_iff rows using assms(2,4) lk
    by (auto elim!: upsert_cases simp: tables_ok_def list_all_iff) (simp add: run_linked_def)
  moreover have "an_cycles db' = an_cycles db" "an_observations db' = an_observations db" "an_daily db' = an_daily db"
    "an_weekly db' = an_weekly db" by (simp_all add: f(1))
  ultimately show "tables_ok db'" using assms(2) f(2,3) by (simp add: tables_ok_def)
  show "ar_id ` set (an_runs db') \<subseteq> insert (ar_id new) (ar_id ` set (an_runs db))"
    "\<exists>r \<in> set (an_runs db'). ar_id r = run \<and> run_key r = run_key new" using f(4) by blast+
  show "snapshotted db' c" if sn: "snapshotted db c" for c
  proof -
    obtain r where r: "r \<in> set (an_runs db)" "ar_type r = ''daily_snapshot''" "ar_cycle r = Some (ic_id c)" "ar_method r = MethodVersion"
        "ar_status r = ''success''" using sn by (auto simp: snapshotted_def)
    have "r \<in> set (an_runs db')"
    proof (cases "run_key r = run_key new")
      case True
      with keep r have "change r = r" by blast
      with r(1) True show ?thesis unfolding rows upsert_def by (auto intro!: image_eqI [of _ _ r])
    qed (use r(1) in \<open>simp add: rows upsert_keeps\<close>)
    with r show ?thesis unfolding snapshotted_def by blast
  qed
qed

text \<open>What every run keeps: well-formed tables, the cycles, and the cycles that are done.\<close>

definition keeps :: "an_env \<Rightarrow> an_db conn \<Rightarrow> an_db conn \<Rightarrow> bool" where
  "keeps env s s' \<longleftrightarrow> an_ok env s' \<and> an_cycles (db_data s') = an_cycles (db_data s)
     \<and> (\<forall>c \<in> set (an_cycles (db_data s)). discovery_complete c \<longrightarrow> snapshotted (db_data s) c \<longrightarrow> snapshotted (db_data s') c)"

lemma keeps_refl: "an_ok env s \<Longrightarrow> keeps env s s"
  by (simp add: keeps_def)

lemma keeps_trans: "keeps env s1 s2 \<Longrightarrow> keeps env s2 s3 \<Longrightarrow> keeps env s1 s3"
  by (simp add: keeps_def)

lemma keeps_idle: "an_ok env s \<Longrightarrow> db_data s' = db_data s \<Longrightarrow> db_tick s \<le> db_tick s' \<Longrightarrow> keeps env s s'"
  by (auto simp: keeps_def an_ok_def ids_fresh_def)

lemma writeDaily_keeps:
  "writeDaily env c s = (s', Inr r) \<Longrightarrow> an_ok env s \<Longrightarrow> c \<in> set (an_cycles (db_data s)) \<Longrightarrow> discovery_complete c
    \<Longrightarrow> keeps env s s' \<and> snapshotted (db_data s') c"
  using writeDaily_preserves [of env c s s' r] by (auto simp: keeps_def)

text \<open>A skipped run.\<close>

lemma skip_keeps:
  assumes "skip_run env now runType target source category t (db_data s) = Some (db_data s', run)"
    and "an_ok env s" "db_tick s \<le> t" "t < db_tick s'"
  shows "keeps env s s'"
proof -
  define at_now where "at_now = db_now (an_db_env env) now"
  define new where "new = \<lparr>ar_id = db_uuid (an_db_env env) t, ar_type = runType, ar_target = target, ar_source = source,
     ar_cycle = None, ar_status = ''skipped'', ar_method = MethodVersion, ar_started = at_now,
     ar_finished = Some at_now, ar_rows = 0, ar_days = 0, ar_category = Some category\<rparr>"
  define change :: "analytics_run \<Rightarrow> analytics_run" where "change = (\<lambda>r. if ar_status r = ''success'' then r
     else r\<lparr>ar_status := ''skipped'', ar_finished := Some at_now, ar_category := Some category\<rparr>)"
  have st: "start_run new change (db_data s) = (db_data s', run)"
    using assms(1) unfolding new_def change_def at_now_def by (simp add: skip_run_def Let_def)
  have ok: "tables_ok (db_data s)" and fresh: "ids_fresh env s" using assms(2) by (simp_all add: an_ok_def)
  have id: "ar_id new \<notin> ar_id ` set (an_runs (db_data s))" using fresh assms(3) by (simp add: new_def ids_fresh_def)
  have "ar_cycle new = None" by (simp add: new_def)
  note f = start_plain [OF st ok id this]
  have f': "db_data s' = (db_data s)\<lparr>an_runs := an_runs (db_data s')\<rparr>" "tables_ok (db_data s')" "\<And>c. snapshotted (db_data s) c \<Longrightarrow> snapshotted (db_data s') c"
    "ar_id ` set (an_runs (db_data s')) \<subseteq> insert (ar_id new) (ar_id ` set (an_runs (db_data s)))"
    by (rule f; simp add: change_def run_key_def)+
  have "ids_fresh env s'" using f'(4) by (intro ids_fresh_step [OF fresh assms(3,4)]) (simp add: new_def)
  moreover have "an_cycles (db_data s') = an_cycles (db_data s)" by (subst f'(1)) simp
  ultimately show ?thesis using f'(2,3) by (simp add: keeps_def an_ok_def)
qed

lemma recordSkip_keeps:
  assumes "recordSkip env runType target source category s = (s', Inr run)" "an_ok env s"
  shows "keeps env s s'"
  using stmt_ok [OF assms(1) [unfolded recordSkip_def]] by (intro skip_keeps [OF _ assms(2), where t = "db_tick s"]) auto

lemma start_weekly_facts:
  assumes "start_weekly env now week source days t db = Some (db', run)" "tables_ok db" "db_uuid (an_db_env env) t \<notin> ar_id ` set (an_runs db)"
  shows "db' = db\<lparr>an_runs := an_runs db'\<rparr>" "tables_ok db'" "\<And>c. snapshotted db c \<Longrightarrow> snapshotted db' c"
    "ar_id ` set (an_runs db') \<subseteq> insert (db_uuid (an_db_env env) t) (ar_id ` set (an_runs db))"
    "\<exists>r \<in> set (an_runs db'). ar_id r = run \<and> ar_type r = ''weekly_rollup''"
proof -
  define at_now where "at_now = db_now (an_db_env env) now"
  define new where "new = \<lparr>ar_id = db_uuid (an_db_env env) t, ar_type = ''weekly_rollup'', ar_target = week, ar_source = source,
     ar_cycle = None, ar_status = ''running'', ar_method = MethodVersion, ar_started = at_now,
     ar_finished = None, ar_rows = 0, ar_days = days, ar_category = None\<rparr>"
  define change :: "analytics_run \<Rightarrow> analytics_run" where "change = (\<lambda>r. r\<lparr>ar_status := ''running'', ar_started := at_now,
     ar_finished := None, ar_rows := 0, ar_days := days, ar_category := None\<rparr>)"
  have st: "start_run new change db = (db', run)"
    using assms(1) unfolding new_def change_def at_now_def by (simp add: start_weekly_def Let_def)
  have id: "ar_id new \<notin> ar_id ` set (an_runs db)" "ar_cycle new = None" using assms(3) by (simp_all add: new_def)
  have keep: "change r = r" if "run_key r = run_key new" "ar_type r = ''daily_snapshot''" for r
    using that by (simp add: run_key_def new_def)
  note f = start_plain [OF st assms(2) id]
  show "db' = db\<lparr>an_runs := an_runs db'\<rparr>" "tables_ok db'" "\<And>c. snapshotted db c \<Longrightarrow> snapshotted db' c"
    by (rule f; simp add: change_def run_key_def new_def)+
  have "ar_id ` set (an_runs db') \<subseteq> insert (ar_id new) (ar_id ` set (an_runs db))"
    by (rule f; simp add: change_def run_key_def new_def)
  then show "ar_id ` set (an_runs db') \<subseteq> insert (db_uuid (an_db_env env) t) (ar_id ` set (an_runs db))" by (simp add: new_def)
  have "\<exists>r \<in> set (an_runs db'). ar_id r = run \<and> run_key r = run_key new"
    by (rule f; simp add: change_def run_key_def new_def)
  then show "\<exists>r \<in> set (an_runs db'). ar_id r = run \<and> ar_type r = ''weekly_rollup''" by (auto simp: run_key_def new_def)
qed

lemma finish_weekly_facts:
  assumes "tables_ok db" "\<exists>r \<in> set (an_runs db). ar_id r = run \<and> ar_type r = ''weekly_rollup''"
    and "list_all weekly_check rows" "distinct (map weekly_key rows)"
    and db'_def: "db' = finish_weekly env now run n days (db\<lparr>an_weekly := rows\<rparr>)"
  shows "tables_ok db'" "\<And>c. snapshotted db c \<Longrightarrow> snapshotted db' c" "map ar_id (an_runs db') = map ar_id (an_runs db)"
    "an_cycles db' = an_cycles db"
proof -
  define fin :: "analytics_run \<Rightarrow> analytics_run" where "fin = (\<lambda>r. r\<lparr>ar_status := ''success'',
     ar_finished := Some (db_now (an_db_env env) now), ar_rows := n, ar_days := days\<rparr>)"
  have runs: "an_runs db' = map (\<lambda>r. if ar_id r = run then fin r else r) (an_runs db)"
    by (simp add: db'_def finish_weekly_def finish_analytics_run_def fin_def)
  have keys: "map run_key (an_runs db') = map run_key (an_runs db)" "map ar_id (an_runs db') = map ar_id (an_runs db)"
    unfolding runs by (auto simp: fin_def run_key_def)
  have "run_linked cs (fin r) = run_linked cs r" for cs r by (simp add: fin_def run_linked_def cong: option.case_cong)
  then have "list_all (run_linked (an_cycles db)) (an_runs db')"
    using assms(1) unfolding runs by (auto simp: list_all_iff tables_ok_def)
  moreover show cyc: "an_cycles db' = an_cycles db" by (simp add: db'_def finish_weekly_def finish_analytics_run_def)
  moreover have "an_observations db' = an_observations db" "an_daily db' = an_daily db" "an_weekly db' = rows"
    by (simp_all add: db'_def finish_weekly_def finish_analytics_run_def)
  ultimately show "tables_ok db'" using assms(1,3,4) keys by (simp add: tables_ok_def)
  show "map ar_id (an_runs db') = map ar_id (an_runs db)" by (rule keys)
  show "snapshotted db' c" if sn: "snapshotted db c" for c
  proof -
    obtain r where r: "r \<in> set (an_runs db)" "ar_type r = ''daily_snapshot''" "ar_cycle r = Some (ic_id c)" "ar_method r = MethodVersion"
        "ar_status r = ''success''" using sn by (auto simp: snapshotted_def)
    have "ar_id r \<noteq> run" using assms(1,2) r(1,2) by (auto simp: tables_ok_def distinct_map dest: inj_onD)
    then have "r \<in> set (an_runs db')" unfolding runs using r(1) by (auto intro!: image_eqI [of _ _ r])
    with r show ?thesis unfolding snapshotted_def by blast
  qed
qed

text \<open>A weekly run, as one change of the tables.\<close>

lemma writeWeekly_ok:
  assumes "writeWeekly env week source s = (s', Inr r)" "an_ok env s" "day_start week = week" "Weekday week = 1"
  shows "keeps env s s' \<and> an_daily (db_data s') = an_daily (db_data s)
    \<and> rs_SourceDayCount r = available_days (db_data s) week source \<and> rs_Skipped r = (available_days (db_data s) week source = 0)
    \<and> rs_Complete r = (available_days (db_data s) week source = 7)
    \<and> (\<not> rs_Skipped r \<longrightarrow> an_weekly (db_data s') = an_weekly (clear_weekly week source (db_data s))
         @ weekly_rows week source (rs_RunID r) (week_rows (db_data s) week source))"
proof -
  let ?denv = "an_db_env env" and ?db = "db_data s" and ?days = "available_days (db_data s) week source"
  have ok: "tables_ok ?db" and fresh: "ids_fresh env s" using assms(2) by (simp_all add: an_ok_def)
  note w = assms(1) [unfolded writeWeekly_def Let_def]
  obtain s1 now where b: "stmt ?denv AnBeginWeekly (\<lambda>t d. Some (d, t)) s = (s1, Inr now)"
    using w by (auto simp: in_tx_def split: prod.splits sum.splits)
  note b1 = stmt_ok [OF b]
  obtain s2 days where q: "query ?denv AnCountDays (\<lambda>db. available_days db week source) s1 = (s2, Inr days)"
    using w b by (auto simp: in_tx_def and_do_def split: prod.splits sum.splits)
  note q1 = query_ok [OF q] and qt = stmt_ok [OF q [unfolded query_def]]
  have d2: "db_data s2 = ?db" "days = ?days" "db_tick s2 = Suc (Suc (db_tick s))" using b1 q1 qt by auto
  show ?thesis
  proof (cases "days = 0")
    case True
    obtain s3 run where k: "recordSkipTx env now ''weekly_rollup'' week source ''no_daily_snapshots'' s2 = (s3, Inr run)"
      using w b q True by (auto simp: in_tx_def and_do_def split: prod.splits sum.splits)
    note k1 = stmt_ok [OF k [unfolded recordSkipTx_def]]
    have c: "stmt ?denv AnCommitSkip (\<lambda>_ d. Some (d, ())) s3 = (s', Inr ())" "r = skipped_result run ''weekly_rollup'' week ''no_daily_snapshots''"
      using w b q True k by (auto simp: in_tx_def and_do_def give_def split: prod.splits sum.splits)
    note c1 = stmt_ok [OF c(1)]
    have sk: "skip_run env now ''weekly_rollup'' week source ''no_daily_snapshots'' (db_tick s2) ?db = Some (db_data s', run)"
      using k1 c1 d2(1) by simp
    have "keeps env s s'" using k1 c1 d2(3) by (intro skip_keeps [OF sk assms(2)]) simp_all
    moreover have "an_daily (db_data s') = an_daily ?db" using sk by (auto simp: skip_run_def Let_def start_run_def dest: arg_cong [of _ _ an_daily])
    ultimately show ?thesis using c(2) True d2(2) by (simp add: skipped_result_def)
  next
    case False
    obtain s3 run where st: "stmt ?denv AnStartWeekly (start_weekly env now week source days) s2 = (s3, Inr run)"
      using w b q False by (auto simp: in_tx_def and_do_def split: prod.splits sum.splits)
    note st1 = stmt_ok [OF st]
    obtain s4 where cl: "command ?denv AnClearWeekly (clear_weekly week source) s3 = (s4, Inr ())"
      using w b q False st by (auto simp: in_tx_def and_do_def split: prod.splits sum.splits)
    obtain s5 n where bu: "stmt ?denv AnBuildWeekly (\<lambda>_. build_weekly week source run) s4 = (s5, Inr n)"
      using w b q False st cl by (auto simp: in_tx_def and_do_def split: prod.splits sum.splits)
    obtain s6 where fi: "command ?denv AnFinishWeekly (finish_weekly env now run n days) s5 = (s6, Inr ())"
      using w b q False st cl bu by (auto simp: in_tx_def and_do_def split: prod.splits sum.splits)
    have c: "stmt ?denv AnCommitWeekly (\<lambda>_ d. Some (d, ())) s6 = (s', Inr ())" "rs_RunID r = run" "rs_SourceDayCount r = days"
        "rs_Complete r = (days = 7)" "\<not> rs_Skipped r"
      using w b q False st cl bu fi by (auto simp: in_tx_def and_do_def give_def split: prod.splits sum.splits)
    note d4 = command_ok [OF cl] and d6 = command_ok [OF fi] and d7 = stmt_ok [OF c(1)] and d5 = stmt_ok [OF bu]
    have t4: "db_tick s4 = Suc (db_tick s3)" "db_tick s6 = Suc (db_tick s5)" using cl fi by (auto simp: command_def dest: stmt_ok)
    define rs where "rs = an_runs (db_data s3)"
    have start: "start_weekly env now week source days (db_tick s2) ?db = Some (db_data s3, run)" using st1 d2 by simp
    have id: "db_uuid ?denv (db_tick s2) \<notin> ar_id ` set (an_runs ?db)" using fresh d2(3) by (simp add: ids_fresh_def)
    note sw = start_weekly_facts [OF start ok id]
    have d3: "db_data s3 = ?db\<lparr>an_runs := rs\<rparr>" using sw(1) by (simp add: rs_def)
    have built: "build_weekly week source run (db_data s4) = Some (?db\<lparr>an_runs := rs, an_weekly := an_weekly (clear_weekly week source ?db)
        @ weekly_rows week source run (week_rows ?db week source)\<rparr>, length (weekly_rows week source run (week_rows ?db week source)))"
      unfolding d4 d3 by (rule build_weekly_eq [OF ok assms(3,4)])
    define rows where "rows = an_weekly (clear_weekly week source ?db) @ weekly_rows week source run (week_rows ?db week source)"
    have d': "db_data s' = finish_weekly env now run n days ((db_data s3)\<lparr>an_weekly := rows\<rparr>)"
      using built d5 d6 d7 by (simp add: rows_def d3)
    have "list_all weekly_check rows" "distinct (map weekly_key rows)"
      unfolding rows_def by (rule weekly_insert [OF ok assms(3,4)])+
    note fw = finish_weekly_facts [OF sw(2,5) this d']
    have t: "db_tick s \<le> db_tick s2" "db_tick s2 < db_tick s'" using d2(3) st1 t4 d5 d7 by simp_all
    have "ids_fresh env s'" using sw(4) arg_cong [OF fw(3), of set] by (intro ids_fresh_step [OF fresh t]) simp
    with fw sw(3) have "keeps env s s'" by (simp add: keeps_def an_ok_def d3)
    moreover have "an_daily (db_data s') = an_daily ?db"
      "an_weekly (db_data s') = an_weekly (clear_weekly week source ?db) @ weekly_rows week source run (week_rows ?db week source)"
      by (simp_all add: d' finish_weekly_def finish_analytics_run_def rows_def d3)
    ultimately show ?thesis using c False d2(2) by simp
  qed
qed

section \<open>Lemmas: whole runs\<close>

lemma withLock_cases:
  assumes "an_withLock env run s = (s', r)"
  obtains (early) e where "r = Inl e" "db_data s' = db_data s" "db_tick s \<le> db_tick s'"
  | (held) s1 s2 where "db_data s1 = db_data s" "db_tick s \<le> db_tick s1" "run s1 = (s2, r)" "db_data s' = db_data s2" "db_tick s2 \<le> db_tick s'"
proof -
  obtain s0 r0 where q: "query (an_db_env env) AnLockConnection (\<lambda>_. ()) s = (s0, r0)" by fastforce
  note tq = ticksD [OF ticks_query q]
  show thesis
  proof (cases r0)
    case (Inl e)
    with q assms tq query_error [OF q [unfolded Inl]] show thesis by (intro early [of e]) (auto simp: an_withLock_def and_do_def)
  next
    case (Inr u)
    note d0 = query_ok [OF q [unfolded Inr]]
    obtain s1 r1 where l: "stmt (an_db_env env) AnLockQuery (\<lambda>t d. Some (d, an_lock_free env t)) s0 = (s1, r1)" by fastforce
    note tl = ticksD [OF ticks_stmt l]
    show thesis
    proof (cases r1)
      case r1: (Inl e)
      with q Inr l assms tq tl d0 stmt_error [OF l [unfolded r1]] show thesis
        by (intro early [of e]) (auto simp: an_withLock_def and_do_def)
    next
      case r1: (Inr acquired)
      note d1 = stmt_ok [OF l [unfolded r1]]
      show thesis
      proof (cases acquired)
        case False
        with q Inr l r1 assms tq tl d0 d1 show thesis by (intro early [of ErrLockUnavailable]) (auto simp: an_withLock_def and_do_def)
      next
        case True
        obtain s2 r2 where run: "run s1 = (s2, r2)" by fastforce
        have s': "s' = unlock env s2" "r = r2" using q Inr l r1 True run assms by (auto simp: an_withLock_def and_do_def)
        have un: "db_data (unlock env s2) = db_data s2" "db_tick s2 \<le> db_tick (unlock env s2)"
          by (simp_all add: unlock_def stmt_def Let_def)
        from d0 d1 tq tl run s' un show thesis by (intro held [of s1 s2]) auto
      qed
    qed
  qed
qed

lemma selectCycle_ok:
  assumes "selectCycle env cycleID s = (s', Inr found)"
  shows "db_data s' = db_data s" "db_tick s' = Suc (db_tick s)"
    "found = Some c \<Longrightarrow> c \<in> set (an_cycles (db_data s)) \<and> discovery_complete c
       \<and> (if TrimSpace cycleID = '''' then \<not> snapshotted (db_data s) c else an_cast env cycleID = Some (ic_id c))"
    "found = None \<Longrightarrow> TrimSpace cycleID = '''' \<Longrightarrow> pending_cycles (db_data s) = []"
    "found = None \<Longrightarrow> TrimSpace cycleID \<noteq> '''' \<Longrightarrow> \<forall>c \<in> set (an_cycles (db_data s)). discovery_complete c \<longrightarrow> an_cast env cycleID \<noteq> Some (ic_id c)"
proof -
  note q = stmt_ok [OF assms [unfolded selectCycle_def]]
  show "db_data s' = db_data s" "db_tick s' = Suc (db_tick s)" using q by (auto split: if_splits option.splits)
  have first: "first_row xs = Some x \<Longrightarrow> x \<in> set xs" for xs and x :: ingest_cycle by (cases xs) (auto simp: first_row_def)
  show "c \<in> set (an_cycles (db_data s)) \<and> discovery_complete c
      \<and> (if TrimSpace cycleID = '''' then \<not> snapshotted (db_data s) c else an_cast env cycleID = Some (ic_id c))" if "found = Some c"
    using q that by (auto simp: pending_cycles_def split: if_splits option.splits dest!: first)
  show "\<forall>c \<in> set (an_cycles (db_data s)). discovery_complete c \<longrightarrow> an_cast env cycleID \<noteq> Some (ic_id c)" if "found = None" "TrimSpace cycleID \<noteq> ''''"
    using q that by (auto simp: first_row_def filter_empty_conv split: list.splits option.splits)
  show "pending_cycles (db_data s) = []" if "found = None" "TrimSpace cycleID = ''''"
    using q that by (auto simp: first_row_def split: list.splits) (metis list.set_intros(1) set_sort empty_iff empty_set list.exhaust)
qed

text \<open>A daily run that succeeds skipped, with nothing pending, or wrote the snapshot of a cycle.\<close>

lemma RunDaily_cases:
  assumes "RunDaily env cycleID s = (s', Inr r)" "an_ok env s"
  obtains (skip) "rs_Skipped r" "keeps env s s'" "TrimSpace cycleID = '''' \<longrightarrow> pending_cycles (db_data s) = []"
      "TrimSpace cycleID \<noteq> '''' \<longrightarrow> (\<forall>c \<in> set (an_cycles (db_data s)). discovery_complete c \<longrightarrow> an_cast env cycleID \<noteq> Some (ic_id c))"
  | (wrote) c s1 s2 where "db_data s1 = db_data s" "an_ok env s1" "c \<in> set (an_cycles (db_data s))" "discovery_complete c"
      "if TrimSpace cycleID = '''' then \<not> snapshotted (db_data s) c else an_cast env cycleID = Some (ic_id c)"
      "writeDaily env c s1 = (s2, Inr r)" "db_data s' = db_data s2" "db_tick s2 \<le> db_tick s'"
proof -
  from assms(1) [unfolded RunDaily_def] show thesis
  proof (cases rule: withLock_cases)
    case (held s1 s2)
    have ok1: "an_ok env s1" using keeps_idle [OF assms(2) held(1,2)] by (simp add: keeps_def)
    obtain s3 found where sel: "selectCycle env cycleID s1 = (s3, Inr found)"
      using held(3) by (auto simp: and_do_def split: prod.splits sum.splits)
    note sf = selectCycle_ok [OF sel]
    have ok3: "an_ok env s3" using keeps_idle [OF ok1, of s3] sf(1,2) by (simp add: keeps_def)
    show thesis
    proof (cases found)
      case None
      obtain target run where k: "recordSkip env ''daily_snapshot'' target ''hh'' ''no_complete_cycle'' s3 = (s2, Inr run)" and sk: "rs_Skipped r"
        using held(3) sel None by (auto simp: and_do_def give_def Let_def skipped_result_def split: prod.splits sum.splits)
      from recordSkip_keeps [OF k ok3] have k2: "keeps env s s2" using sf(1) held(1) by (simp add: keeps_def)
      have "keeps env s2 s'" using k2 by (intro keeps_idle held(4,5)) (simp add: keeps_def)
      then have "keeps env s s'" by (rule keeps_trans [OF k2])
      with sk sf(4,5) None held(1) show thesis by (intro skip) auto
    next
      case (Some c)
      have "writeDaily env c s3 = (s2, Inr r)" using held(3) sel Some by (simp add: and_do_def)
      with sf(1) sf(3) [OF Some] held ok3 show thesis by (intro wrote [of s3 c s2]) auto
    qed
  qed simp
qed

lemma RunDaily_keeps:
  assumes "RunDaily env cycleID s = (s', Inr r)" "an_ok env s"
  shows "keeps env s s'"
  using assms
proof (cases rule: RunDaily_cases)
  case (wrote c s1 s2)
  with writeDaily_keeps [OF wrote(6,2)] have k: "keeps env s s2" by (simp add: keeps_def)
  have "keeps env s2 s'" using k by (intro keeps_idle wrote(7,8)) (simp add: keeps_def)
  then show ?thesis by (rule keeps_trans [OF k])
qed

lemma RunWeekly_ok:
  assumes "RunWeekly env weekStart source s = (s', Inr r)" "an_ok env s"
  defines "week \<equiv> analytics_dayUTC weekStart" and "src \<equiv> if source = '''' then ''hh'' else source"
  shows "keeps env s s' \<and> an_daily (db_data s') = an_daily (db_data s) \<and> day_start week = week \<and> Weekday week = 1
    \<and> rs_SourceDayCount r = available_days (db_data s) week src \<and> rs_Skipped r = (available_days (db_data s) week src = 0)
    \<and> rs_Complete r = (available_days (db_data s) week src = 7)
    \<and> (\<not> rs_Skipped r \<longrightarrow> an_weekly (db_data s') = an_weekly (clear_weekly week src (db_data s))
         @ weekly_rows week src (rs_RunID r) (week_rows (db_data s) week src))"
proof -
  have w: "Weekday week = 1" and l: "an_withLock env (writeWeekly env week src) s = (s', Inr r)"
    using assms(1) by (auto simp: RunWeekly_def Let_def week_def src_def split: if_splits)
  have a: "day_start week = week" unfolding week_def by (simp add: analytics_dayUTC_def)
  from l show ?thesis
  proof (cases rule: withLock_cases)
    case (held s1 s2)
    have ok1: "an_ok env s1" using keeps_idle [OF assms(2) held(1,2)] by (simp add: keeps_def)
    note ww = writeWeekly_ok [OF held(3) ok1 a w]
    then have k: "keeps env s s2" using held(1) by (simp add: keeps_def)
    have "keeps env s2 s'" using k by (intro keeps_idle held(4,5)) (simp add: keeps_def)
    then have "keeps env s s'" by (rule keeps_trans [OF k])
    with ww a w held(1,4) show ?thesis by simp
  qed simp
qed

text \<open>The pending cycles after a daily run.\<close>

lemma pending_shrinks:
  assumes "keeps env s s'" "c \<in> set (pending_cycles (db_data s))" "snapshotted (db_data s') c"
  shows "length (pending_cycles (db_data s')) < length (pending_cycles (db_data s))"
proof -
  have "pending_cycles (db_data s') = filter (\<lambda>c. \<not> snapshotted (db_data s') c) (pending_cycles (db_data s))"
    using assms(1) by (auto simp: pending_cycles_def keeps_def intro!: filter_cong)
  moreover have "filter (\<lambda>c. \<not> snapshotted (db_data s') c) (pending_cycles (db_data s)) \<noteq> pending_cycles (db_data s)"
    using assms(2,3) by (auto simp: filter_id_conv)
  ultimately show ?thesis by (metis length_filter_less assms(2,3))
qed

lemma backfill_daily_returns:
  assumes "an_ok env s"
  shows "\<exists>s' results' err. backfill_daily env results s = Some (s', results', err)
    \<and> (err = None \<longrightarrow> keeps env s s' \<and> pending_cycles (db_data s') = [])"
  using assms
proof (induction "length (pending_cycles (db_data s))" arbitrary: s results rule: less_induct)
  case less
  obtain s1 r0 where run: "RunDaily env '''' s = (s1, r0)" by fastforce
  show ?case
  proof (cases r0)
    case (Inl e)
    with run show ?thesis by (subst backfill_daily.simps) simp
  next
    case (Inr r)
    have k: "keeps env s s1" by (rule RunDaily_keeps [OF run [unfolded Inr] less.prems])
    from run [unfolded Inr] less.prems show ?thesis
    proof (cases rule: RunDaily_cases)
      case skip
      then have "pending_cycles (db_data s1) = []"
        using k by (auto simp: pending_cycles_def filter_empty_conv keeps_def bytes_simps)
      with skip k run Inr show ?thesis by (subst backfill_daily.simps) simp
    next
      case (wrote c s2 s3)
      have d: "snapshotted (db_data s1) c" using writeDaily_keeps [OF wrote(6,2)] wrote by simp
      have "c \<in> set (pending_cycles (db_data s))" using wrote(3-5) by (simp add: pending_cycles_def bytes_simps)
      note shrink = pending_shrinks [OF k this d]
      have nsk: "\<not> rs_Skipped r"
      proof -
        have "tables_ok (db_data s2)" "c \<in> set (an_cycles (db_data s2))" using wrote(1-3) by (simp_all add: an_ok_def)
        then show ?thesis by (rule writeDaily_ok [OF wrote(6) _ _ wrote(4)])
      qed
      obtain s' results' err where rec: "backfill_daily env (results @ [r]) s1 = Some (s', results', err)"
          "err = None \<longrightarrow> keeps env s1 s' \<and> pending_cycles (db_data s') = []"
        using less.hyps [OF shrink, of "results @ [r]"] k by (auto simp: keeps_def)
      from rec k keeps_trans run Inr nsk show ?thesis by (subst backfill_daily.simps) auto
    qed
  qed
qed

lemma backfill_weekly_keeps:
  "backfill_weekly env weeks results s = (s', results', None) \<Longrightarrow> an_ok env s \<Longrightarrow> keeps env s s'"
proof (induction weeks arbitrary: results s)
  case Nil
  then show ?case by (simp add: keeps_refl)
next
  case (Cons w ws)
  obtain s1 r where r: "RunWeekly env w ''hh'' s = (s1, Inr r)" "backfill_weekly env ws (results @ [r]) s1 = (s', results', None)"
    using Cons.prems(1) by (auto split: prod.splits sum.splits)
  have "keeps env s s1" using RunWeekly_ok [OF r(1) Cons.prems(2)] by blast
  with Cons.IH [OF r(2)] keeps_trans show ?case by (auto simp: keeps_def)
qed

section \<open>Properties\<close>

text \<open>
  C21. The backfill ends and misses nothing: on well-formed tables, whatever statements fail, it returns; and
  when it reports no error, every complete discovery cycle has a successful snapshot run. The one cycle per
  source and day that the unique index guarantees is what makes it end: a second cycle of a day
  would take over the run of the first.
\<close>

theorem Backfill_returns:
  assumes "an_ok env s"
  shows "\<exists>s' results err. Backfill env s = Some (s', results, err)
    \<and> (err = None \<longrightarrow> list_all (\<lambda>c. discovery_complete c \<longrightarrow> snapshotted (db_data s') c) (an_cycles (db_data s)))"
proof -
  obtain s1 results err where d: "backfill_daily env [] s = Some (s1, results, err)"
      "err = None \<longrightarrow> keeps env s s1 \<and> pending_cycles (db_data s1) = []"
    using backfill_daily_returns [OF assms, of "[]"] by blast
  show ?thesis
  proof (cases err)
    case (Some e)
    with d show ?thesis by (simp add: Backfill_def)
  next
    case None
    obtain s2 q where q: "query (an_db_env env) AnListWeeks snapshot_weeks s1 = (s2, q)" by fastforce
    note t = ticksD [OF ticks_query q]
    show ?thesis
    proof (cases q)
      case (Inl e)
      with d None q show ?thesis by (simp add: Backfill_def)
    next
      case (Inr weeks)
      obtain s3 results' err' where w: "backfill_weekly env weeks results s2 = (s3, results', err')" by (metis prod_cases3)
      have "list_all (\<lambda>c. discovery_complete c \<longrightarrow> snapshotted (db_data s3) c) (an_cycles (db_data s))" if "err' = None"
      proof -
        have k1: "keeps env s s1" and p: "pending_cycles (db_data s1) = []" using d None by auto
        have k2: "keeps env s1 s2" using k1 query_ok [OF q [unfolded Inr]] t by (intro keeps_idle) (auto simp: keeps_def)
        have "keeps env s2 s3" using w that k2 by (intro backfill_weekly_keeps) (auto simp: keeps_def)
        with k1 k2 p show ?thesis by (auto simp: list_all_iff keeps_def pending_cycles_def filter_empty_conv)
      qed
      with d None q Inr w show ?thesis by (simp add: Backfill_def)
    qed
  qed
qed

text \<open>A small database for the witnesses: one complete cycle with one observation, on 0001-01-01, a Monday.\<close>

definition demo_an_env :: an_env where
  "demo_an_env = \<lparr>an_db_env = \<lparr>db_fails = (\<lambda>_. False), db_now = (\<lambda>_. 0), db_uuid = (\<lambda>t. replicate t (CHR ''u''))\<rparr>,
     an_clock = (\<lambda>_. 0), an_lock_free = (\<lambda>_. True), an_cast = Some, an_midnight = (\<lambda>t. t)\<rparr>"

definition demo_cycle :: ingest_cycle where
  "demo_cycle = \<lparr>ic_id = ''c1'', ic_source = ''hh'', ic_scope = ''daily_discovery'', ic_status = ''complete'', ic_method = MethodVersion,
     ic_cycle_end = 0, ic_started_at = 0, ic_completed_at = 0, ic_cycle_date = 0\<rparr>"

definition demo_observation :: cycle_observation where
  "demo_observation = \<lparr>ob_cycle = ''c1'', ob_source = ''hh'', ob_external = ''1'', ob_published = 5, ob_region = Some ''1'',
     ob_group = ''analytics'', ob_mid = Some 100000, ob_eligible = True\<rparr>"

definition demo_conn :: "an_db conn" where
  "demo_conn = \<lparr>db_data = \<lparr>an_cycles = [demo_cycle], an_observations = [demo_observation], an_regions = [(''hh'', ''1'', ''r1'')],
     an_runs = [], an_daily = [], an_weekly = []\<rparr>, db_tick = 0\<rparr>"

lemma demo_ok: "an_ok demo_an_env demo_conn"
proof -
  have "inj (\<lambda>t. replicate t (CHR ''u''))" by (rule injI) (metis length_replicate)
  then show ?thesis
    by (simp add: an_ok_def tables_ok_def ids_fresh_def demo_conn_def demo_cycle_def demo_observation_def demo_an_env_def
        observation_check_def role_groups_def day_start_def)
qed

theorem Backfill_returns_witness:
  "\<exists>s' results err. Backfill demo_an_env demo_conn = Some (s', results, err)"
  using Backfill_returns [OF demo_ok] by blast



text \<open>The region of an observation, and how an observation enters the snapshot, when the external identifiers are a key.\<close>

definition regions_keyed :: "an_db \<Rightarrow> bool" where
  "regions_keyed db \<longleftrightarrow> distinct (map (\<lambda>(src, e, _). (src, e)) (an_regions db))"

definition region_of :: "an_db \<Rightarrow> cycle_observation \<Rightarrow> string option" where
  "region_of db o1 = first_row (region_ids db o1)"

lemma filter_key_short:
  "distinct (map f xs) \<Longrightarrow> length (filter (\<lambda>x. f x = k) xs) \<le> 1"
proof (induction xs)
  case (Cons x xs)
  show ?case
  proof (cases "f x = k")
    case True
    with Cons.prems have "filter (\<lambda>x. f x = k) xs = []" by (auto simp: filter_empty_conv image_iff)
    with True show ?thesis by simp
  qed (use Cons in simp)
qed simp

lemma base_of_single:
  assumes "regions_keyed db"
  shows "base_of db o1 = [\<lparr>br_group = ob_group o1, br_region = region_of db o1, br_published = ob_published o1,
    br_salary = (if ob_eligible o1 then ob_mid o1 else None)\<rparr>]"
proof -
  have "length (region_ids db o1) \<le> 1"
  proof (cases "ob_region o1")
    case (Some ext)
    have "filter (\<lambda>(src, e, _). src = ob_source o1 \<and> e = ext) (an_regions db)
        = filter (\<lambda>x. (\<lambda>(src, e, _). (src, e)) x = (ob_source o1, ext)) (an_regions db)"
      by (rule filter_cong) (auto simp: split_beta)
    with filter_key_short [OF assms [unfolded regions_keyed_def], of "(ob_source o1, ext)"] Some show ?thesis
      by (simp add: region_ids_def)
  qed (simp add: region_ids_def)
  then show ?thesis by (cases "region_ids db o1") (auto simp: base_of_def region_of_def first_row_def)
qed

definition cycle_observations :: "an_db \<Rightarrow> string \<Rightarrow> cycle_observation list" where
  "cycle_observations db cycle = filter (\<lambda>o1. ob_cycle o1 = cycle) (an_observations db)"

definition counted_in :: "an_db \<Rightarrow> demand_daily \<Rightarrow> cycle_observation \<Rightarrow> bool" where
  "counted_in db r o1 \<longleftrightarrow> ob_group o1 = dd_group r \<and> (dd_level r = ''all_regions'' \<or> region_of db o1 = dd_region r)"

lemma base_rows_map:
  assumes "regions_keyed db"
  shows "base_rows db cycle = map (\<lambda>o1. \<lparr>br_group = ob_group o1, br_region = region_of db o1, br_published = ob_published o1,
    br_salary = (if ob_eligible o1 then ob_mid o1 else None)\<rparr>) (cycle_observations db cycle)"
  unfolding base_rows_def cycle_observations_def base_of_single [OF assms, abs_def] by (simp add: concat_map_singleton)

lemma snapshot_of_counts:
  assumes "regions_keyed db" "r \<in> set (snapshot_of env c run db)"
  shows "dd_active r = length (filter (counted_in db r) (cycle_observations db (ic_id c)))
    \<and> dd_with_salary r = length (List.map_filter (\<lambda>o1. if ob_eligible o1 then ob_mid o1 else None)
        (filter (counted_in db r) (cycle_observations db (ic_id c))))"
proof -
  let ?base = "\<lambda>o1. \<lparr>br_group = ob_group o1, br_region = region_of db o1, br_published = ob_published o1,
    br_salary = (if ob_eligible o1 then ob_mid o1 else None)\<rparr>"
  let ?obs = "cycle_observations db (ic_id c)"
  have rows: "base_rows db (ic_id c) = map ?base ?obs" by (rule base_rows_map [OF assms(1)])
  from assms(2) [unfolded snapshot_of_def daily_rows_def rows] consider
      g where "r = daily_row env (analytics_dayUTC (ic_cycle_date c)) c run g ''all_regions'' None (group_rows g (map ?base ?obs))"
    | g reg where "r = daily_row env (analytics_dayUTC (ic_cycle_date c)) c run g ''region'' reg (region_rows g reg (map ?base ?obs))"
    by auto
  then show ?thesis
  proof cases
    case 1
    have f: "dd_group r = g" "dd_level r = ''all_regions''" "dd_active r = length (group_rows g (map ?base ?obs))"
      "dd_with_salary r = length (salaries (group_rows g (map ?base ?obs)))" by (simp_all add: 1 daily_row_def)
    have "group_rows g (map ?base ?obs) = map ?base (filter (counted_in db r) ?obs)"
      by (simp add: group_rows_def filter_map comp_def counted_in_def [abs_def] f(1,2))
    with f(3,4) show ?thesis by (simp add: salaries_def List.map_filter_def filter_map comp_def)
  next
    case 2
    have f: "dd_group r = g" "dd_level r = ''region''" "dd_region r = reg" "dd_active r = length (region_rows g reg (map ?base ?obs))"
      "dd_with_salary r = length (salaries (region_rows g reg (map ?base ?obs)))" by (simp_all add: 2 daily_row_def)
    have "region_rows g reg (map ?base ?obs) = map ?base (filter (counted_in db r) ?obs)"
      by (simp add: region_rows_def filter_map comp_def counted_in_def [abs_def] f(1-3))
    with f(4,5) show ?thesis by (simp add: salaries_def List.map_filter_def filter_map comp_def)
  qed
qed

lemma snapshot_of_covers:
  assumes "regions_keyed db" "o1 \<in> set (cycle_observations db (ic_id c))" "level_ok level region" "region = None \<or> region = region_of db o1"
  shows "\<exists>r \<in> set (snapshot_of env c run db). dd_group r = ob_group o1 \<and> dd_level r = level \<and> dd_region r = region"
proof -
  let ?rows = "base_rows db (ic_id c)" and ?target = "analytics_dayUTC (ic_cycle_date c)"
  obtain b where b: "b \<in> set ?rows" "br_group b = ob_group o1" "br_region b = region_of db o1"
    using assms(2) unfolding base_rows_map [OF assms(1)] by force
  from assms(3) consider "level = ''all_regions''" "region = None" | "level = ''region''" "region \<noteq> None"
    by (auto simp: level_ok_def)
  then show ?thesis
  proof cases
    case 1
    have "ob_group o1 \<in> set (group_keys ?rows)" using b by (force simp: group_keys_def)
    then have "daily_row env ?target c run (ob_group o1) ''all_regions'' None (group_rows (ob_group o1) ?rows) \<in> set (snapshot_of env c run db)"
      by (simp add: snapshot_of_def daily_rows_def)
    with 1 show ?thesis by (intro bexI) (auto simp: daily_row_def)
  next
    case 2
    with assms(4) b have "(\<lambda>r. (br_group r, br_region r)) b = (ob_group o1, region)" "br_region b \<noteq> None" by auto
    with b(1) have "(ob_group o1, region) \<in> set (region_keys ?rows)" by (auto simp: region_keys_def intro!: image_eqI [of _ _ b])
    then have "daily_row env ?target c run (ob_group o1) ''region'' region (region_rows (ob_group o1) region ?rows) \<in> set (snapshot_of env c run db)"
      unfolding snapshot_of_def daily_rows_def by force
    with 2 show ?thesis by (intro bexI) (auto simp: daily_row_def)
  qed
qed

text \<open>
  C14. What a successful daily run leaves behind, for the cycle it names: the rows of its day and source
  are those of the snapshot of the cycle and no others, all other rows are as before; every observation of the
  cycle is counted in the row of its role group and, when its region is known, in the row of that region;
  and each row counts exactly those observations.
\<close>

theorem daily_snapshot_exact:
  assumes "RunDaily env cycleID s = (s', Inr r)" "an_ok env s" "regions_keyed (db_data s)" "\<not> rs_Skipped r"
  shows "\<exists>c \<in> set (an_cycles (db_data s)). rs_SourceCycleID r = ic_id c \<and> discovery_complete c \<and> snapshotted (db_data s') c
    \<and> (let old = filter (\<lambda>d. \<not> (dd_date d = analytics_dayUTC (ic_cycle_date c) \<and> dd_source d = ic_source c \<and> dd_method d = MethodVersion)) (an_daily (db_data s));
           new = snapshot_of env c (rs_RunID r) (db_data s)
       in an_daily (db_data s') = old @ new
        \<and> list_all (\<lambda>d. dd_date d = analytics_dayUTC (ic_cycle_date c) \<and> dd_source d = ic_source c
             \<and> dd_active d = length (filter (counted_in (db_data s) d) (cycle_observations (db_data s) (ic_id c)))) new
        \<and> list_all (\<lambda>o1. list_ex (\<lambda>d. dd_group d = ob_group o1 \<and> dd_region d = None) new
             \<and> list_ex (\<lambda>d. dd_group d = ob_group o1 \<and> dd_region d = region_of (db_data s) o1) new) (cycle_observations (db_data s) (ic_id c)))"
  using assms(1,2)
proof (cases rule: RunDaily_cases)
  case skip
  with assms(4) show ?thesis by simp
next
  case (wrote c s1 s2)
  let ?db = "db_data s"
  have ok: "tables_ok (db_data s1)" "c \<in> set (an_cycles (db_data s1))" using wrote(1-3) by (simp_all add: an_ok_def)
  obtain run where run: "rs_RunID r = run" "rs_SourceCycleID r = ic_id c"
      "an_daily (db_data s2) = an_daily (clear_daily (analytics_dayUTC (ic_cycle_date c)) (ic_source c) ?db) @ snapshot_of env c run ?db"
    by (rule writeDaily_ok [OF wrote(6) ok wrote(4)]) (simp add: wrote(1))
  have "snapshotted (db_data s') c" using writeDaily_keeps [OF wrote(6,2)] wrote by simp
  moreover have "list_all (\<lambda>d. dd_date d = analytics_dayUTC (ic_cycle_date c) \<and> dd_source d = ic_source c
      \<and> dd_active d = length (filter (counted_in ?db d) (cycle_observations ?db (ic_id c)))) (snapshot_of env c run ?db)"
    using snapshot_of_counts [OF assms(3)] snapshot_of_own by (auto simp: list_all_iff)
  moreover have "list_all (\<lambda>o1. list_ex (\<lambda>d. dd_group d = ob_group o1 \<and> dd_region d = None) (snapshot_of env c run ?db)
      \<and> list_ex (\<lambda>d. dd_group d = ob_group o1 \<and> dd_region d = region_of ?db o1) (snapshot_of env c run ?db)) (cycle_observations ?db (ic_id c))"
  proof -
    have "list_ex (\<lambda>d. dd_group d = ob_group o1 \<and> dd_region d = region) (snapshot_of env c run ?db)"
      if "o1 \<in> set (cycle_observations ?db (ic_id c))" "region = None \<or> region = region_of ?db o1" for o1 region
    proof -
      have "level_ok (if region = None then ''all_regions'' else ''region'') region" by (simp add: level_ok_def)
      from snapshot_of_covers [OF assms(3) that(1) this that(2), of env run] show ?thesis by (auto simp: list_ex_iff)
    qed
    then show ?thesis unfolding list_all_iff by blast
  qed
  ultimately show ?thesis using wrote(3,4,7) run by (intro bexI [of _ c]) (simp_all add: cleared_daily Let_def)
qed

section \<open>Lemmas: without failures every run succeeds\<close>

lemma stmt_total:
  assumes "\<forall>t. \<not> db_fails env t" "q (db_tick s) (db_data s) \<noteq> None"
  shows "\<exists>s' x. stmt env err q s = (s', Inr x)"
  using assms by (auto simp: stmt_def Let_def)

lemma command_total:
  assumes "\<forall>t. \<not> db_fails env t"
  obtains s' where "command env err f s = (s', Inr ())"
  using assms by (simp add: command_def stmt_def Let_def)

lemma query_total:
  assumes "\<forall>t. \<not> db_fails env t"
  obtains s' where "query env err f s = (s', Inr (f (db_data s)))"
  using assms by (simp add: query_def stmt_def Let_def)

lemma in_tx_total:
  assumes "\<forall>t. \<not> db_fails env t" "\<And>t s1. db_data s1 = db_data s \<Longrightarrow> \<exists>s2 x e. body t s1 = (s2, Inr (x, e))"
  shows "\<exists>s' x. in_tx env err body s = (s', Inr x)"
proof -
  have "\<exists>s' x. stmt env err (\<lambda>t d. Some (d, t)) s = (s', Inr x)" by (rule stmt_total [OF assms(1)]) simp
  then obtain s1 t where b: "stmt env err (\<lambda>t d. Some (d, t)) s = (s1, Inr t)" by blast
  obtain s2 x e where r: "body t s1 = (s2, Inr (x, e))" using assms(2) stmt_ok [OF b] by fastforce
  have "\<exists>s' x. stmt env e (\<lambda>_ d. Some (d, ())) s2 = (s', Inr x)" by (rule stmt_total [OF assms(1)]) simp
  then obtain s3 u where c: "stmt env e (\<lambda>_ d. Some (d, ())) s2 = (s3, Inr u)" by blast
  from b r c show ?thesis by (simp add: in_tx_def)
qed

lemma recordSkip_total:
  assumes "\<forall>t. \<not> db_fails (an_db_env env) t"
  obtains s' run where "recordSkip env runType target source category s = (s', Inr run)"
  using stmt_total [OF assms, of "\<lambda>t. skip_run env t runType target source category t" s AnRecordSkip]
  by (auto simp: recordSkip_def skip_run_def Let_def)


lemma writeDaily_total:
  assumes "\<forall>t. \<not> db_fails (an_db_env env) t" "tables_ok (db_data s)" "c \<in> set (an_cycles (db_data s))" "discovery_complete c"
  shows "\<exists>s' r. writeDaily env c s = (s', Inr r)"
  unfolding writeDaily_def Let_def
proof (rule in_tx_total [OF assms(1)])
  fix now and s1 :: "an_db conn"
  assume s1: "db_data s1 = db_data s"
  let ?target = "analytics_dayUTC (ic_cycle_date c)" and ?denv = "an_db_env env"
  have "\<exists>s' x. stmt ?denv AnStartDaily (start_daily env now ?target c) s1 = (s', Inr x)" by (rule stmt_total [OF assms(1)]) (simp add: start_daily_def Let_def)
  then obtain s2 run where a: "stmt ?denv AnStartDaily (start_daily env now ?target c) s1 = (s2, Inr run)" by blast
  obtain rs where "(db_data s)\<lparr>an_runs := rs\<rparr> = db_data s2"
    using stmt_ok [OF a] s1 by (auto simp: start_daily_def start_run_def Let_def)
  note d2 = this [symmetric]
  obtain s3 where b: "command ?denv AnClearDaily (clear_daily ?target (ic_source c)) s2 = (s3, Inr ())" by (rule command_total [OF assms(1)])
  have "build_daily env (ic_id c) ?target run (db_data s3) \<noteq> None"
    unfolding command_ok [OF b] d2 by (simp add: build_daily_eq [OF assms(2-4)])
  then have "\<exists>s4 n. stmt ?denv AnBuildDaily (\<lambda>_. build_daily env (ic_id c) ?target run) s3 = (s4, Inr n)"
    by (intro stmt_total [OF assms(1)])
  then obtain s4 n where d: "stmt ?denv AnBuildDaily (\<lambda>_. build_daily env (ic_id c) ?target run) s3 = (s4, Inr n)" by blast
  obtain s5 where e: "command ?denv AnFinishDaily (finish_daily env now run n) s4 = (s5, Inr ())" by (rule command_total [OF assms(1)])
  from a b d e show "\<exists>s2 x e. and_do (stmt ?denv AnStartDaily (start_daily env now ?target c)) (\<lambda>run.
      and_do (command ?denv AnClearDaily (clear_daily ?target (ic_source c))) (\<lambda>_.
      and_do (stmt ?denv AnBuildDaily (\<lambda>_. build_daily env (ic_id c) ?target run)) (\<lambda>rows.
      and_do (command ?denv AnFinishDaily (finish_daily env now run rows)) (\<lambda>_.
      give (\<lparr>rs_RunID = run, rs_RunType = ''daily_snapshot'', rs_Target = ?target, rs_SourceCycleID = ic_id c,
             rs_Rows = rows, rs_SourceDayCount = 1, rs_Complete = True, rs_Skipped = False, rs_SkipReason = ''''\<rparr>,
            AnCommitDaily))))) s1 = (s2, Inr (x, e))"
    by (simp add: and_do_def give_def)
qed


lemma withLock_total:
  assumes "\<forall>t. \<not> db_fails (an_db_env env) t" "\<forall>t. an_lock_free env t"
    and "\<And>s1. db_data s1 = db_data s \<Longrightarrow> \<exists>s2 x. run s1 = (s2, Inr x)"
  shows "\<exists>s' x. an_withLock env run s = (s', Inr x)"
proof -
  obtain s1 where q: "query (an_db_env env) AnLockConnection (\<lambda>_. ()) s = (s1, Inr ())" by (rule query_total [OF assms(1)])
  obtain s2 where l: "stmt (an_db_env env) AnLockQuery (\<lambda>t d. Some (d, an_lock_free env t)) s1 = (s2, Inr True)"
    using assms(1,2) by (simp add: stmt_def Let_def)
  obtain s3 x where "run s2 = (s3, Inr x)" using assms(3) stmt_ok [OF l] query_ok [OF q] by fastforce
  with q l show ?thesis by (simp add: an_withLock_def and_do_def)
qed

lemma RunDaily_total:
  assumes "\<forall>t. \<not> db_fails (an_db_env env) t" "\<forall>t. an_lock_free env t" "tables_ok (db_data s)"
    "TrimSpace cycleID = '''' \<or> an_cast env cycleID \<noteq> None"
  shows "\<exists>s' r. RunDaily env cycleID s = (s', Inr r)"
  unfolding RunDaily_def
proof (rule withLock_total [OF assms(1,2)])
  fix s1 :: "an_db conn" assume s1: "db_data s1 = db_data s"
  have "\<exists>s2 found. selectCycle env cycleID s1 = (s2, Inr found)"
    unfolding selectCycle_def by (rule stmt_total [OF assms(1)]) (use assms(4) in \<open>auto split: option.splits\<close>)
  then obtain s2 found where sel: "selectCycle env cycleID s1 = (s2, Inr found)" by blast
  note sf = selectCycle_ok [OF sel]
  show "\<exists>s2 x. and_do (selectCycle env cycleID) (\<lambda>found s. case found of
         None \<Rightarrow> (let target = Truncate (an_clock env (db_tick s)) (24 * Hour) in
            and_do (recordSkip env ''daily_snapshot'' target ''hh'' ''no_complete_cycle'')
              (\<lambda>run. give (skipped_result run ''daily_snapshot'' target ''no_complete_cycle'')) s)
       | Some c \<Rightarrow> writeDaily env c s) s1 = (s2, Inr x)"
  proof (cases found)
    case None
    obtain s3 run where "recordSkip env ''daily_snapshot'' (Truncate (an_clock env (db_tick s2)) (24 * Hour)) ''hh'' ''no_complete_cycle'' s2 = (s3, Inr run)"
      by (rule recordSkip_total [OF assms(1)])
    with sel None show ?thesis by (simp add: and_do_def give_def Let_def)
  next
    case (Some c)
    have "c \<in> set (an_cycles (db_data s2))" "discovery_complete c" "tables_ok (db_data s2)" using sf(1) sf(3) [OF Some] assms(3) s1 by auto
    with writeDaily_total [OF assms(1)] sel Some show ?thesis by (simp add: and_do_def)
  qed
qed


section \<open>Further properties\<close>



lemma demo_daily:
  obtains s' r where "RunDaily demo_an_env '''' demo_conn = (s', Inr r)" "\<not> rs_Skipped r"
proof -
  have ok: "tables_ok (db_data demo_conn)" using demo_ok by (simp add: an_ok_def)
  obtain s' r where r: "RunDaily demo_an_env '''' demo_conn = (s', Inr r)"
    using RunDaily_total [OF _ _ ok, of demo_an_env "''''"] by (auto simp: demo_an_env_def bytes_simps)
  have pend: "pending_cycles (db_data demo_conn) \<noteq> []"
    by (simp add: pending_cycles_def demo_conn_def demo_cycle_def discovery_complete_def snapshotted_def)
  from r demo_ok have "\<not> rs_Skipped r"
  proof (cases rule: RunDaily_cases)
    case skip
    with pend show ?thesis by (simp add: bytes_simps)
  next
    case (wrote c s1 s2)
    then have "tables_ok (db_data s1)" "c \<in> set (an_cycles (db_data s1))" by (simp_all add: an_ok_def)
    then show ?thesis by (rule writeDaily_ok [OF wrote(6) _ _ wrote(4)])
  qed
  with r show thesis by (rule that)
qed

theorem daily_snapshot_exact_witness:
  "\<exists>s' r. RunDaily demo_an_env '''' demo_conn = (s', Inr r) \<and> rs_SourceCycleID r = ''c1''"
proof -
  obtain s' r where r: "RunDaily demo_an_env '''' demo_conn = (s', Inr r)" "\<not> rs_Skipped r" by (rule demo_daily)
  have "regions_keyed (db_data demo_conn)" by (simp add: regions_keyed_def demo_conn_def)
  from daily_snapshot_exact [OF r(1) demo_ok this r(2)] have "rs_SourceCycleID r = ''c1''"
    by (auto simp: demo_conn_def demo_cycle_def)
  with r show ?thesis by blast
qed







text \<open>A run of a key that exists keeps its identifier.\<close>

lemma start_run_existing:
  assumes "distinct (map run_key (an_runs db))" "r \<in> set (an_runs db)" "run_key r = run_key new"
    and "\<And>r. run_key r = run_key new \<Longrightarrow> run_key (change r) = run_key new" "\<And>r. ar_id (change r) = ar_id r"
  shows "snd (start_run new change db) = ar_id r"
proof -
  let ?rows = "upsert run_key new change (an_runs db)"
  have mem: "change r \<in> set ?rows" using assms(2,3) by (auto simp: upsert_def)
  have "distinct (map run_key ?rows)" by (rule upsert_distinct) (rule assms(4), assumption, rule assms(1))
  from row_of_mem [OF this mem] have "row_of run_key (run_key new) ?rows = Some (change r)" using assms(3,4) by metis
  then show ?thesis by (simp add: start_run_def Let_def assms(5))
qed

text \<open>
  The daily snapshot can be repeated: running the same cycle again leaves the daily table exactly as the
  first run left it, with the same run identifier and the same number of rows.
\<close>

theorem daily_rerun:
  assumes "RunDaily env cycleID s = (s1, Inr r1)" "RunDaily env cycleID s1 = (s2, Inr r2)" "an_ok env s"
    "TrimSpace cycleID \<noteq> ''''" "\<not> rs_Skipped r1"
  shows "an_daily (db_data s2) = an_daily (db_data s1) \<and> rs_RunID r2 = rs_RunID r1 \<and> rs_Rows r2 = rs_Rows r1"
  using assms(1,3)
proof (cases rule: RunDaily_cases)
  case (wrote c t1 t2)
  let ?target = "analytics_dayUTC (ic_cycle_date c)" and ?db = "db_data s"
  have k1: "keeps env s s1" by (rule RunDaily_keeps [OF assms(1,3)])
  then have ok1: "an_ok env s1" by (simp add: keeps_def)
  have pre: "tables_ok (db_data t1)" "c \<in> set (an_cycles (db_data t1))" using wrote(1-3) by (simp_all add: an_ok_def)
  obtain now t rs run where w1: "start_daily env now ?target c t ?db = Some (?db\<lparr>an_runs := rs\<rparr>, run)" "db_tick t1 \<le> t" "rs_RunID r1 = run"
      "rs_Rows r1 = length (snapshot_of env c run ?db)"
      "db_data s1 = finish_daily env now run (length (snapshot_of env c run ?db))
         (?db\<lparr>an_runs := rs, an_daily := an_daily (clear_daily ?target (ic_source c) ?db) @ snapshot_of env c run ?db\<rparr>)"
    by (rule writeDaily_ok [OF wrote(6) pre wrote(4)]) (simp add: wrote(1,7))
  have "db_uuid (an_db_env env) t \<notin> ar_id ` set (an_runs ?db)"
    using wrote(1,2) w1(2) by (simp add: an_ok_def ids_fresh_def)
  note f = start_daily_facts [OF w1(1) _ wrote(3) this, OF assms(3) [unfolded an_ok_def, THEN conjunct1]]
  have ids: "map run_key (an_runs (db_data s1)) = map run_key rs" "map ar_id (an_runs (db_data s1)) = map ar_id rs"
    using w1(5) by (auto simp: finish_daily_rows run_key_def)
  show ?thesis
    using assms(2) ok1
  proof (cases rule: RunDaily_cases)
    case skip
    with assms(4) wrote(3-5) k1 show ?thesis by (auto simp: keeps_def)
  next
    case again: (wrote d u1 u2)
    have cyc: "an_cycles (db_data s1) = an_cycles ?db" using k1 by (simp add: keeps_def)
    have "ic_id d = ic_id c" using again(5) wrote(5) assms(4) by simp
    then have dc: "d = c" using again(3) wrote(3) assms(3) cyc by (auto simp: an_ok_def tables_ok_def distinct_map dest: inj_onD)
    have pre2: "tables_ok (db_data u1)" "c \<in> set (an_cycles (db_data u1))" using again(1-3) dc by (simp_all add: an_ok_def)
    obtain now2 v rs2 run2 where w2: "start_daily env now2 ?target c v (db_data s1) = Some ((db_data s1)\<lparr>an_runs := rs2\<rparr>, run2)"
        "rs_RunID r2 = run2" "rs_Rows r2 = length (snapshot_of env c run2 (db_data s1))"
        "an_daily (db_data s2) = an_daily (clear_daily ?target (ic_source c) (db_data s1)) @ snapshot_of env c run2 (db_data s1)"
      by (rule writeDaily_ok [OF again(6) [unfolded dc] pre2 wrote(4)]) (simp add: again(1,7))
    have "run2 = run"
    proof -
      obtain x where x: "x \<in> set (an_runs (db_data s1))" "ar_id x = run" "run_key x = (''daily_snapshot'', ?target, ic_source c, MethodVersion)"
      proof -
        from f(6) obtain y where y: "y \<in> set rs" "ar_id y = run" "ar_type y = ''daily_snapshot''" "ar_cycle y = Some (ic_id c)" "ar_method y = MethodVersion" by blast
        have "run_linked (an_cycles ?db) y" using f(4) y(1) by (simp add: list_all_iff)
        then have k: "run_key y = (''daily_snapshot'', ?target, ic_source c, MethodVersion)"
          using y assms(3) wrote(3) by (auto simp: run_linked_def run_key_def an_ok_def tables_ok_def distinct_map dest: inj_onD)
        obtain i where i: "i < length rs" "rs ! i = y" using y(1) by (auto simp: in_set_conv_nth)
        have len: "length (an_runs (db_data s1)) = length rs" using ids(1) by (metis length_map)
        have "run_key (an_runs (db_data s1) ! i) = run_key y" "ar_id (an_runs (db_data s1) ! i) = run"
          using ids i len y(2) by (metis nth_map)+
        with i len k show thesis by (intro that [of "an_runs (db_data s1) ! i"]) simp_all
      qed
      let ?new = "new_daily_run env now2 v ?target c"
      have "snd (start_run ?new (\<lambda>r. ?new\<lparr>ar_id := ar_id r\<rparr>) (db_data s1)) = ar_id x"
        using ok1 x by (intro start_run_existing) (auto simp: an_ok_def tables_ok_def run_key_def new_daily_run_def)
      with w2(1) x(2) show ?thesis by (simp add: start_daily_def Let_def)
    qed
    moreover have "snapshot_of env c run (db_data s1) = snapshot_of env c run ?db"
      unfolding snapshot_of_def by (subst base_rows_cong [of _ ?db]) (simp_all add: w1(5))
    moreover have "an_daily (clear_daily ?target (ic_source c) (db_data s1)) = an_daily (clear_daily ?target (ic_source c) ?db)"
      using snapshot_of_own [of _ env c run ?db] by (simp add: w1(5) cleared_daily filter_empty_conv)
    ultimately show ?thesis using w1 w2 by simp
  qed
qed (use assms(5) in simp)

theorem daily_rerun_witness:
  "\<exists>s1 r1 s2 r2. RunDaily demo_an_env ''c1'' demo_conn = (s1, Inr r1) \<and> RunDaily demo_an_env ''c1'' s1 = (s2, Inr r2)
    \<and> an_daily (db_data s2) = an_daily (db_data s1)"
proof -
  have live: "\<forall>t. \<not> db_fails (an_db_env demo_an_env) t" "\<forall>t. an_lock_free demo_an_env t" by (simp_all add: demo_an_env_def)
  have cast: "TrimSpace ''c1'' = '''' \<or> an_cast demo_an_env ''c1'' \<noteq> None" by (simp add: demo_an_env_def)
  have trim: "TrimSpace ''c1'' \<noteq> ''''" by (simp add: bytes_simps)
  have ok: "tables_ok (db_data demo_conn)" using demo_ok by (simp add: an_ok_def)
  obtain s1 r1 where r1: "RunDaily demo_an_env ''c1'' demo_conn = (s1, Inr r1)" using RunDaily_total [OF live ok cast] by blast
  have "tables_ok (db_data s1)" using RunDaily_keeps [OF r1 demo_ok] by (simp add: keeps_def an_ok_def)
  then obtain s2 r2 where r2: "RunDaily demo_an_env ''c1'' s1 = (s2, Inr r2)" using RunDaily_total [OF live _ cast] by blast
  from r1 demo_ok have "\<not> rs_Skipped r1"
  proof (cases rule: RunDaily_cases)
    case skip
    with trim show ?thesis by (simp add: demo_an_env_def demo_conn_def demo_cycle_def discovery_complete_def)
  next
    case (wrote c t1 t2)
    then have "tables_ok (db_data t1)" "c \<in> set (an_cycles (db_data t1))" by (simp_all add: an_ok_def)
    then show ?thesis by (rule writeDaily_ok [OF wrote(6) _ _ wrote(4)])
  qed
  from daily_rerun [OF r1 r2 demo_ok trim this] r1 r2 show ?thesis by blast
qed

end
