(* ===== verification/Http_Layer.thy ===== *)
theory Http_Layer
  imports Go_Time
begin

text \<open>
  The HTTP side the handlers share: requests and responses, the correlation middleware
  (\<^verbatim>\<open>libs/go-common/httpx\<close>), the error envelope and the health check
  (\<^verbatim>\<open>apps/bff/internal/httpserver\<close>). A response is its status with a payload, an error envelope or no body;
  the JSON encoding of payloads is left out. Random bytes are arguments.
\<close>

section \<open>Requests and responses\<close>

type_synonym url_values = "string \<Rightarrow> string list"

text \<open>\<^verbatim>\<open>url.Values.Get\<close>: the first value, the empty string without one.\<close>

definition Get :: "url_values \<Rightarrow> string \<Rightarrow> string" where
  "Get values field = (case values field of [] \<Rightarrow> '''' | v # _ \<Rightarrow> v)"

record apiError =
  ae_Code :: string
  ae_Message :: string
  ae_Details :: "(string \<times> string) list"
  ae_RequestID :: string

datatype 'b body = Payload 'b | Failure apiError | NoBody

type_synonym 'b response = "nat \<times> 'b body"

definition writeJSON :: "nat \<Rightarrow> 'b \<Rightarrow> 'b response" where
  "writeJSON status v = (status, Payload v)"

definition writeAPIError :: "nat \<Rightarrow> string \<Rightarrow> string \<Rightarrow> (string \<times> string) list \<Rightarrow> string \<Rightarrow> 'b response" where
  "writeAPIError status code message details requestID =
     (status, Failure \<lparr>ae_Code = code, ae_Message = message, ae_Details = details, ae_RequestID = requestID\<rparr>)"

section \<open>The health check\<close>

record HealthResponse =
  hr_Status :: string
  hr_Checks :: "(string \<times> string) list"

text \<open>
  A dependency is absent (\<open>None\<close>) or answers its ping or not.
\<close>

definition Health :: "bool option \<Rightarrow> bool option \<Rightarrow> HealthResponse response" where
  "Health db redis =
     writeJSON 200 \<lparr>hr_Status = (if db = Some False \<or> redis = Some False then ''degraded'' else ''ok''),
       hr_Checks = (case db of None \<Rightarrow> [] | Some up \<Rightarrow> [(''database'', if up then ''up'' else ''down'')])
         @ (case redis of None \<Rightarrow> [] | Some up \<Rightarrow> [(''redis'', if up then ''up'' else ''down'')])\<rparr>"

section \<open>Trace context\<close>

definition is_hex_digit :: "char \<Rightarrow> bool" where
  "is_hex_digit c \<longleftrightarrow> (let b = byte_val c in 48 \<le> b \<and> b \<le> 57 \<or> 65 \<le> b \<and> b \<le> 70 \<or> 97 \<le> b \<and> b \<le> 102)"

text \<open>\<^verbatim>\<open>hex.DecodeString\<close> accepts pairs of hexadecimal digits.\<close>

definition isHex :: "string \<Rightarrow> bool" where
  "isHex s \<longleftrightarrow> even (length s) \<and> list_all is_hex_digit s"

definition isZeroHex :: "string \<Rightarrow> bool" where
  "isZeroHex s \<longleftrightarrow> list_all (\<lambda>c. c = CHR ''0'') s"

definition parseTraceparent :: "string \<Rightarrow> (string \<times> string \<times> string) option" where
  "parseTraceparent header =
     (let h = TrimSpace header in
      if h = '''' then None
      else (case Split h (CHR ''-'') of
         [version, tid, pid, fl] \<Rightarrow>
           if version \<noteq> ''00'' \<or> length tid \<noteq> 32 \<or> \<not> isHex tid \<or> isZeroHex tid then None
           else if length pid \<noteq> 16 \<or> \<not> isHex pid \<or> isZeroHex pid then None
           else if length fl \<noteq> 2 \<or> \<not> isHex fl then None
           else Some (ToLower tid, ToLower pid, ToLower fl)
       | _ \<Rightarrow> None))"

definition formatTraceparent :: "string \<Rightarrow> string \<Rightarrow> string \<Rightarrow> string" where
  "formatTraceparent traceID spanID flags = ''00-'' @ traceID @ ''-'' @ spanID @ ''-'' @ flags"

definition hex_digit :: "nat \<Rightarrow> char" where
  "hex_digit n = (if n < 10 then byte_of (48 + n) else byte_of (87 + n))"

text \<open>\<^verbatim>\<open>hex.EncodeToString\<close>.\<close>

definition EncodeToString :: "nat list \<Rightarrow> string" where
  "EncodeToString bs = concat (map (\<lambda>b. [hex_digit (b div 16 mod 16), hex_digit (b mod 16)]) bs)"

definition newTraceID :: "nat list \<Rightarrow> string" where
  "newTraceID random = EncodeToString (take 16 random)"

definition newSpanID :: "nat list \<Rightarrow> string" where
  "newSpanID random = EncodeToString (take 8 random)"

text \<open>Version 4, variant 10: the bits of the bytes 6 and 8 are set with \<^verbatim>\<open>&\<close> and \<^verbatim>\<open>|\<close>.\<close>

definition newUUID :: "nat list \<Rightarrow> string" where
  "newUUID random =
     (let b = take 16 random; b = b[6 := b ! 6 mod 16 + 64]; b = b[8 := b ! 8 mod 64 + 128]; h = EncodeToString b in
      take 8 h @ ''-'' @ take 4 (drop 8 h) @ ''-'' @ take 4 (drop 12 h) @ ''-'' @ take 4 (drop 16 h) @ ''-'' @ take 12 (drop 20 h))"

definition ensureTrace :: "string \<Rightarrow> nat list \<Rightarrow> nat list \<Rightarrow> string \<times> string \<times> string" where
  "ensureTrace header traceRandom spanRandom =
     (case parseTraceparent header of
        Some (traceID, _, flags) \<Rightarrow> (traceID, newSpanID spanRandom, flags)
      | None \<Rightarrow> (newTraceID traceRandom, newSpanID spanRandom, ''01''))"

text \<open>
  The middleware: what the next handler sees in its context and headers, which the client gets back too.
\<close>

record correlation =
  co_RequestID :: string
  co_TraceID :: string
  co_Traceparent :: string

definition Middleware :: "nat list \<Rightarrow> nat list \<Rightarrow> nat list \<Rightarrow> string \<Rightarrow> string \<Rightarrow> correlation" where
  "Middleware idRandom traceRandom spanRandom requestHeader traceHeader =
     (let requestID = TrimSpace requestHeader;
          requestID = (if requestID = '''' then newUUID idRandom else requestID)
      in case ensureTrace traceHeader traceRandom spanRandom of (traceID, spanID, flags) \<Rightarrow>
         \<lparr>co_RequestID = requestID, co_TraceID = traceID, co_Traceparent = formatTraceparent traceID spanID flags\<rparr>)"

section \<open>Lemmas: hexadecimal text\<close>

definition hex_lower :: "char \<Rightarrow> bool" where
  "hex_lower c \<longleftrightarrow> (let b = byte_val c in 48 \<le> b \<and> b \<le> 57 \<or> 97 \<le> b \<and> b \<le> 102)"

lemma hex_digit_lower: "n < 16 \<Longrightarrow> hex_lower (hex_digit n)"
  by (auto simp: hex_lower_def hex_digit_def Let_def byte_val_def byte_of_def)

lemma EncodeToString_length [simp]: "length (EncodeToString bs) = 2 * length bs"
  by (induction bs) (simp_all add: EncodeToString_def)

lemma EncodeToString_lower: "list_all hex_lower (EncodeToString bs)"
  by (induction bs) (simp_all add: EncodeToString_def hex_digit_lower)

lemma encode_rune_ascii: "n < 128 \<Longrightarrow> encode_rune n = [byte_of n]"
  by (simp add: encode_rune_def encode_bytes_def valid_rune_def Let_def)

lemma ToLower_ascii:
  assumes "list_all (\<lambda>c. byte_val c < 128) s"
  shows "ToLower s = map (\<lambda>c. byte_of (lower_rune (byte_val c))) s"
proof -
  have r: "runes s = map byte_val s" unfolding runes_def chunks_ascii [OF assms] by (simp add: comp_def)
  have "lower_rune n < 128" if "n < 128" for n using that by (simp add: lower_rune_def)
  then show ?thesis using assms unfolding ToLower_def r
    by (induction s) (simp_all add: encode_def encode_rune_ascii)
qed

lemma hex_ascii: "is_hex_digit c \<Longrightarrow> 32 < byte_val c \<and> byte_val c < 127 \<and> c \<noteq> CHR ''-''"
  by (auto simp: is_hex_digit_def Let_def byte_val_def)

lemma hex_lower_digit: "hex_lower c \<Longrightarrow> is_hex_digit c"
  by (auto simp: hex_lower_def is_hex_digit_def Let_def)

lemma lower_hex: "is_hex_digit c \<Longrightarrow> hex_lower (byte_of (lower_rune (byte_val c))) \<and> (byte_of (lower_rune (byte_val c)) = CHR ''0'' \<longleftrightarrow> c = CHR ''0'')"
proof -
  assume c: "is_hex_digit c"
  let ?n = "byte_val c" and ?l = "byte_of (lower_rune (byte_val c))"
  have eq: "d = CHR ''0'' \<longleftrightarrow> byte_val d = 48" for d :: char
  proof -
    have "byte_val (CHR ''0'') = 48" by (simp add: byte_val_def)
    then show ?thesis by (metis byte_of_val)
  qed
  have "byte_val ?l = lower_rune ?n" using c by (auto simp: is_hex_digit_def Let_def lower_rune_def)
  with c show ?thesis unfolding eq by (auto simp: is_hex_digit_def hex_lower_def Let_def lower_rune_def)
qed

lemma lower_hex_id: "hex_lower c \<Longrightarrow> byte_of (lower_rune (byte_val c)) = c"
  by (auto simp: hex_lower_def Let_def lower_rune_def)

lemma ToLower_hex:
  assumes "list_all is_hex_digit s"
  shows "length (ToLower s) = length s" "list_all hex_lower (ToLower s)" "isZeroHex (ToLower s) = isZeroHex s"
proof -
  have "list_all (\<lambda>c. byte_val c < 128) s" using assms hex_ascii by (fastforce simp: list_all_iff)
  note l = ToLower_ascii [OF this]
  show "length (ToLower s) = length s" by (simp add: l)
  show "list_all hex_lower (ToLower s)" using assms lower_hex by (simp add: l list_all_iff)
  show "isZeroHex (ToLower s) = isZeroHex s" using assms lower_hex by (auto simp: l isZeroHex_def list_all_iff)
qed

lemma ToLower_hex_lower: "list_all hex_lower s \<Longrightarrow> ToLower s = s"
proof -
  assume s: "list_all hex_lower s"
  then have "list_all (\<lambda>c. byte_val c < 128) s" using hex_ascii hex_lower_digit by (fastforce simp: list_all_iff)
  then show ?thesis using s by (simp add: ToLower_ascii list_all_iff lower_hex_id map_idI)
qed

text \<open>A trace context that is written out is read back.\<close>

definition trace_field :: "nat \<Rightarrow> string \<Rightarrow> bool" where
  "trace_field n s \<longleftrightarrow> length s = n \<and> list_all hex_lower s"

lemma parse_format:
  assumes "trace_field 32 tid" "\<not> isZeroHex tid" "trace_field 16 pid" "\<not> isZeroHex pid" "trace_field 2 fl"
  shows "parseTraceparent (formatTraceparent tid pid fl) = Some (tid, pid, fl)"
proof -
  have hex: "list_all is_hex_digit s" "isHex s" "ToLower s = s" "CHR ''-'' \<notin> set s" "list_all (\<lambda>c. 32 < byte_val c \<and> byte_val c < 127) s"
    if "trace_field n s" "even n" for n s
    using that hex_lower_digit hex_ascii
    by (auto simp: trace_field_def isHex_def list_all_iff intro!: ToLower_hex_lower)
  note t = hex [OF assms(1)] and p = hex [OF assms(3)] and f = hex [OF assms(5)]
  have "TrimSpace (formatTraceparent tid pid fl) = formatTraceparent tid pid fl"
    using t(5) p(5) f(5) by (intro TrimSpace_plain) (simp add: formatTraceparent_def byte_val_def)
  moreover have "Split (formatTraceparent tid pid fl) (CHR ''-'') = [''00'', tid, pid, fl]"
  proof -
    have "formatTraceparent tid pid fl = Join [''00'', tid, pid, fl] [CHR ''-'']" by (simp add: formatTraceparent_def)
    then show ?thesis using t(4) p(4) f(4) by (simp only:) (rule Split_Join, auto)
  qed
  moreover have "formatTraceparent tid pid fl \<noteq> ''''" by (simp add: formatTraceparent_def)
  ultimately show ?thesis using assms t p f by (simp add: parseTraceparent_def trace_field_def)
qed

lemma parse_fields:
  assumes "parseTraceparent header = Some (tid, pid, fl)"
  shows "trace_field 32 tid \<and> \<not> isZeroHex tid \<and> trace_field 16 pid \<and> \<not> isZeroHex pid \<and> trace_field 2 fl"
  using assms
  by (auto simp: parseTraceparent_def Let_def isHex_def trace_field_def ToLower_hex split: if_splits list.splits)

lemma encoded_field:
  assumes "n \<le> length random" "\<exists>b \<in> set (take n random). b mod 256 \<noteq> 0"
  shows "trace_field (2 * n) (EncodeToString (take n random)) \<and> \<not> isZeroHex (EncodeToString (take n random))"
proof -
  obtain b where b: "b \<in> set (take n random)" "b mod 256 \<noteq> 0" using assms(2) by blast
  have zero: "hex_digit k = CHR ''0'' \<longleftrightarrow> k = 0" if "k < 16" for k
  proof -
    have "byte_val (hex_digit k) = (if k < 10 then 48 + k else 87 + k)" using that by (simp add: hex_digit_def)
    then show ?thesis using that byte_of_val [of "CHR ''0''"] by (auto simp: byte_val_def hex_digit_def)
  qed
  have "b mod 256 = 16 * (b div 16 mod 16) + b mod 16" using mod_mult2_eq [of b 16 16] by simp
  with b(2) have "b div 16 mod 16 \<noteq> 0 \<or> b mod 16 \<noteq> 0" by (metis add_0 mult_0_right)
  then have "hex_digit (b div 16 mod 16) \<noteq> CHR ''0'' \<or> hex_digit (b mod 16) \<noteq> CHR ''0''" using zero by simp
  with b(1) have "\<not> isZeroHex (EncodeToString (take n random))" by (auto simp: isZeroHex_def EncodeToString_def list_all_iff)
  with assms(1) EncodeToString_lower show ?thesis by (simp add: trace_field_def)
qed

section \<open>Properties\<close>

text \<open>
  The trace context survives the service: the header the middleware passes on and gives back is one that the parser
  accepts, with the trace id that the context carries; when the client's header is valid, trace id and flags
  are the client's, otherwise a new trace is started. The random source must not yield zero bytes only.
\<close>

theorem trace_context_kept:
  assumes "16 \<le> length traceRandom" "\<exists>b \<in> set (take 16 traceRandom). b mod 256 \<noteq> 0"
    and "8 \<le> length spanRandom" "\<exists>b \<in> set (take 8 spanRandom). b mod 256 \<noteq> 0"
  shows "\<exists>flags. parseTraceparent (co_Traceparent (Middleware idRandom traceRandom spanRandom requestHeader traceHeader))
        = Some (co_TraceID (Middleware idRandom traceRandom spanRandom requestHeader traceHeader), newSpanID spanRandom, flags)
      \<and> (case parseTraceparent traceHeader of
           None \<Rightarrow> co_TraceID (Middleware idRandom traceRandom spanRandom requestHeader traceHeader) = newTraceID traceRandom
         | Some (tid, pid, fl) \<Rightarrow> co_TraceID (Middleware idRandom traceRandom spanRandom requestHeader traceHeader) = tid \<and> flags = fl)"
proof -
  let ?span = "newSpanID spanRandom"
  have span: "trace_field 16 ?span" "\<not> isZeroHex ?span"
    using encoded_field [OF assms(3,4)] by (simp_all add: newSpanID_def)
  have new: "trace_field 32 (newTraceID traceRandom)" "\<not> isZeroHex (newTraceID traceRandom)"
    using encoded_field [OF assms(1,2)] by (simp_all add: newTraceID_def)
  have "trace_field 2 ''01''" by (simp add: trace_field_def hex_lower_def byte_val_def)
  note fresh = parse_format [OF new span this]
  show ?thesis
  proof (cases "parseTraceparent traceHeader")
    case None
    with fresh show ?thesis by (simp add: Middleware_def ensureTrace_def Let_def)
  next
    case (Some p)
    obtain tid pid fl where p: "p = (tid, pid, fl)" by (metis prod_cases3)
    from parse_fields [OF Some [unfolded p]] have "parseTraceparent (formatTraceparent tid ?span fl) = Some (tid, ?span, fl)"
      by (intro parse_format span) auto
    with Some p show ?thesis by (simp add: Middleware_def ensureTrace_def Let_def)
  qed
qed

theorem trace_context_kept_witness:
  "co_TraceID (Middleware (replicate 16 1) (replicate 16 1) (replicate 8 1) '''' '''') = newTraceID (replicate 16 1)"
proof -
  have "parseTraceparent '''' = None" by (simp add: parseTraceparent_def bytes_simps)
  with trace_context_kept [of "replicate 16 1" "replicate 8 1" "replicate 16 1" "''''" "''''"] show ?thesis by simp
qed

end
