(* ===== verification/Read_Api.thy ===== *)
theory Read_Api
  imports Http_Layer
begin

text \<open>
  The read API of the backend: the parsing and validation of query parameters and the handlers of
  \<^verbatim>\<open>apps/bff/internal/httpserver/read.go\<close>, the service with its time-outs and the freshness rules of
  \<^verbatim>\<open>apps/bff/internal/readapi\<close>. Arguments: \<^verbatim>\<open>time.Parse\<close> with the two layouts, \<^verbatim>\<open>strconv.ParseFloat\<close>,
  the UUID scanner of the database driver, and the repository; what a repository call returns is opaque and
  what it does to the world is up to it.
\<close>

section \<open>Filters\<close>

record Period =
  pd_From :: time
  pd_To :: time

record Page =
  pg_Number :: int
  pg_Size :: int

record AnalyticsFilter =
  af_Period :: Period
  af_RoleID :: string
  af_RoleGroup :: string
  af_RegionID :: string
  af_Source :: string
  af_Currency :: string

record VacancyFilter =
  vf_Query :: string
  vf_RoleIDs :: "string list"
  vf_RegionIDs :: "string list"
  vf_SkillIDs :: "string list"
  vf_Source :: string
  vf_OnlyActive :: bool
  vf_SalaryMin :: "float64 option"
  vf_SalaryMax :: "float64 option"
  vf_PublishedFrom :: "time option"
  vf_PublishedTo :: "time option"
  vf_Page :: Page
  vf_Currency :: string

text \<open>A parsed floating-point number may be infinite or not a number.\<close>

datatype parsed_float = Finite float64 | Infinite | NotANumber

record read_env =
  re_DateOnly :: "string \<Rightarrow> time option"
  re_RFC3339 :: "string \<Rightarrow> time option"
  re_ParseFloat :: "string \<Rightarrow> parsed_float option"
  re_UUID :: "string \<Rightarrow> bool"

section \<open>Freshness\<close>

definition FreshnessWindow :: duration where
  "FreshnessWindow = 5 * Hour"

definition IsFresh :: "time option \<Rightarrow> time \<Rightarrow> bool" where
  "IsFresh publishedAt now = (case publishedAt of None \<Rightarrow> False
     | Some published \<Rightarrow> \<not> (published > now) \<and> \<not> (published < now - FreshnessWindow))"

definition VacancyStatus :: "bool \<Rightarrow> string \<Rightarrow> string" where
  "VacancyStatus isActive inactiveReason =
     (if isActive then ''active''
      else if inactiveReason = ''missing_from_complete_cycle'' then ''missing_from_last_complete_cycle''
      else ''inactive'')"

section \<open>Parsing\<close>

record fieldError =
  fe_field :: string
  fe_reason :: string

definition field_error :: "string \<Rightarrow> string \<Rightarrow> fieldError + 'a" where
  "field_error field reason = Inl \<lparr>fe_field = field, fe_reason = reason\<rparr>"

text \<open>Parsers in sequence: the first error ends the parsing.\<close>

definition then_parse :: "('e + 'a) \<Rightarrow> ('a \<Rightarrow> 'e + 'b) \<Rightarrow> 'e + 'b" where
  "then_parse r k = (case r of Inl e \<Rightarrow> Inl e | Inr x \<Rightarrow> k x)"

definition parseCurrency :: "url_values \<Rightarrow> fieldError + string" where
  "parseCurrency values =
     (let currency = ToUpper (TrimSpace (Get values ''currency'')) in
      if currency = '''' then Inr ''RUB''
      else if List.member [''RUB'', ''USD'', ''EUR'', ''CNY'', ''KZT'', ''AMD''] currency then Inr currency
      else field_error ''currency'' ''must be RUB, USD, EUR, CNY, KZT or AMD'')"

definition validateUUID :: "read_env \<Rightarrow> string \<Rightarrow> string \<Rightarrow> fieldError + unit" where
  "validateUUID env field v = (if re_UUID env v then Inr () else field_error field ''must be a UUID'')"

definition supported_sources :: "string list" where
  "supported_sources = ['''', ''hh'', ''superjob'', ''remotive'', ''adzuna'']"

definition validateSource :: "string \<Rightarrow> fieldError + unit" where
  "validateSource source = (if List.member supported_sources source then Inr () else field_error ''source'' ''is not supported'')"

definition parseDate :: "read_env \<Rightarrow> url_values \<Rightarrow> string \<Rightarrow> fieldError + time" where
  "parseDate env values field =
     (let raw = TrimSpace (Get values field) in
      if raw = '''' then field_error field ''is required''
      else (case re_DateOnly env raw of None \<Rightarrow> field_error field ''must use YYYY-MM-DD'' | Some t \<Rightarrow> Inr t))"

definition parsePeriod :: "read_env \<Rightarrow> url_values \<Rightarrow> fieldError + Period" where
  "parsePeriod env values =
     then_parse (parseDate env values ''from'') (\<lambda>from. then_parse (parseDate env values ''to'') (\<lambda>to.
       if from > to then field_error ''from'' ''must not be after to'' else Inr \<lparr>pd_From = from, pd_To = to\<rparr>))"

text \<open>An optional identifier: empty or a UUID.\<close>

definition optional_id :: "read_env \<Rightarrow> url_values \<Rightarrow> string \<Rightarrow> fieldError + string" where
  "optional_id env values field =
     (let v = TrimSpace (Get values field) in
      if v = '''' then Inr v else then_parse (validateUUID env field v) (\<lambda>_. Inr v))"

definition optional_source :: "url_values \<Rightarrow> fieldError + string" where
  "optional_source values =
     (let source = TrimSpace (Get values ''source'') in then_parse (validateSource source) (\<lambda>_. Inr source))"

definition parseAnalyticsFilter :: "read_env \<Rightarrow> url_values \<Rightarrow> bool \<Rightarrow> bool \<Rightarrow> fieldError + AnalyticsFilter" where
  "parseAnalyticsFilter env values allowRole allowSource =
     then_parse (parsePeriod env values) (\<lambda>period.
     then_parse (parseCurrency values) (\<lambda>currency.
     then_parse (if allowRole then optional_id env values ''role_id'' else Inr '''') (\<lambda>roleID.
     then_parse (optional_id env values ''region_id'') (\<lambda>regionID.
     then_parse (if allowSource then optional_source values else Inr '''') (\<lambda>source.
       Inr \<lparr>af_Period = period, af_RoleID = roleID, af_RoleGroup = '''', af_RegionID = regionID, af_Source = source, af_Currency = currency\<rparr>)))))"

definition role_group_names :: "string list" where
  "role_group_names = ['''', ''software_development'', ''analytics'', ''quality_assurance'']"

definition parseDemandFilter :: "read_env \<Rightarrow> url_values \<Rightarrow> fieldError + AnalyticsFilter" where
  "parseDemandFilter env values =
     then_parse (parsePeriod env values) (\<lambda>period.
     then_parse (parseCurrency values) (\<lambda>currency.
       let roleGroup = TrimSpace (Get values ''role_group'') in
       if \<not> List.member role_group_names roleGroup
       then field_error ''role_group'' ''must be software_development, analytics or quality_assurance''
       else
         then_parse (optional_id env values ''region_id'') (\<lambda>regionID.
         then_parse (optional_source values) (\<lambda>source.
           Inr \<lparr>af_Period = period, af_RoleID = '''', af_RoleGroup = roleGroup, af_RegionID = regionID, af_Source = source, af_Currency = currency\<rparr>))))"

definition parseInt :: "url_values \<Rightarrow> string \<Rightarrow> int \<Rightarrow> int \<Rightarrow> int \<Rightarrow> fieldError + int" where
  "parseInt values field fallback minimum maximum =
     (let raw = TrimSpace (Get values field) in
      if raw = '''' then Inr fallback
      else (case Atoi raw of
              None \<Rightarrow> field_error field ''is outside the allowed range''
            | Some v \<Rightarrow> if v < minimum \<or> maximum > 0 \<and> v > maximum then field_error field ''is outside the allowed range'' else Inr v))"

definition parsePage :: "url_values \<Rightarrow> fieldError + Page" where
  "parsePage values =
     then_parse (parseInt values ''page'' 1 1 0) (\<lambda>number.
     then_parse (parseInt values ''page_size'' 20 1 100) (\<lambda>size.
       if number > quot max_int size then field_error ''page'' ''is too large''
       else Inr \<lparr>pg_Number = number, pg_Size = size\<rparr>))"

definition parseTopSkillsPage :: "url_values \<Rightarrow> fieldError + Page" where
  "parseTopSkillsPage values =
     (if TrimSpace (Get values ''limit'') = '''' then parsePage values
      else if TrimSpace (Get values ''page'') \<noteq> '''' \<or> TrimSpace (Get values ''page_size'') \<noteq> ''''
      then field_error ''limit'' ''must not be combined with page or page_size''
      else then_parse (parseInt values ''limit'' 20 1 100) (\<lambda>limit. Inr \<lparr>pg_Number = 1, pg_Size = limit\<rparr>))"

definition parseBool :: "url_values \<Rightarrow> string \<Rightarrow> bool \<Rightarrow> fieldError + bool" where
  "parseBool values field fallback =
     (let raw = TrimSpace (Get values field) in
      if raw = '''' then Inr fallback
      else if raw = ''true'' then Inr True
      else if raw = ''false'' then Inr False
      else field_error field ''must be true or false'')"

definition parseOptionalFloat :: "read_env \<Rightarrow> url_values \<Rightarrow> string \<Rightarrow> float64 \<Rightarrow> float64 \<Rightarrow> fieldError + float64 option" where
  "parseOptionalFloat env values field minimum maximum =
     (let raw = TrimSpace (Get values field) in
      if raw = '''' then Inr None
      else (case re_ParseFloat env raw of
              Some (Finite v) \<Rightarrow> if v < minimum \<or> v > maximum then field_error field ''is outside the allowed range'' else Inr (Some v)
            | _ \<Rightarrow> field_error field ''is outside the allowed range''))"

definition parseOptionalPublishedDate :: "read_env \<Rightarrow> url_values \<Rightarrow> string \<Rightarrow> bool \<Rightarrow> fieldError + time option" where
  "parseOptionalPublishedDate env values field isEnd =
     (let raw = TrimSpace (Get values field) in
      if raw = '''' then Inr None
      else (case re_DateOnly env raw of
              Some t \<Rightarrow> Inr (Some (if isEnd then add_days t 1 else t))
            | None \<Rightarrow> (case re_RFC3339 env raw of
                None \<Rightarrow> field_error field ''must use YYYY-MM-DD or RFC3339''
              | Some t \<Rightarrow> Inr (Some t))))"

text \<open>The loop over the parts of all values of a field, with the list so far.\<close>

fun uuid_loop :: "read_env \<Rightarrow> string \<Rightarrow> nat \<Rightarrow> string list \<Rightarrow> string list \<Rightarrow> fieldError + string list" where
  "uuid_loop env field maximum [] result = Inr result"
| "uuid_loop env field maximum (part # parts) result =
     (let v = TrimSpace part in
      if v = '''' then uuid_loop env field maximum parts result
      else if \<not> re_UUID env v then field_error field ''must be a UUID''
      else if List.member result v then uuid_loop env field maximum parts result
      else if length (result @ [v]) > maximum then field_error field ''has too many values''
      else uuid_loop env field maximum parts (result @ [v]))"

definition parseUUIDList :: "read_env \<Rightarrow> url_values \<Rightarrow> string \<Rightarrow> nat \<Rightarrow> fieldError + string list" where
  "parseUUIDList env values field maximum =
     uuid_loop env field maximum (concat (map (\<lambda>raw. Split raw (CHR '','')) (values field))) []"

definition queryDefault :: "url_values \<Rightarrow> string \<Rightarrow> string \<Rightarrow> string" where
  "queryDefault values field fallback =
     (let v = TrimSpace (Get values field) in if v = '''' then fallback else v)"

section \<open>The service\<close>

datatype read_error = ErrNotFound | ErrOther string

text \<open>
  The repository and the service have the same operations: a deadline (the context), the world, the arguments.
\<close>

type_synonym ('w, 'r) op = "time option \<Rightarrow> 'w \<Rightarrow> 'w \<times> (read_error + 'r)"

record ('w, 'r) ReadService =
  sv_Dashboard :: "AnalyticsFilter \<Rightarrow> ('w, 'r) op"
  sv_ListRoles :: "AnalyticsFilter \<Rightarrow> Page \<Rightarrow> string \<Rightarrow> ('w, 'r) op"
  sv_GetRole :: "string \<Rightarrow> AnalyticsFilter \<Rightarrow> ('w, 'r) op"
  sv_ListRegions :: "AnalyticsFilter \<Rightarrow> Page \<Rightarrow> ('w, 'r) op"
  sv_GetRegion :: "string \<Rightarrow> AnalyticsFilter \<Rightarrow> ('w, 'r) op"
  sv_SalaryTrends :: "AnalyticsFilter \<Rightarrow> string \<Rightarrow> ('w, 'r) op"
  sv_DemandTrends :: "AnalyticsFilter \<Rightarrow> string \<Rightarrow> ('w, 'r) op"
  sv_TrendsCoverage :: "('w, 'r) op"
  sv_TopSkills :: "AnalyticsFilter \<Rightarrow> Page \<Rightarrow> ('w, 'r) op"
  sv_ProgrammingLanguages :: "AnalyticsFilter \<Rightarrow> Page \<Rightarrow> string \<Rightarrow> ('w, 'r) op"
  sv_ManagementRoles :: "AnalyticsFilter \<Rightarrow> Page \<Rightarrow> string \<Rightarrow> ('w, 'r) op"
  sv_ListVacancies :: "VacancyFilter \<Rightarrow> ('w, 'r) op"
  sv_Currencies :: "('w, 'r) op"

definition defaultQueryTimeout :: duration where
  "defaultQueryTimeout = 5 * Second"

text \<open>\<^verbatim>\<open>context.WithTimeout\<close> keeps an earlier deadline of the parent.\<close>

definition read_withTimeout :: "('w \<Rightarrow> time) \<Rightarrow> duration \<Rightarrow> ('w, 'r) op \<Rightarrow> ('w, 'r) op" where
  "read_withTimeout now timeout query ctx w =
     query (Some (case ctx of None \<Rightarrow> now w + timeout | Some d \<Rightarrow> min d (now w + timeout))) w"

definition NewService :: "('w \<Rightarrow> time) \<Rightarrow> ('w, 'r) ReadService \<Rightarrow> ('w, 'r) ReadService" where
  "NewService now repo =
     (let lim = read_withTimeout now defaultQueryTimeout in
      \<lparr>sv_Dashboard = (\<lambda>f. lim (sv_Dashboard repo f)),
       sv_ListRoles = (\<lambda>f p s. lim (sv_ListRoles repo f p s)),
       sv_GetRole = (\<lambda>i f. lim (sv_GetRole repo i f)),
       sv_ListRegions = (\<lambda>f p. lim (sv_ListRegions repo f p)),
       sv_GetRegion = (\<lambda>i f. lim (sv_GetRegion repo i f)),
       sv_SalaryTrends = (\<lambda>f g. lim (sv_SalaryTrends repo f g)),
       sv_DemandTrends = (\<lambda>f g. lim (sv_DemandTrends repo f g)),
       sv_TrendsCoverage = lim (sv_TrendsCoverage repo),
       sv_TopSkills = (\<lambda>f p. lim (sv_TopSkills repo f p)),
       sv_ProgrammingLanguages = (\<lambda>f p m. lim (sv_ProgrammingLanguages repo f p m)),
       sv_ManagementRoles = (\<lambda>f p m. lim (sv_ManagementRoles repo f p m)),
       sv_ListVacancies = (\<lambda>f. lim (sv_ListVacancies repo f)),
       sv_Currencies = lim (sv_Currencies repo)\<rparr>)"

section \<open>Handlers\<close>

record read_request =
  rr_values :: url_values
  rr_path :: "string \<Rightarrow> string"
  rr_request_id :: string
  rr_ctx :: "time option"

definition validationError :: "read_request \<Rightarrow> fieldError \<Rightarrow> 'r response" where
  "validationError r e = writeAPIError 400 ''VALIDATION_ERROR'' ''Invalid request parameters''
     [(''field'', fe_field e), (''reason'', fe_reason e)] (rr_request_id r)"

definition dependencyError :: "read_request \<Rightarrow> 'r response" where
  "dependencyError r = writeAPIError 502 ''DEPENDENCY_UNAVAILABLE'' ''Data service is temporarily unavailable'' [] (rr_request_id r)"

definition respond :: "read_request \<Rightarrow> read_error + 'r \<Rightarrow> 'r response" where
  "respond r result = (case result of
     Inr v \<Rightarrow> writeJSON 200 v
   | Inl ErrNotFound \<Rightarrow> writeAPIError 404 ''NOT_FOUND'' ''Resource not found'' [] (rr_request_id r)
   | Inl (ErrOther _) \<Rightarrow> dependencyError r)"

text \<open>
  Every handler parses, checks that a service is configured and calls one operation of it.
\<close>

definition handle :: "read_request \<Rightarrow> ('w, 'r) ReadService option \<Rightarrow> fieldError + (('w, 'r) ReadService \<Rightarrow> ('w, 'r) op) \<Rightarrow> 'w \<Rightarrow> 'w \<times> 'r response" where
  "handle r service parsed w =
     (case parsed of
        Inl e \<Rightarrow> (w, validationError r e)
      | Inr call \<Rightarrow>
          (case service of
             None \<Rightarrow> (w, dependencyError r)
           | Some sv \<Rightarrow> (case call sv (rr_ctx r) w of (w, result) \<Rightarrow> (w, respond r result))))"

definition read_dashboard :: "read_env \<Rightarrow> ('w, 'r) ReadService option \<Rightarrow> read_request \<Rightarrow> 'w \<Rightarrow> 'w \<times> 'r response" where
  "read_dashboard env service r =
     handle r service (then_parse (parseAnalyticsFilter env (rr_values r) True False) (\<lambda>f. Inr (\<lambda>sv. sv_Dashboard sv f)))"

definition listRoles :: "read_env \<Rightarrow> ('w, 'r) ReadService option \<Rightarrow> read_request \<Rightarrow> 'w \<Rightarrow> 'w \<times> 'r response" where
  "listRoles env service r =
     handle r service
       (then_parse (parseAnalyticsFilter env (rr_values r) False True) (\<lambda>f.
        then_parse (parsePage (rr_values r)) (\<lambda>page.
          let sortBy = queryDefault (rr_values r) ''sort'' ''count'' in
          if sortBy \<noteq> ''count'' \<and> sortBy \<noteq> ''median_salary'' then field_error ''sort'' ''must be count or median_salary''
          else Inr (\<lambda>sv. sv_ListRoles sv f page sortBy))))"

definition getRole :: "read_env \<Rightarrow> ('w, 'r) ReadService option \<Rightarrow> read_request \<Rightarrow> 'w \<Rightarrow> 'w \<times> 'r response" where
  "getRole env service r =
     handle r service
       (then_parse (validateUUID env ''role_id'' (rr_path r ''role_id'')) (\<lambda>_.
        then_parse (parseAnalyticsFilter env (rr_values r) False False) (\<lambda>f.
          Inr (\<lambda>sv. sv_GetRole sv (rr_path r ''role_id'') f))))"

definition listRegions :: "read_env \<Rightarrow> ('w, 'r) ReadService option \<Rightarrow> read_request \<Rightarrow> 'w \<Rightarrow> 'w \<times> 'r response" where
  "listRegions env service r =
     handle r service
       (then_parse (parseAnalyticsFilter env (rr_values r) True False) (\<lambda>f.
        then_parse (parsePage (rr_values r)) (\<lambda>page. Inr (\<lambda>sv. sv_ListRegions sv f page))))"

definition getRegion :: "read_env \<Rightarrow> ('w, 'r) ReadService option \<Rightarrow> read_request \<Rightarrow> 'w \<Rightarrow> 'w \<times> 'r response" where
  "getRegion env service r =
     handle r service
       (then_parse (validateUUID env ''region_id'' (rr_path r ''region_id'')) (\<lambda>_.
        then_parse (parseAnalyticsFilter env (rr_values r) False False) (\<lambda>f.
          Inr (\<lambda>sv. sv_GetRegion sv (rr_path r ''region_id'') f))))"

definition demandTrends :: "read_env \<Rightarrow> ('w, 'r) ReadService option \<Rightarrow> read_request \<Rightarrow> 'w \<Rightarrow> 'w \<times> 'r response" where
  "demandTrends env service r =
     handle r service
       (then_parse (parseDemandFilter env (rr_values r)) (\<lambda>f.
          let grain = queryDefault (rr_values r) ''grain'' ''week'' in
          if grain \<noteq> ''day'' \<and> grain \<noteq> ''week'' then field_error ''grain'' ''must be day or week''
          else Inr (\<lambda>sv. sv_DemandTrends sv f grain)))"

definition trends :: "read_env \<Rightarrow> ('w, 'r) ReadService option \<Rightarrow> read_request \<Rightarrow> bool \<Rightarrow> 'w \<Rightarrow> 'w \<times> 'r response" where
  "trends env service r salary =
     handle r service
       (then_parse (parseAnalyticsFilter env (rr_values r) True False) (\<lambda>f.
          let grain = queryDefault (rr_values r) ''grain'' ''week'' in
          if grain \<noteq> ''day'' \<and> grain \<noteq> ''week'' \<and> grain \<noteq> ''month'' then field_error ''grain'' ''must be day, week or month''
          else if salary then Inr (\<lambda>sv. sv_SalaryTrends sv f grain)
          else Inr (\<lambda>sv. sv_DemandTrends sv f grain)))"

definition salaryTrends :: "read_env \<Rightarrow> ('w, 'r) ReadService option \<Rightarrow> read_request \<Rightarrow> 'w \<Rightarrow> 'w \<times> 'r response" where
  "salaryTrends env service r = trends env service r True"

definition trendsCoverage :: "('w, 'r) ReadService option \<Rightarrow> read_request \<Rightarrow> 'w \<Rightarrow> 'w \<times> 'r response" where
  "trendsCoverage service r = handle r service (Inr sv_TrendsCoverage)"

definition topSkills :: "read_env \<Rightarrow> ('w, 'r) ReadService option \<Rightarrow> read_request \<Rightarrow> 'w \<Rightarrow> 'w \<times> 'r response" where
  "topSkills env service r =
     handle r service
       (then_parse (parseAnalyticsFilter env (rr_values r) True False) (\<lambda>f.
        then_parse (parseTopSkillsPage (rr_values r)) (\<lambda>page. Inr (\<lambda>sv. sv_TopSkills sv f page))))"

definition ranking :: "read_env \<Rightarrow> ('w, 'r) ReadService option \<Rightarrow> read_request \<Rightarrow> bool \<Rightarrow> 'w \<Rightarrow> 'w \<times> 'r response" where
  "ranking env service r languages =
     handle r service
       (then_parse (parseAnalyticsFilter env (rr_values r) languages True) (\<lambda>f.
        then_parse (parsePage (rr_values r)) (\<lambda>page.
          let metric = queryDefault (rr_values r) ''metric'' ''count'' in
          if metric \<noteq> ''count'' \<and> metric \<noteq> ''salary'' then field_error ''metric'' ''must be count or salary''
          else if languages then Inr (\<lambda>sv. sv_ProgrammingLanguages sv f page metric)
          else Inr (\<lambda>sv. sv_ManagementRoles sv f page metric))))"

definition programmingLanguages :: "read_env \<Rightarrow> ('w, 'r) ReadService option \<Rightarrow> read_request \<Rightarrow> 'w \<Rightarrow> 'w \<times> 'r response" where
  "programmingLanguages env service r = ranking env service r True"

definition managementRoles :: "read_env \<Rightarrow> ('w, 'r) ReadService option \<Rightarrow> read_request \<Rightarrow> 'w \<Rightarrow> 'w \<times> 'r response" where
  "managementRoles env service r = ranking env service r False"

text \<open>The filter of the vacancy list, in the order of the checks; those on two bounds apply when both are given.\<close>

definition exceeds :: "float64 option \<Rightarrow> float64 option \<Rightarrow> bool" where
  "exceeds low high = (case (low, high) of (Some a, Some b) \<Rightarrow> a > b | _ \<Rightarrow> False)"

definition not_before :: "time option \<Rightarrow> time option \<Rightarrow> bool" where
  "not_before from to = (case (from, to) of (Some a, Some b) \<Rightarrow> \<not> (a < b) | _ \<Rightarrow> False)"

definition too_long :: "time option \<Rightarrow> time option \<Rightarrow> bool" where
  "too_long from to = (case (from, to) of (Some a, Some b) \<Rightarrow> Sub b a > 366 * 24 * Hour | _ \<Rightarrow> False)"

definition parseVacancyFilter :: "read_env \<Rightarrow> url_values \<Rightarrow> fieldError + VacancyFilter" where
  "parseVacancyFilter env values =
     then_parse (parsePage values) (\<lambda>page.
     then_parse (parseUUIDList env values ''role_id'' 20) (\<lambda>roleIDs.
     then_parse (parseUUIDList env values ''region_id'' 20) (\<lambda>regionIDs.
     then_parse (parseUUIDList env values ''skill_id'' 20) (\<lambda>skillIDs.
     then_parse (optional_source values) (\<lambda>source.
     then_parse (parseBool values ''only_active'' True) (\<lambda>onlyActive.
     then_parse (parseOptionalFloat env values ''salary_min'' 0 2000000) (\<lambda>salaryMin.
     then_parse (parseOptionalFloat env values ''salary_max'' 0 2000000) (\<lambda>salaryMax.
       if exceeds salaryMin salaryMax
       then field_error ''salary_min'' ''must not exceed salary_max''
       else
     then_parse (parseOptionalPublishedDate env values ''published_from'' False) (\<lambda>publishedFrom.
     then_parse (parseOptionalPublishedDate env values ''published_to'' True) (\<lambda>publishedTo.
       if not_before publishedFrom publishedTo
       then field_error ''published_from'' ''must be before published_to''
       else if too_long publishedFrom publishedTo
       then field_error ''published_to'' ''date range must not exceed 366 days''
       else
         let q = TrimSpace (Get values ''q'') in
         if length (runes q) > 200 then field_error ''q'' ''must be at most 200 characters''
         else then_parse (parseCurrency values) (\<lambda>currency.
           Inr \<lparr>vf_Query = q, vf_RoleIDs = roleIDs, vf_RegionIDs = regionIDs, vf_SkillIDs = skillIDs, vf_Source = source,
                vf_OnlyActive = onlyActive, vf_SalaryMin = salaryMin, vf_SalaryMax = salaryMax,
                vf_PublishedFrom = publishedFrom, vf_PublishedTo = publishedTo, vf_Page = page, vf_Currency = currency\<rparr>)))))))))))"

definition listVacancies :: "read_env \<Rightarrow> ('w, 'r) ReadService option \<Rightarrow> read_request \<Rightarrow> 'w \<Rightarrow> 'w \<times> 'r response" where
  "listVacancies env service r =
     handle r service (then_parse (parseVacancyFilter env (rr_values r)) (\<lambda>f. Inr (\<lambda>sv. sv_ListVacancies sv f)))"

definition currencies :: "('w, 'r) ReadService option \<Rightarrow> read_request \<Rightarrow> 'w \<Rightarrow> 'w \<times> 'r response" where
  "currencies service r = handle r service (Inr sv_Currencies)"

section \<open>Lemmas: what the parsers let through\<close>

lemma then_parse_Inr: "then_parse r k = Inr y \<longleftrightarrow> (\<exists>x. r = Inr x \<and> k x = Inr y)"
  by (cases r) (simp_all add: then_parse_def)

lemma field_error_not [simp]: "field_error f m \<noteq> Inr x" "field_error f m = Inl e \<longleftrightarrow> e = \<lparr>fe_field = f, fe_reason = m\<rparr>"
  by (auto simp: field_error_def)

definition page_ok :: "Page \<Rightarrow> bool" where
  "page_ok p \<longleftrightarrow> 1 \<le> pg_Number p \<and> 1 \<le> pg_Size p \<and> pg_Size p \<le> 100
     \<and> int64_range (pg_Number p * pg_Size p) \<and> int64_range ((pg_Number p - 1) * pg_Size p)"

definition currency_ok :: "string \<Rightarrow> bool" where
  "currency_ok c \<longleftrightarrow> c \<in> {''RUB'', ''USD'', ''EUR'', ''CNY'', ''KZT'', ''AMD''}"

lemma parseInt_ok: "parseInt values field fallback minimum maximum = Inr n \<Longrightarrow>
    n = fallback \<or> minimum \<le> n \<and> (0 < maximum \<longrightarrow> n \<le> maximum)"
  by (auto simp: parseInt_def Let_def split: if_splits option.splits)

lemma page_fits:
  assumes "1 \<le> n" "1 \<le> m" "m \<le> (100 :: int)" "n \<le> quot max_int m"
  shows "page_ok \<lparr>pg_Number = n, pg_Size = m\<rparr>"
proof -
  have "n \<le> max_int div m" using assms(2,4) by (simp add: max_int_def)
  then have "n * m \<le> max_int div m * m" using assms(2) by (intro mult_right_mono) simp_all
  also have "\<dots> \<le> max_int" using assms(2) by (metis div_mult_mod_eq le_add_same_cancel1 pos_mod_sign zero_less_one order_less_le_trans)
  finally have up: "n * m \<le> max_int" .
  have "0 \<le> (n - 1) * m" "(n - 1) * m \<le> n * m" using assms(1,2) by (simp_all add: left_diff_distrib)
  moreover have "0 \<le> n * m" using assms(1,2) by simp
  ultimately have "int64_range (n * m)" "int64_range ((n - 1) * m)" using up by (simp_all add: int64_range_def min_int_def)
  with assms(1-3) show ?thesis by (simp add: page_ok_def)
qed

lemma parsePage_ok: "parsePage values = Inr p \<Longrightarrow> page_ok p"
  by (auto simp: parsePage_def then_parse_Inr split: if_splits dest!: parseInt_ok intro: page_fits)

lemma parseTopSkillsPage_ok:
  assumes "parseTopSkillsPage values = Inr p"
  shows "page_ok p"
proof (cases "TrimSpace (Get values ''limit'') = ''''")
  case True
  with assms show ?thesis by (simp add: parseTopSkillsPage_def parsePage_ok)
next
  case False
  with assms show ?thesis
    by (auto simp: parseTopSkillsPage_def then_parse_Inr page_ok_def int64_range_def min_int_def max_int_def split: if_splits dest!: parseInt_ok)
qed

lemma parseCurrency_ok: "parseCurrency values = Inr c \<Longrightarrow> currency_ok c"
  by (auto simp: parseCurrency_def currency_ok_def Let_def List.member_iff split: if_splits)

lemma optional_id_ok: "optional_id env values field = Inr v \<Longrightarrow> v = '''' \<or> re_UUID env v"
  by (auto simp: optional_id_def Let_def then_parse_Inr validateUUID_def split: if_splits)

lemma optional_source_ok: "optional_source values = Inr v \<Longrightarrow> v \<in> set supported_sources"
  by (auto simp: optional_source_def Let_def then_parse_Inr validateSource_def List.member_iff split: if_splits)

lemma parsePeriod_ok: "parsePeriod env values = Inr p \<Longrightarrow> pd_From p \<le> pd_To p"
  by (auto simp: parsePeriod_def then_parse_Inr split: if_splits)

lemma uuid_loop_ok:
  "uuid_loop env field maximum parts result = Inr ids \<Longrightarrow> length result \<le> maximum \<Longrightarrow> distinct result \<Longrightarrow> list_all (re_UUID env) result
    \<Longrightarrow> length ids \<le> maximum \<and> distinct ids \<and> list_all (re_UUID env) ids"
proof (induction env field maximum parts result rule: uuid_loop.induct)
  case (2 env field maximum part parts result)
  then show ?case by (auto simp: Let_def List.member_iff split: if_splits)
qed simp

lemma parseUUIDList_ok: "parseUUIDList env values field maximum = Inr ids \<Longrightarrow>
    length ids \<le> maximum \<and> distinct ids \<and> list_all (re_UUID env) ids"
  unfolding parseUUIDList_def by (erule uuid_loop_ok) simp_all

definition salary_ok :: "float64 option \<Rightarrow> bool" where
  "salary_ok s \<longleftrightarrow> (case s of None \<Rightarrow> True | Some x \<Rightarrow> 0 \<le> x \<and> x \<le> 2000000)"

lemma parseOptionalFloat_ok: "parseOptionalFloat env values field 0 2000000 = Inr s \<Longrightarrow> salary_ok s"
  by (auto simp: parseOptionalFloat_def salary_ok_def Let_def split: if_splits option.splits parsed_float.splits)

text \<open>The filters that reach the service.\<close>

definition analytics_filter_ok :: "read_env \<Rightarrow> AnalyticsFilter \<Rightarrow> bool" where
  "analytics_filter_ok env f \<longleftrightarrow> pd_From (af_Period f) \<le> pd_To (af_Period f) \<and> (af_RoleID f = '''' \<or> re_UUID env (af_RoleID f))
     \<and> af_RoleGroup f \<in> set role_group_names \<and> (af_RegionID f = '''' \<or> re_UUID env (af_RegionID f))
     \<and> af_Source f \<in> set supported_sources \<and> currency_ok (af_Currency f)"

definition vacancy_filter_ok :: "read_env \<Rightarrow> VacancyFilter \<Rightarrow> bool" where
  "vacancy_filter_ok env f \<longleftrightarrow> page_ok (vf_Page f)
     \<and> list_all (\<lambda>ids. length ids \<le> 20 \<and> distinct ids \<and> list_all (re_UUID env) ids) [vf_RoleIDs f, vf_RegionIDs f, vf_SkillIDs f]
     \<and> vf_Source f \<in> set supported_sources \<and> salary_ok (vf_SalaryMin f) \<and> salary_ok (vf_SalaryMax f)
     \<and> (case (vf_SalaryMin f, vf_SalaryMax f) of (Some a, Some b) \<Rightarrow> a \<le> b | _ \<Rightarrow> True)
     \<and> (case (vf_PublishedFrom f, vf_PublishedTo f) of (Some a, Some b) \<Rightarrow> a < b \<and> Sub b a \<le> 366 * 24 * Hour | _ \<Rightarrow> True)
     \<and> length (runes (vf_Query f)) \<le> 200 \<and> currency_ok (vf_Currency f)"

lemma parseAnalyticsFilter_ok: "parseAnalyticsFilter env values allowRole allowSource = Inr f \<Longrightarrow> analytics_filter_ok env f"
  by (auto simp: parseAnalyticsFilter_def then_parse_Inr analytics_filter_ok_def role_group_names_def supported_sources_def
      split: if_splits dest: parsePeriod_ok parseCurrency_ok optional_id_ok optional_source_ok [unfolded supported_sources_def])

lemma parseDemandFilter_ok: "parseDemandFilter env values = Inr f \<Longrightarrow> analytics_filter_ok env f"
  by (auto simp: parseDemandFilter_def then_parse_Inr analytics_filter_ok_def Let_def List.member_iff
      split: if_splits dest: parsePeriod_ok parseCurrency_ok optional_id_ok optional_source_ok)

lemma parseVacancyFilter_ok:
  assumes "parseVacancyFilter env values = Inr f"
  shows "vacancy_filter_ok env f"
proof -
  have steps: "parsePage values = Inr (vf_Page f)" "parseUUIDList env values ''role_id'' 20 = Inr (vf_RoleIDs f)"
    "parseUUIDList env values ''region_id'' 20 = Inr (vf_RegionIDs f)" "parseUUIDList env values ''skill_id'' 20 = Inr (vf_SkillIDs f)"
    "optional_source values = Inr (vf_Source f)" "parseOptionalFloat env values ''salary_min'' 0 2000000 = Inr (vf_SalaryMin f)"
    "parseOptionalFloat env values ''salary_max'' 0 2000000 = Inr (vf_SalaryMax f)"
    "\<not> exceeds (vf_SalaryMin f) (vf_SalaryMax f)" "\<not> not_before (vf_PublishedFrom f) (vf_PublishedTo f)"
    "\<not> too_long (vf_PublishedFrom f) (vf_PublishedTo f)"
    "\<not> length (runes (vf_Query f)) > 200" "parseCurrency values = Inr (vf_Currency f)"
    using assms unfolding parseVacancyFilter_def then_parse_Inr
    by (auto simp: then_parse_Inr Let_def split: if_split_asm)
  show ?thesis
    unfolding vacancy_filter_ok_def
    using steps(8-11) parsePage_ok [OF steps(1)] parseUUIDList_ok [OF steps(2)] parseUUIDList_ok [OF steps(3)] parseUUIDList_ok [OF steps(4)]
      optional_source_ok [OF steps(5)] parseOptionalFloat_ok [OF steps(6)] parseOptionalFloat_ok [OF steps(7)] parseCurrency_ok [OF steps(12)]
    by (auto simp: exceeds_def not_before_def too_long_def split: option.splits)
qed

section \<open>Properties\<close>

text \<open>
  No request reaches the vacancy query unchecked: a request that does not parse is answered with 400
  and touches nothing; one that does is handed on with a page whose offset fits the machine's
  integers, at most twenty distinct UUIDs per list, ordered salary and date bounds, a range of at most 366 days, a
  text of at most 200 characters and a known source and currency; and without a database the answer
  is 502 without a call.
\<close>

theorem vacancy_query_guarded:
  "case parseVacancyFilter env (rr_values r) of
     Inl e \<Rightarrow> listVacancies env service r w = (w, validationError r e)
   | Inr f \<Rightarrow> vacancy_filter_ok env f
       \<and> listVacancies env service r w = (case service of
            None \<Rightarrow> (w, dependencyError r)
          | Some sv \<Rightarrow> (case sv_ListVacancies sv f (rr_ctx r) w of (w', result) \<Rightarrow> (w', respond r result)))"
  using parseVacancyFilter_ok [of env "rr_values r"]
  by (auto simp: listVacancies_def handle_def then_parse_def split: sum.split)

text \<open>
  The analytics operations of the service, and a service that records that one of them was called with a
  filter or a page that is not well-formed.
\<close>

definition guarded_service :: "read_env \<Rightarrow> (bool, 'r) ReadService \<Rightarrow> (bool, 'r) ReadService" where
  "guarded_service env sv =
     (let watch = (\<lambda>ok (query :: (bool, 'r) op) ctx w. query ctx (w \<and> ok)); f_ok = analytics_filter_ok env in
      sv\<lparr>sv_Dashboard := (\<lambda>f. watch (f_ok f) (sv_Dashboard sv f)),
         sv_ListRoles := (\<lambda>f p s. watch (f_ok f \<and> page_ok p \<and> s \<in> {''count'', ''median_salary''}) (sv_ListRoles sv f p s)),
         sv_GetRole := (\<lambda>i f. watch (re_UUID env i \<and> f_ok f) (sv_GetRole sv i f)),
         sv_ListRegions := (\<lambda>f p. watch (f_ok f \<and> page_ok p) (sv_ListRegions sv f p)),
         sv_GetRegion := (\<lambda>i f. watch (re_UUID env i \<and> f_ok f) (sv_GetRegion sv i f)),
         sv_SalaryTrends := (\<lambda>f g. watch (f_ok f \<and> g \<in> {''day'', ''week'', ''month''}) (sv_SalaryTrends sv f g)),
         sv_DemandTrends := (\<lambda>f g. watch (f_ok f \<and> g \<in> {''day'', ''week''}) (sv_DemandTrends sv f g)),
         sv_TopSkills := (\<lambda>f p. watch (f_ok f \<and> page_ok p) (sv_TopSkills sv f p)),
         sv_ProgrammingLanguages := (\<lambda>f p m. watch (f_ok f \<and> page_ok p \<and> m \<in> {''count'', ''salary''}) (sv_ProgrammingLanguages sv f p m)),
         sv_ManagementRoles := (\<lambda>f p m. watch (f_ok f \<and> page_ok p \<and> m \<in> {''count'', ''salary''}) (sv_ManagementRoles sv f p m))\<rparr>)"

lemma handle_same:
  assumes "\<And>c. parsed = Inr c \<Longrightarrow> c sv1 = c sv2"
  shows "handle r (Some sv1) parsed = handle r (Some sv2) parsed"
  using assms by (intro ext) (auto simp: handle_def split: sum.split)

text \<open>
  The same for the other handlers of the read API: a service that checks each call for a well-formed filter
  (ordered dates, UUIDs, known role group, source and currency), a page whose offset fits and a known sort, grain or metric
  cannot be told from one that does not check.
\<close>

theorem analytics_queries_guarded:
  "read_dashboard env (Some (guarded_service env sv)) r = read_dashboard env (Some sv) r
   \<and> listRoles env (Some (guarded_service env sv)) r = listRoles env (Some sv) r
   \<and> getRole env (Some (guarded_service env sv)) r = getRole env (Some sv) r
   \<and> listRegions env (Some (guarded_service env sv)) r = listRegions env (Some sv) r
   \<and> getRegion env (Some (guarded_service env sv)) r = getRegion env (Some sv) r
   \<and> salaryTrends env (Some (guarded_service env sv)) r = salaryTrends env (Some sv) r
   \<and> demandTrends env (Some (guarded_service env sv)) r = demandTrends env (Some sv) r
   \<and> topSkills env (Some (guarded_service env sv)) r = topSkills env (Some sv) r
   \<and> programmingLanguages env (Some (guarded_service env sv)) r = programmingLanguages env (Some sv) r
   \<and> managementRoles env (Some (guarded_service env sv)) r = managementRoles env (Some sv) r"
proof -
  note defs = read_dashboard_def listRoles_def getRole_def listRegions_def getRegion_def salaryTrends_def trends_def demandTrends_def
    topSkills_def programmingLanguages_def managementRoles_def ranking_def
  note oks = parseAnalyticsFilter_ok parsePage_ok parseDemandFilter_ok parseTopSkillsPage_ok
  show ?thesis unfolding defs
    by (intro conjI handle_same; auto simp: then_parse_Inr guarded_service_def Let_def validateUUID_def oks split: if_splits)
qed

end
