(* ===== verification/Bff_Assist.thy ===== *)
theory Bff_Assist
  imports Http_Layer Assist_Worker Assist_Delivery
begin

text \<open>
  The assistant's handlers of the BFF, \<^verbatim>\<open>apps/bff/internal/httpserver/assistant.go\<close>. The repository is a
  record of operations over a world \<open>'w\<close>, absent when it is nil; the three interfaces the code asks for
  with a type assertion are optional fields of it. A body is what the JSON decoder makes of it for each
  of the structures the handlers decode, \<open>None\<close> when decoding fails. A handler returns the response, or
  \<open>None\<close> when it calls a method of a nil interface, which is a panic in Go.

  Requests run one after the other; the mutex of the handler is not part of the model.
\<close>

section \<open>Data\<close>

record TelegramStatus =
  tg_Configured :: bool
  tg_Linked :: bool
  tg_OptedIn :: bool
  tg_Pending :: int
  tg_Sent :: int
  tg_Failed :: int
  tg_DeadLettered :: int
  tg_LastError :: string

record MatchRecord =
  mr_VacancyID :: string
  mr_Title :: string
  mr_SourceURL :: "string option"
  mr_Decision :: Decision
  mr_Score :: float64
  mr_Method :: string
  mr_Stage :: string
  mr_Confidence :: "string option"
  mr_Reasons :: "string list"
  mr_Unknowns :: "string list"
  mr_Conflicts :: "string list"
  mr_Evidence :: "string list"

record assistantPreferencesPayload =
  pl_ID :: string
  pl_Version :: int
  pl_Note :: string
  pl_HardCriteria :: criteria
  pl_SoftCriteria :: criteria
  pl_Weights :: "(string \<times> float64) list"
  pl_ActiveFrom :: "time option"
  pl_ArchivedAt :: "time option"
  pl_LegacyRoleUpgraded :: bool
  pl_LegacySpecializationSuggestion :: string

text \<open>Errors of the repository: those that wrap \<^verbatim>\<open>ErrInvalidPreferences\<close>, and the others.\<close>

datatype repo_error = InvalidPreferences string | RepoFailure string

record 'w telegramLinkRepository =
  lr_IssueTelegramLink :: "'w \<Rightarrow> string \<Rightarrow> string \<Rightarrow> time \<Rightarrow> 'w \<times> repo_error option"
  lr_RevokeTelegram :: "'w \<Rightarrow> string \<Rightarrow> 'w \<times> repo_error option"

text \<open>\<open>'st\<close> is the report of an analysis, which the handlers only pass on.\<close>

record ('w, 'st) AssistantRepository =
  ar_EnsureUser :: "'w \<Rightarrow> string \<Rightarrow> 'w \<times> (repo_error + string)"
  ar_CurrentPreferences :: "'w \<Rightarrow> string \<Rightarrow> 'w \<times> (repo_error + PreferenceRecord)"
  ar_ListPreferences :: "'w \<Rightarrow> string \<Rightarrow> 'w \<times> (repo_error + PreferenceRecord list)"
  ar_SavePreferences :: "'w \<Rightarrow> string \<Rightarrow> string \<Rightarrow> PreferenceRecord \<Rightarrow> 'w \<times> (repo_error + PreferenceRecord)"
  ar_ArchivePreference :: "'w \<Rightarrow> string \<Rightarrow> string \<Rightarrow> 'w \<times> repo_error option"
  ar_AnalysisStatus :: "'w \<Rightarrow> string \<Rightarrow> bool \<Rightarrow> 'w \<times> (repo_error + 'st)"
  ar_QueueAnalysis :: "'w \<Rightarrow> string \<Rightarrow> string \<Rightarrow> bool \<Rightarrow> 'w \<times> (repo_error + string)"
  ar_SupersedeAssistantRun :: "'w \<Rightarrow> string \<Rightarrow> string \<Rightarrow> 'w \<times> repo_error option"
  ar_ListMatches :: "'w \<Rightarrow> string \<Rightarrow> int \<Rightarrow> 'w \<times> (repo_error + MatchRecord list)"
  ar_TelegramStatus :: "'w \<Rightarrow> string \<Rightarrow> bool \<Rightarrow> 'w \<times> (repo_error + TelegramStatus)"
  ar_AutomationSettings :: "'w \<Rightarrow> string \<Rightarrow> 'w \<times> (repo_error + AutomationSettings)"
  ar_SaveAutomationSettings :: "'w \<Rightarrow> string \<Rightarrow> AutomationSettings \<Rightarrow> 'w \<times> (repo_error + AutomationSettings)"
  ar_SetTelegramOptIn :: "'w \<Rightarrow> string \<Rightarrow> bool \<Rightarrow> 'w \<times> repo_error option"
  ar_link :: "'w telegramLinkRepository option"
  ar_VerifiedTelegramChat :: "('w \<Rightarrow> string \<Rightarrow> 'w \<times> (repo_error + int)) option"
  ar_AnalysisSnapshotTotal :: "('w \<Rightarrow> 'w \<times> (repo_error + int)) option"

type_synonym 'w telegram_sender = "'w \<Rightarrow> int \<Rightarrow> string \<Rightarrow> 'w \<times> (telegram_error + int)"

record ('w, 'st) AssistantOptions =
  ao_Enabled :: bool
  ao_DevAuthEnabled :: bool
  ao_DevSubject :: string
  ao_Repository :: "('w, 'st) AssistantRepository option"
  ao_TelegramConfigured :: bool
  ao_AIConfigured :: bool
  ao_TelegramBotUsername :: string
  ao_TelegramSender :: "'w telegram_sender option"

text \<open>
  A request: its method, the headers the handlers read, the request id the middleware gave it, the body
  under each decoder, the token the random source yields and two readings of the clock.
\<close>

record assist_request =
  aq_Method :: string
  aq_DevUser :: string
  aq_IdempotencyKey :: string
  aq_RequestID :: string
  aq_id_body :: "string option"
  aq_run_body :: "string option"
  aq_preferences_body :: "assistantPreferencesPayload option"
  aq_opt_in_body :: "bool option"
  aq_confirm_body :: "bool option"
  aq_automation_body :: "(bool option \<times> bool option) option"
  aq_random :: "string option"
  aq_now :: time
  aq_later :: time

record 'w assistantHandler =
  ah_currentPreferences :: assistantPreferencesPayload
  ah_linker :: Linker
  ah_world :: 'w

text \<open>
  The values the handlers encode. \<open>JDisabled\<close> is the status with only its state, its AI status and its
  method version set.
\<close>

datatype 'st assist_json = JPreferences assistantPreferencesPayload | JPreferenceList "assistantPreferencesPayload list"
  | JDisabled string string string | JStatus 'st | JCount string int | JTexts "(string \<times> string) list"
  | JMatches "MatchRecord list" | JLink string time | JFlags "(string \<times> bool) list" | JTelegram TelegramStatus
  | JAutomation AutomationSettings

type_synonym ('w, 'st) served = "'w assistantHandler \<times> 'st assist_json response option"

definition no_payload :: assistantPreferencesPayload where
  "no_payload = \<lparr>pl_ID = '''', pl_Version = 0, pl_Note = '''', pl_HardCriteria = [], pl_SoftCriteria = [], pl_Weights = [],
     pl_ActiveFrom = None, pl_ArchivedAt = None, pl_LegacyRoleUpgraded = False, pl_LegacySpecializationSuggestion = ''''\<rparr>"

definition newAssistantHandler :: "'w \<Rightarrow> 'w assistantHandler" where
  "newAssistantHandler w = \<lparr>ah_currentPreferences = no_payload, ah_linker = NewLinker (10 * Minute), ah_world = w\<rparr>"

definition preferencePayload :: "PreferenceRecord \<Rightarrow> assistantPreferencesPayload" where
  "preferencePayload p = \<lparr>pl_ID = pc_ID p, pl_Version = pc_Version p, pl_Note = pc_Note p,
     pl_HardCriteria = pc_HardCriteria p, pl_SoftCriteria = pc_SoftCriteria p, pl_Weights = pc_Weights p,
     pl_ActiveFrom = Some (pc_ActiveFrom p), pl_ArchivedAt = pc_ArchivedAt p,
     pl_LegacyRoleUpgraded = pc_LegacyRoleUpgraded p,
     pl_LegacySpecializationSuggestion = pc_LegacySpecializationSuggestion p\<rparr>"

text \<open>\<^verbatim>\<open>Error()\<close> of the errors of the role rules; \<open>quote\<close> is the verb \<^verbatim>\<open>%q\<close>.\<close>

definition invalid_preferences :: string where "invalid_preferences = ''invalid assistant preferences: ''"

fun pref_text :: "(string \<Rightarrow> string) \<Rightarrow> pref_error \<Rightarrow> string" where
  "pref_text quote (RoleAliasUnknown v) =
     invalid_preferences @ ''hard_criteria.role '' @ quote v @ '' is unknown; choose approved_roles''"
| "pref_text quote RoleAliasNotString = invalid_preferences @ ''hard_criteria.role must be a recognized string alias''"
| "pref_text quote RolesNotStrings = invalid_preferences @ ''hard_criteria.approved_roles must contain strings''"
| "pref_text quote RolesNotArray = invalid_preferences @ ''hard_criteria.approved_roles must be an array''"
| "pref_text quote (RoleUnsupported i) =
     invalid_preferences @ ''hard_criteria.approved_roles contains unsupported role '' @ quote i"
| "pref_text quote SpecializationUnsupported = invalid_preferences @ ''hard_criteria.specialization is unsupported''"
| "pref_text quote LeadershipNotBool = invalid_preferences @ ''hard_criteria.include_leadership must be boolean''"
| "pref_text quote (HardKeyUnsupported k) =
     invalid_preferences @ ''hard_criteria.'' @ k @ '' is unsupported; use approved_roles''"
| "pref_text quote (WeightUnsupported k) = invalid_preferences @ ''weights.'' @ k @ '' is unsupported''"
| "pref_text quote (SoftKeyUnused k) =
     invalid_preferences @ ''soft_criteria.'' @ k @ '' is not used by deterministic matcher''"
| "pref_text quote NoteTooLong = invalid_preferences @ ''note is too long''"
| "pref_text quote HardNotEncodable = invalid_preferences @ ''invalid hard criteria''"
| "pref_text quote SoftNotEncodable = invalid_preferences @ ''invalid soft criteria''"
| "pref_text quote WeightsNotEncodable = invalid_preferences @ ''invalid weights''"

section \<open>Authentication\<close>

definition subject :: "('w, 'st) AssistantOptions \<Rightarrow> assist_request \<Rightarrow> string" where
  "subject opts r =
     (let s = TrimSpace (aq_DevUser r) in if s = '''' then TrimSpace (ao_DevSubject opts) else s)"

definition authorized :: "('w, 'st) AssistantOptions \<Rightarrow> assist_request \<Rightarrow> bool" where
  "authorized opts r \<longleftrightarrow> ao_DevAuthEnabled opts \<and> subject opts r \<noteq> ''''"

definition user :: "('w, 'st) AssistantOptions \<Rightarrow> assist_request \<Rightarrow> 'w \<Rightarrow> 'w \<times> (repo_error + string)" where
  "user opts r w =
     (if \<not> authorized opts r then (w, Inl (RepoFailure ''unauthorized''))
      else (case ao_Repository opts of
          None \<Rightarrow> (w, Inr (subject opts r))
        | Some repo \<Rightarrow> ar_EnsureUser repo w (subject opts r)))"

definition assist_error :: "assist_request \<Rightarrow> nat \<Rightarrow> string \<Rightarrow> string \<Rightarrow> 'st assist_json response option" where
  "assist_error r status code message = Some (writeAPIError status code message [] (aq_RequestID r))"

definition assist_ok :: "nat \<Rightarrow> 'st assist_json \<Rightarrow> 'st assist_json response option" where
  "assist_ok status v = Some (writeJSON status v)"

text \<open>\<^verbatim>\<open>w.WriteHeader(status)\<close> with no body.\<close>

definition bare :: "nat \<Rightarrow> 'st assist_json response option" where "bare status = Some (status, NoBody)"

definition unauthorized :: "assist_request \<Rightarrow> 'st assist_json response option" where
  "unauthorized r = assist_error r 401 ''UNAUTHORIZED'' ''Authentication is required''"

definition guard :: "('w, 'st) AssistantOptions \<Rightarrow> assist_request \<Rightarrow> 'w assistantHandler
    \<Rightarrow> ('w, 'st) served \<Rightarrow> ('w, 'st) served" where
  "guard opts r h k = (if authorized opts r then k else (h, unauthorized r))"

text \<open>The call of \<^verbatim>\<open>user\<close> and the answer when it fails, which most handlers share.\<close>

definition as_user :: "('w, 'st) AssistantOptions \<Rightarrow> assist_request \<Rightarrow> 'w assistantHandler
    \<Rightarrow> (string \<Rightarrow> 'w assistantHandler \<Rightarrow> ('w, 'st) served) \<Rightarrow> ('w, 'st) served" where
  "as_user opts r h k =
     (case user opts r (ah_world h) of
        (w, Inl _) \<Rightarrow> (h\<lparr>ah_world := w\<rparr>, unauthorized r)
      | (w, Inr userID) \<Rightarrow> k userID (h\<lparr>ah_world := w\<rparr>))"

section \<open>Handlers\<close>

definition preferenceList :: "('w, 'st) AssistantOptions \<Rightarrow> assist_request \<Rightarrow> 'w assistantHandler \<Rightarrow> ('w, 'st) served" where
  "preferenceList opts r h = guard opts r h (as_user opts r h (\<lambda>userID h.
     case ao_Repository opts of
       None \<Rightarrow> (h, assist_ok 200 (JPreferenceList [ah_currentPreferences h]))
     | Some repo \<Rightarrow>
         (case ar_ListPreferences repo (ah_world h) userID of
            (w, Inl _) \<Rightarrow> (h\<lparr>ah_world := w\<rparr>, assist_error r 500 ''INTERNAL_ERROR'' ''Could not read preferences'')
          | (w, Inr items) \<Rightarrow> (h\<lparr>ah_world := w\<rparr>, assist_ok 200 (JPreferenceList (map preferencePayload items))))))"

definition archivePreference :: "('w, 'st) AssistantOptions \<Rightarrow> assist_request \<Rightarrow> 'w assistantHandler \<Rightarrow> ('w, 'st) served" where
  "archivePreference opts r h = guard opts r h
     (if aq_Method r \<noteq> ''POST'' \<and> aq_Method r \<noteq> ''DELETE'' then (h, bare 405)
      else as_user opts r h (\<lambda>userID h.
        case aq_id_body r of
          None \<Rightarrow> (h, assist_error r 400 ''VALIDATION_ERROR'' ''Preference id is required'')
        | Some i \<Rightarrow>
            if TrimSpace i = '''' then (h, assist_error r 400 ''VALIDATION_ERROR'' ''Preference id is required'')
            else (case ao_Repository opts of
                None \<Rightarrow> (h, bare 204)
              | Some repo \<Rightarrow>
                  (case ar_ArchivePreference repo (ah_world h) userID i of
                     (w, Some _) \<Rightarrow> (h\<lparr>ah_world := w\<rparr>, assist_error r 404 ''NOT_FOUND'' ''Preference not found'')
                   | (w, None) \<Rightarrow> (h\<lparr>ah_world := w\<rparr>, bare 204)))))"

definition assist_status :: "('w, 'st) AssistantOptions \<Rightarrow> assist_request \<Rightarrow> 'w assistantHandler \<Rightarrow> ('w, 'st) served" where
  "assist_status opts r h = guard opts r h (as_user opts r h (\<lambda>userID h.
     case ao_Repository opts of
       None \<Rightarrow> (h, assist_ok 200 (JDisabled ''disabled'' ''not_run'' ''assistant-hard-gates-v4''))
     | Some repo \<Rightarrow>
         (case ar_AnalysisStatus repo (ah_world h) userID (ao_AIConfigured opts) of
            (w, Inl _) \<Rightarrow> (h\<lparr>ah_world := w\<rparr>, assist_error r 500 ''INTERNAL_ERROR'' ''Could not read analysis status'')
          | (w, Inr v) \<Rightarrow> (h\<lparr>ah_world := w\<rparr>, assist_ok 200 (JStatus v)))))"

definition analyze_preview :: "('w, 'st) AssistantOptions \<Rightarrow> assist_request \<Rightarrow> 'w assistantHandler \<Rightarrow> ('w, 'st) served" where
  "analyze_preview opts r h =
     (case Option.bind (ao_Repository opts) ar_AnalysisSnapshotTotal of
        None \<Rightarrow> (h, assist_error r 503 ''DEPENDENCY_UNAVAILABLE'' ''Analysis preview is not configured'')
      | Some count_of \<Rightarrow>
          (case count_of (ah_world h) of
             (w, Inl _) \<Rightarrow> (h\<lparr>ah_world := w\<rparr>, assist_error r 500 ''INTERNAL_ERROR'' ''Could not count analysis snapshot'')
           | (w, Inr n) \<Rightarrow> (h\<lparr>ah_world := w\<rparr>, assist_ok 200 (JCount ''snapshot_total'' n))))"

definition analyze :: "('w, 'st) AssistantOptions \<Rightarrow> assist_request \<Rightarrow> 'w assistantHandler \<Rightarrow> ('w, 'st) served" where
  "analyze opts r h = guard opts r h
     (if aq_Method r = ''GET'' then analyze_preview opts r h
      else if aq_Method r \<noteq> ''POST'' then (h, bare 405)
      else as_user opts r h (\<lambda>userID h.
        case ao_Repository opts of
          None \<Rightarrow> (h, assist_error r 503 ''DEPENDENCY_UNAVAILABLE'' ''Analysis store is not configured'')
        | Some repo \<Rightarrow>
            (case ar_QueueAnalysis repo (ah_world h) userID (aq_IdempotencyKey r) (ao_AIConfigured opts) of
               (w, Inl _) \<Rightarrow> (h\<lparr>ah_world := w\<rparr>, assist_error r 409 ''CONFLICT'' (ru ''Analiz uje v3polnqetsq''))
             | (w, Inr runID) \<Rightarrow>
                 (h\<lparr>ah_world := w\<rparr>, assist_ok 202 (JTexts [(''run_id'', runID), (''status'', ''queued'')])))))"

definition supersedeAnalysis :: "('w, 'st) AssistantOptions \<Rightarrow> assist_request \<Rightarrow> 'w assistantHandler \<Rightarrow> ('w, 'st) served" where
  "supersedeAnalysis opts r h = guard opts r h
     (if aq_Method r \<noteq> ''POST'' then (h, bare 405)
      else as_user opts r h (\<lambda>userID h.
        case aq_run_body r of
          None \<Rightarrow> (h, assist_error r 400 ''VALIDATION_ERROR'' ''Run id is required'')
        | Some runID \<Rightarrow>
            if TrimSpace runID = '''' then (h, assist_error r 400 ''VALIDATION_ERROR'' ''Run id is required'')
            else (case ao_Repository opts of
                None \<Rightarrow> (h, assist_error r 503 ''DEPENDENCY_UNAVAILABLE'' ''Analysis store is not configured'')
              | Some repo \<Rightarrow>
                  (case ar_SupersedeAssistantRun repo (ah_world h) userID runID of
                     (w, Some _) \<Rightarrow> (h\<lparr>ah_world := w\<rparr>, assist_error r 409 ''RUN_NOT_SUPERSEDED''
                        (ru ''Zapusk nel8zq ostanovit8: novaq versiq kriteriev ne naydena''))
                   | (w, None) \<Rightarrow> (h\<lparr>ah_world := w\<rparr>,
                        assist_ok 200 (JTexts [(''run_id'', runID), (''state'', ''superseded'')]))))))"

text \<open>The record the payload of a request becomes before its roles are upgraded.\<close>

definition payload_record :: "assistantPreferencesPayload \<Rightarrow> PreferenceRecord" where
  "payload_record v = \<lparr>pc_ID = '''', pc_Version = 0, pc_Note = pl_Note v, pc_HardCriteria = pl_HardCriteria v,
     pc_SoftCriteria = pl_SoftCriteria v, pc_Weights = pl_Weights v, pc_ActiveFrom = 0, pc_ArchivedAt = None,
     pc_LegacyRoleUpgraded = False, pc_LegacySpecializationSuggestion = ''''\<rparr>"

definition save_error :: "assist_request \<Rightarrow> repo_error \<Rightarrow> 'st assist_json response option" where
  "save_error r e =
     (case e of
        InvalidPreferences m \<Rightarrow> assist_error r 400 ''VALIDATION_ERROR'' m
      | RepoFailure _ \<Rightarrow> assist_error r 500 ''INTERNAL_ERROR'' ''Could not save preferences'')"

text \<open>Without a repository the handler keeps one payload for everybody.\<close>

definition keep_payload :: "assistantPreferencesPayload \<Rightarrow> PreferenceRecord \<Rightarrow> assistantPreferencesPayload" where
  "keep_payload v n = v\<lparr>pl_HardCriteria := pc_HardCriteria n, pl_SoftCriteria := pc_SoftCriteria n,
     pl_Weights := pc_Weights n, pl_LegacyRoleUpgraded := pc_LegacyRoleUpgraded n, pl_Version := pl_Version v + 1\<rparr>"

definition write_preferences :: "(string \<Rightarrow> string) \<Rightarrow> ('w, 'st) AssistantOptions \<Rightarrow> assist_request \<Rightarrow> string
    \<Rightarrow> 'w assistantHandler \<Rightarrow> ('w, 'st) served" where
  "write_preferences quote opts r userID h =
     (case aq_preferences_body r of
        None \<Rightarrow> (h, assist_error r 400 ''VALIDATION_ERROR'' ''Invalid JSON'')
      | Some v \<Rightarrow>
          (case NormalizePreferenceRoles (payload_record v) of
             Inl e \<Rightarrow> (h, assist_error r 400 ''VALIDATION_ERROR'' (pref_text quote e))
           | Inr (normalized, _) \<Rightarrow>
               (case ao_Repository opts of
                  Some repo \<Rightarrow>
                    (case ar_SavePreferences repo (ah_world h) userID (aq_IdempotencyKey r) normalized of
                       (w, Inl e) \<Rightarrow> (h\<lparr>ah_world := w\<rparr>, save_error r e)
                     | (w, Inr saved) \<Rightarrow> (h\<lparr>ah_world := w\<rparr>, assist_ok 200 (JPreferences (preferencePayload saved))))
                | None \<Rightarrow> (h\<lparr>ah_currentPreferences := keep_payload v normalized\<rparr>,
                    assist_ok 200 (JPreferences (keep_payload v normalized))))))"

definition preferences :: "(string \<Rightarrow> string) \<Rightarrow> ('w, 'st) AssistantOptions \<Rightarrow> assist_request \<Rightarrow> 'w assistantHandler
    \<Rightarrow> ('w, 'st) served" where
  "preferences quote opts r h = guard opts r h (as_user opts r h (\<lambda>userID h.
     if aq_Method r = ''GET'' then
       (case ao_Repository opts of
          Some repo \<Rightarrow>
            (case ar_CurrentPreferences repo (ah_world h) userID of
               (w, Inl _) \<Rightarrow> (h\<lparr>ah_world := w\<rparr>, assist_error r 500 ''INTERNAL_ERROR'' ''Could not read preferences'')
             | (w, Inr v) \<Rightarrow> (h\<lparr>ah_world := w\<rparr>, assist_ok 200 (JPreferences (preferencePayload v))))
        | None \<Rightarrow> (h, assist_ok 200 (JPreferences (ah_currentPreferences h))))
     else if aq_Method r \<noteq> ''PUT'' \<and> aq_Method r \<noteq> ''PATCH'' \<and> aq_Method r \<noteq> ''POST'' then (h, bare 405)
     else write_preferences quote opts r userID h))"

definition matches :: "('w, 'st) AssistantOptions \<Rightarrow> assist_request \<Rightarrow> 'w assistantHandler \<Rightarrow> ('w, 'st) served" where
  "matches opts r h = guard opts r h (as_user opts r h (\<lambda>userID h.
     case ao_Repository opts of
       None \<Rightarrow> (h, assist_ok 200 (JMatches []))
     | Some repo \<Rightarrow>
         (case ar_ListMatches repo (ah_world h) userID 100 of
            (w, Inl _) \<Rightarrow> (h\<lparr>ah_world := w\<rparr>, assist_error r 500 ''INTERNAL_ERROR'' ''Could not read matches'')
          | (w, Inr ms) \<Rightarrow> (h\<lparr>ah_world := w\<rparr>, assist_ok 200 (JMatches ms)))))"

definition deep_link :: "('w, 'st) AssistantOptions \<Rightarrow> string \<Rightarrow> string" where
  "deep_link opts token =
     ''https://t.me/'' @ (if ao_TelegramBotUsername opts = '''' then ''lma_assistant_bot'' else ao_TelegramBotUsername opts)
       @ ''?start='' @ token"

definition link :: "('w, 'st) AssistantOptions \<Rightarrow> assist_request \<Rightarrow> 'w assistantHandler \<Rightarrow> ('w, 'st) served" where
  "link opts r h = guard opts r h (as_user opts r h (\<lambda>userID h.
     case Issue (aq_random r) (aq_now r) (ah_linker h) of
       (l, None) \<Rightarrow> (h\<lparr>ah_linker := l\<rparr>, assist_error r 500 ''INTERNAL_ERROR'' ''Could not create link'')
     | (l, Some token) \<Rightarrow>
         (let expires = aq_later r + 10 * Minute; h = h\<lparr>ah_linker := l\<rparr> in
          case Option.bind (ao_Repository opts) ar_link of
            None \<Rightarrow> (h, assist_ok 200 (JLink (deep_link opts token) expires))
          | Some repo \<Rightarrow>
              (case lr_IssueTelegramLink repo (ah_world h) userID token expires of
                 (w, Some _) \<Rightarrow> (h\<lparr>ah_world := w\<rparr>, assist_error r 500 ''INTERNAL_ERROR'' ''Could not create link'')
               | (w, None) \<Rightarrow> (h\<lparr>ah_world := w\<rparr>, assist_ok 200 (JLink (deep_link opts token) expires))))))"

definition telegram_revoke :: "('w, 'st) AssistantOptions \<Rightarrow> assist_request \<Rightarrow> 'w assistantHandler \<Rightarrow> ('w, 'st) served" where
  "telegram_revoke opts r h =
     (case user opts r (ah_world h) of
        (w, Inl _) \<Rightarrow> (h\<lparr>ah_world := w\<rparr>, bare 204)
      | (w, Inr userID) \<Rightarrow>
          (case Option.bind (ao_Repository opts) ar_link of
             None \<Rightarrow> (h\<lparr>ah_world := w\<rparr>, bare 204)
           | Some repo \<Rightarrow> (h\<lparr>ah_world := fst (lr_RevokeTelegram repo w userID)\<rparr>, bare 204)))"

definition telegram_opt_in :: "('w, 'st) AssistantOptions \<Rightarrow> assist_request \<Rightarrow> string \<Rightarrow> 'w assistantHandler
    \<Rightarrow> ('w, 'st) served" where
  "telegram_opt_in opts r userID h =
     (case aq_opt_in_body r of
        None \<Rightarrow> (h, assist_error r 400 ''VALIDATION_ERROR'' ''Invalid JSON'')
      | Some opted \<Rightarrow>
          (case ao_Repository opts of
             None \<Rightarrow> (h, assist_ok 200 (JFlags [(''opted_in'', opted)]))
           | Some repo \<Rightarrow>
               (case ar_SetTelegramOptIn repo (ah_world h) userID opted of
                  (w, Some _) \<Rightarrow> (h\<lparr>ah_world := w\<rparr>,
                     assist_error r 409 ''TELEGRAM_NOT_VERIFIED'' ''Telegram must be linked and verified first'')
                | (w, None) \<Rightarrow> (h\<lparr>ah_world := w\<rparr>, assist_ok 200 (JFlags [(''opted_in'', opted)])))))"

definition telegram :: "('w, 'st) AssistantOptions \<Rightarrow> assist_request \<Rightarrow> 'w assistantHandler \<Rightarrow> ('w, 'st) served" where
  "telegram opts r h = guard opts r h
     (if aq_Method r = ''DELETE'' then telegram_revoke opts r h
      else as_user opts r h (\<lambda>userID h.
        if aq_Method r = ''PATCH'' then telegram_opt_in opts r userID h
        else if aq_Method r \<noteq> ''GET'' then (h, bare 405)
        else (case ao_Repository opts of
            None \<Rightarrow> (h, assist_ok 200 (JFlags [(''configured'', ao_TelegramConfigured opts), (''linked'', False), (''opted_in'', False)]))
          | Some repo \<Rightarrow>
              (case ar_TelegramStatus repo (ah_world h) userID (ao_TelegramConfigured opts) of
                 (w, Inl _) \<Rightarrow> (h\<lparr>ah_world := w\<rparr>, assist_error r 500 ''INTERNAL_ERROR'' ''Could not read Telegram status'')
               | (w, Inr st) \<Rightarrow> (h\<lparr>ah_world := w\<rparr>, assist_ok 200 (JTelegram st))))))"

definition test_message :: string where
  "test_message = ''<b>'' @ ru ''Testovoe uvedomlenie '' @ ''LMA</b>'' @ [CHR 0x0A]
     @ ru ''Svqz8 podtverjdena; avtomati4eskie uvedomleniq ne vkl04a0tsq.''"

definition not_verified :: "assist_request \<Rightarrow> 'st assist_json response option" where
  "not_verified r = assist_error r 409 ''TELEGRAM_NOT_VERIFIED''
     (ru ''Sna4ala svqjite '' @ ''Telegram'' @ ru '' i vkl04ite uvedomleniq'')"

text \<open>The part of \<^verbatim>\<open>telegramTest\<close> after the status of the link was read.\<close>

definition send_test :: "('w, 'st) AssistantRepository \<Rightarrow> 'w telegram_sender \<Rightarrow> assist_request \<Rightarrow> string \<Rightarrow> TelegramStatus
    \<Rightarrow> 'w assistantHandler \<Rightarrow> ('w, 'st) served" where
  "send_test repo sender r userID st h =
     (if \<not> tg_Linked st \<or> \<not> tg_OptedIn st then (h, not_verified r)
      else (case ar_VerifiedTelegramChat repo of
          None \<Rightarrow> (h, assist_error r 503 ''TEST_SEND_UNAVAILABLE'' (ru ''Testovaq otpravka nedostupna''))
        | Some chat_of \<Rightarrow>
            (case chat_of (ah_world h) userID of
               (w, Inl _) \<Rightarrow> (h\<lparr>ah_world := w\<rparr>, not_verified r)
             | (w, Inr chatID) \<Rightarrow>
                 (case sender w chatID test_message of
                    (w, Inl _) \<Rightarrow> (h\<lparr>ah_world := w\<rparr>,
                       assist_error r 502 ''TELEGRAM_SEND_FAILED'' (ru ''Ne udalos8 otpravit8 testovoe uvedomlenie''))
                  | (w, Inr messageID) \<Rightarrow> (h\<lparr>ah_world := w\<rparr>, assist_ok 200 (JCount ''provider_message_id'' messageID))))))"

definition telegramTest :: "('w, 'st) AssistantOptions \<Rightarrow> assist_request \<Rightarrow> 'w assistantHandler \<Rightarrow> ('w, 'st) served" where
  "telegramTest opts r h = guard opts r h
     (if aq_Method r \<noteq> ''POST'' then (h, bare 405)
      else if aq_confirm_body r \<noteq> Some True then
        (h, assist_error r 400 ''CONFIRMATION_REQUIRED'' (ru ''Testovoe uvedomlenie trebuet qvnogo podtverjdeniq''))
      else as_user opts r h (\<lambda>userID h.
        case ao_TelegramSender opts of
          None \<Rightarrow> (h, assist_error r 503 ''TELEGRAM_NOT_CONFIGURED'' ''Telegram sender is not configured'')
        | Some sender \<Rightarrow>
            if \<not> ao_TelegramConfigured opts then
              (h, assist_error r 503 ''TELEGRAM_NOT_CONFIGURED'' ''Telegram sender is not configured'')
            else (case ao_Repository opts of
                None \<Rightarrow> (h, None)
              | Some repo \<Rightarrow>
                  (case ar_TelegramStatus repo (ah_world h) userID (ao_TelegramConfigured opts) of
                     (w, Inl _) \<Rightarrow> (h\<lparr>ah_world := w\<rparr>, assist_error r 500 ''INTERNAL_ERROR'' ''Could not read Telegram status'')
                   | (w, Inr st) \<Rightarrow> send_test repo sender r userID st (h\<lparr>ah_world := w\<rparr>)))))"

text \<open>The settings a patch asks for, or the code of the refusal.\<close>

definition patched_settings :: "('w, 'st) AssistantOptions \<Rightarrow> bool option \<Rightarrow> bool option \<Rightarrow> AutomationSettings
    \<Rightarrow> (string \<times> string) + AutomationSettings" where
  "patched_settings opts ai tg current =
     (if ai = Some True \<and> \<not> ao_AIConfigured opts then
        Inl (''AI_NOT_CONFIGURED'', ''AI provider is not configured on the server'')
      else let current = (case ai of None \<Rightarrow> current | Some b \<Rightarrow> current\<lparr>as_AIEnabled := b\<rparr>) in
        if tg = Some True \<and> \<not> ao_TelegramConfigured opts then
          Inl (''TELEGRAM_NOT_CONFIGURED'', ''Telegram is not configured on the server'')
        else Inr (case tg of None \<Rightarrow> current | Some b \<Rightarrow> current\<lparr>as_TelegramEnabled := b\<rparr>))"

definition patch_automation :: "('w, 'st) AssistantOptions \<Rightarrow> ('w, 'st) AssistantRepository \<Rightarrow> assist_request \<Rightarrow> string
    \<Rightarrow> 'w assistantHandler \<Rightarrow> ('w, 'st) served" where
  "patch_automation opts repo r userID h =
     (case aq_automation_body r of
        None \<Rightarrow> (h, assist_error r 400 ''VALIDATION_ERROR'' ''Invalid JSON'')
      | Some (ai, tg) \<Rightarrow>
          (case ar_AutomationSettings repo (ah_world h) userID of
             (w, Inl _) \<Rightarrow> (h\<lparr>ah_world := w\<rparr>, assist_error r 500 ''INTERNAL_ERROR'' ''Could not read automation settings'')
           | (w, Inr current) \<Rightarrow>
               (case patched_settings opts ai tg current of
                  Inl (code, message) \<Rightarrow> (h\<lparr>ah_world := w\<rparr>, assist_error r 409 code message)
                | Inr wanted \<Rightarrow>
                    (case ar_SaveAutomationSettings repo w userID wanted of
                       (w, Inl _) \<Rightarrow> (h\<lparr>ah_world := w\<rparr>, assist_error r 400 ''VALIDATION_ERROR'' ''Invalid automation settings'')
                     | (w, Inr saved) \<Rightarrow> (h\<lparr>ah_world := w\<rparr>, assist_ok 200 (JAutomation saved))))))"

definition automation :: "('w, 'st) AssistantOptions \<Rightarrow> assist_request \<Rightarrow> 'w assistantHandler \<Rightarrow> ('w, 'st) served" where
  "automation opts r h = guard opts r h (as_user opts r h (\<lambda>userID h.
     case ao_Repository opts of
       None \<Rightarrow> (h, assist_ok 200 (JAutomation no_settings))
     | Some repo \<Rightarrow>
         if aq_Method r = ''GET'' then
           (case ar_AutomationSettings repo (ah_world h) userID of
              (w, Inl _) \<Rightarrow> (h\<lparr>ah_world := w\<rparr>, assist_error r 500 ''INTERNAL_ERROR'' ''Could not read automation settings'')
            | (w, Inr settings) \<Rightarrow> (h\<lparr>ah_world := w\<rparr>, assist_ok 200 (JAutomation settings)))
         else if aq_Method r \<noteq> ''PATCH'' then (h, bare 405)
         else patch_automation opts repo r userID h))"

section \<open>Routes\<close>

text \<open>The routes of \<^verbatim>\<open>register\<close>; a path without a handler, or any path when the assistant is off, is not served.\<close>

definition routes :: "(string \<Rightarrow> string) \<Rightarrow> ('w, 'st) AssistantOptions
    \<Rightarrow> (string \<times> (assist_request \<Rightarrow> 'w assistantHandler \<Rightarrow> ('w, 'st) served)) list" where
  "routes quote opts =
     (if \<not> ao_Enabled opts then []
      else [(''/api/v1/assistant/preferences'', preferences quote opts),
            (''/api/v1/assistant/preferences/list'', preferenceList opts),
            (''/api/v1/assistant/preferences/archive'', archivePreference opts),
            (''/api/v1/assistant/status'', assist_status opts),
            (''/api/v1/assistant/analyze'', analyze opts),
            (''/api/v1/assistant/analyze/supersede'', supersedeAnalysis opts),
            (''/api/v1/assistant/matches'', matches opts),
            (''/api/v1/assistant/telegram/link'', link opts),
            (''/api/v1/assistant/telegram'', telegram opts),
            (''/api/v1/assistant/telegram/test'', telegramTest opts),
            (''/api/v1/assistant/automation'', automation opts)])"

definition register :: "(string \<Rightarrow> string) \<Rightarrow> ('w, 'st) AssistantOptions \<Rightarrow> string
    \<Rightarrow> (assist_request \<Rightarrow> 'w assistantHandler \<Rightarrow> ('w, 'st) served) option" where
  "register quote opts path = map_of (routes quote opts) path"

section \<open>What the handlers ask of the repository\<close>

text \<open>
  A repository and a sender that record the calls made to them, with the user of each call and what the
  guards of the handlers depend on.
\<close>

datatype repo_call = EnsureCall string "string option" | UserCall string | CountCall
  | StatusCall string "TelegramStatus option" | ChatCall string "int option" | SendCall int string
  | SettingsCall string "AutomationSettings option" | SaveCall string AutomationSettings

definition traced_call :: "('w \<Rightarrow> 'w \<times> 'a) \<Rightarrow> ('a \<Rightarrow> repo_call) \<Rightarrow> 'w \<times> repo_call list \<Rightarrow> ('w \<times> repo_call list) \<times> 'a" where
  "traced_call f call s = (case f (fst s) of (w, x) \<Rightarrow> ((w, snd s @ [call x]), x))"

definition succeeded :: "'e + 'a \<Rightarrow> 'a option" where
  "succeeded x = (case x of Inl _ \<Rightarrow> None | Inr y \<Rightarrow> Some y)"

lemma succeeded_simps [simp]: "succeeded (Inl e) = None" "succeeded (Inr y) = Some y"
  by (simp_all add: succeeded_def)

definition traced_link :: "'w telegramLinkRepository \<Rightarrow> ('w \<times> repo_call list) telegramLinkRepository" where
  "traced_link repo = \<lparr>
     lr_IssueTelegramLink = (\<lambda>s u t e. traced_call (\<lambda>w. lr_IssueTelegramLink repo w u t e) (\<lambda>_. UserCall u) s),
     lr_RevokeTelegram = (\<lambda>s u. traced_call (\<lambda>w. lr_RevokeTelegram repo w u) (\<lambda>_. UserCall u) s)\<rparr>"

definition traced_repo :: "('w, 'st) AssistantRepository \<Rightarrow> ('w \<times> repo_call list, 'st) AssistantRepository" where
  "traced_repo repo = \<lparr>
     ar_EnsureUser = (\<lambda>s u. traced_call (\<lambda>w. ar_EnsureUser repo w u) (\<lambda>x. EnsureCall u (succeeded x)) s),
     ar_CurrentPreferences = (\<lambda>s u. traced_call (\<lambda>w. ar_CurrentPreferences repo w u) (\<lambda>_. UserCall u) s),
     ar_ListPreferences = (\<lambda>s u. traced_call (\<lambda>w. ar_ListPreferences repo w u) (\<lambda>_. UserCall u) s),
     ar_SavePreferences = (\<lambda>s u k p. traced_call (\<lambda>w. ar_SavePreferences repo w u k p) (\<lambda>_. UserCall u) s),
     ar_ArchivePreference = (\<lambda>s u i. traced_call (\<lambda>w. ar_ArchivePreference repo w u i) (\<lambda>_. UserCall u) s),
     ar_AnalysisStatus = (\<lambda>s u b. traced_call (\<lambda>w. ar_AnalysisStatus repo w u b) (\<lambda>_. UserCall u) s),
     ar_QueueAnalysis = (\<lambda>s u k b. traced_call (\<lambda>w. ar_QueueAnalysis repo w u k b) (\<lambda>_. UserCall u) s),
     ar_SupersedeAssistantRun = (\<lambda>s u i. traced_call (\<lambda>w. ar_SupersedeAssistantRun repo w u i) (\<lambda>_. UserCall u) s),
     ar_ListMatches = (\<lambda>s u n. traced_call (\<lambda>w. ar_ListMatches repo w u n) (\<lambda>_. UserCall u) s),
     ar_TelegramStatus = (\<lambda>s u b. traced_call (\<lambda>w. ar_TelegramStatus repo w u b) (\<lambda>x. StatusCall u (succeeded x)) s),
     ar_AutomationSettings = (\<lambda>s u. traced_call (\<lambda>w. ar_AutomationSettings repo w u) (\<lambda>x. SettingsCall u (succeeded x)) s),
     ar_SaveAutomationSettings = (\<lambda>s u a. traced_call (\<lambda>w. ar_SaveAutomationSettings repo w u a) (\<lambda>_. SaveCall u a) s),
     ar_SetTelegramOptIn = (\<lambda>s u b. traced_call (\<lambda>w. ar_SetTelegramOptIn repo w u b) (\<lambda>_. UserCall u) s),
     ar_link = map_option traced_link (ar_link repo),
     ar_VerifiedTelegramChat = map_option (\<lambda>f s u. traced_call (\<lambda>w. f w u) (\<lambda>x. ChatCall u (succeeded x)) s)
       (ar_VerifiedTelegramChat repo),
     ar_AnalysisSnapshotTotal = map_option (\<lambda>f s. traced_call f (\<lambda>_. CountCall) s) (ar_AnalysisSnapshotTotal repo)\<rparr>"

definition traced_options :: "('w, 'st) AssistantOptions \<Rightarrow> ('w \<times> repo_call list, 'st) AssistantOptions" where
  "traced_options opts = \<lparr>ao_Enabled = ao_Enabled opts, ao_DevAuthEnabled = ao_DevAuthEnabled opts,
     ao_DevSubject = ao_DevSubject opts, ao_Repository = map_option traced_repo (ao_Repository opts),
     ao_TelegramConfigured = ao_TelegramConfigured opts, ao_AIConfigured = ao_AIConfigured opts,
     ao_TelegramBotUsername = ao_TelegramBotUsername opts,
     ao_TelegramSender = map_option (\<lambda>f s c t. traced_call (\<lambda>w. f w c t) (\<lambda>_. SendCall c t) s) (ao_TelegramSender opts)\<rparr>"

lemma traced_options_simps [simp]:
  "ao_Enabled (traced_options opts) = ao_Enabled opts"
  "ao_DevAuthEnabled (traced_options opts) = ao_DevAuthEnabled opts"
  "ao_TelegramConfigured (traced_options opts) = ao_TelegramConfigured opts"
  "ao_AIConfigured (traced_options opts) = ao_AIConfigured opts"
  "subject (traced_options opts) r = subject opts r"
  "authorized (traced_options opts) r = authorized opts r"
  by (simp_all add: traced_options_def subject_def authorized_def Let_def)

text \<open>The traces a handler may leave for a user, and the conditions under which it goes that far.\<close>

inductive user_calls :: "('w, 'st) AssistantOptions \<Rightarrow> assist_request \<Rightarrow> string \<Rightarrow> repo_call list \<Rightarrow> bool"
  for opts r u where
  no_calls: "user_calls opts r u []"
| one_call: "user_calls opts r u [UserCall u]"
| status_call: "user_calls opts r u [StatusCall u st]"
| chat_call: "tg_Linked st \<Longrightarrow> tg_OptedIn st \<Longrightarrow> user_calls opts r u [StatusCall u (Some st), ChatCall u chat]"
| send_call: "ao_TelegramConfigured opts \<Longrightarrow> aq_Method r = ''POST'' \<Longrightarrow> aq_confirm_body r = Some True
    \<Longrightarrow> tg_Linked st \<Longrightarrow> tg_OptedIn st
    \<Longrightarrow> user_calls opts r u [StatusCall u (Some st), ChatCall u (Some chat), SendCall chat test_message]"
| settings_call: "user_calls opts r u [SettingsCall u cur]"
| save_call: "aq_Method r = ''PATCH'' \<Longrightarrow> aq_automation_body r = Some (ai, tg) \<Longrightarrow> patched_settings opts ai tg cur = Inr wanted
    \<Longrightarrow> user_calls opts r u [SettingsCall u (Some cur), SaveCall u wanted]"

inductive handler_calls :: "('w, 'st) AssistantOptions \<Rightarrow> assist_request \<Rightarrow> repo_call list \<Rightarrow> bool"
  for opts r where
  silent: "handler_calls opts r []"
| counted: "authorized opts r \<Longrightarrow> handler_calls opts r [CountCall]"
| unknown_user: "authorized opts r \<Longrightarrow> handler_calls opts r [EnsureCall (subject opts r) None]"
| known_user: "authorized opts r \<Longrightarrow> user_calls opts r u calls
    \<Longrightarrow> handler_calls opts r (EnsureCall (subject opts r) (Some u) # calls)"

text \<open>An outcome that adds such a trace to the one the handler found.\<close>

definition leaves :: "(repo_call list \<Rightarrow> bool) \<Rightarrow> ('w \<times> repo_call list) assistantHandler
    \<Rightarrow> ('w \<times> repo_call list, 'st) served \<Rightarrow> bool" where
  "leaves P h out \<longleftrightarrow> (\<exists>calls. snd (ah_world (fst out)) = snd (ah_world h) @ calls \<and> P calls)"

lemma leaves_nothing: "snd (ah_world (fst out)) = snd (ah_world h) \<Longrightarrow> P [] \<Longrightarrow> leaves P h out"
  by (simp add: leaves_def)

lemma leaves_calls: "snd (ah_world (fst out)) = snd (ah_world h) @ calls \<Longrightarrow> P calls \<Longrightarrow> leaves P h out"
  by (auto simp: leaves_def)

lemma guard_leaves:
  assumes "authorized opts r \<Longrightarrow> leaves (handler_calls opts r) h k"
  shows "leaves (handler_calls opts r) h (guard (traced_options opts) r h k)"
  using assms by (auto simp: guard_def intro: leaves_nothing handler_calls.intros)

lemma traced_repository [simp]: "ao_Repository (traced_options opts) = map_option traced_repo (ao_Repository opts)"
  by (simp add: traced_options_def)

lemma traced_sender [simp]: "ao_TelegramSender (traced_options opts)
    = map_option (\<lambda>f s c t. traced_call (\<lambda>w. f w c t) (\<lambda>_. SendCall c t) s) (ao_TelegramSender opts)"
  by (simp add: traced_options_def)

lemma as_user_leaves:
  assumes auth: "authorized opts r"
    and none: "ao_Repository opts = None \<Longrightarrow> snd (ah_world (fst (k (subject opts r) h))) = snd (ah_world h)"
    and some: "\<And>repo u h'. ao_Repository opts = Some repo \<Longrightarrow> leaves (user_calls opts r u) h' (k u h')"
  shows "leaves (handler_calls opts r) h (as_user (traced_options opts) r h k)"
proof (cases "ao_Repository opts")
  case None
  then show ?thesis
    using auth none by (auto simp: as_user_def user_def intro: leaves_nothing handler_calls.intros)
next
  case (Some repo)
  obtain w x where ensure: "ar_EnsureUser repo (fst (ah_world h)) (subject opts r) = (w, x)" by fastforce
  show ?thesis
  proof (cases x)
    case (Inl e)
    then show ?thesis
      using auth Some ensure
      by (auto simp: as_user_def user_def traced_repo_def traced_call_def intro!: leaves_calls handler_calls.unknown_user)
  next
    case (Inr u)
    define h' where "h' = h\<lparr>ah_world := (w, snd (ah_world h) @ [EnsureCall (subject opts r) (Some u)])\<rparr>"
    have "leaves (user_calls opts r u) h' (k u h')" by (rule some [OF Some])
    then show ?thesis
      using auth Some ensure Inr
      by (auto simp: as_user_def user_def traced_repo_def traced_call_def leaves_def h'_def intro: handler_calls.known_user)
  qed
qed

lemma patched_traced [simp]: "patched_settings (traced_options opts) = patched_settings opts"
  by (intro ext) (simp add: patched_settings_def)

lemmas traced_ops = traced_repo_def traced_link_def traced_call_def leaves_def user_calls.simps

lemma if_leaves: "(c \<Longrightarrow> leaves P h x) \<Longrightarrow> (\<not> c \<Longrightarrow> leaves P h y) \<Longrightarrow> leaves P h (if c then x else y)"
  by simp

lemma leaves_same: "P [] \<Longrightarrow> leaves P h (h, x)"
  by (simp add: leaves_def)

lemmas handler_intros = guard_leaves if_leaves as_user_leaves leaves_same handler_calls.silent user_calls.no_calls

lemma preferenceList_leaves: "leaves (handler_calls opts r) h (preferenceList (traced_options opts) r h)"
  unfolding preferenceList_def
  by (intro handler_intros) (auto simp: traced_ops split: prod.splits sum.splits)

lemma archivePreference_leaves: "leaves (handler_calls opts r) h (archivePreference (traced_options opts) r h)"
  unfolding archivePreference_def
  by (intro handler_intros) (auto simp: traced_ops split: prod.splits option.splits)

lemma assist_status_leaves: "leaves (handler_calls opts r) h (assist_status (traced_options opts) r h)"
  unfolding assist_status_def
  by (intro handler_intros) (auto simp: traced_ops split: prod.splits sum.splits)

lemma analyze_preview_leaves:
  "authorized opts r \<Longrightarrow> leaves (handler_calls opts r) h (analyze_preview (traced_options opts) r h)"
  by (cases "ao_Repository opts"; cases "ar_AnalysisSnapshotTotal (the (ao_Repository opts))")
    (auto simp: analyze_preview_def traced_ops handler_calls.simps split: prod.splits sum.splits)

lemma analyze_leaves: "leaves (handler_calls opts r) h (analyze (traced_options opts) r h)"
  unfolding analyze_def
  by (intro handler_intros analyze_preview_leaves) (auto simp: traced_ops split: prod.splits sum.splits)

lemma supersedeAnalysis_leaves: "leaves (handler_calls opts r) h (supersedeAnalysis (traced_options opts) r h)"
  unfolding supersedeAnalysis_def
  by (intro handler_intros) (auto simp: traced_ops split: prod.splits option.splits)

lemma preferences_leaves: "leaves (handler_calls opts r) h (preferences quote (traced_options opts) r h)"
  unfolding preferences_def write_preferences_def
  by (intro handler_intros) (auto simp: traced_ops split: prod.splits option.splits sum.splits)

lemma matches_leaves: "leaves (handler_calls opts r) h (matches (traced_options opts) r h)"
  unfolding matches_def
  by (intro handler_intros) (auto simp: traced_ops split: prod.splits sum.splits)

lemma link_leaves: "leaves (handler_calls opts r) h (link (traced_options opts) r h)"
  unfolding link_def Let_def
proof (intro handler_intros)
  fix repo u h'
  assume "ao_Repository opts = Some repo"
  then show "leaves (user_calls opts r u) h' (case Issue (aq_random r) (aq_now r) (ah_linker h') of
       (l, None) \<Rightarrow> (h'\<lparr>ah_linker := l\<rparr>, assist_error r 500 ''INTERNAL_ERROR'' ''Could not create link'')
     | (l, Some token) \<Rightarrow>
         (case Option.bind (ao_Repository (traced_options opts)) ar_link of
            None \<Rightarrow> (h'\<lparr>ah_linker := l\<rparr>, assist_ok 200 (JLink (deep_link (traced_options opts) token) (aq_later r + 10 * Minute)))
          | Some repo \<Rightarrow>
              (case lr_IssueTelegramLink repo (ah_world (h'\<lparr>ah_linker := l\<rparr>)) u token (aq_later r + 10 * Minute) of
                 (w, None) \<Rightarrow> (h'\<lparr>ah_linker := l, ah_world := w\<rparr>,
                    assist_ok 200 (JLink (deep_link (traced_options opts) token) (aq_later r + 10 * Minute)))
               | (w, Some _) \<Rightarrow> (h'\<lparr>ah_linker := l, ah_world := w\<rparr>, assist_error r 500 ''INTERNAL_ERROR'' ''Could not create link''))))"
    by (cases "ar_link repo") (auto simp: traced_ops split: prod.splits option.splits)
qed (auto split: prod.splits option.splits)

lemma telegram_revoke_leaves:
  "authorized opts r \<Longrightarrow> leaves (handler_calls opts r) h (telegram_revoke (traced_options opts) r h)"
  by (cases "ao_Repository opts"; cases "ar_link (the (ao_Repository opts))")
    (auto simp: telegram_revoke_def user_def traced_ops handler_calls.simps split: prod.splits sum.splits)

lemma telegram_leaves: "leaves (handler_calls opts r) h (telegram (traced_options opts) r h)"
  unfolding telegram_def telegram_opt_in_def
  by (intro handler_intros telegram_revoke_leaves) (auto simp: traced_ops split: prod.splits option.splits sum.splits)

lemma telegramTest_leaves: "leaves (handler_calls opts r) h (telegramTest (traced_options opts) r h)"
  unfolding telegramTest_def send_test_def
  by (intro handler_intros) (auto simp: traced_ops split: prod.splits option.splits sum.splits)

lemma automation_leaves: "leaves (handler_calls opts r) h (automation (traced_options opts) r h)"
  unfolding automation_def patch_automation_def
  by (intro handler_intros) (auto simp: traced_ops split: prod.splits option.splits sum.splits)

lemmas handler_defs = preferences_def preferenceList_def archivePreference_def assist_status_def analyze_def
  supersedeAnalysis_def matches_def link_def telegram_def telegramTest_def automation_def

lemma handlers_leave:
  assumes "register quote (traced_options opts) path = Some handler"
  shows "leaves (handler_calls opts r) h (handler r h)"
  using assms
  by (auto simp: register_def routes_def split: if_splits
      intro: preferences_leaves preferenceList_leaves archivePreference_leaves assist_status_leaves analyze_leaves
        supersedeAnalysis_leaves matches_leaves link_leaves telegram_leaves telegramTest_leaves automation_leaves)






inductive_cases known_userE: "handler_calls opts r (EnsureCall s (Some u) # calls)"

section \<open>An example\<close>

definition example_link :: "'w telegramLinkRepository" where
  "example_link = \<lparr>lr_IssueTelegramLink = (\<lambda>w _ _ _. (w, None)), lr_RevokeTelegram = (\<lambda>w _. (w, None))\<rparr>"

definition example_repo :: "('w, unit) AssistantRepository" where
  "example_repo = \<lparr>
     ar_EnsureUser = (\<lambda>w s. (w, Inr (''user-'' @ s))),
     ar_CurrentPreferences = (\<lambda>w _. (w, Inl (RepoFailure ''none''))),
     ar_ListPreferences = (\<lambda>w _. (w, Inr [])),
     ar_SavePreferences = (\<lambda>w _ _ p. (w, Inr p)),
     ar_ArchivePreference = (\<lambda>w _ _. (w, None)),
     ar_AnalysisStatus = (\<lambda>w _ _. (w, Inr ())),
     ar_QueueAnalysis = (\<lambda>w _ _ _. (w, Inr ''run-1'')),
     ar_SupersedeAssistantRun = (\<lambda>w _ _. (w, None)),
     ar_ListMatches = (\<lambda>w _ _. (w, Inr [])),
     ar_TelegramStatus = (\<lambda>w _ c. (w, Inr \<lparr>tg_Configured = c, tg_Linked = True, tg_OptedIn = True, tg_Pending = 0,
        tg_Sent = 0, tg_Failed = 0, tg_DeadLettered = 0, tg_LastError = ''''\<rparr>)),
     ar_AutomationSettings = (\<lambda>w _. (w, Inr no_settings)),
     ar_SaveAutomationSettings = (\<lambda>w _ a. (w, Inr a)),
     ar_SetTelegramOptIn = (\<lambda>w _ _. (w, None)),
     ar_link = Some example_link,
     ar_VerifiedTelegramChat = Some (\<lambda>w _. (w, Inr 42)),
     ar_AnalysisSnapshotTotal = Some (\<lambda>w. (w, Inr 0))\<rparr>"

definition example_options :: "(unit, unit) AssistantOptions" where
  "example_options = \<lparr>ao_Enabled = True, ao_DevAuthEnabled = True, ao_DevSubject = ''dev'', ao_Repository = Some example_repo,
     ao_TelegramConfigured = True, ao_AIConfigured = True, ao_TelegramBotUsername = '''',
     ao_TelegramSender = Some (\<lambda>w _ _. (w, Inr 1))\<rparr>"

definition example_request :: "string \<Rightarrow> assist_request" where
  "example_request m = \<lparr>aq_Method = m, aq_DevUser = '''', aq_IdempotencyKey = '''', aq_RequestID = ''r1'',
     aq_id_body = None, aq_run_body = None, aq_preferences_body = None, aq_opt_in_body = None, aq_confirm_body = Some True,
     aq_automation_body = Some (Some True, None), aq_random = Some ''token'', aq_now = 0, aq_later = 0\<rparr>"

lemma example_subject:
  "subject example_options (example_request m) = ''dev''" "authorized example_options (example_request m)"
  by (simp_all add: subject_def authorized_def example_options_def example_request_def Let_def bytes_simps)

lemma example_options_simps:
  "ao_Enabled example_options" "ao_TelegramConfigured example_options" "ao_AIConfigured example_options"
  "ao_Repository example_options = Some example_repo" "ao_TelegramSender example_options = Some (\<lambda>w _ _. (w, Inr 1))"
  by (simp_all add: example_options_def)

lemmas example_defs = example_options_simps example_repo_def example_request_def traced_repo_def traced_call_def guard_def
  as_user_def user_def newAssistantHandler_def

lemma example_send:
  "snd (ah_world (fst (telegramTest (traced_options example_options) (example_request ''POST'') (newAssistantHandler ((), [])))))
   = [EnsureCall ''dev'' (Some ''user-dev''),
      StatusCall ''user-dev'' (Some \<lparr>tg_Configured = True, tg_Linked = True, tg_OptedIn = True, tg_Pending = 0, tg_Sent = 0,
        tg_Failed = 0, tg_DeadLettered = 0, tg_LastError = ''''\<rparr>), ChatCall ''user-dev'' (Some 42), SendCall 42 test_message]"
  using example_subject by (simp add: telegramTest_def send_test_def example_defs)

lemma example_save:
  "snd (ah_world (fst (automation (traced_options example_options) (example_request ''PATCH'') (newAssistantHandler ((), [])))))
   = [EnsureCall ''dev'' (Some ''user-dev''), SettingsCall ''user-dev'' (Some no_settings),
      SaveCall ''user-dev'' (no_settings\<lparr>as_AIEnabled := True\<rparr>)]"
  using example_subject by (simp add: automation_def patch_automation_def patched_settings_def example_defs)


lemma example_route:
  "register id (traced_options example_options) ''/api/v1/assistant/telegram/test''
     = Some (telegramTest (traced_options example_options))"
  "register id (traced_options example_options) ''/api/v1/assistant/automation''
     = Some (automation (traced_options example_options))"
  by (simp_all add: register_def routes_def example_options_simps)

section \<open>Handlers that answer\<close>

lemma some_response [simp]:
  "\<exists>x y. assist_error r s c m = Some (x, y)" "\<exists>x y. assist_ok s v = Some (x, y)" "\<exists>x y. bare s = Some (x, y)"
  "\<exists>x y. unauthorized r = Some (x, y)" "\<exists>x y. not_verified r = Some (x, y)" "\<exists>x y. save_error r e = Some (x, y)"
  by (simp_all add: assist_error_def assist_ok_def bare_def unauthorized_def not_verified_def save_error_def
      writeAPIError_def writeJSON_def split: repo_error.split)

lemma no_response [simp]: "assist_error r s c m \<noteq> None" "bare s \<noteq> None" "unauthorized r \<noteq> None"
  by (simp_all add: assist_error_def bare_def unauthorized_def)

lemma snd_guard: "snd (guard opts r h k) = None \<longleftrightarrow> authorized opts r \<and> snd k = None"
  by (simp add: guard_def)

lemma snd_as_user: "(\<And>u h. snd (k u h) \<noteq> None) \<Longrightarrow> snd (as_user opts r h k) \<noteq> None"
  by (simp add: as_user_def split: prod.split sum.split)

lemma snd_if: "(c \<Longrightarrow> snd x \<noteq> None) \<Longrightarrow> (\<not> c \<Longrightarrow> snd y \<noteq> None) \<Longrightarrow> snd (if c then x else y) \<noteq> None"
  by simp

lemma snd_guard_some: "snd k \<noteq> None \<Longrightarrow> snd (guard opts r h k) \<noteq> None"
  by (simp add: guard_def)

lemmas answer_intros = snd_guard_some snd_as_user snd_if

lemma answers:
  "snd (preferences quote opts r h) \<noteq> None" "snd (preferenceList opts r h) \<noteq> None" "snd (archivePreference opts r h) \<noteq> None"
  "snd (assist_status opts r h) \<noteq> None" "snd (analyze opts r h) \<noteq> None" "snd (supersedeAnalysis opts r h) \<noteq> None"
  "snd (matches opts r h) \<noteq> None" "snd (link opts r h) \<noteq> None" "snd (telegram opts r h) \<noteq> None"
  "snd (automation opts r h) \<noteq> None"
  unfolding handler_defs write_preferences_def analyze_preview_def telegram_revoke_def telegram_opt_in_def patch_automation_def
    Let_def
  by (intro answer_intros; simp split: prod.splits sum.splits option.splits)+

lemma send_test_answers: "\<exists>x y. snd (send_test repo sender r u st h) = Some (x, y)"
  by (simp add: send_test_def split: prod.splits sum.splits option.splits)

lemma telegramTest_panics:
  "snd (telegramTest opts r h) = None \<longleftrightarrow> authorized opts r \<and> aq_Method r = ''POST'' \<and> aq_confirm_body r = Some True
    \<and> ao_TelegramSender opts \<noteq> None \<and> ao_TelegramConfigured opts \<and> ao_Repository opts = None"
proof (cases "ao_Repository opts")
  case None
  then show ?thesis
    by (auto simp: telegramTest_def snd_guard as_user_def user_def split: option.splits)
next
  case (Some repo)
  have "snd (telegramTest opts r h) \<noteq> None"
    unfolding telegramTest_def Some
    by (intro answer_intros) (auto simp: send_test_answers split: prod.splits sum.splits option.splits)
  with Some show ?thesis by simp
qed

section \<open>Properties\<close>



text \<open>
  A Telegram message leaves the server only through the test route and only after every condition
  holds: the request is authorised, is a POST and carries an explicit confirmation, Telegram is
  configured, and the calls before it read the user's link, found it linked and opted in, and read the
  verified chat of that user. The message is the fixed text, sent once, to that chat.
\<close>

theorem test_send_guarded:
  assumes "register quote (traced_options opts) path = Some handler"
    and "handler r h = (h', reply)"
    and "snd (ah_world h') = snd (ah_world h) @ calls"
    and "SendCall chat message \<in> set calls"
  shows "authorized opts r \<and> aq_Method r = ''POST'' \<and> aq_confirm_body r = Some True \<and> ao_TelegramConfigured opts
    \<and> message = test_message
    \<and> (\<exists>u st. tg_Linked st \<and> tg_OptedIn st
         \<and> calls = [EnsureCall (subject opts r) (Some u), StatusCall u (Some st), ChatCall u (Some chat), SendCall chat message])"
proof -
  have "handler_calls opts r calls"
    using handlers_leave [OF assms(1), of r h] assms(2,3) by (auto simp: leaves_def)
  then show ?thesis using assms(4) by (auto simp: handler_calls.simps user_calls.simps)
qed

theorem test_send_guarded_witness:
  "\<exists>u st. tg_Linked st \<and> tg_OptedIn st
     \<and> snd (ah_world (fst (telegramTest (traced_options example_options) (example_request ''POST'') (newAssistantHandler ((), [])))))
       = [EnsureCall ''dev'' (Some u), StatusCall u (Some st), ChatCall u (Some 42), SendCall 42 test_message]"
proof -
  obtain h' reply where out:
    "telegramTest (traced_options example_options) (example_request ''POST'') (newAssistantHandler ((), [])) = (h', reply)"
    by fastforce
  have trace: "snd (ah_world h') = snd (ah_world (newAssistantHandler ((), [] :: repo_call list))) @ snd (ah_world h')"
    by (simp add: newAssistantHandler_def)
  have "SendCall 42 test_message \<in> set (snd (ah_world h'))" using example_send out by simp
  from test_send_guarded [OF example_route(1) out trace this] show ?thesis
    unfolding example_subject out by simp
qed


text \<open>
  Automation cannot be switched on beyond what the server is configured for. Whatever the route, the
  settings are written only by a PATCH of the automation route, after reading the user's current ones;
  the written settings are the current ones with the requested switches replaced and the activation time
  kept, AI is requested on only where a provider is configured, and Telegram only where it is.
\<close>

theorem automation_guarded:
  assumes "register quote (traced_options opts) path = Some handler"
    and "handler r h = (h', reply)"
    and "snd (ah_world h') = snd (ah_world h) @ calls"
    and "SaveCall u wanted \<in> set calls"
  shows "\<exists>cur ai tg. calls = [EnsureCall (subject opts r) (Some u), SettingsCall u (Some cur), SaveCall u wanted]
    \<and> aq_Method r = ''PATCH'' \<and> aq_automation_body r = Some (ai, tg)
    \<and> as_AIEnabled wanted = (case ai of None \<Rightarrow> as_AIEnabled cur | Some b \<Rightarrow> b)
    \<and> as_TelegramEnabled wanted = (case tg of None \<Rightarrow> as_TelegramEnabled cur | Some b \<Rightarrow> b)
    \<and> as_ActivationAt wanted = as_ActivationAt cur
    \<and> (ai = Some True \<longrightarrow> ao_AIConfigured opts) \<and> (tg = Some True \<longrightarrow> ao_TelegramConfigured opts)"
proof -
  have patched: "as_AIEnabled w = (case ai of None \<Rightarrow> as_AIEnabled cur | Some b \<Rightarrow> b)
      \<and> as_TelegramEnabled w = (case tg of None \<Rightarrow> as_TelegramEnabled cur | Some b \<Rightarrow> b)
      \<and> as_ActivationAt w = as_ActivationAt cur
      \<and> (ai = Some True \<longrightarrow> ao_AIConfigured opts) \<and> (tg = Some True \<longrightarrow> ao_TelegramConfigured opts)"
    if "patched_settings opts ai tg cur = Inr w" for ai tg cur w
    using that by (auto simp: patched_settings_def Let_def split: if_splits option.splits)
  have "handler_calls opts r calls"
    using handlers_leave [OF assms(1), of r h] assms(2,3) by (auto simp: leaves_def)
  then obtain cur ai tg where "calls = [EnsureCall (subject opts r) (Some u), SettingsCall u (Some cur), SaveCall u wanted]"
      "aq_Method r = ''PATCH''" "aq_automation_body r = Some (ai, tg)" "patched_settings opts ai tg cur = Inr wanted"
    using assms(4) by (auto simp: handler_calls.simps user_calls.simps)
  with patched show ?thesis by blast
qed

theorem automation_guarded_witness:
  "\<exists>cur ai tg. snd (ah_world (fst (automation (traced_options example_options) (example_request ''PATCH'')
        (newAssistantHandler ((), [])))))
      = [EnsureCall ''dev'' (Some ''user-dev''), SettingsCall ''user-dev'' (Some cur),
         SaveCall ''user-dev'' (no_settings\<lparr>as_AIEnabled := True\<rparr>)]
    \<and> Some (Some True, None) = Some (ai, tg) \<and> (ai = Some True \<longrightarrow> ao_AIConfigured example_options)"
proof -
  obtain h' reply where out:
    "automation (traced_options example_options) (example_request ''PATCH'') (newAssistantHandler ((), [])) = (h', reply)"
    by fastforce
  have trace: "snd (ah_world h') = snd (ah_world (newAssistantHandler ((), [] :: repo_call list))) @ snd (ah_world h')"
    by (simp add: newAssistantHandler_def)
  have save: "SaveCall ''user-dev'' (no_settings\<lparr>as_AIEnabled := True\<rparr>) \<in> set (snd (ah_world h'))"
    using example_save out by simp
  have body: "aq_automation_body (example_request ''PATCH'') = Some (Some True, None)" by (simp add: example_request_def)
  from automation_guarded [OF example_route(2) out trace save] show ?thesis
    unfolding example_subject out body by auto
qed

text \<open>
  The handlers answer every request but one: they call a method of a missing repository, which stops
  the request with a nil dereference, exactly on the test route, for a confirmed and authorised POST,
  when a Telegram sender is configured and no repository is.
\<close>

theorem assist_panics_iff:
  assumes "register quote opts path = Some handler"
  shows "snd (handler r h) = None \<longleftrightarrow>
    path = ''/api/v1/assistant/telegram/test'' \<and> authorized opts r \<and> aq_Method r = ''POST'' \<and> aq_confirm_body r = Some True
    \<and> ao_TelegramSender opts \<noteq> None \<and> ao_TelegramConfigured opts \<and> ao_Repository opts = None"
  using assms
  by (auto simp: register_def routes_def answers telegramTest_panics split: if_splits)

theorem assist_panics_iff_witness:
  "snd (telegramTest (example_options\<lparr>ao_Repository := None\<rparr>) (example_request ''POST'') (newAssistantHandler ())) = None"
proof -
  define opts where "opts = example_options\<lparr>ao_Repository := None\<rparr>"
  have "register id opts ''/api/v1/assistant/telegram/test'' = Some (telegramTest opts)"
    by (simp add: register_def routes_def opts_def example_options_simps)
  from assist_panics_iff [OF this, of "example_request ''POST''" "newAssistantHandler ()"]
  show ?thesis
    by (simp add: opts_def authorized_def subject_def Let_def example_options_def example_request_def bytes_simps)
qed

end
