(* ===== verification/Pg_Store.thy ===== *)
theory Pg_Store
  imports Runner Sql_Layer
begin

text \<open>
  The PostgreSQL store of the ingest service, \<^verbatim>\<open>apps/ingest/internal/store/pg.go\<close>. Every method is
  translated with its statements, transactions, stages and retries; the SQL is a function on the tables it
  reads and writes. The failures of the database are those of \<^theory_text>\<open>Sql_Layer\<close>, by statement number, with the
  error of each; a row the database rejects (a foreign key, a type, a CHECK, an encoding) is one of them.
  Further arguments: whether the context ends during a pause, \<^verbatim>\<open>json.Valid\<close>, the order of texts in the
  database and the error of \<^verbatim>\<open>hex.DecodeString\<close>. The JSON columns of a run
  hold the values that were encoded. A failed commit is a rollback.
\<close>

section \<open>Errors\<close>

datatype failure_kind = PgCode string | DeadlineExceeded | ContextCanceled | OtherKind string

record db_failure =
  df_kind :: failure_kind
  df_text :: string
  df_stage :: "string option"

definition atDBStage :: "string \<Rightarrow> db_failure \<Rightarrow> db_failure" where
  "atDBStage stage e = e\<lparr>df_text := stage @ '': '' @ df_text e, df_stage := Some stage\<rparr>"

definition transient_needles :: "string list" where
  "transient_needles = [''wsarecv'', ''i/o timeout'', ''connection reset'', ''broken pipe'', ''unexpected eof'',
     ''server closed the connection'', ''conn closed'', ''max clients reached'', ''eof'', ''statement timeout'', ''57014'',
     ''lock timeout'', ''55p03'']"

definition isTransientDBErr :: "db_failure \<Rightarrow> bool" where
  "isTransientDBErr e = list_ex (Contains (ToLower (df_text e))) transient_needles"

definition sanitizeDBError :: "string \<Rightarrow> db_failure \<Rightarrow> store_error" where
  "sanitizeDBError operation e =
     (let head = ''store '' @ operation @ (case df_stage e of None \<Rightarrow> '''' | Some stage \<Rightarrow> '' at '' @ stage) @ '': '' in
      StoreFailure (head @ (case df_kind e of
          PgCode code \<Rightarrow> ''postgres error (sqlstate='' @ code @ '')''
        | DeadlineExceeded \<Rightarrow> ''database operation timed out''
        | ContextCanceled \<Rightarrow> ''database operation canceled''
        | OtherKind kind \<Rightarrow> ''database operation failed (kind='' @ kind @ '')'')))"

definition canceled :: db_failure where
  "canceled = \<lparr>df_kind = ContextCanceled, df_text = ''context canceled'', df_stage = None\<rparr>"

section \<open>Tables\<close>

record pg_vacancy =
  va_id :: string
  va_source :: string
  va_external :: string
  va_source_url :: "string option"
  va_title :: string
  va_employer :: "string option"
  va_role :: "string option"
  va_region :: "string option"
  va_salary_from :: "real option"
  va_salary_to :: "real option"
  va_currency :: "string option"
  va_gross :: "bool option"
  va_mid :: "real option"
  va_from_rub :: "real option"
  va_to_rub :: "real option"
  va_rate_date :: "time option"
  va_rate_provider :: "string option"
  va_description :: "string option"
  va_truncated :: bool
  va_published :: "time option"
  va_collected :: time
  va_first_observed :: time
  va_active :: bool
  va_deleted :: "time option"
  va_last_seen :: "time option"
  va_last_cycle :: "string option"
  va_deactivated :: "time option"
  va_reason :: "string option"
  va_hash :: "nat list"
  va_raw :: "string option"
  va_remote :: "bool option"
  va_revision :: int
  va_updated :: time

record pg_cycle =
  gc_id :: string
  gc_source :: string
  gc_scope :: string
  gc_scope_hash :: string
  gc_cycle_end :: time
  gc_status :: string
  gc_partition_count :: int
  gc_completed_partitions :: int
  gc_started :: time
  gc_completed :: "time option"
  gc_cycle_date :: "time option"
  gc_cutoff :: "time option"
  gc_expected_pages :: int
  gc_completed_pages :: int
  gc_method :: "string option"
  gc_failed :: "time option"

record pg_partition =
  gp_cycle :: string
  gp_key :: string
  gp_role :: string
  gp_area :: string
  gp_from :: "time option"
  gp_to :: time
  gp_expected :: int
  gp_next :: int
  gp_status :: string
  gp_updated :: time

record pg_observation =
  go_cycle :: string
  go_source :: string
  go_external :: string
  go_published :: time
  go_region :: "string option"
  go_region_name :: "string option"
  go_primary :: string
  go_group :: string
  go_roles :: "string list"
  go_from :: "real option"
  go_to :: "real option"
  go_currency :: "string option"
  go_gross :: "bool option"
  go_mid :: "real option"
  go_eligible :: bool
  go_observed :: time

record pg_run =
  gn_id :: string
  gn_source :: string
  gn_mode :: string
  gn_status :: string
  gn_params :: "(string \<times> param_value) list"
  gn_requested_by :: "string option"
  gn_started :: "time option"
  gn_finished :: "time option"
  gn_stats :: "Stats option"
  gn_error :: "string option"
  gn_created :: time

text \<open>A row with an identifier, a key and a name: employers, regions, skills and roles.\<close>

record pg_named =
  nm_id :: string
  nm_key :: "string \<times> string"
  nm_name :: string
  nm_family :: "string option"
  nm_active :: bool

record pg_rate =
  fr_currency :: string
  fr_date :: time
  fr_rate :: real
  fr_provider :: string

record pg_tables =
  pt_runs :: "pg_run list"
  pt_errors :: "(string \<times> string option \<times> string option \<times> string) list"
  pt_checkpoints :: "((string \<times> string) \<times> string option) list"
  pt_cycles :: "pg_cycle list"
  pt_partitions :: "pg_partition list"
  pt_observations :: "pg_observation list"
  pt_vacancies :: "pg_vacancy list"
  pt_work_items :: "(string \<times> string \<times> int) list"
  pt_employers :: "pg_named list"
  pt_regions :: "pg_named list"
  pt_region_ids :: "((string \<times> string) \<times> string) list"
  pt_skills :: "pg_named list"
  pt_skill_aliases :: "(int \<times> string \<times> string \<times> string option) list"
  pt_vacancy_skills :: "(string \<times> string) list"
  pt_roles :: "pg_named list"
  pt_role_aliases :: "((string \<times> string) \<times> string) list"
  pt_role_scopes :: "(string \<times> string) list"
  pt_vacancy_scopes :: "(string \<times> string \<times> string) list"
  pt_rates :: "pg_rate list"
  pt_snapshots :: "(string \<times> string) list"

type_synonym pg = "pg_tables conn"

record pg_env =
  pg_db :: db_env
  pg_failure :: "nat \<Rightarrow> db_failure"
  pg_ctx_done :: "nat \<Rightarrow> duration \<Rightarrow> bool"
  pg_json_valid :: "string \<Rightarrow> bool"
  pg_before :: "string \<Rightarrow> string \<Rightarrow> bool"
  pg_hex_error :: "string \<Rightarrow> db_failure"

section \<open>Statements\<close>

text \<open>A statement with the error its caller makes of a failure.\<close>

definition pg_stmt :: "pg_env \<Rightarrow> (db_failure \<Rightarrow> 'e) \<Rightarrow> (nat \<Rightarrow> pg_tables \<Rightarrow> (pg_tables \<times> 'a) option) \<Rightarrow> pg \<Rightarrow> pg \<times> ('e + 'a)" where
  "pg_stmt env err f s = stmt (pg_db env) (err (pg_failure env (db_tick s))) f s"

definition pg_exec :: "pg_env \<Rightarrow> (db_failure \<Rightarrow> 'e) \<Rightarrow> (nat \<Rightarrow> pg_tables \<Rightarrow> pg_tables \<times> 'a) \<Rightarrow> pg \<Rightarrow> pg \<times> ('e + 'a)" where
  "pg_exec env err f = pg_stmt env err (\<lambda>t d. Some (f t d))"

definition pg_read :: "pg_env \<Rightarrow> (db_failure \<Rightarrow> 'e) \<Rightarrow> (pg_tables \<Rightarrow> 'a) \<Rightarrow> pg \<Rightarrow> pg \<times> ('e + 'a)" where
  "pg_read env err f = pg_exec env err (\<lambda>_ d. (d, f d))"

definition pg_write :: "pg_env \<Rightarrow> (db_failure \<Rightarrow> 'e) \<Rightarrow> (pg_tables \<Rightarrow> pg_tables) \<Rightarrow> pg \<Rightarrow> pg \<times> ('e + unit)" where
  "pg_write env err f = pg_exec env err (\<lambda>_ d. (f d, ()))"

text \<open>A transaction; its body is given the time of \<^verbatim>\<open>now()\<close>, and its result chooses the error of a failed commit.\<close>

definition pg_tx :: "pg_env \<Rightarrow> (db_failure \<Rightarrow> 'e) \<Rightarrow> ('a \<Rightarrow> db_failure \<Rightarrow> 'e) \<Rightarrow> (time \<Rightarrow> pg \<Rightarrow> pg \<times> ('e + 'a)) \<Rightarrow> pg \<Rightarrow> pg \<times> ('e + 'a)" where
  "pg_tx env beginErr commitErr body s =
     in_tx (pg_db env) (beginErr (pg_failure env (db_tick s)))
       (\<lambda>t s. case body (db_now (pg_db env) t) s of
          (s', Inl e) \<Rightarrow> (s', Inl e)
        | (s', Inr x) \<Rightarrow> (s', Inr (x, commitErr x (pg_failure env (db_tick s')))))
       s"

text \<open>The loops over items of the methods, with their early return.\<close>

fun for_each :: "('a \<Rightarrow> 's \<Rightarrow> 's \<times> ('e + unit)) \<Rightarrow> 'a list \<Rightarrow> 's \<Rightarrow> 's \<times> ('e + unit)" where
  "for_each f [] = give ()"
| "for_each f (x # xs) = and_do (f x) (\<lambda>_. for_each f xs)"

definition no_error :: "pg \<times> (store_error + 'a) \<Rightarrow> pg \<times> store_error option" where
  "no_error out = (case out of (s, Inl e) \<Rightarrow> (s, Some e) | (s, Inr _) \<Rightarrow> (s, None))"

definition null_if_empty :: "string \<Rightarrow> string option" where
  "null_if_empty v = (if v = '''' then None else Some v)"

definition coalesce :: "'a option \<Rightarrow> 'a option \<Rightarrow> 'a option" where
  "coalesce x y = (case x of None \<Rightarrow> y | Some v \<Rightarrow> Some v)"

definition nullTime :: "time \<Rightarrow> time option" where
  "nullTime t = (if IsZero t then None else Some t)"

definition truncate_bytes :: "string \<Rightarrow> nat \<Rightarrow> string" where
  "truncate_bytes v n = (if n = 0 \<or> length v \<le> n then v else take n v)"

text \<open>\<^verbatim>\<open>ON CONFLICT DO NOTHING\<close> on a table whose rows are their own keys.\<close>

definition add_new :: "'a \<Rightarrow> 'a list \<Rightarrow> 'a list" where
  "add_new x xs = (if List.member xs x then xs else xs @ [x])"

text \<open>The identifier returned by an upsert.\<close>

definition upsert_named :: "pg_named \<Rightarrow> (pg_named \<Rightarrow> pg_named) \<Rightarrow> pg_named list \<Rightarrow> pg_named list \<times> string" where
  "upsert_named new change rows =
     (upsert nm_key new change rows, case row_of nm_key (nm_key new) rows of None \<Rightarrow> nm_id new | Some r \<Rightarrow> nm_id r)"

section \<open>Retries\<close>

definition dbOperationTimeout :: duration where "dbOperationTimeout = 30 * Second"

definition pg_retry_pause :: "nat \<Rightarrow> duration" where
  "pg_retry_pause i = 2 ^ min i 4 * Second"

text \<open>
  The loop over the attempts: \<open>i\<close> is the number of the attempt, \<open>res\<close> the outcome of the one before. The time
  limit of an attempt shows as a failure of its statements.
\<close>

fun retry_loop :: "pg_env \<Rightarrow> nat \<Rightarrow> nat \<Rightarrow> (pg \<Rightarrow> pg \<times> (db_failure + 'a)) \<Rightarrow> db_failure + 'a \<Rightarrow> pg \<Rightarrow> pg \<times> (db_failure + 'a)" where
  "retry_loop env 0 i op res s = (s, res)"
| "retry_loop env (Suc n) i op res s =
     (case op s of
        (s1, Inr x) \<Rightarrow> (s1, Inr x)
      | (s1, Inl e) \<Rightarrow>
          if \<not> isTransientDBErr e then (s1, Inl e)
          else if pg_ctx_done env (db_tick s1) (pg_retry_pause i) then (s1, Inl canceled)
          else retry_loop env n (Suc i) op (Inl e) s1)"

definition retryTransient :: "pg_env \<Rightarrow> nat \<Rightarrow> 'a \<Rightarrow> (pg \<Rightarrow> pg \<times> (db_failure + 'a)) \<Rightarrow> pg \<Rightarrow> pg \<times> (db_failure + 'a)" where
  "retryTransient env attempts zero op s = retry_loop env attempts 0 op (Inr zero) s"

definition sanitized :: "string \<Rightarrow> pg \<times> (db_failure + 'a) \<Rightarrow> pg \<times> (store_error + 'a)" where
  "sanitized operation out = (case out of (s, Inl e) \<Rightarrow> (s, Inl (sanitizeDBError operation e)) | (s, Inr x) \<Rightarrow> (s, Inr x))"

section \<open>Runs and checkpoints\<close>

definition pg_CreateRun :: "pg_env \<Rightarrow> pg \<Rightarrow> IngestRun \<Rightarrow> pg \<times> store_error option" where
  "pg_CreateRun env s run =
     no_error (sanitized ''create run'' (retryTransient env 3 ()
       (pg_stmt env id (\<lambda>t d. if list_ex (\<lambda>r. gn_id r = rn_ID run) (pt_runs d) then None
          else Some (d\<lparr>pt_runs := pt_runs d @ [\<lparr>gn_id = rn_ID run, gn_source = rn_Source run, gn_mode = rn_Mode run,
            gn_status = rn_Status run, gn_params = rn_Params run, gn_requested_by = null_if_empty (rn_RequestedBy run),
            gn_started = rn_StartedAt run, gn_finished = None, gn_stats = None, gn_error = None,
            gn_created = db_now (pg_db env) t\<rparr>]\<rparr>, ()))) s))"

definition pg_FinishRun :: "pg_env \<Rightarrow> pg \<Rightarrow> string \<Rightarrow> string \<Rightarrow> Stats \<Rightarrow> string \<Rightarrow> pg \<times> store_error option" where
  "pg_FinishRun env s rid status stats errMsg =
     no_error (pg_exec env (sanitizeDBError ''finish run'') (\<lambda>t d. (d\<lparr>pt_runs :=
       map (\<lambda>r. if gn_id r = rid then r\<lparr>gn_status := status, gn_finished := Some (db_now (pg_db env) t), gn_stats := Some stats,
              gn_error := null_if_empty errMsg\<rparr> else r) (pt_runs d)\<rparr>, ())) s)"

definition pg_RecordError :: "pg_env \<Rightarrow> pg \<Rightarrow> string \<Rightarrow> string \<Rightarrow> string \<Rightarrow> string \<Rightarrow> pg \<times> store_error option" where
  "pg_RecordError env s runID externalID stage message =
     no_error (pg_write env (sanitizeDBError ''record error'') (\<lambda>d. d\<lparr>pt_errors := pt_errors d
       @ [(runID, null_if_empty externalID, null_if_empty stage, truncate_bytes message 1000)]\<rparr>) s)"

definition pg_GetCheckpoint :: "pg_env \<Rightarrow> pg \<Rightarrow> string \<Rightarrow> string \<Rightarrow> pg \<times> (store_error + string option)" where
  "pg_GetCheckpoint env s source scopeHash =
     sanitized ''get checkpoint'' (retryTransient env 3 None
       (pg_read env id (\<lambda>d. map_option (\<lambda>cursor. case cursor of None \<Rightarrow> '''' | Some c \<Rightarrow> c)
          (map_of (pt_checkpoints d) (source, scopeHash)))) s)"

section \<open>Cycles of the all-IT batch\<close>

text \<open>The CHECK constraints of \<^verbatim>\<open>ingest_cycles\<close> on its counters.\<close>

definition cycle_check :: "pg_cycle \<Rightarrow> bool" where
  "cycle_check c \<longleftrightarrow> 0 \<le> gc_partition_count c \<and> 0 \<le> gc_completed_partitions c
     \<and> gc_completed_partitions c \<le> gc_partition_count c \<and> 0 \<le> gc_expected_pages c \<and> 0 \<le> gc_completed_pages c
     \<and> gc_completed_pages c \<le> gc_expected_pages c
     \<and> (if gc_status c = ''complete'' then gc_completed c \<noteq> None \<and> gc_completed_partitions c = gc_partition_count c
        else gc_completed c = None)"

text \<open>An update with the number of its rows; \<open>None\<close> when a changed row violates a constraint.\<close>

definition update_where :: "('r \<Rightarrow> bool) \<Rightarrow> ('r \<Rightarrow> bool) \<Rightarrow> ('r \<Rightarrow> 'r) \<Rightarrow> 'r list \<Rightarrow> ('r list \<times> nat) option" where
  "update_where check p change rows =
     (if list_all check (map change (filter p rows))
      then Some (map (\<lambda>r. if p r then change r else r) rows, length (filter p rows)) else None)"

definition update_cycles :: "pg_env \<Rightarrow> (db_failure \<Rightarrow> 'e) \<Rightarrow> (pg_tables \<Rightarrow> pg_cycle \<Rightarrow> bool) \<Rightarrow> (time \<Rightarrow> pg_cycle \<Rightarrow> pg_cycle)
    \<Rightarrow> pg \<Rightarrow> pg \<times> ('e + nat)" where
  "update_cycles env err p change =
     pg_stmt env err (\<lambda>t d. map_option (\<lambda>(rows, n). (d\<lparr>pt_cycles := rows\<rparr>, n))
       (update_where cycle_check (p d) (change (db_now (pg_db env) t)) (pt_cycles d)))"

definition one_row :: "string \<Rightarrow> pg \<times> (store_error + nat) \<Rightarrow> pg \<times> store_error option" where
  "one_row message out =
     (case out of
        (s, Inl e) \<Rightarrow> (s, Some e)
      | (s, Inr n) \<Rightarrow> (s, if n \<noteq> 1 then Some (StoreFailure message) else None))"

definition cycle_key :: "pg_cycle \<Rightarrow> string \<times> string \<times> time" where
  "cycle_key c = (gc_source c, gc_scope_hash c, gc_cycle_end c)"

definition pg_StartCycle :: "pg_env \<Rightarrow> pg \<Rightarrow> Cycle \<Rightarrow> pg \<times> (store_error + string)" where
  "pg_StartCycle env s cycle =
     pg_stmt env (sanitizeDBError ''start cycle'') (\<lambda>t d.
       let new = \<lparr>gc_id = db_uuid (pg_db env) t, gc_source = cy_Source cycle, gc_scope = cy_Scope cycle,
             gc_scope_hash = cy_ScopeHash cycle, gc_cycle_end = cy_CycleEnd cycle, gc_status = ''running'',
             gc_partition_count = cy_PartitionCount cycle, gc_completed_partitions = cy_CompletedPartitions cycle,
             gc_started = db_now (pg_db env) t, gc_completed = None, gc_cycle_date = None, gc_cutoff = None,
             gc_expected_pages = 0, gc_completed_pages = 0, gc_method = None, gc_failed = None\<rparr>
       in case row_of cycle_key (cycle_key new) (pt_cycles d) of
            None \<Rightarrow> if cycle_check new then Some (d\<lparr>pt_cycles := pt_cycles d @ [new]\<rparr>, gc_id new) else None
          | Some old \<Rightarrow>
              map_option (\<lambda>(rows, _). (d\<lparr>pt_cycles := rows\<rparr>, gc_id old))
                (update_where cycle_check (\<lambda>c. cycle_key c = cycle_key new)
                   (\<lambda>c. c\<lparr>gc_partition_count := cy_PartitionCount cycle\<rparr>) (pt_cycles d))) s"

definition pg_UpdateCycleProgress :: "pg_env \<Rightarrow> pg \<Rightarrow> string \<Rightarrow> int \<Rightarrow> pg \<times> store_error option" where
  "pg_UpdateCycleProgress env s cid completedPartitions =
     one_row ''store update cycle progress: cycle is not running''
       (update_cycles env (sanitizeDBError ''update cycle progress'')
          (\<lambda>d c. gc_id c = cid \<and> gc_status c = ''running'')
          (\<lambda>_ c. c\<lparr>gc_completed_partitions := completedPartitions\<rparr>) s)"

definition complete_row :: "time \<Rightarrow> pg_cycle \<Rightarrow> pg_cycle" where
  "complete_row now c = c\<lparr>gc_status := ''complete'', gc_completed := coalesce (gc_completed c) (Some now)\<rparr>"

definition pg_CompleteCycle :: "pg_env \<Rightarrow> pg \<Rightarrow> string \<Rightarrow> int \<Rightarrow> pg \<times> store_error option" where
  "pg_CompleteCycle env s cid completedPartitions =
     one_row ''store complete cycle: partition coverage is incomplete''
       (update_cycles env (sanitizeDBError ''complete cycle'')
          (\<lambda>d c. gc_id c = cid \<and> (gc_status c = ''running'' \<or> gc_status c = ''complete'')
             \<and> gc_partition_count c = completedPartitions)
          (\<lambda>now c. complete_row now (c\<lparr>gc_completed_partitions := completedPartitions\<rparr>)) s)"

section \<open>Discovery\<close>

text \<open>The first row of an ordered selection.\<close>

fun least_by :: "('a \<Rightarrow> 'a \<Rightarrow> bool) \<Rightarrow> 'a list \<Rightarrow> 'a option" where
  "least_by before [] = None"
| "least_by before (x # xs) =
     (case least_by before xs of None \<Rightarrow> Some x | Some y \<Rightarrow> if before y x then Some y else Some x)"

definition cycle_of_row :: "pg_cycle \<Rightarrow> Cycle" where
  "cycle_of_row c = \<lparr>cy_ID = gc_id c, cy_Source = gc_source c, cy_Scope = gc_scope c, cy_ScopeHash = gc_scope_hash c,
     cy_CycleEnd = gc_cycle_end c, cy_PartitionCount = gc_partition_count c,
     cy_CompletedPartitions = gc_completed_partitions c, cy_Status = gc_status c,
     cy_CycleDate = (case gc_cycle_date c of None \<Rightarrow> 0 | Some x \<Rightarrow> x), cy_CutoffAt = (case gc_cutoff c of None \<Rightarrow> 0 | Some x \<Rightarrow> x),
     cy_ExpectedPages = gc_expected_pages c, cy_CompletedPages = gc_completed_pages c,
     cy_MethodVersion = (case gc_method c of None \<Rightarrow> '''' | Some m \<Rightarrow> m)\<rparr>"

definition pg_PendingDiscoveryCycle :: "pg_env \<Rightarrow> pg \<Rightarrow> string \<Rightarrow> string \<Rightarrow> pg \<times> (store_error + Cycle option)" where
  "pg_PendingDiscoveryCycle env s source methodVersion =
     pg_read env (sanitizeDBError ''pending discovery cycle'') (\<lambda>d.
       least_by (\<lambda>a b. cy_CycleDate a < cy_CycleDate b) (map cycle_of_row
         (filter (\<lambda>c. gc_source c = source \<and> gc_scope c = ''daily_discovery'' \<and> gc_method c = Some methodVersion
            \<and> gc_status c = ''running'') (pt_cycles d)))) s"

definition discovery_row :: "Cycle \<Rightarrow> int \<Rightarrow> string \<Rightarrow> time \<Rightarrow> pg_cycle" where
  "discovery_row cycle n i now = \<lparr>gc_id = i, gc_source = cy_Source cycle, gc_scope = ''daily_discovery'',
     gc_scope_hash = cy_ScopeHash cycle, gc_cycle_end = cy_CutoffAt cycle, gc_status = ''running'', gc_partition_count = n,
     gc_completed_partitions = cy_CompletedPartitions cycle, gc_started = now, gc_completed = None,
     gc_cycle_date = Some (day_start (cy_CycleDate cycle)), gc_cutoff = Some (cy_CutoffAt cycle),
     gc_expected_pages = cy_ExpectedPages cycle, gc_completed_pages = 0, gc_method = Some (cy_MethodVersion cycle),
     gc_failed = None\<rparr>"

text \<open>The insert with the partial unique index of the daily cycles; the other unique key rejects the row.\<close>

definition insert_discovery :: "pg_cycle \<Rightarrow> pg_tables \<Rightarrow> (pg_tables \<times> string) option" where
  "insert_discovery new d =
     (case find (\<lambda>c. gc_scope c = ''daily_discovery'' \<and> gc_source c = gc_source new \<and> gc_cycle_date c = gc_cycle_date new
             \<and> gc_method c = gc_method new) (pt_cycles d) of
        Some old \<Rightarrow> Some (d, gc_id old)
      | None \<Rightarrow>
          if \<not> cycle_check new \<or> row_of cycle_key (cycle_key new) (pt_cycles d) \<noteq> None then None
          else Some (d\<lparr>pt_cycles := pt_cycles d @ [new]\<rparr>, gc_id new))"

definition partition_check :: "pg_partition \<Rightarrow> bool" where
  "partition_check p \<longleftrightarrow> 0 \<le> gp_expected p \<and> 0 \<le> gp_next p \<and> gp_next p \<le> gp_expected p
     \<and> (gp_status p = ''complete'' \<longrightarrow> gp_next p = gp_expected p)"

definition partition_row :: "string \<Rightarrow> time \<Rightarrow> DiscoveryPartition \<Rightarrow> pg_partition" where
  "partition_row cid now p = \<lparr>gp_cycle = cid, gp_key = dp_Key p, gp_role = dp_ProfessionalRoleID p, gp_area = dp_Area p,
     gp_from = nullTime (dp_DateFrom p), gp_to = dp_DateTo p, gp_expected = dp_ExpectedPages p, gp_next = 0,
     gp_status = (if dp_ExpectedPages p = 0 then ''complete'' else ''pending''), gp_updated = now\<rparr>"

definition partition_key :: "pg_partition \<Rightarrow> string \<times> string" where
  "partition_key p = (gp_cycle p, gp_key p)"

definition insert_partition :: "pg_partition \<Rightarrow> pg_tables \<Rightarrow> (pg_tables \<times> unit) option" where
  "insert_partition new d =
     (if row_of partition_key (partition_key new) (pt_partitions d) \<noteq> None then Some (d, ())
      else if partition_check new then Some (d\<lparr>pt_partitions := pt_partitions d @ [new]\<rparr>, ()) else None)"

definition pg_StartDiscoveryCycle :: "pg_env \<Rightarrow> pg \<Rightarrow> Cycle \<Rightarrow> DiscoveryPartition list \<Rightarrow> pg \<times> (store_error + string)" where
  "pg_StartDiscoveryCycle env s cycle partitions =
     pg_tx env (sanitizeDBError ''begin discovery cycle'') (\<lambda>_. sanitizeDBError ''commit discovery cycle'') (\<lambda>now.
       and_do (pg_stmt env (sanitizeDBError ''start discovery cycle'') (\<lambda>t.
           insert_discovery (discovery_row cycle (int (length partitions)) (db_uuid (pg_db env) t) now))) (\<lambda>cid.
       and_do (for_each (\<lambda>part. pg_stmt env (sanitizeDBError ''insert discovery partition'') (\<lambda>_.
           insert_partition (partition_row cid now part))) partitions) (\<lambda>_.
       give cid))) s"

definition partition_of_row :: "pg_partition \<Rightarrow> DiscoveryPartition" where
  "partition_of_row p = \<lparr>dp_Key = gp_key p, dp_ProfessionalRoleID = gp_role p, dp_Area = gp_area p,
     dp_DateFrom = (case gp_from p of None \<Rightarrow> 0 | Some x \<Rightarrow> x), dp_DateTo = gp_to p, dp_ExpectedPages = gp_expected p,
     dp_NextPage = gp_next p, dp_Status = gp_status p\<rparr>"

definition pg_NextDiscoveryPartition :: "pg_env \<Rightarrow> pg \<Rightarrow> string \<Rightarrow> pg \<times> (store_error + DiscoveryPartition option)" where
  "pg_NextDiscoveryPartition env s cid =
     pg_read env (sanitizeDBError ''next discovery partition'') (\<lambda>d.
       least_by (\<lambda>a b. pg_before env (dp_Key a) (dp_Key b)) (map partition_of_row
         (filter (\<lambda>p. gp_cycle p = cid \<and> gp_status p \<noteq> ''complete'') (pt_partitions d)))) s"

text \<open>The row a transaction locks; its absence is an error of the query.\<close>

definition lock_partition :: "pg_env \<Rightarrow> string \<Rightarrow> string \<Rightarrow> string \<Rightarrow> pg \<Rightarrow> pg \<times> (store_error + pg_partition)" where
  "lock_partition env operation cid key =
     pg_stmt env (sanitizeDBError operation) (\<lambda>_ d. map_option (Pair d) (row_of partition_key (cid, key) (pt_partitions d)))"

definition update_partition :: "pg_env \<Rightarrow> string \<Rightarrow> string \<Rightarrow> string \<Rightarrow> (pg_partition \<Rightarrow> pg_partition) \<Rightarrow> pg \<Rightarrow> pg \<times> (store_error + unit)" where
  "update_partition env operation cid key change =
     pg_stmt env (sanitizeDBError operation) (\<lambda>_ d. map_option (\<lambda>(rows, _). (d\<lparr>pt_partitions := rows\<rparr>, ()))
       (update_where partition_check (\<lambda>p. partition_key p = (cid, key)) change (pt_partitions d)))"

definition advance_cycle :: "pg_env \<Rightarrow> string \<Rightarrow> string \<Rightarrow> int \<Rightarrow> int \<Rightarrow> int \<Rightarrow> pg \<Rightarrow> pg \<times> (store_error + nat)" where
  "advance_cycle env operation cid pages expected finished =
     update_cycles env (sanitizeDBError operation) (\<lambda>_ c. gc_id c = cid \<and> gc_status c = ''running'')
       (\<lambda>_ c. c\<lparr>gc_completed_pages := gc_completed_pages c + pages, gc_expected_pages := gc_expected_pages c + expected,
          gc_completed_partitions := gc_completed_partitions c + finished\<rparr>)"

definition raw_error :: "db_failure \<Rightarrow> store_error" where
  "raw_error e = StoreFailure (df_text e)"

definition recount_page :: "pg_env \<Rightarrow> string \<Rightarrow> string \<Rightarrow> int \<Rightarrow> time \<Rightarrow> pg_partition \<Rightarrow> pg \<Rightarrow> pg \<times> (store_error + bool)" where
  "recount_page env cid key expectedPages now old =
     (if gp_next old \<noteq> 0 \<or> gp_expected old = expectedPages then give True
      else
        and_do (update_partition env ''update discovery page reconcile'' cid key (\<lambda>p. p\<lparr>gp_expected := expectedPages,
            gp_status := (if expectedPages = 0 then ''complete'' else ''pending''), gp_updated := now\<rparr>)) (\<lambda>_.
        and_do (advance_cycle env ''update discovery cycle reconcile'' cid 0 (expectedPages - gp_expected old)
            (if expectedPages = 0 then 1 else 0)) (\<lambda>_.
        give False)))"

definition pg_SetDiscoveryExpectedPages :: "pg_env \<Rightarrow> pg \<Rightarrow> string \<Rightarrow> string \<Rightarrow> int \<Rightarrow> pg \<times> store_error option" where
  "pg_SetDiscoveryExpectedPages env s cid key expectedPages =
     (if expectedPages < 0 then (s, Some (StoreFailure ''store discovery expected pages: negative value''))
      else no_error (pg_tx env (sanitizeDBError ''begin discovery page reconcile'')
        (\<lambda>early. if early then raw_error else sanitizeDBError ''commit discovery page reconcile'') (\<lambda>now.
          and_do (lock_partition env ''lock discovery page reconcile'' cid key) (recount_page env cid key expectedPages now)) s))"

section \<open>Dictionaries\<close>

definition upsertEmployer :: "pg_env \<Rightarrow> string \<Rightarrow> string \<Rightarrow> string \<Rightarrow> pg \<Rightarrow> pg \<times> (db_failure + string)" where
  "upsertEmployer env source externalID name =
     (let name = (if name = '''' then externalID else name) in
      pg_exec env (atDBStage ''upsert employer'') (\<lambda>t d.
        case upsert_named \<lparr>nm_id = db_uuid (pg_db env) t, nm_key = (source, externalID), nm_name = truncate_bytes name 500,
               nm_family = None, nm_active = True\<rparr>
             (\<lambda>r. r\<lparr>nm_name := truncate_bytes name 500, nm_active := True\<rparr>) (pt_employers d) of
          (rows, i) \<Rightarrow> (d\<lparr>pt_employers := rows\<rparr>, i)))"

definition upsertRegion :: "pg_env \<Rightarrow> string \<Rightarrow> string \<Rightarrow> string \<Rightarrow> pg \<Rightarrow> pg \<times> (db_failure + string)" where
  "upsertRegion env source externalID name =
     (let name = (if name = '''' then externalID else name) in
      and_do (pg_read env (atDBStage ''lookup region'') (\<lambda>d. map_of (pt_region_ids d) (source, externalID))) (\<lambda>found.
        case found of
          Some i \<Rightarrow> give i
        | None \<Rightarrow>
            and_do (pg_exec env (atDBStage ''upsert region'') (\<lambda>t d.
                case upsert_named \<lparr>nm_id = db_uuid (pg_db env) t, nm_key = (''RU'', externalID), nm_name = truncate_bytes name 500,
                       nm_family = None, nm_active = True\<rparr>
                     (\<lambda>r. r\<lparr>nm_name := truncate_bytes name 500, nm_active := True\<rparr>) (pt_regions d) of
                  (rows, i) \<Rightarrow> (d\<lparr>pt_regions := rows\<rparr>, i))) (\<lambda>i.
            and_do (pg_write env (atDBStage ''map region'') (\<lambda>d.
                d\<lparr>pt_region_ids := AList.update (source, externalID) i (pt_region_ids d)\<rparr>)) (\<lambda>_.
            give i))))"

definition skill_slug :: "SkillRef \<Rightarrow> string" where
  "skill_slug sk = (if sk_SkillID sk = '''' then NormalizeSkillName (sk_RawName sk) else sk_SkillID sk)"

definition alias_of :: "string \<Rightarrow> pg_tables \<Rightarrow> string option" where
  "alias_of slug d =
     map_option (fst \<circ> snd) (least_by (\<lambda>a b. fst a < fst b)
       (filter (\<lambda>(_, skill, pattern, source). pattern = slug \<and> source = None
          \<and> list_ex (\<lambda>r. nm_id r = skill \<and> nm_active r) (pt_skills d)) (pt_skill_aliases d)))"

definition upsert_skill :: "pg_env \<Rightarrow> string \<Rightarrow> string \<Rightarrow> pg \<Rightarrow> pg \<times> (db_failure + string)" where
  "upsert_skill env slug name =
     and_do (pg_read env (atDBStage ''lookup skill alias'') (alias_of slug)) (\<lambda>found.
       case found of
         Some i \<Rightarrow> give i
       | None \<Rightarrow> pg_exec env (atDBStage ''upsert skill'') (\<lambda>t d.
           case upsert_named \<lparr>nm_id = db_uuid (pg_db env) t, nm_key = ('''', slug), nm_name = truncate_bytes name 200,
                  nm_family = None, nm_active = True\<rparr>
                (\<lambda>r. r\<lparr>nm_name := (if nm_name r = '''' then truncate_bytes name 200 else nm_name r), nm_active := True\<rparr>)
                (pt_skills d) of
             (rows, i) \<Rightarrow> (d\<lparr>pt_skills := rows\<rparr>, i)))"

fun upsertSkills :: "pg_env \<Rightarrow> string list \<Rightarrow> SkillRef list \<Rightarrow> pg \<Rightarrow> pg \<times> (db_failure + string list)" where
  "upsertSkills env ids [] = give ids"
| "upsertSkills env ids (sk # skills) =
     (let slug = skill_slug sk in
      if slug = '''' then upsertSkills env ids skills
      else and_do (upsert_skill env slug (if sk_RawName sk = '''' then slug else sk_RawName sk)) (\<lambda>i.
        upsertSkills env (add_new i ids) skills))"

section \<open>Pages of a discovery cycle\<close>

definition observation_row :: "string \<Rightarrow> DiscoveryObservation \<Rightarrow> pg_observation" where
  "observation_row cid ob = \<lparr>go_cycle = cid, go_source = ''hh'', go_external = ob_ExternalID ob, go_published = ob_PublishedAt ob,
     go_region = null_if_empty (ob_ExternalRegionID ob), go_region_name = null_if_empty (ob_ExternalRegionName ob),
     go_primary = ob_PrimaryRoleExternalID ob, go_group = ob_RoleGroup ob, go_roles = ob_ExternalRoleIDs ob,
     go_from = map_option (numeric_scale 2) (ob_SalaryFrom ob), go_to = map_option (numeric_scale 2) (ob_SalaryTo ob),
     go_currency = null_if_empty (ob_SalaryCurrency ob), go_gross = ob_SalaryGross ob,
     go_mid = map_option (numeric_scale 2) (ob_SalaryMidRubNet ob), go_eligible = ob_SalaryEligible ob,
     go_observed = ob_ObservedAt ob\<rparr>"

definition pg_observation_check :: "pg_observation \<Rightarrow> bool" where
  "pg_observation_check o1 \<longleftrightarrow> go_group o1 \<in> {''software_development'', ''analytics'', ''quality_assurance''} \<and> go_external o1 \<noteq> ''''
     \<and> (if go_eligible o1 then (case go_mid o1 of None \<Rightarrow> True | Some m \<Rightarrow> 10000 \<le> m \<and> m \<le> 2000000) else go_mid o1 = None)"

definition observation_key :: "pg_observation \<Rightarrow> string \<times> string \<times> string" where
  "observation_key o1 = (go_cycle o1, go_source o1, go_external o1)"

definition save_observation :: "pg_env \<Rightarrow> string \<Rightarrow> DiscoveryObservation \<Rightarrow> pg \<Rightarrow> pg \<times> (store_error + unit)" where
  "save_observation env cid ob =
     and_do (if ob_ExternalRegionID ob = '''' then give ''''
         else (\<lambda>s. sanitized ''upsert discovery region''
                 (upsertRegion env ''hh'' (ob_ExternalRegionID ob) (ob_ExternalRegionName ob) s))) (\<lambda>_.
       pg_stmt env (sanitizeDBError ''upsert discovery observation'') (\<lambda>_ d.
         let new = observation_row cid ob in
         if pg_observation_check new then Some (d\<lparr>pt_observations := upsert observation_key new (\<lambda>_. new) (pt_observations d)\<rparr>, ())
         else None))"

text \<open>The part of the page after its observations: \<open>True\<close> is a page that was committed before.\<close>

definition advance_page :: "pg_env \<Rightarrow> string \<Rightarrow> string \<Rightarrow> int \<Rightarrow> time \<Rightarrow> pg_partition \<Rightarrow> pg \<Rightarrow> pg \<times> (store_error + bool)" where
  "advance_page env cid key next1 now row =
     (if next1 \<le> gp_next row then give True
      else if gp_expected row < next1 then (\<lambda>s. (s, Inl (StoreFailure ''store discovery page: page exceeds expected count'')))
      else
        and_do (update_partition env ''advance discovery partition'' cid key (\<lambda>p. p\<lparr>gp_next := next1,
            gp_status := (if next1 = gp_expected row then ''complete'' else ''running''), gp_updated := now\<rparr>)) (\<lambda>_.
        and_do (advance_cycle env ''advance discovery cycle'' cid 1 0 (if next1 = gp_expected row then 1 else 0)) (\<lambda>_.
        give False)))"

definition pg_SaveDiscoveryPage :: "pg_env \<Rightarrow> pg \<Rightarrow> string \<Rightarrow> DiscoveryPartition \<Rightarrow> DiscoveryObservation list
    \<Rightarrow> pg \<times> store_error option" where
  "pg_SaveDiscoveryPage env s cid part observations =
     no_error (pg_tx env (sanitizeDBError ''begin discovery page'')
       (\<lambda>early. if early then raw_error else sanitizeDBError ''commit discovery page'') (\<lambda>now.
         and_do (lock_partition env ''lock discovery partition'' cid (dp_Key part)) (\<lambda>row.
         and_do (for_each (save_observation env cid) observations) (\<lambda>_.
         advance_page env cid (dp_Key part) (dp_NextPage part + 1) now row))) s)"

definition pg_CompleteDiscoveryCycle :: "pg_env \<Rightarrow> pg \<Rightarrow> string \<Rightarrow> pg \<times> store_error option" where
  "pg_CompleteDiscoveryCycle env s cid =
     one_row ''store complete discovery cycle: page coverage is incomplete''
       (update_cycles env (sanitizeDBError ''complete discovery cycle'')
          (\<lambda>d c. gc_id c = cid \<and> gc_scope c = ''daily_discovery'' \<and> (gc_status c = ''running'' \<or> gc_status c = ''complete'')
             \<and> gc_completed_pages c = gc_expected_pages c \<and> gc_completed_partitions c = gc_partition_count c
             \<and> \<not> list_ex (\<lambda>p. gp_cycle p = gc_id c \<and> gp_status p \<noteq> ''complete'') (pt_partitions d))
          complete_row s)"

text \<open>The parts of the reconciling statement: the cycle, the observations of it, and the three updates.\<close>

definition complete_daily :: "string \<Rightarrow> pg_tables \<Rightarrow> bool" where
  "complete_daily cid d = list_ex (\<lambda>c. gc_id c = cid \<and> gc_source c = ''hh'' \<and> gc_scope c = ''daily_discovery''
     \<and> gc_status c = ''complete'' \<and> gc_method c = Some ''vacancy_demand_v2'') (pt_cycles d)"

definition seen_at_cycle :: "string \<Rightarrow> pg_tables \<Rightarrow> string \<Rightarrow> time option" where
  "seen_at_cycle cid d ext =
     (if complete_daily cid d
      then least_by (\<lambda>a b. b < a) (map go_observed (filter (\<lambda>o1. go_cycle o1 = cid \<and> go_external o1 = ext) (pt_observations d)))
      else None)"

definition deactivates :: "string \<Rightarrow> pg_tables \<Rightarrow> pg_vacancy \<Rightarrow> bool" where
  "deactivates cid d v \<longleftrightarrow> va_source v = ''hh'' \<and> va_deleted v = None \<and> complete_daily cid d
     \<and> list_ex (\<lambda>(vid, _, scope). vid = va_id v \<and> scope = ''vacancy_listing'') (pt_vacancy_scopes d)
     \<and> seen_at_cycle cid d (va_external v) = None \<and> va_active v"

definition reconcile_row :: "time \<Rightarrow> string \<Rightarrow> pg_tables \<Rightarrow> pg_vacancy \<Rightarrow> pg_vacancy" where
  "reconcile_row now cid d v =
     (case if va_source v = ''hh'' then seen_at_cycle cid d (va_external v) else None of
        Some at1 \<Rightarrow>
          if va_active v then v\<lparr>va_last_seen := Some at1, va_last_cycle := Some cid, va_updated := now\<rparr>
          else v\<lparr>va_active := True, va_last_seen := Some at1, va_last_cycle := Some cid, va_deactivated := None,
                 va_reason := None, va_updated := now\<rparr>
      | None \<Rightarrow>
          if deactivates cid d v
          then v\<lparr>va_active := False, va_deactivated := coalesce (va_deactivated v) (Some now),
                 va_reason := Some ''missing_from_complete_cycle'', va_updated := now\<rparr>
          else v)"

definition count_rows :: "('r \<Rightarrow> bool) \<Rightarrow> 'r list \<Rightarrow> int" where
  "count_rows p rows = int (length (filter p rows))"

definition pg_ReconcileDiscoveryStatuses :: "pg_env \<Rightarrow> pg \<Rightarrow> string \<Rightarrow> pg \<times> (store_error + StatusReconciliation)" where
  "pg_ReconcileDiscoveryStatuses env s cid =
     pg_tx env (sanitizeDBError ''begin status reconciliation'') (\<lambda>_. sanitizeDBError ''commit status reconciliation'') (\<lambda>now.
       pg_exec env (sanitizeDBError ''reconcile vacancy statuses'') (\<lambda>_ d.
         let seen = (\<lambda>v. va_source v = ''hh'' \<and> seen_at_cycle cid d (va_external v) \<noteq> None) in
         (d\<lparr>pt_vacancies := map (reconcile_row now cid d) (pt_vacancies d)\<rparr>,
          \<lparr>rc_Reactivated = count_rows (\<lambda>v. seen v \<and> \<not> va_active v) (pt_vacancies d),
           rc_Deactivated = count_rows (deactivates cid d) (pt_vacancies d),
           rc_StillActive = count_rows (\<lambda>v. seen v \<and> va_active v) (pt_vacancies d)\<rparr>))) s"

definition pg_FailDiscoveryCycle :: "pg_env \<Rightarrow> pg \<Rightarrow> string \<Rightarrow> pg \<times> store_error option" where
  "pg_FailDiscoveryCycle env s cid =
     no_error (update_cycles env (sanitizeDBError ''fail discovery cycle'')
       (\<lambda>_ c. gc_id c = cid \<and> gc_scope c = ''daily_discovery'' \<and> gc_status c = ''running'')
       (\<lambda>now c. c\<lparr>gc_status := ''failed'', gc_failed := Some now\<rparr>) s)"

text \<open>\<open>pt_snapshots\<close> holds the cycle and the method of the successful daily snapshots.\<close>

definition expired :: "time \<Rightarrow> pg_tables \<Rightarrow> pg_observation \<Rightarrow> bool" where
  "expired before d o1 = list_ex (\<lambda>c. gc_id c = go_cycle o1 \<and> gc_scope c = ''daily_discovery''
     \<and> (case gc_cycle_date c of None \<Rightarrow> False | Some day \<Rightarrow> day < day_start before)
     \<and> list_ex (\<lambda>(cid, m). cid = gc_id c \<and> Some m = gc_method c) (pt_snapshots d)) (pt_cycles d)"

definition pg_CleanupDiscoveryObservations :: "pg_env \<Rightarrow> pg \<Rightarrow> time \<Rightarrow> pg \<times> (store_error + int)" where
  "pg_CleanupDiscoveryObservations env s before =
     pg_exec env (sanitizeDBError ''cleanup discovery observations'') (\<lambda>_ d.
       (d\<lparr>pt_observations := filter (\<lambda>o1. \<not> expired before d o1) (pt_observations d)\<rparr>,
        count_rows (expired before d) (pt_observations d))) s"

section \<open>Roles and rates\<close>

definition sync_role :: "pg_env \<Rightarrow> string \<Rightarrow> SourceRole \<Rightarrow> pg \<Rightarrow> pg \<times> (db_failure + string)" where
  "sync_role env source role1 =
     and_do (pg_exec env (atDBStage ''upsert role'') (\<lambda>t d.
         case upsert_named \<lparr>nm_id = db_uuid (pg_db env) t,
                nm_key = ('''', source @ ''-'' @ sr_Family role1 @ ''-'' @ sr_ExternalID role1),
                nm_name = truncate_bytes (sr_Title role1) 500, nm_family = null_if_empty (sr_Family role1), nm_active = True\<rparr>
              (\<lambda>r. r\<lparr>nm_name := truncate_bytes (sr_Title role1) 500, nm_family := null_if_empty (sr_Family role1), nm_active := True\<rparr>)
              (pt_roles d) of
           (rows, i) \<Rightarrow> (d\<lparr>pt_roles := rows\<rparr>, i))) (\<lambda>i.
     and_do (pg_write env (atDBStage ''upsert role alias'') (\<lambda>d.
         d\<lparr>pt_role_aliases := AList.update (source, sr_ExternalID role1) i (pt_role_aliases d)\<rparr>)) (\<lambda>_.
     and_do (for_each (\<lambda>scope. pg_write env (atDBStage ''upsert role scope'') (\<lambda>d.
         d\<lparr>pt_role_scopes := add_new (i, scope) (pt_role_scopes d)\<rparr>)) (sr_Scopes role1)) (\<lambda>_.
     give i)))"

text \<open>The map is filled anew by every attempt: each writes the same keys.\<close>

fun sync_roles :: "pg_env \<Rightarrow> string \<Rightarrow> SourceRole list \<Rightarrow> (string \<rightharpoonup> string) \<Rightarrow> pg \<Rightarrow> pg \<times> (db_failure + (string \<rightharpoonup> string))" where
  "sync_roles env source [] result = give result"
| "sync_roles env source (role1 # roles) result =
     (if sr_ExternalID role1 = '''' \<or> sr_Title role1 = '''' then sync_roles env source roles result
      else and_do (sync_role env source role1) (\<lambda>i. sync_roles env source roles (result(sr_ExternalID role1 \<mapsto> i))))"

definition pg_SyncRoles :: "pg_env \<Rightarrow> pg \<Rightarrow> string \<Rightarrow> SourceRole list \<Rightarrow> pg \<times> (store_error + (string \<rightharpoonup> string))" where
  "pg_SyncRoles env s source roles =
     sanitized ''sync roles'' (retryTransient env 3 Map.empty
       (pg_tx env (atDBStage ''begin role sync'') (\<lambda>_. id) (\<lambda>_. sync_roles env source roles Map.empty)) s)"

definition add_rate :: "RateTable \<Rightarrow> pg_rate \<Rightarrow> RateTable" where
  "add_rate table r =
     table(fr_currency r \<mapsto>
       (case table (fr_currency r) of None \<Rightarrow> Map.empty | Some m \<Rightarrow> m)(format_date (fr_date r) \<mapsto>
         \<lparr>rr_RubPerUnit = fr_rate r, rr_RateDate = fr_date r, rr_Provider = fr_provider r\<rparr>))"

definition pg_LoadFXRates :: "pg_env \<Rightarrow> pg \<Rightarrow> time \<Rightarrow> time \<Rightarrow> pg \<times> (store_error + RateTable)" where
  "pg_LoadFXRates env s from to =
     pg_read env (sanitizeDBError ''load FX rates'') (\<lambda>d.
       foldl add_rate Map.empty (filter (\<lambda>r. day_start from \<le> fr_date r \<and> fr_date r \<le> day_start to) (pt_rates d))) s"

section \<open>Vacancies\<close>

definition row_key :: "pg_vacancy \<Rightarrow> string \<times> string" where
  "row_key v = (va_source v, va_external v)"

definition pg_MarkVacancyInactive :: "pg_env \<Rightarrow> pg \<Rightarrow> string \<Rightarrow> string \<Rightarrow> string \<Rightarrow> pg \<times> store_error option" where
  "pg_MarkVacancyInactive env s source externalID reason =
     no_error (pg_exec env (sanitizeDBError ''mark vacancy inactive'') (\<lambda>t d. (d\<lparr>pt_vacancies :=
       map (\<lambda>v. if row_key v = (source, externalID) \<and> va_deleted v = None
                then v\<lparr>va_active := False, va_deactivated := coalesce (va_deactivated v) (Some (db_now (pg_db env) t)),
                       va_reason := null_if_empty reason, va_updated := db_now (pg_db env) t\<rparr> else v) (pt_vacancies d)\<rparr>, ())) s)"

definition hex_value :: "char \<Rightarrow> nat option" where
  "hex_value c = (let b = byte_val c in
     if 48 \<le> b \<and> b \<le> 57 then Some (b - 48) else if 97 \<le> b \<and> b \<le> 102 then Some (b - 87)
     else if 65 \<le> b \<and> b \<le> 70 then Some (b - 55) else None)"

fun hex_bytes :: "string \<Rightarrow> nat list option" where
  "hex_bytes [] = Some []"
| "hex_bytes [c] = None"
| "hex_bytes (c # c' # cs) =
     (case (hex_value c, hex_value c', hex_bytes cs) of
        (Some hi, Some lo, Some bs) \<Rightarrow> Some ((16 * hi + lo) # bs) | _ \<Rightarrow> None)"

text \<open>NULL and nil are the empty list of bytes.\<close>

definition decodeHash :: "pg_env \<Rightarrow> string \<Rightarrow> db_failure + nat list" where
  "decodeHash env hexStr =
     (case hex_bytes hexStr of
        None \<Rightarrow> Inl ((pg_hex_error env hexStr)\<lparr>df_text := ''store content_hash: '' @ df_text (pg_hex_error env hexStr)\<rparr>)
      | Some bs \<Rightarrow> Inr bs)"

definition salaryMidForStore :: "CanonicalVacancy \<Rightarrow> float64 option" where
  "salaryMidForStore v =
     (if v_ExcludeFromSalaryAgg v then None else coalesce (v_SalaryMidRub v) (v_SalaryMid v))"

definition salaryBoundRub :: "CanonicalVacancy \<Rightarrow> float64 option \<Rightarrow> float64 option" where
  "salaryBoundRub v bound =
     (case (bound, v_SalaryMid v, v_SalaryMidRub v) of
        (Some b, Some mid, Some rub) \<Rightarrow> if mid \<le> 0 then None else Some (b * (rub / mid))
      | _ \<Rightarrow> None)"

definition given_role :: "CanonicalVacancy \<Rightarrow> string option" where
  "given_role v = (case v_RoleID v of None \<Rightarrow> None | Some r \<Rightarrow> null_if_empty r)"

definition touch_row :: "time \<Rightarrow> CanonicalVacancy \<Rightarrow> string option \<Rightarrow> string option \<Rightarrow> pg_vacancy \<Rightarrow> pg_vacancy" where
  "touch_row now v employerID regionID r = r\<lparr>va_collected := v_CollectedAt v, va_active := v_IsActive v,
     va_last_seen := (if v_IsActive v then Some (v_CollectedAt v) else va_last_seen r),
     va_deactivated := (if v_IsActive v then None else coalesce (va_deactivated r) (Some now)),
     va_reason := (if v_IsActive v then None else coalesce (va_reason r) (Some ''detail_reported_inactive'')),
     va_region := regionID, va_role := given_role v, va_employer := employerID, va_source_url := null_if_empty (v_SourceURL v),
     va_remote := coalesce (v_IsRemote v) (va_remote r), va_deleted := None, va_updated := now\<rparr>"

definition new_row :: "time \<Rightarrow> string \<Rightarrow> CanonicalVacancy \<Rightarrow> string option \<Rightarrow> string option \<Rightarrow> nat list \<Rightarrow> string option \<Rightarrow> pg_vacancy" where
  "new_row now i v employerID regionID hash raw = \<lparr>va_id = i, va_source = v_Source v, va_external = v_ExternalID v,
     va_source_url = null_if_empty (v_SourceURL v), va_title = v_Title v, va_employer = employerID, va_role = given_role v,
     va_region = regionID, va_salary_from = map_option (numeric_scale 2) (v_SalaryFrom v),
     va_salary_to = map_option (numeric_scale 2) (v_SalaryTo v), va_currency = null_if_empty (v_SalaryCurrency v),
     va_gross = v_SalaryGross v, va_mid = map_option (numeric_scale 2) (salaryMidForStore v),
     va_from_rub = map_option (numeric_scale 2) (salaryBoundRub v (v_SalaryFrom v)),
     va_to_rub = map_option (numeric_scale 2) (salaryBoundRub v (v_SalaryTo v)),
     va_rate_date = map_option day_start (v_SalaryRateDate v), va_rate_provider = null_if_empty (v_SalaryRateProvider v),
     va_description = null_if_empty (v_DescriptionText v), va_truncated = v_DescriptionTruncated v,
     va_published = nullTime (v_PublishedAt v), va_collected = v_CollectedAt v, va_first_observed = v_CollectedAt v,
     va_active = v_IsActive v, va_deleted = None, va_last_seen = (if v_IsActive v then Some (v_CollectedAt v) else None),
     va_last_cycle = None, va_deactivated = None, va_reason = None, va_hash = hash, va_raw = raw, va_remote = v_IsRemote v,
     va_revision = 1, va_updated = now\<rparr>"

text \<open>
  \<^verbatim>\<open>DO UPDATE\<close>: what a row keeps of the old one is its identifier, the first observation, the last cycle, and
  what the cases of the statement keep; the revision grows by one.
\<close>

definition merge_row :: "time \<Rightarrow> pg_vacancy \<Rightarrow> pg_vacancy \<Rightarrow> pg_vacancy" where
  "merge_row now new r = new\<lparr>va_id := va_id r, va_first_observed := va_first_observed r, va_last_cycle := va_last_cycle r,
     va_last_seen := (if va_active new then Some (va_collected new) else va_last_seen r),
     va_deactivated := (if va_active new then None else coalesce (va_deactivated r) (Some now)),
     va_reason := (if va_active new then None else coalesce (va_reason r) (Some ''detail_reported_inactive'')),
     va_revision := va_revision r + 1, va_remote := coalesce (va_remote new) (va_remote r)\<rparr>"

definition syncVacancyRoleScopes :: "pg_env \<Rightarrow> string \<Rightarrow> string \<Rightarrow> string list \<Rightarrow> pg \<Rightarrow> pg \<times> (db_failure + unit)" where
  "syncVacancyRoleScopes env vacancyID source externalRoleIDs =
     and_do (pg_write env (atDBStage ''clear vacancy role scopes'') (\<lambda>d.
         d\<lparr>pt_vacancy_scopes := filter (\<lambda>(vid, _). vid \<noteq> vacancyID) (pt_vacancy_scopes d)\<rparr>)) (\<lambda>_.
       for_each (\<lambda>ext. pg_write env (atDBStage ''link vacancy role scope'') (\<lambda>d.
         case map_of (pt_role_aliases d) (source, ext) of
           None \<Rightarrow> d
         | Some role1 \<Rightarrow> d\<lparr>pt_vacancy_scopes := foldl (\<lambda>rows scope. add_new (vacancyID, role1, scope) rows) (pt_vacancy_scopes d)
             (map snd (filter (\<lambda>(r, _). r = role1) (pt_role_scopes d)))\<rparr>)) externalRoleIDs)"

definition touch_vacancy :: "pg_env \<Rightarrow> time \<Rightarrow> VacancyWrite \<Rightarrow> string option \<Rightarrow> string option \<Rightarrow> string \<Rightarrow> pg \<Rightarrow> pg \<times> (db_failure + bool)" where
  "touch_vacancy env now item employerID regionID vacancyID =
     and_do (pg_write env (atDBStage ''touch vacancy'') (\<lambda>d. d\<lparr>pt_vacancies :=
         map (\<lambda>r. if va_id r = vacancyID then touch_row now (vw_Vacancy item) employerID regionID r else r) (pt_vacancies d)\<rparr>)) (\<lambda>_.
     and_do (syncVacancyRoleScopes env vacancyID (v_Source (vw_Vacancy item)) (vw_ScopeRoleIDs item)) (\<lambda>_.
     give False))"

definition write_vacancy :: "pg_env \<Rightarrow> time \<Rightarrow> VacancyWrite \<Rightarrow> string option \<Rightarrow> string option \<Rightarrow> string list \<Rightarrow> nat list
    \<Rightarrow> pg \<Rightarrow> pg \<times> (db_failure + bool)" where
  "write_vacancy env now item employerID regionID skillIDs hash =
     (let v = vw_Vacancy item;
          raw = (if vw_RawPayload item \<noteq> '''' \<and> pg_json_valid env (vw_RawPayload item) then Some (vw_RawPayload item) else None)
      in
      and_do (pg_exec env (atDBStage ''upsert vacancy'') (\<lambda>t d.
          let new = new_row now (db_uuid (pg_db env) t) v employerID regionID hash raw in
          (d\<lparr>pt_vacancies := upsert row_key new (merge_row now new) (pt_vacancies d)\<rparr>,
           case row_of row_key (row_key new) (pt_vacancies d) of None \<Rightarrow> va_id new | Some r \<Rightarrow> va_id r))) (\<lambda>vacancyID.
      and_do (syncVacancyRoleScopes env vacancyID (v_Source v) (vw_ScopeRoleIDs item)) (\<lambda>_.
      and_do (pg_write env (atDBStage ''clear vacancy skills'') (\<lambda>d.
          d\<lparr>pt_vacancy_skills := filter (\<lambda>(vid, _). vid \<noteq> vacancyID) (pt_vacancy_skills d)\<rparr>)) (\<lambda>_.
      and_do (for_each (\<lambda>sid. pg_write env (atDBStage ''link vacancy skill'') (\<lambda>d.
          d\<lparr>pt_vacancy_skills := add_new (vacancyID, sid) (pt_vacancy_skills d)\<rparr>)) skillIDs) (\<lambda>_.
      give True)))))"

definition upsertVacancy :: "pg_env \<Rightarrow> time \<Rightarrow> VacancyWrite \<Rightarrow> pg \<Rightarrow> pg \<times> (db_failure + bool)" where
  "upsertVacancy env now item =
     (let v = vw_Vacancy item in
      and_do (if v_EmployerExternalID v = '''' then give None
          else and_do (upsertEmployer env (v_Source v) (v_EmployerExternalID v) (v_EmployerName v)) (\<lambda>i. give (Some i))) (\<lambda>employerID.
      and_do (if v_RegionExternalID v = '''' then give None
          else and_do (upsertRegion env (v_Source v) (v_RegionExternalID v)
                 (if vw_RegionName item = '''' then v_RegionExternalID v else vw_RegionName item)) (\<lambda>i. give (Some i))) (\<lambda>regionID.
      and_do (upsertSkills env [] (v_Skills v)) (\<lambda>skillIDs.
      and_do (\<lambda>s. (s, decodeHash env (v_ContentHash v))) (\<lambda>hash.
      and_do (pg_read env (atDBStage ''select vacancy'') (\<lambda>d. row_of row_key (v_Source v, v_ExternalID v) (pt_vacancies d))) (\<lambda>found.
        case found of
          None \<Rightarrow> write_vacancy env now item employerID regionID skillIDs hash
        | Some r \<Rightarrow>
            if va_hash r = hash then touch_vacancy env now item employerID regionID (va_id r)
            else write_vacancy env now item employerID regionID skillIDs hash))))))"

text \<open>The work item of a changed vacancy, with the revision the upsert gave it.\<close>

definition add_work_item :: "CanonicalVacancy \<Rightarrow> pg_tables \<Rightarrow> pg_tables" where
  "add_work_item v d =
     (case row_of row_key (v_Source v, v_ExternalID v) (pt_vacancies d) of
        None \<Rightarrow> d
      | Some r \<Rightarrow> d\<lparr>pt_work_items := add_new (va_source r, va_external r, va_revision r) (pt_work_items d)\<rparr>)"

fun save_items :: "pg_env \<Rightarrow> time \<Rightarrow> VacancyWrite list \<Rightarrow> int \<Rightarrow> int \<Rightarrow> pg \<Rightarrow> pg \<times> (db_failure + int \<times> int)" where
  "save_items env now [] upserted unchanged = give (upserted, unchanged)"
| "save_items env now (item # items) upserted unchanged =
     and_do (upsertVacancy env now item) (\<lambda>changed.
       if changed
       then and_do (pg_write env (atDBStage ''assistant outbox'') (add_work_item (vw_Vacancy item))) (\<lambda>_.
              save_items env now items (upserted + 1) unchanged)
       else save_items env now items upserted (unchanged + 1))"

definition savePageInTx :: "pg_env \<Rightarrow> string \<Rightarrow> string \<Rightarrow> string \<Rightarrow> VacancyWrite list \<Rightarrow> time \<Rightarrow> pg \<Rightarrow> pg \<times> (db_failure + int \<times> int)" where
  "savePageInTx env source scopeHash nextCursor items now =
     and_do (save_items env now items 0 0) (\<lambda>counts.
     and_do (pg_write env (atDBStage ''checkpoint'') (\<lambda>d.
         d\<lparr>pt_checkpoints := AList.update (source, scopeHash) (Some nextCursor) (pt_checkpoints d)\<rparr>)) (\<lambda>_.
     give counts))"

definition savePageOnce :: "pg_env \<Rightarrow> string \<Rightarrow> string \<Rightarrow> string \<Rightarrow> VacancyWrite list \<Rightarrow> pg \<Rightarrow> pg \<times> (db_failure + int \<times> int)" where
  "savePageOnce env source scopeHash nextCursor items =
     and_do (pg_exec env (atDBStage ''acquire'') (\<lambda>_ d. (d, ()))) (\<lambda>_.
       pg_tx env (atDBStage ''begin'') (\<lambda>_. atDBStage ''commit'') (savePageInTx env source scopeHash nextCursor items))"

definition pg_SavePage :: "pg_env \<Rightarrow> pg \<Rightarrow> string \<Rightarrow> string \<Rightarrow> string \<Rightarrow> VacancyWrite list \<Rightarrow> pg \<times> (store_error + int \<times> int)" where
  "pg_SavePage env s source scopeHash nextCursor items =
     sanitized ''save page'' (retryTransient env 3 (0, 0) (savePageOnce env source scopeHash nextCursor items) s)"

section \<open>The store interface\<close>

text \<open>
  The reads of the interface are total here: they see the tables when the database answers.
\<close>

definition answering :: "pg_env \<Rightarrow> pg_env" where
  "answering env = env\<lparr>pg_db := (pg_db env)\<lparr>db_fails := (\<lambda>_. False)\<rparr>\<rparr>"

definition pg_store :: "pg_env \<Rightarrow> pg Store" where
  "pg_store env = \<lparr>st_CreateRun = pg_CreateRun env, st_FinishRun = pg_FinishRun env, st_RecordError = pg_RecordError env,
     st_MarkVacancyInactive = pg_MarkVacancyInactive env,
     st_GetCheckpoint = (\<lambda>s source scopeHash. snd (pg_GetCheckpoint (answering env) s source scopeHash)),
     st_StartCycle = pg_StartCycle env, st_UpdateCycleProgress = pg_UpdateCycleProgress env,
     st_CompleteCycle = pg_CompleteCycle env, st_SyncRoles = pg_SyncRoles env, st_SavePage = pg_SavePage env\<rparr>"

section \<open>What an operation leaves alone\<close>

text \<open>\<open>preserves f m\<close>: whatever happens, \<open>m\<close> keeps the part \<open>f\<close> of the tables.\<close>

definition preserves :: "(pg_tables \<Rightarrow> 'k) \<Rightarrow> (pg \<Rightarrow> pg \<times> 'r) \<Rightarrow> bool" where
  "preserves f m \<longleftrightarrow> (\<forall>s. f (db_data (fst (m s))) = f (db_data s))"

lemma preservesD: "preserves f m \<Longrightarrow> m s = (s', r) \<Longrightarrow> f (db_data s') = f (db_data s)"
  unfolding preserves_def by (metis fst_conv)

lemma preserves_stmt: "(\<And>t d d' x. q t d = Some (d', x) \<Longrightarrow> f d' = f d) \<Longrightarrow> preserves f (pg_stmt env err q)"
  by (auto simp: preserves_def pg_stmt_def stmt_def Let_def split: option.split)

lemma preserves_exec: "(\<And>t d. f (fst (q t d)) = f d) \<Longrightarrow> preserves f (pg_exec env err q)"
  unfolding pg_exec_def by (rule preserves_stmt) (metis fst_conv option.inject)

lemma preserves_read: "preserves f (pg_read env err q)"
  unfolding pg_read_def by (rule preserves_exec) simp

lemma preserves_write: "(\<And>d. f (q d) = f d) \<Longrightarrow> preserves f (pg_write env err q)"
  unfolding pg_write_def by (rule preserves_exec) simp

lemma preserves_give: "preserves f (give x)"
  by (simp add: preserves_def give_def)

lemma preserves_value: "preserves f (\<lambda>s. (s, r))"
  by (simp add: preserves_def)

lemma preserves_and_do: "preserves f m \<Longrightarrow> (\<And>x. preserves f (k x)) \<Longrightarrow> preserves f (and_do m k)"
  unfolding preserves_def and_do_def by (auto split: prod.split sum.split) (metis fst_conv)+

lemma preserves_for_each: "(\<And>x. preserves f (g x)) \<Longrightarrow> preserves f (for_each g xs)"
  by (induction xs) (auto intro: preserves_give preserves_and_do)

lemma preserves_if: "(b \<Longrightarrow> preserves f m) \<Longrightarrow> (\<not> b \<Longrightarrow> preserves f n) \<Longrightarrow> preserves f (if b then m else n)"
  by simp

lemma preserves_option: "(x = None \<Longrightarrow> preserves f m) \<Longrightarrow> (\<And>y. x = Some y \<Longrightarrow> preserves f (n y)) \<Longrightarrow>
    preserves f (case x of None \<Rightarrow> m | Some y \<Rightarrow> n y)"
  by (cases x) simp_all

lemma preserves_retry: "preserves f op \<Longrightarrow> preserves f (retry_loop env n i op res)"
proof (induction n arbitrary: i res)
  case (Suc n)
  show ?case unfolding preserves_def
  proof
    fix s
    obtain s1 r where r: "op s = (s1, r)" by fastforce
    note k = preservesD [OF Suc.prems r]
    show "f (db_data (fst (retry_loop env (Suc n) i op res s))) = f (db_data s)"
      using r k Suc.IH [OF Suc.prems] by (auto simp: preserves_def split: sum.split)
  qed
qed (simp add: preserves_def)

lemma preserves_tx: "(\<And>now. preserves f (body now)) \<Longrightarrow> preserves f (pg_tx env be ce body)"
  unfolding preserves_def pg_tx_def in_tx_def stmt_def Let_def
  by (auto split: prod.split sum.split option.split if_splits) (metis fst_conv conn.select_convs(1) conn.surjective conn.update_convs(2))+

lemmas preserves_intros = preserves_stmt preserves_exec preserves_read preserves_write preserves_give preserves_value
  preserves_and_do preserves_for_each preserves_if preserves_option preserves_retry preserves_tx

lemma fst_no_error [simp]: "fst (no_error out) = fst out" by (auto simp: no_error_def split: prod.split sum.split)
lemma fst_sanitized [simp]: "fst (sanitized op out) = fst out" by (auto simp: sanitized_def split: prod.split sum.split)
lemma fst_one_row [simp]: "fst (one_row m out) = fst out" by (auto simp: one_row_def split: prod.split sum.split)

lemma snd_read_answering: "\<not> db_fails (pg_db env) (db_tick s) \<Longrightarrow> snd (pg_read env err f s) = Inr (f (db_data s))"
  by (simp add: pg_read_def pg_exec_def pg_stmt_def stmt_def Let_def)

lemma checkpoint_read:
  "st_GetCheckpoint (pg_store env) s source scopeHash
    = Inr (map_option (\<lambda>cursor. case cursor of None \<Rightarrow> '''' | Some c \<Rightarrow> c) (map_of (pt_checkpoints (db_data s)) (source, scopeHash)))"
proof -
  define q :: "pg_tables \<Rightarrow> string option" where "q = (\<lambda>d. map_option (\<lambda>cursor. case cursor of None \<Rightarrow> '''' | Some c \<Rightarrow> c) (map_of (pt_checkpoints d) (source, scopeHash)))"
  obtain s1 r where r: "pg_read (answering env) id q s = (s1, r)" by fastforce
  have "r = Inr (q (db_data s))"
    using snd_read_answering [of "answering env" s id q] r by (simp add: answering_def)
  with r show ?thesis
    by (simp add: pg_store_def pg_GetCheckpoint_def retryTransient_def sanitized_def numeral_3_eq_3 q_def)
qed

text \<open>Only a page of the scope itself moves its checkpoint.\<close>

lemma other_ops_checkpoints:
  "pt_checkpoints (db_data (fst (pg_CreateRun env s run))) = pt_checkpoints (db_data s)"
  "pt_checkpoints (db_data (fst (pg_FinishRun env s rid status stats msg))) = pt_checkpoints (db_data s)"
  "pt_checkpoints (db_data (fst (pg_RecordError env s rid ext stage msg))) = pt_checkpoints (db_data s)"
  "pt_checkpoints (db_data (fst (pg_MarkVacancyInactive env s a b c))) = pt_checkpoints (db_data s)"
  "pt_checkpoints (db_data (fst (pg_StartCycle env s cycle))) = pt_checkpoints (db_data s)"
  "pt_checkpoints (db_data (fst (pg_UpdateCycleProgress env s cid n))) = pt_checkpoints (db_data s)"
  "pt_checkpoints (db_data (fst (pg_CompleteCycle env s cid n))) = pt_checkpoints (db_data s)"
proof -
  note p = preserves_def [THEN iffD1, rule_format]
  show "pt_checkpoints (db_data (fst (pg_CreateRun env s run))) = pt_checkpoints (db_data s)"
    unfolding pg_CreateRun_def retryTransient_def fst_no_error fst_sanitized
    by (rule p) (auto intro!: preserves_intros split: if_splits)
  show "pt_checkpoints (db_data (fst (pg_FinishRun env s rid status stats msg))) = pt_checkpoints (db_data s)"
    unfolding pg_FinishRun_def fst_no_error by (rule p) (auto intro!: preserves_intros)
  show "pt_checkpoints (db_data (fst (pg_RecordError env s rid ext stage msg))) = pt_checkpoints (db_data s)"
    unfolding pg_RecordError_def fst_no_error by (rule p) (auto intro!: preserves_intros)
  show "pt_checkpoints (db_data (fst (pg_MarkVacancyInactive env s a b c))) = pt_checkpoints (db_data s)"
    unfolding pg_MarkVacancyInactive_def fst_no_error by (rule p) (auto intro!: preserves_intros)
  show "pt_checkpoints (db_data (fst (pg_StartCycle env s cycle))) = pt_checkpoints (db_data s)"
    unfolding pg_StartCycle_def
    by (rule p) (auto intro!: preserves_stmt simp: Let_def split: option.splits if_splits)
  show "pt_checkpoints (db_data (fst (pg_UpdateCycleProgress env s cid n))) = pt_checkpoints (db_data s)"
    unfolding pg_UpdateCycleProgress_def update_cycles_def fst_one_row by (rule p) (auto intro!: preserves_stmt)
  show "pt_checkpoints (db_data (fst (pg_CompleteCycle env s cid n))) = pt_checkpoints (db_data s)"
    unfolding pg_CompleteCycle_def update_cycles_def fst_one_row by (rule p) (auto intro!: preserves_stmt)
qed

lemma sync_roles_checkpoints: "preserves pt_checkpoints (sync_roles env source roles result)"
  by (induction roles arbitrary: result)
    (auto simp: sync_role_def intro!: preserves_intros split: prod.split)

lemma SyncRoles_checkpoints: "pt_checkpoints (db_data (fst (pg_SyncRoles env s source roles))) = pt_checkpoints (db_data s)"
  unfolding pg_SyncRoles_def retryTransient_def fst_sanitized
  by (rule preserves_def [THEN iffD1, rule_format]) (intro preserves_intros sync_roles_checkpoints)

text \<open>The dictionaries and links of a vacancy concern neither the vacancies, the work items nor the checkpoints.\<close>

definition core :: "pg_tables \<Rightarrow> pg_vacancy list \<times> (string \<times> string \<times> int) list \<times> ((string \<times> string) \<times> string option) list" where
  "core d = (pt_vacancies d, pt_work_items d, pt_checkpoints d)"

lemma upsertEmployer_core: "preserves core (upsertEmployer env source ext name)"
  unfolding upsertEmployer_def Let_def by (auto intro!: preserves_intros simp: core_def split: prod.split)

lemma upsertRegion_core: "preserves core (upsertRegion env source ext name)"
  unfolding upsertRegion_def Let_def by (auto intro!: preserves_intros simp: core_def split: prod.split)

lemma upsertSkills_core: "preserves core (upsertSkills env ids skills)"
  by (induction skills arbitrary: ids)
    (auto simp: upsert_skill_def Let_def core_def intro!: preserves_intros split: prod.split)

lemma syncVacancyRoleScopes_core: "preserves core (syncVacancyRoleScopes env vid source exts)"
  unfolding syncVacancyRoleScopes_def by (auto intro!: preserves_intros simp: core_def split: option.split)

section \<open>What a page does\<close>

text \<open>
  The abstract view of the tables a page works on: the hash and the revision of every vacancy, the work items
  and the checkpoints.
\<close>

definition mark :: "pg_tables \<Rightarrow> string \<times> string \<rightharpoonup> nat list \<times> int" where
  "mark d k = map_option (\<lambda>r. (va_hash r, va_revision r)) (row_of row_key k (pt_vacancies d))"

definition page_view :: "pg_tables \<Rightarrow> (string \<times> string \<rightharpoonup> nat list \<times> int) \<times> (string \<times> string \<times> int) list
    \<times> ((string \<times> string) \<times> string option) list" where
  "page_view d = (mark d, pt_work_items d, pt_checkpoints d)"

definition item_key :: "VacancyWrite \<Rightarrow> string \<times> string" where
  "item_key item = (v_Source (vw_Vacancy item), v_ExternalID (vw_Vacancy item))"

definition item_hash :: "VacancyWrite \<Rightarrow> nat list" where
  "item_hash item = (case hex_bytes (v_ContentHash (vw_Vacancy item)) of None \<Rightarrow> [] | Some bs \<Rightarrow> bs)"

text \<open>
  The specification of a page: a vacancy whose hash is new or changed gets the next revision and a work item for
  it, any other stays as it is; the counts are of the two kinds.
\<close>

fun page_spec :: "VacancyWrite list \<Rightarrow> (string \<times> string \<rightharpoonup> nat list \<times> int) \<times> (string \<times> string \<times> int) list \<times> int \<times> int
    \<Rightarrow> (string \<times> string \<rightharpoonup> nat list \<times> int) \<times> (string \<times> string \<times> int) list \<times> int \<times> int" where
  "page_spec [] st = st"
| "page_spec (item # items) (m, work, u, n) =
     (let k = item_key item; rev = (case m k of None \<Rightarrow> 0 | Some (_, r) \<Rightarrow> r) in
      if map_option fst (m k) = Some (item_hash item) then page_spec items (m, work, u, n + 1)
      else page_spec items (m(k \<mapsto> (item_hash item, rev + 1)), add_new (fst k, snd k, rev + 1) work, u + 1, n))"

lemma row_of_upsert:
  assumes "\<And>r. key r = key new \<Longrightarrow> key (change r) = key new"
  shows "row_of key k (upsert key new change rows)
    = (if k = key new then Some (case row_of key k rows of None \<Rightarrow> new | Some r \<Rightarrow> change r) else row_of key k rows)"
proof (cases "key new \<in> key ` set rows")
  case True
  have g: "row_of key k (map (\<lambda>r. if key r = key new then change r else r) rows)
      = map_option (\<lambda>r. if key r = key new then change r else r) (row_of key k rows)"
    using assms by (intro row_of_map) auto
  have "upsert key new change rows = map (\<lambda>r. if key r = key new then change r else r) rows"
    using True by (auto simp: upsert_def)
  moreover have "row_of key (key new) rows \<noteq> None" using True by (simp add: row_of_None)
  moreover have "key r = k" if "row_of key k rows = Some r" for r using that by (auto dest: row_of_Some)
  ultimately show ?thesis using g by (cases "row_of key k rows") auto
next
  case False
  then have "upsert key new change rows = rows @ [new]" by (auto simp: upsert_def) (metis image_eqI)
  moreover have "row_of key (key new) rows = None" using False by (simp add: row_of_None)
  ultimately show ?thesis by (auto simp: row_of_append row_of_single split: option.split)
qed

lemma exec_ok: "pg_exec env err f s = (s', Inr x) \<Longrightarrow> f (db_tick s) (db_data s) = (db_data s', x)"
  unfolding pg_exec_def pg_stmt_def by (auto dest: stmt_ok)

lemma read_ok: "pg_read env err f s = (s', Inr x) \<Longrightarrow> db_data s' = db_data s \<and> x = f (db_data s)"
  unfolding pg_read_def by (auto dest: exec_ok)

lemma write_ok: "pg_write env err f s = (s', Inr x) \<Longrightarrow> db_data s' = f (db_data s)"
  unfolding pg_write_def by (auto dest: exec_ok)

lemma preserves_core_view: "preserves core m \<Longrightarrow> preserves page_view m"
  by (simp add: preserves_def core_def page_view_def mark_def fun_eq_iff)

lemma touch_row_sel [simp]:
  "row_key (touch_row now v e g r) = row_key r" "va_hash (touch_row now v e g r) = va_hash r"
  "va_revision (touch_row now v e g r) = va_revision r"
  by (simp_all add: touch_row_def row_key_def)

lemma touch_vacancy_view: "preserves page_view (touch_vacancy env now item e g vid)"
  unfolding touch_vacancy_def
proof (intro preserves_and_do preserves_write preserves_give preserves_core_view syncVacancyRoleScopes_core)
  fix d
  show "page_view (d\<lparr>pt_vacancies := map (\<lambda>r. if va_id r = vid then touch_row now (vw_Vacancy item) e g r else r) (pt_vacancies d)\<rparr>)
      = page_view d"
    by (auto simp: page_view_def mark_def fun_eq_iff row_of_map option.map_comp intro!: option.map_cong)
qed

lemma touch_vacancy_ok: "touch_vacancy env now item e g vid s = (s', Inr c) \<Longrightarrow> page_view (db_data s') = page_view (db_data s) \<and> \<not> c"
  by (frule preservesD [OF touch_vacancy_view]) (auto simp: touch_vacancy_def and_do_ok give_def)

lemma merge_row_sel [simp]:
  "row_key (merge_row now new r) = row_key new" "va_hash (merge_row now new r) = va_hash new"
  "va_revision (merge_row now new r) = va_revision r + 1"
  by (simp_all add: merge_row_def row_key_def)

lemma new_row_sel [simp]:
  "row_key (new_row now i v e g hash raw) = (v_Source v, v_ExternalID v)" "va_hash (new_row now i v e g hash raw) = hash"
  "va_revision (new_row now i v e g hash raw) = 1"
  by (simp_all add: new_row_def row_key_def)

definition next_revision :: "(string \<times> string \<rightharpoonup> nat list \<times> int) \<Rightarrow> string \<times> string \<Rightarrow> int" where
  "next_revision m k = (case m k of None \<Rightarrow> 0 | Some (_, r) \<Rightarrow> r) + 1"

lemma write_vacancy_ok:
  assumes "write_vacancy env now item e g sids hash s = (s', Inr c)"
  shows "c \<and> page_view (db_data s') = ((mark (db_data s))(item_key item \<mapsto> (hash, next_revision (mark (db_data s)) (item_key item))),
     pt_work_items (db_data s), pt_checkpoints (db_data s))"
proof -
  define raw where "raw = (if vw_RawPayload item \<noteq> '''' \<and> pg_json_valid env (vw_RawPayload item) then Some (vw_RawPayload item) else None)"
  define new where "new = (\<lambda>t. new_row now (db_uuid (pg_db env) t) (vw_Vacancy item) e g hash raw)"
  from assms obtain s1 vid where first: "pg_exec env (atDBStage ''upsert vacancy'') (\<lambda>t d.
          (d\<lparr>pt_vacancies := upsert row_key (new t) (merge_row now (new t)) (pt_vacancies d)\<rparr>,
           case row_of row_key (row_key (new t)) (pt_vacancies d) of None \<Rightarrow> va_id (new t) | Some r \<Rightarrow> va_id r)) s = (s1, Inr vid)"
      and rest: "and_do (syncVacancyRoleScopes env vid (v_Source (vw_Vacancy item)) (vw_ScopeRoleIDs item)) (\<lambda>_.
      and_do (pg_write env (atDBStage ''clear vacancy skills'') (\<lambda>d.
          d\<lparr>pt_vacancy_skills := filter (\<lambda>(v, _). v \<noteq> vid) (pt_vacancy_skills d)\<rparr>)) (\<lambda>_.
      and_do (for_each (\<lambda>sid. pg_write env (atDBStage ''link vacancy skill'') (\<lambda>d.
          d\<lparr>pt_vacancy_skills := add_new (vid, sid) (pt_vacancy_skills d)\<rparr>)) sids) (\<lambda>_.
      give True))) s1 = (s', Inr c)"
    unfolding write_vacancy_def Let_def new_def raw_def by (auto simp: and_do_ok [of "pg_exec _ _ _"])
  have "preserves core (and_do (syncVacancyRoleScopes env vid (v_Source (vw_Vacancy item)) (vw_ScopeRoleIDs item)) (\<lambda>_.
      and_do (pg_write env (atDBStage ''clear vacancy skills'') (\<lambda>d.
          d\<lparr>pt_vacancy_skills := filter (\<lambda>(v, _). v \<noteq> vid) (pt_vacancy_skills d)\<rparr>)) (\<lambda>_.
      and_do (for_each (\<lambda>sid. pg_write env (atDBStage ''link vacancy skill'') (\<lambda>d.
          d\<lparr>pt_vacancy_skills := add_new (vid, sid) (pt_vacancy_skills d)\<rparr>)) sids) (\<lambda>_.
      give True))))"
    by (auto intro!: preserves_intros syncVacancyRoleScopes_core simp: core_def)
  from preservesD [OF preserves_core_view [OF this] rest] have view: "page_view (db_data s') = page_view (db_data s1)" .
  have c: c using rest by (auto simp: and_do_ok give_def)
  have key: "row_key (new t) = item_key item" for t by (simp add: new_def item_key_def)
  have d1: "db_data s1 = (db_data s)\<lparr>pt_vacancies := upsert row_key (new (db_tick s)) (merge_row now (new (db_tick s)))
        (pt_vacancies (db_data s))\<rparr>" using exec_ok [OF first] by simp
  have "mark (db_data s1) = (mark (db_data s))(item_key item \<mapsto> (hash, next_revision (mark (db_data s)) (item_key item)))"
  proof
    fix k
    have "row_of row_key k (pt_vacancies (db_data s1)) = (if k = item_key item
        then Some (case row_of row_key k (pt_vacancies (db_data s)) of None \<Rightarrow> new (db_tick s) | Some r \<Rightarrow> merge_row now (new (db_tick s)) r)
        else row_of row_key k (pt_vacancies (db_data s)))"
      unfolding d1 by (simp add: row_of_upsert key)
    then show "mark (db_data s1) k = ((mark (db_data s))(item_key item \<mapsto> (hash, next_revision (mark (db_data s)) (item_key item)))) k"
      by (cases "row_of row_key k (pt_vacancies (db_data s))") (auto simp: mark_def next_revision_def new_def)
  qed
  moreover have "pt_work_items (db_data s1) = pt_work_items (db_data s)" "pt_checkpoints (db_data s1) = pt_checkpoints (db_data s)"
    unfolding d1 by simp_all
  ultimately show ?thesis using view c by (simp add: page_view_def)
qed

lemma and_do_failed: "and_do m k s = (s', Inr y) \<Longrightarrow> \<exists>s1 x. m s = (s1, Inr x) \<and> k x s1 = (s', Inr y)"
  by (simp add: and_do_ok)

definition page_step :: "VacancyWrite \<Rightarrow> bool \<Rightarrow> pg_tables \<Rightarrow> pg_tables \<Rightarrow> bool" where
  "page_step item c d d' \<longleftrightarrow>
     c = (map_option fst (mark d (item_key item)) \<noteq> Some (item_hash item))
     \<and> page_view d' = (if c then (mark d)(item_key item \<mapsto> (item_hash item, next_revision (mark d) (item_key item))) else mark d,
          pt_work_items d, pt_checkpoints d)"

lemma upsertVacancy_ok:
  assumes "upsertVacancy env now item s = (s', Inr c)"
  shows "page_step item c (db_data s) (db_data s')"
proof -
  let ?v = "vw_Vacancy item"
  define emp :: "pg \<Rightarrow> pg \<times> (db_failure + string option)" where "emp = (if v_EmployerExternalID ?v = '''' then give None
      else and_do (upsertEmployer env (v_Source ?v) (v_EmployerExternalID ?v) (v_EmployerName ?v)) (\<lambda>i. give (Some i)))"
  define reg :: "pg \<Rightarrow> pg \<times> (db_failure + string option)" where "reg = (if v_RegionExternalID ?v = '''' then give None
      else and_do (upsertRegion env (v_Source ?v) (v_RegionExternalID ?v)
             (if vw_RegionName item = '''' then v_RegionExternalID ?v else vw_RegionName item)) (\<lambda>i. give (Some i)))"
  from assms obtain e g sids hash found s1 s2 s3 s4 where
      e: "emp s = (s1, Inr e)" and g: "reg s1 = (s2, Inr g)" and sk: "upsertSkills env [] (v_Skills ?v) s2 = (s3, Inr sids)"
      and hash: "decodeHash env (v_ContentHash ?v) = Inr hash"
      and sel: "pg_read env (atDBStage ''select vacancy'') (\<lambda>d. row_of row_key (v_Source ?v, v_ExternalID ?v) (pt_vacancies d)) s3 = (s4, Inr found)"
      and rest: "(case found of None \<Rightarrow> write_vacancy env now item e g sids hash
        | Some r \<Rightarrow> if va_hash r = hash then touch_vacancy env now item e g (va_id r)
            else write_vacancy env now item e g sids hash) s4 = (s', Inr c)"
    unfolding upsertVacancy_def Let_def emp_def [symmetric] reg_def [symmetric] by (auto simp: and_do_ok)
  have "preserves core emp" unfolding emp_def by (intro preserves_intros upsertEmployer_core)
  from preservesD [OF preserves_core_view [OF this] e] have v1: "page_view (db_data s1) = page_view (db_data s)" .
  have "preserves core reg" unfolding reg_def by (intro preserves_intros upsertRegion_core)
  from preservesD [OF preserves_core_view [OF this] g] v1 have v2: "page_view (db_data s2) = page_view (db_data s)" by simp
  from preservesD [OF preserves_core_view [OF upsertSkills_core] sk] v2 have v3: "page_view (db_data s3) = page_view (db_data s)" by simp
  from read_ok [OF sel] have s4: "db_data s4 = db_data s3" and found: "found = row_of row_key (item_key item) (pt_vacancies (db_data s3))"
    by (simp_all add: item_key_def)
  have m: "mark (db_data s4) = mark (db_data s)" "page_view (db_data s4) = page_view (db_data s)"
    using v3 s4 by (simp_all add: page_view_def)
  have h: "item_hash item = hash" using hash by (auto simp: decodeHash_def item_hash_def split: option.splits)
  have known: "map_option fst (mark (db_data s) (item_key item)) = map_option va_hash found"
    unfolding m(1) [symmetric] mark_def s4 found by (simp add: option.map_comp comp_def)
  have wrote: "page_step item c (db_data s) (db_data s')"
    if w: "write_vacancy env now item e g sids hash s4 = (s', Inr c)" and new: "map_option va_hash found \<noteq> Some hash"
    using write_vacancy_ok [OF w] m new known h by (auto simp: page_step_def page_view_def)
  show ?thesis
  proof (cases "map_option va_hash found = Some hash")
    case True
    then obtain r where "found = Some r" "va_hash r = hash" by auto
    with rest touch_vacancy_ok [of env now item e g "va_id r" s4 s' c] m known h show ?thesis
      by (auto simp: page_step_def page_view_def)
  next
    case False
    with rest wrote show ?thesis by (cases found) auto
  qed
qed

lemma page_view_sel: "page_view d = (m, w, c) \<longleftrightarrow> m = mark d \<and> w = pt_work_items d \<and> c = pt_checkpoints d"
  by (auto simp: page_view_def)

lemma mark_other [simp]:
  "mark (d\<lparr>pt_work_items := w\<rparr>) = mark d" "mark (d\<lparr>pt_checkpoints := c\<rparr>) = mark d"
  by (simp_all add: mark_def fun_eq_iff)

lemma add_work_item_view:
  assumes "mark d k = Some (h, v1)" "k = (v_Source v, v_ExternalID v)"
  shows "page_view (add_work_item v d) = (mark d, add_new (fst k, snd k, v1) (pt_work_items d), pt_checkpoints d)"
proof -
  from assms obtain r where r: "row_of row_key k (pt_vacancies d) = Some r" "va_revision r = v1" by (auto simp: mark_def)
  then have "row_key r = k" by (auto dest: row_of_Some)
  with r assms(2) show ?thesis by (simp add: add_work_item_def page_view_def row_key_def)
qed

lemma save_items_ok:
  "save_items env now items u n s = (s', Inr (u', n')) \<Longrightarrow>
    page_spec items (mark (db_data s), pt_work_items (db_data s), u, n) = (mark (db_data s'), pt_work_items (db_data s'), u', n')
    \<and> pt_checkpoints (db_data s') = pt_checkpoints (db_data s)"
proof (induction items arbitrary: u n s)
  case (Cons item items)
  from Cons.prems obtain s1 c where up: "upsertVacancy env now item s = (s1, Inr c)" and rest: "(if c
       then and_do (pg_write env (atDBStage ''assistant outbox'') (add_work_item (vw_Vacancy item))) (\<lambda>_.
              save_items env now items (u + 1) n)
       else save_items env now items u (n + 1)) s1 = (s', Inr (u', n'))"
    by (auto simp: and_do_ok [of "upsertVacancy _ _ _"])
  note step = upsertVacancy_ok [OF up, unfolded page_step_def]
  show ?case
  proof (cases c)
    case False
    with rest have "save_items env now items u (n + 1) s1 = (s', Inr (u', n'))" by simp
    from Cons.IH [OF this] step False show ?thesis by (auto simp: page_view_sel Let_def)
  next
    case True
    let ?k = "item_key item" and ?rev = "next_revision (mark (db_data s)) (item_key item)"
    from True rest obtain s2 where out: "pg_write env (atDBStage ''assistant outbox'') (add_work_item (vw_Vacancy item)) s1 = (s2, Inr ())"
      and rest': "save_items env now items (u + 1) n s2 = (s', Inr (u', n'))" by (auto simp: and_do_ok)
    have m1: "mark (db_data s1) = (mark (db_data s))(?k \<mapsto> (item_hash item, ?rev))"
      "pt_work_items (db_data s1) = pt_work_items (db_data s)" "pt_checkpoints (db_data s1) = pt_checkpoints (db_data s)"
      using step True by (simp_all add: page_view_def)
    then have "mark (db_data s1) ?k = Some (item_hash item, ?rev)" by simp
    from add_work_item_view [OF this] write_ok [OF out] m1
    have v2: "page_view (db_data s2) = (mark (db_data s1), add_new (fst ?k, snd ?k, ?rev) (pt_work_items (db_data s)),
        pt_checkpoints (db_data s))" by (simp add: item_key_def)
    then have v: "mark (db_data s2) = (mark (db_data s))(?k \<mapsto> (item_hash item, ?rev))"
        "pt_work_items (db_data s2) = add_new (fst ?k, snd ?k, ?rev) (pt_work_items (db_data s))"
        "pt_checkpoints (db_data s2) = pt_checkpoints (db_data s)"
      using m1 by (simp_all add: page_view_def)
    have "page_spec (item # items) (mark (db_data s), pt_work_items (db_data s), u, n)
        = page_spec items (mark (db_data s2), pt_work_items (db_data s2), u + 1, n)"
      using step True unfolding v by (simp add: Let_def next_revision_def)
    with Cons.IH [OF rest'] v(3) show ?thesis by simp
  qed
qed (simp add: give_def)

lemma page_spec_counts: "page_spec items (m, w, u, n) = (m', w', u', n') \<Longrightarrow> u \<le> u' \<and> n \<le> n' \<and> u' + n' = u + n + int (length items)"
  by (induction items arbitrary: m w u n) (fastforce simp: Let_def split: if_splits)+

text \<open>One attempt, and the attempts together.\<close>

lemma savePageOnce_ok:
  assumes "savePageOnce env source scope cur items s = (s', Inr (u, n))"
  shows "page_spec items (mark (db_data s), pt_work_items (db_data s), 0, 0) = (mark (db_data s'), pt_work_items (db_data s'), u, n)
    \<and> pt_checkpoints (db_data s') = AList.update (source, scope) (Some cur) (pt_checkpoints (db_data s))"
proof -
  from assms obtain s0 where s0: "db_data s0 = db_data s"
    and tx: "pg_tx env (atDBStage ''begin'') (\<lambda>_. atDBStage ''commit'') (savePageInTx env source scope cur items) s0 = (s', Inr (u, n))"
    unfolding savePageOnce_def by (auto simp: and_do_ok dest!: exec_ok)
  from tx obtain s1 s2 now where b: "db_data s1 = db_data s0" "savePageInTx env source scope cur items now s1 = (s2, Inr (u, n))"
      "db_data s' = db_data s2"
    unfolding pg_tx_def by (elim in_tx_ok) (auto split: prod.splits sum.splits)
  from b(2) obtain s3 where items: "save_items env now items 0 0 s1 = (s3, Inr (u, n))"
    and cp: "db_data s2 = (db_data s3)\<lparr>pt_checkpoints := AList.update (source, scope) (Some cur) (pt_checkpoints (db_data s3))\<rparr>"
    unfolding savePageInTx_def by (auto simp: and_do_ok give_def dest!: write_ok)
  from save_items_ok [OF items] cp b s0 show ?thesis by (simp add: mark_def)
qed

lemma savePageOnce_failed: "savePageOnce env source scope cur items s = (s', Inl e) \<Longrightarrow> db_data s' = db_data s"
  unfolding savePageOnce_def pg_tx_def
  by (auto simp: and_do_error pg_exec_def pg_stmt_def dest!: in_tx_error stmt_ok stmt_error)

lemma retry_loop_result:
  assumes "\<And>s s' e. op s = (s', Inl e) \<Longrightarrow> db_data s' = db_data s"
  shows "retry_loop env n i op res s = (s', Inl e) \<Longrightarrow> db_data s' = db_data s"
    and "retry_loop env (Suc n) i op res s = (s', Inr x) \<Longrightarrow> \<exists>s1. db_data s1 = db_data s \<and> op s1 = (s', Inr x)"
proof -
  show "retry_loop env n i op res s = (s', Inl e) \<Longrightarrow> db_data s' = db_data s"
  proof (induction n arbitrary: i res s)
    case (Suc n)
    obtain s1 r where r: "op s = (s1, r)" by fastforce
    with Suc assms show ?case by (cases r) (auto split: if_splits)
  qed simp
  show "retry_loop env (Suc n) i op res s = (s', Inr x) \<Longrightarrow> \<exists>s1. db_data s1 = db_data s \<and> op s1 = (s', Inr x)"
  proof (induction n arbitrary: i res s)
    case 0
    then show ?case by (auto split: prod.splits sum.splits if_splits)
  next
    case (Suc n)
    obtain s1 r where r: "op s = (s1, r)" by fastforce
    show ?case
    proof (cases r)
      case (Inl e)
      with Suc.prems r have "retry_loop env (Suc n) (Suc i) op (Inl e) s1 = (s', Inr x)"
        by (auto simp del: retry_loop.simps(2) simp: retry_loop.simps(2) [of env "Suc n"] split: if_splits)
      from Suc.IH [OF this] assms [of s s1 e] r Inl show ?thesis by auto
    next
      case (Inr y)
      with Suc.prems r show ?thesis by auto
    qed
  qed
qed

lemma SavePage_ok:
  assumes "pg_SavePage env s source scope cur items = (s', Inr (u, n))"
  shows "page_spec items (mark (db_data s), pt_work_items (db_data s), 0, 0) = (mark (db_data s'), pt_work_items (db_data s'), u, n)
    \<and> pt_checkpoints (db_data s') = AList.update (source, scope) (Some cur) (pt_checkpoints (db_data s))"
proof -
  let ?op = "savePageOnce env source scope cur items"
  obtain s2 r where r: "retryTransient env 3 (0, 0) ?op s = (s2, r)" by fastforce
  have "s2 = s'" "r = Inr (u, n)" using assms unfolding pg_SavePage_def r sanitized_def by (cases r; simp)+
  with r have "retry_loop env 3 0 ?op (Inr (0, 0)) s = (s', Inr (u, n))" unfolding retryTransient_def by (simp only:)
  moreover have "(3 :: nat) = Suc 2" by simp
  ultimately have "retry_loop env (Suc 2) 0 ?op (Inr (0, 0)) s = (s', Inr (u, n))" by (simp only:)
  then obtain s1 where "db_data s1 = db_data s" "?op s1 = (s', Inr (u, n))"
    using retry_loop_result(2) [of ?op] savePageOnce_failed by blast
  with savePageOnce_ok [OF this(2)] show ?thesis by simp
qed

lemma SavePage_failed:
  assumes "pg_SavePage env s source scope cur items = (s', Inl e)"
  shows "db_data s' = db_data s"
proof -
  let ?op = "savePageOnce env source scope cur items"
  obtain s2 r where r: "retryTransient env 3 (0, 0) ?op s = (s2, r)" by fastforce
  obtain e1 where "s2 = s'" "r = Inl e1" using assms unfolding pg_SavePage_def r sanitized_def by (cases r; simp)
  with r have "retry_loop env 3 0 ?op (Inr (0, 0)) s = (s', Inl e1)" unfolding retryTransient_def by (simp only:)
  then show ?thesis using retry_loop_result(1) [of ?op] savePageOnce_failed by blast
qed

section \<open>The contract\<close>

interpretation pg: checkpoint_store "pg_store env" for env
proof
  note ops = pg_store_def [of env]
  fix s src scope cur items s' r
  assume ok: "st_SavePage (pg_store env) s src scope cur items = (s', Inr r)"
  obtain u n where r: "r = (u, n)" by fastforce
  from ok r SavePage_ok [of env s src scope cur items s' u n]
  show "st_GetCheckpoint (pg_store env) s' src scope = Inr (Some cur)"
    by (simp add: checkpoint_read) (simp add: ops update_conv)
next
  fix s src scope cur items s' res and scope' :: string
  assume sp: "st_SavePage (pg_store env) s src scope cur items = (s', res)" and other: "scope' \<noteq> scope"
  show "st_GetCheckpoint (pg_store env) s' src scope' = st_GetCheckpoint (pg_store env) s src scope'"
  proof (cases res)
    case (Inl e)
    with sp SavePage_failed [of env s src scope cur items s' e] show ?thesis
      unfolding checkpoint_read by (simp add: pg_store_def)
  next
    case (Inr r)
    obtain u n where r: "r = (u, n)" by fastforce
    with sp Inr SavePage_ok [of env s src scope cur items s' u n] other show ?thesis
      unfolding checkpoint_read by (simp add: pg_store_def update_conv)
  qed
next
  fix s src scope cur items s' e and scope' :: string
  assume "st_SavePage (pg_store env) s src scope cur items = (s', Inl e)"
  with SavePage_failed [of env s src scope cur items s' e]
  show "st_GetCheckpoint (pg_store env) s' src scope' = st_GetCheckpoint (pg_store env) s src scope'"
    unfolding checkpoint_read by (simp add: pg_store_def)
next
  fix s src scope cur items s' u n
  assume "st_SavePage (pg_store env) s src scope cur items = (s', Inr (u, n))"
  with SavePage_ok [of env s src scope cur items s' u n] page_spec_counts [of items]
  show "0 \<le> u \<and> 0 \<le> n \<and> u + n = int (length items)" by (fastforce simp: pg_store_def)
qed (simp_all only: checkpoint_read, simp_all add: pg_store_def other_ops_checkpoints SyncRoles_checkpoints)

section \<open>Properties\<close>

lemma page_spec_others:
  "page_spec items (m, w, u, n) = (m', w', u', n') \<Longrightarrow> k \<notin> item_key ` set items \<Longrightarrow> m' k = m k"
  by (induction items arbitrary: m w u n) (auto simp: Let_def split: if_splits)

lemma page_spec_stored:
  "page_spec items (m, w, u, n) = (m', w', u', n') \<Longrightarrow> distinct (map item_key items)
    \<Longrightarrow> list_all (\<lambda>item. map_option fst (m' (item_key item)) = Some (item_hash item)) items"
proof (induction items arbitrary: m w u n)
  case (Cons item items)
  let ?k = "item_key item"
  have fresh: "?k \<notin> item_key ` set items" using Cons.prems(2) by simp
  obtain m1 w1 u1 n1 where rest: "page_spec items (m1, w1, u1, n1) = (m', w', u', n')"
    and m1: "map_option fst (m1 ?k) = Some (item_hash item)"
    using Cons.prems(1) by (auto simp: Let_def split: if_splits)
  from Cons.IH [OF rest] Cons.prems(2) page_spec_others [OF rest fresh] m1 show ?case by simp
qed simp

lemma page_spec_known:
  "list_all (\<lambda>item. map_option fst (m (item_key item)) = Some (item_hash item)) items
    \<Longrightarrow> page_spec items (m, w, u, n) = (m, w, u, n + int (length items))"
  by (induction items arbitrary: n) (auto simp: Let_def)

text \<open>A database that never fails, and a vacancy to save.\<close>

definition calm_env :: pg_env where
  "calm_env = \<lparr>pg_db = \<lparr>db_fails = (\<lambda>_. False), db_now = (\<lambda>_. 0), db_uuid = (\<lambda>t. replicate (Suc t) CHR ''i'')\<rparr>,
     pg_failure = (\<lambda>_. canceled), pg_ctx_done = (\<lambda>_ _. False), pg_json_valid = (\<lambda>_. True),
     pg_before = (\<lambda>_ _. False), pg_hex_error = (\<lambda>_. canceled)\<rparr>"

definition no_tables :: pg_tables where
  "no_tables = \<lparr>pt_runs = [], pt_errors = [], pt_checkpoints = [], pt_cycles = [], pt_partitions = [], pt_observations = [],
     pt_vacancies = [], pt_work_items = [], pt_employers = [], pt_regions = [], pt_region_ids = [], pt_skills = [],
     pt_skill_aliases = [], pt_vacancy_skills = [], pt_roles = [], pt_role_aliases = [], pt_role_scopes = [],
     pt_vacancy_scopes = [], pt_rates = [], pt_snapshots = []\<rparr>"

definition new_pg :: pg where
  "new_pg = \<lparr>db_data = no_tables, db_tick = 0\<rparr>"

definition one_vacancy :: CanonicalVacancy where
  "one_vacancy = \<lparr>v_Source = ''hh'', v_ExternalID = ''7'', v_SourceURL = '''', v_Title = ''Go'', v_EmployerExternalID = ''5'',
     v_EmployerName = ''A'', v_RegionExternalID = '''', v_RegionID = None, v_RoleID = None, v_SalaryFrom = None, v_SalaryTo = None,
     v_SalaryCurrency = '''', v_SalaryGross = None, v_SalaryMid = None, v_SalaryMidRub = None, v_SalaryRateDate = None,
     v_SalaryRateProvider = '''', v_ExcludeFromSalaryAgg = False, v_Skills = [], v_IsRemote = None, v_IsActive = True,
     v_PublishedAt = 0, v_CollectedAt = 0, v_ContentHash = ''0a'', v_DescriptionText = '''', v_DescriptionTruncated = False\<rparr>"

definition one_item :: VacancyWrite where
  "one_item = \<lparr>vw_Vacancy = one_vacancy, vw_RegionName = '''', vw_RawPayload = '''', vw_ScopeRoleIDs = []\<rparr>"

lemma calm_save: "snd (pg_SavePage calm_env new_pg ''hh'' ''scope'' ''1'' [one_item]) = Inr (1, 0)"
  by code_simp

lemma calm_save_again:
  "snd (pg_SavePage calm_env (fst (pg_SavePage calm_env new_pg ''hh'' ''scope'' ''1'' [one_item])) ''hh'' ''scope'' ''1'' [one_item]) = Inr (0, 1)"
  by code_simp


text \<open>
  C8. Saving a page again is harmless, as when the answer to the first commit was lost: a page without
  repeated vacancies that was saved and is saved once more reports every item as unchanged, gives no vacancy a new
  revision and adds no work item, provided no vacancy changed in between.
\<close>

theorem pg_page_repeat:
  assumes "distinct (map item_key items)"
    and "pg_SavePage env s source scopeHash cursor items = (s1, Inr counts)"
    and "mark (db_data s2) = mark (db_data s1)"
    and "pg_SavePage env s2 source scopeHash' cursor' items = (s3, Inr (u, n))"
  shows "u = 0 \<and> n = int (length items) \<and> mark (db_data s3) = mark (db_data s1)
    \<and> pt_work_items (db_data s3) = pt_work_items (db_data s2)"
proof -
  obtain u1 n1 where c: "counts = (u1, n1)" by fastforce
  from SavePage_ok [OF assms(2) [unfolded c]] have
    "page_spec items (mark (db_data s), pt_work_items (db_data s), 0, 0) = (mark (db_data s1), pt_work_items (db_data s1), u1, n1)" by simp
  from page_spec_stored [OF this assms(1)]
  have "page_spec items (mark (db_data s2), pt_work_items (db_data s2), 0, 0)
      = (mark (db_data s2), pt_work_items (db_data s2), 0, 0 + int (length items))"
    unfolding assms(3) by (rule page_spec_known)
  with SavePage_ok [OF assms(4)] assms(3) show ?thesis by simp
qed

theorem pg_page_repeat_witness:
  "\<exists>s1 s3 counts. pg_SavePage calm_env new_pg ''hh'' ''scope'' ''1'' [one_item] = (s1, Inr counts)
     \<and> pg_SavePage calm_env s1 ''hh'' ''scope'' ''1'' [one_item] = (s3, Inr (0, 1))
     \<and> pt_work_items (db_data s3) = pt_work_items (db_data s1)"
proof -
  obtain s1 r1 where 1: "pg_SavePage calm_env new_pg ''hh'' ''scope'' ''1'' [one_item] = (s1, r1)" by fastforce
  obtain s3 r3 where 3: "pg_SavePage calm_env s1 ''hh'' ''scope'' ''1'' [one_item] = (s3, r3)" by fastforce
  from 1 calm_save have r1: "r1 = Inr (1, 0)" by simp
  from 1 3 calm_save_again have r3: "r3 = Inr (0, 1)" by simp
  have "distinct (map item_key [one_item])" by simp
  from pg_page_repeat [OF this 1 [unfolded r1] refl 3 [unfolded r3]] 1 3 r1 r3 show ?thesis by blast
qed



text \<open>
  The limits of the text columns are counted in bytes: a text of valid runes whose limit falls inside a rune
  becomes one that is no text of valid runes, which the database rejects.
\<close>

theorem truncate_cuts_rune:
  assumes "length (encode rs) + 1 = n" "1 < length (encode_rune r)"
  shows "truncate_bytes (encode rs @ encode_rune r) n \<noteq> encode qs"
proof
  assume eq: "truncate_bytes (encode rs @ encode_rune r) n = encode qs"
  have n: "0 < n" using assms(1) by linarith
  have cut: "truncate_bytes (encode rs @ encode_rune r) n = encode rs @ [hd (encode_rune r)]"
    using assms by (cases "encode_rune r") (auto simp: truncate_bytes_def)
  obtain q qs' where qs: "qs = qs' @ [q]" using eq cut by (cases qs rule: rev_cases) (auto simp: encode_def)
  let ?l = "length (encode_rune q) - 1"
  have "last (encode qs) = last (encode_rune q)" by (simp add: qs encode_def)
  then have "last (encode qs) = encode_rune q ! ?l" by (simp add: last_conv_nth)
  then have lead: "hd (encode_rune r) = encode_rune q ! ?l" using eq cut by (metis last_snoc)
  have "192 \<le> byte_val (hd (encode_rune r))"
    using assms(2) by (auto simp: encode_rune_def encode_bytes_def Let_def valid_rune_def rune_error_def split: if_splits)
  moreover have "byte_val (encode_rune q ! ?l) < 192"
  proof (cases "?l = 0")
    case True
    then show ?thesis by (auto simp: encode_rune_def encode_bytes_def Let_def valid_rune_def rune_error_def split: if_splits)
  next
    case False
    then have "cont_byte (byte_val (encode_rune q ! ?l))" by (intro encode_rune_tail) auto
    then show ?thesis by (simp add: cont_byte_def)
  qed
  ultimately show False using lead by simp
qed

section \<open>The books of a discovery cycle\<close>

text \<open>The partitions of a cycle, and the counters the cycle row keeps of them.\<close>

definition parts :: "string \<Rightarrow> pg_tables \<Rightarrow> pg_partition list" where
  "parts cid d = filter (\<lambda>p. gp_cycle p = cid) (pt_partitions d)"

definition part_sound :: "pg_partition \<Rightarrow> bool" where
  "part_sound p \<longleftrightarrow> 0 \<le> gp_next p \<and> gp_next p \<le> gp_expected p \<and> (gp_status p = ''complete'' \<longleftrightarrow> gp_next p = gp_expected p)"

definition part_done :: "pg_partition \<Rightarrow> int" where
  "part_done p = (if gp_status p = ''complete'' then 1 else 0)"

definition tally :: "pg_partition list \<Rightarrow> pg_cycle \<Rightarrow> bool" where
  "tally ps c \<longleftrightarrow> gc_status c = ''running'' \<and> gc_scope c = ''daily_discovery'' \<and> gc_completed c = None
     \<and> gc_partition_count c = int (length ps) \<and> gc_expected_pages c = sum_list (map gp_expected ps)
     \<and> gc_completed_pages c = sum_list (map gp_next ps) \<and> gc_completed_partitions c = sum_list (map part_done ps)"

definition books :: "string \<Rightarrow> pg_tables \<Rightarrow> bool" where
  "books cid d \<longleftrightarrow> distinct (map partition_key (pt_partitions d)) \<and> list_all part_sound (parts cid d)
     \<and> (case filter (\<lambda>c. gc_id c = cid) (pt_cycles d) of [c] \<Rightarrow> tally (parts cid d) c | _ \<Rightarrow> False)"

lemma books_iff:
  "books cid d \<longleftrightarrow> distinct (map partition_key (pt_partitions d)) \<and> list_all part_sound (parts cid d)
     \<and> (\<exists>c. filter (\<lambda>c. gc_id c = cid) (pt_cycles d) = [c] \<and> tally (parts cid d) c)"
  by (auto simp: books_def split: list.splits)

lemma sum_list_change:
  assumes "distinct (map key rows)" "p \<in> set rows" "\<And>r. r \<in> set rows \<Longrightarrow> key r = key p \<Longrightarrow> h r = f (g p) - f p + (f r :: int)"
    "\<And>r. r \<in> set rows \<Longrightarrow> key r \<noteq> key p \<Longrightarrow> h r = f r"
  shows "sum_list (map h rows) = sum_list (map f rows) + (f (g p) - f p)"
  using assms
proof (induction rows)
  case (Cons r rows)
  show ?case
  proof (cases "key r = key p")
    case True
    have "h x = f x" if "x \<in> set rows" for x
    proof (rule Cons.prems(4))
      show "x \<in> set (r # rows)" using that by simp
      show "key x \<noteq> key p" using that Cons.prems(1) True by (metis distinct.simps(2) image_eqI list.simps(9) set_map)
    qed
    then have "map h rows = map f rows" by simp
    then have "sum_list (map h rows) = sum_list (map f rows)" by (rule arg_cong)
    with Cons.prems(3) [of r] True show ?thesis by simp
  next
    case False
    with Cons.prems(2) have "p \<in> set rows" by auto
    with Cons.IH Cons.prems False show ?thesis by (simp add: Cons.prems(4))
  qed
qed simp

lemma filter_map_id: "(\<And>x. i (h x) = i x) \<Longrightarrow> filter (\<lambda>x. i x = k) (map h xs) = map h (filter (\<lambda>x. i x = k) xs)"
  by (induction xs) simp_all

text \<open>A partition changed in place, with its cycle row moved by the differences, keeps the books.\<close>

lemma books_change:
  assumes books: "books cid d" and p: "row_of partition_key (cid, key) (pt_partitions d) = Some p"
    and g: "gp_cycle (g p) = cid" "gp_key (g p) = key" "part_sound (g p)"
    and d': "pt_partitions d' = map (\<lambda>r. if partition_key r = (cid, key) then g r else r) (pt_partitions d)"
      "pt_cycles d' = map (\<lambda>c. if gc_id c = cid \<and> gc_status c = ''running''
         then c\<lparr>gc_completed_pages := gc_completed_pages c + (gp_next (g p) - gp_next p),
                gc_expected_pages := gc_expected_pages c + (gp_expected (g p) - gp_expected p),
                gc_completed_partitions := gc_completed_partitions c + (part_done (g p) - part_done p)\<rparr> else c) (pt_cycles d)"
  shows "books cid d'"
proof -
  from books obtain c where dist: "distinct (map partition_key (pt_partitions d))" and sound: "list_all part_sound (parts cid d)"
    and c: "filter (\<lambda>c. gc_id c = cid) (pt_cycles d) = [c]" and tally: "tally (parts cid d) c" unfolding books_iff by blast
  let ?ch = "\<lambda>r. if partition_key r = (cid, key) then g r else r"
  from row_of_Some [OF p] have pmem: "p \<in> set (pt_partitions d)" and pk: "partition_key p = (cid, key)" by auto
  have only: "r = p" if "r \<in> set (pt_partitions d)" "partition_key r = (cid, key)" for r
    using that dist pmem pk by (metis distinct_map inj_onD)
  have keep: "map ?ch (pt_partitions d) = map (\<lambda>r. if r = p then g p else r) (pt_partitions d)"
    by (rule map_cong [OF refl]) (metis only pk)
  have keys: "map partition_key (pt_partitions d') = map partition_key (pt_partitions d)"
    unfolding d' keep using g pk by (simp add: partition_key_def)
  have cyc: "gp_cycle (?ch r) = gp_cycle r" if "r \<in> set (pt_partitions d)" for r
  proof (cases "partition_key r = (cid, key)")
    case True
    with only [OF that] pk g show ?thesis by (simp add: partition_key_def)
  qed simp
  have parts': "parts cid d' = map ?ch (parts cid d)"
  proof -
    have "filter (\<lambda>r. gp_cycle (?ch r) = cid) (pt_partitions d) = filter (\<lambda>r. gp_cycle r = cid) (pt_partitions d)"
      by (rule filter_cong [OF refl]) (simp only: cyc)
    then show ?thesis unfolding parts_def d' filter_map comp_def by (rule arg_cong)
  qed
  have pp: "p \<in> set (parts cid d)" using pmem pk by (simp add: parts_def partition_key_def)
  have pdist: "distinct (map partition_key (parts cid d))" using dist by (simp add: parts_def distinct_map_filter)
  have sums: "sum_list (map f (parts cid d')) = sum_list (map f (parts cid d)) + (f (g p) - f p)" for f :: "pg_partition \<Rightarrow> int"
    unfolding parts' map_map comp_def
    by (rule sum_list_change [OF pdist pp]) (use only pk in \<open>auto simp: parts_def\<close>)
  have "list_all part_sound (parts cid d')"
    using sound g(3) only unfolding parts' by (auto simp: list_all_iff parts_def)
  moreover have "filter (\<lambda>c. gc_id c = cid) (pt_cycles d') = [c\<lparr>gc_completed_pages := gc_completed_pages c + (gp_next (g p) - gp_next p),
                gc_expected_pages := gc_expected_pages c + (gp_expected (g p) - gp_expected p),
                gc_completed_partitions := gc_completed_partitions c + (part_done (g p) - part_done p)\<rparr>]"
  proof -
    have "c \<in> set (filter (\<lambda>c. gc_id c = cid) (pt_cycles d))" unfolding c by simp
    then have "gc_id c = cid" "gc_status c = ''running''" using tally by (simp_all add: tally_def)
    then show ?thesis unfolding d' by (subst filter_map_id) (simp_all add: c)
  qed
  moreover have "length (parts cid d') = length (parts cid d)" unfolding parts' by simp
  ultimately show ?thesis using keys dist tally sums unfolding books_iff by (auto simp: tally_def)
qed

lemma pstmt_ok: "pg_stmt env err f s = (s', Inr x) \<Longrightarrow> f (db_tick s) (db_data s) = Some (db_data s', x)"
  unfolding pg_stmt_def by (auto dest: stmt_ok)

lemma tx_cases:
  assumes "pg_tx env be ce body s = (s', r)"
  shows "db_data s' = db_data s \<or> (\<exists>s1 s2 x now. r = Inr x \<and> db_data s1 = db_data s \<and> body now s1 = (s2, Inr x) \<and> db_data s' = db_data s2)"
proof (cases r)
  case (Inl e)
  with assms show ?thesis unfolding pg_tx_def by (auto dest: in_tx_error)
next
  case (Inr x)
  note tx = assms [unfolded pg_tx_def Inr]
  obtain s1 s2 e where "db_data s1 = db_data s" "db_data s' = db_data s2"
    "(case body (db_now (pg_db env) (db_tick s)) s1 of (s', Inl e) \<Rightarrow> (s', Inl e)
      | (s', Inr y) \<Rightarrow> (s', Inr (y, ce y (pg_failure env (db_tick s'))))) = (s2, Inr (x, e))"
    by (rule in_tx_ok [OF tx]) blast
  then have "db_data s1 = db_data s \<and> body (db_now (pg_db env) (db_tick s)) s1 = (s2, Inr x) \<and> db_data s' = db_data s2"
    by (auto split: prod.splits sum.splits)
  with Inr show ?thesis by blast
qed

lemma lock_partition_ok:
  "lock_partition env operation cid key s = (s', Inr row)
    \<Longrightarrow> db_data s' = db_data s \<and> row_of partition_key (cid, key) (pt_partitions (db_data s)) = Some row"
  unfolding lock_partition_def by (auto dest!: pstmt_ok)

lemma update_partition_ok:
  "update_partition env operation cid key change s = (s', Inr x) \<Longrightarrow> db_data s' = (db_data s)\<lparr>pt_partitions :=
     map (\<lambda>p. if partition_key p = (cid, key) then change p else p) (pt_partitions (db_data s))\<rparr>"
  unfolding update_partition_def by (auto simp: update_where_def dest!: pstmt_ok split: if_splits)

lemma advance_cycle_ok:
  "advance_cycle env operation cid pages expected fin s = (s', Inr x) \<Longrightarrow> db_data s' = (db_data s)\<lparr>pt_cycles :=
     map (\<lambda>c. if gc_id c = cid \<and> gc_status c = ''running''
        then c\<lparr>gc_completed_pages := gc_completed_pages c + pages, gc_expected_pages := gc_expected_pages c + expected,
               gc_completed_partitions := gc_completed_partitions c + fin\<rparr> else c) (pt_cycles (db_data s))\<rparr>"
  unfolding advance_cycle_def update_cycles_def by (auto simp: update_where_def dest!: pstmt_ok split: if_splits)

text \<open>Observations and regions are not part of the books.\<close>

definition ledger :: "pg_tables \<Rightarrow> pg_partition list \<times> pg_cycle list" where
  "ledger d = (pt_partitions d, pt_cycles d)"

lemma books_ledger: "ledger d = ledger d' \<Longrightarrow> books cid d = books cid d'"
  by (simp add: ledger_def books_iff parts_def)

lemma save_observation_ledger: "preserves ledger (save_observation env cid ob)"
proof -
  have "preserves ledger (\<lambda>s. sanitized op (upsertRegion env source ext name s))" for op source ext name
  proof -
    have "preserves ledger (upsertRegion env source ext name)"
      unfolding upsertRegion_def Let_def by (auto intro!: preserves_intros simp: ledger_def split: prod.split)
    then show ?thesis by (simp add: preserves_def)
  qed
  then show ?thesis unfolding save_observation_def
    by (intro preserves_and_do preserves_if preserves_give preserves_stmt) (auto simp: Let_def ledger_def split: if_splits)
qed

lemma incomplete_row:
  assumes "books cid d" "row_of partition_key (cid, key) (pt_partitions d) = Some row" "gp_status row \<noteq> ''complete''"
  shows "gp_cycle row = cid" "gp_key row = key" "0 \<le> gp_next row" "gp_next row < gp_expected row" "part_done row = 0"
proof -
  from row_of_Some [OF assms(2)] show k: "gp_cycle row = cid" "gp_key row = key" by (auto simp: partition_key_def)
  from row_of_Some [OF assms(2)] k have "row \<in> set (parts cid d)" by (simp add: parts_def)
  with assms(1) have "part_sound row" by (auto simp: books_iff list_all_iff)
  with assms(3) show "0 \<le> gp_next row" "gp_next row < gp_expected row" "part_done row = 0"
    by (auto simp: part_sound_def part_done_def)
qed

lemma advance_page_books:
  assumes books: "books cid (db_data s)" and row: "row_of partition_key (cid, key) (pt_partitions (db_data s)) = Some row"
    and open_row: "gp_status row \<noteq> ''complete''" and ok: "advance_page env cid key (gp_next row + 1) now row s = (s', Inr x)"
  shows "books cid (db_data s')"
proof -
  note inc = incomplete_row [OF books row open_row]
  define g :: "pg_partition \<Rightarrow> pg_partition" where "g = (\<lambda>p. p\<lparr>gp_next := gp_next row + 1,
     gp_status := (if gp_next row + 1 = gp_expected row then ''complete'' else ''running''), gp_updated := now\<rparr>)"
  define fin :: int where "fin = (if gp_next row + 1 = gp_expected row then 1 else 0)"
  from ok inc obtain s1 n where up: "update_partition env ''advance discovery partition'' cid key g s = (s1, Inr ())"
    and adv: "advance_cycle env ''advance discovery cycle'' cid 1 0 fin s1 = (s', Inr n)"
    by (auto simp: advance_page_def g_def [symmetric] fin_def [symmetric] and_do_ok give_def)
  have g: "gp_cycle (g row) = cid" "gp_key (g row) = key" "part_sound (g row)"
    "gp_next (g row) - gp_next row = 1" "gp_expected (g row) - gp_expected row = 0"
    "part_done (g row) - part_done row = fin"
    using inc by (auto simp: g_def part_sound_def part_done_def fin_def)
  show ?thesis
    by (rule books_change [where g = g, OF books row g(1-3)]) (simp_all add: g(4-6) advance_cycle_ok [OF adv] update_partition_ok [OF up])
qed

lemma recount_page_books:
  assumes books: "books cid (db_data s)" and row: "row_of partition_key (cid, key) (pt_partitions (db_data s)) = Some row"
    and open_row: "gp_status row \<noteq> ''complete''" and n: "0 \<le> n" and ok: "recount_page env cid key n now row s = (s', Inr x)"
  shows "books cid (db_data s')"
proof (cases "gp_next row \<noteq> 0 \<or> gp_expected row = n")
  case True
  with ok books show ?thesis by (auto simp: recount_page_def give_def)
next
  case False
  note inc = incomplete_row [OF books row open_row]
  define g :: "pg_partition \<Rightarrow> pg_partition" where "g = (\<lambda>p. p\<lparr>gp_expected := n,
     gp_status := (if n = 0 then ''complete'' else ''pending''), gp_updated := now\<rparr>)"
  define fin :: int where "fin = (if n = 0 then 1 else 0)"
  from ok False obtain s1 k where up: "update_partition env ''update discovery page reconcile'' cid key g s = (s1, Inr ())"
    and adv: "advance_cycle env ''update discovery cycle reconcile'' cid 0 (n - gp_expected row) fin s1 = (s', Inr k)"
    by (auto simp: recount_page_def g_def [symmetric] fin_def [symmetric] and_do_ok give_def)
  have g: "gp_cycle (g row) = cid" "gp_key (g row) = key" "part_sound (g row)"
    "gp_next (g row) - gp_next row = 0" "gp_expected (g row) - gp_expected row = n - gp_expected row"
    "part_done (g row) - part_done row = fin"
    using inc False n by (auto simp: g_def part_sound_def part_done_def fin_def)
  show ?thesis
    by (rule books_change [where g = g, OF books row g(1-3)]) (simp_all add: g(4-6) advance_cycle_ok [OF adv] update_partition_ok [OF up])
qed

lemma SaveDiscoveryPage_books:
  assumes books: "books cid (db_data s)" and row: "row_of partition_key (cid, key) (pt_partitions (db_data s)) = Some row"
    and open_row: "gp_status row \<noteq> ''complete''"
  shows "books cid (db_data (fst (pg_SaveDiscoveryPage env s cid (partition_of_row row) observations)))"
proof -
  note inc = incomplete_row [OF books row open_row]
  define body where "body = (\<lambda>now. and_do (lock_partition env ''lock discovery partition'' cid key) (\<lambda>row'.
     and_do (for_each (save_observation env cid) observations) (\<lambda>_. advance_page env cid key (gp_next row + 1) now row')))"
  have kept: "books cid (db_data s2)" if s1: "db_data s1 = db_data s" and b: "body now s1 = (s2, Inr x)" for now s1 s2 x
  proof -
    from b obtain s3 row' where lock: "lock_partition env ''lock discovery partition'' cid key s1 = (s3, Inr row')"
      and rest: "and_do (for_each (save_observation env cid) observations) (\<lambda>_.
         advance_page env cid key (gp_next row + 1) now row') s3 = (s2, Inr x)"
      unfolding body_def by (auto simp: and_do_ok [of "lock_partition _ _ _ _"])
    from lock_partition_ok [OF lock] s1 row have r: "row' = row" "db_data s3 = db_data s" by simp_all
    from rest obtain s4 where obs: "for_each (save_observation env cid) observations s3 = (s4, Inr ())"
      and adv: "advance_page env cid key (gp_next row + 1) now row s4 = (s2, Inr x)" by (auto simp: and_do_ok r)
    have "preserves ledger (for_each (save_observation env cid) observations)"
      by (intro preserves_for_each save_observation_ledger)
    from preservesD [OF this obs] r have l4: "ledger (db_data s4) = ledger (db_data s)" by simp
    with row have "row_of partition_key (cid, key) (pt_partitions (db_data s4)) = Some row" by (simp add: ledger_def)
    with books_ledger [OF l4, of cid] books show ?thesis by (intro advance_page_books [OF _ _ open_row adv]) simp_all
  qed
  obtain s' r where tx: "pg_tx env (sanitizeDBError ''begin discovery page'')
       (\<lambda>early. if early then raw_error else sanitizeDBError ''commit discovery page'') body s = (s', r)" by fastforce
  have "fst (pg_SaveDiscoveryPage env s cid (partition_of_row row) observations) = s'"
    unfolding pg_SaveDiscoveryPage_def using tx inc by (simp add: partition_of_row_def body_def)
  moreover have "books cid (db_data s')" using tx_cases [OF tx] kept books by auto
  ultimately show ?thesis by simp
qed

lemma SetDiscoveryExpectedPages_books:
  assumes books: "books cid (db_data s)" and row: "row_of partition_key (cid, key) (pt_partitions (db_data s)) = Some row"
    and open_row: "gp_status row \<noteq> ''complete''"
  shows "books cid (db_data (fst (pg_SetDiscoveryExpectedPages env s cid key n)))"
proof (cases "n < 0")
  case False
  define body where "body = (\<lambda>now. and_do (lock_partition env ''lock discovery page reconcile'' cid key) (recount_page env cid key n now))"
  have kept: "books cid (db_data s2)" if s1: "db_data s1 = db_data s" and b: "body now s1 = (s2, Inr x)" for now s1 s2 x
  proof -
    from b obtain s3 row' where lock: "lock_partition env ''lock discovery page reconcile'' cid key s1 = (s3, Inr row')"
      and rest: "recount_page env cid key n now row' s3 = (s2, Inr x)"
      unfolding body_def by (auto simp: and_do_ok)
    from lock_partition_ok [OF lock] s1 row have r: "row' = row" "db_data s3 = db_data s" by simp_all
    from rest recount_page_books [of cid s3 key row n env now s2 x] r books row open_row False show ?thesis by simp
  qed
  obtain s' r where tx: "pg_tx env (sanitizeDBError ''begin discovery page reconcile'')
       (\<lambda>early. if early then raw_error else sanitizeDBError ''commit discovery page reconcile'') body s = (s', r)" by fastforce
  have "fst (pg_SetDiscoveryExpectedPages env s cid key n) = s'"
    unfolding pg_SetDiscoveryExpectedPages_def using tx False by (simp add: body_def)
  moreover have "books cid (db_data s')" using tx_cases [OF tx] kept books by auto
  ultimately show ?thesis by simp
qed (use books in \<open>simp add: pg_SetDiscoveryExpectedPages_def\<close>)

lemma sum_le_sum: "list_all part_sound ps \<Longrightarrow> 0 \<le> sum_list (map gp_next ps) \<and> sum_list (map gp_next ps) \<le> sum_list (map gp_expected ps)"
  by (induction ps) (auto simp: part_sound_def)

lemma all_done:
  "list_all part_sound ps \<Longrightarrow> list_all (\<lambda>p. gp_status p = ''complete'') ps
    \<Longrightarrow> sum_list (map part_done ps) = int (length ps) \<and> sum_list (map gp_next ps) = sum_list (map gp_expected ps)"
  by (induction ps) (auto simp: part_sound_def part_done_def)

lemma least_by_None: "least_by before xs = None \<longleftrightarrow> xs = []"
  by (cases xs) (auto split: option.split)

text \<open>
  C10. The books of a discovery cycle in PostgreSQL. While a cycle runs, its row counts exactly what its
  partitions say: the pages expected, the pages saved and the partitions finished. Saving the next page of an
  unfinished partition and correcting the expected pages of one keep this, whatever fails in between; and the
  cycle can be completed exactly when no partition is left to work on, so a complete cycle covers every
  planned page.
\<close>

theorem pg_discovery_books:
  assumes "books cid (db_data s)"
  shows "(row_of partition_key (cid, key) (pt_partitions (db_data s)) = Some row \<and> gp_status row \<noteq> ''complete'' \<longrightarrow>
        books cid (db_data (fst (pg_SaveDiscoveryPage env s cid (partition_of_row row) observations)))
      \<and> books cid (db_data (fst (pg_SetDiscoveryExpectedPages env s cid key n))))
    \<and> (snd (pg_CompleteDiscoveryCycle (answering env) s cid) = None \<longleftrightarrow>
        snd (pg_NextDiscoveryPartition (answering env) s cid) = Inr None)"
proof (intro conjI impI)
  assume a: "row_of partition_key (cid, key) (pt_partitions (db_data s)) = Some row \<and> gp_status row \<noteq> ''complete''"
  then show "books cid (db_data (fst (pg_SaveDiscoveryPage env s cid (partition_of_row row) observations)))"
    "books cid (db_data (fst (pg_SetDiscoveryExpectedPages env s cid key n)))"
    using SaveDiscoveryPage_books [OF assms] SetDiscoveryExpectedPages_books [OF assms] by blast+
next
  let ?d = "db_data s"
  from assms obtain c where sound: "list_all part_sound (parts cid ?d)" and c: "filter (\<lambda>c. gc_id c = cid) (pt_cycles ?d) = [c]"
    and tally: "tally (parts cid ?d) c" unfolding books_iff by blast
  have "c \<in> set (filter (\<lambda>c. gc_id c = cid) (pt_cycles ?d))" unfolding c by simp
  then have cid: "gc_id c = cid" by simp
  define p :: "pg_cycle \<Rightarrow> bool" where "p = (\<lambda>c. gc_id c = cid \<and> gc_scope c = ''daily_discovery'' \<and> (gc_status c = ''running'' \<or> gc_status c = ''complete'')
     \<and> gc_completed_pages c = gc_expected_pages c \<and> gc_completed_partitions c = gc_partition_count c
     \<and> \<not> list_ex (\<lambda>p. gp_cycle p = gc_id c \<and> gp_status p \<noteq> ''complete'') (pt_partitions ?d))"
  have rows: "filter p (pt_cycles ?d) = filter p (filter (\<lambda>c. gc_id c = cid) (pt_cycles ?d))"
    by (auto simp: p_def intro: filter_cong)
  have left: "list_ex (\<lambda>q. gp_cycle q = cid \<and> gp_status q \<noteq> ''complete'') (pt_partitions ?d)
      \<longleftrightarrow> \<not> list_all (\<lambda>q. gp_status q = ''complete'') (parts cid ?d)"
    by (auto simp: list_ex_iff list_all_iff parts_def)
  have pc: "p c \<longleftrightarrow> list_all (\<lambda>q. gp_status q = ''complete'') (parts cid ?d)"
    using tally cid left all_done [OF sound] by (auto simp: p_def tally_def)
  have check: "cycle_check (complete_row now c)" if "p c" for now
    using that pc tally all_done [OF sound] sum_le_sum [OF sound] by (auto simp: p_def tally_def cycle_check_def complete_row_def coalesce_def)
  have "snd (pg_CompleteDiscoveryCycle (answering env) s cid) = None \<longleftrightarrow> p c"
    using check
    by (auto simp: pg_CompleteDiscoveryCycle_def one_row_def update_cycles_def pg_stmt_def stmt_def Let_def answering_def
        update_where_def p_def [symmetric] rows c)
  moreover have "snd (pg_NextDiscoveryPartition (answering env) s cid) = Inr None
      \<longleftrightarrow> filter (\<lambda>q. gp_cycle q = cid \<and> gp_status q \<noteq> ''complete'') (pt_partitions ?d) = []"
    unfolding pg_NextDiscoveryPartition_def by (subst snd_read_answering) (simp_all add: answering_def least_by_None)
  moreover have "filter (\<lambda>q. gp_cycle q = cid \<and> gp_status q \<noteq> ''complete'') (pt_partitions ?d) = []
      \<longleftrightarrow> list_all (\<lambda>q. gp_status q = ''complete'') (parts cid ?d)"
    by (auto simp: filter_empty_conv list_all_iff parts_def)
  ultimately show "snd (pg_CompleteDiscoveryCycle (answering env) s cid) = None \<longleftrightarrow>
      snd (pg_NextDiscoveryPartition (answering env) s cid) = Inr None" using pc by simp
qed

definition one_partition :: DiscoveryPartition where
  "one_partition = \<lparr>dp_Key = ''k'', dp_ProfessionalRoleID = ''96'', dp_Area = ''113'', dp_DateFrom = 0, dp_DateTo = Day,
     dp_ExpectedPages = 1, dp_NextPage = 0, dp_Status = ''pending''\<rparr>"

definition one_cycle :: Cycle where
  "one_cycle = no_cycle\<lparr>cy_Source := ''hh'', cy_ExpectedPages := 1, cy_MethodVersion := ''vacancy_demand_v2''\<rparr>"

definition started_pg :: pg where
  "started_pg = fst (pg_StartDiscoveryCycle calm_env new_pg one_cycle [one_partition])"

lemma started_books: "books ''ii'' (db_data started_pg)"
  by code_simp

lemma started_row:
  "row_of partition_key (''ii'', ''k'') (pt_partitions (db_data started_pg)) = Some (partition_row ''ii'' 0 one_partition)"
  by code_simp

theorem pg_discovery_books_witness:
  "books ''ii'' (db_data (fst (pg_SaveDiscoveryPage calm_env started_pg ''ii'' (partition_of_row (partition_row ''ii'' 0 one_partition)) [])))"
proof -
  have "gp_status (partition_row ''ii'' 0 one_partition) \<noteq> ''complete''" by code_simp
  with started_row have "row_of partition_key (''ii'', ''k'') (pt_partitions (db_data started_pg)) = Some (partition_row ''ii'' 0 one_partition)
      \<and> gp_status (partition_row ''ii'' 0 one_partition) \<noteq> ''complete''" by blast
  with pg_discovery_books [OF started_books, of "''k''" "partition_row ''ii'' 0 one_partition" calm_env "[]" 1]
  show ?thesis by blast
qed

end
