(* ===== verification/Assist_Store.thy ===== *)
theory Assist_Store
  imports Bff_Assist Sql_Layer "HOL-Library.Product_Lexorder"
begin

text \<open>
  The assistant's repository, \<^verbatim>\<open>libs/go-common/assistant/postgres.go\<close>: its tables, users, versions of the
  preferences, snapshot runs, worker instances, the Telegram link and the automation settings. The work
  items, the results and the deliveries are in \<^theory_text>\<open>Assist_Queue\<close>.

  Every method sends one statement, or two; a statement is a function on the tables with the constraints of
  \<^verbatim>\<open>migrations/postgres\<close> as its failures. A jsonb column holds the text the database makes of its
  argument. \<^verbatim>\<open>now()\<close> and \<^verbatim>\<open>clock_timestamp()\<close> are one reading of the clock in a statement of its own.
\<close>

section \<open>Tables\<close>

definition SpecializationRulesVersion :: string where
  "SpecializationRulesVersion = ''assistant-hard-gates-v4''"

record pref_row =
  vr_id :: string
  vr_user :: string
  vr_version :: int
  vr_note :: string
  vr_hard :: string
  vr_soft :: string
  vr_weights :: string
  vr_active_from :: time
  vr_archived :: "time option"

text \<open>
  A run. Its counters, its AI status and its skip reason are the statistics of the worker, NULL being the
  empty text there.
\<close>

record run_record =
  rr_id :: string
  rr_user :: string
  rr_state :: string
  rr_request :: "string option"
  rr_preference :: string
  rr_cutoff :: time
  rr_total :: int
  rr_stats :: WorkerStats
  rr_cursor :: "(time \<times> string) option"
  rr_ruleset :: string
  rr_created :: time
  rr_started :: "time option"
  rr_finished :: "time option"
  rr_checked :: time
  rr_lease :: "time option"
  rr_error :: "string option"
  rr_superseded_at :: "time option"
  rr_superseded_by :: "string option"
  rr_superseded_from :: "string option"
  rr_heartbeat :: "time option"
  rr_phase :: string
  rr_retry_category :: "string option"
  rr_retry_until :: "time option"
  rr_batches :: int
  rr_concurrency :: int

record instance_row =
  ir_id :: string
  ir_started :: time
  ir_version :: string
  ir_mode :: string
  ir_state :: string
  ir_seen :: time

record connection_row =
  cx_user :: string
  cx_chat :: "int option"
  cx_linked :: "time option"
  cx_revoked :: "time option"
  cx_opted :: bool

record token_row =
  tr_hash :: string
  tr_user :: string
  tr_expires :: time
  tr_used :: "time option"

record settings_row =
  st_user :: string
  st_ai :: bool
  st_telegram :: bool
  st_activation :: "time option"

text \<open>What the repository reads of a vacancy and of its dictionaries.\<close>

record vacancy_row =
  xv_id :: string
  xv_source :: string
  xv_external :: string
  xv_title :: string
  xv_url :: "string option"
  xv_from :: "float64 option"
  xv_to :: "float64 option"
  xv_mid :: "float64 option"
  xv_role :: "string option"
  xv_region :: "string option"
  xv_remote :: "bool option"
  xv_published :: "time option"
  xv_collected :: time
  xv_created :: time
  xv_description :: "string option"
  xv_truncated :: bool
  xv_revision :: int
  xv_active :: bool
  xv_deleted :: bool

record work_item =
  wq_id :: string
  wq_source :: string
  wq_external :: string
  wq_revision :: int
  wq_status :: string
  wq_available :: time
  wq_attempts :: int
  wq_lease :: "time option"
  wq_claimed :: "string option"
  wq_error :: "string option"
  wq_completed :: "time option"
  wq_dead :: "time option"

record match_row =
  mw_user :: string
  mw_preference :: string
  mw_vacancy :: string
  mw_revision :: int
  mw_method :: string
  mw_ruleset :: string
  mw_provider :: "string option"
  mw_model :: "string option"
  mw_prompt :: "string option"
  mw_decision :: string
  mw_score :: real
  mw_confidence :: "string option"
  mw_rationale :: string
  mw_evidence :: "string list"
  mw_conflicts :: "string list"
  mw_unknowns :: "string list"
  mw_hash :: string
  mw_run :: "string option"
  mw_created :: time

record job_row =
  jr_user :: string
  jr_preference :: string
  jr_vacancy :: string
  jr_revision :: int
  jr_ruleset :: string
  jr_status :: string
  jr_attempts :: int
  jr_provider :: string
  jr_model :: string
  jr_hash :: string
  jr_error :: "string option"
  jr_finished :: time

record delivery_row =
  dr_id :: string
  dr_user :: string
  dr_preference :: string
  dr_vacancy :: string
  dr_status :: string
  dr_attempts :: int
  dr_next :: "time option"
  dr_cooldown :: "time option"
  dr_lease :: "time option"
  dr_claimed :: "string option"
  dr_dead :: "time option"
  dr_sent :: "time option"
  dr_message :: "int option"
  dr_error :: "string option"
  dr_created :: time

record asst_tables =
  tb_users :: "(string \<times> string) list"
  tb_prefs :: "pref_row list"
  tb_requests :: "((string \<times> string) \<times> string) list"
  tb_runs :: "run_record list"
  tb_instances :: "instance_row list"
  tb_connections :: "connection_row list"
  tb_tokens :: "token_row list"
  tb_settings :: "settings_row list"
  tb_sources :: "(string \<times> bool) list"
  tb_vacancies :: "vacancy_row list"
  tb_role_aliases :: "(string \<times> string \<times> string) list"
  tb_scopes :: "(string \<times> string \<times> string) list"
  tb_vacancy_skills :: "(string \<times> string) list"
  tb_skills :: "(string \<times> string \<times> string) list"
  tb_items :: "work_item list"
  tb_matches :: "match_row list"
  tb_jobs :: "job_row list"
  tb_deliveries :: "delivery_row list"
  tb_cursors :: "(string \<times> time \<times> string) list"

definition no_asst_tables :: asst_tables where
  "no_asst_tables = \<lparr>tb_users = [], tb_prefs = [], tb_requests = [], tb_runs = [], tb_instances = [], tb_connections = [],
     tb_tokens = [], tb_settings = [], tb_sources = [], tb_vacancies = [], tb_role_aliases = [], tb_scopes = [],
     tb_vacancy_skills = [], tb_skills = [], tb_items = [], tb_matches = [], tb_jobs = [], tb_deliveries = [], tb_cursors = []\<rparr>"

type_synonym asst = "asst_tables conn"

text \<open>
  The codecs: \<^verbatim>\<open>json.Marshal\<close> of the criteria and of the weights, the cast to jsonb, \<^verbatim>\<open>json.Unmarshal\<close> into
  the two kinds of map; the hash of a link token; the clock of the process.
\<close>

record asst_env =
  ae_db :: db_env
  ae_marshal :: "criteria \<Rightarrow> string option"
  ae_marshalWeights :: "(string \<times> float64) list \<Rightarrow> string option"
  ae_jsonb :: "string \<Rightarrow> string option"
  ae_object :: "string \<Rightarrow> criteria option"
  ae_weights :: "string \<Rightarrow> (string \<times> float64) list option"
  ae_hash :: "string \<Rightarrow> string"
  ae_clock :: "nat \<Rightarrow> time"
  ae_updated :: "string \<Rightarrow> time"

text \<open>
  Errors: a wrapped failure of a statement, \<^verbatim>\<open>pgx.ErrNoRows\<close>, invalid preferences, a column that does not
  decode, and the errors the methods make themselves.
\<close>

datatype asst_error = AsDb string | AsNoRows | AsPreferences pref_error | AsDecode string | AsMessage string

definition asst_stmt :: "asst_env \<Rightarrow> string \<Rightarrow> (time \<Rightarrow> asst_tables \<Rightarrow> (asst_tables \<times> 'a) option) \<Rightarrow> asst \<Rightarrow> asst \<times> (asst_error + 'a)" where
  "asst_stmt env label q = stmt (ae_db env) (AsDb label) (\<lambda>t. q (db_now (ae_db env) t))"

definition asst_read :: "asst_env \<Rightarrow> string \<Rightarrow> (time \<Rightarrow> asst_tables \<Rightarrow> 'a) \<Rightarrow> asst \<Rightarrow> asst \<times> (asst_error + 'a)" where
  "asst_read env label f = asst_stmt env label (\<lambda>now d. Some (d, f now d))"

text \<open>The value of a statement that yields an identifier needs the number of the statement.\<close>

definition asst_insert :: "asst_env \<Rightarrow> string \<Rightarrow> (string \<Rightarrow> time \<Rightarrow> asst_tables \<Rightarrow> (asst_tables \<times> 'a) option) \<Rightarrow> asst \<Rightarrow> asst \<times> (asst_error + 'a)" where
  "asst_insert env label q = stmt (ae_db env) (AsDb label) (\<lambda>t. q (db_uuid (ae_db env) t) (db_now (ae_db env) t))"

definition affected :: "nat \<Rightarrow> asst_error \<Rightarrow> asst \<times> (asst_error + nat) \<Rightarrow> asst \<times> asst_error option" where
  "affected n err out = (case out of (s, Inl e) \<Rightarrow> (s, Some e) | (s, Inr k) \<Rightarrow> (s, if k = n then None else Some err))"

definition done_or :: "asst \<times> (asst_error + 'a) \<Rightarrow> asst \<times> asst_error option" where
  "done_or out = (case out of (s, Inl e) \<Rightarrow> (s, Some e) | (s, Inr _) \<Rightarrow> (s, None))"

text \<open>\<^verbatim>\<open>UPDATE\<close> of the rows a condition selects, and their number.\<close>

definition set_where :: "('r \<Rightarrow> bool) \<Rightarrow> ('r \<Rightarrow> 'r) \<Rightarrow> 'r list \<Rightarrow> 'r list" where
  "set_where P f rows = map (\<lambda>r. if P r then f r else r) rows"

definition count_where :: "('r \<Rightarrow> bool) \<Rightarrow> 'r list \<Rightarrow> nat" where
  "count_where P rows = length (filter P rows)"

section \<open>Users and preferences\<close>

text \<open>A user is its identifier and its subject.\<close>

definition ensure_user :: "string \<Rightarrow> string \<Rightarrow> asst_tables \<Rightarrow> (asst_tables \<times> string) option" where
  "ensure_user subj uuid d =
     (case row_of snd subj (tb_users d) of
        Some u \<Rightarrow> Some (d, fst u)
      | None \<Rightarrow> if uuid \<in> fst ` set (tb_users d) then None
                else Some (d\<lparr>tb_users := tb_users d @ [(uuid, subj)]\<rparr>, uuid))"

definition EnsureUser :: "asst_env \<Rightarrow> asst \<Rightarrow> string \<Rightarrow> asst \<times> (asst_error + string)" where
  "EnsureUser env s subject0 =
     (let subj = TrimSpace subject0 in
      if subj = '''' \<or> length subj > 255 then (s, Inl (AsMessage ''assistant subject is required''))
      else asst_insert env ''ensure assistant user'' (\<lambda>uuid _. ensure_user subj uuid) s)"

definition pref_time0 :: time where "pref_time0 = 0"

definition no_preference :: PreferenceRecord where
  "no_preference = \<lparr>pc_ID = '''', pc_Version = 0, pc_Note = '''', pc_HardCriteria = [], pc_SoftCriteria = [], pc_Weights = [],
     pc_ActiveFrom = pref_time0, pc_ArchivedAt = None, pc_LegacyRoleUpgraded = False, pc_LegacySpecializationSuggestion = ''''\<rparr>"

definition own_prefs :: "string \<Rightarrow> asst_tables \<Rightarrow> pref_row list" where
  "own_prefs u d = filter (\<lambda>r. vr_user r = u) (tb_prefs d)"

text \<open>\<^verbatim>\<open>ORDER BY version DESC LIMIT 1\<close>\<close>

fun newest :: "pref_row list \<Rightarrow> pref_row option" where
  "newest [] = None"
| "newest (r # rs) = (case newest rs of None \<Rightarrow> Some r | Some x \<Rightarrow> Some (if vr_version r < vr_version x then x else r))"

definition current_pref :: "string \<Rightarrow> asst_tables \<Rightarrow> pref_row option" where
  "current_pref u d = newest (filter (\<lambda>r. vr_archived r = None) (own_prefs u d))"

definition decode_pref :: "asst_env \<Rightarrow> pref_row \<Rightarrow> asst_error + PreferenceRecord" where
  "decode_pref env r =
     (case ae_object env (vr_hard r) of None \<Rightarrow> Inl (AsDecode ''decode hard criteria'') | Some hard \<Rightarrow>
     (case ae_object env (vr_soft r) of None \<Rightarrow> Inl (AsDecode ''decode soft criteria'') | Some soft \<Rightarrow>
     (case ae_weights env (vr_weights r) of None \<Rightarrow> Inl (AsDecode ''decode weights'') | Some weights \<Rightarrow>
       Inr (no_preference\<lparr>pc_ID := vr_id r, pc_Version := vr_version r, pc_Note := vr_note r, pc_HardCriteria := hard,
         pc_SoftCriteria := soft, pc_Weights := weights, pc_ActiveFrom := vr_active_from r, pc_ArchivedAt := vr_archived r\<rparr>))))"

definition normalized :: "asst_error + PreferenceRecord \<Rightarrow> asst_error + PreferenceRecord" where
  "normalized r = (case r of Inl e \<Rightarrow> Inl e | Inr p \<Rightarrow>
     (case NormalizePreferenceRoles p of Inl e \<Rightarrow> Inl (AsPreferences e) | Inr (q, _) \<Rightarrow> Inr q))"

definition CurrentPreferences :: "asst_env \<Rightarrow> asst \<Rightarrow> string \<Rightarrow> asst \<times> (asst_error + PreferenceRecord)" where
  "CurrentPreferences env s u =
     (case asst_read env ''get assistant preferences'' (\<lambda>_. current_pref u) s of
        (s, Inl e) \<Rightarrow> (s, Inl e)
      | (s, Inr None) \<Rightarrow> (s, Inr no_preference)
      | (s, Inr (Some r)) \<Rightarrow> (s, normalized (decode_pref env r)))"

fun all_right :: "('e + 'a) list \<Rightarrow> 'e + 'a list" where
  "all_right [] = Inr []"
| "all_right (x # xs) = (case x of Inl e \<Rightarrow> Inl e | Inr a \<Rightarrow> (case all_right xs of Inl e \<Rightarrow> Inl e | Inr as \<Rightarrow> Inr (a # as)))"

definition ListPreferences :: "asst_env \<Rightarrow> asst \<Rightarrow> string \<Rightarrow> asst \<times> (asst_error + PreferenceRecord list)" where
  "ListPreferences env s u =
     (case asst_read env ''list assistant preferences'' (\<lambda>_ d. sort_key (\<lambda>r. - vr_version r) (own_prefs u d)) s of
        (s, Inl e) \<Rightarrow> (s, Inl e)
      | (s, Inr rows) \<Rightarrow> (s, all_right (map (decode_pref env) rows)))"

definition archive_pref :: "string \<Rightarrow> string \<Rightarrow> time \<Rightarrow> asst_tables \<Rightarrow> (asst_tables \<times> nat) option" where
  "archive_pref u i now d =
     (let P = (\<lambda>r. vr_id r = i \<and> vr_user r = u \<and> vr_archived r = None) in
      Some (d\<lparr>tb_prefs := set_where P (\<lambda>r. r\<lparr>vr_archived := Some now\<rparr>) (tb_prefs d)\<rparr>, count_where P (tb_prefs d)))"

definition ArchivePreference :: "asst_env \<Rightarrow> asst \<Rightarrow> string \<Rightarrow> string \<Rightarrow> asst \<times> asst_error option" where
  "ArchivePreference env s u i =
     (case asst_stmt env ''archive assistant preference'' (archive_pref u i) s of
        (s, Inl e) \<Rightarrow> (s, Some e)
      | (s, Inr n) \<Rightarrow> (s, if n = 0 then Some AsNoRows else None))"

text \<open>The constraints on a version: its number is free and its documents have the shape the checks ask for.\<close>

definition pref_check :: "asst_env \<Rightarrow> pref_row \<Rightarrow> bool" where
  "pref_check env r \<longleftrightarrow> vr_version r > 0 \<and> length (runes (vr_note r)) \<le> 2000
     \<and> (case ae_object env (vr_hard r) of
          None \<Rightarrow> False
        | Some c \<Rightarrow>
            (case map_of c ''specialization'' of None \<Rightarrow> True
             | Some (AnyString v) \<Rightarrow> List.member supportedSpecializations v | Some _ \<Rightarrow> False)
            \<and> (case map_of c ''include_leadership'' of None \<Rightarrow> True | Some (AnyBool _) \<Rightarrow> True | Some _ \<Rightarrow> False))
     \<and> ae_object env (vr_soft r) \<noteq> None \<and> ae_weights env (vr_weights r) \<noteq> None"

definition max_version :: "string \<Rightarrow> asst_tables \<Rightarrow> int" where
  "max_version u d = foldr max (map vr_version (own_prefs u d)) 0"

definition insert_pref :: "asst_env \<Rightarrow> pref_row \<Rightarrow> asst_tables \<Rightarrow> asst_tables option" where
  "insert_pref env r d =
     (if vr_user r \<in> fst ` set (tb_users d) \<and> pref_check env r
         \<and> (\<forall>x \<in> set (tb_prefs d). vr_id x \<noteq> vr_id r \<and> (vr_user x, vr_version x) \<noteq> (vr_user r, vr_version r))
      then Some (d\<lparr>tb_prefs := tb_prefs d @ [r]\<rparr>) else None)"

text \<open>
  The statement behind \<^verbatim>\<open>SavePreferences\<close>. It reads the tables as they were when it began (\<open>snap\<close>), and writes to
  the tables as they are (\<open>d\<close>): the advisory lock in it is taken after the snapshot. Without a concurrent
  request the two are the same.
\<close>

definition stored_request :: "string \<Rightarrow> string \<Rightarrow> asst_tables \<Rightarrow> pref_row option" where
  "stored_request u key d =
     (case map_of (tb_requests d) (u, key) of None \<Rightarrow> None | Some p \<Rightarrow> row_of vr_id p (tb_prefs d))"

definition save_pref :: "asst_env \<Rightarrow> string \<Rightarrow> string \<Rightarrow> PreferenceRecord \<Rightarrow> string \<times> string \<times> string \<Rightarrow> asst_tables \<Rightarrow> string \<Rightarrow> time
    \<Rightarrow> asst_tables \<Rightarrow> (asst_tables \<times> pref_row) option" where
  "save_pref env u key p docs snap uuid now d =
     (case docs of (hard, soft, weights) \<Rightarrow>
      (case (ae_jsonb env hard, ae_jsonb env soft, ae_jsonb env weights) of
         (Some h, Some f, Some w) \<Rightarrow>
           (case (if key = '''' then None else stored_request u key snap) of
              Some r \<Rightarrow> Some (d, r)
            | None \<Rightarrow>
                (let r = \<lparr>vr_id = uuid, vr_user = u, vr_version = max_version u snap + 1, vr_note = pc_Note p, vr_hard = h,
                          vr_soft = f, vr_weights = w, vr_active_from = now, vr_archived = None\<rparr>
                 in case insert_pref env r d of
                      None \<Rightarrow> None
                    | Some d \<Rightarrow>
                        if key = '''' then Some (d, r)
                        else if length (runes key) > 255 \<or> (u, key) \<in> fst ` set (tb_requests d) then None
                        else Some (d\<lparr>tb_requests := tb_requests d @ [((u, key), uuid)]\<rparr>, r)))
       | _ \<Rightarrow> None))"

text \<open>The value scanned back has no archive time, and is not normalised again.\<close>

definition SavePreferences :: "asst_env \<Rightarrow> asst \<Rightarrow> string \<Rightarrow> string \<Rightarrow> PreferenceRecord \<Rightarrow> asst \<times> (asst_error + PreferenceRecord)" where
  "SavePreferences env s u requestID p0 =
     (case NormalizePreferenceRoles p0 of
        Inl e \<Rightarrow> (s, Inl (AsPreferences e))
      | Inr (p, _) \<Rightarrow>
          (case validatePreferences (ae_marshal env) (ae_marshalWeights env) p of
             Inl e \<Rightarrow> (s, Inl (AsPreferences e))
           | Inr docs \<Rightarrow>
               (case asst_insert env ''save assistant preferences''
                       (\<lambda>uuid now d. save_pref env u (TrimSpace requestID) p docs d uuid now d) s of
                  (s, Inl e) \<Rightarrow> (s, Inl e)
                | (s, Inr r) \<Rightarrow> (s, decode_pref env (r\<lparr>vr_archived := None\<rparr>)))))"

section \<open>The report of an analysis\<close>

definition WorkerAvailabilityTTL :: duration where "WorkerAvailabilityTTL = 40 * Second"

text \<open>The report: the row it is made from, the versions joined to it, and the state of the worker.\<close>

record AnalysisReport =
  an_row :: "run_record option"
  an_ai_configured :: bool
  an_state :: string
  an_ai_status :: string
  an_checked :: time
  an_method :: string
  an_version :: int
  an_current :: int
  an_superseded_by :: "int option"
  an_offline :: bool
  an_stalled :: bool
  an_instance :: "instance_row option"
  an_worker_state :: string
  an_server_time :: "time option"

text \<open>\<^verbatim>\<open>ORDER BY created_at DESC LIMIT 1\<close>, the first of those with the same time.\<close>

fun latest_run :: "run_record list \<Rightarrow> run_record option" where
  "latest_run [] = None"
| "latest_run (r # rs) = (case latest_run rs of None \<Rightarrow> Some r | Some x \<Rightarrow> Some (if rr_created r < rr_created x then x else r))"

definition status_row :: "string \<Rightarrow> asst_tables \<Rightarrow> (run_record \<times> int \<times> int \<times> int option) option" where
  "status_row u d =
     (case current_pref u d of
        None \<Rightarrow> None
      | Some cur \<Rightarrow>
          (case latest_run (filter (\<lambda>r. rr_user r = u \<and> row_of vr_id (rr_preference r) (tb_prefs d) \<noteq> None) (tb_runs d)) of
             None \<Rightarrow> None
           | Some r \<Rightarrow>
               (case row_of vr_id (rr_preference r) (tb_prefs d) of
                  None \<Rightarrow> None
                | Some p \<Rightarrow> Some (r, vr_version p, vr_version cur,
                    case rr_superseded_by r of None \<Rightarrow> None | Some i \<Rightarrow> map_option vr_version (row_of vr_id i (tb_prefs d))))))"

definition instance_live :: "time \<Rightarrow> instance_row \<Rightarrow> bool" where
  "instance_live now r \<longleftrightarrow> ir_state r \<noteq> ''stopping'' \<and> ir_seen r \<ge> now - WorkerAvailabilityTTL"

text \<open>The live instances first, the one seen last first.\<close>

fun best_instance :: "time \<Rightarrow> instance_row list \<Rightarrow> instance_row option" where
  "best_instance now [] = None"
| "best_instance now (r # rs) =
     (case best_instance now rs of
        None \<Rightarrow> Some r
      | Some x \<Rightarrow> Some (if (instance_live now r, ir_seen r) < (instance_live now x, ir_seen x) then x else r))"

definition loadWorkerAvailability :: "asst_env \<Rightarrow> asst \<Rightarrow> AnalysisReport \<Rightarrow> asst \<times> (asst_error + AnalysisReport)" where
  "loadWorkerAvailability env s rep =
     (case asst_read env ''get assistant worker availability'' (\<lambda>now d. (now, best_instance now (tb_instances d))) s of
        (s, Inl e) \<Rightarrow> (s, Inl e)
      | (s, Inr (now, Some i)) \<Rightarrow>
          (s, Inr (rep\<lparr>an_instance := Some i, an_worker_state := ir_state i, an_server_time := Some now,
             an_offline := (ir_state i = ''stopping'' \<or> ir_seen i < now - WorkerAvailabilityTTL)\<rparr>))
      | (s, Inr (_, None)) \<Rightarrow>
          (case asst_read env ''get assistant worker server time'' (\<lambda>now _. now) s of
             (s, Inl e) \<Rightarrow> (s, Inl e)
           | (s, Inr now) \<Rightarrow> (s, Inr (rep\<lparr>an_offline := True, an_worker_state := ''offline'', an_server_time := Some now\<rparr>))))"

definition AnalysisStatus :: "asst_env \<Rightarrow> asst \<Rightarrow> string \<Rightarrow> bool \<Rightarrow> asst \<times> (asst_error + AnalysisReport)" where
  "AnalysisStatus env s u aiConfigured =
     (case asst_read env ''get assistant status'' (\<lambda>_. status_row u) s of
        (s, Inl e) \<Rightarrow> (s, Inl e)
      | (s, Inr found) \<Rightarrow>
          (let rep = \<lparr>an_row = map_option fst found, an_ai_configured = aiConfigured,
                 an_state = (case found of None \<Rightarrow> if aiConfigured then ''never_run'' else ''disabled'' | Some (r, _) \<Rightarrow> rr_state r),
                 an_ai_status = (case found of None \<Rightarrow> ''not_run'' | Some (r, _) \<Rightarrow> ww_AIStatus (rr_stats r)),
                 an_checked = (case found of None \<Rightarrow> ae_clock env (db_tick s) | Some (r, _) \<Rightarrow> rr_checked r),
                 an_method = SpecializationRulesVersion,
                 an_version = (case found of None \<Rightarrow> 0 | Some (_, v, _) \<Rightarrow> v),
                 an_current = (case found of None \<Rightarrow> 0 | Some (_, _, v, _) \<Rightarrow> v),
                 an_superseded_by = (case found of None \<Rightarrow> None | Some (_, _, _, v) \<Rightarrow> v),
                 an_offline = False, an_stalled = False, an_instance = None, an_worker_state = '''', an_server_time = None\<rparr>
           in case loadWorkerAvailability env s rep of
                (s, Inl e) \<Rightarrow> (s, Inl e)
              | (s, Inr rep) \<Rightarrow>
                  (s, Inr (rep\<lparr>an_stalled := (an_state rep = ''running''
                     \<and> (case an_server_time rep of None \<Rightarrow> False | Some t \<Rightarrow> Sub t (an_checked rep) > 2 * Minute))\<rparr>))))"

section \<open>Snapshot runs\<close>

definition run_active :: "run_record \<Rightarrow> bool" where
  "run_active r \<longleftrightarrow> rr_state r \<in> {''queued'', ''running'', ''paused''}"

text \<open>The checks of a row of \<^verbatim>\<open>assistant_runs\<close>.\<close>

definition counters :: "WorkerStats \<Rightarrow> int list" where
  "counters st = [ww_Processed st, ww_Eligible st, ww_Matched st, ww_Skipped st, ww_AICalls st, ww_AIEligible st,
     ww_AISucceeded st, ww_AIMatches st, ww_AIReviews st, ww_AIRejects st, ww_AIFailures st, ww_AISkipped st,
     ww_AIHTTPAttempts st, ww_AIRetries st, ww_AIBatches st, ww_AIPromptTokens st, ww_AICompletionTokens st,
     ww_AICachedTokens st, ww_AIRateLimit st, ww_AITimeouts st, ww_AIInvalidResponses st, ww_AIAuth st, ww_AIQuota st,
     ww_AIServer st, ww_AINetwork st, ww_AIContextLimit st, ww_AIContentFilter st, ww_AIInvalidRequest st]"

definition run_states :: "string list" where
  "run_states = [''queued'', ''running'', ''paused'', ''succeeded'', ''failed'', ''disabled'', ''superseded'']"

definition skip_reasons :: "string list" where
  "skip_reasons = ['''', ''server_disabled'', ''user_opt_out'', ''run_predates_ai'', ''no_eligible'', ''budget_exhausted'',
     ''already_analyzed'', ''provider_unavailable'', ''preferences_changed'', ''hard_reject'', ''unknown'']"

definition run_check :: "run_record \<Rightarrow> bool" where
  "run_check r \<longleftrightarrow> List.member run_states (rr_state r) \<and> rr_total r \<ge> 0 \<and> list_all (\<lambda>n. n \<ge> 0) (counters (rr_stats r))
     \<and> List.member [''not_run'', ''pending'', ''running'', ''completed'', ''partial'', ''failed'', ''skipped''] (ww_AIStatus (rr_stats r))
     \<and> List.member skip_reasons (ww_AISkipReason (rr_stats r))
     \<and> List.member [''idle'', ''processing'', ''provider_request'', ''backoff'', ''stopping''] (rr_phase r)
     \<and> (case rr_superseded_from r of None \<Rightarrow> True
        | Some x \<Rightarrow> List.member [''queued'', ''running'', ''paused'', ''succeeded'', ''failed''] x)
     \<and> rr_batches r \<ge> 0 \<and> rr_concurrency r \<ge> 0"

text \<open>The unique indexes: identifiers, request keys, and one active run per user.\<close>

definition runs_unique :: "run_record list \<Rightarrow> bool" where
  "runs_unique rs \<longleftrightarrow> distinct (map rr_id rs)
     \<and> distinct (map (\<lambda>r. (rr_user r, rr_request r)) (filter (\<lambda>r. rr_request r \<noteq> None) rs))
     \<and> distinct (map rr_user (filter run_active rs))"

definition put_runs :: "run_record list \<Rightarrow> asst_tables \<Rightarrow> asst_tables option" where
  "put_runs rs d = (if list_all run_check rs \<and> runs_unique rs then Some (d\<lparr>tb_runs := rs\<rparr>) else None)"

definition update_runs :: "(run_record \<Rightarrow> bool) \<Rightarrow> (run_record \<Rightarrow> run_record) \<Rightarrow> asst_tables \<Rightarrow> (asst_tables \<times> nat) option" where
  "update_runs P f d =
     (case put_runs (set_where P f (tb_runs d)) d of None \<Rightarrow> None | Some d' \<Rightarrow> Some (d', count_where P (tb_runs d)))"

definition source_active :: "asst_tables \<Rightarrow> string \<Rightarrow> bool" where
  "source_active d code \<longleftrightarrow> (code, True) \<in> set (tb_sources d)"

definition in_snapshot :: "asst_tables \<Rightarrow> vacancy_row \<Rightarrow> bool" where
  "in_snapshot d v \<longleftrightarrow> xv_active v \<and> \<not> xv_deleted v \<and> source_active d (xv_source v)"

definition snapshot_total :: "asst_tables \<Rightarrow> int" where
  "snapshot_total d = int (length (filter (in_snapshot d) (tb_vacancies d)))"

definition ai_enabled :: "string \<Rightarrow> asst_tables \<Rightarrow> bool" where
  "ai_enabled u d = (case row_of st_user u (tb_settings d) of None \<Rightarrow> False | Some r \<Rightarrow> st_ai r)"

definition new_run :: "string \<Rightarrow> string \<Rightarrow> string option \<Rightarrow> string \<Rightarrow> bool \<Rightarrow> time \<Rightarrow> asst_tables \<Rightarrow> run_record" where
  "new_run uuid u req pref aiConfigured now d =
     \<lparr>rr_id = uuid, rr_user = u, rr_state = ''queued'', rr_request = req, rr_preference = pref, rr_cutoff = now,
      rr_total = snapshot_total d,
      rr_stats = no_worker_stats\<lparr>ww_AIStatus := (if \<not> aiConfigured \<or> \<not> ai_enabled u d then ''skipped'' else ''pending''),
        ww_AISkipReason := (if \<not> aiConfigured then ''server_disabled'' else if \<not> ai_enabled u d then ''user_opt_out'' else '''')\<rparr>,
      rr_cursor = None, rr_ruleset = SpecializationRulesVersion, rr_created = now, rr_started = None, rr_finished = None,
      rr_checked = now, rr_lease = None, rr_error = None, rr_superseded_at = None, rr_superseded_by = None,
      rr_superseded_from = None, rr_heartbeat = None, rr_phase = ''idle'', rr_retry_category = None, rr_retry_until = None,
      rr_batches = 0, rr_concurrency = 0\<rparr>"

definition null_text :: "string \<Rightarrow> string option" where
  "null_text v = (if v = '''' then None else Some v)"

text \<open>The answer is the run of the request key, or the new run; nothing when the user has an active run or no preference.\<close>

definition queue_run :: "string \<Rightarrow> string \<Rightarrow> bool \<Rightarrow> string \<Rightarrow> time \<Rightarrow> asst_tables \<Rightarrow> (asst_tables \<times> string option) option" where
  "queue_run u requestID aiConfigured uuid now d =
     (let req = null_text requestID in
      case List.find (\<lambda>r. rr_user r = u \<and> req \<noteq> None \<and> rr_request r = req) (tb_runs d) of
        Some r \<Rightarrow> Some (d, Some (rr_id r))
      | None \<Rightarrow>
          if \<exists>r \<in> set (tb_runs d). rr_user r = u \<and> run_active r then Some (d, None)
          else (case current_pref u d of
              None \<Rightarrow> Some (d, None)
            | Some p \<Rightarrow>
                (case put_runs (tb_runs d @ [new_run uuid u req (vr_id p) aiConfigured now d]) d of
                   None \<Rightarrow> None
                 | Some d' \<Rightarrow> Some (d', Some uuid))))"

definition QueueAnalysis :: "asst_env \<Rightarrow> asst \<Rightarrow> string \<Rightarrow> string \<Rightarrow> bool \<Rightarrow> asst \<times> (asst_error + string)" where
  "QueueAnalysis env s u requestID aiConfigured =
     (case asst_insert env ''queue assistant analysis'' (queue_run u requestID aiConfigured) s of
        (s, Inl e) \<Rightarrow> (s, Inl e)
      | (s, Inr None) \<Rightarrow> (s, Inl (AsMessage ''analysis already running''))
      | (s, Inr (Some i)) \<Rightarrow> (s, Inr i))"

definition AnalysisSnapshotTotal :: "asst_env \<Rightarrow> asst \<Rightarrow> asst \<times> (asst_error + int)" where
  "AnalysisSnapshotTotal env = asst_read env ''count assistant snapshot'' (\<lambda>_. snapshot_total)"

definition run_lease :: duration where "run_lease = 10 * Minute"

definition claimable :: "time \<Rightarrow> run_record \<Rightarrow> bool" where
  "claimable now r \<longleftrightarrow> rr_state r = ''queued''
     \<or> (rr_state r = ''running'' \<and> (case rr_lease r of None \<Rightarrow> False | Some t \<Rightarrow> t < now))"

fun oldest_run :: "run_record list \<Rightarrow> run_record option" where
  "oldest_run [] = None"
| "oldest_run (r # rs) =
     (case oldest_run rs of None \<Rightarrow> Some r
      | Some x \<Rightarrow> Some (if (rr_created x, rr_id x) < (rr_created r, rr_id r) then x else r))"

definition claimed_run :: "time \<Rightarrow> run_record \<Rightarrow> run_record" where
  "claimed_run now r = r\<lparr>rr_state := ''running'', rr_started := (case rr_started r of None \<Rightarrow> Some now | Some t \<Rightarrow> Some t),
     rr_checked := now, rr_lease := Some (now + run_lease), rr_heartbeat := Some now, rr_phase := ''processing'',
     rr_retry_category := None, rr_retry_until := None\<rparr>"

definition run_of :: "run_record \<Rightarrow> AssistantRun" where
  "run_of r = \<lparr>rn_ID = rr_id r, rn_UserID = rr_user r, rn_PreferenceID = rr_preference r, rn_SnapshotCutoff = rr_cutoff r,
     rn_Total = rr_total r, rn_Counters = rr_stats r, rn_CursorCreatedAt = map_option fst (rr_cursor r),
     rn_CursorVacancyID = (case rr_cursor r of None \<Rightarrow> '''' | Some c \<Rightarrow> snd c)\<rparr>"

definition claim_run :: "time \<Rightarrow> asst_tables \<Rightarrow> (asst_tables \<times> AssistantRun option) option" where
  "claim_run now d =
     (case oldest_run (filter (claimable now) (tb_runs d)) of
        None \<Rightarrow> Some (d, None)
      | Some r \<Rightarrow>
          (case update_runs (\<lambda>x. rr_id x = rr_id r) (claimed_run now) d of
             None \<Rightarrow> None
           | Some (d', _) \<Rightarrow> Some (d', Some (run_of (claimed_run now r)))))"

definition ClaimAssistantRun :: "asst_env \<Rightarrow> asst \<Rightarrow> asst \<times> (asst_error + AssistantRun option)" where
  "ClaimAssistantRun env = asst_stmt env ''claim assistant run'' claim_run"

definition pause_run :: "string \<Rightarrow> time \<Rightarrow> asst_tables \<Rightarrow> (asst_tables \<times> nat) option" where
  "pause_run i now = update_runs
     (\<lambda>r. rr_id r = i \<and> (rr_state r = ''queued'' \<or> rr_state r = ''running''
        \<or> (rr_state r = ''failed'' \<and> ww_Processed (rr_stats r) < rr_total r)))
     (\<lambda>r. r\<lparr>rr_state := ''paused'', rr_lease := None, rr_finished := None, rr_checked := now\<rparr>)"

definition PauseAssistantRun :: "asst_env \<Rightarrow> asst \<Rightarrow> string \<Rightarrow> asst \<times> asst_error option" where
  "PauseAssistantRun env s i =
     affected 1 (AsMessage ''assistant run is not active'') (asst_stmt env ''pause assistant run'' (pause_run i) s)"

definition resume_run :: "string \<Rightarrow> time \<Rightarrow> asst_tables \<Rightarrow> (asst_tables \<times> nat) option" where
  "resume_run i now = update_runs (\<lambda>r. rr_id r = i \<and> rr_state r = ''paused'')
     (\<lambda>r. r\<lparr>rr_state := ''queued'', rr_lease := None, rr_finished := None, rr_checked := now\<rparr>)"

definition ResumeAssistantRun :: "asst_env \<Rightarrow> asst \<Rightarrow> string \<Rightarrow> asst \<times> asst_error option" where
  "ResumeAssistantRun env s i =
     affected 1 (AsMessage ''assistant run is not paused'') (asst_stmt env ''resume assistant run'' (resume_run i) s)"

definition superseded :: "time \<Rightarrow> string \<Rightarrow> run_record \<Rightarrow> run_record" where
  "superseded now cur r =
     r\<lparr>rr_superseded_from := Some (rr_state r), rr_state := ''superseded'',
       rr_finished := (case rr_finished r of None \<Rightarrow> Some now | Some t \<Rightarrow> Some t), rr_superseded_at := Some now,
       rr_superseded_by := Some cur, rr_lease := None, rr_checked := now,
       rr_error := Some (if rr_preference r \<noteq> cur then ''preferences_changed'' else ''ruleset_changed''),
       rr_stats := (let st = rr_stats r in
         if rr_state r = ''succeeded'' then st
         else if ww_AICalls st > 0 then st\<lparr>ww_AIStatus := ''partial'', ww_AISkipReason := ''''\<rparr>
         else st\<lparr>ww_AIStatus := ''skipped'', ww_AISkipReason := ''preferences_changed''\<rparr>)\<rparr>"

definition supersede_run :: "string \<Rightarrow> string \<Rightarrow> time \<Rightarrow> asst_tables \<Rightarrow> (asst_tables \<times> nat) option" where
  "supersede_run u i now d =
     (case current_pref u d of
        None \<Rightarrow> Some (d, 0)
      | Some p \<Rightarrow> update_runs
          (\<lambda>r. rr_id r = i \<and> rr_user r = u \<and> (rr_preference r \<noteq> vr_id p \<or> rr_ruleset r \<noteq> SpecializationRulesVersion)
             \<and> rr_state r \<in> {''queued'', ''running'', ''paused'', ''failed'', ''succeeded''}
             \<and> (rr_state r = ''succeeded'' \<or> ww_Processed (rr_stats r) < rr_total r))
          (superseded now (vr_id p)) d)"

definition SupersedeAssistantRun :: "asst_env \<Rightarrow> asst \<Rightarrow> string \<Rightarrow> string \<Rightarrow> asst \<times> asst_error option" where
  "SupersedeAssistantRun env s u i =
     affected 1 (AsMessage ''assistant run cannot be superseded'') (asst_stmt env ''supersede assistant run'' (supersede_run u i) s)"

text \<open>The columns the statistics fill; the users, the notifications and the run id have none.\<close>

definition stored_stats :: "WorkerStats \<Rightarrow> WorkerStats" where
  "stored_stats st = st\<lparr>ww_Users := 0, ww_Notified := 0, ww_RunID := ''''\<rparr>"

definition owned :: "string \<Rightarrow> run_record \<Rightarrow> bool" where
  "owned i r \<longleftrightarrow> rr_id r = i \<and> rr_state r = ''running''"

definition complete_asst_run :: "string \<Rightarrow> string \<Rightarrow> WorkerStats \<Rightarrow> string \<Rightarrow> time \<Rightarrow> asst_tables \<Rightarrow> (asst_tables \<times> nat) option" where
  "complete_asst_run i state stats category now = update_runs (owned i)
     (\<lambda>r. r\<lparr>rr_state := state, rr_finished := Some now, rr_checked := now, rr_stats := stored_stats stats,
        rr_error := null_text category, rr_lease := None, rr_batches := 0, rr_heartbeat := Some now, rr_phase := ''idle'',
        rr_retry_category := None, rr_retry_until := None\<rparr>)"

text \<open>A run that is no longer running is left as it is, and no error is reported.\<close>

definition CompleteAssistantRun :: "asst_env \<Rightarrow> asst \<Rightarrow> string \<Rightarrow> string \<Rightarrow> WorkerStats \<Rightarrow> string \<Rightarrow> asst \<times> asst_error option" where
  "CompleteAssistantRun env s i state stats category =
     (if state \<noteq> ''succeeded'' \<and> state \<noteq> ''failed'' \<and> state \<noteq> ''disabled'' then (s, Some (AsMessage ''invalid assistant run state''))
      else done_or (asst_stmt env ''complete assistant run'' (complete_asst_run i state stats category) s))"

definition heartbeat_phase :: "string \<Rightarrow> string" where
  "heartbeat_phase phase =
     (if phase \<in> {''processing'', ''provider_request'', ''backoff'', ''stopping''} then phase else ''processing'')"

definition heartbeat_run :: "string \<Rightarrow> string \<Rightarrow> string \<Rightarrow> time option \<Rightarrow> int \<Rightarrow> int \<Rightarrow> time \<Rightarrow> asst_tables \<Rightarrow> (asst_tables \<times> nat) option" where
  "heartbeat_run i phase category until batches concurrency now = update_runs (owned i)
     (\<lambda>r. r\<lparr>rr_heartbeat := Some now, rr_phase := heartbeat_phase phase, rr_retry_category := null_text category,
        rr_retry_until := until, rr_batches := max batches 0, rr_concurrency := max concurrency 0,
        rr_lease := Some (now + run_lease)\<rparr>)"

definition lease_lost :: asst_error where "lease_lost = AsMessage ''assistant run lease is no longer owned''"

definition HeartbeatAssistantRun :: "asst_env \<Rightarrow> asst \<Rightarrow> string \<Rightarrow> string \<Rightarrow> string \<Rightarrow> time option \<Rightarrow> int \<Rightarrow> int \<Rightarrow> asst \<times> asst_error option" where
  "HeartbeatAssistantRun env s i phase category until batches concurrency =
     affected 1 lease_lost (asst_stmt env ''heartbeat assistant run'' (heartbeat_run i phase category until batches concurrency) s)"

definition progress_run :: "string \<Rightarrow> WorkerStats \<Rightarrow> (time \<times> string) option \<Rightarrow> time \<Rightarrow> asst_tables \<Rightarrow> (asst_tables \<times> nat) option" where
  "progress_run i stats at_cursor now = update_runs (owned i)
     (\<lambda>r. r\<lparr>rr_stats := stored_stats stats, rr_cursor := (case at_cursor of None \<Rightarrow> rr_cursor r | Some c \<Rightarrow> Some c),
        rr_checked := now, rr_lease := Some (now + run_lease)\<rparr>)"

definition UpdateAssistantRunProgress :: "asst_env \<Rightarrow> asst \<Rightarrow> string \<Rightarrow> WorkerStats \<Rightarrow> WorkerCandidate option \<Rightarrow> asst \<times> asst_error option" where
  "UpdateAssistantRunProgress env s i stats last_seen =
     affected 1 lease_lost (asst_stmt env ''update assistant run progress''
       (progress_run i stats (map_option (\<lambda>c. (wc_CreatedAt c, wc_ID c)) last_seen)) s)"

text \<open>The user of a claimed run; no user when the preference is gone.\<close>

definition UsersForAssistantRun :: "asst_env \<Rightarrow> asst \<Rightarrow> AssistantRun \<Rightarrow> asst \<times> (asst_error + WorkerUser list)" where
  "UsersForAssistantRun env s run =
     (case asst_read env ''load assistant run preference''
             (\<lambda>_ d. List.find (\<lambda>r. vr_id r = rn_PreferenceID run \<and> vr_user r = rn_UserID run) (tb_prefs d)) s of
        (s, Inl e) \<Rightarrow> (s, Inl e)
      | (s, Inr None) \<Rightarrow> (s, Inr [])
      | (s, Inr (Some r)) \<Rightarrow>
          (s, case normalized (decode_pref env r) of
                Inl e \<Rightarrow> Inl e
              | Inr p \<Rightarrow> Inr [\<lparr>wu_ID = vr_user r, wu_Preference = p\<lparr>pc_ID := '''', pc_ArchivedAt := None\<rparr>\<rparr>]))"

definition Users :: "asst_env \<Rightarrow> asst \<Rightarrow> asst \<times> (asst_error + WorkerUser list)" where
  "Users env s =
     (case asst_read env ''list assistant users''
             (\<lambda>_ d. List.map_filter (\<lambda>u. map_option (Pair u) (current_pref u d)) (sort (map fst (tb_users d)))) s of
        (s, Inl e) \<Rightarrow> (s, Inl e)
      | (s, Inr rows) \<Rightarrow>
          (s, all_right (map (\<lambda>(u, r). case normalized (decode_pref env r) of Inl e \<Rightarrow> Inl e
             | Inr p \<Rightarrow> Inr \<lparr>wu_ID = u, wu_Preference = p\<lparr>pc_ID := '''', pc_ArchivedAt := None\<rparr>\<rparr>) rows)))"

section \<open>Worker instances\<close>

record WorkerProcessHeartbeat =
  ph_InstanceID :: string
  ph_StartedAt :: time
  ph_Version :: string
  ph_Mode :: string
  ph_State :: string

definition instance_check :: "instance_row \<Rightarrow> bool" where
  "instance_check r \<longleftrightarrow> length (runes (ir_version r)) \<in> {1..100} \<and> length (runes (ir_mode r)) \<in> {1..50}
     \<and> ir_state r \<in> {''idle'', ''processing'', ''backoff'', ''stopping''}"

definition beat :: "WorkerProcessHeartbeat \<Rightarrow> time \<Rightarrow> asst_tables \<Rightarrow> (asst_tables \<times> unit) option" where
  "beat h now d =
     (let new = \<lparr>ir_id = ph_InstanceID h, ir_started = ph_StartedAt h, ir_version = ph_Version h, ir_mode = ph_Mode h,
                 ir_state = ph_State h, ir_seen = now\<rparr>;
          kept = filter (\<lambda>r. ir_id r = ph_InstanceID h \<or> ir_seen r \<ge> now - WorkerAvailabilityTTL) (tb_instances d)
      in if instance_check new
         then Some (d\<lparr>tb_instances := upsert ir_id new (\<lambda>r. new\<lparr>ir_started := ir_started r\<rparr>) kept\<rparr>, ())
         else None)"

definition UpsertWorkerProcessHeartbeat :: "asst_env \<Rightarrow> asst \<Rightarrow> WorkerProcessHeartbeat \<Rightarrow> asst \<times> asst_error option" where
  "UpsertWorkerProcessHeartbeat env s h = done_or (asst_stmt env ''upsert assistant worker process heartbeat'' (beat h) s)"

definition StopWorkerProcess :: "asst_env \<Rightarrow> asst \<Rightarrow> string \<Rightarrow> asst \<times> asst_error option" where
  "StopWorkerProcess env s i = done_or (asst_stmt env ''stop assistant worker process''
     (\<lambda>now d. Some (d\<lparr>tb_instances := set_where (\<lambda>r. ir_id r = i) (\<lambda>r. r\<lparr>ir_state := ''stopping'', ir_seen := now\<rparr>)
        (tb_instances d)\<rparr>, ())) s)"

section \<open>The Telegram link\<close>

definition issue_token :: "string \<Rightarrow> string \<Rightarrow> time \<Rightarrow> asst_tables \<Rightarrow> (asst_tables \<times> unit) option" where
  "issue_token u h expires d =
     (if h \<in> tr_hash ` set (tb_tokens d) \<or> u \<notin> fst ` set (tb_users d) then None
      else Some (d\<lparr>tb_tokens := tb_tokens d @ [\<lparr>tr_hash = h, tr_user = u, tr_expires = expires, tr_used = None\<rparr>]\<rparr>, ()))"

definition IssueTelegramLink :: "asst_env \<Rightarrow> asst \<Rightarrow> string \<Rightarrow> string \<Rightarrow> time \<Rightarrow> asst \<times> asst_error option" where
  "IssueTelegramLink env s u token expires = done_or (asst_stmt env '''' (\<lambda>_. issue_token u (ae_hash env token) expires) s)"

definition token_live :: "string \<Rightarrow> time \<Rightarrow> token_row \<Rightarrow> bool" where
  "token_live h now r \<longleftrightarrow> tr_hash r = h \<and> tr_used r = None \<and> tr_expires r > now"

text \<open>The hash is the key of its table, so at most one token is consumed. A chat belongs to one user at most.\<close>

definition fresh_link :: "string \<Rightarrow> int \<Rightarrow> time \<Rightarrow> connection_row" where
  "fresh_link u chat now = \<lparr>cx_user = u, cx_chat = Some chat, cx_linked = Some now, cx_revoked = None, cx_opted = False\<rparr>"

definition confirm_link :: "string \<Rightarrow> int \<Rightarrow> time \<Rightarrow> asst_tables \<Rightarrow> (asst_tables \<times> nat) option" where
  "confirm_link h chat now d =
     (case List.find (token_live h now) (tb_tokens d) of
        None \<Rightarrow> Some (d, 0)
      | Some t \<Rightarrow>
          if \<exists>c \<in> set (tb_connections d). cx_chat c = Some chat \<and> cx_user c \<noteq> tr_user t then None
          else (let new = fresh_link (tr_user t) chat now in
             Some (d\<lparr>tb_tokens := set_where (token_live h now) (\<lambda>r. r\<lparr>tr_used := Some now\<rparr>) (tb_tokens d),
                        tb_connections := upsert cx_user new (\<lambda>_. new) (tb_connections d)\<rparr>, 1)))"

definition ConfirmTelegramLink :: "asst_env \<Rightarrow> asst \<Rightarrow> string \<Rightarrow> int \<Rightarrow> asst \<times> asst_error option" where
  "ConfirmTelegramLink env s token chat =
     (if chat = 0 then (s, Some (AsMessage ''telegram chat id is required''))
      else (case asst_stmt env ''confirm telegram link'' (confirm_link (ae_hash env token) chat) s of
          (s, Inl e) \<Rightarrow> (s, Some e)
        | (s, Inr n) \<Rightarrow> (s, if n = 0 then Some (AsMessage ''invalid or expired telegram link'') else None)))"

definition RevokeTelegram :: "asst_env \<Rightarrow> asst \<Rightarrow> string \<Rightarrow> asst \<times> asst_error option" where
  "RevokeTelegram env s u = done_or (asst_stmt env ''''
     (\<lambda>now d. Some (d\<lparr>tb_connections := set_where (\<lambda>c. cx_user c = u) (\<lambda>c. c\<lparr>cx_revoked := Some now, cx_opted := False\<rparr>)
        (tb_connections d)\<rparr>, ())) s)"

definition linked :: "connection_row \<Rightarrow> bool" where
  "linked c \<longleftrightarrow> cx_revoked c = None \<and> cx_linked c \<noteq> None"

definition set_opt_in :: "string \<Rightarrow> bool \<Rightarrow> asst_tables \<Rightarrow> (asst_tables \<times> nat) option" where
  "set_opt_in u b d =
     Some (d\<lparr>tb_connections := set_where (\<lambda>c. cx_user c = u \<and> linked c) (\<lambda>c. c\<lparr>cx_opted := b\<rparr>) (tb_connections d)\<rparr>,
       count_where (\<lambda>c. cx_user c = u \<and> linked c) (tb_connections d))"

definition SetTelegramOptIn :: "asst_env \<Rightarrow> asst \<Rightarrow> string \<Rightarrow> bool \<Rightarrow> asst \<times> asst_error option" where
  "SetTelegramOptIn env s u b =
     (case asst_stmt env ''set telegram opt-in'' (\<lambda>_. set_opt_in u b) s of
        (s, Inl e) \<Rightarrow> (s, Some e)
      | (s, Inr n) \<Rightarrow> (s, if n = 0 then Some (AsMessage ''telegram connection is not verified'') else None))"

definition may_notify :: "string \<Rightarrow> asst_tables \<Rightarrow> bool" where
  "may_notify u d \<longleftrightarrow> (\<exists>c \<in> set (tb_connections d). cx_user c = u \<and> linked c \<and> cx_opted c)"

definition TelegramEligible :: "asst_env \<Rightarrow> asst \<Rightarrow> string \<Rightarrow> asst \<times> (asst_error + bool)" where
  "TelegramEligible env s u = asst_read env ''check telegram eligibility'' (\<lambda>_. may_notify u) s"

text \<open>Every failure of the query, an empty answer included, is reported as a connection that is not verified.\<close>

definition VerifiedTelegramChat :: "asst_env \<Rightarrow> asst \<Rightarrow> string \<Rightarrow> asst \<times> (asst_error + int)" where
  "VerifiedTelegramChat env s u =
     (case asst_read env ''''
             (\<lambda>_ d. List.find (\<lambda>c. cx_user c = u \<and> cx_chat c \<noteq> None \<and> linked c \<and> cx_opted c) (tb_connections d)) s of
        (s, Inr (Some c)) \<Rightarrow> (s, Inr (case cx_chat c of None \<Rightarrow> 0 | Some chat \<Rightarrow> chat))
      | (s, _) \<Rightarrow> (s, Inl (AsMessage ''telegram connection is not verified'')))"

text \<open>\<^verbatim>\<open>strings.Contains\<close>\<close>

fun text_contains :: "string \<Rightarrow> string \<Rightarrow> bool" where
  "text_contains [] sub = (sub = [])"
| "text_contains (c # s) sub = (HasPrefix (c # s) sub \<or> text_contains s sub)"

definition sanitizeStatusError :: "string option \<Rightarrow> string" where
  "sanitizeStatusError value =
     (case value of None \<Rightarrow> ''''
      | Some v \<Rightarrow>
          if text_contains v ''timeout'' then ''Telegram request timeout (outcome ambiguous)''
          else if HasPrefix v ''telegram status '' then v
          else ''Telegram request failed'')"

text \<open>
  The counts come from a query that orders by \<^verbatim>\<open>telegram_deliveries.updated_at\<close>, a column no migration
  creates, so the database refuses it; the error is dropped and the counts are the zeroes the variables start with.
  \<open>ae_updated\<close> stands for that column.
\<close>

fun last_error_of :: "(string \<Rightarrow> time) \<Rightarrow> delivery_row list \<Rightarrow> delivery_row option" where
  "last_error_of updated [] = None"
| "last_error_of updated (r # rs) =
     (case last_error_of updated rs of None \<Rightarrow> if dr_error r = None then None else Some r
      | Some x \<Rightarrow> Some (if dr_error r = None \<or> updated (dr_id r) < updated (dr_id x) then x else r))"

definition delivery_counts :: "asst_env \<Rightarrow> string \<Rightarrow> asst_tables \<Rightarrow> int \<times> int \<times> int \<times> int \<times> string option" where
  "delivery_counts env u d =
     (let ds = filter (\<lambda>r. dr_user r = u) (tb_deliveries d) in
      (int (count_where (\<lambda>r. dr_status r \<in> {''pending'', ''failed''} \<and> dr_dead r = None) ds),
       int (count_where (\<lambda>r. dr_status r = ''sent'') ds),
       int (count_where (\<lambda>r. dr_status r = ''failed'' \<and> dr_dead r = None) ds),
       int (count_where (\<lambda>r. dr_dead r \<noteq> None) ds),
       (case last_error_of (ae_updated env) ds of None \<Rightarrow> None | Some r \<Rightarrow> dr_error r)))"

definition no_telegram :: "bool \<Rightarrow> TelegramStatus" where
  "no_telegram configured = \<lparr>tg_Configured = configured, tg_Linked = False, tg_OptedIn = False, tg_Pending = 0, tg_Sent = 0,
     tg_Failed = 0, tg_DeadLettered = 0, tg_LastError = ''''\<rparr>"

definition ReadTelegramStatus :: "asst_env \<Rightarrow> asst \<Rightarrow> string \<Rightarrow> bool \<Rightarrow> asst \<times> (asst_error + TelegramStatus)" where
  "ReadTelegramStatus env s u configured =
     (case asst_read env ''get telegram status'' (\<lambda>_ d. row_of cx_user u (tb_connections d)) s of
        (s, Inl e) \<Rightarrow> (s, Inl e)
      | (s, Inr None) \<Rightarrow> (s, Inr (no_telegram configured))
      | (s, Inr (Some c)) \<Rightarrow>
          (case asst_read env '''' (\<lambda>_. delivery_counts env u) s of (s, r) \<Rightarrow>
            (case (case r of Inl _ \<Rightarrow> (0, 0, 0, 0, None) | Inr k \<Rightarrow> k) of (pending, sent, failed, dead, lastError) \<Rightarrow>
              (s, Inr \<lparr>tg_Configured = configured, tg_Linked = linked c, tg_OptedIn = cx_opted c, tg_Pending = pending,
                 tg_Sent = sent, tg_Failed = failed, tg_DeadLettered = dead, tg_LastError = sanitizeStatusError lastError\<rparr>))))"

section \<open>Automation settings\<close>

definition ReadAutomationSettings :: "asst_env \<Rightarrow> asst \<Rightarrow> string \<Rightarrow> asst \<times> (asst_error + AutomationSettings)" where
  "ReadAutomationSettings env s u =
     (case asst_read env ''get assistant automation settings'' (\<lambda>_ d. row_of st_user u (tb_settings d)) s of
        (s, Inl e) \<Rightarrow> (s, Inl e)
      | (s, Inr None) \<Rightarrow> (s, Inr \<lparr>as_AIEnabled = False, as_TelegramEnabled = False, as_ActivationAt = None\<rparr>)
      | (s, Inr (Some r)) \<Rightarrow>
          (s, Inr \<lparr>as_AIEnabled = st_ai r, as_TelegramEnabled = st_telegram r, as_ActivationAt = st_activation r\<rparr>))"

definition settings_check :: "settings_row \<Rightarrow> bool" where
  "settings_check r \<longleftrightarrow> (st_ai r \<longrightarrow> st_activation r \<noteq> None)"

definition changed_settings :: "time \<Rightarrow> settings_row \<Rightarrow> settings_row \<Rightarrow> settings_row" where
  "changed_settings now new old =
     old\<lparr>st_ai := st_ai new, st_telegram := st_telegram new,
       st_activation := (if st_ai new \<and> \<not> st_ai old then (case st_activation new of None \<Rightarrow> Some now | Some t \<Rightarrow> Some t)
         else if \<not> st_ai new then None else st_activation old)\<rparr>"

text \<open>The checks hold for the row proposed for insertion as well.\<close>

definition save_settings :: "settings_row \<Rightarrow> time \<Rightarrow> asst_tables \<Rightarrow> (asst_tables \<times> unit) option" where
  "save_settings new now d =
     (let rows = upsert st_user new (changed_settings now new) (tb_settings d) in
      if settings_check new \<and> st_user new \<in> fst ` set (tb_users d) \<and> list_all settings_check rows
      then Some (d\<lparr>tb_settings := rows\<rparr>, ()) else None)"

definition SaveAutomationSettings :: "asst_env \<Rightarrow> asst \<Rightarrow> string \<Rightarrow> AutomationSettings \<Rightarrow> asst \<times> (asst_error + AutomationSettings)" where
  "SaveAutomationSettings env s u a =
     (let activation = (if as_AIEnabled a \<and> as_ActivationAt a = None then Some (ae_clock env (db_tick s)) else as_ActivationAt a);
          new = \<lparr>st_user = u, st_ai = as_AIEnabled a, st_telegram = as_TelegramEnabled a, st_activation = activation\<rparr>
      in case asst_stmt env ''save assistant automation settings'' (save_settings new) s of
           (s, Inl e) \<Rightarrow> (s, Inl e)
         | (s, Inr _) \<Rightarrow> ReadAutomationSettings env s u)"

section \<open>Statements of the repository\<close>

lemma asst_stmt_ok: "asst_stmt env l q s = (s', Inr x) \<Longrightarrow> q (db_now (ae_db env) (db_tick s)) (db_data s) = Some (db_data s', x)"
  unfolding asst_stmt_def by (auto dest: stmt_ok)

lemma asst_stmt_error: "asst_stmt env l q s = (s', Inl e) \<Longrightarrow> db_data s' = db_data s"
  unfolding asst_stmt_def by (auto dest: stmt_error)

lemma asst_insert_ok:
  "asst_insert env l q s = (s', Inr x)
    \<Longrightarrow> q (db_uuid (ae_db env) (db_tick s)) (db_now (ae_db env) (db_tick s)) (db_data s) = Some (db_data s', x)"
  unfolding asst_insert_def by (auto dest: stmt_ok)

lemma asst_insert_error: "asst_insert env l q s = (s', Inl e) \<Longrightarrow> db_data s' = db_data s"
  unfolding asst_insert_def by (auto dest: stmt_error)

lemma asst_read_data: "asst_read env l f s = (s', r) \<Longrightarrow> db_data s' = db_data s"
  unfolding asst_read_def by (cases r) (auto dest: asst_stmt_ok asst_stmt_error)

lemma asst_read_ok: "asst_read env l f s = (s', Inr x) \<Longrightarrow> x = f (db_now (ae_db env) (db_tick s)) (db_data s)"
  unfolding asst_read_def by (auto dest: asst_stmt_ok)

lemma stmt_tick: "stmt env e q s = (s', r) \<Longrightarrow> db_tick s' = Suc (db_tick s)"
  by (auto simp: stmt_def Let_def split: if_splits option.splits)

lemma asst_tick:
  "asst_stmt env l q s = (s', r) \<Longrightarrow> db_tick s' = Suc (db_tick s)"
  "asst_insert env l q' s = (s', r') \<Longrightarrow> db_tick s' = Suc (db_tick s)"
  by (auto simp: asst_stmt_def asst_insert_def dest: stmt_tick)

text \<open>What a statement may have done: nothing, or the change its query describes.\<close>

lemma stmt_change:
  "asst_stmt env l q s = (s', r) \<Longrightarrow> db_data s' \<noteq> db_data s
    \<Longrightarrow> \<exists>now x. q now (db_data s) = Some (db_data s', x)"
  by (cases r) (auto dest: asst_stmt_ok asst_stmt_error)

lemma insert_change:
  "asst_insert env l q s = (s', r) \<Longrightarrow> db_data s' \<noteq> db_data s
    \<Longrightarrow> \<exists>uuid now x. q uuid now (db_data s) = Some (db_data s', x)"
  by (cases r) (auto dest: asst_insert_ok asst_insert_error)

text \<open>The changes of the tables, one rule per statement that writes.\<close>

inductive table_step :: "asst_env \<Rightarrow> asst_tables \<Rightarrow> asst_tables \<Rightarrow> bool" for env where
  ensured: "ensure_user subj uuid d = Some (d', i) \<Longrightarrow> table_step env d d'"
| archived: "archive_pref u i now d = Some (d', n) \<Longrightarrow> table_step env d d'"
| saved: "save_pref env u key p docs d uuid now d = Some (d', r) \<Longrightarrow> table_step env d d'"
| queued: "queue_run u req ai uuid now d = Some (d', x) \<Longrightarrow> table_step env d d'"
| claimed: "claim_run now d = Some (d', y) \<Longrightarrow> table_step env d d'"
| paused: "pause_run i now d = Some (d', n) \<Longrightarrow> table_step env d d'"
| resumed: "resume_run i now d = Some (d', n) \<Longrightarrow> table_step env d d'"
| replaced: "supersede_run u i now d = Some (d', n) \<Longrightarrow> table_step env d d'"
| completed: "complete_asst_run i state stats category now d = Some (d', n) \<Longrightarrow> state \<in> {''succeeded'', ''failed'', ''disabled''}
    \<Longrightarrow> table_step env d d'"
| beating: "heartbeat_run i phase category until batches concurrency now d = Some (d', n) \<Longrightarrow> table_step env d d'"
| progressed: "progress_run i stats cur now d = Some (d', n) \<Longrightarrow> table_step env d d'"
| instances: "d' = d\<lparr>tb_instances := is\<rparr> \<Longrightarrow> table_step env d d'"
| issued: "issue_token u h expires d = Some (d', z) \<Longrightarrow> table_step env d d'"
| confirmed: "confirm_link h chat now d = Some (d', n) \<Longrightarrow> table_step env d d'"
| revoked: "d' = d\<lparr>tb_connections := set_where (\<lambda>c. cx_user c = u) (\<lambda>c. c\<lparr>cx_revoked := Some now, cx_opted := False\<rparr>)
      (tb_connections d)\<rparr> \<Longrightarrow> table_step env d d'"
| opted: "set_opt_in u b d = Some (d', n) \<Longrightarrow> table_step env d d'"
| settled: "save_settings new now d = Some (d', z) \<Longrightarrow> table_step env d d'"

text \<open>The operations of the repository as steps of its connection, any number of them by any callers.\<close>

inductive repo_step :: "asst_env \<Rightarrow> asst \<Rightarrow> asst \<Rightarrow> bool" for env where
  "EnsureUser env s subj = (s', r1) \<Longrightarrow> repo_step env s s'"
| "CurrentPreferences env s u = (s', r2) \<Longrightarrow> repo_step env s s'"
| "ArchivePreference env s u i = (s', r3) \<Longrightarrow> repo_step env s s'"
| "SavePreferences env s u key p = (s', r4) \<Longrightarrow> repo_step env s s'"
| "AnalysisStatus env s u ai = (s', r5) \<Longrightarrow> repo_step env s s'"
| "QueueAnalysis env s u req ai = (s', r6) \<Longrightarrow> repo_step env s s'"
| "ClaimAssistantRun env s = (s', r7) \<Longrightarrow> repo_step env s s'"
| "PauseAssistantRun env s i = (s', r8) \<Longrightarrow> repo_step env s s'"
| "ResumeAssistantRun env s i = (s', r9) \<Longrightarrow> repo_step env s s'"
| "SupersedeAssistantRun env s u i = (s', r10) \<Longrightarrow> repo_step env s s'"
| "CompleteAssistantRun env s i state stats category = (s', r11) \<Longrightarrow> repo_step env s s'"
| "HeartbeatAssistantRun env s i phase category until batches concurrency = (s', r12) \<Longrightarrow> repo_step env s s'"
| "UpdateAssistantRunProgress env s i stats cand = (s', r13) \<Longrightarrow> repo_step env s s'"
| "UpsertWorkerProcessHeartbeat env s h = (s', r14) \<Longrightarrow> repo_step env s s'"
| "StopWorkerProcess env s i = (s', r15) \<Longrightarrow> repo_step env s s'"
| "IssueTelegramLink env s u token expires = (s', r16) \<Longrightarrow> repo_step env s s'"
| "ConfirmTelegramLink env s token chat = (s', r17) \<Longrightarrow> repo_step env s s'"
| "RevokeTelegram env s u = (s', r18) \<Longrightarrow> repo_step env s s'"
| "SetTelegramOptIn env s u b = (s', r19) \<Longrightarrow> repo_step env s s'"
| "SaveAutomationSettings env s u a = (s', r20) \<Longrightarrow> repo_step env s s'"
| "UsersForAssistantRun env s run = (s', r21) \<Longrightarrow> repo_step env s s'"

abbreviation repo_steps :: "asst_env \<Rightarrow> asst \<Rightarrow> asst \<Rightarrow> bool" where
  "repo_steps env \<equiv> (repo_step env)\<^sup>*\<^sup>*"

lemma affected_data: "affected n e out = (s', r) \<Longrightarrow> fst out = s'"
  by (auto simp: affected_def split: prod.splits sum.splits)

lemma done_or_data: "done_or out = (s', r) \<Longrightarrow> fst out = s'"
  by (auto simp: done_or_def split: prod.splits sum.splits)

lemma stmt_case:
  assumes "\<And>now x d'. q now (db_data s) = Some (d', x) \<Longrightarrow> table_step env (db_data s) d'"
    and "asst_stmt env l q s = (s', r)" and "db_data s' \<noteq> db_data s"
  shows "table_step env (db_data s) (db_data s')"
  using stmt_change [OF assms(2,3)] assms(1) by blast

lemma stmt_case_fst:
  assumes "\<And>now x d'. q now (db_data s) = Some (d', x) \<Longrightarrow> table_step env (db_data s) d'"
    and "fst (asst_stmt env l q s) = s'" and "db_data s' \<noteq> db_data s"
  shows "table_step env (db_data s) (db_data s')"
  proof -
  have "asst_stmt env l q s = (s', snd (asst_stmt env l q s))" using assms(2) by (metis prod.collapse)
  then show ?thesis using assms(3) by (rule stmt_case [rotated]) (rule assms(1))
qed

lemma insert_case:
  assumes "\<And>uuid now x d'. q uuid now (db_data s) = Some (d', x) \<Longrightarrow> table_step env (db_data s) d'"
    and "asst_insert env l q s = (s', r)" and "db_data s' \<noteq> db_data s"
  shows "table_step env (db_data s) (db_data s')"
  using insert_change [OF assms(2,3)] assms(1) by blast

lemma repo_step_tables:
  assumes "repo_step env s s'" and "db_data s' \<noteq> db_data s"
  shows "table_step env (db_data s) (db_data s')"
  using assms
proof (cases rule: repo_step.cases)
  case (1 subj r1)
  then obtain r where "asst_insert env ''ensure assistant user'' (\<lambda>uuid _. ensure_user (TrimSpace subj) uuid) s = (s', r)"
    using assms(2) by (auto simp: EnsureUser_def Let_def split: if_splits)
  then show ?thesis using assms(2) by (rule insert_case [rotated]) (rule table_step.ensured)
next
  case (3 u i r3)
  then obtain r where "asst_stmt env ''archive assistant preference'' (archive_pref u i) s = (s', r)"
    by (auto simp: ArchivePreference_def split: prod.splits sum.splits)
  then show ?thesis using assms(2) by (rule stmt_case [rotated]) (rule table_step.archived)
next
  case (4 u key p r4)
  then obtain p' docs r where "asst_insert env ''save assistant preferences''
      (\<lambda>uuid now d. save_pref env u (TrimSpace key) p' docs d uuid now d) s = (s', r)"
    using assms(2) by (auto simp: SavePreferences_def split: prod.splits sum.splits)
  then show ?thesis using assms(2) by (rule insert_case [rotated]) (rule table_step.saved)
next
  case (6 u req ai r6)
  then obtain r where "asst_insert env ''queue assistant analysis'' (queue_run u req ai) s = (s', r)"
    by (auto simp: QueueAnalysis_def split: prod.splits sum.splits option.splits)
  then show ?thesis using assms(2) by (rule insert_case [rotated]) (rule table_step.queued)
next
  case (7 r7)
  then show ?thesis using assms(2) unfolding ClaimAssistantRun_def by (rule stmt_case [rotated]) (rule table_step.claimed)
next
  case (8 i r8)
  then show ?thesis using assms(2) unfolding PauseAssistantRun_def
    by (intro stmt_case_fst [OF _ affected_data]) (rule table_step.paused)
next
  case (9 i r9)
  then show ?thesis using assms(2) unfolding ResumeAssistantRun_def
    by (intro stmt_case_fst [OF _ affected_data]) (rule table_step.resumed)
next
  case (10 u i r10)
  then show ?thesis using assms(2) unfolding SupersedeAssistantRun_def
    by (intro stmt_case_fst [OF _ affected_data]) (rule table_step.replaced)
next
  case (11 i state stats category r11)
  then have "state \<in> {''succeeded'', ''failed'', ''disabled''}"
    and "done_or (asst_stmt env ''complete assistant run'' (complete_asst_run i state stats category) s) = (s', r11)"
    using assms(2) by (auto simp: CompleteAssistantRun_def split: if_splits)
  then show ?thesis using assms(2) by (intro stmt_case_fst [OF _ done_or_data]) (rule table_step.completed)
next
  case (12 i phase category until batches concurrency r12)
  then show ?thesis using assms(2) unfolding HeartbeatAssistantRun_def
    by (intro stmt_case_fst [OF _ affected_data]) (rule table_step.beating)
next
  case (13 i stats cand r13)
  then show ?thesis using assms(2) unfolding UpdateAssistantRunProgress_def
    by (intro stmt_case_fst [OF _ affected_data]) (rule table_step.progressed)
next
  case (14 h r14)
  then show ?thesis using assms(2) unfolding UpsertWorkerProcessHeartbeat_def
    by (intro stmt_case_fst [OF _ done_or_data]) (auto simp: beat_def Let_def split: if_splits intro: table_step.instances)
next
  case (15 i r15)
  then show ?thesis using assms(2) unfolding StopWorkerProcess_def
    by (intro stmt_case_fst [OF _ done_or_data]) (auto intro: table_step.instances)
next
  case (16 u token expires r16)
  then show ?thesis using assms(2) unfolding IssueTelegramLink_def
    by (intro stmt_case_fst [OF _ done_or_data]) (rule table_step.issued)
next
  case (17 token chat r17)
  then obtain r where "asst_stmt env ''confirm telegram link'' (confirm_link (ae_hash env token) chat) s = (s', r)"
    using assms(2) by (auto simp: ConfirmTelegramLink_def split: if_splits prod.splits sum.splits)
  then show ?thesis using assms(2) by (rule stmt_case [rotated]) (rule table_step.confirmed)
next
  case (18 u r18)
  then show ?thesis using assms(2) unfolding RevokeTelegram_def
    by (intro stmt_case_fst [OF _ done_or_data]) (auto intro: table_step.revoked)
next
  case (19 u b r19)
  then obtain r where "asst_stmt env ''set telegram opt-in'' (\<lambda>_. set_opt_in u b) s = (s', r)"
    by (auto simp: SetTelegramOptIn_def split: prod.splits sum.splits)
  then show ?thesis using assms(2) by (rule stmt_case [rotated]) (rule table_step.opted)
next
  case (20 u a r20)
  then obtain new s1 r where r: "asst_stmt env ''save assistant automation settings'' (save_settings new) s = (s1, r)"
    and d: "db_data s1 = db_data s'"
    by (auto simp: SaveAutomationSettings_def ReadAutomationSettings_def Let_def
      split: prod.splits sum.splits option.splits dest!: asst_read_data)
  have "db_data s1 \<noteq> db_data s" using d assms(2) by simp
  with r have "table_step env (db_data s) (db_data s1)" by (rule stmt_case [rotated]) (rule table_step.settled)
  then show ?thesis by (simp add: d)
qed (auto simp: CurrentPreferences_def AnalysisStatus_def UsersForAssistantRun_def loadWorkerAvailability_def Let_def
  split: prod.splits sum.splits option.splits dest!: asst_read_data)

section \<open>The life of a run\<close>

definition run_edges :: "(string \<times> string) list" where
  "run_edges =
    [(''queued'', ''running''), (''running'', ''succeeded''), (''running'', ''failed''), (''running'', ''disabled''),
     (''queued'', ''paused''), (''running'', ''paused''), (''failed'', ''paused''), (''paused'', ''queued''),
     (''queued'', ''superseded''), (''running'', ''superseded''), (''paused'', ''superseded''), (''failed'', ''superseded''),
     (''succeeded'', ''superseded'')]"

definition run_follows :: "run_record \<Rightarrow> run_record \<Rightarrow> bool" where
  "run_follows r r' \<longleftrightarrow> rr_id r' = rr_id r \<and> rr_user r' = rr_user r \<and> rr_preference r' = rr_preference r
     \<and> rr_request r' = rr_request r \<and> rr_cutoff r' = rr_cutoff r \<and> rr_total r' = rr_total r \<and> rr_ruleset r' = rr_ruleset r
     \<and> rr_created r' = rr_created r \<and> (r' = r \<or> rr_state r \<notin> {''disabled'', ''superseded''})
     \<and> (rr_state r' = rr_state r \<or> (rr_state r, rr_state r') \<in> set run_edges)"

lemma run_follows_refl [simp]: "run_follows r r"
  by (simp add: run_follows_def)

lemma update_runs_Some:
  "update_runs P f d = Some (d', n) \<longleftrightarrow> d' = d\<lparr>tb_runs := set_where P f (tb_runs d)\<rparr> \<and> n = count_where P (tb_runs d)
     \<and> list_all run_check (tb_runs d') \<and> runs_unique (tb_runs d')"
  by (auto simp: update_runs_def put_runs_def split: if_splits option.splits)

lemma oldest_run_in: "oldest_run rs = Some r \<Longrightarrow> r \<in> set rs"
  by (induction rs arbitrary: r) (auto split: option.splits if_splits)

lemma oldest_run_None: "oldest_run rs = None \<longleftrightarrow> rs = []"
  by (cases rs) (auto split: option.splits)

definition evolves :: "run_record list \<Rightarrow> run_record list \<Rightarrow> bool" where
  "evolves rs rs' \<longleftrightarrow> (\<exists>f. rs' = map f rs \<and> (\<forall>r \<in> set rs. run_follows r (f r)))
     \<or> (\<exists>r. rs' = rs @ [r] \<and> rr_state r = ''queued'')"

lemma evolves_update:
  "(\<And>r. r \<in> set rs \<Longrightarrow> P r \<Longrightarrow> run_follows r (f r)) \<Longrightarrow> evolves rs (set_where P f rs)"
  unfolding evolves_def set_where_def by (rule disjI1) (rule exI [of _ "\<lambda>r. if P r then f r else r"], simp)

lemma evolves_refl [simp]: "evolves rs rs"
  unfolding evolves_def by (rule disjI1) (rule exI [of _ id], simp)

lemma evolves_in: "evolves rs rs' \<Longrightarrow> r \<in> set rs \<Longrightarrow> \<exists>r' \<in> set rs'. run_follows r r'"
  unfolding evolves_def by (elim disjE exE) (auto intro: bexI [of _ r])

lemma table_step_runs: "table_step env d d' \<Longrightarrow> evolves (tb_runs d) (tb_runs d')"
proof (induction rule: table_step.induct)
  case (claimed now d d' y)
  show ?case
  proof (cases "oldest_run (filter (claimable now) (tb_runs d))")
    case None
    with claimed show ?thesis by (simp add: claim_run_def)
  next
    case (Some r)
    note r = oldest_run_in [OF Some]
    obtain n where u: "update_runs (\<lambda>x. rr_id x = rr_id r) (claimed_run now) d = Some (d', n)"
      using claimed Some by (auto simp: claim_run_def split: option.splits)
    then have "runs_unique (set_where (\<lambda>x. rr_id x = rr_id r) (claimed_run now) (tb_runs d))"
      by (auto simp: update_runs_Some)
    then have dist: "distinct (map rr_id (tb_runs d))"
      by (auto simp: runs_unique_def set_where_def claimed_run_def o_def if_distrib cong: if_cong)
    have "x = r" if "x \<in> set (tb_runs d)" "rr_id x = rr_id r" for x
      using that r dist by (auto simp: distinct_map inj_on_def)
    moreover have "run_follows r (claimed_run now r)"
      using r by (auto simp: run_follows_def claimed_run_def run_edges_def claimable_def)
    ultimately have "evolves (tb_runs d) (set_where (\<lambda>x. rr_id x = rr_id r) (claimed_run now) (tb_runs d))"
      by (intro evolves_update) blast
    with u show ?thesis by (auto simp: update_runs_Some)
  qed
next
  case (queued u req ai uuid now d d' x)
  then show ?case
    by (auto simp: queue_run_def put_runs_def Let_def new_run_def evolves_def split: option.splits if_splits intro!: exI [of _ id])
next
  case (replaced u i now d d' n)
  then show ?case
    by (auto simp: supersede_run_def update_runs_Some superseded_def run_follows_def run_edges_def split: option.splits
      intro!: evolves_update)
qed (auto simp: ensure_user_def archive_pref_def save_pref_def insert_pref_def pause_run_def resume_run_def complete_asst_run_def
    heartbeat_run_def progress_run_def issue_token_def confirm_link_def set_opt_in_def save_settings_def update_runs_Some
    owned_def run_follows_def run_edges_def Let_def split: option.splits if_splits prod.splits intro!: evolves_update)

section \<open>What the tables keep\<close>

definition prefs_ok :: "pref_row list \<Rightarrow> ((string \<times> string) \<times> string) list \<Rightarrow> bool" where
  "prefs_ok ps qs \<longleftrightarrow> distinct (map vr_id ps) \<and> distinct (map (\<lambda>r. (vr_user r, vr_version r)) ps) \<and> distinct (map fst qs)
     \<and> (\<forall>q \<in> set qs. \<exists>r \<in> set ps. vr_id r = snd q \<and> vr_user r = fst (fst q))"

definition chat_pairs :: "connection_row list \<Rightarrow> (string \<times> int option) set" where
  "chat_pairs cs = set (map (\<lambda>c. (cx_user c, cx_chat c)) cs)"

definition chats_ok :: "connection_row list \<Rightarrow> bool" where
  "chats_ok cs \<longleftrightarrow> (\<forall>u v k. (u, Some k) \<in> chat_pairs cs \<longrightarrow> (v, Some k) \<in> chat_pairs cs \<longrightarrow> u = v)"

definition links_ok :: "token_row list \<Rightarrow> connection_row list \<Rightarrow> bool" where
  "links_ok ts cs \<longleftrightarrow> distinct (map tr_hash ts) \<and> distinct (map cx_user cs) \<and> chats_ok cs"

definition settings_ok :: "settings_row list \<Rightarrow> bool" where
  "settings_ok rs \<longleftrightarrow> distinct (map st_user rs) \<and> list_all settings_check rs"

definition runs_ok :: "run_record list \<Rightarrow> bool" where
  "runs_ok rs \<longleftrightarrow> runs_unique rs \<and> list_all run_check rs"

definition tables_sound :: "asst_tables \<Rightarrow> bool" where
  "tables_sound d \<longleftrightarrow> runs_ok (tb_runs d) \<and> prefs_ok (tb_prefs d) (tb_requests d)
     \<and> links_ok (tb_tokens d) (tb_connections d) \<and> settings_ok (tb_settings d)"

text \<open>Versions are only ever archived or added to, request keys only added to.\<close>

definition archives :: "(pref_row \<Rightarrow> pref_row) \<Rightarrow> bool" where
  "archives f \<longleftrightarrow> (\<forall>r. f r\<lparr>vr_archived := None\<rparr> = r\<lparr>vr_archived := None\<rparr>)"

lemma archives_id [simp]: "archives (\<lambda>r. r)" "archives id"
  by (simp_all add: archives_def)

lemma archives_fields:
  assumes "archives f"
  shows "vr_id (f r) = vr_id r" "vr_user (f r) = vr_user r" "vr_version (f r) = vr_version r"
proof -
  have "f r\<lparr>vr_archived := None\<rparr> = r\<lparr>vr_archived := None\<rparr>" using assms by (simp add: archives_def)
  then show "vr_id (f r) = vr_id r" "vr_user (f r) = vr_user r" "vr_version (f r) = vr_version r"
    by (cases "f r"; cases r; simp)+
qed

lemma insert_pref_Some:
  "insert_pref env r d = Some d' \<longleftrightarrow> vr_user r \<in> fst ` set (tb_users d) \<and> pref_check env r
     \<and> (\<forall>x \<in> set (tb_prefs d). vr_id x \<noteq> vr_id r \<and> (vr_user x, vr_version x) \<noteq> (vr_user r, vr_version r))
     \<and> d' = d\<lparr>tb_prefs := tb_prefs d @ [r]\<rparr>"
  by (auto simp: insert_pref_def)

text \<open>The outcomes of a save: the stored version, or a version that was not there.\<close>

lemma save_pref_cases:
  assumes "save_pref env u key p docs snap uuid now d = Some (d', r)"
  obtains (replayed) "key \<noteq> ''''" "stored_request u key snap = Some r" "d' = d"
    | (added) "d' = d\<lparr>tb_prefs := tb_prefs d @ [r], tb_requests := tb_requests d @ (if key = '''' then [] else [((u, key), uuid)])\<rparr>"
        "vr_id r = uuid" "vr_user r = u" "vr_version r = max_version u snap + 1" "vr_note r = pc_Note p" "vr_archived r = None"
        "\<forall>x \<in> set (tb_prefs d). vr_id x \<noteq> vr_id r \<and> (vr_user x, vr_version x) \<noteq> (vr_user r, vr_version r)"
        "key \<noteq> '''' \<longrightarrow> (u, key) \<notin> fst ` set (tb_requests d)"
proof -
  obtain hard soft weights where docs: "docs = (hard, soft, weights)" by (metis prod_cases3)
  from assms obtain h f w where j: "ae_jsonb env hard = Some h" "ae_jsonb env soft = Some f" "ae_jsonb env weights = Some w"
    by (auto simp: save_pref_def docs split: option.splits)
  show ?thesis
  proof (cases "if key = '''' then None else stored_request u key snap")
    case (Some r0)
    then show ?thesis using assms j replayed by (auto simp: save_pref_def docs split: if_splits)
  next
    case None
    define new where "new = \<lparr>vr_id = uuid, vr_user = u, vr_version = max_version u snap + 1, vr_note = pc_Note p, vr_hard = h,
                          vr_soft = f, vr_weights = w, vr_active_from = now, vr_archived = None\<rparr>"
    from assms None j obtain d1 where i: "insert_pref env new d = Some d1" and r: "r = new"
      and d': "d' = (if key = '''' then d1 else d1\<lparr>tb_requests := tb_requests d1 @ [((u, key), uuid)]\<rparr>)"
      and k: "key \<noteq> '''' \<longrightarrow> (u, key) \<notin> fst ` set (tb_requests d1)"
      by (auto simp: save_pref_def docs Let_def new_def split: option.splits if_splits)
    from i have d1: "d1 = d\<lparr>tb_prefs := tb_prefs d @ [r]\<rparr>"
      and fresh: "\<forall>x \<in> set (tb_prefs d). vr_id x \<noteq> vr_id r \<and> (vr_user x, vr_version x) \<noteq> (vr_user r, vr_version r)"
      by (auto simp: insert_pref_Some r)
    show ?thesis
      by (rule added) (use d' d1 fresh k in \<open>simp_all add: r new_def\<close>)
  qed
qed

lemma archive_pref_Some:
  assumes "archive_pref u i now d = Some (d', n)"
  obtains f where "archives f" "d' = d\<lparr>tb_prefs := map f (tb_prefs d)\<rparr>"
proof -
  let ?f = "\<lambda>r. if vr_id r = i \<and> vr_user r = u \<and> vr_archived r = None then r\<lparr>vr_archived := Some now\<rparr> else r"
  have "archives ?f" by (simp add: archives_def)
  moreover have "d' = d\<lparr>tb_prefs := map ?f (tb_prefs d)\<rparr>" using assms by (simp add: archive_pref_def set_where_def Let_def)
  ultimately show ?thesis by (rule that)
qed

definition pref_grows :: "asst_tables \<Rightarrow> asst_tables \<Rightarrow> bool" where
  "pref_grows d d' \<longleftrightarrow> (\<exists>f ps qs. archives f \<and> tb_prefs d' = map f (tb_prefs d) @ ps \<and> tb_requests d' = tb_requests d @ qs)"

lemma pref_grows_add: "tb_prefs d' = tb_prefs d @ ps \<Longrightarrow> tb_requests d' = tb_requests d @ qs \<Longrightarrow> pref_grows d d'"
  unfolding pref_grows_def by (rule exI [of _ id]) auto

lemma pref_grows_same: "tb_prefs d' = tb_prefs d \<Longrightarrow> tb_requests d' = tb_requests d \<Longrightarrow> pref_grows d d'"
  by (rule pref_grows_add [where ps = "[]" and qs = "[]"]) simp_all

lemma table_step_prefs:
  assumes "table_step env d d'"
  shows "pref_grows d d'"
  using assms
proof cases
  case (archived u i now n)
  then show ?thesis unfolding pref_grows_def by (elim archive_pref_Some) fastforce
next
  case (saved u key p docs uuid now r)
  then show ?thesis by (elim save_pref_cases) (auto intro: pref_grows_add pref_grows_same)
qed (auto simp: ensure_user_def queue_run_def put_runs_def claim_run_def pause_run_def resume_run_def
    supersede_run_def complete_asst_run_def heartbeat_run_def progress_run_def issue_token_def confirm_link_def set_opt_in_def
    save_settings_def update_runs_Some Let_def split: option.splits if_splits intro!: pref_grows_same)

lemmas step_defs = ensure_user_def queue_run_def put_runs_def claim_run_def pause_run_def resume_run_def supersede_run_def
  complete_asst_run_def heartbeat_run_def progress_run_def issue_token_def set_opt_in_def save_settings_def update_runs_Some Let_def

lemma table_step_prefs_ok:
  assumes "table_step env d d'" and "prefs_ok (tb_prefs d) (tb_requests d)"
  shows "prefs_ok (tb_prefs d') (tb_requests d')"
  using assms(1)
proof cases
  case (archived u i now n)
  then obtain f where f: "archives f" and d': "d' = d\<lparr>tb_prefs := map f (tb_prefs d)\<rparr>" by (rule archive_pref_Some)
  show ?thesis using assms(2) by (simp add: prefs_ok_def d' o_def archives_fields [OF f])
next
  case (saved u key p docs uuid now r)
  then show ?thesis
  proof (cases rule: save_pref_cases)
    case replayed
    with assms(2) show ?thesis by simp
  next
    case added
    with assms(2) show ?thesis by (auto simp: prefs_ok_def)
  qed
qed (use assms(2) in \<open>auto simp: step_defs confirm_link_def split: option.splits if_splits\<close>)

lemma table_step_runs_ok:
  assumes "table_step env d d'" and "runs_ok (tb_runs d)"
  shows "runs_ok (tb_runs d')"
  using assms(1)
proof cases
  case (saved u key p docs uuid now r)
  then show ?thesis using assms(2) by (elim save_pref_cases) auto
qed (use assms(2) in \<open>auto simp: step_defs archive_pref_def confirm_link_def runs_ok_def split: option.splits if_splits\<close>)

lemma upsert_set:
  "x \<in> set (upsert key new change rows) \<Longrightarrow> x = new \<or> (\<exists>r \<in> set rows. key r = key new \<and> x = change r) \<or> (x \<in> set rows \<and> key x \<noteq> key new)"
  by (auto simp: upsert_def split: if_splits)

lemma confirm_link_cases:
  assumes "confirm_link h chat now d = Some (d', n)"
  obtains (none) "d' = d" "n = 0" "List.find (token_live h now) (tb_tokens d) = None"
    | (one) t where "List.find (token_live h now) (tb_tokens d) = Some t" "n = 1"
        "\<forall>c \<in> set (tb_connections d). cx_chat c = Some chat \<longrightarrow> cx_user c = tr_user t"
        "d' = d\<lparr>tb_tokens := set_where (token_live h now) (\<lambda>r. r\<lparr>tr_used := Some now\<rparr>) (tb_tokens d),
          tb_connections := upsert cx_user (fresh_link (tr_user t) chat now) (\<lambda>_. fresh_link (tr_user t) chat now) (tb_connections d)\<rparr>"
proof (cases "List.find (token_live h now) (tb_tokens d)")
  case None
  then show ?thesis using assms none by (simp add: confirm_link_def)
next
  case (Some t)
  then show ?thesis using assms by (intro one [of t]) (auto simp: confirm_link_def Let_def split: if_splits)
qed

lemma links_ok_map:
  assumes "\<And>c. cx_user (f c) = cx_user c" "\<And>c. cx_chat (f c) = cx_chat c" "links_ok ts cs"
  shows "links_ok ts (map f cs)"
  using assms(3) by (simp add: links_ok_def chats_ok_def chat_pairs_def o_def assms(1,2))

lemma table_step_links_ok:
  assumes "table_step env d d'" and ok: "links_ok (tb_tokens d) (tb_connections d)"
  shows "links_ok (tb_tokens d') (tb_connections d')"
  using assms(1)
proof cases
  case (saved u key p docs uuid now r)
  then show ?thesis using ok by (elim save_pref_cases) auto
next
  case (issued u h expires z)
  then show ?thesis using ok by (auto simp: issue_token_def links_ok_def split: if_splits)
next
  case (confirmed h chat now n)
  then show ?thesis
  proof (cases rule: confirm_link_cases)
    case none
    with ok show ?thesis by simp
  next
    case (one t)
    note free = one(3) and d' = one(4)
    have "map tr_hash (tb_tokens d') = map tr_hash (tb_tokens d)" by (simp add: d' set_where_def)
    moreover have "distinct (map cx_user (tb_connections d'))" using ok unfolding d' links_ok_def by (simp add: upsert_distinct)
    moreover have "chat_pairs (tb_connections d') \<subseteq> insert (tr_user t, Some chat) (chat_pairs (tb_connections d))"
      by (auto simp: d' chat_pairs_def fresh_link_def dest!: upsert_set)
    moreover have "u = tr_user t" if "(u, Some chat) \<in> chat_pairs (tb_connections d)" for u
      using that free by (auto simp: chat_pairs_def)
    moreover have "chats_ok (tb_connections d)" using ok by (simp add: links_ok_def)
    ultimately have "chats_ok (tb_connections d')" "distinct (map cx_user (tb_connections d'))"
      "map tr_hash (tb_tokens d') = map tr_hash (tb_tokens d)"
      unfolding chats_ok_def by blast+
    with ok show ?thesis by (simp add: links_ok_def)
  qed
next
  case (revoked u now)
  show ?thesis using ok unfolding revoked by (simp add: set_where_def) (rule links_ok_map; simp)
next
  case (opted u b n)
  then have d': "d' = d\<lparr>tb_connections := set_where (\<lambda>c. cx_user c = u \<and> linked c) (\<lambda>c. c\<lparr>cx_opted := b\<rparr>) (tb_connections d)\<rparr>"
    by (simp add: set_opt_in_def)
  show ?thesis using ok unfolding d' by (simp add: set_where_def) (rule links_ok_map; simp)
qed (use ok in \<open>auto simp: step_defs archive_pref_def split: option.splits if_splits\<close>)

lemma table_step_settings_ok:
  assumes "table_step env d d'" and "settings_ok (tb_settings d)"
  shows "settings_ok (tb_settings d')"
  using assms(1)
proof cases
  case (saved u key p docs uuid now r)
  then show ?thesis using assms(2) by (elim save_pref_cases) auto
next
  case (settled new now z)
  then show ?thesis using assms(2)
    by (auto simp: settings_ok_def save_settings_def Let_def changed_settings_def intro!: upsert_distinct split: if_splits)
qed (use assms(2) in \<open>auto simp: step_defs archive_pref_def confirm_link_def split: option.splits if_splits\<close>)

lemma repo_step_sound: "repo_step env s s' \<Longrightarrow> tables_sound (db_data s) \<Longrightarrow> tables_sound (db_data s')"
  using repo_step_tables [of env s s'] table_step_runs_ok table_step_prefs_ok table_step_links_ok table_step_settings_ok
  unfolding tables_sound_def by metis


section \<open>Properties\<close>

lemma repo_steps_sound: "repo_steps env s s' \<Longrightarrow> tables_sound (db_data s) \<Longrightarrow> tables_sound (db_data s')"
  by (induction rule: rtranclp_induct) (auto intro: repo_step_sound)

lemma no_asst_tables_sound: "tables_sound no_asst_tables"
  by (simp add: tables_sound_def no_asst_tables_def runs_ok_def runs_unique_def prefs_ok_def links_ok_def chats_ok_def chat_pairs_def
    settings_ok_def)

lemma repo_step_evolves: "repo_step env s s' \<Longrightarrow> evolves (tb_runs (db_data s)) (tb_runs (db_data s'))"
  using repo_step_tables [of env s s'] table_step_runs by (metis evolves_refl)

lemma run_edges_closed:
  "(a, b) \<in> (set run_edges)\<^sup>* \<Longrightarrow> a \<in> {''disabled'', ''superseded''} \<Longrightarrow> b = a"
  by (induction rule: converse_rtrancl_induct) (auto simp: run_edges_def)

definition same_run :: "run_record \<Rightarrow> run_record \<Rightarrow> bool" where
  "same_run r r' \<longleftrightarrow> rr_id r' = rr_id r \<and> rr_user r' = rr_user r \<and> rr_preference r' = rr_preference r
     \<and> rr_request r' = rr_request r \<and> rr_cutoff r' = rr_cutoff r \<and> rr_total r' = rr_total r \<and> rr_ruleset r' = rr_ruleset r"

lemma run_follows_trans:
  assumes "same_run r r'" "(rr_state r, rr_state r') \<in> (set run_edges)\<^sup>*" "rr_state r \<in> {''disabled'', ''superseded''} \<longrightarrow> r' = r"
    and "run_follows r' r''"
  shows "same_run r r'' \<and> (rr_state r, rr_state r'') \<in> (set run_edges)\<^sup>* \<and> (rr_state r \<in> {''disabled'', ''superseded''} \<longrightarrow> r'' = r)"
  using assms by (auto simp: same_run_def run_follows_def intro: rtrancl_into_rtrancl)

text \<open>
  C25. The life of a snapshot run, over any sequence of operations of the repository by any number of workers
  and handlers, failed statements included: a run is never lost, its user, preference version, request key,
  snapshot and rule set never change, its state moves along the edges of \<open>run_edges\<close> only, and a run that was
  disabled or superseded is never touched again.
\<close>

theorem run_lifecycle:
  assumes "repo_steps env s s'" and "r \<in> set (tb_runs (db_data s))"
  shows "\<exists>r' \<in> set (tb_runs (db_data s')). same_run r r' \<and> (rr_state r, rr_state r') \<in> (set run_edges)\<^sup>*
     \<and> (rr_state r \<in> {''disabled'', ''superseded''} \<longrightarrow> r' = r)"
  using assms(1)
proof (induction rule: rtranclp_induct)
  case base
  then show ?case using assms(2) by (intro bexI [of _ r]) (auto simp: same_run_def)
next
  case (step s1 s2)
  then obtain r' where r': "r' \<in> set (tb_runs (db_data s1))" "same_run r r'" "(rr_state r, rr_state r') \<in> (set run_edges)\<^sup>*"
    "rr_state r \<in> {''disabled'', ''superseded''} \<longrightarrow> r' = r" by blast
  obtain r'' where "r'' \<in> set (tb_runs (db_data s2))" "run_follows r' r''"
    using evolves_in [OF repo_step_evolves [OF step.hyps(2)] r'(1)] by blast
  with run_follows_trans [OF r'(2-4)] show ?case by blast
qed

text \<open>
  What the tables keep, over any sequence of operations: one active run per user and one run per request
  key, valid states and no negative counter; one version per number and user, every request key naming a version
  of its own user; one connection per user and one user per chat; an activation time wherever AI is on.
\<close>

theorem repository_sound:
  assumes "repo_steps env s s'" and "tables_sound (db_data s)"
  shows "tables_sound (db_data s')"
  by (rule repo_steps_sound) (rule assms)+

text \<open>Claims follow one another; each worker holds what it got.\<close>

fun claim_many :: "asst_env \<Rightarrow> nat \<Rightarrow> asst \<Rightarrow> asst \<times> AssistantRun list" where
  "claim_many env 0 s = (s, [])"
| "claim_many env (Suc n) s =
     (case ClaimAssistantRun env s of
        (s, Inr (Some run)) \<Rightarrow> (case claim_many env n s of (s, runs) \<Rightarrow> (s, run # runs))
      | (s, _) \<Rightarrow> claim_many env n s)"

definition held :: "time \<Rightarrow> string set \<Rightarrow> asst_tables \<Rightarrow> bool" where
  "held until ids d \<longleftrightarrow> (\<forall>r \<in> set (tb_runs d). rr_id r \<in> ids \<longrightarrow> rr_state r = ''running'' \<and> (\<exists>t \<ge> until. rr_lease r = Some t))"

lemma claim_run_held:
  assumes "claim_run now d = Some (d', y)" and "held until ids d" "now \<le> until" "until \<le> now + run_lease"
  shows "held until (ids \<union> (case y of None \<Rightarrow> {} | Some run \<Rightarrow> {rn_ID run})) d' \<and> (\<forall>run. y = Some run \<longrightarrow> rn_ID run \<notin> ids)"
proof (cases "oldest_run (filter (claimable now) (tb_runs d))")
  case None
  then show ?thesis using assms by (auto simp: claim_run_def)
next
  case (Some r)
  then have r: "r \<in> set (tb_runs d)" "claimable now r" using oldest_run_in by fastforce+
  from assms(1) Some have y: "y = Some (run_of (claimed_run now r))"
    and d': "d' = d\<lparr>tb_runs := set_where (\<lambda>x. rr_id x = rr_id r) (claimed_run now) (tb_runs d)\<rparr>"
    by (auto simp: claim_run_def update_runs_Some split: option.splits)
  have i: "rn_ID (run_of (claimed_run now r)) = rr_id r" by (simp add: run_of_def claimed_run_def)
  have "rr_id r \<notin> ids" using r assms(2,3) by (auto simp: held_def claimable_def)
  moreover have "held until (insert (rr_id r) ids) d'"
    using assms(2,4) by (auto simp: d' held_def set_where_def claimed_run_def)
  ultimately show ?thesis by (simp add: y i)
qed

lemma claim_many_held:
  assumes "claim_many env n s = (s', runs)" and "held until ids (db_data s)"
    and "\<And>t. db_tick s \<le> t \<Longrightarrow> db_now (ae_db env) t \<le> until \<and> until \<le> db_now (ae_db env) t + run_lease"
  shows "distinct (map rn_ID runs) \<and> set (map rn_ID runs) \<inter> ids = {}"
  using assms
proof (induction n arbitrary: s s' runs ids)
  case (Suc n)
  obtain s1 res where c: "ClaimAssistantRun env s = (s1, res)" by fastforce
  note tick = asst_tick(1) [OF c [unfolded ClaimAssistantRun_def]]
  have later: "db_now (ae_db env) t \<le> until \<and> until \<le> db_now (ae_db env) t + run_lease" if "db_tick s1 \<le> t" for t
    using Suc.prems(3) [of t] that tick by simp
  show ?case
  proof (cases res)
    case (Inl e)
    then have "held until ids (db_data s1)" using c Suc.prems(2) by (auto simp: ClaimAssistantRun_def dest: asst_stmt_error)
    with Suc.IH [OF _ this later] Suc.prems(1) c Inl show ?thesis by simp
  next
    case (Inr y)
    then have q: "claim_run (db_now (ae_db env) (db_tick s)) (db_data s) = Some (db_data s1, y)"
      using c by (auto simp: ClaimAssistantRun_def dest: asst_stmt_ok)
    note h = claim_run_held [OF q Suc.prems(2)] Suc.prems(3) [of "db_tick s"]
    show ?thesis
    proof (cases y)
      case None
      with h have "held until ids (db_data s1)" by simp
      with Suc.IH [OF _ this later] Suc.prems(1) c Inr None show ?thesis by simp
    next
      case (Some run)
      then have held1: "held until (insert (rn_ID run) ids) (db_data s1)" "rn_ID run \<notin> ids" using h by auto
      obtain s2 rs where m: "claim_many env n s1 = (s2, rs)" by fastforce
      then have "runs = run # rs" using Suc.prems(1) c Inr Some by simp
      with Suc.IH [OF m held1(1) later] held1(2) show ?thesis by auto
    qed
  qed
qed simp

text \<open>
  C26. A snapshot run has one worker at a time. However many workers claim one after the other, and whichever of
  their statements fail, as long as all of it happens within the ten minutes of a lease no two of them are given
  the same run.
\<close>

theorem claims_exclusive:
  assumes "claim_many env n s = (s', runs)"
    and "\<And>t. db_tick s \<le> t \<Longrightarrow> begun \<le> db_now (ae_db env) t \<and> db_now (ae_db env) t \<le> begun + run_lease"
  shows "distinct (map rn_ID runs)"
proof -
  have "held (begun + run_lease) {} (db_data s)" by (simp add: held_def)
  with claim_many_held [OF assms(1) this] assms(2) show ?thesis by simp
qed

section \<open>Idempotent saves\<close>

text \<open>A stored request stays what it was, but for the archive time of its version.\<close>

lemma pref_grows_stored:
  assumes "pref_grows d d'" and "stored_request u key d = Some r"
  shows "\<exists>r'. stored_request u key d' = Some r' \<and> r'\<lparr>vr_archived := None\<rparr> = r\<lparr>vr_archived := None\<rparr>"
proof -
  obtain f ps qs where f: "archives f" and d': "tb_prefs d' = map f (tb_prefs d) @ ps" "tb_requests d' = tb_requests d @ qs"
    using assms(1) by (auto simp: pref_grows_def)
  obtain p where p: "map_of (tb_requests d) (u, key) = Some p" "row_of vr_id p (tb_prefs d) = Some r"
    using assms(2) by (auto simp: stored_request_def split: option.splits)
  have "row_of vr_id p (tb_prefs d') = Some (f r)"
    using p(2) by (simp add: d' row_of_append row_of_map archives_fields [OF f])
  moreover have "map_of (tb_requests d') (u, key) = Some p" using p(1) by (simp add: d' map_add_def)
  ultimately show ?thesis using f by (auto simp: stored_request_def archives_def)
qed

lemma repo_steps_stored:
  assumes "repo_steps env s s'" and "stored_request u key (db_data s) = Some r"
  shows "\<exists>r'. stored_request u key (db_data s') = Some r' \<and> r'\<lparr>vr_archived := None\<rparr> = r\<lparr>vr_archived := None\<rparr>"
  using assms(1)
proof (induction rule: rtranclp_induct)
  case base
  then show ?case using assms(2) by blast
next
  case (step s1 s2)
  have "pref_grows (db_data s1) (db_data s2)"
    using repo_step_tables [OF step.hyps(2)] table_step_prefs pref_grows_same by metis
  from pref_grows_stored [OF this] step.IH show ?case by metis
qed

lemma save_pref_stored:
  assumes "save_pref env u key p docs d uuid now d = Some (d', r)" and "key \<noteq> ''''"
  shows "stored_request u key d' = Some r"
  using assms(1)
proof (cases rule: save_pref_cases)
  case replayed
  then show ?thesis by simp
next
  case added
  then have "map_of (tb_requests d) (u, key) = None" using assms(2) by (simp add: map_of_eq_None_iff)
  moreover have "row_of vr_id uuid (tb_prefs d) = None" using added by (auto simp: row_of_None)
  ultimately show ?thesis using added assms(2) by (simp add: stored_request_def map_add_def row_of_append) (simp add: row_of_def)
qed

lemma SavePreferences_ok:
  assumes "SavePreferences env s u key p = (s', Inr x)"
  obtains p' b docs uuid now r where "NormalizePreferenceRoles p = Inr (p', b)"
    "save_pref env u (TrimSpace key) p' docs (db_data s) uuid now (db_data s) = Some (db_data s', r)"
    "decode_pref env (r\<lparr>vr_archived := None\<rparr>) = Inr x"
  using assms by (auto simp: SavePreferences_def split: prod.splits sum.splits dest!: asst_insert_ok)

text \<open>
  C27. A request key makes a save repeatable: after a save that succeeded, at any later time and whatever
  happened in between, a save with the same key that succeeds answers the version the first one stored, also when
  it carries another document, and writes nothing.
\<close>

theorem preference_replay:
  assumes "SavePreferences env s u key p = (s1, Inr x)" and "TrimSpace key \<noteq> ''''"
    and "repo_steps env s1 s2" and "SavePreferences env s2 u key q = (s3, Inr y)"
  shows "y = x \<and> db_data s3 = db_data s2"
proof -
  obtain p' docs uuid now r where first: "save_pref env u (TrimSpace key) p' docs (db_data s) uuid now (db_data s) = Some (db_data s1, r)"
    and x: "decode_pref env (r\<lparr>vr_archived := None\<rparr>) = Inr x"
    using assms(1) by (rule SavePreferences_ok)
  obtain q' docs2 uuid2 now2 r2 where second: "save_pref env u (TrimSpace key) q' docs2 (db_data s2) uuid2 now2 (db_data s2) = Some (db_data s3, r2)"
    and y: "decode_pref env (r2\<lparr>vr_archived := None\<rparr>) = Inr y"
    using assms(4) by (rule SavePreferences_ok)
  obtain r' where r': "stored_request u (TrimSpace key) (db_data s2) = Some r'" "r'\<lparr>vr_archived := None\<rparr> = r\<lparr>vr_archived := None\<rparr>"
    using repo_steps_stored [OF assms(3) save_pref_stored [OF first assms(2)]] by blast
  from second show ?thesis
  proof (cases rule: save_pref_cases)
    case replayed
    then have "r2 = r'" using r'(1) by simp
    with r'(2) x y replayed show ?thesis by simp
  next
    case added
    then have "map_of (tb_requests (db_data s2)) (u, TrimSpace key) = None" using assms(2) by (simp add: map_of_eq_None_iff)
    then have "stored_request u (TrimSpace key) (db_data s2) = None" by (simp add: stored_request_def)
    with r'(1) show ?thesis by simp
  qed
qed

lemma newest_greatest:
  assumes "newest rs = Some x" and "r \<in> set rs"
  shows "vr_version r \<le> vr_version x"
  using assms
proof (induction rs arbitrary: x)
  case (Cons a rs)
  show ?case
  proof (cases "newest rs")
    case None
    then have "rs = []" by (cases rs) (auto split: option.splits)
    with Cons show ?thesis by simp
  next
    case (Some y)
    with Cons show ?thesis by (fastforce split: if_splits)
  qed
qed simp

lemma newest_in: "newest rs = Some x \<Longrightarrow> x \<in> set rs"
  by (induction rs arbitrary: x) (auto split: option.splits if_splits)

lemma newest_last:
  assumes "\<forall>x \<in> set rs. vr_version x < vr_version r"
  shows "newest (rs @ [r]) = Some r"
  using assms by (induction rs) (auto split: option.splits)

lemma max_version_bound: "r \<in> set (own_prefs u d) \<Longrightarrow> vr_version r \<le> max_version u d"
proof -
  have "x \<in> set xs \<Longrightarrow> x \<le> foldr max xs (0 :: int)" for x xs by (induction xs) auto
  then show "r \<in> set (own_prefs u d) \<Longrightarrow> vr_version r \<le> max_version u d" by (simp add: max_version_def)
qed

text \<open>
  The preferences round-trip: a save without a request key keeps every earlier version as it was and adds one
  with the next number, and what is read back right after it is the saved version, its roles normalised.
\<close>

theorem save_then_current:
  assumes "SavePreferences env s u key p = (s1, Inr x)" and "TrimSpace key = ''''"
    and "CurrentPreferences env s1 u = (s2, Inr c)"
  shows "normalized (Inr x) = Inr c \<and> pc_Version x = max_version u (db_data s) + 1
     \<and> (\<exists>r. tb_prefs (db_data s1) = tb_prefs (db_data s) @ [r] \<and> tb_prefs (db_data s2) = tb_prefs (db_data s1))"
proof -
  obtain p' docs uuid now r where save: "save_pref env u '''' p' docs (db_data s) uuid now (db_data s) = Some (db_data s1, r)"
    and x: "decode_pref env (r\<lparr>vr_archived := None\<rparr>) = Inr x"
    using assms(1,2) by (metis SavePreferences_ok)
  from save have d: "tb_prefs (db_data s1) = tb_prefs (db_data s) @ [r]" "vr_user r = u" "vr_archived r = None"
    "vr_version r = max_version u (db_data s) + 1"
    by (auto elim: save_pref_cases)
  then have "filter (\<lambda>r. vr_archived r = None) (own_prefs u (db_data s1))
      = filter (\<lambda>r. vr_archived r = None) (own_prefs u (db_data s)) @ [r]"
    by (simp add: own_prefs_def)
  moreover have "\<forall>y \<in> set (filter (\<lambda>r. vr_archived r = None) (own_prefs u (db_data s))). vr_version y < vr_version r"
    using d(4) by (auto dest!: max_version_bound)
  ultimately have cur: "current_pref u (db_data s1) = Some r" by (simp add: current_pref_def newest_last)
  obtain s' r0 where read: "asst_read env ''get assistant preferences'' (\<lambda>_. current_pref u) s1 = (s', Inr r0)"
    using assms(3) by (cases "asst_read env ''get assistant preferences'' (\<lambda>_. current_pref u) s1"; cases "snd (asst_read env ''get assistant preferences'' (\<lambda>_. current_pref u) s1)")
      (auto simp: CurrentPreferences_def)
  have "r0 = Some r" using asst_read_ok [OF read] cur by simp
  with assms(3) read have c: "normalized (decode_pref env r) = Inr c" "s2 = s'" by (simp_all add: CurrentPreferences_def)
  have "r\<lparr>vr_archived := None\<rparr> = r" using d(3) by (cases r) simp
  with x have dec: "decode_pref env r = Inr x" by simp
  then have "pc_Version x = vr_version r" by (auto simp: decode_pref_def split: option.splits)
  with c dec d asst_read_data [OF read] show ?thesis by simp
qed

section \<open>Links and settings\<close>

definition token_spent :: "string \<Rightarrow> asst_tables \<Rightarrow> bool" where
  "token_spent h d \<longleftrightarrow> h \<in> tr_hash ` set (tb_tokens d) \<and> (\<forall>t \<in> set (tb_tokens d). tr_hash t = h \<longrightarrow> tr_used t \<noteq> None)"

lemma find_None: "List.find P xs = None \<longleftrightarrow> (\<forall>x \<in> set xs. \<not> P x)"
  by (auto simp: find_None_iff)

lemma table_step_spent: "table_step env d d' \<Longrightarrow> token_spent h d \<Longrightarrow> token_spent h d'"
proof (induction rule: table_step.induct)
  case (saved u key p docs d uuid now d' r)
  then show ?case by (elim save_pref_cases) (auto simp: token_spent_def)
next
  case (confirmed h' chat now d d' n)
  from confirmed(1) show ?case
  proof (cases rule: confirm_link_cases)
    case none
    with confirmed(2) show ?thesis by simp
  next
    case (one t)
    with confirmed(2) show ?thesis by (auto simp: token_spent_def set_where_def token_live_def image_iff)
  qed
qed (auto simp: token_spent_def step_defs archive_pref_def split: option.splits if_splits)

lemma repo_step_spent: "repo_step env s s' \<Longrightarrow> token_spent h (db_data s) \<Longrightarrow> token_spent h (db_data s')"
  using repo_step_tables [of env s s'] table_step_spent [of env "db_data s" "db_data s'" h] by (cases "db_data s' = db_data s") simp_all

lemma repo_steps_spent: "repo_steps env s s' \<Longrightarrow> token_spent h (db_data s) \<Longrightarrow> token_spent h (db_data s')"
  by (induction rule: rtranclp_induct) (auto intro: repo_step_spent)

text \<open>
  C28. A link token of the database is used once: after a confirmation that succeeded, no confirmation with the
  same token succeeds at any later time, for whichever chat, and the new connection did not opt in to anything.
\<close>

theorem link_token_once:
  assumes "tables_sound (db_data s)" and "ConfirmTelegramLink env s token chat = (s1, None)" and "repo_steps env s1 s2"
    and "ConfirmTelegramLink env s2 token chat' = (s3, err)"
  shows "err \<noteq> None \<and> db_data s3 = db_data s2
     \<and> (\<exists>c \<in> set (tb_connections (db_data s1)). cx_chat c = Some chat \<and> linked c \<and> \<not> cx_opted c)"
proof -
  let ?h = "ae_hash env token"
  obtain n where n: "asst_stmt env ''confirm telegram link'' (confirm_link ?h chat) s = (s1, Inr n)" "n \<noteq> 0"
    using assms(2) by (auto simp: ConfirmTelegramLink_def split: if_splits prod.splits sum.splits)
  define now where "now = db_now (ae_db env) (db_tick s)"
  from asst_stmt_ok [OF n(1)] have q: "confirm_link ?h chat now (db_data s) = Some (db_data s1, n)" by (simp add: now_def)
  then obtain t where t: "List.find (token_live ?h now) (tb_tokens (db_data s)) = Some t"
    and d1: "tb_tokens (db_data s1) = set_where (token_live ?h now) (\<lambda>r. r\<lparr>tr_used := Some now\<rparr>) (tb_tokens (db_data s))"
    "tb_connections (db_data s1) = upsert cx_user (fresh_link (tr_user t) chat now) (\<lambda>_. fresh_link (tr_user t) chat now) (tb_connections (db_data s))"
    using n(2) by (auto elim: confirm_link_cases)
  have live: "t \<in> set (tb_tokens (db_data s))" "token_live ?h now t" using t by (auto simp: find_Some_iff)
  have one: "x = t" if "x \<in> set (tb_tokens (db_data s))" "tr_hash x = ?h" for x
    using that live assms(1) by (auto simp: tables_sound_def links_ok_def distinct_map inj_on_def token_live_def)
  have "map tr_hash (tb_tokens (db_data s1)) = map tr_hash (tb_tokens (db_data s))" by (simp add: d1 set_where_def o_def if_distrib cong: if_cong)
  then have "tr_hash ` set (tb_tokens (db_data s1)) = tr_hash ` set (tb_tokens (db_data s))" by (metis list.set_map)
  then have "?h \<in> tr_hash ` set (tb_tokens (db_data s1))" using live by (metis image_eqI token_live_def)
  moreover have "tr_used x \<noteq> None" if x: "x \<in> set (tb_tokens (db_data s1))" "tr_hash x = ?h" for x
  proof -
    obtain y where y: "y \<in> set (tb_tokens (db_data s))" "x = (if token_live ?h now y then y\<lparr>tr_used := Some now\<rparr> else y)"
      using x(1) by (auto simp: d1 set_where_def)
    then have "tr_hash y = ?h" using x(2) by (simp split: if_splits)
    from one [OF y(1) this] live(2) y(2) show ?thesis by simp
  qed
  ultimately have "token_spent ?h (db_data s1)" by (simp add: token_spent_def)
  then have "token_spent ?h (db_data s2)" by (rule repo_steps_spent [OF assms(3)])
  then have none: "List.find (token_live ?h m) (tb_tokens (db_data s2)) = None" for m
    by (auto simp: find_None token_spent_def token_live_def)
  have "err \<noteq> None \<and> db_data s3 = db_data s2"
    using assms(4) none by (auto simp: ConfirmTelegramLink_def confirm_link_def split: if_splits prod.splits sum.splits
      dest!: asst_stmt_ok asst_stmt_error)
  moreover have "fresh_link (tr_user t) chat now \<in> set (tb_connections (db_data s1))"
    by (auto simp: d1 upsert_def image_iff fresh_link_def)
  ultimately show ?thesis
    by (intro conjI bexI [of _ "fresh_link (tr_user t) chat now"]) (simp_all add: linked_def fresh_link_def)
qed

section \<open>Examples\<close>

text \<open>A database that answers every statement, with codecs that forget what they encode.\<close>

definition calm_asst :: asst_env where
  "calm_asst = \<lparr>ae_db = \<lparr>db_fails = (\<lambda>_. False), db_now = (\<lambda>_. 5), db_uuid = (\<lambda>t. replicate (Suc t) CHR ''u'')\<rparr>,
     ae_marshal = (\<lambda>_. Some ''{}''), ae_marshalWeights = (\<lambda>_. Some ''{}''), ae_jsonb = Some, ae_object = (\<lambda>_. Some []),
     ae_weights = (\<lambda>_. Some []), ae_hash = (\<lambda>t. t), ae_clock = (\<lambda>_. 5), ae_updated = (\<lambda>_. 0)\<rparr>"

definition example_asst :: asst where
  "example_asst = \<lparr>db_data = no_asst_tables\<lparr>tb_users := [(''a'', ''ann''), (''b'', ''bob'')],
     tb_runs := [new_run ''r1'' ''a'' None ''p'' True 1 no_asst_tables, new_run ''r2'' ''b'' None ''q'' True 2 no_asst_tables],
     tb_tokens := [\<lparr>tr_hash = ''t'', tr_user = ''a'', tr_expires = 100, tr_used = None\<rparr>]\<rparr>, db_tick = 0\<rparr>"

lemma example_sound: "tables_sound (db_data example_asst)"
proof -
  have "runs_ok (tb_runs (db_data example_asst))" by code_simp
  then show ?thesis by (simp add: tables_sound_def example_asst_def no_asst_tables_def prefs_ok_def links_ok_def chats_ok_def
    chat_pairs_def settings_ok_def)
qed

text \<open>A claim is a step.\<close>

theorem run_lifecycle_witness:
  "\<exists>r' \<in> set (tb_runs (db_data (fst (ClaimAssistantRun calm_asst example_asst)))).
     same_run (hd (tb_runs (db_data example_asst))) r'
     \<and> (rr_state (hd (tb_runs (db_data example_asst))), rr_state r') \<in> (set run_edges)\<^sup>*
     \<and> (rr_state (hd (tb_runs (db_data example_asst))) \<in> {''disabled'', ''superseded''} \<longrightarrow> r' = hd (tb_runs (db_data example_asst)))"
proof (rule run_lifecycle)
  show "repo_steps calm_asst example_asst (fst (ClaimAssistantRun calm_asst example_asst))"
    by (rule r_into_rtranclp, rule repo_step.intros(7)) (rule prod.collapse [symmetric])
  show "hd (tb_runs (db_data example_asst)) \<in> set (tb_runs (db_data example_asst))" by (simp add: example_asst_def)
qed

theorem repository_sound_witness: "tables_sound (db_data (fst (ClaimAssistantRun calm_asst example_asst)))"
proof (rule repository_sound)
  show "repo_steps calm_asst example_asst (fst (ClaimAssistantRun calm_asst example_asst))"
    by (rule r_into_rtranclp, rule repo_step.intros(7)) (rule prod.collapse [symmetric])
qed (rule example_sound)

theorem claims_exclusive_witness:
  "map rn_ID (snd (claim_many calm_asst 3 example_asst)) = [''r1'', ''r2''] \<and> distinct (map rn_ID (snd (claim_many calm_asst 3 example_asst)))"
proof
  show "map rn_ID (snd (claim_many calm_asst 3 example_asst)) = [''r1'', ''r2'']" by code_simp
  show "distinct (map rn_ID (snd (claim_many calm_asst 3 example_asst)))"
    by (rule claims_exclusive [where env = calm_asst and s = example_asst and begun = 5, OF prod.collapse [symmetric]])
      (simp add: calm_asst_def run_lease_def Minute_def)
qed

definition noted :: "string \<Rightarrow> PreferenceRecord" where "noted n = no_preference\<lparr>pc_Note := n\<rparr>"

lemma noted_save:
  assumes "length (runes n) \<le> 2000"
  shows "SavePreferences calm_asst s u key (noted n) =
     (case asst_insert calm_asst ''save assistant preferences''
         (\<lambda>uuid now d. save_pref calm_asst u (TrimSpace key) (noted n) (''{}'', ''{}'', ''{}'') d uuid now d) s of
        (s, Inl e) \<Rightarrow> (s, Inl e)
      | (s, Inr r) \<Rightarrow> (s, decode_pref calm_asst (r\<lparr>vr_archived := None\<rparr>)))"
proof -
  have "NormalizePreferenceRoles (noted n) = Inr (noted n, False)"
    by (simp add: NormalizePreferenceRoles_def noted_def no_preference_def)
  moreover have "validatePreferences (ae_marshal calm_asst) (ae_marshalWeights calm_asst) (noted n) = Inr (''{}'', ''{}'', ''{}'')"
    using assms by (simp add: validatePreferences_def noted_def no_preference_def calm_asst_def first_outside_def crit_def
      validateApprovedRoles_def approvedRoleIDs_def validateSpecialization_def)
  ultimately show ?thesis by (simp add: SavePreferences_def)
qed

lemma short_texts: "length (runes ''one'') \<le> 2000" "length (runes ''two'') \<le> 2000" "\<not> length (runes ''k'') > 255"
  "TrimSpace ''k'' = ''k''" "TrimSpace '''' = ''''"
proof -
  have "length (runes ''one'') = 3" "length (runes ''two'') = 3" "length (runes ''k'') = 1" by (code_simp, code_simp, code_simp)
  then show "length (runes ''one'') \<le> 2000" "length (runes ''two'') \<le> 2000" "\<not> length (runes ''k'') > 255" by simp_all
  show "TrimSpace ''k'' = ''k''" "TrimSpace '''' = ''''" by (simp_all add: bytes_simps)
qed

definition first_version :: pref_row where
  "first_version = \<lparr>vr_id = ''u'', vr_user = ''a'', vr_version = 1, vr_note = ''one'', vr_hard = ''{}'', vr_soft = ''{}'',
     vr_weights = ''{}'', vr_active_from = 5, vr_archived = None\<rparr>"

lemmas save_simps = noted_save short_texts asst_insert_def stmt_def save_pref_def insert_pref_def pref_check_def Let_def
  calm_asst_def example_asst_def no_asst_tables_def max_version_def own_prefs_def stored_request_def noted_def no_preference_def
  decode_pref_def first_version_def row_of_def

lemma example_saving:
  "SavePreferences calm_asst example_asst ''a'' ''k'' (noted ''one'') =
     (\<lparr>db_data = (db_data example_asst)\<lparr>tb_prefs := [first_version], tb_requests := [((''a'', ''k''), ''u'')]\<rparr>, db_tick = 1\<rparr>,
      decode_pref calm_asst first_version)"
  "SavePreferences calm_asst example_asst ''a'' '''' (noted ''one'') =
     (\<lparr>db_data = (db_data example_asst)\<lparr>tb_prefs := [first_version]\<rparr>, db_tick = 1\<rparr>, decode_pref calm_asst first_version)"
  by (simp_all add: noted_save short_texts) (simp_all add: save_simps)

lemma first_decoded: "\<exists>x. decode_pref calm_asst first_version = Inr x \<and> pc_Note x = ''one''"
  by (simp add: decode_pref_def calm_asst_def first_version_def no_preference_def)

theorem preference_replay_witness:
  "\<exists>s1 s3 x. SavePreferences calm_asst example_asst ''a'' ''k'' (noted ''one'') = (s1, Inr x) \<and> pc_Note x = ''one''
     \<and> SavePreferences calm_asst s1 ''a'' ''k'' (noted ''two'') = (s3, Inr x) \<and> db_data s3 = db_data s1"
proof -
  obtain s1 x where x: "SavePreferences calm_asst example_asst ''a'' ''k'' (noted ''one'') = (s1, Inr x)" "pc_Note x = ''one''"
    using first_decoded example_saving(1) by auto
  then have s1: "s1 = \<lparr>db_data = (db_data example_asst)\<lparr>tb_prefs := [first_version], tb_requests := [((''a'', ''k''), ''u'')]\<rparr>, db_tick = 1\<rparr>"
    using example_saving(1) by simp
  obtain s3 y where y: "SavePreferences calm_asst s1 ''a'' ''k'' (noted ''two'') = (s3, Inr y)"
    unfolding s1 by (simp add: noted_save short_texts) (simp add: save_simps)
  have "TrimSpace ''k'' \<noteq> ''''" by (simp add: short_texts)
  from preference_replay [OF x(1) this rtranclp.rtrancl_refl y] x y show ?thesis by auto
qed

theorem save_then_current_witness:
  "\<exists>s1 x c. SavePreferences calm_asst example_asst ''a'' '''' (noted ''one'') = (s1, Inr x) \<and> normalized (Inr x) = Inr c
     \<and> pc_Version x = max_version ''a'' (db_data example_asst) + 1"
proof -
  obtain s1 x where x: "SavePreferences calm_asst example_asst ''a'' '''' (noted ''one'') = (s1, Inr x)"
    using first_decoded example_saving(2) by auto
  then have s1: "s1 = \<lparr>db_data = (db_data example_asst)\<lparr>tb_prefs := [first_version]\<rparr>, db_tick = 1\<rparr>"
    using example_saving(2) by simp
  obtain s2 c where c: "CurrentPreferences calm_asst s1 ''a'' = (s2, Inr c)"
    unfolding s1 by (simp add: CurrentPreferences_def asst_read_def asst_stmt_def current_pref_def save_simps normalized_def
      NormalizePreferenceRoles_def)
  from save_then_current [OF x short_texts(5) c] x show ?thesis by blast
qed

theorem link_token_once_witness:
  "snd (ConfirmTelegramLink calm_asst (fst (ConfirmTelegramLink calm_asst example_asst ''t'' 7)) ''t'' 8) \<noteq> None"
proof -
  let ?first = "ConfirmTelegramLink calm_asst example_asst ''t'' 7"
  let ?second = "ConfirmTelegramLink calm_asst (fst ?first) ''t'' 8"
  have "snd ?first = None" by code_simp
  then have "?first = (fst ?first, None)" by (simp add: prod_eq_iff)
  from link_token_once [OF example_sound this rtranclp.rtrancl_refl, of 8 "fst ?second" "snd ?second"] show ?thesis by simp
qed

section \<open>Where the constraints show\<close>

text \<open>
  A specialization of JSON null passes the validation and is refused by the check of the column, so the caller
  gets a database error where other unsupported values get a validation error.
\<close>

lemma null_specialization_refused:
  assumes "NormalizePreferenceRoles p = Inr (p, False)" "validatePreferences (ae_marshal env) (ae_marshalWeights env) p = Inr docs"
    and "ae_jsonb env (fst docs) = Some h" "ae_object env h = Some c" "map_of c ''specialization'' = Some AnyNil"
    and "stored_request u (TrimSpace key) (db_data s) = None"
  shows "snd (SavePreferences env s u key p) = Inl (AsDb ''save assistant preferences'')"
proof -
  obtain f w where docs: "docs = (fst docs, f, w)" by (metis prod.collapse)
  have "save_pref env u (TrimSpace key) p docs (db_data s) uuid now (db_data s) = None" for uuid now
    using assms(3-6) by (subst docs) (auto simp: save_pref_def insert_pref_def pref_check_def Let_def split: option.splits)
  then show ?thesis using assms(1,2) by (simp add: SavePreferences_def asst_insert_def stmt_def Let_def)
qed

text \<open>
  Two requests of one user at the same time: the second waits for the lock with a snapshot in which the version of
  the first is missing, and fails on the unique index, with or without the same request key.
\<close>

lemma stale_save_refused:
  assumes "x \<in> set (tb_prefs d)" "vr_user x = u" "vr_version x = max_version u snap + 1"
    and "stored_request u key snap = None"
  shows "save_pref env u key p docs snap uuid now d = None"
proof -
  obtain h f w where "docs = (h, f, w)" by (metis prod_cases3)
  moreover have "insert_pref env r d = None" if "vr_user r = u" "vr_version r = max_version u snap + 1" for r
    using assms(1-3) that by (auto simp: insert_pref_def)
  ultimately show ?thesis using assms(4) by (simp add: save_pref_def Let_def split: option.splits)
qed

text \<open>A user without preferences who asks for an analysis is told that one is already running.\<close>

lemma no_preference_reported_running:
  assumes "current_pref u (db_data s) = None" "\<not> db_fails (ae_db env) (db_tick s)"
    and "\<forall>r \<in> set (tb_runs (db_data s)). rr_user r \<noteq> u"
  shows "snd (QueueAnalysis env s u req ai) = Inl (AsMessage ''analysis already running'')"
proof -
  have "List.find (\<lambda>r. rr_user r = u \<and> null_text req \<noteq> None \<and> rr_request r = null_text req) (tb_runs (db_data s)) = None"
    using assms(3) by (auto simp: find_None_iff)
  with assms show ?thesis by (simp add: QueueAnalysis_def asst_insert_def queue_run_def stmt_def Let_def)
qed

text \<open>When AI stays on, its activation time stays; switching it off clears the time.\<close>

lemma activation_kept:
  assumes "save_settings new now d = Some (d', z)" "row_of st_user (st_user new) (tb_settings d) = Some old" "settings_ok (tb_settings d)"
  shows "\<exists>r \<in> set (tb_settings d'). st_user r = st_user new \<and> st_ai r = st_ai new
     \<and> (st_ai new \<and> st_ai old \<longrightarrow> st_activation r = st_activation old) \<and> (\<not> st_ai new \<longrightarrow> st_activation r = None)"
proof -
  have old: "old \<in> set (tb_settings d)" "st_user old = st_user new" using row_of_Some [OF assms(2)] by auto
  then have "changed_settings now new old \<in> set (upsert st_user new (changed_settings now new) (tb_settings d))"
    by (auto simp: upsert_def image_iff)
  moreover have "tb_settings d' = upsert st_user new (changed_settings now new) (tb_settings d)"
    using assms(1) by (auto simp: save_settings_def Let_def split: if_splits)
  ultimately show ?thesis using old(2) by (intro bexI [of _ "changed_settings now new old"]) (auto simp: changed_settings_def)
qed

end
