(* ===== verification/Assist_Queue.thy ===== *)
theory Assist_Queue
  imports Assist_Store
begin

text \<open>
  The rest of the assistant's repository, \<^verbatim>\<open>libs/go-common/assistant/postgres.go\<close>: the pages of a snapshot,
  the claiming of work items, the results of the matcher and of the AI provider, the list of matches and the
  outbox of Telegram deliveries.

  One statement may ask for two changes of the same row (an item that is superseded and claimed, a delivery that
  is recovered and claimed); PostgreSQL makes one of them, and which one is not specified. \<open>ch\<close> chooses.
\<close>

section \<open>Candidates\<close>

definition page_limit :: "int \<Rightarrow> nat" where
  "page_limit n = (if n < 1 \<or> n > 100 then 25 else nat n)"

definition numeric_text :: "string \<Rightarrow> bool" where
  "numeric_text s \<longleftrightarrow> s \<noteq> '''' \<and> list_all (\<lambda>c. 48 \<le> byte_val c \<and> byte_val c \<le> 57) s"

text \<open>The rows of \<^verbatim>\<open>role_aliases\<close> are role, source, pattern; those of \<^verbatim>\<open>vacancy_role_scopes\<close> vacancy, role, scope.\<close>

definition role_patterns :: "asst_tables \<Rightarrow> string \<Rightarrow> string option \<Rightarrow> string list" where
  "role_patterns d source role =
     sort (remdups (map (\<lambda>(_, _, p). p) (filter (\<lambda>(r, s, p). Some r = role \<and> s = source \<and> numeric_text p) (tb_role_aliases d))))"

definition scope_patterns :: "asst_tables \<Rightarrow> vacancy_row \<Rightarrow> string list" where
  "scope_patterns d v =
     sort (remdups (concat (map (\<lambda>(w, r, sc). if w = xv_id v \<and> sc = ''vacancy_listing'' then role_patterns d (xv_source v) (Some r) else [])
       (tb_scopes d))))"

definition vacancy_skill_texts :: "asst_tables \<Rightarrow> vacancy_row \<Rightarrow> string list" where
  "vacancy_skill_texts d v =
     (let ids = map snd (filter (\<lambda>(w, _). w = xv_id v) (tb_vacancy_skills d));
          rows = filter (\<lambda>(i, _, _). List.member ids i) (tb_skills d)
      in sort (remdups (map (\<lambda>(_, slug, _). slug) rows)) @ sort (remdups (map (\<lambda>(_, _, name). name) rows)))"

text \<open>The grouped join yields a row per numeric alias of the role, one without an alias when there is none.\<close>

definition alias_rows :: "asst_tables \<Rightarrow> string \<Rightarrow> vacancy_row \<Rightarrow> (vacancy_row \<times> string option) list" where
  "alias_rows d source v =
     (case role_patterns d source (xv_role v) of [] \<Rightarrow> [(v, None)] | ps \<Rightarrow> map (\<lambda>p. (v, Some p)) ps)"

definition text_or_empty :: "string option \<Rightarrow> string" where
  "text_or_empty v = (case v of None \<Rightarrow> '''' | Some t \<Rightarrow> t)"

definition candidate_of :: "asst_tables \<Rightarrow> time \<Rightarrow> bool \<Rightarrow> vacancy_row \<times> string option \<Rightarrow> WorkerCandidate" where
  "candidate_of d created retry row =
     (case row of (v, alias) \<Rightarrow>
       \<lparr>wc_ID = xv_id v, wc_Source = xv_source v, wc_ExternalID = xv_external v, wc_Title = xv_title v,
        wc_SourceURL = text_or_empty (xv_url v),
        wc_Vacancy = \<lparr>av_ID = xv_id v, av_Title = xv_title v, av_RoleID = text_or_empty (if alias = None then xv_role v else alias),
          av_RegionID = text_or_empty (xv_region v), av_RoleIDs = scope_patterns d v, av_Description = text_or_empty (xv_description v),
          av_SalaryRUB = xv_mid v, av_Skills = vacancy_skill_texts d v, av_IsRemote = xv_remote v, av_PublishedAt = xv_published v,
          av_FirstObservedAt = None\<rparr>,
        wc_Description = text_or_empty (xv_description v), wc_DescriptionTruncated = xv_truncated v, wc_AIRetry = retry,
        wc_Revision = xv_revision v, wc_SalaryText = '''', wc_ObservedAt = xv_collected v, wc_CreatedAt = created\<rparr>)"

text \<open>A failed AI job of the run's preference that may be tried again.\<close>

definition ai_retry :: "asst_tables \<Rightarrow> string \<Rightarrow> string \<Rightarrow> vacancy_row \<Rightarrow> bool" where
  "ai_retry d u pref v \<longleftrightarrow> list_ex (\<lambda>j. jr_user j = u \<and> jr_preference j = pref \<and> jr_vacancy j = xv_id v
     \<and> jr_revision j = xv_revision v \<and> jr_status j = ''failed'' \<and> jr_error j = Some ''provider_failed'' \<and> jr_attempts j < 5) (tb_jobs d)"

text \<open>A row comparison with the cursor; a cursor without a vacancy id compares with NULL.\<close>

definition after_cursor :: "AssistantRun \<Rightarrow> vacancy_row \<Rightarrow> bool" where
  "after_cursor run v =
     (case rn_CursorCreatedAt run of
        None \<Rightarrow> True
      | Some t \<Rightarrow> if rn_CursorVacancyID run = '''' then t < xv_created v else (t, rn_CursorVacancyID run) < (xv_created v, xv_id v))"

definition snapshot_rows :: "AssistantRun \<Rightarrow> asst_tables \<Rightarrow> (vacancy_row \<times> string option) list" where
  "snapshot_rows run d =
     concat (map (\<lambda>v. alias_rows d (xv_source v) v)
       (sort_key (\<lambda>v. (xv_created v, xv_id v))
         (filter (\<lambda>v. in_snapshot d v \<and> xv_created v \<le> rn_SnapshotCutoff run
             \<and> (after_cursor run v \<or> ai_retry d (rn_UserID run) (rn_PreferenceID run) v)) (tb_vacancies d))))"

definition snapshot_page :: "AssistantRun \<Rightarrow> int \<Rightarrow> asst_tables \<Rightarrow> WorkerCandidate list" where
  "snapshot_page run n d =
     map (\<lambda>row. candidate_of d (xv_created (fst row)) (ai_retry d (rn_UserID run) (rn_PreferenceID run) (fst row)) row)
       (take (page_limit n) (snapshot_rows run d))"

definition SnapshotCandidates :: "asst_env \<Rightarrow> asst \<Rightarrow> AssistantRun \<Rightarrow> int \<Rightarrow> asst \<times> (asst_error + WorkerCandidate list)" where
  "SnapshotCandidates env s run n = asst_read env ''list assistant snapshot candidates'' (\<lambda>_. snapshot_page run n) s"

section \<open>Work items\<close>

definition item_lease :: duration where "item_lease = 10 * Minute"

definition item_expired :: "time \<Rightarrow> work_item \<Rightarrow> bool" where
  "item_expired now w \<longleftrightarrow> wq_status w = ''processing'' \<and> (case wq_lease w of None \<Rightarrow> False | Some t \<Rightarrow> t < now)"

definition item_stale :: "asst_tables \<Rightarrow> work_item \<Rightarrow> bool" where
  "item_stale d w \<longleftrightarrow> wq_status w \<in> {''pending'', ''failed''}
     \<and> list_ex (\<lambda>v. xv_source v = wq_source w \<and> xv_external v = wq_external w \<and> wq_revision w < xv_revision v) (tb_vacancies d)"

definition claimable_items :: "string \<Rightarrow> nat \<Rightarrow> time \<Rightarrow> asst_tables \<Rightarrow> work_item list" where
  "claimable_items source n now d =
     take n (sort_key (\<lambda>w. (wq_available w, wq_id w))
       (filter (\<lambda>w. wq_source w = source \<and> wq_status w \<in> {''pending'', ''failed''} \<and> wq_available w \<le> now) (tb_items d)))"

text \<open>The items a statement claims: those selected, less the ones it marks superseded instead.\<close>

definition claimed_items :: "(string \<Rightarrow> bool) \<Rightarrow> string \<Rightarrow> nat \<Rightarrow> time \<Rightarrow> asst_tables \<Rightarrow> work_item list" where
  "claimed_items ch source n now d = filter (\<lambda>w. item_stale d w \<longrightarrow> ch (wq_id w)) (claimable_items source n now d)"

definition recover_item :: "work_item \<Rightarrow> work_item" where
  "recover_item w = w\<lparr>wq_status := ''pending'', wq_lease := None, wq_claimed := None\<rparr>"

definition supersede_item :: "time \<Rightarrow> work_item \<Rightarrow> work_item" where
  "supersede_item now w = w\<lparr>wq_status := ''done'', wq_completed := Some now\<rparr>"

definition claim_item :: "time \<Rightarrow> work_item \<Rightarrow> work_item" where
  "claim_item now w = w\<lparr>wq_status := ''processing'', wq_lease := Some (now + item_lease), wq_claimed := Some ''assistant-worker''\<rparr>"

definition claim_step :: "(string \<Rightarrow> bool) \<Rightarrow> string \<Rightarrow> nat \<Rightarrow> time \<Rightarrow> asst_tables \<Rightarrow> work_item \<Rightarrow> work_item" where
  "claim_step ch source n now d w =
     (if item_expired now w then recover_item w
      else if List.member (map wq_id (claimed_items ch source n now d)) (wq_id w) then claim_item now w
      else if item_stale d w then supersede_item now w
      else w)"

text \<open>The vacancies of the claimed items: active, and at the revision of their item.\<close>

definition claimed_rows :: "work_item list \<Rightarrow> string \<Rightarrow> asst_tables \<Rightarrow> (vacancy_row \<times> string option) list" where
  "claimed_rows ws source d =
     concat (map (alias_rows d ''hh'')
       (sort_key (\<lambda>v. (xv_collected v, xv_external v))
         (filter (\<lambda>v. xv_source v = source \<and> xv_active v \<and> \<not> xv_deleted v
             \<and> list_ex (\<lambda>w. wq_source w = xv_source v \<and> wq_external w = xv_external v \<and> wq_revision w = xv_revision v) ws)
           (tb_vacancies d))))"

definition claim_items :: "(string \<Rightarrow> bool) \<Rightarrow> string \<Rightarrow> nat \<Rightarrow> time \<Rightarrow> asst_tables \<Rightarrow> (asst_tables \<times> WorkerCandidate list) option" where
  "claim_items ch source n now d =
     Some (d\<lparr>tb_items := map (claim_step ch source n now d) (tb_items d)\<rparr>,
           map (candidate_of d 0 False) (take n (claimed_rows (claimed_items ch source n now d) source d)))"


definition item_held :: "string \<Rightarrow> string \<Rightarrow> int \<Rightarrow> work_item \<Rightarrow> bool" where
  "item_held source external revn w \<longleftrightarrow> wq_source w = source \<and> wq_external w = external \<and> wq_revision w = max revn 1
     \<and> wq_status w = ''processing''"

text \<open>The check of the table: at most twenty attempts.\<close>

definition update_items :: "(work_item \<Rightarrow> bool) \<Rightarrow> (work_item \<Rightarrow> work_item) \<Rightarrow> asst_tables \<Rightarrow> (asst_tables \<times> unit) option" where
  "update_items P f d =
     (let ws = set_where P f (tb_items d) in
      if list_all (\<lambda>w. 0 \<le> wq_attempts w \<and> wq_attempts w \<le> 20) ws then Some (d\<lparr>tb_items := ws\<rparr>, ()) else None)"

definition CompleteWorkItem :: "asst_env \<Rightarrow> asst \<Rightarrow> string \<Rightarrow> string \<Rightarrow> int \<Rightarrow> asst \<times> asst_error option" where
  "CompleteWorkItem env s source external revn = done_or (asst_stmt env '''' (\<lambda>now. update_items (item_held source external revn)
     (\<lambda>w. w\<lparr>wq_status := ''done'', wq_completed := Some now, wq_lease := None\<rparr>)) s)"

text \<open>\<^verbatim>\<open>LEAST(300, 5 * (1 << LEAST(attempts, 5)))\<close> seconds\<close>

definition item_backoff :: "int \<Rightarrow> duration" where
  "item_backoff attempts = min 300 (5 * 2 ^ nat (min attempts 5)) * Second"

definition retried_item :: "string \<Rightarrow> time \<Rightarrow> work_item \<Rightarrow> work_item" where
  "retried_item errorCode now w =
     w\<lparr>wq_status := (if wq_attempts w + 1 \<ge> 5 then ''done'' else ''failed''), wq_attempts := min (wq_attempts w + 1) 20,
       wq_available := now + item_backoff (wq_attempts w), wq_error := Some errorCode,
       wq_dead := (if wq_attempts w + 1 \<ge> 5 then Some now else None), wq_lease := None, wq_claimed := None\<rparr>"

definition RetryWorkItem :: "asst_env \<Rightarrow> asst \<Rightarrow> string \<Rightarrow> string \<Rightarrow> int \<Rightarrow> string \<Rightarrow> asst \<times> asst_error option" where
  "RetryWorkItem env s source external revn errorCode =
     done_or (asst_stmt env '''' (\<lambda>now. update_items (item_held source external revn) (retried_item errorCode now)) s)"

definition DeferWorkItem :: "asst_env \<Rightarrow> asst \<Rightarrow> string \<Rightarrow> string \<Rightarrow> int \<Rightarrow> time \<Rightarrow> asst \<times> asst_error option" where
  "DeferWorkItem env s source external revn available = done_or (asst_stmt env '''' (\<lambda>_. update_items (item_held source external revn)
     (\<lambda>w. w\<lparr>wq_status := ''pending'', wq_available := available, wq_lease := None, wq_claimed := None\<rparr>)) s)"

section \<open>Results\<close>

definition match_key :: "match_row \<Rightarrow> string \<times> string \<times> string \<times> int \<times> string \<times> string \<times> string \<times> string \<times> string" where
  "match_key m = (mw_user m, mw_preference m, mw_vacancy m, mw_revision m, mw_method m, mw_ruleset m,
     text_or_empty (mw_provider m), text_or_empty (mw_model m), text_or_empty (mw_prompt m))"

definition match_check :: "asst_tables \<Rightarrow> match_row \<Rightarrow> bool" where
  "match_check d m \<longleftrightarrow> mw_decision m \<in> {''match'', ''reject'', ''review''} \<and> mw_method m \<in> {''deterministic'', ''ai''}
     \<and> 0 \<le> mw_score m \<and> mw_score m \<le> 1
     \<and> (case mw_confidence m of None \<Rightarrow> True | Some c \<Rightarrow> c \<in> {''low'', ''medium'', ''high''}) \<and> mw_revision m > 0
     \<and> mw_user m \<in> fst ` set (tb_users d) \<and> mw_vacancy m \<in> xv_id ` set (tb_vacancies d)
     \<and> (case mw_run m of None \<Rightarrow> True | Some r \<Rightarrow> r \<in> rr_id ` set (tb_runs d))"

text \<open>An absent hash is the empty text. A stored result keeps its confidence unless the new one is from the provider.\<close>

definition merge_match :: "bool \<Rightarrow> match_row \<Rightarrow> match_row \<Rightarrow> match_row" where
  "merge_match withConfidence new old =
     old\<lparr>mw_run := (if mw_run new = None then mw_run old else mw_run new), mw_decision := mw_decision new, mw_score := mw_score new,
       mw_confidence := (if withConfidence then mw_confidence new else mw_confidence old), mw_rationale := mw_rationale new,
       mw_evidence := mw_evidence new, mw_conflicts := mw_conflicts new, mw_unknowns := mw_unknowns new,
       mw_hash := (if mw_hash new = '''' then mw_hash old else mw_hash new)\<rparr>"

definition put_match :: "bool \<Rightarrow> match_row \<Rightarrow> asst_tables \<Rightarrow> asst_tables option" where
  "put_match withConfidence new d =
     (if match_check d new then Some (d\<lparr>tb_matches := upsert match_key new (merge_match withConfidence new) (tb_matches d)\<rparr>) else None)"

definition version_of :: "string \<Rightarrow> int \<Rightarrow> asst_tables \<Rightarrow> pref_row option" where
  "version_of u n d = List.find (\<lambda>r. vr_user r = u \<and> vr_version r = n) (tb_prefs d)"

definition match_row_of :: "WorkerMatch \<Rightarrow> string \<Rightarrow> time \<Rightarrow> match_row" where
  "match_row_of m pref now =
     \<lparr>mw_user = wm_UserID m, mw_preference = pref, mw_vacancy = wm_VacancyID m, mw_revision = max (wm_VacancyRevision m) 1,
      mw_method = (if wm_Method m = '''' then ''deterministic'' else wm_Method m), mw_ruleset = SpecializationRulesVersion,
      mw_provider = null_text (wm_Provider m), mw_model = null_text (wm_Model m), mw_prompt = null_text (wm_PromptVersion m),
      mw_decision = re_Decision (wm_Result m), mw_score = numeric_scale 4 (re_Score (wm_Result m)), mw_confidence = None,
      mw_rationale = Join (re_Reasons (wm_Result m)) ''; '', mw_evidence = re_Evidence (wm_Result m),
      mw_conflicts = re_Conflicts (wm_Result m), mw_unknowns = re_Unknowns (wm_Result m), mw_hash = wm_InputSnapshotHash m,
      mw_run = null_text (wm_RunID m), mw_created = now\<rparr>"

text \<open>Nothing is returned when the user has no version of that number, which the scan reports as an error.\<close>

definition save_match :: "WorkerMatch \<Rightarrow> time \<Rightarrow> asst_tables \<Rightarrow> (asst_tables \<times> bool) option" where
  "save_match m now d =
     (case version_of (wm_UserID m) (wm_PreferenceVersion m) d of
        None \<Rightarrow> None
      | Some p \<Rightarrow>
          (let new = match_row_of m (vr_id p) now in
           map_option (\<lambda>d'. (d', match_key new \<notin> match_key ` set (tb_matches d))) (put_match False new d)))"

definition SaveMatch :: "asst_env \<Rightarrow> asst \<Rightarrow> WorkerMatch \<Rightarrow> asst \<times> (asst_error + bool)" where
  "SaveMatch env s m = asst_stmt env ''save assistant match'' (save_match m) s"

definition job_key :: "job_row \<Rightarrow> string \<times> string \<times> string \<times> int \<times> string" where
  "job_key j = (jr_user j, jr_preference j, jr_vacancy j, jr_revision j, jr_ruleset j)"

text \<open>At most five attempts of a job, by the check of the table.\<close>

definition job_check :: "asst_tables \<Rightarrow> job_row \<Rightarrow> bool" where
  "job_check d j \<longleftrightarrow> 0 \<le> jr_attempts j \<and> jr_attempts j \<le> 5 \<and> jr_revision j > 0
     \<and> jr_user j \<in> fst ` set (tb_users d) \<and> jr_vacancy j \<in> xv_id ` set (tb_vacancies d)"

definition put_job :: "job_row \<Rightarrow> (job_row \<Rightarrow> job_row) \<Rightarrow> asst_tables \<Rightarrow> asst_tables option" where
  "put_job new change d =
     (let js = upsert job_key new change (tb_jobs d) in
      if list_all (job_check d) js \<and> job_check d new then Some (d\<lparr>tb_jobs := js\<rparr>) else None)"

definition new_job :: "WorkerMatch \<Rightarrow> string \<Rightarrow> string \<Rightarrow> string option \<Rightarrow> time \<Rightarrow> job_row" where
  "new_job m pref status err now =
     \<lparr>jr_user = wm_UserID m, jr_preference = pref, jr_vacancy = wm_VacancyID m, jr_revision = max (wm_VacancyRevision m) 1,
      jr_ruleset = SpecializationRulesVersion, jr_status = status, jr_attempts = 1, jr_provider = wm_Provider m,
      jr_model = wm_Model m, jr_hash = wm_InputSnapshotHash m, jr_error = err, jr_finished = now\<rparr>"

text \<open>A statement for the version of a match; without such a version it inserts nothing.\<close>

definition for_version :: "WorkerMatch \<Rightarrow> (string \<Rightarrow> asst_tables \<Rightarrow> asst_tables option) \<Rightarrow> asst_tables \<Rightarrow> (asst_tables \<times> unit) option" where
  "for_version m f d =
     (case version_of (wm_UserID m) (wm_PreferenceVersion m) d of
        None \<Rightarrow> Some (d, ())
      | Some p \<Rightarrow> map_option (\<lambda>d'. (d', ())) (f (vr_id p) d))"


definition answer_row :: "WorkerMatch \<Rightarrow> MatchOutput \<Rightarrow> string \<Rightarrow> time \<Rightarrow> match_row" where
  "answer_row m out pref now =
     (match_row_of m pref now)\<lparr>mw_method := ''ai'', mw_provider := Some (wm_Provider m), mw_model := Some (wm_Model m),
       mw_prompt := Some (wm_PromptVersion m), mw_decision := mo_Decision out, mw_score := numeric_scale 4 (mo_Score out),
       mw_confidence := Some (mo_Confidence out), mw_rationale := mo_Rationale out, mw_evidence := mo_Evidence out,
       mw_conflicts := mo_Conflicts out, mw_unknowns := mo_Unknowns out\<rparr>"


definition fail_job :: "WorkerMatch \<Rightarrow> string \<Rightarrow> time \<Rightarrow> asst_tables \<Rightarrow> (asst_tables \<times> unit) option" where
  "fail_job m errorCode now = for_version m (\<lambda>pref.
     put_job (new_job m pref ''failed'' (Some errorCode) now)
       (\<lambda>j. j\<lparr>jr_status := ''failed'', jr_attempts := min (jr_attempts j + 1) 5, jr_error := Some errorCode, jr_finished := now\<rparr>))"

definition SaveAIFailure :: "asst_env \<Rightarrow> asst \<Rightarrow> WorkerMatch \<Rightarrow> string \<Rightarrow> asst \<times> asst_error option" where
  "SaveAIFailure env s m errorCode = done_or (asst_stmt env '''' (fail_job m errorCode) s)"

definition analyzed :: "string \<Rightarrow> int \<Rightarrow> string \<Rightarrow> int \<Rightarrow> asst_tables \<Rightarrow> bool" where
  "analyzed u version vacancy revn d \<longleftrightarrow>
     (\<exists>m \<in> set (tb_matches d). \<exists>p \<in> set (tb_prefs d). vr_id p = mw_preference m \<and> vr_version p = version \<and> mw_user m = u
        \<and> mw_vacancy m = vacancy \<and> mw_revision m = max revn 1 \<and> mw_method m = ''ai'' \<and> mw_ruleset m = SpecializationRulesVersion)
     \<or> (\<exists>j \<in> set (tb_jobs d). \<exists>p \<in> set (tb_prefs d). vr_id p = jr_preference j \<and> vr_version p = version \<and> jr_user j = u
        \<and> jr_vacancy j = vacancy \<and> jr_revision j = max revn 1 \<and> jr_status j = ''failed'' \<and> jr_attempts j \<ge> 5
        \<and> jr_ruleset j = SpecializationRulesVersion)"


text \<open>Lexicographic, so a cursor never moves back.\<close>

definition advance_cursor :: "string \<Rightarrow> time \<Rightarrow> string \<Rightarrow> asst_tables \<Rightarrow> asst_tables" where
  "advance_cursor source at_time external d =
     d\<lparr>tb_cursors := upsert fst (source, at_time, external)
        (\<lambda>c. if snd c < (at_time, external) then (fst c, at_time, external) else c) (tb_cursors d)\<rparr>"

definition AdvanceCursor :: "asst_env \<Rightarrow> asst \<Rightarrow> string \<Rightarrow> time \<Rightarrow> string \<Rightarrow> asst \<times> asst_error option" where
  "AdvanceCursor env s source at_time external =
     done_or (asst_stmt env '''' (\<lambda>_ d. Some (advance_cursor source at_time external d, ())) s)"

section \<open>The list of matches\<close>

definition text_prefixed :: "string list \<Rightarrow> string \<Rightarrow> bool" where
  "text_prefixed values pre = list_ex (\<lambda>v. HasPrefix v pre) values"

definition ai_labels :: "(string \<times> string) list" where
  "ai_labels =
    [(''criterion:specialization:'', ''Frontend '' @ ru ''podtverjd6n''),
     (''criterion:required_skill:react:'', ''React '' @ ru ''podtverjd6n qvno''),
     (''criterion:remote:'', ru ''Udal6nn3y format podtverjd6n''),
     (''criterion:leadership:'', ru ''Rukovodq5aq rol8 iskl04ena'')]"

definition review_reasons :: "(string \<times> string) list" where
  "review_reasons =
    [(''remote'', ru ''Udal6nn3y format neizvesten''), (''role'', ru ''Oficial8naq rol8 ne podtverjdena''),
     (''specialization'', ru ''Specializaciq neqsna''),
     (''specialization_description_only'', ru ''Specializaciq tol8ko iz opisaniq''),
     (''required_skill:React'', ru ''Qvn3y '' @ ''React '' @ ru ''ne podtverjd6n v '' @ ''title/'' @ ru ''nav3kah''),
     (''required_skill:react'', ru ''Qvn3y '' @ ''React '' @ ru ''ne podtverjd6n v '' @ ''title/'' @ ru ''nav3kah'')]"

definition unknown_reason :: "string \<Rightarrow> string list" where
  "unknown_reason v =
     (case map_of review_reasons v of
        Some t \<Rightarrow> [t]
      | None \<Rightarrow> if HasPrefix v ''required_skill:'' then [ru ''Obqzatel8n3y nav3k ne podtverjd6n qvno''] else [])"

definition safeMatchReasons :: "string \<Rightarrow> string list \<Rightarrow> string list \<Rightarrow> string list \<Rightarrow> string list" where
  "safeMatchReasons kind evidence conflicts unknowns =
     (if kind = ''ai'' then
        (let rs = map snd (filter (\<lambda>(p, _). text_prefixed evidence p) ai_labels) in
         if rs \<noteq> [] then rs else [''AI '' @ ru ''podtverdil '' @ ''hard-'' @ ru ''kriterii''])
      else
        (let rs = concat (map unknown_reason unknowns)
                  @ (if text_prefixed evidence ''specialization:'' then [ru ''Specializaciq podtverjdena''] else [])
         in if rs \<noteq> [] then rs
            else if conflicts = [] then [ru ''Predvaritel8no podhodit po fil8tram'']
            else []))"

definition splitRationale :: "string \<Rightarrow> string list" where
  "splitRationale v = (if TrimSpace v = '''' then [] else [v])"

text \<open>A result counts unless its run is gone from the list of results: superseded, disabled or failed.\<close>

definition run_counts :: "asst_tables \<Rightarrow> string \<Rightarrow> match_row \<Rightarrow> bool" where
  "run_counts d pref m \<longleftrightarrow>
     (case mw_run m of
        None \<Rightarrow> True
      | Some i \<Rightarrow> list_ex (\<lambda>r. rr_id r = i \<and> rr_preference r = pref \<and> rr_ruleset r = SpecializationRulesVersion
          \<and> rr_state r \<notin> {''superseded'', ''disabled'', ''failed''}) (tb_runs d))"

definition hard_rejected :: "asst_tables \<Rightarrow> match_row \<Rightarrow> bool" where
  "hard_rejected d m \<longleftrightarrow> list_ex (\<lambda>h. mw_user h = mw_user m \<and> mw_preference h = mw_preference m \<and> mw_vacancy h = mw_vacancy m
     \<and> mw_revision h = mw_revision m \<and> mw_ruleset h = SpecializationRulesVersion \<and> mw_decision h = ''reject'') (tb_matches d)"

definition match_scope :: "string \<Rightarrow> string \<Rightarrow> asst_tables \<Rightarrow> match_row list" where
  "match_scope u pref d = filter (\<lambda>m. mw_user m = u \<and> mw_preference m = pref \<and> mw_ruleset m = SpecializationRulesVersion
     \<and> mw_decision m \<in> {''match'', ''review''} \<and> run_counts d pref m \<and> \<not> hard_rejected d m
     \<and> row_of xv_id (mw_vacancy m) (tb_vacancies d) \<noteq> None) (tb_matches d)"

text \<open>The rank inside a vacancy: matches first, then the provider's, then the latest.\<close>

definition match_rank :: "match_row \<Rightarrow> nat \<times> nat \<times> time" where
  "match_rank m = (if mw_decision m = ''match'' then 0 else 1, if mw_method m = ''ai'' then 0 else 1, - mw_created m)"

fun best_match :: "match_row list \<Rightarrow> match_row option" where
  "best_match [] = None"
| "best_match (m # ms) = (case best_match ms of None \<Rightarrow> Some m | Some x \<Rightarrow> Some (if match_rank x < match_rank m then x else m))"

definition ranked_matches :: "string \<Rightarrow> string \<Rightarrow> asst_tables \<Rightarrow> match_row list" where
  "ranked_matches u pref d =
     (let ms = match_scope u pref d in
      sort_key (\<lambda>m. (fst (match_rank m), mw_vacancy m))
        (List.map_filter (\<lambda>v. best_match (filter (\<lambda>m. mw_vacancy m = v) ms)) (remdups (map mw_vacancy ms))))"

definition match_record :: "asst_tables \<Rightarrow> match_row \<Rightarrow> MatchRecord" where
  "match_record d m =
     \<lparr>mr_VacancyID = mw_vacancy m,
      mr_Title = (case row_of xv_id (mw_vacancy m) (tb_vacancies d) of None \<Rightarrow> '''' | Some v \<Rightarrow> xv_title v),
      mr_SourceURL = (case row_of xv_id (mw_vacancy m) (tb_vacancies d) of None \<Rightarrow> None | Some v \<Rightarrow> xv_url v),
      mr_Decision = mw_decision m, mr_Score = mw_score m, mr_Method = mw_method m,
      mr_Stage = (if mw_method m = ''ai'' \<and> mw_decision m = ''match'' then ''confirmed'' else ''preliminary''),
      mr_Confidence = mw_confidence m,
      mr_Reasons = safeMatchReasons (mw_method m) (mw_evidence m) (mw_conflicts m) (mw_unknowns m),
      mr_Unknowns = mw_unknowns m, mr_Conflicts = mw_conflicts m, mr_Evidence = mw_evidence m\<rparr>"

definition match_list :: "string \<Rightarrow> int \<Rightarrow> asst_tables \<Rightarrow> MatchRecord list" where
  "match_list u n d =
     (case current_pref u d of
        None \<Rightarrow> []
      | Some p \<Rightarrow> map (match_record d) (take (if n < 1 \<or> n > 100 then 50 else nat n) (ranked_matches u (vr_id p) d)))"

definition ListMatches :: "asst_env \<Rightarrow> asst \<Rightarrow> string \<Rightarrow> int \<Rightarrow> asst \<times> (asst_error + MatchRecord list)" where
  "ListMatches env s u n = asst_read env ''list assistant matches'' (\<lambda>_. match_list u n) s"

section \<open>Deliveries\<close>

text \<open>A delivery per user, version and vacancy; a second one is not created, and no version gives none.\<close>

definition save_delivery :: "WorkerDelivery \<Rightarrow> string \<Rightarrow> time \<Rightarrow> asst_tables \<Rightarrow> (asst_tables \<times> nat) option" where
  "save_delivery w uuid now d =
     (case version_of (wd_UserID w) (wd_PreferenceVersion w) d of
        None \<Rightarrow> Some (d, 0)
      | Some p \<Rightarrow>
          if list_ex (\<lambda>r. dr_user r = wd_UserID w \<and> dr_preference r = vr_id p \<and> dr_vacancy r = wd_VacancyID w) (tb_deliveries d)
          then Some (d, 0)
          else if wd_VacancyID w \<notin> xv_id ` set (tb_vacancies d) \<or> uuid \<in> dr_id ` set (tb_deliveries d) then None
          else Some (d\<lparr>tb_deliveries := tb_deliveries d @
             [\<lparr>dr_id = uuid, dr_user = wd_UserID w, dr_preference = vr_id p, dr_vacancy = wd_VacancyID w, dr_status = ''pending'',
               dr_attempts = 0, dr_next = None, dr_cooldown = None, dr_lease = None, dr_claimed = None, dr_dead = None,
               dr_sent = None, dr_message = None, dr_error = None, dr_created = now\<rparr>]\<rparr>, 1))"

definition SaveDelivery :: "asst_env \<Rightarrow> asst \<Rightarrow> WorkerDelivery \<Rightarrow> asst \<times> (asst_error + bool)" where
  "SaveDelivery env s w =
     (case asst_insert env ''save telegram delivery'' (save_delivery w) s of
        (s, Inl e) \<Rightarrow> (s, Inl e) | (s, Inr n) \<Rightarrow> (s, Inr (n = 1)))"

definition is_due :: "time \<Rightarrow> time option \<Rightarrow> bool" where
  "is_due now t \<longleftrightarrow> (case t of None \<Rightarrow> True | Some u \<Rightarrow> u \<le> now)"

text \<open>The provider's matches a delivery may be sent for.\<close>

definition delivery_matches :: "asst_tables \<Rightarrow> delivery_row \<Rightarrow> match_row list" where
  "delivery_matches d r = filter (\<lambda>m. mw_user m = dr_user r \<and> mw_vacancy m = dr_vacancy r \<and> mw_preference m = dr_preference r
     \<and> mw_decision m = ''match'' \<and> mw_method m = ''ai'' \<and> mw_ruleset m = SpecializationRulesVersion) (tb_matches d)"

definition run_deliverable :: "asst_tables \<Rightarrow> match_row \<Rightarrow> bool" where
  "run_deliverable d m \<longleftrightarrow>
     (case mw_run m of
        None \<Rightarrow> True
      | Some i \<Rightarrow> list_ex (\<lambda>r. rr_id r = i \<and> rr_ruleset r = SpecializationRulesVersion
          \<and> rr_state r \<notin> {''superseded'', ''disabled'', ''failed''}) (tb_runs d))"

definition deliverable :: "time \<Rightarrow> asst_tables \<Rightarrow> delivery_row \<Rightarrow> bool" where
  "deliverable now d r \<longleftrightarrow> may_notify (dr_user r) d
     \<and> list_ex (\<lambda>a. st_user a = dr_user r \<and> st_telegram a) (tb_settings d)
     \<and> list_ex (run_deliverable d) (delivery_matches d r)
     \<and> map_option vr_id (current_pref (dr_user r) d) = Some (dr_preference r)
     \<and> dr_status r \<in> {''pending'', ''failed''} \<and> dr_dead r = None \<and> is_due now (dr_next r) \<and> is_due now (dr_cooldown r)"

text \<open>The first deliveries that are due; whether they may be sent is asked afterwards. No lease is looked at.\<close>

definition picked_deliveries :: "nat \<Rightarrow> time \<Rightarrow> asst_tables \<Rightarrow> delivery_row list" where
  "picked_deliveries n now d =
     take n (sort_key (\<lambda>r. (dr_created r, dr_id r))
       (filter (\<lambda>r. dr_status r \<in> {''pending'', ''failed''} \<and> dr_dead r = None \<and> is_due now (dr_next r)) (tb_deliveries d)))"

definition delivery_expired :: "time \<Rightarrow> delivery_row \<Rightarrow> bool" where
  "delivery_expired now r \<longleftrightarrow> dr_status r \<in> {''pending'', ''failed''} \<and> (case dr_lease r of None \<Rightarrow> False | Some t \<Rightarrow> t < now)"

definition claimed_deliveries :: "(string \<Rightarrow> bool) \<Rightarrow> nat \<Rightarrow> time \<Rightarrow> asst_tables \<Rightarrow> delivery_row list" where
  "claimed_deliveries ch n now d =
     filter (\<lambda>r. deliverable now d r \<and> (delivery_expired now r \<longrightarrow> ch (dr_id r))) (picked_deliveries n now d)"

definition claim_delivery :: "string \<Rightarrow> duration \<Rightarrow> time \<Rightarrow> delivery_row \<Rightarrow> delivery_row" where
  "claim_delivery worker lease now r =
     r\<lparr>dr_status := ''failed'', dr_lease := Some (now + lease), dr_claimed := Some worker, dr_attempts := dr_attempts r + 1\<rparr>"

definition delivery_step :: "(string \<Rightarrow> bool) \<Rightarrow> string \<Rightarrow> nat \<Rightarrow> duration \<Rightarrow> time \<Rightarrow> asst_tables \<Rightarrow> delivery_row \<Rightarrow> delivery_row" where
  "delivery_step ch worker n lease now d r =
     (if List.member (map dr_id (claimed_deliveries ch n now d)) (dr_id r) then claim_delivery worker lease now r
      else if delivery_expired now r then r\<lparr>dr_status := ''pending'', dr_lease := None, dr_claimed := None\<rparr>
      else r)"

text \<open>One row per claimed delivery and result of the provider for it.\<close>

definition chat_of :: "string \<Rightarrow> asst_tables \<Rightarrow> int option" where
  "chat_of u d = (case List.find (\<lambda>c. cx_user c = u \<and> linked c \<and> cx_opted c) (tb_connections d) of None \<Rightarrow> None | Some c \<Rightarrow> cx_chat c)"

definition delivery_of :: "asst_tables \<Rightarrow> delivery_row \<Rightarrow> match_row \<Rightarrow> asst_error + Delivery" where
  "delivery_of d r m =
     (case (row_of xv_id (dr_vacancy r) (tb_vacancies d), chat_of (dr_user r) d) of
        (Some v, Some chat) \<Rightarrow>
          (case xv_url v of
             None \<Rightarrow> Inl (AsDecode '''')
           | Some url \<Rightarrow> Inr
               \<lparr>dl_ID = dr_id r, dl_UserID = dr_user r, dl_VacancyID = dr_vacancy r, dl_Title = xv_title v,
                dl_Salary = (case (xv_from v, xv_to v) of
                   (Some lo, Some hi) \<Rightarrow> format_f0 lo @ encode_rune 8211 @ format_f0 hi @ '' '' @ encode_rune 8381 | _ \<Rightarrow> ''''),
                dl_SourceURL = url, dl_ChatID = chat, dl_Score = mw_score m, dl_Confidence = text_or_empty (mw_confidence m),
                dl_Reasons = splitRationale (mw_rationale m), dl_Attempts = dr_attempts r + 1\<rparr>)
      | _ \<Rightarrow> Inl (AsDecode ''''))"

definition claim_deliveries :: "(string \<Rightarrow> bool) \<Rightarrow> string \<Rightarrow> nat \<Rightarrow> duration \<Rightarrow> time \<Rightarrow> asst_tables
    \<Rightarrow> (asst_tables \<times> (asst_error + Delivery) list) option" where
  "claim_deliveries ch worker n lease now d =
     Some (d\<lparr>tb_deliveries := map (delivery_step ch worker n lease now d) (tb_deliveries d)\<rparr>,
           concat (map (\<lambda>r. map (delivery_of d r) (delivery_matches d r)) (claimed_deliveries ch n now d)))"


definition MarkDeliverySent :: "asst_env \<Rightarrow> asst \<Rightarrow> string \<Rightarrow> int \<Rightarrow> asst \<times> asst_error option" where
  "MarkDeliverySent env s i messageID = done_or (asst_stmt env '''' (\<lambda>now d. Some (d\<lparr>tb_deliveries :=
     set_where (\<lambda>r. dr_id r = i \<and> dr_dead r = None) (\<lambda>r. r\<lparr>dr_status := ''sent'', dr_message := Some messageID, dr_sent := Some now,
       dr_lease := None, dr_claimed := None, dr_error := None\<rparr>) (tb_deliveries d)\<rparr>, ())) s)"

definition asst_truncate :: "string \<Rightarrow> nat \<Rightarrow> string" where
  "asst_truncate v n = (if n = 0 then '''' else if length (runes v) \<le> n then v else encode (take n (runes v)))"

definition MarkDeliveryFailed :: "asst_env \<Rightarrow> asst \<Rightarrow> string \<Rightarrow> string \<Rightarrow> time \<Rightarrow> bool \<Rightarrow> asst \<times> asst_error option" where
  "MarkDeliveryFailed env s i lastError next_at dead = done_or (asst_stmt env '''' (\<lambda>now d. Some (d\<lparr>tb_deliveries :=
     set_where (\<lambda>r. dr_id r = i) (\<lambda>r. r\<lparr>dr_status := ''failed'', dr_error := Some (asst_truncate lastError 500), dr_next := Some next_at,
       dr_dead := (if dead then Some now else dr_dead r), dr_lease := None, dr_claimed := None\<rparr>) (tb_deliveries d)\<rparr>, ())) s)"

section \<open>Claiming work\<close>

lemma claimable_in:
  "w \<in> set (claimable_items source n now d) \<Longrightarrow>
    w \<in> set (tb_items d) \<and> wq_source w = source \<and> wq_status w \<in> {''pending'', ''failed''} \<and> wq_available w \<le> now"
  by (auto simp: claimable_items_def dest!: in_set_takeD)

lemma claimed_in: "w \<in> set (claimed_items ch source n now d) \<Longrightarrow> w \<in> set (claimable_items source n now d)"
  by (simp add: claimed_items_def)

lemma claimed_step:
  assumes "w \<in> set (claimed_items ch source n now d)"
  shows "claim_step ch source n now d w = claim_item now w"
proof -
  have "\<not> item_expired now w" using claimable_in [OF claimed_in [OF assms]] by (auto simp: item_expired_def)
  moreover have "List.member (map wq_id (claimed_items ch source n now d)) (wq_id w)" using assms by auto
  ultimately show ?thesis by (simp add: claim_step_def)
qed

text \<open>An item under a lease that has not run out is left as it is.\<close>

lemma held_step:
  assumes "distinct (map wq_id (tb_items d))" "w \<in> set (tb_items d)" "wq_status w = ''processing''"
    and "wq_lease w = Some t" "now \<le> t"
  shows "claim_step ch source n now d w = w"
proof -
  have "\<not> List.member (map wq_id (claimed_items ch source n now d)) (wq_id w)"
  proof
    assume "List.member (map wq_id (claimed_items ch source n now d)) (wq_id w)"
    then obtain x where x: "x \<in> set (claimed_items ch source n now d)" "wq_id x = wq_id w" by auto
    with claimable_in [OF claimed_in [OF x(1)]] assms(1-3) have "x = w" by (auto simp: distinct_map inj_on_def)
    with claimable_in [OF claimed_in [OF x(1)]] assms(3) show False by auto
  qed
  with assms(3-5) show ?thesis by (simp add: claim_step_def item_expired_def item_stale_def)
qed

lemma alias_rows_fst: "r \<in> set (alias_rows d source v) \<Longrightarrow> fst r = v"
  by (auto simp: alias_rows_def split: list.splits)

lemma candidate_of_fields:
  "wc_Source (candidate_of d t b r) = xv_source (fst r)" "wc_ExternalID (candidate_of d t b r) = xv_external (fst r)"
  "wc_Revision (candidate_of d t b r) = xv_revision (fst r)" "wc_ID (candidate_of d t b r) = xv_id (fst r)"
  "wc_CreatedAt (candidate_of d t b r) = t" "wc_AIRetry (candidate_of d t b r) = b"
  by (simp_all add: candidate_of_def split: prod.splits)

text \<open>The item a candidate is answered for.\<close>

definition is_item :: "WorkerCandidate \<Rightarrow> work_item \<Rightarrow> bool" where
  "is_item c w \<longleftrightarrow> wq_source w = wc_Source c \<and> wq_external w = wc_ExternalID c \<and> wq_revision w = wc_Revision c"

lemma claimed_rows_item:
  assumes "r \<in> set (claimed_rows ws source d)"
  shows "fst r \<in> set (tb_vacancies d) \<and> xv_active (fst r) \<and> \<not> xv_deleted (fst r)
     \<and> (\<exists>w \<in> set ws. wq_source w = xv_source (fst r) \<and> wq_external w = xv_external (fst r) \<and> wq_revision w = xv_revision (fst r))"
  using assms by (auto simp: claimed_rows_def list_ex_iff dest!: alias_rows_fst)





text \<open>
  The retries of a work item: each waits twice as long as the one before, from five seconds to eighty, and the
  fifth failure ends the item as a dead letter.
\<close>

theorem work_item_retries:
  assumes "wq_attempts w = 0" "1 \<le> k" "k \<le> 5"
  shows "wq_attempts ((retried_item e now ^^ k) w) = int k
     \<and> wq_available ((retried_item e now ^^ k) w) = now + 5 * 2 ^ (k - 1) * Second
     \<and> wq_status ((retried_item e now ^^ k) w) = (if k < 5 then ''failed'' else ''done'')
     \<and> wq_dead ((retried_item e now ^^ k) w) = (if k < 5 then None else Some now)"
proof -
  have "k \<in> {1, 2, 3, 4, 5}" using assms(2,3) by auto
  then show ?thesis using assms(1) by (auto simp: retried_item_def item_backoff_def eval_nat_numeral)
qed

section \<open>Paying for an analysis once\<close>







lemma ai_given_up:
  assumes "j \<in> set (tb_jobs d)" "p \<in> set (tb_prefs d)" "vr_id p = jr_preference j" "jr_status j = ''failed''" "jr_attempts j \<ge> 5"
    and "jr_ruleset j = SpecializationRulesVersion" "jr_revision j = max revn 1"
  shows "analyzed (jr_user j) (vr_version p) (jr_vacancy j) revn d"
  using assms unfolding analyzed_def by blast

section \<open>Deliveries\<close>






definition delivery_key :: "delivery_row \<Rightarrow> string \<times> string \<times> string" where
  "delivery_key r = (dr_user r, dr_preference r, dr_vacancy r)"

lemma save_delivery_cases:
  assumes "save_delivery w uuid now d = Some (d', n)"
  obtains (none) "d' = d" "n = 0"
    | (added) p r where "d' = d\<lparr>tb_deliveries := tb_deliveries d @ [r]\<rparr>" "version_of (wd_UserID w) (wd_PreferenceVersion w) d = Some p"
        "delivery_key r = (wd_UserID w, vr_id p, wd_VacancyID w)" "delivery_key r \<notin> delivery_key ` set (tb_deliveries d)" "n = 1"
proof (cases "version_of (wd_UserID w) (wd_PreferenceVersion w) d")
  case None
  then show ?thesis using assms none by (simp add: save_delivery_def)
next
  case (Some p)
  show ?thesis
  proof (cases "(wd_UserID w, vr_id p, wd_VacancyID w) \<in> delivery_key ` set (tb_deliveries d)")
    case True
    then have "list_ex (\<lambda>r. dr_user r = wd_UserID w \<and> dr_preference r = vr_id p \<and> dr_vacancy r = wd_VacancyID w) (tb_deliveries d)"
      by (auto simp: list_ex_iff delivery_key_def)
    with Some assms none show ?thesis by (simp add: save_delivery_def)
  next
    case False
    then have "\<not> list_ex (\<lambda>r. dr_user r = wd_UserID w \<and> dr_preference r = vr_id p \<and> dr_vacancy r = wd_VacancyID w) (tb_deliveries d)"
      by (auto simp: list_ex_iff delivery_key_def image_iff)
    then show ?thesis using Some assms False by (intro added [of _ p]) (auto simp: save_delivery_def delivery_key_def split: if_splits)
  qed
qed

lemma save_delivery_keys:
  assumes "save_delivery w uuid now d = Some (d', n)" "distinct (map delivery_key (tb_deliveries d))"
  shows "distinct (map delivery_key (tb_deliveries d'))"
  using assms by (elim save_delivery_cases) auto

text \<open>
  A match is announced once: there is never more than one delivery of a vacancy to a user for a version of the
  preferences, and the second request for one creates nothing.
\<close>

theorem delivery_once:
  assumes "SaveDelivery env s w = (s1, Inr created)" and "db_data s2 = db_data s1" and "SaveDelivery env s2 w = (s3, Inr again)"
    and "distinct (map delivery_key (tb_deliveries (db_data s)))"
  shows "distinct (map delivery_key (tb_deliveries (db_data s1))) \<and> \<not> again \<and> db_data s3 = db_data s2"
proof -
  obtain n where n: "asst_insert env ''save telegram delivery'' (save_delivery w) s = (s1, Inr n)"
    using assms(1) by (auto simp: SaveDelivery_def split: prod.splits sum.splits)
  obtain k where k: "asst_insert env ''save telegram delivery'' (save_delivery w) s2 = (s3, Inr k)" "again = (k = 1)"
    using assms(3) by (auto simp: SaveDelivery_def split: prod.splits sum.splits)
  note q = asst_insert_ok [OF n]
  have prefs: "tb_prefs (db_data s1) = tb_prefs (db_data s)"
    using q by (cases rule: save_delivery_cases) simp_all
  have "k = 0 \<and> db_data s3 = db_data s2"
  proof (cases "version_of (wd_UserID w) (wd_PreferenceVersion w) (db_data s)")
    case None
    then have "version_of (wd_UserID w) (wd_PreferenceVersion w) (db_data s2) = None" by (simp add: version_of_def assms(2) prefs)
    with asst_insert_ok [OF k(1)] show ?thesis by (simp add: save_delivery_def)
  next
    case (Some p)
    then have v: "version_of (wd_UserID w) (wd_PreferenceVersion w) (db_data s2) = Some p" by (simp add: version_of_def assms(2) prefs)
    have here: "(wd_UserID w, vr_id p, wd_VacancyID w) \<in> delivery_key ` set (tb_deliveries (db_data s2))"
      using q
    proof (cases rule: save_delivery_cases)
      case none
      then have "list_ex (\<lambda>r. dr_user r = wd_UserID w \<and> dr_preference r = vr_id p \<and> dr_vacancy r = wd_VacancyID w) (tb_deliveries (db_data s))"
        using q Some by (auto simp: save_delivery_def split: if_splits)
      then show ?thesis by (force simp: assms(2) none list_ex_iff delivery_key_def)
    next
      case (added p' r)
      then show ?thesis using Some by (simp add: assms(2))
    qed
    from asst_insert_ok [OF k(1)] show ?thesis
    proof (cases rule: save_delivery_cases)
      case (added p' r)
      with v here show ?thesis by simp
    qed simp
  qed
  with k(2) save_delivery_keys [OF q assms(4)] show ?thesis by simp
qed

section \<open>The pages of a snapshot\<close>
















section \<open>What the user sees\<close>

lemma best_match_in: "best_match ms = Some m \<Longrightarrow> m \<in> set ms"
  by (induction ms arbitrary: m) (auto split: option.splits if_splits)

lemma map_filter_keys:
  assumes "\<And>v m. f v = Some m \<Longrightarrow> g m = v"
  shows "map g (List.map_filter f vs) = filter (\<lambda>v. f v \<noteq> None) vs"
  by (induction vs) (auto simp: List.map_filter_simps split: option.splits dest: assms)

lemma ranked_matches_sound:
  "set (ranked_matches u p d) \<subseteq> set (match_scope u p d) \<and> distinct (map mw_vacancy (ranked_matches u p d))"
proof -
  define f where "f v = best_match (filter (\<lambda>m. mw_vacancy m = v) (match_scope u p d))" for v
  define vs where "vs = remdups (map mw_vacancy (match_scope u p d))"
  have f: "f v = Some m \<Longrightarrow> m \<in> set (match_scope u p d) \<and> mw_vacancy m = v" for v m
    by (auto simp: f_def dest: best_match_in)
  have eq: "ranked_matches u p d = sort_key (\<lambda>m. (fst (match_rank m), mw_vacancy m)) (List.map_filter f vs)"
    by (simp add: ranked_matches_def f_def [abs_def] vs_def Let_def)
  have "map mw_vacancy (List.map_filter f vs) = filter (\<lambda>v. f v \<noteq> None) vs" by (rule map_filter_keys) (use f in blast)
  then have "distinct (map mw_vacancy (List.map_filter f vs))" by (simp add: vs_def)
  then have "distinct (map mw_vacancy (ranked_matches u p d))" unfolding eq by (simp add: distinct_map)
  moreover have "set (ranked_matches u p d) \<subseteq> set (match_scope u p d)"
    unfolding eq using f by (auto simp: List.map_filter_def)
  ultimately show ?thesis by blast
qed

text \<open>
  The list of matches is what the user's current preferences found under the current rules: every entry is a
  stored match or review of this user for them, whose run was not superseded, disabled or failed, and no result of
  any kind rejects the same revision of the vacancy; no vacancy is listed twice, at most a hundred are, and an
  entry is called confirmed exactly when the provider confirmed it as a match.
\<close>

theorem matches_listed:
  assumes "ListMatches env s u n = (s', Inr rs)"
  shows "distinct (map mr_VacancyID rs) \<and> length rs \<le> 100
     \<and> (\<forall>x \<in> set rs. \<exists>p m. current_pref u (db_data s) = Some p \<and> m \<in> set (tb_matches (db_data s)) \<and> mw_user m = u
          \<and> mw_preference m = vr_id p \<and> mw_ruleset m = SpecializationRulesVersion \<and> mw_vacancy m = mr_VacancyID x
          \<and> mw_decision m \<in> {''match'', ''review''} \<and> mr_Decision x = mw_decision m
          \<and> run_counts (db_data s) (vr_id p) m \<and> \<not> hard_rejected (db_data s) m
          \<and> (mr_Stage x = ''confirmed'' \<longleftrightarrow> mw_method m = ''ai'' \<and> mw_decision m = ''match''))"
proof (cases "current_pref u (db_data s)")
  case None
  with asst_read_ok [OF assms [unfolded ListMatches_def]] show ?thesis by (simp add: match_list_def)
next
  case (Some p)
  define k where "k = (if n < 1 \<or> n > 100 then 50 else nat n)"
  define d where "d = db_data s"
  have rs: "rs = map (match_record d) (take k (ranked_matches u (vr_id p) d))"
    using asst_read_ok [OF assms [unfolded ListMatches_def]] Some by (simp add: match_list_def k_def d_def)
  have "map mr_VacancyID rs = take k (map mw_vacancy (ranked_matches u (vr_id p) d))"
    by (simp add: rs match_record_def o_def take_map)
  then have "distinct (map mr_VacancyID rs)" using ranked_matches_sound by simp
  moreover have "length rs \<le> 100" by (auto simp: rs k_def)
  moreover have "\<exists>m. m \<in> set (tb_matches d) \<and> mw_user m = u
          \<and> mw_preference m = vr_id p \<and> mw_ruleset m = SpecializationRulesVersion \<and> mw_vacancy m = mr_VacancyID x
          \<and> mw_decision m \<in> {''match'', ''review''} \<and> mr_Decision x = mw_decision m
          \<and> run_counts d (vr_id p) m \<and> \<not> hard_rejected d m
          \<and> (mr_Stage x = ''confirmed'' \<longleftrightarrow> mw_method m = ''ai'' \<and> mw_decision m = ''match'')"
    if x: "x \<in> set rs" for x
  proof -
    obtain m where m: "m \<in> set (ranked_matches u (vr_id p) d)" and x: "x = match_record d m"
      using x by (auto simp: rs dest: in_set_takeD)
    then have "m \<in> set (match_scope u (vr_id p) d)" using ranked_matches_sound by blast
    then show ?thesis by (intro exI [of _ m]) (auto simp: match_scope_def x match_record_def)
  qed
  ultimately show ?thesis using Some by (auto simp: d_def)
qed

section \<open>Where work and messages go astray\<close>

text \<open>
  An item of an old revision that is selected and claimed, rather than superseded, is leased to a worker that is
  not told of it: it comes back ten minutes later and takes a place in the selection again.
\<close>

lemma stale_item_claimed:
  assumes "w \<in> set (claimable_items source n now d)" "ch (wq_id w)"
  shows "claim_step ch source n now d w = claim_item now w"
  by (rule claimed_step) (use assms in \<open>simp add: claimed_items_def\<close>)

lemma stale_item_unseen:
  assumes "claim_items ch source n now d = Some (d', cs)" "\<forall>v \<in> set (tb_vacancies d). xv_source v = wq_source w
      \<and> xv_external v = wq_external w \<longrightarrow> xv_revision v \<noteq> wq_revision w \<or> \<not> xv_active v \<or> xv_deleted v" "c \<in> set cs"
  shows "\<not> is_item c w"
proof
  assume i: "is_item c w"
  obtain r where r: "r \<in> set (claimed_rows (claimed_items ch source n now d) source d)" and c: "c = candidate_of d 0 False r"
    using assms(1,3) by (auto simp: claim_items_def dest!: in_set_takeD)
  from claimed_rows_item [OF r] assms(2) i show False by (auto simp: c candidate_of_fields is_item_def)
qed

text \<open>A lease on a delivery is not looked at when deliveries are claimed.\<close>

lemma delivery_lease_ignored: "deliverable now d (r\<lparr>dr_lease := t\<rparr>) = deliverable now d r"
  by (simp add: deliverable_def delivery_matches_def)

text \<open>Two results of the provider for a delivery, of two revisions or two models, hand it out twice.\<close>

lemma delivery_handed_out_twice:
  assumes "r \<in> set (claimed_deliveries ch n now d)" "delivery_matches d r = [m1, m2]"
    and "claim_deliveries ch worker n lease now d = Some (d', rows)"
  shows "\<exists>xs ys. rows = xs @ [delivery_of d r m1, delivery_of d r m2] @ ys"
proof -
  obtain as bs where "claimed_deliveries ch n now d = as @ r # bs" using assms(1) by (auto simp: in_set_conv_decomp)
  with assms(2,3) show ?thesis by (auto simp: claim_deliveries_def)
qed

section \<open>Examples\<close>

definition example_vacancy :: "string \<Rightarrow> string \<Rightarrow> time \<Rightarrow> vacancy_row" where
  "example_vacancy i external created =
     \<lparr>xv_id = i, xv_source = ''hh'', xv_external = external, xv_title = ''Dev'', xv_url = Some ''https://hh.ru'', xv_from = None,
      xv_to = None, xv_mid = None, xv_role = None, xv_region = None, xv_remote = None, xv_published = None, xv_collected = created,
      xv_created = created, xv_description = None, xv_truncated = False, xv_revision = 1, xv_active = True, xv_deleted = False\<rparr>"

definition example_item :: "string \<Rightarrow> string \<Rightarrow> work_item" where
  "example_item i external =
     \<lparr>wq_id = i, wq_source = ''hh'', wq_external = external, wq_revision = 1, wq_status = ''pending'', wq_available = 0,
      wq_attempts = 0, wq_lease = None, wq_claimed = None, wq_error = None, wq_completed = None, wq_dead = None\<rparr>"

definition example_match :: WorkerMatch where
  "example_match = \<lparr>wm_UserID = ''a'', wm_VacancyID = ''v1'', wm_Source = ''hh'', wm_ExternalID = ''1'', wm_RunID = '''',
     wm_PreferenceVersion = 1, wm_Result = \<lparr>re_Decision = ''review'', re_Score = 0, re_Reasons = [], re_Unknowns = [], re_Conflicts = [],
     re_Evidence = []\<rparr>, wm_Method = ''ai'', wm_Provider = ''d'', wm_Model = ''m'', wm_PromptVersion = ''p'', wm_InputSnapshotHash = '''',
     wm_VacancyRevision = 1\<rparr>"

definition example_answer :: MatchOutput where
  "example_answer = no_output\<lparr>mo_Decision := ''match'', mo_Score := 1, mo_Confidence := ''high''\<rparr>"

definition example_delivery :: delivery_row where
  "example_delivery = \<lparr>dr_id = ''d1'', dr_user = ''a'', dr_preference = ''u'', dr_vacancy = ''v1'', dr_status = ''pending'',
     dr_attempts = 0, dr_next = None, dr_cooldown = None, dr_lease = None, dr_claimed = None, dr_dead = None, dr_sent = None,
     dr_message = None, dr_error = None, dr_created = 1\<rparr>"

definition example_queue :: asst where
  "example_queue = \<lparr>db_data = no_asst_tables\<lparr>tb_users := [(''a'', ''ann'')], tb_prefs := [first_version], tb_sources := [(''hh'', True)],
     tb_vacancies := [example_vacancy ''v2'' ''2'' 2, example_vacancy ''v1'' ''1'' 1],
     tb_items := [example_item ''w1'' ''1'', example_item ''w2'' ''2''],
     tb_connections := [\<lparr>cx_user = ''a'', cx_chat = Some 7, cx_linked = Some 1, cx_revoked = None, cx_opted = True\<rparr>],
     tb_settings := [\<lparr>st_user = ''a'', st_ai = True, st_telegram = True, st_activation = Some 1\<rparr>],
     tb_matches := [answer_row example_match example_answer ''u'' 1],
     tb_deliveries := [example_delivery]\<rparr>, db_tick = 0\<rparr>"




theorem work_item_retries_witness:
  "wq_status ((retried_item ''e'' 7 ^^ 5) (example_item ''w'' ''1'')) = ''done''
     \<and> wq_available ((retried_item ''e'' 7 ^^ 5) (example_item ''w'' ''1'')) = 7 + 5 * 2 ^ 4 * Second"
  using work_item_retries [of "example_item ''w'' ''1''" 5 "''e''" 7] by (simp add: example_item_def)






definition example_notice :: WorkerDelivery where
  "example_notice = \<lparr>wd_UserID = ''a'', wd_VacancyID = ''v2'', wd_PreferenceVersion = 1\<rparr>"

abbreviation first_notice :: "asst \<times> (asst_error + bool)" where
  "first_notice \<equiv> SaveDelivery calm_asst example_queue example_notice"

abbreviation second_notice :: "asst \<times> (asst_error + bool)" where
  "second_notice \<equiv> SaveDelivery calm_asst (fst first_notice) example_notice"

theorem delivery_once_witness: "snd first_notice = Inr True \<and> snd second_notice = Inr False"
proof -
  have f: "snd first_notice = Inr True" by code_simp
  then have 1: "first_notice = (fst first_notice, Inr True)" by (simp add: prod_eq_iff)
  have "(case snd second_notice of Inr _ \<Rightarrow> True | _ \<Rightarrow> False)" by code_simp
  then obtain b where b: "second_notice = (fst second_notice, Inr b)" by (cases "snd second_notice") (auto simp: prod_eq_iff)
  have "distinct (map delivery_key (tb_deliveries (db_data example_queue)))" by (simp add: example_queue_def)
  from delivery_once [OF 1 refl b this] f b show ?thesis by (simp add: prod_eq_iff)
qed



abbreviation shown_list :: "asst \<times> (asst_error + MatchRecord list)" where
  "shown_list \<equiv> ListMatches calm_asst example_queue ''a'' 10"

theorem matches_listed_witness:
  "\<exists>rs. snd shown_list = Inr rs \<and> map mr_Stage rs = [''confirmed''] \<and> distinct (map mr_VacancyID rs) \<and> length rs \<le> 100"
proof -
  let ?d = "db_data example_queue"
  have "ranked_matches ''a'' ''u'' ?d = tb_matches ?d" "tb_matches ?d = [answer_row example_match example_answer ''u'' 1]"
    "map_option vr_id (current_pref ''a'' ?d) = Some ''u''" by code_simp+
  then have "match_list ''a'' 10 ?d = [match_record ?d (answer_row example_match example_answer ''u'' 1)]"
    by (auto simp: match_list_def)
  moreover have "snd shown_list = Inr (match_list ''a'' 10 ?d)"
    by (simp add: ListMatches_def asst_read_def asst_stmt_def stmt_def calm_asst_def Let_def)
  ultimately have "snd shown_list = Inr [match_record ?d (answer_row example_match example_answer ''u'' 1)]" by simp
  moreover have "mr_Stage (match_record ?d (answer_row example_match example_answer ''u'' 1)) = ''confirmed''"
    by (simp add: match_record_def answer_row_def example_answer_def)
  ultimately obtain rs where rs: "snd shown_list = Inr rs" "map mr_Stage rs = [''confirmed'']" by simp
  then have "shown_list = (fst shown_list, Inr rs)" by (metis prod.collapse)
  note listed = matches_listed [OF this]
  show ?thesis by (intro exI [of _ rs] conjI) (fact rs listed [THEN conjunct1] listed [THEN conjunct2, THEN conjunct1])+
qed

end
