(* ===== verification/Advisory_Locks.thy ===== *)
theory Advisory_Locks
  imports Scheduler
begin

text \<open>
  The session advisory locks of PostgreSQL the services take on one database: the run lock, the delivery lock and
  the process lock of the assistant (\<^verbatim>\<open>libs/go-common/assistant/postgres.go\<close>) and the two locks of the
  analytics (\<^verbatim>\<open>apps/analytics/worker/worker.go\<close>) and the lock of the rate synchronisation
  (\<^verbatim>\<open>apps/fx/store/postgres.go\<close>), beside those of the ingest service, which are in
  \<^theory_text>\<open>Scheduler\<close>. The pool is that of \<^theory_text>\<open>Scheduler\<close>; \<open>server_pool\<close> is a server that holds a lock for a
  session until the session gives it back or is closed.
\<close>

section \<open>The locks of the assistant\<close>

definition assistantLockKey :: int where "assistantLockKey = 549004802"
definition deliveryLockKey :: int where "deliveryLockKey = 549004803"
definition processLockKey :: int where "processLockKey = 549004804"

text \<open>The lock is kept on a connection of its own; \<open>lacking\<close> is the error of a repository without a pool; \<open>None\<close> is a lock that is not free.\<close>

definition takeLock :: "string \<Rightarrow> string \<Rightarrow> int \<Rightarrow> 'w PgPool option \<Rightarrow> 'w \<Rightarrow> 'w \<times> (sched_error + nat option)" where
  "takeLock lacking label key pool w =
     (case pool of
        None \<Rightarrow> (w, Inl (SchedOther lacking))
      | Some p \<Rightarrow>
          (case pp_Acquire p w of
             (w, Inl _) \<Rightarrow> (w, Inl (SchedOther (label @ '' acquire connection'')))
           | (w, Inr conn) \<Rightarrow>
               (case pp_TryLock p w conn key of
                  (w, Inl _) \<Rightarrow> (pp_Release p w conn, Inl (SchedOther (label @ '' lock'')))
                | (w, Inr acquired) \<Rightarrow> if \<not> acquired then (pp_Release p w conn, Inr None) else (w, Inr (Some conn)))))"

text \<open>\<open>strict\<close>: a lock that turns out not to be held is an error.\<close>

definition giveLock :: "bool \<Rightarrow> string \<Rightarrow> int \<Rightarrow> 'w PgPool \<Rightarrow> nat \<Rightarrow> 'w \<Rightarrow> 'w \<times> sched_error option" where
  "giveLock strict label key p conn w =
     (case pp_Unlock p w conn key of
        (w, Inl e) \<Rightarrow> (pp_Release p w conn, Some e)
      | (w, Inr released) \<Rightarrow>
          (pp_Release p w conn, if strict \<and> \<not> released then Some (SchedOther (label @ '' lock was not held'')) else None))"

definition TryLock :: "'w PgPool option \<Rightarrow> 'w \<Rightarrow> 'w \<times> (sched_error + nat option)" where
  "TryLock = takeLock ''assistant worker requires pgxpool'' ''assistant worker'' assistantLockKey"

definition TryLock_release :: "'w PgPool \<Rightarrow> nat \<Rightarrow> 'w \<Rightarrow> 'w \<times> sched_error option" where
  "TryLock_release = giveLock True ''assistant worker'' assistantLockKey"


definition TryDeliveryLock_release :: "'w PgPool \<Rightarrow> nat \<Rightarrow> 'w \<Rightarrow> 'w \<times> sched_error option" where
  "TryDeliveryLock_release = giveLock False ''telegram delivery'' deliveryLockKey"


definition TryProcessLock_release :: "'w PgPool \<Rightarrow> nat \<Rightarrow> 'w \<Rightarrow> 'w \<times> sched_error option" where
  "TryProcessLock_release = giveLock True ''assistant worker process'' processLockKey"

section \<open>The locks of the analytics\<close>

definition dailyLockKey :: int where "dailyLockKey = 549004802"
definition weeklyLockKey :: int where "weeklyLockKey = 549004803"

text \<open>The lock of \<^verbatim>\<open>withLock\<close>, which holds it for the work and gives it back whatever the work returns.\<close>

definition withLock_take :: "int \<Rightarrow> 'w PgPool \<Rightarrow> 'w \<Rightarrow> 'w \<times> (sched_error + nat option)" where
  "withLock_take key p w =
     (case pp_Acquire p w of
        (w, Inl _) \<Rightarrow> (w, Inl (SchedOther ''analytics: acquire lock connection failed''))
      | (w, Inr conn) \<Rightarrow>
          (case pp_TryLock p w conn key of
             (w, Inl _) \<Rightarrow> (pp_Release p w conn, Inl (SchedOther ''analytics: advisory lock failed''))
           | (w, Inr acquired) \<Rightarrow> if \<not> acquired then (pp_Release p w conn, Inr None) else (w, Inr (Some conn))))"

section \<open>The lock of the rate synchronisation\<close>

definition FxAdvisoryLockKey :: int where "FxAdvisoryLockKey = 327713637976"

definition FxTryLock :: "'w PgPool \<Rightarrow> 'w \<Rightarrow> 'w \<times> (sched_error + nat option)" where
  "FxTryLock p w =
     (case pp_Acquire p w of
        (w, Inl e) \<Rightarrow> (w, Inl e)
      | (w, Inr conn) \<Rightarrow>
          (case pp_TryLock p w conn FxAdvisoryLockKey of
             (w, Inl e) \<Rightarrow> (pp_Release p w conn, Inl e)
           | (w, Inr acquired) \<Rightarrow> if \<not> acquired then (pp_Release p w conn, Inr None) else (w, Inr (Some conn))))"

text \<open>An error of the statement is ignored; \<open>None\<close> is a lock that was given back before.\<close>

definition FxLock_Release :: "'w PgPool \<Rightarrow> nat option \<Rightarrow> 'w \<Rightarrow> 'w \<times> nat option" where
  "FxLock_Release p lock w =
     (case lock of None \<Rightarrow> (w, None) | Some conn \<Rightarrow> (case pp_Unlock p w conn FxAdvisoryLockKey of (w, _) \<Rightarrow> (pp_Release p w conn, None)))"

section \<open>A server\<close>

record lock_server =
  ls_held :: "(int \<times> nat) list"
  ls_next :: nat

text \<open>
  Connections in use are told apart by their number. Returning one to its pool does not end its session, so it
  keeps its locks; closing it does.
\<close>

definition server_pool :: "lock_server PgPool" where
  "server_pool = \<lparr>
     pp_Acquire = (\<lambda>w. (w\<lparr>ls_next := Suc (ls_next w)\<rparr>, Inr (ls_next w))),
     pp_TryLock = (\<lambda>w c k. if list_ex (\<lambda>h. fst h = k \<and> snd h \<noteq> c) (ls_held w) then (w, Inr False)
       else (w\<lparr>ls_held := (k, c) # ls_held w\<rparr>, Inr True)),
     pp_Unlock = (\<lambda>w c k. if (k, c) \<in> set (ls_held w) then (w\<lparr>ls_held := remove1 (k, c) (ls_held w)\<rparr>, Inr True) else (w, Inr False)),
     pp_Release = (\<lambda>w c. w),
     pp_HijackClose = (\<lambda>w c. w\<lparr>ls_held := filter (\<lambda>h. snd h \<noteq> c) (ls_held w)\<rparr>)\<rparr>"

section \<open>What a lock promises\<close>

locale advisory_locks =
  fixes pool :: "'w PgPool"
    and holds :: "'w \<Rightarrow> int \<Rightarrow> nat \<Rightarrow> bool"
    and fine :: "'w \<Rightarrow> bool"
  assumes acquire: "fine w \<Longrightarrow> \<exists>w' c. pp_Acquire pool w = (w', Inr c) \<and> fine w'
      \<and> (\<forall>k. \<not> holds w k c) \<and> (\<forall>k c. holds w' k c \<longleftrightarrow> holds w k c)"
    and refuse: "fine w \<Longrightarrow> holds w k c' \<Longrightarrow> c' \<noteq> c \<Longrightarrow> pp_TryLock pool w c k = (w, Inr False)"
    and grant: "fine w \<Longrightarrow> \<forall>c'. c' \<noteq> c \<longrightarrow> \<not> holds w k c' \<Longrightarrow> \<exists>w'. pp_TryLock pool w c k = (w', Inr True) \<and> holds w' k c"
    and release: "fine w \<Longrightarrow> pp_Release pool w c = w"
begin

text \<open>A lock that someone holds is refused to everyone else, and one that nobody holds is granted.\<close>

lemma held_refused:
  assumes "fine w" "holds w key c"
  shows "snd (takeLock lacking label key (Some pool) w) = Inr None" "snd (withLock_take key pool w) = Inr None"
    "snd (tryAdvisoryLock pool key w) = Inr None"
proof -
  obtain w' c' where a: "pp_Acquire pool w = (w', Inr c')" "fine w'" "\<forall>k. \<not> holds w k c'" "holds w' key c"
    using acquire [OF assms(1)] assms(2) by blast
  then have "c \<noteq> c'" using assms(2) by blast
  with a have "pp_TryLock pool w' c' key = (w', Inr False)" by (intro refuse)
  with a show "snd (takeLock lacking label key (Some pool) w) = Inr None" "snd (withLock_take key pool w) = Inr None"
    "snd (tryAdvisoryLock pool key w) = Inr None"
    by (simp_all add: takeLock_def withLock_take_def tryAdvisoryLock_def release)
qed

lemma free_granted:
  assumes "fine w" "\<forall>c. \<not> holds w key c"
  shows "\<exists>w' c. takeLock lacking label key (Some pool) w = (w', Inr (Some c)) \<and> holds w' key c"
proof -
  obtain w1 c where a: "pp_Acquire pool w = (w1, Inr c)" "fine w1" "\<forall>k c. holds w1 k c \<longleftrightarrow> holds w k c"
    using acquire [OF assms(1)] by blast
  then obtain w2 where "pp_TryLock pool w1 c key = (w2, Inr True)" "holds w2 key c" using grant [of w1 c key] assms(2) by auto
  with a show ?thesis by (simp add: takeLock_def)
qed

end

definition server_holds :: "lock_server \<Rightarrow> int \<Rightarrow> nat \<Rightarrow> bool" where
  "server_holds w k c \<longleftrightarrow> (k, c) \<in> set (ls_held w)"

text \<open>Sessions that hold a lock have been opened.\<close>

definition server_fine :: "lock_server \<Rightarrow> bool" where
  "server_fine w \<longleftrightarrow> (\<forall>h \<in> set (ls_held w). snd h < ls_next w)"

interpretation srv: advisory_locks server_pool server_holds server_fine
  by unfold_locales (force simp: server_pool_def server_holds_def server_fine_def list_ex_iff)+

section \<open>Properties\<close>

text \<open>The key of the rate synchronisation is its own: whatever other locks are held, it gets its lock unless another run of it has it.\<close>

lemma fx_lock_apart:
  assumes "server_fine w" "\<forall>c. \<not> server_holds w FxAdvisoryLockKey c"
  shows "\<exists>w' c. FxTryLock server_pool w = (w', Inr (Some c)) \<and> server_holds w' FxAdvisoryLockKey c
    \<and> ls_held (fst (FxLock_Release server_pool (Some c) w')) = ls_held w
    \<and> FxAdvisoryLockKey \<notin> {assistantLockKey, deliveryLockKey, processLockKey, dailyLockKey, weeklyLockKey, SchedulerAdvisoryLockKey, DiscoveryAdvisoryLockKey}"
  using assms by (auto simp: FxTryLock_def FxLock_Release_def server_pool_def server_holds_def list_ex_iff FxAdvisoryLockKey_def
      assistantLockKey_def deliveryLockKey_def processLockKey_def dailyLockKey_def weeklyLockKey_def SchedulerAdvisoryLockKey_def DiscoveryAdvisoryLockKey_def)


lemma taken_held:
  assumes "takeLock lacking label key (Some server_pool) w = (w', Inr (Some c))" "server_fine w"
  shows "server_fine w' \<and> server_holds w' key c"
  using assms by (fastforce simp: takeLock_def server_pool_def server_fine_def server_holds_def split: if_splits)

lemma taken_frees:
  assumes "takeLock lacking label key (Some server_pool) w = (w', Inr (Some c))" "server_fine w"
  shows "ls_held (fst (giveLock strict label key server_pool c w')) = ls_held w \<and> snd (giveLock strict label key server_pool c w') = None"
  using assms by (auto simp: takeLock_def giveLock_def server_pool_def split: if_splits)

text \<open>
  Two workers never run at once: while one holds the run lock, the delivery lock or the process lock of the
  assistant, every other attempt at the same lock is refused, and giving it back leaves the server as it was.
\<close>

theorem assistant_locks_exclude:
  assumes "takeLock lacking label key (Some server_pool) w = (w1, Inr (Some c))" "server_fine w"
  shows "snd (takeLock lacking' label' key (Some server_pool) w1) = Inr None
     \<and> ls_held (fst (giveLock strict label key server_pool c w1)) = ls_held w
     \<and> snd (giveLock strict label key server_pool c w1) = None"
  using taken_held [OF assms] taken_frees [OF assms] srv.held_refused(1) by blast

theorem assistant_locks_exclude_witness:
  "\<exists>w1 c. TryLock (Some server_pool) \<lparr>ls_held = [], ls_next = 0\<rparr> = (w1, Inr (Some c)) \<and> snd (TryLock (Some server_pool) w1) = Inr None"
proof -
  have fine: "server_fine \<lparr>ls_held = [], ls_next = 0\<rparr>" by (simp add: server_fine_def)
  obtain w1 c where t: "TryLock (Some server_pool) \<lparr>ls_held = [], ls_next = 0\<rparr> = (w1, Inr (Some c))"
    using srv.free_granted [OF fine, of assistantLockKey "''assistant worker requires pgxpool''" "''assistant worker''"] by (auto simp: TryLock_def server_holds_def)
  with assistant_locks_exclude [OF t [unfolded TryLock_def] fine] show ?thesis by (auto simp: TryLock_def)
qed



end
