(* ===== verification/Fx_Sync.thy ===== *)
theory Fx_Sync
  imports Go_Format Sql_Layer
begin

text \<open>
  The synchronisation of the exchange rates of the Bank of Russia, \<^verbatim>\<open>apps/fx\<close>: the client
  (\<^verbatim>\<open>cbr/client.go\<close>), the tables it keeps (\<^verbatim>\<open>store/postgres.go\<close>) and the command that runs it
  (\<^verbatim>\<open>cmd/sync/main.go\<close>). Arguments: HTTP, the XML decoder, \<^verbatim>\<open>time.Parse\<close>, \<^verbatim>\<open>strconv.ParseFloat\<close>, the clock,
  the random source, waiting, the advisory lock; of the database its failures, clock and identifiers, how it reads a
  numeric text, and the casts between days and times of its session. Days are their midnights in UTC.
\<close>

section \<open>The client\<close>

definition CbrProvider :: string where "CbrProvider = ''cbr''"
definition CbrEndpoint :: string where "CbrEndpoint = ''https://www.cbr.ru/scripts/XML_daily.asp''"

text \<open>What \<^verbatim>\<open>ParseFloat\<close> yields without an error.\<close>

datatype fx_number = Finite_number real | Positive_infinity | Negative_infinity | Not_a_number

record CbrRate =
  ra_Date :: time
  ra_Currency :: string
  ra_Nominal :: int
  ra_SourceValue :: string
  ra_RubPerUnit :: string
  ra_Revision :: string
  ra_ProvenanceURL :: string

record xmlRate =
  xq_ID :: string
  xq_Code :: string
  xq_Nominal :: int
  xq_Value :: string

record cbr_response =
  cb_Date :: string
  cb_Rates :: "xmlRate list"

datatype fx_error = CbrFetch | CbrStatus int | CbrDecode | CbrDate | CbrInvalidRate string | CbrNoRates
  | FxDatabase string | FxBadDate | FxBadFrom | FxBadTo | FxLock | FxCancelled

section \<open>Tables\<close>

record fx_rate_row =
  fx_date :: time
  fx_provider :: string
  fx_base :: string
  fx_quote :: string
  fx_rub :: real
  fx_nominal :: int
  fx_source_value :: real
  fx_fetched :: time
  fx_revision :: string
  fx_provenance :: string

record fx_run_row =
  xr_id :: string
  xr_from :: time
  xr_to :: time
  xr_status :: string
  xr_dates :: int
  xr_rates :: int
  xr_started :: time
  xr_finished :: "time option"
  xr_category :: "string option"

text \<open>What the synchronisation reads and writes of a vacancy and of an observation of a discovery cycle.\<close>

record fx_vacancy =
  fv_id :: string
  fv_source :: string
  fv_url :: "string option"
  fv_published :: "time option"
  fv_from :: "real option"
  fv_to :: "real option"
  fv_currency :: "string option"
  fv_gross :: "bool option"
  fv_mid :: "real option"
  fv_from_rub :: "real option"
  fv_to_rub :: "real option"
  fv_rate_date :: "time option"
  fv_rate_provider :: "string option"

record fx_observation =
  fo_cycle :: string
  fo_source :: string
  fo_external :: string
  fo_published :: time
  fo_from :: "real option"
  fo_to :: "real option"
  fo_currency :: "string option"
  fo_gross :: "bool option"
  fo_mid :: "real option"
  fo_eligible :: bool
  fo_rate_date :: "time option"
  fo_rate_provider :: "string option"

record fx_tables =
  ft_rates :: "fx_rate_row list"
  ft_runs :: "fx_run_row list"
  ft_vacancies :: "fx_vacancy list"
  ft_observations :: "fx_observation list"
  ft_demand :: "time list"

type_synonym fx = "fx_tables conn"

record 'w fx_env =
  fe_db :: db_env
  fe_do :: "'w \<Rightarrow> string \<Rightarrow> 'w \<times> (int \<times> string) option"
  fe_xml :: "string \<Rightarrow> cbr_response option"
  fe_dotted :: "string \<Rightarrow> time option"
  fe_iso :: "string \<Rightarrow> time option"
  fe_float :: "string \<Rightarrow> fx_number option"
  fe_numeric :: "string \<Rightarrow> real option"
  fe_clock :: "'w \<Rightarrow> time"
  fe_jitter :: "'w \<Rightarrow> 'w \<times> int"
  fe_wait :: "'w \<Rightarrow> duration \<Rightarrow> 'w \<times> bool"
  fe_lock :: "'w \<Rightarrow> 'w \<times> bool option"
  fe_unlock :: "'w \<Rightarrow> 'w"
  fe_day :: "time \<Rightarrow> time"
  fe_midnight :: "time \<Rightarrow> time"

section \<open>Fetching a day\<close>

definition format_slashes :: "time \<Rightarrow> string" where
  "format_slashes t = (case civil_date t of (y, m, d) \<Rightarrow> pad 2 d @ ''/'' @ pad 2 m @ ''/'' @ pad 4 y)"

definition cbr_url :: "string \<Rightarrow> time \<Rightarrow> string" where
  "cbr_url base requested =
     (if base = '''' then CbrEndpoint else base) @ ''?'' @ encode_values [(''date_req'', format_slashes requested)]"

definition decimal_text :: "string \<Rightarrow> string" where
  "decimal_text v = map (\<lambda>c. if c = CHR '','' then CHR ''.'' else c) (TrimSpace v)"

definition parseDecimal :: "'w fx_env \<Rightarrow> string \<Rightarrow> fx_number option" where
  "parseDecimal env v = fe_float env (decimal_text v)"

text \<open>\<^verbatim>\<open>value <= 0\<close>, which does not hold of a NaN.\<close>

fun not_positive :: "fx_number \<Rightarrow> bool" where
  "not_positive (Finite_number x) \<longleftrightarrow> x \<le> 0"
| "not_positive Negative_infinity \<longleftrightarrow> True"
| "not_positive _ \<longleftrightarrow> False"

text \<open>\<^verbatim>\<open>FormatFloat(value / nominal, 'f', 10, 64)\<close>\<close>

fun per_unit_text :: "fx_number \<Rightarrow> int \<Rightarrow> string" where
  "per_unit_text (Finite_number x) n = format_fixed 10 (x / of_int n)"
| "per_unit_text Positive_infinity n = ''+Inf''"
| "per_unit_text Negative_infinity n = ''-Inf''"
| "per_unit_text Not_a_number n = ''NaN''"

fun cbr_rates :: "'w fx_env \<Rightarrow> time \<Rightarrow> string \<Rightarrow> xmlRate list \<Rightarrow> fx_error + CbrRate list" where
  "cbr_rates env rateDate url [] = Inr []"
| "cbr_rates env rateDate url (item # items) =
     (if xq_Nominal item \<le> 0 \<or> length (xq_Code item) \<noteq> 3 then cbr_rates env rateDate url items
      else (case parseDecimal env (xq_Value item) of
              None \<Rightarrow> Inl (CbrInvalidRate (xq_Code item))
            | Some v \<Rightarrow>
                if not_positive v then Inl (CbrInvalidRate (xq_Code item))
                else (case cbr_rates env rateDate url items of
                        Inl e \<Rightarrow> Inl e
                      | Inr rs \<Rightarrow> Inr (\<lparr>ra_Date = rateDate, ra_Currency = ToUpper (xq_Code item), ra_Nominal = xq_Nominal item,
                          ra_SourceValue = decimal_text (xq_Value item), ra_RubPerUnit = per_unit_text v (xq_Nominal item),
                          ra_Revision = xq_ID item, ra_ProvenanceURL = url\<rparr> # rs))))"

definition Fetch :: "'w fx_env \<Rightarrow> string \<Rightarrow> time \<Rightarrow> 'w \<Rightarrow> 'w \<times> (fx_error + CbrRate list)" where
  "Fetch env base requested w =
     (let url = cbr_url base requested in
      case fe_do env w url of
        (w, None) \<Rightarrow> (w, Inl CbrFetch)
      | (w, Some (status, body)) \<Rightarrow>
          (w, if status \<noteq> 200 then Inl (CbrStatus status)
              else (case fe_xml env body of
                  None \<Rightarrow> Inl CbrDecode
                | Some payload \<Rightarrow>
                    (case fe_dotted env (cb_Date payload) of
                       None \<Rightarrow> Inl CbrDate
                     | Some rateDate \<Rightarrow>
                         (case cbr_rates env rateDate url (cb_Rates payload) of
                            Inl e \<Rightarrow> Inl e
                          | Inr rs \<Rightarrow> if rs = [] then Inl CbrNoRates else Inr rs)))))"

section \<open>Statements\<close>

definition fx_stmt :: "'w fx_env \<Rightarrow> string \<Rightarrow> (nat \<Rightarrow> time \<Rightarrow> fx_tables \<Rightarrow> (fx_tables \<times> 'a) option) \<Rightarrow> fx \<Rightarrow> fx \<times> (fx_error + 'a)" where
  "fx_stmt env label q = stmt (fe_db env) (FxDatabase label) (\<lambda>t. q t (db_now (fe_db env) t))"

definition run_row_check :: "fx_run_row \<Rightarrow> bool" where
  "run_row_check r \<longleftrightarrow> xr_from r \<le> xr_to r \<and> List.member [''running'', ''success'', ''failed''] (xr_status r)
     \<and> xr_dates r \<ge> 0 \<and> xr_rates r \<ge> 0 \<and> (xr_status r = ''running'' \<longleftrightarrow> xr_finished r = None)"

definition start_row :: "string \<Rightarrow> time \<Rightarrow> time \<Rightarrow> time \<Rightarrow> fx_run_row" where
  "start_row i from to now = \<lparr>xr_id = i, xr_from = day_start from, xr_to = day_start to, xr_status = ''running'', xr_dates = 0,
     xr_rates = 0, xr_started = now, xr_finished = None, xr_category = None\<rparr>"

definition FxStartRun :: "'w fx_env \<Rightarrow> fx \<Rightarrow> time \<Rightarrow> time \<Rightarrow> fx \<times> (fx_error + string)" where
  "FxStartRun env s from to = fx_stmt env ''start run'' (\<lambda>t now d.
     let i = db_uuid (fe_db env) t; r = start_row i from to now in
     if i \<notin> xr_id ` set (ft_runs d) \<and> run_row_check r then Some (d\<lparr>ft_runs := ft_runs d @ [r]\<rparr>, i) else None) s"

definition finished_row :: "string \<Rightarrow> int \<Rightarrow> int \<Rightarrow> string \<Rightarrow> time \<Rightarrow> fx_run_row \<Rightarrow> fx_run_row" where
  "finished_row status dates rates category now r =
     r\<lparr>xr_status := status, xr_dates := dates, xr_rates := rates, xr_finished := Some now,
       xr_category := (if category = '''' then None else Some category)\<rparr>"

definition FxFinishRun :: "'w fx_env \<Rightarrow> fx \<Rightarrow> string \<Rightarrow> string \<Rightarrow> int \<Rightarrow> int \<Rightarrow> string \<Rightarrow> fx \<times> (fx_error + unit)" where
  "FxFinishRun env s i status dates rates category = fx_stmt env ''finish run'' (\<lambda>_ now d.
     let rows = map (\<lambda>r. if xr_id r = i then finished_row status dates rates category now r else r) (ft_runs d) in
     if list_all run_row_check rows then Some (d\<lparr>ft_runs := rows\<rparr>, ()) else None) s"

text \<open>\<^verbatim>\<open>trim(salary_currency) <> 'RUB'\<close>, where a missing currency is not foreign.\<close>

definition foreign :: "string option \<Rightarrow> string option" where
  "foreign currency = (case currency of None \<Rightarrow> None
     | Some c \<Rightarrow> (let c = trim_by (\<lambda>x. x = CHR '' '') c in if c = ''RUB'' then None else Some c))"

definition needed_days :: "'w fx_env \<Rightarrow> time \<Rightarrow> fx_tables \<Rightarrow> time list" where
  "needed_days env now d =
     (let oldest = add_days (day_start now) (- 35); since = fe_midnight env oldest;
          vs = filter (\<lambda>v. foreign (fv_currency v) \<noteq> None \<and> (case fv_published v of None \<Rightarrow> False | Some p \<Rightarrow> p \<ge> since)) (ft_vacancies d);
          os = filter (\<lambda>r. foreign (fo_currency r) \<noteq> None \<and> fo_rate_date r = None \<and> fo_published r \<ge> since) (ft_observations d)
      in take 60 (sort (remdups (map (\<lambda>v. fe_day env (the (fv_published v))) vs @ map (\<lambda>r. fe_day env (fo_published r)) os
           @ filter (\<lambda>x. x \<ge> oldest) (ft_demand d)))))"

definition NeededDates :: "'w fx_env \<Rightarrow> fx \<Rightarrow> time \<Rightarrow> fx \<times> (fx_error + time list)" where
  "NeededDates env s now = fx_stmt env ''fx needed dates'' (\<lambda>_ _ d. Some (d, needed_days env now d)) s"

text \<open>The checks of a rate; its numbers are kept with ten decimals and ten digits before them.\<close>

definition rate_check :: "fx_rate_row \<Rightarrow> bool" where
  "rate_check r \<longleftrightarrow> fx_base r = ''RUB'' \<and> fx_quote r = ToUpper (fx_quote r) \<and> fx_base r \<noteq> fx_quote r
     \<and> fx_nominal r > 0 \<and> fx_source_value r > 0 \<and> fx_rub r > 0
     \<and> \<bar>fx_rub r - fx_source_value r / of_int (fx_nominal r)\<bar> < 1 / 10 ^ 10
     \<and> fx_rub r < 10 ^ 10 \<and> fx_source_value r < 10 ^ 10"

definition rate_key :: "fx_rate_row \<Rightarrow> string \<times> time \<times> string \<times> string" where
  "rate_key r = (fx_provider r, fx_date r, fx_base r, fx_quote r)"

definition rate_row :: "'w fx_env \<Rightarrow> time \<Rightarrow> CbrRate \<Rightarrow> fx_rate_row option" where
  "rate_row env fetched rate =
     (case (fe_numeric env (ra_RubPerUnit rate), fe_numeric env (ra_SourceValue rate)) of
        (Some rub, Some src) \<Rightarrow>
          Some \<lparr>fx_date = day_start (ra_Date rate), fx_provider = CbrProvider, fx_base = ''RUB'', fx_quote = ra_Currency rate,
            fx_rub = numeric_scale 10 rub, fx_nominal = ra_Nominal rate, fx_source_value = numeric_scale 10 src,
            fx_fetched = fetched, fx_revision = ra_Revision rate, fx_provenance = ra_ProvenanceURL rate\<rparr>
      | _ \<Rightarrow> None)"

fun put_rates :: "'w fx_env \<Rightarrow> time \<Rightarrow> CbrRate list \<Rightarrow> fx_rate_row list \<Rightarrow> fx_rate_row list option" where
  "put_rates env fetched [] rows = Some rows"
| "put_rates env fetched (rate # rates) rows =
     (case rate_row env fetched rate of
        None \<Rightarrow> None
      | Some new \<Rightarrow> if rate_check new then put_rates env fetched rates (upsert rate_key new (\<lambda>_. new) rows) else None)"

text \<open>The statements of a batch are one transaction of the server; each affects one row.\<close>

definition Upsert :: "'w fx_env \<Rightarrow> fx \<Rightarrow> CbrRate list \<Rightarrow> time \<Rightarrow> fx \<times> (fx_error + int)" where
  "Upsert env s rates fetched = fx_stmt env ''fx upsert'' (\<lambda>_ _ d.
     case put_rates env fetched rates (ft_rates d) of
       None \<Rightarrow> None
     | Some rows \<Rightarrow> Some (d\<lparr>ft_rates := rows\<rparr>, int (length rates))) s"

section \<open>Reconciling salaries\<close>

text \<open>The newest rate of a currency that is at most seven days older than a day.\<close>

fun newest_rate :: "fx_rate_row list \<Rightarrow> fx_rate_row option" where
  "newest_rate [] = None"
| "newest_rate (r # rs) = (case newest_rate rs of None \<Rightarrow> Some r | Some x \<Rightarrow> Some (if fx_date r < fx_date x then x else r))"

definition rate_for :: "fx_rate_row list \<Rightarrow> string \<Rightarrow> time \<Rightarrow> fx_rate_row option" where
  "rate_for rates currency day =
     newest_rate (filter (\<lambda>r. fx_provider r = CbrProvider \<and> fx_quote r = currency \<and> fx_date r \<le> day
       \<and> fx_date r \<ge> add_days day (- 7)) rates)"

definition net_factor :: "bool option \<Rightarrow> real" where
  "net_factor gross = (if gross = Some True then 87 / 100 else 1)"

definition middle :: "real option \<Rightarrow> real option \<Rightarrow> real option" where
  "middle from to = (case (from, to) of (Some a, Some b) \<Rightarrow> Some ((a + b) / 2) | (Some a, None) \<Rightarrow> Some a | (None, b) \<Rightarrow> b)"

definition vacancy_rate :: "'w fx_env \<Rightarrow> fx_rate_row list \<Rightarrow> fx_vacancy \<Rightarrow> fx_rate_row option" where
  "vacancy_rate env rates v =
     (case (foreign (fv_currency v), fv_published v) of
        (Some c, Some p) \<Rightarrow> rate_for rates c (fe_day env p)
      | _ \<Rightarrow> None)"

definition in_rub :: "bool option \<Rightarrow> fx_rate_row \<Rightarrow> real \<Rightarrow> real" where
  "in_rub gross r x = x * net_factor gross * fx_rub r"

definition converted :: "fx_rate_row \<Rightarrow> fx_vacancy \<Rightarrow> fx_vacancy" where
  "converted r v =
     (let rub = (\<lambda>x. numeric_scale 2 (in_rub (fv_gross v) r x)) in
      v\<lparr>fv_mid := map_option rub (middle (fv_from v) (fv_to v)), fv_from_rub := map_option rub (fv_from v),
        fv_to_rub := map_option rub (fv_to v), fv_rate_date := Some (fx_date r), fv_rate_provider := Some (fx_provider r)\<rparr>)"

definition column_fits :: "real option \<Rightarrow> bool" where
  "column_fits x \<longleftrightarrow> (case x of None \<Rightarrow> True | Some y \<Rightarrow> \<bar>y\<bar> < 10 ^ 10)"

definition vacancy_fits :: "fx_vacancy \<Rightarrow> bool" where
  "vacancy_fits v \<longleftrightarrow> column_fits (fv_mid v) \<and> column_fits (fv_from_rub v) \<and> column_fits (fv_to_rub v)"

text \<open>The update of a vacancy, when its rate is another one than the one it was converted with.\<close>

definition vacancy_update :: "'w fx_env \<Rightarrow> fx_rate_row list \<Rightarrow> fx_vacancy \<Rightarrow> fx_vacancy option" where
  "vacancy_update env rates v =
     (case vacancy_rate env rates v of
        None \<Rightarrow> None
      | Some r \<Rightarrow>
          if fv_rate_date v \<noteq> Some (fx_date r) \<or> fv_rate_provider v \<noteq> Some (fx_provider r) then Some (converted r v) else None)"

definition reconcile_vacancies :: "'w fx_env \<Rightarrow> fx_tables \<Rightarrow> (fx_tables \<times> int) option" where
  "reconcile_vacancies env d =
     (let news = List.map_filter (vacancy_update env (ft_rates d)) (ft_vacancies d) in
      if list_all vacancy_fits news
      then Some (d\<lparr>ft_vacancies := map (\<lambda>v. case vacancy_update env (ft_rates d) v of None \<Rightarrow> v | Some v' \<Rightarrow> v') (ft_vacancies d)\<rparr>,
                 int (length news))
      else None)"

definition observation_rate :: "'w fx_env \<Rightarrow> fx_rate_row list \<Rightarrow> fx_observation \<Rightarrow> fx_rate_row option" where
  "observation_rate env rates ob =
     (case foreign (fo_currency ob) of None \<Rightarrow> None | Some c \<Rightarrow> rate_for rates c (fe_day env (fo_published ob)))"

text \<open>The rate an observation is to be converted with, when it is another one than the one it has.\<close>

definition stale_rate :: "'w fx_env \<Rightarrow> fx_rate_row list \<Rightarrow> fx_observation \<Rightarrow> fx_rate_row option" where
  "stale_rate env rates ob =
     (case observation_rate env rates ob of
        None \<Rightarrow> None
      | Some r \<Rightarrow> if fo_rate_date ob \<noteq> Some (fx_date r) then Some r else None)"

definition observed_rub :: "fx_observation \<Rightarrow> fx_rate_row \<Rightarrow> real option" where
  "observed_rub ob r = map_option (in_rub (fo_gross ob) r) (middle (fo_from ob) (fo_to ob))"

text \<open>Without bounds the new \<^verbatim>\<open>salary_eligible\<close> is NULL, which the column refuses.\<close>

definition converted_observation :: "fx_rate_row \<Rightarrow> fx_observation \<Rightarrow> fx_observation option" where
  "converted_observation r ob =
     map_option (\<lambda>x. ob\<lparr>fo_mid := Some (numeric_scale 2 x), fo_eligible := (10000 \<le> x \<and> x \<le> 2000000),
        fo_rate_date := Some (fx_date r), fo_rate_provider := Some (fx_provider r)\<rparr>) (observed_rub ob r)"

text \<open>The check of the table: an eligible salary is within the limits, another one is not stored; a check that is NULL passes.\<close>

definition fx_observation_check :: "fx_observation \<Rightarrow> bool" where
  "fx_observation_check ob \<longleftrightarrow>
     (if fo_eligible ob then (case fo_mid ob of None \<Rightarrow> True | Some m \<Rightarrow> 10000 \<le> m \<and> m \<le> 2000000) else fo_mid ob = None)"

fun reconcile_rows :: "'w fx_env \<Rightarrow> fx_rate_row list \<Rightarrow> fx_observation list \<Rightarrow> (fx_observation list \<times> int) option" where
  "reconcile_rows env rates [] = Some ([], 0)"
| "reconcile_rows env rates (ob # obs) =
     (case stale_rate env rates ob of
        None \<Rightarrow> (case reconcile_rows env rates obs of None \<Rightarrow> None | Some (xs, n) \<Rightarrow> Some (ob # xs, n))
      | Some r \<Rightarrow>
          (case converted_observation r ob of
             None \<Rightarrow> None
           | Some x \<Rightarrow>
               if \<not> fx_observation_check x \<or> \<not> column_fits (fo_mid x) then None
               else (case reconcile_rows env rates obs of None \<Rightarrow> None | Some (xs, n) \<Rightarrow> Some (x # xs, n + 1))))"

definition reconcile_observations :: "'w fx_env \<Rightarrow> fx_tables \<Rightarrow> (fx_tables \<times> int) option" where
  "reconcile_observations env d =
     (case reconcile_rows env (ft_rates d) (ft_observations d) of
        None \<Rightarrow> None | Some (obs, n) \<Rightarrow> Some (d\<lparr>ft_observations := obs\<rparr>, n))"

record ReconcileResult =
  rc_VacanciesUpdated :: int
  rc_VacanciesMissing :: int
  rc_ObservationsUpdated :: int
  rc_ObservationsMissing :: int
  rc_SourceLinksMissing :: int

definition missing_vacancies :: "fx_tables \<Rightarrow> int \<times> int" where
  "missing_vacancies d =
     (int (length (filter (\<lambda>v. foreign (fv_currency v) \<noteq> None \<and> fv_rate_date v = None) (ft_vacancies d))),
      int (length (filter (\<lambda>v. fv_source v = ''hh'' \<and> fv_url v = None) (ft_vacancies d))))"

definition missing_observations :: "fx_tables \<Rightarrow> int" where
  "missing_observations d = int (length (filter (\<lambda>ob. foreign (fo_currency ob) \<noteq> None \<and> fo_mid ob = None) (ft_observations d)))"

definition Reconcile :: "'w fx_env \<Rightarrow> fx \<Rightarrow> fx \<times> (fx_error + ReconcileResult)" where
  "Reconcile env =
     and_do (fx_stmt env ''fx reconcile vacancies'' (\<lambda>_ _. reconcile_vacancies env)) (\<lambda>vs.
     and_do (fx_stmt env ''fx reconcile observations'' (\<lambda>_ _. reconcile_observations env)) (\<lambda>obs.
     and_do (fx_stmt env ''fx reconcile counts'' (\<lambda>_ _ d. Some (d, missing_vacancies d))) (\<lambda>miss.
     and_do (fx_stmt env ''fx reconcile observation counts'' (\<lambda>_ _ d. Some (d, missing_observations d))) (\<lambda>obsMissing.
       give \<lparr>rc_VacanciesUpdated = vs, rc_VacanciesMissing = fst miss, rc_ObservationsUpdated = obs,
         rc_ObservationsMissing = obsMissing, rc_SourceLinksMissing = snd miss\<rparr>))))"

section \<open>The command\<close>

function date_range :: "time \<Rightarrow> time \<Rightarrow> time list" where
  "date_range from to = (if from > to then [] else from # date_range (add_days from 1) to)"
  by pat_completeness auto

termination
  by (relation "measure (\<lambda>(from, to). nat (to - from + 1))") (auto simp: add_days_def Day_def)

declare date_range.simps [simp del]

text \<open>A map from days to times, in which the last time of a day stays, and its values in order.\<close>

fun last_of_days :: "time list \<Rightarrow> time list" where
  "last_of_days [] = []"
| "last_of_days (t # ts) = (if list_ex (\<lambda>u. format_date u = format_date t) ts then last_of_days ts else t # last_of_days ts)"

definition requestedDates :: "'w fx_env \<Rightarrow> fx \<Rightarrow> string \<Rightarrow> string \<Rightarrow> string \<Rightarrow> time \<Rightarrow> fx \<times> (fx_error + time list)" where
  "requestedDates env s dateRaw fromRaw toRaw now =
     (if dateRaw \<noteq> '''' then (s, case fe_iso env dateRaw of None \<Rightarrow> Inl FxBadDate | Some t \<Rightarrow> Inr [t])
      else if fromRaw \<noteq> '''' \<or> toRaw \<noteq> '''' then
        (s, case fe_iso env fromRaw of
           None \<Rightarrow> Inl FxBadFrom
         | Some from \<Rightarrow>
             (case fe_iso env toRaw of
                None \<Rightarrow> Inl FxBadTo
              | Some to \<Rightarrow> if to < from \<or> Sub to from > 366 * 24 * Hour then Inl FxBadTo else Inr (date_range from to)))
      else (case NeededDates env s now of
              (s, Inl e) \<Rightarrow> (s, Inl e)
            | (s, Inr needed) \<Rightarrow> (s, Inr (sort (last_of_days (needed @ [add_days now (- 7), now]))))))"

text \<open>\<^verbatim>\<open>retry\<close>: the last failed attempt is followed by a pause as well.\<close>

fun fx_retry :: "'w fx_env \<Rightarrow> nat \<Rightarrow> nat \<Rightarrow> ('w \<Rightarrow> 'w \<times> (fx_error + 'a)) \<Rightarrow> fx_error option \<Rightarrow> 'w \<Rightarrow> 'w \<times> (fx_error option + 'a)" where
  "fx_retry env 0 attempt op err w = (w, Inl err)"
| "fx_retry env (Suc n) attempt op _ w =
     (case op w of
        (w, Inr x) \<Rightarrow> (w, Inr x)
      | (w, Inl e) \<Rightarrow>
          (case fe_jitter env w of (w, j) \<Rightarrow>
           (case fe_wait env w (2 ^ attempt * Second + j * Millisecond) of
              (w, False) \<Rightarrow> (w, Inl (Some FxCancelled))
            | (w, True) \<Rightarrow> fx_retry env n (Suc attempt) op (Some e) w)))"

text \<open>A run that failed is closed with what it did; whether that works is not looked at.\<close>

definition close_failed :: "'w fx_env \<Rightarrow> fx \<Rightarrow> string \<Rightarrow> int \<Rightarrow> int \<Rightarrow> string \<Rightarrow> fx" where
  "close_failed env s run dates rates category = fst (FxFinishRun env s run ''failed'' dates rates category)"

fun sync_dates :: "'w fx_env \<Rightarrow> string \<Rightarrow> time list \<Rightarrow> int \<Rightarrow> int \<Rightarrow> 'w \<times> fx \<Rightarrow> ('w \<times> fx) \<times> (fx_error + int \<times> int)" where
  "sync_dates env run [] dates rates ws = (ws, Inr (dates, rates))"
| "sync_dates env run (day # days) dates rates (w, s) =
     (case fx_retry env 3 0 (Fetch env '''' day) None w of
        (w, Inl None) \<Rightarrow> ((w, s), Inl CbrFetch)
      | (w, Inl (Some e)) \<Rightarrow> ((w, close_failed env s run dates rates ''provider''), Inl e)
      | (w, Inr fetched) \<Rightarrow>
          (case Upsert env s fetched (fe_clock env w) of
             (s, Inl e) \<Rightarrow> ((w, close_failed env s run dates rates ''database''), Inl e)
           | (s, Inr n) \<Rightarrow>
               (case fe_wait env w (250 * Millisecond) of
                  (w, False) \<Rightarrow> ((w, s), Inl FxCancelled)
                | (w, True) \<Rightarrow> sync_dates env run days (dates + 1) (rates + n) (w, s))))"

text \<open>A run under the lock, from the row that says it started to the row that says how it ended.\<close>

definition sync_run :: "'w fx_env \<Rightarrow> time list \<Rightarrow> 'w \<times> fx \<Rightarrow> ('w \<times> fx) \<times> fx_error option" where
  "sync_run env days ws =
     (case ws of (w, s) \<Rightarrow>
      case FxStartRun env s (hd days) (last days) of
        (s, Inl e) \<Rightarrow> ((w, s), Some e)
      | (s, Inr run) \<Rightarrow>
          (case sync_dates env run days 0 0 (w, s) of
             ((w, s), Inl e) \<Rightarrow> ((w, s), Some e)
           | ((w, s), Inr (dates, rates)) \<Rightarrow>
               (case Reconcile env s of
                  (s, Inl e) \<Rightarrow> ((w, close_failed env s run dates rates ''database''), Some e)
                | (s, Inr _) \<Rightarrow>
                    (case FxFinishRun env s run ''success'' dates rates '''' of
                       (s, Inl e) \<Rightarrow> ((w, s), Some e)
                     | (s, Inr _) \<Rightarrow> ((w, s), None)))))"

text \<open>A lock that is not free makes the run a success that did nothing.\<close>

definition fx_sync :: "'w fx_env \<Rightarrow> string \<Rightarrow> string \<Rightarrow> string \<Rightarrow> 'w \<times> fx \<Rightarrow> ('w \<times> fx) \<times> fx_error option" where
  "fx_sync env dateRaw fromRaw toRaw ws =
     (case ws of (w, s) \<Rightarrow>
      case requestedDates env s dateRaw fromRaw toRaw (fe_clock env w) of
        (s, Inl e) \<Rightarrow> ((w, s), Some e)
      | (s, Inr days) \<Rightarrow>
          (case fe_lock env w of
             (w, None) \<Rightarrow> ((w, s), Some FxLock)
           | (w, Some False) \<Rightarrow> ((w, s), None)
           | (w, Some True) \<Rightarrow> (case sync_run env days (w, s) of ((w, s), err) \<Rightarrow> ((fe_unlock env w, s), err))))"

definition nextDaily :: "time \<Rightarrow> int \<Rightarrow> time" where
  "nextDaily now hour = (let next = day_start now + hour * Hour in if \<not> (next > now) then add_days next 1 else next)"

definition envInt :: "string \<Rightarrow> int \<Rightarrow> int" where
  "envInt text fallback = (case Atoi text of None \<Rightarrow> fallback | Some v \<Rightarrow> if v < 0 \<or> v > 23 then fallback else v)"

text \<open>The scheduler: a run, whatever its outcome, and the wait for the next one; at most \<open>n\<close> rounds are looked at.\<close>

fun fx_scheduler :: "'w fx_env \<Rightarrow> int \<Rightarrow> nat \<Rightarrow> 'w \<times> fx \<Rightarrow> ('w \<times> fx) \<times> bool" where
  "fx_scheduler env hour 0 ws = (ws, True)"
| "fx_scheduler env hour (Suc n) ws =
     (case fx_sync env '''' '''' '''' ws of ((w, s), _) \<Rightarrow>
      let now = fe_clock env w in
      case fe_wait env w (Sub (nextDaily now hour) now) of
        (w, False) \<Rightarrow> ((w, s), False)
      | (w, True) \<Rightarrow> fx_scheduler env hour n (w, s))"

section \<open>Reconciling settles\<close>

lemma fx_stmt_ok: "fx_stmt env label q s = (s', Inr x) \<Longrightarrow> q (db_tick s) (db_now (fe_db env) (db_tick s)) (db_data s) = Some (db_data s', x)"
  unfolding fx_stmt_def by (auto dest: stmt_ok)

lemma fx_stmt_error: "fx_stmt env label q s = (s', Inl e) \<Longrightarrow> db_data s' = db_data s \<and> e = FxDatabase label"
  unfolding fx_stmt_def by (auto dest: stmt_error)

lemma fx_stmt_live:
  "\<not> db_fails (fe_db env) (db_tick s) \<Longrightarrow> fx_stmt env label q s =
     (case q (db_tick s) (db_now (fe_db env) (db_tick s)) (db_data s) of
        None \<Rightarrow> (s\<lparr>db_tick := Suc (db_tick s)\<rparr>, Inl (FxDatabase label))
      | Some (d, x) \<Rightarrow> (s\<lparr>db_tick := Suc (db_tick s), db_data := d\<rparr>, Inr x))"
  by (simp add: fx_stmt_def stmt_def Let_def)

lemma vacancy_rate_converted [simp]: "vacancy_rate env rates (converted r v) = vacancy_rate env rates v"
  by (simp add: vacancy_rate_def converted_def Let_def)

lemma updated_settled:
  "vacancy_update env rates v = Some v' \<Longrightarrow> vacancy_update env rates v' = None"
  by (auto simp: vacancy_update_def split: option.splits if_splits) (auto simp: converted_def Let_def)

definition vacancy_after :: "'w fx_env \<Rightarrow> fx_rate_row list \<Rightarrow> fx_vacancy \<Rightarrow> fx_vacancy" where
  "vacancy_after env rates v = (case vacancy_update env rates v of None \<Rightarrow> v | Some v' \<Rightarrow> v')"

lemma after_settled [simp]: "vacancy_update env rates (vacancy_after env rates v) = None"
  by (auto simp: vacancy_after_def updated_settled split: option.splits)

lemma reconcile_vacancies_ok:
  "reconcile_vacancies env d = Some (d', n) \<Longrightarrow> d' = d\<lparr>ft_vacancies := map (vacancy_after env (ft_rates d)) (ft_vacancies d)\<rparr>"
  by (auto simp: reconcile_vacancies_def vacancy_after_def Let_def split: if_splits)

lemma settled_vacancies:
  "list_all (\<lambda>v. vacancy_update env (ft_rates d) v = None) (ft_vacancies d) \<Longrightarrow> reconcile_vacancies env d = Some (d, 0)"
proof -
  assume settled: "list_all (\<lambda>v. vacancy_update env (ft_rates d) v = None) (ft_vacancies d)"
  then have "List.map_filter (vacancy_update env (ft_rates d)) (ft_vacancies d) = []"
    by (induction "ft_vacancies d") (auto simp: List.map_filter_def list_all_iff filter_empty_conv)
  moreover have "map (\<lambda>v. case vacancy_update env (ft_rates d) v of None \<Rightarrow> v | Some v' \<Rightarrow> v') (ft_vacancies d) = ft_vacancies d"
    using settled by (auto simp: list_all_iff intro: map_idI)
  ultimately show ?thesis by (simp add: reconcile_vacancies_def)
qed

lemma observation_rate_converted: "converted_observation r ob = Some x \<Longrightarrow> observation_rate env rates x = observation_rate env rates ob"
  by (auto simp: converted_observation_def observation_rate_def split: option.split)

lemma stale_settled: "stale_rate env rates ob = Some r \<Longrightarrow> converted_observation r ob = Some x \<Longrightarrow> stale_rate env rates x = None"
  by (auto simp: stale_rate_def observation_rate_converted split: option.splits if_splits) (auto simp: converted_observation_def)

lemma reconcile_rows_settled: "reconcile_rows env rates obs = Some (xs, n) \<Longrightarrow> reconcile_rows env rates xs = Some (xs, 0)"
  by (induction obs arbitrary: xs n) (auto simp: stale_settled split: option.splits if_splits)

lemma Reconcile_ok:
  assumes "Reconcile env s = (s', Inr r)"
  obtains d n m where "reconcile_vacancies env (db_data s) = Some (d, n)" "reconcile_observations env d = Some (db_data s', m)"
    "rc_VacanciesUpdated r = n" "rc_ObservationsUpdated r = m"
    "rc_VacanciesMissing r = fst (missing_vacancies (db_data s'))" "rc_ObservationsMissing r = missing_observations (db_data s')"
  using assms unfolding Reconcile_def and_do_ok give_def by (auto dest!: fx_stmt_ok)

text \<open>
  C13. Reconciling settles: after a run that succeeded, every vacancy and observation with a rate in reach carries the
  rate it is to be converted with, and a second run on the same tables updates nothing and changes nothing.
\<close>

theorem reconcile_settles:
  assumes "Reconcile env s = (s1, Inr r1)" and "db_data s2 = db_data s1" and "Reconcile env s2 = (s3, Inr r2)"
  shows "db_data s3 = db_data s1 \<and> rc_VacanciesUpdated r2 = 0 \<and> rc_ObservationsUpdated r2 = 0
     \<and> list_all (\<lambda>v. vacancy_update env (ft_rates (db_data s1)) v = None) (ft_vacancies (db_data s1))
     \<and> list_all (\<lambda>ob. stale_rate env (ft_rates (db_data s1)) ob = None) (ft_observations (db_data s1))"
proof -
  obtain d n m where v: "reconcile_vacancies env (db_data s) = Some (d, n)" and ob: "reconcile_observations env d = Some (db_data s1, m)"
    using assms(1) by (rule Reconcile_ok)
  from ob obtain obs where obs: "reconcile_rows env (ft_rates d) (ft_observations d) = Some (obs, m)" and d1: "db_data s1 = d\<lparr>ft_observations := obs\<rparr>"
    by (auto simp: reconcile_observations_def split: option.splits)
  note dv = reconcile_vacancies_ok [OF v]
  have settled: "list_all (\<lambda>v. vacancy_update env (ft_rates (db_data s1)) v = None) (ft_vacancies (db_data s1))"
    by (simp add: d1 dv list_all_iff)
  have again: "reconcile_observations env (db_data s1) = Some (db_data s1, 0)"
    using reconcile_rows_settled [OF obs] by (simp add: reconcile_observations_def d1)
  have fresh: "list_all (\<lambda>ob. stale_rate env rates ob = None) xs" if "reconcile_rows env rates ys = Some (xs, k)" for rates ys xs and k :: int
    using that by (induction ys arbitrary: xs k) (auto simp: stale_settled split: option.splits if_splits)
  obtain d' n' m' where "reconcile_vacancies env (db_data s2) = Some (d', n')" "reconcile_observations env d' = Some (db_data s3, m')"
    "rc_VacanciesUpdated r2 = n'" "rc_ObservationsUpdated r2 = m'"
    using assms(3) by (rule Reconcile_ok)
  with settled_vacancies [OF settled] again assms(2) have "db_data s3 = db_data s1" "rc_VacanciesUpdated r2 = 0" "rc_ObservationsUpdated r2 = 0"
    by auto
  with settled fresh [OF obs] show ?thesis by (simp add: d1)
qed

section \<open>One observation stops it\<close>

definition within_limits :: "'w fx_env \<Rightarrow> fx_rate_row list \<Rightarrow> fx_observation \<Rightarrow> bool" where
  "within_limits env rates ob \<longleftrightarrow>
     (case stale_rate env rates ob of
        None \<Rightarrow> True
      | Some r \<Rightarrow> (case observed_rub ob r of None \<Rightarrow> False | Some x \<Rightarrow> 10000 \<le> x \<and> x \<le> 2000000))"

lemma converted_check:
  "(\<exists>x. converted_observation r ob = Some x \<and> fx_observation_check x \<and> column_fits (fo_mid x))
     \<longleftrightarrow> (case observed_rub ob r of None \<Rightarrow> False | Some x \<Rightarrow> 10000 \<le> x \<and> x \<le> 2000000)"
proof (cases "observed_rub ob r")
  case (Some x)
  have "10000 \<le> numeric_scale 2 x \<and> numeric_scale 2 x \<le> 2000000" if "10000 \<le> x" "x \<le> 2000000"
    using numeric_scale_bounds [of 10000 x 2000000 2] that by simp
  with Some show ?thesis by (auto simp: converted_observation_def fx_observation_check_def column_fits_def)
qed (simp add: converted_observation_def)

lemma reconcile_rows_iff: "reconcile_rows env rates obs = None \<longleftrightarrow> \<not> list_all (within_limits env rates) obs"
proof (induction obs)
  case (Cons ob obs)
  show ?case
  proof (cases "stale_rate env rates ob")
    case None
    then have "within_limits env rates ob" by (simp add: within_limits_def)
    with None Cons show ?thesis by (auto split: option.split)
  next
    case (Some r)
    then have w: "within_limits env rates ob \<longleftrightarrow> (\<exists>x. converted_observation r ob = Some x \<and> fx_observation_check x \<and> column_fits (fo_mid x))"
      by (simp add: within_limits_def converted_check)
    show ?thesis
    proof (cases "converted_observation r ob")
      case None
      with Some w show ?thesis by simp
    next
      case conv: (Some x)
      with Some w Cons show ?thesis by (auto split: option.split)
    qed
  qed
qed simp

definition all_fit :: "'w fx_env \<Rightarrow> fx_tables \<Rightarrow> bool" where
  "all_fit env d \<longleftrightarrow> list_all vacancy_fits (List.map_filter (vacancy_update env (ft_rates d)) (ft_vacancies d))"

text \<open>
  C12. One observation decides over all of them: when no statement fails, reconciling succeeds exactly if every
  observation that has a new rate converts to a salary within the limits, provided the amounts fit their columns. One
  that converts to less or more, or has no bounds, makes the whole statement fail, and no observation is updated.
\<close>

theorem reconcile_outcome:
  assumes "\<And>t. \<not> db_fails (fe_db env) t" and "all_fit env (db_data s)" and "Reconcile env s = (s', res)"
  shows "((\<exists>r. res = Inr r) \<longleftrightarrow> list_all (within_limits env (ft_rates (db_data s))) (ft_observations (db_data s)))
     \<and> ((\<exists>r. res = Inr r) \<or> ft_observations (db_data s') = ft_observations (db_data s))"
proof -
  define d where "d = (db_data s)\<lparr>ft_vacancies := map (vacancy_after env (ft_rates (db_data s))) (ft_vacancies (db_data s))\<rparr>"
  obtain n where v: "reconcile_vacancies env (db_data s) = Some (d, n)"
    using assms(2) by (simp add: reconcile_vacancies_def all_fit_def d_def vacancy_after_def)
  have rates: "ft_rates d = ft_rates (db_data s)" "ft_observations d = ft_observations (db_data s)" by (simp_all add: d_def)
  show ?thesis
  proof (cases "reconcile_rows env (ft_rates d) (ft_observations d)")
    case None
    then have "\<not> list_all (within_limits env (ft_rates d)) (ft_observations d)" by (simp add: reconcile_rows_iff)
    moreover have "res = Inl (FxDatabase ''fx reconcile observations'')" "db_data s' = d"
      using assms(3) v None by (auto simp: Reconcile_def and_do_def fx_stmt_live assms(1) reconcile_observations_def)
    ultimately show ?thesis by (simp add: rates)
  next
    case (Some out)
    then have "reconcile_rows env (ft_rates d) (ft_observations d) \<noteq> None" by simp
    then have "list_all (within_limits env (ft_rates d)) (ft_observations d)" by (simp add: reconcile_rows_iff)
    moreover have "\<exists>r. res = Inr r"
      using assms(3) v Some by (auto simp: Reconcile_def and_do_def give_def fx_stmt_live assms(1) reconcile_observations_def split: prod.splits)
    ultimately show ?thesis by (simp add: rates)
  qed
qed

section \<open>How a run ends\<close>

text \<open>The row of a run, among rows that satisfy their checks.\<close>

definition run_stands :: "string \<Rightarrow> string \<Rightarrow> int \<Rightarrow> fx_tables \<Rightarrow> bool" where
  "run_stands i status dates d \<longleftrightarrow> list_all run_row_check (ft_runs d)
     \<and> (\<exists>r \<in> set (ft_runs d). xr_id r = i \<and> xr_status r = status \<and> xr_dates r = dates)"

lemma run_stands_cong: "ft_runs d' = ft_runs d \<Longrightarrow> run_stands i status n d' = run_stands i status n d"
  by (simp add: run_stands_def)

lemma finish_live:
  assumes "\<And>t. \<not> db_fails (fe_db env) t" and "run_stands i st n0 (db_data s)" and "0 \<le> dates" "0 \<le> rates"
    and "status = ''success'' \<or> status = ''failed''"
  shows "\<exists>s'. FxFinishRun env s i status dates rates category = (s', Inr ()) \<and> run_stands i status dates (db_data s')"
proof -
  define f where "f r = (if xr_id r = i then finished_row status dates rates category (db_now (fe_db env) (db_tick s)) r else r)" for r
  have "list_all run_row_check (map f (ft_runs (db_data s)))"
    using assms(2-5) by (auto simp: run_stands_def list_all_iff f_def run_row_check_def finished_row_def)
  moreover obtain r where "r \<in> set (ft_runs (db_data s))" "xr_id r = i" using assms(2) by (auto simp: run_stands_def)
  then have "f r \<in> set (map f (ft_runs (db_data s)))" "xr_id (f r) = i \<and> xr_status (f r) = status \<and> xr_dates (f r) = dates"
    by (simp_all add: f_def finished_row_def)
  then have "\<exists>r \<in> set (map f (ft_runs (db_data s))). xr_id r = i \<and> xr_status r = status \<and> xr_dates r = dates" by blast
  ultimately have "run_stands i status dates ((db_data s)\<lparr>ft_runs := map f (ft_runs (db_data s))\<rparr>)"
    and "list_all run_row_check (map f (ft_runs (db_data s)))"
    by (simp_all add: run_stands_def)
  then show ?thesis by (simp add: FxFinishRun_def fx_stmt_live assms(1) f_def [symmetric] Let_def)
qed

lemma Upsert_ok: "Upsert env s rs tm = (s', Inr n) \<Longrightarrow> ft_runs (db_data s') = ft_runs (db_data s) \<and> n = int (length rs)"
  unfolding Upsert_def by (drule fx_stmt_ok) (auto simp: eq_commute [of "_\<lparr>ft_rates := _\<rparr>"] split: option.splits)

lemma Upsert_error: "Upsert env s rs tm = (s', Inl e) \<Longrightarrow> db_data s' = db_data s"
  unfolding Upsert_def by (auto dest!: fx_stmt_error)

text \<open>Operations that leave the rows of the runs alone.\<close>

definition keeps_runs :: "(fx \<Rightarrow> fx \<times> 'r) \<Rightarrow> bool" where
  "keeps_runs m \<longleftrightarrow> (\<forall>s. ft_runs (db_data (fst (m s))) = ft_runs (db_data s))"

lemma keeps_and_do: "keeps_runs m \<Longrightarrow> (\<And>x. keeps_runs (k x)) \<Longrightarrow> keeps_runs (and_do m k)"
  unfolding keeps_runs_def and_do_def by (auto split: prod.split sum.split) (metis fst_conv)+

lemma keeps_give: "keeps_runs (give x)"
  by (simp add: keeps_runs_def give_def)

lemma keeps_stmt: "(\<And>t now d d' x. q t now d = Some (d', x) \<Longrightarrow> ft_runs d' = ft_runs d) \<Longrightarrow> keeps_runs (fx_stmt env l q)"
  unfolding keeps_runs_def
proof
  fix s
  assume q: "\<And>t now d d' x. q t now d = Some (d', x) \<Longrightarrow> ft_runs d' = ft_runs d"
  obtain s' r where m: "fx_stmt env l q s = (s', r)" by fastforce
  then show "ft_runs (db_data (fst (fx_stmt env l q s))) = ft_runs (db_data s)"
    by (cases r) (auto dest: fx_stmt_error intro: q dest!: fx_stmt_ok)
qed

lemma Reconcile_runs: "Reconcile env s = (s', res) \<Longrightarrow> ft_runs (db_data s') = ft_runs (db_data s)"
proof -
  have "keeps_runs (Reconcile env)"
    unfolding Reconcile_def
    by (intro keeps_and_do keeps_give keeps_stmt)
      (auto simp: reconcile_observations_def dest: reconcile_vacancies_ok split: option.splits)
  then show "Reconcile env s = (s', res) \<Longrightarrow> ?thesis" unfolding keeps_runs_def by (metis fst_conv)
qed

lemma retry_reports: "\<And>w'. fx_retry env (Suc n) a op e w = (w', Inl r) \<Longrightarrow> r \<noteq> None"
proof (induction n arbitrary: a e w)
  case (Suc n)
  obtain w1 x where o1: "op w = (w1, x)" by fastforce
  obtain w2 j where j: "fe_jitter env w1 = (w2, j)" by fastforce
  obtain w3 b where b: "fe_wait env w2 (2 ^ a * Second + j * Millisecond) = (w3, b)" by fastforce
  show ?case
  proof (cases x)
    case (Inl y)
    with Suc.prems o1 j b Suc.IH [of "Suc a" "Some y" w3] show ?thesis by (cases b) auto
  qed (use Suc.prems o1 in simp)
qed (auto split: prod.splits sum.splits bool.splits)

lemma sync_dates_outcome:
  assumes live: "\<And>t. \<not> db_fails (fe_db env) t" and waits: "\<And>w d. snd (fe_wait env w d)"
  shows "run_stands run ''running'' 0 (db_data s) \<Longrightarrow> 0 \<le> n \<Longrightarrow> 0 \<le> k \<Longrightarrow> sync_dates env run days n k (w, s) = ((w', s'), res)
     \<Longrightarrow> (case res of Inr (n', k') \<Rightarrow> run_stands run ''running'' 0 (db_data s') \<and> n' = n + int (length days) \<and> 0 \<le> k'
                   | Inl e \<Rightarrow> \<exists>m. run_stands run ''failed'' m (db_data s'))"
proof (induction days arbitrary: n k w s)
  case Nil
  then show ?case by auto
next
  case (Cons day days)
  have closed: "\<exists>m. run_stands run ''failed'' m (db_data (close_failed env s0 run n k category))"
    if "run_stands run ''running'' 0 (db_data s0)" for s0 category
    using finish_live [OF live that Cons.prems(2,3), of "''failed''" category] by (auto simp: close_failed_def)
  obtain w1 r where f: "fx_retry env 3 0 (Fetch env '''' day) None w = (w1, r)" by fastforce
  show ?case
  proof (cases r)
    case (Inl e)
    have "e \<noteq> None" using retry_reports [of env 2 0 _ None w] f Inl by (simp add: numeral_3_eq_3 numeral_2_eq_2)
    with Cons.prems f Inl closed show ?thesis by auto
  next
    case (Inr fetched)
    obtain s1 u where u: "Upsert env s fetched (fe_clock env w1) = (s1, u)" by fastforce
    show ?thesis
    proof (cases u)
      case (Inl e)
      then have "db_data s1 = db_data s" using u Upsert_error by blast
      with Cons.prems f Inr u Inl closed [of s1] show ?thesis by auto
    next
      case u': (Inr m)
      note ok = Upsert_ok [OF u [unfolded u']]
      obtain w2 where wt: "fe_wait env w1 (250 * Millisecond) = (w2, True)" using waits [of w1] by (metis prod.collapse)
      have "sync_dates env run days (n + 1) (k + m) (w2, s1) = ((w', s'), res)"
        using Cons.prems(4) f Inr u u' wt by simp
      moreover have "run_stands run ''running'' 0 (db_data s1)" using Cons.prems(1) ok run_stands_cong by blast
      ultimately show ?thesis using Cons.IH [of s1 "n + 1" "k + m" w2] Cons.prems(2,3) ok by (auto split: sum.splits)
    qed
  qed
qed

lemma day_start_mono: "t \<le> u \<Longrightarrow> day_start t \<le> day_start u"
proof -
  assume "t \<le> u"
  then have "Day * (t div Day) \<le> Day * (u div Day)" by (simp add: Day_def zdiv_mono1)
  then show ?thesis by (simp add: day_start_def minus_mod_eq_mult_div)
qed

text \<open>
  C11. A run says how it ended: when the database answers and no wait is interrupted, a run that was started ends with
  its row closed, as a success over all its days exactly if the command reports no error, and as failed otherwise.
\<close>

theorem sync_outcome:
  assumes "\<And>t. \<not> db_fails (fe_db env) t" and "\<And>w d. snd (fe_wait env w d)"
    and "list_all run_row_check (ft_runs (db_data s))" and "days \<noteq> []" "hd days \<le> last days"
    and "db_uuid (fe_db env) (db_tick s) \<notin> xr_id ` set (ft_runs (db_data s))"
    and "sync_run env days (w, s) = ((w', s'), err)"
  shows "\<exists>r \<in> set (ft_runs (db_data s')). xr_id r = db_uuid (fe_db env) (db_tick s) \<and> xr_finished r \<noteq> None
     \<and> xr_status r = (if err = None then ''success'' else ''failed'') \<and> (err = None \<longrightarrow> xr_dates r = int (length days))"
proof -
  define i where "i = db_uuid (fe_db env) (db_tick s)"
  define row where "row = start_row i (hd days) (last days) (db_now (fe_db env) (db_tick s))"
  have "day_start (hd days) \<le> day_start (last days)" using assms(5) by (rule day_start_mono)
  then have check: "run_row_check row" by (simp add: row_def start_row_def run_row_check_def)
  obtain s1 where s1: "FxStartRun env s (hd days) (last days) = (s1, Inr i)" and d1: "ft_runs (db_data s1) = ft_runs (db_data s) @ [row]"
    using assms(6) check by (simp add: FxStartRun_def fx_stmt_live assms(1) row_def [symmetric] i_def [symmetric] Let_def)
  have stands: "run_stands i ''running'' 0 (db_data s1)"
    using assms(3) check by (auto simp: run_stands_def d1 row_def start_row_def)
  have result: ?thesis if "run_stands i (if err = None then ''success'' else ''failed'') m (db_data s')" "err = None \<Longrightarrow> m = int (length days)" for m
    using that by (fastforce simp: run_stands_def list_all_iff run_row_check_def i_def)
  obtain w2 s2 r2 where d: "sync_dates env i days 0 0 (w, s1) = ((w2, s2), r2)" by (metis surj_pair)
  note out = sync_dates_outcome [OF assms(1,2) stands order_refl order_refl d]
  show ?thesis
  proof (cases r2)
    case (Inl e)
    then obtain m where "run_stands i ''failed'' m (db_data s2)" using out by auto
    moreover have "s' = s2" "err = Some e" using assms(7) s1 d Inl by (simp_all add: sync_run_def)
    ultimately show ?thesis using result [of m] by simp
  next
    case (Inr p)
    obtain n k where p: "p = (n, k)" by fastforce
    have pt: "run_stands i ''running'' 0 (db_data s2)" "n = int (length days)" "0 \<le> k" using out Inr p by auto
    obtain s3 r3 where rc: "Reconcile env s2 = (s3, r3)" by fastforce
    have pt3: "run_stands i ''running'' 0 (db_data s3)" using pt(1) Reconcile_runs [OF rc] run_stands_cong by blast
    have n0: "0 \<le> n" using pt(2) by simp
    show ?thesis
    proof (cases r3)
      case (Inl e)
      obtain s4 where f: "FxFinishRun env s3 i ''failed'' n k ''database'' = (s4, Inr ())" "run_stands i ''failed'' n (db_data s4)"
        using finish_live [OF assms(1) pt3 n0 pt(3)] by blast
      then have "s' = s4" "err = Some e" using assms(7) s1 d Inr p rc Inl by (simp_all add: sync_run_def close_failed_def)
      with f show ?thesis using result [of n] by simp
    next
      case r3: (Inr x)
      obtain s4 where f: "FxFinishRun env s3 i ''success'' n k '''' = (s4, Inr ())" "run_stands i ''success'' n (db_data s4)"
        using finish_live [OF assms(1) pt3 n0 pt(3)] by blast
      then have "s' = s4" "err = None" using assms(7) s1 d Inr p rc r3 by (simp_all add: sync_run_def)
      with f pt(2) show ?thesis using result [of n] by simp
    qed
  qed
qed

text \<open>A wait that is interrupted ends the command and leaves the row of its run as it was: still running.\<close>

lemma interrupted_run_open:
  assumes "fx_retry env 3 0 (Fetch env '''' day) None w = (w1, Inr fetched)" and "Upsert env s fetched (fe_clock env w1) = (s1, Inr n)"
    and "fe_wait env w1 (250 * Millisecond) = (w2, False)" and "run_stands run ''running'' 0 (db_data s)"
  shows "sync_dates env run (day # days) dates rates (w, s) = ((w2, s1), Inl FxCancelled) \<and> run_stands run ''running'' 0 (db_data s1)"
  using assms Upsert_ok [OF assms(2)] by (simp add: run_stands_def)

section \<open>The next run\<close>

text \<open>
  The scheduler waits for the next full hour it was given: the next run lies after now and at most a day ahead,
  is at that hour of its day, and no earlier time after now is.
\<close>

theorem nextDaily_next:
  assumes "0 \<le> hour" "hour \<le> 23"
  shows "now < nextDaily now hour \<and> nextDaily now hour \<le> now + Day \<and> nextDaily now hour - day_start (nextDaily now hour) = hour * Hour
     \<and> (\<forall>t. now < t \<and> t - day_start t = hour * Hour \<longrightarrow> nextDaily now hour \<le> t)"
proof -
  have h: "0 \<le> hour * Hour" "hour * Hour < Day" using assms by (auto simp: Hour_def Day_def)
  have ds: "day_start t = t - t mod Day" for t by (simp add: day_start_def)
  define b where "b = day_start now"
  have b: "b \<le> now" "now < b + Day" using day_start_le [of now] by (auto simp: b_def ds Day_def)
  have mult: "b mod Day = 0" by (simp add: b_def ds)
  have pt: "day_start (b + hour * Hour) = b" "day_start (b + Day + hour * Hour) = b + Day"
    using h mult by (simp_all add: ds mod_add_left_eq [symmetric])
  have nx: "nextDaily now hour = (if b + hour * Hour > now then b + hour * Hour else b + Day + hour * Hour)"
    by (simp add: nextDaily_def Let_def b_def add_days_def)
  have first: "nextDaily now hour \<le> t" if t: "now < t" "t - day_start t = hour * Hour" for t
  proof -
    define c where "c = day_start t"
    have "c mod Day = 0" unfolding c_def ds by simp
    then have c: "t = c + hour * Hour" "c mod Day = 0" using t(2) by (auto simp: c_def)
    then obtain k l where k: "c = Day * k" "b = Day * l" using mult by (metis mod_0_imp_dvd dvdE)
    have "b < c + Day" using c(1) t(1) b(1) h by linarith
    then have "Day * l < Day * (k + 1)" by (simp add: k algebra_simps)
    then have "l \<le> k" by (simp add: Day_def)
    then have le: "b \<le> c" by (simp add: k Day_def)
    show ?thesis
    proof (cases "b + hour * Hour > now")
      case False
      then have "b \<noteq> c" using c(1) t(1) by linarith
      then have "l + 1 \<le> k" using \<open>l \<le> k\<close> k by (cases "l = k") auto
      then have "Day * (l + 1) \<le> Day * k" by (simp add: Day_def)
      then have "b + Day \<le> c" by (simp add: k algebra_simps)
      with False c(1) show ?thesis by (simp add: nx)
    qed (use le c(1) in \<open>simp add: nx\<close>)
  qed
  show ?thesis using first b h pt by (auto simp: nx)
qed

theorem nextDaily_next_witness: "nextDaily 0 6 = 6 * Hour \<and> 0 < nextDaily 0 6"
  using nextDaily_next [of 6 0] by (simp add: nextDaily_def day_start_def Hour_def Let_def)

section \<open>Examples\<close>

text \<open>A bank that quotes the euro at 90 roubles, a database without failures, and waits that pass.\<close>

definition calm_fx :: "unit fx_env" where
  "calm_fx = \<lparr>fe_db = \<lparr>db_fails = (\<lambda>_. False), db_now = int, db_uuid = (\<lambda>n. ''run'' @ digits n)\<rparr>,
     fe_do = (\<lambda>w _. (w, Some (200, ''xml''))),
     fe_xml = (\<lambda>_. Some \<lparr>cb_Date = ''01.01.0001'', cb_Rates = [\<lparr>xq_ID = ''R1'', xq_Code = ''EUR'', xq_Nominal = 1, xq_Value = ''90''\<rparr>]\<rparr>),
     fe_dotted = (\<lambda>_. Some 0), fe_iso = (\<lambda>_. Some 0), fe_float = (\<lambda>_. Some (Finite_number 90)), fe_numeric = (\<lambda>_. Some 90),
     fe_clock = (\<lambda>_. 0), fe_jitter = (\<lambda>w. (w, 0)), fe_wait = (\<lambda>w _. (w, True)), fe_lock = (\<lambda>w. (w, Some True)), fe_unlock = id,
     fe_day = day_start, fe_midnight = id\<rparr>"

definition euro_rate :: fx_rate_row where
  "euro_rate = \<lparr>fx_date = 0, fx_provider = ''cbr'', fx_base = ''RUB'', fx_quote = ''EUR'', fx_rub = 90, fx_nominal = 1,
     fx_source_value = 90, fx_fetched = 0, fx_revision = ''R1'', fx_provenance = ''u''\<rparr>"

definition euro_vacancy :: fx_vacancy where
  "euro_vacancy = \<lparr>fv_id = ''v1'', fv_source = ''hh'', fv_url = None, fv_published = Some 0, fv_from = Some 1000, fv_to = None,
     fv_currency = Some ''EUR'', fv_gross = None, fv_mid = None, fv_from_rub = None, fv_to_rub = None, fv_rate_date = None,
     fv_rate_provider = None\<rparr>"

definition euro_observation :: "real \<Rightarrow> fx_observation" where
  "euro_observation x = \<lparr>fo_cycle = ''c1'', fo_source = ''hh'', fo_external = ''1'', fo_published = 0, fo_from = Some x, fo_to = None,
     fo_currency = Some ''EUR'', fo_gross = None, fo_mid = None, fo_eligible = False, fo_rate_date = None, fo_rate_provider = None\<rparr>"

definition example_fx :: "real \<Rightarrow> fx" where
  "example_fx x = \<lparr>db_data = \<lparr>ft_rates = [euro_rate], ft_runs = [], ft_vacancies = [euro_vacancy], ft_observations = [euro_observation x],
     ft_demand = []\<rparr>, db_tick = 0\<rparr>"

lemma calm_fx_live: "\<not> db_fails (fe_db calm_fx) t" "snd (fe_wait calm_fx w d)"
  by (simp_all add: calm_fx_def)

lemma euro_foreign: "foreign (Some ''EUR'') = Some ''EUR''"
  by (simp add: foreign_def trim_by_def)

lemma euro_for: "rate_for [euro_rate] ''EUR'' (fe_day calm_fx 0) = Some euro_rate"
  by (simp add: rate_for_def euro_rate_def CbrProvider_def calm_fx_def day_start_def add_days_def Day_def)

lemma euro_converted: "vacancy_update calm_fx [euro_rate] euro_vacancy = Some (converted euro_rate euro_vacancy)"
  using euro_for by (simp add: vacancy_update_def vacancy_rate_def euro_vacancy_def euro_foreign)

lemma euro_scale: "numeric_scale 2 90000 = 90000"
  using numeric_scale_of_int [of 90000 2] by simp

lemma euro_fits: "vacancy_fits (converted euro_rate euro_vacancy)"
  by (simp add: vacancy_fits_def column_fits_def converted_def euro_vacancy_def middle_def in_rub_def net_factor_def euro_rate_def euro_scale Let_def)

lemma euro_all_fit: "all_fit calm_fx (db_data (example_fx x))"
  by (simp add: all_fit_def example_fx_def euro_converted euro_fits List.map_filter_simps)

lemma euro_stale: "stale_rate calm_fx [euro_rate] (euro_observation x) = Some euro_rate"
  using euro_for by (simp add: stale_rate_def observation_rate_def euro_observation_def euro_foreign)

lemma euro_observed: "observed_rub (euro_observation x) euro_rate = Some (x * 90)"
  by (simp add: observed_rub_def euro_observation_def middle_def in_rub_def net_factor_def euro_rate_def)

lemma euro_within: "within_limits calm_fx [euro_rate] (euro_observation x) \<longleftrightarrow> 10000 \<le> x * 90 \<and> x * 90 \<le> 2000000"
  by (simp add: within_limits_def euro_stale euro_observed)

lemma calm_reconciles:
  assumes "all_fit calm_fx (db_data s)" "list_all (within_limits calm_fx (ft_rates (db_data s))) (ft_observations (db_data s))"
  shows "\<exists>s' r. Reconcile calm_fx s = (s', Inr r)"
proof -
  obtain d n where v: "reconcile_vacancies calm_fx (db_data s) = Some (d, n)"
    using assms(1) by (simp add: reconcile_vacancies_def all_fit_def)
  then have "ft_rates d = ft_rates (db_data s)" "ft_observations d = ft_observations (db_data s)" by (auto dest: reconcile_vacancies_ok)
  then have "reconcile_rows calm_fx (ft_rates d) (ft_observations d) \<noteq> None" using assms(2) by (simp add: reconcile_rows_iff)
  then show ?thesis using v
    by (auto simp: Reconcile_def and_do_def give_def fx_stmt_live calm_fx_live reconcile_observations_def)
qed

theorem reconcile_settles_witness:
  "\<exists>s1 r1 s3 r2. Reconcile calm_fx (example_fx 1000) = (s1, Inr r1) \<and> Reconcile calm_fx s1 = (s3, Inr r2)
     \<and> db_data s3 = db_data s1 \<and> rc_VacanciesUpdated r2 = 0"
proof -
  obtain s1 r1 where r1: "Reconcile calm_fx (example_fx 1000) = (s1, Inr r1)"
    using calm_reconciles [OF euro_all_fit [of 1000]] by (auto simp: example_fx_def euro_within)
  obtain d n m where d: "reconcile_vacancies calm_fx (db_data (example_fx 1000)) = Some (d, n)"
    "reconcile_observations calm_fx d = Some (db_data s1, m)" using r1 by (rule Reconcile_ok)
  obtain obs where obs: "reconcile_rows calm_fx (ft_rates d) (ft_observations d) = Some (obs, m)" "db_data s1 = d\<lparr>ft_observations := obs\<rparr>"
    using d(2) by (auto simp: reconcile_observations_def split: option.splits)
  have "reconcile_rows calm_fx (ft_rates (db_data s1)) (ft_observations (db_data s1)) \<noteq> None"
    using reconcile_rows_settled [OF obs(1)] by (simp add: obs(2))
  then have w: "list_all (within_limits calm_fx (ft_rates (db_data s1))) (ft_observations (db_data s1))" by (simp add: reconcile_rows_iff)
  have "list_all (\<lambda>v. vacancy_update calm_fx (ft_rates (db_data s1)) v = None) (ft_vacancies (db_data s1))"
    using reconcile_vacancies_ok [OF d(1)] by (simp add: obs(2) list_all_iff)
  then have f: "all_fit calm_fx (db_data s1)" unfolding all_fit_def by (auto simp: list_all_iff map_filter_def)
  obtain s3 r2 where r2: "Reconcile calm_fx s1 = (s3, Inr r2)" using calm_reconciles [OF f w] by blast
  from reconcile_settles [OF r1 refl r2] r1 r2 show ?thesis by blast
qed

theorem reconcile_outcome_witness:
  "\<exists>s' res. Reconcile calm_fx (example_fx 1) = (s', res) \<and> (\<nexists>r. res = Inr r) \<and> ft_observations (db_data s') = [euro_observation 1]"
proof -
  obtain s' res where r: "Reconcile calm_fx (example_fx 1) = (s', res)" by fastforce
  have "\<not> list_all (within_limits calm_fx (ft_rates (db_data (example_fx 1)))) (ft_observations (db_data (example_fx 1)))"
    by (simp add: example_fx_def euro_within)
  with reconcile_outcome [OF calm_fx_live(1) euro_all_fit r] have "\<nexists>r. res = Inr r" "ft_observations (db_data s') = [euro_observation 1]"
    by (auto simp: example_fx_def)
  with r show ?thesis by blast
qed

theorem sync_outcome_witness:
  "\<exists>w' s' err. sync_run calm_fx [0] ((), example_fx 1000) = ((w', s'), err)
     \<and> (\<exists>r \<in> set (ft_runs (db_data s')). xr_id r = ''run'' @ digits 0 \<and> xr_finished r \<noteq> None)"
proof -
  obtain w' s' err where r: "sync_run calm_fx [0] ((), example_fx 1000) = ((w', s'), err)" by (metis surj_pair)
  from sync_outcome [OF calm_fx_live _ _ _ _ r] have "\<exists>r \<in> set (ft_runs (db_data s')). xr_id r = ''run'' @ digits 0 \<and> xr_finished r \<noteq> None"
    by (auto simp: example_fx_def calm_fx_def)
  with r show ?thesis by blast
qed

end
