(* ===== verification/Market_Repo.thy ===== *)
theory Market_Repo
  imports Read_Api Pg_Store Analytics "HOL-Library.Product_Lexorder"
begin

text \<open>
  The repository behind the read API, \<^verbatim>\<open>apps/bff/internal/repository/postgres.go\<close>, with the response types of
  \<^verbatim>\<open>apps/bff/internal/readapi/models.go\<close>. Its queries read the tables the ingest store writes
  (\<^theory_text>\<open>Pg_Store\<close>) and the snapshots of the analytics worker (\<^theory_text>\<open>Analytics\<close>). Arguments: the failures and
  the clock of the database, the casts between days and times of its session, the canonical form of an identifier, the
  sort key of its collation, and \<^verbatim>\<open>ILIKE\<close>.
\<close>

section \<open>Tables and statements\<close>

text \<open>Beside those two groups of tables: the kinds of the skills and the names of the sources.\<close>

record market_tables =
  mk_store :: pg_tables
  mk_demand :: an_db
  mk_kinds :: "(string \<times> string) list"
  mk_sources :: "(string \<times> string) list"

type_synonym market = "market_tables conn"

record market_env =
  me_db :: db_env
  me_midnight :: "time \<Rightarrow> time"
  me_day :: "time \<Rightarrow> time"
  me_uuid :: "string \<Rightarrow> string"
  me_collate :: "string \<Rightarrow> string"
  me_ilike :: "string \<Rightarrow> string \<Rightarrow> bool"

definition market_read :: "market_env \<Rightarrow> string \<Rightarrow> (time \<Rightarrow> market_tables \<Rightarrow> 'a) \<Rightarrow> market \<Rightarrow> market \<times> (read_error + 'a)" where
  "market_read env label f = stmt (me_db env) (ErrOther label) (\<lambda>t d. Some (d, f (db_now (me_db env) t) d))"

section \<open>Conditions the queries share\<close>

definition market_families :: "string list" where
  "market_families = [''software_development'', ''analytics'', ''quality_assurance'']"

definition market_family :: "pg_named \<Rightarrow> bool" where
  "market_family r \<longleftrightarrow> (case nm_family r of None \<Rightarrow> False | Some f \<Rightarrow> List.member market_families f)"

definition role_in_market :: "market_tables \<Rightarrow> pg_vacancy \<Rightarrow> bool" where
  "role_in_market d v \<longleftrightarrow> list_ex (\<lambda>r. va_role v = Some (nm_id r) \<and> market_family r) (pt_roles (mk_store d))"

definition in_period :: "market_env \<Rightarrow> Period \<Rightarrow> time \<Rightarrow> bool" where
  "in_period env p t \<longleftrightarrow> me_midnight env (day_start (pd_From p)) \<le> t \<and> t < me_midnight env (add_days (day_start (pd_To p)) 1)"

definition published_in :: "market_env \<Rightarrow> Period \<Rightarrow> pg_vacancy \<Rightarrow> bool" where
  "published_in env p v \<longleftrightarrow> (case va_published v of None \<Rightarrow> False | Some t \<Rightarrow> in_period env p t)"

text \<open>\<^verbatim>\<open>($n = '' OR column = $n::uuid)\<close>\<close>

definition given_id :: "market_env \<Rightarrow> string \<Rightarrow> string option \<Rightarrow> bool" where
  "given_id env x actual \<longleftrightarrow> x = '''' \<or> actual = Some (me_uuid env x)"

definition given_source :: "string \<Rightarrow> pg_vacancy \<Rightarrow> bool" where
  "given_source x v \<longleftrightarrow> x = '''' \<or> va_source v = x"

definition not_deleted :: "pg_vacancy \<Rightarrow> bool" where
  "not_deleted v \<longleftrightarrow> va_deleted v = None"

definition selected :: "market_env \<Rightarrow> AnalyticsFilter \<Rightarrow> pg_vacancy \<Rightarrow> bool" where
  "selected env f v \<longleftrightarrow> given_id env (af_RoleID f) (va_role v) \<and> given_id env (af_RegionID f) (va_region v) \<and> given_source (af_Source f) v"

definition in_scope_of :: "market_tables \<Rightarrow> string \<Rightarrow> pg_vacancy \<Rightarrow> bool" where
  "in_scope_of d scope v \<longleftrightarrow> list_ex (\<lambda>(i, _, s). i = va_id v \<and> s = scope) (pt_vacancy_scopes (mk_store d))"

text \<open>Salaries that count, and the percentiles of them.\<close>

definition market_salaries :: "pg_vacancy list \<Rightarrow> real list" where
  "market_salaries vs = List.map_filter (\<lambda>v. case va_mid v of None \<Rightarrow> None | Some m \<Rightarrow> if 10000 \<le> m \<and> m \<le> 2000000 then Some m else None) vs"

definition percentile_cont :: "real \<Rightarrow> real list \<Rightarrow> real option" where
  "percentile_cont p xs =
     (if xs = [] then None
      else let ys = sort xs; pos = p * real (length ys - 1); lo = nat \<lfloor>pos\<rfloor>; hi = nat \<lceil>pos\<rceil>
           in Some (ys ! lo + (pos - of_int \<lfloor>pos\<rfloor>) * (ys ! hi - ys ! lo)))"

definition percentile_or_zero :: "real \<Rightarrow> real list \<Rightarrow> real" where
  "percentile_or_zero p xs = (case percentile_cont p xs of None \<Rightarrow> 0 | Some x \<Rightarrow> x)"

text \<open>\<^verbatim>\<open>LIMIT size OFFSET (number - 1) * size\<close>\<close>

definition page_slice :: "Page \<Rightarrow> 'a list \<Rightarrow> 'a list" where
  "page_slice p xs = take (nat (pg_Size p)) (drop (nat ((pg_Number p - 1) * pg_Size p)) xs)"

section \<open>Display currencies\<close>

record displayRate =
  dp_factor :: real
  dp_date :: "string option"
  dp_provider :: string

definition no_rate :: displayRate where "no_rate = \<lparr>dp_factor = 0, dp_date = None, dp_provider = ''''\<rparr>"
definition rub_rate :: displayRate where "rub_rate = \<lparr>dp_factor = 1, dp_date = None, dp_provider = ''''\<rparr>"

definition displayCurrency :: "string \<Rightarrow> string" where
  "displayCurrency currency = (if List.member [''USD'', ''EUR'', ''CNY'', ''KZT'', ''AMD''] currency then currency else ''RUB'')"

definition convertMoney :: "real \<Rightarrow> displayRate \<Rightarrow> real" where
  "convertMoney x rate = (if dp_factor rate \<le> 0 then 0 else of_int (math_round (x / dp_factor rate * 100)) / 100)"

definition convertMoneyPointer :: "real option \<Rightarrow> displayRate \<Rightarrow> real option" where
  "convertMoneyPointer x rate = (case x of None \<Rightarrow> None | Some y \<Rightarrow> if dp_factor rate \<le> 0 then None else Some (convertMoney y rate))"

definition toCanonicalRUB :: "real option \<Rightarrow> displayRate \<Rightarrow> real option" where
  "toCanonicalRUB x rate =
     (case x of None \<Rightarrow> None
      | Some y \<Rightarrow> if dp_factor rate \<le> 0 then None else Some (of_int (math_round (y * dp_factor rate * 100)) / 100))"

definition cbr_display_rates :: "string \<Rightarrow> market_tables \<Rightarrow> pg_rate list" where
  "cbr_display_rates currency d = filter (\<lambda>r. fr_currency r = currency \<and> fr_provider r = ''cbr'') (pt_rates (mk_store d))"

definition display_of :: "pg_rate \<Rightarrow> displayRate" where
  "display_of r = \<lparr>dp_factor = fr_rate r, dp_date = Some (format_date (fr_date r)), dp_provider = fr_provider r\<rparr>"

text \<open>\<^verbatim>\<open>ORDER BY rate_date DESC LIMIT 1\<close>\<close>

fun newest_display :: "pg_rate list \<Rightarrow> pg_rate option" where
  "newest_display [] = None"
| "newest_display (r # rs) = (case newest_display rs of None \<Rightarrow> Some r | Some x \<Rightarrow> Some (if fr_date r < fr_date x then x else r))"

definition current_rate :: "market_env \<Rightarrow> string \<Rightarrow> time \<Rightarrow> market_tables \<Rightarrow> pg_rate option" where
  "current_rate env currency now d = newest_display (filter (\<lambda>r. fr_date r \<ge> add_days (me_day env now) (- 7)) (cbr_display_rates currency d))"

definition currentDisplayRate :: "market_env \<Rightarrow> string \<Rightarrow> market \<Rightarrow> market \<times> (read_error + displayRate)" where
  "currentDisplayRate env currency s =
     (if displayCurrency currency = ''RUB'' then (s, Inr rub_rate)
      else market_read env ''query display FX rate''
             (\<lambda>now d. case current_rate env (displayCurrency currency) now d of None \<Rightarrow> no_rate | Some r \<Rightarrow> display_of r) s)"

text \<open>The rates of a period and of the week before it, by day; a later row of a day replaces an earlier one.\<close>

definition display_table :: "string \<Rightarrow> time \<Rightarrow> time \<Rightarrow> market_tables \<Rightarrow> string \<Rightarrow> displayRate option" where
  "display_table currency from to d =
     map_of (rev (map (\<lambda>r. (format_date (fr_date r), display_of r))
       (sort_key fr_date (filter (\<lambda>r. add_days (day_start from) (- 7) \<le> fr_date r \<and> fr_date r \<le> day_start to) (cbr_display_rates currency d)))))"

definition displayRateTable :: "market_env \<Rightarrow> string \<Rightarrow> time \<Rightarrow> time \<Rightarrow> market \<Rightarrow> market \<times> (read_error + (string \<Rightarrow> displayRate option))" where
  "displayRateTable env currency from to s =
     (if displayCurrency currency = ''RUB'' then (s, Inr (\<lambda>_. None))
      else market_read env ''query historical FX rates'' (\<lambda>_. display_table (displayCurrency currency) from to) s)"

text \<open>The loop over a day and the seven before it; \<open>n\<close> of them are left.\<close>

fun rate_walk :: "(string \<Rightarrow> displayRate option) \<Rightarrow> time \<Rightarrow> nat \<Rightarrow> displayRate" where
  "rate_walk rates t 0 = no_rate"
| "rate_walk rates t (Suc n) = (case rates (format_date t) of Some r \<Rightarrow> r | None \<Rightarrow> rate_walk rates (add_days t (- 1)) n)"

definition historicalRateFromTable :: "string \<Rightarrow> time \<Rightarrow> (string \<Rightarrow> displayRate option) \<Rightarrow> displayRate" where
  "historicalRateFromTable currency target rates = (if displayCurrency currency = ''RUB'' then rub_rate else rate_walk rates target 8)"

record CurrencyRate =
  cu_Code :: string
  cu_Label :: string
  cu_Symbol :: string
  cu_RateDate :: "string option"
  cu_Provider :: string
  cu_StaleDays :: "int option"
  cu_Available :: bool

definition supportedDisplayCurrencies :: "(string \<times> string \<times> string) list" where
  "supportedDisplayCurrencies = [(''RUB'', ru ''Rossiyskiy rubl8'', encode_rune 8381), (''USD'', ru ''Dollar SWA'', ''$''),
     (''EUR'', ru ''Evro'', encode_rune 8364), (''CNY'', ru ''Kitayskiy 0an8'', encode_rune 165),
     (''KZT'', ru ''Kazahstanskiy tenge'', encode_rune 8376), (''AMD'', ru ''Armqnskiy dram'', encode_rune 1423)]"

text \<open>\<^verbatim>\<open>DISTINCT ON (quote_currency) ... ORDER BY quote_currency, rate_date DESC, provider\<close>\<close>

definition quoted :: "market_env \<Rightarrow> string \<Rightarrow> market_tables \<Rightarrow> pg_rate option" where
  "quoted env code d =
     (case sort_key (\<lambda>r. (- fr_date r, me_collate env (fr_provider r))) (filter (\<lambda>r. fr_currency r = code) (pt_rates (mk_store d))) of
        [] \<Rightarrow> None | r # _ \<Rightarrow> Some r)"

definition currency_rate :: "market_env \<Rightarrow> time \<Rightarrow> market_tables \<Rightarrow> string \<times> string \<times> string \<Rightarrow> CurrencyRate" where
  "currency_rate env now d currency =
     (case currency of (code, label, symbol) \<Rightarrow>
      let item = \<lparr>cu_Code = code, cu_Label = label, cu_Symbol = symbol, cu_RateDate = None, cu_Provider = '''', cu_StaleDays = None,
            cu_Available = (code = ''RUB'')\<rparr>
      in case quoted env code d of
           None \<Rightarrow> item
         | Some r \<Rightarrow> (let stale = (me_day env now - fr_date r) div Day in
             item\<lparr>cu_RateDate := Some (format_date (fr_date r)), cu_Provider := fr_provider r, cu_StaleDays := Some stale,
               cu_Available := (stale \<le> 7)\<rparr>))"

text \<open>The rouble is listed first and has no rate; only the others are looked up.\<close>

definition Currencies :: "market_env \<Rightarrow> market \<Rightarrow> market \<times> (read_error + string \<times> CurrencyRate list)" where
  "Currencies env = market_read env ''query currencies'' (\<lambda>now d. (''RUB'',
     (case hd supportedDisplayCurrencies of (code, label, symbol) \<Rightarrow>
        \<lparr>cu_Code = code, cu_Label = label, cu_Symbol = symbol, cu_RateDate = None, cu_Provider = '''', cu_StaleDays = None, cu_Available = True\<rparr>)
     # map (currency_rate env now d) (tl supportedDisplayCurrencies)))"

section \<open>The dashboard\<close>

record DashboardSummary =
  da_From :: string
  da_To :: string
  da_Active :: nat
  da_New :: nat
  da_Median :: real
  da_Currency :: string
  da_RateDate :: "string option"
  da_RateProvider :: string
  da_Sample :: nat
  da_TopRoles :: "(string \<times> string \<times> nat) list"
  da_TopRegions :: "(string \<times> string \<times> nat) list"
  da_Generated :: time
  da_Cache :: string

definition dashboard_base :: "market_env \<Rightarrow> AnalyticsFilter \<Rightarrow> market_tables \<Rightarrow> pg_vacancy list" where
  "dashboard_base env f d = filter (\<lambda>v. not_deleted v \<and> role_in_market d v \<and> selected env f v) (pt_vacancies (mk_store d))"

definition published_before_end :: "market_env \<Rightarrow> Period \<Rightarrow> pg_vacancy \<Rightarrow> bool" where
  "published_before_end env p v \<longleftrightarrow>
     (case va_published v of None \<Rightarrow> False | Some t \<Rightarrow> t < me_midnight env (add_days (day_start (pd_To p)) 1))"

definition dashboard_numbers :: "market_env \<Rightarrow> AnalyticsFilter \<Rightarrow> market_tables \<Rightarrow> nat \<times> nat \<times> real \<times> nat" where
  "dashboard_numbers env f d =
     (let vs = dashboard_base env f d; fresh = filter (published_in env (af_Period f)) vs in
      (length (filter (\<lambda>v. va_active v \<and> published_before_end env (af_Period f) v) vs), length fresh,
       percentile_or_zero (1 / 2) (market_salaries fresh), length (market_salaries fresh)))"

text \<open>
  \<^verbatim>\<open>GROUP BY\<close> a dimension: its rows that have vacancies, with them; ordered by their number, then by name and
  identifier.
\<close>

definition grouped :: "pg_named list \<Rightarrow> (pg_named \<Rightarrow> pg_vacancy list) \<Rightarrow> (pg_named \<times> pg_vacancy list) list" where
  "grouped dims members = filter (\<lambda>(_, vs). vs \<noteq> []) (map (\<lambda>r. (r, members r)) dims)"

definition by_count :: "market_env \<Rightarrow> (pg_named \<times> pg_vacancy list) list \<Rightarrow> (pg_named \<times> pg_vacancy list) list" where
  "by_count env = sort_key (\<lambda>(r, vs). (- int (length vs), me_collate env (nm_name r), nm_id r))"

definition top_five :: "market_env \<Rightarrow> pg_named list \<Rightarrow> (pg_named \<Rightarrow> pg_vacancy list) \<Rightarrow> (string \<times> string \<times> nat) list" where
  "top_five env dims members = map (\<lambda>(r, vs). (nm_id r, nm_name r, length vs)) (take 5 (by_count env (grouped dims members)))"

definition with_role :: "pg_vacancy list \<Rightarrow> pg_named \<Rightarrow> pg_vacancy list" where
  "with_role vs r = filter (\<lambda>v. va_role v = Some (nm_id r)) vs"

definition with_region :: "pg_vacancy list \<Rightarrow> pg_named \<Rightarrow> pg_vacancy list" where
  "with_region vs r = filter (\<lambda>v. va_region v = Some (nm_id r)) vs"

definition dashboard_active :: "market_env \<Rightarrow> AnalyticsFilter \<Rightarrow> market_tables \<Rightarrow> pg_vacancy list" where
  "dashboard_active env f d =
     filter (\<lambda>v. not_deleted v \<and> va_active v \<and> published_in env (af_Period f) v \<and> selected env f v) (pt_vacancies (mk_store d))"

definition top_roles :: "market_env \<Rightarrow> AnalyticsFilter \<Rightarrow> market_tables \<Rightarrow> (string \<times> string \<times> nat) list" where
  "top_roles env f d = top_five env (filter market_family (pt_roles (mk_store d))) (with_role (dashboard_active env f d))"

definition top_regions :: "market_env \<Rightarrow> AnalyticsFilter \<Rightarrow> market_tables \<Rightarrow> (string \<times> string \<times> nat) list" where
  "top_regions env f d = top_five env (pt_regions (mk_store d)) (with_region (filter (role_in_market d) (dashboard_active env f d)))"

definition Dashboard :: "market_env \<Rightarrow> AnalyticsFilter \<Rightarrow> market \<Rightarrow> market \<times> (read_error + DashboardSummary)" where
  "Dashboard env f =
     and_do (market_read env ''query dashboard summary'' (\<lambda>now d. (now, dashboard_numbers env f d))) (\<lambda>(now, active, new, median, sample).
     and_do (currentDisplayRate env (af_Currency f)) (\<lambda>rate.
     and_do (market_read env ''query dashboard top roles'' (\<lambda>_. top_roles env f)) (\<lambda>roles.
     and_do (market_read env ''query dashboard top regions'' (\<lambda>_. top_regions env f)) (\<lambda>regions.
       give \<lparr>da_From = format_date (pd_From (af_Period f)), da_To = format_date (pd_To (af_Period f)), da_Active = active, da_New = new,
         da_Median = convertMoney median rate, da_Currency = displayCurrency (af_Currency f), da_RateDate = dp_date rate,
         da_RateProvider = dp_provider rate, da_Sample = sample, da_TopRoles = roles, da_TopRegions = regions,
         da_Generated = now, da_Cache = ''MISS''\<rparr>))))"

section \<open>Roles and regions\<close>

record DimensionStat =
  dm_ID :: string
  dm_Title :: string
  dm_Count :: nat
  dm_Median :: real
  dm_P25 :: real
  dm_P75 :: real
  dm_Currency :: string
  dm_RateDate :: "string option"
  dm_RateProvider :: string

record DimensionPage =
  dq_Data :: "DimensionStat list"
  dq_Page :: int
  dq_PageSize :: int
  dq_Total :: nat

definition dimension_stat :: "pg_named \<times> pg_vacancy list \<Rightarrow> DimensionStat" where
  "dimension_stat rv = (case rv of (r, vs) \<Rightarrow>
     \<lparr>dm_ID = nm_id r, dm_Title = nm_name r, dm_Count = length vs, dm_Median = percentile_or_zero (1 / 2) (market_salaries vs),
      dm_P25 = percentile_or_zero (1 / 4) (market_salaries vs), dm_P75 = percentile_or_zero (3 / 4) (market_salaries vs),
      dm_Currency = '''', dm_RateDate = None, dm_RateProvider = ''''\<rparr>)"

definition in_currency :: "string \<Rightarrow> displayRate \<Rightarrow> DimensionStat \<Rightarrow> DimensionStat" where
  "in_currency currency rate x = x\<lparr>dm_Median := convertMoney (dm_Median x) rate, dm_P25 := convertMoney (dm_P25 x) rate,
     dm_P75 := convertMoney (dm_P75 x) rate, dm_Currency := displayCurrency currency, dm_RateDate := dp_date rate,
     dm_RateProvider := dp_provider rate\<rparr>"

text \<open>\<^verbatim>\<open>count(*) OVER()\<close> comes with the rows: without a row on the page the total stays zero.\<close>

definition dimension_page :: "string \<Rightarrow> Page \<Rightarrow> DimensionStat list \<Rightarrow> displayRate \<Rightarrow> DimensionPage" where
  "dimension_page currency p stats rate =
     (let rows = page_slice p stats in
      \<lparr>dq_Data = map (in_currency currency rate) rows, dq_Page = pg_Number p, dq_PageSize = pg_Size p,
       dq_Total = (if rows = [] then 0 else length stats)\<rparr>)"

definition role_members :: "market_env \<Rightarrow> AnalyticsFilter \<Rightarrow> market_tables \<Rightarrow> pg_named \<Rightarrow> pg_vacancy list" where
  "role_members env f d = with_role (filter (\<lambda>v. not_deleted v \<and> va_active v \<and> published_in env (af_Period f) v
     \<and> given_id env (af_RegionID f) (va_region v) \<and> given_source (af_Source f) v) (pt_vacancies (mk_store d)))"

definition role_stats :: "market_env \<Rightarrow> AnalyticsFilter \<Rightarrow> string \<Rightarrow> market_tables \<Rightarrow> DimensionStat list" where
  "role_stats env f sortBy d =
     (let stats = map dimension_stat (grouped (filter (\<lambda>r. nm_active r \<and> market_family r) (pt_roles (mk_store d))) (role_members env f d)) in
      sort_key (\<lambda>x. (if sortBy = ''median_salary'' then - dm_Median x else - real (dm_Count x), me_collate env (dm_Title x), dm_ID x)) stats)"

definition ListRoles :: "market_env \<Rightarrow> AnalyticsFilter \<Rightarrow> Page \<Rightarrow> string \<Rightarrow> market \<Rightarrow> market \<times> (read_error + DimensionPage)" where
  "ListRoles env f p sortBy =
     and_do (market_read env ''query roles'' (\<lambda>_. role_stats env f sortBy)) (\<lambda>stats.
     and_do (currentDisplayRate env (af_Currency f)) (\<lambda>rate. give (dimension_page (af_Currency f) p stats rate)))"

definition region_members :: "market_env \<Rightarrow> AnalyticsFilter \<Rightarrow> market_tables \<Rightarrow> pg_named \<Rightarrow> pg_vacancy list" where
  "region_members env f d = with_region (filter (\<lambda>v. not_deleted v \<and> va_active v \<and> role_in_market d v \<and> published_in env (af_Period f) v
     \<and> given_id env (af_RoleID f) (va_role v)) (pt_vacancies (mk_store d)))"

definition region_stats :: "market_env \<Rightarrow> AnalyticsFilter \<Rightarrow> market_tables \<Rightarrow> DimensionStat list" where
  "region_stats env f d = map dimension_stat (by_count env (grouped (filter nm_active (pt_regions (mk_store d))) (region_members env f d)))"

definition ListRegions :: "market_env \<Rightarrow> AnalyticsFilter \<Rightarrow> Page \<Rightarrow> market \<Rightarrow> market \<times> (read_error + DimensionPage)" where
  "ListRegions env f p =
     and_do (market_read env ''query regions'' (\<lambda>_. region_stats env f)) (\<lambda>stats.
     and_do (currentDisplayRate env (af_Currency f)) (\<lambda>rate. give (dimension_page (af_Currency f) p stats rate)))"

text \<open>A single dimension: found without vacancies too.\<close>

definition single_stat :: "market_env \<Rightarrow> string \<Rightarrow> string \<Rightarrow> (market_tables \<Rightarrow> (pg_named \<times> pg_vacancy list) option) \<Rightarrow> market \<Rightarrow> market \<times> (read_error + DimensionStat)" where
  "single_stat env label currency f =
     and_do (market_read env label (\<lambda>_ d. map_option dimension_stat (f d))) (\<lambda>found.
       case found of
         None \<Rightarrow> (\<lambda>s. (s, Inl read_error.ErrNotFound))
       | Some x \<Rightarrow> and_do (currentDisplayRate env currency) (\<lambda>rate. give (in_currency currency rate x)))"

definition one_role :: "market_env \<Rightarrow> string \<Rightarrow> AnalyticsFilter \<Rightarrow> market_tables \<Rightarrow> (pg_named \<times> pg_vacancy list) option" where
  "one_role env i f d =
     (case row_of nm_id (me_uuid env i) (filter (\<lambda>r. nm_active r \<and> market_family r) (pt_roles (mk_store d))) of
        None \<Rightarrow> None
      | Some r \<Rightarrow> Some (r, with_role (filter (\<lambda>v. not_deleted v \<and> va_active v \<and> published_in env (af_Period f) v
          \<and> given_id env (af_RegionID f) (va_region v)) (pt_vacancies (mk_store d))) r))"

definition GetRole :: "market_env \<Rightarrow> string \<Rightarrow> AnalyticsFilter \<Rightarrow> market \<Rightarrow> market \<times> (read_error + DimensionStat)" where
  "GetRole env i f = single_stat env ''query role'' (af_Currency f) (one_role env i f)"

definition one_region :: "market_env \<Rightarrow> string \<Rightarrow> AnalyticsFilter \<Rightarrow> market_tables \<Rightarrow> (pg_named \<times> pg_vacancy list) option" where
  "one_region env i f d =
     (case row_of nm_id (me_uuid env i) (filter nm_active (pt_regions (mk_store d))) of
        None \<Rightarrow> None
      | Some r \<Rightarrow> Some (r, region_members env f d r))"

definition GetRegion :: "market_env \<Rightarrow> string \<Rightarrow> AnalyticsFilter \<Rightarrow> market \<Rightarrow> market \<times> (read_error + DimensionStat)" where
  "GetRegion env i f = single_stat env ''query region'' (af_Currency f) (one_region env i f)"

section \<open>Trends\<close>

record SalaryPoint =
  sl_PeriodStart :: string
  sl_Median :: "real option"
  sl_P25 :: "real option"
  sl_P75 :: "real option"
  sl_Sample :: nat
  sl_RateDate :: "string option"
  sl_RateProvider :: string
  sl_Warning :: string

text \<open>\<^verbatim>\<open>date_trunc\<close> of a time in UTC.\<close>

definition date_trunc :: "string \<Rightarrow> time \<Rightarrow> time" where
  "date_trunc grain t =
     (if grain = ''week'' then add_days (day_start t) (- ((Weekday t + 6) mod 7))
      else if grain = ''month'' then (case civil_date t of (y, m, dd) \<Rightarrow> add_days (day_start t) (1 - dd))
      else day_start t)"

definition salaried :: "market_env \<Rightarrow> AnalyticsFilter \<Rightarrow> market_tables \<Rightarrow> pg_vacancy list" where
  "salaried env f d =
     filter (\<lambda>v. not_deleted v \<and> role_in_market d v \<and> published_in env (af_Period f) v \<and> selected env f v
       \<and> (case va_mid v of None \<Rightarrow> False | Some m \<Rightarrow> 10000 \<le> m \<and> m \<le> 2000000)) (pt_vacancies (mk_store d))"

definition salary_groups :: "market_env \<Rightarrow> AnalyticsFilter \<Rightarrow> string \<Rightarrow> market_tables \<Rightarrow> (time \<times> real list) list" where
  "salary_groups env f grain d =
     (let vs = salaried env f d; start = (\<lambda>v. date_trunc grain (the (va_published v))) in
      map (\<lambda>t. (t, market_salaries (filter (\<lambda>v. start v = t) vs))) (sort (remdups (map start vs))))"

definition salary_point :: "string \<Rightarrow> (string \<Rightarrow> displayRate option) \<Rightarrow> time \<times> real list \<Rightarrow> SalaryPoint" where
  "salary_point currency rates g = (case g of (target, xs) \<Rightarrow>
     let rate = historicalRateFromTable currency target rates in
     if dp_factor rate = 0
     then \<lparr>sl_PeriodStart = format_date target, sl_Median = None, sl_P25 = None, sl_P75 = None, sl_Sample = length xs,
           sl_RateDate = None, sl_RateProvider = '''', sl_Warning = ''fx_rate_unavailable''\<rparr>
     else \<lparr>sl_PeriodStart = format_date target, sl_Median = convertMoneyPointer (percentile_cont (1 / 2) xs) rate,
           sl_P25 = convertMoneyPointer (percentile_cont (1 / 4) xs) rate, sl_P75 = convertMoneyPointer (percentile_cont (3 / 4) xs) rate,
           sl_Sample = length xs, sl_RateDate = dp_date rate, sl_RateProvider = dp_provider rate, sl_Warning = ''''\<rparr>)"

definition SalaryTrends :: "market_env \<Rightarrow> AnalyticsFilter \<Rightarrow> string \<Rightarrow> market \<Rightarrow> market \<times> (read_error + string \<times> string \<times> SalaryPoint list)" where
  "SalaryTrends env f grain =
     and_do (displayRateTable env (af_Currency f) (pd_From (af_Period f)) (pd_To (af_Period f))) (\<lambda>rates.
     and_do (market_read env ''query salary trends'' (\<lambda>_. salary_groups env f grain)) (\<lambda>groups.
       give (grain, displayCurrency (af_Currency f), map (salary_point (af_Currency f) rates) groups)))"

record DemandPoint =
  dt_PeriodStart :: string
  dt_Active :: nat
  dt_Published :: nat
  dt_New :: nat
  dt_Complete :: bool
  dt_Days :: nat
  dt_Median :: "real option"
  dt_Currency :: string
  dt_RateDate :: "string option"
  dt_RateProvider :: string
  dt_Warning :: string

record DemandTrend =
  tn_Grain :: string
  tn_Status :: string
  tn_Source :: string
  tn_Method :: string
  tn_Points :: "DemandPoint list"

definition marketMethodVersion :: string where "marketMethodVersion = ''vacancy_demand_v2''"

text \<open>The rows of all regions when no region is asked for, those of the region otherwise.\<close>

definition level_matches :: "market_env \<Rightarrow> string \<Rightarrow> string \<Rightarrow> string option \<Rightarrow> bool" where
  "level_matches env region level actual \<longleftrightarrow>
     (if region = '''' then level = ''all_regions'' \<and> actual = None else level = ''region'' \<and> actual = Some (me_uuid env region))"

definition daily_selected :: "market_env \<Rightarrow> AnalyticsFilter \<Rightarrow> string \<Rightarrow> market_tables \<Rightarrow> demand_daily list" where
  "daily_selected env f source d =
     filter (\<lambda>r. day_start (pd_From (af_Period f)) \<le> dd_date r \<and> dd_date r \<le> day_start (pd_To (af_Period f))
       \<and> (af_RoleGroup f = '''' \<or> dd_group r = af_RoleGroup f) \<and> level_matches env (af_RegionID f) (dd_level r) (dd_region r)
       \<and> dd_source r = source \<and> dd_method r = marketMethodVersion \<and> dd_complete r) (an_daily (mk_demand d))"

definition weekly_selected :: "market_env \<Rightarrow> AnalyticsFilter \<Rightarrow> string \<Rightarrow> market_tables \<Rightarrow> demand_weekly list" where
  "weekly_selected env f source d =
     filter (\<lambda>r. date_trunc ''week'' (pd_From (af_Period f)) \<le> dw_week r \<and> dw_week r \<le> day_start (pd_To (af_Period f))
       \<and> (af_RoleGroup f = '''' \<or> dw_group r = af_RoleGroup f) \<and> level_matches env (af_RegionID f) (dw_level r) (dw_region r)
       \<and> dw_source r = source \<and> dw_method r = marketMethodVersion \<and> dw_complete r) (an_weekly (mk_demand d))"

text \<open>\<^verbatim>\<open>max\<close> skips NULLs.\<close>

definition max_of :: "real option list \<Rightarrow> real option" where
  "max_of xs = (case List.map_filter id xs of [] \<Rightarrow> None | y # ys \<Rightarrow> Some (foldr max ys y))"

definition demand_days :: "market_env \<Rightarrow> AnalyticsFilter \<Rightarrow> string \<Rightarrow> market_tables \<Rightarrow> (time \<times> nat \<times> nat \<times> real option \<times> bool \<times> nat) list" where
  "demand_days env f source d =
     (let rows = daily_selected env f source d in
      map (\<lambda>t. let g = filter (\<lambda>r. dd_date r = t) rows in
          (t, sum_list (map dd_active g), sum_list (map dd_published g), max_of (map dd_median g), list_all dd_complete g, 1))
        (sort (remdups (map dd_date rows))))"

definition demand_weeks :: "market_env \<Rightarrow> AnalyticsFilter \<Rightarrow> string \<Rightarrow> market_tables \<Rightarrow> (time \<times> nat \<times> nat \<times> real option \<times> bool \<times> nat) list" where
  "demand_weeks env f source d =
     (let rows = weekly_selected env f source d in
      map (\<lambda>t. let g = filter (\<lambda>r. dw_week r = t) rows in
          (t, sum_list (map dw_active g), sum_list (map dw_published g), max_of (map dw_median g), list_all dw_complete g,
           foldr min (map dw_days g) (dw_days (hd g))))
        (sort (remdups (map dw_week rows))))"

definition demand_point :: "string \<Rightarrow> (string \<Rightarrow> displayRate option) \<Rightarrow> time \<times> nat \<times> nat \<times> real option \<times> bool \<times> nat \<Rightarrow> DemandPoint" where
  "demand_point currency rates g = (case g of (target, active, published, median, whole, days) \<Rightarrow>
     let rate = historicalRateFromTable currency target rates;
         x = \<lparr>dt_PeriodStart = format_date target, dt_Active = active, dt_Published = published, dt_New = published,
              dt_Complete = whole, dt_Days = days, dt_Median = None, dt_Currency = displayCurrency currency, dt_RateDate = None,
              dt_RateProvider = '''', dt_Warning = ''''\<rparr>
     in if dp_factor rate = 0 then x\<lparr>dt_Warning := ''fx_rate_unavailable''\<rparr>
        else x\<lparr>dt_Median := convertMoneyPointer median rate, dt_RateDate := dp_date rate, dt_RateProvider := dp_provider rate\<rparr>)"

definition demand_source :: "AnalyticsFilter \<Rightarrow> string" where
  "demand_source f = (if af_Source f = '''' then ''hh'' else af_Source f)"

definition DemandTrends :: "market_env \<Rightarrow> AnalyticsFilter \<Rightarrow> string \<Rightarrow> market \<Rightarrow> market \<times> (read_error + DemandTrend)" where
  "DemandTrends env f grain =
     and_do (displayRateTable env (af_Currency f) (pd_From (af_Period f)) (pd_To (af_Period f))) (\<lambda>rates.
     and_do (market_read env ''query demand trends''
         (\<lambda>_. (if grain = ''week'' then demand_weeks else demand_days) env f (demand_source f))) (\<lambda>groups.
       give \<lparr>tn_Grain = grain, tn_Status = (if groups = [] then ''no_complete_snapshots'' else ''ready''), tn_Source = demand_source f,
         tn_Method = marketMethodVersion, tn_Points = map (demand_point (af_Currency f) rates) groups\<rparr>))"

section \<open>Coverage of the trends\<close>

record TrendsCoverage =
  tc_Status :: string
  tc_Source :: string
  tc_Method :: string
  tc_Years :: "int list"
  tc_First :: "string option"
  tc_Last :: "string option"
  tc_PublicationFrom :: "string option"
  tc_PublicationTo :: "string option"
  tc_CompleteDaily :: int
  tc_CompleteWeekly :: int
  tc_Expected :: int
  tc_Missed :: int
  tc_Incomplete :: int
  tc_LatestIncomplete :: "string option"
  tc_NextScheduled :: time
  tc_LatestComplete :: "time option"
  tc_Regions :: "(string \<times> string) list"

text \<open>Aggregates of times: NULL without any.\<close>

definition min_time :: "time list \<Rightarrow> time option" where
  "min_time ts = (case ts of [] \<Rightarrow> None | t # ts \<Rightarrow> Some (foldr min ts t))"

definition max_time :: "time list \<Rightarrow> time option" where
  "max_time ts = (case ts of [] \<Rightarrow> None | t # ts \<Rightarrow> Some (foldr max ts t))"

definition coverage_rows :: "market_tables \<Rightarrow> demand_daily list" where
  "coverage_rows d = filter (\<lambda>r. dd_source r = ''hh'' \<and> dd_method r = marketMethodVersion \<and> dd_level r = ''all_regions'') (an_daily (mk_demand d))"

definition coverage_cycles :: "market_tables \<Rightarrow> pg_cycle list" where
  "coverage_cycles d = filter (\<lambda>c. gc_source c = ''hh'' \<and> gc_scope c = ''daily_discovery'' \<and> gc_method c = Some marketMethodVersion) (pt_cycles (mk_store d))"

text \<open>The days a complete cycle is due for by now: up to yesterday from one o'clock on, the day before until then.\<close>

definition expected_days :: "market_env \<Rightarrow> time \<Rightarrow> market_tables \<Rightarrow> int" where
  "expected_days env now d =
     (let latest = add_days (me_day env now) (if now - day_start now \<ge> Hour then - 1 else - 2) in
      case min_time (List.map_filter gc_cycle_date (coverage_cycles d)) of
        None \<Rightarrow> 0
      | Some first \<Rightarrow> max ((latest - first) div Day + 1) 0)"

definition open_cycles :: "market_tables \<Rightarrow> pg_cycle list" where
  "open_cycles d = filter (\<lambda>c. List.member [''running'', ''failed''] (gc_status c)) (coverage_cycles d)"

definition next_cycle :: "time \<Rightarrow> time" where
  "next_cycle now = (if now < day_start now + Hour then day_start now + Hour else day_start now + 25 * Hour)"

definition date_text :: "time option \<Rightarrow> string option" where
  "date_text t = map_option format_date t"

definition coverage_summary :: "market_env \<Rightarrow> time \<Rightarrow> market_tables \<Rightarrow> TrendsCoverage" where
  "coverage_summary env now d =
     (let rows = coverage_rows d; first = min_time (map dd_date rows); published = map dd_date (filter (\<lambda>r. dd_published r > 0) rows);
          whole = int (length (remdups (map dd_date (filter dd_complete rows))));
          weeks = int (length (remdups (map dw_week (filter (\<lambda>w. dw_source w = ''hh'' \<and> dw_method w = marketMethodVersion \<and> dw_complete w)
            (an_weekly (mk_demand d))))));
          expected = expected_days env now d; incomplete = int (length (open_cycles d));
          missed = (if expected - whole - incomplete < 0 then 0 else expected - whole - incomplete)
      in \<lparr>tc_Status = (if missed > 0 \<or> incomplete > 0 then ''degraded'' else if first = None then ''collecting'' else ''ready''),
          tc_Source = ''hh'', tc_Method = (if first = None then '''' else marketMethodVersion), tc_Years = [],
          tc_First = date_text first, tc_Last = date_text (max_time (map dd_date rows)),
          tc_PublicationFrom = date_text (min_time published), tc_PublicationTo = date_text (max_time published),
          tc_CompleteDaily = whole, tc_CompleteWeekly = weeks, tc_Expected = expected, tc_Missed = missed,
          tc_Incomplete = incomplete, tc_LatestIncomplete = date_text (max_time (List.map_filter gc_cycle_date (open_cycles d))),
          tc_NextScheduled = next_cycle now,
          tc_LatestComplete = max_time (map gc_cycle_end (filter (\<lambda>c. gc_status c = ''complete'') (coverage_cycles d))), tc_Regions = []\<rparr>)"

definition coverage_years :: "market_tables \<Rightarrow> int list" where
  "coverage_years d = sort (remdups (map (\<lambda>r. fst (civil_date (dd_date r)))
     (filter (\<lambda>r. dd_source r = ''hh'' \<and> dd_method r = marketMethodVersion \<and> dd_complete r) (an_daily (mk_demand d)))))"

definition coverage_regions :: "market_env \<Rightarrow> market_tables \<Rightarrow> (string \<times> string) list" where
  "coverage_regions env d =
     (let named = remdups (map (\<lambda>r. (nm_id r, nm_name r)) (filter (\<lambda>r. list_ex (\<lambda>x. dd_region x = Some (nm_id r) \<and> dd_source x = ''hh''
        \<and> dd_method x = marketMethodVersion \<and> dd_level x = ''region'') (an_daily (mk_demand d))) (pt_regions (mk_store d))))
      in sort_key (\<lambda>(i, n). (me_collate env n, i)) named)"

definition ReadTrendsCoverage :: "market_env \<Rightarrow> market \<Rightarrow> market \<times> (read_error + TrendsCoverage)" where
  "ReadTrendsCoverage env =
     and_do (market_read env ''query trends coverage'' (coverage_summary env)) (\<lambda>x.
     and_do (market_read env ''query coverage years'' (\<lambda>_. coverage_years)) (\<lambda>years.
     and_do (market_read env ''query coverage regions'' (\<lambda>_. coverage_regions env)) (\<lambda>regions.
       give (x\<lparr>tc_Years := years, tc_Regions := regions\<rparr>))))"

section \<open>Skills\<close>

record SkillStat =
  kl_ID :: string
  kl_Name :: string
  kl_Count :: nat
  kl_Share :: real

record SkillPage =
  kp_Data :: "SkillStat list"
  kp_Page :: int
  kp_PageSize :: int
  kp_Total :: nat

definition skill_base :: "market_env \<Rightarrow> AnalyticsFilter \<Rightarrow> market_tables \<Rightarrow> string list" where
  "skill_base env f d = map va_id (filter (\<lambda>v. not_deleted v \<and> va_active v \<and> role_in_market d v \<and> published_in env (af_Period f) v
     \<and> selected env f v) (pt_vacancies (mk_store d)))"

definition ranked_skills :: "market_env \<Rightarrow> AnalyticsFilter \<Rightarrow> market_tables \<Rightarrow> SkillStat list" where
  "ranked_skills env f d =
     (let base = skill_base env f d;
          count = (\<lambda>r. length (filter (\<lambda>(v, k). k = nm_id r \<and> List.member base v) (pt_vacancy_skills (mk_store d))));
          stats = map (\<lambda>r. \<lparr>kl_ID = nm_id r, kl_Name = nm_name r, kl_Count = count r, kl_Share = real (count r) / real (length base)\<rparr>)
            (filter (\<lambda>r. nm_active r \<and> count r > 0) (pt_skills (mk_store d)))
      in sort_key (\<lambda>x. (- int (kl_Count x), me_collate env (kl_Name x), kl_ID x)) stats)"

text \<open>The total comes from a row of its own, so it is there on every page.\<close>

definition ReadTopSkills :: "market_env \<Rightarrow> AnalyticsFilter \<Rightarrow> Page \<Rightarrow> market \<Rightarrow> market \<times> (read_error + SkillPage)" where
  "ReadTopSkills env f p =
     and_do (market_read env ''query top skills'' (\<lambda>_. ranked_skills env f)) (\<lambda>stats.
       give \<lparr>kp_Data = page_slice p stats, kp_Page = pg_Number p, kp_PageSize = pg_Size p, kp_Total = length stats\<rparr>)"

section \<open>Rankings\<close>

record RankingItem =
  ri_ID :: string
  ri_Name :: string
  ri_Rank :: nat
  ri_Count :: nat
  ri_Share :: real
  ri_MedianRUB :: "real option"
  ri_Median :: "real option"
  ri_Sample :: nat

record RankingPage =
  rk_Data :: "RankingItem list"
  rk_Metric :: string
  rk_Denominator :: nat
  rk_MinSample :: nat
  rk_Page :: int
  rk_PageSize :: int
  rk_Total :: nat
  rk_Currency :: string
  rk_RateDate :: "string option"
  rk_RateProvider :: string

definition minimumRankingSalarySample :: nat where "minimumRankingSalarySample = 5"

definition ranking_vacancies :: "market_env \<Rightarrow> AnalyticsFilter \<Rightarrow> market_tables \<Rightarrow> pg_vacancy list" where
  "ranking_vacancies env f d =
     filter (\<lambda>v. not_deleted v \<and> va_active v \<and> published_in env (af_Period f) v \<and> selected env f v) (pt_vacancies (mk_store d))"

text \<open>The two dimensions: the rows \<^verbatim>\<open>SELECT DISTINCT\<close> yields, a vacancy with what it counts for.\<close>

definition language_dimension :: "market_env \<Rightarrow> AnalyticsFilter \<Rightarrow> market_tables \<Rightarrow> (pg_named \<times> pg_vacancy list) list" where
  "language_dimension env f d =
     grouped (filter (\<lambda>k. nm_active k \<and> List.member (mk_kinds d) (nm_id k, ''programming_language'')) (pt_skills (mk_store d)))
       (\<lambda>k. filter (\<lambda>v. in_scope_of d ''vacancy_listing'' v \<and> List.member (pt_vacancy_skills (mk_store d)) (va_id v, nm_id k))
          (ranking_vacancies env f d))"

definition management_dimension :: "market_env \<Rightarrow> AnalyticsFilter \<Rightarrow> market_tables \<Rightarrow> (pg_named \<times> pg_vacancy list) list" where
  "management_dimension env f d =
     grouped (filter nm_active (pt_roles (mk_store d)))
       (\<lambda>r. filter (\<lambda>v. List.member (pt_vacancy_scopes (mk_store d)) (va_id v, nm_id r, ''management_analytics'')) (ranking_vacancies env f d))"

definition ranking_denominator :: "(pg_named \<times> pg_vacancy list) list \<Rightarrow> nat" where
  "ranking_denominator facets = length (remdups (concat (map (\<lambda>(_, vs). map va_id vs) facets)))"

definition ranking_stat :: "nat \<Rightarrow> pg_named \<times> pg_vacancy list \<Rightarrow> RankingItem" where
  "ranking_stat denominator kv = (case kv of (k, vs) \<Rightarrow>
     \<lparr>ri_ID = nm_id k, ri_Name = nm_name k, ri_Rank = 0, ri_Count = length vs,
      ri_Share = (if denominator = 0 then 0 else real (length vs) / real denominator),
      ri_MedianRUB = percentile_cont (1 / 2) (market_salaries vs), ri_Median = None, ri_Sample = length (market_salaries vs)\<rparr>)"

definition median_key :: "real option \<Rightarrow> real" where
  "median_key m = (case m of None \<Rightarrow> 0 | Some x \<Rightarrow> - x)"

text \<open>A ranking by salary leaves out what has too few salaries, so every median it orders by is there.\<close>

definition ranking_rows :: "market_env \<Rightarrow> string \<Rightarrow> (pg_named \<times> pg_vacancy list) list \<Rightarrow> RankingItem list" where
  "ranking_rows env metric facets =
     (let minimum = (if metric = ''salary'' then minimumRankingSalarySample else 0);
          stats = filter (\<lambda>x. minimum = 0 \<or> ri_Sample x \<ge> minimum) (map (ranking_stat (ranking_denominator facets)) facets);
          ordered = (if metric = ''salary''
            then sort_key (\<lambda>x. (median_key (ri_MedianRUB x), - int (ri_Sample x), - int (ri_Count x), me_collate env (ri_Name x), ri_ID x)) stats
            else sort_key (\<lambda>x. (- int (ri_Count x), me_collate env (ri_Name x), ri_ID x)) stats)
      in map (\<lambda>(i, x). x\<lparr>ri_Rank := Suc i, ri_MedianRUB := (if ri_Sample x \<ge> minimumRankingSalarySample then ri_MedianRUB x else None)\<rparr>)
           (enumerate 0 ordered))"

definition ranking_query :: "market_env \<Rightarrow> AnalyticsFilter \<Rightarrow> Page \<Rightarrow> string \<Rightarrow> (market_tables \<Rightarrow> (pg_named \<times> pg_vacancy list) list) \<Rightarrow> string
    \<Rightarrow> market \<Rightarrow> market \<times> (read_error + RankingPage)" where
  "ranking_query env f p metric dimension label =
     and_do (market_read env (''query '' @ label @ '' ranking'') (\<lambda>_ d. (ranking_rows env metric (dimension d), ranking_denominator (dimension d)))) (\<lambda>(rows, denominator).
     and_do (currentDisplayRate env (af_Currency f)) (\<lambda>rate.
       give \<lparr>rk_Data = map (\<lambda>x. x\<lparr>ri_Median := convertMoneyPointer (ri_MedianRUB x) rate\<rparr>) (page_slice p rows), rk_Metric = metric,
         rk_Denominator = denominator, rk_MinSample = minimumRankingSalarySample, rk_Page = pg_Number p, rk_PageSize = pg_Size p,
         rk_Total = length rows, rk_Currency = displayCurrency (af_Currency f), rk_RateDate = dp_date rate, rk_RateProvider = dp_provider rate\<rparr>))"

definition ProgrammingLanguages :: "market_env \<Rightarrow> AnalyticsFilter \<Rightarrow> Page \<Rightarrow> string \<Rightarrow> market \<Rightarrow> market \<times> (read_error + RankingPage)" where
  "ProgrammingLanguages env f p metric = ranking_query env f p metric (language_dimension env f) ''programming languages''"

definition ManagementRoles :: "market_env \<Rightarrow> AnalyticsFilter \<Rightarrow> Page \<Rightarrow> string \<Rightarrow> market \<Rightarrow> market \<times> (read_error + RankingPage)" where
  "ManagementRoles env f p metric = ranking_query env f p metric (management_dimension env f) ''management roles''"

section \<open>Vacancies\<close>

record ListedVacancy =
  lv_ID :: string
  lv_Source :: string
  lv_SourceName :: string
  lv_SourceURL :: "string option"
  lv_ExternalID :: string
  lv_Title :: string
  lv_RoleID :: "string option"
  lv_RegionID :: "string option"
  lv_SalaryFrom :: "real option"
  lv_SalaryTo :: "real option"
  lv_Currency :: "string option"
  lv_Gross :: "bool option"
  lv_FromRUB :: "real option"
  lv_ToRUB :: "real option"
  lv_RateDate :: "string option"
  lv_RateProvider :: string
  lv_Published :: "time option"
  lv_FirstObserved :: "time option"
  lv_IsFresh :: bool
  lv_IsActive :: bool
  lv_Status :: string
  lv_Deactivated :: "time option"
  lv_Skills :: "string list"

record VacancyPage =
  vp_Data :: "ListedVacancy list"
  vp_Page :: int
  vp_PageSize :: int
  vp_Total :: nat

definition one_of :: "market_env \<Rightarrow> string list \<Rightarrow> string option \<Rightarrow> bool" where
  "one_of env ids actual \<longleftrightarrow> ids = [] \<or> (case actual of None \<Rightarrow> False | Some i \<Rightarrow> list_ex (\<lambda>x. me_uuid env x = i) ids)"

definition at_least :: "real option \<Rightarrow> real option \<Rightarrow> bool" where
  "at_least bound m \<longleftrightarrow> (case bound of None \<Rightarrow> True | Some b \<Rightarrow> (case m of None \<Rightarrow> False | Some x \<Rightarrow> b \<le> x))"

definition at_most :: "real option \<Rightarrow> real option \<Rightarrow> bool" where
  "at_most bound m \<longleftrightarrow> (case bound of None \<Rightarrow> True | Some b \<Rightarrow> (case m of None \<Rightarrow> False | Some x \<Rightarrow> x \<le> b))"

definition published_between :: "time option \<Rightarrow> time option \<Rightarrow> time option \<Rightarrow> bool" where
  "published_between from to p \<longleftrightarrow>
     (case from of None \<Rightarrow> True | Some a \<Rightarrow> (case p of None \<Rightarrow> False | Some t \<Rightarrow> a \<le> t))
   \<and> (case to of None \<Rightarrow> True | Some b \<Rightarrow> (case p of None \<Rightarrow> False | Some t \<Rightarrow> t < b))"

definition listed :: "market_env \<Rightarrow> VacancyFilter \<Rightarrow> displayRate \<Rightarrow> market_tables \<Rightarrow> pg_vacancy \<Rightarrow> bool" where
  "listed env f rate d v \<longleftrightarrow> not_deleted v \<and> in_scope_of d ''vacancy_listing'' v
     \<and> (vf_Query f = '''' \<or> me_ilike env (va_title v) (''%'' @ vf_Query f @ ''%''))
     \<and> one_of env (vf_RoleIDs f) (va_role v) \<and> one_of env (vf_RegionIDs f) (va_region v)
     \<and> (vf_Source f = '''' \<or> va_source v = vf_Source f) \<and> (vf_OnlyActive f \<longrightarrow> va_active v)
     \<and> at_least (toCanonicalRUB (vf_SalaryMin f) rate) (va_mid v) \<and> at_most (toCanonicalRUB (vf_SalaryMax f) rate) (va_mid v)
     \<and> (vf_SkillIDs f = [] \<or> list_ex (\<lambda>(i, k). i = va_id v \<and> list_ex (\<lambda>x. me_uuid env x = k) (vf_SkillIDs f)) (pt_vacancy_skills (mk_store d)))
     \<and> published_between (vf_PublishedFrom f) (vf_PublishedTo f) (va_published v)"

text \<open>\<^verbatim>\<open>ORDER BY published_at DESC NULLS LAST, id\<close>\<close>

definition listing_key :: "pg_vacancy \<Rightarrow> bool \<times> time \<times> string" where
  "listing_key v = (case va_published v of None \<Rightarrow> (True, 0, va_id v) | Some t \<Rightarrow> (False, - t, va_id v))"

definition listing :: "market_env \<Rightarrow> VacancyFilter \<Rightarrow> displayRate \<Rightarrow> market_tables \<Rightarrow> pg_vacancy list" where
  "listing env f rate d = sort_key listing_key (filter (listed env f rate d) (pt_vacancies (mk_store d)))"

definition sql_fresh :: "time \<Rightarrow> pg_vacancy \<Rightarrow> bool" where
  "sql_fresh now v \<longleftrightarrow> va_source v = ''hh'' \<and> (case va_published v of None \<Rightarrow> False | Some t \<Rightarrow> t \<le> now \<and> t \<ge> now - 5 * Hour)"

definition skill_names :: "market_env \<Rightarrow> market_tables \<Rightarrow> pg_vacancy \<Rightarrow> string list" where
  "skill_names env d v = sort_key (me_collate env)
     (List.map_filter (\<lambda>(i, k). if i = va_id v then map_option nm_name (row_of nm_id k (pt_skills (mk_store d))) else None) (pt_vacancy_skills (mk_store d)))"

text \<open>The row of a vacancy, with the query's own columns and what the code adds to it.\<close>

definition listed_vacancy :: "market_env \<Rightarrow> VacancyFilter \<Rightarrow> displayRate \<Rightarrow> time \<Rightarrow> market_tables \<Rightarrow> pg_vacancy \<Rightarrow> string \<Rightarrow> ListedVacancy" where
  "listed_vacancy env f rate now d v sourceName =
     \<lparr>lv_ID = va_id v, lv_Source = va_source v, lv_SourceName = sourceName, lv_SourceURL = va_source_url v, lv_ExternalID = va_external v,
      lv_Title = va_title v, lv_RoleID = va_role v, lv_RegionID = va_region v, lv_SalaryFrom = convertMoneyPointer (va_from_rub v) rate,
      lv_SalaryTo = convertMoneyPointer (va_to_rub v) rate,
      lv_Currency = (if va_mid v = None then None else Some (displayCurrency (vf_Currency f))),
      lv_Gross = (if va_mid v = None then None else Some False), lv_FromRUB = va_from_rub v, lv_ToRUB = va_to_rub v,
      lv_RateDate = dp_date rate, lv_RateProvider = dp_provider rate, lv_Published = va_published v,
      lv_FirstObserved = Some (va_first_observed v), lv_IsFresh = sql_fresh now v, lv_IsActive = va_active v,
      lv_Status = VacancyStatus (va_active v) (case va_reason v of None \<Rightarrow> '''' | Some r \<Rightarrow> r), lv_Deactivated = va_deactivated v,
      lv_Skills = skill_names env d v\<rparr>"

text \<open>The rows: the join with the sources keeps those whose source is known.\<close>

definition listing_rows :: "market_env \<Rightarrow> VacancyFilter \<Rightarrow> displayRate \<Rightarrow> time \<Rightarrow> market_tables \<Rightarrow> ListedVacancy list" where
  "listing_rows env f rate now d =
     page_slice (vf_Page f) (List.map_filter (\<lambda>v. map_option (listed_vacancy env f rate now d v) (map_of (mk_sources d) (va_source v)))
       (listing env f rate d))"

definition ListVacancies :: "market_env \<Rightarrow> VacancyFilter \<Rightarrow> market \<Rightarrow> market \<times> (read_error + VacancyPage)" where
  "ListVacancies env f =
     and_do (currentDisplayRate env (vf_Currency f)) (\<lambda>rate.
     and_do (market_read env ''count vacancies'' (\<lambda>_ d. length (filter (listed env f rate d) (pt_vacancies (mk_store d))))) (\<lambda>total.
     and_do (market_read env ''query vacancies'' (listing_rows env f rate)) (\<lambda>rows.
       give \<lparr>vp_Data = rows, vp_Page = pg_Number (vf_Page f), vp_PageSize = pg_Size (vf_Page f), vp_Total = total\<rparr>)))"

section \<open>Paging through the vacancies\<close>

lemma market_read_ok: "market_read env label f s = (s', Inr x) \<Longrightarrow> x = f (db_now (me_db env) (db_tick s)) (db_data s) \<and> db_data s' = db_data s"
  unfolding market_read_def by (auto dest: stmt_ok)

lemma currentDisplayRate_data: "currentDisplayRate env c s = (s', r) \<Longrightarrow> db_data s' = db_data s"
  by (cases r) (auto simp: currentDisplayRate_def market_read_def split: if_splits dest: stmt_ok stmt_error)

lemma slices_tile: "concat (map (\<lambda>k. take n (drop (k * n) xs)) [0..<m]) = take (m * n) xs"
proof (induction m)
  case (Suc m)
  have "Suc m * n = m * n + n" by simp
  with Suc show ?case by (simp only: upt_Suc_append map_append concat_append take_add) simp
qed simp

lemma page_slice_map: "map f (page_slice p xs) = page_slice p (map f xs)"
  by (simp add: page_slice_def take_map drop_map)

lemma listed_page [simp]: "listed env (f\<lparr>vf_Page := p\<rparr>) = listed env f"
  by (simp add: listed_def fun_eq_iff)

lemma listing_page [simp]: "listing env (f\<lparr>vf_Page := p\<rparr>) = listing env f"
  by (simp add: listing_def fun_eq_iff)

lemma listing_set: "v \<in> set (listing env f rate d) \<longleftrightarrow> v \<in> set (pt_vacancies (mk_store d)) \<and> listed env f rate d v"
  by (auto simp: listing_def)

lemma map_filter_total: "(\<And>x. x \<in> set xs \<Longrightarrow> f x \<noteq> None) \<Longrightarrow> List.map_filter f xs = map (the \<circ> f) xs"
proof (induction xs)
  case (Cons a xs)
  have "f a \<noteq> None" "List.map_filter f xs = map (the \<circ> f) xs" using Cons by auto
  then show ?case by (auto simp: List.map_filter_simps)
qed (simp add: List.map_filter_simps)

lemma listing_rows_ids:
  assumes "\<forall>v \<in> set (pt_vacancies (mk_store d)). map_of (mk_sources d) (va_source v) \<noteq> None"
  shows "map lv_ID (listing_rows env f rate now d) = page_slice (vf_Page f) (map va_id (listing env f rate d))"
proof -
  let ?g = "\<lambda>v. map_option (listed_vacancy env f rate now d v) (map_of (mk_sources d) (va_source v))"
  have "List.map_filter ?g (listing env f rate d) = map (the \<circ> ?g) (listing env f rate d)"
    using assms by (intro map_filter_total) (auto simp: listing_set)
  moreover have "map (lv_ID \<circ> (the \<circ> ?g)) (listing env f rate d) = map va_id (listing env f rate d)"
    using assms by (fastforce simp: listing_set listed_vacancy_def)
  ultimately show ?thesis by (simp only: listing_rows_def page_slice_map map_map)
qed

lemma ListVacancies_ok:
  assumes "ListVacancies env f s = (s', Inr p)" and "displayCurrency (vf_Currency f) = ''RUB''"
  shows "vp_Total p = length (listing env f rub_rate (db_data s)) \<and> (\<exists>now. vp_Data p = listing_rows env f rub_rate now (db_data s))"
  using assms unfolding ListVacancies_def and_do_ok give_def
  by (auto simp: currentDisplayRate_def listing_def dest!: market_read_ok)

text \<open>
  C17. Paging loses nothing: for roubles, pages of any size, read one after the other from unchanged tables until they
  cover the total, list exactly the vacancies that match the filter, each once and in the order of their publication,
  and every page reports their number as the total.
\<close>

theorem listing_tiles:
  assumes "displayCurrency (vf_Currency f) = ''RUB''"
    and "\<And>k. k < m \<Longrightarrow> ListVacancies env (f\<lparr>vf_Page := \<lparr>pg_Number = int k + 1, pg_Size = int n\<rparr>\<rparr>) (st k) = (st' k, Inr (pg k))"
    and "\<And>k. k < m \<Longrightarrow> db_data (st k) = d"
    and "\<forall>v \<in> set (pt_vacancies (mk_store d)). map_of (mk_sources d) (va_source v) \<noteq> None"
    and "distinct (map va_id (pt_vacancies (mk_store d)))"
    and "length (filter (listed env f rub_rate d) (pt_vacancies (mk_store d))) \<le> m * n"
  shows "concat (map (\<lambda>k. map lv_ID (vp_Data (pg k))) [0..<m]) = map va_id (sort_key listing_key (filter (listed env f rub_rate d) (pt_vacancies (mk_store d))))
     \<and> distinct (concat (map (\<lambda>k. map lv_ID (vp_Data (pg k))) [0..<m]))
     \<and> (\<forall>k<m. vp_Total (pg k) = length (filter (listed env f rub_rate d) (pt_vacancies (mk_store d))))"
proof -
  define ids where "ids = map va_id (listing env f rub_rate d)"
  have page: "map lv_ID (vp_Data (pg k)) = take n (drop (k * n) ids) \<and> vp_Total (pg k) = length ids" if k: "k < m" for k
  proof -
    from ListVacancies_ok [OF assms(2) [OF k]] assms(1)
    obtain now where "vp_Total (pg k) = length (listing env f rub_rate (db_data (st k)))"
      "vp_Data (pg k) = listing_rows env (f\<lparr>vf_Page := \<lparr>pg_Number = int k + 1, pg_Size = int n\<rparr>\<rparr>) rub_rate now (db_data (st k))"
      by auto
    then show ?thesis using listing_rows_ids [OF assms(4)] assms(3) [OF k]
      by (simp add: ids_def page_slice_def nat_mult_distrib flip: of_nat_mult)
  qed
  have "concat (map (\<lambda>k. map lv_ID (vp_Data (pg k))) [0..<m]) = concat (map (\<lambda>k. take n (drop (k * n) ids)) [0..<m])"
    using page by (intro arg_cong [of _ _ concat] map_cong) auto
  also have "\<dots> = ids" using assms(6) by (simp add: slices_tile ids_def listing_def)
  finally have all: "concat (map (\<lambda>k. map lv_ID (vp_Data (pg k))) [0..<m]) = ids" .
  have "distinct (map va_id (filter (listed env f rub_rate d) (pt_vacancies (mk_store d))))"
    using assms(5) by (rule distinct_map_filter)
  moreover have "mset (map va_id (listing env f rub_rate d)) = mset (map va_id (filter (listed env f rub_rate d) (pt_vacancies (mk_store d))))"
    by (simp add: listing_def)
  ultimately have "distinct ids" unfolding ids_def by (metis mset_eq_imp_distinct_iff)
  with all page show ?thesis by (simp add: ids_def listing_def)
qed

text \<open>Without a rate for the currency a salary bound of the request is dropped, and every salary matches.\<close>

lemma salary_filter_dropped: "dp_factor rate \<le> 0 \<Longrightarrow> listed env f rate = listed env (f\<lparr>vf_SalaryMin := None, vf_SalaryMax := None\<rparr>) rate"
  by (auto simp: listed_def fun_eq_iff toCanonicalRUB_def at_least_def at_most_def split: option.splits)

text \<open>A page beyond the last one reports a total of zero.\<close>

lemma total_lost: "page_slice p stats = [] \<Longrightarrow> dq_Total (dimension_page currency p stats rate) = 0"
  by (simp add: dimension_page_def Let_def)

text \<open>The query and the service agree on what is fresh.\<close>

lemma sql_fresh_IsFresh: "va_source v = ''hh'' \<Longrightarrow> sql_fresh now v = IsFresh (va_published v) now"
  by (auto simp: sql_fresh_def IsFresh_def FreshnessWindow_def split: option.splits)

section \<open>Percentiles\<close>

definition interpolated :: "real list \<Rightarrow> real \<Rightarrow> real" where
  "interpolated ys pos = ys ! nat \<lfloor>pos\<rfloor> + (pos - of_int \<lfloor>pos\<rfloor>) * (ys ! nat \<lceil>pos\<rceil> - ys ! nat \<lfloor>pos\<rfloor>)"

lemma interpolated_between:
  assumes "sorted ys" "0 \<le> pos" "nat \<lceil>pos\<rceil> < length ys"
  shows "ys ! nat \<lfloor>pos\<rfloor> \<le> interpolated ys pos \<and> interpolated ys pos \<le> ys ! nat \<lceil>pos\<rceil>"
proof -
  define fr where "fr = pos - of_int \<lfloor>pos\<rfloor>"
  have fr: "0 \<le> fr" "fr \<le> 1" unfolding fr_def by linarith+
  have "nat \<lfloor>pos\<rfloor> \<le> nat \<lceil>pos\<rceil>" by (simp add: nat_mono floor_le_ceiling)
  then have le: "ys ! nat \<lfloor>pos\<rfloor> \<le> ys ! nat \<lceil>pos\<rceil>" using assms by (intro sorted_nth_mono)
  define a b where "a = ys ! nat \<lfloor>pos\<rfloor>" and "b = ys ! nat \<lceil>pos\<rceil>"
  have "0 \<le> fr * (b - a)" using fr le by (simp add: a_def b_def)
  moreover have "fr * (b - a) \<le> 1 * (b - a)" using fr le by (intro mult_right_mono) (simp_all add: a_def b_def)
  ultimately show ?thesis by (simp add: interpolated_def fr_def [symmetric] a_def [symmetric] b_def [symmetric])
qed

lemma interpolated_mono:
  assumes "sorted ys" "0 \<le> p" "p \<le> q" "nat \<lceil>q\<rceil> < length ys"
  shows "interpolated ys p \<le> interpolated ys q"
proof (cases "\<lfloor>p\<rfloor> = \<lfloor>q\<rfloor>")
  case True
  show ?thesis
  proof (cases "p = of_int \<lfloor>p\<rfloor>")
    case p: True
    then have "interpolated ys p = ys ! nat \<lfloor>q\<rfloor>" using True by (simp add: interpolated_def)
    then show ?thesis using interpolated_between [OF assms(1) _ assms(4)] assms(2,3) by simp
  next
    case p: False
    then have c: "\<lceil>p\<rceil> = \<lfloor>p\<rfloor> + 1" "\<lceil>q\<rceil> = \<lfloor>q\<rfloor> + 1" using True assms(3) by linarith+
    have "ys ! nat \<lfloor>q\<rfloor> \<le> ys ! nat (\<lfloor>q\<rfloor> + 1)" using assms c by (intro sorted_nth_mono) auto
    then have "(p - of_int \<lfloor>q\<rfloor>) * (ys ! nat (\<lfloor>q\<rfloor> + 1) - ys ! nat \<lfloor>q\<rfloor>) \<le> (q - of_int \<lfloor>q\<rfloor>) * (ys ! nat (\<lfloor>q\<rfloor> + 1) - ys ! nat \<lfloor>q\<rfloor>)"
      using assms(3) by (intro mult_right_mono) auto
    then show ?thesis by (simp add: interpolated_def c True)
  qed
next
  case False
  then have "\<lfloor>p\<rfloor> < \<lfloor>q\<rfloor>" using floor_mono [OF assms(3)] by linarith
  then have le: "\<lceil>p\<rceil> \<le> \<lfloor>q\<rfloor>" by linarith
  have lq: "\<lfloor>q\<rfloor> \<le> \<lceil>q\<rceil>" by (rule floor_le_ceiling)
  have "nat \<lceil>p\<rceil> < length ys" using le lq assms(4) by linarith
  then have "interpolated ys p \<le> ys ! nat \<lceil>p\<rceil>" using interpolated_between assms(1,2) by blast
  also have "\<dots> \<le> ys ! nat \<lfloor>q\<rfloor>" using le lq assms(1,4) by (intro sorted_nth_mono) linarith+
  also have "\<dots> \<le> interpolated ys q" using interpolated_between [OF assms(1) _ assms(4)] assms(2,3) by simp
  finally show ?thesis .
qed

lemma percentile_interpolated:
  "xs \<noteq> [] \<Longrightarrow> percentile_cont p xs = Some (interpolated (sort xs) (p * real (length xs - 1)))"
  by (simp add: percentile_cont_def interpolated_def Let_def)

lemma percentile_position: "xs \<noteq> [] \<Longrightarrow> 0 \<le> p \<Longrightarrow> p \<le> 1 \<Longrightarrow> nat \<lceil>p * real (length xs - 1)\<rceil> < length (sort xs)"
proof -
  assume xs: "xs \<noteq> []" and p: "0 \<le> p" "p \<le> 1"
  have "p * real (length xs - 1) \<le> 1 * real (length xs - 1)" using p by (intro mult_right_mono) auto
  then have "\<lceil>p * real (length xs - 1)\<rceil> \<le> int (length xs - 1)" by linarith
  with xs show ?thesis by (cases xs) auto
qed

lemma percentile_mono:
  assumes "0 \<le> p" "p \<le> q" "q \<le> 1"
  shows "percentile_or_zero p xs \<le> percentile_or_zero q xs"
proof (cases "xs = []")
  case False
  have "interpolated (sort xs) (p * real (length xs - 1)) \<le> interpolated (sort xs) (q * real (length xs - 1))"
    using assms percentile_position [OF False order_trans [OF assms(1,2)] assms(3)]
    by (intro interpolated_mono [OF sorted_sort]) (simp_all add: mult_right_mono del: of_nat_diff)
  then show ?thesis by (simp add: percentile_or_zero_def percentile_interpolated False)
qed (simp add: percentile_or_zero_def percentile_cont_def)

lemma percentile_range:
  assumes "0 \<le> p" "p \<le> 1" "xs \<noteq> []" "\<forall>x \<in> set xs. lo \<le> x \<and> x \<le> hi"
  shows "lo \<le> percentile_or_zero p xs \<and> percentile_or_zero p xs \<le> hi"
proof -
  let ?pos = "p * real (length xs - 1)"
  have c: "nat \<lceil>?pos\<rceil> < length (sort xs)" by (rule percentile_position [OF assms(3,1,2)])
  have f: "nat \<lfloor>?pos\<rfloor> < length (sort xs)" using c floor_le_ceiling [of ?pos] by linarith
  have "lo \<le> sort xs ! nat \<lfloor>?pos\<rfloor>" "sort xs ! nat \<lceil>?pos\<rceil> \<le> hi"
    using assms(4) nth_mem [OF c] nth_mem [OF f] by auto
  with interpolated_between [OF sorted_sort _ c] assms(1) show ?thesis
    by (simp add: percentile_or_zero_def percentile_interpolated assms(3))
qed

text \<open>The median of the analytics worker is the same percentile.\<close>

lemma percentile_half_cont: "percentile_half xs = percentile_cont (1 / 2) xs"
proof (cases "xs = []")
  case False
  define n where "n = length xs"
  have n: "0 < n" using False by (simp add: n_def)
  define ys where "ys = sort xs"
  have len: "length ys = n" by (simp add: ys_def n_def)
  have pos: "1 / 2 * real (n - 1) = real (n - 1) / 2" by simp
  show ?thesis
  proof (cases "even (n - 1)")
    case True
    then obtain k where k: "n - 1 = 2 * k" by (elim evenE)
    then have "(n - 1) div 2 = k" "n div 2 = k" using n by auto
    with False k show ?thesis
      by (simp add: percentile_half_def percentile_interpolated interpolated_def n_def [symmetric] ys_def [symmetric] Let_def len)
  next
    case odd: False
    then obtain k where k: "n - 1 = 2 * k + 1" by (elim oddE)
    then have d: "(n - 1) div 2 = k" "n div 2 = k + 1" using n by auto
    have r: "real (n - 1) / 2 = real k + 1 / 2" using k by simp
    have fl: "\<lfloor>real k + 1 / 2\<rfloor> = int k" "\<lceil>real k + 1 / 2\<rceil> = int k + 1" by linarith+
    have i: "interpolated ys (real k + 1 / 2) = ys ! k + (ys ! (k + 1) - ys ! k) / 2"
      by (simp add: interpolated_def fl nat_add_distrib)
    have p: "percentile_cont (1 / 2) xs = Some (interpolated ys (real k + 1 / 2))"
      unfolding percentile_interpolated [OF False] n_def [symmetric] ys_def [symmetric] pos r ..
    show ?thesis unfolding p i using False d
      by (simp add: percentile_half_def n_def [symmetric] ys_def [symmetric] Let_def len field_simps)
  qed
qed (simp add: percentile_half_def percentile_cont_def)

section \<open>Quartiles\<close>

lemma page_slice_set: "set (page_slice p xs) \<subseteq> set xs"
  by (auto simp: page_slice_def dest: in_set_takeD in_set_dropD)

lemma grouped_set: "g \<in> set (grouped dims members) \<Longrightarrow> snd g \<noteq> [] \<and> fst g \<in> set dims \<and> snd g = members (fst g)"
  by (auto simp: grouped_def)

lemma convertMoney_mono: "x \<le> y \<Longrightarrow> convertMoney x rate \<le> convertMoney y rate"
  by (auto simp: convertMoney_def intro!: math_round_mono mult_right_mono divide_right_mono)

lemma convertMoney_rub_int [simp]: "convertMoney (of_int k) rub_rate = of_int k"
proof -
  have "math_round (of_int k * 100) = k * 100" using math_round_of_int [of "k * 100"] by (simp only: of_int_mult of_int_numeral)
  then show ?thesis by (simp add: convertMoney_def rub_rate_def)
qed

lemma market_salaries_range: "x \<in> set (market_salaries vs) \<Longrightarrow> 10000 \<le> x \<and> x \<le> 2000000"
  by (auto simp: market_salaries_def List.map_filter_def split: option.splits if_splits)

lemma dimension_stat_quartiles:
  "dm_P25 (dimension_stat g) \<le> dm_Median (dimension_stat g) \<and> dm_Median (dimension_stat g) \<le> dm_P75 (dimension_stat g)
     \<and> (dm_P25 (dimension_stat g) = 0 \<and> dm_Median (dimension_stat g) = 0 \<and> dm_P75 (dimension_stat g) = 0
         \<or> 10000 \<le> dm_P25 (dimension_stat g) \<and> dm_P75 (dimension_stat g) \<le> 2000000)"
proof (cases g)
  case (Pair r vs)
  show ?thesis
  proof (cases "market_salaries vs = []")
    case True
    then show ?thesis by (simp add: Pair dimension_stat_def percentile_or_zero_def percentile_cont_def)
  next
    case False
    have "10000 \<le> percentile_or_zero (1 / 4) (market_salaries vs)" "percentile_or_zero (3 / 4) (market_salaries vs) \<le> 2000000"
      using percentile_range [OF _ _ False, of "1 / 4" 10000 2000000] percentile_range [OF _ _ False, of "3 / 4" 10000 2000000]
        market_salaries_range by auto
    then show ?thesis by (simp add: Pair dimension_stat_def percentile_mono)
  qed
qed

lemma in_currency_quartiles:
  assumes "dm_P25 y \<le> dm_Median y \<and> dm_Median y \<le> dm_P75 y
     \<and> (dm_P25 y = 0 \<and> dm_Median y = 0 \<and> dm_P75 y = 0 \<or> 10000 \<le> dm_P25 y \<and> dm_P75 y \<le> 2000000)" and "x = in_currency c rate y"
  shows "dm_P25 x \<le> dm_Median x \<and> dm_Median x \<le> dm_P75 x
     \<and> (rate = rub_rate \<longrightarrow> dm_Median x = 0 \<or> 10000 \<le> dm_P25 x \<and> dm_P75 x \<le> 2000000)"
proof -
  have b: "10000 \<le> convertMoney (dm_P25 y) rub_rate" if "10000 \<le> dm_P25 y"
    using convertMoney_mono [OF that, of rub_rate] convertMoney_rub_int [of 10000] by simp
  have t: "convertMoney (dm_P75 y) rub_rate \<le> 2000000" if "dm_P75 y \<le> 2000000"
    using convertMoney_mono [OF that, of rub_rate] convertMoney_rub_int [of 2000000] by simp
  have z: "convertMoney 0 rub_rate = 0" using convertMoney_rub_int [of 0] by simp
  show ?thesis using assms by (auto simp: in_currency_def convertMoney_mono b t z)
qed

lemma role_stats_set: "y \<in> set (role_stats env f sortBy d) \<Longrightarrow> \<exists>g. y = dimension_stat g \<and> snd g \<noteq> []"
proof -
  assume "y \<in> set (role_stats env f sortBy d)"
  then obtain g where "g \<in> set (grouped (filter (\<lambda>r. nm_active r \<and> market_family r) (pt_roles (mk_store d))) (role_members env f d))" "y = dimension_stat g"
    by (auto simp: role_stats_def Let_def)
  with grouped_set show ?thesis by blast
qed

lemma region_stats_set: "y \<in> set (region_stats env f d) \<Longrightarrow> \<exists>g. y = dimension_stat g \<and> snd g \<noteq> []"
proof -
  assume "y \<in> set (region_stats env f d)"
  then obtain g where "g \<in> set (grouped (filter nm_active (pt_regions (mk_store d))) (region_members env f d))" "y = dimension_stat g"
    by (auto simp: region_stats_def Let_def by_count_def)
  with grouped_set show ?thesis by blast
qed

lemma currentDisplayRate_rub: "displayCurrency c = ''RUB'' \<Longrightarrow> currentDisplayRate env c s = (s, Inr rub_rate)"
  by (simp add: currentDisplayRate_def)

lemma dimension_page_stat:
  assumes "x \<in> set (dq_Data (dimension_page c p stats rate))"
  shows "\<exists>y \<in> set stats. x = in_currency c rate y"
  using assms page_slice_set [of p stats] by (auto simp: dimension_page_def Let_def)

lemma dimension_item:
  assumes "ListRoles env f p sortBy s = (s', Inr page) \<or> ListRegions env f p s = (s', Inr page)" and "x \<in> set (dq_Data page)"
  shows "\<exists>g rate. snd g \<noteq> [] \<and> x = in_currency (af_Currency f) rate (dimension_stat g) \<and> (displayCurrency (af_Currency f) = ''RUB'' \<longrightarrow> rate = rub_rate)"
  using assms(1)
proof
  assume "ListRoles env f p sortBy s = (s', Inr page)"
  then obtain s1 rate where r: "currentDisplayRate env (af_Currency f) s1 = (s', Inr rate)"
    and p: "page = dimension_page (af_Currency f) p (role_stats env f sortBy (db_data s)) rate"
    by (auto simp: ListRoles_def and_do_ok give_def dest!: market_read_ok)
  from dimension_page_stat assms(2) p obtain y where "y \<in> set (role_stats env f sortBy (db_data s))" "x = in_currency (af_Currency f) rate y"
    by blast
  with role_stats_set r show ?thesis by (fastforce simp: currentDisplayRate_rub)
next
  assume "ListRegions env f p s = (s', Inr page)"
  then obtain s1 rate where r: "currentDisplayRate env (af_Currency f) s1 = (s', Inr rate)"
    and p: "page = dimension_page (af_Currency f) p (region_stats env f (db_data s)) rate"
    by (auto simp: ListRegions_def and_do_ok give_def dest!: market_read_ok)
  from dimension_page_stat assms(2) p obtain y where "y \<in> set (region_stats env f (db_data s))" "x = in_currency (af_Currency f) rate y"
    by blast
  with region_stats_set r show ?thesis by (fastforce simp: currentDisplayRate_rub)
qed

text \<open>
  C20. Quartiles are in order: in every role and region a page lists, in any currency and after rounding to its hundredth,
  the first quartile is at most the median and that at most the third; in roubles they lie between 10000 and 2000000
  unless there is no salary, and only what has a vacancy is listed.
\<close>

theorem quartiles_ordered:
  assumes "ListRoles env f p sortBy s = (s', Inr page) \<or> ListRegions env f p s = (s', Inr page)" and "x \<in> set (dq_Data page)"
  shows "dm_P25 x \<le> dm_Median x \<and> dm_Median x \<le> dm_P75 x \<and> 0 < dm_Count x
     \<and> (displayCurrency (af_Currency f) = ''RUB'' \<longrightarrow> dm_Median x = 0 \<or> 10000 \<le> dm_P25 x \<and> dm_P75 x \<le> 2000000)"
proof -
  from dimension_item [OF assms] obtain g rate where g: "snd g \<noteq> []" "x = in_currency (af_Currency f) rate (dimension_stat g)"
    "displayCurrency (af_Currency f) = ''RUB'' \<longrightarrow> rate = rub_rate" by blast
  have "dm_Count x = length (snd g)" using g(2) by (cases g) (simp add: in_currency_def dimension_stat_def)
  with g in_currency_quartiles [OF dimension_stat_quartiles [of g] g(2)] show ?thesis by auto
qed

section \<open>Rankings\<close>

lemma page_slice_wrt: "sorted_wrt P xs \<Longrightarrow> sorted_wrt P (page_slice p xs)"
  by (simp add: page_slice_def sorted_wrt_take sorted_wrt_drop)

definition ranked_item :: "nat \<times> RankingItem \<Rightarrow> RankingItem" where
  "ranked_item = (\<lambda>(i, x). x\<lparr>ri_Rank := Suc i, ri_MedianRUB := (if ri_Sample x \<ge> minimumRankingSalarySample then ri_MedianRUB x else None)\<rparr>)"

definition ranking_order :: "market_env \<Rightarrow> string \<Rightarrow> (pg_named \<times> pg_vacancy list) list \<Rightarrow> RankingItem list" where
  "ranking_order env metric facets =
     (let stats = filter (\<lambda>x. (if metric = ''salary'' then minimumRankingSalarySample else 0) = 0
            \<or> ri_Sample x \<ge> (if metric = ''salary'' then minimumRankingSalarySample else 0)) (map (ranking_stat (ranking_denominator facets)) facets)
      in if metric = ''salary''
         then sort_key (\<lambda>x. (median_key (ri_MedianRUB x), - int (ri_Sample x), - int (ri_Count x), me_collate env (ri_Name x), ri_ID x)) stats
         else sort_key (\<lambda>x. (- int (ri_Count x), me_collate env (ri_Name x), ri_ID x)) stats)"

lemma ranking_rows_order: "ranking_rows env metric facets = map ranked_item (enumerate 0 (ranking_order env metric facets))"
  by (simp add: ranking_rows_def ranking_order_def ranked_item_def Let_def)

lemma ranking_order_item:
  "x \<in> set (ranking_order env metric facets) \<Longrightarrow> \<exists>g \<in> set facets. x = ranking_stat (ranking_denominator facets) g
     \<and> (metric = ''salary'' \<longrightarrow> minimumRankingSalarySample \<le> ri_Sample x)"
  by (auto simp: ranking_order_def Let_def minimumRankingSalarySample_def split: if_splits)

lemma ranks_consecutive: "map ri_Rank (ranking_rows env metric facets) = [1..<Suc (length (ranking_rows env metric facets))]"
proof -
  have "map ri_Rank (map ranked_item (enumerate 0 xs)) = map Suc (map fst (enumerate 0 xs))" for xs
    unfolding map_map by (rule map_cong) (auto simp: ranked_item_def)
  then show ?thesis unfolding ranking_rows_order by (simp add: enumerate_eq_zip map_fst_zip map_Suc_upt)
qed

lemma sorted_wrt_ranked:
  assumes "sorted_wrt P xs" and "\<And>i j x y. x \<in> set xs \<Longrightarrow> y \<in> set xs \<Longrightarrow> P x y \<Longrightarrow> Q (ranked_item (i, x)) (ranked_item (j, y))"
  shows "sorted_wrt Q (map ranked_item (enumerate n xs))"
  using assms by (induction xs arbitrary: n) (auto simp: sorted_wrt_map in_set_enumerate_eq dest: nth_mem)

lemma ranking_counts: "metric \<noteq> ''salary'' \<Longrightarrow> sorted_wrt (\<lambda>x y. ri_Count y \<le> ri_Count x) (ranking_order env metric facets)"
proof -
  assume "metric \<noteq> ''salary''"
  then have "sorted (map (\<lambda>x. (- int (ri_Count x), me_collate env (ri_Name x), ri_ID x)) (ranking_order env metric facets))"
    by (simp add: ranking_order_def Let_def)
  then show ?thesis by (auto simp: sorted_map elim!: sorted_wrt_mono_rel [rotated])
qed

lemma ranking_medians: "metric = ''salary'' \<Longrightarrow> sorted_wrt (\<lambda>x y. median_key (ri_MedianRUB x) \<le> median_key (ri_MedianRUB y)) (ranking_order env metric facets)"
proof -
  assume "metric = ''salary''"
  then have "sorted (map (\<lambda>x. (median_key (ri_MedianRUB x), - int (ri_Sample x), - int (ri_Count x), me_collate env (ri_Name x), ri_ID x))
      (ranking_order env metric facets))"
    by (simp add: ranking_order_def Let_def)
  then show ?thesis by (auto simp: sorted_map elim!: sorted_wrt_mono_rel [rotated])
qed

lemma ranking_sample_median: "minimumRankingSalarySample \<le> ri_Sample (ranking_stat n g) \<Longrightarrow> ri_MedianRUB (ranking_stat n g) \<noteq> None"
  by (cases g) (auto simp: ranking_stat_def percentile_cont_def minimumRankingSalarySample_def Let_def)

lemma ranking_share:
  assumes "g \<in> set facets" "snd g \<noteq> []" "distinct (map va_id (snd g))"
  shows "length (snd g) \<le> ranking_denominator facets" and "0 < ranking_denominator facets"
proof -
  have part: "ys \<in> set yss \<Longrightarrow> set ys \<subseteq> set (remdups (concat yss))" for ys :: "string list" and yss by auto
  have "(case g of (_, vs) \<Rightarrow> map va_id vs) \<in> set (map (\<lambda>(_, vs). map va_id vs) facets)" unfolding list.set_map using assms(1) by (rule imageI)
  then have "map va_id (snd g) \<in> set (map (\<lambda>(_, vs). map va_id vs) facets)" by (cases g) (simp only: prod.case snd_conv)
  from part [OF this] have "set (map va_id (snd g)) \<subseteq> set (remdups (concat (map (\<lambda>(_, vs). map va_id vs) facets)))" .
  from card_mono [OF finite_set this] have "card (set (map va_id (snd g))) \<le> ranking_denominator facets"
    unfolding ranking_denominator_def length_remdups_card_conv set_remdups .
  then show "length (snd g) \<le> ranking_denominator facets" using distinct_card [OF assms(3)] by simp
  then show "0 < ranking_denominator facets" using assms(2) by (cases "snd g") auto
qed

lemma facets_distinct:
  assumes "distinct (map va_id (pt_vacancies (mk_store d)))" and "g \<in> set (language_dimension env f d) \<or> g \<in> set (management_dimension env f d)"
  shows "snd g \<noteq> [] \<and> distinct (map va_id (snd g))"
  using assms(2)
proof
  assume "g \<in> set (language_dimension env f d)"
  from grouped_set [OF this [unfolded language_dimension_def]] show ?thesis
    by (intro conjI; (blast | simp add: ranking_vacancies_def distinct_map_filter [OF assms(1)]))
next
  assume "g \<in> set (management_dimension env f d)"
  from grouped_set [OF this [unfolded management_dimension_def]] show ?thesis
    by (intro conjI; (blast | simp add: ranking_vacancies_def distinct_map_filter [OF assms(1)]))
qed

definition ranked_well :: "string \<Rightarrow> nat \<Rightarrow> RankingItem \<Rightarrow> bool" where
  "ranked_well metric denominator x \<longleftrightarrow> 0 < ri_Count x \<and> ri_Count x \<le> denominator \<and> ri_Share x = real (ri_Count x) / real denominator
     \<and> (ri_MedianRUB x \<noteq> None \<longleftrightarrow> minimumRankingSalarySample \<le> ri_Sample x)
     \<and> (metric = ''salary'' \<longrightarrow> minimumRankingSalarySample \<le> ri_Sample x)"

lemma ranked_stat_well:
  assumes "g \<in> set facets" "snd g \<noteq> []" "distinct (map va_id (snd g))"
    and "metric = ''salary'' \<longrightarrow> minimumRankingSalarySample \<le> ri_Sample (ranking_stat (ranking_denominator facets) g)"
  shows "ranked_well metric (ranking_denominator facets) (ranked_item (i, ranking_stat (ranking_denominator facets) g))"
proof -
  let ?x = "ranking_stat (ranking_denominator facets) g"
  have "ri_Count ?x = length (snd g)" "ri_Share ?x = real (length (snd g)) / real (ranking_denominator facets)"
    using ranking_share(2) [OF assms(1-3)] by (cases g; simp add: ranking_stat_def)+
  with ranking_share [OF assms(1-3)] ranking_sample_median [of "ranking_denominator facets" g] assms(2,4) show ?thesis
    by (simp add: ranked_well_def ranked_item_def)
qed

lemma ranking_rows_sound:
  assumes "\<And>g. g \<in> set facets \<Longrightarrow> snd g \<noteq> [] \<and> distinct (map va_id (snd g))"
  shows "\<forall>x \<in> set (ranking_rows env metric facets). ranked_well metric (ranking_denominator facets) x"
    and "sorted_wrt (\<lambda>x y. if metric = ''salary'' then the (ri_MedianRUB y) \<le> the (ri_MedianRUB x) else ri_Count y \<le> ri_Count x) (ranking_rows env metric facets)"
proof -
  have item: "ranked_well metric (ranking_denominator facets) (ranked_item (i, x))" if "x \<in> set (ranking_order env metric facets)" for i x
    using ranking_order_item [OF that] ranked_stat_well assms by blast
  then show "\<forall>x \<in> set (ranking_rows env metric facets). ranked_well metric (ranking_denominator facets) x"
    by (auto simp: ranking_rows_order in_set_enumerate_eq dest: nth_mem)
  show "sorted_wrt (\<lambda>x y. if metric = ''salary'' then the (ri_MedianRUB y) \<le> the (ri_MedianRUB x) else ri_Count y \<le> ri_Count x) (ranking_rows env metric facets)"
  proof (cases "metric = ''salary''")
    case True
    have "the (ri_MedianRUB (ranked_item (j, y))) \<le> the (ri_MedianRUB (ranked_item (i, x)))"
      if x: "x \<in> set (ranking_order env metric facets)" and y: "y \<in> set (ranking_order env metric facets)"
        and le: "median_key (ri_MedianRUB x) \<le> median_key (ri_MedianRUB y)" for i j x y
    proof -
      have "minimumRankingSalarySample \<le> ri_Sample x" "minimumRankingSalarySample \<le> ri_Sample y"
        using ranking_order_item [OF x] ranking_order_item [OF y] True by auto
      moreover from this have "ri_MedianRUB x \<noteq> None" "ri_MedianRUB y \<noteq> None"
        using ranking_order_item [OF x] ranking_order_item [OF y] ranking_sample_median by blast+
      ultimately show ?thesis using le by (auto simp: ranked_item_def median_key_def)
    qed
    with True show ?thesis unfolding ranking_rows_order by (intro sorted_wrt_ranked [OF ranking_medians]) simp_all
  next
    case False
    then show ?thesis unfolding ranking_rows_order
      by (intro sorted_wrt_ranked [OF ranking_counts [OF False]]) (simp_all add: ranked_item_def)
  qed
qed

lemma ranking_page:
  assumes "ranking_query env f p metric dimension label s = (s', Inr page)"
  shows "\<exists>rate. rk_Data page = map (\<lambda>x. x\<lparr>ri_Median := convertMoneyPointer (ri_MedianRUB x) rate\<rparr>) (page_slice p (ranking_rows env metric (dimension (db_data s))))
     \<and> rk_Denominator page = ranking_denominator (dimension (db_data s)) \<and> rk_Total page = length (ranking_rows env metric (dimension (db_data s)))"
  using assms by (auto simp: ranking_query_def and_do_ok give_def simp del: map_eq_conv dest!: market_read_ok)

text \<open>
  C18. Rankings are sound: whatever is ranked, a page of programming languages or of management roles carries consecutive
  ranks that continue the page before it; every item counts at least one vacancy and at most all that are ranked, its
  share is that quotient, it shows a median exactly when five salaries support it; a ranking by salary lists only such
  items, by falling median, and every other ranking goes by falling number of vacancies.
\<close>

theorem ranking_sound:
  assumes "ProgrammingLanguages env f p metric s = (s', Inr page) \<or> ManagementRoles env f p metric s = (s', Inr page)"
    and "distinct (map va_id (pt_vacancies (mk_store (db_data s))))"
  shows "map ri_Rank (rk_Data page) = page_slice p [1..<Suc (rk_Total page)]
     \<and> (\<forall>x \<in> set (rk_Data page). ranked_well metric (rk_Denominator page) x)
     \<and> sorted_wrt (\<lambda>x y. if metric = ''salary'' then the (ri_MedianRUB y) \<le> the (ri_MedianRUB x) else ri_Count y \<le> ri_Count x) (rk_Data page)"
proof -
  have sound: ?thesis if "ranking_query env f p metric dimension label s = (s', Inr page)"
    and facets: "\<And>g. g \<in> set (dimension (db_data s)) \<Longrightarrow> snd g \<noteq> [] \<and> distinct (map va_id (snd g))" for dimension label
  proof -
    let ?rows = "ranking_rows env metric (dimension (db_data s))"
    from ranking_page [OF that(1)] obtain rate where page: "rk_Data page = map (\<lambda>x. x\<lparr>ri_Median := convertMoneyPointer (ri_MedianRUB x) rate\<rparr>) (page_slice p ?rows)"
      "rk_Denominator page = ranking_denominator (dimension (db_data s))" "rk_Total page = length ?rows" by blast
    have "map ri_Rank (rk_Data page) = page_slice p (map ri_Rank ?rows)"
      unfolding page(1) page_slice_map [symmetric] map_map by (rule map_cong) simp_all
    moreover have "\<forall>x \<in> set (rk_Data page). ranked_well metric (rk_Denominator page) x"
      using ranking_rows_sound(1) [where facets = "dimension (db_data s)" and env = env and metric = metric, OF facets] page_slice_set [of p ?rows] by (auto simp: page ranked_well_def)
    moreover have "sorted_wrt (\<lambda>x y. if metric = ''salary'' then the (ri_MedianRUB y) \<le> the (ri_MedianRUB x) else ri_Count y \<le> ri_Count x) (rk_Data page)"
      using page_slice_wrt [OF ranking_rows_sound(2) [where facets = "dimension (db_data s)" and env = env and metric = metric, OF facets], where p = p] by (simp add: page sorted_wrt_map if_bool_eq_conj)
    ultimately show ?thesis unfolding page(3) ranks_consecutive by blast
  qed
  from assms(1) show ?thesis
  proof
    assume "ProgrammingLanguages env f p metric s = (s', Inr page)"
    from sound [OF this [unfolded ProgrammingLanguages_def]] facets_distinct [OF assms(2)] show ?thesis by blast
  next
    assume "ManagementRoles env f p metric s = (s', Inr page)"
    from sound [OF this [unfolded ManagementRoles_def]] facets_distinct [OF assms(2)] show ?thesis by blast
  qed
qed

section \<open>Historical rates\<close>

lemma newest_display_none [simp]: "newest_display rs = None \<longleftrightarrow> rs = []"
  by (cases rs) (auto split: option.splits)

lemma newest_display_spec: "newest_display rs = Some r \<Longrightarrow> r \<in> set rs \<and> (\<forall>x \<in> set rs. fr_date x \<le> fr_date r)"
proof (induction rs arbitrary: r)
  case (Cons a rs)
  then show ?case by (cases "newest_display rs") (fastforce split: if_splits)+
qed simp

lemma newest_display_unique:
  assumes "distinct (map fr_date rs)" "r \<in> set rs" "\<And>x. x \<in> set rs \<Longrightarrow> fr_date x \<le> fr_date r"
  shows "newest_display rs = Some r"
proof -
  obtain y where y: "newest_display rs = Some y" using assms(2) by (cases "newest_display rs") auto
  from newest_display_spec [OF this] assms have "fr_date y = fr_date r" "y \<in> set rs" by (auto intro: order_antisym)
  with assms(1,2) y show ?thesis by (auto simp: distinct_map dest: inj_onD)
qed

definition rate_window :: "time \<Rightarrow> nat \<Rightarrow> pg_rate list \<Rightarrow> pg_rate list" where
  "rate_window t n = filter (\<lambda>r. add_days (day_start t) (1 - int n) \<le> fr_date r \<and> fr_date r \<le> day_start t)"

text \<open>Days are whole: between two midnights a day apart there is none.\<close>

lemma midnight_gap: "day_start a = a \<Longrightarrow> day_start b = b \<Longrightarrow> a \<le> b \<Longrightarrow> a \<noteq> b \<Longrightarrow> a \<le> add_days b (- 1)"
proof -
  assume a: "day_start a = a" "day_start b = b" "a \<le> b" "a \<noteq> b"
  then have "Day dvd b - a" by (simp add: day_start_def dvd_diff mod_0_imp_dvd)
  then obtain k where k: "b - a = Day * k" by (elim dvdE)
  with a have "0 < k" by (auto simp: Day_def)
  with k show ?thesis by (simp add: add_days_def Day_def)
qed

lemma rate_window_step:
  assumes "\<forall>r \<in> set rs. day_start (fr_date r) = fr_date r" "distinct (map fr_date rs)"
  shows "newest_display (rate_window t (Suc n) rs) =
     (case row_of fr_date (day_start t) rs of Some r \<Rightarrow> Some r | None \<Rightarrow> newest_display (rate_window (add_days t (- 1)) n rs))"
proof (cases "row_of fr_date (day_start t) rs")
  case None
  then have none: "\<forall>r \<in> set rs. fr_date r \<noteq> day_start t" by (metis imageI row_of_None)
  have "rate_window t (Suc n) rs = rate_window (add_days t (- 1)) n rs" unfolding rate_window_def
  proof (rule filter_cong [OF refl])
    fix r assume r: "r \<in> set rs"
    have lo: "add_days (day_start t) (1 - int (Suc n)) = add_days (day_start (add_days t (- 1))) (1 - int n)"
      unfolding day_start_add_days by (simp add: add_days_def algebra_simps)
    have hi: "day_start (add_days t (- 1)) = add_days (day_start t) (- 1)" by (simp add: day_start_add_days)
    have "fr_date r \<le> day_start t \<longleftrightarrow> fr_date r \<le> add_days (day_start t) (- 1)"
      using midnight_gap [of "fr_date r" "day_start t"] none r assms(1) by (auto simp: add_days_def Day_def)
    with lo hi show "(add_days (day_start t) (1 - int (Suc n)) \<le> fr_date r \<and> fr_date r \<le> day_start t)
        = (add_days (day_start (add_days t (- 1))) (1 - int n) \<le> fr_date r \<and> fr_date r \<le> day_start (add_days t (- 1)))" by simp
  qed
  with None show ?thesis by simp
next
  case (Some r)
  then have r: "r \<in> set rs" "fr_date r = day_start t" by (auto dest: row_of_Some)
  have "newest_display (rate_window t (Suc n) rs) = Some r"
    using r by (intro newest_display_unique) (auto simp: rate_window_def add_days_def Day_def assms(2) distinct_map_filter)
  with Some show ?thesis by simp
qed

lemma rate_walk_window:
  assumes "\<forall>r \<in> set rs. day_start (fr_date r) = fr_date r" "distinct (map fr_date rs)"
    and "\<And>k. k < n \<Longrightarrow> rates (format_date (add_days t (- int k))) = map_option display_of (row_of fr_date (day_start (add_days t (- int k))) rs)"
  shows "rate_walk rates t n = (case newest_display (rate_window t n rs) of None \<Rightarrow> no_rate | Some r \<Rightarrow> display_of r)"
  using assms(3)
proof (induction n arbitrary: t)
  case 0
  have "rate_window t 0 rs = []" by (auto simp: rate_window_def filter_empty_conv add_days_def Day_def)
  then show ?case by simp
next
  case (Suc n)
  have here: "rates (format_date t) = map_option display_of (row_of fr_date (day_start t) rs)"
    using Suc.prems [of 0] by (simp add: add_days_def)
  have "rate_walk rates (add_days t (- 1)) n
      = (case newest_display (rate_window (add_days t (- 1)) n rs) of None \<Rightarrow> no_rate | Some r \<Rightarrow> display_of r)"
  proof (rule Suc.IH)
    fix k assume "k < n"
    then show "rates (format_date (add_days (add_days t (- 1)) (- int k)))
        = map_option display_of (row_of fr_date (day_start (add_days (add_days t (- 1)) (- int k))) rs)"
      using Suc.prems [of "Suc k"] by (simp add: add_days_def algebra_simps)
  qed
  then show ?case by (simp add: here rate_window_step [OF assms(1,2)] split: option.split)
qed

lemma format_date_eq: "format_date t = format_date u \<longleftrightarrow> day_start t = day_start u" if "0 \<le> t" "0 \<le> u"
proof
  assume "format_date t = format_date u"
  then have "days_of t = days_of u" using format_date_inj [of t "[]" u "[]"] that by simp
  then show "day_start t = day_start u" unfolding days_of_def day_start_def minus_mod_eq_mult_div by simp
next
  assume "day_start t = day_start u"
  then show "format_date t = format_date u" by (metis format_date_day_start)
qed

definition rates_between :: "string \<Rightarrow> time \<Rightarrow> time \<Rightarrow> market_tables \<Rightarrow> pg_rate list" where
  "rates_between currency from to d =
     filter (\<lambda>r. add_days (day_start from) (- 7) \<le> fr_date r \<and> fr_date r \<le> day_start to) (cbr_display_rates currency d)"

text \<open>The rates of the central bank: their dates are days, and the table has one rate of a currency for a day.\<close>

definition rates_by_day :: "string \<Rightarrow> market_tables \<Rightarrow> bool" where
  "rates_by_day currency d \<longleftrightarrow> distinct (map fr_date (cbr_display_rates currency d))
     \<and> list_all (\<lambda>r. day_start (fr_date r) = fr_date r \<and> 0 \<le> fr_date r) (cbr_display_rates currency d)"

lemma display_table_lookup:
  assumes "rates_by_day currency d" "0 \<le> u"
  shows "display_table currency from to d (format_date u) = map_option display_of (row_of fr_date (day_start u) (rates_between currency from to d))"
proof -
  define rs where "rs = sort_key fr_date (rates_between currency from to d)"
  define kvs where "kvs = map (\<lambda>r. (format_date (fr_date r), display_of r)) rs"
  have set: "set rs = set (rates_between currency from to d)" by (simp add: rs_def)
  have days: "\<forall>r \<in> set rs. day_start (fr_date r) = fr_date r \<and> 0 \<le> fr_date r"
    using assms(1) by (auto simp: set rates_by_day_def rates_between_def list_all_iff)
  have dist: "distinct (map fr_date (rates_between currency from to d))"
    using assms(1) by (simp add: rates_by_day_def rates_between_def distinct_map_filter)
  have inj: "inj_on fr_date (set rs)" using dist by (simp add: distinct_map set)
  have "distinct rs" using dist by (simp add: rs_def distinct_map)
  moreover have "inj_on (\<lambda>r. format_date (fr_date r)) (set rs)"
    using inj days by (auto simp: inj_on_def format_date_eq)
  ultimately have "distinct (map fst (rev kvs))" by (simp add: kvs_def distinct_map comp_def rev_map [symmetric])
  note found = map_of_eq_Some_iff [OF this]
  have table: "display_table currency from to d = map_of (rev kvs)"
    by (simp add: display_table_def kvs_def rs_def rates_between_def)
  show ?thesis
  proof (cases "row_of fr_date (day_start u) (rates_between currency from to d)")
    case None
    then have "\<forall>r \<in> set rs. fr_date r \<noteq> day_start u" unfolding row_of_None set by (metis imageI)
    then have "format_date u \<notin> fst ` set (rev kvs)" using days assms(2) by (auto simp: kvs_def format_date_eq)
    then have "map_of (rev kvs) (format_date u) = None" by (simp only: map_of_eq_None_iff) simp
    then show ?thesis by (simp add: table None)
  next
    case (Some r)
    then have r: "r \<in> set rs" "fr_date r = day_start u" by (auto simp: set dest: row_of_Some)
    then have "(format_date u, display_of r) \<in> set (rev kvs)" by (force simp: kvs_def)
    then have "map_of (rev kvs) (format_date u) = Some (display_of r)" by (simp only: found)
    then show ?thesis by (simp add: table Some)
  qed
qed

lemma historical_between:
  assumes "displayCurrency currency \<noteq> ''RUB''" "rates_by_day (displayCurrency currency) d" "7 * Day \<le> target"
  shows "historicalRateFromTable currency target (display_table (displayCurrency currency) from to d)
     = (case newest_display (rate_window target 8 (rates_between (displayCurrency currency) from to d)) of None \<Rightarrow> no_rate | Some r \<Rightarrow> display_of r)"
proof -
  have "rate_walk (display_table (displayCurrency currency) from to d) target 8
     = (case newest_display (rate_window target 8 (rates_between (displayCurrency currency) from to d)) of None \<Rightarrow> no_rate | Some r \<Rightarrow> display_of r)"
  proof (rule rate_walk_window)
    show "\<forall>r \<in> set (rates_between (displayCurrency currency) from to d). day_start (fr_date r) = fr_date r"
      "distinct (map fr_date (rates_between (displayCurrency currency) from to d))"
      using assms(2) by (auto simp: rates_by_day_def rates_between_def list_all_iff distinct_map_filter)
    fix k :: nat assume "k < 8"
    then have "0 \<le> add_days target (- int k)" using assms(3) by (simp add: add_days_def Day_def)
    from display_table_lookup [OF assms(2) this] show "display_table (displayCurrency currency) from to d (format_date (add_days target (- int k)))
        = map_option display_of (row_of fr_date (day_start (add_days target (- int k))) (rates_between (displayCurrency currency) from to d))" .
  qed
  with assms(1) show ?thesis by (simp add: historicalRateFromTable_def)
qed


text \<open>
  The start of a week or month lies before the period when the period starts inside it. The table ends seven days before
  the period, so such a point loses older rates, and all of them once it is more than a week earlier.
\<close>

lemma early_point_unrated:
  assumes "displayCurrency currency \<noteq> ''RUB''" "rates_by_day (displayCurrency currency) d" "7 * Day \<le> target"
    and "day_start target < add_days (day_start from) (- 7)"
  shows "historicalRateFromTable currency target (display_table (displayCurrency currency) from to d) = no_rate"
proof -
  have "rate_window target 8 (rates_between (displayCurrency currency) from to d) = []"
    using assms(4) by (auto simp: rate_window_def rates_between_def filter_empty_conv)
  then show ?thesis by (simp only: historical_between [OF assms(1-3)]) simp
qed

section \<open>Examples\<close>

definition example_env :: market_env where
  "example_env = \<lparr>me_db = \<lparr>db_fails = \<lambda>_. False, db_now = \<lambda>_. 20 * Day, db_uuid = \<lambda>_. ''id''\<rparr>, me_midnight = id, me_day = day_start,
     me_uuid = id, me_collate = id, me_ilike = \<lambda>_ _. True\<rparr>"

definition offered :: "string \<Rightarrow> time \<Rightarrow> real \<Rightarrow> pg_vacancy" where
  "offered i t salary = \<lparr>va_id = i, va_source = ''hh'', va_external = i, va_source_url = None, va_title = ''Developer'', va_employer = None,
     va_role = Some ''dev'', va_region = Some ''msk'', va_salary_from = Some salary, va_salary_to = None, va_currency = Some ''RUB'',
     va_gross = Some False, va_mid = Some salary, va_from_rub = Some salary, va_to_rub = None, va_rate_date = None, va_rate_provider = None,
     va_description = None, va_truncated = False, va_published = Some t, va_collected = t, va_first_observed = t, va_active = True,
     va_deleted = None, va_last_seen = Some t, va_last_cycle = None, va_deactivated = None, va_reason = None, va_hash = [], va_raw = None,
     va_remote = None, va_revision = 1, va_updated = t\<rparr>"

definition named :: "string \<Rightarrow> pg_named" where
  "named i = \<lparr>nm_id = i, nm_key = (''hh'', i), nm_name = i, nm_family = Some ''analytics'', nm_active = True\<rparr>"

definition example_tables :: market_tables where
  "example_tables = \<lparr>mk_store = no_tables\<lparr>pt_vacancies := [offered ''a'' (10 * Day) 100000, offered ''b'' (11 * Day) 150000],
       pt_roles := [named ''dev''], pt_regions := [named ''msk''], pt_skills := [named ''Go''], pt_vacancy_skills := [(''a'', ''Go''), (''b'', ''Go'')],
       pt_vacancy_scopes := [(''a'', ''dev'', ''vacancy_listing''), (''b'', ''dev'', ''vacancy_listing'')],
       pt_rates := [\<lparr>fr_currency = ''USD'', fr_date = 9 * Day, fr_rate = 80, fr_provider = ''cbr''\<rparr>,
         \<lparr>fr_currency = ''USD'', fr_date = 12 * Day, fr_rate = 90, fr_provider = ''cbr''\<rparr>]\<rparr>,
     mk_demand = \<lparr>an_cycles = [], an_observations = [], an_regions = [], an_runs = [], an_daily = [], an_weekly = []\<rparr>, mk_kinds = [(''Go'', ''programming_language'')], mk_sources = [(''hh'', ''HeadHunter'')]\<rparr>"

definition example_market :: market where
  "example_market = \<lparr>db_data = example_tables, db_tick = 0\<rparr>"

definition example_analytics :: AnalyticsFilter where
  "example_analytics = \<lparr>af_Period = \<lparr>pd_From = 9 * Day, pd_To = 15 * Day\<rparr>, af_RoleID = '''', af_RoleGroup = '''', af_RegionID = '''', af_Source = '''',
     af_Currency = ''RUB''\<rparr>"

definition example_listing :: VacancyFilter where
  "example_listing = \<lparr>vf_Query = '''', vf_RoleIDs = [], vf_RegionIDs = [], vf_SkillIDs = [], vf_Source = '''', vf_OnlyActive = True,
     vf_SalaryMin = None, vf_SalaryMax = None, vf_PublishedFrom = None, vf_PublishedTo = None, vf_Page = \<lparr>pg_Number = 1, pg_Size = 1\<rparr>,
     vf_Currency = ''RUB''\<rparr>"

lemma market_read_live: "db_fails (me_db env) = (\<lambda>_. False) \<Longrightarrow>
    market_read env label f s = (s\<lparr>db_tick := Suc (db_tick s)\<rparr>, Inr (f (db_now (me_db env) (db_tick s)) (db_data s)))"
  by (simp add: market_read_def stmt_def Let_def)

lemma example_live: "db_fails (me_db example_env) = (\<lambda>_. False)"
  by (simp add: example_env_def)

lemma example_rub: "displayCurrency ''RUB'' = ''RUB''" "displayCurrency ''USD'' = ''USD''"
  by (simp_all add: displayCurrency_def)

lemmas example_values = example_env_def example_tables_def example_market_def example_analytics_def example_listing_def offered_def named_def
  no_tables_def

lemma example_read: "ListVacancies example_env (example_listing\<lparr>vf_Page := p\<rparr>) example_market
   = (example_market\<lparr>db_tick := 2\<rparr>, Inr \<lparr>vp_Data = listing_rows example_env (example_listing\<lparr>vf_Page := p\<rparr>) rub_rate (20 * Day) example_tables,
        vp_Page = pg_Number p, vp_PageSize = pg_Size p, vp_Total = length (filter (listed example_env example_listing rub_rate example_tables) (pt_vacancies (mk_store example_tables)))\<rparr>)"
  by (simp add: ListVacancies_def and_do_def give_def currentDisplayRate_def market_read_live [OF example_live] example_listing_def example_market_def
      example_rub listed_def [abs_def]) (simp add: example_env_def)

lemma example_listed: "filter (listed example_env example_listing rub_rate example_tables) (pt_vacancies (mk_store example_tables))
    = [offered ''a'' (10 * Day) 100000, offered ''b'' (11 * Day) 150000]"
  by (simp add: example_values listed_def not_deleted_def in_scope_of_def one_of_def at_least_def at_most_def published_between_def toCanonicalRUB_def)

theorem listing_tiles_witness:
  "concat (map (\<lambda>k. map lv_ID (listing_rows example_env (example_listing\<lparr>vf_Page := \<lparr>pg_Number = int k + 1, pg_Size = int 1\<rparr>\<rparr>) rub_rate (20 * Day)
     example_tables)) [0..<2]) = [''b'', ''a'']"
proof -
  have "displayCurrency (vf_Currency example_listing) = ''RUB''" by (simp add: example_listing_def example_rub)
  moreover have "\<forall>v \<in> set (pt_vacancies (mk_store example_tables)). map_of (mk_sources example_tables) (va_source v) \<noteq> None"
    "distinct (map va_id (pt_vacancies (mk_store example_tables)))" by (simp_all add: example_values)
  moreover have "db_data example_market = example_tables" by (simp add: example_market_def)
  ultimately show ?thesis
    using listing_tiles [where env = example_env and f = example_listing and m = 2 and n = 1 and d = example_tables and st = "\<lambda>_. example_market",
        OF _ example_read] by (simp add: example_listed numeral_2_eq_2 listing_key_def offered_def less_eq_prod_def Day_def)
qed

lemma example_published: "published_in example_env (af_Period example_analytics) (offered i t m) \<longleftrightarrow> 9 * Day \<le> t \<and> t < 16 * Day"
  by (simp add: published_in_def in_period_def example_env_def example_analytics_def offered_def day_start_def add_days_def Day_def)

lemma example_roles: "grouped (filter (\<lambda>r. nm_active r \<and> market_family r) (pt_roles (mk_store example_tables))) (role_members example_env example_analytics example_tables)
    = [(named ''dev'', [offered ''a'' (10 * Day) 100000, offered ''b'' (11 * Day) 150000])]"
proof -
  have "role_members example_env example_analytics example_tables (named ''dev'') = [offered ''a'' (10 * Day) 100000, offered ''b'' (11 * Day) 150000]"
    by (simp add: role_members_def with_role_def example_tables_def example_published Day_def)
       (simp add: offered_def named_def not_deleted_def given_id_def given_source_def example_analytics_def)
  then show ?thesis
    by (simp add: grouped_def example_tables_def) (simp add: named_def market_family_def market_families_def)
qed

theorem quartiles_ordered_witness:
  "\<exists>s' page x. ListRoles example_env example_analytics \<lparr>pg_Number = 1, pg_Size = 20\<rparr> '''' example_market = (s', Inr page)
     \<and> x \<in> set (dq_Data page) \<and> dm_ID x = ''dev'' \<and> dm_P25 x \<le> dm_Median x \<and> dm_Median x \<le> dm_P75 x"
proof -
  let ?stat = "dimension_stat (named ''dev'', [offered ''a'' (10 * Day) 100000, offered ''b'' (11 * Day) 150000])"
  have stats: "role_stats example_env example_analytics '''' example_tables = [?stat]"
    by (simp add: role_stats_def example_roles Let_def)
  let ?page = "dimension_page ''RUB'' \<lparr>pg_Number = 1, pg_Size = 20\<rparr> [?stat] rub_rate"
  have run: "\<exists>s'. ListRoles example_env example_analytics \<lparr>pg_Number = 1, pg_Size = 20\<rparr> '''' example_market = (s', Inr ?page)"
    by (simp add: ListRoles_def and_do_def give_def market_read_live [OF example_live] currentDisplayRate_def example_rub example_market_def stats)
       (simp add: example_analytics_def example_rub)
  have x: "in_currency ''RUB'' rub_rate ?stat \<in> set (dq_Data ?page)" "dm_ID (in_currency ''RUB'' rub_rate ?stat) = ''dev''"
    by (simp_all add: dimension_page_def page_slice_def in_currency_def dimension_stat_def named_def)
  from run obtain s' where r: "ListRoles example_env example_analytics \<lparr>pg_Number = 1, pg_Size = 20\<rparr> '''' example_market = (s', Inr ?page)" by blast
  from quartiles_ordered [OF disjI1 [OF r] x(1)] r x show ?thesis by blast
qed

theorem ranking_sound_witness:
  "\<exists>s' page. ProgrammingLanguages example_env example_analytics \<lparr>pg_Number = 1, pg_Size = 20\<rparr> ''count'' example_market = (s', Inr page)
     \<and> map ri_ID (rk_Data page) = [''Go''] \<and> map ri_Rank (rk_Data page) = [1] \<and> list_all (ranked_well ''count'' (rk_Denominator page)) (rk_Data page)"
proof -
  let ?vs = "[offered ''a'' (10 * Day) 100000, offered ''b'' (11 * Day) 150000]"
  have "filter (\<lambda>v. in_scope_of example_tables ''vacancy_listing'' v \<and> List.member (pt_vacancy_skills (mk_store example_tables)) (va_id v, nm_id (named ''Go'')))
      (ranking_vacancies example_env example_analytics example_tables) = ?vs"
    by (simp add: ranking_vacancies_def example_tables_def example_published Day_def)
       (simp add: in_scope_of_def offered_def named_def not_deleted_def selected_def given_id_def given_source_def example_analytics_def)
  then have dim: "language_dimension example_env example_analytics example_tables = [(named ''Go'', ?vs)]"
    by (simp add: language_dimension_def grouped_def example_tables_def) (simp add: named_def)
  let ?rows = "ranking_rows example_env ''count'' [(named ''Go'', ?vs)]"
  have ids: "map ri_ID ?rows = [''Go'']"
    by (simp add: ranking_rows_order ranking_order_def ranked_item_def) (simp add: ranking_stat_def named_def)
  then have len: "length ?rows = 1" by (metis length_map length_Cons list.size(3) One_nat_def)
  have "\<exists>s' page. ProgrammingLanguages example_env example_analytics \<lparr>pg_Number = 1, pg_Size = 20\<rparr> ''count'' example_market = (s', Inr page)"
    by (simp add: ProgrammingLanguages_def ranking_query_def and_do_def give_def market_read_live [OF example_live] currentDisplayRate_def)
  then obtain s' page where run: "ProgrammingLanguages example_env example_analytics \<lparr>pg_Number = 1, pg_Size = 20\<rparr> ''count'' example_market = (s', Inr page)"
    by blast
  have data: "db_data example_market = example_tables" by (simp add: example_market_def)
  obtain rate where page: "rk_Data page = map (\<lambda>x. x\<lparr>ri_Median := convertMoneyPointer (ri_MedianRUB x) rate\<rparr>) (page_slice \<lparr>pg_Number = 1, pg_Size = 20\<rparr> ?rows)"
    "rk_Total page = length ?rows"
    using ranking_page [OF run [unfolded ProgrammingLanguages_def]] unfolding data dim by blast
  have "distinct (map va_id (pt_vacancies (mk_store (db_data example_market))))" by (simp add: example_values)
  from ranking_sound [OF disjI1 [OF run] this] have sound: "map ri_Rank (rk_Data page) = page_slice \<lparr>pg_Number = 1, pg_Size = 20\<rparr> [1..<Suc (rk_Total page)]"
    "\<forall>x \<in> set (rk_Data page). ranked_well ''count'' (rk_Denominator page) x" by blast+
  have "map ri_ID (rk_Data page) = page_slice \<lparr>pg_Number = 1, pg_Size = 20\<rparr> (map ri_ID ?rows)"
    unfolding page(1) page_slice_map [symmetric] map_map by (rule map_cong) simp_all
  then have "map ri_ID (rk_Data page) = [''Go'']" unfolding ids by (simp add: page_slice_def)
  moreover have "map ri_Rank (rk_Data page) = [1]" unfolding sound(1) page(2) len by (simp add: page_slice_def)
  ultimately show ?thesis using run sound(2) by (auto simp: list_all_iff)
qed


end
