(* ===== verification/Service_Config.thy ===== *)
theory Service_Config
  imports It_Batch Discovery Scheduler Go_Regex
begin

text \<open>
  The settings the services read from their environment: \<^verbatim>\<open>apps/ingest/internal/config/config.go\<close>,
  \<^verbatim>\<open>libs/go-common/assistant/config.go\<close> and \<^verbatim>\<open>apps/bff/internal/config/config.go\<close>, with what the commands of the
  ingest service hand on to the scheduler, the batch and the discovery (\<^verbatim>\<open>cmd/scheduler/main.go\<close>,
  \<^verbatim>\<open>cmd/discovery/main.go\<close>). Arguments: the environment, where an unset variable is empty, \<^verbatim>\<open>time.ParseDuration\<close> and
  \<^verbatim>\<open>strconv.ParseFloat\<close>.
\<close>

section \<open>Variables\<close>

text \<open>A floating-point setting; \<^verbatim>\<open>ParseFloat\<close> also reads infinities and NaN.\<close>

datatype float_setting = Number float64 | Infinity bool | NaN

record service_env =
  sv_get :: "string \<Rightarrow> string"
  sv_duration :: "string \<Rightarrow> duration option"
  sv_float :: "string \<Rightarrow> float_setting option"

definition trimmed_env :: "service_env \<Rightarrow> string \<Rightarrow> string" where
  "trimmed_env env key = TrimSpace (sv_get env key)"

definition ParseBool :: "string \<Rightarrow> bool option" where
  "ParseBool s =
     (if List.member [''1'', ''t'', ''T'', ''TRUE'', ''true'', ''True''] s then Some True
      else if List.member [''0'', ''f'', ''F'', ''FALSE'', ''false'', ''False''] s then Some False
      else None)"

definition env_or :: "service_env \<Rightarrow> string \<Rightarrow> string \<Rightarrow> string" where
  "env_or env key fallback = (let v = trimmed_env env key in if v \<noteq> '''' then v else fallback)"

definition env_number :: "service_env \<Rightarrow> string \<Rightarrow> int \<Rightarrow> int" where
  "env_number env key fallback =
     (let v = trimmed_env env key in
      if v = '''' then fallback else (case Atoi v of None \<Rightarrow> fallback | Some n \<Rightarrow> n))"

definition env_max_pages :: "service_env \<Rightarrow> string \<Rightarrow> int \<Rightarrow> int" where
  "env_max_pages env key fallback = (if EqualFold (trimmed_env env key) ''all'' then 0 else env_number env key fallback)"

definition env_duration :: "service_env \<Rightarrow> string \<Rightarrow> duration \<Rightarrow> duration" where
  "env_duration env key fallback =
     (let v = trimmed_env env key in
      if v = '''' then fallback else (case sv_duration env v of None \<Rightarrow> - 1 | Some d \<Rightarrow> d))"

definition env_flag :: "service_env \<Rightarrow> string \<Rightarrow> bool \<Rightarrow> bool" where
  "env_flag env key fallback =
     (let v = trimmed_env env key in
      if v = '''' then fallback else (case ParseBool v of None \<Rightarrow> fallback | Some b \<Rightarrow> b))"

definition env_float :: "service_env \<Rightarrow> string \<Rightarrow> float64 \<Rightarrow> float_setting" where
  "env_float env key fallback =
     (let v = trimmed_env env key in
      if v = '''' then Number fallback else (case sv_float env v of None \<Rightarrow> Number (- 1) | Some x \<Rightarrow> x))"

section \<open>The ingest service\<close>

record SchedulerSettings =
  ss_Interval :: duration
  ss_RunOnStart :: bool
  ss_MaxPartitions :: int
  ss_BackoffInitial :: duration
  ss_BackoffMax :: duration
  ss_JitterPercent :: float_setting
  ss_ShutdownTimeout :: duration
  ss_TestMode :: bool

record DiscoverySettings =
  di_UTCHour :: int
  di_RunOnStart :: bool
  di_MaxRequests :: int
  di_RunTimeout :: duration
  di_RetryInterval :: duration

record IngestConfig =
  cg_DatabaseURL :: string
  cg_AppEnv :: string
  cg_LogLevel :: string
  cg_HHUserAgent :: string
  cg_HHBaseURL :: string
  cg_HHAppToken :: string
  cg_DefaultArea :: string
  cg_DefaultText :: string
  cg_PageDelay :: duration
  cg_MaxPages :: int
  cg_PerPage :: int
  cg_RunTimeout :: duration
  cg_Scope :: string
  cg_ITArea :: string
  cg_ITMaxDepth :: int
  cg_ITMaxParts :: int
  cg_ITMaxReqs :: int
  cg_FixtureDir :: string
  cg_Scheduler :: SchedulerSettings
  cg_Discovery :: DiscoverySettings

definition scheduler_settings :: "service_env \<Rightarrow> SchedulerSettings" where
  "scheduler_settings env =
     \<lparr>ss_Interval = env_duration env ''INGEST_SCHEDULER_INTERVAL'' (30 * Minute),
      ss_RunOnStart = env_flag env ''INGEST_SCHEDULER_RUN_ON_START'' True,
      ss_MaxPartitions = env_number env ''INGEST_SCHEDULER_MAX_PARTITIONS_PER_BATCH'' 8,
      ss_BackoffInitial = env_duration env ''INGEST_SCHEDULER_BACKOFF_INITIAL'' Minute,
      ss_BackoffMax = env_duration env ''INGEST_SCHEDULER_BACKOFF_MAX'' (15 * Minute),
      ss_JitterPercent = env_float env ''INGEST_SCHEDULER_JITTER_PERCENT'' 20,
      ss_ShutdownTimeout = env_duration env ''INGEST_SCHEDULER_SHUTDOWN_TIMEOUT'' (30 * Second),
      ss_TestMode = env_flag env ''INGEST_SCHEDULER_TEST_MODE'' False\<rparr>"

definition discovery_settings :: "service_env \<Rightarrow> DiscoverySettings" where
  "discovery_settings env =
     \<lparr>di_UTCHour = env_number env ''INGEST_DISCOVERY_UTC_HOUR'' 1,
      di_RunOnStart = env_flag env ''INGEST_DISCOVERY_RUN_ON_START'' False,
      di_MaxRequests = env_number env ''INGEST_DISCOVERY_MAX_REQUESTS'' 300,
      di_RunTimeout = env_duration env ''INGEST_DISCOVERY_RUN_TIMEOUT'' (4 * Hour),
      di_RetryInterval = env_duration env ''INGEST_DISCOVERY_RETRY_INTERVAL'' (15 * Minute)\<rparr>"

text \<open>Products of durations wrap around.\<close>

definition LoadIngest :: "service_env \<Rightarrow> IngestConfig" where
  "LoadIngest env =
     \<lparr>cg_DatabaseURL = trimmed_env env ''DATABASE_URL'', cg_AppEnv = env_or env ''APP_ENV'' ''local'',
      cg_LogLevel = env_or env ''LOG_LEVEL'' ''info'', cg_HHUserAgent = trimmed_env env ''HH_USER_AGENT'',
      cg_HHBaseURL = env_or env ''HH_BASE_URL'' ''https://api.hh.ru'', cg_HHAppToken = trimmed_env env ''HH_APP_TOKEN'',
      cg_DefaultArea = env_or env ''INGEST_DEFAULT_AREA'' ''1'', cg_DefaultText = env_or env ''INGEST_DEFAULT_TEXT'' ''golang'',
      cg_PageDelay = wrap64 (max 0 (env_number env ''INGEST_PAGE_DELAY_MS'' 350) * Millisecond),
      cg_MaxPages = env_max_pages env ''INGEST_MAX_PAGES'' 5, cg_PerPage = env_number env ''INGEST_PER_PAGE'' 100,
      cg_RunTimeout = wrap64 (env_number env ''INGEST_RUN_TIMEOUT_SEC'' 1800 * Second),
      cg_Scope = env_or env ''INGEST_SCOPE'' ''query'', cg_ITArea = env_or env ''INGEST_IT_AREA'' ''113'',
      cg_ITMaxDepth = env_number env ''INGEST_IT_MAX_DEPTH'' 32, cg_ITMaxParts = env_number env ''INGEST_IT_MAX_PARTITIONS'' 512,
      cg_ITMaxReqs = env_number env ''INGEST_IT_MAX_REQUESTS'' 500, cg_FixtureDir = trimmed_env env ''INGEST_FIXTURE_DIR'',
      cg_Scheduler = scheduler_settings env, cg_Discovery = discovery_settings env\<rparr>"

datatype setting_error =
    NoDatabaseURL | NoUserAgent | BadRunTimeout | BadMaxPages | BadPerPage | BadScope | BadCeilings
  | NotITScope | NoPages | RequestsTooFew | BadInterval duration | BadBackoffInitial | BadMaxBatch | BadBackoffMax
  | BadJitter | BadShutdown | BadHour | BadDiscoveryRequests | BadDiscoveryTimeout | BadRetryInterval

definition ValidateLive :: "IngestConfig \<Rightarrow> setting_error option" where
  "ValidateLive c =
     (if cg_DatabaseURL c = '''' then Some NoDatabaseURL
      else if cg_FixtureDir c = '''' \<and> cg_HHUserAgent c = '''' then Some NoUserAgent
      else if cg_RunTimeout c \<le> 0 then Some BadRunTimeout
      else if cg_MaxPages c < 0 then Some BadMaxPages
      else if cg_PerPage c < 1 \<or> cg_PerPage c > 100 then Some BadPerPage
      else if cg_Scope c \<noteq> ''query'' \<and> cg_Scope c \<noteq> ''it'' then Some BadScope
      else if cg_ITMaxDepth c < 1 \<or> cg_ITMaxParts c < 1 \<or> cg_ITMaxReqs c < 1 then Some BadCeilings
      else None)"

text \<open>\<^verbatim>\<open>x < 0 || x > 100\<close>, which a NaN never is.\<close>

fun beyond_percent :: "float_setting \<Rightarrow> bool" where
  "beyond_percent (Number x) \<longleftrightarrow> x < 0 \<or> x > 100"
| "beyond_percent (Infinity negative) \<longleftrightarrow> True"
| "beyond_percent NaN \<longleftrightarrow> False"

definition ValidateScheduler :: "IngestConfig \<Rightarrow> setting_error option" where
  "ValidateScheduler c =
     (case ValidateLive c of
        Some e \<Rightarrow> Some e
      | None \<Rightarrow>
          (let s = cg_Scheduler c; minInterval = (if ss_TestMode s then Millisecond else 10 * Minute) in
           if cg_Scope c \<noteq> ''it'' then Some NotITScope
           else if cg_MaxPages c < 1 then Some NoPages
           else if cg_ITMaxReqs c < cg_PerPage c + 1 then Some RequestsTooFew
           else if ss_Interval s < minInterval then Some (BadInterval minInterval)
           else if ss_BackoffInitial s \<le> 0 then Some BadBackoffInitial
           else if ss_MaxPartitions s < 1 then Some BadMaxBatch
           else if ss_BackoffMax s < ss_BackoffInitial s then Some BadBackoffMax
           else if beyond_percent (ss_JitterPercent s) then Some BadJitter
           else if ss_ShutdownTimeout s \<le> 0 then Some BadShutdown
           else None))"

definition ValidateDiscovery :: "IngestConfig \<Rightarrow> setting_error option" where
  "ValidateDiscovery c =
     (case ValidateLive c of
        Some e \<Rightarrow> Some e
      | None \<Rightarrow>
          (let d = cg_Discovery c in
           if di_UTCHour d < 0 \<or> di_UTCHour d > 23 then Some BadHour
           else if di_MaxRequests d < 10 \<or> di_MaxRequests d > 1000 then Some BadDiscoveryRequests
           else if di_RunTimeout d \<le> 0 \<or> di_RunTimeout d > 24 * Hour then Some BadDiscoveryTimeout
           else if di_RetryInterval d < Minute then Some BadRetryInterval
           else None))"

section \<open>What the commands hand on\<close>

text \<open>The scheduler command, for a jitter that is a number.\<close>

definition engine_settings :: "IngestConfig \<Rightarrow> float64 \<Rightarrow> SchedConfig" where
  "engine_settings c jitter = (let s = cg_Scheduler c in
     \<lparr>sc_Interval = ss_Interval s, sc_RunOnStart = ss_RunOnStart s, sc_BackoffInitial = ss_BackoffInitial s,
      sc_BackoffMax = ss_BackoffMax s, sc_JitterPercent = jitter, sc_ShutdownTimeout = ss_ShutdownTimeout s\<rparr>)"

definition batch_settings :: "IngestConfig \<Rightarrow> string \<Rightarrow> Options \<Rightarrow> ITBatchOptions" where
  "batch_settings c schedulerRunID opts =
     \<lparr>ib_Area = cg_ITArea c, ib_PerPage = cg_PerPage c, ib_MaxDepth = cg_ITMaxDepth c, ib_MaxPartitions = cg_ITMaxParts c,
      ib_MaxBatchParts = ss_MaxPartitions (cg_Scheduler c), ib_MaxPagesPerPart = cg_MaxPages c, ib_MaxRequests = cg_ITMaxReqs c,
      ib_Now = 0, ib_RequestedBy = schedulerRunID, ib_Normalize = opts\<rparr>"

definition discovery_options :: "IngestConfig \<Rightarrow> time \<Rightarrow> time \<Rightarrow> time \<Rightarrow> Options \<Rightarrow> DiscoveryOptions" where
  "discovery_options c cycleDate cutoff now opts =
     \<lparr>do_Area = cg_ITArea c, do_PerPage = cg_PerPage c, do_MaxDepth = cg_ITMaxDepth c, do_MaxPartitions = cg_ITMaxParts c,
      do_MaxRequests = di_MaxRequests (cg_Discovery c), do_Earliest = 0, do_CycleDate = cycleDate, do_CutoffAt = cutoff,
      do_ObservedAt = now, do_Normalize = opts\<rparr>"

section \<open>The assistant\<close>

record AssistantConfig =
  ag_Enabled :: bool
  ag_AIEnabled :: bool
  ag_TelegramEnabled :: bool
  ag_DevAuthEnabled :: bool
  ag_DeepSeekAPIKey :: string
  ag_DeepSeekBaseURL :: string
  ag_DeepSeekModel :: string
  ag_TelegramBotToken :: string
  ag_BatchSize :: int
  ag_AIMaxBatchSize :: int
  ag_AIInputTokenBudget :: int
  ag_AIMaxOutputTokens :: int
  ag_AIConcurrency :: int
  ag_Timeout :: duration

text \<open>Here a value that does not parse, the empty one included, is the fallback.\<close>

definition asst_flag :: "service_env \<Rightarrow> string \<Rightarrow> bool \<Rightarrow> bool" where
  "asst_flag env key fallback = (case ParseBool (trimmed_env env key) of None \<Rightarrow> fallback | Some b \<Rightarrow> b)"

definition env_ranged :: "service_env \<Rightarrow> string \<Rightarrow> int \<Rightarrow> int \<Rightarrow> int \<Rightarrow> int" where
  "env_ranged env key fallback lo hi =
     (case Atoi (trimmed_env env key) of None \<Rightarrow> fallback | Some v \<Rightarrow> if v < lo \<or> v > hi then fallback else v)"

definition LoadAssistant :: "service_env \<Rightarrow> AssistantConfig" where
  "LoadAssistant env =
     \<lparr>ag_Enabled = asst_flag env ''ASSISTANT_ENABLED'' False, ag_AIEnabled = asst_flag env ''ASSISTANT_AI_ENABLED'' False,
      ag_TelegramEnabled = asst_flag env ''ASSISTANT_TELEGRAM_ENABLED'' False,
      ag_DevAuthEnabled = asst_flag env ''ASSISTANT_DEV_AUTH_ENABLED'' False,
      ag_DeepSeekAPIKey = trimmed_env env ''DEEPSEEK_API_KEY'', ag_DeepSeekBaseURL = trimmed_env env ''DEEPSEEK_BASE_URL'',
      ag_DeepSeekModel = trimmed_env env ''DEEPSEEK_MODEL'', ag_TelegramBotToken = trimmed_env env ''TELEGRAM_BOT_TOKEN'',
      ag_BatchSize = env_ranged env ''ASSISTANT_BATCH_SIZE'' 25 1 100,
      ag_AIMaxBatchSize = env_ranged env ''ASSISTANT_AI_MAX_BATCH_SIZE'' 50 1 80,
      ag_AIInputTokenBudget = env_ranged env ''ASSISTANT_AI_INPUT_TOKEN_BUDGET'' 120000 4000 900000,
      ag_AIMaxOutputTokens = env_ranged env ''ASSISTANT_AI_MAX_OUTPUT_TOKENS'' 4096 256 40000,
      ag_AIConcurrency = env_ranged env ''ASSISTANT_AI_CONCURRENCY'' 5 1 6,
      ag_Timeout = env_ranged env ''ASSISTANT_TIMEOUT_SEC'' 90 10 300 * Second\<rparr>"

section \<open>The read API\<close>

record BffConfig =
  bg_HTTPAddr :: string
  bg_DatabaseURL :: string
  bg_RedisURL :: string
  bg_AppEnv :: string
  bg_LogLevel :: string
  bg_AssistantEnabled :: bool
  bg_AssistantLocalStore :: bool
  bg_AssistantDevAuthEnabled :: bool
  bg_AssistantDevSubject :: string
  bg_AssistantTelegramEnabled :: bool
  bg_AssistantAIEnabled :: bool

definition normalizeAddr :: "string \<Rightarrow> string" where
  "normalizeAddr v = (if Contains v '':'' then v else '':'' @ v)"

definition resolveHTTPAddr :: "service_env \<Rightarrow> string" where
  "resolveHTTPAddr env =
     (if trimmed_env env ''BFF_HTTP_ADDR'' \<noteq> '''' then normalizeAddr (trimmed_env env ''BFF_HTTP_ADDR'')
      else if trimmed_env env ''BFF_PORT'' \<noteq> '''' then normalizeAddr (trimmed_env env ''BFF_PORT'')
      else if trimmed_env env ''PORT'' \<noteq> '''' then normalizeAddr (trimmed_env env ''PORT'')
      else '':8080'')"

definition LoadBff :: "service_env \<Rightarrow> BffConfig" where
  "LoadBff env =
     \<lparr>bg_HTTPAddr = resolveHTTPAddr env, bg_DatabaseURL = trimmed_env env ''DATABASE_URL'', bg_RedisURL = trimmed_env env ''REDIS_URL'',
      bg_AppEnv = env_or env ''APP_ENV'' ''local'', bg_LogLevel = env_or env ''LOG_LEVEL'' ''info'',
      bg_AssistantEnabled = asst_flag env ''ASSISTANT_ENABLED'' False,
      bg_AssistantLocalStore = asst_flag env ''ASSISTANT_LOCAL_STORE'' False,
      bg_AssistantDevAuthEnabled = asst_flag env ''ASSISTANT_DEV_AUTH_ENABLED'' False,
      bg_AssistantDevSubject = env_or env ''ASSISTANT_DEV_SUBJECT'' ''local-dev-user'',
      bg_AssistantTelegramEnabled = (asst_flag env ''ASSISTANT_TELEGRAM_ENABLED'' False \<and> trimmed_env env ''TELEGRAM_BOT_TOKEN'' \<noteq> ''''),
      bg_AssistantAIEnabled = (asst_flag env ''ASSISTANT_AI_ENABLED'' False \<and> asst_flag env ''ASSISTANT_AI_LIVE_TEST'' False
         \<and> trimmed_env env ''DEEPSEEK_API_KEY'' \<noteq> '''')\<rparr>"

section \<open>Accepted settings\<close>

text \<open>
  What the scheduler accepts is accepted by everything it configures: an environment that passes the validation of the
  scheduler command, with a jitter that is a number, gives an engine whose own validation passes, a batch whose options
  pass the guard of \<^verbatim>\<open>RunITBatch\<close>, and a request ceiling that pays for a full search page with all its details.
\<close>

theorem scheduler_settings_accepted:
  assumes "ValidateScheduler c = None" and "ss_JitterPercent (cg_Scheduler c) = Number jitter"
  shows "Config_Validate (engine_settings c jitter) (ss_TestMode (cg_Scheduler c)) = None
     \<and> batch_guard (batch_settings c run opts) = None
     \<and> ib_PerPage (batch_settings c run opts) + 1 \<le> ib_MaxRequests (batch_settings c run opts)"
  using assms
  by (auto simp: ValidateScheduler_def ValidateLive_def Config_Validate_def engine_settings_def batch_guard_None valid_batch_def
      batch_settings_def MaxPerPage_def Let_def split: if_splits option.splits)

text \<open>A jitter that is not a number passes the validation.\<close>

lemma ValidateLive_scheduler [simp]: "ValidateLive (c\<lparr>cg_Scheduler := x\<rparr>) = ValidateLive c"
  by (simp add: ValidateLive_def)

lemma nan_jitter_accepted:
  assumes "ValidateScheduler (c\<lparr>cg_Scheduler := (cg_Scheduler c)\<lparr>ss_JitterPercent := Number 0\<rparr>\<rparr>) = None"
  shows "ValidateScheduler (c\<lparr>cg_Scheduler := (cg_Scheduler c)\<lparr>ss_JitterPercent := NaN\<rparr>\<rparr>) = None"
proof -
  have live: "ValidateLive c = None" using assms by (cases "ValidateLive c") (simp_all add: ValidateScheduler_def)
  show ?thesis using assms by (simp add: ValidateScheduler_def live Let_def cong: if_cong)
qed

lemma discovery_settings_accepted:
  assumes "ValidateDiscovery c = None"
  shows "1 \<le> do_PerPage (discovery_options c cycleDate cutoff now opts) \<and> do_PerPage (discovery_options c cycleDate cutoff now opts) \<le> MaxPerPage
     \<and> 10 \<le> do_MaxRequests (discovery_options c cycleDate cutoff now opts)"
  using assms by (auto simp: ValidateDiscovery_def ValidateLive_def discovery_options_def MaxPerPage_def Let_def split: if_splits option.splits)

lemma TrimSpace_empty [simp]: "TrimSpace '''' = ''''"
  by (simp add: bytes_simps)

lemma unset [simp]: "sv_get env key = '''' \<Longrightarrow> trimmed_env env key = ''''"
  by (simp add: trimmed_env_def)

text \<open>
  With nothing set but the database, the user agent and the scope, both commands start.
\<close>

definition minimal_env :: "service_env \<Rightarrow> bool" where
  "minimal_env env \<longleftrightarrow> TrimSpace (sv_get env ''DATABASE_URL'') \<noteq> '''' \<and> TrimSpace (sv_get env ''HH_USER_AGENT'') \<noteq> ''''
     \<and> TrimSpace (sv_get env ''INGEST_SCOPE'') = ''it''
     \<and> (\<forall>key. key \<noteq> ''DATABASE_URL'' \<and> key \<noteq> ''HH_USER_AGENT'' \<and> key \<noteq> ''INGEST_SCOPE'' \<longrightarrow> sv_get env key = '''')"

lemma all_differs: "\<not> EqualFold '''' ''all''"
  by (simp add: bytes_simps)

lemma defaults_start:
  assumes "minimal_env env"
  shows "ValidateScheduler (LoadIngest env) = None \<and> ValidateDiscovery (LoadIngest env) = None"
proof -
  have unset: "trimmed_env env key = ''''" if "key \<noteq> ''DATABASE_URL''" "key \<noteq> ''HH_USER_AGENT''" "key \<noteq> ''INGEST_SCOPE''" for key
    using assms that by (simp add: minimal_env_def trimmed_env_def)
  have given: "trimmed_env env ''DATABASE_URL'' \<noteq> ''''" "trimmed_env env ''HH_USER_AGENT'' \<noteq> ''''" "trimmed_env env ''INGEST_SCOPE'' = ''it''"
    using assms by (simp_all only: minimal_env_def trimmed_env_def not_False_eq_True simp_thms)
  note vars = env_or_def env_number_def env_max_pages_def env_duration_def env_flag_def env_float_def unset given all_differs Let_def
  have live: "ValidateLive (LoadIngest env) = None"
    by (simp add: ValidateLive_def LoadIngest_def vars Second_def wrap64_def)
  have "ValidateScheduler (LoadIngest env) = None"
    unfolding ValidateScheduler_def live by (simp add: LoadIngest_def scheduler_settings_def vars time_units)
  moreover have "ValidateDiscovery (LoadIngest env) = None"
    unfolding ValidateDiscovery_def live by (simp add: LoadIngest_def discovery_settings_def vars time_units)
  ultimately show ?thesis by blast
qed

text \<open>The ranges of the assistant hold for every environment.\<close>

lemma env_ranged_range: "lo \<le> fallback \<Longrightarrow> fallback \<le> hi \<Longrightarrow> lo \<le> env_ranged env key fallback lo hi \<and> env_ranged env key fallback lo hi \<le> hi"
  by (auto simp: env_ranged_def split: option.split)

lemma assistant_ranges:
  "1 \<le> ag_BatchSize (LoadAssistant env) \<and> ag_BatchSize (LoadAssistant env) \<le> 100
     \<and> 1 \<le> ag_AIMaxBatchSize (LoadAssistant env) \<and> ag_AIMaxBatchSize (LoadAssistant env) \<le> 80
     \<and> 1 \<le> ag_AIConcurrency (LoadAssistant env) \<and> ag_AIConcurrency (LoadAssistant env) \<le> 6
     \<and> 10 * Second \<le> ag_Timeout (LoadAssistant env) \<and> ag_Timeout (LoadAssistant env) \<le> 300 * Second"
  using env_ranged_range [of 1 25 100 env "''ASSISTANT_BATCH_SIZE''"] env_ranged_range [of 1 50 80 env "''ASSISTANT_AI_MAX_BATCH_SIZE''"]
    env_ranged_range [of 1 5 6 env "''ASSISTANT_AI_CONCURRENCY''"] env_ranged_range [of 10 90 300 env "''ASSISTANT_TIMEOUT_SEC''"]
  by (simp add: LoadAssistant_def Second_def)

text \<open>The read API always listens on an address with a port separator, and offers AI only with a key and both switches.\<close>

lemma http_address: "Contains (bg_HTTPAddr (LoadBff env)) '':''"
  by (simp add: LoadBff_def resolveHTTPAddr_def normalizeAddr_def HasPrefix_def)

lemma ai_needs_key: "bg_AssistantAIEnabled (LoadBff env) \<Longrightarrow> trimmed_env env ''DEEPSEEK_API_KEY'' \<noteq> ''''"
  by (simp add: LoadBff_def)

definition example_service_env :: service_env where
  "example_service_env = \<lparr>sv_get = (\<lambda>key. if key = ''DATABASE_URL'' then ''db'' else if key = ''HH_USER_AGENT'' then ''agent''
     else if key = ''INGEST_SCOPE'' then ''it'' else ''''), sv_duration = (\<lambda>_. None), sv_float = (\<lambda>_. None)\<rparr>"

theorem scheduler_settings_accepted_witness:
  "Config_Validate (engine_settings (LoadIngest example_service_env) 20) False = None
     \<and> batch_guard (batch_settings (LoadIngest example_service_env) ''run'' sample_options) = None"
proof -
  have "minimal_env example_service_env" by (simp add: minimal_env_def example_service_env_def bytes_simps)
  then have "ValidateScheduler (LoadIngest example_service_env) = None" by (simp add: defaults_start)
  moreover have "ss_JitterPercent (cg_Scheduler (LoadIngest example_service_env)) = Number 20"
    "\<not> ss_TestMode (cg_Scheduler (LoadIngest example_service_env))"
    by (simp_all add: LoadIngest_def scheduler_settings_def env_float_def env_flag_def trimmed_env_def example_service_env_def Let_def)
  ultimately show ?thesis using scheduler_settings_accepted [of "LoadIngest example_service_env" 20 "''run''" sample_options] by simp
qed

end
