(* ===== verification/Heartbeat.thy ===== *)
theory Heartbeat
  imports Assist_Store
begin

text \<open>
  The heartbeat of an assistant worker process, \<^verbatim>\<open>libs/go-common/assistant/process_heartbeat.go\<close>. The store and the
  waiting are arguments, as they are interfaces of the code; \<^theory_text>\<open>Assist_Store\<close> has the statements behind them. The
  goroutine of the loop is a function of the rounds it makes; the state another goroutine sets is read from the world.
\<close>

section \<open>Starting\<close>

definition WorkerHeartbeatInterval :: duration where "WorkerHeartbeatInterval = 10 * Second"

record ProcessHeartbeatOptions =
  ho_InstanceID :: string
  ho_StartedAt :: time
  ho_Version :: string
  ho_Mode :: string
  ho_Interval :: duration
  ho_RetryDelay :: duration

record 'w HeartbeatEnv =
  he_random :: "'w \<Rightarrow> 'w \<times> nat list option"
  he_clock :: "'w \<Rightarrow> time"
  he_wait :: "'w \<Rightarrow> duration \<Rightarrow> 'w \<times> bool"
  he_state :: "'w \<Rightarrow> string"
  he_upsert :: "'w \<Rightarrow> WorkerProcessHeartbeat \<Rightarrow> 'w \<times> bool"
  he_stop :: "('w \<Rightarrow> string \<Rightarrow> 'w) option"

record ProcessHeartbeat =
  hb_info :: WorkerProcessHeartbeat
  hb_interval :: duration
  hb_retry :: duration
  hb_stopped :: bool

datatype heartbeat_error = HeartbeatStoreRequired | NoInstanceID

text \<open>The identifier: 16 random bytes with the version and the variant of a UUID.\<close>

definition uuid_bytes :: "nat list \<Rightarrow> nat list" where
  "uuid_bytes bs = bs[6 := bs ! 6 mod 16 + 64, 8 := bs ! 8 mod 64 + 128]"

definition uuid_text :: "nat list \<Rightarrow> string" where
  "uuid_text bs = EncodeToString (take 4 bs) @ ''-'' @ EncodeToString (take 2 (drop 4 bs)) @ ''-'' @ EncodeToString (take 2 (drop 6 bs))
     @ ''-'' @ EncodeToString (take 2 (drop 8 bs)) @ ''-'' @ EncodeToString (take 6 (drop 10 bs))"

definition newWorkerInstanceID :: "'w HeartbeatEnv \<Rightarrow> 'w \<Rightarrow> 'w \<times> string option" where
  "newWorkerInstanceID env w = (case he_random env w of (w, bs) \<Rightarrow> (w, map_option (\<lambda>bs. uuid_text (uuid_bytes bs)) bs))"

definition heartbeat_defaults :: "time \<Rightarrow> ProcessHeartbeatOptions \<Rightarrow> ProcessHeartbeatOptions" where
  "heartbeat_defaults now opts =
     (let interval = (if ho_Interval opts \<le> 0 then WorkerHeartbeatInterval else ho_Interval opts) in
      opts\<lparr>ho_StartedAt := if IsZero (ho_StartedAt opts) then now else ho_StartedAt opts,
        ho_Version := if ho_Version opts = '''' then ''dev'' else ho_Version opts,
        ho_Mode := if ho_Mode opts = '''' then ''continuous'' else ho_Mode opts,
        ho_Interval := interval,
        ho_RetryDelay := if ho_RetryDelay opts \<le> 0 \<or> ho_RetryDelay opts > interval then 2 * Second else ho_RetryDelay opts\<rparr>)"

definition heartbeat_of :: "ProcessHeartbeatOptions \<Rightarrow> ProcessHeartbeat" where
  "heartbeat_of opts =
     \<lparr>hb_info = \<lparr>ph_InstanceID = ho_InstanceID opts, ph_StartedAt = ho_StartedAt opts, ph_Version = ho_Version opts,
        ph_Mode = ho_Mode opts, ph_State = ''idle''\<rparr>,
      hb_interval = ho_Interval opts, hb_retry = ho_RetryDelay opts, hb_stopped = False\<rparr>"

definition StartProcessHeartbeat :: "'w HeartbeatEnv option \<Rightarrow> ProcessHeartbeatOptions \<Rightarrow> 'w \<Rightarrow> 'w \<times> (heartbeat_error + ProcessHeartbeat)" where
  "StartProcessHeartbeat store opts w =
     (case store of
        None \<Rightarrow> (w, Inl HeartbeatStoreRequired)
      | Some env \<Rightarrow>
          if ho_InstanceID opts = ''''
          then (case newWorkerInstanceID env w of
                  (w, None) \<Rightarrow> (w, Inl NoInstanceID)
                | (w, Some i) \<Rightarrow> (w, Inr (heartbeat_of (heartbeat_defaults (he_clock env w) (opts\<lparr>ho_InstanceID := i\<rparr>)))))
          else (w, Inr (heartbeat_of (heartbeat_defaults (he_clock env w) opts))))"

definition SetState :: "string \<Rightarrow> ProcessHeartbeat \<Rightarrow> ProcessHeartbeat" where
  "SetState state h = h\<lparr>hb_info := (hb_info h)\<lparr>ph_State := if List.member [''idle'', ''processing'', ''backoff''] state then state else ''idle''\<rparr>\<rparr>"

text \<open>Only the first call stops the loop and tells the store, when the store can be told.\<close>

definition StopHeartbeat :: "'w HeartbeatEnv \<Rightarrow> ProcessHeartbeat \<Rightarrow> 'w \<Rightarrow> 'w \<times> ProcessHeartbeat" where
  "StopHeartbeat env h w =
     (if hb_stopped h then (w, h)
      else ((case he_stop env of None \<Rightarrow> w | Some stop \<Rightarrow> stop w (ph_InstanceID (hb_info h))), h\<lparr>hb_stopped := True\<rparr>))"

section \<open>The loop\<close>

record heartbeat_beat =
  bt_sent :: time
  bt_answered :: time
  bt_worked :: bool

text \<open>At most \<open>n\<close> rounds, with when each beat was sent and answered and whether it worked.\<close>

fun heartbeat_loop :: "'w HeartbeatEnv \<Rightarrow> ProcessHeartbeat \<Rightarrow> nat \<Rightarrow> duration \<Rightarrow> 'w \<Rightarrow> 'w \<times> heartbeat_beat list" where
  "heartbeat_loop env h 0 delay w = (w, [])"
| "heartbeat_loop env h (Suc n) delay w =
     (case (if delay > 0 then he_wait env w delay else (w, True)) of
        (w, False) \<Rightarrow> (w, [])
      | (w, True) \<Rightarrow>
          (case he_upsert env w (hb_info (SetState (he_state env w) h)) of
             (w1, worked) \<Rightarrow>
               (case heartbeat_loop env h n (if worked then hb_interval h else hb_retry h) w1 of
                  (w2, beats) \<Rightarrow> (w2, \<lparr>bt_sent = he_clock env w, bt_answered = he_clock env w1, bt_worked = worked\<rparr> # beats))))"

section \<open>A worker stays available\<close>

text \<open>A wait ends when it is due, and a statement is given up after five seconds.\<close>

definition timely :: "'w HeartbeatEnv \<Rightarrow> bool" where
  "timely env \<longleftrightarrow> (\<forall>w d w' b. he_wait env w d = (w', b) \<longrightarrow> he_clock env w' \<le> he_clock env w + d)
     \<and> (\<forall>w i w' b. he_upsert env w i = (w', b) \<longrightarrow> he_clock env w' \<le> he_clock env w + 5 * Second)"

definition next_delay :: "ProcessHeartbeat \<Rightarrow> bool \<Rightarrow> duration" where
  "next_delay h worked = (if worked then hb_interval h else hb_retry h)"

fun spaced :: "ProcessHeartbeat \<Rightarrow> heartbeat_beat list \<Rightarrow> bool" where
  "spaced h (x # y # beats) \<longleftrightarrow> bt_answered y \<le> bt_answered x + next_delay h (bt_worked x) + 5 * Second \<and> spaced h (y # beats)"
| "spaced h _ \<longleftrightarrow> True"

lemma heartbeat_loop_spaced:
  assumes "timely env" "0 \<le> hb_interval h" "0 \<le> hb_retry h"
  shows "heartbeat_loop env h n delay w = (w', beats) \<Longrightarrow> 0 \<le> delay
    \<Longrightarrow> spaced h beats \<and> (\<forall>x \<in> set beats. bt_answered x \<le> bt_sent x + 5 * Second)
      \<and> (\<forall>x ys. beats = x # ys \<longrightarrow> bt_answered x \<le> he_clock env w + delay + 5 * Second)"
proof (induction n arbitrary: delay w w' beats)
  case (Suc n)
  obtain w0 go where wait: "(if delay > 0 then he_wait env w delay else (w, True)) = (w0, go)" by (metis surj_pair)
  then have c0: "he_clock env w0 \<le> he_clock env w + delay"
    using assms(1) Suc.prems(2) by (auto simp: timely_def split: if_splits)
  show ?case
  proof (cases go)
    case False
    with Suc.prems wait show ?thesis by simp
  next
    case True
    obtain w1 worked where up: "he_upsert env w0 (hb_info (SetState (he_state env w0) h)) = (w1, worked)" by (metis surj_pair)
    then have c1: "he_clock env w1 \<le> he_clock env w0 + 5 * Second" using assms(1) unfolding timely_def by blast
    obtain w2 rest where rest: "heartbeat_loop env h n (next_delay h worked) w1 = (w2, rest)" by (metis surj_pair)
    have "0 \<le> next_delay h worked" using assms(2,3) by (simp add: next_delay_def)
    from Suc.IH [OF rest this] have ih: "spaced h rest" "\<forall>x \<in> set rest. bt_answered x \<le> bt_sent x + 5 * Second"
      "\<forall>x ys. rest = x # ys \<longrightarrow> bt_answered x \<le> he_clock env w1 + next_delay h worked + 5 * Second"
      by blast+
    have beats: "beats = \<lparr>bt_sent = he_clock env w0, bt_answered = he_clock env w1, bt_worked = worked\<rparr> # rest"
      using Suc.prems(1) wait True up rest by (simp add: next_delay_def)
    have "spaced h beats" using ih beats by (cases rest) auto
    with ih(2) beats c0 c1 show ?thesis by auto
  qed
qed simp

lemma spaced_failures:
  assumes "spaced h (x # fails @ y # rest)" "\<forall>z \<in> set fails. \<not> bt_worked z"
  shows "bt_answered y \<le> bt_answered x + next_delay h (bt_worked x) + 5 * Second + int (length fails) * (hb_retry h + 5 * Second)"
  using assms
proof (induction fails arbitrary: x)
  case (Cons z fails)
  then have "bt_answered z \<le> bt_answered x + next_delay h (bt_worked x) + 5 * Second" "spaced h (z # fails @ y # rest)" "\<not> bt_worked z" by simp_all
  with Cons.IH [of z] Cons.prems(2) show ?case by (simp add: next_delay_def algebra_simps)
qed simp

lemma spaced_suffix: "spaced h (xs @ ys) \<Longrightarrow> spaced h ys"
  by (induction xs) (auto elim: spaced.elims(2))

lemma default_delays:
  assumes "StartProcessHeartbeat (Some env) opts w = (w', Inr h)" "ho_Interval opts \<le> 0" "ho_RetryDelay opts \<le> 0"
  shows "hb_interval h = 10 * Second \<and> hb_retry h = 2 * Second"
  using assms by (auto simp: StartProcessHeartbeat_def heartbeat_of_def heartbeat_defaults_def WorkerHeartbeatInterval_def Let_def split: if_splits prod.splits option.splits)

text \<open>
  C36. A worker outlives two lost beats: with the default delays, and a database that answers or is given up within five
  seconds, at most 34 seconds pass from sending a beat that works to the answer of the next one that works when at most
  two between them fail, so a worker that is alive does not pass the 40 seconds after which the API calls it offline.
\<close>

theorem heartbeat_available:
  assumes "StartProcessHeartbeat (Some env) opts w = (w1, Inr h)" "ho_Interval opts \<le> 0" "ho_RetryDelay opts \<le> 0" "timely env"
    and "snd (heartbeat_loop env h n 0 w1) = earlier @ x # fails @ y # later"
    and "bt_worked x" "\<forall>z \<in> set fails. \<not> bt_worked z" "length fails \<le> 2"
  shows "bt_answered y - bt_sent x \<le> 34 * Second \<and> bt_answered y - bt_sent x < WorkerAvailabilityTTL"
proof -
  have d: "hb_interval h = 10 * Second" "hb_retry h = 2 * Second" using default_delays [OF assms(1-3)] by simp_all
  obtain w2 where "heartbeat_loop env h n 0 w1 = (w2, earlier @ x # fails @ y # later)"
    using assms(5) by (metis prod.collapse)
  from heartbeat_loop_spaced [OF assms(4) _ _ this] d have "spaced h (earlier @ x # fails @ y # later)"
    "bt_answered x \<le> bt_sent x + 5 * Second" by (simp_all add: Second_def)
  moreover from spaced_failures [OF spaced_suffix [OF this(1)] assms(7)]
  have "bt_answered y \<le> bt_answered x + 15 * Second + int (length fails) * (7 * Second)" by (simp add: next_delay_def d assms(6))
  moreover have "int (length fails) * (7 * Second) \<le> 2 * (7 * Second)" using assms(8) by (intro mult_right_mono) (simp_all add: Second_def)
  ultimately show ?thesis by (simp add: Second_def WorkerAvailabilityTTL_def)
qed

text \<open>A retry delay above the interval becomes two seconds, also when the interval is shorter than that.\<close>

lemma retry_beyond_interval:
  "hb_retry (heartbeat_of (heartbeat_defaults now (opts\<lparr>ho_Interval := Second, ho_RetryDelay := 0\<rparr>))) > Second"
  by (simp add: heartbeat_of_def heartbeat_defaults_def Second_def)

lemma StopHeartbeat_once: "StopHeartbeat env h w = (w1, h1) \<Longrightarrow> StopHeartbeat env h1 w2 = (w2, h1)"
  by (auto simp: StopHeartbeat_def split: if_splits)

text \<open>Two beats, the second one after a failure; the world is the clock.\<close>

definition example_heartbeat :: "(time \<times> nat) HeartbeatEnv" where
  "example_heartbeat = \<lparr>he_random = (\<lambda>w. (w, Some (replicate 16 0))), he_clock = fst, he_wait = (\<lambda>w d. ((fst w + d, snd w), True)),
     he_state = (\<lambda>_. ''processing''), he_upsert = (\<lambda>w _. ((fst w + Second, Suc (snd w)), even (snd w))), he_stop = None\<rparr>"

definition example_beat_options :: ProcessHeartbeatOptions where
  "example_beat_options = \<lparr>ho_InstanceID = ''w1'', ho_StartedAt = 5, ho_Version = '''', ho_Mode = '''', ho_Interval = 0, ho_RetryDelay = 0\<rparr>"

theorem heartbeat_available_witness:
  "\<exists>h x z y. StartProcessHeartbeat (Some example_heartbeat) example_beat_options (0, 0) = ((0, 0), Inr h)
     \<and> snd (heartbeat_loop example_heartbeat h 3 0 (0, 0)) = [x, z, y] \<and> bt_worked x \<and> \<not> bt_worked z \<and> bt_worked y
     \<and> bt_answered y - bt_sent x \<le> 34 * Second"
proof -
  define h where "h = heartbeat_of (heartbeat_defaults 0 example_beat_options)"
  have s: "StartProcessHeartbeat (Some example_heartbeat) example_beat_options (0, 0) = ((0, 0), Inr h)"
    by (simp add: StartProcessHeartbeat_def h_def example_beat_options_def example_heartbeat_def)
  have d: "hb_interval h = 10 * Second" "hb_retry h = 2 * Second" using default_delays [OF s] by (simp_all add: example_beat_options_def)
  obtain x z y where l: "snd (heartbeat_loop example_heartbeat h 3 0 (0, 0)) = [x, z, y]" "bt_worked x" "\<not> bt_worked z" "bt_worked y"
    by (simp add: numeral_3_eq_3 example_heartbeat_def d Second_def)
  have t: "timely example_heartbeat" by (simp add: timely_def example_heartbeat_def Second_def)
  have "bt_answered y - bt_sent x \<le> 34 * Second"
    using heartbeat_available [OF s _ _ t, of 3 "[]" x "[z]" y "[]"] l by (simp add: example_beat_options_def)
  with s l show ?thesis by blast
qed

end
