(* ===== verification/Spec2Isabelle.thy ===== *)
theory Spec2Isabelle
  imports Normalize Planner Runner Scheduler Discovery It_Batch Assist_Delivery Assist_Worker Analytics Read_Api Bff_Assist Pg_Store
    Assist_Store Assist_Queue Advisory_Locks Fx_Sync Market_Repo Service_Config Heartbeat
begin

text \<open>
  A verification development for it-labor-pulse, a monitor of the IT labour market. Vacancies of hh.ru are collected by
  an ingest service, normalised, stored in PostgreSQL, counted by an analytics worker, matched to the preferences of users
  by an assistant, and shown by a read API. The theories follow the Go sources file by file; a definition has the name of the
  function it models where HOL allows it.

  \<^bold>\<open>Language and libraries.\<close> \<^theory_text>\<open>Pulse_Prelude\<close> (types of the model, wrap-around of 64-bit integers, lemmas on lists and
  maps), \<^theory_text>\<open>Go_Text\<close> (strings as bytes, runes, \<^verbatim>\<open>strings\<close>, \<^verbatim>\<open>unicode\<close>), \<^theory_text>\<open>Go_Time\<close> (times as nanoseconds, calendar,
  formatting), \<^theory_text>\<open>Go_Format\<close> (escaping, decimal text, rounding), \<^theory_text>\<open>Go_Regex\<close> (the regular expressions in use),
  \<^theory_text>\<open>Http_Layer\<close> (responses, \<^verbatim>\<open>libs/go-common/httpx\<close>), \<^theory_text>\<open>Sql_Layer\<close> (a connection whose statements are numbered:
  statement, transaction, insert or update, percentile, rounding to a numeric scale).

  \<^bold>\<open>Ingest\<close> (\<^verbatim>\<open>apps/ingest\<close>, \<^verbatim>\<open>libs/go-common/normalize\<close>).
  \<^item> \<^theory_text>\<open>Normalize\<close>: the normaliser, the salary policy, exchange rates, remote detection, dictionaries, the content hash. The
    interface of the rate providers is the locale \<^theory_text>\<open>fx_contract\<close>, interpreted on both providers of the code.
  \<^item> \<^theory_text>\<open>HH_Roles\<close>, \<^theory_text>\<open>HH_Client\<close>, \<^theory_text>\<open>HH_Parse\<close>: \<^verbatim>\<open>internal/hh\<close>, the role policy, the HTTP client with its retries and request
    ceiling, the drafts and the cleaning of descriptions.
  \<^item> \<^theory_text>\<open>Checkpoint\<close>, \<^theory_text>\<open>Runner\<close>: scope and cursor of a run, and the run itself.
  \<^item> \<^theory_text>\<open>Planner\<close>, \<^theory_text>\<open>It_Batch\<close>, \<^theory_text>\<open>Discovery\<close>: the split of a search into partitions, the resumable batch over them, the
    daily cycle.
  \<^item> \<^theory_text>\<open>Mem_Store\<close>, \<^theory_text>\<open>Pg_Store\<close>: the two stores. What the runner and the batch need of a store is the locale
    \<^theory_text>\<open>checkpoint_store\<close>, which both interpret; what the daily cycle needs is \<^theory_text>\<open>discovery_store\<close>.
  \<^item> \<^theory_text>\<open>Scheduler\<close>, \<^theory_text>\<open>Advisory_Locks\<close>: the engine as a step relation, and the advisory locks of all services on one server
    (locale \<^theory_text>\<open>advisory_locks\<close>).
  \<^item> \<^theory_text>\<open>Service_Config\<close>: the settings of all services, their validation and what the ingest commands derive from them.

  \<^bold>\<open>Rates and analytics.\<close> \<^theory_text>\<open>Fx_Sync\<close> is \<^verbatim>\<open>apps/fx\<close>: the client of the central bank, its tables, the reconciliation of
  salaries and the command. \<^theory_text>\<open>Analytics\<close> is \<^verbatim>\<open>apps/analytics/worker\<close>: daily snapshots of the discovery cycles, weekly
  roll-ups, the backfill.

  \<^bold>\<open>Assistant\<close> (\<^verbatim>\<open>libs/go-common/assistant\<close>).
  \<^item> \<^theory_text>\<open>Assist_Rules\<close>, \<^theory_text>\<open>Assist_Match\<close>: roles, specialisations and the matcher; every gate interprets the locale \<^theory_text>\<open>gate\<close>.
  \<^item> \<^theory_text>\<open>Assist_AI\<close>, \<^theory_text>\<open>Assist_Worker\<close>, \<^theory_text>\<open>Assist_Delivery\<close>: the AI provider and its batches, a run of the worker, the
    messages and link tokens.
  \<^item> \<^theory_text>\<open>Assist_Store\<close>, \<^theory_text>\<open>Assist_Queue\<close>: the repository in PostgreSQL, accounts to runs and queue to outbox.
  \<^item> \<^theory_text>\<open>Heartbeat\<close>: the heartbeat of a worker process.

  \<^bold>\<open>Read API\<close> (\<^verbatim>\<open>apps/bff\<close>). \<^theory_text>\<open>Read_Api\<close> (handlers, parsers, service, freshness), \<^theory_text>\<open>Market_Repo\<close> (the queries behind
  it, over the tables of \<^theory_text>\<open>Pg_Store\<close> and \<^theory_text>\<open>Analytics\<close>), \<^theory_text>\<open>Bff_Assist\<close> (the routes of the assistant).

  \<^bold>\<open>What is shown.\<close> Invariants kept by every operation: checkpoints never pass a page that failed, at most one batch of the engine
  runs, the books of a discovery cycle balance, the states of a run and its leases. Refinement: the SQL store does to its
  tables what the memory store's contract says. Exactness: the plan covers every second once, the matcher decides as its
  rules say, snapshots and roll-ups count what they claim, pages list every vacancy once, a rate is the newest one allowed.
  Termination of the loops, error atomicity of the transactions, exclusive claims and locks, isolation of users. Where the code
  does not do what it is meant to, the theorem states what it does.

  \<^bold>\<open>Conventions.\<close>
  \<^item> A struct is a record, an enumeration or an error a datatype, a fallible function returns a sum. Calls outside the
    repository (HTTP, JSON, parsers, clocks, random numbers, identifiers, waiting) are arguments, grouped in one environment
    record per component. Their results are arbitrary unless a theorem names what it needs of them.
  \<^item> Go's \<^verbatim>\<open>int\<close> is \<^theory_text>\<open>int\<close>, with \<^theory_text>\<open>wrap64\<close> where an overflow can matter; floating-point numbers are reals. Bit patterns and
    rounding errors of floating-point numbers are therefore outside of the model, the rounding the code itself does is in it.
  \<^item> SQL statements are functions on lists of rows. A statement can fail by its number or by a constraint, a failed
    commit is a rollback. Where SQL leaves a choice open (which of two matching rows an update takes) it is an argument.
  \<^item> Goroutines and requests run one after the other; what can interleave is a step relation (the engine, the repository).
    Logging is left out.
  \<^item> A loop that need not end is a \<^theory_text>\<open>partial_function (option)\<close> (\<^theory_text>\<open>snapshot_loop\<close>, \<^theory_text>\<open>batch_waves\<close>, \<^theory_text>\<open>backfill_daily\<close>,
    \<^theory_text>\<open>discovery_loop\<close>), each with a theorem that it returns. Loops with a bound of their own count down from it: retries
    (\<^theory_text>\<open>get_loop\<close>, \<^theory_text>\<open>retry_loop\<close>, \<^theory_text>\<open>fx_retry\<close>) from the configured attempts, the walk over rates from eight days. The
    scheduler of the rates is looked at for any number of rounds.

  \<^bold>\<open>Not modelled.\<close> The \<^verbatim>\<open>main\<close> functions and their wiring (flags, environment, signals, opening pools), the HTTP server, the
  pings of the databases and the log set-up: they call libraries and the modelled operations only. The front end and the migrations
  are not Go code; the checks of the tables appear where a statement can violate them.
\<close>

end
